(* ===== verification/Novo_Prelude.thy ===== *)
theory Novo_Prelude
  imports Main "HOL-Library.Word" "HOL-Library.Monad_Syntax" "HOL-Library.Multiset"
begin

text \<open>
  Shared vocabulary of the development.

  \<^item> the fixed-width integers of the C code (\<open>u8\<close>, \<open>u16\<close>, \<open>u32\<close>) and their little-endian
    byte layout, with the round trips the table formats rest on;
  \<^item> checked access to C arrays: \<open>arr_get\<close> and \<open>arr_set\<close> give \<^term>\<open>None\<close> where the C
    code would touch memory outside the array. Every model function of type \<open>_ option\<close>
    uses \<^term>\<open>None\<close> in that one sense: undefined behaviour of the C program;
  \<^item> \<open>post\<close>, the partial-correctness judgement used to push invariants through the
    option-valued model functions, with its rules in the collection \<open>post_rules\<close>;
  \<^item> generic facts about multisets of list elements under update.
\<close>

section \<open>Machine integers\<close>

type_synonym u8 = "8 word"
type_synonym u16 = "16 word"
type_synonym u32 = "32 word"

unbundle bit_operations_syntax

named_theorems post_rules
named_theorems codec_simps

definition lo16 :: "u16 \<Rightarrow> u8" where
  "lo16 w = ucast w"

definition hi16 :: "u16 \<Rightarrow> u8" where
  "hi16 w = ucast (drop_bit 8 w)"

definition mk16 :: "u8 \<Rightarrow> u8 \<Rightarrow> u16" where
  "mk16 lo hi = (ucast lo OR push_bit 8 (ucast hi))"

definition lo32 :: "u32 \<Rightarrow> u16" where
  "lo32 w = ucast w"

definition hi32 :: "u32 \<Rightarrow> u16" where
  "hi32 w = ucast (drop_bit 16 w)"

definition mk32 :: "u16 \<Rightarrow> u16 \<Rightarrow> u32" where
  "mk32 lo hi = (ucast lo OR push_bit 16 (ucast hi))"

lemma mk16_split [simp, codec_simps]: "mk16 (lo16 w) (hi16 w) = w"
  by (rule bit_word_eqI)
    (auto simp: mk16_def lo16_def hi16_def bit_or_iff bit_push_bit_iff bit_ucast_iff
      bit_drop_bit_eq not_less)

lemma lo16_mk16 [simp, codec_simps]: "lo16 (mk16 a b) = a"
  by (rule bit_word_eqI)
    (auto simp: mk16_def lo16_def bit_or_iff bit_push_bit_iff bit_ucast_iff)

lemma hi16_mk16 [simp, codec_simps]: "hi16 (mk16 a b) = b"
  by (rule bit_word_eqI)
    (auto simp: mk16_def hi16_def bit_or_iff bit_push_bit_iff bit_ucast_iff bit_drop_bit_eq
      dest: bit_imp_le_length)

lemma mk32_split [simp, codec_simps]: "mk32 (lo32 w) (hi32 w) = w"
  by (rule bit_word_eqI)
    (auto simp: mk32_def lo32_def hi32_def bit_or_iff bit_push_bit_iff bit_ucast_iff
      bit_drop_bit_eq not_less)

lemma lo32_mk32 [simp, codec_simps]: "lo32 (mk32 a b) = a"
  by (rule bit_word_eqI)
    (auto simp: mk32_def lo32_def bit_or_iff bit_push_bit_iff bit_ucast_iff)

lemma hi32_mk32 [simp, codec_simps]: "hi32 (mk32 a b) = b"
  by (rule bit_word_eqI)
    (auto simp: mk32_def hi32_def bit_or_iff bit_push_bit_iff bit_ucast_iff bit_drop_bit_eq
      dest: bit_imp_le_length)

lemma unat_u8_bound [simp]: "unat (w :: u8) < 256"
  using unsigned_less [of w, where 'a = nat] by simp

lemma unat_u16_bound [simp]: "unat (w :: u16) < 65536"
  using unsigned_less [of w, where 'a = nat] by simp

lemma unat_u32_bound [simp]: "unat (w :: u32) < 4294967296"
  using unsigned_less [of w, where 'a = nat] by simp

lemma u16_le_max [simp]: "(w :: u16) \<le> 0xffff"
  using unat_u16_bound [of w] by (simp add: word_le_nat_alt del: unat_u16_bound)

lemma of_nat_inj8: "(of_nat m :: u8) = of_nat n \<Longrightarrow> m < 256 \<Longrightarrow> n < 256 \<Longrightarrow> m = n"
  by (drule arg_cong [where f = unat]) (simp add: unat_of_nat)

lemma of_nat_inj16: "(of_nat m :: u16) = of_nat n \<Longrightarrow> m < 65536 \<Longrightarrow> n < 65536 \<Longrightarrow> m = n"
  by (drule arg_cong [where f = unat]) (simp add: unat_of_nat)

lemma mult_add_inj:
  fixes a b c d n :: nat
  assumes "a < n" and "c < n" and "a + b * n = c + d * n"
  shows "a = c \<and> b = d"
proof -
  have "b = (a + b * n) div n" "d = (c + d * n) div n" "a = (a + b * n) mod n" "c = (c + d * n) mod n"
    using assms(1,2) by auto
  with assms(3) show ?thesis by metis
qed

text \<open>Byte sequences of the little-endian core, four bytes to a word, two to a half word.\<close>

definition bytes16 :: "u16 \<Rightarrow> u8 list" where
  "bytes16 w = [lo16 w, hi16 w]"

definition bytes32 :: "u32 \<Rightarrow> u8 list" where
  "bytes32 w = bytes16 (lo32 w) @ bytes16 (hi32 w)"

fun halves_of_bytes :: "u8 list \<Rightarrow> u16 list" where
  "halves_of_bytes (a # b # r) = mk16 a b # halves_of_bytes r"
| "halves_of_bytes _ = []"

fun words_of_bytes :: "u8 list \<Rightarrow> u32 list" where
  "words_of_bytes (a # b # c # d # r) = mk32 (mk16 a b) (mk16 c d) # words_of_bytes r"
| "words_of_bytes _ = []"

definition bytes_of_halves :: "u16 list \<Rightarrow> u8 list" where
  "bytes_of_halves ws = concat (map bytes16 ws)"

definition bytes_of_words :: "u32 list \<Rightarrow> u8 list" where
  "bytes_of_words ws = concat (map bytes32 ws)"

lemma halves_of_bytes_of_halves_app:
  "halves_of_bytes (bytes_of_halves ws @ r) = ws @ halves_of_bytes r"
  by (induction ws) (auto simp: bytes_of_halves_def bytes16_def)

lemma words_of_bytes_of_words_app:
  "words_of_bytes (bytes_of_words ws @ r) = ws @ words_of_bytes r"
  by (induction ws) (auto simp: bytes_of_words_def bytes32_def bytes16_def)

lemma length_bytes_of_halves [simp]: "length (bytes_of_halves ws) = 2 * length ws"
  by (induction ws) (auto simp: bytes_of_halves_def bytes16_def)

lemma length_bytes_of_words [simp]: "length (bytes_of_words ws) = 4 * length ws"
  by (induction ws) (auto simp: bytes_of_words_def bytes32_def bytes16_def)

lemma length_words_of_bytes [simp]: "length (words_of_bytes bs) = length bs div 4"
  by (induction bs rule: words_of_bytes.induct) auto

lemma length_halves_of_bytes [simp]: "length (halves_of_bytes bs) = length bs div 2"
  by (induction bs rule: halves_of_bytes.induct) auto

lemma words_of_bytes_app:
  "4 dvd length xs \<Longrightarrow> words_of_bytes (xs @ ys) = words_of_bytes xs @ words_of_bytes ys"
proof (induction xs rule: words_of_bytes.induct)
  case (1 a b c d r)
  then have "4 dvd length r" by simp presburger
  with 1 show ?case by simp
next
  case "2_1" show ?case by simp
qed (auto dest: dvd_imp_le)

lemma halves_of_bytes_app:
  "even (length xs) \<Longrightarrow> halves_of_bytes (xs @ ys) = halves_of_bytes xs @ halves_of_bytes ys"
  by (induction xs rule: halves_of_bytes.induct) auto

lemma words_of_bytes_short: "length bs < 4 \<Longrightarrow> words_of_bytes bs = []"
  by (cases bs rule: words_of_bytes.cases) auto

lemma words_of_bytes_take: "take n (words_of_bytes bs) = words_of_bytes (take (4 * n) bs)"
proof (induction n arbitrary: bs)
  case (Suc m)
  show ?case
  proof (cases "length bs < 4")
    case True
    then show ?thesis by (simp add: words_of_bytes_short)
  next
    case False
    then obtain a b c d r where bs: "bs = a # b # c # d # r"
      by (cases bs rule: words_of_bytes.cases) auto
    have "4 * Suc m = Suc (Suc (Suc (Suc (4 * m))))" by simp
    then show ?thesis unfolding bs
      by (simp only: take_Suc_Cons words_of_bytes.simps Suc.IH)
  qed
qed simp

section \<open>Checked array access\<close>

definition arr_get :: "'a list \<Rightarrow> nat \<Rightarrow> 'a option" where
  "arr_get xs i = (if i < length xs then Some (xs ! i) else None)"

definition arr_set :: "'a list \<Rightarrow> nat \<Rightarrow> 'a \<Rightarrow> 'a list option" where
  "arr_set xs i v = (if i < length xs then Some (xs[i := v]) else None)"

text \<open>A \<open>memcpy\<close> out of, and into, a buffer: the range has to lie inside it.\<close>

definition mem_get :: "'a list \<Rightarrow> nat \<Rightarrow> nat \<Rightarrow> 'a list option" where
  "mem_get xs off n = (if off + n \<le> length xs then Some (take n (drop off xs)) else None)"

definition mem_put :: "'a list \<Rightarrow> nat \<Rightarrow> 'a list \<Rightarrow> 'a list option" where
  "mem_put xs off ys =
     (if off + length ys \<le> length xs
      then Some (take off xs @ ys @ drop (off + length ys) xs) else None)"

lemma arr_get_Some [simp]: "arr_get xs i = Some x \<longleftrightarrow> i < length xs \<and> x = xs ! i"
  by (auto simp: arr_get_def)

lemma arr_get_in [simp]: "i < length xs \<Longrightarrow> arr_get xs i = Some (xs ! i)"
  by (simp add: arr_get_def)

lemma arr_set_Some [simp]: "arr_set xs i v = Some ys \<longleftrightarrow> i < length xs \<and> ys = xs[i := v]"
  by (auto simp: arr_set_def)

lemma arr_set_in [simp]: "i < length xs \<Longrightarrow> arr_set xs i v = Some (xs[i := v])"
  by (simp add: arr_set_def)

lemma mem_get_length: "mem_get xs off n = Some ys \<Longrightarrow> length ys = n"
  by (auto simp: mem_get_def split: if_splits)

lemma mem_put_length: "mem_put xs off ys = Some zs \<Longrightarrow> length zs = length xs"
  by (auto simp: mem_put_def split: if_splits)

lemma mem_get_put_same:
  "mem_put xs off ys = Some zs \<Longrightarrow> mem_get zs off (length ys) = Some ys"
  by (auto simp: mem_put_def mem_get_def split: if_splits)

section \<open>Partial correctness of option-valued functions\<close>

text \<open>\<open>post m Q\<close>: if the C code the model function stands for has no undefined behaviour on
  this input, its result satisfies \<open>Q\<close>.\<close>

definition post :: "'a option \<Rightarrow> ('a \<Rightarrow> bool) \<Rightarrow> bool" where
  "post m Q = (case m of None \<Rightarrow> True | Some x \<Rightarrow> Q x)"

lemma post_None [simp, post_rules]: "post None Q"
  by (simp add: post_def)

lemma post_Some [simp]: "post (Some x) Q = Q x"
  by (simp add: post_def)

lemma post_SomeI [post_rules]: "Q x \<Longrightarrow> post (Some x) Q"
  by simp

lemma post_bind: "post (m \<bind> f) Q = post m (\<lambda>x. post (f x) Q)"
  by (cases m) (auto simp: post_def)

lemma post_bindI [post_rules]: "post m (\<lambda>x. post (f x) Q) \<Longrightarrow> post (m \<bind> f) Q"
  by (simp add: post_bind)

lemma post_ifI [post_rules]:
  "(b \<Longrightarrow> post m Q) \<Longrightarrow> (\<not> b \<Longrightarrow> post m' Q) \<Longrightarrow> post (if b then m else m') Q"
  by simp

lemma post_letI [post_rules]: "post (f x) Q \<Longrightarrow> post (Let x f) Q"
  by simp

lemma post_mono: "post m P \<Longrightarrow> (\<And>x. P x \<Longrightarrow> Q x) \<Longrightarrow> post m Q"
  by (cases m) auto

lemma post_conj: "post m P \<Longrightarrow> post m Q \<Longrightarrow> post m (\<lambda>x. P x \<and> Q x)"
  by (cases m) auto

lemma post_True [simp]: "post m (\<lambda>_. True)"
  by (cases m) auto

lemma postD: "post m Q \<Longrightarrow> m = Some x \<Longrightarrow> Q x"
  by simp

lemma postI: "(\<And>x. m = Some x \<Longrightarrow> Q x) \<Longrightarrow> post m Q"
  by (cases m) auto

text \<open>\<open>total m Q\<close>: the C code has no undefined behaviour on this input, and its result satisfies \<open>Q\<close>.\<close>

definition total :: "'a option \<Rightarrow> ('a \<Rightarrow> bool) \<Rightarrow> bool" where
  "total m Q = (case m of None \<Rightarrow> False | Some x \<Rightarrow> Q x)"

lemma total_iff: "total m Q \<longleftrightarrow> (\<exists>x. m = Some x \<and> Q x)"
  by (auto simp: total_def split: option.splits)

lemma total_None [simp]: "\<not> total None Q"
  by (simp add: total_def)

lemma total_Some [simp]: "total (Some x) Q = Q x"
  by (simp add: total_def)

lemma total_bind: "total (m \<bind> f) Q = total m (\<lambda>x. total (f x) Q)"
  by (cases m) auto

lemma total_bindI: "total m R \<Longrightarrow> (\<And>x. m = Some x \<Longrightarrow> R x \<Longrightarrow> total (f x) Q) \<Longrightarrow> total (m \<bind> f) Q"
  by (auto simp: total_iff)

lemma total_mono: "total m P \<Longrightarrow> (\<And>x. m = Some x \<Longrightarrow> P x \<Longrightarrow> Q x) \<Longrightarrow> total m Q"
  by (auto simp: total_iff)

lemma total_conj: "total m P \<Longrightarrow> post m Q \<Longrightarrow> total m (\<lambda>x. P x \<and> Q x)"
  by (cases m) auto

lemma post_arr_get [post_rules]:
  "(i < length xs \<Longrightarrow> Q (xs ! i)) \<Longrightarrow> post (arr_get xs i) Q"
  by (auto simp: arr_get_def)

lemma post_arr_set [post_rules]:
  "(i < length xs \<Longrightarrow> Q (xs[i := v])) \<Longrightarrow> post (arr_set xs i v) Q"
  by (auto simp: arr_set_def)

lemma post_mem_get [post_rules]:
  "(off + n \<le> length xs \<Longrightarrow> Q (take n (drop off xs))) \<Longrightarrow> post (mem_get xs off n) Q"
  by (auto simp: mem_get_def)

lemma post_mem_put [post_rules]:
  "(off + length ys \<le> length xs \<Longrightarrow> Q (take off xs @ ys @ drop (off + length ys) xs))
   \<Longrightarrow> post (mem_put xs off ys) Q"
  by (auto simp: mem_put_def)

lemma bind_Some_elim:
  assumes "m \<bind> f = Some y"
  obtains x where "m = Some x" "f x = Some y"
  using assms by (auto simp: Option.bind_eq_Some_conv)

section \<open>Search loops\<close>

text \<open>\<open>scan P xs off n i\<close> is the loop \<open>for (; i < i + n; i++) if (P (xs[off + i])) break;\<close>: the first
  index, counted from \<open>off\<close>, whose element satisfies \<open>P\<close>, or \<^term>\<open>None\<close> inside when the loop runs
  out. The outer \<^term>\<open>None\<close> is a read outside the array.\<close>

fun scan :: "('a \<Rightarrow> bool) \<Rightarrow> 'a list \<Rightarrow> nat \<Rightarrow> nat \<Rightarrow> nat \<Rightarrow> nat option option" where
  "scan P xs off 0 i = Some None"
| "scan P xs off (Suc n) i = do {
     x \<leftarrow> arr_get xs (off + i);
     if P x then Some (Some i) else scan P xs off n (Suc i)
   }"

lemma scan_total: "off + i + n \<le> length xs \<Longrightarrow> \<exists>r. scan P xs off n i = Some r"
  by (induction n arbitrary: i) auto

lemma scan_found:
  "scan P xs off n i = Some (Some k) \<Longrightarrow>
   i \<le> k \<and> k < i + n \<and> off + k < length xs \<and> P (xs ! (off + k))
   \<and> (\<forall>j. i \<le> j \<longrightarrow> j < k \<longrightarrow> \<not> P (xs ! (off + j)))"
proof (induction n arbitrary: i)
  case 0
  then show ?case by simp
next
  case (Suc n)
  show ?case
  proof (cases "off + i < length xs \<and> P (xs ! (off + i))")
    case True
    with Suc.prems show ?thesis by auto
  next
    case False
    with Suc.prems have *: "off + i < length xs" "\<not> P (xs ! (off + i))"
      "scan P xs off n (Suc i) = Some (Some k)"
      by (auto simp: arr_get_def split: if_splits)
    note IH = Suc.IH [OF *(3)]
    have "\<not> P (xs ! (off + j))" if "i \<le> j" "j < k" for j
      using that IH *(2) by (cases "j = i") auto
    with IH show ?thesis by auto
  qed
qed

lemma scan_none:
  "scan P xs off n i = Some None \<Longrightarrow> i \<le> j \<Longrightarrow> j < i + n \<Longrightarrow>
   off + j < length xs \<and> \<not> P (xs ! (off + j))"
proof (induction n arbitrary: i)
  case 0
  then show ?case by simp
next
  case (Suc n)
  from Suc.prems(1) have *: "off + i < length xs" "\<not> P (xs ! (off + i))"
    "scan P xs off n (Suc i) = Some None"
    by (auto simp: arr_get_def split: if_splits)
  then show ?case
    using Suc.IH [OF *(3)] Suc.prems(2,3) by (cases "j = i") auto
qed

lemma scan_first:
  assumes "off + i + n \<le> length xs" and "i \<le> k" and "k < i + n" and "P (xs ! (off + k))"
    and "\<And>j. i \<le> j \<Longrightarrow> j < k \<Longrightarrow> \<not> P (xs ! (off + j))"
  shows "scan P xs off n i = Some (Some k)"
proof -
  from scan_total [OF assms(1)] obtain r where r: "scan P xs off n i = Some r" by blast
  show ?thesis
  proof (cases r)
    case None
    with scan_none [OF r [unfolded None] assms(2,3)] assms(4) show ?thesis by simp
  next
    case (Some k')
    from scan_found [OF r [unfolded Some]] assms(4,5) have "k' = k"
      by (metis assms(2) linorder_neqE_nat)
    with r Some show ?thesis by simp
  qed
qed

lemma scan_nowhere:
  assumes "off + i + n \<le> length xs" and "\<And>j. i \<le> j \<Longrightarrow> j < i + n \<Longrightarrow> \<not> P (xs ! (off + j))"
  shows "scan P xs off n i = Some None"
proof -
  from scan_total [OF assms(1)] obtain r where r: "scan P xs off n i = Some r" by blast
  with scan_found [of P xs off n i] assms(2) show ?thesis by (cases r) auto
qed

section \<open>Multisets of list elements under update\<close>

lemma mset_list_update_add:
  "i < length xs \<Longrightarrow> mset (xs[i := v]) + {#xs ! i#} = mset xs + {#v#}"
  by (simp add: mset_update)

lemma image_mset_list_update:
  assumes "i < length xs"
  shows "image_mset f (mset (xs[i := v])) + {#f (xs ! i)#} = image_mset f (mset xs) + {#f v#}"
proof -
  have "image_mset f (mset (xs[i := v]) + {#xs ! i#}) = image_mset f (mset xs + {#v#})"
    using assms by (simp only: mset_list_update_add)
  then show ?thesis by simp
qed

lemma filter_mset_list_update:
  assumes "i < length xs"
  shows "filter_mset P (mset (xs[i := v])) + (if P (xs ! i) then {#xs ! i#} else {#})
       = filter_mset P (mset xs) + (if P v then {#v#} else {#})"
proof -
  have "filter_mset P (mset (xs[i := v]) + {#xs ! i#}) = filter_mset P (mset xs + {#v#})"
    using assms by (simp only: mset_list_update_add)
  then show ?thesis by auto
qed

end
