(* ===== verification/Nand_State.thy ===== *)
theory Nand_State
  imports Novo_Prelude
begin

text \<open>
  The data of the NAND driver's logic layer (\<open>allwindisk/arm/nand_sunxi/src/include\<close>,
  \<open>nand_type.h\<close>, \<open>nand_logic.h\<close>, \<open>nand_physic.h\<close>): every struct the layer keeps is a
  record with the C fields at their width, every macro over the driver's parameters is a
  definition over \<open>cfg\<close>.

  Pointers are modelled by what they denote. The active mapping caches (\<open>ActBlkMapTbl\<close>,
  \<open>ActPageMapTbl\<close>) point into a fixed pool, so they are pool indices. \<open>FreeBlkTbl\<close> points into
  the same allocation as \<open>DataBlkTbl\<close>, at offset \<open>DATA_BLK_CNT_OF_ZONE\<close>, so both are views of the
  one list \<open>bc_Tbl\<close>; an index past the data block table lands in the free block table, as in C.

  \<open>phy_ops\<close> is the interface of the physic layer: the model's functions take it as a parameter,
  with an arbitrary device state \<open>'d\<close>. \<open>junk8\<close> and \<open>junk16\<close> stand for the bytes of uninitialised
  locals that the code copies.
\<close>

section \<open>Parameters of the flash and of its logical architecture\<close>

record opt_phy_op =
  MultiPlaneReadCmd :: "u8 list"
  MultiPlaneWriteCmd :: "u8 list"
  MultiPlaneCopyReadCmd :: "u8 list"
  MultiPlaneCopyWriteCmd :: "u8 list"
  MultiPlaneStatusCmd :: u8
  InterBnk0StatusCmd :: u8
  InterBnk1StatusCmd :: u8
  BadBlockFlagPosition :: u8
  MultiPlaneBlockOffset :: u16

record storage_info =
  ChipCnt :: u8
  ChipConnectInfo :: u16
  RbCnt :: u8
  RbConnectInfo :: u8
  RbConnectMode :: u8
  BankCntPerChip :: u8
  DieCntPerChip :: u8
  PlaneCntPerDie :: u8
  SectorCntPerPage :: u8
  PageCntPerPhyBlk :: u16
  BlkCntPerDie :: u16
  OperationOpt :: u16
  FrequencePar :: u8
  EccMode :: u8
  NandChipId :: "u8 list"
  ValidBlkRatio :: u16
  ReadRetryType :: u32
  DDRType :: u32
  OptPhyOpPar :: opt_phy_op

record logic_arch =
  LogicBlkCntPerZone :: u16
  PageCntPerLogicBlk :: u16
  SectCntPerLogicPage :: u8
  ZoneCntPerDie :: u8

record cfg =
  storage :: storage_info
  arch :: logic_arch
  junk8 :: "nat \<Rightarrow> u8"
  junk16 :: u16

definition SECTOR_CNT_OF_SINGLE_PAGE :: "cfg \<Rightarrow> nat" where
  "SECTOR_CNT_OF_SINGLE_PAGE C = unat (SectorCntPerPage (storage C))"

definition SECTOR_CNT_OF_SUPER_PAGE :: "cfg \<Rightarrow> nat" where
  "SECTOR_CNT_OF_SUPER_PAGE C =
     unat (SectorCntPerPage (storage C)) * unat (PlaneCntPerDie (storage C))"

definition FULL_BITMAP_OF_SUPER_PAGE :: "cfg \<Rightarrow> u32" where
  "FULL_BITMAP_OF_SUPER_PAGE C =
     (push_bit (SECTOR_CNT_OF_SUPER_PAGE C - 1) 1
      OR (push_bit (SECTOR_CNT_OF_SUPER_PAGE C - 1) 1 - 1))"

definition SUPPORT_MULTI_PROGRAM :: "cfg \<Rightarrow> bool" where
  "SUPPORT_MULTI_PROGRAM C = (push_bit 3 1 AND OperationOpt (storage C) \<noteq> 0)"

definition SUPPORT_INT_INTERLEAVE :: "cfg \<Rightarrow> bool" where
  "SUPPORT_INT_INTERLEAVE C = (push_bit 5 1 AND OperationOpt (storage C) \<noteq> 0)"

definition SUPPORT_EXT_INTERLEAVE :: "cfg \<Rightarrow> bool" where
  "SUPPORT_EXT_INTERLEAVE C = (push_bit 6 1 AND OperationOpt (storage C) \<noteq> 0)"

definition SUPPORT_ALIGN_NAND_BNK :: "cfg \<Rightarrow> bool" where
  "SUPPORT_ALIGN_NAND_BNK C = (\<not> (push_bit 10 1 AND OperationOpt (storage C) \<noteq> 0))"

definition DIE_CNT_OF_CHIP :: "cfg \<Rightarrow> nat" where
  "DIE_CNT_OF_CHIP C = unat (DieCntPerChip (storage C))"

definition BLOCK_CNT_OF_DIE :: "cfg \<Rightarrow> nat" where
  "BLOCK_CNT_OF_DIE C = unat (BlkCntPerDie (storage C))"

definition PLANE_CNT_OF_DIE :: "cfg \<Rightarrow> nat" where
  "PLANE_CNT_OF_DIE C = unat (PlaneCntPerDie (storage C))"

definition PAGE_CNT_OF_PHY_BLK :: "cfg \<Rightarrow> nat" where
  "PAGE_CNT_OF_PHY_BLK C = unat (PageCntPerPhyBlk (storage C))"

abbreviation SECTOR_CNT_OF_LOGIC_PAGE :: "cfg \<Rightarrow> nat" where
  "SECTOR_CNT_OF_LOGIC_PAGE C \<equiv> SECTOR_CNT_OF_SUPER_PAGE C"

abbreviation FULL_BITMAP_OF_LOGIC_PAGE :: "cfg \<Rightarrow> u32" where
  "FULL_BITMAP_OF_LOGIC_PAGE C \<equiv> FULL_BITMAP_OF_SUPER_PAGE C"

definition PAGE_CNT_OF_LOGIC_BLK :: "cfg \<Rightarrow> nat" where
  "PAGE_CNT_OF_LOGIC_BLK C = unat (PageCntPerLogicBlk (arch C))"

abbreviation PAGE_CNT_OF_SUPER_BLK :: "cfg \<Rightarrow> nat" where
  "PAGE_CNT_OF_SUPER_BLK C \<equiv> PAGE_CNT_OF_LOGIC_BLK C"

definition DATA_BLK_CNT_OF_ZONE :: "cfg \<Rightarrow> nat" where
  "DATA_BLK_CNT_OF_ZONE C = unat (LogicBlkCntPerZone (arch C))"

definition ZONE_CNT_OF_DIE :: "cfg \<Rightarrow> nat" where
  "ZONE_CNT_OF_DIE C = unat (ZoneCntPerDie (arch C))"

definition BLOCK_CNT_OF_ZONE :: nat where "BLOCK_CNT_OF_ZONE = 1024"

definition MAX_LOG_BLK_CNT :: nat where "MAX_LOG_BLK_CNT = 16"

definition BLOCK_MAP_TBL_CACHE_CNT :: nat where "BLOCK_MAP_TBL_CACHE_CNT = 4"

definition PAGE_MAP_TBL_CACHE_CNT :: nat where "PAGE_MAP_TBL_CACHE_CNT = 4"

definition MAX_ZONE_CNT :: nat where "MAX_ZONE_CNT = 32"

definition SECTOR_SIZE :: nat where "SECTOR_SIZE = 512"

abbreviation LOG_BLK_CNT_OF_ZONE :: nat where
  "LOG_BLK_CNT_OF_ZONE \<equiv> MAX_LOG_BLK_CNT"

definition FREE_BLK_CNT_OF_ZONE :: "cfg \<Rightarrow> nat" where
  "FREE_BLK_CNT_OF_ZONE C = BLOCK_CNT_OF_ZONE - DATA_BLK_CNT_OF_ZONE C - 1"

definition INTERLEAVE_BANK_CNT :: "cfg \<Rightarrow> nat" where
  "INTERLEAVE_BANK_CNT C = PAGE_CNT_OF_LOGIC_BLK C div PAGE_CNT_OF_PHY_BLK C"

section \<open>Result codes\<close>

abbreviation (input) NAND_OP_TRUE :: int where "NAND_OP_TRUE \<equiv> 0"
abbreviation (input) NAND_OP_FALSE :: int where "NAND_OP_FALSE \<equiv> - 1"
abbreviation (input) ECC_LIMIT :: int where "ECC_LIMIT \<equiv> 10"
abbreviation (input) ERR_MALLOC :: int where "ERR_MALLOC \<equiv> 11"
abbreviation (input) ERR_ECC :: int where "ERR_ECC \<equiv> 12"
abbreviation (input) ERR_PHYSIC :: int where "ERR_PHYSIC \<equiv> 15"
abbreviation (input) ERR_MAPPING :: int where "ERR_MAPPING \<equiv> 18"
abbreviation (input) ERR_LOGICCTL :: int where "ERR_LOGICCTL \<equiv> 19"
abbreviation (input) ERR_ADDRBEYOND :: int where "ERR_ADDRBEYOND \<equiv> 20"

abbreviation (input) LOWEST_EC_TYPE :: nat where "LOWEST_EC_TYPE \<equiv> 0"
abbreviation (input) HIGHEST_EC_TYPE :: nat where "HIGHEST_EC_TYPE \<equiv> 1"
abbreviation (input) NORMAL_MERGE_MODE :: nat where "NORMAL_MERGE_MODE \<equiv> 0"
abbreviation (input) SPECIAL_MERGE_MODE :: nat where "SPECIAL_MERGE_MODE \<equiv> 1"
abbreviation (input) SYNC_CHIP_MODE :: nat where "SYNC_CHIP_MODE \<equiv> 0"
abbreviation (input) SYNC_BANK_MODE :: nat where "SYNC_BANK_MODE \<equiv> 1"

section \<open>Mapping tables\<close>

record super_phy_blk =
  PhyBlkNum :: u16
  BlkEraseCnt :: u16

record log_blk =
  LogicBlkNum :: u16
  LastUsedPage :: u16
  PhyBlk :: super_phy_blk

record zone_tbl_pst =
  zt_PhyBlkNum :: u16
  zt_TablePst :: u16

record blk_cache =
  bc_ZoneNum :: u8
  bc_DirtyFlag :: u8
  bc_AccessCnt :: u16
  bc_Tbl :: "super_phy_blk list"
  bc_LogBlkTbl :: "log_blk list"
  bc_LastFreeBlkPst :: u16

record page_cache =
  pc_ZoneNum :: u8
  pc_LogBlkPst :: u8
  pc_AccessCnt :: u16
  pc_PageMapTbl :: "u16 list"
  pc_DirtyFlag :: u8

definition empty_phy_blk :: super_phy_blk where
  "empty_phy_blk = \<lparr>PhyBlkNum = 0xffff, BlkEraseCnt = 0xffff\<rparr>"

definition empty_log_blk :: log_blk where
  "empty_log_blk = \<lparr>LogicBlkNum = 0xffff, LastUsedPage = 0xffff, PhyBlk = empty_phy_blk\<rparr>"

section \<open>Page parameters and spare area data\<close>

record user_data =
  ud_BadBlkFlag :: u8
  ud_LogicInfo :: u16
  ud_Reserved0 :: u8
  ud_LogicPageNum :: u16
  ud_PageStatus :: u8
  ud_Reserved1 :: u8

record phys_op =
  op_BankNum :: u8
  op_PageNum :: u8
  op_BlkNum :: u16
  op_SectBitmap :: u32

record glob_page =
  gp_LogicPageNum :: u32
  gp_SectorBitmap :: u32

record logic_page =
  lp_SectBitmap :: u32
  lp_BlockNum :: u16
  lp_PageNum :: u16
  lp_ZoneNum :: u8

record logic_ctl =
  lc_OpMode :: char
  lc_ZoneNum :: u8
  lc_LogicBlkNum :: u16
  lc_LogicPageNum :: u16
  lc_LogPageNum :: u16
  lc_DataBlkNum :: super_phy_blk
  lc_LogBlkNum :: super_phy_blk
  lc_DiskCap :: u32

text \<open>The packed struct \<open>__NandUserData_t\<close> as the eight bytes it occupies, and an array of two of
  them as the sixteen bytes the page operations copy four at a time.\<close>

definition enc_ud :: "user_data \<Rightarrow> u8 list" where
  "enc_ud u = ud_BadBlkFlag u # bytes16 (ud_LogicInfo u) @ [ud_Reserved0 u]
     @ bytes16 (ud_LogicPageNum u) @ [ud_PageStatus u, ud_Reserved1 u]"

definition dec_ud :: "u8 list \<Rightarrow> user_data" where
  "dec_ud b = \<lparr>ud_BadBlkFlag = b ! 0, ud_LogicInfo = mk16 (b ! 1) (b ! 2), ud_Reserved0 = b ! 3,
     ud_LogicPageNum = mk16 (b ! 4) (b ! 5), ud_PageStatus = b ! 6, ud_Reserved1 = b ! 7\<rparr>"

definition enc_ud2 :: "user_data \<times> user_data \<Rightarrow> u8 list" where
  "enc_ud2 p = enc_ud (fst p) @ enc_ud (snd p)"

definition dec_ud2 :: "u8 list \<Rightarrow> user_data \<times> user_data" where
  "dec_ud2 b = (dec_ud (take 8 b), dec_ud (drop 8 b))"

definition blank_ud :: user_data where
  "blank_ud = \<lparr>ud_BadBlkFlag = 0xff, ud_LogicInfo = 0xffff, ud_Reserved0 = 0xff,
     ud_LogicPageNum = 0xffff, ud_PageStatus = 0xff, ud_Reserved1 = 0xff\<rparr>"

definition junk_spare :: "cfg \<Rightarrow> u8 list" where
  "junk_spare C = map (junk8 C) [0..<16]"

lemma length_enc_ud [simp]: "length (enc_ud u) = 8"
  by (simp add: enc_ud_def bytes16_def)

lemma length_enc_ud2 [simp]: "length (enc_ud2 p) = 16"
  by (simp add: enc_ud2_def)

lemma length_junk_spare [simp]: "length (junk_spare C) = 16"
  by (simp add: junk_spare_def)

lemma dec_enc_ud [simp, codec_simps]: "dec_ud (enc_ud u) = u"
  by (cases u) (simp add: enc_ud_def dec_ud_def bytes16_def numeral_eq_Suc)

lemma dec_enc_ud2 [simp, codec_simps]: "dec_ud2 (enc_ud2 p) = p"
  by (cases p) (simp add: dec_ud2_def enc_ud2_def)

section \<open>The driver state\<close>

record 'd drv =
  dr_blk_pool :: "nat \<Rightarrow> blk_cache"
  dr_blk_act :: nat
  dr_log_age :: "u16 list"
  dr_log_timer :: u16
  dr_erase_cnter :: u16
  dr_page_pool :: "nat \<Rightarrow> page_cache"
  dr_page_act :: nat
  dr_zone_tbl :: "zone_tbl_pst list"
  dr_temp_buf :: "u8 list"
  dr_write_cache :: "u8 list"
  dr_tbl_buf :: "u8 list"
  dr_spare_buf :: "u8 list"
  dr_cache_page :: glob_page
  dr_ctl :: logic_ctl
  dr_dev :: 'd

text \<open>The physic layer's operations. A buffer passed by pointer is passed by value and returned
  with what the operation left in it; \<^term>\<open>None\<close> is the null pointer.\<close>

record 'd phy_ops =
  PHY_PageRead :: "phys_op \<Rightarrow> u8 list \<Rightarrow> u8 list option \<Rightarrow> 'd \<Rightarrow> int \<times> u8 list \<times> u8 list option \<times> 'd"
  PHY_PageReadSpare :: "phys_op \<Rightarrow> u8 list \<Rightarrow> u8 list option \<Rightarrow> 'd \<Rightarrow> int \<times> u8 list \<times> u8 list option \<times> 'd"
  PHY_PageWrite :: "phys_op \<Rightarrow> u8 list \<Rightarrow> u8 list \<Rightarrow> 'd \<Rightarrow> int \<times> 'd"
  PHY_BlockErase :: "phys_op \<Rightarrow> 'd \<Rightarrow> int \<times> 'd"
  PHY_SynchBank :: "nat \<Rightarrow> nat \<Rightarrow> 'd \<Rightarrow> int \<times> 'd"
  PHY_PageCopyback :: "phys_op \<Rightarrow> phys_op \<Rightarrow> u8 list \<Rightarrow> u8 list \<Rightarrow> 'd \<Rightarrow> int \<times> u8 list \<times> u8 list \<times> 'd"

definition BLK_MAP_CACHE :: "'d drv \<Rightarrow> blk_cache" where
  "BLK_MAP_CACHE s = dr_blk_pool s (dr_blk_act s)"

definition set_BLK_MAP_CACHE :: "blk_cache \<Rightarrow> 'd drv \<Rightarrow> 'd drv" where
  "set_BLK_MAP_CACHE bc s = s\<lparr>dr_blk_pool := (dr_blk_pool s)(dr_blk_act s := bc)\<rparr>"

definition PAGE_MAP_CACHE :: "'d drv \<Rightarrow> page_cache" where
  "PAGE_MAP_CACHE s = dr_page_pool s (dr_page_act s)"

definition set_PAGE_MAP_CACHE :: "page_cache \<Rightarrow> 'd drv \<Rightarrow> 'd drv" where
  "set_PAGE_MAP_CACHE pc s = s\<lparr>dr_page_pool := (dr_page_pool s)(dr_page_act s := pc)\<rparr>"

abbreviation LOG_BLK_TBL :: "'d drv \<Rightarrow> log_blk list" where
  "LOG_BLK_TBL s \<equiv> bc_LogBlkTbl (BLK_MAP_CACHE s)"

abbreviation PAGE_MAP_TBL :: "'d drv \<Rightarrow> u16 list" where
  "PAGE_MAP_TBL s \<equiv> pc_PageMapTbl (PAGE_MAP_CACHE s)"

abbreviation CUR_MAP_ZONE :: "'d drv \<Rightarrow> u8" where
  "CUR_MAP_ZONE s \<equiv> bc_ZoneNum (BLK_MAP_CACHE s)"

abbreviation set_tbl :: "super_phy_blk list \<Rightarrow> 'd drv \<Rightarrow> 'd drv" where
  "set_tbl t s \<equiv> set_BLK_MAP_CACHE (BLK_MAP_CACHE s\<lparr>bc_Tbl := t\<rparr>) s"

abbreviation set_log_tbl :: "log_blk list \<Rightarrow> 'd drv \<Rightarrow> 'd drv" where
  "set_log_tbl t s \<equiv> set_BLK_MAP_CACHE (BLK_MAP_CACHE s\<lparr>bc_LogBlkTbl := t\<rparr>) s"

abbreviation set_page_tbl :: "u16 list \<Rightarrow> 'd drv \<Rightarrow> 'd drv" where
  "set_page_tbl t s \<equiv> set_PAGE_MAP_CACHE (PAGE_MAP_CACHE s\<lparr>pc_PageMapTbl := t\<rparr>) s"

lemma BLK_MAP_CACHE_set [simp]: "BLK_MAP_CACHE (set_BLK_MAP_CACHE bc s) = bc"
  by (simp add: BLK_MAP_CACHE_def set_BLK_MAP_CACHE_def)

lemma PAGE_MAP_CACHE_set [simp]: "PAGE_MAP_CACHE (set_PAGE_MAP_CACHE pc s) = pc"
  by (simp add: PAGE_MAP_CACHE_def set_PAGE_MAP_CACHE_def)

lemma set_BLK_MAP_CACHE_twice [simp]:
  "set_BLK_MAP_CACHE bc (set_BLK_MAP_CACHE bc' s) = set_BLK_MAP_CACHE bc s"
  "set_BLK_MAP_CACHE (BLK_MAP_CACHE s) s = s"
  by (simp_all add: set_BLK_MAP_CACHE_def BLK_MAP_CACHE_def)

lemma set_PAGE_MAP_CACHE_twice [simp]:
  "set_PAGE_MAP_CACHE pc (set_PAGE_MAP_CACHE pc' s) = set_PAGE_MAP_CACHE pc s"
  "set_PAGE_MAP_CACHE (PAGE_MAP_CACHE s) s = s"
  by (simp_all add: set_PAGE_MAP_CACHE_def PAGE_MAP_CACHE_def)

lemma set_BLK_MAP_CACHE_frame [simp]:
  "dr_blk_act (set_BLK_MAP_CACHE bc s) = dr_blk_act s"
  "dr_log_age (set_BLK_MAP_CACHE bc s) = dr_log_age s"
  "dr_log_timer (set_BLK_MAP_CACHE bc s) = dr_log_timer s"
  "dr_erase_cnter (set_BLK_MAP_CACHE bc s) = dr_erase_cnter s"
  "dr_page_pool (set_BLK_MAP_CACHE bc s) = dr_page_pool s"
  "dr_page_act (set_BLK_MAP_CACHE bc s) = dr_page_act s"
  "dr_zone_tbl (set_BLK_MAP_CACHE bc s) = dr_zone_tbl s"
  "dr_temp_buf (set_BLK_MAP_CACHE bc s) = dr_temp_buf s"
  "dr_write_cache (set_BLK_MAP_CACHE bc s) = dr_write_cache s"
  "dr_tbl_buf (set_BLK_MAP_CACHE bc s) = dr_tbl_buf s"
  "dr_spare_buf (set_BLK_MAP_CACHE bc s) = dr_spare_buf s"
  "dr_cache_page (set_BLK_MAP_CACHE bc s) = dr_cache_page s"
  "dr_ctl (set_BLK_MAP_CACHE bc s) = dr_ctl s"
  "dr_dev (set_BLK_MAP_CACHE bc s) = dr_dev s"
  "PAGE_MAP_CACHE (set_BLK_MAP_CACHE bc s) = PAGE_MAP_CACHE s"
  by (simp_all add: set_BLK_MAP_CACHE_def PAGE_MAP_CACHE_def)

lemma set_PAGE_MAP_CACHE_frame [simp]:
  "dr_blk_pool (set_PAGE_MAP_CACHE pc s) = dr_blk_pool s"
  "dr_blk_act (set_PAGE_MAP_CACHE pc s) = dr_blk_act s"
  "dr_log_age (set_PAGE_MAP_CACHE pc s) = dr_log_age s"
  "dr_log_timer (set_PAGE_MAP_CACHE pc s) = dr_log_timer s"
  "dr_erase_cnter (set_PAGE_MAP_CACHE pc s) = dr_erase_cnter s"
  "dr_page_act (set_PAGE_MAP_CACHE pc s) = dr_page_act s"
  "dr_zone_tbl (set_PAGE_MAP_CACHE pc s) = dr_zone_tbl s"
  "dr_temp_buf (set_PAGE_MAP_CACHE pc s) = dr_temp_buf s"
  "dr_write_cache (set_PAGE_MAP_CACHE pc s) = dr_write_cache s"
  "dr_tbl_buf (set_PAGE_MAP_CACHE pc s) = dr_tbl_buf s"
  "dr_spare_buf (set_PAGE_MAP_CACHE pc s) = dr_spare_buf s"
  "dr_cache_page (set_PAGE_MAP_CACHE pc s) = dr_cache_page s"
  "dr_ctl (set_PAGE_MAP_CACHE pc s) = dr_ctl s"
  "dr_dev (set_PAGE_MAP_CACHE pc s) = dr_dev s"
  "BLK_MAP_CACHE (set_PAGE_MAP_CACHE pc s) = BLK_MAP_CACHE s"
  by (simp_all add: set_PAGE_MAP_CACHE_def BLK_MAP_CACHE_def)

lemma BLK_MAP_CACHE_updates [simp]:
  "BLK_MAP_CACHE (s\<lparr>dr_log_age := x1\<rparr>) = BLK_MAP_CACHE s"
  "BLK_MAP_CACHE (s\<lparr>dr_log_timer := x2\<rparr>) = BLK_MAP_CACHE s"
  "BLK_MAP_CACHE (s\<lparr>dr_erase_cnter := x3\<rparr>) = BLK_MAP_CACHE s"
  "BLK_MAP_CACHE (s\<lparr>dr_page_pool := x4\<rparr>) = BLK_MAP_CACHE s"
  "BLK_MAP_CACHE (s\<lparr>dr_page_act := x5\<rparr>) = BLK_MAP_CACHE s"
  "BLK_MAP_CACHE (s\<lparr>dr_zone_tbl := x6\<rparr>) = BLK_MAP_CACHE s"
  "BLK_MAP_CACHE (s\<lparr>dr_temp_buf := x7\<rparr>) = BLK_MAP_CACHE s"
  "BLK_MAP_CACHE (s\<lparr>dr_write_cache := x8\<rparr>) = BLK_MAP_CACHE s"
  "BLK_MAP_CACHE (s\<lparr>dr_tbl_buf := x9\<rparr>) = BLK_MAP_CACHE s"
  "BLK_MAP_CACHE (s\<lparr>dr_spare_buf := x10\<rparr>) = BLK_MAP_CACHE s"
  "BLK_MAP_CACHE (s\<lparr>dr_cache_page := x11\<rparr>) = BLK_MAP_CACHE s"
  "BLK_MAP_CACHE (s\<lparr>dr_ctl := x12\<rparr>) = BLK_MAP_CACHE s"
  "BLK_MAP_CACHE (s\<lparr>dr_dev := x13\<rparr>) = BLK_MAP_CACHE s"
  by (simp_all add: BLK_MAP_CACHE_def)

lemma PAGE_MAP_CACHE_updates [simp]:
  "PAGE_MAP_CACHE (s\<lparr>dr_blk_pool := x0\<rparr>) = PAGE_MAP_CACHE s"
  "PAGE_MAP_CACHE (s\<lparr>dr_blk_act := x1\<rparr>) = PAGE_MAP_CACHE s"
  "PAGE_MAP_CACHE (s\<lparr>dr_log_age := x2\<rparr>) = PAGE_MAP_CACHE s"
  "PAGE_MAP_CACHE (s\<lparr>dr_log_timer := x3\<rparr>) = PAGE_MAP_CACHE s"
  "PAGE_MAP_CACHE (s\<lparr>dr_erase_cnter := x4\<rparr>) = PAGE_MAP_CACHE s"
  "PAGE_MAP_CACHE (s\<lparr>dr_zone_tbl := x6\<rparr>) = PAGE_MAP_CACHE s"
  "PAGE_MAP_CACHE (s\<lparr>dr_temp_buf := x7\<rparr>) = PAGE_MAP_CACHE s"
  "PAGE_MAP_CACHE (s\<lparr>dr_write_cache := x8\<rparr>) = PAGE_MAP_CACHE s"
  "PAGE_MAP_CACHE (s\<lparr>dr_tbl_buf := x9\<rparr>) = PAGE_MAP_CACHE s"
  "PAGE_MAP_CACHE (s\<lparr>dr_spare_buf := x10\<rparr>) = PAGE_MAP_CACHE s"
  "PAGE_MAP_CACHE (s\<lparr>dr_cache_page := x11\<rparr>) = PAGE_MAP_CACHE s"
  "PAGE_MAP_CACHE (s\<lparr>dr_ctl := x12\<rparr>) = PAGE_MAP_CACHE s"
  "PAGE_MAP_CACHE (s\<lparr>dr_dev := x13\<rparr>) = PAGE_MAP_CACHE s"
  by (simp_all add: PAGE_MAP_CACHE_def)

end
