(* ===== verification/Sample_Device.thy ===== *)
theory Sample_Device
  imports Nand_State
begin

text \<open>
  A small concrete flash and driver state, at which the theorems are applied: two chips with
  external interleave, two planes of two sectors to a page, four pages to a block, so super
  pages of four sectors and super blocks of eight pages in two banks; one zone per die, with 1016
  data blocks and 7 free blocks. The device is of the unit type: \<open>quiet_phy\<close> answers every request
  with success and changes nothing.
\<close>

definition sample_storage :: storage_info where
  "sample_storage = \<lparr>ChipCnt = 2, ChipConnectInfo = 3, RbCnt = 2, RbConnectInfo = 3, RbConnectMode = 2,
     BankCntPerChip = 1, DieCntPerChip = 1, PlaneCntPerDie = 2,
     SectorCntPerPage = 2, PageCntPerPhyBlk = 4, BlkCntPerDie = 2048, OperationOpt = 64,
     FrequencePar = 30, EccMode = 0, NandChipId = replicate 8 0xff, ValidBlkRatio = 1016,
     ReadRetryType = 0, DDRType = 0,
     OptPhyOpPar = \<lparr>MultiPlaneReadCmd = [0x60, 0x30], MultiPlaneWriteCmd = [0x11, 0x81],
       MultiPlaneCopyReadCmd = [0x60, 0x60, 0x35], MultiPlaneCopyWriteCmd = [0x85, 0x11, 0x81],
       MultiPlaneStatusCmd = 0x70, InterBnk0StatusCmd = 0xf1, InterBnk1StatusCmd = 0xf2,
       BadBlockFlagPosition = 0, MultiPlaneBlockOffset = 1\<rparr>\<rparr>"

definition sample_cfg :: cfg where
  "sample_cfg = \<lparr>storage = sample_storage,
     arch = \<lparr>LogicBlkCntPerZone = 1016, PageCntPerLogicBlk = 8, SectCntPerLogicPage = 4, ZoneCntPerDie = 1\<rparr>,
     junk8 = (\<lambda>_. 0), junk16 = 0\<rparr>"

lemma sample_cfg_simps [simp]:
  "SECTOR_CNT_OF_SINGLE_PAGE sample_cfg = 2" "SECTOR_CNT_OF_SUPER_PAGE sample_cfg = 4"
  "FULL_BITMAP_OF_SUPER_PAGE sample_cfg = 15"
  "SUPPORT_INT_INTERLEAVE sample_cfg = False" "SUPPORT_EXT_INTERLEAVE sample_cfg = True"
  "SUPPORT_ALIGN_NAND_BNK sample_cfg = True"
  "DIE_CNT_OF_CHIP sample_cfg = 1" "BLOCK_CNT_OF_DIE sample_cfg = 2048" "PLANE_CNT_OF_DIE sample_cfg = 2"
  "PAGE_CNT_OF_PHY_BLK sample_cfg = 4" "PAGE_CNT_OF_LOGIC_BLK sample_cfg = 8"
  "DATA_BLK_CNT_OF_ZONE sample_cfg = 1016" "ZONE_CNT_OF_DIE sample_cfg = 1"
  "FREE_BLK_CNT_OF_ZONE sample_cfg = 7" "INTERLEAVE_BANK_CNT sample_cfg = 2"
  by (simp_all add: sample_cfg_def sample_storage_def SECTOR_CNT_OF_SINGLE_PAGE_def
      SECTOR_CNT_OF_SUPER_PAGE_def FULL_BITMAP_OF_SUPER_PAGE_def SUPPORT_INT_INTERLEAVE_def
      SUPPORT_EXT_INTERLEAVE_def SUPPORT_ALIGN_NAND_BNK_def DIE_CNT_OF_CHIP_def BLOCK_CNT_OF_DIE_def
      PLANE_CNT_OF_DIE_def PAGE_CNT_OF_PHY_BLK_def PAGE_CNT_OF_LOGIC_BLK_def DATA_BLK_CNT_OF_ZONE_def
      ZONE_CNT_OF_DIE_def FREE_BLK_CNT_OF_ZONE_def INTERLEAVE_BANK_CNT_def BLOCK_CNT_OF_ZONE_def
      push_bit_of_1)

text \<open>A zone with one data block, one log block and two free blocks.\<close>

definition sample_tbl :: "super_phy_blk list" where
  "sample_tbl = (replicate 1024 empty_phy_blk)
     [0 := \<lparr>PhyBlkNum = 20, BlkEraseCnt = 0\<rparr>,
      1016 := \<lparr>PhyBlkNum = 21, BlkEraseCnt = 7\<rparr>, 1019 := \<lparr>PhyBlkNum = 22, BlkEraseCnt = 3\<rparr>]"

definition sample_log :: log_blk where
  "sample_log = \<lparr>LogicBlkNum = 0, LastUsedPage = 1, PhyBlk = \<lparr>PhyBlkNum = 23, BlkEraseCnt = 1\<rparr>\<rparr>"

definition sample_blk_cache :: blk_cache where
  "sample_blk_cache = \<lparr>bc_ZoneNum = 0, bc_DirtyFlag = 0, bc_AccessCnt = 0, bc_Tbl = sample_tbl,
     bc_LogBlkTbl = sample_log # replicate 15 empty_log_blk, bc_LastFreeBlkPst = 0xff\<rparr>"

definition sample_page_cache :: page_cache where
  "sample_page_cache = \<lparr>pc_ZoneNum = 0, pc_LogBlkPst = 0, pc_AccessCnt = 0,
     pc_PageMapTbl = [1, 0, 0xffff, 0xffff, 0xffff, 0xffff, 0xffff, 0xffff], pc_DirtyFlag = 0\<rparr>"

definition sample_drv :: "'d \<Rightarrow> 'd drv" where
  "sample_drv d = \<lparr>dr_blk_pool = (\<lambda>i. sample_blk_cache), dr_blk_act = 0,
     dr_log_age = replicate 16 0, dr_log_timer = 5, dr_erase_cnter = 0,
     dr_page_pool = (\<lambda>i. sample_page_cache), dr_page_act = 0,
     dr_zone_tbl = replicate 32 \<lparr>zt_PhyBlkNum = 24, zt_TablePst = 0\<rparr>,
     dr_temp_buf = replicate 2048 0, dr_write_cache = replicate 2048 0, dr_tbl_buf = replicate 2048 0,
     dr_spare_buf = replicate 16 0xff, dr_cache_page = \<lparr>gp_LogicPageNum = 0xffffffff, gp_SectorBitmap = 0\<rparr>,
     dr_ctl = \<lparr>lc_OpMode = CHR ''n'', lc_ZoneNum = 0xff, lc_LogicBlkNum = 0xffff,
       lc_LogicPageNum = 0xffff, lc_LogPageNum = 0xffff, lc_DataBlkNum = empty_phy_blk,
       lc_LogBlkNum = empty_phy_blk, lc_DiskCap = 65024\<rparr>,
     dr_dev = d\<rparr>"

definition quiet_phy :: "'d phy_ops" where
  "quiet_phy = \<lparr>PHY_PageRead = (\<lambda>op m sp d. (0, m, sp, d)),
     PHY_PageReadSpare = (\<lambda>op m sp d. (0, m, sp, d)), PHY_PageWrite = (\<lambda>op m sp d. (0, d)),
     PHY_BlockErase = (\<lambda>op d. (0, d)), PHY_SynchBank = (\<lambda>b m d. (0, d)),
     PHY_PageCopyback = (\<lambda>src dst m sp d. (0, m, sp, d))\<rparr>"

lemma sample_drv_simps [simp]:
  "BLK_MAP_CACHE (sample_drv d) = sample_blk_cache" "PAGE_MAP_CACHE (sample_drv d) = sample_page_cache"
  "dr_blk_pool (sample_drv d) i = sample_blk_cache" "dr_page_pool (sample_drv d) i = sample_page_cache"
  "dr_log_age (sample_drv d) = replicate 16 0" "dr_log_timer (sample_drv d) = 5"
  "dr_spare_buf (sample_drv d) = replicate 16 0xff" "dr_dev (sample_drv d) = d"
  "dr_temp_buf (sample_drv d) = replicate 2048 0" "dr_tbl_buf (sample_drv d) = replicate 2048 0"
  by (simp_all add: sample_drv_def BLK_MAP_CACHE_def PAGE_MAP_CACHE_def)

lemma sample_blk_cache_simps [simp]:
  "bc_Tbl sample_blk_cache = sample_tbl" "bc_ZoneNum sample_blk_cache = 0"
  "bc_LogBlkTbl sample_blk_cache = sample_log # replicate 15 empty_log_blk"
  "bc_DirtyFlag sample_blk_cache = 0" "length sample_tbl = 1024"
  "pc_ZoneNum sample_page_cache = 0" "length (pc_PageMapTbl sample_page_cache) = 8"
  "LogicBlkNum sample_log = 0" "LastUsedPage sample_log = 1" "PhyBlkNum (PhyBlk sample_log) = 23"
  by (simp_all add: sample_blk_cache_def sample_tbl_def sample_page_cache_def sample_log_def)

end
