(* ===== verification/Block_Tables.thy ===== *)
theory Block_Tables
  imports Sample_Device
begin

text \<open>
  The block mapping tables of the active zone (\<open>logic/mapping_base.c\<close>): the data block table, the
  free block table behind it in the same allocation, the log block table and the log access ages,
  with the operations that read and write their items.

  \<open>zone_blocks\<close> is the multiset of physical blocks the tables of a zone know. The lemmas say what
  each operation does to it: taking a free block removes one, putting one back adds one, and the
  block returned by \<open>BMM_GetFreeBlk\<close> has the extreme erase count of the pool.
\<close>

section \<open>Access ages of the log blocks\<close>

definition CalLogAccessCnt :: "nat \<Rightarrow> 'd drv \<Rightarrow> 'd drv option" where
  "CalLogAccessCnt nLogPst s = do {
     let s1 = (if dr_log_timer s = 0xffff
               then s\<lparr>dr_log_timer := 0, dr_log_age := replicate LOG_BLK_CNT_OF_ZONE 0\<rparr>
               else s);
     let s2 = s1\<lparr>dr_log_timer := dr_log_timer s1 + 1\<rparr>;
     age \<leftarrow> arr_set (dr_log_age s2) nLogPst (dr_log_timer s2);
     Some (s2\<lparr>dr_log_age := age\<rparr>)
   }"

section \<open>Data blocks\<close>

definition BMM_GetDataBlk :: "cfg \<Rightarrow> nat \<Rightarrow> 'd drv \<Rightarrow> (int \<times> super_phy_blk) option" where
  "BMM_GetDataBlk C nBlk s =
     (if nBlk > DATA_BLK_CNT_OF_ZONE C then Some (-1, empty_phy_blk)
      else do {
        b \<leftarrow> arr_get (bc_Tbl (BLK_MAP_CACHE s)) nBlk;
        Some (0, b)
      })"

definition BMM_SetDataBlk :: "cfg \<Rightarrow> nat \<Rightarrow> super_phy_blk \<Rightarrow> 'd drv \<Rightarrow> (int \<times> 'd drv) option" where
  "BMM_SetDataBlk C nBlk pDataBlk s =
     (if nBlk > DATA_BLK_CNT_OF_ZONE C
      then do {
        t \<leftarrow> arr_set (bc_Tbl (BLK_MAP_CACHE s)) nBlk empty_phy_blk;
        Some (-1, set_tbl t s)
      }
      else do {
        t \<leftarrow> arr_set (bc_Tbl (BLK_MAP_CACHE s)) nBlk pDataBlk;
        Some (0, set_tbl t s)
      })"

section \<open>Free blocks\<close>

text \<open>The loop of \<open>BMM_GetFreeBlk\<close>: \<open>n\<close> items to go, the next item \<open>tmpItem\<close>, the best position
  found so far (\<^term>\<open>None\<close> is the initial \<open>-1\<close>) and its erase count.\<close>

fun GetFreeBlk_loop ::
  "cfg \<Rightarrow> nat \<Rightarrow> super_phy_blk list \<Rightarrow> nat \<Rightarrow> nat \<Rightarrow> nat option \<Rightarrow> u16 \<Rightarrow> nat option option" where
  "GetFreeBlk_loop C nType tbl 0 tmpItem tmpFreePst tmpEraseCnt = Some tmpFreePst"
| "GetFreeBlk_loop C nType tbl (Suc n) tmpItem tmpFreePst tmpEraseCnt =
     (let it = (if tmpItem \<ge> FREE_BLK_CNT_OF_ZONE C then 0 else tmpItem)
      in do {
        x \<leftarrow> arr_get tbl (DATA_BLK_CNT_OF_ZONE C + it);
        if PhyBlkNum x \<noteq> 0xffff
           \<and> ((nType = LOWEST_EC_TYPE \<and> BlkEraseCnt x \<le> tmpEraseCnt)
              \<or> (nType \<noteq> LOWEST_EC_TYPE \<and> BlkEraseCnt x \<ge> tmpEraseCnt))
        then GetFreeBlk_loop C nType tbl n (Suc it) (Some it) (BlkEraseCnt x)
        else GetFreeBlk_loop C nType tbl n (Suc it) tmpFreePst tmpEraseCnt
      })"

definition BMM_GetFreeBlk :: "cfg \<Rightarrow> nat \<Rightarrow> 'd drv \<Rightarrow> (int \<times> super_phy_blk \<times> 'd drv) option" where
  "BMM_GetFreeBlk C nType s = do {
     let tbl = bc_Tbl (BLK_MAP_CACHE s);
     pst \<leftarrow> GetFreeBlk_loop C nType tbl (FREE_BLK_CNT_OF_ZONE C)
              (unat (bc_LastFreeBlkPst (BLK_MAP_CACHE s) + 1)) None
              (if nType = LOWEST_EC_TYPE then 0xffff else 0);
     case pst of
       None \<Rightarrow> Some (-1, empty_phy_blk, s)
     | Some p \<Rightarrow> do {
         b \<leftarrow> arr_get tbl (DATA_BLK_CNT_OF_ZONE C + p);
         t \<leftarrow> arr_set tbl (DATA_BLK_CNT_OF_ZONE C + p) empty_phy_blk;
         Some (0, b, set_BLK_MAP_CACHE
           (BLK_MAP_CACHE s\<lparr>bc_Tbl := t, bc_LastFreeBlkPst := of_nat p\<rparr>) s)
       }
   }"

definition BMM_SetFreeBlk :: "cfg \<Rightarrow> super_phy_blk \<Rightarrow> 'd drv \<Rightarrow> (int \<times> 'd drv) option" where
  "BMM_SetFreeBlk C pFreeBlk s = do {
     let tbl = bc_Tbl (BLK_MAP_CACHE s);
     pst \<leftarrow> scan (\<lambda>x. PhyBlkNum x = 0xffff) tbl (DATA_BLK_CNT_OF_ZONE C)
              (FREE_BLK_CNT_OF_ZONE C) 0;
     case pst of
       None \<Rightarrow> Some (-1, s)
     | Some i \<Rightarrow> do {
         t \<leftarrow> arr_set tbl (DATA_BLK_CNT_OF_ZONE C + i) pFreeBlk;
         Some (0, set_tbl t s)
       }
   }"

section \<open>Log blocks\<close>

definition GetLogBlkPst :: "nat \<Rightarrow> 'd drv \<Rightarrow> nat option option" where
  "GetLogBlkPst nBlk s =
     scan (\<lambda>l. unat (LogicBlkNum l) = nBlk) (LOG_BLK_TBL s) 0 LOG_BLK_CNT_OF_ZONE 0"

definition BMM_GetLogBlk :: "nat \<Rightarrow> 'd drv \<Rightarrow> (int \<times> log_blk) option" where
  "BMM_GetLogBlk nLogicBlk s = do {
     pst \<leftarrow> GetLogBlkPst nLogicBlk s;
     case pst of
       None \<Rightarrow> Some (-1, empty_log_blk)
     | Some p \<Rightarrow> do { l \<leftarrow> arr_get (LOG_BLK_TBL s) p; Some (0, l) }
   }"

definition BMM_SetLogBlk :: "nat \<Rightarrow> log_blk \<Rightarrow> 'd drv \<Rightarrow> (int \<times> 'd drv) option" where
  "BMM_SetLogBlk nLogicBlk pLogBlk s = do {
     pst \<leftarrow> GetLogBlkPst nLogicBlk s;
     pst' \<leftarrow> (case pst of Some p \<Rightarrow> Some (Some p) | None \<Rightarrow> GetLogBlkPst 0xffff s);
     case pst' of
       None \<Rightarrow> Some (-1, s)
     | Some p \<Rightarrow> do {
         t \<leftarrow> arr_set (LOG_BLK_TBL s) p pLogBlk;
         Some (0, set_log_tbl t s)
       }
   }"

section \<open>The active page mapping table\<close>

definition PMM_ClearCurMapTbl :: "'d drv \<Rightarrow> 'd drv" where
  "PMM_ClearCurMapTbl s = set_PAGE_MAP_CACHE
     (PAGE_MAP_CACHE s\<lparr>pc_ZoneNum := 0xff, pc_LogBlkPst := 0xff, pc_DirtyFlag := 0\<rparr>) s"

definition PMM_GetCurMapPage :: "nat \<Rightarrow> 'd drv \<Rightarrow> u16 option" where
  "PMM_GetCurMapPage nLogicalPage s = arr_get (PAGE_MAP_TBL s) nLogicalPage"

definition PMM_SetCurMapPage :: "nat \<Rightarrow> u16 \<Rightarrow> 'd drv \<Rightarrow> 'd drv option" where
  "PMM_SetCurMapPage nLogicalPage nPhysicPage s = do {
     t \<leftarrow> arr_set (PAGE_MAP_TBL s) nLogicalPage nPhysicPage;
     Some (set_page_tbl t s)
   }"

section \<open>Well-formed tables and the blocks they hold\<close>

text \<open>The allocation of the tables (\<open>BMM_InitMapTblCache\<close>): 1024 block items, 16 log items. The
  last of the 1024 holds the checksum, so data and free blocks are the first 1023.\<close>

definition cache_wf :: "cfg \<Rightarrow> blk_cache \<Rightarrow> bool" where
  "cache_wf C bc \<longleftrightarrow> length (bc_Tbl bc) = BLOCK_CNT_OF_ZONE
     \<and> length (bc_LogBlkTbl bc) = LOG_BLK_CNT_OF_ZONE
     \<and> DATA_BLK_CNT_OF_ZONE C < BLOCK_CNT_OF_ZONE"

definition valid_nums :: "super_phy_blk list \<Rightarrow> u16 multiset" where
  "valid_nums t = filter_mset (\<lambda>n. n \<noteq> 0xffff)
     (image_mset PhyBlkNum (mset (take (BLOCK_CNT_OF_ZONE - 1) t)))"

definition log_nums :: "log_blk list \<Rightarrow> u16 multiset" where
  "log_nums t = image_mset (\<lambda>l. PhyBlkNum (PhyBlk l))
     (filter_mset (\<lambda>l. LogicBlkNum l \<noteq> 0xffff) (mset t))"

definition zone_blocks :: "blk_cache \<Rightarrow> u16 multiset" where
  "zone_blocks bc = valid_nums (bc_Tbl bc) + log_nums (bc_LogBlkTbl bc)"

definition one_valid :: "u16 \<Rightarrow> u16 multiset" where
  "one_valid n = (if n \<noteq> 0xffff then {#n#} else {#})"

definition one_log :: "log_blk \<Rightarrow> u16 multiset" where
  "one_log l = (if LogicBlkNum l \<noteq> 0xffff then {#PhyBlkNum (PhyBlk l)#} else {#})"

lemma one_valid_empty [simp]: "one_valid 0xffff = {#}"
  by (simp add: one_valid_def)

lemma one_log_empty [simp]: "one_log empty_log_blk = {#}"
  by (simp add: one_log_def empty_log_blk_def)

lemma empty_phy_blk_simps [simp]:
  "PhyBlkNum empty_phy_blk = 0xffff" "BlkEraseCnt empty_phy_blk = 0xffff"
  by (simp_all add: empty_phy_blk_def)

lemma empty_log_blk_simps [simp]:
  "LogicBlkNum empty_log_blk = 0xffff" "LastUsedPage empty_log_blk = 0xffff"
  "PhyBlk empty_log_blk = empty_phy_blk"
  by (simp_all add: empty_log_blk_def)

lemma valid_nums_update:
  assumes "i < BLOCK_CNT_OF_ZONE - 1" and "i < length t"
  shows "valid_nums (t[i := b]) + one_valid (PhyBlkNum (t ! i))
       = valid_nums t + one_valid (PhyBlkNum b)"
proof -
  let ?t = "take (BLOCK_CNT_OF_ZONE - 1) t"
  have i: "i < length (map PhyBlkNum ?t)" using assms by simp
  have "filter_mset (\<lambda>n. n \<noteq> 0xffff) (mset ((map PhyBlkNum ?t)[i := PhyBlkNum b]))
        + (if map PhyBlkNum ?t ! i \<noteq> 0xffff then {#map PhyBlkNum ?t ! i#} else {#})
      = filter_mset (\<lambda>n. n \<noteq> 0xffff) (mset (map PhyBlkNum ?t))
        + (if PhyBlkNum b \<noteq> 0xffff then {#PhyBlkNum b#} else {#})"
    by (rule filter_mset_list_update [OF i])
  then show ?thesis
    using assms by (simp add: valid_nums_def one_valid_def take_update_swap map_update [symmetric]
        nth_take split: if_splits)
qed

lemma valid_nums_update_beyond:
  "BLOCK_CNT_OF_ZONE - 1 \<le> i \<Longrightarrow> valid_nums (t[i := b]) = valid_nums t"
  by (simp add: valid_nums_def)

lemma log_nums_update:
  assumes "i < length t"
  shows "log_nums (t[i := l]) + one_log (t ! i) = log_nums t + one_log l"
proof -
  let ?P = "\<lambda>l. LogicBlkNum l \<noteq> 0xffff"
  have "image_mset (\<lambda>l. PhyBlkNum (PhyBlk l))
      (filter_mset ?P (mset (t[i := l])) + (if ?P (t ! i) then {#t ! i#} else {#}))
    = image_mset (\<lambda>l. PhyBlkNum (PhyBlk l))
      (filter_mset ?P (mset t) + (if ?P l then {#l#} else {#}))"
    by (subst filter_mset_list_update [OF assms, where P = ?P and v = l]) (rule refl)
  then show ?thesis
    by (simp add: log_nums_def one_log_def split: if_splits)
qed

section \<open>The free block pool\<close>

definition free_items :: "cfg \<Rightarrow> blk_cache \<Rightarrow> super_phy_blk list" where
  "free_items C bc = take (FREE_BLK_CNT_OF_ZONE C) (drop (DATA_BLK_CNT_OF_ZONE C) (bc_Tbl bc))"

definition free_blks :: "cfg \<Rightarrow> blk_cache \<Rightarrow> super_phy_blk multiset" where
  "free_blks C bc = filter_mset (\<lambda>b. PhyBlkNum b \<noteq> 0xffff) (mset (free_items C bc))"

lemma table_split:
  "cache_wf C bc \<Longrightarrow> DATA_BLK_CNT_OF_ZONE C + FREE_BLK_CNT_OF_ZONE C = BLOCK_CNT_OF_ZONE - 1"
  by (simp add: cache_wf_def FREE_BLK_CNT_OF_ZONE_def)

lemma table_bounds:
  assumes "cache_wf C bc"
  shows "length (bc_Tbl bc) = BLOCK_CNT_OF_ZONE" "length (bc_LogBlkTbl bc) = LOG_BLK_CNT_OF_ZONE"
    "p < FREE_BLK_CNT_OF_ZONE C \<Longrightarrow> DATA_BLK_CNT_OF_ZONE C + p < BLOCK_CNT_OF_ZONE - 1"
    "p < FREE_BLK_CNT_OF_ZONE C \<Longrightarrow> DATA_BLK_CNT_OF_ZONE C + p < BLOCK_CNT_OF_ZONE"
    "DATA_BLK_CNT_OF_ZONE C < BLOCK_CNT_OF_ZONE"
  using assms by (auto simp: cache_wf_def FREE_BLK_CNT_OF_ZONE_def)

lemma length_free_items [simp]:
  "cache_wf C bc \<Longrightarrow> length (free_items C bc) = FREE_BLK_CNT_OF_ZONE C"
  by (simp add: cache_wf_def free_items_def FREE_BLK_CNT_OF_ZONE_def)

lemma nth_free_items [simp]:
  "cache_wf C bc \<Longrightarrow> p < FREE_BLK_CNT_OF_ZONE C \<Longrightarrow>
   free_items C bc ! p = bc_Tbl bc ! (DATA_BLK_CNT_OF_ZONE C + p)"
  by (simp add: cache_wf_def free_items_def FREE_BLK_CNT_OF_ZONE_def)

lemma free_items_update:
  "cache_wf C bc \<Longrightarrow> p < FREE_BLK_CNT_OF_ZONE C \<Longrightarrow>
   free_items C (bc\<lparr>bc_Tbl := (bc_Tbl bc)[DATA_BLK_CNT_OF_ZONE C + p := b]\<rparr>)
   = (free_items C bc)[p := b]"
  by (rule nth_equalityI)
    (auto simp: free_items_def cache_wf_def FREE_BLK_CNT_OF_ZONE_def nth_list_update)

lemma free_items_cong:
  "bc_Tbl bc = bc_Tbl bc' \<Longrightarrow> free_items C bc = free_items C bc'"
  by (simp add: free_items_def)

lemma free_items_data_update:
  "i < DATA_BLK_CNT_OF_ZONE C \<Longrightarrow>
   free_items C (bc\<lparr>bc_Tbl := (bc_Tbl bc)[i := b]\<rparr>) = free_items C bc"
  by (simp add: free_items_def drop_update_cancel)

lemma free_blks_update:
  assumes "cache_wf C bc" and "p < FREE_BLK_CNT_OF_ZONE C"
  shows "free_blks C (bc\<lparr>bc_Tbl := (bc_Tbl bc)[DATA_BLK_CNT_OF_ZONE C + p := b]\<rparr>)
       + filter_mset (\<lambda>b. PhyBlkNum b \<noteq> 0xffff) {#bc_Tbl bc ! (DATA_BLK_CNT_OF_ZONE C + p)#}
     = free_blks C bc + filter_mset (\<lambda>b. PhyBlkNum b \<noteq> 0xffff) {#b#}"
proof -
  have p: "p < length (free_items C bc)" using assms by simp
  have "mset ((free_items C bc)[p := b]) + {#free_items C bc ! p#} = mset (free_items C bc) + {#b#}"
    by (rule mset_list_update_add [OF p])
  then have "filter_mset (\<lambda>b. PhyBlkNum b \<noteq> 0xffff)
      (mset ((free_items C bc)[p := b]) + {#free_items C bc ! p#})
    = filter_mset (\<lambda>b. PhyBlkNum b \<noteq> 0xffff) (mset (free_items C bc) + {#b#})"
    by (simp only:)
  then show ?thesis
    unfolding filter_union_mset free_blks_def free_items_update [OF assms] nth_free_items [OF assms] .
qed

section \<open>The search for a free block\<close>

text \<open>The positions the loop visits, in order; over a whole round they are all positions.\<close>

fun visits :: "nat \<Rightarrow> nat \<Rightarrow> nat \<Rightarrow> nat list" where
  "visits F 0 it = []"
| "visits F (Suc n) it = (let i = (if it \<ge> F then 0 else it) in i # visits F n (Suc i))"

lemma visits_map:
  "0 < F \<Longrightarrow> visits F n it = map (\<lambda>k. ((if it \<ge> F then 0 else it) + k) mod F) [0..<n]"
proof (induction n arbitrary: it)
  case 0
  then show ?case by simp
next
  case (Suc n)
  define i where "i = (if it \<ge> F then 0 else it)"
  have i: "i < F" using Suc.prems by (simp add: i_def)
  have "visits F (Suc n) it = i # visits F n (Suc i)"
    by (simp add: i_def Let_def)
  also have "visits F n (Suc i) = map (\<lambda>k. ((if Suc i \<ge> F then 0 else Suc i) + k) mod F) [0..<n]"
    by (rule Suc.IH [OF Suc.prems])
  also have "\<dots> = map (\<lambda>k. (i + Suc k) mod F) [0..<n]"
  proof (cases "Suc i = F")
    case True
    then have "(i + Suc k) mod F = k mod F" for k
      by (metis add_Suc_right add_Suc mod_add_self1)
    with True show ?thesis by simp
  next
    case False
    with i show ?thesis by (auto simp: not_le)
  qed
  also have "i # \<dots> = map (\<lambda>k. (i + k) mod F) [0..<Suc n]"
    using i by (simp add: upt_conv_Cons map_Suc_upt [symmetric] comp_def del: upt_Suc)
  finally show ?case by (simp only: i_def)
qed

lemma set_visits_round: "0 < F \<Longrightarrow> set (visits F F it) = {..<F}"
proof -
  assume F: "0 < F"
  define i where "i = (if it \<ge> F then 0 else it)"
  have i: "i < F" using F by (simp add: i_def)
  have "j \<in> (\<lambda>k. (i + k) mod F) ` {0..<F}" if "j < F" for j
  proof (cases "i \<le> j")
    case True
    then have "j = (i + (j - i)) mod F" and "j - i < F" using that by auto
    then show ?thesis by (auto intro: image_eqI [where x = "j - i"])
  next
    case False
    then have "i + (F - i + j) = F + j" using i by simp
    then have "j = (i + (F - i + j)) mod F" and "F - i + j < F"
      using that False i by auto
    then show ?thesis by (auto intro: image_eqI [where x = "F - i + j"])
  qed
  with F show ?thesis
    by (auto simp: visits_map i_def [symmetric])
qed

definition ec_le :: "nat \<Rightarrow> u16 \<Rightarrow> u16 \<Rightarrow> bool" where
  "ec_le nType a b = (if nType = LOWEST_EC_TYPE then a \<le> b else b \<le> a)"

lemma ec_le_trans: "ec_le ty a b \<Longrightarrow> ec_le ty b c \<Longrightarrow> ec_le ty a c"
  by (auto simp: ec_le_def split: if_splits)

lemma ec_le_total: "\<not> ec_le ty a b \<Longrightarrow> ec_le ty b a"
  by (auto simp: ec_le_def split: if_splits)

lemma ec_le_refl [simp]: "ec_le ty a a"
  by (simp add: ec_le_def)

lemma ec_le_start [simp]: "ec_le ty a (if ty = LOWEST_EC_TYPE then 0xffff else 0)"
  by (simp add: ec_le_def)

text \<open>\<open>best_of C ty tbl V pst e r\<close>: from the best position \<open>pst\<close> with erase count \<open>e\<close> (the start value
  while nothing was found), having seen the positions \<open>V\<close>, the best position is \<open>r\<close>.\<close>

definition best_of ::
  "cfg \<Rightarrow> nat \<Rightarrow> super_phy_blk list \<Rightarrow> nat set \<Rightarrow> nat option \<Rightarrow> u16 \<Rightarrow> nat option \<Rightarrow> bool" where
  "best_of C ty tbl V pst e r =
    (let x = \<lambda>j. tbl ! (DATA_BLK_CNT_OF_ZONE C + j); ok = \<lambda>j. PhyBlkNum (x j) \<noteq> 0xffff in
     case r of
       None \<Rightarrow> pst = None \<and> (\<forall>j\<in>V. ok j \<longrightarrow> \<not> ec_le ty (BlkEraseCnt (x j)) e)
     | Some q \<Rightarrow> q < FREE_BLK_CNT_OF_ZONE C \<and> ok q \<and> ec_le ty (BlkEraseCnt (x q)) e
         \<and> (\<forall>j\<in>V. ok j \<longrightarrow> ec_le ty (BlkEraseCnt (x q)) (BlkEraseCnt (x j))))"

lemma best_of_take:
  assumes "best_of C ty tbl V (Some i) (BlkEraseCnt (tbl ! (DATA_BLK_CNT_OF_ZONE C + i))) r"
    and "ec_le ty (BlkEraseCnt (tbl ! (DATA_BLK_CNT_OF_ZONE C + i))) e"
  shows "best_of C ty tbl (insert i V) pst e r"
  using assms by (cases r) (auto simp: best_of_def Let_def intro: ec_le_trans)

lemma best_of_skip:
  assumes "best_of C ty tbl V pst e r"
    and "\<not> (PhyBlkNum (tbl ! (DATA_BLK_CNT_OF_ZONE C + i)) \<noteq> 0xffff
             \<and> ec_le ty (BlkEraseCnt (tbl ! (DATA_BLK_CNT_OF_ZONE C + i))) e)"
  shows "best_of C ty tbl (insert i V) pst e r"
  using assms by (cases r) (auto simp: best_of_def Let_def intro: ec_le_trans ec_le_total)

lemma GetFreeBlk_loop_spec:
  assumes "0 < n \<Longrightarrow> 0 < FREE_BLK_CNT_OF_ZONE C"
    and "DATA_BLK_CNT_OF_ZONE C + FREE_BLK_CNT_OF_ZONE C \<le> length tbl"
    and "\<And>q. pst = Some q \<Longrightarrow> q < FREE_BLK_CNT_OF_ZONE C
           \<and> PhyBlkNum (tbl ! (DATA_BLK_CNT_OF_ZONE C + q)) \<noteq> 0xffff
           \<and> e = BlkEraseCnt (tbl ! (DATA_BLK_CNT_OF_ZONE C + q))"
  shows "\<exists>r. GetFreeBlk_loop C ty tbl n it pst e = Some r
           \<and> best_of C ty tbl (set (visits (FREE_BLK_CNT_OF_ZONE C) n it)) pst e r"
  using assms
proof (induction n arbitrary: it pst e)
  case 0
  then show ?case by (cases pst) (auto simp: best_of_def Let_def)
next
  case (Suc n)
  let ?F = "FREE_BLK_CNT_OF_ZONE C" and ?x = "\<lambda>j. tbl ! (DATA_BLK_CNT_OF_ZONE C + j)"
  define i where "i = (if it \<ge> ?F then 0 else it)"
  have i: "i < ?F" using Suc.prems(1) by (simp add: i_def)
  then have len: "DATA_BLK_CNT_OF_ZONE C + i < length tbl" using Suc.prems(2) by simp
  have vis: "set (visits ?F (Suc n) it) = insert i (set (visits ?F n (Suc i)))"
    by (simp add: i_def Let_def)
  let ?better = "PhyBlkNum (?x i) \<noteq> 0xffff \<and> ec_le ty (BlkEraseCnt (?x i)) e"
  have step: "GetFreeBlk_loop C ty tbl (Suc n) it pst e
      = (if ?better then GetFreeBlk_loop C ty tbl n (Suc i) (Some i) (BlkEraseCnt (?x i))
         else GetFreeBlk_loop C ty tbl n (Suc i) pst e)"
    using len by (auto simp: i_def Let_def ec_le_def)
  show ?case
  proof (cases ?better)
    case True
    with Suc.IH [of "Some i" "BlkEraseCnt (?x i)" "Suc i"] i Suc.prems(1,2)
    obtain r where "GetFreeBlk_loop C ty tbl n (Suc i) (Some i) (BlkEraseCnt (?x i)) = Some r"
      and "best_of C ty tbl (set (visits ?F n (Suc i))) (Some i) (BlkEraseCnt (?x i)) r"
      by auto
    with True show ?thesis unfolding step vis by (auto intro: best_of_take)
  next
    case False
    with Suc.IH [of pst e "Suc i"] Suc.prems
    obtain r where "GetFreeBlk_loop C ty tbl n (Suc i) pst e = Some r"
      and "best_of C ty tbl (set (visits ?F n (Suc i))) pst e r"
      by auto
    with False best_of_skip [OF this(2) False] show ?thesis unfolding step vis by auto
  qed
qed

section \<open>What the free block operations do\<close>

lemma BMM_GetFreeBlk_cases:
  assumes wf: "cache_wf C (BLK_MAP_CACHE s)"
  shows "(BMM_GetFreeBlk C ty s = Some (-1, empty_phy_blk, s)
           \<and> free_blks C (BLK_MAP_CACHE s) = {#})
    \<or> (\<exists>p < FREE_BLK_CNT_OF_ZONE C.
         let b = bc_Tbl (BLK_MAP_CACHE s) ! (DATA_BLK_CNT_OF_ZONE C + p) in
         PhyBlkNum b \<noteq> 0xffff
         \<and> (\<forall>c \<in># free_blks C (BLK_MAP_CACHE s). ec_le ty (BlkEraseCnt b) (BlkEraseCnt c))
         \<and> BMM_GetFreeBlk C ty s = Some (0, b, set_BLK_MAP_CACHE
             (BLK_MAP_CACHE s\<lparr>bc_Tbl := (bc_Tbl (BLK_MAP_CACHE s))
                               [DATA_BLK_CNT_OF_ZONE C + p := empty_phy_blk],
                             bc_LastFreeBlkPst := of_nat p\<rparr>) s))"
proof -
  let ?bc = "BLK_MAP_CACHE s" and ?F = "FREE_BLK_CNT_OF_ZONE C" and ?D = "DATA_BLK_CNT_OF_ZONE C"
  let ?st = "unat (bc_LastFreeBlkPst ?bc + 1)" and ?e = "if ty = LOWEST_EC_TYPE then 0xffff else 0"
  note tb = table_bounds [OF wf]
  have len: "?D + ?F \<le> length (bc_Tbl ?bc)"
    using table_split [OF wf] tb by simp
  obtain r where r: "GetFreeBlk_loop C ty (bc_Tbl ?bc) ?F ?st None ?e = Some r"
    and best: "best_of C ty (bc_Tbl ?bc) (set (visits ?F ?F ?st)) None ?e r"
    using GetFreeBlk_loop_spec [of ?F C "bc_Tbl ?bc" None ?e ty ?st] len by auto
  have vis: "?F = 0 \<or> set (visits ?F ?F ?st) = {..<?F}"
    using set_visits_round by blast
  have free: "c \<in># free_blks C ?bc \<longleftrightarrow>
      (\<exists>j < ?F. c = bc_Tbl ?bc ! (?D + j) \<and> PhyBlkNum c \<noteq> 0xffff)" for c
    using wf by (auto simp: free_blks_def in_set_conv_nth)
  show ?thesis
  proof (cases r)
    case None
    with best vis have "free_blks C ?bc = {#}"
      by (auto simp: best_of_def Let_def free multiset_eq_iff simp flip: not_in_iff)
    with r None show ?thesis by (simp add: BMM_GetFreeBlk_def)
  next
    case (Some p)
    with best have p: "p < ?F" by (simp add: best_of_def Let_def)
    with vis have vis': "set (visits ?F ?F ?st) = {..<?F}" by auto
    from p tb have "?D + p < length (bc_Tbl ?bc)" by simp
    with best p r Some show ?thesis
      by (intro disjI2 exI [of _ p])
        (auto simp: BMM_GetFreeBlk_def best_of_def Let_def vis' free)
  qed
qed

lemma BMM_GetFreeBlk_total:
  "cache_wf C (BLK_MAP_CACHE s) \<Longrightarrow> \<exists>x. BMM_GetFreeBlk C ty s = Some x"
  using BMM_GetFreeBlk_cases [of C s ty] by (auto simp: Let_def)

lemma cache_wf_update [simp]:
  "cache_wf C (bc\<lparr>bc_Tbl := (bc_Tbl bc)[i := b]\<rparr>) = cache_wf C bc"
  "cache_wf C (bc\<lparr>bc_LogBlkTbl := (bc_LogBlkTbl bc)[i := l]\<rparr>) = cache_wf C bc"
  "cache_wf C (bc\<lparr>bc_Tbl := t, bc_LastFreeBlkPst := x\<rparr>) = cache_wf C (bc\<lparr>bc_Tbl := t\<rparr>)"
  "cache_wf C (bc\<lparr>bc_DirtyFlag := y\<rparr>) = cache_wf C bc"
  "cache_wf C (bc\<lparr>bc_AccessCnt := z\<rparr>) = cache_wf C bc"
  by (simp_all add: cache_wf_def)

lemma zone_blocks_update [simp]:
  "zone_blocks (bc\<lparr>bc_Tbl := t, bc_LastFreeBlkPst := x\<rparr>) = zone_blocks (bc\<lparr>bc_Tbl := t\<rparr>)"
  "zone_blocks (bc\<lparr>bc_DirtyFlag := y\<rparr>) = zone_blocks bc"
  "zone_blocks (bc\<lparr>bc_AccessCnt := z\<rparr>) = zone_blocks bc"
  by (simp_all add: zone_blocks_def)

lemma free_blks_update_last [simp]:
  "free_blks C (bc\<lparr>bc_Tbl := t, bc_LastFreeBlkPst := x\<rparr>) = free_blks C (bc\<lparr>bc_Tbl := t\<rparr>)"
  by (simp add: free_blks_def free_items_def)

text \<open>Taking a free block: it leaves the pool, nothing else changes.\<close>

definition free_taken :: "cfg \<Rightarrow> super_phy_blk \<Rightarrow> 'd drv \<Rightarrow> 'd drv \<Rightarrow> bool" where
  "free_taken C b s s' \<longleftrightarrow>
     s' = set_BLK_MAP_CACHE (BLK_MAP_CACHE s') s
     \<and> cache_wf C (BLK_MAP_CACHE s')
     \<and> bc_LogBlkTbl (BLK_MAP_CACHE s') = bc_LogBlkTbl (BLK_MAP_CACHE s)
     \<and> bc_ZoneNum (BLK_MAP_CACHE s') = bc_ZoneNum (BLK_MAP_CACHE s)
     \<and> bc_DirtyFlag (BLK_MAP_CACHE s') = bc_DirtyFlag (BLK_MAP_CACHE s)
     \<and> (\<forall>i < DATA_BLK_CNT_OF_ZONE C. bc_Tbl (BLK_MAP_CACHE s') ! i = bc_Tbl (BLK_MAP_CACHE s) ! i)
     \<and> free_blks C (BLK_MAP_CACHE s) = free_blks C (BLK_MAP_CACHE s') + {#b#}
     \<and> zone_blocks (BLK_MAP_CACHE s) = zone_blocks (BLK_MAP_CACHE s') + {#PhyBlkNum b#}"

lemma BMM_GetFreeBlk_post:
  assumes wf: "cache_wf C (BLK_MAP_CACHE s)"
    and get: "BMM_GetFreeBlk C ty s = Some (r, b, s')"
  shows "(r = -1 \<and> b = empty_phy_blk \<and> s' = s \<and> free_blks C (BLK_MAP_CACHE s) = {#})
    \<or> (r = 0 \<and> PhyBlkNum b \<noteq> 0xffff \<and> free_taken C b s s'
        \<and> (\<forall>c \<in># free_blks C (BLK_MAP_CACHE s). ec_le ty (BlkEraseCnt b) (BlkEraseCnt c)))"
  using BMM_GetFreeBlk_cases [OF wf, of ty]
proof (elim disjE exE conjE)
  fix p
  let ?bc = "BLK_MAP_CACHE s" and ?i = "DATA_BLK_CNT_OF_ZONE C + p"
  assume p: "p < FREE_BLK_CNT_OF_ZONE C"
    and found: "let b = bc_Tbl ?bc ! ?i in PhyBlkNum b \<noteq> 0xffff
         \<and> (\<forall>c \<in># free_blks C ?bc. ec_le ty (BlkEraseCnt b) (BlkEraseCnt c))
         \<and> BMM_GetFreeBlk C ty s = Some (0, b, set_BLK_MAP_CACHE
             (?bc\<lparr>bc_Tbl := (bc_Tbl ?bc)[?i := empty_phy_blk], bc_LastFreeBlkPst := of_nat p\<rparr>) s)"
  note tb = table_bounds [OF wf]
  from found get have b: "b = bc_Tbl ?bc ! ?i" "PhyBlkNum b \<noteq> 0xffff" "r = 0"
    and s': "s' = set_BLK_MAP_CACHE
      (?bc\<lparr>bc_Tbl := (bc_Tbl ?bc)[?i := empty_phy_blk], bc_LastFreeBlkPst := of_nat p\<rparr>) s"
    and mini: "\<forall>c \<in># free_blks C ?bc. ec_le ty (BlkEraseCnt b) (BlkEraseCnt c)"
    by (auto simp: Let_def)
  have "zone_blocks (BLK_MAP_CACHE s') + {#PhyBlkNum b#} = zone_blocks ?bc"
    using valid_nums_update [of ?i "bc_Tbl ?bc" empty_phy_blk] tb p b(1,2)
    by (simp add: s' zone_blocks_def one_valid_def)
  moreover have "free_blks C (BLK_MAP_CACHE s') + {#b#} = free_blks C ?bc"
    using free_blks_update [OF wf p, of empty_phy_blk] b(1,2) by (simp add: s')
  ultimately have "free_taken C b s s'"
    using wf p by (auto simp: free_taken_def s')
  with b mini show ?thesis by simp
qed (use get in auto)

text \<open>Putting a block back: it joins the pool if an item is empty; only then does the table change.\<close>

definition free_added :: "cfg \<Rightarrow> super_phy_blk \<Rightarrow> 'd drv \<Rightarrow> 'd drv \<Rightarrow> bool" where
  "free_added C b s s' \<longleftrightarrow>
     s' = set_BLK_MAP_CACHE (BLK_MAP_CACHE s') s
     \<and> cache_wf C (BLK_MAP_CACHE s')
     \<and> bc_LogBlkTbl (BLK_MAP_CACHE s') = bc_LogBlkTbl (BLK_MAP_CACHE s)
     \<and> bc_ZoneNum (BLK_MAP_CACHE s') = bc_ZoneNum (BLK_MAP_CACHE s)
     \<and> bc_DirtyFlag (BLK_MAP_CACHE s') = bc_DirtyFlag (BLK_MAP_CACHE s)
     \<and> (\<forall>i < DATA_BLK_CNT_OF_ZONE C. bc_Tbl (BLK_MAP_CACHE s') ! i = bc_Tbl (BLK_MAP_CACHE s) ! i)
     \<and> free_blks C (BLK_MAP_CACHE s') = free_blks C (BLK_MAP_CACHE s)
         + filter_mset (\<lambda>b. PhyBlkNum b \<noteq> 0xffff) {#b#}
     \<and> zone_blocks (BLK_MAP_CACHE s') = zone_blocks (BLK_MAP_CACHE s) + one_valid (PhyBlkNum b)"

lemma BMM_SetFreeBlk_cases:
  assumes wf: "cache_wf C (BLK_MAP_CACHE s)"
  shows "(BMM_SetFreeBlk C b s = Some (-1, s)
           \<and> size (free_blks C (BLK_MAP_CACHE s)) = FREE_BLK_CNT_OF_ZONE C)
    \<or> (\<exists>s'. BMM_SetFreeBlk C b s = Some (0, s') \<and> free_added C b s s'
           \<and> size (free_blks C (BLK_MAP_CACHE s)) < FREE_BLK_CNT_OF_ZONE C)"
proof -
  let ?bc = "BLK_MAP_CACHE s" and ?F = "FREE_BLK_CNT_OF_ZONE C" and ?D = "DATA_BLK_CNT_OF_ZONE C"
  let ?P = "\<lambda>x. PhyBlkNum x = 0xffff"
  note tb = table_bounds [OF wf]
  have len: "?D + 0 + ?F \<le> length (bc_Tbl ?bc)"
    using table_split [OF wf] tb by simp
  obtain r where r: "scan ?P (bc_Tbl ?bc) ?D ?F 0 = Some r"
    using scan_total [OF len] by blast
  show ?thesis
  proof (cases r)
    case None
    have "PhyBlkNum x \<noteq> 0xffff" if "x \<in># mset (free_items C ?bc)" for x
      using that scan_none [OF r [unfolded None]] wf by (auto simp: in_set_conv_nth)
    then have "free_blks C ?bc = mset (free_items C ?bc)"
      unfolding free_blks_def by (intro filter_mset_eq_conv [THEN iffD2]) auto
    with r None wf show ?thesis
      by (simp add: BMM_SetFreeBlk_def)
  next
    case (Some p)
    let ?i = "?D + p"
    define s' where "s' = set_tbl ((bc_Tbl ?bc)[?i := b]) s"
    from scan_found [OF r [unfolded Some]] have p: "p < ?F" "?i < length (bc_Tbl ?bc)"
      "PhyBlkNum (bc_Tbl ?bc ! ?i) = 0xffff" by auto
    have "zone_blocks (BLK_MAP_CACHE s') = zone_blocks ?bc + one_valid (PhyBlkNum b)"
      using valid_nums_update [of ?i "bc_Tbl ?bc" b] tb p
      by (simp add: s'_def zone_blocks_def)
    moreover have fr: "free_blks C (BLK_MAP_CACHE s') = free_blks C ?bc
        + filter_mset (\<lambda>b. PhyBlkNum b \<noteq> 0xffff) {#b#}"
      using free_blks_update [OF wf p(1), of b] p by (simp add: s'_def)
    ultimately have added: "free_added C b s s'"
      using wf p tb by (auto simp: free_added_def s'_def)
    have "size (free_blks C ?bc) < size (mset (free_items C ?bc))"
    proof -
      have "free_items C ?bc ! p \<in># mset (free_items C ?bc)"
        unfolding set_mset_mset by (rule nth_mem) (use p wf in simp)
      moreover have "free_items C ?bc ! p \<notin># free_blks C ?bc"
        using p wf by (simp add: free_blks_def)
      ultimately have "free_blks C ?bc \<subset># mset (free_items C ?bc)"
        unfolding free_blks_def by (metis multiset_filter_subset subset_mset.le_imp_less_or_eq)
      then show ?thesis by (rule mset_subset_size)
    qed
    with added r Some p wf show ?thesis
      by (auto simp: BMM_SetFreeBlk_def s'_def)
  qed
qed

lemma BMM_SetFreeBlk_post:
  assumes "cache_wf C (BLK_MAP_CACHE s)" and "BMM_SetFreeBlk C b s = Some (r, s')"
  shows "(r = -1 \<and> s' = s) \<or> (r = 0 \<and> free_added C b s s')"
  using BMM_SetFreeBlk_cases [OF assms(1), of b] assms(2) by auto

lemma BMM_SetFreeBlk_total:
  "cache_wf C (BLK_MAP_CACHE s) \<Longrightarrow> \<exists>x. BMM_SetFreeBlk C b s = Some x"
  using BMM_SetFreeBlk_cases [of C s b] by auto

section \<open>Data and log block items\<close>

lemma BMM_GetDataBlk_in:
  "cache_wf C (BLK_MAP_CACHE s) \<Longrightarrow> n \<le> DATA_BLK_CNT_OF_ZONE C \<Longrightarrow>
   BMM_GetDataBlk C n s = Some (0, bc_Tbl (BLK_MAP_CACHE s) ! n)"
  by (simp add: BMM_GetDataBlk_def cache_wf_def)

lemma BMM_SetDataBlk_in:
  "cache_wf C (BLK_MAP_CACHE s) \<Longrightarrow> n \<le> DATA_BLK_CNT_OF_ZONE C \<Longrightarrow>
   BMM_SetDataBlk C n b s = Some (0, set_tbl ((bc_Tbl (BLK_MAP_CACHE s))[n := b]) s)"
  by (simp add: BMM_SetDataBlk_def cache_wf_def)

text \<open>Installing a data block: the old one leaves the zone, the new one enters.\<close>

lemma zone_blocks_set_data:
  assumes wf: "cache_wf C bc" and n: "n < DATA_BLK_CNT_OF_ZONE C"
  shows "zone_blocks (bc\<lparr>bc_Tbl := (bc_Tbl bc)[n := b]\<rparr>) + one_valid (PhyBlkNum (bc_Tbl bc ! n))
       = zone_blocks bc + one_valid (PhyBlkNum b)"
proof -
  have "n < BLOCK_CNT_OF_ZONE - 1" and "n < length (bc_Tbl bc)"
    using wf n by (auto simp: cache_wf_def)
  from valid_nums_update [OF this, of b] show ?thesis
    by (simp add: zone_blocks_def ac_simps)
qed

lemma free_blks_set_data:
  "n < DATA_BLK_CNT_OF_ZONE C \<Longrightarrow>
   free_blks C (bc\<lparr>bc_Tbl := (bc_Tbl bc)[n := b]\<rparr>) = free_blks C bc"
  by (simp add: free_blks_def free_items_data_update)

lemma zone_blocks_set_log:
  assumes wf: "cache_wf C bc" and p: "p < LOG_BLK_CNT_OF_ZONE"
  shows "zone_blocks (bc\<lparr>bc_LogBlkTbl := (bc_LogBlkTbl bc)[p := l]\<rparr>) + one_log (bc_LogBlkTbl bc ! p)
       = zone_blocks bc + one_log l"
  using log_nums_update [of p "bc_LogBlkTbl bc" l] wf p
  by (simp add: zone_blocks_def cache_wf_def ac_simps)

lemma free_blks_set_log [simp]:
  "free_blks C (bc\<lparr>bc_LogBlkTbl := t\<rparr>) = free_blks C bc"
  by (simp add: free_blks_def free_items_def)

lemma GetLogBlkPst_total:
  "cache_wf C (BLK_MAP_CACHE s) \<Longrightarrow> \<exists>r. GetLogBlkPst n s = Some r"
  unfolding GetLogBlkPst_def by (rule scan_total) (simp add: cache_wf_def)

lemma GetLogBlkPst_found:
  "GetLogBlkPst n s = Some (Some p) \<Longrightarrow>
   p < LOG_BLK_CNT_OF_ZONE \<and> p < length (LOG_BLK_TBL s) \<and> unat (LogicBlkNum (LOG_BLK_TBL s ! p)) = n"
  unfolding GetLogBlkPst_def by (auto dest: scan_found)

lemma GetLogBlkPst_none:
  "GetLogBlkPst n s = Some None \<Longrightarrow> p < LOG_BLK_CNT_OF_ZONE \<Longrightarrow>
   unat (LogicBlkNum (LOG_BLK_TBL s ! p)) \<noteq> n"
  unfolding GetLogBlkPst_def by (drule scan_none [where j = p]) auto

lemma BMM_GetLogBlk_total:
  "cache_wf C (BLK_MAP_CACHE s) \<Longrightarrow> \<exists>r. BMM_GetLogBlk n s = Some r"
  using GetLogBlkPst_total [of C s n] GetLogBlkPst_found [of n s]
  by (auto simp: BMM_GetLogBlk_def split: option.splits)

lemma BMM_GetLogBlk_post:
  assumes "BMM_GetLogBlk n s = Some (r, l)"
  shows "(r = 0 \<and> (\<exists>p < LOG_BLK_CNT_OF_ZONE. p < length (LOG_BLK_TBL s)
            \<and> GetLogBlkPst n s = Some (Some p) \<and> l = LOG_BLK_TBL s ! p
            \<and> unat (LogicBlkNum l) = n))
       \<or> (r = -1 \<and> l = empty_log_blk \<and> GetLogBlkPst n s = Some None)"
  using assms GetLogBlkPst_found [of n s]
  by (auto simp: BMM_GetLogBlk_def Option.bind_eq_Some_conv split: option.splits)

lemma BMM_SetLogBlk_post:
  assumes "BMM_SetLogBlk n l s = Some (r, s')"
  shows "(r = 0 \<and> (\<exists>p < LOG_BLK_CNT_OF_ZONE. p < length (LOG_BLK_TBL s)
            \<and> (GetLogBlkPst n s = Some (Some p)
               \<or> GetLogBlkPst n s = Some None \<and> LogicBlkNum (LOG_BLK_TBL s ! p) = 0xffff)
            \<and> s' = set_log_tbl ((LOG_BLK_TBL s)[p := l]) s))
       \<or> (r = -1 \<and> s' = s \<and> GetLogBlkPst n s = Some None \<and> GetLogBlkPst 0xffff s = Some None)"
proof -
  have ffff: "unat w = 0xffff \<Longrightarrow> w = 0xffff" for w :: u16
    using word_unat_eq_iff [of w "0xffff"] by simp
  show ?thesis
  proof (cases "GetLogBlkPst n s")
    case None
    with assms show ?thesis by (simp add: BMM_SetLogBlk_def)
  next
    case (Some pst)
    show ?thesis
    proof (cases pst)
      case None
      with assms Some show ?thesis
        using GetLogBlkPst_found [of "0xffff" s]
        by (auto simp: BMM_SetLogBlk_def Option.bind_eq_Some_conv ffff split: option.splits)
    next
      fix p assume "pst = Some p"
      with assms Some show ?thesis
        using GetLogBlkPst_found [of n s p]
        by (auto simp: BMM_SetLogBlk_def Option.bind_eq_Some_conv)
    qed
  qed
qed

section \<open>Taking a block shrinks the pool, whatever the tables hold\<close>

lemma GetFreeBlk_loop_found:
  "GetFreeBlk_loop C ty tbl n it pst e = Some (Some p) \<Longrightarrow> (0 < n \<Longrightarrow> 0 < FREE_BLK_CNT_OF_ZONE C) \<Longrightarrow>
   pst = Some p \<or> (p < FREE_BLK_CNT_OF_ZONE C \<and> DATA_BLK_CNT_OF_ZONE C + p < length tbl
     \<and> PhyBlkNum (tbl ! (DATA_BLK_CNT_OF_ZONE C + p)) \<noteq> 0xffff)"
proof (induction n arbitrary: it pst e)
  case 0
  then show ?case by simp
next
  case (Suc n)
  define i where "i = (if it \<ge> FREE_BLK_CNT_OF_ZONE C then 0 else it)"
  have i: "i < FREE_BLK_CNT_OF_ZONE C" using Suc.prems(2) by (simp add: i_def)
  note F = Suc.prems(2) [OF zero_less_Suc]
  from Suc.prems(1) obtain pst' e' where
    "GetFreeBlk_loop C ty tbl n (Suc i) pst' e' = Some (Some p)"
    and *: "DATA_BLK_CNT_OF_ZONE C + i < length tbl"
    and "pst' = pst \<or> pst' = Some i \<and> PhyBlkNum (tbl ! (DATA_BLK_CNT_OF_ZONE C + i)) \<noteq> 0xffff"
    by (auto simp: i_def [symmetric] Let_def Option.bind_eq_Some_conv split: if_splits)
  with Suc.IH [of "Suc i" pst' e'] F i show ?case by auto
qed

lemma free_items_shrink:
  assumes "p < FREE_BLK_CNT_OF_ZONE C" and "DATA_BLK_CNT_OF_ZONE C + p < length (bc_Tbl bc)"
    and "PhyBlkNum (bc_Tbl bc ! (DATA_BLK_CNT_OF_ZONE C + p)) \<noteq> 0xffff"
  shows "size (free_blks C (bc\<lparr>bc_Tbl := (bc_Tbl bc)[DATA_BLK_CNT_OF_ZONE C + p := empty_phy_blk]\<rparr>))
       < size (free_blks C bc)"
proof -
  let ?it = "free_items C bc" and ?P = "\<lambda>b. PhyBlkNum b \<noteq> 0xffff"
  have p: "p < length ?it" and nth: "?it ! p = bc_Tbl bc ! (DATA_BLK_CNT_OF_ZONE C + p)"
    using assms by (auto simp: free_items_def)
  have upd: "free_items C (bc\<lparr>bc_Tbl := (bc_Tbl bc)[DATA_BLK_CNT_OF_ZONE C + p := empty_phy_blk]\<rparr>)
      = ?it[p := empty_phy_blk]"
    using assms by (auto intro!: nth_equalityI simp: free_items_def nth_list_update)
  from filter_mset_list_update [OF p, where P = ?P and v = empty_phy_blk] assms(3)
  have "free_blks C bc = filter_mset ?P (mset (?it[p := empty_phy_blk])) + {#?it ! p#}"
    by (simp add: free_blks_def nth)
  then show ?thesis by (simp add: free_blks_def upd)
qed

lemma BMM_GetFreeBlk_shrinks:
  assumes "BMM_GetFreeBlk C ty s = Some (r, b, s')" and "PhyBlkNum b \<noteq> 0xffff"
  shows "size (free_blks C (BLK_MAP_CACHE s')) < size (free_blks C (BLK_MAP_CACHE s))"
proof -
  from assms obtain p where
    loop: "GetFreeBlk_loop C ty (bc_Tbl (BLK_MAP_CACHE s)) (FREE_BLK_CNT_OF_ZONE C)
      (unat (bc_LastFreeBlkPst (BLK_MAP_CACHE s) + 1)) None
      (if ty = LOWEST_EC_TYPE then 0xffff else 0) = Some (Some p)"
    and s': "s' = set_BLK_MAP_CACHE (BLK_MAP_CACHE s\<lparr>bc_Tbl := (bc_Tbl (BLK_MAP_CACHE s))
      [DATA_BLK_CNT_OF_ZONE C + p := empty_phy_blk], bc_LastFreeBlkPst := of_nat p\<rparr>) s"
    by (auto simp: BMM_GetFreeBlk_def Let_def Option.bind_eq_Some_conv split: option.splits)
  from GetFreeBlk_loop_found [OF loop] free_items_shrink [of p C "BLK_MAP_CACHE s"]
  show ?thesis by (simp add: s')
qed

section \<open>The free pool as an interface\<close>

text \<open>What the rest of the driver relies on: taking a block removes it from the pool and fails only on
  the empty pool, putting one back adds it unless the table is full.\<close>

locale free_pool =
  fixes wf :: "'s \<Rightarrow> bool"
    and pool :: "'s \<Rightarrow> super_phy_blk multiset"
    and cap :: nat
    and take_blk :: "'s \<Rightarrow> (int \<times> super_phy_blk \<times> 's) option"
    and put_blk :: "super_phy_blk \<Rightarrow> 's \<Rightarrow> (int \<times> 's) option"
  assumes take_some: "wf s \<Longrightarrow> pool s \<noteq> {#} \<Longrightarrow> \<exists>b s'. take_blk s = Some (0, b, s') \<and> wf s'
      \<and> PhyBlkNum b \<noteq> 0xffff \<and> pool s = add_mset b (pool s')"
    and take_none: "wf s \<Longrightarrow> pool s = {#} \<Longrightarrow> take_blk s = Some (-1, empty_phy_blk, s)"
    and put_ok: "wf s \<Longrightarrow> PhyBlkNum b \<noteq> 0xffff \<Longrightarrow> size (pool s) < cap \<Longrightarrow>
      \<exists>s'. put_blk b s = Some (0, s') \<and> wf s' \<and> pool s' = add_mset b (pool s)"
    and put_full: "wf s \<Longrightarrow> cap \<le> size (pool s) \<Longrightarrow> put_blk b s = Some (-1, s)"
    and pool_cap: "wf s \<Longrightarrow> size (pool s) \<le> cap"
begin

text \<open>Taking blocks until there is none, at most \<open>n\<close> of them.\<close>

fun drain :: "nat \<Rightarrow> 's \<Rightarrow> (super_phy_blk list \<times> 's) option" where
  "drain 0 s = Some ([], s)"
| "drain (Suc n) s = do {
     (r, b, s1) \<leftarrow> take_blk s;
     if r < 0 then Some ([], s1)
     else do { (bs, s2) \<leftarrow> drain n s1; Some (b # bs, s2) }
   }"

lemma drain_all:
  "wf s \<Longrightarrow> size (pool s) \<le> n \<Longrightarrow>
   \<exists>bs s'. drain n s = Some (bs, s') \<and> mset bs = pool s \<and> wf s' \<and> pool s' = {#}"
proof (induction n arbitrary: s)
  case 0
  then show ?case by simp
next
  case (Suc n)
  show ?case
  proof (cases "pool s = {#}")
    case True
    with take_none [OF Suc.prems(1)] Suc.prems show ?thesis by simp
  next
    case False
    with take_some [OF Suc.prems(1)] obtain b s1 where t: "take_blk s = Some (0, b, s1)" "wf s1"
      "pool s = add_mset b (pool s1)" by blast
    with Suc.IH [of s1] Suc.prems show ?thesis by (auto simp: t(1))
  qed
qed

lemma take_put:
  assumes "wf s" and "pool s \<noteq> {#}"
  shows "\<exists>b s1 s2. take_blk s = Some (0, b, s1) \<and> put_blk b s1 = Some (0, s2) \<and> wf s2
    \<and> pool s2 = pool s"
proof -
  from take_some [OF assms] obtain b s1 where t: "take_blk s = Some (0, b, s1)" "wf s1"
    "PhyBlkNum b \<noteq> 0xffff" "pool s = add_mset b (pool s1)" by blast
  have "size (pool s1) < cap" using pool_cap [OF assms(1)] t(4) by simp
  from put_ok [OF t(2,3) this] t show ?thesis by auto
qed

end

interpretation fp: free_pool "\<lambda>s :: 'd drv. cache_wf C (BLK_MAP_CACHE s)"
  "\<lambda>s. free_blks C (BLK_MAP_CACHE s)" "FREE_BLK_CNT_OF_ZONE C" "BMM_GetFreeBlk C ty" "BMM_SetFreeBlk C"
  for C :: cfg and ty :: nat
proof (unfold_locales, goal_cases)
  case (1 s)
  with BMM_GetFreeBlk_cases [OF 1(1), of ty] obtain b s' where
    g: "BMM_GetFreeBlk C ty s = Some (0, b, s')" by (auto simp: Let_def)
  from BMM_GetFreeBlk_post [OF 1(1) g] g show ?case by (auto simp: free_taken_def)
next
  case (2 s)
  obtain r b s' where g: "BMM_GetFreeBlk C ty s = Some (r, b, s')"
    using BMM_GetFreeBlk_cases [OF 2(1), of ty] by (auto simp: Let_def)
  from BMM_GetFreeBlk_post [OF 2(1) g] g 2(2) show ?case by (auto simp: free_taken_def)
next
  case (3 s b)
  with BMM_SetFreeBlk_cases [OF 3(1), of b] show ?case by (auto simp: free_added_def)
next
  case (4 s b)
  with BMM_SetFreeBlk_cases [OF 4(1), of b] show ?case by auto
next
  case (5 s)
  then have "size (free_blks C (BLK_MAP_CACHE s)) \<le> size (mset (free_items C (BLK_MAP_CACHE s)))"
    unfolding free_blks_def by (intro size_mset_mono) simp
  with 5 show ?case by simp
qed

section \<open>Properties\<close>

text \<open>The sample driver has two free blocks.\<close>

lemma sample_cache_wf [simp]: "cache_wf sample_cfg sample_blk_cache"
  by (simp add: cache_wf_def BLOCK_CNT_OF_ZONE_def MAX_LOG_BLK_CNT_def)

lemma sample_free:
  "\<lparr>PhyBlkNum = 22, BlkEraseCnt = 3\<rparr> \<in># free_blks sample_cfg sample_blk_cache"
  "\<lparr>PhyBlkNum = 21, BlkEraseCnt = 7\<rparr> \<in># free_blks sample_cfg sample_blk_cache"
proof -
  have "free_items sample_cfg sample_blk_cache ! 0 \<in> set (free_items sample_cfg sample_blk_cache)"
    "free_items sample_cfg sample_blk_cache ! 3 \<in> set (free_items sample_cfg sample_blk_cache)"
    by (intro nth_mem, simp)+
  then show "\<lparr>PhyBlkNum = 22, BlkEraseCnt = 3\<rparr> \<in># free_blks sample_cfg sample_blk_cache"
    "\<lparr>PhyBlkNum = 21, BlkEraseCnt = 7\<rparr> \<in># free_blks sample_cfg sample_blk_cache"
    by (simp_all add: free_blks_def sample_tbl_def)
qed

text \<open>C8: \<open>BMM_GetFreeBlk\<close> reports failure exactly when the zone has no free block. Otherwise it
  returns a free block of the extreme erase count asked for (the lowest for \<open>LOWEST_EC_TYPE\<close>, else the
  highest), removes exactly this block from the pool and leaves data and log items alone.\<close>

theorem GetFreeBlk_extreme:
  assumes "cache_wf C (BLK_MAP_CACHE s)"
  shows "if free_blks C (BLK_MAP_CACHE s) = {#}
    then BMM_GetFreeBlk C ty s = Some (-1, empty_phy_blk, s)
    else \<exists>b s'. BMM_GetFreeBlk C ty s = Some (0, b, s')
      \<and> b \<in># free_blks C (BLK_MAP_CACHE s)
      \<and> (\<forall>c \<in># free_blks C (BLK_MAP_CACHE s).
            if ty = LOWEST_EC_TYPE then BlkEraseCnt b \<le> BlkEraseCnt c else BlkEraseCnt c \<le> BlkEraseCnt b)
      \<and> free_blks C (BLK_MAP_CACHE s') = free_blks C (BLK_MAP_CACHE s) - {#b#}
      \<and> bc_LogBlkTbl (BLK_MAP_CACHE s') = bc_LogBlkTbl (BLK_MAP_CACHE s)
      \<and> (\<forall>i < DATA_BLK_CNT_OF_ZONE C.
            bc_Tbl (BLK_MAP_CACHE s') ! i = bc_Tbl (BLK_MAP_CACHE s) ! i)"
proof -
  obtain r b s' where get: "BMM_GetFreeBlk C ty s = Some (r, b, s')"
    using BMM_GetFreeBlk_cases [OF assms, of ty] by (auto simp: Let_def)
  from BMM_GetFreeBlk_post [OF assms get] get show ?thesis
    by (auto simp: free_taken_def ec_le_def)
qed

lemma GetFreeBlk_extreme_witness:
  "\<exists>b s'. BMM_GetFreeBlk sample_cfg LOWEST_EC_TYPE (sample_drv ()) = Some (0, b, s')
     \<and> b \<in># free_blks sample_cfg sample_blk_cache \<and> BlkEraseCnt b \<le> 3"
proof -
  have "free_blks sample_cfg sample_blk_cache \<noteq> {#}" using sample_free by auto
  with GetFreeBlk_extreme [of sample_cfg "sample_drv ()" LOWEST_EC_TYPE] sample_free(1)
  show ?thesis by fastforce
qed

text \<open>Asking for free blocks until the driver reports failure hands out every free block of the
  zone exactly once, in whatever order, and leaves the pool empty.\<close>

theorem GetFreeBlk_hands_out_all:
  assumes "cache_wf C (BLK_MAP_CACHE s)" and "FREE_BLK_CNT_OF_ZONE C \<le> n"
  shows "\<exists>bs s'. fp.drain C ty n s = Some (bs, s') \<and> mset bs = free_blks C (BLK_MAP_CACHE s)
    \<and> free_blks C (BLK_MAP_CACHE s') = {#}"
  using fp.drain_all [of C s n ty] fp.pool_cap [of C s] assms by fastforce

lemma GetFreeBlk_hands_out_all_witness:
  "\<exists>bs s'. fp.drain sample_cfg LOWEST_EC_TYPE 7 (sample_drv ()) = Some (bs, s')
     \<and> mset bs = free_blks sample_cfg sample_blk_cache \<and> bs \<noteq> []"
proof -
  have "free_blks sample_cfg sample_blk_cache \<noteq> {#}" using sample_free by auto
  with GetFreeBlk_hands_out_all [of sample_cfg "sample_drv ()" 7 LOWEST_EC_TYPE] show ?thesis
    by fastforce
qed

lemma GetLogBlkPst_eq:
  "cache_wf C (BLK_MAP_CACHE s) \<Longrightarrow> p < LOG_BLK_CNT_OF_ZONE \<Longrightarrow>
   unat (LogicBlkNum (LOG_BLK_TBL s ! p)) = n \<Longrightarrow>
   (\<And>j. j < p \<Longrightarrow> unat (LogicBlkNum (LOG_BLK_TBL s ! j)) \<noteq> n) \<Longrightarrow>
   GetLogBlkPst n s = Some (Some p)"
  unfolding GetLogBlkPst_def by (rule scan_first) (auto simp: cache_wf_def)

lemma GetLogBlkPst_before:
  "GetLogBlkPst n s = Some (Some p) \<Longrightarrow> j < p \<Longrightarrow> unat (LogicBlkNum (LOG_BLK_TBL s ! j)) \<noteq> n"
  unfolding GetLogBlkPst_def by (drule scan_found) auto

lemma GetLogBlkPst_eq_None:
  "cache_wf C (BLK_MAP_CACHE s) \<Longrightarrow>
   (\<And>j. j < LOG_BLK_CNT_OF_ZONE \<Longrightarrow> unat (LogicBlkNum (LOG_BLK_TBL s ! j)) \<noteq> n) \<Longrightarrow>
   GetLogBlkPst n s = Some None"
  unfolding GetLogBlkPst_def by (rule scan_nowhere) (auto simp: cache_wf_def)

lemma SetLogBlk_pst:
  assumes wf: "cache_wf C (BLK_MAP_CACHE s)" and set: "BMM_SetLogBlk n l s = Some (0, s')"
    and num: "unat (LogicBlkNum l) = n" and n: "n < 0xffff"
  obtains p where "p < LOG_BLK_CNT_OF_ZONE" and "s' = set_log_tbl ((LOG_BLK_TBL s)[p := l]) s"
    and "GetLogBlkPst n s' = Some (Some p)" and "cache_wf C (BLK_MAP_CACHE s')"
    and "unat (LogicBlkNum (LOG_BLK_TBL s ! p)) = n \<or> LogicBlkNum (LOG_BLK_TBL s ! p) = 0xffff"
proof -
  from BMM_SetLogBlk_post [OF set] obtain p where p: "p < LOG_BLK_CNT_OF_ZONE"
      "p < length (LOG_BLK_TBL s)"
    and pst: "GetLogBlkPst n s = Some (Some p)
              \<or> GetLogBlkPst n s = Some None \<and> LogicBlkNum (LOG_BLK_TBL s ! p) = 0xffff"
    and s': "s' = set_log_tbl ((LOG_BLK_TBL s)[p := l]) s" by auto
  have wf': "cache_wf C (BLK_MAP_CACHE s')" using wf by (simp add: s' cache_wf_def)
  have before: "unat (LogicBlkNum (LOG_BLK_TBL s ! j)) \<noteq> n" if "j < p" for j
    using pst that p(1) GetLogBlkPst_before [of n s p j] GetLogBlkPst_none [of n s j] by auto
  have "GetLogBlkPst n s' = Some (Some p)"
    by (rule GetLogBlkPst_eq [OF wf' p(1)]) (use p num before in \<open>auto simp: s'\<close>)
  with that p s' wf' pst GetLogBlkPst_found [of n s p] show thesis by blast
qed

text \<open>A log block that \<open>BMM_SetLogBlk\<close> stored is the one \<open>BMM_GetLogBlk\<close> returns for its logical
  block, and the log blocks of all other logical blocks are returned as before.\<close>

theorem SetLogBlk_GetLogBlk:
  assumes "cache_wf C (BLK_MAP_CACHE s)" and "BMM_SetLogBlk n l s = Some (0, s')"
    and "unat (LogicBlkNum l) = n" and "n < 0xffff" and "m < 0xffff"
  shows "BMM_GetLogBlk m s' = (if m = n then Some (0, l) else BMM_GetLogBlk m s)"
proof -
  from SetLogBlk_pst [OF assms(1-4)] obtain p where p: "p < LOG_BLK_CNT_OF_ZONE"
    and s': "s' = set_log_tbl ((LOG_BLK_TBL s)[p := l]) s"
    and n: "GetLogBlkPst n s' = Some (Some p)" and wf': "cache_wf C (BLK_MAP_CACHE s')"
    and old: "unat (LogicBlkNum (LOG_BLK_TBL s ! p)) = n \<or> LogicBlkNum (LOG_BLK_TBL s ! p) = 0xffff"
    by blast
  have len: "length (LOG_BLK_TBL s) = LOG_BLK_CNT_OF_ZONE" using assms(1) by (simp add: cache_wf_def)
  show ?thesis
  proof (cases "m = n")
    case True
    with n s' p len show ?thesis by (simp add: BMM_GetLogBlk_def)
  next
    case False
    with old assms(5) have ne: "unat (LogicBlkNum (LOG_BLK_TBL s ! p)) \<noteq> m" by auto
    with False assms(3) have same: "unat (LogicBlkNum (LOG_BLK_TBL s' ! j)) = m
        \<longleftrightarrow> unat (LogicBlkNum (LOG_BLK_TBL s ! j)) = m" if "j < LOG_BLK_CNT_OF_ZONE" for j
      using that len p by (auto simp: s' nth_list_update)
    obtain r where r: "GetLogBlkPst m s = Some r" using GetLogBlkPst_total [OF assms(1)] by blast
    have "GetLogBlkPst m s' = Some r"
    proof (cases r)
      case None
      with r same show ?thesis
        by (auto intro!: GetLogBlkPst_eq_None [OF wf'] dest: GetLogBlkPst_none)
    next
      case (Some q)
      with r have q: "q < LOG_BLK_CNT_OF_ZONE" "unat (LogicBlkNum (LOG_BLK_TBL s ! q)) = m"
        using GetLogBlkPst_found by auto
      with same show ?thesis unfolding Some
        by (intro GetLogBlkPst_eq [OF wf']) (auto dest: GetLogBlkPst_before [OF r [unfolded Some]])
    qed
    moreover have "LOG_BLK_TBL s' ! q = LOG_BLK_TBL s ! q" if "r = Some q" for q
      using GetLogBlkPst_found [of m s q] r that ne by (cases "p = q") (auto simp: s')
    ultimately show ?thesis
      using r False len GetLogBlkPst_found [of m s] by (cases r) (auto simp: BMM_GetLogBlk_def s')
  qed
qed

lemma SetLogBlk_GetLogBlk_witness:
  "\<exists>s'. BMM_SetLogBlk 0 (sample_log\<lparr>LastUsedPage := 2\<rparr>) (sample_drv ()) = Some (0, s')
     \<and> BMM_GetLogBlk 0 s' = Some (0, sample_log\<lparr>LastUsedPage := 2\<rparr>)
     \<and> BMM_GetLogBlk 9 s' = Some (-1, empty_log_blk)"
proof -
  have pst: "GetLogBlkPst 0 (sample_drv ()) = Some (Some 0)"
    by (rule GetLogBlkPst_eq [of sample_cfg]) (simp_all add: MAX_LOG_BLK_CNT_def)
  have none: "GetLogBlkPst 9 (sample_drv ()) = Some None"
    by (rule GetLogBlkPst_eq_None [of sample_cfg]) (simp_all add: MAX_LOG_BLK_CNT_def nth_Cons split: nat.splits)
  from pst obtain s' where s': "BMM_SetLogBlk 0 (sample_log\<lparr>LastUsedPage := 2\<rparr>) (sample_drv ()) = Some (0, s')"
    by (simp add: BMM_SetLogBlk_def)
  note p = SetLogBlk_GetLogBlk [of sample_cfg "sample_drv ()" 0 "sample_log\<lparr>LastUsedPage := 2\<rparr>" s']
  have "BMM_GetLogBlk 9 (sample_drv ()) = Some (-1, empty_log_blk)"
    using none by (simp add: BMM_GetLogBlk_def)
  with s' p [of 0] p [of 9] show ?thesis by simp
qed

end
