(* ===== verification/Virtual_Page.thy ===== *)
theory Virtual_Page
  imports Block_Tables
begin

text \<open>
  The address arithmetic and the page primitives of \<open>logic/logic_ctl.c\<close>: the split of a sector
  range into logical pages, the split of a logical page number into zone, block and page, the map
  from a super page to a bank, block and page of the chips, and the read, write and erase of a
  super page or super block with the packing of its spare area.
\<close>

section \<open>Sectors to logical pages\<close>

text \<open>The \<open>while\<close> loop that counts the full pages after the head page; a page of no sectors would
  have made the division before it fail.\<close>

function mid_pages :: "nat \<Rightarrow> nat \<Rightarrow> nat \<Rightarrow> nat \<times> nat" where
  "mid_pages SP t mid = (if 0 < SP \<and> SP \<le> t then mid_pages SP (t - SP) (Suc mid) else (mid, t))"
  by pat_completeness auto
termination
  by (relation "measure (\<lambda>(SP, t, mid). t)") auto

declare mid_pages.simps [simp del]

definition CalculateSectPar ::
  "cfg \<Rightarrow> u32 \<Rightarrow> u32 \<Rightarrow> (glob_page \<times> u32 \<times> glob_page) option" where
  "CalculateSectPar C nSectNum nSectCnt =
    (let SP = SECTOR_CNT_OF_LOGIC_PAGE C; full = FULL_BITMAP_OF_LOGIC_PAGE C in
     if SP = 0 then None else
     let headNum = of_nat (unat nSectNum div SP);
         tmpSectCnt = unat (nSectCnt + of_nat (unat nSectNum mod SP));
         tmpBitmap = push_bit (unat nSectNum mod SP) full;
         noTail = \<lparr>gp_LogicPageNum = 0xffffffff, gp_SectorBitmap = 0\<rparr>
     in if tmpSectCnt > SP
        then let (mid, rest) = mid_pages SP (tmpSectCnt - SP) 0 in
             Some (\<lparr>gp_LogicPageNum = headNum, gp_SectorBitmap = tmpBitmap AND full\<rparr>, of_nat mid,
               (if rest \<noteq> 0
                then \<lparr>gp_LogicPageNum = headNum + of_nat mid + 1,
                      gp_SectorBitmap = drop_bit (SP - rest) full\<rparr>
                else noTail))
        else Some (\<lparr>gp_LogicPageNum = headNum,
                    gp_SectorBitmap = tmpBitmap AND drop_bit (SP - tmpSectCnt) full\<rparr>, 0, noTail))"

section \<open>Logical pages to zones, blocks and pages\<close>

definition CalculateLogicPagePar :: "cfg \<Rightarrow> u32 \<Rightarrow> u32 \<Rightarrow> logic_page" where
  "CalculateLogicPagePar C nPage nBitmap =
    (let tmpPage = unat nPage mod PAGE_CNT_OF_LOGIC_BLK C;
         tmpBlk = unat nPage div PAGE_CNT_OF_LOGIC_BLK C;
         tmpZone = tmpBlk div DATA_BLK_CNT_OF_ZONE C;
         tmpBlk' = tmpBlk mod DATA_BLK_CNT_OF_ZONE C
     in \<lparr>lp_SectBitmap = nBitmap, lp_BlockNum = of_nat tmpBlk', lp_PageNum = of_nat tmpPage,
         lp_ZoneNum = of_nat tmpZone\<rparr>)"

section \<open>Super pages to chip addresses\<close>

definition op_with :: "u32 \<Rightarrow> phys_op" where
  "op_with bm = \<lparr>op_BankNum = 0, op_PageNum = 0, op_BlkNum = 0, op_SectBitmap = bm\<rparr>"

definition LML_CalculatePhyOpPar :: "cfg \<Rightarrow> phys_op \<Rightarrow> nat \<Rightarrow> nat \<Rightarrow> nat \<Rightarrow> phys_op" where
  "LML_CalculatePhyOpPar C pPhyPar nZone nBlock nPage =
    (let tmpDieNum = nZone div ZONE_CNT_OF_DIE C;
         (tmpBnkNum, tmpBlkNum, tmpPageNum) =
           (if SUPPORT_INT_INTERLEAVE C \<and> SUPPORT_EXT_INTERLEAVE C
            then (nPage mod INTERLEAVE_BANK_CNT C + tmpDieNum * INTERLEAVE_BANK_CNT C,
                  nBlock, nPage div INTERLEAVE_BANK_CNT C)
            else if SUPPORT_INT_INTERLEAVE C \<and> \<not> SUPPORT_EXT_INTERLEAVE C
            then (nPage mod INTERLEAVE_BANK_CNT C + tmpDieNum * INTERLEAVE_BANK_CNT C,
                  nBlock, nPage div INTERLEAVE_BANK_CNT C)
            else if \<not> SUPPORT_INT_INTERLEAVE C \<and> SUPPORT_EXT_INTERLEAVE C
            then (nPage mod INTERLEAVE_BANK_CNT C
                    + (tmpDieNum div DIE_CNT_OF_CHIP C) * INTERLEAVE_BANK_CNT C,
                  nBlock + (tmpDieNum mod DIE_CNT_OF_CHIP C)
                    * (BLOCK_CNT_OF_DIE C div PLANE_CNT_OF_DIE C),
                  nPage div INTERLEAVE_BANK_CNT C)
            else (tmpDieNum div DIE_CNT_OF_CHIP C,
                  nBlock + (tmpDieNum mod DIE_CNT_OF_CHIP C)
                    * (BLOCK_CNT_OF_DIE C div PLANE_CNT_OF_DIE C),
                  nPage))
     in pPhyPar\<lparr>op_BankNum := of_nat tmpBnkNum, op_PageNum := of_nat tmpPageNum,
                op_BlkNum := of_nat tmpBlkNum\<rparr>)"

section \<open>The spare area of a super page\<close>

text \<open>The pairs of offsets (in \<open>LML_SPARE_BUF\<close>, in the caller's array of two \<open>__NandUserData_t\<close>)
  that the two pointer loops set up: four bytes for each of the first two sectors of each plane that
  the bitmap selects.\<close>

definition spare_slots :: "cfg \<Rightarrow> u32 \<Rightarrow> (nat \<times> nat) list" where
  "spare_slots C tmpBitmap =
     map (\<lambda>i. (4 * i, 4 * i)) (filter (\<lambda>i. tmpBitmap AND push_bit i 1 \<noteq> 0) [0, 1])
     @ map (\<lambda>i. (4 * (i + SECTOR_CNT_OF_SINGLE_PAGE C), 8 + 4 * i))
         (filter (\<lambda>i. tmpBitmap AND push_bit (i + SECTOR_CNT_OF_SINGLE_PAGE C) 1 \<noteq> 0) [0, 1])"

fun copy4 :: "(nat \<times> nat) list \<Rightarrow> u8 list \<Rightarrow> u8 list \<Rightarrow> u8 list option" where
  "copy4 [] src dst = Some dst"
| "copy4 ((a, b) # r) src dst = do {
     x \<leftarrow> mem_get src a 4;
     dst' \<leftarrow> mem_put dst b x;
     copy4 r src dst'
   }"

definition swap_pair :: "nat \<times> nat \<Rightarrow> nat \<times> nat" where
  "swap_pair p = (snd p, fst p)"

definition LML_VirtualPageRead ::
  "'d phy_ops \<Rightarrow> cfg \<Rightarrow> phys_op \<Rightarrow> u8 list \<Rightarrow> u8 list option \<Rightarrow> 'd drv
   \<Rightarrow> (int \<times> u8 list \<times> u8 list \<times> 'd drv) option" where
  "LML_VirtualPageRead P C pVirtualPage mbuf tmpSpare s =
    (case tmpSpare of
       None \<Rightarrow>
         let (result, mbuf', _, d) = PHY_PageRead P pVirtualPage mbuf None (dr_dev s)
         in Some (if result = - ERR_ECC then 0 else result, mbuf', [], s\<lparr>dr_dev := d\<rparr>)
     | Some sp \<Rightarrow>
         let (result, mbuf', sbuf, d) =
               PHY_PageRead P pVirtualPage mbuf (Some (dr_spare_buf s)) (dr_dev s);
             s1 = s\<lparr>dr_spare_buf := (case sbuf of Some b \<Rightarrow> b | None \<Rightarrow> dr_spare_buf s), dr_dev := d\<rparr>
         in do {
           sp' \<leftarrow> copy4 (spare_slots C (op_SectBitmap pVirtualPage)) (dr_spare_buf s1) sp;
           Some (if result = - ERR_ECC then 0 else result, mbuf', sp', s1)
         })"

definition LML_VirtualPageWrite ::
  "'d phy_ops \<Rightarrow> cfg \<Rightarrow> phys_op \<Rightarrow> u8 list \<Rightarrow> u8 list option \<Rightarrow> 'd drv \<Rightarrow> (int \<times> 'd drv) option" where
  "LML_VirtualPageWrite P C pVirtualPage mbuf tmpSpare s = do {
     cleared \<leftarrow> mem_put (dr_spare_buf s) 0 (replicate (SECTOR_CNT_OF_SUPER_PAGE C * 4) 0xff);
     filled \<leftarrow> (case tmpSpare of
         None \<Rightarrow> Some cleared
       | Some sp \<Rightarrow> copy4 (map swap_pair (spare_slots C (FULL_BITMAP_OF_LOGIC_PAGE C))) sp cleared);
     let (result, d) = PHY_PageWrite P pVirtualPage mbuf filled (dr_dev s);
     Some (result, s\<lparr>dr_spare_buf := filled, dr_dev := d\<rparr>)
   }"

section \<open>Erasing a super block\<close>

fun erase_banks :: "'d phy_ops \<Rightarrow> cfg \<Rightarrow> nat \<Rightarrow> nat \<Rightarrow> nat \<Rightarrow> nat \<Rightarrow> 'd \<Rightarrow> 'd" where
  "erase_banks P C nZone nSuperBlk 0 i d = d"
| "erase_banks P C nZone nSuperBlk (Suc n) i d =
     erase_banks P C nZone nSuperBlk n (Suc i)
       (snd (PHY_BlockErase P (LML_CalculatePhyOpPar C (op_with (ucast (junk16 C)))
                                 nZone nSuperBlk i) d))"

fun synch_banks :: "'d phy_ops \<Rightarrow> nat \<Rightarrow> nat \<Rightarrow> 'd \<Rightarrow> int \<times> 'd" where
  "synch_banks P 0 i d = (0, d)"
| "synch_banks P (Suc n) i d =
     (let (result, d') = PHY_SynchBank P i SYNC_BANK_MODE d
      in if result < 0 then (-1, d') else synch_banks P n (Suc i) d')"

definition LML_VirtualBlkErase ::
  "'d phy_ops \<Rightarrow> cfg \<Rightarrow> nat \<Rightarrow> nat \<Rightarrow> 'd drv \<Rightarrow> int \<times> 'd drv" where
  "LML_VirtualBlkErase P C nZone nSuperBlk s =
    (let d = erase_banks P C nZone nSuperBlk (INTERLEAVE_BANK_CNT C) 0 (dr_dev s);
         (result, d') = synch_banks P (INTERLEAVE_BANK_CNT C) 0 d
     in (result, s\<lparr>dr_dev := d'\<rparr>))"

definition SynchBank :: "'d phy_ops \<Rightarrow> nat \<Rightarrow> nat \<Rightarrow> 'd drv \<Rightarrow> int \<times> 'd drv" where
  "SynchBank P nBank bMode s =
    (let (result, d) = PHY_SynchBank P nBank bMode (dr_dev s) in (result, s\<lparr>dr_dev := d\<rparr>))"

definition PageCopyback :: "'d phy_ops \<Rightarrow> phys_op \<Rightarrow> phys_op \<Rightarrow> 'd drv \<Rightarrow> int \<times> 'd drv" where
  "PageCopyback P src dst s =
    (let (result, tmp, sp, d) = PHY_PageCopyback P src dst (dr_temp_buf s) (dr_spare_buf s) (dr_dev s)
     in (result, s\<lparr>dr_temp_buf := tmp, dr_spare_buf := sp, dr_dev := d\<rparr>))"

section \<open>Frames: what the page primitives leave alone\<close>

text \<open>\<open>same_tables s s'\<close>: only the device and the page buffers of the physic layer differ.\<close>

definition same_tables :: "'d drv \<Rightarrow> 'd drv \<Rightarrow> bool" where
  "same_tables s s' \<longleftrightarrow>
     s' = s\<lparr>dr_temp_buf := dr_temp_buf s', dr_tbl_buf := dr_tbl_buf s',
            dr_spare_buf := dr_spare_buf s', dr_dev := dr_dev s'\<rparr>"

lemma same_tables_refl [simp, intro]: "same_tables s s"
  by (simp add: same_tables_def)

lemma same_tables_trans [trans]: "same_tables s s' \<Longrightarrow> same_tables s' s'' \<Longrightarrow> same_tables s s''"
  by (cases s; cases s'; cases s'') (simp add: same_tables_def)

lemma same_tables_updates [simp]:
  "same_tables s (s'\<lparr>dr_temp_buf := b\<rparr>) = same_tables s s'"
  "same_tables s (s'\<lparr>dr_tbl_buf := b\<rparr>) = same_tables s s'"
  "same_tables s (s'\<lparr>dr_spare_buf := b\<rparr>) = same_tables s s'"
  "same_tables s (s'\<lparr>dr_dev := d\<rparr>) = same_tables s s'"
  by (cases s; cases s'; simp add: same_tables_def)+

lemma same_tablesD:
  assumes "same_tables s s'"
  shows "dr_blk_pool s' = dr_blk_pool s" "dr_blk_act s' = dr_blk_act s"
    "dr_page_pool s' = dr_page_pool s" "dr_page_act s' = dr_page_act s"
    "dr_log_age s' = dr_log_age s" "dr_log_timer s' = dr_log_timer s"
    "dr_zone_tbl s' = dr_zone_tbl s" "dr_write_cache s' = dr_write_cache s"
    "dr_cache_page s' = dr_cache_page s" "dr_ctl s' = dr_ctl s"
    "BLK_MAP_CACHE s' = BLK_MAP_CACHE s" "PAGE_MAP_CACHE s' = PAGE_MAP_CACHE s"
proof -
  have eq: "s' = s\<lparr>dr_temp_buf := dr_temp_buf s', dr_tbl_buf := dr_tbl_buf s',
            dr_spare_buf := dr_spare_buf s', dr_dev := dr_dev s'\<rparr>"
    using assms unfolding same_tables_def .
  show "dr_blk_pool s' = dr_blk_pool s" "dr_blk_act s' = dr_blk_act s"
    "dr_page_pool s' = dr_page_pool s" "dr_page_act s' = dr_page_act s"
    "dr_log_age s' = dr_log_age s" "dr_log_timer s' = dr_log_timer s"
    "dr_zone_tbl s' = dr_zone_tbl s" "dr_write_cache s' = dr_write_cache s"
    "dr_cache_page s' = dr_cache_page s" "dr_ctl s' = dr_ctl s"
    "BLK_MAP_CACHE s' = BLK_MAP_CACHE s" "PAGE_MAP_CACHE s' = PAGE_MAP_CACHE s"
    by (subst eq, simp)+
qed

lemma VirtualPageRead_frame:
  "LML_VirtualPageRead P C op mbuf sp s = Some (r, m, sp', s') \<Longrightarrow> same_tables s s'"
  by (auto simp: LML_VirtualPageRead_def Let_def case_prod_beta Option.bind_eq_Some_conv
      split: option.splits)

lemma VirtualPageWrite_frame:
  "LML_VirtualPageWrite P C op mbuf sp s = Some (r, s') \<Longrightarrow> same_tables s s'"
  by (auto simp: LML_VirtualPageWrite_def Let_def case_prod_beta Option.bind_eq_Some_conv)

lemma VirtualBlkErase_frame: "LML_VirtualBlkErase P C z b s = (r, s') \<Longrightarrow> same_tables s s'"
  by (auto simp: LML_VirtualBlkErase_def Let_def case_prod_beta)

lemma SynchBank_frame: "SynchBank P b m s = (r, s') \<Longrightarrow> same_tables s s'"
  by (auto simp: SynchBank_def case_prod_beta)

lemma PageCopyback_frame: "PageCopyback P a b s = (r, s') \<Longrightarrow> same_tables s s'"
  by (auto simp: PageCopyback_def case_prod_beta)

lemma same_tables_snd [simp]:
  "same_tables s (snd (SynchBank P b m s))"
  "same_tables s (snd (PageCopyback P x y s))"
  "same_tables s (snd (LML_VirtualBlkErase P C z k s))"
  by (metis SynchBank_frame PageCopyback_frame VirtualBlkErase_frame prod.collapse)+

lemmas snd_BLK [simp] =
  same_tables_snd(1) [THEN same_tablesD(11)] same_tables_snd(2) [THEN same_tablesD(11)]
  same_tables_snd(3) [THEN same_tablesD(11)]

lemmas snd_PAGE [simp] =
  same_tables_snd(1) [THEN same_tablesD(12)] same_tables_snd(2) [THEN same_tablesD(12)]
  same_tables_snd(3) [THEN same_tablesD(12)]

section \<open>Properties of the address arithmetic\<close>

text \<open>The geometries the driver is built for. A logical page number has the 32 bits of its C type, and
  zone, block and page the bits of theirs.\<close>

definition geometry :: "cfg \<Rightarrow> bool" where
  "geometry C \<longleftrightarrow> 0 < PAGE_CNT_OF_PHY_BLK C \<and> PAGE_CNT_OF_PHY_BLK C \<le> 256
     \<and> PAGE_CNT_OF_LOGIC_BLK C = INTERLEAVE_BANK_CNT C * PAGE_CNT_OF_PHY_BLK C
     \<and> 0 < INTERLEAVE_BANK_CNT C \<and> 0 < ZONE_CNT_OF_DIE C \<and> 0 < DIE_CNT_OF_CHIP C
     \<and> DIE_CNT_OF_CHIP C * (BLOCK_CNT_OF_DIE C div PLANE_CNT_OF_DIE C) \<le> 65536
     \<and> (\<not> SUPPORT_INT_INTERLEAVE C \<and> \<not> SUPPORT_EXT_INTERLEAVE C \<longrightarrow> INTERLEAVE_BANK_CNT C = 1)"

text \<open>The number of chip banks the dies up to that of the zone occupy; a bank number has 8 bits.\<close>

definition zone_banks :: "cfg \<Rightarrow> nat \<Rightarrow> nat" where
  "zone_banks C z = (if SUPPORT_INT_INTERLEAVE C
     then (z div ZONE_CNT_OF_DIE C + 1) * INTERLEAVE_BANK_CNT C
     else (z div ZONE_CNT_OF_DIE C div DIE_CNT_OF_CHIP C + 1) * INTERLEAVE_BANK_CNT C)"

lemma geometry_page_bounds:
  assumes "geometry C" and "p < PAGE_CNT_OF_LOGIC_BLK C"
  shows "p div INTERLEAVE_BANK_CNT C < 256" "p mod INTERLEAVE_BANK_CNT C < INTERLEAVE_BANK_CNT C"
proof -
  have "p < PAGE_CNT_OF_PHY_BLK C * INTERLEAVE_BANK_CNT C" using assms by (simp add: geometry_def mult.commute)
  then have "p div INTERLEAVE_BANK_CNT C < PAGE_CNT_OF_PHY_BLK C" by (rule less_mult_imp_div_less)
  then show "p div INTERLEAVE_BANK_CNT C < 256" using assms(1) by (simp add: geometry_def)
  show "p mod INTERLEAVE_BANK_CNT C < INTERLEAVE_BANK_CNT C" using assms(1) by (simp add: geometry_def)
qed

text \<open>The address as numbers, before it is stored in the fields of the operation.\<close>

definition chip_bank :: "cfg \<Rightarrow> nat \<Rightarrow> nat \<Rightarrow> nat" where
  "chip_bank C z p = (let d = z div ZONE_CNT_OF_DIE C; I = INTERLEAVE_BANK_CNT C in
     if SUPPORT_INT_INTERLEAVE C then p mod I + d * I
     else if SUPPORT_EXT_INTERLEAVE C then p mod I + d div DIE_CNT_OF_CHIP C * I
     else d div DIE_CNT_OF_CHIP C)"

definition chip_blk :: "cfg \<Rightarrow> nat \<Rightarrow> nat \<Rightarrow> nat" where
  "chip_blk C z b = (if SUPPORT_INT_INTERLEAVE C then b
     else b + z div ZONE_CNT_OF_DIE C mod DIE_CNT_OF_CHIP C
            * (BLOCK_CNT_OF_DIE C div PLANE_CNT_OF_DIE C))"

definition chip_page :: "cfg \<Rightarrow> nat \<Rightarrow> nat" where
  "chip_page C p = (if SUPPORT_INT_INTERLEAVE C \<or> SUPPORT_EXT_INTERLEAVE C
     then p div INTERLEAVE_BANK_CNT C else p)"

lemma CalculatePhyOpPar_chip:
  "LML_CalculatePhyOpPar C op z b p = op\<lparr>op_BankNum := of_nat (chip_bank C z p),
     op_PageNum := of_nat (chip_page C p), op_BlkNum := of_nat (chip_blk C z b)\<rparr>"
  by (simp add: LML_CalculatePhyOpPar_def chip_bank_def chip_page_def chip_blk_def Let_def)

lemma chip_bounds:
  assumes "geometry C" and "zone_banks C z \<le> 256" and "p < PAGE_CNT_OF_LOGIC_BLK C"
    and "b < BLOCK_CNT_OF_DIE C div PLANE_CNT_OF_DIE C"
  shows "chip_bank C z p < 256" and "chip_page C p < 256" and "chip_blk C z b < 65536"
proof -
  let ?I = "INTERLEAVE_BANK_CNT C" and ?S = "BLOCK_CNT_OF_DIE C div PLANE_CNT_OF_DIE C"
  let ?d = "z div ZONE_CNT_OF_DIE C"
  note pb = geometry_page_bounds [OF assms(1,3)]
  show "chip_bank C z p < 256"
    using assms(1,2) pb(2) by (auto simp: chip_bank_def zone_banks_def Let_def geometry_def)
  show "chip_page C p < 256"
    using assms(1,3) pb(1) by (auto simp: chip_page_def geometry_def)
  have D: "0 < DIE_CNT_OF_CHIP C" "DIE_CNT_OF_CHIP C * ?S \<le> 65536"
    using assms(1) by (auto simp: geometry_def)
  have "?S \<le> DIE_CNT_OF_CHIP C * ?S" using D(1) by simp
  then have S: "?S \<le> 65536" using D(2) by linarith
  have "(?d mod DIE_CNT_OF_CHIP C + 1) * ?S \<le> DIE_CNT_OF_CHIP C * ?S"
    using D(1) by (intro mult_le_mono1) (simp add: Suc_leI)
  then have "b + ?d mod DIE_CNT_OF_CHIP C * ?S < DIE_CNT_OF_CHIP C * ?S"
    using assms(4) by simp
  with D(2) S assms(4) show "chip_blk C z b < 65536"
    by (auto simp: chip_blk_def)
qed

text \<open>C9: \<open>LML_CalculatePhyOpPar\<close> gives different pages of the super blocks of the flash different
  addresses: two pages with the same bank, block and page number are the same page of the same super
  block of the same die.\<close>

theorem CalculatePhyOpPar_injective:
  assumes "geometry C" and "zone_banks C z1 \<le> 256" and "zone_banks C z2 \<le> 256"
    and "b1 < BLOCK_CNT_OF_DIE C div PLANE_CNT_OF_DIE C"
    and "b2 < BLOCK_CNT_OF_DIE C div PLANE_CNT_OF_DIE C"
    and "p1 < PAGE_CNT_OF_LOGIC_BLK C" and "p2 < PAGE_CNT_OF_LOGIC_BLK C"
    and "LML_CalculatePhyOpPar C op z1 b1 p1 = LML_CalculatePhyOpPar C op z2 b2 p2"
  shows "z1 div ZONE_CNT_OF_DIE C = z2 div ZONE_CNT_OF_DIE C \<and> b1 = b2 \<and> p1 = p2"
proof -
  let ?I = "INTERLEAVE_BANK_CNT C" and ?S = "BLOCK_CNT_OF_DIE C div PLANE_CNT_OF_DIE C"
  let ?d1 = "z1 div ZONE_CNT_OF_DIE C" and ?d2 = "z2 div ZONE_CNT_OF_DIE C"
  let ?D = "DIE_CNT_OF_CHIP C"
  note c1 = chip_bounds [OF assms(1,2,6,4)] and c2 = chip_bounds [OF assms(1,3,7,5)]
  have fields: "op_BankNum x = op_BankNum y \<and> op_PageNum x = op_PageNum y \<and> op_BlkNum x = op_BlkNum y"
    if "x = y" for x y :: phys_op using that by simp
  from fields [OF assms(8)] have "of_nat (chip_bank C z1 p1) = (of_nat (chip_bank C z2 p2) :: u8)"
    and "of_nat (chip_page C p1) = (of_nat (chip_page C p2) :: u8)"
    and "of_nat (chip_blk C z1 b1) = (of_nat (chip_blk C z2 b2) :: u16)"
    by (simp_all add: CalculatePhyOpPar_chip)
  then have bank: "chip_bank C z1 p1 = chip_bank C z2 p2" and page: "chip_page C p1 = chip_page C p2"
    and blk: "chip_blk C z1 b1 = chip_blk C z2 b2"
    using c1 c2 by (auto dest: of_nat_inj8 of_nat_inj16)
  have I: "p1 mod ?I < ?I" "p2 mod ?I < ?I" using assms(1) by (auto simp: geometry_def)
  have pages: "p1 = p2" if "p1 mod ?I = p2 mod ?I" "p1 div ?I = p2 div ?I"
    using that by (metis div_mult_mod_eq)
  have blks: "b1 = b2 \<and> ?d1 mod ?D = ?d2 mod ?D" if "\<not> SUPPORT_INT_INTERLEAVE C"
    using mult_add_inj [OF assms(4,5)] blk that by (simp add: chip_blk_def)
  have dies: "?d1 = ?d2" if "?d1 mod ?D = ?d2 mod ?D" "?d1 div ?D = ?d2 div ?D"
    using that by (metis div_mult_mod_eq)
  show ?thesis
  proof (cases "SUPPORT_INT_INTERLEAVE C \<or> SUPPORT_EXT_INTERLEAVE C")
    case True
    then have p: "p1 div ?I = p2 div ?I" using page by (simp add: chip_page_def)
    show ?thesis
    proof (cases "SUPPORT_INT_INTERLEAVE C")
      case True
      then have "p1 mod ?I + ?d1 * ?I = p2 mod ?I + ?d2 * ?I" and "b1 = b2"
        using bank blk by (simp_all add: chip_bank_def chip_blk_def Let_def)
      with mult_add_inj [OF I this(1)] pages p show ?thesis by simp
    next
      case False
      then have "p1 mod ?I + ?d1 div ?D * ?I = p2 mod ?I + ?d2 div ?D * ?I"
        using bank \<open>_ \<or> _\<close> by (simp add: chip_bank_def Let_def)
      with mult_add_inj [OF I this] pages p blks [OF False] dies show ?thesis by simp
    qed
  next
    case False
    then have "p1 = p2" "?d1 div ?D = ?d2 div ?D"
      using bank page by (simp_all add: chip_bank_def chip_page_def Let_def)
    with blks dies False show ?thesis by blast
  qed
qed

lemma sample_geometry: "geometry sample_cfg"
  by (simp add: geometry_def)

lemma CalculatePhyOpPar_injective_witness:
  "LML_CalculatePhyOpPar sample_cfg (op_with 0) 0 3 5 \<noteq> LML_CalculatePhyOpPar sample_cfg (op_with 0) 0 3 4"
  using CalculatePhyOpPar_injective [of sample_cfg 0 0 3 3 5 4 "op_with 0"] sample_geometry
  by (auto simp: zone_banks_def)

text \<open>\<open>_CalculateLogicPagePar\<close> splits a logical page number without loss: zone, block and page are in
  range and give the page number back. So different logical pages have different places.\<close>

theorem CalculateLogicPagePar_split:
  fixes nPage nBitmap :: u32
  defines "lp C \<equiv> CalculateLogicPagePar C nPage nBitmap"
  assumes "0 < PAGE_CNT_OF_LOGIC_BLK C" and "0 < DATA_BLK_CNT_OF_ZONE C"
    and "unat nPage < 256 * DATA_BLK_CNT_OF_ZONE C * PAGE_CNT_OF_LOGIC_BLK C"
  shows "unat (lp_PageNum (lp C)) < PAGE_CNT_OF_LOGIC_BLK C
    \<and> unat (lp_BlockNum (lp C)) < DATA_BLK_CNT_OF_ZONE C
    \<and> (unat (lp_ZoneNum (lp C)) * DATA_BLK_CNT_OF_ZONE C + unat (lp_BlockNum (lp C)))
        * PAGE_CNT_OF_LOGIC_BLK C + unat (lp_PageNum (lp C)) = unat nPage
    \<and> lp_SectBitmap (lp C) = nBitmap"
proof -
  let ?P = "PAGE_CNT_OF_LOGIC_BLK C" and ?D = "DATA_BLK_CNT_OF_ZONE C"
  have b: "?P < 65536" "?D < 65536"
    by (simp_all add: PAGE_CNT_OF_LOGIC_BLK_def DATA_BLK_CNT_OF_ZONE_def)
  have m: "unat nPage mod ?P < ?P" "unat nPage div ?P mod ?D < ?D" using assms(2,3) by simp_all
  have z: "unat nPage div ?P div ?D < 256"
    using assms(4) by (metis div_mult2_eq less_mult_imp_div_less mult.assoc mult.commute)
  have "unat (lp_PageNum (lp C)) = unat nPage mod ?P"
    "unat (lp_BlockNum (lp C)) = unat nPage div ?P mod ?D"
    "unat (lp_ZoneNum (lp C)) = unat nPage div ?P div ?D"
    using m b z by (simp_all add: lp_def CalculateLogicPagePar_def Let_def unat_of_nat)
  with m show ?thesis by (simp add: lp_def CalculateLogicPagePar_def Let_def)
qed

lemma CalculateLogicPagePar_split_witness:
  "unat (lp_BlockNum (CalculateLogicPagePar sample_cfg 8131 15)) < 1016
   \<and> (unat (lp_ZoneNum (CalculateLogicPagePar sample_cfg 8131 15)) * 1016
      + unat (lp_BlockNum (CalculateLogicPagePar sample_cfg 8131 15))) * 8
      + unat (lp_PageNum (CalculateLogicPagePar sample_cfg 8131 15)) = 8131"
  using CalculateLogicPagePar_split [of sample_cfg 8131 15] by simp

lemma bit_FULL_BITMAP [simp]:
  assumes "0 < SECTOR_CNT_OF_SUPER_PAGE C" and "SECTOR_CNT_OF_SUPER_PAGE C \<le> 32"
  shows "bit (FULL_BITMAP_OF_SUPER_PAGE C) i \<longleftrightarrow> i < SECTOR_CNT_OF_SUPER_PAGE C"
proof -
  have "FULL_BITMAP_OF_SUPER_PAGE C
    = (2 ^ (SECTOR_CNT_OF_SUPER_PAGE C - 1) OR mask (SECTOR_CNT_OF_SUPER_PAGE C - 1))"
    by (simp add: FULL_BITMAP_OF_SUPER_PAGE_def push_bit_of_1 mask_eq_exp_minus_1)
  then show ?thesis using assms by (auto simp: bit_or_iff bit_mask_iff bit_exp_iff)
qed

lemma bit_head_bitmap:
  assumes "0 < SECTOR_CNT_OF_SUPER_PAGE C" and "SECTOR_CNT_OF_SUPER_PAGE C \<le> 32"
  shows "bit (push_bit r (FULL_BITMAP_OF_SUPER_PAGE C) AND FULL_BITMAP_OF_SUPER_PAGE C) i
    \<longleftrightarrow> r \<le> i \<and> i < SECTOR_CNT_OF_SUPER_PAGE C"
  using assms by (auto simp: bit_and_iff bit_push_bit_iff)

lemma bit_tail_bitmap:
  assumes "0 < SECTOR_CNT_OF_SUPER_PAGE C" and "SECTOR_CNT_OF_SUPER_PAGE C \<le> 32"
    and "e \<le> SECTOR_CNT_OF_SUPER_PAGE C"
  shows "bit (drop_bit (SECTOR_CNT_OF_SUPER_PAGE C - e) (FULL_BITMAP_OF_SUPER_PAGE C)) i \<longleftrightarrow> i < e"
  using assms by (auto simp: bit_drop_bit_eq)

lemma mid_pages_eq: "0 < SP \<Longrightarrow> mid_pages SP t m = (m + t div SP, t mod SP)"
proof (induction SP t m rule: mid_pages.induct)
  case (1 SP t m)
  then show ?case
    by (cases "SP \<le> t") (auto simp: mid_pages.simps [of SP t m] le_div_geq le_mod_geq)
qed

text \<open>The sectors of the logical disk that a page parameter selects.\<close>

definition page_sectors :: "cfg \<Rightarrow> glob_page \<Rightarrow> nat set" where
  "page_sectors C g = (\<lambda>i. unat (gp_LogicPageNum g) * SECTOR_CNT_OF_LOGIC_PAGE C + i)
     ` {i. bit (gp_SectorBitmap g) i}"

lemma image_add_atLeastLessThan_nat:
  "(\<lambda>i. k + i) ` {i. a \<le> i \<and> i < b} = {k + a..<k + b :: nat}"
proof -
  have "{i. a \<le> i \<and> i < b} = {a..<b}" by auto
  then show ?thesis by (simp add: image_add_atLeastLessThan add.commute)
qed

lemma page_intervals:
  fixes q m S r e :: nat
  assumes "r < S"
  shows "{q * S + r ..< q * S + S} \<union> {(q + 1) * S ..< (q + 1 + m) * S}
      \<union> {(q + 1 + m) * S ..< (q + 1 + m) * S + e} = {q * S + r ..< (q + 1 + m) * S + e}"
proof -
  have eq: "q * S + S = (q + 1) * S" by simp
  have "q * S + r \<le> (q + 1) * S" using assms by simp
  moreover have le: "(q + 1) * S \<le> (q + 1 + m) * S" by (intro mult_le_mono1) simp
  ultimately have "q * S + r \<le> (q + 1 + m) * S" by (rule le_trans)
  then show ?thesis
    unfolding eq ivl_disj_un_two(3) [OF \<open>q * S + r \<le> (q + 1) * S\<close> le]
    by (rule ivl_disj_un_two(3)) simp
qed

lemma sector_total:
  fixes n c q r m e S :: nat
  assumes "n = q * S + r" and "c + r = S + m * S + e"
  shows "n + c = (q + 1 + m) * S + e"
  using assms by (simp add: algebra_simps)

text \<open>\<open>_CalculateSectPar\<close> covers a sector range exactly: the sectors that the bitmaps of the head page
  and the tail page select, with those of the full pages between them, are the sectors of the range,
  and the tail page, if there is one, follows the last full page.\<close>

theorem CalculateSectPar_covers:
  assumes "0 < SECTOR_CNT_OF_LOGIC_PAGE C" and "SECTOR_CNT_OF_LOGIC_PAGE C \<le> 32"
    and "nSectCnt \<noteq> 0" and "unat nSectNum + unat nSectCnt < 2 ^ 32"
  shows "\<exists>head mid tail. CalculateSectPar C nSectNum nSectCnt = Some (head, mid, tail)
    \<and> page_sectors C head
      \<union> {(unat (gp_LogicPageNum head) + 1) * SECTOR_CNT_OF_LOGIC_PAGE C
         ..< (unat (gp_LogicPageNum head) + 1 + unat mid) * SECTOR_CNT_OF_LOGIC_PAGE C}
      \<union> page_sectors C tail = {unat nSectNum ..< unat nSectNum + unat nSectCnt}
    \<and> (gp_SectorBitmap tail \<noteq> 0 \<longrightarrow>
         unat (gp_LogicPageNum tail) = unat (gp_LogicPageNum head) + unat mid + 1)"
proof -
  let ?SP = "SECTOR_CNT_OF_LOGIC_PAGE C" and ?full = "FULL_BITMAP_OF_LOGIC_PAGE C"
  let ?q = "unat nSectNum div ?SP" and ?r = "unat nSectNum mod ?SP"
  let ?t = "unat nSectCnt + ?r"
  have num: "unat nSectNum = ?q * ?SP + ?r" by simp
  have r: "?r < ?SP" using assms(1) by simp
  have q: "?q < 4294967296" using unat_u32_bound [of nSectNum] div_le_dividend [of "unat nSectNum" ?SP] by linarith
  have t: "unat (nSectCnt + of_nat ?r) = ?t"
  proof -
    have "?r \<le> unat nSectNum" by simp
    then have "?t < 2 ^ 32" using assms(4) by linarith
    then show ?thesis by (simp add: unat_word_ariths unat_of_nat)
  qed
  have cnt: "0 < unat nSectCnt" using assms(3) by (simp add: unat_gt_0)
  have headnum: "unat (of_nat ?q :: u32) = ?q" using q by (simp add: unat_of_nat)
  note full = bit_FULL_BITMAP [OF assms(1,2)]
  let ?head = "\<lambda>bm. \<lparr>gp_LogicPageNum = of_nat ?q, gp_SectorBitmap = bm\<rparr>"
  let ?none = "\<lparr>gp_LogicPageNum = 0xffffffff, gp_SectorBitmap = 0\<rparr> :: glob_page"
  have none: "page_sectors C ?none = {}" by (simp add: page_sectors_def)
  show ?thesis
  proof (cases "?t > ?SP")
    case False
    let ?bm = "push_bit ?r ?full AND drop_bit (?SP - ?t) ?full"
    have "CalculateSectPar C nSectNum nSectCnt = Some (?head ?bm, 0, ?none)"
      using assms(1) t False by (simp add: CalculateSectPar_def Let_def)
    moreover have "bit ?bm i \<longleftrightarrow> ?r \<le> i \<and> i < ?t" for i
      using False full assms(2) cnt by (auto simp: bit_and_iff bit_push_bit_iff bit_drop_bit_eq)
    then have "page_sectors C (?head ?bm) = {?q * ?SP + ?r ..< ?q * ?SP + ?t}"
      using headnum by (simp add: page_sectors_def image_add_atLeastLessThan_nat)
    moreover have "?q * ?SP + ?t = unat nSectNum + unat nSectCnt" using num by linarith
    ultimately show ?thesis using none num by simp
  next
    case True
    let ?mid = "(?t - ?SP) div ?SP" and ?rest = "(?t - ?SP) mod ?SP"
    let ?bm = "push_bit ?r ?full AND ?full"
    let ?tail = "if ?rest \<noteq> 0 then \<lparr>gp_LogicPageNum = of_nat ?q + of_nat ?mid + 1,
                   gp_SectorBitmap = drop_bit (?SP - ?rest) ?full\<rparr> else ?none"
    have run: "CalculateSectPar C nSectNum nSectCnt = Some (?head ?bm, of_nat ?mid, ?tail)"
      using assms(1) t True mid_pages_eq [OF assms(1), of "?t - ?SP" 0]
      by (simp add: CalculateSectPar_def Let_def)
    have hd: "page_sectors C (?head ?bm) = {?q * ?SP + ?r ..< ?q * ?SP + ?SP}"
      by (simp add: page_sectors_def headnum bit_head_bitmap [OF assms(1,2)] image_add_atLeastLessThan_nat)
    have split: "?t = ?SP + ?mid * ?SP + ?rest"
      using True div_mult_mod_eq [of "?t - ?SP" ?SP] by linarith
    have total: "unat nSectNum + unat nSectCnt = (?q + 1 + ?mid) * ?SP + ?rest"
      by (rule sector_total [OF num split])
    have lim: "?q + 1 + ?mid < 4294967296"
    proof -
      have "?q + 1 + ?mid \<le> (?q + 1 + ?mid) * ?SP"
        by (rule le_trans [OF _ mult_le_mono2 [of 1]]) (use assms(1) in auto)
      also have "\<dots> \<le> unat nSectNum + unat nSectCnt" unfolding total by (rule le_add1)
      also have "\<dots> < 4294967296" using assms(4) by simp
      finally show ?thesis .
    qed
    have midnum: "unat (of_nat ?mid :: u32) = ?mid" using lim by (simp add: unat_of_nat)
    have tlnum: "unat (of_nat ?q + of_nat ?mid + 1 :: u32) = ?q + 1 + ?mid"
    proof -
      have "of_nat ?q + of_nat ?mid + 1 = (of_nat (?q + 1 + ?mid) :: u32)" by simp
      then show ?thesis using lim by (simp only: unat_of_nat) simp
    qed
    have rest: "?rest < ?SP" using assms(1) by simp
    have tl: "page_sectors C ?tail = {(?q + 1 + ?mid) * ?SP ..< (?q + 1 + ?mid) * ?SP + ?rest}"
    proof (cases "?rest = 0")
      case True
      then show ?thesis by (simp only: none if_False simp_thms) simp
    next
      case False
      then have "page_sectors C ?tail = (\<lambda>i. (?q + 1 + ?mid) * ?SP + i) ` {i. 0 \<le> i \<and> i < ?rest}"
        by (simp only: if_True not_False_eq_True page_sectors_def glob_page.select_convs tlnum
            bit_tail_bitmap [OF assms(1,2) less_imp_le [OF rest]] le0 simp_thms)
      then show ?thesis by (simp only: image_add_atLeastLessThan_nat add_0_right)
    qed
    have cover: "page_sectors C (?head ?bm)
      \<union> {(?q + 1) * ?SP ..< (?q + 1 + ?mid) * ?SP} \<union> page_sectors C ?tail
      = {unat nSectNum ..< unat nSectNum + unat nSectCnt}"
      unfolding hd tl page_intervals [OF r] total by (simp only: div_mult_mod_eq)
    have "gp_SectorBitmap ?tail \<noteq> 0 \<longrightarrow> unat (gp_LogicPageNum ?tail) = ?q + ?mid + 1"
      using tlnum by simp
    with run cover headnum midnum show ?thesis by simp
  qed
qed

lemma CalculateSectPar_covers_witness:
  "\<exists>head mid tail. CalculateSectPar sample_cfg 6 9 = Some (head, mid, tail)
    \<and> page_sectors sample_cfg head
      \<union> {(unat (gp_LogicPageNum head) + 1) * 4 ..< (unat (gp_LogicPageNum head) + 1 + unat mid) * 4}
      \<union> page_sectors sample_cfg tail = {6 ..< 15}"
  using CalculateSectPar_covers [of sample_cfg 9 6] by fastforce

section \<open>The spare data survives a write and a read\<close>

lemma mem_put_nth:
  "mem_put xs off ys = Some zs \<Longrightarrow> i < length xs \<Longrightarrow>
   zs ! i = (if off \<le> i \<and> i < off + length ys then ys ! (i - off) else xs ! i)"
  by (auto simp: mem_put_def nth_append split: if_splits)

lemma mem_get_nth:
  "mem_get xs off n = Some ys \<Longrightarrow> i < n \<Longrightarrow> ys ! i = xs ! (off + i)"
  by (auto simp: mem_get_def split: if_splits)

text \<open>What a run of \<open>copy4\<close> leaves at a position of the target: the byte of the source for the slot that
  covers it, when no two slots overlap in the target.\<close>

definition disjoint_slots :: "(nat \<times> nat) list \<Rightarrow> bool" where
  "disjoint_slots sl = (distinct (map snd sl) \<and> (\<forall>p \<in> set sl. 4 dvd snd p))"

lemma aligned_same:
  fixes a b i j :: nat
  assumes "4 dvd a" and "4 dvd b" and "a + i = b + j" and "i < 4" and "j < 4"
  shows "a = b"
  using assms by presburger

lemma copy4_other:
  "copy4 sl src dst = Some dst' \<Longrightarrow> \<forall>p \<in> set sl. \<not> (snd p \<le> i \<and> i < snd p + 4) \<Longrightarrow>
   length dst' = length dst \<and> (i < length dst \<longrightarrow> dst' ! i = dst ! i)"
proof (induction sl src dst rule: copy4.induct)
  case (2 a b r src dst)
  then obtain x d where x: "mem_get src a 4 = Some x" and d: "mem_put dst b x = Some d"
    and r: "copy4 r src d = Some dst'" by (auto simp: Option.bind_eq_Some_conv)
  from "2.IH" [OF x d r] "2.prems"(2) have "length dst' = length d \<and> (i < length d \<longrightarrow> dst' ! i = d ! i)"
    by simp
  with mem_put_length [OF d] mem_put_nth [OF d, of i] mem_get_length [OF x] "2.prems"(2) show ?case
    by auto
qed simp

lemma copy4_at:
  "copy4 sl src dst = Some dst' \<Longrightarrow> disjoint_slots sl \<Longrightarrow> (a, b) \<in> set sl \<Longrightarrow> i < 4 \<Longrightarrow>
   b + i < length dst' \<and> a + i < length src \<and> dst' ! (b + i) = src ! (a + i)"
proof (induction sl src dst rule: copy4.induct)
  case (2 a' b' r src dst)
  then obtain x d where x: "mem_get src a' 4 = Some x" and d: "mem_put dst b' x = Some d"
    and r: "copy4 r src d = Some dst'" by (auto simp: Option.bind_eq_Some_conv)
  from "2.prems"(2) have dis: "disjoint_slots r" "b' \<notin> snd ` set r" "4 dvd b'"
    "\<forall>p \<in> set r. 4 dvd snd p" by (auto simp: disjoint_slots_def)
  show ?case
  proof (cases "(a, b) \<in> set r")
    case True
    then show ?thesis using "2.IH" [OF x d r dis(1) _ "2.prems"(4)] by simp
  next
    case False
    with "2.prems"(3) have ab: "a = a'" "b = b'" by auto
    have "\<not> (snd p \<le> b' + i \<and> b' + i < snd p + 4)" if "p \<in> set r" for p
    proof
      assume in_p: "snd p \<le> b' + i \<and> b' + i < snd p + 4"
      then have "b' + i = snd p + (b' + i - snd p)" "b' + i - snd p < 4" by auto
      from aligned_same [OF dis(3) _ this(1) "2.prems"(4) this(2)] that dis(4) have "b' = snd p" by auto
      with dis(2) that show False by auto
    qed
    with copy4_other [OF r, of "b' + i"] have l: "length dst' = length d"
      and e: "b' + i < length d \<longrightarrow> dst' ! (b' + i) = d ! (b' + i)" by auto
    from x d have "a' + 4 \<le> length src" "b' + 4 \<le> length dst" "length x = 4" "length d = length dst"
      using mem_put_length [OF d] by (auto simp: mem_get_def mem_put_def split: if_splits)
    with l e mem_put_nth [OF d, of "b' + i"] mem_get_nth [OF x "2.prems"(4)] "2.prems"(4) ab
    show ?thesis by auto
  qed
qed simp

lemma copy4_in:
  "\<forall>p \<in> set sl. fst p + 4 \<le> length src \<and> snd p + 4 \<le> length dst \<Longrightarrow>
   \<exists>d. copy4 sl src dst = Some d \<and> length d = length dst"
proof (induction sl src dst rule: copy4.induct)
  case (2 a b r src dst)
  then have x: "mem_get src a 4 = Some (take 4 (drop a src))" by (simp add: mem_get_def)
  with 2 obtain d where d: "mem_put dst b (take 4 (drop a src)) = Some d" "length d = length dst"
    by (auto simp: mem_put_def)
  from "2.IH" [OF x d(1)] "2.prems" x d show ?case by auto
qed simp

text \<open>The four slots: the first two sectors of each plane. A bitmap selects some of them.\<close>

definition all_slots :: "cfg \<Rightarrow> (nat \<times> nat) list" where
  "all_slots C = [(0, 0), (4, 4), (4 * SECTOR_CNT_OF_SINGLE_PAGE C, 8), (4 * (1 + SECTOR_CNT_OF_SINGLE_PAGE C), 12)]"

lemma spare_slots_selected: "spare_slots C bm = filter (\<lambda>p. bit bm (fst p div 4)) (all_slots C)"
  unfolding spare_slots_def bit_iff_and_push_bit_not_eq_0 [symmetric] by (simp add: all_slots_def)

lemma disjoint_selected: "disjoint_slots (spare_slots C bm)"
  by (simp add: spare_slots_selected all_slots_def disjoint_slots_def)

lemma disjoint_selected_swapped:
  "2 \<le> SECTOR_CNT_OF_SINGLE_PAGE C \<Longrightarrow> disjoint_slots (map swap_pair (spare_slots C bm))"
  by (auto simp: spare_slots_selected all_slots_def disjoint_slots_def swap_pair_def)

text \<open>The sector of the super page whose spare bytes hold byte \<open>j\<close> of the caller's sixteen.\<close>

definition sector_of_spare :: "cfg \<Rightarrow> nat \<Rightarrow> nat" where
  "sector_of_spare C j = [0, 1, SECTOR_CNT_OF_SINGLE_PAGE C, 1 + SECTOR_CNT_OF_SINGLE_PAGE C] ! (j div 4)"

lemma slot_of_spare: "j < 16 \<Longrightarrow> (4 * sector_of_spare C j, 4 * (j div 4)) \<in> set (all_slots C)"
proof -
  assume "j < 16"
  then have "j div 4 \<in> {0, 1, 2, 3}" by auto
  then show ?thesis by (auto simp: sector_of_spare_def all_slots_def)
qed

lemma slot_at_spare:
  assumes "(a, b) \<in> set (all_slots C)" "b \<le> j" "j < b + 4"
  shows "a = 4 * sector_of_spare C j"
proof -
  have "b = 4 * (j div 4)" "b div 4 = j div 4" using assms by (auto simp: all_slots_def)
  then show ?thesis using assms(1) by (auto simp: sector_of_spare_def all_slots_def)
qed

text \<open>C10: the spare data of a super page survives, on chips with one or two planes and for every choice of sectors:
  when the device delivers the spare bytes that \<open>LML_VirtualPageWrite\<close> handed to it, a \<open>LML_VirtualPageRead\<close> with a
  bitmap of sectors of the page returns of the caller's sixteen bytes of user data exactly those that the bitmap
  selects, four for each of the first two sectors of each plane, and leaves the others of the caller's array.\<close>

theorem VirtualPage_spare_roundtrip:
  assumes "SECTOR_CNT_OF_SUPER_PAGE C \<in> {SECTOR_CNT_OF_SINGLE_PAGE C, 2 * SECTOR_CNT_OF_SINGLE_PAGE C}"
    and "2 \<le> SECTOR_CNT_OF_SINGLE_PAGE C" and "SECTOR_CNT_OF_SINGLE_PAGE C \<le> 16"
    and "\<forall>i. bit (op_SectBitmap op') i \<longrightarrow> i < SECTOR_CNT_OF_SUPER_PAGE C"
    and "length (dr_spare_buf s) = 4 * SECTOR_CNT_OF_SUPER_PAGE C"
    and "length sp = 16" and "length sp0 = 16"
    and "LML_VirtualPageWrite P C op mbuf (Some sp) s = Some (r, s1)"
    and "PHY_PageRead P op' mbuf0 (Some (dr_spare_buf s2)) (dr_dev s2) = (r2, m, Some (dr_spare_buf s1), d)"
  shows "\<exists>sp'. LML_VirtualPageRead P C op' mbuf0 (Some sp0) s2
      = Some (if r2 = - ERR_ECC then 0 else r2, m, sp', s2\<lparr>dr_spare_buf := dr_spare_buf s1, dr_dev := d\<rparr>)
    \<and> length sp' = 16
    \<and> (\<forall>j < 16. sp' ! j = (if bit (op_SectBitmap op') (sector_of_spare C j) then sp ! j else sp0 ! j))"
proof -
  let ?S = "SECTOR_CNT_OF_SINGLE_PAGE C" and ?N = "SECTOR_CNT_OF_SUPER_PAGE C" and ?B = "dr_spare_buf s1"
  let ?bm = "op_SectBitmap op'" and ?full = "FULL_BITMAP_OF_SUPER_PAGE C"
  let ?ff = "replicate (4 * ?N) (0xff :: u8)"
  have N: "0 < ?N" "?N \<le> 32" using assms(1-3) by auto
  note full = bit_FULL_BITMAP [OF N]
  have filled: "copy4 (map swap_pair (spare_slots C ?full)) sp ?ff = Some ?B"
    using assms(5,8) unfolding LML_VirtualPageWrite_def
    by (auto simp: mem_put_def Option.bind_eq_Some_conv case_prod_beta mult.commute)
  have in_all: "fst p + 4 \<le> 4 * ?N \<and> snd p + 4 \<le> 16" if "p \<in> set (spare_slots C bm)" "bit bm (fst p div 4) \<longrightarrow> fst p div 4 < ?N" for p bm
    using that by (auto simp: spare_slots_selected all_slots_def simp del: filter.simps)
  have lenB: "length ?B = 4 * ?N"
    using copy4_in [of "map swap_pair (spare_slots C ?full)" sp ?ff] filled assms(6) in_all [of _ ?full]
    by (auto simp: swap_pair_def full)
  obtain sp' where sp': "copy4 (spare_slots C ?bm) ?B sp0 = Some sp'" and len': "length sp' = 16"
    using copy4_in [of "spare_slots C ?bm" ?B sp0] lenB assms(4,7) in_all [of _ ?bm] by fastforce
  have at: "sp' ! j = (if bit ?bm (sector_of_spare C j) then sp ! j else sp0 ! j)" if j: "j < 16" for j
  proof (cases "bit ?bm (sector_of_spare C j)")
    case True
    let ?a = "4 * sector_of_spare C j" and ?b = "4 * (j div 4)" and ?i = "j mod 4"
    have "(?a, ?b) \<in> set (spare_slots C ?bm)" using slot_of_spare [OF j] True by (simp add: spare_slots_selected)
    moreover have "(?b, ?a) \<in> set (map swap_pair (spare_slots C ?full))"
      using slot_of_spare [OF j] True assms(4) by (force simp: spare_slots_selected swap_pair_def full)
    ultimately have "sp' ! (?b + ?i) = sp ! (?b + ?i)"
      using copy4_at [OF filled disjoint_selected_swapped [OF assms(2)], of ?b ?a ?i]
        copy4_at [OF sp' disjoint_selected, of ?a ?b ?i] by simp
    then show ?thesis using True by simp
  next
    case False
    have "\<not> (snd p \<le> j \<and> j < snd p + 4)" if "p \<in> set (spare_slots C ?bm)" for p
      using slot_at_spare [of "fst p" "snd p" C j] that False by (auto simp: spare_slots_selected)
    then have "\<forall>p \<in> set (spare_slots C ?bm). \<not> (snd p \<le> j \<and> j < snd p + 4)" by blast
    from copy4_other [OF sp' this] show ?thesis using False assms(7) j by simp
  qed
  have "LML_VirtualPageRead P C op' mbuf0 (Some sp0) s2
      = Some (if r2 = - ERR_ECC then 0 else r2, m, sp', s2\<lparr>dr_spare_buf := ?B, dr_dev := d\<rparr>)"
    using sp' by (simp add: LML_VirtualPageRead_def assms(9) del: copy4.simps)
  then show ?thesis using len' at by blast
qed

text \<open>The bitmap 3 selects the first two sectors: of sixteen bytes written, eight are returned.\<close>

lemma VirtualPage_spare_roundtrip_witness:
  "\<exists>r s1 sp'. LML_VirtualPageWrite quiet_phy sample_cfg (op_with 15) [] (Some (replicate 16 7)) (sample_drv ())
       = Some (r, s1)
     \<and> LML_VirtualPageRead quiet_phy sample_cfg (op_with 3) [] (Some (replicate 16 0)) s1 = Some (0, [], sp', s1)
     \<and> sp' ! 5 = 7"
proof -
  have "\<exists>d. copy4 (map swap_pair (spare_slots sample_cfg 15)) (replicate 16 7) (replicate 16 (0xff :: u8)) = Some d"
    using copy4_in [of "map swap_pair (spare_slots sample_cfg 15)" "replicate 16 7" "replicate 16 (0xff :: u8)"]
    by (auto simp: swap_pair_def spare_slots_selected all_slots_def)
  then obtain r s1 where w: "LML_VirtualPageWrite quiet_phy sample_cfg (op_with 15) []
      (Some (replicate 16 7)) (sample_drv ()) = Some (r, s1)"
    by (auto simp: LML_VirtualPageWrite_def mem_put_def quiet_phy_def)
  have b: "bit (3 :: u32) i \<longleftrightarrow> i < 2" for i
    using bit_mask_iff [of 2 i, where 'a = u32] by (auto simp: mask_eq_exp_minus_1)
  have "sector_of_spare sample_cfg 5 = 1" by (simp add: sector_of_spare_def)
  then show ?thesis
    using VirtualPage_spare_roundtrip [of sample_cfg "op_with 3" "sample_drv ()" "replicate 16 7"
        "replicate 16 0" quiet_phy "op_with 15" "[]" r s1 "[]" s1 0 "[]" "dr_dev s1"] w b
    by (auto simp: op_with_def quiet_phy_def)
qed

end
