(* ===== verification/Bad_Manage.thy ===== *)
theory Bad_Manage
  imports Virtual_Page
begin

text \<open>
  Bad block handling (\<open>logic/bad_manage.c\<close>): the pages before the failed one are copied to a free
  block, the bad block is marked in its spare areas. The search for a replacement repeats while
  copying to the chosen free block fails; every round takes a block out of the pool, which is why it
  ends. \<open>drained\<close> says what a routine that only takes free blocks may do to the driver.
\<close>

fun RestorePageData ::
  "'d phy_ops \<Rightarrow> cfg \<Rightarrow> super_phy_blk \<Rightarrow> nat \<Rightarrow> nat \<Rightarrow> super_phy_blk \<Rightarrow> nat \<Rightarrow> 'd drv \<Rightarrow> int \<times> 'd drv" where
  "RestorePageData P C pBadBlk nZoneNum 0 pNewBlk i s = (0, s)"
| "RestorePageData P C pBadBlk nZoneNum (Suc n) pNewBlk i s =
    (let full = FULL_BITMAP_OF_SUPER_PAGE C;
         tmpSrcPage = LML_CalculatePhyOpPar C (op_with full) nZoneNum (unat (PhyBlkNum pBadBlk)) i;
         tmpDstPage = LML_CalculatePhyOpPar C (op_with full) nZoneNum (unat (PhyBlkNum pNewBlk)) i;
         (_, s1) = PageCopyback P tmpSrcPage tmpDstPage s;
         (result, s2) = SynchBank P (unat (op_BankNum tmpDstPage)) SYNC_CHIP_MODE s1
     in if result < 0 then (-1, s2)
        else RestorePageData P C pBadBlk nZoneNum n pNewBlk (Suc i) s2)"

definition MarkPage ::
  "'d phy_ops \<Rightarrow> cfg \<Rightarrow> nat \<Rightarrow> nat \<Rightarrow> nat \<Rightarrow> 'd drv \<Rightarrow> 'd drv option" where
  "MarkPage P C nZoneNum nBlock nPage s = do {
     let tmpPage = LML_CalculatePhyOpPar C (op_with (FULL_BITMAP_OF_SUPER_PAGE C)) nZoneNum nBlock nPage;
     (_, s1) \<leftarrow> LML_VirtualPageWrite P C tmpPage (dr_temp_buf s) (Some (replicate 16 0)) s;
     Some (snd (SynchBank P (unat (op_BankNum tmpPage)) SYNC_CHIP_MODE s1))
   }"

fun MarkBadBlk_loop ::
  "'d phy_ops \<Rightarrow> cfg \<Rightarrow> nat \<Rightarrow> nat \<Rightarrow> nat \<Rightarrow> nat \<Rightarrow> 'd drv \<Rightarrow> 'd drv option" where
  "MarkBadBlk_loop P C nZoneNum nBlock 0 i s = Some s"
| "MarkBadBlk_loop P C nZoneNum nBlock (Suc n) i s = do {
     s1 \<leftarrow> MarkPage P C nZoneNum nBlock i s;
     s2 \<leftarrow> MarkPage P C nZoneNum nBlock
              (PAGE_CNT_OF_SUPER_BLK C - INTERLEAVE_BANK_CNT C + i) s1;
     MarkBadBlk_loop P C nZoneNum nBlock n (Suc i) s2
   }"

definition MarkBadBlk ::
  "'d phy_ops \<Rightarrow> cfg \<Rightarrow> super_phy_blk \<Rightarrow> nat \<Rightarrow> 'd drv \<Rightarrow> (int \<times> 'd drv) option" where
  "MarkBadBlk P C pBadBlk nZoneNum s = do {
     let (_, s1) = LML_VirtualBlkErase P C nZoneNum (unat (PhyBlkNum pBadBlk)) s;
     s2 \<leftarrow> MarkBadBlk_loop P C nZoneNum (unat (PhyBlkNum pBadBlk)) (INTERLEAVE_BANK_CNT C) 0 s1;
     Some (0, s2)
   }"

lemma RestorePageData_frame:
  "RestorePageData P C b z n nb i s = (r, s') \<Longrightarrow> same_tables s s'"
proof (induction n arbitrary: i s)
  case 0
  then show ?case by simp
next
  case (Suc n)
  then show ?case
    by (auto simp: Let_def split: prod.splits if_splits
        dest!: PageCopyback_frame SynchBank_frame intro: same_tables_trans)
qed

lemma MarkPage_frame: "MarkPage P C z b pg s = Some s' \<Longrightarrow> same_tables s s'"
  by (auto simp: MarkPage_def Let_def Option.bind_eq_Some_conv
      dest!: VirtualPageWrite_frame intro: same_tables_trans)

lemma MarkBadBlk_loop_frame:
  "MarkBadBlk_loop P C z b n i s = Some s' \<Longrightarrow> same_tables s s'"
  by (induction n arbitrary: i s)
    (auto simp: Option.bind_eq_Some_conv dest!: MarkPage_frame intro: same_tables_trans)

lemma MarkBadBlk_frame: "MarkBadBlk P C b z s = Some (r, s') \<Longrightarrow> same_tables s s'"
  by (auto simp: MarkBadBlk_def Option.bind_eq_Some_conv split: prod.splits
      dest!: VirtualBlkErase_frame MarkBadBlk_loop_frame intro: same_tables_trans)

section \<open>Replacing a bad block\<close>

function BadBlk_replace ::
  "'d phy_ops \<Rightarrow> cfg \<Rightarrow> super_phy_blk \<Rightarrow> nat \<Rightarrow> nat \<Rightarrow> 'd drv
   \<Rightarrow> (int \<times> super_phy_blk option \<times> 'd drv) option" where
  "BadBlk_replace P C tmpBadBlk nZoneNum nErrPage s = do {
     (_, tmpFreeBlk, s1) \<leftarrow> BMM_GetFreeBlk C LOWEST_EC_TYPE s;
     if PhyBlkNum tmpFreeBlk = 0xffff then Some (-1, None, s1)
     else if nErrPage \<noteq> 0
     then (case RestorePageData P C tmpBadBlk nZoneNum nErrPage tmpFreeBlk 0 s1 of
             (result, s2) \<Rightarrow>
               if result < 0
               then do {
                 (_, s3) \<leftarrow> MarkBadBlk P C tmpFreeBlk nZoneNum s2;
                 BadBlk_replace P C tmpBadBlk nZoneNum nErrPage s3
               }
               else Some (0, Some tmpFreeBlk, s2))
     else Some (0, Some tmpFreeBlk, s1)
   }"
  by pat_completeness auto
termination
proof (relation "measure (\<lambda>(P, C, b, z, n, s). size (free_blks C (BLK_MAP_CACHE s)))", goal_cases)
  case 1
  show ?case by simp
next
  case (2 P C b z n s a r fs fb s1 res s2 m t s3)
  then have "size (free_blks C (BLK_MAP_CACHE s1)) < size (free_blks C (BLK_MAP_CACHE s))"
    and "BLK_MAP_CACHE s2 = BLK_MAP_CACHE s1" and "BLK_MAP_CACHE s3 = BLK_MAP_CACHE s2"
    by (auto dest!: BMM_GetFreeBlk_shrinks RestorePageData_frame [OF sym] MarkBadBlk_frame
        same_tablesD(11))
  then show ?case by simp
qed

declare BadBlk_replace.simps [simp del]

text \<open>\<open>newp\<close> says whether the caller passed a place for the replacement (\<open>pNewBlk\<close> not null).\<close>

definition LML_BadBlkManage ::
  "'d phy_ops \<Rightarrow> cfg \<Rightarrow> super_phy_blk \<Rightarrow> nat \<Rightarrow> nat \<Rightarrow> bool \<Rightarrow> 'd drv
   \<Rightarrow> (int \<times> super_phy_blk option \<times> 'd drv) option" where
  "LML_BadBlkManage P C pBadBlk nZoneNum nErrPage newp s = do {
     (result, new, s1) \<leftarrow>
       (if newp then BadBlk_replace P C pBadBlk nZoneNum nErrPage s else Some (0, None, s));
     if result < 0 then Some (-1, None, s1)
     else do {
       (_, s2) \<leftarrow> MarkBadBlk P C pBadBlk nZoneNum s1;
       Some (0, new, s2)
     }
   }"

section \<open>What taking free blocks does to the driver\<close>

text \<open>\<open>drained C X s s'\<close>: the blocks \<open>X\<close> have left the free pool of the active zone; its data items and
  log items are as before, and beyond the active tables only page buffers and the device changed.\<close>

definition drained :: "cfg \<Rightarrow> super_phy_blk multiset \<Rightarrow> 'd drv \<Rightarrow> 'd drv \<Rightarrow> bool" where
  "drained C X s s' \<longleftrightarrow>
     same_tables (set_PAGE_MAP_CACHE (PAGE_MAP_CACHE s') (set_BLK_MAP_CACHE (BLK_MAP_CACHE s') s)) s'
     \<and> cache_wf C (BLK_MAP_CACHE s')
     \<and> bc_LogBlkTbl (BLK_MAP_CACHE s') = bc_LogBlkTbl (BLK_MAP_CACHE s)
     \<and> bc_ZoneNum (BLK_MAP_CACHE s') = bc_ZoneNum (BLK_MAP_CACHE s)
     \<and> bc_DirtyFlag (BLK_MAP_CACHE s') = bc_DirtyFlag (BLK_MAP_CACHE s)
     \<and> (\<forall>i < DATA_BLK_CNT_OF_ZONE C. bc_Tbl (BLK_MAP_CACHE s') ! i = bc_Tbl (BLK_MAP_CACHE s) ! i)
     \<and> free_blks C (BLK_MAP_CACHE s) = free_blks C (BLK_MAP_CACHE s') + X
     \<and> zone_blocks (BLK_MAP_CACHE s) = zone_blocks (BLK_MAP_CACHE s') + image_mset PhyBlkNum X"

lemma drained_same_tables:
  assumes "same_tables s s'" and "cache_wf C (BLK_MAP_CACHE s)"
  shows "drained C {#} s s'"
  using assms by (simp add: drained_def same_tablesD)

lemma same_tables_set:
  "same_tables s s' \<Longrightarrow> same_tables (set_PAGE_MAP_CACHE pc (set_BLK_MAP_CACHE bc s))
                                 (set_PAGE_MAP_CACHE pc (set_BLK_MAP_CACHE bc s'))"
  by (cases s; cases s')
    (simp add: same_tables_def set_BLK_MAP_CACHE_def set_PAGE_MAP_CACHE_def)

lemma set_caches_twice [simp]:
  "set_PAGE_MAP_CACHE pc (set_BLK_MAP_CACHE bc (set_PAGE_MAP_CACHE pc' (set_BLK_MAP_CACHE bc' s)))
   = set_PAGE_MAP_CACHE pc (set_BLK_MAP_CACHE bc s)"
  by (cases s) (simp add: set_BLK_MAP_CACHE_def set_PAGE_MAP_CACHE_def)

lemma drained_trans [trans]:
  assumes "drained C X s s'" and "drained C Y s' s''"
  shows "drained C (X + Y) s s''"
proof -
  let ?set = "\<lambda>s. set_PAGE_MAP_CACHE (PAGE_MAP_CACHE s'') (set_BLK_MAP_CACHE (BLK_MAP_CACHE s'') s)"
  have "same_tables (set_PAGE_MAP_CACHE (PAGE_MAP_CACHE s') (set_BLK_MAP_CACHE (BLK_MAP_CACHE s') s)) s'"
    using assms(1) by (simp add: drained_def)
  from same_tables_set [OF this, of "PAGE_MAP_CACHE s''" "BLK_MAP_CACHE s''"]
  have "same_tables (?set s) (?set s')" by simp
  also have "same_tables (?set s') s''" using assms(2) by (simp add: drained_def)
  finally show ?thesis using assms by (auto simp: drained_def ac_simps)
qed

lemma drained_set_PAGE:
  assumes "drained C X s s'"
  shows "drained C X s (set_PAGE_MAP_CACHE pc s')"
proof -
  have "same_tables (set_PAGE_MAP_CACHE (PAGE_MAP_CACHE s') (set_BLK_MAP_CACHE (BLK_MAP_CACHE s') s)) s'"
    using assms by (simp add: drained_def)
  from same_tables_set [OF this, of pc "BLK_MAP_CACHE s'"] show ?thesis
    using assms by (simp add: drained_def)
qed

lemma free_taken_drained: "free_taken C b s s' \<Longrightarrow> drained C {#b#} s s'"
  by (auto simp: free_taken_def drained_def)

lemma drained_wf: "drained C X s s' \<Longrightarrow> cache_wf C (BLK_MAP_CACHE s')"
  by (simp add: drained_def)

lemma BadBlk_replace_post:
  assumes "BadBlk_replace P C bad z n s = Some (r, nb, s')" and "cache_wf C (BLK_MAP_CACHE s)"
  shows "(r = -1 \<and> nb = None \<and> (\<exists>X. drained C X s s') \<and> free_blks C (BLK_MAP_CACHE s') = {#})
    \<or> (r = 0 \<and> (\<exists>b X. nb = Some b \<and> PhyBlkNum b \<noteq> 0xffff \<and> drained C (add_mset b X) s s'))"
  using assms
proof (induction P C bad z n s rule: BadBlk_replace.induct)
  case (1 P C bad z n s)
  from "1.prems"(1) obtain r1 fb s1 where get: "BMM_GetFreeBlk C LOWEST_EC_TYPE s = Some (r1, fb, s1)"
    and rest: "(if PhyBlkNum fb = 0xffff then Some (-1, None, s1)
      else if n \<noteq> 0 then (case RestorePageData P C bad z n fb 0 s1 of (result, s2) \<Rightarrow>
               if result < 0
               then do { (_, s3) \<leftarrow> MarkBadBlk P C fb z s2; BadBlk_replace P C bad z n s3 }
               else Some (0, Some fb, s2))
      else Some (0, Some fb, s1)) = Some (r, nb, s')"
    by (subst (asm) BadBlk_replace.simps) (auto simp: Option.bind_eq_Some_conv)
  from BMM_GetFreeBlk_post [OF "1.prems"(2) get] consider
    (none) "fb = empty_phy_blk" "s1 = s" "free_blks C (BLK_MAP_CACHE s) = {#}"
    | (some) "PhyBlkNum fb \<noteq> 0xffff" "drained C {#fb#} s s1"
    by (auto dest: free_taken_drained)
  then show ?case
  proof cases
    case none
    with rest have "r = -1" "nb = None" "s' = s" by auto
    with none drained_same_tables [OF same_tables_refl "1.prems"(2)] show ?thesis by blast
  next
    case some
    note wf1 = drained_wf [OF some(2)]
    obtain res s2 where res: "RestorePageData P C bad z n fb 0 s1 = (res, s2)" by fastforce
    have d2: "drained C {#} s1 s2"
      using RestorePageData_frame [OF res] wf1 by (rule drained_same_tables)
    show ?thesis
    proof (cases "n \<noteq> 0 \<and> res < 0")
      case True
      with rest some res obtain t s3 where mark: "MarkBadBlk P C fb z s2 = Some (t, s3)"
        and rec: "BadBlk_replace P C bad z n s3 = Some (r, nb, s')"
        by (auto simp: Option.bind_eq_Some_conv)
      have d3: "drained C {#} s2 s3"
        using MarkBadBlk_frame [OF mark] drained_wf [OF d2] by (rule drained_same_tables)
      have d: "drained C {#fb#} s s3"
        using drained_trans [OF drained_trans [OF some(2) d2] d3] by simp
      from True have "n \<noteq> 0" "res < 0" by auto
      note ih = "1.IH" [OF get refl refl some(1) this(1) res [symmetric] this(2) mark refl rec
          drained_wf [OF d]]
      have "drained C (add_mset b (add_mset fb X)) s s'" if "drained C (add_mset b X) s3 s'" for b X
        using drained_trans [OF d that] by (simp add: add_mset_commute)
      with ih drained_trans [OF d] show ?thesis by blast
    next
      case False
      with rest some res have "r = 0" "nb = Some fb" "s' = s2 \<or> s' = s1"
        by (auto split: if_splits)
      with some drained_trans [OF some(2) d2] show ?thesis by auto
    qed
  qed
qed

lemma LML_BadBlkManage_post:
  assumes "LML_BadBlkManage P C bad z n newp s = Some (r, nb, s')"
    and "cache_wf C (BLK_MAP_CACHE s)"
  shows "(r = -1 \<and> nb = None \<and> newp \<and> (\<exists>X. drained C X s s'))
    \<or> (r = 0 \<and> newp \<and> (\<exists>b X. nb = Some b \<and> PhyBlkNum b \<noteq> 0xffff \<and> drained C (add_mset b X) s s'))
    \<or> (r = 0 \<and> \<not> newp \<and> nb = None \<and> same_tables s s')"
proof (cases newp)
  case False
  with assms(1) show ?thesis
    by (auto simp: LML_BadBlkManage_def Option.bind_eq_Some_conv dest: MarkBadBlk_frame)
next
  case True
  with assms(1) obtain r1 nb1 s1 where rep: "BadBlk_replace P C bad z n s = Some (r1, nb1, s1)"
    and rest: "(if r1 < 0 then Some (-1, None, s1)
      else do { (_, s2) \<leftarrow> MarkBadBlk P C bad z s1; Some (0, nb1, s2) }) = Some (r, nb, s')"
    by (auto simp: LML_BadBlkManage_def Option.bind_eq_Some_conv)
  note post = BadBlk_replace_post [OF rep assms(2)]
  show ?thesis
  proof (cases "r1 < 0")
    case True
    with post rest \<open>newp\<close> show ?thesis by auto
  next
    case False
    with post obtain b X where b: "nb1 = Some b" "PhyBlkNum b \<noteq> 0xffff" "drained C (add_mset b X) s s1"
      by auto
    from False rest obtain t where mark: "MarkBadBlk P C bad z s1 = Some (t, s')" and "r = 0" "nb = nb1"
      by (auto simp: Option.bind_eq_Some_conv)
    have "drained C {#} s1 s'"
      using MarkBadBlk_frame [OF mark] drained_wf [OF b(3)] by (rule drained_same_tables)
    from drained_trans [OF b(3) this] b \<open>r = 0\<close> \<open>nb = nb1\<close> \<open>newp\<close> show ?thesis by auto
  qed
qed

lemma BadBlk_replace_shrinks:
  "BadBlk_replace P C bad z n s = Some (r, nb, s') \<Longrightarrow> 0 \<le> r \<Longrightarrow>
   size (free_blks C (BLK_MAP_CACHE s')) < size (free_blks C (BLK_MAP_CACHE s))"
proof (induction P C bad z n s rule: BadBlk_replace.induct)
  case (1 P C bad z n s)
  from "1.prems"(1,2) obtain r1 fb s1 where get: "BMM_GetFreeBlk C LOWEST_EC_TYPE s = Some (r1, fb, s1)"
    and fb: "PhyBlkNum fb \<noteq> 0xffff"
    and rest: "(if n \<noteq> 0 then (case RestorePageData P C bad z n fb 0 s1 of (result, s2) \<Rightarrow>
               if result < 0
               then do { (_, s3) \<leftarrow> MarkBadBlk P C fb z s2; BadBlk_replace P C bad z n s3 }
               else Some (0, Some fb, s2))
      else Some (0, Some fb, s1)) = Some (r, nb, s')"
    by (subst (asm) BadBlk_replace.simps) (auto simp: Option.bind_eq_Some_conv split: if_splits)
  have less: "size (free_blks C (BLK_MAP_CACHE s1)) < size (free_blks C (BLK_MAP_CACHE s))"
    using BMM_GetFreeBlk_shrinks [OF get fb] .
  obtain res s2 where res: "RestorePageData P C bad z n fb 0 s1 = (res, s2)" by fastforce
  have b2: "BLK_MAP_CACHE s2 = BLK_MAP_CACHE s1"
    using RestorePageData_frame [OF res] by (simp add: same_tablesD)
  show ?case
  proof (cases "n \<noteq> 0 \<and> res < 0")
    case True
    with rest res obtain t s3 where mark: "MarkBadBlk P C fb z s2 = Some (t, s3)"
      and rec: "BadBlk_replace P C bad z n s3 = Some (r, nb, s')"
      by (auto simp: Option.bind_eq_Some_conv)
    from True have "n \<noteq> 0" "res < 0" by auto
    from "1.IH" [OF get refl refl fb this(1) res [symmetric] this(2) mark refl rec "1.prems"(2)]
    show ?thesis
      using MarkBadBlk_frame [OF mark] b2 less by (simp add: same_tablesD)
  next
    case False
    with rest res b2 less show ?thesis by (auto split: if_splits)
  qed
qed

lemma LML_BadBlkManage_shrinks:
  assumes "LML_BadBlkManage P C bad z n True s = Some (r, nb, s')" and "0 \<le> r"
  shows "size (free_blks C (BLK_MAP_CACHE s')) < size (free_blks C (BLK_MAP_CACHE s))"
proof -
  from assms obtain r1 t s1 where "BadBlk_replace P C bad z n s = Some (r1, nb, s1)" "0 \<le> r1"
    and "MarkBadBlk P C bad z s1 = Some (t, s')"
    by (auto simp: LML_BadBlkManage_def Option.bind_eq_Some_conv split: if_splits)
  then show ?thesis
    using BadBlk_replace_shrinks [of P C bad z n s r1 nb s1] MarkBadBlk_frame [of P C bad z s1 t s']
    by (simp add: same_tablesD)
qed

section \<open>The bad block management returns\<close>

text \<open>The size of the spare buffer, and a physic layer that keeps the sizes of the buffers it is given.\<close>

definition spare_ok :: "cfg \<Rightarrow> 'd drv \<Rightarrow> bool" where
  "spare_ok C s \<longleftrightarrow> 4 \<le> SECTOR_CNT_OF_SUPER_PAGE C \<and> SECTOR_CNT_OF_SUPER_PAGE C \<le> 32
     \<and> length (dr_spare_buf s) = 4 * SECTOR_CNT_OF_SUPER_PAGE C"

definition keeps_sizes :: "'d phy_ops \<Rightarrow> bool" where
  "keeps_sizes P \<longleftrightarrow>
     (\<forall>op m sb d. let (r, m', sb', d') = PHY_PageRead P op m sb d in
        length m' = length m \<and> map_option length sb' = map_option length sb)
     \<and> (\<forall>src dst m sb d. let (r, m', sb', d') = PHY_PageCopyback P src dst m sb d in
        length m' = length m \<and> length sb' = length sb)
     \<and> (\<forall>op m sb d. let (r, m', sb', d') = PHY_PageReadSpare P op m sb d in
        length m' = length m \<and> map_option length sb' = map_option length sb)"

lemma spare_slots_fit:
  assumes "(a, b) \<in> set (spare_slots C (FULL_BITMAP_OF_SUPER_PAGE C))"
    and "0 < SECTOR_CNT_OF_SUPER_PAGE C" and "SECTOR_CNT_OF_SUPER_PAGE C \<le> 32"
  shows "a + 4 \<le> 4 * SECTOR_CNT_OF_SUPER_PAGE C" and "b + 4 \<le> 16"
  using assms(1) unfolding spare_slots_def bit_iff_and_push_bit_not_eq_0 [symmetric]
  by (auto simp: bit_FULL_BITMAP [OF assms(2,3)] split: if_splits)

lemma VirtualPageWrite_total:
  assumes "spare_ok C s" and "length sp = 16"
  shows "\<exists>r s'. LML_VirtualPageWrite P C op m (Some sp) s = Some (r, s') \<and> spare_ok C s'"
proof -
  let ?ff = "replicate (SECTOR_CNT_OF_SUPER_PAGE C * 4) (0xff :: u8)"
  have c: "mem_put (dr_spare_buf s) 0 ?ff = Some ?ff"
    using assms(1) by (simp add: spare_ok_def mem_put_def)
  obtain f where f: "copy4 (map swap_pair (spare_slots C (FULL_BITMAP_OF_SUPER_PAGE C))) sp ?ff = Some f"
    "length f = length ?ff"
    using copy4_in [of "map swap_pair (spare_slots C (FULL_BITMAP_OF_SUPER_PAGE C))" sp ?ff]
      spare_slots_fit [of _ _ C] assms by (fastforce simp: swap_pair_def spare_ok_def)
  from f c show ?thesis
    using assms(1) by (auto simp: LML_VirtualPageWrite_def spare_ok_def case_prod_beta)
qed

lemma SynchBank_spare: "SynchBank P b m s = (r, s') \<Longrightarrow> spare_ok C s' = spare_ok C s"
  by (auto simp: SynchBank_def spare_ok_def case_prod_beta)

lemma PageCopyback_spare:
  "keeps_sizes P \<Longrightarrow> PageCopyback P a b s = (r, s') \<Longrightarrow> spare_ok C s' = spare_ok C s"
  unfolding PageCopyback_def keeps_sizes_def spare_ok_def
  by (auto simp: case_prod_beta)

lemma VirtualBlkErase_spare: "LML_VirtualBlkErase P C z b s = (r, s') \<Longrightarrow> spare_ok C s' = spare_ok C s"
  by (auto simp: LML_VirtualBlkErase_def spare_ok_def Let_def case_prod_beta)

lemma RestorePageData_spare:
  "keeps_sizes P \<Longrightarrow> RestorePageData P C b z n nb i s = (r, s') \<Longrightarrow> spare_ok C s' = spare_ok C s"
proof (induction n arbitrary: i s)
  case 0
  then show ?case by simp
next
  case (Suc n)
  then show ?case
    by (auto simp: Let_def split: prod.splits if_splits dest!: PageCopyback_spare SynchBank_spare)
qed

lemma MarkPage_total: "spare_ok C s \<Longrightarrow> \<exists>s'. MarkPage P C z b pg s = Some s' \<and> spare_ok C s'"
  using VirtualPageWrite_total [of C s "replicate 16 0" P
      "LML_CalculatePhyOpPar C (op_with (FULL_BITMAP_OF_SUPER_PAGE C)) z b pg" "dr_temp_buf s"]
  by (auto simp: MarkPage_def Let_def SynchBank_spare [OF prod.collapse [symmetric]])

lemma MarkBadBlk_loop_total:
  "spare_ok C s \<Longrightarrow> \<exists>s'. MarkBadBlk_loop P C z b n i s = Some s' \<and> spare_ok C s'"
proof (induction n arbitrary: i s)
  case (Suc n)
  obtain s1 where s1: "MarkPage P C z b i s = Some s1" "spare_ok C s1"
    using MarkPage_total [OF Suc.prems] by blast
  obtain s2 where s2: "MarkPage P C z b (PAGE_CNT_OF_SUPER_BLK C - INTERLEAVE_BANK_CNT C + i) s1 = Some s2"
    "spare_ok C s2" using MarkPage_total [OF s1(2)] by blast
  from Suc.IH [OF s2(2)] s1 s2 show ?case by simp
qed simp

lemma MarkBadBlk_total: "spare_ok C s \<Longrightarrow> \<exists>s'. MarkBadBlk P C b z s = Some (0, s') \<and> spare_ok C s'"
proof -
  assume s: "spare_ok C s"
  obtain r s1 where e: "LML_VirtualBlkErase P C z (unat (PhyBlkNum b)) s = (r, s1)" by fastforce
  from MarkBadBlk_loop_total VirtualBlkErase_spare [OF e] s obtain s2 where
    "MarkBadBlk_loop P C z (unat (PhyBlkNum b)) (INTERLEAVE_BANK_CNT C) 0 s1 = Some s2" "spare_ok C s2"
    by blast
  with e show ?thesis by (simp add: MarkBadBlk_def)
qed

lemma BadBlk_replace_total:
  assumes "keeps_sizes P" and "spare_ok C s" and "cache_wf C (BLK_MAP_CACHE s)"
  shows "\<exists>r nb s'. BadBlk_replace P C bad z n s = Some (r, nb, s') \<and> spare_ok C s'"
  using assms(2,3)
proof (induction "size (free_blks C (BLK_MAP_CACHE s))" arbitrary: s rule: less_induct)
  case less
  obtain r1 fb s1 where get: "BMM_GetFreeBlk C LOWEST_EC_TYPE s = Some (r1, fb, s1)"
    using BMM_GetFreeBlk_total [OF less.prems(2)] by (metis prod_cases3)
  have "s1 = set_BLK_MAP_CACHE (BLK_MAP_CACHE s1) s \<or> s1 = s"
    using BMM_GetFreeBlk_post [OF less.prems(2) get] by (auto simp: free_taken_def)
  moreover have "dr_spare_buf (set_BLK_MAP_CACHE (BLK_MAP_CACHE s1) s) = dr_spare_buf s" by simp
  ultimately have "dr_spare_buf s1 = dr_spare_buf s" by metis
  then have s1: "spare_ok C s1" and wf1: "cache_wf C (BLK_MAP_CACHE s1)"
    using BMM_GetFreeBlk_post [OF less.prems(2) get] less.prems
    by (auto simp: free_taken_def spare_ok_def)
  obtain res s2 where res: "RestorePageData P C bad z n fb 0 s1 = (res, s2)" by fastforce
  have s2: "spare_ok C s2" "BLK_MAP_CACHE s2 = BLK_MAP_CACHE s1"
    using RestorePageData_spare [OF assms(1) res] s1 RestorePageData_frame [OF res]
    by (auto simp: same_tablesD)
  show ?case
  proof (cases "PhyBlkNum fb \<noteq> 0xffff \<and> n \<noteq> 0 \<and> res < 0")
    case True
    obtain s3 where mark: "MarkBadBlk P C fb z s2 = Some (0, s3)" "spare_ok C s3"
      using MarkBadBlk_total [OF s2(1)] by blast
    have t3: "BLK_MAP_CACHE s3 = BLK_MAP_CACHE s1"
      using MarkBadBlk_frame [OF mark(1)] s2(2) by (simp add: same_tablesD)
    then have "size (free_blks C (BLK_MAP_CACHE s3)) < size (free_blks C (BLK_MAP_CACHE s))"
      using BMM_GetFreeBlk_shrinks [OF get] True by simp
    from less.hyps [OF this mark(2)] t3 wf1 get res mark(1) True show ?thesis
      by (subst BadBlk_replace.simps) auto
  next
    case False
    with get res s1 s2 show ?thesis by (subst BadBlk_replace.simps) auto
  qed
qed

text \<open>C2: \<open>LML_BadBlkManage\<close> returns, without touching memory outside its buffers. When it reports success the
  replacement is a free block of the zone that has left the pool; it fails only after the whole pool is
  used up; data blocks and log blocks of the zone are as before in both cases.\<close>

theorem BadBlkManage_replacement:
  assumes "keeps_sizes P" and "spare_ok C s" and "cache_wf C (BLK_MAP_CACHE s)"
  shows "\<exists>r nb s'. LML_BadBlkManage P C bad z n True s = Some (r, nb, s')
    \<and> (if r = 0 then \<exists>b. nb = Some b \<and> b \<in># free_blks C (BLK_MAP_CACHE s)
         \<and> free_blks C (BLK_MAP_CACHE s') \<subseteq># free_blks C (BLK_MAP_CACHE s) - {#b#}
       else r = -1 \<and> nb = None \<and> free_blks C (BLK_MAP_CACHE s') = {#})
    \<and> bc_LogBlkTbl (BLK_MAP_CACHE s') = bc_LogBlkTbl (BLK_MAP_CACHE s)
    \<and> (\<forall>i < DATA_BLK_CNT_OF_ZONE C. bc_Tbl (BLK_MAP_CACHE s') ! i = bc_Tbl (BLK_MAP_CACHE s) ! i)"
proof -
  from BadBlk_replace_total [OF assms, of bad z n] obtain r1 nb1 s1 where
    rep: "BadBlk_replace P C bad z n s = Some (r1, nb1, s1)" and sp1: "spare_ok C s1" by blast
  obtain s2 where mark: "MarkBadBlk P C bad z s1 = Some (0, s2)"
    using MarkBadBlk_total [OF sp1] by blast
  have t2: "BLK_MAP_CACHE s2 = BLK_MAP_CACHE s1"
    using MarkBadBlk_frame [OF mark] by (simp add: same_tablesD)
  from BadBlk_replace_post [OF rep assms(3)] show ?thesis
  proof (elim disjE conjE exE)
    fix X assume "r1 = -1" "nb1 = None" "drained C X s s1" "free_blks C (BLK_MAP_CACHE s1) = {#}"
    with rep show ?thesis by (auto simp: LML_BadBlkManage_def drained_def)
  next
    fix b X assume "r1 = 0" "nb1 = Some b" "PhyBlkNum b \<noteq> 0xffff" "drained C (add_mset b X) s s1"
    with rep mark t2 show ?thesis by (auto simp: LML_BadBlkManage_def drained_def)
  qed
qed

lemma quiet_keeps_sizes: "keeps_sizes quiet_phy"
  by (simp add: keeps_sizes_def quiet_phy_def)

lemma sample_spare_ok: "spare_ok sample_cfg (sample_drv d)"
  by (simp add: spare_ok_def)

lemma BadBlkManage_replacement_witness:
  "\<exists>r nb s'. LML_BadBlkManage quiet_phy sample_cfg \<lparr>PhyBlkNum = 20, BlkEraseCnt = 0\<rparr> 0 3 True (sample_drv ())
     = Some (r, nb, s') \<and> bc_LogBlkTbl (BLK_MAP_CACHE s') = bc_LogBlkTbl sample_blk_cache
       \<and> (r = 0 \<or> r = -1)"
  using BadBlkManage_replacement [OF quiet_keeps_sizes sample_spare_ok, of "()" "\<lparr>PhyBlkNum = 20, BlkEraseCnt = 0\<rparr>" 0 3]
  by (auto split: if_splits)

end
