(* ===== verification/Merge.thy ===== *)
theory Merge
  imports Bad_Manage
begin

text \<open>
  Merging a log block into its data block (\<open>logic/merge.c\<close>). Three ways: the log block becomes the
  data block (its pages are in order), the live log pages move to a fresh log block, or a free block
  collects the newest version of every page and becomes the data block.

  A page whose program operation failed is retried on a replacement block; a retry takes a block out
  of the free pool, so the loops are functions with the pool size as the first measure.
\<close>

section \<open>Copying page 0\<close>

definition ReadTemp ::
  "'d phy_ops \<Rightarrow> cfg \<Rightarrow> phys_op \<Rightarrow> u8 list \<Rightarrow> 'd drv \<Rightarrow> (int \<times> u8 list \<times> 'd drv) option" where
  "ReadTemp P C op sp s = do {
     (r, m, sp', s1) \<leftarrow> LML_VirtualPageRead P C op (dr_temp_buf s) (Some sp) s;
     Some (r, sp', s1\<lparr>dr_temp_buf := m\<rparr>)
   }"

definition phys_at :: "cfg \<Rightarrow> u32 \<Rightarrow> 'd drv \<Rightarrow> nat \<Rightarrow> nat \<Rightarrow> phys_op" where
  "phys_at C bm s nBlock nPage =
     LML_CalculatePhyOpPar C (op_with bm) (unat (CUR_MAP_ZONE s)) nBlock nPage"

definition copy_page0 ::
  "'d phy_ops \<Rightarrow> cfg \<Rightarrow> nat \<Rightarrow> nat \<Rightarrow> nat \<Rightarrow> u8 \<Rightarrow> 'd drv \<Rightarrow> (int \<times> 'd drv) option" where
  "copy_page0 P C SrcBlk SrcDataPage DstBlk SeqPlus s = do {
     (r1, sp1, s1) \<leftarrow> ReadTemp P C (phys_at C 3 s SrcBlk 0) (enc_ud2 (blank_ud, blank_ud)) s;
     if r1 < 0 then Some (NAND_OP_FALSE, s1)
     else do {
       let seq = ud_PageStatus (fst (dec_ud2 sp1));
       let LogicInfo = ud_LogicInfo (fst (dec_ud2 sp1));
       (r2, sp2, s2) \<leftarrow> ReadTemp P C
          (phys_at C (FULL_BITMAP_OF_SUPER_PAGE C) s1 SrcBlk SrcDataPage) sp1 s1;
       if r2 < 0 then Some (NAND_OP_FALSE, s2)
       else do {
         let u = dec_ud2 sp2;
         let u0 = (fst u)\<lparr>ud_LogicInfo := LogicInfo, ud_PageStatus := seq + SeqPlus\<rparr>;
         (r3, s3) \<leftarrow> LML_VirtualPageWrite P C
            (phys_at C (FULL_BITMAP_OF_SUPER_PAGE C) s2 DstBlk 0)
            (dr_temp_buf s2) (Some (enc_ud2 (u0, snd u))) s2;
         if r3 \<noteq> NAND_OP_TRUE then Some (NAND_OP_FALSE, s3) else Some (NAND_OP_TRUE, s3)
       }
     }
   }"

text \<open>The tail the merges share: erase a block that left the tables, mark it when the erase fails,
  count the erase and put it into the free pool.\<close>

definition recycle_blk ::
  "'d phy_ops \<Rightarrow> cfg \<Rightarrow> super_phy_blk \<Rightarrow> 'd drv \<Rightarrow> (int \<times> 'd drv) option" where
  "recycle_blk P C blk s = do {
     let (r1, s1) = LML_VirtualBlkErase P C (unat (CUR_MAP_ZONE s)) (unat (PhyBlkNum blk)) s;
     (r2, _, s2) \<leftarrow>
       (if r1 \<noteq> NAND_OP_TRUE
        then LML_BadBlkManage P C blk (unat (CUR_MAP_ZONE s1)) 0 False s1
        else Some (NAND_OP_TRUE, None, s1));
     if r2 \<noteq> NAND_OP_TRUE then Some (NAND_OP_FALSE, s2)
     else do {
       let blk' = (if BlkEraseCnt blk < 0xffff then blk\<lparr>BlkEraseCnt := BlkEraseCnt blk + 1\<rparr> else blk);
       (_, s3) \<leftarrow> BMM_SetFreeBlk C blk' s2;
       Some (NAND_OP_TRUE, s3)
     }
   }"

lemmas step_BLK =
  PageCopyback_frame [OF sym, THEN same_tablesD(11)]
  SynchBank_frame [OF sym, THEN same_tablesD(11)]

section \<open>The log block becomes the data block\<close>

function swap_copy ::
  "'d phy_ops \<Rightarrow> cfg \<Rightarrow> nat \<Rightarrow> super_phy_blk \<Rightarrow> nat \<Rightarrow> 'd drv
   \<Rightarrow> (int \<times> super_phy_blk \<times> 'd drv) option" where
  "swap_copy P C DataBlk LogPhy SuperPage s =
    (if SuperPage < PAGE_CNT_OF_SUPER_BLK C
     then let SrcParam = phys_at C (ucast (junk16 C)) s DataBlk SuperPage;
              DstParam = phys_at C (ucast (junk16 C)) s (unat (PhyBlkNum LogPhy)) SuperPage in
          case PageCopyback P SrcParam DstParam s of (r1, s1) \<Rightarrow>
          if r1 \<noteq> NAND_OP_TRUE then Some (NAND_OP_FALSE, LogPhy, s1)
          else case SynchBank P (unat (op_BankNum DstParam)) SYNC_BANK_MODE s1 of (r2, s2) \<Rightarrow>
          if r2 \<noteq> NAND_OP_TRUE
          then do {
            (r3, sub, s3) \<leftarrow> LML_BadBlkManage P C LogPhy (unat (CUR_MAP_ZONE s2)) SuperPage True s2;
            if r3 \<noteq> NAND_OP_TRUE then Some (NAND_OP_FALSE, LogPhy, s3)
            else do {
              SubBlk \<leftarrow> sub;
              swap_copy P C DataBlk SubBlk SuperPage s3
            }
          }
          else swap_copy P C DataBlk LogPhy (Suc SuperPage) s2
     else Some (NAND_OP_TRUE, LogPhy, s))"
  by pat_completeness auto
termination
proof (relation "measures [\<lambda>(P, C, d, l, pg, s). size (free_blks C (BLK_MAP_CACHE s)),
                           \<lambda>(P, C, d, l, pg, s). PAGE_CNT_OF_SUPER_BLK C - pg]", goal_cases)
  case 1
  show ?case by simp
next
  case 2
  then show ?case
    by (auto dest!: LML_BadBlkManage_shrinks step_BLK)
next
  case 3
  then show ?case
    by (auto dest!: step_BLK)
qed

declare swap_copy.simps [simp del]

definition log2data_swap_merge ::
  "'d phy_ops \<Rightarrow> cfg \<Rightarrow> nat \<Rightarrow> 'd drv \<Rightarrow> (int \<times> 'd drv) option" where
  "log2data_swap_merge P C nlogical s = do {
     (_, DataBlk) \<leftarrow> BMM_GetDataBlk C nlogical s;
     (_, LogBlk) \<leftarrow> BMM_GetLogBlk nlogical s;
     (r1, LogPhy, s1) \<leftarrow> swap_copy P C (unat (PhyBlkNum DataBlk)) (PhyBlk LogBlk)
        (unat (LastUsedPage LogBlk + 1)) s;
     if r1 \<noteq> NAND_OP_TRUE then Some (NAND_OP_FALSE, s1)
     else do {
       (_, s2) \<leftarrow> BMM_SetDataBlk C nlogical LogPhy s1;
       (_, s3) \<leftarrow> BMM_SetLogBlk nlogical empty_log_blk s2;
       (r4, s4) \<leftarrow> recycle_blk P C DataBlk s3;
       if r4 \<noteq> NAND_OP_TRUE then Some (NAND_OP_FALSE, s4)
       else Some (NAND_OP_TRUE, PMM_ClearCurMapTbl s4)
     }
   }"

section \<open>The live log pages move to a fresh log block\<close>

text \<open>One page of either variant of the move: what the copy step leaves the loop with.\<close>

datatype 'd move_result =
    MoveFail "'d drv"
  | MoveRedo super_phy_blk "'d drv"
  | MoveOk nat "'d drv"

definition bad_dst ::
  "'d phy_ops \<Rightarrow> cfg \<Rightarrow> super_phy_blk \<Rightarrow> nat \<Rightarrow> 'd drv \<Rightarrow> 'd move_result option" where
  "bad_dst P C FreeBlk nErrPage s = do {
     (r, sub, s1) \<leftarrow> LML_BadBlkManage P C FreeBlk (unat (CUR_MAP_ZONE s)) nErrPage True s;
     if r \<noteq> NAND_OP_TRUE then Some (MoveFail s1)
     else do { SubBlk \<leftarrow> sub; Some (MoveRedo SubBlk s1) }
   }"

text \<open>The body of the inner loop with bank alignment: copy the log page of \<open>SuperPage\<close>, if it has one,
  to \<open>DstPage\<close> of the free block.\<close>

definition move_page_aligned ::
  "'d phy_ops \<Rightarrow> cfg \<Rightarrow> super_phy_blk \<Rightarrow> super_phy_blk \<Rightarrow> nat \<Rightarrow> nat \<Rightarrow> 'd drv \<Rightarrow> 'd move_result option" where
  "move_page_aligned P C LogPhy FreeBlk SuperPage DstPage s = do {
     SrcPage \<leftarrow> PMM_GetCurMapPage SuperPage s;
     if SrcPage = 0xffff then Some (MoveOk DstPage s)
     else do {
       let full = FULL_BITMAP_OF_SUPER_PAGE C;
       let SrcParam = phys_at C full s (unat (PhyBlkNum LogPhy)) (unat SrcPage);
       let DstParam = phys_at C full s (unat (PhyBlkNum FreeBlk)) DstPage;
       (r1, s1) \<leftarrow>
         (if DstPage = 0
          then copy_page0 P C (unat (PhyBlkNum LogPhy)) (unat SrcPage) (unat (PhyBlkNum FreeBlk)) 0 s
          else Some (PageCopyback P SrcParam DstParam s));
       if r1 \<noteq> NAND_OP_TRUE then Some (MoveFail s1)
       else case SynchBank P (unat (op_BankNum DstParam)) SYNC_BANK_MODE s1 of (r2, s2) \<Rightarrow>
         if r2 \<noteq> NAND_OP_TRUE then bad_dst P C FreeBlk 0 s2
         else do {
           s3 \<leftarrow> PMM_SetCurMapPage SuperPage (of_nat DstPage) s2;
           Some (MoveOk (DstPage + INTERLEAVE_BANK_CNT C) s3)
         }
     }
   }"

function move_bank ::
  "'d phy_ops \<Rightarrow> cfg \<Rightarrow> super_phy_blk \<Rightarrow> super_phy_blk \<Rightarrow> nat \<Rightarrow> nat \<Rightarrow> 'd drv \<Rightarrow> 'd move_result option" where
  "move_bank P C LogPhy FreeBlk SuperPage DstPage s =
    (if SuperPage < PAGE_CNT_OF_SUPER_BLK C \<and> 0 < INTERLEAVE_BANK_CNT C
     then do {
       r \<leftarrow> move_page_aligned P C LogPhy FreeBlk SuperPage DstPage s;
       case r of
         MoveOk DstPage' s' \<Rightarrow>
           move_bank P C LogPhy FreeBlk (SuperPage + INTERLEAVE_BANK_CNT C) DstPage' s'
       | MoveFail s' \<Rightarrow> Some (MoveFail s')
       | MoveRedo b s' \<Rightarrow> Some (MoveRedo b s')
     }
     else Some (MoveOk DstPage s))"
  by pat_completeness auto
termination
  by (relation "measure (\<lambda>(P, C, l, f, sp, dp, s). PAGE_CNT_OF_SUPER_BLK C - sp)") auto

declare move_bank.simps [simp del]

text \<open>The loop over the banks; \<open>n\<close> banks to go from \<open>bank\<close>.\<close>

fun move_banks ::
  "'d phy_ops \<Rightarrow> cfg \<Rightarrow> super_phy_blk \<Rightarrow> super_phy_blk \<Rightarrow> nat \<Rightarrow> nat \<Rightarrow> nat \<Rightarrow> 'd drv
   \<Rightarrow> 'd move_result option" where
  "move_banks P C LogPhy FreeBlk 0 bank LastUsed s = Some (MoveOk LastUsed s)"
| "move_banks P C LogPhy FreeBlk (Suc n) bank LastUsed s = do {
     r \<leftarrow> move_bank P C LogPhy FreeBlk bank bank s;
     case r of
       MoveFail s1 \<Rightarrow> Some (MoveFail s1)
     | MoveRedo b s1 \<Rightarrow> Some (MoveRedo b s1)
     | MoveOk DstPage s1 \<Rightarrow> do {
         r' \<leftarrow>
           (if bank = 0 \<and> DstPage = 0
            then do {
              (r1, s2) \<leftarrow> copy_page0 P C (unat (PhyBlkNum LogPhy)) 0 (unat (PhyBlkNum FreeBlk)) 0 s1;
              if r1 = NAND_OP_FALSE then Some (MoveFail s2)
              else
                let DstParam = phys_at C (FULL_BITMAP_OF_SUPER_PAGE C) s2 (unat (PhyBlkNum FreeBlk)) 0 in
                case SynchBank P (unat (op_BankNum DstParam)) SYNC_BANK_MODE s2 of (r2, s3) \<Rightarrow>
                if r2 \<noteq> NAND_OP_TRUE then bad_dst P C FreeBlk 0 s3 else Some (MoveOk DstPage s3)
            }
            else Some (MoveOk DstPage s1));
         case r' of
           MoveFail s4 \<Rightarrow> Some (MoveFail s4)
         | MoveRedo b s4 \<Rightarrow> Some (MoveRedo b s4)
         | MoveOk DstPage' s4 \<Rightarrow>
             move_banks P C LogPhy FreeBlk n (Suc bank)
               (if int DstPage' - int (INTERLEAVE_BANK_CNT C) > int LastUsed
                then DstPage' - INTERLEAVE_BANK_CNT C else LastUsed) s4
       }
   }"

lemma ReadTemp_frame: "ReadTemp P C op sp s = Some (r, sp', s') \<Longrightarrow> same_tables s s'"
  by (auto simp: ReadTemp_def Option.bind_eq_Some_conv dest!: VirtualPageRead_frame)

lemma copy_page0_frame: "copy_page0 P C sb sp db q s = Some (r, s') \<Longrightarrow> same_tables s s'"
  by (auto simp: copy_page0_def Let_def Option.bind_eq_Some_conv split: if_splits
      dest!: ReadTemp_frame VirtualPageWrite_frame intro: same_tables_trans)

lemma SetCurMapPage_BLK:
  "PMM_SetCurMapPage n p s = Some s' \<Longrightarrow> BLK_MAP_CACHE s' = BLK_MAP_CACHE s"
  by (auto simp: PMM_SetCurMapPage_def Option.bind_eq_Some_conv)

text \<open>A step that succeeds leaves the block tables alone; one that asks for a new start has taken a
  block out of the pool.\<close>

definition move_shrinks :: "cfg \<Rightarrow> 'd drv \<Rightarrow> 'd move_result \<Rightarrow> bool" where
  "move_shrinks C s r = (case r of
       MoveFail _ \<Rightarrow> True
     | MoveRedo _ s' \<Rightarrow> size (free_blks C (BLK_MAP_CACHE s')) < size (free_blks C (BLK_MAP_CACHE s))
     | MoveOk _ s' \<Rightarrow> BLK_MAP_CACHE s' = BLK_MAP_CACHE s)"

lemma move_shrinks_simps [simp]:
  "move_shrinks C s (MoveFail s')"
  "move_shrinks C s (MoveRedo b s') \<longleftrightarrow>
     size (free_blks C (BLK_MAP_CACHE s')) < size (free_blks C (BLK_MAP_CACHE s))"
  "move_shrinks C s (MoveOk d s') \<longleftrightarrow> BLK_MAP_CACHE s' = BLK_MAP_CACHE s"
  by (simp_all add: move_shrinks_def)

lemma move_shrinks_start:
  "BLK_MAP_CACHE s1 = BLK_MAP_CACHE s \<Longrightarrow> move_shrinks C s1 r \<Longrightarrow> move_shrinks C s r"
  by (cases r) auto

lemma move_shrinks_snd [simp]:
  "move_shrinks C (snd (SynchBank P b m s)) r = move_shrinks C s r"
  "move_shrinks C (snd (PageCopyback P x y s)) r = move_shrinks C s r"
  by (cases r; simp)+

lemma bad_dst_shrinks: "bad_dst P C f n s = Some r \<Longrightarrow> move_shrinks C s r"
  by (auto simp: bad_dst_def Option.bind_eq_Some_conv split: if_splits
      dest: LML_BadBlkManage_shrinks)

lemma move_page_aligned_shrinks:
  assumes "move_page_aligned P C l f sp dp s = Some r"
  shows "move_shrinks C s r"
proof -
  from assms obtain src where src: "PMM_GetCurMapPage sp s = Some src"
    by (auto simp: move_page_aligned_def Option.bind_eq_Some_conv)
  show ?thesis
  proof (cases "src = 0xffff")
    case True
    with assms src show ?thesis by (auto simp: move_page_aligned_def)
  next
    case False
    let ?sp = "phys_at C (FULL_BITMAP_OF_SUPER_PAGE C) s (unat (PhyBlkNum l)) (unat src)"
    let ?dp = "phys_at C (FULL_BITMAP_OF_SUPER_PAGE C) s (unat (PhyBlkNum f)) dp"
    from assms src False obtain r1 s1 where
      copy: "(if dp = 0 then copy_page0 P C (unat (PhyBlkNum l)) (unat src) (unat (PhyBlkNum f)) 0 s
              else Some (PageCopyback P ?sp ?dp s)) = Some (r1, s1)"
      and rest: "(if r1 \<noteq> 0 then Some (MoveFail s1)
        else case SynchBank P (unat (op_BankNum ?dp)) SYNC_BANK_MODE s1 of (r2, s2) \<Rightarrow>
         if r2 \<noteq> NAND_OP_TRUE then bad_dst P C f 0 s2
         else do {
           s3 \<leftarrow> PMM_SetCurMapPage sp (of_nat dp) s2;
           Some (MoveOk (dp + INTERLEAVE_BANK_CNT C) s3)
         }) = Some r"
      by (auto simp: move_page_aligned_def Let_def Option.bind_eq_Some_conv)
    from copy have "BLK_MAP_CACHE s1 = BLK_MAP_CACHE s"
      using snd_BLK(2) [of P ?sp ?dp s]
      by (auto split: if_splits dest!: PageCopyback_frame [THEN same_tablesD(11)] copy_page0_frame [THEN same_tablesD(11)])
    then show ?thesis
      using rest by (auto simp: case_prod_beta Option.bind_eq_Some_conv split: if_splits
          dest!: bad_dst_shrinks SetCurMapPage_BLK intro: move_shrinks_start)
  qed
qed

lemma move_bank_shrinks:
  "move_bank P C l f sp dp s = Some r \<Longrightarrow> move_shrinks C s r"
proof (induction P C l f sp dp s rule: move_bank.induct)
  case (1 P C l f sp dp s)
  show ?case
  proof (cases "sp < PAGE_CNT_OF_SUPER_BLK C \<and> 0 < INTERLEAVE_BANK_CNT C")
    case False
    with "1.prems" show ?thesis by (auto simp: move_bank.simps [of P C l f sp])
  next
    case True
    with "1.prems" obtain q where q: "move_page_aligned P C l f sp dp s = Some q"
      and rest: "(case q of
         MoveOk DstPage' s' \<Rightarrow> move_bank P C l f (sp + INTERLEAVE_BANK_CNT C) DstPage' s'
       | MoveFail s' \<Rightarrow> Some (MoveFail s') | MoveRedo b s' \<Rightarrow> Some (MoveRedo b s')) = Some r"
      by (subst (asm) move_bank.simps) (auto simp: Option.bind_eq_Some_conv)
    note sh = move_page_aligned_shrinks [OF q]
    show ?thesis
    proof (cases q)
      case (MoveOk d s1)
      with rest have "move_bank P C l f (sp + INTERLEAVE_BANK_CNT C) d s1 = Some r" by simp
      with "1.IH" [OF True q MoveOk] have "move_shrinks C s1 r" .
      with sh MoveOk show ?thesis by (auto intro: move_shrinks_start)
    qed (use rest sh in auto)
  qed
qed

lemma move_banks_shrinks:
  "move_banks P C l f n bank lu s = Some r \<Longrightarrow> move_shrinks C s r"
proof (induction n arbitrary: bank lu s)
  case 0
  then show ?case by auto
next
  case (Suc n)
  from Suc.prems obtain q where q: "move_bank P C l f bank bank s = Some q"
    by (auto simp: Option.bind_eq_Some_conv)
  note sh = move_bank_shrinks [OF q]
  show ?case
  proof (cases q)
    case (MoveOk d s1)
    with Suc.prems q obtain q' where
      q': "(if bank = 0 \<and> d = 0
            then do {
              (r1, s2) \<leftarrow> copy_page0 P C (unat (PhyBlkNum l)) 0 (unat (PhyBlkNum f)) 0 s1;
              if r1 = NAND_OP_FALSE then Some (MoveFail s2)
              else
                let DstParam = phys_at C (FULL_BITMAP_OF_SUPER_PAGE C) s2 (unat (PhyBlkNum f)) 0 in
                case SynchBank P (unat (op_BankNum DstParam)) SYNC_BANK_MODE s2 of (r2, s3) \<Rightarrow>
                if r2 \<noteq> NAND_OP_TRUE then bad_dst P C f 0 s3 else Some (MoveOk d s3)
            }
            else Some (MoveOk d s1)) = Some q'"
      and rest: "(case q' of MoveFail s4 \<Rightarrow> Some (MoveFail s4) | MoveRedo b s4 \<Rightarrow> Some (MoveRedo b s4)
         | MoveOk DstPage' s4 \<Rightarrow> move_banks P C l f n (Suc bank)
               (if int DstPage' - int (INTERLEAVE_BANK_CNT C) > int lu
                then DstPage' - INTERLEAVE_BANK_CNT C else lu) s4) = Some r"
      by (auto simp: Option.bind_eq_Some_conv)
    have sh': "move_shrinks C s1 q'"
      using q' by (auto simp: Let_def Option.bind_eq_Some_conv case_prod_beta split: if_splits
          dest!: copy_page0_frame [THEN same_tablesD(11)] bad_dst_shrinks
          intro: move_shrinks_start)
    show ?thesis
      using rest sh sh' MoveOk by (cases q') (auto dest!: Suc.IH intro: move_shrinks_start)
  qed (use Suc.prems q sh in auto)
qed

function move_redo ::
  "'d phy_ops \<Rightarrow> cfg \<Rightarrow> super_phy_blk \<Rightarrow> super_phy_blk \<Rightarrow> 'd drv
   \<Rightarrow> (int \<times> super_phy_blk \<times> nat \<times> 'd drv) option" where
  "move_redo P C LogPhy FreeBlk s = do {
     r \<leftarrow> move_banks P C LogPhy FreeBlk (INTERLEAVE_BANK_CNT C) 0 0 s;
     case r of
       MoveFail s' \<Rightarrow> Some (NAND_OP_FALSE, FreeBlk, 0, s')
     | MoveOk LastUsed s' \<Rightarrow> Some (NAND_OP_TRUE, FreeBlk, LastUsed, s')
     | MoveRedo SubBlk s' \<Rightarrow> move_redo P C LogPhy SubBlk s'
   }"
  by pat_completeness auto
termination
proof (relation "measure (\<lambda>(P, C, l, f, s). size (free_blks C (BLK_MAP_CACHE s)))", goal_cases)
  case 1
  show ?case by simp
next
  case 2
  then show ?case by (auto dest!: move_banks_shrinks)
qed

declare move_redo.simps [simp del]

text \<open>The move without bank alignment, page by page. After a bad block the loop index is decremented
  before the map entry is written, as in the code: at index 0 that is entry 65535 of the table.\<close>

function move_seq ::
  "'d phy_ops \<Rightarrow> cfg \<Rightarrow> super_phy_blk \<Rightarrow> super_phy_blk \<Rightarrow> nat \<Rightarrow> nat \<Rightarrow> nat \<Rightarrow> 'd drv
   \<Rightarrow> (int \<times> super_phy_blk \<times> nat \<times> 'd drv) option" where
  "move_seq P C LogPhy FreeBlk SuperPage DstPage LastUsed s =
    (if SuperPage < PAGE_CNT_OF_LOGIC_BLK C
     then do {
       SrcPage \<leftarrow> PMM_GetCurMapPage SuperPage s;
       if SrcPage = 0xffff then move_seq P C LogPhy FreeBlk (Suc SuperPage) DstPage LastUsed s
       else do {
         let full = FULL_BITMAP_OF_SUPER_PAGE C;
         let SrcParam = phys_at C full s (unat (PhyBlkNum LogPhy)) (unat SrcPage);
         let DstParam = phys_at C full s (unat (PhyBlkNum FreeBlk)) DstPage;
         (r1, s1) \<leftarrow>
           (if DstPage = 0
            then copy_page0 P C (unat (PhyBlkNum LogPhy)) (unat SrcPage) (unat (PhyBlkNum FreeBlk)) 0 s
            else do {
              (ra, sp, sa) \<leftarrow> ReadTemp P C SrcParam (enc_ud2 (blank_ud, blank_ud)) s;
              if ra < 0 then Some (NAND_OP_FALSE, sa)
              else do {
                (rb, sb) \<leftarrow> LML_VirtualPageWrite P C DstParam (dr_temp_buf sa) (Some sp) sa;
                if rb \<noteq> NAND_OP_TRUE then Some (NAND_OP_FALSE, sb) else Some (NAND_OP_TRUE, sb)
              }
            });
         if r1 \<noteq> NAND_OP_TRUE then Some (NAND_OP_FALSE, FreeBlk, 0, s1)
         else case SynchBank P (unat (op_BankNum DstParam)) SYNC_BANK_MODE s1 of (r2, s2) \<Rightarrow>
           if r2 \<noteq> NAND_OP_TRUE
           then do {
             r \<leftarrow> bad_dst P C FreeBlk LastUsed s2;
             case r of
               MoveFail s3 \<Rightarrow> Some (NAND_OP_FALSE, FreeBlk, 0, s3)
             | MoveOk _ s3 \<Rightarrow> None
             | MoveRedo SubBlk s3 \<Rightarrow> do {
                 s4 \<leftarrow> PMM_SetCurMapPage (if SuperPage = 0 then 65535 else SuperPage - 1)
                         (of_nat DstPage) s3;
                 move_seq P C LogPhy SubBlk SuperPage (Suc DstPage) DstPage s4
               }
           }
           else do {
             s3 \<leftarrow> PMM_SetCurMapPage SuperPage (of_nat DstPage) s2;
             move_seq P C LogPhy FreeBlk (Suc SuperPage) (Suc DstPage) DstPage s3
           }
       }
     }
     else Some (NAND_OP_TRUE, FreeBlk, LastUsed, s))"
  by pat_completeness auto
termination
proof (relation "measures [\<lambda>(P, C, l, f, sp, dp, lu, s). size (free_blks C (BLK_MAP_CACHE s)),
                           \<lambda>(P, C, l, f, sp, dp, lu, s). PAGE_CNT_OF_LOGIC_BLK C - sp]", goal_cases)
  case 1
  show ?case by simp
next
  case (2 P C l f sp dp lu s)
  then show ?case by auto
next
  case (3 P C l f sp dp lu s)
  then show ?case
    by (auto simp: Let_def Option.bind_eq_Some_conv split: if_splits
        dest!: step_BLK SetCurMapPage_BLK bad_dst_shrinks copy_page0_frame [THEN same_tablesD(11)]
          ReadTemp_frame [THEN same_tablesD(11)] VirtualPageWrite_frame [THEN same_tablesD(11)])
next
  case (4 P C l f sp dp lu s)
  then show ?case
    by (auto simp: Let_def Option.bind_eq_Some_conv split: if_splits
        dest!: step_BLK SetCurMapPage_BLK copy_page0_frame [THEN same_tablesD(11)]
          ReadTemp_frame [THEN same_tablesD(11)] VirtualPageWrite_frame [THEN same_tablesD(11)])
qed

declare move_seq.simps [simp del]

definition free2log_move_merge ::
  "'d phy_ops \<Rightarrow> cfg \<Rightarrow> nat \<Rightarrow> 'd drv \<Rightarrow> (int \<times> 'd drv) option" where
  "free2log_move_merge P C nlogical s = do {
     (_, LogBlk) \<leftarrow> BMM_GetLogBlk nlogical s;
     (r0, FreeBlk, s0) \<leftarrow> BMM_GetFreeBlk C LOWEST_EC_TYPE s;
     if r0 \<noteq> NAND_OP_TRUE then Some (NAND_OP_FALSE, s0)
     else do {
       (r1, FreeBlk', LastUsed, s1) \<leftarrow>
         (if SUPPORT_ALIGN_NAND_BNK C then move_redo P C (PhyBlk LogBlk) FreeBlk s0
          else move_seq P C (PhyBlk LogBlk) FreeBlk 0 0 0 s0);
       if r1 \<noteq> NAND_OP_TRUE then Some (NAND_OP_FALSE, s1)
       else do {
         (r2, s2) \<leftarrow> recycle_blk P C (PhyBlk LogBlk) s1;
         if r2 \<noteq> NAND_OP_TRUE then Some (NAND_OP_FALSE, s2)
         else do {
           (_, s3) \<leftarrow> BMM_SetLogBlk nlogical
             (LogBlk\<lparr>PhyBlk := FreeBlk', LastUsedPage := of_nat LastUsed\<rparr>) s2;
           Some (NAND_OP_TRUE, s3)
         }
       }
     }
   }"

section \<open>A free block becomes the data block\<close>

function simple_copy ::
  "'d phy_ops \<Rightarrow> cfg \<Rightarrow> super_phy_blk \<Rightarrow> super_phy_blk \<Rightarrow> super_phy_blk \<Rightarrow> nat \<Rightarrow> 'd drv
   \<Rightarrow> (int \<times> super_phy_blk \<times> 'd drv) option" where
  "simple_copy P C DataBlk LogPhy FreeBlk SuperPage s =
    (if SuperPage < PAGE_CNT_OF_LOGIC_BLK C
     then do {
       MapPage \<leftarrow> PMM_GetCurMapPage SuperPage s;
       let InData = (MapPage = 0xffff);
       let SrcBlk = unat (PhyBlkNum (if InData then DataBlk else LogPhy));
       let SrcPage = (if InData then SuperPage else unat MapPage);
       let SrcParam = phys_at C (ucast (junk16 C)) s SrcBlk SrcPage;
       let DstParam = phys_at C (ucast (junk16 C)) s (unat (PhyBlkNum FreeBlk)) SuperPage;
       (r1, s1) \<leftarrow>
         (if SuperPage = 0
          then copy_page0 P C SrcBlk SrcPage (unat (PhyBlkNum FreeBlk)) (if InData then 2 else 1) s
          else Some (PageCopyback P SrcParam DstParam s));
       if r1 \<noteq> NAND_OP_TRUE then Some (NAND_OP_FALSE, FreeBlk, s1)
       else case SynchBank P (unat (op_BankNum DstParam)) SYNC_BANK_MODE s1 of (r2, s2) \<Rightarrow>
         if r2 \<noteq> NAND_OP_TRUE
         then do {
           (r3, sub, s3) \<leftarrow> LML_BadBlkManage P C FreeBlk (unat (CUR_MAP_ZONE s2)) SuperPage True s2;
           if r3 \<noteq> NAND_OP_TRUE then Some (NAND_OP_FALSE, FreeBlk, s3)
           else do {
             SubBlk \<leftarrow> sub;
             simple_copy P C DataBlk LogPhy SubBlk SuperPage s3
           }
         }
         else simple_copy P C DataBlk LogPhy FreeBlk (Suc SuperPage) s2
     }
     else Some (NAND_OP_TRUE, FreeBlk, s))"
  by pat_completeness auto
termination
proof (relation "measures [\<lambda>(P, C, d, l, f, pg, s). size (free_blks C (BLK_MAP_CACHE s)),
                           \<lambda>(P, C, d, l, f, pg, s). PAGE_CNT_OF_LOGIC_BLK C - pg]", goal_cases)
  case 1
  show ?case by simp
next
  case 2
  then show ?case
    by (auto dest!: LML_BadBlkManage_shrinks step_BLK PageCopyback_frame [THEN same_tablesD(11)]
        copy_page0_frame [THEN same_tablesD(11)]
        split: if_splits)
next
  case 3
  then show ?case
    by (auto dest!: step_BLK PageCopyback_frame [THEN same_tablesD(11)] copy_page0_frame [THEN same_tablesD(11)] split: if_splits)
qed

declare simple_copy.simps [simp del]

definition free2data_simple_merge ::
  "'d phy_ops \<Rightarrow> cfg \<Rightarrow> nat \<Rightarrow> 'd drv \<Rightarrow> (int \<times> 'd drv) option" where
  "free2data_simple_merge P C nlogical s = do {
     (_, DataBlk) \<leftarrow> BMM_GetDataBlk C nlogical s;
     (r0, FreeBlk, s0) \<leftarrow> BMM_GetFreeBlk C LOWEST_EC_TYPE s;
     if r0 \<noteq> NAND_OP_TRUE then Some (NAND_OP_FALSE, s0)
     else do {
       (_, LogBlk) \<leftarrow> BMM_GetLogBlk nlogical s0;
       (r1, NewBlk, s1) \<leftarrow> simple_copy P C DataBlk (PhyBlk LogBlk) FreeBlk 0 s0;
       if r1 \<noteq> NAND_OP_TRUE then Some (NAND_OP_FALSE, s1)
       else do {
         (_, s2) \<leftarrow> BMM_SetDataBlk C nlogical NewBlk s1;
         (r3, s3) \<leftarrow> recycle_blk P C DataBlk s2;
         if r3 \<noteq> NAND_OP_TRUE then Some (NAND_OP_FALSE, s3)
         else do {
           (r4, s4) \<leftarrow> recycle_blk P C (PhyBlk LogBlk) s3;
           if r4 \<noteq> NAND_OP_TRUE then Some (NAND_OP_FALSE, s4)
           else do {
             (_, s5) \<leftarrow> BMM_SetLogBlk nlogical empty_log_blk s4;
             Some (NAND_OP_TRUE, PMM_ClearCurMapTbl s5)
           }
         }
       }
     }
   }"

section \<open>The choice of the merge\<close>

text \<open>The scan of \<open>_get_page_map_tbl_info\<close>: \<open>n\<close> pages to go from page \<open>i\<close>; \<open>nValidPage\<close> is the
  16-bit counter of the code.\<close>

fun page_map_info :: "nat \<Rightarrow> nat \<Rightarrow> bool \<Rightarrow> u16 \<Rightarrow> 'd drv \<Rightarrow> (bool \<times> u16) option" where
  "page_map_info 0 i InOrder nValidPage s = Some (InOrder, nValidPage)"
| "page_map_info (Suc n) i InOrder nValidPage s = do {
     PhysicPage \<leftarrow> PMM_GetCurMapPage i s;
     if PhysicPage \<noteq> 0xffff
     then page_map_info n (Suc i) (InOrder \<and> unat PhysicPage = i) (nValidPage + 1) s
     else page_map_info n (Suc i) InOrder nValidPage s
   }"

definition get_page_map_tbl_info :: "cfg \<Rightarrow> nat \<Rightarrow> 'd drv \<Rightarrow> (bool \<times> u16) option" where
  "get_page_map_tbl_info C nlogical s = do {
     (_, LogBlk) \<leftarrow> BMM_GetLogBlk nlogical s;
     (InOrder, nValidPage) \<leftarrow> page_map_info (PAGE_CNT_OF_SUPER_BLK C) 0 True 0 s;
     Some (InOrder \<and> \<not> unat nValidPage < unat (LastUsedPage LogBlk) + 1, nValidPage)
   }"

definition LML_MergeLogBlk ::
  "'d phy_ops \<Rightarrow> cfg \<Rightarrow> nat \<Rightarrow> nat \<Rightarrow> 'd drv \<Rightarrow> (int \<times> 'd drv) option" where
  "LML_MergeLogBlk P C nMode nlogical s = do {
     (InOrder, nValidPage) \<leftarrow> get_page_map_tbl_info C nlogical s;
     if InOrder then log2data_swap_merge P C nlogical s
     else if nMode = SPECIAL_MERGE_MODE
         \<and> unat nValidPage < PAGE_CNT_OF_SUPER_BLK C div (INTERLEAVE_BANK_CNT C + 1)
       then free2log_move_merge P C nlogical s
       else free2data_simple_merge P C nlogical s
   }"

section \<open>What the copy loops do to the tables\<close>

text \<open>\<open>replaced C b b' s s'\<close>: only blocks of the free pool left the tables, and the target block is the
  old one or one of those.\<close>

definition replaced :: "cfg \<Rightarrow> super_phy_blk \<Rightarrow> super_phy_blk \<Rightarrow> 'd drv \<Rightarrow> 'd drv \<Rightarrow> bool" where
  "replaced C b b' s s' \<longleftrightarrow> (\<exists>X. drained C X s s' \<and> (b' = b \<or> b' \<in># X \<and> PhyBlkNum b' \<noteq> 0xffff))"

lemma replaced_same_tables:
  "same_tables s s' \<Longrightarrow> cache_wf C (BLK_MAP_CACHE s) \<Longrightarrow> replaced C b b s s'"
  unfolding replaced_def using drained_same_tables by blast

lemma replaced_refl: "cache_wf C (BLK_MAP_CACHE s) \<Longrightarrow> replaced C b b s s"
  by (simp add: replaced_same_tables)

lemma replaced_trans [trans]:
  assumes "replaced C a b s s'" and "replaced C b c s' s''"
  shows "replaced C a c s s''"
proof -
  from assms(1) obtain X where X: "drained C X s s'" "b = a \<or> b \<in># X \<and> PhyBlkNum b \<noteq> 0xffff"
    by (auto simp: replaced_def)
  from assms(2) obtain Y where Y: "drained C Y s' s''" "c = b \<or> c \<in># Y \<and> PhyBlkNum c \<noteq> 0xffff"
    by (auto simp: replaced_def)
  from drained_trans [OF X(1) Y(1)] X(2) Y(2) show ?thesis
    unfolding replaced_def by (intro exI [of _ "X + Y"]) auto
qed

lemma replaced_same_tables_trans:
  "same_tables s s1 \<Longrightarrow> replaced C a b s1 s' \<Longrightarrow> cache_wf C (BLK_MAP_CACHE s) \<Longrightarrow> replaced C a b s s'"
  using replaced_trans replaced_same_tables by blast

lemma replaced_wf: "replaced C b b' s s' \<Longrightarrow> cache_wf C (BLK_MAP_CACHE s')"
  by (auto simp: replaced_def drained_wf)

lemma replaced_set_PAGE: "replaced C a b s s' \<Longrightarrow> replaced C a b s (set_PAGE_MAP_CACHE pc s')"
  by (auto simp: replaced_def intro: drained_set_PAGE)

lemma replaced_step:
  "same_tables s s2 \<Longrightarrow> cache_wf C (BLK_MAP_CACHE s) \<Longrightarrow> replaced C a b s2 s3 \<Longrightarrow>
   (cache_wf C (BLK_MAP_CACHE s3) \<Longrightarrow> replaced C b c s3 s') \<Longrightarrow> replaced C a c s s'"
  by (meson replaced_same_tables_trans replaced_trans replaced_wf)

lemma BadBlkManage_replaced:
  assumes "LML_BadBlkManage P C b z n True s = Some (r, nb, s')" and "cache_wf C (BLK_MAP_CACHE s)"
  shows "r = -1 \<and> nb = None \<and> replaced C c c s s'
    \<or> r = 0 \<and> (\<exists>b'. nb = Some b' \<and> replaced C c b' s s')"
  using LML_BadBlkManage_post [OF assms] unfolding replaced_def
  by (metis union_single_eq_member)

lemma swap_copy_post:
  "swap_copy P C d l pg s = Some (r, l', s') \<Longrightarrow> cache_wf C (BLK_MAP_CACHE s) \<Longrightarrow>
   replaced C l l' s s'"
proof (induction P C d l pg s rule: swap_copy.induct)
  case (1 P C d l pg s)
  let ?sp = "phys_at C (ucast (junk16 C)) s d pg"
  let ?dp = "phys_at C (ucast (junk16 C)) s (unat (PhyBlkNum l)) pg"
  note wf = "1.prems"(2)
  show ?case
  proof (cases "pg < PAGE_CNT_OF_SUPER_BLK C")
    case False
    with "1.prems" show ?thesis
      by (subst (asm) swap_copy.simps) (auto intro: replaced_refl)
  next
    case pg: True
    obtain r1 s1 where c: "PageCopyback P ?sp ?dp s = (r1, s1)" by fastforce
    obtain r2 s2 where y: "SynchBank P (unat (op_BankNum ?dp)) SYNC_BANK_MODE s1 = (r2, s2)"
      by fastforce
    note fr = same_tables_trans [OF PageCopyback_frame [OF c] SynchBank_frame [OF y]]
    note wf2 = replaced_wf [OF replaced_same_tables [OF fr wf, of l]]
    show ?thesis
    proof (cases "r1 = 0 \<and> r2 \<noteq> 0")
      case True
      from "1.prems" pg c y True obtain r3 sub s3 where
        m: "LML_BadBlkManage P C l (unat (CUR_MAP_ZONE s2)) pg True s2 = Some (r3, sub, s3)"
        and rest: "(if r3 \<noteq> NAND_OP_TRUE then Some (NAND_OP_FALSE, l, s3)
            else do { SubBlk \<leftarrow> sub; swap_copy P C d SubBlk pg s3 }) = Some (r, l', s')"
        by (subst (asm) swap_copy.simps) (auto simp: Let_def Option.bind_eq_Some_conv)
      show ?thesis
        using BadBlkManage_replaced [OF m wf2, of l] rest
          "1.IH"(1) [OF pg refl refl c [symmetric] _ y [symmetric] _ m refl refl, of "the sub"] True
        by (auto intro: replaced_same_tables_trans [OF fr _ wf] replaced_step [OF fr wf])
    next
      case False
      with "1.prems" pg c y have "r1 \<noteq> 0 \<and> (l' = l \<and> s' = s1)
          \<or> r1 = 0 \<and> r2 = 0 \<and> swap_copy P C d l (Suc pg) s2 = Some (r, l', s')"
        by (subst (asm) swap_copy.simps) (auto simp: Let_def split: if_splits)
      then show ?thesis
        using "1.IH"(2) [OF pg refl refl c [symmetric] _ y [symmetric]] wf wf2
          replaced_same_tables_trans [OF fr _ wf]
        by (auto intro: replaced_same_tables PageCopyback_frame [OF c])
    qed
  qed
qed

lemma simple_copy_post:
  "simple_copy P C d l f pg s = Some (r, f', s') \<Longrightarrow> cache_wf C (BLK_MAP_CACHE s) \<Longrightarrow>
   replaced C f f' s s'"
proof (induction P C d l f pg s rule: simple_copy.induct)
  case (1 P C d l f pg s)
  note wf = "1.prems"(2)
  show ?case
  proof (cases "pg < PAGE_CNT_OF_LOGIC_BLK C")
    case False
    with "1.prems" show ?thesis
      by (subst (asm) simple_copy.simps) (auto intro: replaced_refl)
  next
    case pg: True
    with "1.prems" obtain m where m: "PMM_GetCurMapPage pg s = Some m"
      by (subst (asm) simple_copy.simps) (auto simp: Option.bind_eq_Some_conv)
    let ?sb = "unat (PhyBlkNum (if m = 0xffff then d else l))"
    let ?pg = "if m = 0xffff then pg else unat m"
    let ?dp = "phys_at C (ucast (junk16 C)) s (unat (PhyBlkNum f)) pg"
    from "1.prems" pg m obtain r1 s1 where
      c: "(if pg = 0 then copy_page0 P C ?sb ?pg (unat (PhyBlkNum f)) (if m = 0xffff then 2 else 1) s
           else Some (PageCopyback P (phys_at C (ucast (junk16 C)) s ?sb ?pg) ?dp s)) = Some (r1, s1)"
      by (subst (asm) simple_copy.simps) (auto simp: Let_def Option.bind_eq_Some_conv)
    obtain r2 s2 where y: "SynchBank P (unat (op_BankNum ?dp)) SYNC_BANK_MODE s1 = (r2, s2)"
      by fastforce
    have fr1: "same_tables s s1"
      using c by (auto split: if_splits dest: copy_page0_frame PageCopyback_frame)
    note fr = same_tables_trans [OF fr1 SynchBank_frame [OF y]]
    note wf2 = replaced_wf [OF replaced_same_tables [OF fr wf, of f]]
    note IH = "1.IH" [OF pg m refl refl refl refl refl c refl _ y [symmetric]]
    show ?thesis
    proof (cases "r1 = 0 \<and> r2 \<noteq> 0")
      case True
      from "1.prems" pg c m y True obtain r3 sub s3 where
        bm: "LML_BadBlkManage P C f (unat (CUR_MAP_ZONE s2)) pg True s2 = Some (r3, sub, s3)"
        and rest: "(if r3 \<noteq> NAND_OP_TRUE then Some (NAND_OP_FALSE, f, s3)
            else do { SubBlk \<leftarrow> sub; simple_copy P C d l SubBlk pg s3 }) = Some (r, f', s')"
        by (subst (asm) simple_copy.simps)
          (auto simp: Let_def Option.bind_eq_Some_conv simp del: One_nat_def)
      show ?thesis
        using BadBlkManage_replaced [OF bm wf2, of f] rest IH(1) [OF _ _ bm refl refl, of "the sub"] True
        by (auto intro: replaced_same_tables_trans [OF fr _ wf] replaced_step [OF fr wf])
    next
      case False
      with "1.prems" pg c m y have "r1 \<noteq> 0 \<and> (f' = f \<and> s' = s1)
          \<or> r1 = 0 \<and> r2 = 0 \<and> simple_copy P C d l f (Suc pg) s2 = Some (r, f', s')"
        by (subst (asm) simple_copy.simps) (auto simp: Let_def Option.bind_eq_Some_conv split: if_splits)
      then show ?thesis
        using IH(2) wf wf2 replaced_same_tables_trans [OF fr _ wf] replaced_same_tables [OF fr1 wf]
        by auto
    qed
  qed
qed

text \<open>The outcomes of one round of the move merge.\<close>

definition move_ok :: "cfg \<Rightarrow> super_phy_blk \<Rightarrow> 'd drv \<Rightarrow> 'd move_result \<Rightarrow> bool" where
  "move_ok C f s r = (case r of
       MoveFail s' \<Rightarrow> replaced C f f s s'
     | MoveRedo b s' \<Rightarrow> replaced C f b s s'
     | MoveOk _ s' \<Rightarrow> replaced C f f s s')"

lemma move_ok_simps [simp]:
  "move_ok C f s (MoveFail s') = replaced C f f s s'"
  "move_ok C f s (MoveRedo b s') = replaced C f b s s'"
  "move_ok C f s (MoveOk d s') = replaced C f f s s'"
  by (simp_all add: move_ok_def)

lemma move_ok_start:
  "replaced C f f s s1 \<Longrightarrow> move_ok C f s1 r \<Longrightarrow> move_ok C f s r"
  by (cases r) (auto intro: replaced_trans)

lemma bad_dst_ok:
  assumes "bad_dst P C f n s = Some r" and "cache_wf C (BLK_MAP_CACHE s)"
  shows "move_ok C f s r"
proof -
  from assms(1) obtain a sub s1 where
    m: "LML_BadBlkManage P C f (unat (CUR_MAP_ZONE s)) n True s = Some (a, sub, s1)"
    and rest: "(if a \<noteq> NAND_OP_TRUE then Some (MoveFail s1)
                else do { SubBlk \<leftarrow> sub; Some (MoveRedo SubBlk s1) }) = Some r"
    by (auto simp: bad_dst_def Option.bind_eq_Some_conv)
  show ?thesis using BadBlkManage_replaced [OF m assms(2), of f] rest by auto
qed

lemma SetCurMapPage_replaced:
  "PMM_SetCurMapPage n p s = Some s' \<Longrightarrow> cache_wf C (BLK_MAP_CACHE s) \<Longrightarrow> replaced C b b s s'"
  by (auto simp: PMM_SetCurMapPage_def Option.bind_eq_Some_conv
      intro!: replaced_set_PAGE replaced_same_tables)

lemma SynchBank_replaced:
  "SynchBank P b m s = (r, s') \<Longrightarrow> cache_wf C (BLK_MAP_CACHE s) \<Longrightarrow> replaced C f f s s'"
  by (blast intro: replaced_same_tables SynchBank_frame)

text \<open>The tail of every copy: wait for the bank, replace the block when the program operation failed.\<close>

lemma synch_tail_ok:
  assumes "(case SynchBank P b m s of (r2, s2) \<Rightarrow>
              if r2 \<noteq> NAND_OP_TRUE then bad_dst P C f n s2 else g s2) = Some r"
    and wf: "cache_wf C (BLK_MAP_CACHE s)"
    and "\<And>s2. replaced C f f s s2 \<Longrightarrow> g s2 = Some r \<Longrightarrow> move_ok C f s r"
  shows "move_ok C f s r"
proof -
  obtain r2 s2 where y: "SynchBank P b m s = (r2, s2)" by fastforce
  note r2 = SynchBank_replaced [OF y wf, of f]
  from assms(1) y show ?thesis
    using assms(3) [OF r2] move_ok_start [OF r2 bad_dst_ok [OF _ replaced_wf [OF r2]]]
    by (auto split: if_splits)
qed

lemma move_page_aligned_ok:
  assumes "move_page_aligned P C l f sp dp s = Some r" and wf: "cache_wf C (BLK_MAP_CACHE s)"
  shows "move_ok C f s r"
proof -
  from assms obtain src where src: "PMM_GetCurMapPage sp s = Some src"
    by (auto simp: move_page_aligned_def Option.bind_eq_Some_conv)
  show ?thesis
  proof (cases "src = 0xffff")
    case True
    with assms src show ?thesis by (auto simp: move_page_aligned_def intro: replaced_refl)
  next
    case False
    let ?sp = "phys_at C (FULL_BITMAP_OF_SUPER_PAGE C) s (unat (PhyBlkNum l)) (unat src)"
    let ?dp = "phys_at C (FULL_BITMAP_OF_SUPER_PAGE C) s (unat (PhyBlkNum f)) dp"
    from assms src False obtain r1 s1 where
      copy: "(if dp = 0 then copy_page0 P C (unat (PhyBlkNum l)) (unat src) (unat (PhyBlkNum f)) 0 s
              else Some (PageCopyback P ?sp ?dp s)) = Some (r1, s1)"
      and rest: "(if r1 \<noteq> 0 then Some (MoveFail s1)
        else case SynchBank P (unat (op_BankNum ?dp)) SYNC_BANK_MODE s1 of (r2, s2) \<Rightarrow>
         if r2 \<noteq> NAND_OP_TRUE then bad_dst P C f 0 s2
         else do {
           s3 \<leftarrow> PMM_SetCurMapPage sp (of_nat dp) s2;
           Some (MoveOk (dp + INTERLEAVE_BANK_CNT C) s3)
         }) = Some r"
      by (auto simp: move_page_aligned_def Let_def Option.bind_eq_Some_conv)
    have r1: "replaced C f f s s1"
      using copy by (auto split: if_splits intro: replaced_same_tables [OF _ wf]
          dest: copy_page0_frame PageCopyback_frame)
    show ?thesis
    proof (cases "r1 = 0")
      case True
      with rest have tl: "(case SynchBank P (unat (op_BankNum ?dp)) SYNC_BANK_MODE s1 of (r2, s2) \<Rightarrow>
         if r2 \<noteq> NAND_OP_TRUE then bad_dst P C f 0 s2
         else do {
           s3 \<leftarrow> PMM_SetCurMapPage sp (of_nat dp) s2;
           Some (MoveOk (dp + INTERLEAVE_BANK_CNT C) s3)
         }) = Some r" by simp
      show ?thesis
      proof (rule move_ok_start [OF r1 synch_tail_ok [OF tl replaced_wf [OF r1]]])
        fix s2 assume s2: "replaced C f f s1 s2"
          and "do { s3 \<leftarrow> PMM_SetCurMapPage sp (of_nat dp) s2;
                    Some (MoveOk (dp + INTERLEAVE_BANK_CNT C) s3) } = Some r"
        then obtain s3 where "PMM_SetCurMapPage sp (of_nat dp) s2 = Some s3"
          and r: "r = MoveOk (dp + INTERLEAVE_BANK_CNT C) s3"
          by (auto simp: Option.bind_eq_Some_conv)
        from SetCurMapPage_replaced [OF this(1) replaced_wf [OF s2], of f] r
        show "move_ok C f s1 r" by (auto intro: replaced_trans [OF s2])
      qed
    qed (use rest r1 in auto)
  qed
qed

lemma move_bank_ok:
  "move_bank P C l f sp dp s = Some r \<Longrightarrow> cache_wf C (BLK_MAP_CACHE s) \<Longrightarrow> move_ok C f s r"
proof (induction P C l f sp dp s rule: move_bank.induct)
  case (1 P C l f sp dp s)
  show ?case
  proof (cases "sp < PAGE_CNT_OF_SUPER_BLK C \<and> 0 < INTERLEAVE_BANK_CNT C")
    case False
    with "1.prems" show ?thesis
      by (auto simp: move_bank.simps [of P C l f sp] intro: replaced_refl)
  next
    case True
    with "1.prems" obtain q where q: "move_page_aligned P C l f sp dp s = Some q"
      and rest: "(case q of
         MoveOk DstPage' s' \<Rightarrow> move_bank P C l f (sp + INTERLEAVE_BANK_CNT C) DstPage' s'
       | MoveFail s' \<Rightarrow> Some (MoveFail s') | MoveRedo b s' \<Rightarrow> Some (MoveRedo b s')) = Some r"
      by (subst (asm) move_bank.simps) (auto simp: Option.bind_eq_Some_conv)
    note ok = move_page_aligned_ok [OF q "1.prems"(2)]
    show ?thesis
    proof (cases q)
      case (MoveOk d s1)
      with ok have s1: "replaced C f f s s1" by simp
      from rest MoveOk have "move_bank P C l f (sp + INTERLEAVE_BANK_CNT C) d s1 = Some r" by simp
      from "1.IH" [OF True q MoveOk this replaced_wf [OF s1]] s1 show ?thesis
        by (blast intro: move_ok_start)
    qed (use rest ok in auto)
  qed
qed

lemma move_banks_ok:
  "move_banks P C l f n bank lu s = Some r \<Longrightarrow> cache_wf C (BLK_MAP_CACHE s) \<Longrightarrow> move_ok C f s r"
proof (induction n arbitrary: bank lu s)
  case 0
  then show ?case by (auto intro: replaced_refl)
next
  case (Suc n)
  from Suc.prems obtain q where q: "move_bank P C l f bank bank s = Some q"
    by (auto simp: Option.bind_eq_Some_conv)
  note ok = move_bank_ok [OF q Suc.prems(2)]
  show ?case
  proof (cases q)
    case (MoveOk d s1)
    with ok have s1: "replaced C f f s s1" by simp
    let ?dp = "\<lambda>s2. phys_at C (FULL_BITMAP_OF_SUPER_PAGE C) s2 (unat (PhyBlkNum f)) 0"
    from MoveOk Suc.prems q obtain q' where
      q': "(if bank = 0 \<and> d = 0
            then do {
              (r1, s2) \<leftarrow> copy_page0 P C (unat (PhyBlkNum l)) 0 (unat (PhyBlkNum f)) 0 s1;
              if r1 = NAND_OP_FALSE then Some (MoveFail s2)
              else
                let DstParam = ?dp s2 in
                case SynchBank P (unat (op_BankNum DstParam)) SYNC_BANK_MODE s2 of (r2, s3) \<Rightarrow>
                if r2 \<noteq> NAND_OP_TRUE then bad_dst P C f 0 s3 else Some (MoveOk d s3)
            }
            else Some (MoveOk d s1)) = Some q'"
      and rest: "(case q' of MoveFail s4 \<Rightarrow> Some (MoveFail s4) | MoveRedo b s4 \<Rightarrow> Some (MoveRedo b s4)
         | MoveOk DstPage' s4 \<Rightarrow> move_banks P C l f n (Suc bank)
               (if int DstPage' - int (INTERLEAVE_BANK_CNT C) > int lu
                then DstPage' - INTERLEAVE_BANK_CNT C else lu) s4) = Some r"
      by (auto simp: Option.bind_eq_Some_conv)
    have q'_ok: "move_ok C f s1 q'"
    proof (cases "bank = 0 \<and> d = 0")
      case False
      with q' replaced_wf [OF s1] show ?thesis by (auto intro: replaced_refl)
    next
      case True
      with q' obtain r1 s2 where c: "copy_page0 P C (unat (PhyBlkNum l)) 0 (unat (PhyBlkNum f)) 0 s1 = Some (r1, s2)"
        and tl: "(if r1 = NAND_OP_FALSE then Some (MoveFail s2)
              else case SynchBank P (unat (op_BankNum (?dp s2))) SYNC_BANK_MODE s2 of (r2, s3) \<Rightarrow>
                if r2 \<noteq> NAND_OP_TRUE then bad_dst P C f 0 s3 else Some (MoveOk d s3)) = Some q'"
        unfolding Let_def by (auto simp: Option.bind_eq_Some_conv)
      have r2: "replaced C f f s1 s2"
        using copy_page0_frame [OF c] replaced_wf [OF s1] by (rule replaced_same_tables)
      show ?thesis
      proof (cases "r1 = NAND_OP_FALSE")
        case False
        with tl have tl': "(case SynchBank P (unat (op_BankNum (?dp s2))) SYNC_BANK_MODE s2 of (r2, s3) \<Rightarrow>
                if r2 \<noteq> NAND_OP_TRUE then bad_dst P C f 0 s3 else Some (MoveOk d s3)) = Some q'" by simp
        show ?thesis
          by (rule move_ok_start [OF r2 synch_tail_ok [OF tl' replaced_wf [OF r2]]]) auto
      qed (use tl r2 in auto)
    qed
    note q'_all = move_ok_start [OF s1 q'_ok]
    show ?thesis
    proof (cases q')
      case (MoveOk d' s4)
      with q'_all have s4: "replaced C f f s s4" by simp
      from rest MoveOk Suc.IH [OF _ replaced_wf [OF s4]] show ?thesis
        by (auto intro: move_ok_start [OF s4])
    qed (use rest q'_all in auto)
  qed (use Suc.prems q ok in auto)
qed

lemma move_redo_post:
  "move_redo P C l f s = Some (r, f', lu, s') \<Longrightarrow> cache_wf C (BLK_MAP_CACHE s) \<Longrightarrow> replaced C f f' s s'"
proof (induction P C l f s rule: move_redo.induct)
  case (1 P C l f s)
  then obtain q where q: "move_banks P C l f (INTERLEAVE_BANK_CNT C) 0 0 s = Some q"
    and rest: "(case q of MoveFail s' \<Rightarrow> Some (NAND_OP_FALSE, f, 0, s')
      | MoveOk LastUsed s' \<Rightarrow> Some (NAND_OP_TRUE, f, LastUsed, s')
      | MoveRedo SubBlk s' \<Rightarrow> move_redo P C l SubBlk s') = Some (r, f', lu, s')"
    by (subst (asm) move_redo.simps) (auto simp: Option.bind_eq_Some_conv)
  note ok = move_banks_ok [OF q "1.prems"(2)]
  show ?case
  proof (cases q)
    case (MoveRedo b s1)
    with ok have s1: "replaced C f b s s1" by simp
    with rest MoveRedo "1.IH" [OF q MoveRedo _ replaced_wf [OF s1]] show ?thesis
      by (auto intro: replaced_trans)
  qed (use rest ok in auto)
qed

lemma move_seq_post:
  "move_seq P C l f sp dp lu s = Some (r, f', lu', s') \<Longrightarrow> cache_wf C (BLK_MAP_CACHE s) \<Longrightarrow>
   replaced C f f' s s'"
proof (induction P C l f sp dp lu s rule: move_seq.induct)
  case (1 P C l f sp dp lu s)
  note wf = "1.prems"(2)
  show ?case
  proof (cases "sp < PAGE_CNT_OF_LOGIC_BLK C")
    case False
    with "1.prems" show ?thesis
      by (subst (asm) move_seq.simps) (auto intro: replaced_refl)
  next
    case sp: True
    with "1.prems" obtain src where src: "PMM_GetCurMapPage sp s = Some src"
      by (subst (asm) move_seq.simps) (auto simp: Option.bind_eq_Some_conv)
    show ?thesis
    proof (cases "src = 0xffff")
      case True
      with "1.prems" sp src have "move_seq P C l f (Suc sp) dp lu s = Some (r, f', lu', s')"
        by (subst (asm) move_seq.simps) simp
      from "1.IH"(1) [OF sp src True this wf] show ?thesis .
    next
      case ne: False
      let ?sp = "phys_at C (FULL_BITMAP_OF_SUPER_PAGE C) s (unat (PhyBlkNum l)) (unat src)"
      let ?dp = "phys_at C (FULL_BITMAP_OF_SUPER_PAGE C) s (unat (PhyBlkNum f)) dp"
      let ?copy = "if dp = 0
            then copy_page0 P C (unat (PhyBlkNum l)) (unat src) (unat (PhyBlkNum f)) 0 s
            else do {
              (ra, sp, sa) \<leftarrow> ReadTemp P C ?sp (enc_ud2 (blank_ud, blank_ud)) s;
              if ra < 0 then Some (NAND_OP_FALSE, sa)
              else do {
                (rb, sb) \<leftarrow> LML_VirtualPageWrite P C ?dp (dr_temp_buf sa) (Some sp) sa;
                if rb \<noteq> NAND_OP_TRUE then Some (NAND_OP_FALSE, sb) else Some (NAND_OP_TRUE, sb)
              }
            }"
      from "1.prems"(1) sp src ne obtain r1 s1 where c: "?copy = Some (r1, s1)"
        by (subst (asm) move_seq.simps) (auto simp: Let_def Option.bind_eq_Some_conv)
      have fr1: "same_tables s s1"
        using c by (auto simp: Option.bind_eq_Some_conv split: if_splits intro: same_tables_trans
          dest!: copy_page0_frame ReadTemp_frame VirtualPageWrite_frame)
      obtain r2 s2 where y: "SynchBank P (unat (op_BankNum ?dp)) SYNC_BANK_MODE s1 = (r2, s2)"
        by fastforce
      note fr = same_tables_trans [OF fr1 SynchBank_frame [OF y]]
      note s2 = replaced_same_tables [OF fr wf, of f]
      let ?bad = "do {
             r \<leftarrow> bad_dst P C f lu s2;
             case r of
               MoveFail s3 \<Rightarrow> Some (NAND_OP_FALSE, f, 0, s3)
             | MoveOk _ s3 \<Rightarrow> None
             | MoveRedo SubBlk s3 \<Rightarrow> do {
                 s4 \<leftarrow> PMM_SetCurMapPage (if sp = 0 then 65535 else sp - 1) (of_nat dp) s3;
                 move_seq P C l SubBlk sp (Suc dp) dp s4
               }
           }"
      from "1.prems"(1) sp src ne c y have
        rest: "(if r1 \<noteq> NAND_OP_TRUE then Some (NAND_OP_FALSE, f, 0, s1)
          else if r2 \<noteq> NAND_OP_TRUE then ?bad
          else do {
             s3 \<leftarrow> PMM_SetCurMapPage sp (of_nat dp) s2;
             move_seq P C l f (Suc sp) (Suc dp) dp s3
           }) = Some (r, f', lu', s')"
        by (subst (asm) move_seq.simps) (cases "r1 = 0"; simp add: Let_def)
      show ?thesis
      proof (cases "r1 = 0")
        case r1: True
        show ?thesis
        proof (cases "r2 = 0")
          case True
          with rest r1 obtain s3 where s3: "PMM_SetCurMapPage sp (of_nat dp) s2 = Some s3"
            and rec: "move_seq P C l f (Suc sp) (Suc dp) dp s3 = Some (r, f', lu', s')"
            by (auto simp: Option.bind_eq_Some_conv)
          note s3r = replaced_trans [OF s2 SetCurMapPage_replaced [OF s3 replaced_wf [OF s2]]]
          have "replaced C f f' s3 s'"
            using "1.IH"(3) [OF sp src ne refl refl refl c refl _ y [symmetric] _ s3 rec
                replaced_wf [OF s3r]] r1 True by simp
          with s3r show ?thesis by (rule replaced_trans)
        next
          case False
          with rest r1 obtain q where q: "bad_dst P C f lu s2 = Some q"
            and rq: "(case q of
               MoveFail s3 \<Rightarrow> Some (NAND_OP_FALSE, f, 0, s3)
             | MoveOk _ s3 \<Rightarrow> None
             | MoveRedo SubBlk s3 \<Rightarrow> do {
                 s4 \<leftarrow> PMM_SetCurMapPage (if sp = 0 then 65535 else sp - 1) (of_nat dp) s3;
                 move_seq P C l SubBlk sp (Suc dp) dp s4
               }) = Some (r, f', lu', s')"
            by (auto simp: Option.bind_eq_Some_conv)
          note qok = move_ok_start [OF s2 bad_dst_ok [OF q replaced_wf [OF s2]]]
          show ?thesis
          proof (cases q)
            case (MoveRedo b s3)
            with qok have s3: "replaced C f b s s3" by simp
            from rq MoveRedo obtain s4 where
              s4: "PMM_SetCurMapPage (if sp = 0 then 65535 else sp - 1) (of_nat dp) s3 = Some s4"
              and rec: "move_seq P C l b sp (Suc dp) dp s4 = Some (r, f', lu', s')"
              by (auto simp: Option.bind_eq_Some_conv)
            note s4r = replaced_trans [OF s3 SetCurMapPage_replaced [OF s4 replaced_wf [OF s3]]]
            have "replaced C b f' s4 s'"
              using "1.IH"(2) [OF sp src ne refl refl refl c refl _ y [symmetric] _ q MoveRedo s4 rec
                  replaced_wf [OF s4r]] r1 False by simp
            with s4r show ?thesis by (rule replaced_trans)
          qed (use rq qok in auto)
        qed
      qed (use rest replaced_same_tables [OF fr1 wf] in auto)
    qed
  qed
qed

section \<open>Merges keep every block accounted for\<close>

lemma recycle_blk_post:
  assumes run: "recycle_blk P C blk s = Some (r, s')" and wf: "cache_wf C (BLK_MAP_CACHE s)"
  shows "r = 0 \<and> cache_wf C (BLK_MAP_CACHE s') \<and> PAGE_MAP_CACHE s' = PAGE_MAP_CACHE s
    \<and> LOG_BLK_TBL s' = LOG_BLK_TBL s \<and> CUR_MAP_ZONE s' = CUR_MAP_ZONE s
    \<and> (\<forall>i < DATA_BLK_CNT_OF_ZONE C. bc_Tbl (BLK_MAP_CACHE s') ! i = bc_Tbl (BLK_MAP_CACHE s) ! i)
    \<and> (zone_blocks (BLK_MAP_CACHE s') = zone_blocks (BLK_MAP_CACHE s) + one_valid (PhyBlkNum blk)
       \<or> size (free_blks C (BLK_MAP_CACHE s)) = FREE_BLK_CNT_OF_ZONE C
         \<and> BLK_MAP_CACHE s' = BLK_MAP_CACHE s)"
proof -
  let ?z = "unat (CUR_MAP_ZONE s)"
  obtain r1 s1 where e: "LML_VirtualBlkErase P C ?z (unat (PhyBlkNum blk)) s = (r1, s1)" by fastforce
  note fr1 = VirtualBlkErase_frame [OF e]
  from run e obtain r2 n2 s2 where
    m: "(if r1 \<noteq> NAND_OP_TRUE then LML_BadBlkManage P C blk (unat (CUR_MAP_ZONE s1)) 0 False s1
         else Some (NAND_OP_TRUE, None, s1)) = Some (r2, n2, s2)"
    by (auto simp: recycle_blk_def Let_def Option.bind_eq_Some_conv)
  have wf1: "cache_wf C (BLK_MAP_CACHE s1)" using wf fr1 by (simp add: same_tablesD)
  have r2: "r2 = 0" and fr2: "same_tables s1 s2"
    using m LML_BadBlkManage_post [of P C blk "unat (CUR_MAP_ZONE s1)" 0 False s1 r2 n2 s2, OF _ wf1]
    by (auto split: if_splits)
  note fr = same_tables_trans [OF fr1 fr2]
  from run e m r2 obtain t b where put: "BMM_SetFreeBlk C b s2 = Some (t, s')"
    and b: "PhyBlkNum b = PhyBlkNum blk" and r: "r = 0"
    by (auto simp: recycle_blk_def Let_def Option.bind_eq_Some_conv split: if_splits)
  have wf2: "cache_wf C (BLK_MAP_CACHE s2)" using wf fr by (simp add: same_tablesD)
  from BMM_SetFreeBlk_cases [OF wf2, of b] put show ?thesis
    using fr wf2 b r
    by (auto simp: same_tablesD free_added_def) (metis set_BLK_MAP_CACHE_frame(15) same_tablesD(12))+
qed

text \<open>\<open>only_active s s'\<close>: of the pool of block tables only the active one differs.\<close>

definition only_active :: "'d drv \<Rightarrow> 'd drv \<Rightarrow> bool" where
  "only_active s s' \<longleftrightarrow> dr_blk_act s' = dr_blk_act s
     \<and> (\<forall>i. i \<noteq> dr_blk_act s \<longrightarrow> dr_blk_pool s' i = dr_blk_pool s i)"

lemma only_active_refl [simp]: "only_active s s"
  by (simp add: only_active_def)

lemma only_active_trans: "only_active s s' \<Longrightarrow> only_active s' s'' \<Longrightarrow> only_active s s''"
  by (simp add: only_active_def)

lemma only_active_set [simp]:
  "only_active s (set_BLK_MAP_CACHE bc s') = only_active s s'"
  "only_active s (set_PAGE_MAP_CACHE pc s') = only_active s s'"
  by (auto simp: only_active_def set_BLK_MAP_CACHE_def set_PAGE_MAP_CACHE_def)

lemma only_active_same_tables: "same_tables s s' \<Longrightarrow> only_active s s'"
  by (simp add: only_active_def same_tablesD)

lemma only_active_drained: "drained C X s s' \<Longrightarrow> only_active s s'"
  unfolding drained_def
  by (metis only_active_refl only_active_same_tables only_active_set only_active_trans)

lemma only_active_replaced: "replaced C b b' s s' \<Longrightarrow> only_active s s'"
  by (auto simp: replaced_def intro: only_active_drained)

lemma only_active_tables:
  "BMM_SetDataBlk C n b s = Some (r, s') \<Longrightarrow> only_active s s'"
  "BMM_SetLogBlk n l s = Some (r, s') \<Longrightarrow> only_active s s'"
  "BMM_SetFreeBlk C b s = Some (r, s') \<Longrightarrow> only_active s s'"
  "BMM_GetFreeBlk C ty s = Some (r, b, s') \<Longrightarrow> only_active s s'"
  by (auto simp: BMM_SetDataBlk_def BMM_SetLogBlk_def BMM_SetFreeBlk_def BMM_GetFreeBlk_def Let_def
      Option.bind_eq_Some_conv split: if_splits option.splits)

lemma only_active_ClearCurMapTbl [simp]: "only_active s (PMM_ClearCurMapTbl s') = only_active s s'"
  by (simp add: PMM_ClearCurMapTbl_def)

lemma only_active_recycle:
  assumes "recycle_blk P C blk s = Some (r, s')"
  shows "only_active s s'"
  using assms unfolding recycle_blk_def
  by (auto simp: LML_BadBlkManage_def Let_def Option.bind_eq_Some_conv case_prod_beta split: if_splits
      dest!: MarkBadBlk_frame [THEN only_active_same_tables] only_active_tables(3)
      intro: only_active_trans only_active_same_tables [OF same_tables_snd(3)])

text \<open>\<open>conserves C s s'\<close>: the tables stay well-formed, only the active one changes, and no block number
  occurs more often in the zone than before. So distinct blocks stay distinct.\<close>

definition conserves :: "cfg \<Rightarrow> 'd drv \<Rightarrow> 'd drv \<Rightarrow> bool" where
  "conserves C s s' \<longleftrightarrow> cache_wf C (BLK_MAP_CACHE s')
     \<and> CUR_MAP_ZONE s' = CUR_MAP_ZONE s \<and> only_active s s'
     \<and> zone_blocks (BLK_MAP_CACHE s') \<subseteq># zone_blocks (BLK_MAP_CACHE s)"

lemma conserves_trans [trans]: "conserves C s s' \<Longrightarrow> conserves C s' s'' \<Longrightarrow> conserves C s s''"
  by (auto simp: conserves_def intro: subset_mset.order_trans only_active_trans)

lemma conserves_refl: "cache_wf C (BLK_MAP_CACHE s) \<Longrightarrow> conserves C s s"
  by (simp add: conserves_def)

lemma replaced_conserves: "replaced C b b' s s' \<Longrightarrow> conserves C s s'"
  by (auto simp: conserves_def only_active_replaced) (auto simp: replaced_def drained_def)

lemma same_tables_conserves:
  "same_tables s s' \<Longrightarrow> cache_wf C (BLK_MAP_CACHE s) \<Longrightarrow> conserves C s s'"
  by (simp add: conserves_def same_tablesD only_active_same_tables)

lemma ClearCurMapTbl_BLK [simp]: "BLK_MAP_CACHE (PMM_ClearCurMapTbl s) = BLK_MAP_CACHE s"
  by (simp add: PMM_ClearCurMapTbl_def)

text \<open>The accounting, block number by block number.\<close>

lemma replaced_count:
  assumes "replaced C b b' s s'"
  obtains "count (zone_blocks (BLK_MAP_CACHE s')) x \<le> count (zone_blocks (BLK_MAP_CACHE s)) x"
      and "b' = b"
    | "count (zone_blocks (BLK_MAP_CACHE s')) x + count (one_valid (PhyBlkNum b')) x
        \<le> count (zone_blocks (BLK_MAP_CACHE s)) x"
proof -
  from assms obtain X where X: "drained C X s s'" "b' = b \<or> b' \<in># X"
    by (auto simp: replaced_def)
  have z: "count (zone_blocks (BLK_MAP_CACHE s)) x
      = count (zone_blocks (BLK_MAP_CACHE s')) x + count (image_mset PhyBlkNum X) x"
    using X(1) by (simp add: drained_def)
  show thesis
  proof (cases "b' = b")
    case True
    with z that(1) show thesis by simp
  next
    case False
    with X(2) obtain Y where "X = add_mset b' Y" by (auto dest: multi_member_split)
    then have "count (one_valid (PhyBlkNum b')) x \<le> count (image_mset PhyBlkNum X) x"
      by (simp add: one_valid_def)
    with z that(2) show thesis by simp
  qed
qed

lemma SetDataBlk_count:
  assumes "BMM_SetDataBlk C n b s = Some (r, s')" and wf: "cache_wf C (BLK_MAP_CACHE s)"
    and n: "n < DATA_BLK_CNT_OF_ZONE C"
  shows "count (zone_blocks (BLK_MAP_CACHE s')) x
      + count (one_valid (PhyBlkNum (bc_Tbl (BLK_MAP_CACHE s) ! n))) x
    = count (zone_blocks (BLK_MAP_CACHE s)) x + count (one_valid (PhyBlkNum b)) x"
    and "cache_wf C (BLK_MAP_CACHE s')" and "LOG_BLK_TBL s' = LOG_BLK_TBL s"
    and "CUR_MAP_ZONE s' = CUR_MAP_ZONE s"
proof -
  from assms BMM_SetDataBlk_in [OF wf, of n b] have s': "s' = set_tbl ((bc_Tbl (BLK_MAP_CACHE s))[n := b]) s"
    by simp
  show "count (zone_blocks (BLK_MAP_CACHE s')) x
      + count (one_valid (PhyBlkNum (bc_Tbl (BLK_MAP_CACHE s) ! n))) x
    = count (zone_blocks (BLK_MAP_CACHE s)) x + count (one_valid (PhyBlkNum b)) x"
    using arg_cong [OF zone_blocks_set_data [OF wf n, of b], of "\<lambda>M. count M x"] by (simp add: s')
  show "cache_wf C (BLK_MAP_CACHE s')" "LOG_BLK_TBL s' = LOG_BLK_TBL s"
    "CUR_MAP_ZONE s' = CUR_MAP_ZONE s"
    using wf by (simp_all add: s' cache_wf_def)
qed

lemma GetLogBlkPst_cong: "LOG_BLK_TBL s = LOG_BLK_TBL s' \<Longrightarrow> GetLogBlkPst n s = GetLogBlkPst n s'"
  by (simp add: GetLogBlkPst_def)

lemma GetLogBlk_one_valid:
  assumes "BMM_GetLogBlk n s = Some (r, l)" and "n < BLOCK_CNT_OF_ZONE"
  shows "count (one_valid (PhyBlkNum (PhyBlk l))) x \<le> count (one_log l) x"
  using BMM_GetLogBlk_post [OF assms(1)] assms(2)
  by (auto simp: one_valid_def one_log_def BLOCK_CNT_OF_ZONE_def)

lemma SetLogBlk_count:
  assumes set: "BMM_SetLogBlk n l s = Some (r, s')" and wf: "cache_wf C (BLK_MAP_CACHE s)"
    and get: "BMM_GetLogBlk n s0 = Some (r0, l0)" and tbl: "LOG_BLK_TBL s = LOG_BLK_TBL s0"
    and n: "n < BLOCK_CNT_OF_ZONE"
  shows "count (zone_blocks (BLK_MAP_CACHE s')) x + count (one_log l0) x
     \<le> count (zone_blocks (BLK_MAP_CACHE s)) x + count (one_log l) x"
    and "cache_wf C (BLK_MAP_CACHE s')" and "CUR_MAP_ZONE s' = CUR_MAP_ZONE s"
    and "PAGE_MAP_CACHE s' = PAGE_MAP_CACHE s"
proof -
  note pst = GetLogBlkPst_cong [OF tbl, of n]
  have upd: "count (zone_blocks (BLK_MAP_CACHE (set_log_tbl ((LOG_BLK_TBL s)[p := l]) s))) x
      + count (one_log (LOG_BLK_TBL s ! p)) x
     = count (zone_blocks (BLK_MAP_CACHE s)) x + count (one_log l) x"
    if "p < LOG_BLK_CNT_OF_ZONE" for p
    using arg_cong [OF zone_blocks_set_log [OF wf that, of l], of "\<lambda>M. count M x"] by simp
  have g: "r0 = 0 \<and> (\<exists>p. GetLogBlkPst n s = Some (Some p) \<and> l0 = LOG_BLK_TBL s ! p)
      \<or> l0 = empty_log_blk \<and> GetLogBlkPst n s = Some None"
    using BMM_GetLogBlk_post [OF get] pst tbl by auto
  show "count (zone_blocks (BLK_MAP_CACHE s')) x + count (one_log l0) x
     \<le> count (zone_blocks (BLK_MAP_CACHE s)) x + count (one_log l) x"
    using BMM_SetLogBlk_post [OF set] g
    by (elim disjE exE conjE) (use upd in \<open>fastforce simp: one_log_def\<close>)+
  show "cache_wf C (BLK_MAP_CACHE s')" "CUR_MAP_ZONE s' = CUR_MAP_ZONE s"
    "PAGE_MAP_CACHE s' = PAGE_MAP_CACHE s"
    using BMM_SetLogBlk_post [OF set] wf by (auto simp: cache_wf_def)
qed

lemma conserves_countI:
  assumes "cache_wf C (BLK_MAP_CACHE s')" and "CUR_MAP_ZONE s' = CUR_MAP_ZONE s"
    and "only_active s s'"
    and "\<And>x. count (zone_blocks (BLK_MAP_CACHE s')) x \<le> count (zone_blocks (BLK_MAP_CACHE s)) x"
  shows "conserves C s s'"
  using assms by (simp add: conserves_def mset_subset_eqI)

lemma recycle_count:
  assumes "recycle_blk P C blk s = Some (r, s')" and "cache_wf C (BLK_MAP_CACHE s)"
  shows "count (zone_blocks (BLK_MAP_CACHE s')) x
     \<le> count (zone_blocks (BLK_MAP_CACHE s)) x + count (one_valid (PhyBlkNum blk)) x"
  using recycle_blk_post [OF assms] by auto

lemma replaced_tables:
  assumes "replaced C b b' s s'"
  shows "LOG_BLK_TBL s' = LOG_BLK_TBL s" "CUR_MAP_ZONE s' = CUR_MAP_ZONE s"
    "n < DATA_BLK_CNT_OF_ZONE C \<Longrightarrow> bc_Tbl (BLK_MAP_CACHE s') ! n = bc_Tbl (BLK_MAP_CACHE s) ! n"
  using assms by (auto simp: replaced_def drained_def)

lemma swap_merge_conserves:
  assumes run: "log2data_swap_merge P C n s = Some (r, s')" and wf: "cache_wf C (BLK_MAP_CACHE s)"
    and n: "n < DATA_BLK_CNT_OF_ZONE C"
  shows "conserves C s s'"
proof -
  let ?D = "bc_Tbl (BLK_MAP_CACHE s) ! n"
  have nz: "n < BLOCK_CNT_OF_ZONE" using n wf by (simp add: cache_wf_def)
  from run BMM_GetDataBlk_in [OF wf] n obtain rl L r1 L' s1 where
    get: "BMM_GetLogBlk n s = Some (rl, L)"
    and copy: "swap_copy P C (unat (PhyBlkNum ?D)) (PhyBlk L) (unat (LastUsedPage L + 1)) s
               = Some (r1, L', s1)"
    and rest: "(if r1 \<noteq> NAND_OP_TRUE then Some (NAND_OP_FALSE, s1)
     else do {
       (_, s2) \<leftarrow> BMM_SetDataBlk C n L' s1;
       (_, s3) \<leftarrow> BMM_SetLogBlk n empty_log_blk s2;
       (r4, s4) \<leftarrow> recycle_blk P C ?D s3;
       if r4 \<noteq> NAND_OP_TRUE then Some (NAND_OP_FALSE, s4)
       else Some (NAND_OP_TRUE, PMM_ClearCurMapTbl s4)
     }) = Some (r, s')"
    by (auto simp: log2data_swap_merge_def Option.bind_eq_Some_conv)
  note rep = swap_copy_post [OF copy wf]
  note wf1 = replaced_wf [OF rep]
  show ?thesis
  proof (cases "r1 = 0")
    case False
    with rest replaced_conserves [OF rep] show ?thesis by simp
  next
    case True
    with rest obtain t2 s2 t3 s3 r4 s4 where sd: "BMM_SetDataBlk C n L' s1 = Some (t2, s2)"
      and sl: "BMM_SetLogBlk n empty_log_blk s2 = Some (t3, s3)"
      and rc: "recycle_blk P C ?D s3 = Some (r4, s4)"
      and fin': "s' = s4 \<or> s' = PMM_ClearCurMapTbl s4"
      by (auto simp: Option.bind_eq_Some_conv split: if_splits)
    from fin' have fin: "BLK_MAP_CACHE s' = BLK_MAP_CACHE s4" by auto
    note sd' = SetDataBlk_count [OF sd wf1 n]
    have tbl: "LOG_BLK_TBL s2 = LOG_BLK_TBL s" using sd'(3) replaced_tables(1) [OF rep] by simp
    note sl' = SetLogBlk_count [OF sl sd'(2) get tbl nz]
    note rc' = recycle_blk_post [OF rc sl'(2)] recycle_count [OF rc sl'(2)]
    show ?thesis
    proof (rule conserves_countI)
      show "cache_wf C (BLK_MAP_CACHE s')" "CUR_MAP_ZONE s' = CUR_MAP_ZONE s"
        using fin rc' sl' sd' replaced_tables(2) [OF rep] by auto
      show "only_active s s'"
        using only_active_trans [OF only_active_replaced [OF rep] only_active_trans
            [OF only_active_tables(1) [OF sd] only_active_trans [OF only_active_tables(2) [OF sl]
            only_active_recycle [OF rc]]]] fin' by auto
      fix x
      show "count (zone_blocks (BLK_MAP_CACHE s')) x \<le> count (zone_blocks (BLK_MAP_CACHE s)) x"
        using sl'(1) [of x] sd'(1) [of x] rc'(2) [of x] GetLogBlk_one_valid [OF get nz, of x]
          replaced_tables(3) [OF rep n] fin
        by (cases rule: replaced_count [OF rep, of x]) auto
    qed
  qed
qed

lemma free_taken_facts:
  assumes "BMM_GetFreeBlk C ty s = Some (r, b, s')" and "cache_wf C (BLK_MAP_CACHE s)"
  shows "r \<noteq> 0 \<Longrightarrow> s' = s"
    and "r = 0 \<Longrightarrow> count (zone_blocks (BLK_MAP_CACHE s)) x
           = count (zone_blocks (BLK_MAP_CACHE s')) x + count (one_valid (PhyBlkNum b)) x"
    and "cache_wf C (BLK_MAP_CACHE s')" and "LOG_BLK_TBL s' = LOG_BLK_TBL s"
    and "CUR_MAP_ZONE s' = CUR_MAP_ZONE s" and "PAGE_MAP_CACHE s' = PAGE_MAP_CACHE s"
    and "n < DATA_BLK_CNT_OF_ZONE C \<Longrightarrow> bc_Tbl (BLK_MAP_CACHE s') ! n = bc_Tbl (BLK_MAP_CACHE s) ! n"
proof -
  note post = BMM_GetFreeBlk_post [OF assms(2,1)]
  show "cache_wf C (BLK_MAP_CACHE s')"
    using post assms(2) by (auto simp: free_taken_def)
  show "r \<noteq> 0 \<Longrightarrow> s' = s"
    and "n < DATA_BLK_CNT_OF_ZONE C \<Longrightarrow> bc_Tbl (BLK_MAP_CACHE s') ! n = bc_Tbl (BLK_MAP_CACHE s) ! n"
    and "LOG_BLK_TBL s' = LOG_BLK_TBL s" and "CUR_MAP_ZONE s' = CUR_MAP_ZONE s"
    using post by (auto simp: free_taken_def)
  show "r = 0 \<Longrightarrow> count (zone_blocks (BLK_MAP_CACHE s)) x
           = count (zone_blocks (BLK_MAP_CACHE s')) x + count (one_valid (PhyBlkNum b)) x"
    using post by (auto simp: free_taken_def one_valid_def)
  show "PAGE_MAP_CACHE s' = PAGE_MAP_CACHE s"
    using post by (auto simp: free_taken_def) (metis set_BLK_MAP_CACHE_frame(15))
qed

lemma free_taken_conserves:
  assumes "BMM_GetFreeBlk C ty s = Some (r, b, s')" and "cache_wf C (BLK_MAP_CACHE s)"
  shows "conserves C s s'"
proof (cases "r = 0")
  case True
  note f = free_taken_facts [OF assms]
  show ?thesis
    by (rule conserves_countI [OF f(3) f(5) only_active_tables(4) [OF assms(1)]])
      (simp add: f(2) [OF True])
next
  case False
  with free_taken_facts(1) [OF assms] conserves_refl [OF assms(2)] show ?thesis by simp
qed

lemma move_merge_conserves:
  assumes run: "free2log_move_merge P C n s = Some (r, s')" and wf: "cache_wf C (BLK_MAP_CACHE s)"
    and nz: "n < BLOCK_CNT_OF_ZONE"
  shows "conserves C s s'"
proof -
  from run obtain rl L r0 F s0 where get: "BMM_GetLogBlk n s = Some (rl, L)"
    and free: "BMM_GetFreeBlk C LOWEST_EC_TYPE s = Some (r0, F, s0)"
    by (auto simp: free2log_move_merge_def Option.bind_eq_Some_conv)
  note fr = free_taken_facts [OF free wf]
  note c0 = free_taken_conserves [OF free wf]
  show ?thesis
  proof (cases "r0 = 0")
    case False
    with run get free c0 show ?thesis by (simp add: free2log_move_merge_def)
  next
    case r0: True
    with run get free obtain r1 F' lu s1 where
      mv: "(if SUPPORT_ALIGN_NAND_BNK C then move_redo P C (PhyBlk L) F s0
          else move_seq P C (PhyBlk L) F 0 0 0 s0) = Some (r1, F', lu, s1)"
      and rest: "(if r1 \<noteq> NAND_OP_TRUE then Some (NAND_OP_FALSE, s1)
       else do {
         (r2, s2) \<leftarrow> recycle_blk P C (PhyBlk L) s1;
         if r2 \<noteq> NAND_OP_TRUE then Some (NAND_OP_FALSE, s2)
         else do {
           (_, s3) \<leftarrow> BMM_SetLogBlk n (L\<lparr>PhyBlk := F', LastUsedPage := of_nat lu\<rparr>) s2;
           Some (NAND_OP_TRUE, s3)
         }
       }) = Some (r, s')"
      by (auto simp: free2log_move_merge_def Option.bind_eq_Some_conv)
    have rep: "replaced C F F' s0 s1"
      using mv fr(3) by (auto split: if_splits intro: move_redo_post move_seq_post)
    note wf1 = replaced_wf [OF rep]
    show ?thesis
    proof (cases "r1 = 0")
      case False
      with rest c0 replaced_conserves [OF rep] show ?thesis by (auto intro: conserves_trans)
    next
      case True
      with rest obtain r2 s2 where rc: "recycle_blk P C (PhyBlk L) s1 = Some (r2, s2)"
        by (auto simp: Option.bind_eq_Some_conv)
      note rc' = recycle_blk_post [OF rc wf1] recycle_count [OF rc wf1]
      from True rest rc rc'(1) obtain t where
        sl: "BMM_SetLogBlk n (L\<lparr>PhyBlk := F', LastUsedPage := of_nat lu\<rparr>) s2 = Some (t, s')"
        by (auto simp: Option.bind_eq_Some_conv)
      have tbl: "LOG_BLK_TBL s2 = LOG_BLK_TBL s"
        using rc'(1) replaced_tables(1) [OF rep] fr(4) by simp
      from rc'(1) have wf2: "cache_wf C (BLK_MAP_CACHE s2)" by simp
      note sl' = SetLogBlk_count [OF sl wf2 get tbl nz]
      have new: "count (one_log (L\<lparr>PhyBlk := F', LastUsedPage := of_nat lu\<rparr>)) x
          \<le> count (one_valid (PhyBlkNum F')) x" if "PhyBlkNum F' \<noteq> 0xffff" for x
        using that by (simp add: one_log_def one_valid_def)
      have F': "PhyBlkNum F' \<noteq> 0xffff"
        using rep BMM_GetFreeBlk_post [OF wf free] r0 by (auto simp: replaced_def)
      show ?thesis
      proof (rule conserves_countI)
        show "cache_wf C (BLK_MAP_CACHE s')" "CUR_MAP_ZONE s' = CUR_MAP_ZONE s"
          using rc'(1) sl' replaced_tables(2) [OF rep] fr(5) by auto
        show "only_active s s'"
          by (rule only_active_trans [OF only_active_tables(4) [OF free] only_active_trans
                [OF only_active_replaced [OF rep] only_active_trans [OF only_active_recycle [OF rc]
                only_active_tables(2) [OF sl]]]])
        fix x
        show "count (zone_blocks (BLK_MAP_CACHE s')) x \<le> count (zone_blocks (BLK_MAP_CACHE s)) x"
          using sl'(1) [of x] rc'(2) [of x] GetLogBlk_one_valid [OF get nz, of x] fr(2) [OF r0, of x]
            new [OF F', of x]
          by (cases rule: replaced_count [OF rep, of x]) auto
      qed
    qed
  qed
qed

lemma simple_merge_conserves:
  assumes run: "free2data_simple_merge P C n s = Some (r, s')" and wf: "cache_wf C (BLK_MAP_CACHE s)"
    and n: "n < DATA_BLK_CNT_OF_ZONE C"
  shows "conserves C s s'"
proof -
  let ?D = "bc_Tbl (BLK_MAP_CACHE s) ! n"
  have nz: "n < BLOCK_CNT_OF_ZONE" using n wf by (simp add: cache_wf_def)
  from run BMM_GetDataBlk_in [OF wf] n obtain r0 F s0 where
    free: "BMM_GetFreeBlk C LOWEST_EC_TYPE s = Some (r0, F, s0)"
    by (auto simp: free2data_simple_merge_def Option.bind_eq_Some_conv)
  note fr = free_taken_facts [OF free wf]
  note c0 = free_taken_conserves [OF free wf]
  show ?thesis
  proof (cases "r0 = 0")
    case False
    with run BMM_GetDataBlk_in [OF wf] n free c0 show ?thesis
      by (simp add: free2data_simple_merge_def)
  next
    case r0: True
    with run BMM_GetDataBlk_in [OF wf] n free obtain rl L r1 F' s1 where
      get: "BMM_GetLogBlk n s0 = Some (rl, L)"
      and copy: "simple_copy P C ?D (PhyBlk L) F 0 s0 = Some (r1, F', s1)"
      and rest: "(if r1 \<noteq> NAND_OP_TRUE then Some (NAND_OP_FALSE, s1)
       else do {
         (_, s2) \<leftarrow> BMM_SetDataBlk C n F' s1;
         (r3, s3) \<leftarrow> recycle_blk P C ?D s2;
         if r3 \<noteq> NAND_OP_TRUE then Some (NAND_OP_FALSE, s3)
         else do {
           (r4, s4) \<leftarrow> recycle_blk P C (PhyBlk L) s3;
           if r4 \<noteq> NAND_OP_TRUE then Some (NAND_OP_FALSE, s4)
           else do {
             (_, s5) \<leftarrow> BMM_SetLogBlk n empty_log_blk s4;
             Some (NAND_OP_TRUE, PMM_ClearCurMapTbl s5)
           }
         }
       }) = Some (r, s')"
      by (auto simp: free2data_simple_merge_def Option.bind_eq_Some_conv)
    note rep = simple_copy_post [OF copy fr(3)]
    note wf1 = replaced_wf [OF rep]
    show ?thesis
    proof (cases "r1 = 0")
      case False
      with rest c0 replaced_conserves [OF rep] show ?thesis by (auto intro: conserves_trans)
    next
      case True
      with rest obtain t2 s2 r3 s3 where sd: "BMM_SetDataBlk C n F' s1 = Some (t2, s2)"
        and rc: "recycle_blk P C ?D s2 = Some (r3, s3)"
        by (auto simp: Option.bind_eq_Some_conv)
      note sd' = SetDataBlk_count [OF sd wf1 n]
      note rc' = recycle_blk_post [OF rc sd'(2)] recycle_count [OF rc sd'(2)]
      from rc'(1) have wf3: "cache_wf C (BLK_MAP_CACHE s3)" by simp
      from True rest sd rc rc'(1) obtain r4 s4 where
        rl: "recycle_blk P C (PhyBlk L) s3 = Some (r4, s4)"
        by (auto simp: Option.bind_eq_Some_conv)
      note rl' = recycle_blk_post [OF rl wf3] recycle_count [OF rl wf3]
      from rl'(1) have wf4: "cache_wf C (BLK_MAP_CACHE s4)" by simp
      from True rest sd rc rc'(1) rl rl'(1) obtain t5 s5 where
        sl: "BMM_SetLogBlk n empty_log_blk s4 = Some (t5, s5)"
        and fin': "s' = PMM_ClearCurMapTbl s5"
        by (auto simp: Option.bind_eq_Some_conv)
      from fin' have fin: "BLK_MAP_CACHE s' = BLK_MAP_CACHE s5" by simp
      have tbl: "LOG_BLK_TBL s4 = LOG_BLK_TBL s0"
        using rl'(1) rc'(1) sd'(3) replaced_tables(1) [OF rep] by simp
      note sl' = SetLogBlk_count [OF sl wf4 get tbl nz]
      show ?thesis
      proof (rule conserves_countI)
        show "cache_wf C (BLK_MAP_CACHE s')" "CUR_MAP_ZONE s' = CUR_MAP_ZONE s"
          using fin rc'(1) rl'(1) sl' sd' replaced_tables(2) [OF rep] fr(5) by auto
        show "only_active s s'"
          using only_active_trans [OF only_active_tables(4) [OF free] only_active_trans
              [OF only_active_replaced [OF rep] only_active_trans [OF only_active_tables(1) [OF sd]
              only_active_trans [OF only_active_recycle [OF rc] only_active_trans
              [OF only_active_recycle [OF rl] only_active_tables(2) [OF sl]]]]]] fin' by simp
        fix x
        show "count (zone_blocks (BLK_MAP_CACHE s')) x \<le> count (zone_blocks (BLK_MAP_CACHE s)) x"
          using sl'(1) [of x] sd'(1) [of x] rc'(2) [of x] rl'(2) [of x] fr(2) [OF r0, of x]
            GetLogBlk_one_valid [OF get nz, of x] replaced_tables(3) [OF rep n] fr(7) [OF n] fin
          by (cases rule: replaced_count [OF rep, of x]) auto
      qed
    qed
  qed
qed

lemma LML_MergeLogBlk_conserves:
  assumes "LML_MergeLogBlk P C mode n s = Some (r, s')" and "cache_wf C (BLK_MAP_CACHE s)"
    and "n < DATA_BLK_CNT_OF_ZONE C"
  shows "conserves C s s'"
proof -
  have "n < BLOCK_CNT_OF_ZONE" using assms(2,3) by (simp add: cache_wf_def)
  with assms show ?thesis
    by (auto simp: LML_MergeLogBlk_def Option.bind_eq_Some_conv split: if_splits
        intro: swap_merge_conserves move_merge_conserves simple_merge_conserves)
qed

section \<open>Replacing the block of a table item\<close>

lemma replaced_new:
  assumes "replaced C b b' s s'"
  shows "(b' = b \<and> count (zone_blocks (BLK_MAP_CACHE s')) x \<le> count (zone_blocks (BLK_MAP_CACHE s)) x)
    \<or> (PhyBlkNum b' \<noteq> 0xffff \<and> count (zone_blocks (BLK_MAP_CACHE s')) x + count {#PhyBlkNum b'#} x
        \<le> count (zone_blocks (BLK_MAP_CACHE s)) x)"
proof (cases "b' = b")
  case True
  from assms obtain X where "drained C X s s'" by (auto simp: replaced_def)
  then have "count (zone_blocks (BLK_MAP_CACHE s')) x \<le> count (zone_blocks (BLK_MAP_CACHE s)) x"
    by (simp add: drained_def)
  with True show ?thesis by simp
next
  case False
  with assms have v: "PhyBlkNum b' \<noteq> 0xffff" by (auto simp: replaced_def)
  show ?thesis
    using False v by (cases rule: replaced_count [OF assms, of x]) (auto simp: one_valid_def)
qed

lemma replace_log_item:
  assumes rep: "replaced C (PhyBlk (LOG_BLK_TBL s ! p)) b' s s1" and wf: "cache_wf C (BLK_MAP_CACHE s)"
    and p: "p < LOG_BLK_CNT_OF_ZONE"
    and l: "l' = (LOG_BLK_TBL s1 ! p)\<lparr>PhyBlk := b'\<rparr> \<or> l' = (LOG_BLK_TBL s1 ! p)\<lparr>LastUsedPage := u, PhyBlk := b'\<rparr>"
  shows "conserves C s (set_log_tbl ((LOG_BLK_TBL s1)[p := l']) s1)"
proof (rule conserves_countI)
  note wf1 = replaced_wf [OF rep] and tbl = replaced_tables [OF rep]
  show "cache_wf C (BLK_MAP_CACHE (set_log_tbl ((LOG_BLK_TBL s1)[p := l']) s1))"
    using wf1 by (simp add: cache_wf_def)
  show "CUR_MAP_ZONE (set_log_tbl ((LOG_BLK_TBL s1)[p := l']) s1) = CUR_MAP_ZONE s"
    using tbl(2) by simp
  show "only_active s (set_log_tbl ((LOG_BLK_TBL s1)[p := l']) s1)"
    using only_active_replaced [OF rep] by simp
  fix x
  let ?s2 = "set_log_tbl ((LOG_BLK_TBL s1)[p := l']) s1" and ?b = "PhyBlk (LOG_BLK_TBL s ! p)"
  have e: "count (zone_blocks (BLK_MAP_CACHE ?s2)) x + count (one_log (LOG_BLK_TBL s ! p)) x
      = count (zone_blocks (BLK_MAP_CACHE s1)) x + count (one_log l') x"
    using arg_cong [OF zone_blocks_set_log [OF wf1 p, of l'], of "\<lambda>M. count M x"]
    by (simp only: BLK_MAP_CACHE_set count_union tbl(1))
  have n: "LogicBlkNum l' = LogicBlkNum (LOG_BLK_TBL s ! p)" "PhyBlk l' = b'"
    using l tbl(1) by auto
  have "count (one_log l') x \<le> count (one_log (LOG_BLK_TBL s ! p)) x" if "b' = ?b"
    using n that by (simp add: one_log_def)
  moreover have "count (one_log l') x \<le> count {#PhyBlkNum b'#} x"
    using n by (simp add: one_log_def)
  ultimately show "count (zone_blocks (BLK_MAP_CACHE ?s2)) x \<le> count (zone_blocks (BLK_MAP_CACHE s)) x"
    using e replaced_new [OF rep, of x] by linarith
qed

lemma replace_data_item:
  assumes rep: "replaced C (bc_Tbl (BLK_MAP_CACHE s) ! n) b' s s1" and n: "n < DATA_BLK_CNT_OF_ZONE C"
  shows "conserves C s (set_tbl ((bc_Tbl (BLK_MAP_CACHE s1))[n := b']) s1)"
proof (rule conserves_countI)
  note wf1 = replaced_wf [OF rep] and tbl = replaced_tables [OF rep]
  show "cache_wf C (BLK_MAP_CACHE (set_tbl ((bc_Tbl (BLK_MAP_CACHE s1))[n := b']) s1))"
    using wf1 by (simp add: cache_wf_def)
  show "CUR_MAP_ZONE (set_tbl ((bc_Tbl (BLK_MAP_CACHE s1))[n := b']) s1) = CUR_MAP_ZONE s"
    using tbl(2) by simp
  show "only_active s (set_tbl ((bc_Tbl (BLK_MAP_CACHE s1))[n := b']) s1)"
    using only_active_replaced [OF rep] by simp
  fix x
  let ?s2 = "set_tbl ((bc_Tbl (BLK_MAP_CACHE s1))[n := b']) s1" and ?b = "bc_Tbl (BLK_MAP_CACHE s) ! n"
  have e: "count (zone_blocks (BLK_MAP_CACHE ?s2)) x + count (one_valid (PhyBlkNum ?b)) x
      = count (zone_blocks (BLK_MAP_CACHE s1)) x + count (one_valid (PhyBlkNum b')) x"
    using arg_cong [OF zone_blocks_set_data [OF wf1 n, of b'], of "\<lambda>M. count M x"]
    by (simp only: BLK_MAP_CACHE_set count_union tbl(3) [OF n])
  have "count (one_valid (PhyBlkNum b')) x \<le> count {#PhyBlkNum b'#} x"
    by (simp add: one_valid_def)
  then show "count (zone_blocks (BLK_MAP_CACHE ?s2)) x \<le> count (zone_blocks (BLK_MAP_CACHE s)) x"
    using e replaced_new [OF rep, of x] by auto
qed

section \<open>Properties\<close>

text \<open>The mapped pages of a page mapping table.\<close>

definition mapped :: "u16 list \<Rightarrow> nat list" where
  "mapped t = filter (\<lambda>j. t ! j \<noteq> 0xffff) [0..<length t]"

lemma page_map_info_run:
  "i + n = length (PAGE_MAP_TBL s) \<Longrightarrow>
   page_map_info n i ord v s = Some (ord \<and> (\<forall>j \<in> set (filter (\<lambda>j. PAGE_MAP_TBL s ! j \<noteq> 0xffff) [i..<i + n]).
       unat (PAGE_MAP_TBL s ! j) = j),
     v + of_nat (length (filter (\<lambda>j. PAGE_MAP_TBL s ! j \<noteq> 0xffff) [i..<i + n])))"
proof (induction n arbitrary: i ord v)
  case 0
  then show ?case by simp
next
  case (Suc n)
  have up: "[i..<i + Suc n] = i # [Suc i..<Suc i + n]" by (simp add: upt_conv_Cons)
  have i: "i < length (PAGE_MAP_TBL s)" and e: "Suc i + n = length (PAGE_MAP_TBL s)" using Suc.prems by auto
  note IH = Suc.IH [OF e]
  show ?case
  proof (cases "PAGE_MAP_TBL s ! i = 0xffff")
    case True
    with i show ?thesis unfolding up by (simp add: PMM_GetCurMapPage_def IH)
  next
    case False
    with i show ?thesis unfolding up by (simp add: PMM_GetCurMapPage_def IH)
  qed
qed

lemma get_page_map_tbl_info_run:
  assumes "BMM_GetLogBlk n s = Some (r, L)" and "length (PAGE_MAP_TBL s) = PAGE_CNT_OF_SUPER_BLK C"
  shows "get_page_map_tbl_info C n s =
    Some ((\<forall>j \<in> set (mapped (PAGE_MAP_TBL s)). unat (PAGE_MAP_TBL s ! j) = j)
            \<and> unat (LastUsedPage L) + 1 \<le> length (mapped (PAGE_MAP_TBL s)),
          of_nat (length (mapped (PAGE_MAP_TBL s))))"
proof -
  let ?t = "PAGE_MAP_TBL s"
  have "length (mapped ?t) \<le> length ?t"
    unfolding mapped_def using length_filter_le [of "\<lambda>j. ?t ! j \<noteq> 0xffff" "[0..<length ?t]"] by simp
  also have "\<dots> < 65536" by (simp add: assms(2) PAGE_CNT_OF_LOGIC_BLK_def)
  finally have "unat (of_nat (length (mapped ?t)) :: u16) = length (mapped ?t)"
    by (simp add: unat_of_nat)
  moreover have "page_map_info (PAGE_CNT_OF_SUPER_BLK C) 0 True 0 s
    = Some (\<forall>j \<in> set (mapped ?t). unat (?t ! j) = j, of_nat (length (mapped ?t)))"
    using page_map_info_run [of 0 "PAGE_CNT_OF_SUPER_BLK C" s True 0] assms(2) by (simp add: mapped_def)
  ultimately show ?thesis
    using assms(1) by (simp add: get_page_map_tbl_info_def not_less)
qed

text \<open>The log pages in use are those up to the last used one, so no entry of the page table is beyond.\<close>

definition map_in_log :: "u16 list \<Rightarrow> log_blk \<Rightarrow> bool" where
  "map_in_log t L \<longleftrightarrow> unat (LastUsedPage L) < length t
     \<and> (\<forall>j < length t. t ! j = 0xffff \<or> unat (t ! j) \<le> unat (LastUsedPage L))"

lemma mapped_below:
  "(\<forall>j \<in> set (mapped t). j < k) \<Longrightarrow> k \<le> length (mapped t) \<Longrightarrow> j < k \<Longrightarrow> j \<in> set (mapped t)"
proof -
  assume b: "\<forall>j \<in> set (mapped t). j < k" and l: "k \<le> length (mapped t)" and j: "j < k"
  have "distinct (mapped t)" by (simp add: mapped_def)
  then have "card (set (mapped t)) = length (mapped t)" by (rule distinct_card)
  moreover have "set (mapped t) \<subseteq> {..<k}" using b by auto
  ultimately have "set (mapped t) = {..<k}" using l by (intro card_subset_eq) (auto dest: card_mono [rotated])
  with j show ?thesis by simp
qed

text \<open>\<open>_get_page_map_tbl_info\<close> reports the log block as in order exactly when its pages \<open>0\<close> to
  \<open>LastUsedPage\<close> are mapped to themselves and no other page is mapped, and it counts the mapped pages. So a
  swap merge, which keeps the log pages where they are, is done only when they are where they belong.\<close>

theorem page_map_in_order:
  assumes "BMM_GetLogBlk n s = Some (0, L)" and "length (PAGE_MAP_TBL s) = PAGE_CNT_OF_SUPER_BLK C"
    and "map_in_log (PAGE_MAP_TBL s) L"
  shows "\<exists>b v. get_page_map_tbl_info C n s = Some (b, v) \<and> unat v = length (mapped (PAGE_MAP_TBL s))
    \<and> (b \<longleftrightarrow> (\<forall>j < PAGE_CNT_OF_SUPER_BLK C. PAGE_MAP_TBL s ! j =
                (if j \<le> unat (LastUsedPage L) then of_nat j else 0xffff)))"
proof -
  let ?t = "PAGE_MAP_TBL s" and ?u = "unat (LastUsedPage L)" and ?m = "mapped (PAGE_MAP_TBL s)"
  have P: "length ?t < 65536" by (simp add: assms(2) PAGE_CNT_OF_LOGIC_BLK_def)
  have m: "j \<in> set ?m \<longleftrightarrow> j < length ?t \<and> ?t ! j \<noteq> 0xffff" for j by (auto simp: mapped_def)
  have le: "length ?m \<le> length ?t"
    unfolding mapped_def using length_filter_le [of "\<lambda>j. ?t ! j \<noteq> 0xffff" "[0..<length ?t]"] by simp
  have u: "?u < length ?t" "\<And>j. j \<in> set ?m \<Longrightarrow> unat (?t ! j) \<le> ?u"
    using assms(3) m by (auto simp: map_in_log_def)
  have nff: "of_nat j \<noteq> (0xffff :: u16)" if "j < length ?t" for j
    using that P of_nat_inj16 [of j 65535] by auto
  let ?b = "(\<forall>j \<in> set ?m. unat (?t ! j) = j) \<and> ?u + 1 \<le> length ?m"
  let ?c = "\<forall>j < length ?t. ?t ! j = (if j \<le> ?u then of_nat j else 0xffff)"
  have "?c" if b: "?b"
  proof (intro allI impI)
    fix j assume j: "j < length ?t"
    have "\<forall>j \<in> set ?m. j < ?u + 1" using b u(2) by fastforce
    from mapped_below [OF this] b have "j \<in> set ?m" if "j \<le> ?u" using that by simp
    moreover have "w = of_nat j" if "unat w = j" for w :: u16 using that by auto
    ultimately show "?t ! j = (if j \<le> ?u then of_nat j else 0xffff)"
      using b u(2) [of j] m [of j] j by (cases "j \<le> ?u") auto
  qed
  moreover have "?b" if c: "?c"
  proof
    show "\<forall>j \<in> set ?m. unat (?t ! j) = j"
      using c m P by (auto simp: unat_of_nat split: if_splits)
    have "{..<?u + 1} \<subseteq> set ?m" using c m u(1) nff by auto
    then have "card {..<?u + 1} \<le> card (set ?m)" by (intro card_mono) auto
    then show "?u + 1 \<le> length ?m" using card_length [of ?m] by simp
  qed
  ultimately have "?b \<longleftrightarrow> ?c" by blast
  moreover have "unat (of_nat (length ?m) :: u16) = length ?m" using le P by (simp add: unat_of_nat)
  ultimately show ?thesis
    using get_page_map_tbl_info_run [OF assms(1,2)] assms(2) by auto
qed

lemma sample_log_pst [simp]: "GetLogBlkPst 0 (sample_drv d) = Some (Some 0)"
  by (rule GetLogBlkPst_eq [of sample_cfg]) (simp_all add: MAX_LOG_BLK_CNT_def)

lemma page_map_in_order_witness:
  "\<exists>b v. get_page_map_tbl_info sample_cfg 0 (sample_drv ()) = Some (b, v) \<and> unat v = 2 \<and> \<not> b"
proof -
  have g: "BMM_GetLogBlk 0 (sample_drv ()) = Some (0, sample_log)" by (simp add: BMM_GetLogBlk_def)
  have "\<forall>x \<in> set (pc_PageMapTbl sample_page_cache). x = 0xffff \<or> unat x \<le> 1"
    by (simp add: sample_page_cache_def)
  then have "\<forall>j < 8. (pc_PageMapTbl sample_page_cache) ! j = 0xffff \<or> unat ((pc_PageMapTbl sample_page_cache) ! j) \<le> 1"
    using nth_mem [of _ "pc_PageMapTbl sample_page_cache"] by simp
  then have "map_in_log (PAGE_MAP_TBL (sample_drv ())) sample_log"
    by (simp add: map_in_log_def)
  moreover have "\<not> (\<forall>j < 8. pc_PageMapTbl sample_page_cache ! j = (if j \<le> 1 then of_nat j else 0xffff))"
    by (rule notI, drule spec [of _ 0]) (simp add: sample_page_cache_def)
  moreover have "length (mapped (pc_PageMapTbl sample_page_cache)) = 2"
    by (simp add: mapped_def sample_page_cache_def upt_rec)
  ultimately show ?thesis
    using page_map_in_order [OF g, of sample_cfg] by auto
qed

end
