(* ===== verification/Merge_Total.thy ===== *)
theory Merge_Total
  imports Merge
begin

text \<open>
  Totality of the merges: on a physic layer that keeps the sizes of the buffers it is given, and with
  tables of their allocated sizes, every page operation, every retry on a replacement block and every
  merge of \<open>logic/merge.c\<close> returns without a memory access outside an array, whatever results the flash
  reports. With the conservation lemmas of \<open>Merge\<close> this gives that merging never duplicates a block.
\<close>

section \<open>The page operations return\<close>

lemma spare_slots_in:
  assumes "(a, b) \<in> set (spare_slots C bm)" and "bm = 3 \<or> bm = FULL_BITMAP_OF_SUPER_PAGE C"
    and "4 \<le> SECTOR_CNT_OF_SUPER_PAGE C" and "SECTOR_CNT_OF_SUPER_PAGE C \<le> 32"
  shows "a + 4 \<le> 4 * SECTOR_CNT_OF_SUPER_PAGE C" and "b + 4 \<le> 16"
proof -
  have three: "bit (3 :: u32) i \<Longrightarrow> i < 2" for i
    by (simp add: bit_numeral_rec bit_1_iff split: nat.splits)
  have s: "bit bm i \<Longrightarrow> i < SECTOR_CNT_OF_SUPER_PAGE C" for i
    using assms(2-4) three [of i] bit_FULL_BITMAP [of C i] by auto
  show "a + 4 \<le> 4 * SECTOR_CNT_OF_SUPER_PAGE C" "b + 4 \<le> 16"
    using assms(1) unfolding spare_slots_def bit_iff_and_push_bit_not_eq_0 [symmetric]
    by (auto dest!: s split: if_splits)
qed

lemma keeps_sizes_read:
  assumes "keeps_sizes P" and "PHY_PageRead P op m sb d = (r, m', sb', d')"
  shows "length m' = length m \<and> map_option length sb' = map_option length sb"
proof -
  from assms(1) have "case PHY_PageRead P op m sb d of (r, m', sb', d') \<Rightarrow>
      length m' = length m \<and> map_option length sb' = map_option length sb"
    unfolding keeps_sizes_def Let_def by - (drule conjunct1, (drule spec)+, assumption)
  with assms(2) show ?thesis by simp
qed

lemma VirtualPageRead_total:
  assumes P: "keeps_sizes P" and s: "spare_ok C s" and sp: "length sp = 16"
    and bm: "op_SectBitmap op = 3 \<or> op_SectBitmap op = FULL_BITMAP_OF_SUPER_PAGE C"
  shows "total (LML_VirtualPageRead P C op m (Some sp) s)
           (\<lambda>(r, m', sp', s'). spare_ok C s' \<and> length sp' = 16 \<and> length m' = length m)"
proof -
  obtain r m' sb d where read: "PHY_PageRead P op m (Some (dr_spare_buf s)) (dr_dev s) = (r, m', sb, d)"
    by (metis prod_cases4)
  have len: "length m' = length m" "map_option length sb = Some (length (dr_spare_buf s))"
    using keeps_sizes_read [OF P read] by auto
  then obtain b where b: "sb = Some b" "length b = 4 * SECTOR_CNT_OF_SUPER_PAGE C"
    using s by (auto simp: spare_ok_def)
  obtain sp' where c: "copy4 (spare_slots C (op_SectBitmap op)) b sp = Some sp'" "length sp' = length sp"
    using copy4_in [of "spare_slots C (op_SectBitmap op)" b sp] spare_slots_in [OF _ bm] s b(2) sp
    by (fastforce simp: spare_ok_def)
  with read b s len sp show ?thesis
    by (simp add: LML_VirtualPageRead_def spare_ok_def total_iff)
qed

lemma ReadTemp_total:
  assumes "keeps_sizes P" and "spare_ok C s" and "length sp = 16"
    and "op_SectBitmap op = 3 \<or> op_SectBitmap op = FULL_BITMAP_OF_SUPER_PAGE C"
  shows "total (ReadTemp P C op sp s) (\<lambda>(r, sp', s'). spare_ok C s' \<and> length sp' = 16)"
  using VirtualPageRead_total [OF assms, of "dr_temp_buf s"]
  by (auto simp: ReadTemp_def total_iff spare_ok_def)


text \<open>\<open>run_ok C s\<close>: the spare buffer has its size and the active tables have theirs.\<close>

definition run_ok :: "cfg \<Rightarrow> 'd drv \<Rightarrow> bool" where
  "run_ok C s \<longleftrightarrow> spare_ok C s \<and> cache_wf C (BLK_MAP_CACHE s)
     \<and> length (PAGE_MAP_TBL s) = PAGE_CNT_OF_SUPER_BLK C"

lemma total_bind2:
  "total m (\<lambda>(a, b). R a b) \<Longrightarrow> (\<And>a b. R a b \<Longrightarrow> total (f a b) Q) \<Longrightarrow> total (m \<bind> (\<lambda>(a, b). f a b)) Q"
  by (auto simp: total_iff)

lemma total_bind3:
  "total m (\<lambda>(a, b, c). R a b c) \<Longrightarrow> (\<And>a b c. R a b c \<Longrightarrow> total (f a b c) Q)
   \<Longrightarrow> total (m \<bind> (\<lambda>(a, b, c). f a b c)) Q"
  by (auto simp: total_iff)

lemma run_ok_same_tables: "same_tables s s' \<Longrightarrow> run_ok C s \<Longrightarrow> spare_ok C s' \<Longrightarrow> run_ok C s'"
  by (simp add: run_ok_def same_tablesD)

lemma ReadTemp_run:
  assumes "keeps_sizes P" and "run_ok C s" and "length sp = 16"
    and "op_SectBitmap op = 3 \<or> op_SectBitmap op = FULL_BITMAP_OF_SUPER_PAGE C"
  shows "total (ReadTemp P C op sp s) (\<lambda>(r, sp', s'). run_ok C s' \<and> length sp' = 16)"
proof -
  have s: "spare_ok C s" using assms(2) by (simp add: run_ok_def)
  show ?thesis
    by (rule total_mono [OF ReadTemp_total [OF assms(1) s assms(3,4)]])
      (auto intro: run_ok_same_tables [OF ReadTemp_frame assms(2)])
qed

lemma VirtualPageWrite_run:
  assumes "run_ok C s" and "length sp = 16"
  shows "total (LML_VirtualPageWrite P C op m (Some sp) s) (\<lambda>(r, s'). run_ok C s')"
  using VirtualPageWrite_total [of C s sp P op m] assms run_ok_same_tables [OF VirtualPageWrite_frame]
  by (fastforce simp: run_ok_def total_iff)

lemma SynchBank_run: "SynchBank P b m s = (r, s') \<Longrightarrow> run_ok C s' = run_ok C s"
  by (simp add: run_ok_def SynchBank_frame SynchBank_spare [of P b m s r s' C] same_tablesD [OF SynchBank_frame])

lemma PageCopyback_run: "keeps_sizes P \<Longrightarrow> PageCopyback P a b s = (r, s') \<Longrightarrow> run_ok C s' = run_ok C s"
  by (simp add: run_ok_def PageCopyback_spare [of P a b s r s' C] same_tablesD [OF PageCopyback_frame])

lemma phys_at_bitmap [simp]: "op_SectBitmap (phys_at C bm s b p) = bm"
  by (simp add: phys_at_def LML_CalculatePhyOpPar_def op_with_def Let_def split: prod.splits)

lemma copy_page0_run:
  assumes P: "keeps_sizes P" and s: "run_ok C s"
  shows "total (copy_page0 P C sb sp db q s) (\<lambda>(r, s'). run_ok C s')"
  unfolding copy_page0_def Let_def
proof (rule total_bind3 [OF ReadTemp_run [OF P s]], goal_cases)
  case (3 r1 sp1 s1)
  then have s1: "run_ok C s1" and sp1: "length sp1 = 16" by simp_all
  show ?case
  proof (cases "r1 < 0")
    case False
    have "total (ReadTemp P C (phys_at C (FULL_BITMAP_OF_SUPER_PAGE C) s1 sb sp) sp1 s1 \<bind>
       (\<lambda>(r2, sp2, s2).
         if r2 < 0 then Some (- 1, s2)
         else LML_VirtualPageWrite P C (phys_at C (FULL_BITMAP_OF_SUPER_PAGE C) s2 db 0) (dr_temp_buf s2)
               (Some (enc_ud2 ((fst (dec_ud2 sp2))\<lparr>ud_LogicInfo := ud_LogicInfo (fst (dec_ud2 sp1)),
                 ud_PageStatus := ud_PageStatus (fst (dec_ud2 sp1)) + q\<rparr>, snd (dec_ud2 sp2)))) s2 \<bind>
              (\<lambda>(r3, s3). if r3 \<noteq> 0 then Some (- 1, s3) else Some (0, s3)))) (\<lambda>(r, s'). run_ok C s')"
    proof (rule total_bind3 [OF ReadTemp_run [OF P s1 sp1]], goal_cases)
      case (2 r2 sp2 s2)
      then have s2: "run_ok C s2" by simp
      show ?case
      proof (cases "r2 < 0")
        case False
        then show ?thesis
          by (simp, intro total_bind2 [OF VirtualPageWrite_run [OF s2]]) auto
      qed (use s2 in simp)
    qed simp
    with False show ?thesis by simp
  qed (use s1 in simp)
qed simp_all

lemma BadBlk_replace_PAGE:
  "BadBlk_replace P C bad z n s = Some (r, nb, s') \<Longrightarrow> PAGE_MAP_CACHE s' = PAGE_MAP_CACHE s"
proof (induction P C bad z n s rule: BadBlk_replace.induct)
  case (1 P C bad z n s)
  from "1.prems" obtain r1 fb s1 where get: "BMM_GetFreeBlk C LOWEST_EC_TYPE s = Some (r1, fb, s1)"
    by (subst (asm) BadBlk_replace.simps) (auto simp: Option.bind_eq_Some_conv)
  have p1: "PAGE_MAP_CACHE s1 = PAGE_MAP_CACHE s"
    using get by (auto simp: BMM_GetFreeBlk_def Let_def Option.bind_eq_Some_conv split: option.splits)
  obtain res s2 where res: "RestorePageData P C bad z n fb 0 s1 = (res, s2)" by fastforce
  have p2: "PAGE_MAP_CACHE s2 = PAGE_MAP_CACHE s1"
    using RestorePageData_frame [OF res] by (simp add: same_tablesD)
  show ?case
  proof (cases "PhyBlkNum fb \<noteq> 0xffff \<and> n \<noteq> 0 \<and> res < 0")
    case True
    with "1.prems" get res obtain t s3 where mark: "MarkBadBlk P C fb z s2 = Some (t, s3)"
      and rec: "BadBlk_replace P C bad z n s3 = Some (r, nb, s')"
      by (subst (asm) BadBlk_replace.simps) (auto simp: Option.bind_eq_Some_conv)
    from True have "n \<noteq> 0" "res < 0" "PhyBlkNum fb \<noteq> 0xffff" by auto
    from "1.IH" [OF get refl refl this(3,1) res [symmetric] this(2) mark refl rec]
    show ?thesis
      using MarkBadBlk_frame [OF mark] p1 p2 by (simp add: same_tablesD)
  next
    case False
    with "1.prems" get res p1 p2 show ?thesis
      by (subst (asm) BadBlk_replace.simps) (auto split: if_splits)
  qed
qed

text \<open>The bad block management of a program error: with success, a replacement block has left the pool.\<close>

definition bad_managed :: "cfg \<Rightarrow> 'd drv \<Rightarrow> int \<Rightarrow> super_phy_blk option \<Rightarrow> 'd drv \<Rightarrow> bool" where
  "bad_managed C s r nb s' \<longleftrightarrow> run_ok C s'
     \<and> (r = -1 \<or> r = 0 \<and> nb \<noteq> None
           \<and> size (free_blks C (BLK_MAP_CACHE s')) < size (free_blks C (BLK_MAP_CACHE s)))"

lemma BadBlkManage_run:
  assumes P: "keeps_sizes P" and s: "run_ok C s"
  shows "total (LML_BadBlkManage P C bad z n True s) (\<lambda>(r, nb, s'). bad_managed C s r nb s')"
proof -
  have wf: "cache_wf C (BLK_MAP_CACHE s)" and sp: "spare_ok C s" using s by (auto simp: run_ok_def)
  from BadBlk_replace_total [OF P sp wf, of bad z n] obtain r1 nb1 s1 where
    rep: "BadBlk_replace P C bad z n s = Some (r1, nb1, s1)" and sp1: "spare_ok C s1" by blast
  have wf1: "cache_wf C (BLK_MAP_CACHE s1)" and r1: "r1 = -1 \<or> r1 = 0 \<and> nb1 \<noteq> None"
    using BadBlk_replace_post [OF rep wf] by (auto simp: drained_def)
  have ok1: "run_ok C s1"
    using s sp1 wf1 BadBlk_replace_PAGE [OF rep] by (simp add: run_ok_def)
  obtain s2 where mark: "MarkBadBlk P C bad z s1 = Some (0, s2)" "spare_ok C s2"
    using MarkBadBlk_total [OF sp1] by blast
  have ok2: "run_ok C s2" using run_ok_same_tables [OF MarkBadBlk_frame [OF mark(1)] ok1 mark(2)] .
  have run: "LML_BadBlkManage P C bad z n True s = (if r1 < 0 then Some (-1, None, s1) else Some (0, nb1, s2))"
    using rep mark by (simp add: LML_BadBlkManage_def)
  show ?thesis
    using run r1 ok1 ok2 LML_BadBlkManage_shrinks [of P C bad z n s 0 nb1 s2]
    by (auto simp: bad_managed_def)
qed

text \<open>A retry on the replacement block.\<close>

lemma bad_retry_run:
  assumes "keeps_sizes P" and "run_ok C s" and "\<And>s'. run_ok C s' \<Longrightarrow> Q (fail s')"
    and "\<And>b s'. LML_BadBlkManage P C bad z n True s = Some (0, Some b, s') \<Longrightarrow> run_ok C s' \<Longrightarrow> total (f b s') Q"
  shows "total (LML_BadBlkManage P C bad z n True s \<bind>
    (\<lambda>(r3, sub, s3). if r3 \<noteq> 0 then Some (fail s3) else sub \<bind> (\<lambda>b. f b s3))) Q"
proof (rule total_bindI [OF BadBlkManage_run [OF assms(1,2)]], clarify, goal_cases)
  case (1 r3 sub s3)
  then show ?case using assms(3,4) by (cases "r3 = 0") (auto simp: bad_managed_def)
qed

lemma swap_copy_run:
  "keeps_sizes P \<Longrightarrow> run_ok C s \<Longrightarrow> total (swap_copy P C D L pg s) (\<lambda>(r, L', s'). run_ok C s')"
proof (induction P C D L pg s rule: swap_copy.induct)
  case (1 P C D L pg s)
  show ?case
  proof (cases "pg < PAGE_CNT_OF_SUPER_BLK C")
    case False
    then show ?thesis using "1.prems" by (subst swap_copy.simps) simp
  next
    case True
    let ?src = "phys_at C (ucast (junk16 C)) s D pg"
    let ?dst = "phys_at C (ucast (junk16 C)) s (unat (PhyBlkNum L)) pg"
    obtain r1 s1 where cp: "PageCopyback P ?src ?dst s = (r1, s1)" by fastforce
    obtain r2 s2 where sy: "SynchBank P (unat (op_BankNum ?dst)) SYNC_BANK_MODE s1 = (r2, s2)" by fastforce
    have s1: "run_ok C s1" and s2: "run_ok C s2"
      using "1.prems" PageCopyback_run [OF "1.prems"(1) cp, of C] SynchBank_run [OF sy, of C] by auto
    note body = swap_copy.simps [of P C D L pg s] and IH = "1.IH" [OF True refl refl cp [symmetric] _ sy [symmetric]]
    consider "r1 \<noteq> 0" | "r1 = 0" "r2 = 0" | "r1 = 0" "r2 \<noteq> 0" by blast
    then show ?thesis
    proof cases
      case 1
      then show ?thesis by (subst body) (simp add: True Let_def cp s1)
    next
      case 2
      then show ?thesis by (subst body) (simp add: True Let_def cp sy IH(2) "1.prems"(1) s2 del: One_nat_def)
    next
      case 3
      show ?thesis using 3
        by (subst body) (simp add: True Let_def cp sy del: One_nat_def,
          intro bad_retry_run [OF "1.prems"(1) s2]; use IH(1) "1.prems"(1) in auto)
    qed
  qed
qed

text \<open>The state a step of the move leaves.\<close>

fun move_state :: "'d move_result \<Rightarrow> 'd drv" where
  "move_state (MoveFail s) = s"
| "move_state (MoveRedo b s) = s"
| "move_state (MoveOk d s) = s"

lemma bad_dst_run:
  assumes "keeps_sizes P" and "run_ok C s"
  shows "total (bad_dst P C f n s) (\<lambda>r. run_ok C (move_state r))"
  unfolding bad_dst_def
  by (rule total_bind3 [OF BadBlkManage_run [OF assms]]) (auto simp: bad_managed_def)

lemma SetCurMapPage_run:
  "run_ok C s \<Longrightarrow> pg < PAGE_CNT_OF_SUPER_BLK C \<Longrightarrow> total (PMM_SetCurMapPage pg w s) (run_ok C)"
  by (simp add: PMM_SetCurMapPage_def run_ok_def spare_ok_def)

lemma GetCurMapPage_in:
  "run_ok C s \<Longrightarrow> pg < PAGE_CNT_OF_SUPER_BLK C \<Longrightarrow> PMM_GetCurMapPage pg s = Some (PAGE_MAP_TBL s ! pg)"
  by (simp add: PMM_GetCurMapPage_def run_ok_def)

lemma copy_step_run:
  assumes "keeps_sizes P" and "run_ok C s"
  shows "total (if dp = 0 then copy_page0 P C sb sp db q s else Some (PageCopyback P x y s)) (\<lambda>(r, s'). run_ok C s')"
proof -
  obtain r1 s1 where "PageCopyback P x y s = (r1, s1)" by fastforce
  with copy_page0_run [OF assms] PageCopyback_run [OF assms(1) this, of C] assms(2) show ?thesis by simp
qed

lemma move_page_aligned_run:
  assumes P: "keeps_sizes P" and s: "run_ok C s" and pg: "pg < PAGE_CNT_OF_SUPER_BLK C"
  shows "total (move_page_aligned P C l f pg dp s) (\<lambda>r. run_ok C (move_state r))"
proof (cases "PAGE_MAP_TBL s ! pg = 0xffff")
  case True
  then show ?thesis using s pg by (simp add: move_page_aligned_def GetCurMapPage_in [OF s pg])
next
  case False
  let ?w = "PAGE_MAP_TBL s ! pg"
  let ?full = "FULL_BITMAP_OF_SUPER_PAGE C"
  let ?src = "phys_at C ?full s (unat (PhyBlkNum l)) (unat ?w)"
  let ?dst = "phys_at C ?full s (unat (PhyBlkNum f)) dp"
  have "total ((if dp = 0 then copy_page0 P C (unat (PhyBlkNum l)) (unat ?w) (unat (PhyBlkNum f)) 0 s
       else Some (PageCopyback P ?src ?dst s)) \<bind>
     (\<lambda>(r1, s1). if r1 \<noteq> 0 then Some (MoveFail s1)
       else case SynchBank P (unat (op_BankNum ?dst)) SYNC_BANK_MODE s1 of (r2, s2) \<Rightarrow>
         if r2 \<noteq> NAND_OP_TRUE then bad_dst P C f 0 s2
         else do {
           s3 \<leftarrow> PMM_SetCurMapPage pg (of_nat dp) s2;
           Some (MoveOk (dp + INTERLEAVE_BANK_CNT C) s3)
         })) (\<lambda>r. run_ok C (move_state r))"
  proof (rule total_bind2 [OF copy_step_run [OF P s]], goal_cases)
    case (1 r1 s1)
    obtain r2 s2 where sy: "SynchBank P (unat (op_BankNum ?dst)) SYNC_BANK_MODE s1 = (r2, s2)" by fastforce
    have s2: "run_ok C s2" using SynchBank_run [OF sy, of C] 1 by simp
    have set: "total (PMM_SetCurMapPage pg (of_nat dp) s2 \<bind>
        (\<lambda>s3. Some (MoveOk (dp + INTERLEAVE_BANK_CNT C) s3))) (\<lambda>r. run_ok C (move_state r))"
      by (rule total_bindI [OF SetCurMapPage_run [OF s2 pg]]) simp
    show ?case using 1 set bad_dst_run [OF P s2] by (simp only: sy prod.case) simp
  qed
  with False show ?thesis
    by (simp add: move_page_aligned_def GetCurMapPage_in [OF s pg] Let_def)
qed

lemma move_bank_run:
  "keeps_sizes P \<Longrightarrow> run_ok C s \<Longrightarrow> total (move_bank P C l f pg dp s) (\<lambda>r. run_ok C (move_state r))"
proof (induction P C l f pg dp s rule: move_bank.induct)
  case (1 P C l f pg dp s)
  show ?case
  proof (cases "pg < PAGE_CNT_OF_SUPER_BLK C \<and> 0 < INTERLEAVE_BANK_CNT C")
    case False
    then show ?thesis using "1.prems" by (subst move_bank.simps) auto
  next
    case True
    then have pg: "pg < PAGE_CNT_OF_SUPER_BLK C" by simp
    from move_page_aligned_run [OF "1.prems" pg, of l f dp] obtain q where
      q: "move_page_aligned P C l f pg dp s = Some q" "run_ok C (move_state q)" by (auto simp: total_iff)
    show ?thesis
      using True q "1.IH" [OF True q(1) _ "1.prems"(1)] by (subst move_bank.simps) (cases q; simp)
  qed
qed

lemma move_banks_run:
  "keeps_sizes P \<Longrightarrow> run_ok C s \<Longrightarrow> total (move_banks P C l f n bank lu s) (\<lambda>r. run_ok C (move_state r))"
proof (induction n arbitrary: bank lu s)
  case (Suc n)
  from move_bank_run [OF Suc.prems, of l f bank bank] obtain q where
    q: "move_bank P C l f bank bank s = Some q" "run_ok C (move_state q)" by (auto simp: total_iff)
  show ?case
  proof (cases q)
    case (MoveOk d s1)
    let ?page0 = "if bank = 0 \<and> d = 0
            then do {
              (r1, s2) \<leftarrow> copy_page0 P C (unat (PhyBlkNum l)) 0 (unat (PhyBlkNum f)) 0 s1;
              if r1 = NAND_OP_FALSE then Some (MoveFail s2)
              else
                let DstParam = phys_at C (FULL_BITMAP_OF_SUPER_PAGE C) s2 (unat (PhyBlkNum f)) 0 in
                case SynchBank P (unat (op_BankNum DstParam)) SYNC_BANK_MODE s2 of (r2, s3) \<Rightarrow>
                if r2 \<noteq> NAND_OP_TRUE then bad_dst P C f 0 s3 else Some (MoveOk d s3)
            }
            else Some (MoveOk d s1)"
    have s1: "run_ok C s1" using q MoveOk by simp
    have "total ?page0 (\<lambda>r. run_ok C (move_state r))"
    proof (cases "bank = 0 \<and> d = 0")
      case True
      have "total (copy_page0 P C (unat (PhyBlkNum l)) 0 (unat (PhyBlkNum f)) 0 s1 \<bind> (\<lambda>(r1, s2).
              if r1 = NAND_OP_FALSE then Some (MoveFail s2)
              else
                let DstParam = phys_at C (FULL_BITMAP_OF_SUPER_PAGE C) s2 (unat (PhyBlkNum f)) 0 in
                case SynchBank P (unat (op_BankNum DstParam)) SYNC_BANK_MODE s2 of (r2, s3) \<Rightarrow>
                if r2 \<noteq> NAND_OP_TRUE then bad_dst P C f 0 s3 else Some (MoveOk d s3)))
          (\<lambda>r. run_ok C (move_state r))"
      proof (rule total_bind2 [OF copy_page0_run [OF Suc.prems(1) s1]], goal_cases)
        case (1 r1 s2)
        let ?b = "unat (op_BankNum (phys_at C (FULL_BITMAP_OF_SUPER_PAGE C) s2 (unat (PhyBlkNum f)) 0))"
        obtain r2 s3 where sy: "SynchBank P ?b SYNC_BANK_MODE s2 = (r2, s3)" by fastforce
        have s3: "run_ok C s3" using SynchBank_run [OF sy, of C] 1 by simp
        show ?case
          using 1 s3 bad_dst_run [OF Suc.prems(1) s3] by (simp only: Let_def sy prod.case) simp
      qed
      with True show ?thesis by simp
    qed (use s1 in auto)
    then obtain q' where q': "?page0 = Some q'" "run_ok C (move_state q')" by (auto simp: total_iff)
    have "move_banks P C l f (Suc n) bank lu s = (case q' of
           MoveFail s4 \<Rightarrow> Some (MoveFail s4)
         | MoveRedo b s4 \<Rightarrow> Some (MoveRedo b s4)
         | MoveOk DstPage' s4 \<Rightarrow>
             move_banks P C l f n (Suc bank)
               (if int DstPage' - int (INTERLEAVE_BANK_CNT C) > int lu
                then DstPage' - INTERLEAVE_BANK_CNT C else lu) s4)"
      unfolding move_banks.simps q(1) MoveOk bind.bind_lunit move_result.case q'(1) by (rule refl)
    with q'(2) Suc.IH [OF Suc.prems(1)] show ?thesis by (cases q') simp_all
  qed (use q in simp_all)
qed simp

lemma move_redo_run:
  "keeps_sizes P \<Longrightarrow> run_ok C s \<Longrightarrow> total (move_redo P C l f s) (\<lambda>(r, b, lu, s'). run_ok C s')"
proof (induction P C l f s rule: move_redo.induct)
  case (1 P C l f s)
  from move_banks_run [OF "1.prems", of l f "INTERLEAVE_BANK_CNT C" 0 0] obtain q where
    q: "move_banks P C l f (INTERLEAVE_BANK_CNT C) 0 0 s = Some q" "run_ok C (move_state q)"
    by (auto simp: total_iff)
  show ?case
    using q "1.IH" [OF q(1) _ "1.prems"(1)] by (subst move_redo.simps) (cases q; simp)
qed

lemma simple_copy_run:
  "keeps_sizes P \<Longrightarrow> run_ok C s \<Longrightarrow> total (simple_copy P C D L f pg s) (\<lambda>(r, f', s'). run_ok C s')"
proof (induction P C D L f pg s rule: simple_copy.induct)
  case (1 P C D L f pg s)
  note P = "1.prems"(1) and s = "1.prems"(2)
  show ?case
  proof (cases "pg < PAGE_CNT_OF_LOGIC_BLK C")
    case False
    then show ?thesis using s by (subst simple_copy.simps) simp
  next
    case pg: True
    define w where "w = PAGE_MAP_TBL s ! pg"
    have w: "PMM_GetCurMapPage pg s = Some w" by (simp add: GetCurMapPage_in [OF s pg] w_def)
    define sb where "sb = unat (PhyBlkNum (if w = 0xffff then D else L))"
    define sp where "sp = (if w = 0xffff then pg else unat w)"
    define q where "q = (if w = 0xffff then 2 else 1 :: u8)"
    define src where "src = phys_at C (ucast (junk16 C)) s sb sp"
    define dst where "dst = phys_at C (ucast (junk16 C)) s (unat (PhyBlkNum f)) pg"
    define body where "body = (\<lambda>r1 s1. if r1 \<noteq> (0 :: int) then Some (- 1, f, s1)
       else case SynchBank P (unat (op_BankNum dst)) SYNC_BANK_MODE s1 of (r2, s2) \<Rightarrow>
         if r2 \<noteq> NAND_OP_TRUE
         then do {
           (r3, sub, s3) \<leftarrow> LML_BadBlkManage P C f (unat (CUR_MAP_ZONE s2)) pg True s2;
           if r3 \<noteq> NAND_OP_TRUE then Some (- 1, f, s3)
           else do { SubBlk \<leftarrow> sub; simple_copy P C D L SubBlk pg s3 }
         }
         else simple_copy P C D L f (Suc pg) s2)"
    have eq: "simple_copy P C D L f pg s =
       (if pg = 0 then copy_page0 P C sb sp (unat (PhyBlkNum f)) q s else Some (PageCopyback P src dst s))
       \<bind> (\<lambda>(r1, s1). body r1 s1)"
      by (subst simple_copy.simps)
        (simp only: pg if_True w bind.bind_lunit Let_def sb_def sp_def src_def dst_def q_def body_def)
    note ih = "1.IH" [OF pg w refl refl refl refl refl, folded sb_def sp_def q_def, folded src_def dst_def]
    from copy_step_run [OF P s, of pg sb sp "unat (PhyBlkNum f)" q src dst] obtain r1 s1 where
      cp: "(if pg = 0 then copy_page0 P C sb sp (unat (PhyBlkNum f)) q s
            else Some (PageCopyback P src dst s)) = Some (r1, s1)" and s1: "run_ok C s1"
      by (auto simp: total_iff)
    obtain r2 s2 where sy: "SynchBank P (unat (op_BankNum dst)) SYNC_BANK_MODE s1 = (r2, s2)" by fastforce
    have s2: "run_ok C s2" using SynchBank_run [OF sy, of C] s1 by simp
    note ih = ih [OF cp refl _ sy [symmetric]]
    consider "r1 \<noteq> 0" | "r1 = 0" "r2 = 0" | "r1 = 0" "r2 \<noteq> 0" by blast
    then have "total (body r1 s1) (\<lambda>(r, f', s'). run_ok C s')"
    proof cases
      case 1
      then show ?thesis by (simp add: body_def s1)
    next
      case 2
      then show ?thesis using ih(2) [OF _ _ P s2] by (simp add: body_def sy del: One_nat_def)
    next
      case 3
      show ?thesis using 3
        by (simp add: body_def sy del: One_nat_def, intro bad_retry_run [OF P s2]; use ih(1) P in auto)
    qed
    then show ?thesis unfolding eq cp by simp
  qed
qed


lemma recycle_blk_run:
  assumes P: "keeps_sizes P" and s: "run_ok C s"
  shows "total (recycle_blk P C b s) (\<lambda>(r, s'). r = 0 \<and> run_ok C s')"
proof -
  let ?z = "unat (CUR_MAP_ZONE s)"
  obtain r1 s1 where e: "LML_VirtualBlkErase P C ?z (unat (PhyBlkNum b)) s = (r1, s1)" by fastforce
  have s1: "run_ok C s1"
    using run_ok_same_tables [OF VirtualBlkErase_frame [OF e] s] VirtualBlkErase_spare [OF e] s
    by (simp add: run_ok_def)
  obtain s2 where m: "MarkBadBlk P C b (unat (CUR_MAP_ZONE s1)) s1 = Some (0, s2)" "spare_ok C s2"
    using MarkBadBlk_total s1 by (fastforce simp: run_ok_def)
  have s2: "run_ok C s2" using run_ok_same_tables [OF MarkBadBlk_frame [OF m(1)] s1 m(2)] .
  have put: "total (BMM_SetFreeBlk C b' s') (\<lambda>(r, s''). run_ok C s'')" if "run_ok C s'" for b' s'
  proof -
    have wf: "cache_wf C (BLK_MAP_CACHE s')" using that by (simp add: run_ok_def)
    from BMM_SetFreeBlk_total [OF this, of b'] obtain x s'' where
      put: "BMM_SetFreeBlk C b' s' = Some (x, s'')" by auto
    have "PAGE_MAP_CACHE s'' = PAGE_MAP_CACHE s'" "dr_spare_buf s'' = dr_spare_buf s'"
      using put by (auto simp: BMM_SetFreeBlk_def Let_def Option.bind_eq_Some_conv split: option.splits)
    moreover have "cache_wf C (BLK_MAP_CACHE s'')"
      using BMM_SetFreeBlk_post [OF wf put] wf by (auto simp: free_added_def)
    ultimately show ?thesis using put that by (simp add: run_ok_def spare_ok_def)
  qed
  show ?thesis
    using e m s1 s2 by (auto simp: recycle_blk_def LML_BadBlkManage_def intro!: total_bind2 [OF put])
qed

lemma ClearCurMapTbl_run [simp]: "run_ok C (PMM_ClearCurMapTbl s) = run_ok C s"
  by (simp add: run_ok_def spare_ok_def PMM_ClearCurMapTbl_def)

lemma SetLogBlk_run:
  assumes s: "run_ok C s" shows "total (BMM_SetLogBlk n l s) (\<lambda>(r, s'). run_ok C s')"
proof -
  have wf: "cache_wf C (BLK_MAP_CACHE s)" using s by (simp add: run_ok_def)
  obtain p q where "GetLogBlkPst n s = Some p" "GetLogBlkPst 0xffff s = Some q"
    using GetLogBlkPst_total [OF wf] by blast
  then obtain r s' where set: "BMM_SetLogBlk n l s = Some (r, s')"
    using GetLogBlkPst_found [of n s] GetLogBlkPst_found [of "0xffff" s]
    by (cases p; cases q) (auto simp: BMM_SetLogBlk_def)
  show ?thesis
    using s BMM_SetLogBlk_post [OF set] unfolding set
    by (auto simp: run_ok_def spare_ok_def cache_wf_def)
qed

lemma SetDataBlk_run:
  assumes "run_ok C s" and "n < DATA_BLK_CNT_OF_ZONE C"
  shows "total (BMM_SetDataBlk C n b s) (\<lambda>(r, s'). run_ok C s')"
  using assms BMM_SetDataBlk_in [of C s n b] by (simp add: run_ok_def spare_ok_def cache_wf_def)

lemma GetFreeBlk_run:
  assumes s: "run_ok C s" shows "total (BMM_GetFreeBlk C ty s) (\<lambda>(r, b, s'). run_ok C s')"
proof -
  have wf: "cache_wf C (BLK_MAP_CACHE s)" using s by (simp add: run_ok_def)
  obtain r b s' where get: "BMM_GetFreeBlk C ty s = Some (r, b, s')"
    using BMM_GetFreeBlk_total [OF wf, of ty] by (metis prod_cases3)
  note f = free_taken_facts [OF get wf]
  have "dr_spare_buf s' = dr_spare_buf s"
    using get by (auto simp: BMM_GetFreeBlk_def Let_def Option.bind_eq_Some_conv split: option.splits)
  with get s f(3,6) show ?thesis by (simp add: run_ok_def spare_ok_def)
qed

lemma GetLogBlk_run: "run_ok C s \<Longrightarrow> total (BMM_GetLogBlk n s) (\<lambda>_. True)"
  using BMM_GetLogBlk_total [of C s n] by (auto simp: run_ok_def total_iff)

lemma GetDataBlk_run:
  "run_ok C s \<Longrightarrow> n < DATA_BLK_CNT_OF_ZONE C \<Longrightarrow> total (BMM_GetDataBlk C n s) (\<lambda>_. True)"
  using BMM_GetDataBlk_in [of C s n] by (simp add: run_ok_def)

lemma swap_merge_run:
  assumes P: "keeps_sizes P" and s: "run_ok C s" and n: "n < DATA_BLK_CNT_OF_ZONE C"
  shows "total (log2data_swap_merge P C n s) (\<lambda>(r, s'). run_ok C s')"
proof -
  obtain r0 D where D: "BMM_GetDataBlk C n s = Some (r0, D)"
    using GetDataBlk_run [OF s n] by (auto simp: total_iff)
  obtain rl L where L: "BMM_GetLogBlk n s = Some (rl, L)"
    using GetLogBlk_run [OF s, of n] by (auto simp: total_iff)
  obtain r1 L' s1 where cp: "swap_copy P C (unat (PhyBlkNum D)) (PhyBlk L) (unat (LastUsedPage L + 1)) s
      = Some (r1, L', s1)" "run_ok C s1"
    using swap_copy_run [OF P s, of "unat (PhyBlkNum D)" "PhyBlk L" "unat (LastUsedPage L + 1)"]
    by (auto simp: total_iff)
  obtain r2 s2 where sd: "BMM_SetDataBlk C n L' s1 = Some (r2, s2)" "run_ok C s2"
    using SetDataBlk_run [OF cp(2) n, of L'] by (auto simp: total_iff)
  obtain r3 s3 where sl: "BMM_SetLogBlk n empty_log_blk s2 = Some (r3, s3)" "run_ok C s3"
    using SetLogBlk_run [OF sd(2), of n empty_log_blk] by (auto simp: total_iff)
  obtain r4 s4 where rc: "recycle_blk P C D s3 = Some (r4, s4)" "run_ok C s4"
    using recycle_blk_run [OF P sl(2), of D] by (auto simp: total_iff)
  show ?thesis
    using D L cp sd sl rc by (simp add: log2data_swap_merge_def)
qed

lemma simple_merge_run:
  assumes P: "keeps_sizes P" and s: "run_ok C s" and n: "n < DATA_BLK_CNT_OF_ZONE C"
  shows "total (free2data_simple_merge P C n s) (\<lambda>(r, s'). run_ok C s')"
proof -
  obtain rd D where D: "BMM_GetDataBlk C n s = Some (rd, D)"
    using GetDataBlk_run [OF s n] by (auto simp: total_iff)
  obtain r0 F s0 where F: "BMM_GetFreeBlk C LOWEST_EC_TYPE s = Some (r0, F, s0)" "run_ok C s0"
    using GetFreeBlk_run [OF s, of LOWEST_EC_TYPE] by (auto simp: total_iff)
  obtain rl L where L: "BMM_GetLogBlk n s0 = Some (rl, L)"
    using GetLogBlk_run [OF F(2), of n] by (auto simp: total_iff)
  obtain r1 F' s1 where cp: "simple_copy P C D (PhyBlk L) F 0 s0 = Some (r1, F', s1)" "run_ok C s1"
    using simple_copy_run [OF P F(2), of D "PhyBlk L" F 0] by (auto simp: total_iff)
  obtain r2 s2 where sd: "BMM_SetDataBlk C n F' s1 = Some (r2, s2)" "run_ok C s2"
    using SetDataBlk_run [OF cp(2) n, of F'] by (auto simp: total_iff)
  obtain r3 s3 where rd: "recycle_blk P C D s2 = Some (r3, s3)" "run_ok C s3"
    using recycle_blk_run [OF P sd(2), of D] by (auto simp: total_iff)
  obtain r4 s4 where rl: "recycle_blk P C (PhyBlk L) s3 = Some (r4, s4)" "run_ok C s4"
    using recycle_blk_run [OF P rd(2), of "PhyBlk L"] by (auto simp: total_iff)
  obtain r5 s5 where sl: "BMM_SetLogBlk n empty_log_blk s4 = Some (r5, s5)" "run_ok C s5"
    using SetLogBlk_run [OF rl(2), of n empty_log_blk] by (auto simp: total_iff)
  show ?thesis
    using D F L cp sd rd rl sl by (simp add: free2data_simple_merge_def)
qed

lemma move_merge_run:
  assumes P: "keeps_sizes P" and s: "run_ok C s" and al: "SUPPORT_ALIGN_NAND_BNK C"
  shows "total (free2log_move_merge P C n s) (\<lambda>(r, s'). run_ok C s')"
proof -
  obtain rl L where L: "BMM_GetLogBlk n s = Some (rl, L)"
    using GetLogBlk_run [OF s, of n] by (auto simp: total_iff)
  obtain r0 F s0 where F: "BMM_GetFreeBlk C LOWEST_EC_TYPE s = Some (r0, F, s0)" "run_ok C s0"
    using GetFreeBlk_run [OF s, of LOWEST_EC_TYPE] by (auto simp: total_iff)
  obtain r1 F' lu s1 where cp: "move_redo P C (PhyBlk L) F s0 = Some (r1, F', lu, s1)" "run_ok C s1"
    using move_redo_run [OF P F(2), of "PhyBlk L" F] by (auto simp: total_iff)
  obtain r2 s2 where rc: "recycle_blk P C (PhyBlk L) s1 = Some (r2, s2)" "run_ok C s2"
    using recycle_blk_run [OF P cp(2), of "PhyBlk L"] by (auto simp: total_iff)
  obtain r3 s3 where sl: "BMM_SetLogBlk n (L\<lparr>PhyBlk := F', LastUsedPage := of_nat lu\<rparr>) s2 = Some (r3, s3)"
    "run_ok C s3"
    using SetLogBlk_run [OF rc(2), of n "L\<lparr>PhyBlk := F', LastUsedPage := of_nat lu\<rparr>"] by (auto simp: total_iff)
  show ?thesis
    using L F cp rc sl al by (simp add: free2log_move_merge_def)
qed

lemma page_map_info_total:
  "i + k = length (PAGE_MAP_TBL s) \<Longrightarrow> \<exists>x. page_map_info k i ord v s = Some x"
  using page_map_info_run [of i k s ord v] by blast

lemma MergeLogBlk_run:
  assumes P: "keeps_sizes P" and s: "run_ok C s" and n: "n < DATA_BLK_CNT_OF_ZONE C"
    and al: "SUPPORT_ALIGN_NAND_BNK C \<or> mode = NORMAL_MERGE_MODE"
  shows "total (LML_MergeLogBlk P C mode n s) (\<lambda>(r, s'). run_ok C s')"
proof -
  obtain rl L where L: "BMM_GetLogBlk n s = Some (rl, L)"
    using GetLogBlk_run [OF s, of n] by (auto simp: total_iff)
  obtain ord v where info: "get_page_map_tbl_info C n s = Some (ord, v)"
    using page_map_info_total [of 0 "PAGE_CNT_OF_SUPER_BLK C" s True 0] s L
    by (auto simp: get_page_map_tbl_info_def run_ok_def)
  show ?thesis
    using swap_merge_run [OF P s n] simple_merge_run [OF P s n] move_merge_run [OF P s] al info
    by (auto simp: LML_MergeLogBlk_def)
qed


text \<open>C3: on a chip whose banks are aligned, and for a normal merge on any chip, merging the log block of a
  logical block returns, whatever the flash reports, and leaves every physical block in the zone's tables at most as
  often as before: a block is never in use twice if none was. Only the active block table changes, and it stays
  well-formed. (A special merge without bank alignment is excluded: \<open>merge.c:294\<close> then decrements the page
  before it is used as an index, and writes entry 65535 of the page table for page 0.)\<close>

theorem MergeLogBlk_no_duplicates:
  assumes "keeps_sizes P" and "run_ok C s" and "n < DATA_BLK_CNT_OF_ZONE C"
    and "SUPPORT_ALIGN_NAND_BNK C \<or> mode = NORMAL_MERGE_MODE"
  shows "\<exists>r s'. LML_MergeLogBlk P C mode n s = Some (r, s') \<and> cache_wf C (BLK_MAP_CACHE s')
    \<and> zone_blocks (BLK_MAP_CACHE s') \<subseteq># zone_blocks (BLK_MAP_CACHE s)
    \<and> (\<forall>b. count (zone_blocks (BLK_MAP_CACHE s)) b \<le> 1 \<longrightarrow> count (zone_blocks (BLK_MAP_CACHE s')) b \<le> 1)
    \<and> dr_blk_act s' = dr_blk_act s \<and> (\<forall>i. i \<noteq> dr_blk_act s \<longrightarrow> dr_blk_pool s' i = dr_blk_pool s i)"
proof -
  from MergeLogBlk_run [OF assms] obtain r s' where run: "LML_MergeLogBlk P C mode n s = Some (r, s')"
    by (auto simp: total_iff)
  from assms(2) have "cache_wf C (BLK_MAP_CACHE s)" by (simp add: run_ok_def)
  from LML_MergeLogBlk_conserves [OF run this assms(3)] run show ?thesis
    by (auto simp: conserves_def only_active_def dest: mset_subset_eq_count intro: order_trans)
qed

lemma sample_run_ok: "run_ok sample_cfg (sample_drv d)"
  by (simp add: run_ok_def sample_spare_ok sample_page_cache_def)

lemma MergeLogBlk_no_duplicates_witness:
  "\<exists>r s'. LML_MergeLogBlk quiet_phy sample_cfg SPECIAL_MERGE_MODE 0 (sample_drv ()) = Some (r, s')
     \<and> zone_blocks (BLK_MAP_CACHE s') \<subseteq># zone_blocks sample_blk_cache"
  using MergeLogBlk_no_duplicates [OF quiet_keeps_sizes sample_run_ok, of 0 SPECIAL_MERGE_MODE "()"] by auto

end
