(* ===== verification/Table_Cache.thy ===== *)
theory Table_Cache
  imports Merge_Total
begin

text \<open>
  The mapping table caches and the tables on flash (\<open>logic/mapping.c\<close>): the checksummed images of a
  page mapping table, a block mapping table and a log block table, the pools of four cached tables
  each with their least-recently-used replacement, the write back and the read of a table, and the
  switch of the active table.

  The images are byte lists in \<open>LML_PROCESS_TBL_BUF\<close>. A write back that meets a bad block starts over
  on a replacement block; each start takes a block out of the pool.
\<close>

section \<open>Images of the tables\<close>

text \<open>A block item is the little-endian word of its two half words, a log item is two such words.\<close>

definition blk_word :: "super_phy_blk \<Rightarrow> u32" where
  "blk_word b = mk32 (PhyBlkNum b) (BlkEraseCnt b)"

definition word_blk :: "u32 \<Rightarrow> super_phy_blk" where
  "word_blk w = \<lparr>PhyBlkNum = lo32 w, BlkEraseCnt = hi32 w\<rparr>"

definition blks_image :: "super_phy_blk list \<Rightarrow> u8 list" where
  "blks_image t = bytes_of_words (map blk_word t)"

definition image_blks :: "u8 list \<Rightarrow> super_phy_blk list" where
  "image_blks b = map word_blk (words_of_bytes b)"

definition log_words :: "log_blk \<Rightarrow> u32 list" where
  "log_words l = [mk32 (LogicBlkNum l) (LastUsedPage l), blk_word (PhyBlk l)]"

definition logs_image :: "log_blk list \<Rightarrow> u8 list" where
  "logs_image t = bytes_of_words (concat (map log_words t))"

fun words_logs :: "u32 list \<Rightarrow> log_blk list" where
  "words_logs (a # b # r) =
     \<lparr>LogicBlkNum = lo32 a, LastUsedPage = hi32 a, PhyBlk = word_blk b\<rparr> # words_logs r"
| "words_logs _ = []"

definition GetTblCheckSum :: "u32 list \<Rightarrow> nat \<Rightarrow> u32 option" where
  "GetTblCheckSum pTblBuf nLength =
     (if nLength \<le> length pTblBuf then Some (foldl (+) 0 (take nLength pTblBuf)) else None)"

definition put_word :: "u8 list \<Rightarrow> nat \<Rightarrow> u32 \<Rightarrow> u8 list option" where
  "put_word buf i w = mem_put buf (4 * i) (bytes32 w)"

definition get_word :: "u8 list \<Rightarrow> nat \<Rightarrow> u32 option" where
  "get_word buf i = arr_get (words_of_bytes buf) i"

lemma word_blk_word [simp, codec_simps]: "word_blk (blk_word b) = b"
  by (simp add: word_blk_def blk_word_def codec_simps)

lemma blk_word_word [simp, codec_simps]: "blk_word (word_blk w) = w"
  by (simp add: word_blk_def blk_word_def codec_simps)

lemma image_blks_image [simp, codec_simps]: "image_blks (blks_image t) = t"
  using words_of_bytes_of_words_app [of "map blk_word t" "[]"]
  by (simp add: image_blks_def blks_image_def comp_def)

lemma length_blks_image [simp]: "length (blks_image t) = 4 * length t"
  by (simp add: blks_image_def)

lemma length_image_blks [simp]: "length (image_blks b) = length b div 4"
  by (simp add: image_blks_def)

lemma length_concat_log_words [simp]: "length (concat (map log_words t)) = 2 * length t"
  by (induction t) (auto simp: log_words_def)

lemma length_logs_image [simp]: "length (logs_image t) = 8 * length t"
  by (simp add: logs_image_def)

lemma words_logs_of_words [simp, codec_simps]: "words_logs (concat (map log_words t)) = t"
  by (induction t) (auto simp: log_words_def)

section \<open>The page mapping table on flash\<close>

text \<open>The image that \<open>_write_back_page_map_tbl\<close> prepares. The two branches on 512 pages copy the
  table item by item or with \<open>MEMCPY\<close>, to the same bytes.\<close>

definition page_tbl_image :: "cfg \<Rightarrow> u16 list \<Rightarrow> u8 list \<Rightarrow> u8 list option" where
  "page_tbl_image C tbl buf = do {
     b0 \<leftarrow> mem_put buf 0 (replicate (SECTOR_CNT_OF_SUPER_PAGE C * SECTOR_SIZE) 0xff);
     items \<leftarrow> mem_get tbl 0 (PAGE_CNT_OF_SUPER_BLK C);
     b1 \<leftarrow> mem_put b0 0 (bytes_of_halves items);
     sum \<leftarrow> GetTblCheckSum (words_of_bytes b1) (PAGE_CNT_OF_SUPER_BLK C * 2 div 4);
     put_word b1 511 sum
   }"

text \<open>The test and the copy of \<open>_read_page_map_tbl\<close>: the table in the buffer, if its checksum is right.\<close>

definition page_tbl_valid :: "cfg \<Rightarrow> u8 list \<Rightarrow> bool option" where
  "page_tbl_valid C buf = do {
     sum \<leftarrow> GetTblCheckSum (words_of_bytes buf) (PAGE_CNT_OF_SUPER_BLK C * 2 div 4);
     w \<leftarrow> get_word buf 511;
     Some (sum = w)
   }"

definition page_tbl_load :: "cfg \<Rightarrow> u8 list \<Rightarrow> u16 list \<Rightarrow> u16 list option" where
  "page_tbl_load C buf tbl = do {
     items \<leftarrow> mem_get (halves_of_bytes buf) 0 (PAGE_CNT_OF_SUPER_BLK C);
     mem_put tbl 0 items
   }"

function rewrite_page_tbl ::
  "'d phy_ops \<Rightarrow> cfg \<Rightarrow> nat \<Rightarrow> u16 \<Rightarrow> u16 \<Rightarrow> 'd drv \<Rightarrow> (int \<times> 'd drv) option" where
  "rewrite_page_tbl P C nLogBlkPst TableBlk TablePage s = do {
     img \<leftarrow> page_tbl_image C (PAGE_MAP_TBL s) (dr_tbl_buf s);
     let s1 = s\<lparr>dr_tbl_buf := img\<rparr>;
     let param = phys_at C (FULL_BITMAP_OF_SUPER_PAGE C) s1 (unat TableBlk) (unat TablePage);
     (_, s2) \<leftarrow> LML_VirtualPageWrite P C param (dr_tbl_buf s1)
                 (Some (enc_ud2 (blank_ud\<lparr>ud_PageStatus := 0xaa\<rparr>, blank_ud))) s1;
     case SynchBank P (unat (op_BankNum param)) SYNC_CHIP_MODE s2 of (r, s3) \<Rightarrow>
     if r \<noteq> NAND_OP_TRUE
     then do {
       (r', sub, s4) \<leftarrow> LML_BadBlkManage P C \<lparr>PhyBlkNum = TableBlk, BlkEraseCnt = junk16 C\<rparr>
                         (unat (CUR_MAP_ZONE s3)) (unat TablePage) True s3;
       if r' \<noteq> NAND_OP_TRUE then Some (NAND_OP_FALSE, s4)
       else do {
         NewBlk \<leftarrow> sub;
         l \<leftarrow> arr_get (LOG_BLK_TBL s4) nLogBlkPst;
         t \<leftarrow> arr_set (LOG_BLK_TBL s4) nLogBlkPst (l\<lparr>PhyBlk := NewBlk\<rparr>);
         rewrite_page_tbl P C nLogBlkPst (PhyBlkNum NewBlk) TablePage (set_log_tbl t s4)
       }
     }
     else do {
       l \<leftarrow> arr_get (LOG_BLK_TBL s3) nLogBlkPst;
       t \<leftarrow> arr_set (LOG_BLK_TBL s3) nLogBlkPst (l\<lparr>LastUsedPage := TablePage\<rparr>);
       let s4 = set_log_tbl t s3;
       Some (NAND_OP_TRUE, set_PAGE_MAP_CACHE
         (PAGE_MAP_CACHE s4\<lparr>pc_ZoneNum := 0xff, pc_LogBlkPst := 0xff\<rparr>) s4)
     }
   }"
  by pat_completeness auto
termination
proof (relation "measure (\<lambda>(P, C, p, b, g, s). size (free_blks C (BLK_MAP_CACHE s)))", goal_cases)
  case 1
  show ?case by simp
next
  case 2
  then show ?case
    by (auto dest!: LML_BadBlkManage_shrinks step_BLK VirtualPageWrite_frame [THEN same_tablesD(11)])
qed

declare rewrite_page_tbl.simps [simp del]

definition write_back_page_map_tbl ::
  "'d phy_ops \<Rightarrow> cfg \<Rightarrow> nat \<Rightarrow> 'd drv \<Rightarrow> (int \<times> 'd drv) option" where
  "write_back_page_map_tbl P C nLogBlkPst s = do {
     l \<leftarrow> arr_get (LOG_BLK_TBL s) nLogBlkPst;
     if unat (LastUsedPage l + 1) = PAGE_CNT_OF_SUPER_BLK C
     then do {
       (r, s1) \<leftarrow> LML_MergeLogBlk P C SPECIAL_MERGE_MODE (unat (LogicBlkNum l)) s;
       if r \<noteq> 0 then Some (NAND_OP_FALSE, s1)
       else if pc_ZoneNum (PAGE_MAP_CACHE s1) \<noteq> 0xff
       then do {
         l' \<leftarrow> arr_get (LOG_BLK_TBL s1) nLogBlkPst;
         rewrite_page_tbl P C nLogBlkPst (PhyBlkNum (PhyBlk l')) (LastUsedPage l' + 1) s1
       }
       else Some (NAND_OP_TRUE, s1)
     }
     else rewrite_page_tbl P C nLogBlkPst (PhyBlkNum (PhyBlk l)) (LastUsedPage l + 1) s
   }"

section \<open>The dirty flag of a zone\<close>

definition write_dirty_flag :: "'d phy_ops \<Rightarrow> cfg \<Rightarrow> nat \<Rightarrow> 'd drv \<Rightarrow> 'd drv option" where
  "write_dirty_flag P C nZone s = do {
     zt \<leftarrow> arr_get (dr_zone_tbl s) nZone;
     buf \<leftarrow> mem_put (dr_tbl_buf s) 0 (replicate 512 0x55);
     let s1 = s\<lparr>dr_tbl_buf := buf\<rparr>;
     let param = LML_CalculatePhyOpPar C (op_with (ucast (junk16 C))) nZone
                   (unat (zt_PhyBlkNum zt)) (unat (zt_TablePst zt) + 3);
     (_, s2) \<leftarrow> LML_VirtualPageWrite P C param (dr_tbl_buf s1)
                 (Some (enc_ud2 (blank_ud\<lparr>ud_PageStatus := 0x55\<rparr>, blank_ud))) s1;
     Some (snd (SynchBank P (unat (op_BankNum param)) SYNC_CHIP_MODE s2))
   }"

definition BMM_SetDirtyFlag :: "'d phy_ops \<Rightarrow> cfg \<Rightarrow> 'd drv \<Rightarrow> 'd drv option" where
  "BMM_SetDirtyFlag P C s =
     (if bc_DirtyFlag (BLK_MAP_CACHE s) = 0
      then do {
        s1 \<leftarrow> write_dirty_flag P C (unat (CUR_MAP_ZONE s)) s;
        Some (set_BLK_MAP_CACHE (BLK_MAP_CACHE s1\<lparr>bc_DirtyFlag := 1\<rparr>) s1)
      }
      else Some s)"

section \<open>Reading a page mapping table\<close>

text \<open>A read of a page into \<open>LML_PROCESS_TBL_BUF\<close>.\<close>

definition ReadTbl ::
  "'d phy_ops \<Rightarrow> cfg \<Rightarrow> phys_op \<Rightarrow> u8 list option \<Rightarrow> 'd drv \<Rightarrow> (int \<times> u8 list \<times> 'd drv) option" where
  "ReadTbl P C op sp s = do {
     (r, m, sp', s1) \<leftarrow> LML_VirtualPageRead P C op (dr_tbl_buf s) sp s;
     Some (r, sp', s1\<lparr>dr_tbl_buf := m\<rparr>)
   }"

text \<open>The loop of \<open>_rebuild_page_map_tbl\<close> over the pages of the log block, \<open>n\<close> to go from
  \<open>TablePage\<close>; \<open>sp\<close> is the array of spare data, which the loop does not clear.\<close>

fun rebuild_pages ::
  "'d phy_ops \<Rightarrow> cfg \<Rightarrow> nat \<Rightarrow> nat \<Rightarrow> nat \<Rightarrow> u8 list \<Rightarrow> 'd drv \<Rightarrow> (int \<times> 'd drv) option" where
  "rebuild_pages P C TableBlk 0 TablePage sp s = Some (NAND_OP_TRUE, s)"
| "rebuild_pages P C TableBlk (Suc n) TablePage sp s = do {
     (ret, sp1, s1) \<leftarrow> ReadTbl P C (phys_at C 3 s TableBlk TablePage) (Some sp) s;
     if ret < 0 then Some (NAND_OP_FALSE, s1)
     else do {
       let logicpagenum = ud_LogicPageNum (fst (dec_ud2 sp1));
       s2 \<leftarrow> (if logicpagenum \<noteq> 0xffff \<and> unat logicpagenum < PAGE_CNT_OF_SUPER_BLK C
              then PMM_SetCurMapPage (unat logicpagenum) (of_nat TablePage) s1 else Some s1);
       rebuild_pages P C TableBlk n (Suc TablePage) sp1 s2
     }
   }"

definition clear_page_tbl :: "cfg \<Rightarrow> 'd drv \<Rightarrow> 'd drv option" where
  "clear_page_tbl C s = do {
     t \<leftarrow> mem_put (PAGE_MAP_TBL s) 0 (replicate (PAGE_CNT_OF_SUPER_BLK C) 0xffff);
     Some (set_page_tbl t s)
   }"

definition rebuild_page_map_tbl ::
  "'d phy_ops \<Rightarrow> cfg \<Rightarrow> nat \<Rightarrow> 'd drv \<Rightarrow> (int \<times> 'd drv) option" where
  "rebuild_page_map_tbl P C nLogBlkPst s = do {
     s0 \<leftarrow> clear_page_tbl C s;
     l \<leftarrow> arr_get (LOG_BLK_TBL s0) nLogBlkPst;
     (r, s1) \<leftarrow> rebuild_pages P C (unat (PhyBlkNum (PhyBlk l))) (PAGE_CNT_OF_SUPER_BLK C) 0
                 (junk_spare C) s0;
     if r \<noteq> NAND_OP_TRUE then Some (NAND_OP_FALSE, s1)
     else do {
       s2 \<leftarrow> BMM_SetDirtyFlag P C
         (set_PAGE_MAP_CACHE (PAGE_MAP_CACHE s1\<lparr>pc_DirtyFlag := 1\<rparr>) s1);
       Some (NAND_OP_TRUE, s2)
     }
   }"

definition read_page_map_tbl ::
  "'d phy_ops \<Rightarrow> cfg \<Rightarrow> nat \<Rightarrow> 'd drv \<Rightarrow> (int \<times> 'd drv) option" where
  "read_page_map_tbl P C nLogBlkPst s = do {
     l \<leftarrow> arr_get (LOG_BLK_TBL s) nLogBlkPst;
     if LastUsedPage l = 0xffff
     then do { s1 \<leftarrow> clear_page_tbl C s; Some (NAND_OP_TRUE, s1) }
     else do {
       (ret, sp, s1) \<leftarrow> ReadTbl P C
         (phys_at C 0xf s (unat (PhyBlkNum (PhyBlk l))) (unat (LastUsedPage l)))
         (Some (junk_spare C)) s;
       valid \<leftarrow> page_tbl_valid C (dr_tbl_buf s1);
       let u = fst (dec_ud2 sp);
       if ret < 0 \<or> ud_PageStatus u \<noteq> 0xaa \<or> ud_LogicPageNum u \<noteq> 0xffff \<or> \<not> valid
       then do {
         (r, s2) \<leftarrow> rebuild_page_map_tbl P C nLogBlkPst s1;
         if r \<noteq> NAND_OP_TRUE then Some (NAND_OP_FALSE, s2) else Some (NAND_OP_TRUE, s2)
       }
       else do {
         t \<leftarrow> page_tbl_load C (dr_tbl_buf s1) (PAGE_MAP_TBL s1);
         Some (NAND_OP_TRUE, set_page_tbl t s1)
       }
     }
   }"

section \<open>The pool of page mapping tables\<close>

definition CalPageTblAccessCount :: "'d drv \<Rightarrow> 'd drv" where
  "CalPageTblAccessCount s =
    (let s1 = s\<lparr>dr_page_pool := (\<lambda>i. let c = dr_page_pool s i in
            if i < PAGE_MAP_TBL_CACHE_CNT then c\<lparr>pc_AccessCnt := pc_AccessCnt c + 1\<rparr> else c)\<rparr>
     in set_PAGE_MAP_CACHE (PAGE_MAP_CACHE s1\<lparr>pc_AccessCnt := 0\<rparr>) s1)"

definition page_map_tbl_cache_hit :: "nat \<Rightarrow> 'd drv \<Rightarrow> int \<times> 'd drv" where
  "page_map_tbl_cache_hit nLogBlkPst s =
    (case find (\<lambda>i. pc_ZoneNum (dr_page_pool s i) = CUR_MAP_ZONE s
                    \<and> unat (pc_LogBlkPst (dr_page_pool s i)) = nLogBlkPst) [0..<PAGE_MAP_TBL_CACHE_CNT] of
       Some i \<Rightarrow> (NAND_OP_TRUE, s\<lparr>dr_page_act := i\<rparr>)
     | None \<Rightarrow> (NAND_OP_FALSE, s))"

text \<open>The loop for the least recently used cache: the index with the greatest access count so far and
  that count.\<close>

fun lru_loop :: "(nat \<Rightarrow> u16) \<Rightarrow> nat list \<Rightarrow> nat \<Rightarrow> u16 \<Rightarrow> nat" where
  "lru_loop cnt [] location access_cnt = location"
| "lru_loop cnt (i # r) location access_cnt =
     (if access_cnt < cnt i then lru_loop cnt r i (cnt i) else lru_loop cnt r location access_cnt)"

definition find_page_tbl_post_location :: "'d drv \<Rightarrow> nat \<times> 'd drv" where
  "find_page_tbl_post_location s =
    (case find (\<lambda>i. pc_ZoneNum (dr_page_pool s i) = 0xff) [0..<PAGE_MAP_TBL_CACHE_CNT] of
       Some i \<Rightarrow> (i, s)
     | None \<Rightarrow>
         (lru_loop (\<lambda>i. pc_AccessCnt (dr_page_pool s i)) [1..<PAGE_MAP_TBL_CACHE_CNT] 0
            (pc_AccessCnt (dr_page_pool s 0)),
          s\<lparr>dr_page_pool := (\<lambda>i. let c = dr_page_pool s i in
             if i < PAGE_MAP_TBL_CACHE_CNT then c\<lparr>pc_AccessCnt := 0\<rparr> else c)\<rparr>))"

text \<open>The write back of the table that leaves the cache: its zone's block tables become the active
  ones while it is written.\<close>

definition page_cache_evict :: "'d phy_ops \<Rightarrow> cfg \<Rightarrow> 'd drv \<Rightarrow> (int \<times> 'd drv) option" where
  "page_cache_evict P C s = do {
     let zone = pc_ZoneNum (PAGE_MAP_CACHE s);
     let act = dr_blk_act s;
     let pst = (if zone \<noteq> CUR_MAP_ZONE s
                then find (\<lambda>i. bc_ZoneNum (dr_blk_pool s i) = zone) [0..<BLOCK_MAP_TBL_CACHE_CNT]
                else Some act);
     case pst of
       None \<Rightarrow> Some (NAND_OP_FALSE, s)
     | Some i \<Rightarrow> do {
         s1 \<leftarrow> BMM_SetDirtyFlag P C (s\<lparr>dr_blk_act := i\<rparr>);
         (r, s2) \<leftarrow> write_back_page_map_tbl P C (unat (pc_LogBlkPst (PAGE_MAP_CACHE s1))) s1;
         if r \<noteq> NAND_OP_TRUE then Some (NAND_OP_FALSE, s2)
         else Some (NAND_OP_TRUE, s2\<lparr>dr_blk_act := act\<rparr>)
       }
   }"

definition page_map_tbl_cache_post ::
  "'d phy_ops \<Rightarrow> cfg \<Rightarrow> nat \<Rightarrow> 'd drv \<Rightarrow> (int \<times> 'd drv) option" where
  "page_map_tbl_cache_post P C nLogBlkPst s = do {
     let (poisition, s0) = find_page_tbl_post_location s;
     let s1 = s0\<lparr>dr_page_act := poisition\<rparr>;
     (r, s2) \<leftarrow> (if pc_DirtyFlag (PAGE_MAP_CACHE s1) \<noteq> 0 \<and> pc_ZoneNum (PAGE_MAP_CACHE s1) \<noteq> 0xff
                 then page_cache_evict P C s1 else Some (NAND_OP_TRUE, s1));
     if r \<noteq> NAND_OP_TRUE then Some (NAND_OP_FALSE, s2)
     else do {
       (r', s3) \<leftarrow> read_page_map_tbl P C nLogBlkPst
         (set_PAGE_MAP_CACHE (PAGE_MAP_CACHE s2\<lparr>pc_DirtyFlag := 0\<rparr>) s2);
       if r' \<noteq> NAND_OP_TRUE then Some (NAND_OP_FALSE, s3)
       else Some (NAND_OP_TRUE, set_PAGE_MAP_CACHE (PAGE_MAP_CACHE s3
              \<lparr>pc_ZoneNum := CUR_MAP_ZONE s3, pc_LogBlkPst := of_nat nLogBlkPst\<rparr>) s3)
     }
   }"

definition PMM_SwitchMapTbl ::
  "'d phy_ops \<Rightarrow> cfg \<Rightarrow> nat \<Rightarrow> 'd drv \<Rightarrow> (int \<times> 'd drv) option" where
  "PMM_SwitchMapTbl P C nLogBlkPst s = do {
     let (hit, s1) = page_map_tbl_cache_hit nLogBlkPst s;
     (result, s2) \<leftarrow> (if hit \<noteq> NAND_OP_TRUE then page_map_tbl_cache_post P C nLogBlkPst s1
                      else Some (NAND_OP_TRUE, s1));
     Some (result, CalPageTblAccessCount s2)
   }"

section \<open>The block mapping tables on flash\<close>

fun write_back_page_tbls ::
  "'d phy_ops \<Rightarrow> cfg \<Rightarrow> u8 \<Rightarrow> nat \<Rightarrow> nat \<Rightarrow> 'd drv \<Rightarrow> (int \<times> 'd drv) option" where
  "write_back_page_tbls P C nZone 0 i s = Some (NAND_OP_TRUE, s)"
| "write_back_page_tbls P C nZone (Suc n) i s =
     (if pc_ZoneNum (dr_page_pool s i) = nZone \<and> pc_DirtyFlag (dr_page_pool s i) = 1
      then do {
        let s0 = s\<lparr>dr_page_act := i\<rparr>;
        (r, s1) \<leftarrow> write_back_page_map_tbl P C (unat (pc_LogBlkPst (PAGE_MAP_CACHE s0))) s0;
        if r \<noteq> NAND_OP_TRUE then Some (NAND_OP_FALSE, s1)
        else write_back_page_tbls P C nZone n (Suc i)
               (set_PAGE_MAP_CACHE (PAGE_MAP_CACHE s1\<lparr>pc_DirtyFlag := 0\<rparr>) s1)
      }
      else write_back_page_tbls P C nZone n (Suc i) s)"

definition write_back_all_page_map_tbl ::
  "'d phy_ops \<Rightarrow> cfg \<Rightarrow> u8 \<Rightarrow> 'd drv \<Rightarrow> (int \<times> 'd drv) option" where
  "write_back_all_page_map_tbl P C nZone s = write_back_page_tbls P C nZone PAGE_MAP_TBL_CACHE_CNT 0 s"

text \<open>One page of the write back: write \<open>LML_PROCESS_TBL_BUF\<close>, wait for the chip, and when the program
  operation failed ask for a replacement block.\<close>

datatype 'd tbl_result = TblFail "'d drv" | TblRedo super_phy_blk "'d drv" | TblOk "'d drv"

definition write_tbl_page ::
  "'d phy_ops \<Rightarrow> cfg \<Rightarrow> nat \<Rightarrow> u16 \<Rightarrow> nat \<Rightarrow> user_data \<times> user_data \<Rightarrow> 'd drv \<Rightarrow> 'd tbl_result option" where
  "write_tbl_page P C nZone TableBlk TablePage UserData s = do {
     let param = LML_CalculatePhyOpPar C (op_with (FULL_BITMAP_OF_SUPER_PAGE C)) nZone
                   (unat TableBlk) TablePage;
     (_, s1) \<leftarrow> LML_VirtualPageWrite P C param (dr_tbl_buf s) (Some (enc_ud2 UserData)) s;
     case SynchBank P (unat (op_BankNum param)) SYNC_CHIP_MODE s1 of (r, s2) \<Rightarrow>
     if r \<noteq> NAND_OP_TRUE
     then do {
       (r', sub, s3) \<leftarrow> LML_BadBlkManage P C \<lparr>PhyBlkNum = TableBlk, BlkEraseCnt = junk16 C\<rparr> nZone 0 True s2;
       if r' \<noteq> NAND_OP_TRUE then Some (TblFail s3)
       else do { NewBlk \<leftarrow> sub; Some (TblRedo NewBlk s3) }
     }
     else Some (TblOk s2)
   }"

definition status55 :: "user_data \<times> user_data" where
  "status55 = (blank_ud\<lparr>ud_PageStatus := 0x55\<rparr>, blank_ud)"

definition table_page_ud :: "cfg \<Rightarrow> nat \<Rightarrow> nat \<Rightarrow> user_data \<times> user_data" where
  "table_page_ud C nZone TablePage =
     (if TablePage = 0
      then (blank_ud\<lparr>ud_LogicInfo :=
              (push_bit 14 1 OR push_bit 10 (of_nat (nZone mod ZONE_CNT_OF_DIE C)) OR 0xaa),
              ud_PageStatus := 0x55\<rparr>, blank_ud)
      else status55)"

text \<open>The image of the log block table with its checksum.\<close>

definition log_tbl_image :: "cfg \<Rightarrow> log_blk list \<Rightarrow> u8 list \<Rightarrow> u8 list option" where
  "log_tbl_image C tbl buf = do {
     b0 \<leftarrow> mem_put buf 0 (replicate (SECTOR_CNT_OF_SUPER_PAGE C * SECTOR_SIZE) 0xff);
     items \<leftarrow> mem_get tbl 0 LOG_BLK_CNT_OF_ZONE;
     b1 \<leftarrow> mem_put b0 0 (logs_image items);
     sum \<leftarrow> GetTblCheckSum (words_of_bytes b1) (LOG_BLK_CNT_OF_ZONE * 8 div 4);
     put_word b1 511 sum
   }"

text \<open>The three pages from the label \<open>rewrite\<close> on.\<close>

definition rewrite_round ::
  "'d phy_ops \<Rightarrow> cfg \<Rightarrow> nat \<Rightarrow> u16 \<Rightarrow> nat \<Rightarrow> 'd drv \<Rightarrow> 'd tbl_result option" where
  "rewrite_round P C nZone TableBlk TablePage s = do {
     h0 \<leftarrow> mem_get (bc_Tbl (BLK_MAP_CACHE s)) 0 512;
     b0 \<leftarrow> mem_put (dr_tbl_buf s) 0 (blks_image h0);
     r0 \<leftarrow> write_tbl_page P C nZone TableBlk TablePage (table_page_ud C nZone TablePage)
             (s\<lparr>dr_tbl_buf := b0\<rparr>);
     case r0 of TblFail s1 \<Rightarrow> Some (TblFail s1) | TblRedo b s1 \<Rightarrow> Some (TblRedo b s1)
     | TblOk s1 \<Rightarrow> do {
       h1 \<leftarrow> mem_get (bc_Tbl (BLK_MAP_CACHE s1)) 512 512;
       b1 \<leftarrow> mem_put (dr_tbl_buf s1) 0 (blks_image h1);
       r1 \<leftarrow> write_tbl_page P C nZone TableBlk (TablePage + 1) status55 (s1\<lparr>dr_tbl_buf := b1\<rparr>);
       case r1 of TblFail s2 \<Rightarrow> Some (TblFail s2) | TblRedo b s2 \<Rightarrow> Some (TblRedo b s2)
       | TblOk s2 \<Rightarrow> do {
         b2 \<leftarrow> log_tbl_image C (LOG_BLK_TBL s2) (dr_tbl_buf s2);
         write_tbl_page P C nZone TableBlk (TablePage + 2) status55 (s2\<lparr>dr_tbl_buf := b2\<rparr>)
       }
     }
   }"

definition tbl_shrinks :: "cfg \<Rightarrow> 'd drv \<Rightarrow> 'd tbl_result \<Rightarrow> bool" where
  "tbl_shrinks C s r = (case r of
       TblFail _ \<Rightarrow> True
     | TblRedo _ s' \<Rightarrow> size (free_blks C (BLK_MAP_CACHE s')) < size (free_blks C (BLK_MAP_CACHE s))
     | TblOk s' \<Rightarrow> same_tables s s')"

lemma tbl_shrinks_simps [simp]:
  "tbl_shrinks C s (TblFail s')"
  "tbl_shrinks C s (TblRedo b s') \<longleftrightarrow>
     size (free_blks C (BLK_MAP_CACHE s')) < size (free_blks C (BLK_MAP_CACHE s))"
  "tbl_shrinks C s (TblOk s') \<longleftrightarrow> same_tables s s'"
  by (simp_all add: tbl_shrinks_def)

lemma write_tbl_page_shrinks:
  "write_tbl_page P C z b pg u s = Some r \<Longrightarrow> tbl_shrinks C s r"
  by (auto simp: write_tbl_page_def Let_def Option.bind_eq_Some_conv case_prod_beta split: if_splits
      dest!: VirtualPageWrite_frame LML_BadBlkManage_shrinks simp: same_tablesD(11)
      intro: same_tables_trans [OF _ same_tables_snd(1)])

lemma tbl_shrinks_start: "same_tables s s1 \<Longrightarrow> tbl_shrinks C s1 r \<Longrightarrow> tbl_shrinks C s r"
  by (cases r) (auto simp: same_tablesD(11) intro: same_tables_trans)

lemma tbl_shrinks_buf [simp]: "tbl_shrinks C (s\<lparr>dr_tbl_buf := b\<rparr>) r = tbl_shrinks C s r"
  by (cases r) (auto simp: same_tables_def)

lemma rewrite_round_shrinks:
  assumes "rewrite_round P C z b pg s = Some r"
  shows "tbl_shrinks C s r"
proof -
  from assms obtain b0 r0 where
    r0: "write_tbl_page P C z b pg (table_page_ud C z pg) (s\<lparr>dr_tbl_buf := b0\<rparr>) = Some r0"
    and rest0: "(case r0 of TblFail s1 \<Rightarrow> Some (TblFail s1) | TblRedo b s1 \<Rightarrow> Some (TblRedo b s1)
     | TblOk s1 \<Rightarrow> do {
       h1 \<leftarrow> mem_get (bc_Tbl (BLK_MAP_CACHE s1)) 512 512;
       b1 \<leftarrow> mem_put (dr_tbl_buf s1) 0 (blks_image h1);
       r1 \<leftarrow> write_tbl_page P C z b (Suc pg) status55 (s1\<lparr>dr_tbl_buf := b1\<rparr>);
       case r1 of TblFail s2 \<Rightarrow> Some (TblFail s2) | TblRedo b s2 \<Rightarrow> Some (TblRedo b s2)
       | TblOk s2 \<Rightarrow> do {
         b2 \<leftarrow> log_tbl_image C (LOG_BLK_TBL s2) (dr_tbl_buf s2);
         write_tbl_page P C z b (Suc (Suc pg)) status55 (s2\<lparr>dr_tbl_buf := b2\<rparr>)
       }
     }) = Some r"
    by (auto simp: rewrite_round_def Option.bind_eq_Some_conv)
  note sh0 = write_tbl_page_shrinks [OF r0, unfolded tbl_shrinks_buf]
  show ?thesis
  proof (cases r0)
    case (TblOk s1)
    with rest0 obtain b1 r1 where
      r1: "write_tbl_page P C z b (Suc pg) status55 (s1\<lparr>dr_tbl_buf := b1\<rparr>) = Some r1"
      and rest1: "(case r1 of TblFail s2 \<Rightarrow> Some (TblFail s2) | TblRedo b s2 \<Rightarrow> Some (TblRedo b s2)
       | TblOk s2 \<Rightarrow> do {
         b2 \<leftarrow> log_tbl_image C (LOG_BLK_TBL s2) (dr_tbl_buf s2);
         write_tbl_page P C z b (Suc (Suc pg)) status55 (s2\<lparr>dr_tbl_buf := b2\<rparr>)
       }) = Some r"
      by (auto simp: Option.bind_eq_Some_conv)
    from sh0 TblOk have s1: "same_tables s s1" by simp
    note sh1 = tbl_shrinks_start [OF s1 write_tbl_page_shrinks [OF r1, unfolded tbl_shrinks_buf]]
    show ?thesis
    proof (cases r1)
      case (TblOk s2)
      with rest1 obtain b2 where
        "write_tbl_page P C z b (Suc (Suc pg)) status55 (s2\<lparr>dr_tbl_buf := b2\<rparr>) = Some r"
        by (auto simp: Option.bind_eq_Some_conv)
      from write_tbl_page_shrinks [OF this, unfolded tbl_shrinks_buf] sh1 TblOk show ?thesis
        by (auto intro: tbl_shrinks_start)
    qed (use rest1 sh1 in auto)
  qed (use rest0 sh0 in auto)
qed

function rewrite_block_tbl ::
  "'d phy_ops \<Rightarrow> cfg \<Rightarrow> nat \<Rightarrow> u16 \<Rightarrow> nat \<Rightarrow> 'd drv \<Rightarrow> (int \<times> 'd drv) option" where
  "rewrite_block_tbl P C nZone TableBlk TablePage s = do {
     r \<leftarrow> rewrite_round P C nZone TableBlk TablePage s;
     case r of
       TblFail s1 \<Rightarrow> Some (NAND_OP_FALSE, s1)
     | TblRedo NewBlk s1 \<Rightarrow> rewrite_block_tbl P C nZone (PhyBlkNum NewBlk) 0 s1
     | TblOk s1 \<Rightarrow> do {
         zt \<leftarrow> arr_set (dr_zone_tbl s1) nZone \<lparr>zt_PhyBlkNum = TableBlk, zt_TablePst = of_nat TablePage\<rparr>;
         Some (NAND_OP_TRUE, s1\<lparr>dr_zone_tbl := zt\<rparr>)
       }
   }"
  by pat_completeness auto
termination
proof (relation "measure (\<lambda>(P, C, z, b, pg, s). size (free_blks C (BLK_MAP_CACHE s)))", goal_cases)
  case 1
  show ?case by simp
next
  case 2
  then show ?case by (auto dest!: rewrite_round_shrinks)
qed

declare rewrite_block_tbl.simps [simp del]

text \<open>The checksum of the data and free items goes into the last word of the table.\<close>

definition block_tbl_sum :: "cfg \<Rightarrow> super_phy_blk list \<Rightarrow> super_phy_blk list option" where
  "block_tbl_sum C tbl = do {
     sum \<leftarrow> GetTblCheckSum (map blk_word tbl) (DATA_BLK_CNT_OF_ZONE C + FREE_BLK_CNT_OF_ZONE C);
     arr_set tbl 1023 (word_blk sum)
   }"

definition write_back_block_map_tbl ::
  "'d phy_ops \<Rightarrow> cfg \<Rightarrow> u8 \<Rightarrow> 'd drv \<Rightarrow> (int \<times> 'd drv) option" where
  "write_back_block_map_tbl P C nZone s = do {
     (r, s1) \<leftarrow> write_back_all_page_map_tbl P C nZone s;
     if r \<noteq> NAND_OP_TRUE then Some (NAND_OP_FALSE, s1)
     else do {
       zt \<leftarrow> arr_get (dr_zone_tbl s1) (unat nZone);
       (r2, TableBlk, TablePage, s2) \<leftarrow>
         (if int (unat (zt_TablePst zt)) \<ge> int (PAGE_CNT_OF_SUPER_BLK C) - 4
          then case LML_VirtualBlkErase P C (unat nZone) (unat (zt_PhyBlkNum zt)) s1 of (re, sa) \<Rightarrow>
            if re \<noteq> NAND_OP_TRUE
            then do {
              (rb, sub, sb) \<leftarrow> LML_BadBlkManage P C
                \<lparr>PhyBlkNum = zt_PhyBlkNum zt, BlkEraseCnt = junk16 C\<rparr> (unat (CUR_MAP_ZONE sa)) 0 True sa;
              if rb \<noteq> NAND_OP_TRUE then Some (NAND_OP_FALSE, zt_PhyBlkNum zt, 0, sb)
              else do { NewBlk \<leftarrow> sub; Some (NAND_OP_TRUE, PhyBlkNum NewBlk, 0, sb) }
            }
            else Some (NAND_OP_TRUE, zt_PhyBlkNum zt, 0, sa)
          else Some (NAND_OP_TRUE, zt_PhyBlkNum zt, unat (zt_TablePst zt) + 4, s1));
       if r2 \<noteq> NAND_OP_TRUE then Some (NAND_OP_FALSE, s2)
       else do {
         tbl \<leftarrow> block_tbl_sum C (bc_Tbl (BLK_MAP_CACHE s2));
         let s3 = set_tbl tbl s2;
         buf \<leftarrow> mem_put (dr_tbl_buf s3) 0 (replicate (SECTOR_CNT_OF_SUPER_PAGE C * SECTOR_SIZE) 0xff);
         rewrite_block_tbl P C (unat nZone) TableBlk TablePage (s3\<lparr>dr_tbl_buf := buf\<rparr>)
       }
     }
   }"

definition read_tbl_page ::
  "'d phy_ops \<Rightarrow> cfg \<Rightarrow> nat \<Rightarrow> nat \<Rightarrow> nat \<Rightarrow> 'd drv \<Rightarrow> (int \<times> 'd drv) option" where
  "read_tbl_page P C nZone TableBlk TablePage s = do {
     (r, _, s1) \<leftarrow> ReadTbl P C (LML_CalculatePhyOpPar C (op_with 0xf) nZone TableBlk TablePage) None s;
     Some (r, s1)
   }"

definition read_block_map_tbl ::
  "'d phy_ops \<Rightarrow> cfg \<Rightarrow> u8 \<Rightarrow> 'd drv \<Rightarrow> (int \<times> 'd drv) option" where
  "read_block_map_tbl P C nZone s = do {
     zt \<leftarrow> arr_get (dr_zone_tbl s) (unat nZone);
     let TableBlk = unat (zt_PhyBlkNum zt);
     let TablePage = unat (zt_TablePst zt);
     (r1, s1) \<leftarrow> read_tbl_page P C (unat nZone) TableBlk TablePage s;
     if r1 < 0 then Some (NAND_OP_FALSE, s1)
     else do {
       m1 \<leftarrow> mem_get (dr_tbl_buf s1) 0 2048;
       t1 \<leftarrow> mem_put (bc_Tbl (BLK_MAP_CACHE s1)) 0 (image_blks m1);
       (r2, s2) \<leftarrow> read_tbl_page P C (unat nZone) TableBlk (TablePage + 1) (set_tbl t1 s1);
       if r2 < 0 then Some (NAND_OP_FALSE, s2)
       else do {
         m2 \<leftarrow> mem_get (dr_tbl_buf s2) 0 2048;
         t2 \<leftarrow> mem_put (bc_Tbl (BLK_MAP_CACHE s2)) 512 (image_blks m2);
         let s3 = set_tbl t2 s2;
         last \<leftarrow> arr_get t2 1023;
         sum \<leftarrow> GetTblCheckSum (map blk_word t2) (DATA_BLK_CNT_OF_ZONE C + FREE_BLK_CNT_OF_ZONE C);
         if blk_word last \<noteq> sum then Some (NAND_OP_FALSE, s3)
         else do {
           (r3, s4) \<leftarrow> read_tbl_page P C (unat nZone) TableBlk (TablePage + 2) s3;
           if r3 < 0 then Some (NAND_OP_FALSE, s4)
           else do {
             w \<leftarrow> get_word (dr_tbl_buf s4) 511;
             lsum \<leftarrow> GetTblCheckSum (words_of_bytes (dr_tbl_buf s4)) (LOG_BLK_CNT_OF_ZONE * 8 div 4);
             if w \<noteq> lsum then Some (NAND_OP_FALSE, s4)
             else do {
               m3 \<leftarrow> mem_get (dr_tbl_buf s4) 0 (LOG_BLK_CNT_OF_ZONE * 8);
               lt \<leftarrow> mem_put (LOG_BLK_TBL s4) 0 (words_logs (words_of_bytes m3));
               Some (NAND_OP_TRUE, set_log_tbl lt s4)
             }
           }
         }
       }
     }
   }"

section \<open>The pool of block mapping tables\<close>

definition CalBlkTblAccessCount :: "'d drv \<Rightarrow> 'd drv" where
  "CalBlkTblAccessCount s =
    (let s1 = s\<lparr>dr_blk_pool := (\<lambda>i. let c = dr_blk_pool s i in
            if i < BLOCK_MAP_TBL_CACHE_CNT then c\<lparr>bc_AccessCnt := bc_AccessCnt c + 1\<rparr> else c)\<rparr>
     in set_BLK_MAP_CACHE (BLK_MAP_CACHE s1\<lparr>bc_AccessCnt := 0\<rparr>) s1)"

definition blk_map_tbl_cache_hit :: "nat \<Rightarrow> 'd drv \<Rightarrow> int \<times> 'd drv" where
  "blk_map_tbl_cache_hit nZone s =
    (case find (\<lambda>i. unat (bc_ZoneNum (dr_blk_pool s i)) = nZone) [0..<BLOCK_MAP_TBL_CACHE_CNT] of
       Some i \<Rightarrow> (NAND_OP_TRUE, s\<lparr>dr_blk_act := i\<rparr>)
     | None \<Rightarrow> (NAND_OP_FALSE, s))"

definition find_blk_tbl_post_location :: "'d drv \<Rightarrow> nat \<times> 'd drv" where
  "find_blk_tbl_post_location s =
    (case find (\<lambda>i. bc_ZoneNum (dr_blk_pool s i) = 0xff) [0..<BLOCK_MAP_TBL_CACHE_CNT] of
       Some i \<Rightarrow> (i, s)
     | None \<Rightarrow>
         (lru_loop (\<lambda>i. bc_AccessCnt (dr_blk_pool s i)) [1..<BLOCK_MAP_TBL_CACHE_CNT] 0
            (bc_AccessCnt (dr_blk_pool s 0)),
          s\<lparr>dr_blk_pool := (\<lambda>i. let c = dr_blk_pool s i in
             if i < BLOCK_MAP_TBL_CACHE_CNT then c\<lparr>bc_AccessCnt := 0\<rparr> else c)\<rparr>))"

definition blk_map_tbl_cache_post ::
  "'d phy_ops \<Rightarrow> cfg \<Rightarrow> nat \<Rightarrow> 'd drv \<Rightarrow> (int \<times> 'd drv) option" where
  "blk_map_tbl_cache_post P C nZone s = do {
     let (poisition, s0) = find_blk_tbl_post_location s;
     let s1 = s0\<lparr>dr_blk_act := poisition\<rparr>;
     (r, s2) \<leftarrow> (if bc_DirtyFlag (BLK_MAP_CACHE s1) \<noteq> 0
                 then write_back_block_map_tbl P C (CUR_MAP_ZONE s1) s1
                 else Some (NAND_OP_TRUE, s1));
     if r \<noteq> NAND_OP_TRUE then Some (NAND_OP_FALSE, s2)
     else do {
       (r', s3) \<leftarrow> read_block_map_tbl P C (of_nat nZone) s2;
       if r' \<noteq> NAND_OP_TRUE then Some (NAND_OP_FALSE, s3)
       else Some (NAND_OP_TRUE, set_BLK_MAP_CACHE
              (BLK_MAP_CACHE s3\<lparr>bc_ZoneNum := of_nat nZone, bc_DirtyFlag := 0\<rparr>) s3)
     }
   }"

definition BMM_SwitchMapTbl ::
  "'d phy_ops \<Rightarrow> cfg \<Rightarrow> nat \<Rightarrow> 'd drv \<Rightarrow> (int \<times> 'd drv) option" where
  "BMM_SwitchMapTbl P C nZone s = do {
     let (hit, s1) = blk_map_tbl_cache_hit nZone s;
     (result, s2) \<leftarrow> (if hit \<noteq> NAND_OP_TRUE then blk_map_tbl_cache_post P C nZone s1
                      else Some (NAND_OP_TRUE, s1));
     Some (result, CalBlkTblAccessCount s2)
   }"

fun write_back_blk_tbls ::
  "'d phy_ops \<Rightarrow> cfg \<Rightarrow> nat \<Rightarrow> nat \<Rightarrow> 'd drv \<Rightarrow> (int \<times> 'd drv) option" where
  "write_back_blk_tbls P C 0 i s = Some (NAND_OP_TRUE, s)"
| "write_back_blk_tbls P C (Suc n) i s =
     (if bc_DirtyFlag (dr_blk_pool s i) \<noteq> 0
      then do {
        let s0 = s\<lparr>dr_blk_act := i\<rparr>;
        (r, s1) \<leftarrow> write_back_block_map_tbl P C (CUR_MAP_ZONE s0) s0;
        if r \<noteq> NAND_OP_TRUE then Some (NAND_OP_FALSE, s1)
        else write_back_blk_tbls P C n (Suc i)
               (set_BLK_MAP_CACHE (BLK_MAP_CACHE s1\<lparr>bc_DirtyFlag := 0\<rparr>) s1)
      }
      else write_back_blk_tbls P C n (Suc i) s)"

definition BMM_WriteBackAllMapTbl :: "'d phy_ops \<Rightarrow> cfg \<Rightarrow> 'd drv \<Rightarrow> (int \<times> 'd drv) option" where
  "BMM_WriteBackAllMapTbl P C s = do {
     (r, s1) \<leftarrow> write_back_blk_tbls P C BLOCK_MAP_TBL_CACHE_CNT 0 s;
     if r \<noteq> NAND_OP_TRUE then Some (NAND_OP_FALSE, s1)
     else Some (NAND_OP_TRUE, s1\<lparr>dr_blk_act := dr_blk_act s, dr_page_act := dr_page_act s\<rparr>)
   }"

section \<open>Initialisation of the caches\<close>

text \<open>\<open>mem i\<close> is what \<open>MALLOC\<close> returns for the tables of cache \<open>i\<close>: \<^term>\<open>None\<close> when it fails, else the
  (arbitrary) content of the new memory.\<close>

fun init_page_caches :: "(nat \<Rightarrow> u16 list option) \<Rightarrow> nat \<Rightarrow> nat \<Rightarrow> 'd drv \<Rightarrow> int \<times> 'd drv" where
  "init_page_caches mem 0 i s = (NAND_OP_TRUE, s)"
| "init_page_caches mem (Suc n) i s =
    (let c = (dr_page_pool s i)\<lparr>pc_AccessCnt := 0, pc_DirtyFlag := 0, pc_LogBlkPst := 0xff,
                               pc_ZoneNum := 0xff\<rparr>
     in case mem i of
          None \<Rightarrow> (- ERR_MAPPING, s\<lparr>dr_page_pool := (dr_page_pool s)(i := c)\<rparr>)
        | Some t \<Rightarrow> init_page_caches mem n (Suc i)
                      (s\<lparr>dr_page_pool := (dr_page_pool s)(i := c\<lparr>pc_PageMapTbl := t\<rparr>)\<rparr>))"

definition PMM_InitMapTblCache :: "(nat \<Rightarrow> u16 list option) \<Rightarrow> 'd drv \<Rightarrow> int \<times> 'd drv" where
  "PMM_InitMapTblCache mem s = init_page_caches mem PAGE_MAP_TBL_CACHE_CNT 0 s"

fun init_blk_caches ::
  "(nat \<Rightarrow> super_phy_blk list option) \<Rightarrow> (nat \<Rightarrow> log_blk list option) \<Rightarrow> nat \<Rightarrow> nat \<Rightarrow> 'd drv
   \<Rightarrow> int \<times> 'd drv" where
  "init_blk_caches mem lmem 0 i s = (NAND_OP_TRUE, s)"
| "init_blk_caches mem lmem (Suc n) i s =
    (let c = (dr_blk_pool s i)\<lparr>bc_ZoneNum := 0xff, bc_DirtyFlag := 0, bc_AccessCnt := 0,
                              bc_LastFreeBlkPst := 0xff\<rparr>
     in case (mem i, lmem i) of
          (Some t, Some l) \<Rightarrow> init_blk_caches mem lmem n (Suc i)
             (s\<lparr>dr_blk_pool := (dr_blk_pool s)(i := c\<lparr>bc_Tbl := t, bc_LogBlkTbl := l\<rparr>)\<rparr>)
        | _ \<Rightarrow> (- ERR_MALLOC, s\<lparr>dr_blk_pool := (dr_blk_pool s)(i := c)\<rparr>))"

text \<open>The final \<open>MEMSET\<close> is given the number of ages, not of their bytes: it clears half of them.\<close>

definition BMM_InitMapTblCache ::
  "(nat \<Rightarrow> super_phy_blk list option) \<Rightarrow> (nat \<Rightarrow> log_blk list option) \<Rightarrow> 'd drv
   \<Rightarrow> (int \<times> 'd drv) option" where
  "BMM_InitMapTblCache mem lmem s =
    (case init_blk_caches mem lmem BLOCK_MAP_TBL_CACHE_CNT 0
            (s\<lparr>dr_log_timer := 0, dr_erase_cnter := 0\<rparr>) of (r, s1) \<Rightarrow>
     if r \<noteq> NAND_OP_TRUE then Some (r, s1)
     else do {
       age \<leftarrow> mem_put (dr_log_age s1) 0 (replicate (MAX_LOG_BLK_CNT div 2) 0);
       Some (NAND_OP_TRUE, s1\<lparr>dr_log_age := age\<rparr>)
     })"

section \<open>Properties of the table images\<close>

lemma words_of_bytes_bytes32 [simp]: "words_of_bytes (bytes32 w) = [w]"
  by (simp add: bytes32_def bytes16_def)

lemma length_bytes32 [simp]: "length (bytes32 w) = 4"
  by (simp add: bytes32_def bytes16_def)

lemma put_word_in:
  assumes "4 * i + 4 \<le> length buf"
  shows "put_word buf i w = Some (take (4 * i) buf @ bytes32 w @ drop (4 * i + 4) buf)"
  using assms by (simp add: put_word_def mem_put_def)

lemma put_word_words:
  assumes "put_word buf i w = Some buf'"
  shows "take i (words_of_bytes buf') = take i (words_of_bytes buf)"
    and "get_word buf' i = Some w" and "length buf' = length buf"
    and "take (4 * i) buf' = take (4 * i) buf"
proof -
  from assms have le: "4 * i + 4 \<le> length buf"
    and buf': "buf' = take (4 * i) buf @ bytes32 w @ drop (4 * i + 4) buf"
    by (auto simp: put_word_def mem_put_def split: if_splits)
  show tk: "take (4 * i) buf' = take (4 * i) buf" using le by (simp add: buf')
  then show "take i (words_of_bytes buf') = take i (words_of_bytes buf)"
    by (simp add: words_of_bytes_take)
  have ti: "length (take (4 * i) buf) = 4 * i" using le by simp
  have "words_of_bytes buf'
      = words_of_bytes (take (4 * i) buf) @ [w] @ words_of_bytes (drop (4 * i + 4) buf)"
    unfolding buf' by (simp only: words_of_bytes_app [OF dvdI [OF ti]]
        words_of_bytes_app [OF dvdI [of _ _ 1]] length_bytes32 mult_1_right words_of_bytes_bytes32)
  then show "get_word buf' i = Some w"
    using ti by (simp add: get_word_def nth_append)
  show "length buf' = length buf" using le by (simp add: buf')
qed

lemma mem_put_in:
  "off + length ys \<le> length xs \<Longrightarrow>
   mem_put xs off ys = Some (take off xs @ ys @ drop (off + length ys) xs)"
  by (simp add: mem_put_def)

lemma mem_get_in: "off + n \<le> length xs \<Longrightarrow> mem_get xs off n = Some (take n (drop off xs))"
  by (simp add: mem_get_def)

lemma halves_of_bytes_of_halves_take:
  "length items \<le> n \<Longrightarrow> 2 * n \<le> length buf \<Longrightarrow> take (2 * length items) buf = bytes_of_halves items \<Longrightarrow>
   take (length items) (halves_of_bytes buf) = items"
proof -
  assume "length items \<le> n" "2 * n \<le> length buf" "take (2 * length items) buf = bytes_of_halves items"
  then have "buf = bytes_of_halves items @ drop (2 * length items) buf"
    by (metis append_take_drop_id)
  then have "halves_of_bytes buf = items @ halves_of_bytes (drop (2 * length items) buf)"
    by (metis halves_of_bytes_of_halves_app)
  then show ?thesis by simp
qed

text \<open>C11: for super blocks of at most 1022 pages, the image that \<open>_write_back_page_map_tbl\<close> writes passes
  the checksum test of \<open>_read_page_map_tbl\<close>, and loading it gives back the page mapping table.\<close>

theorem page_tbl_roundtrip:
  assumes "PAGE_CNT_OF_SUPER_BLK C \<le> 1022" and "length tbl = PAGE_CNT_OF_SUPER_BLK C"
    and "length old = PAGE_CNT_OF_SUPER_BLK C"
    and "length buf = SECTOR_CNT_OF_SUPER_PAGE C * SECTOR_SIZE" and "2048 \<le> length buf"
  shows "\<exists>img. page_tbl_image C tbl buf = Some img \<and> length img = length buf
    \<and> page_tbl_valid C img = Some True \<and> page_tbl_load C img old = Some tbl"
proof -
  let ?P = "PAGE_CNT_OF_SUPER_BLK C"
  let ?b1 = "bytes_of_halves tbl @ drop (2 * ?P) (replicate (length buf) (0xff :: u8))"
  let ?sum = "foldl (+) 0 (take (?P * 2 div 4) (words_of_bytes ?b1))"
  have b1: "length ?b1 = length buf" using assms by simp
  have n: "?P * 2 div 4 \<le> length (words_of_bytes ?b1)" "?P * 2 div 4 \<le> 511"
    using assms b1 by simp_all
  from put_word_in [of 511 ?b1 ?sum] b1 assms(5) obtain img where img: "put_word ?b1 511 ?sum = Some img"
    by auto
  note pw = put_word_words [OF img]
  have s0: "mem_put buf 0 (replicate (SECTOR_CNT_OF_SUPER_PAGE C * SECTOR_SIZE) 0xff)
      = Some (replicate (length buf) 0xff)"
    by (simp add: mem_put_def assms(4) [symmetric])
  have s1: "mem_get tbl 0 ?P = Some tbl" by (simp add: mem_get_def assms(2) [symmetric])
  have s2: "mem_put (replicate (length buf) 0xff) 0 (bytes_of_halves tbl) = Some ?b1"
    using assms(1,2,5) by (simp add: mem_put_def)
  have s3: "GetTblCheckSum (words_of_bytes ?b1) (?P * 2 div 4) = Some ?sum"
    using n(1) by (simp only: GetTblCheckSum_def if_True)
  have "page_tbl_image C tbl buf = Some img"
    by (simp only: page_tbl_image_def s0 s1 s2 s3 img Option.bind.simps)
  moreover have "take (?P * 2 div 4) (words_of_bytes img) = take (?P * 2 div 4) (words_of_bytes ?b1)"
    using arg_cong [OF pw(1), of "take (?P * 2 div 4)"] by (simp only: take_take min_absorb1 [OF n(2)])
  moreover have "?P * 2 div 4 \<le> length (words_of_bytes img)"
    using n(1) pw(3) by (simp only: length_words_of_bytes)
  ultimately have "page_tbl_image C tbl buf = Some img \<and> page_tbl_valid C img = Some True"
    by (simp add: page_tbl_valid_def GetTblCheckSum_def pw(2))
  moreover have "take (2 * length tbl) img = bytes_of_halves tbl"
  proof -
    have "take (2 * length tbl) img = take (2 * length tbl) ?b1"
      using arg_cong [OF pw(4), of "take (2 * length tbl)"] assms(1,2) by (simp add: min_absorb1)
    then show ?thesis by simp
  qed
  with assms pw(3) b1 have "take ?P (halves_of_bytes img) = tbl"
    using halves_of_bytes_of_halves_take [of tbl "1024" img] by simp
  then have "page_tbl_load C img old = Some tbl"
    using assms pw(3) b1 by (simp add: page_tbl_load_def mem_get_in mem_put_in)
  ultimately show ?thesis using pw(3) b1 by simp
qed

lemma page_tbl_roundtrip_witness:
  "\<exists>img. page_tbl_image sample_cfg [1, 0, 5, 0xffff, 2, 3, 4, 0xffff] (replicate 2048 0) = Some img
    \<and> page_tbl_valid sample_cfg img = Some True
    \<and> page_tbl_load sample_cfg img (replicate 8 0) = Some [1, 0, 5, 0xffff, 2, 3, 4, 0xffff]"
  using page_tbl_roundtrip [of sample_cfg "[1, 0, 5, 0xffff, 2, 3, 4, 0xffff]" "replicate 8 0" "replicate 2048 0"]
  by (auto simp: SECTOR_SIZE_def)

text \<open>With 1024 pages per super block the checksum word lies on the last two table items. The
  image that is written then passes the test on reading only if the words before it sum to zero, so
  the table is rebuilt from the spare areas instead of being loaded.\<close>

theorem page_tbl_1024_pages:
  assumes "PAGE_CNT_OF_SUPER_BLK C = 1024" and "page_tbl_image C tbl buf = Some img"
  shows "page_tbl_valid C img = Some (foldl (+) 0 (take 511 (words_of_bytes img)) = 0)"
proof -
  from assms obtain b1 sum where put: "put_word b1 511 sum = Some img"
    and len: "512 \<le> length (words_of_bytes b1)"
    by (auto simp: page_tbl_image_def GetTblCheckSum_def Option.bind_eq_Some_conv split: if_splits)
  note pw = put_word_words [OF put]
  have len': "512 \<le> length (words_of_bytes img)"
    using len pw(3) by (simp only: length_words_of_bytes)
  have "words_of_bytes img ! 511 = sum" and "511 < length (words_of_bytes img)"
    using pw(2) by (simp_all add: get_word_def)
  then have "take 512 (words_of_bytes img) = take 511 (words_of_bytes img) @ [sum]"
    using take_Suc_conv_app_nth [of 511 "words_of_bytes img"] by simp
  then show ?thesis
    using assms(1) len' pw(2) by (simp add: page_tbl_valid_def GetTblCheckSum_def)
qed

lemma page_tbl_1024_pages_witness:
  "let C = sample_cfg\<lparr>arch := (arch sample_cfg)\<lparr>PageCntPerLogicBlk := 1024\<rparr>\<rparr> in
   \<exists>img. page_tbl_image C (replicate 1024 1) (replicate 2048 0) = Some img
    \<and> page_tbl_valid C img = Some (foldl (+) 0 (take 511 (words_of_bytes img)) = 0)"
proof -
  let ?C = "sample_cfg\<lparr>arch := (arch sample_cfg)\<lparr>PageCntPerLogicBlk := 1024\<rparr>\<rparr>"
  have c: "PAGE_CNT_OF_SUPER_BLK ?C = 1024" "SECTOR_CNT_OF_SUPER_PAGE ?C = 4"
    using sample_cfg_simps(2) by (simp_all add: PAGE_CNT_OF_LOGIC_BLK_def SECTOR_CNT_OF_SUPER_PAGE_def)
  let ?b = "bytes_of_halves (replicate 1024 (1 :: u16))"
  let ?sum = "foldl (+) 0 (take 512 (words_of_bytes ?b))"
  obtain img where img: "put_word ?b 511 ?sum = Some img"
    using put_word_in [of 511 ?b ?sum] by auto
  have g: "mem_get (replicate 1024 (1 :: u16)) 0 1024 = Some (replicate 1024 1)"
    by (simp add: mem_get_def)
  have p: "mem_put (replicate 2048 0) 0 (replicate 2048 (0xff :: u8)) = Some (replicate 2048 0xff)"
    "mem_put (replicate 2048 (0xff :: u8)) 0 ?b = Some ?b"
    by (simp_all add: mem_put_def)
  have "page_tbl_image ?C (replicate 1024 1) (replicate 2048 0) = Some img"
    using img by (simp add: page_tbl_image_def c SECTOR_SIZE_def g p GetTblCheckSum_def)
  with page_tbl_1024_pages [OF c(1) this] show ?thesis by (simp add: Let_def)
qed

text \<open>A table whose checksum holds does not hold any more when exactly one of its words changes.\<close>

lemma foldl_plus: "foldl (+) a ws = a + sum_list (ws :: u32 list)"
  by (induction ws arbitrary: a) (simp_all add: ac_simps)

lemma sum_list_update_word:
  "i < length ws \<Longrightarrow> sum_list (ws[i := v]) = sum_list (ws :: u32 list) - ws ! i + v"
  by (induction ws arbitrary: i) (auto simp: algebra_simps split: nat.splits)

text \<open>\<open>_GetTblCheckSum\<close> detects every change of a single word of a table: the sums of two tables that
  differ in exactly one of the summed words differ.\<close>

theorem GetTblCheckSum_detects:
  assumes "i < n" and "n \<le> length ws" and "v \<noteq> ws ! i"
  shows "GetTblCheckSum (ws[i := v]) n \<noteq> GetTblCheckSum ws n"
proof -
  have "sum_list ((take n ws)[i := v]) = sum_list (take n ws) - take n ws ! i + v"
    using assms by (intro sum_list_update_word) simp
  with assms show ?thesis by (simp add: GetTblCheckSum_def take_update_swap foldl_plus)
qed

lemma GetTblCheckSum_detects_witness:
  "GetTblCheckSum ([3, 4, 5] [1 := 9]) 3 \<noteq> GetTblCheckSum [3, 4, 5] 3"
  by (rule GetTblCheckSum_detects) simp_all

section \<open>The replacement in the pools\<close>

text \<open>How many of the uses \<open>js\<close> came after the last use of \<open>i\<close>.\<close>

definition uses_since :: "nat list \<Rightarrow> nat \<Rightarrow> nat" where
  "uses_since js i = length (takeWhile (\<lambda>j. j \<noteq> i) (rev js))"

text \<open>What both cache pools promise: using a cache clears its count and ages the others, and the cache
  to replace is a clear one, or else one of the greatest count.\<close>

locale lru_pool =
  fixes n :: nat
    and cnt :: "'s \<Rightarrow> nat \<Rightarrow> u16"
    and clear :: "'s \<Rightarrow> nat \<Rightarrow> bool"
    and touch :: "nat \<Rightarrow> 's \<Rightarrow> 's"
    and victim :: "'s \<Rightarrow> nat"
  assumes touch_cnt: "i < n \<Longrightarrow> j < n \<Longrightarrow> cnt (touch j s) i = (if i = j then 0 else cnt s i + 1)"
    and touch_clear: "clear (touch j s) i = clear s i"
    and victim_clear: "i < n \<Longrightarrow> clear s i \<Longrightarrow> victim s < n \<and> clear s (victim s)"
    and victim_max: "(\<And>i. i < n \<Longrightarrow> \<not> clear s i) \<Longrightarrow> 0 < n \<Longrightarrow>
      victim s < n \<and> (\<forall>i < n. cnt s i \<le> cnt s (victim s))"
begin

lemma cnt_touches:
  "set js \<subseteq> {..<n} \<Longrightarrow> i \<in> set js \<Longrightarrow> length js < 65536 \<Longrightarrow>
   unat (cnt (fold touch js s) i) = uses_since js i"
proof (induction js rule: rev_induct)
  case Nil
  then show ?case by simp
next
  case (snoc j js)
  let ?s = "fold touch js s"
  from snoc.prems have ij: "i < n" "j < n" by auto
  show ?case
  proof (cases "i = j")
    case True
    then show ?thesis using touch_cnt [OF ij, of ?s] by (simp add: uses_since_def)
  next
    case False
    with snoc have IH: "unat (cnt ?s i) = uses_since js i" by simp
    have "uses_since js i \<le> length js"
      unfolding uses_since_def using length_takeWhile_le [of _ "rev js"] by simp
    with IH snoc.prems have "unat (cnt ?s i + 1) = uses_since js i + 1"
      by (simp add: unat_word_ariths)
    with False show ?thesis using touch_cnt [OF ij, of ?s] by (simp add: uses_since_def)
  qed
qed

lemma clear_touches: "clear (fold touch js s) i = clear s i"
  by (induction js arbitrary: s) (simp_all add: touch_clear)

lemma victim_lru:
  assumes "set js = {..<n}" and "length js < 65536" and "\<And>i. i < n \<Longrightarrow> \<not> clear s i" and "0 < n"
  shows "victim (fold touch js s) < n
    \<and> (\<forall>i < n. uses_since js i \<le> uses_since js (victim (fold touch js s)))"
proof -
  let ?s = "fold touch js s"
  from victim_max [of ?s] assms(3,4) have v: "victim ?s < n" "\<forall>i < n. cnt ?s i \<le> cnt ?s (victim ?s)"
    by (simp_all add: clear_touches)
  from assms(1) have cnt: "unat (cnt ?s i) = uses_since js i" if "i < n" for i
    using cnt_touches [of js i s] assms(2) that by simp
  from v cnt show ?thesis by (metis word_le_nat_alt)
qed

end

lemma lru_loop_max:
  "lru_loop cnt is l (cnt l) \<in> set (l # is)
   \<and> (\<forall>i \<in> set (l # is). cnt i \<le> cnt (lru_loop cnt is l (cnt l)))"
proof (induction "is" arbitrary: l)
  case (Cons i r)
  show ?case
  proof (cases "cnt l < cnt i")
    case True
    with Cons.IH [of i] show ?thesis by (auto intro: less_imp_le less_le_trans)
  next
    case False
    with Cons.IH [of l] show ?thesis by (auto simp: not_less intro: order_trans)
  qed
qed simp

lemma lru_loop_four:
  assumes "n = (4 :: nat)"
  shows "lru_loop cnt [1..<n] 0 (cnt 0) < n \<and> (\<forall>i < n. cnt i \<le> cnt (lru_loop cnt [1..<n] 0 (cnt 0)))"
proof -
  have "set (0 # [1..<n]) = {..<n}" using assms by auto
  with lru_loop_max [of cnt "[1..<n]" 0] show ?thesis by (metis lessThan_iff)
qed

lemma find_upt:
  "find Q [0..<n] = Some i \<Longrightarrow> i < n \<and> Q i"
  "find Q [0..<n] = None \<Longrightarrow> j < n \<Longrightarrow> \<not> Q j"
  by (auto simp: find_Some_iff find_None_iff)

interpretation page_lru: lru_pool PAGE_MAP_TBL_CACHE_CNT
  "\<lambda>s :: 'd drv. \<lambda>i. pc_AccessCnt (dr_page_pool s i)" "\<lambda>s i. pc_ZoneNum (dr_page_pool s i) = 0xff"
  "\<lambda>j s. CalPageTblAccessCount (s\<lparr>dr_page_act := j\<rparr>)" "\<lambda>s. fst (find_page_tbl_post_location s)"
proof (unfold_locales, goal_cases)
  case (1 i j s)
  then show ?case
    by (simp add: CalPageTblAccessCount_def set_PAGE_MAP_CACHE_def PAGE_MAP_CACHE_def Let_def)
next
  case (2 j s i)
  then show ?case
    by (simp add: CalPageTblAccessCount_def set_PAGE_MAP_CACHE_def PAGE_MAP_CACHE_def Let_def)
next
  case (3 i s)
  then show ?case
    by (auto simp: find_page_tbl_post_location_def split: option.splits dest: find_upt)
next
  case (4 s)
  then have "find (\<lambda>i. pc_ZoneNum (dr_page_pool s i) = 0xff) [0..<PAGE_MAP_TBL_CACHE_CNT] = None"
    by (auto simp: find_None_iff)
  then show ?case
    using lru_loop_four [of PAGE_MAP_TBL_CACHE_CNT "\<lambda>i. pc_AccessCnt (dr_page_pool s i)"]
    by (simp add: find_page_tbl_post_location_def PAGE_MAP_TBL_CACHE_CNT_def)
qed

interpretation blk_lru: lru_pool BLOCK_MAP_TBL_CACHE_CNT
  "\<lambda>s :: 'd drv. \<lambda>i. bc_AccessCnt (dr_blk_pool s i)" "\<lambda>s i. bc_ZoneNum (dr_blk_pool s i) = 0xff"
  "\<lambda>j s. CalBlkTblAccessCount (s\<lparr>dr_blk_act := j\<rparr>)" "\<lambda>s. fst (find_blk_tbl_post_location s)"
proof (unfold_locales, goal_cases)
  case (1 i j s)
  then show ?case
    by (simp add: CalBlkTblAccessCount_def set_BLK_MAP_CACHE_def BLK_MAP_CACHE_def Let_def)
next
  case (2 j s i)
  then show ?case
    by (simp add: CalBlkTblAccessCount_def set_BLK_MAP_CACHE_def BLK_MAP_CACHE_def Let_def)
next
  case (3 i s)
  then show ?case
    by (auto simp: find_blk_tbl_post_location_def split: option.splits dest: find_upt)
next
  case (4 s)
  then have "find (\<lambda>i. bc_ZoneNum (dr_blk_pool s i) = 0xff) [0..<BLOCK_MAP_TBL_CACHE_CNT] = None"
    by (auto simp: find_None_iff)
  then show ?case
    using lru_loop_four [of BLOCK_MAP_TBL_CACHE_CNT "\<lambda>i. bc_AccessCnt (dr_blk_pool s i)"]
    by (simp add: find_blk_tbl_post_location_def BLOCK_MAP_TBL_CACHE_CNT_def)
qed

text \<open>When every block mapping table cache holds a zone, the cache that
  \<open>_find_blk_tbl_post_location\<close> gives up is a least recently used one: after any sequence of accesses
  that touched every cache, at most as many accesses are younger than the last use of another cache as
  are younger than its own.\<close>

theorem blk_tbl_post_lru:
  assumes "set js = {..<BLOCK_MAP_TBL_CACHE_CNT}" and "length js < 65536"
    and "\<And>i. i < BLOCK_MAP_TBL_CACHE_CNT \<Longrightarrow> bc_ZoneNum (dr_blk_pool s i) \<noteq> 0xff"
  shows "let s' = fold (\<lambda>j s. CalBlkTblAccessCount (s\<lparr>dr_blk_act := j\<rparr>)) js s;
             v = fst (find_blk_tbl_post_location s')
         in v < BLOCK_MAP_TBL_CACHE_CNT
            \<and> (\<forall>i < BLOCK_MAP_TBL_CACHE_CNT. uses_since js i \<le> uses_since js v)"
  using blk_lru.victim_lru [OF assms] by (simp add: Let_def BLOCK_MAP_TBL_CACHE_CNT_def)

lemma blk_tbl_post_lru_witness:
  "list_all (\<lambda>i. uses_since [2, 0, 1, 3, 0] i \<le> uses_since [2, 0, 1, 3, 0]
     (fst (find_blk_tbl_post_location (fold (\<lambda>j s. CalBlkTblAccessCount (s\<lparr>dr_blk_act := j\<rparr>))
        [2, 0, 1, 3, 0] (sample_drv ()))))) [0, 1, 2, 3]"
proof -
  have "set [2, 0, 1, 3, 0] = {..<BLOCK_MAP_TBL_CACHE_CNT}" by (auto simp: BLOCK_MAP_TBL_CACHE_CNT_def)
  from blk_tbl_post_lru [OF this, of "sample_drv ()"] show ?thesis
    by (simp add: Let_def BLOCK_MAP_TBL_CACHE_CNT_def)
qed

text \<open>The same holds for the page mapping table caches and \<open>_find_page_tbl_post_location\<close>.\<close>

theorem page_tbl_post_lru:
  assumes "set js = {..<PAGE_MAP_TBL_CACHE_CNT}" and "length js < 65536"
    and "\<And>i. i < PAGE_MAP_TBL_CACHE_CNT \<Longrightarrow> pc_ZoneNum (dr_page_pool s i) \<noteq> 0xff"
  shows "let s' = fold (\<lambda>j s. CalPageTblAccessCount (s\<lparr>dr_page_act := j\<rparr>)) js s;
             v = fst (find_page_tbl_post_location s')
         in v < PAGE_MAP_TBL_CACHE_CNT
            \<and> (\<forall>i < PAGE_MAP_TBL_CACHE_CNT. uses_since js i \<le> uses_since js v)"
  using page_lru.victim_lru [OF assms] by (simp add: Let_def PAGE_MAP_TBL_CACHE_CNT_def)

lemma page_tbl_post_lru_witness:
  "list_all (\<lambda>i. uses_since [1, 3, 2, 0, 1] i \<le> uses_since [1, 3, 2, 0, 1]
     (fst (find_page_tbl_post_location (fold (\<lambda>j s. CalPageTblAccessCount (s\<lparr>dr_page_act := j\<rparr>))
        [1, 3, 2, 0, 1] (sample_drv ()))))) [0, 1, 2, 3]"
proof -
  have "set [1, 3, 2, 0, 1] = {..<PAGE_MAP_TBL_CACHE_CNT}" by (auto simp: PAGE_MAP_TBL_CACHE_CNT_def)
  from page_tbl_post_lru [OF this, of "sample_drv ()"] show ?thesis
    by (simp add: Let_def PAGE_MAP_TBL_CACHE_CNT_def)
qed

end
