(* ===== verification/Log_Page.thy ===== *)
theory Log_Page
  imports Table_Cache
begin

text \<open>
  The allocation of log blocks and log pages (the second half of \<open>logic/mapping_base.c\<close>):
  \<open>_CreateNewLogBlk\<close> finds or makes an empty log item, \<open>_GetLogPageForWrite\<close> chooses the next log page
  in the bank of the logical page, \<open>PMM_GetLogPage\<close> is the access used by the page operations.
\<close>

section \<open>A new log block\<close>

text \<open>The search for the oldest log block: \<open>n\<close> items to go from item \<open>i\<close>.\<close>

fun oldest_loop :: "nat \<Rightarrow> nat \<Rightarrow> u16 list \<Rightarrow> u16 \<Rightarrow> nat option \<Rightarrow> nat option option" where
  "oldest_loop 0 i ages tmpLogAccessAge tmpPst = Some tmpPst"
| "oldest_loop (Suc n) i ages tmpLogAccessAge tmpPst = do {
     a \<leftarrow> arr_get ages i;
     if a < tmpLogAccessAge then oldest_loop n (Suc i) ages a (Some i)
     else oldest_loop n (Suc i) ages tmpLogAccessAge tmpPst
   }"

definition victim_log :: "cfg \<Rightarrow> 'd drv \<Rightarrow> nat option option" where
  "victim_log C s = do {
     full \<leftarrow> scan (\<lambda>l. int (unat (LastUsedPage l)) = int (PAGE_CNT_OF_SUPER_BLK C) - 1)
               (LOG_BLK_TBL s) 0 LOG_BLK_CNT_OF_ZONE 0;
     case full of
       Some p \<Rightarrow> Some (Some p)
     | None \<Rightarrow> oldest_loop LOG_BLK_CNT_OF_ZONE 0 (dr_log_age s) 0xffff None
   }"

definition logic_info :: "cfg \<Rightarrow> 'd drv \<Rightarrow> nat \<Rightarrow> u16" where
  "logic_info C s nBlk =
     (push_bit 10 (of_nat (unat (CUR_MAP_ZONE s) mod ZONE_CNT_OF_DIE C)) OR of_nat nBlk)"

text \<open>The loop from \<open>__CHECK_LOGICAL_INFO_OF_DATA_BLOCK\<close>: a data block whose page 0 has no logical
  information gets it, on a replacement block when the write fails. \<open>nBlk\<close> is a logical block of the zone
  (\<open>CalculateLogicPagePar\<close> reduces it modulo the block count); for another number the new block would
  be stored in the free block table, and the loop is left undefined.\<close>

function check_data_info ::
  "'d phy_ops \<Rightarrow> cfg \<Rightarrow> nat \<Rightarrow> u8 list \<Rightarrow> 'd drv \<Rightarrow> (int \<times> 'd drv) option" where
  "check_data_info P C nBlk sp s = do {
     d \<leftarrow> arr_get (bc_Tbl (BLK_MAP_CACHE s)) nBlk;
     (_, sp1, s1) \<leftarrow> ReadTemp P C (phys_at C 3 s (unat (PhyBlkNum d)) 0) sp s;
     let u = dec_ud2 sp1;
     if ud_LogicInfo (fst u) = 0xffff
     then do {
       let info = logic_info C s1 nBlk;
       let u0 = (fst u)\<lparr>ud_BadBlkFlag := 0xff, ud_LogicInfo := info, ud_LogicPageNum := 0xffff,
                        ud_PageStatus := 0xff\<rparr>;
       let u1 = (snd u)\<lparr>ud_BadBlkFlag := 0xff, ud_LogicInfo := info, ud_LogicPageNum := 0xffff,
                        ud_PageStatus := 0xff\<rparr>;
       let param = phys_at C (FULL_BITMAP_OF_SUPER_PAGE C) s (unat (PhyBlkNum d)) 0;
       (r2, s2) \<leftarrow> LML_VirtualPageWrite P C param (dr_temp_buf s1) (Some (enc_ud2 (u0, u1))) s1;
       if r2 < 0 then Some (-1, s2)
       else case SynchBank P (unat (op_BankNum param)) SYNC_CHIP_MODE s2 of (r3, s3) \<Rightarrow>
         if r3 < 0
         then do {
           (r4, sub, s4) \<leftarrow> LML_BadBlkManage P C d (unat (CUR_MAP_ZONE s3)) 0 True s3;
           if r4 < 0 then Some (-1, s4)
           else do {
             NewBlk \<leftarrow> sub;
             t \<leftarrow> arr_set (bc_Tbl (BLK_MAP_CACHE s4)) nBlk NewBlk;
             (if nBlk < DATA_BLK_CNT_OF_ZONE C
              then check_data_info P C nBlk (enc_ud2 (u0, u1)) (set_tbl t s4) else None)
           }
         }
         else Some (0, s3)
     }
     else Some (0, s1)
   }"
  by pat_completeness auto
termination
proof (relation "measure (\<lambda>(P, C, n, sp, s). size (free_blks C (BLK_MAP_CACHE s)))", goal_cases)
  case 1
  show ?case by simp
next
  case 2
  then show ?case
    by (auto dest!: LML_BadBlkManage_shrinks step_BLK ReadTemp_frame [THEN same_tablesD(11)]
        VirtualPageWrite_frame [THEN same_tablesD(11)] simp: free_blks_set_data)
qed

declare check_data_info.simps [simp del]

definition CreateNewLogBlk ::
  "'d phy_ops \<Rightarrow> cfg \<Rightarrow> nat \<Rightarrow> 'd drv \<Rightarrow> (int \<times> nat \<times> 'd drv) option" where
  "CreateNewLogBlk P C nBlk s = do {
     empty \<leftarrow> scan (\<lambda>l. LogicBlkNum l = 0xffff) (LOG_BLK_TBL s) 0 LOG_BLK_CNT_OF_ZONE 0;
     (r0, tmpPst, s1) \<leftarrow>
       (case empty of
          Some p \<Rightarrow> Some (0 :: int, p, s)
        | None \<Rightarrow> do {
            victim \<leftarrow> victim_log C s;
            p \<leftarrow> victim;
            (ra, sa) \<leftarrow> PMM_SwitchMapTbl P C p s;
            if ra < 0 then Some (-1, p, sa)
            else do {
              l \<leftarrow> arr_get (LOG_BLK_TBL sa) p;
              (rb, sb) \<leftarrow> LML_MergeLogBlk P C NORMAL_MERGE_MODE (unat (LogicBlkNum l)) sa;
              if rb < 0 then Some (-1, p, sb) else Some (0, p, sb)
            }
          });
     if r0 < 0 then Some (-1, tmpPst, s1)
     else do {
       (r2, tmpFreeBlk, s2) \<leftarrow> BMM_GetFreeBlk C LOWEST_EC_TYPE s1;
       if r2 < 0 then Some (-1, tmpPst, s2)
       else do {
         t \<leftarrow> arr_set (LOG_BLK_TBL s2) tmpPst
                \<lparr>LogicBlkNum = of_nat nBlk, LastUsedPage = 0xffff, PhyBlk = tmpFreeBlk\<rparr>;
         (r3, s3) \<leftarrow> check_data_info P C nBlk (junk_spare C) (set_log_tbl t s2);
         Some (r3, tmpPst, s3)
       }
     }
   }"

section \<open>The next log page\<close>

text \<open>The page chosen for logical page \<open>nPage\<close> after \<open>LastUsed\<close>: with bank alignment the next page in the
  bank of \<open>nPage\<close>, else the next page. The arithmetic is that of the 16-bit \<open>tmpPage\<close>.\<close>

definition next_log_page :: "cfg \<Rightarrow> u16 \<Rightarrow> nat \<Rightarrow> u16 option" where
  "next_log_page C LastUsed nPage =
    (let I = INTERLEAVE_BANK_CNT C; t = unat LastUsed in
     if SUPPORT_ALIGN_NAND_BNK C
     then if I = 0 then None
       else if LastUsed = 0xffff then Some (of_nat (nPage mod I))
       else if nPage mod I > t mod I then Some (of_nat (t + (nPage mod I - t mod I)))
       else Some (of_nat (t + nPage mod I + (I - t mod I)))
     else Some (LastUsed + 1))"

text \<open>The loop from \<open>__CHECK_WRITE_LOGICAL_INFO_OF_LOG_BLOCK\<close>.\<close>

function check_log_info ::
  "'d phy_ops \<Rightarrow> cfg \<Rightarrow> nat \<Rightarrow> nat \<Rightarrow> u16 \<Rightarrow> u8 list \<Rightarrow> 'd drv \<Rightarrow> (int \<times> 'd drv) option" where
  "check_log_info P C nBlk pst tmpPage sp s = do {
     l \<leftarrow> arr_get (LOG_BLK_TBL s) pst;
     if LastUsedPage l = 0xffff \<and> tmpPage \<noteq> 0
     then do {
       d \<leftarrow> arr_get (bc_Tbl (BLK_MAP_CACHE s)) nBlk;
       (_, sp1, s1) \<leftarrow> ReadTemp P C (phys_at C 3 s (unat (PhyBlkNum d)) 0) sp s;
       let u = dec_ud2 sp1;
       let info = logic_info C s1 nBlk;
       let st = ud_PageStatus (fst u) + 1;
       let u0 = (fst u)\<lparr>ud_BadBlkFlag := 0xff, ud_LogicInfo := info, ud_LogicPageNum := 0xffff,
                        ud_PageStatus := st\<rparr>;
       let u1 = (snd u)\<lparr>ud_BadBlkFlag := 0xff, ud_LogicInfo := info, ud_LogicPageNum := 0xffff,
                        ud_PageStatus := st\<rparr>;
       let param = phys_at C (FULL_BITMAP_OF_SUPER_PAGE C) s1 (unat (PhyBlkNum (PhyBlk l))) 0;
       (r2, s2) \<leftarrow> LML_VirtualPageWrite P C param (dr_temp_buf s1) (Some (enc_ud2 (u0, u1))) s1;
       if r2 < 0 then Some (-1, s2)
       else case SynchBank P (unat (op_BankNum param)) SYNC_CHIP_MODE s2 of (r3, s3) \<Rightarrow>
         if r3 < 0
         then do {
           (r4, sub, s4) \<leftarrow> LML_BadBlkManage P C (PhyBlk l) (unat (CUR_MAP_ZONE s3)) 0 True s3;
           if r4 < 0 then Some (-1, s4)
           else do {
             NewBlk \<leftarrow> sub;
             t \<leftarrow> arr_set (LOG_BLK_TBL s4) pst (l\<lparr>PhyBlk := NewBlk\<rparr>);
             check_log_info P C nBlk pst tmpPage (enc_ud2 (u0, u1)) (set_log_tbl t s4)
           }
         }
         else Some (0, s3)
     }
     else Some (0, s)
   }"
  by pat_completeness auto
termination
proof (relation "measure (\<lambda>(P, C, n, p, pg, sp, s). size (free_blks C (BLK_MAP_CACHE s)))", goal_cases)
  case 1
  show ?case by simp
next
  case 2
  then show ?case
    by (auto dest!: LML_BadBlkManage_shrinks step_BLK ReadTemp_frame [THEN same_tablesD(11)]
        VirtualPageWrite_frame [THEN same_tablesD(11)])
qed

declare check_log_info.simps [simp del]

text \<open>Result code, log page, log position.\<close>

definition GetLogPageForWrite ::
  "'d phy_ops \<Rightarrow> cfg \<Rightarrow> nat \<Rightarrow> nat \<Rightarrow> 'd drv \<Rightarrow> (int \<times> u16 \<times> nat \<times> 'd drv) option" where
  "GetLogPageForWrite P C nBlk nPage s = do {
     pst \<leftarrow> GetLogBlkPst nBlk s;
     (r1, p, s1) \<leftarrow> (case pst of Some p \<Rightarrow> Some (0, p, s) | None \<Rightarrow> CreateNewLogBlk P C nBlk s);
     if r1 < 0 then Some (-1, junk16 C, p, s1)
     else do {
       (r2, s2) \<leftarrow> PMM_SwitchMapTbl P C p s1;
       if r2 < 0 then Some (-1, junk16 C, p, s2)
       else do {
         l \<leftarrow> arr_get (LOG_BLK_TBL s2) p;
         tmpPage \<leftarrow> next_log_page C (LastUsedPage l) nPage;
         (r3, s3) \<leftarrow> check_log_info P C nBlk p tmpPage (junk_spare C) s2;
         if r3 < 0 then Some (-1, junk16 C, p, s3) else Some (0, tmpPage, p, s3)
       }
     }
   }"

section \<open>Access to a log page\<close>

definition PMM_GetLogPage_r ::
  "'d phy_ops \<Rightarrow> cfg \<Rightarrow> nat \<Rightarrow> nat \<Rightarrow> 'd drv \<Rightarrow> (u16 \<times> 'd drv) option" where
  "PMM_GetLogPage_r P C nBlk nPage s = do {
     pst \<leftarrow> GetLogBlkPst nBlk s;
     case pst of
       None \<Rightarrow> Some (0xffff, s)
     | Some p \<Rightarrow> do {
         (r, s1) \<leftarrow> PMM_SwitchMapTbl P C p s;
         if r < 0 then Some (0xffff, s1)
         else do {
           s2 \<leftarrow> CalLogAccessCnt p s1;
           page \<leftarrow> arr_get (PAGE_MAP_TBL s2) nPage;
           Some (page, s2)
         }
       }
   }"

definition take_log_page ::
  "cfg \<Rightarrow> nat \<Rightarrow> u16 \<Rightarrow> nat \<Rightarrow> 'd drv \<Rightarrow> (u16 \<times> 'd drv) option" where
  "take_log_page C nPage tmpPage p s =
     (if \<not> unat tmpPage < PAGE_CNT_OF_SUPER_BLK C then Some (0xffff, s)
      else do {
        l \<leftarrow> arr_get (LOG_BLK_TBL s) p;
        t \<leftarrow> arr_set (LOG_BLK_TBL s) p (l\<lparr>LastUsedPage := tmpPage\<rparr>);
        s1 \<leftarrow> PMM_SetCurMapPage nPage tmpPage (set_log_tbl t s);
        s2 \<leftarrow> CalLogAccessCnt p (set_PAGE_MAP_CACHE (PAGE_MAP_CACHE s1\<lparr>pc_DirtyFlag := 1\<rparr>) s1);
        Some (tmpPage, s2)
      })"

definition PMM_GetLogPage_w ::
  "'d phy_ops \<Rightarrow> cfg \<Rightarrow> nat \<Rightarrow> nat \<Rightarrow> 'd drv \<Rightarrow> (u16 \<times> 'd drv) option" where
  "PMM_GetLogPage_w P C nBlk nPage s = do {
     (r1, tmpPage, p, s1) \<leftarrow> GetLogPageForWrite P C nBlk nPage s;
     if r1 < 0 then Some (0xffff, s1)
     else if \<not> unat tmpPage < PAGE_CNT_OF_SUPER_BLK C
     then do {
       (r2, s2) \<leftarrow> LML_MergeLogBlk P C SPECIAL_MERGE_MODE nBlk s1;
       if r2 < 0 then Some (0xffff, s2)
       else do {
         (r3, tmpPage', p', s3) \<leftarrow> GetLogPageForWrite P C nBlk nPage s2;
         if r3 < 0 then Some (0xffff, s3) else take_log_page C nPage tmpPage' p' s3
       }
     }
     else take_log_page C nPage tmpPage p s1
   }"

definition PMM_GetLogPage ::
  "'d phy_ops \<Rightarrow> cfg \<Rightarrow> nat \<Rightarrow> nat \<Rightarrow> char \<Rightarrow> 'd drv \<Rightarrow> (u16 \<times> 'd drv) option" where
  "PMM_GetLogPage P C nBlk nPage nMode s =
     (if nMode = CHR ''r'' then PMM_GetLogPage_r P C nBlk nPage s
      else PMM_GetLogPage_w P C nBlk nPage s)"

section \<open>Properties of the log page choice\<close>

lemma next_in_bank:
  fixes I t n p :: nat
  assumes "0 < I" and "p = (if n mod I > t mod I then t + (n mod I - t mod I)
    else t + n mod I + (I - t mod I))"
  shows "p mod I = n mod I" and "t < p" and "p \<le> t + I"
    and "t < q \<Longrightarrow> q mod I = n mod I \<Longrightarrow> p \<le> q"
proof -
  define a where "a = t div I * I"
  have t: "t = a + t mod I" by (simp add: a_def)
  have m: "t mod I < I" "n mod I < I" using assms(1) by simp_all
  have p: "p = (if n mod I > t mod I then a else a + I) + n mod I"
    using assms(2) t m by auto
  have am: "(a + x) mod I = x mod I" "(a + I + x) mod I = x mod I" for x
    unfolding a_def by (metis add.commute mod_mult_self1) (metis add.commute add.left_commute mod_add_self1 mod_mult_self1)
  show "p mod I = n mod I" unfolding p by (simp add: am)
  show "t < p" "p \<le> t + I" using p t m by (cases "n mod I > t mod I"; simp; linarith)+
  show "p \<le> q" if "t < q" "q mod I = n mod I"
  proof (rule ccontr)
    assume "\<not> p \<le> q"
    then have q: "q < p" by simp
    have qd: "q = q div I * I + n mod I" using that(2) by (metis div_mult_mod_eq)
    have "q div I * I + n mod I < (if n mod I > t mod I then a else a + I) + n mod I"
      using q qd p by simp
    then have lt: "q div I * I < (if n mod I > t mod I then a else a + I)" by simp
    show False
    proof (cases "n mod I > t mod I")
      case True
      with lt have "q div I < t div I" by (simp add: a_def)
      then have "(q div I + 1) * I \<le> t div I * I" by (intro mult_le_mono1) simp
      moreover have "t div I * I \<le> t" by simp
      ultimately show False using qd m(2) that(1) by (simp only: add_mult_distrib mult_1)
    next
      case False
      with lt have "q div I * I < (t div I + 1) * I" by (simp add: a_def)
      then have "q div I < t div I + 1" using mult_less_cancel2 by blast
      then have "q div I * I \<le> t div I * I" by (intro mult_le_mono1) simp
      moreover have "t = t div I * I + t mod I" by simp
      ultimately show False using qd that(1) False by linarith
    qed
  qed
qed

text \<open>With bank alignment, the log page chosen for a logical page is the first page after the last used one
  that lies in the bank of the logical page.\<close>

theorem next_log_page_least:
  assumes "SUPPORT_ALIGN_NAND_BNK C" and "0 < INTERLEAVE_BANK_CNT C"
    and "LastUsed \<noteq> 0xffff" and "unat LastUsed + INTERLEAVE_BANK_CNT C < 65536"
  shows "\<exists>p. next_log_page C LastUsed nPage = Some p
    \<and> unat p mod INTERLEAVE_BANK_CNT C = nPage mod INTERLEAVE_BANK_CNT C \<and> LastUsed < p
    \<and> (\<forall>q. LastUsed < q \<longrightarrow> unat q mod INTERLEAVE_BANK_CNT C = nPage mod INTERLEAVE_BANK_CNT C \<longrightarrow> p \<le> q)"
proof -
  let ?I = "INTERLEAVE_BANK_CNT C" and ?t = "unat LastUsed"
  define p where "p = (if nPage mod ?I > ?t mod ?I then ?t + (nPage mod ?I - ?t mod ?I)
    else ?t + nPage mod ?I + (?I - ?t mod ?I))"
  note nb = next_in_bank [OF assms(2) p_def]
  have p: "p < 65536" using nb(3) assms(4) by linarith
  have eq: "next_log_page C LastUsed nPage = Some (of_nat p)"
    using assms by (simp only: next_log_page_def Let_def if_True if_False p_def) simp
  have u: "unat (of_nat p :: u16) = p" using p by (simp add: unat_of_nat)
  show ?thesis
    using nb(1,2,4) by (intro exI [of _ "of_nat p"]) (auto simp: eq u word_less_nat_alt word_le_nat_alt)
qed

lemma next_log_page_least_witness:
  "\<exists>p. next_log_page sample_cfg 3 6 = Some p \<and> even (unat p) \<and> 3 < p \<and> p \<le> 4"
proof -
  from next_log_page_least [of sample_cfg 3 6] obtain p where
    p: "next_log_page sample_cfg 3 6 = Some p" "unat p mod 2 = 6 mod 2" "3 < p"
    and least: "\<And>q. 3 < q \<Longrightarrow> unat q mod 2 = 6 mod 2 \<Longrightarrow> p \<le> q" by auto
  have "p \<le> 4" by (rule least) simp_all
  with p show ?thesis by auto
qed

section \<open>The ages of the log blocks\<close>

text \<open>Every age is at most the timer: the invariant of the access ages.\<close>

definition ages_ok :: "'d drv \<Rightarrow> bool" where
  "ages_ok s \<longleftrightarrow> length (dr_log_age s) = LOG_BLK_CNT_OF_ZONE \<and> (\<forall>a \<in> set (dr_log_age s). a \<le> dr_log_timer s)"

lemma u16_Suc: "(t :: u16) \<noteq> 0xffff \<Longrightarrow> a \<le> t \<Longrightarrow> a < t + 1"
  using unat_u16_bound [of t] word_unat_eq_iff [of t "0xffff"]
  by (simp add: word_less_nat_alt word_le_nat_alt unat_word_ariths del: unat_u16_bound)

text \<open>Counting an access makes the log block the single most recently used one, keeps every age at most
  the timer, and, unless the timer wraps, keeps the order of the ages of all other log blocks. When the
  timer wraps all other ages start again from zero.\<close>

theorem CalLogAccessCnt_recent:
  assumes "ages_ok s" and "p < LOG_BLK_CNT_OF_ZONE"
  shows "\<exists>s'. CalLogAccessCnt p s = Some s' \<and> ages_ok s'
    \<and> (\<forall>i < LOG_BLK_CNT_OF_ZONE. i \<noteq> p \<longrightarrow> dr_log_age s' ! i < dr_log_age s' ! p)
    \<and> (\<forall>i < LOG_BLK_CNT_OF_ZONE. \<forall>j < LOG_BLK_CNT_OF_ZONE. i \<noteq> p \<longrightarrow> j \<noteq> p \<longrightarrow>
         dr_log_timer s \<noteq> 0xffff \<longrightarrow> dr_log_age s ! i \<le> dr_log_age s ! j
         \<longrightarrow> dr_log_age s' ! i \<le> dr_log_age s' ! j)"
proof -
  define t where "t = (if dr_log_timer s = 0xffff then 0 else dr_log_timer s)"
  define a where "a = (if dr_log_timer s = 0xffff then replicate LOG_BLK_CNT_OF_ZONE 0 else dr_log_age s)"
  have len: "length a = LOG_BLK_CNT_OF_ZONE" using assms(1) by (simp add: a_def ages_ok_def)
  have old: "x < t + 1" if "x \<in> set a" for x
    using that assms(1) by (auto simp: a_def t_def ages_ok_def intro: u16_Suc split: if_splits)
  let ?s = "s\<lparr>dr_log_timer := t + 1, dr_log_age := a[p := t + 1]\<rparr>"
  have run: "CalLogAccessCnt p s = Some ?s"
    using len assms(2) by (cases "dr_log_timer s = 0xffff") (simp_all add: CalLogAccessCnt_def a_def t_def)
  have "ages_ok ?s"
    using len by (auto simp: ages_ok_def dest!: set_update_subset_insert [THEN subsetD]
        intro: less_imp_le old)
  moreover have "dr_log_timer s \<noteq> 0xffff \<Longrightarrow> a = dr_log_age s" by (simp add: a_def)
  ultimately show ?thesis
    unfolding run using len old assms(2) by (auto simp: nth_list_update)
qed

lemma sample_ages: "ages_ok (sample_drv d)"
  by (simp add: ages_ok_def MAX_LOG_BLK_CNT_def)

lemma CalLogAccessCnt_recent_witness:
  "\<exists>s'. CalLogAccessCnt 3 (sample_drv ()) = Some s' \<and> dr_log_age s' ! 7 < dr_log_age s' ! 3"
  using CalLogAccessCnt_recent [OF sample_ages, of 3 "()"] by (force simp: MAX_LOG_BLK_CNT_def)

lemma oldest_loop_min:
  assumes "i + n \<le> length ages" and "\<forall>q. pst = Some q \<longrightarrow> q < i \<and> a = ages ! q"
    and "pst = None \<longrightarrow> (\<exists>j. i \<le> j \<and> j < i + n \<and> ages ! j < a)"
    and "\<forall>j < i. a \<le> ages ! j"
  shows "\<exists>q. oldest_loop n i ages a pst = Some (Some q) \<and> q < i + n \<and> (\<forall>j < i + n. ages ! q \<le> ages ! j)"
  using assms
proof (induction n arbitrary: i a pst)
  case 0
  then show ?case by (cases pst) auto
next
  case (Suc n)
  then have i: "i < length ages" by simp
  show ?case
  proof (cases "ages ! i < a")
    case True
    have "\<exists>q. oldest_loop n (Suc i) ages (ages ! i) (Some i) = Some (Some q) \<and> q < Suc i + n
        \<and> (\<forall>j < Suc i + n. ages ! q \<le> ages ! j)"
      using Suc.prems(1,4) True by (intro Suc.IH) (auto simp: less_Suc_eq)
    with True i show ?thesis by simp
  next
    case False
    have "\<exists>q. oldest_loop n (Suc i) ages a pst = Some (Some q) \<and> q < Suc i + n
        \<and> (\<forall>j < Suc i + n. ages ! q \<le> ages ! j)"
    proof (rule Suc.IH)
      show "pst = None \<longrightarrow> (\<exists>j \<ge> Suc i. j < Suc i + n \<and> ages ! j < a)"
        using Suc.prems(3) False by (metis add_Suc add_Suc_right le_antisym not_less_eq_eq)
    qed (use Suc.prems False in \<open>auto simp: less_Suc_eq\<close>)
    with False i show ?thesis by simp
  qed
qed

text \<open>The log block that \<open>_CreateNewLogBlk\<close> gives up when the table has no empty item is a full one if
  there is a full one, and otherwise a least recently used one.\<close>

theorem victim_log_choice:
  assumes "length (LOG_BLK_TBL s) = LOG_BLK_CNT_OF_ZONE" and "length (dr_log_age s) = LOG_BLK_CNT_OF_ZONE"
    and "i < LOG_BLK_CNT_OF_ZONE" and "dr_log_age s ! i < 0xffff" and "0 < PAGE_CNT_OF_SUPER_BLK C"
  shows "\<exists>p < LOG_BLK_CNT_OF_ZONE. victim_log C s = Some (Some p)
    \<and> (if \<exists>j < LOG_BLK_CNT_OF_ZONE. unat (LastUsedPage (LOG_BLK_TBL s ! j)) + 1 = PAGE_CNT_OF_SUPER_BLK C
       then unat (LastUsedPage (LOG_BLK_TBL s ! p)) + 1 = PAGE_CNT_OF_SUPER_BLK C
       else \<forall>j < LOG_BLK_CNT_OF_ZONE. dr_log_age s ! p \<le> dr_log_age s ! j)"
proof -
  let ?full = "\<lambda>l. unat (LastUsedPage l) + 1 = PAGE_CNT_OF_SUPER_BLK C"
  have "(\<lambda>l. int (unat (LastUsedPage l)) = int (PAGE_CNT_OF_SUPER_BLK C) - 1) = ?full"
    using assms(5) by (intro ext) linarith
  note run = victim_log_def [of C s, unfolded this]
  obtain r where r: "scan ?full (LOG_BLK_TBL s) 0 LOG_BLK_CNT_OF_ZONE 0 = Some r"
    using scan_total [of 0 0 LOG_BLK_CNT_OF_ZONE "LOG_BLK_TBL s"] assms(1) by auto
  show ?thesis
  proof (cases r)
    case (Some p)
    from scan_found [OF r [unfolded Some]] have p: "p < LOG_BLK_CNT_OF_ZONE" "?full (LOG_BLK_TBL s ! p)"
      by auto
    then show ?thesis unfolding run r Some by auto
  next
    case None
    from oldest_loop_min [of 0 LOG_BLK_CNT_OF_ZONE "dr_log_age s" None "0xffff"] assms(2-4)
    obtain q where "oldest_loop LOG_BLK_CNT_OF_ZONE 0 (dr_log_age s) 0xffff None = Some (Some q)"
      "q < LOG_BLK_CNT_OF_ZONE" "\<forall>j < LOG_BLK_CNT_OF_ZONE. dr_log_age s ! q \<le> dr_log_age s ! j"
      by auto
    with scan_none [OF r [unfolded None]] show ?thesis unfolding run r None by auto
  qed
qed

lemma victim_log_choice_witness:
  "\<exists>p < 16. victim_log sample_cfg (sample_drv ()) = Some (Some p)
    \<and> dr_log_age (sample_drv ()) ! p \<le> dr_log_age (sample_drv ()) ! 15"
proof -
  have "unat (LastUsedPage ((sample_log # replicate 15 empty_log_blk) ! j)) + 1 \<noteq> 8" if "j < 16" for j
    using that by (cases j) auto
  with victim_log_choice [of "sample_drv ()" 0 sample_cfg] show ?thesis
    by (auto simp: MAX_LOG_BLK_CNT_def)
qed

end
