(* ===== verification/Logic_Ctl.thy ===== *)
theory Logic_Ctl
  imports Log_Page
begin

text \<open>
  The logic layer's entry points (\<open>logic/logic_ctl.c\<close>, \<open>logic/read_reclaim.c\<close>): reading and writing a
  logical page with the operation mode and the current zone, block and page in \<open>LogicalCtl\<close>, the one
  page write cache, and the sector reads and writes built from them.

  The caller's buffer is memory addressed relative to \<open>pBuf\<close>: the code moves its pointer before the
  buffer for a head page that starts inside a page, so addresses are integers. A page operation works
  on the window of one page at an address, and changes no byte outside it.
\<close>

section \<open>Closing the written page\<close>

abbreviation set_ctl :: "logic_ctl \<Rightarrow> 'd drv \<Rightarrow> 'd drv" where
  "set_ctl c s \<equiv> s\<lparr>dr_ctl := c\<rparr>"

text \<open>The replacement of the log block after a failed program operation, shared by the page write and
  the close: new block from bad block management, stored in \<open>LogicalCtl\<close> and in the log table.\<close>

definition replace_log_blk ::
  "'d phy_ops \<Rightarrow> cfg \<Rightarrow> nat \<Rightarrow> 'd drv \<Rightarrow> (int \<times> 'd drv) option" where
  "replace_log_blk P C nErrPage s = do {
     (r, sub, s1) \<leftarrow> LML_BadBlkManage P C (lc_LogBlkNum (dr_ctl s)) (unat (lc_ZoneNum (dr_ctl s)))
                       nErrPage True s;
     if r < 0 then Some (-1, s1)
     else do {
       NewBlk \<leftarrow> sub;
       let s2 = set_ctl (dr_ctl s1\<lparr>lc_LogBlkNum := NewBlk\<rparr>) s1;
       (_, l) \<leftarrow> BMM_GetLogBlk (unat (lc_LogicBlkNum (dr_ctl s2))) s2;
       (_, s3) \<leftarrow> BMM_SetLogBlk (unat (lc_LogicBlkNum (dr_ctl s2))) (l\<lparr>PhyBlk := NewBlk\<rparr>) s2;
       Some (0, s3)
     }
   }"

definition CloseWritePage :: "'d phy_ops \<Rightarrow> cfg \<Rightarrow> 'd drv \<Rightarrow> (int \<times> 'd drv) option" where
  "CloseWritePage P C s = do {
     (r, s1) \<leftarrow>
       (if lc_OpMode (dr_ctl s) = CHR ''w''
        then do {
          let c = dr_ctl s;
          let tmpPage = LML_CalculatePhyOpPar C (op_with (ucast (junk16 C))) (unat (lc_ZoneNum c))
                (unat (PhyBlkNum (lc_LogBlkNum c))) (unat (lc_LogPageNum c));
          let (ra, sa) = SynchBank P (unat (op_BankNum tmpPage)) SYNC_BANK_MODE s;
          (rb, sb) \<leftarrow> (if ra < 0 then replace_log_blk P C (unat (lc_LogPageNum c) + 1) sa
                       else Some (0, sa));
          if rb < 0 then Some (-1, sb)
          else Some (0, snd (SynchBank P (unat (op_BankNum tmpPage)) SYNC_CHIP_MODE sb))
        }
        else Some (0 :: int, s));
     if r < 0 then Some (-1, s1)
     else Some (0, set_ctl (dr_ctl s1\<lparr>lc_OpMode := CHR ''n''\<rparr>) s1)
   }"

section \<open>Reading a logical page\<close>

definition LML_PageRead ::
  "'d phy_ops \<Rightarrow> cfg \<Rightarrow> u32 \<Rightarrow> u32 \<Rightarrow> u8 list \<Rightarrow> 'd drv \<Rightarrow> (int \<times> u8 list \<times> 'd drv) option" where
  "LML_PageRead P C nPage nBitmap mbuf s = do {
     let lp = CalculateLogicPagePar C nPage nBitmap;
     (r1, s1) \<leftarrow>
       (if lc_OpMode (dr_ctl s) \<noteq> CHR ''r''
        then do {
          (ra, sa) \<leftarrow> (if lc_OpMode (dr_ctl s) = CHR ''w'' then CloseWritePage P C s else Some (0, s));
          if ra < 0 then Some (- ERR_LOGICCTL, sa)
          else Some (0, set_ctl (dr_ctl sa\<lparr>lc_OpMode := CHR ''r''\<rparr>) sa)
        }
        else Some (0, s));
     if r1 < 0 then Some (r1, mbuf, s1)
     else do {
       (r2, s2) \<leftarrow>
         (if lp_ZoneNum lp \<noteq> lc_ZoneNum (dr_ctl s1)
          then do {
            (ra, sa) \<leftarrow> BMM_SwitchMapTbl P C (unat (lp_ZoneNum lp)) s1;
            if ra < 0 then Some (- ERR_MAPPING, sa)
            else Some (0, set_ctl (dr_ctl sa\<lparr>lc_ZoneNum := lp_ZoneNum lp, lc_LogicBlkNum := 0xffff\<rparr>) sa)
          }
          else Some (0, s1));
       if r2 < 0 then Some (r2, mbuf, s2)
       else do {
         s3 \<leftarrow>
           (if lp_BlockNum lp \<noteq> lc_LogicBlkNum (dr_ctl s2)
            then do {
              (_, d) \<leftarrow> BMM_GetDataBlk C (unat (lp_BlockNum lp)) s2;
              (_, l) \<leftarrow> BMM_GetLogBlk (unat (lp_BlockNum lp)) s2;
              Some (set_ctl (dr_ctl s2\<lparr>lc_DataBlkNum := d, lc_LogBlkNum := PhyBlk l,
                                       lc_LogicBlkNum := lp_BlockNum lp\<rparr>) s2)
            }
            else Some s2);
         let s4 = set_ctl (dr_ctl s3\<lparr>lc_LogicPageNum := lp_PageNum lp\<rparr>) s3;
         (logpage, s5) \<leftarrow>
           (if PhyBlkNum (lc_LogBlkNum (dr_ctl s4)) \<noteq> 0xffff
            then PMM_GetLogPage P C (unat (lp_BlockNum lp)) (unat (lp_PageNum lp)) CHR ''r'' s4
            else Some (0xffff, s4));
         let s6 = set_ctl (dr_ctl s5\<lparr>lc_LogPageNum := logpage\<rparr>) s5;
         let c = dr_ctl s6;
         let (blk, page) = (if lc_LogPageNum c \<noteq> 0xffff then (lc_LogBlkNum c, lc_LogPageNum c)
                            else (lc_DataBlkNum c, lc_LogicPageNum c));
         let param = LML_CalculatePhyOpPar C (op_with (lp_SectBitmap lp)) (unat (lc_ZoneNum c))
                       (unat (PhyBlkNum blk)) (unat page);
         (r, mbuf', _, s7) \<leftarrow> LML_VirtualPageRead P C param mbuf None s6;
         if r < 0 then Some (-1, mbuf', s7) else Some (r, mbuf', s7)
       }
     }
   }"

section \<open>Writing a logical page\<close>

text \<open>The loop from \<open>__TRY_WRITE_PHYSIC_PAGE\<close>: in write mode the bank is synchronised first, and a
  failure replaces the log block and tries again.\<close>

lemma SetLogBlk_free_blks:
  "BMM_SetLogBlk n l s = Some (r, s') \<Longrightarrow> free_blks C (BLK_MAP_CACHE s') = free_blks C (BLK_MAP_CACHE s)"
  by (drule BMM_SetLogBlk_post) auto

lemma replace_log_blk_shrinks:
  "replace_log_blk P C n s = Some (r, s') \<Longrightarrow> 0 \<le> r \<Longrightarrow>
   size (free_blks C (BLK_MAP_CACHE s')) < size (free_blks C (BLK_MAP_CACHE s))"
  by (auto simp: replace_log_blk_def Let_def Option.bind_eq_Some_conv SetLogBlk_free_blks split: if_splits
      dest!: LML_BadBlkManage_shrinks)

function try_write_page ::
  "'d phy_ops \<Rightarrow> cfg \<Rightarrow> u32 \<Rightarrow> u8 list \<Rightarrow> u8 list \<Rightarrow> 'd drv \<Rightarrow> (int \<times> 'd drv) option" where
  "try_write_page P C bitmap mbuf sp s = do {
     let c = dr_ctl s;
     let param = LML_CalculatePhyOpPar C (op_with bitmap) (unat (lc_ZoneNum c))
                   (unat (PhyBlkNum (lc_LogBlkNum c))) (unat (lc_LogPageNum c));
     case (if lc_OpMode c = CHR ''w'' then SynchBank P (unat (op_BankNum param)) SYNC_BANK_MODE s
           else (0, s)) of (r1, s1) \<Rightarrow>
     if r1 < 0
     then do {
       (r2, s2) \<leftarrow> replace_log_blk P C (unat (lc_LogPageNum c)) s1;
       if r2 < 0 then Some (-1, s2) else try_write_page P C bitmap mbuf sp s2
     }
     else do {
       (r3, s3) \<leftarrow> LML_VirtualPageWrite P C param mbuf (Some sp) s1;
       if r3 < 0 then Some (- ERR_LOGICCTL, s3)
       else Some (0, set_ctl (dr_ctl s3\<lparr>lc_OpMode := CHR ''w''\<rparr>) s3)
     }
   }"
  by pat_completeness auto
termination
proof (relation "measure (\<lambda>(P, C, b, m, sp, s). size (free_blks C (BLK_MAP_CACHE s)))", goal_cases)
  case 1
  show ?case by simp
next
  case 2
  then show ?case by (auto dest!: replace_log_blk_shrinks step_BLK split: if_splits)
qed

declare try_write_page.simps [simp del]

text \<open>The spare data of the page that is written; page 0 of a log block carries the log age.\<close>

definition write_page_spare ::
  "'d phy_ops \<Rightarrow> cfg \<Rightarrow> 'd drv \<Rightarrow> (int \<times> u8 list \<times> 'd drv) option" where
  "write_page_spare P C s = do {
     let c = dr_ctl s;
     (r, st, sp, s1) \<leftarrow>
       (if lc_LogPageNum c = 0
        then do {
          (ra, spa, sa) \<leftarrow> ReadTemp P C (LML_CalculatePhyOpPar C (op_with 3) (unat (lc_ZoneNum c))
                             (unat (PhyBlkNum (lc_DataBlkNum c))) 0) (junk_spare C) s;
          if ra < 0 then Some (- ERR_PHYSIC, 0, spa, sa)
          else Some (0, ud_PageStatus (fst (dec_ud2 spa)) + 1, spa, sa)
        }
        else Some (0 :: int, 0x55, junk_spare C, s));
     let info = (push_bit 10 (of_nat (unat (lc_ZoneNum c) mod ZONE_CNT_OF_DIE C)) OR lc_LogicBlkNum c);
     let u = dec_ud2 sp;
     let mark = (\<lambda>d. d\<lparr>ud_BadBlkFlag := 0xff, ud_LogicInfo := info,
                       ud_LogicPageNum := lc_LogicPageNum c, ud_PageStatus := st\<rparr>);
     Some (r, enc_ud2 (mark (fst u), mark (snd u)), s1)
   }"

definition LML_PageWrite ::
  "'d phy_ops \<Rightarrow> cfg \<Rightarrow> u32 \<Rightarrow> u32 \<Rightarrow> u8 list \<Rightarrow> 'd drv \<Rightarrow> (int \<times> 'd drv) option" where
  "LML_PageWrite P C nPage nBitmap mbuf s =
    (if nBitmap \<noteq> FULL_BITMAP_OF_LOGIC_PAGE C then Some (- ERR_LOGICCTL, s)
     else do {
       let lp = CalculateLogicPagePar C nPage nBitmap;
       (r1, s1) \<leftarrow>
         (if lp_ZoneNum lp \<noteq> lc_ZoneNum (dr_ctl s)
          then do {
            (ra, sa) \<leftarrow> CloseWritePage P C s;
            if ra < 0 then Some (- ERR_LOGICCTL, sa)
            else do {
              (rb, sb) \<leftarrow> BMM_SwitchMapTbl P C (unat (lp_ZoneNum lp)) sa;
              if rb < 0 then Some (- ERR_MAPPING, sb)
              else Some (0, set_ctl (dr_ctl sb\<lparr>lc_ZoneNum := lp_ZoneNum lp, lc_LogicBlkNum := 0xffff\<rparr>) sb)
            }
          }
          else Some (0, s));
       if r1 < 0 then Some (r1, s1)
       else do {
         s2 \<leftarrow> BMM_SetDirtyFlag P C s1;
         (r3, s3) \<leftarrow>
           (if lp_BlockNum lp \<noteq> lc_LogicBlkNum (dr_ctl s2)
            then do {
              (ra, sa) \<leftarrow> CloseWritePage P C s2;
              if ra < 0 then Some (- ERR_LOGICCTL, sa)
              else Some (0, set_ctl (dr_ctl sa\<lparr>lc_LogicBlkNum := lp_BlockNum lp\<rparr>) sa)
            }
            else Some (0, s2));
         if r3 < 0 then Some (r3, s3)
         else do {
           let s4 = set_ctl (dr_ctl s3\<lparr>lc_LogicPageNum := lp_PageNum lp\<rparr>) s3;
           (logpage, s5) \<leftarrow> PMM_GetLogPage P C (unat (lc_LogicBlkNum (dr_ctl s4)))
                              (unat (lc_LogicPageNum (dr_ctl s4))) CHR ''w'' s4;
           let s6 = set_ctl (dr_ctl s5\<lparr>lc_LogPageNum := logpage\<rparr>) s5;
           if logpage = 0xffff then Some (- ERR_MAPPING, s6)
           else do {
             (_, d) \<leftarrow> BMM_GetDataBlk C (unat (lp_BlockNum lp)) s6;
             (_, l) \<leftarrow> BMM_GetLogBlk (unat (lp_BlockNum lp)) s6;
             let s7 = set_ctl (dr_ctl s6\<lparr>lc_DataBlkNum := d, lc_LogBlkNum := PhyBlk l\<rparr>) s6;
             if PhyBlkNum (PhyBlk l) = 0xffff then Some (- ERR_MAPPING, s7)
             else do {
               (r8, sp, s8) \<leftarrow> write_page_spare P C s7;
               if r8 < 0 then Some (r8, s8)
               else try_write_page P C (lp_SectBitmap lp) mbuf sp s8
             }
           }
         }
       }
     })"

section \<open>The write page cache\<close>

text \<open>Copy the sectors that the bitmap selects, of \<open>n\<close> sectors from sector \<open>i\<close> on.\<close>

fun copy_sectors :: "nat \<Rightarrow> nat \<Rightarrow> u32 \<Rightarrow> u8 list \<Rightarrow> u8 list \<Rightarrow> u8 list option" where
  "copy_sectors 0 i bitmap src dst = Some dst"
| "copy_sectors (Suc n) i bitmap src dst =
     (if bitmap AND push_bit i 1 \<noteq> 0
      then do {
        x \<leftarrow> mem_get src (i * SECTOR_SIZE) SECTOR_SIZE;
        dst' \<leftarrow> mem_put dst (i * SECTOR_SIZE) x;
        copy_sectors n (Suc i) bitmap src dst'
      }
      else copy_sectors n (Suc i) bitmap src dst)"

definition UpdateReadPageData :: "cfg \<Rightarrow> u32 \<Rightarrow> u8 list \<Rightarrow> 'd drv \<Rightarrow> u8 list option" where
  "UpdateReadPageData C nSectBitmap win s =
     copy_sectors (SECTOR_CNT_OF_LOGIC_PAGE C) 0 (nSectBitmap AND gp_SectorBitmap (dr_cache_page s))
       (dr_write_cache s) win"

definition MergeCachePageData :: "cfg \<Rightarrow> u32 \<Rightarrow> u32 \<Rightarrow> u8 list \<Rightarrow> 'd drv \<Rightarrow> 'd drv option" where
  "MergeCachePageData C nPage nBitmap win s = do {
     let cp = (if gp_LogicPageNum (dr_cache_page s) = 0xffffffff
               then \<lparr>gp_LogicPageNum = nPage, gp_SectorBitmap = 0\<rparr> else dr_cache_page s);
     b \<leftarrow> copy_sectors (SECTOR_CNT_OF_LOGIC_PAGE C) 0 nBitmap win (dr_write_cache s);
     Some (s\<lparr>dr_write_cache := b,
             dr_cache_page := cp\<lparr>gp_SectorBitmap := gp_SectorBitmap cp OR nBitmap\<rparr>\<rparr>)
   }"

definition WritePageCacheToNand :: "'d phy_ops \<Rightarrow> cfg \<Rightarrow> 'd drv \<Rightarrow> (int \<times> 'd drv) option" where
  "WritePageCacheToNand P C s =
    (let cp = dr_cache_page s; full = FULL_BITMAP_OF_LOGIC_PAGE C in
     if gp_LogicPageNum cp \<noteq> 0xffffffff
     then do {
       (r1, s1) \<leftarrow>
         (if gp_SectorBitmap cp \<noteq> full
          then do {
            (ra, b, sa) \<leftarrow> LML_PageRead P C (gp_LogicPageNum cp) (gp_SectorBitmap cp XOR full)
                             (dr_write_cache s) s;
            Some (ra, sa\<lparr>dr_write_cache := b\<rparr>)
          }
          else Some (0, s));
       if r1 < 0 then Some (-1, s1)
       else do {
         (r2, s2) \<leftarrow> LML_PageWrite P C (gp_LogicPageNum cp) full (dr_write_cache s1) s1;
         if r2 < 0 then Some (-1, s2)
         else Some (0, s2\<lparr>dr_cache_page := \<lparr>gp_LogicPageNum = 0xffffffff, gp_SectorBitmap = 0\<rparr>\<rparr>)
       }
     }
     else Some (0, s))"

definition LML_FlushPageCache :: "'d phy_ops \<Rightarrow> cfg \<Rightarrow> 'd drv \<Rightarrow> (int \<times> 'd drv) option" where
  "LML_FlushPageCache P C s = do {
     (r1, s1) \<leftarrow> WritePageCacheToNand P C s;
     if r1 < 0 then Some (-1, s1)
     else do {
       (r2, s2) \<leftarrow> CloseWritePage P C s1;
       if r2 < 0 then Some (-1, s2) else Some (0, s2)
     }
   }"

section \<open>Read reclaim\<close>

definition LML_ReadReclaim :: "'d phy_ops \<Rightarrow> cfg \<Rightarrow> u32 \<Rightarrow> 'd drv \<Rightarrow> (int \<times> 'd drv) option" where
  "LML_ReadReclaim P C nPage s = do {
     let full = FULL_BITMAP_OF_LOGIC_PAGE C;
     (r1, s1) \<leftarrow> LML_FlushPageCache P C s;
     if r1 < 0 then Some (-1, s1)
     else do {
       (r2, b, s2) \<leftarrow> LML_PageRead P C nPage full (dr_write_cache s1) s1;
       let s3 = s2\<lparr>dr_write_cache := b\<rparr>;
       if r2 < 0 then Some (-1, s3)
       else do {
         (r4, s4) \<leftarrow> LML_PageWrite P C nPage full (dr_write_cache s3) s3;
         if r4 < 0 then Some (-1, s4) else Some (0, s4)
       }
     }
   }"

section \<open>Sector reads and writes\<close>

type_synonym user_mem = "int \<Rightarrow> u8"

definition page_window :: "cfg \<Rightarrow> int \<Rightarrow> user_mem \<Rightarrow> u8 list" where
  "page_window C off m = map (\<lambda>k. m (off + int k)) [0..<SECTOR_CNT_OF_LOGIC_PAGE C * SECTOR_SIZE]"

definition put_window :: "int \<Rightarrow> u8 list \<Rightarrow> user_mem \<Rightarrow> user_mem" where
  "put_window off w m = (\<lambda>a. if off \<le> a \<and> a < off + int (length w) then w ! nat (a - off) else m a)"

text \<open>The loop that moves the buffer pointer back, one sector for each sector before the first of the
  head page; \<open>n\<close> sectors to go from sector \<open>i\<close>.\<close>

fun head_offset :: "nat \<Rightarrow> nat \<Rightarrow> u32 \<Rightarrow> int \<Rightarrow> int" where
  "head_offset 0 i bitmap off = off"
| "head_offset (Suc n) i bitmap off =
     (if bitmap AND push_bit i 1 \<noteq> 0 then off
      else head_offset n (Suc i) bitmap (off - int SECTOR_SIZE))"

definition next_bitmap :: "cfg \<Rightarrow> glob_page \<Rightarrow> nat \<Rightarrow> nat \<Rightarrow> u32" where
  "next_bitmap C tmpTailPage tmpPageCnt i =
     (if gp_SectorBitmap tmpTailPage \<noteq> 0 \<and> i + 2 = tmpPageCnt then gp_SectorBitmap tmpTailPage
      else FULL_BITMAP_OF_LOGIC_PAGE C)"

definition page_count :: "u32 \<Rightarrow> glob_page \<Rightarrow> nat" where
  "page_count tmpMidPageCnt tmpTailPage =
     1 + unat tmpMidPageCnt + (if gp_SectorBitmap tmpTailPage \<noteq> 0 then 1 else 0)"

fun read_pages ::
  "'d phy_ops \<Rightarrow> cfg \<Rightarrow> glob_page \<Rightarrow> nat \<Rightarrow> nat \<Rightarrow> nat \<Rightarrow> u32 \<Rightarrow> u32 \<Rightarrow> int \<Rightarrow> user_mem \<Rightarrow> 'd drv
   \<Rightarrow> (int \<times> user_mem \<times> 'd drv) option" where
  "read_pages P C tail cnt 0 i tmpPageNum tmpBitmap off m s = Some (0, m, s)"
| "read_pages P C tail cnt (Suc n) i tmpPageNum tmpBitmap off m s = do {
     (result, w, s1) \<leftarrow> LML_PageRead P C tmpPageNum tmpBitmap (page_window C off m) s;
     let m1 = put_window off w m;
     if result < 0 then Some (-1, m1, s1)
     else do {
       (_, s2) \<leftarrow> (if result = ECC_LIMIT then LML_ReadReclaim P C tmpPageNum s1 else Some (0, s1));
       m2 \<leftarrow> (if tmpPageNum = gp_LogicPageNum (dr_cache_page s2)
              then do { w' \<leftarrow> UpdateReadPageData C tmpBitmap (page_window C off m1) s2;
                        Some (put_window off w' m1) }
              else Some m1);
       read_pages P C tail cnt n (Suc i) (tmpPageNum + 1) (next_bitmap C tail cnt i)
         (off + int (SECTOR_SIZE * SECTOR_CNT_OF_LOGIC_PAGE C)) m2 s2
     }
   }"

definition LML_Read ::
  "'d phy_ops \<Rightarrow> cfg \<Rightarrow> u32 \<Rightarrow> u32 \<Rightarrow> user_mem \<Rightarrow> 'd drv \<Rightarrow> (int \<times> user_mem \<times> 'd drv) option" where
  "LML_Read P C nSectNum nSectorCnt m s =
    (if nSectNum + nSectorCnt > lc_DiskCap (dr_ctl s) then Some (- ERR_ADDRBEYOND, m, s)
     else if nSectorCnt = 0 then Some (0, m, s)
     else do {
       (head, mid, tail) \<leftarrow> CalculateSectPar C nSectNum nSectorCnt;
       let off = head_offset (SECTOR_CNT_OF_LOGIC_PAGE C) 0 (gp_SectorBitmap head) 0;
       let cnt = page_count mid tail;
       read_pages P C tail cnt cnt 0 (gp_LogicPageNum head) (gp_SectorBitmap head) off m s
     })"

fun write_pages ::
  "'d phy_ops \<Rightarrow> cfg \<Rightarrow> glob_page \<Rightarrow> nat \<Rightarrow> nat \<Rightarrow> nat \<Rightarrow> u32 \<Rightarrow> u32 \<Rightarrow> int \<Rightarrow> user_mem \<Rightarrow> 'd drv
   \<Rightarrow> (int \<times> 'd drv) option" where
  "write_pages P C tail cnt 0 i tmpPageNum tmpBitmap off m s = Some (0, s)"
| "write_pages P C tail cnt (Suc n) i tmpPageNum tmpBitmap off m s = do {
     (r :: int, s1) \<leftarrow>
       (if tmpPageNum = gp_LogicPageNum (dr_cache_page s)
        then do { s' \<leftarrow> MergeCachePageData C tmpPageNum tmpBitmap (page_window C off m) s; Some (0, s') }
        else do {
          (ra, sa) \<leftarrow> WritePageCacheToNand P C s;
          if ra < 0 then Some (-1, sa)
          else if tmpBitmap = FULL_BITMAP_OF_LOGIC_PAGE C
          then do {
            (rb, sb) \<leftarrow> LML_PageWrite P C tmpPageNum tmpBitmap (page_window C off m) sa;
            if rb < 0 then Some (-1, sb) else Some (0, sb)
          }
          else do { s' \<leftarrow> MergeCachePageData C tmpPageNum tmpBitmap (page_window C off m) sa; Some (0, s') }
        });
     if r < 0 then Some (-1, s1)
     else write_pages P C tail cnt n (Suc i) (tmpPageNum + 1) (next_bitmap C tail cnt i)
            (off + int (SECTOR_SIZE * SECTOR_CNT_OF_LOGIC_PAGE C)) m s1
   }"

text \<open>A write beyond the disk is only logged: unlike \<open>LML_Read\<close> the code goes on.\<close>

definition LML_Write ::
  "'d phy_ops \<Rightarrow> cfg \<Rightarrow> u32 \<Rightarrow> u32 \<Rightarrow> user_mem \<Rightarrow> 'd drv \<Rightarrow> (int \<times> 'd drv) option" where
  "LML_Write P C nSectNum nSectorCnt m s =
    (if nSectorCnt = 0 then Some (0, s)
     else do {
       (head, mid, tail) \<leftarrow> CalculateSectPar C nSectNum nSectorCnt;
       let off = head_offset (SECTOR_CNT_OF_LOGIC_PAGE C) 0 (gp_SectorBitmap head) 0;
       let cnt = page_count mid tail;
       write_pages P C tail cnt cnt 0 (gp_LogicPageNum head) (gp_SectorBitmap head) off m s
     })"

section \<open>Start and stop of the layer\<close>

text \<open>The product is taken modulo 2 to the 32: in C it is a product of \<open>int\<close>s, undefined when it overflows.
  The division is by the fixed zone size.\<close>

definition NAND_GetDiskSize :: "cfg \<Rightarrow> u32" where
  "NAND_GetDiskSize C =
     of_nat (unat (of_nat (SECTOR_CNT_OF_SINGLE_PAGE C) * of_nat (PAGE_CNT_OF_PHY_BLK C)
                   * of_nat (BLOCK_CNT_OF_DIE C) * of_nat (DIE_CNT_OF_CHIP C)
                   * of_nat (unat (ChipCnt (storage C))) :: u32) div 1024)
     * of_nat (DATA_BLK_CNT_OF_ZONE C)"

definition initial_ctl :: "cfg \<Rightarrow> logic_ctl" where
  "initial_ctl C = \<lparr>lc_OpMode = CHR ''n'', lc_ZoneNum = 0xff, lc_LogicBlkNum = 0xffff,
     lc_LogicPageNum = 0xffff, lc_LogPageNum = 0xffff, lc_DataBlkNum = empty_phy_blk,
     lc_LogBlkNum = empty_phy_blk, lc_DiskCap = NAND_GetDiskSize C\<rparr>"

text \<open>\<open>mem1\<close> and \<open>mem2\<close> are the new page buffers, \<^term>\<open>None\<close> when \<open>MALLOC\<close> fails.\<close>

definition LML_Init ::
  "cfg \<Rightarrow> u8 list option \<Rightarrow> u8 list option \<Rightarrow> (nat \<Rightarrow> super_phy_blk list option)
   \<Rightarrow> (nat \<Rightarrow> log_blk list option) \<Rightarrow> (nat \<Rightarrow> u16 list option) \<Rightarrow> 'd drv \<Rightarrow> (int \<times> 'd drv) option" where
  "LML_Init C mem1 mem2 bmem lmem pmem s =
    (let s1 = s\<lparr>dr_cache_page := \<lparr>gp_LogicPageNum = 0xffffffff, gp_SectorBitmap = 0\<rparr>,
                dr_ctl := initial_ctl C\<rparr> in
     case mem1 of None \<Rightarrow> Some (- ERR_MALLOC, s1)
     | Some b1 \<Rightarrow>
       let s2 = s1\<lparr>dr_write_cache := b1\<rparr> in
       case mem2 of None \<Rightarrow> Some (- ERR_MALLOC, s2)
       | Some b2 \<Rightarrow> do {
           let s3 = s2\<lparr>dr_tbl_buf := b2\<rparr>;
           sp \<leftarrow> mem_put (dr_spare_buf s3) 0 (replicate (SECTOR_CNT_OF_SUPER_PAGE C * 4) 0xff);
           (r4, s4) \<leftarrow> BMM_InitMapTblCache bmem lmem (s3\<lparr>dr_spare_buf := sp\<rparr>);
           if r4 < 0 then Some (- ERR_MAPPING, s4)
           else let (r5, s5) = PMM_InitMapTblCache pmem s4 in
             if r5 < 0 then Some (- ERR_MAPPING, s5) else Some (0, s5)
         })"

text \<open>The results of the two steps are ignored; the release of the buffers is not part of the state.\<close>

definition LML_Exit :: "'d phy_ops \<Rightarrow> cfg \<Rightarrow> 'd drv \<Rightarrow> (int \<times> 'd drv) option" where
  "LML_Exit P C s = do {
     (_, s1) \<leftarrow> LML_FlushPageCache P C s;
     (_, s2) \<leftarrow> BMM_WriteBackAllMapTbl P C s1;
     Some (0, s2)
   }"

end
