(* ===== verification/Logic_Cache.thy ===== *)
theory Logic_Cache
  imports Logic_Ctl
begin

text \<open>
  The sector cache above the logic layer (\<open>logic/logic_cache.c\<close>): one write cache and one read cache of a
  logical page each. The variant of \<open>NAND_CacheWrite\<close> that fills the write cache is disabled in the source
  (\<open>#if 0\<close>) and not modelled; \<open>_fill_nand_cache\<close> and \<open>_get_data_from_cache\<close>, which only it would use, are.
  Memory the caller passes is \<open>user_mem\<close>, by the offset from the caller's pointer.
\<close>

section \<open>State\<close>

definition N_NAND_W_CACHE :: nat where "N_NAND_W_CACHE = 1"

record nand_cache =
  nc_data :: "u8 list"
  nc_size :: u32
  nc_hit_page :: u32
  nc_secbitmap :: u32
  nc_access_count :: u32

record 'd cache_drv =
  cd_w_access_cnt :: u32
  cd_w_cache :: "nand_cache list"
  cd_r_cache :: nand_cache
  cd_drv :: "'d drv"

section \<open>Bitmaps\<close>

function get_valid_bits :: "u32 \<Rightarrow> u32 \<Rightarrow> u32" where
  "get_valid_bits secbitmap validbit =
    (if secbitmap \<noteq> 0
     then get_valid_bits (drop_bit 1 secbitmap) (if secbitmap AND 1 \<noteq> 0 then validbit + 1 else validbit)
     else validbit)"
  by pat_completeness auto
termination
proof (relation "measure (\<lambda>(b, v). unat b)", goal_cases)
  case (2 b v)
  then have "0 < unat b" by (simp add: unat_gt_0)
  then show ?case by (simp add: unat_div drop_bit_eq_div)
qed simp

declare get_valid_bits.simps [simp del]

text \<open>\<open>_get_first_valid_bit\<close> does not return on an empty bitmap: that is \<^term>\<open>None\<close> here.\<close>

partial_function (option) get_first_valid_bit :: "u32 \<Rightarrow> u32 \<Rightarrow> u32 option" where
  [code]: "get_first_valid_bit secbitmap firstbit =
    (if secbitmap AND 1 = 0 then get_first_valid_bit (drop_bit 1 secbitmap) (firstbit + 1)
     else Some firstbit)"


section \<open>Flushing the write cache\<close>

definition write_out ::
  "'d phy_ops \<Rightarrow> cfg \<Rightarrow> nand_cache \<Rightarrow> 'd drv \<Rightarrow> (u8 list \<times> 'd drv) option" where
  "write_out P C c s = do {
     (data, s1) \<leftarrow>
       (if nc_secbitmap c \<noteq> FULL_BITMAP_OF_LOGIC_PAGE C
        then do {
          (_, m, s') \<leftarrow> LML_PageRead P C (nc_hit_page c)
             (nc_secbitmap c XOR FULL_BITMAP_OF_LOGIC_PAGE C) (nc_data c) s;
          Some (m, s')
        }
        else Some (nc_data c, s));
     (_, s2) \<leftarrow> LML_PageWrite P C (nc_hit_page c) (FULL_BITMAP_OF_LOGIC_PAGE C) data s1;
     Some (data, s2)
   }"

text \<open>The read cache is compared with the page number after that was reset, as in the code.\<close>

fun flush_caches :: "'d phy_ops \<Rightarrow> cfg \<Rightarrow> nat \<Rightarrow> nat \<Rightarrow> 'd cache_drv \<Rightarrow> 'd cache_drv option" where
  "flush_caches P C 0 i s = Some s"
| "flush_caches P C (Suc n) i s = do {
     c \<leftarrow> arr_get (cd_w_cache s) i;
     s' \<leftarrow>
       (if nc_hit_page c \<noteq> 0xffffffff
        then do {
          (data, d) \<leftarrow> write_out P C c (cd_drv s);
          let c' = c\<lparr>nc_data := data, nc_hit_page := 0xffffffff, nc_secbitmap := 0, nc_access_count := 0\<rparr>;
          w \<leftarrow> arr_set (cd_w_cache s) i c';
          Some (s\<lparr>cd_w_cache := w, cd_drv := d,
            cd_r_cache := (if nc_hit_page (cd_r_cache s) = nc_hit_page c'
                           then (cd_r_cache s)\<lparr>nc_hit_page := 0xffffffff, nc_secbitmap := 0\<rparr>
                           else cd_r_cache s)\<rparr>)
        }
        else Some s);
     flush_caches P C n (Suc i) s'
   }"

definition NAND_CacheFlush :: "'d phy_ops \<Rightarrow> cfg \<Rightarrow> 'd cache_drv \<Rightarrow> (int \<times> 'd cache_drv) option" where
  "NAND_CacheFlush P C s = do { s' \<leftarrow> flush_caches P C N_NAND_W_CACHE 0 s; Some (0, s') }"

section \<open>Reading through the cache\<close>

definition get_one_page ::
  "'d phy_ops \<Rightarrow> cfg \<Rightarrow> u32 \<Rightarrow> u32 \<Rightarrow> int \<Rightarrow> user_mem \<Rightarrow> 'd cache_drv \<Rightarrow> (user_mem \<times> 'd cache_drv) option" where
  "get_one_page P C page SecBitmap tmp m s =
    (let r = cd_r_cache s; full = FULL_BITMAP_OF_LOGIC_PAGE C; SP = SECTOR_CNT_OF_LOGIC_PAGE C in
     if page = nc_hit_page r
     then do {
       w \<leftarrow> copy_sectors SP 0 SecBitmap (nc_data r) (page_window C tmp m);
       Some (put_window tmp w m, s)
     }
     else if SecBitmap = full
     then do {
       (_, w, d) \<leftarrow> LML_PageRead P C page full (page_window C tmp m) (cd_drv s);
       Some (put_window tmp w m, s\<lparr>cd_drv := d\<rparr>)
     }
     else do {
       (_, data, d) \<leftarrow> LML_PageRead P C page full (nc_data r) (cd_drv s);
       w \<leftarrow> copy_sectors SP 0 SecBitmap data (page_window C tmp m);
       Some (put_window tmp w m,
         s\<lparr>cd_drv := d, cd_r_cache := r\<lparr>nc_data := data, nc_hit_page := page, nc_secbitmap := full\<rparr>\<rparr>)
     })"

text \<open>\<open>tmp\<close> is moved back so that the first valid sector of the page falls on its place in the buffer.\<close>

definition page_start :: "u32 \<Rightarrow> int \<Rightarrow> int option" where
  "page_start SecBitmap pdata = do {
     first \<leftarrow> get_first_valid_bit SecBitmap 0;
     Some (pdata - 512 * int (unat (get_valid_bits SecBitmap 0)) - 512 * int (unat first))
   }"

fun cache_read ::
  "'d phy_ops \<Rightarrow> cfg \<Rightarrow> nat \<Rightarrow> u32 \<Rightarrow> u32 \<Rightarrow> u32 \<Rightarrow> int \<Rightarrow> user_mem \<Rightarrow> 'd cache_drv
   \<Rightarrow> (user_mem \<times> 'd cache_drv) option" where
  "cache_read P C 0 StartSec SecBitmap page pdata m s =
    (if SecBitmap \<noteq> 0
     then do { tmp \<leftarrow> page_start SecBitmap pdata; get_one_page P C page SecBitmap tmp m s }
     else Some (m, s))"
| "cache_read P C (Suc n) StartSec SecBitmap page pdata m s =
    (let SP = SECTOR_CNT_OF_LOGIC_PAGE C in
     if SP = 0 then None
     else
       let SecWithinPage = unat StartSec mod SP;
           SecBitmap' = (SecBitmap OR push_bit SecWithinPage 1);
           page' = of_nat (unat StartSec div SP)
       in do {
         (m', s', bm) \<leftarrow>
           (if SecWithinPage = SP - 1
            then do {
              tmp \<leftarrow> page_start SecBitmap' (pdata + 512);
              (m', s') \<leftarrow> get_one_page P C page' SecBitmap' tmp m s;
              Some (m', s', 0)
            }
            else Some (m, s, SecBitmap'));
         cache_read P C n (StartSec + 1) bm page' (pdata + 512) m' s'
       })"

definition NAND_CacheRead ::
  "'d phy_ops \<Rightarrow> cfg \<Rightarrow> u32 \<Rightarrow> u32 \<Rightarrow> user_mem \<Rightarrow> 'd cache_drv \<Rightarrow> (int \<times> user_mem \<times> 'd cache_drv) option" where
  "NAND_CacheRead P C blk nblk buf s = do {
     (m, s') \<leftarrow> cache_read P C (unat nblk) blk 0 0xffffffff 0 buf s;
     Some (0, m, s')
   }"

text \<open>\<open>_get_data_from_cache\<close>: \<open>n\<close> sectors to go from sector \<open>sec\<close>, at offset \<open>off\<close> of the buffer.\<close>

fun get_data_from_cache :: "cfg \<Rightarrow> nat \<Rightarrow> nat \<Rightarrow> int \<Rightarrow> user_mem \<Rightarrow> 'd cache_drv \<Rightarrow> user_mem option" where
  "get_data_from_cache C 0 sec off m s = Some m"
| "get_data_from_cache C (Suc n) sec off m s =
    (let SP = SECTOR_CNT_OF_LOGIC_PAGE C in
     if SP = 0 then None
     else do {
       let w = sec mod SP;
       pst \<leftarrow> scan (\<lambda>c. unat (nc_hit_page c) = sec div SP \<and> nc_secbitmap c AND push_bit w 1 \<noteq> 0)
                (cd_w_cache s) 0 N_NAND_W_CACHE 0;
       m' \<leftarrow> (case pst of
           None \<Rightarrow> Some m
         | Some i \<Rightarrow> do {
             c \<leftarrow> arr_get (cd_w_cache s) i;
             x \<leftarrow> mem_get (nc_data c) (w * 512) 512;
             Some (put_window off x m)
           });
       get_data_from_cache C n (sec + 1) (off + 512) m' s
     })"

section \<open>Filling the write cache\<close>

definition merge_into :: "u32 \<Rightarrow> int \<Rightarrow> user_mem \<Rightarrow> nand_cache \<Rightarrow> u8 list option" where
  "merge_into secbitmap pdata m c = do {
     first \<leftarrow> get_first_valid_bit secbitmap 0;
     mem_put (nc_data c) (512 * unat first)
       (map (\<lambda>k. m (pdata + int k)) [0..<512 * unat (get_valid_bits secbitmap 0)])
   }"

text \<open>The search for the least recently used write cache: \<open>n\<close> caches to go from cache \<open>i\<close>.\<close>

fun oldest_cache :: "nat \<Rightarrow> nat \<Rightarrow> nand_cache list \<Rightarrow> u32 \<Rightarrow> nat \<Rightarrow> nat option" where
  "oldest_cache 0 i w access_cnt pos = Some pos"
| "oldest_cache (Suc n) i w access_cnt pos = do {
     c \<leftarrow> arr_get w i;
     if access_cnt > nc_access_count c then oldest_cache n (Suc i) w (nc_access_count c) i
     else oldest_cache n (Suc i) w access_cnt pos
   }"

definition post_cache :: "'d phy_ops \<Rightarrow> cfg \<Rightarrow> 'd cache_drv \<Rightarrow> (nat \<times> 'd cache_drv) option" where
  "post_cache P C s = do {
     free \<leftarrow> scan (\<lambda>c. nc_hit_page c = 0xffffffff) (cd_w_cache s) 0 N_NAND_W_CACHE 0;
     case free of
       Some pos \<Rightarrow> Some (pos, s)
     | None \<Rightarrow> do {
         c0 \<leftarrow> arr_get (cd_w_cache s) 0;
         pos \<leftarrow> oldest_cache (N_NAND_W_CACHE - 1) 1 (cd_w_cache s) (nc_access_count c0) 0;
         c \<leftarrow> arr_get (cd_w_cache s) pos;
         (data, d) \<leftarrow> write_out P C c (cd_drv s);
         w \<leftarrow> arr_set (cd_w_cache s) pos (c\<lparr>nc_data := data, nc_access_count := 0\<rparr>);
         Some (pos, s\<lparr>cd_w_cache := w, cd_drv := d\<rparr>)
       }
   }"

definition fill_nand_cache ::
  "'d phy_ops \<Rightarrow> cfg \<Rightarrow> u32 \<Rightarrow> u32 \<Rightarrow> int \<Rightarrow> user_mem \<Rightarrow> 'd cache_drv \<Rightarrow> (int \<times> 'd cache_drv) option" where
  "fill_nand_cache P C page secbitmap pdata m s = do {
     let cnt = cd_w_access_cnt s + 1;
     let s1 = s\<lparr>cd_w_access_cnt := cnt\<rparr>;
     hit \<leftarrow> scan (\<lambda>c. nc_hit_page c = page) (cd_w_cache s1) 0 N_NAND_W_CACHE 0;
     (pos, s2) \<leftarrow>
       (case hit of
          Some i \<Rightarrow> do {
            c \<leftarrow> arr_get (cd_w_cache s1) i;
            data \<leftarrow> merge_into secbitmap pdata m c;
            w \<leftarrow> arr_set (cd_w_cache s1) i
              (c\<lparr>nc_data := data, nc_secbitmap := nc_secbitmap c OR secbitmap, nc_access_count := cnt\<rparr>);
            Some (i, s1\<lparr>cd_w_cache := w\<rparr>)
          }
        | None \<Rightarrow> do {
            (i, s') \<leftarrow> post_cache P C s1;
            c \<leftarrow> arr_get (cd_w_cache s') i;
            data \<leftarrow> merge_into secbitmap pdata m c;
            w \<leftarrow> arr_set (cd_w_cache s') i
              (c\<lparr>nc_data := data, nc_hit_page := page, nc_secbitmap := secbitmap, nc_access_count := cnt\<rparr>);
            Some (i, s'\<lparr>cd_w_cache := w\<rparr>)
          });
     if cnt = 0
     then do {
       let w0 = map (nc_access_count_update (\<lambda>_. 0)) (cd_w_cache s2);
       c \<leftarrow> arr_get w0 pos;
       w \<leftarrow> arr_set w0 pos (c\<lparr>nc_access_count := 1\<rparr>);
       Some (0, s2\<lparr>cd_w_access_cnt := 1, cd_w_cache := w\<rparr>)
     }
     else Some (0, s2)
   }"

section \<open>Writing, opening and closing\<close>

definition NAND_CacheWrite ::
  "'d phy_ops \<Rightarrow> cfg \<Rightarrow> u32 \<Rightarrow> u32 \<Rightarrow> user_mem \<Rightarrow> 'd cache_drv \<Rightarrow> (int \<times> 'd cache_drv) option" where
  "NAND_CacheWrite P C blk nblk buf s = do {
     let s1 = s\<lparr>cd_r_cache := (cd_r_cache s)\<lparr>nc_hit_page := 0xffffffff, nc_secbitmap := 0\<rparr>\<rparr>;
     (_, d) \<leftarrow> LML_Write P C blk nblk buf (cd_drv s1);
     Some (0, s1\<lparr>cd_drv := d\<rparr>)
   }"

definition empty_cache :: "cfg \<Rightarrow> u8 list \<Rightarrow> nand_cache" where
  "empty_cache C mem = \<lparr>nc_data = mem, nc_size = of_nat (512 * SECTOR_CNT_OF_LOGIC_PAGE C),
     nc_hit_page = 0xffffffff, nc_secbitmap = 0, nc_access_count = 0\<rparr>"

text \<open>\<open>malloc k\<close> is the memory the \<open>k\<close>-th allocation returns; the code does not check for null.\<close>

definition NAND_CacheOpen :: "cfg \<Rightarrow> (nat \<Rightarrow> u8 list) \<Rightarrow> 'd cache_drv \<Rightarrow> int \<times> 'd cache_drv" where
  "NAND_CacheOpen C malloc s =
    (0, s\<lparr>cd_w_access_cnt := 0, cd_w_cache := map (\<lambda>i. empty_cache C (malloc i)) [0..<N_NAND_W_CACHE],
          cd_r_cache := empty_cache C (malloc N_NAND_W_CACHE)\<rparr>)"

definition NAND_CacheClose :: "'d phy_ops \<Rightarrow> cfg \<Rightarrow> 'd cache_drv \<Rightarrow> (int \<times> 'd cache_drv) option" where
  "NAND_CacheClose P C s = do {
     (_, s') \<leftarrow> NAND_CacheFlush P C s;
     Some (0, s'\<lparr>cd_w_cache := map (nc_data_update (\<lambda>_. [])) (cd_w_cache s'),
                 cd_r_cache := (cd_r_cache s')\<lparr>nc_data := []\<rparr>\<rparr>)
   }"

section \<open>Properties\<close>

lemma bits_shift: "{i. bit b i} = (if bit b 0 then {0} else {}) \<union> Suc ` {i. bit (drop_bit 1 b) i}" for b :: u32
  by (auto simp: bit_drop_bit_eq image_iff) (metis not0_implies_Suc)+

lemma finite_bits [simp]: "finite {i. bit (b :: u32) i}"
  by (rule finite_subset [of _ "{..<32}"]) (auto dest: bit_imp_le_length)

lemma get_valid_bits_card: "get_valid_bits b v = v + of_nat (card {i. bit b i})"
proof (induction b v rule: get_valid_bits.induct)
  case (1 b v)
  show ?case
  proof (cases "b = 0")
    case True
    then show ?thesis by (simp add: get_valid_bits.simps [of 0])
  next
    case False
    have "card {i. bit b i} = (if bit b 0 then 1 else 0) + card {i. bit (drop_bit 1 b) i}"
      by (subst bits_shift) (auto simp: card_image card_insert_if simp del: bit_0)
    moreover have "b AND 1 \<noteq> 0 \<longleftrightarrow> bit b 0" by (simp add: and_one_eq bit_0 odd_iff_mod_2_eq_one)
    ultimately show ?thesis
      using False 1 by (subst get_valid_bits.simps) (simp del: bit_0)
  qed
qed

lemma get_first_valid_bit_least:
  "bit b k \<Longrightarrow> \<forall>j < k. \<not> bit b j \<Longrightarrow> get_first_valid_bit b f = Some (f + of_nat k)"
proof (induction k arbitrary: b f)
  case 0
  then have "b AND 1 \<noteq> 0" by (simp add: and_one_eq bit_0 odd_iff_mod_2_eq_one)
  then show ?case by (subst get_first_valid_bit.simps) simp
next
  case (Suc k)
  have "\<not> bit b 0" using Suc.prems(2) by blast
  then have "b AND 1 = 0" by (simp add: and_one_eq bit_0 odd_iff_mod_2_eq_one)
  moreover have "get_first_valid_bit (drop_bit 1 b) (f + 1) = Some (f + 1 + of_nat k)"
    using Suc.IH [of "drop_bit 1 b" "f + 1"] Suc.prems by (simp add: bit_drop_bit_eq)
  ultimately show ?case by (subst get_first_valid_bit.simps) (simp add: ac_simps)
qed

text \<open>For a run of \<open>n\<close> consecutive sectors from sector \<open>k\<close> of a page, that ends at \<open>pdata\<close> in the
  caller's buffer, the buffer address the read computes for the page puts sector \<open>k + i\<close> at the \<open>i\<close>-th of the
  last \<open>n\<close> sectors before \<open>pdata\<close>.\<close>

theorem page_start_places:
  assumes "\<And>i. bit bm i \<longleftrightarrow> k \<le> i \<and> i < k + n" and "0 < n" and "k + n \<le> 32"
  shows "\<exists>tmp. page_start bm pdata = Some tmp \<and> tmp + 512 * int (k + i) = pdata - 512 * int n + 512 * int i"
proof -
  have "{i. bit bm i} = {k..<k + n}" by (rule set_eqI) (simp add: assms(1))
  then have "get_valid_bits bm 0 = of_nat n" by (simp add: get_valid_bits_card)
  then have v: "unat (get_valid_bits bm 0) = n" using assms(3) by (simp add: unat_of_nat)
  have "get_first_valid_bit bm 0 = Some (0 + of_nat k)"
    by (rule get_first_valid_bit_least) (simp_all add: assms(1,2))
  moreover have f: "unat (0 + of_nat k :: u32) = k" using assms(3) by (simp add: unat_of_nat)
  ultimately have "page_start bm pdata = Some (pdata - 512 * int n - 512 * int k)"
    by (simp only: page_start_def bind.bind_lunit v f)
  then show ?thesis by simp
qed

lemma bit_six: "bit (6 :: u32) i \<longleftrightarrow> 1 \<le> i \<and> i < 1 + 2"
proof -
  consider "i = 0" | "i = 1" | "i = 2" | j where "i = Suc (Suc (Suc j))"
    by (metis One_nat_def Suc_1 not0_implies_Suc)
  then show ?thesis by cases (simp_all add: bit_Suc)
qed

lemma page_start_places_witness:
  "\<exists>tmp. page_start 6 1024 = Some tmp \<and> tmp + 512 * int (1 + 1) = 1024 - 512 * int 2 + 512 * int 1"
  using page_start_places [OF bit_six, of 1024 1] by simp

text \<open>The states the cache's interface reaches from a state.\<close>

inductive cache_reach :: "'d phy_ops \<Rightarrow> cfg \<Rightarrow> 'd cache_drv \<Rightarrow> 'd cache_drv \<Rightarrow> bool"
  for P C s0 where
  start: "cache_reach P C s0 s0"
| rd: "cache_reach P C s0 s \<Longrightarrow> NAND_CacheRead P C b n buf s = Some (r, buf', s') \<Longrightarrow> cache_reach P C s0 s'"
| wr: "cache_reach P C s0 s \<Longrightarrow> NAND_CacheWrite P C b n buf s = Some (r, s') \<Longrightarrow> cache_reach P C s0 s'"
| fl: "cache_reach P C s0 s \<Longrightarrow> NAND_CacheFlush P C s = Some (r, s') \<Longrightarrow> cache_reach P C s0 s'"

definition w_empty :: "'d cache_drv \<Rightarrow> bool" where
  "w_empty s \<longleftrightarrow> length (cd_w_cache s) = 1 \<and> nc_hit_page (cd_w_cache s ! 0) = 0xffffffff"

lemma get_one_page_w:
  "get_one_page P C page bm tmp m s = Some (m', s') \<Longrightarrow> cd_w_cache s' = cd_w_cache s"
  by (auto simp: get_one_page_def Let_def Option.bind_eq_Some_conv split: if_splits)

lemma cache_read_w:
  "cache_read P C n sec bm page off m s = Some (m', s') \<Longrightarrow> cd_w_cache s' = cd_w_cache s"
proof (induction n arbitrary: sec bm page off m s)
  case 0
  then show ?case by (auto simp: Option.bind_eq_Some_conv split: if_splits dest: get_one_page_w)
next
  case (Suc n)
  then show ?case
    by (auto simp: Let_def Option.bind_eq_Some_conv split: if_splits dest!: Suc.IH get_one_page_w)
qed

lemma flush_empty:
  assumes "w_empty s" shows "NAND_CacheFlush P C s = Some (0, s)"
  using assms by (simp add: NAND_CacheFlush_def N_NAND_W_CACHE_def w_empty_def)

lemma cache_reach_w_empty: "cache_reach P C s0 s \<Longrightarrow> w_empty s0 \<Longrightarrow> w_empty s"
proof (induction rule: cache_reach.induct)
  case (rd s b n buf r buf' s')
  then show ?case
    by (auto simp: NAND_CacheRead_def Option.bind_eq_Some_conv w_empty_def dest: cache_read_w)
next
  case (wr s b n buf r s')
  then show ?case by (auto simp: NAND_CacheWrite_def Option.bind_eq_Some_conv w_empty_def)
next
  case (fl s r s')
  then show ?case using flush_empty [of s P C] by simp
qed

text \<open>After \<open>NAND_CacheOpen\<close> the write cache stays empty through any sequence of reads, writes and
  flushes, so \<open>NAND_CacheFlush\<close> writes nothing and leaves the driver as it is: sectors that \<open>LML_Write\<close> keeps
  in its own page cache are not brought to the flash by it.\<close>

theorem CacheFlush_no_effect:
  assumes "cache_reach P C (snd (NAND_CacheOpen C malloc s0)) s"
  shows "NAND_CacheFlush P C s = Some (0, s)"
  by (rule flush_empty, rule cache_reach_w_empty [OF assms])
    (simp add: w_empty_def NAND_CacheOpen_def N_NAND_W_CACHE_def empty_cache_def)

definition sample_cache :: "unit cache_drv" where
  "sample_cache = \<lparr>cd_w_access_cnt = 3, cd_w_cache = [], cd_r_cache = empty_cache sample_cfg [], cd_drv = sample_drv ()\<rparr>"

lemma CacheFlush_no_effect_witness:
  "\<exists>s. NAND_CacheWrite quiet_phy sample_cfg 8 0 (\<lambda>_. 0)
       (snd (NAND_CacheOpen sample_cfg (\<lambda>_. replicate 2048 0) sample_cache)) = Some (0, s)
     \<and> NAND_CacheFlush quiet_phy sample_cfg s = Some (0, s)"
proof -
  let ?s0 = "snd (NAND_CacheOpen sample_cfg (\<lambda>_. replicate 2048 0) sample_cache)"
  obtain s where w: "NAND_CacheWrite quiet_phy sample_cfg 8 0 (\<lambda>_. 0) ?s0 = Some (0, s)"
    by (simp add: NAND_CacheWrite_def LML_Write_def Let_def)
  then have "cache_reach quiet_phy sample_cfg ?s0 s" by (rule cache_reach.wr [OF cache_reach.start])
  from CacheFlush_no_effect [OF this] w show ?thesis by blast
qed

end
