(* ===== verification/Wear_Level.thy ===== *)
theory Wear_Level
  imports Merge_Total
begin

text \<open>
  Wear levelling (\<open>logic/wear_levelling.c\<close>), the body that \<open>CFG_SUPPORT_WEAR_LEVELLING\<close> enables: the data
  block of the lowest erase count moves to the free block of the highest one. The local \<open>tmpLogicBlk\<close>, which the
  code does not initialise, is an option; using it unset would be \<^term>\<open>None\<close>.
\<close>

section \<open>The loops\<close>

text \<open>The search for the data block of the lowest erase count, from the last item down: \<open>i\<close> items to go.\<close>

fun lowest_ec :: "super_phy_blk list \<Rightarrow> nat \<Rightarrow> u16 \<Rightarrow> nat option \<Rightarrow> (u16 \<times> nat option) option" where
  "lowest_ec t 0 tmpLowEc tmpLogicBlk = Some (tmpLowEc, tmpLogicBlk)"
| "lowest_ec t (Suc i) tmpLowEc tmpLogicBlk = do {
     x \<leftarrow> arr_get t i;
     if BlkEraseCnt x < tmpLowEc then lowest_ec t i (BlkEraseCnt x) (Some i)
     else lowest_ec t i tmpLowEc tmpLogicBlk
   }"

text \<open>\<open>for (i = 0; i < n; i++)\<close> over the items of a table from offset \<open>off\<close>.\<close>

fun for_items :: "('a \<Rightarrow> 'a) \<Rightarrow> nat \<Rightarrow> nat \<Rightarrow> nat \<Rightarrow> 'a list \<Rightarrow> 'a list option" where
  "for_items f off 0 i t = Some t"
| "for_items f off (Suc n) i t = do {
     x \<leftarrow> arr_get t (off + i);
     t' \<leftarrow> arr_set t (off + i) (f x);
     for_items f off n (Suc i) t'
   }"

definition clear_erase_counts :: "cfg \<Rightarrow> 'd drv \<Rightarrow> 'd drv option" where
  "clear_erase_counts C s = do {
     t1 \<leftarrow> for_items (\<lambda>b. b\<lparr>BlkEraseCnt := 0\<rparr>) 0 (DATA_BLK_CNT_OF_ZONE C) 0 (bc_Tbl (BLK_MAP_CACHE s));
     t2 \<leftarrow> for_items (\<lambda>b. if PhyBlkNum b \<noteq> 0xffff then b\<lparr>BlkEraseCnt := 0\<rparr> else b)
             (DATA_BLK_CNT_OF_ZONE C) (FREE_BLK_CNT_OF_ZONE C) 0 t1;
     l \<leftarrow> for_items (\<lambda>l. if LogicBlkNum l \<noteq> 0xffff
             then l\<lparr>PhyBlk := (PhyBlk l)\<lparr>BlkEraseCnt := 0\<rparr>\<rparr> else l) 0 MAX_LOG_BLK_CNT 0 (LOG_BLK_TBL s);
     Some (set_log_tbl l (set_tbl t2 s))
   }"

text \<open>The copy of the data block into the free block: \<open>n\<close> pages to go from page \<open>i\<close>; False when a page
  could not be programmed.\<close>

fun wl_copy :: "'d phy_ops \<Rightarrow> cfg \<Rightarrow> nat \<Rightarrow> nat \<Rightarrow> nat \<Rightarrow> nat \<Rightarrow> 'd drv \<Rightarrow> bool \<times> 'd drv" where
  "wl_copy P C src dst 0 i s = (True, s)"
| "wl_copy P C src dst (Suc n) i s =
    (let full = FULL_BITMAP_OF_SUPER_PAGE C;
         tmpSrcPage = phys_at C full s src i;
         tmpDstPage = phys_at C full s dst i;
         (_, s1) = PageCopyback P tmpSrcPage tmpDstPage s;
         (result, s2) = SynchBank P (unat (op_BankNum tmpDstPage)) SYNC_CHIP_MODE s1
     in if result < 0 then (False, s2) else wl_copy P C src dst n (Suc i) s2)"

section \<open>Wear levelling\<close>

text \<open>The data block moves to the free block: its pages are copied unless it is empty, the table item is
  set, and the old block is erased and becomes free.\<close>

definition wl_swap ::
  "'d phy_ops \<Rightarrow> cfg \<Rightarrow> nat \<Rightarrow> super_phy_blk \<Rightarrow> super_phy_blk \<Rightarrow> 'd drv \<Rightarrow> (int \<times> 'd drv) option" where
  "wl_swap P C blk tmpDataBlk tmpFreeBlk s2 = do {
     (_, tmpSpare, s3) \<leftarrow>
       ReadTemp P C (phys_at C 3 s2 (unat (PhyBlkNum tmpDataBlk)) 0) (junk_spare C) s2;
     let used = (ud_LogicInfo (fst (dec_ud2 tmpSpare)) \<noteq> 0xffff);
     let (ok, s4) =
       (if used then wl_copy P C (unat (PhyBlkNum tmpDataBlk)) (unat (PhyBlkNum tmpFreeBlk))
                       (PAGE_CNT_OF_SUPER_BLK C) 0 s3
        else (True, s3));
     if \<not> ok
     then do {
       (r5, _, s5) \<leftarrow> LML_BadBlkManage P C tmpFreeBlk (unat (CUR_MAP_ZONE s4)) 0 False s4;
       Some (if r5 < 0 then -1 else 0, s5)
     }
     else do {
       (_, s5) \<leftarrow> BMM_SetDataBlk C blk tmpFreeBlk s4;
       let (r6, s6) =
         (if used then LML_VirtualBlkErase P C (unat (CUR_MAP_ZONE s5)) (unat (PhyBlkNum tmpDataBlk)) s5
          else (0, s5));
       if r6 < 0
       then do {
         (r7, _, s7) \<leftarrow> LML_BadBlkManage P C tmpDataBlk (unat (CUR_MAP_ZONE s6)) 0 False s6;
         Some (if r7 < 0 then -1 else 0, s7)
       }
       else do {
         (_, s7) \<leftarrow> BMM_SetFreeBlk C (tmpDataBlk\<lparr>BlkEraseCnt := BlkEraseCnt tmpDataBlk + 1\<rparr>) s6;
         Some (0, s7)
       }
     }
   }"

definition LML_WearLevelling :: "'d phy_ops \<Rightarrow> cfg \<Rightarrow> 'd drv \<Rightarrow> (int \<times> 'd drv) option" where
  "LML_WearLevelling P C s = do {
     let s0 = s\<lparr>dr_erase_cnter := 0\<rparr>;
     (tmpLowEc, tmpLogicBlk) \<leftarrow>
       lowest_ec (bc_Tbl (BLK_MAP_CACHE s0)) (DATA_BLK_CNT_OF_ZONE C) 0xffff None;
     (r1, tmpFreeBlk, s1) \<leftarrow> BMM_GetFreeBlk C HIGHEST_EC_TYPE s0;
     if r1 < 0 then Some (-1, s1)
     else do {
       let s2 = s1\<lparr>dr_erase_cnter := 0\<rparr>;
       if tmpLowEc \<ge> BlkEraseCnt tmpFreeBlk
       then do {
         s3 \<leftarrow> (if tmpLowEc = 0xffff then clear_erase_counts C s2 else Some s2);
         (_, s4) \<leftarrow> BMM_SetFreeBlk C tmpFreeBlk s3;
         Some (0, s4)
       }
       else do {
         blk \<leftarrow> tmpLogicBlk;
         (_, tmpDataBlk) \<leftarrow> BMM_GetDataBlk C blk s2;
         (r2, _) \<leftarrow> BMM_GetLogBlk blk s2;
         if r2 < 0 then wl_swap P C blk tmpDataBlk tmpFreeBlk s2
         else do {
           (_, s3) \<leftarrow> BMM_SetFreeBlk C tmpFreeBlk s2;
           Some (0, s3)
         }
       }
     }
   }"


section \<open>What wear levelling does to the zone\<close>

lemma lowest_ec_spec:
  assumes "n \<le> length t"
  shows "\<exists>ec b. lowest_ec t n ec0 b0 = Some (ec, b)
    \<and> (ec = ec0 \<and> b = b0 \<or> (\<exists>k < n. b = Some k \<and> ec = BlkEraseCnt (t ! k) \<and> ec < ec0))
    \<and> (\<forall>j < n. ec \<le> BlkEraseCnt (t ! j)) \<and> ec \<le> ec0"
  using assms
proof (induction n arbitrary: ec0 b0)
  case (Suc n)
  then have n: "n < length t" by simp
  show ?case
  proof (cases "BlkEraseCnt (t ! n) < ec0")
    case True
    from Suc.IH [of "BlkEraseCnt (t ! n)" "Some n"] n obtain ec b where
      "lowest_ec t n (BlkEraseCnt (t ! n)) (Some n) = Some (ec, b)"
      "ec = BlkEraseCnt (t ! n) \<and> b = Some n
         \<or> (\<exists>k < n. b = Some k \<and> ec = BlkEraseCnt (t ! k) \<and> ec < BlkEraseCnt (t ! n))"
      "\<forall>j < n. ec \<le> BlkEraseCnt (t ! j)" "ec \<le> BlkEraseCnt (t ! n)" by auto
    with n True show ?thesis by (auto simp: less_Suc_eq)
  next
    case False
    from Suc.IH [of ec0 b0] n obtain ec b where
      "lowest_ec t n ec0 b0 = Some (ec, b)"
      "ec = ec0 \<and> b = b0 \<or> (\<exists>k < n. b = Some k \<and> ec = BlkEraseCnt (t ! k) \<and> ec < ec0)"
      "\<forall>j < n. ec \<le> BlkEraseCnt (t ! j)" "ec \<le> ec0" by auto
    with n False show ?thesis by (auto simp: less_Suc_eq not_less)
  qed
qed simp

lemma for_items_keeps:
  assumes "off + i + n \<le> length t" and "\<And>x. g (f x) = g x"
  shows "\<exists>t'. for_items f off n i t = Some t' \<and> length t' = length t \<and> map g t' = map g t"
  using assms(1)
proof (induction n arbitrary: i t)
  case (Suc n)
  then have i: "off + i < length t" by simp
  have "map g (t[off + i := f (t ! (off + i))]) = map g t"
    using i by (simp add: map_update assms(2) list_update_same_conv)
  with Suc.IH [of "Suc i" "t[off + i := f (t ! (off + i))]"] Suc.prems i show ?case by auto
qed simp

lemma wl_copy_frame: "wl_copy P C src dst n i s = (ok, s') \<Longrightarrow> same_tables s s'"
proof (induction n arbitrary: i s)
  case (Suc n)
  then show ?case
    by (auto simp: Let_def split: prod.splits if_splits
        dest!: PageCopyback_frame SynchBank_frame dest: Suc.IH intro: same_tables_trans)
qed simp

lemma wl_copy_spare:
  "keeps_sizes P \<Longrightarrow> wl_copy P C src dst n i s = (ok, s') \<Longrightarrow> spare_ok C s' = spare_ok C s"
proof (induction n arbitrary: i s)
  case (Suc n)
  then show ?case
    by (auto simp: Let_def split: prod.splits if_splits dest!: PageCopyback_spare SynchBank_spare)
qed simp

text \<open>The part of the tables that holds block numbers.\<close>

lemma zone_blocks_cong:
  assumes "map PhyBlkNum t' = map PhyBlkNum (bc_Tbl bc)"
    and "map (\<lambda>l. (LogicBlkNum l, PhyBlkNum (PhyBlk l))) l' = map (\<lambda>l. (LogicBlkNum l, PhyBlkNum (PhyBlk l))) (bc_LogBlkTbl bc)"
  shows "zone_blocks (bc\<lparr>bc_Tbl := t', bc_LogBlkTbl := l'\<rparr>) = zone_blocks bc"
proof -
  have "image_mset PhyBlkNum (mset (take k t')) = image_mset PhyBlkNum (mset (take k (bc_Tbl bc)))" for k
    using arg_cong [OF assms(1), of "\<lambda>m. mset (take k m)"] by (simp add: take_map)
  then have v: "valid_nums t' = valid_nums (bc_Tbl bc)" by (simp add: valid_nums_def)
  have e: "log_nums l = image_mset snd (filter_mset (\<lambda>p. fst p \<noteq> 0xffff)
      (mset (map (\<lambda>l. (LogicBlkNum l, PhyBlkNum (PhyBlk l))) l)))" for l
    by (simp add: log_nums_def filter_mset_image_mset image_mset.compositionality comp_def)
  have "log_nums l' = log_nums (bc_LogBlkTbl bc)" unfolding e assms(2) ..
  with v show ?thesis by (simp add: zone_blocks_def)
qed

lemma clear_erase_counts_run:
  assumes "run_ok C s"
  shows "total (clear_erase_counts C s) (\<lambda>s'. run_ok C s'
    \<and> zone_blocks (BLK_MAP_CACHE s') = zone_blocks (BLK_MAP_CACHE s) \<and> CUR_MAP_ZONE s' = CUR_MAP_ZONE s
    \<and> map PhyBlkNum (bc_Tbl (BLK_MAP_CACHE s')) = map PhyBlkNum (bc_Tbl (BLK_MAP_CACHE s))
    \<and> only_active s s')"
proof -
  let ?t = "bc_Tbl (BLK_MAP_CACHE s)" and ?l = "LOG_BLK_TBL s"
  have wf: "cache_wf C (BLK_MAP_CACHE s)" using assms by (simp add: run_ok_def)
  then have len: "length ?t = BLOCK_CNT_OF_ZONE" "length ?l = MAX_LOG_BLK_CNT"
    "DATA_BLK_CNT_OF_ZONE C < BLOCK_CNT_OF_ZONE" by (auto simp: cache_wf_def)
  obtain t1 where t1: "for_items (\<lambda>b. b\<lparr>BlkEraseCnt := 0\<rparr>) 0 (DATA_BLK_CNT_OF_ZONE C) 0 ?t = Some t1"
    "length t1 = length ?t" "map PhyBlkNum t1 = map PhyBlkNum ?t"
    using for_items_keeps [of 0 0 "DATA_BLK_CNT_OF_ZONE C" ?t PhyBlkNum "\<lambda>b. b\<lparr>BlkEraseCnt := 0\<rparr>"] len by auto
  obtain t2 where t2: "for_items (\<lambda>b. if PhyBlkNum b \<noteq> 0xffff then b\<lparr>BlkEraseCnt := 0\<rparr> else b)
      (DATA_BLK_CNT_OF_ZONE C) (FREE_BLK_CNT_OF_ZONE C) 0 t1 = Some t2"
    "length t2 = length ?t" "map PhyBlkNum t2 = map PhyBlkNum ?t"
  proof -
    assume *: "\<And>t2. for_items (\<lambda>b. if PhyBlkNum b \<noteq> 0xffff then b\<lparr>BlkEraseCnt := 0\<rparr> else b)
      (DATA_BLK_CNT_OF_ZONE C) (FREE_BLK_CNT_OF_ZONE C) 0 t1 = Some t2 \<Longrightarrow> length t2 = length ?t \<Longrightarrow>
      map PhyBlkNum t2 = map PhyBlkNum ?t \<Longrightarrow> thesis"
    have "PhyBlkNum (if PhyBlkNum b \<noteq> 0xffff then b\<lparr>BlkEraseCnt := 0\<rparr> else b) = PhyBlkNum b" for b by simp
    from for_items_keeps [of "DATA_BLK_CNT_OF_ZONE C" 0 "FREE_BLK_CNT_OF_ZONE C" t1 PhyBlkNum
      "\<lambda>b. if PhyBlkNum b \<noteq> 0xffff then b\<lparr>BlkEraseCnt := 0\<rparr> else b", OF _ this] len t1 *
    show thesis by (auto simp: FREE_BLK_CNT_OF_ZONE_def)
  qed
  let ?g = "\<lambda>l. (LogicBlkNum l, PhyBlkNum (PhyBlk l))"
  obtain l where l: "for_items (\<lambda>l. if LogicBlkNum l \<noteq> 0xffff
      then l\<lparr>PhyBlk := (PhyBlk l)\<lparr>BlkEraseCnt := 0\<rparr>\<rparr> else l) 0 MAX_LOG_BLK_CNT 0 ?l = Some l"
    "length l = length ?l" "map ?g l = map ?g ?l"
  proof -
    assume *: "\<And>l. for_items (\<lambda>l. if LogicBlkNum l \<noteq> 0xffff
      then l\<lparr>PhyBlk := (PhyBlk l)\<lparr>BlkEraseCnt := 0\<rparr>\<rparr> else l) 0 MAX_LOG_BLK_CNT 0 ?l = Some l \<Longrightarrow>
      length l = length ?l \<Longrightarrow> map ?g l = map ?g ?l \<Longrightarrow> thesis"
    have "?g (if LogicBlkNum l \<noteq> 0xffff then l\<lparr>PhyBlk := (PhyBlk l)\<lparr>BlkEraseCnt := 0\<rparr>\<rparr> else l) = ?g l"
      for l by simp
    from for_items_keeps [of 0 0 MAX_LOG_BLK_CNT ?l ?g "\<lambda>l. if LogicBlkNum l \<noteq> 0xffff
      then l\<lparr>PhyBlk := (PhyBlk l)\<lparr>BlkEraseCnt := 0\<rparr>\<rparr> else l", OF _ this] len * show thesis by auto
  qed
  have "zone_blocks ((BLK_MAP_CACHE s)\<lparr>bc_Tbl := t2, bc_LogBlkTbl := l\<rparr>) = zone_blocks (BLK_MAP_CACHE s)"
    by (rule zone_blocks_cong [OF t2(3) l(3)])
  then show ?thesis
    using assms t1 t2 l by (simp add: clear_erase_counts_def run_ok_def spare_ok_def cache_wf_def)
qed

lemma size_free_nums:
  "size (free_blks C bc) = length (filter (\<lambda>n. n \<noteq> 0xffff)
     (take (FREE_BLK_CNT_OF_ZONE C) (drop (DATA_BLK_CNT_OF_ZONE C) (map PhyBlkNum (bc_Tbl bc)))))"
  by (simp add: free_blks_def free_items_def drop_map take_map filter_map comp_def flip: mset_filter)

lemma size_free_cong:
  "map PhyBlkNum (bc_Tbl bc') = map PhyBlkNum (bc_Tbl bc) \<Longrightarrow> size (free_blks C bc') = size (free_blks C bc)"
  by (simp add: size_free_nums)

lemma size_free_le: "size (free_blks C bc) \<le> FREE_BLK_CNT_OF_ZONE C"
  unfolding size_free_nums by (rule order_trans [OF length_filter_le]) simp

text \<open>The pool has room for a block again after one was taken.\<close>

abbreviation free_room :: "cfg \<Rightarrow> blk_cache \<Rightarrow> bool" where
  "free_room C bc \<equiv> size (free_blks C bc) < FREE_BLK_CNT_OF_ZONE C"

lemma SetFreeBlk_facts:
  assumes s: "run_ok C s" and room: "free_room C (BLK_MAP_CACHE s)"
  shows "total (BMM_SetFreeBlk C b s) (\<lambda>(r, s'). run_ok C s' \<and> only_active s s'
    \<and> CUR_MAP_ZONE s' = CUR_MAP_ZONE s \<and> LOG_BLK_TBL s' = LOG_BLK_TBL s
    \<and> (\<forall>i < DATA_BLK_CNT_OF_ZONE C. bc_Tbl (BLK_MAP_CACHE s') ! i = bc_Tbl (BLK_MAP_CACHE s) ! i)
    \<and> zone_blocks (BLK_MAP_CACHE s') = zone_blocks (BLK_MAP_CACHE s) + one_valid (PhyBlkNum b))"
proof -
  have wf: "cache_wf C (BLK_MAP_CACHE s)" using s by (simp add: run_ok_def)
  from BMM_SetFreeBlk_cases [OF wf, of b] room obtain r s' where put: "BMM_SetFreeBlk C b s = Some (r, s')"
    "free_added C b s s'" by auto
  have "PAGE_MAP_CACHE s' = PAGE_MAP_CACHE s" "dr_spare_buf s' = dr_spare_buf s"
    using put(1) by (auto simp: BMM_SetFreeBlk_def Let_def Option.bind_eq_Some_conv split: option.splits)
  with put s wf only_active_tables(3) [OF put(1)] show ?thesis
    by (auto simp: run_ok_def spare_ok_def free_added_def)
qed


lemma MarkOnly_run:
  assumes "keeps_sizes P" and "run_ok C s"
  shows "total (LML_BadBlkManage P C b z n False s) (\<lambda>(r, nb, s'). r = 0 \<and> run_ok C s' \<and> same_tables s s')"
proof -
  have "spare_ok C s" using assms by (simp add: run_ok_def)
  from MarkBadBlk_total [OF this, of P b z] obtain s2 where
    m: "MarkBadBlk P C b z s = Some (0, s2)" "spare_ok C s2" by blast
  note fr = MarkBadBlk_frame [OF m(1)]
  with m run_ok_same_tables [OF fr assms(2) m(2)] show ?thesis by (simp add: LML_BadBlkManage_def)
qed

lemma wl_copy_run:
  assumes "keeps_sizes P" and "run_ok C s" and "wl_copy P C src dst n i s = (ok, s')"
  shows "run_ok C s'"
  using run_ok_same_tables [OF wl_copy_frame [OF assms(3)] assms(2)] wl_copy_spare [OF assms(1,3)] assms(2)
  by (simp add: run_ok_def)

lemma erase_run: "run_ok C s \<Longrightarrow> LML_VirtualBlkErase P C z b s = (r, s') \<Longrightarrow> run_ok C s'"
  by (metis run_ok_same_tables VirtualBlkErase_frame VirtualBlkErase_spare run_ok_def)

text \<open>The flash reports no failed program and no failed erase.\<close>

definition no_bad_report :: "'d phy_ops \<Rightarrow> bool" where
  "no_bad_report P \<longleftrightarrow> (\<forall>b m d. 0 \<le> fst (PHY_SynchBank P b m d))"

lemma synch_banks_good: "no_bad_report P \<Longrightarrow> fst (synch_banks P n i d) = 0"
proof (induction n arbitrary: i d)
  case (Suc n)
  obtain r d' where "PHY_SynchBank P i SYNC_BANK_MODE d = (r, d')" by (cases "PHY_SynchBank P i SYNC_BANK_MODE d")
  moreover from this Suc.prems have "0 \<le> r" unfolding no_bad_report_def by (metis fst_conv)
  ultimately show ?case using Suc by simp
qed simp

lemma erase_good: "no_bad_report P \<Longrightarrow> LML_VirtualBlkErase P C z b s = (r, s') \<Longrightarrow> r = 0"
  using synch_banks_good [of P "INTERLEAVE_BANK_CNT C" 0 "erase_banks P C z b (INTERLEAVE_BANK_CNT C) 0 (dr_dev s)"]
  by (auto simp: LML_VirtualBlkErase_def Let_def split: prod.splits)

lemma wl_copy_good: "no_bad_report P \<Longrightarrow> wl_copy P C src dst n i s = (ok, s') \<Longrightarrow> ok"
proof (induction n arbitrary: i s)
  case (Suc n)
  have "0 \<le> fst (SynchBank P b m t)" for b m t
    using Suc.prems(1) by (simp add: no_bad_report_def SynchBank_def split_def Let_def)
  then have "\<not> r < 0" if "SynchBank P b m t = (r, u)" for b m t r u using that by (metis fst_conv linorder_not_less)
  then show ?case using Suc by (auto simp: Let_def split: prod.splits if_splits)
qed simp

text \<open>The effect of the swap on the zone: the table item may change to the free block, the other data blocks stay.\<close>

definition swapped :: "cfg \<Rightarrow> nat \<Rightarrow> super_phy_blk \<Rightarrow> 'd drv \<Rightarrow> 'd drv \<Rightarrow> bool" where
  "swapped C k F s s' \<longleftrightarrow> cache_wf C (BLK_MAP_CACHE s') \<and> only_active s s' \<and> CUR_MAP_ZONE s' = CUR_MAP_ZONE s
     \<and> (\<forall>i < DATA_BLK_CNT_OF_ZONE C. bc_Tbl (BLK_MAP_CACHE s') ! i = bc_Tbl (BLK_MAP_CACHE s) ! i
          \<or> i = k \<and> bc_Tbl (BLK_MAP_CACHE s') ! i = F)"

text \<open>The free block enters the zone, and no block leaves it but one the flash reports as bad: the free block
  itself, when it cannot be programmed, or the old data block, when it cannot be erased.\<close>

definition swap_kept :: "'d phy_ops \<Rightarrow> cfg \<Rightarrow> nat \<Rightarrow> super_phy_blk \<Rightarrow> 'd drv \<Rightarrow> 'd drv \<Rightarrow> bool" where
  "swap_kept P C k F s s' \<longleftrightarrow>
     zone_blocks (BLK_MAP_CACHE s') = zone_blocks (BLK_MAP_CACHE s) + one_valid (PhyBlkNum F)
     \<or> \<not> no_bad_report P \<and> zone_blocks (BLK_MAP_CACHE s') = zone_blocks (BLK_MAP_CACHE s)
         \<and> bc_Tbl (BLK_MAP_CACHE s') = bc_Tbl (BLK_MAP_CACHE s)
     \<or> \<not> no_bad_report P \<and> zone_blocks (BLK_MAP_CACHE s') + one_valid (PhyBlkNum (bc_Tbl (BLK_MAP_CACHE s) ! k))
           = zone_blocks (BLK_MAP_CACHE s) + one_valid (PhyBlkNum F) \<and> bc_Tbl (BLK_MAP_CACHE s') ! k = F"

lemma swapped_same_tables: "run_ok C s \<Longrightarrow> same_tables s s' \<Longrightarrow> swapped C k F s s'"
  by (simp add: swapped_def same_tablesD only_active_same_tables run_ok_def)

lemma wl_swap_run:
  assumes P: "keeps_sizes P" and s: "run_ok C s" and k: "k < DATA_BLK_CNT_OF_ZONE C"
    and D: "D = bc_Tbl (BLK_MAP_CACHE s) ! k" and room: "free_room C (BLK_MAP_CACHE s)"
  shows "total (wl_swap P C k D F s) (\<lambda>(r, s'). r = 0 \<and> swapped C k F s s' \<and> swap_kept P C k F s s')"
proof -
  obtain r3 sp s3 where rd: "ReadTemp P C (phys_at C 3 s (unat (PhyBlkNum D)) 0) (junk_spare C) s = (Some (r3, sp, s3))"
    and s3: "run_ok C s3"
    using ReadTemp_run [OF P s, of "junk_spare C" "phys_at C 3 s (unat (PhyBlkNum D)) 0"] by (auto simp: total_iff)
  define used where "used = (ud_LogicInfo (fst (dec_ud2 sp)) \<noteq> 0xffff)"
  obtain ok s4 where cp: "(if used then wl_copy P C (unat (PhyBlkNum D)) (unat (PhyBlkNum F)) (PAGE_CNT_OF_SUPER_BLK C) 0 s3
      else (True, s3)) = (ok, s4)" by fastforce
  have s4: "run_ok C s4" and fr4: "same_tables s s4"
    using cp s3 ReadTemp_frame [OF rd] wl_copy_run [OF P s3] same_tables_trans [OF ReadTemp_frame [OF rd] wl_copy_frame]
    by (auto split: if_splits)
  show ?thesis
  proof (cases ok)
    case False
    obtain nb s5 where m: "LML_BadBlkManage P C F (unat (CUR_MAP_ZONE s4)) 0 False s4 = Some (0, nb, s5)"
      "same_tables s4 s5"
      using MarkOnly_run [OF P s4, of F "unat (CUR_MAP_ZONE s4)" 0] by (auto simp: total_iff)
    then have "wl_swap P C k D F s = Some (0, s5)"
      using rd cp False by (simp add: wl_swap_def used_def)
    moreover have "\<not> no_bad_report P" using cp False wl_copy_good by (auto split: if_splits)
    moreover have fr5: "same_tables s s5" by (rule same_tables_trans [OF fr4 m(2)])
    ultimately show ?thesis using swapped_same_tables [OF s fr5] by (simp add: swap_kept_def same_tablesD(11) [OF fr5])
  next
    case True
    define s5 where "s5 = set_tbl ((bc_Tbl (BLK_MAP_CACHE s4))[k := F]) s4"
    have bc4: "BLK_MAP_CACHE s4 = BLK_MAP_CACHE s" using fr4 by (simp add: same_tablesD)
    have sd: "BMM_SetDataBlk C k F s4 = Some (0, s5)"
      using BMM_SetDataBlk_in [of C s4 k F] s4 k by (simp add: run_ok_def s5_def)
    have s5: "run_ok C s5" using SetDataBlk_run [OF s4 k, of F] sd by simp
    have z5: "zone_blocks (BLK_MAP_CACHE s5) + one_valid (PhyBlkNum D) = zone_blocks (BLK_MAP_CACHE s) + one_valid (PhyBlkNum F)"
      using zone_blocks_set_data [of C "BLK_MAP_CACHE s" k F] s k D by (simp add: s5_def bc4 run_ok_def)
    have "only_active s s5" using only_active_same_tables [OF fr4] by (simp add: s5_def)
    moreover have "CUR_MAP_ZONE s5 = CUR_MAP_ZONE s" by (simp add: s5_def bc4)
    moreover have "bc_Tbl (BLK_MAP_CACHE s5) ! i = bc_Tbl (BLK_MAP_CACHE s) ! i \<or> i = k \<and> bc_Tbl (BLK_MAP_CACHE s5) ! i = F"
      if "i < DATA_BLK_CNT_OF_ZONE C" for i
      using s that by (cases "i = k") (auto simp: s5_def bc4 run_ok_def cache_wf_def)
    moreover have "cache_wf C (BLK_MAP_CACHE s5)" using s5 by (simp add: run_ok_def)
    ultimately have sw5: "swapped C k F s s5" by (simp add: swapped_def)
    have F5: "bc_Tbl (BLK_MAP_CACHE s5) ! k = F" using s k by (auto simp: s5_def bc4 run_ok_def cache_wf_def)
    have room5: "free_room C (BLK_MAP_CACHE s5)"
      using room k by (simp add: s5_def bc4 free_blks_def free_items_def)
    obtain r6 s6 where er: "(if used then LML_VirtualBlkErase P C (unat (CUR_MAP_ZONE s5)) (unat (PhyBlkNum D)) s5
        else (0, s5)) = (r6, s6)" by fastforce
    have s6: "run_ok C s6" and fr6: "same_tables s5 s6"
      using er s5 erase_run [OF s5] VirtualBlkErase_frame by (auto split: if_splits)
    show ?thesis
    proof (cases "r6 < 0")
      case True
      obtain nb s7 where m: "LML_BadBlkManage P C D (unat (CUR_MAP_ZONE s6)) 0 False s6 = Some (0, nb, s7)"
        "same_tables s6 s7"
        using MarkOnly_run [OF P s6, of D "unat (CUR_MAP_ZONE s6)" 0] by (auto simp: total_iff)
      have "wl_swap P C k D F s = Some (0, s7)"
        using rd cp \<open>ok\<close> sd er m True by (simp add: wl_swap_def used_def)
      moreover have fr7: "same_tables s5 s7" using same_tables_trans [OF fr6 m(2)] .
      moreover have "only_active s s7"
        using sw5 only_active_trans [OF _ only_active_same_tables [OF fr7]] by (simp add: swapped_def)
      moreover have "\<not> no_bad_report P" using er True erase_good by (fastforce split: if_splits)
      ultimately show ?thesis using sw5 z5 F5 D by (simp add: swapped_def swap_kept_def same_tablesD)
    next
      case False
      let ?D = "D\<lparr>BlkEraseCnt := BlkEraseCnt D + 1\<rparr>"
      obtain r7 s7 where put: "BMM_SetFreeBlk C ?D s6 = Some (r7, s7)" "only_active s6 s7"
        "CUR_MAP_ZONE s7 = CUR_MAP_ZONE s6" "run_ok C s7"
        "\<forall>i < DATA_BLK_CNT_OF_ZONE C. bc_Tbl (BLK_MAP_CACHE s7) ! i = bc_Tbl (BLK_MAP_CACHE s6) ! i"
        "zone_blocks (BLK_MAP_CACHE s7) = zone_blocks (BLK_MAP_CACHE s6) + one_valid (PhyBlkNum D)"
        using SetFreeBlk_facts [OF s6, of ?D] room5 fr6 by (auto simp: total_iff same_tablesD)
      have "wl_swap P C k D F s = Some (0, s7)"
        using rd cp \<open>ok\<close> sd er put(1) False by (simp add: wl_swap_def used_def)
      moreover have "only_active s s7"
        using sw5 only_active_trans [OF only_active_trans [OF _ only_active_same_tables [OF fr6]] put(2)]
        by (simp add: swapped_def)
      moreover have "zone_blocks (BLK_MAP_CACHE s7) = zone_blocks (BLK_MAP_CACHE s) + one_valid (PhyBlkNum F)"
        using put(6) z5 fr6 by (simp add: same_tablesD)
      ultimately show ?thesis
        using sw5 put fr6 by (simp add: swapped_def swap_kept_def same_tablesD run_ok_def)
    qed
  qed
qed


section \<open>Properties\<close>

text \<open>C7: wear levelling, when \<open>CFG_SUPPORT_WEAR_LEVELLING\<close> enables it, returns; it reports an error exactly when
  the free pool is empty, and conserves the zone's blocks: the tables hold every block as often as before, except
  that, when the flash reports a failed program or erase, one block may leave the zone, either the free block
  of the highest erase count, with no data block changed, or the data block that was replaced. It moves at most a data
  block without a log block, of the lowest erase count of all data blocks, to a free block that has the highest
  erase count of the pool and a higher one than the block it replaces. (The local \<open>tmpLogicBlk\<close> is never used
  unset.)\<close>

theorem WearLevelling_moves_least_worn:
  assumes "keeps_sizes P" and "run_ok C s"
  shows "\<exists>r s'. LML_WearLevelling P C s = Some (r, s')
    \<and> r = (if free_blks C (BLK_MAP_CACHE s) = {#} then -1 else 0)
    \<and> (zone_blocks (BLK_MAP_CACHE s') = zone_blocks (BLK_MAP_CACHE s)
       \<or> \<not> no_bad_report P
         \<and> ((\<exists>F \<in># free_blks C (BLK_MAP_CACHE s). (\<forall>c \<in># free_blks C (BLK_MAP_CACHE s). BlkEraseCnt c \<le> BlkEraseCnt F)
               \<and> zone_blocks (BLK_MAP_CACHE s) = zone_blocks (BLK_MAP_CACHE s') + {#PhyBlkNum F#}
               \<and> (\<forall>i < DATA_BLK_CNT_OF_ZONE C. bc_Tbl (BLK_MAP_CACHE s') ! i = bc_Tbl (BLK_MAP_CACHE s) ! i))
           \<or> (\<exists>k < DATA_BLK_CNT_OF_ZONE C. bc_Tbl (BLK_MAP_CACHE s') ! k \<in># free_blks C (BLK_MAP_CACHE s)
               \<and> zone_blocks (BLK_MAP_CACHE s)
                   = zone_blocks (BLK_MAP_CACHE s') + one_valid (PhyBlkNum (bc_Tbl (BLK_MAP_CACHE s) ! k)))))
    \<and> (\<forall>i < DATA_BLK_CNT_OF_ZONE C. let D = bc_Tbl (BLK_MAP_CACHE s) ! i; D' = bc_Tbl (BLK_MAP_CACHE s') ! i in
         PhyBlkNum D' = PhyBlkNum D
         \<or> D' \<in># free_blks C (BLK_MAP_CACHE s) \<and> BlkEraseCnt D < BlkEraseCnt D'
           \<and> (\<forall>j < DATA_BLK_CNT_OF_ZONE C. BlkEraseCnt D \<le> BlkEraseCnt (bc_Tbl (BLK_MAP_CACHE s) ! j))
           \<and> (\<forall>c \<in># free_blks C (BLK_MAP_CACHE s). BlkEraseCnt c \<le> BlkEraseCnt D')
           \<and> GetLogBlkPst i s = Some None)"
proof -
  note P = assms(1) and s = assms(2)
  let ?t = "bc_Tbl (BLK_MAP_CACHE s)" and ?n = "DATA_BLK_CNT_OF_ZONE C"
  define s0 where "s0 = s\<lparr>dr_erase_cnter := 0\<rparr>"
  have wf: "cache_wf C (BLK_MAP_CACHE s)" using s by (simp add: run_ok_def)
  have s0: "run_ok C s0" "BLK_MAP_CACHE s0 = BLK_MAP_CACHE s" using s by (simp_all add: run_ok_def spare_ok_def s0_def)
  have "?n \<le> length ?t" using wf by (simp add: cache_wf_def)
  from lowest_ec_spec [OF this, of "0xffff" None] obtain ec pick where
    low: "lowest_ec ?t ?n 0xffff None = Some (ec, pick)"
    "ec = 0xffff \<and> pick = None \<or> (\<exists>k < ?n. pick = Some k \<and> ec = BlkEraseCnt (?t ! k) \<and> ec < 0xffff)"
    "\<forall>j < ?n. ec \<le> BlkEraseCnt (?t ! j)" by auto
  obtain r1 F s1 where get: "BMM_GetFreeBlk C HIGHEST_EC_TYPE s0 = Some (r1, F, s1)" and s1: "run_ok C s1"
    using GetFreeBlk_run [OF s0(1), of HIGHEST_EC_TYPE] by (auto simp: total_iff)
  have wf0: "cache_wf C (BLK_MAP_CACHE s0)" using wf s0 by simp
  note post = BMM_GetFreeBlk_post [OF wf0 get, unfolded s0(2)]
  note run = LML_WearLevelling_def [of P C s, unfolded s0_def [symmetric] Let_def s0(2) low(1)]
  define s2 where "s2 = s1\<lparr>dr_erase_cnter := 0\<rparr>"
  show ?thesis
  proof (cases "free_blks C (BLK_MAP_CACHE s) = {#}")
    case True
    with post have "r1 = -1" "s1 = s0" by (auto simp: free_taken_def s0(2))
    with True get s0(2) show ?thesis by (simp add: run)
  next
    case False
    with post have r1: "r1 = 0" and ft: "free_taken C F s0 s1"
      and mx: "\<forall>c \<in># free_blks C (BLK_MAP_CACHE s). BlkEraseCnt c \<le> BlkEraseCnt F" by (auto simp: ec_le_def)
    have s2: "run_ok C s2" "BLK_MAP_CACHE s2 = BLK_MAP_CACHE s1"
      using s1 by (simp_all add: run_ok_def spare_ok_def s2_def)
    have z2: "zone_blocks (BLK_MAP_CACHE s) = zone_blocks (BLK_MAP_CACHE s2) + {#PhyBlkNum F#}"
      and t2: "\<forall>i < ?n. bc_Tbl (BLK_MAP_CACHE s2) ! i = ?t ! i" and l2: "LOG_BLK_TBL s2 = LOG_BLK_TBL s"
      and F: "F \<in># free_blks C (BLK_MAP_CACHE s)" "PhyBlkNum F \<noteq> 0xffff"
      using ft s0(2) s2(2) post r1 by (auto simp: free_taken_def)
    have room2: "free_room C (BLK_MAP_CACHE s2)"
      using ft size_free_le [of C "BLK_MAP_CACHE s"] s2(2) s0(2) by (simp add: free_taken_def)
    have one: "one_valid (PhyBlkNum F) = {#PhyBlkNum F#}" using F(2) by (simp add: one_valid_def)
    note run = run [unfolded get, simplified, unfolded r1, simplified, folded s2_def]
    show ?thesis
    proof (cases "BlkEraseCnt F \<le> ec")
      case True
      obtain s3 where s3: "(if ec = 0xffff then clear_erase_counts C s2 else Some s2) = Some s3" "run_ok C s3"
        "zone_blocks (BLK_MAP_CACHE s3) = zone_blocks (BLK_MAP_CACHE s2)"
        "map PhyBlkNum (bc_Tbl (BLK_MAP_CACHE s3)) = map PhyBlkNum (bc_Tbl (BLK_MAP_CACHE s2))"
        using clear_erase_counts_run [OF s2(1)] s2(1) by (cases "ec = 0xffff") (auto simp: total_iff)
      obtain r4 s4 where s4: "BMM_SetFreeBlk C F s3 = Some (r4, s4)"
        "\<forall>i < ?n. bc_Tbl (BLK_MAP_CACHE s4) ! i = bc_Tbl (BLK_MAP_CACHE s3) ! i"
        "zone_blocks (BLK_MAP_CACHE s4) = zone_blocks (BLK_MAP_CACHE s3) + {#PhyBlkNum F#}"
        using SetFreeBlk_facts [OF s3(2), of F] room2 size_free_cong [OF s3(4)] by (auto simp: total_iff one)
      have "PhyBlkNum (bc_Tbl (BLK_MAP_CACHE s3) ! i) = PhyBlkNum (?t ! i)" if "i < ?n" for i
      proof -
        have "i < length (bc_Tbl (BLK_MAP_CACHE s3))" "i < length (bc_Tbl (BLK_MAP_CACHE s2))"
          using that s3(2) s2(1) by (auto simp: run_ok_def cache_wf_def)
        then have "PhyBlkNum (bc_Tbl (BLK_MAP_CACHE s3) ! i) = PhyBlkNum (bc_Tbl (BLK_MAP_CACHE s2) ! i)"
          using arg_cong [OF s3(4), of "\<lambda>m. m ! i"] by simp
        with t2 that show ?thesis by simp
      qed
      moreover have "LML_WearLevelling P C s = Some (0, s4)"
        using run True s3(1) s4(1) by simp
      ultimately show ?thesis using False s4 s3(3) z2 by simp
    next
      case nle: False
      then have lt: "ec < BlkEraseCnt F" by simp
      then have "ec \<noteq> 0xffff" using u16_le_max [of "BlkEraseCnt F"] by (metis linorder_not_less)
      with low(2) obtain k where k: "k < ?n" "pick = Some k" "ec = BlkEraseCnt (?t ! k)" by auto
      have gd: "BMM_GetDataBlk C k s2 = Some (0, bc_Tbl (BLK_MAP_CACHE s2) ! k)"
        using BMM_GetDataBlk_in [of C s2 k] s2 k(1) by (simp add: run_ok_def)
      obtain rl L where gl: "BMM_GetLogBlk k s2 = Some (rl, L)"
        using GetLogBlk_run [OF s2(1), of k] by (auto simp: total_iff)
      show ?thesis
      proof (cases "rl < 0")
        case True
        have noneg: "GetLogBlkPst k s = Some None"
          using BMM_GetLogBlk_post [OF gl] True l2 by (auto simp: GetLogBlkPst_def)
        obtain s3 where sw: "wl_swap P C k (bc_Tbl (BLK_MAP_CACHE s2) ! k) F s2 = Some (0, s3)" "swapped C k F s2 s3" "swap_kept P C k F s2 s3"
          using wl_swap_run [OF P s2(1) k(1) refl room2, of F] by (auto simp: total_iff)
        have r: "LML_WearLevelling P C s = Some (0, s3)"
          using run nle k(2) gd gl True sw(1) by simp
        have "zone_blocks (BLK_MAP_CACHE s3) = zone_blocks (BLK_MAP_CACHE s)
            \<or> \<not> no_bad_report P \<and> (zone_blocks (BLK_MAP_CACHE s) = zone_blocks (BLK_MAP_CACHE s3) + {#PhyBlkNum F#}
                \<and> (\<forall>i < ?n. bc_Tbl (BLK_MAP_CACHE s3) ! i = ?t ! i)
              \<or> bc_Tbl (BLK_MAP_CACHE s3) ! k = F
                \<and> zone_blocks (BLK_MAP_CACHE s) = zone_blocks (BLK_MAP_CACHE s3) + one_valid (PhyBlkNum (?t ! k)))"
          using sw(3) z2 t2 k(1) unfolding swap_kept_def one by auto
        moreover have "PhyBlkNum (bc_Tbl (BLK_MAP_CACHE s3) ! i) = PhyBlkNum (?t ! i)
            \<or> i = k \<and> bc_Tbl (BLK_MAP_CACHE s3) ! i = F" if "i < ?n" for i
          using sw(2) t2 that by (auto simp: swapped_def)
        ultimately show ?thesis
          using r False noneg F(1) lt k(1,3) low(3) mx by (auto simp: Let_def)
      next
        case nlog: False
        obtain r3 s3 where s3: "BMM_SetFreeBlk C F s2 = Some (r3, s3)"
          "\<forall>i < ?n. bc_Tbl (BLK_MAP_CACHE s3) ! i = bc_Tbl (BLK_MAP_CACHE s2) ! i"
          "zone_blocks (BLK_MAP_CACHE s3) = zone_blocks (BLK_MAP_CACHE s2) + {#PhyBlkNum F#}"
          using SetFreeBlk_facts [OF s2(1) room2, of F] by (auto simp: total_iff one)
        have "LML_WearLevelling P C s = Some (0, s3)"
          using run nle k(2) gd gl nlog s3(1) by simp
        with False s3 z2 t2 show ?thesis by simp
      qed
    qed
  qed
qed

lemma WearLevelling_moves_least_worn_witness:
  "\<exists>r s'. LML_WearLevelling quiet_phy sample_cfg (sample_drv ()) = Some (r, s') \<and> r = 0
     \<and> zone_blocks (BLK_MAP_CACHE s') = zone_blocks sample_blk_cache"
proof -
  have "free_blks sample_cfg sample_blk_cache \<noteq> {#}" using sample_free by auto
  moreover have "no_bad_report quiet_phy" by (simp add: no_bad_report_def quiet_phy_def)
  ultimately show ?thesis
    using WearLevelling_moves_least_worn [OF quiet_keeps_sizes sample_run_ok, of "()"] by auto
qed

end
