(* ===== verification/Format_Page.thy ===== *)
theory Format_Page
  imports Table_Cache
begin

text \<open>
  The page operations of the format module (\<open>format/nand_format.c\<close>): reading, writing, erasing and copying
  super pages of a die, the bad block mark, the two searches for the last used page of a block and the
  checksum. Static variables that \<open>FMT_Init\<close> sets are the record \<open>fmt_par\<close>.
\<close>

section \<open>Parameters and page operations\<close>

record fmt_par =
  DieCntOfNand :: u32
  SuperBlkCntOfDie :: u32
  DIE0_FIRST_BLK_NUM :: u32

definition fmt_CalculatePhyOpPar :: "cfg \<Rightarrow> phys_op \<Rightarrow> nat \<Rightarrow> nat \<Rightarrow> nat \<Rightarrow> phys_op" where
  "fmt_CalculatePhyOpPar C pPhyPar nZone nBlock nPage =
    (let tmpDieNum = nZone div ZONE_CNT_OF_DIE C;
         (tmpBnkNum, tmpBlkNum, tmpPageNum) =
           (if SUPPORT_INT_INTERLEAVE C \<and> SUPPORT_EXT_INTERLEAVE C
            then (nPage mod INTERLEAVE_BANK_CNT C + tmpDieNum * INTERLEAVE_BANK_CNT C,
                  nBlock, nPage div INTERLEAVE_BANK_CNT C)
            else if SUPPORT_INT_INTERLEAVE C \<and> \<not> SUPPORT_EXT_INTERLEAVE C
            then (nPage mod INTERLEAVE_BANK_CNT C + tmpDieNum * INTERLEAVE_BANK_CNT C,
                  nBlock, nPage div INTERLEAVE_BANK_CNT C)
            else if \<not> SUPPORT_INT_INTERLEAVE C \<and> SUPPORT_EXT_INTERLEAVE C
            then (nPage mod INTERLEAVE_BANK_CNT C
                    + (tmpDieNum div DIE_CNT_OF_CHIP C) * INTERLEAVE_BANK_CNT C,
                  nBlock + (tmpDieNum mod DIE_CNT_OF_CHIP C)
                    * (BLOCK_CNT_OF_DIE C div PLANE_CNT_OF_DIE C),
                  nPage div INTERLEAVE_BANK_CNT C)
            else (tmpDieNum div DIE_CNT_OF_CHIP C,
                  nBlock + (tmpDieNum mod DIE_CNT_OF_CHIP C)
                    * (BLOCK_CNT_OF_DIE C div PLANE_CNT_OF_DIE C),
                  nPage))
     in pPhyPar\<lparr>op_BankNum := of_nat tmpBnkNum, op_PageNum := of_nat tmpPageNum,
                op_BlkNum := of_nat tmpBlkNum\<rparr>)"

definition fmt_op :: "cfg \<Rightarrow> u32 \<Rightarrow> nat \<Rightarrow> nat \<Rightarrow> nat \<Rightarrow> phys_op" where
  "fmt_op C bm nDieNum nBlkNum nPage =
     fmt_CalculatePhyOpPar C (op_with bm) (nDieNum * ZONE_CNT_OF_DIE C) nBlkNum nPage"

text \<open>The page buffer is always \<open>FORMAT_PAGE_BUF\<close>, which is \<open>PageCache0\<close>; with a spare pointer the
  spare area is read by \<open>PHY_PageReadSpare\<close>. The caller's spare buffer is passed by value.\<close>

definition fmt_VirtualPageRead ::
  "'d phy_ops \<Rightarrow> cfg \<Rightarrow> nat \<Rightarrow> nat \<Rightarrow> nat \<Rightarrow> u32 \<Rightarrow> u8 list option \<Rightarrow> 'd drv
   \<Rightarrow> (int \<times> u8 list \<times> 'd drv) option" where
  "fmt_VirtualPageRead P C nDieNum nBlkNum nPage SectBitmap pSpare s =
    (case pSpare of
       None \<Rightarrow>
         let (result, m, _, d) =
               PHY_PageRead P (fmt_op C SectBitmap nDieNum nBlkNum nPage) (dr_temp_buf s) None (dr_dev s)
         in Some (result, [], s\<lparr>dr_temp_buf := m, dr_dev := d\<rparr>)
     | Some sp \<Rightarrow>
         let (result, m, sbuf, d) =
               PHY_PageReadSpare P (fmt_op C SectBitmap nDieNum nBlkNum nPage) (dr_temp_buf s)
                 (Some (dr_spare_buf s)) (dr_dev s);
             s1 = s\<lparr>dr_temp_buf := m,
                    dr_spare_buf := (case sbuf of Some b \<Rightarrow> b | None \<Rightarrow> dr_spare_buf s), dr_dev := d\<rparr>
         in do {
           sp' \<leftarrow> copy4 (spare_slots C SectBitmap) (dr_spare_buf s1) sp;
           Some (result, sp', s1)
         })"

definition fmt_VirtualPageWrite ::
  "'d phy_ops \<Rightarrow> cfg \<Rightarrow> nat \<Rightarrow> nat \<Rightarrow> nat \<Rightarrow> u32 \<Rightarrow> u8 list option \<Rightarrow> 'd drv \<Rightarrow> (int \<times> 'd drv) option" where
  "fmt_VirtualPageWrite P C nDieNum nBlkNum nPage SectBitmap pSpare s = do {
     cleared \<leftarrow> mem_put (dr_spare_buf s) 0 (replicate (SECTOR_CNT_OF_SUPER_PAGE C * 4) 0xff);
     filled \<leftarrow> (case pSpare of
         None \<Rightarrow> Some cleared
       | Some sp \<Rightarrow> copy4 (map swap_pair (spare_slots C SectBitmap)) sp cleared);
     let tmpPhyPage = fmt_op C SectBitmap nDieNum nBlkNum nPage;
     let (_, d) = PHY_PageWrite P tmpPhyPage (dr_temp_buf s) filled (dr_dev s);
     let (result, s') =
       SynchBank P (unat (op_BankNum tmpPhyPage)) SYNC_CHIP_MODE (s\<lparr>dr_spare_buf := filled, dr_dev := d\<rparr>);
     Some (if result < 0 then result else 0, s')
   }"

fun fmt_erase_banks :: "'d phy_ops \<Rightarrow> cfg \<Rightarrow> nat \<Rightarrow> nat \<Rightarrow> nat \<Rightarrow> nat \<Rightarrow> 'd drv \<Rightarrow> 'd drv" where
  "fmt_erase_banks P C nDieNum nBlkNum 0 i s = s"
| "fmt_erase_banks P C nDieNum nBlkNum (Suc n) i s =
     fmt_erase_banks P C nDieNum nBlkNum n (Suc i)
       (s\<lparr>dr_dev := snd (PHY_BlockErase P (fmt_op C (ucast (junk16 C)) nDieNum nBlkNum i) (dr_dev s))\<rparr>)"

fun fmt_synch_banks :: "'d phy_ops \<Rightarrow> nat \<Rightarrow> nat \<Rightarrow> 'd drv \<Rightarrow> int \<times> 'd drv" where
  "fmt_synch_banks P 0 i s = (0, s)"
| "fmt_synch_banks P (Suc n) i s =
    (let (result, s1) = SynchBank P i SYNC_CHIP_MODE s
     in if result < 0 then (-1, s1) else fmt_synch_banks P n (Suc i) s1)"

definition fmt_VirtualBlockErase :: "'d phy_ops \<Rightarrow> cfg \<Rightarrow> nat \<Rightarrow> nat \<Rightarrow> 'd drv \<Rightarrow> int \<times> 'd drv" where
  "fmt_VirtualBlockErase P C nDieNum nBlkNum s =
     fmt_synch_banks P (INTERLEAVE_BANK_CNT C) 0
       (fmt_erase_banks P C nDieNum nBlkNum (INTERLEAVE_BANK_CNT C) 0 s)"

text \<open>\<open>n\<close> pages to go from page \<open>i\<close>.\<close>

fun fmt_VirtualBlockCopy ::
  "'d phy_ops \<Rightarrow> cfg \<Rightarrow> nat \<Rightarrow> nat \<Rightarrow> nat \<Rightarrow> nat \<Rightarrow> nat \<Rightarrow> 'd drv \<Rightarrow> int \<times> 'd drv" where
  "fmt_VirtualBlockCopy P C nDieNum nSrcBlk nDstBlk 0 i s = (0, s)"
| "fmt_VirtualBlockCopy P C nDieNum nSrcBlk nDstBlk (Suc n) i s =
    (let src = fmt_op C (ucast (junk16 C)) nDieNum nSrcBlk i;
         dst = fmt_op C (ucast (junk16 C)) nDieNum nDstBlk i;
         (_, s1) = PageCopyback P src dst s;
         (result, s2) = SynchBank P (unat (op_BankNum dst)) SYNC_CHIP_MODE s1
     in if result < 0 then (-1, s2) else fmt_VirtualBlockCopy P C nDieNum nSrcBlk nDstBlk n (Suc i) s2)"

text \<open>The reserved bytes of the two spare structs are not initialised.\<close>

definition zero_ud :: "user_data \<Rightarrow> user_data" where
  "zero_ud u = u\<lparr>ud_BadBlkFlag := 0, ud_LogicInfo := 0, ud_LogicPageNum := 0, ud_PageStatus := 0\<rparr>"

definition bad_flag_spare :: "cfg \<Rightarrow> u8 list" where
  "bad_flag_spare C = (let u = dec_ud2 (junk_spare C) in enc_ud2 (zero_ud (fst u), zero_ud (snd u)))"

fun bad_flag_loop :: "'d phy_ops \<Rightarrow> cfg \<Rightarrow> nat \<Rightarrow> nat \<Rightarrow> nat \<Rightarrow> nat \<Rightarrow> 'd drv \<Rightarrow> 'd drv option" where
  "bad_flag_loop P C nDieNum nBlock 0 i s = Some s"
| "bad_flag_loop P C nDieNum nBlock (Suc n) i s = do {
     (_, s1) \<leftarrow> fmt_VirtualPageWrite P C nDieNum nBlock i (FULL_BITMAP_OF_SUPER_PAGE C)
                  (Some (bad_flag_spare C)) s;
     (_, s2) \<leftarrow> fmt_VirtualPageWrite P C nDieNum nBlock
                  (PAGE_CNT_OF_SUPER_BLK C - INTERLEAVE_BANK_CNT C + i) (FULL_BITMAP_OF_SUPER_PAGE C)
                  (Some (bad_flag_spare C)) s1;
     bad_flag_loop P C nDieNum nBlock n (Suc i) s2
   }"

definition WriteBadBlkFlag :: "'d phy_ops \<Rightarrow> cfg \<Rightarrow> nat \<Rightarrow> nat \<Rightarrow> 'd drv \<Rightarrow> 'd drv option" where
  "WriteBadBlkFlag P C nDieNum nBlock s = bad_flag_loop P C nDieNum nBlock (INTERLEAVE_BANK_CNT C) 0 s"

lemma fmt_CalculatePhyOpPar_LML: "fmt_CalculatePhyOpPar = LML_CalculatePhyOpPar"
  by (intro ext) (simp add: fmt_CalculatePhyOpPar_def LML_CalculatePhyOpPar_def)

section \<open>Binary searches\<close>

lemma mid_bounds: "lo \<le> hi \<Longrightarrow> lo \<le> (lo + hi) div 2 \<and> (lo + hi) div 2 \<le> (hi :: int)"
  by auto

lemma mid_shrinks:
  assumes "lo \<le> (hi :: int)"
  shows "nat ((lo + hi) div 2 - 1 - lo + 1) < nat (hi - lo + 1)"
    and "nat (hi - ((lo + hi) div 2 + 1) + 1) < nat (hi - lo + 1)"
  using mid_bounds [OF assms] assms by linarith+

text \<open>Division of signed C integers, which truncates.\<close>

definition half :: "int \<Rightarrow> int" where
  "half x = (if x < 0 then - ((- x) div 2) else x div 2)"

definition PAGE_CNT_OF_TBL_GROUP :: nat where "PAGE_CNT_OF_TBL_GROUP = 4"

abbreviation (input) FREE_PAGE_MARK :: u8 where "FREE_PAGE_MARK \<equiv> 0xff"
abbreviation (input) DATA_PAGE_MARK :: u8 where "DATA_PAGE_MARK \<equiv> 0x55"

text \<open>A spare struct of one \<open>__NandUserData_t\<close> is read with bitmap 3, which fills its eight bytes.\<close>

definition fmt_read_ud ::
  "'d phy_ops \<Rightarrow> cfg \<Rightarrow> nat \<Rightarrow> nat \<Rightarrow> nat \<Rightarrow> u8 list \<Rightarrow> 'd drv \<Rightarrow> (u8 list \<times> 'd drv) option" where
  "fmt_read_ud P C nDieNum nBlock nPage sp s = do {
     (_, sp', s') \<leftarrow> fmt_VirtualPageRead P C nDieNum nBlock nPage 3 (Some sp) s;
     Some (sp', s')
   }"

text \<open>The bisection of all three searches: \<open>probe\<close> reads what lies at a position and says whether it is
  free; then the search goes on in front of it, otherwise behind it.\<close>

function bisect :: "(nat \<Rightarrow> 'a \<Rightarrow> (bool \<times> 'a) option) \<Rightarrow> int \<Rightarrow> int \<Rightarrow> 'a \<Rightarrow> (int \<times> int \<times> 'a) option" where
  "bisect probe tmpLowPage tmpHighPage a =
    (if tmpLowPage \<le> tmpHighPage
     then do {
       let tmpMidPage = (tmpLowPage + tmpHighPage) div 2;
       (free, a') \<leftarrow> probe (nat tmpMidPage) a;
       if free then bisect probe tmpLowPage (tmpMidPage - 1) a'
       else bisect probe (tmpMidPage + 1) tmpHighPage a'
     }
     else Some (tmpLowPage, tmpHighPage, a))"
  by pat_completeness auto
termination
  by (relation "measure (\<lambda>(p, lo, hi, a). nat (hi - lo + 1))") (auto simp only: in_measure prod.case mid_shrinks wf_measure)

declare bisect.simps [simp del]

definition tbl_probe ::
  "'d phy_ops \<Rightarrow> cfg \<Rightarrow> nat \<Rightarrow> nat \<Rightarrow> nat \<Rightarrow> u8 list \<times> 'd drv \<Rightarrow> (bool \<times> u8 list \<times> 'd drv) option" where
  "tbl_probe P C nDieNum nBlock tmpMidPage a = do {
     (sp, s) \<leftarrow> fmt_read_ud P C nDieNum nBlock (tmpMidPage * PAGE_CNT_OF_TBL_GROUP) (fst a) (snd a);
     Some (ud_PageStatus (dec_ud sp) = FREE_PAGE_MARK, sp, s)
   }"

definition SearchBlkTblPst ::
  "'d phy_ops \<Rightarrow> cfg \<Rightarrow> nat \<Rightarrow> nat \<Rightarrow> 'd drv \<Rightarrow> (nat \<times> 'd drv) option" where
  "SearchBlkTblPst P C nDieNum nBlock s = do {
     (lo, hi, _, s') \<leftarrow> bisect (tbl_probe P C nDieNum nBlock) 0
        (int (PAGE_CNT_OF_SUPER_BLK C div PAGE_CNT_OF_TBL_GROUP) - 1) (take 8 (junk_spare C), s);
     Some (nat (half (lo + hi)) * PAGE_CNT_OF_TBL_GROUP, s')
   }"

definition free_page :: "user_data \<Rightarrow> bool" where
  "free_page u \<longleftrightarrow> ud_PageStatus u = FREE_PAGE_MARK \<and> ud_LogicPageNum u = 0xffff"

text \<open>The pages of one row, one in each bank: \<open>n\<close> banks to go from \<open>tmpBnkNum\<close>.\<close>

fun row_scan ::
  "'d phy_ops \<Rightarrow> cfg \<Rightarrow> nat \<Rightarrow> nat \<Rightarrow> nat \<Rightarrow> nat \<Rightarrow> nat \<Rightarrow> u8 \<Rightarrow> nat \<Rightarrow> u8 list \<Rightarrow> 'd drv
   \<Rightarrow> (u8 \<times> nat \<times> u8 list \<times> 'd drv) option" where
  "row_scan P C nDieNum nBlock tmpMidPage 0 tmpBnkNum tmpPageStatus tmpUsedPage sp s =
     Some (tmpPageStatus, tmpUsedPage, sp, s)"
| "row_scan P C nDieNum nBlock tmpMidPage (Suc n) tmpBnkNum tmpPageStatus tmpUsedPage sp s = do {
     let tmpPage = tmpMidPage * INTERLEAVE_BANK_CNT C + tmpBnkNum;
     (sp', s') \<leftarrow> fmt_read_ud P C nDieNum nBlock tmpPage sp s;
     if free_page (dec_ud sp')
     then row_scan P C nDieNum nBlock tmpMidPage n (Suc tmpBnkNum) tmpPageStatus tmpUsedPage sp' s'
     else row_scan P C nDieNum nBlock tmpMidPage n (Suc tmpBnkNum) (tmpPageStatus AND DATA_PAGE_MARK)
            tmpPage sp' s'
   }"

definition row_probe ::
  "'d phy_ops \<Rightarrow> cfg \<Rightarrow> nat \<Rightarrow> nat \<Rightarrow> nat \<Rightarrow> nat \<times> u8 list \<times> 'd drv
   \<Rightarrow> (bool \<times> nat \<times> u8 list \<times> 'd drv) option" where
  "row_probe P C nDieNum nBlock tmpMidPage a = do {
     (st, used, sp, s) \<leftarrow> row_scan P C nDieNum nBlock tmpMidPage (INTERLEAVE_BANK_CNT C) 0
        FREE_PAGE_MARK (fst a) (fst (snd a)) (snd (snd a));
     Some (st = FREE_PAGE_MARK, used, sp, s)
   }"

definition page_probe ::
  "'d phy_ops \<Rightarrow> cfg \<Rightarrow> nat \<Rightarrow> nat \<Rightarrow> nat \<Rightarrow> nat \<times> u8 list \<times> 'd drv
   \<Rightarrow> (bool \<times> nat \<times> u8 list \<times> 'd drv) option" where
  "page_probe P C nDieNum nBlock tmpMidPage a = do {
     (sp, s) \<leftarrow> fmt_read_ud P C nDieNum nBlock tmpMidPage (fst (snd a)) (snd (snd a));
     Some (free_page (dec_ud sp), tmpMidPage, sp, s)
   }"

definition GetLastUsedPage ::
  "'d phy_ops \<Rightarrow> cfg \<Rightarrow> nat \<Rightarrow> nat \<Rightarrow> 'd drv \<Rightarrow> (nat \<times> 'd drv) option" where
  "GetLastUsedPage P C nDieNum nBlock s = do {
     (_, _, used, _, s') \<leftarrow>
       (if SUPPORT_ALIGN_NAND_BNK C
        then bisect (row_probe P C nDieNum nBlock) 0 (int (PAGE_CNT_OF_PHY_BLK C) - 1)
               (0, take 8 (junk_spare C), s)
        else bisect (page_probe P C nDieNum nBlock) 0 (int (PAGE_CNT_OF_SUPER_BLK C) - 1)
               (0, take 8 (junk_spare C), s));
     Some (used, s')
   }"

definition GetLogAge :: "'d phy_ops \<Rightarrow> cfg \<Rightarrow> nat \<Rightarrow> nat \<Rightarrow> 'd drv \<Rightarrow> (u8 \<times> 'd drv) option" where
  "GetLogAge P C nDie nPhyBlk s = do {
     (sp, s') \<leftarrow> fmt_read_ud P C nDie nPhyBlk 0 (take 8 (junk_spare C)) s;
     Some (ud_PageStatus (dec_ud sp), s')
   }"

fun cal_sum :: "u32 list \<Rightarrow> nat \<Rightarrow> nat \<Rightarrow> u32 \<Rightarrow> u32 option" where
  "cal_sum pTblBuf 0 i tmpCheckSum = Some tmpCheckSum"
| "cal_sum pTblBuf (Suc n) i tmpCheckSum = do {
     x \<leftarrow> arr_get pTblBuf i;
     cal_sum pTblBuf n (Suc i) (tmpCheckSum + x)
   }"

definition CalCheckSum :: "u32 list \<Rightarrow> nat \<Rightarrow> u32 option" where
  "CalCheckSum pTblBuf nLength = cal_sum pTblBuf nLength 0 0"


section \<open>Properties of the searches\<close>

text \<open>The bisection of a prefix of \<open>k\<close> used positions; \<open>I lo hi\<close> is what is known of the state after the
  positions before \<open>lo\<close> were found used and those from \<open>hi\<close> free.\<close>

lemma bisect_prefix:
  assumes probe: "\<And>m lo hi a. lo \<le> m \<Longrightarrow> m < hi \<Longrightarrow> I lo hi a \<Longrightarrow>
      \<exists>a'. probe m a = Some (k \<le> m, a') \<and> I (if k \<le> m then lo else Suc m) (if k \<le> m then m else hi) a'"
    and "I lo hi a" and "lo \<le> k" and "k \<le> hi"
  shows "\<exists>a'. bisect probe (int lo) (int hi - 1) a = Some (int k, int k - 1, a') \<and> I k k a'"
  using assms(2-4)
proof (induction "hi - lo" arbitrary: lo hi a rule: less_induct)
  case less
  show ?case
  proof (cases "lo < hi")
    case False
    with less.prems have "lo = k" "hi = k" by auto
    with less.prems(1) show ?thesis by (subst bisect.simps) auto
  next
    case True
    define m where "m = (lo + hi - 1) div 2"
    have m: "lo \<le> m" "m < hi" using True by (auto simp: m_def)
    have mid: "(int lo + (int hi - 1)) div 2 = int m" using True by (simp add: m_def of_nat_diff zdiv_int)
    from probe [OF m less.prems(1)] obtain a' where
      a': "probe m a = Some (k \<le> m, a')" "I (if k \<le> m then lo else Suc m) (if k \<le> m then m else hi) a'" by blast
    note step = bisect.simps [of probe "int lo" "int hi - 1" a]
    show ?thesis
    proof (cases "k \<le> m")
      case k: True
      from less.hyps [of m lo a'] m a'(2) k less.prems(2) True show ?thesis
        by (subst step) (simp add: mid a'(1) Let_def)
    next
      case k: False
      from less.hyps [of hi "Suc m" a'] m a'(2) k less.prems(3) True show ?thesis
        by (subst step) (simp add: mid a'(1) Let_def ac_simps)
    qed
  qed
qed

text \<open>\<open>spare_view P C d b D view\<close>: as long as the device state satisfies \<open>D\<close>, reading the spare area of page
  \<open>p\<close> of block \<open>b\<close> returns \<open>view p\<close> and keeps \<open>D\<close>.\<close>

definition spare_view ::
  "'d phy_ops \<Rightarrow> cfg \<Rightarrow> nat \<Rightarrow> nat \<Rightarrow> ('d drv \<Rightarrow> bool) \<Rightarrow> (nat \<Rightarrow> user_data) \<Rightarrow> bool" where
  "spare_view P C d b D view \<longleftrightarrow> (\<forall>p < PAGE_CNT_OF_SUPER_BLK C. \<forall>sp s. length sp = 8 \<longrightarrow> D s \<longrightarrow>
     (\<exists>s'. fmt_read_ud P C d b p sp s = Some (enc_ud (view p), s') \<and> D s'))"

lemma spare_viewD:
  "spare_view P C d b D view \<Longrightarrow> p < PAGE_CNT_OF_SUPER_BLK C \<Longrightarrow> length sp = 8 \<Longrightarrow> D s \<Longrightarrow>
   \<exists>s'. fmt_read_ud P C d b p sp s = Some (enc_ud (view p), s') \<and> D s'"
  by (simp add: spare_view_def)

lemma length_junk8 [simp]: "length (take 8 (junk_spare C)) = 8"
  by simp

text \<open>When the used table groups of a table block are its first \<open>k\<close> ones, \<open>_SearchBlkTblPst\<close> returns the
  first page of the last used one (page 0 when none is used).\<close>

theorem SearchBlkTblPst_last_group:
  assumes view: "spare_view P C d b D view" and D: "D s"
    and k: "k \<le> PAGE_CNT_OF_SUPER_BLK C div PAGE_CNT_OF_TBL_GROUP"
    and used: "\<And>g. g < PAGE_CNT_OF_SUPER_BLK C div PAGE_CNT_OF_TBL_GROUP \<Longrightarrow>
      ud_PageStatus (view (g * PAGE_CNT_OF_TBL_GROUP)) = FREE_PAGE_MARK \<longleftrightarrow> k \<le> g"
  shows "\<exists>s'. SearchBlkTblPst P C d b s = Some ((k - 1) * PAGE_CNT_OF_TBL_GROUP, s') \<and> D s'"
proof -
  let ?N = "PAGE_CNT_OF_SUPER_BLK C div PAGE_CNT_OF_TBL_GROUP"
  let ?I = "\<lambda>lo hi a. hi \<le> ?N \<and> length (fst a) = 8 \<and> D (snd a)"
  have "\<exists>a'. bisect (tbl_probe P C d b) (int 0) (int ?N - 1) (take 8 (junk_spare C), s)
      = Some (int k, int k - 1, a') \<and> ?I k k a'"
  proof (rule bisect_prefix [where I = ?I])
    fix m lo hi and a :: "u8 list \<times> 'a drv"
    assume m: "lo \<le> m" "m < hi" and I: "?I lo hi a"
    then have "m < ?N" by simp
    then have "m * PAGE_CNT_OF_TBL_GROUP < PAGE_CNT_OF_SUPER_BLK C" by (simp add: PAGE_CNT_OF_TBL_GROUP_def)
    from spare_viewD [OF view this] I obtain s' where
      "fmt_read_ud P C d b (m * PAGE_CNT_OF_TBL_GROUP) (fst a) (snd a)
         = Some (enc_ud (view (m * PAGE_CNT_OF_TBL_GROUP)), s')" "D s'" by blast
    with used [OF \<open>m < ?N\<close>] I m show "\<exists>a'. tbl_probe P C d b m a = Some (k \<le> m, a')
        \<and> ?I (if k \<le> m then lo else Suc m) (if k \<le> m then m else hi) a'"
      by (simp add: tbl_probe_def)
  qed (use D k in simp_all)
  then obtain a' where a': "bisect (tbl_probe P C d b) 0 (int ?N - 1) (take 8 (junk_spare C), s)
      = Some (int k, int k - 1, a')" "D (snd a')" by auto
  have "nat (half (int k + (int k - 1))) = k - 1" by (cases k) (auto simp: half_def)
  with a' show ?thesis by (cases a') (simp add: SearchBlkTblPst_def)
qed


text \<open>The pages of a block that are used, and the last of those below \<open>n\<close> (0 if there is none).\<close>

definition last_used :: "(nat \<Rightarrow> user_data) \<Rightarrow> nat \<Rightarrow> nat" where
  "last_used view n = (if \<exists>p < n. \<not> free_page (view p) then GREATEST p. p < n \<and> \<not> free_page (view p) else 0)"

lemma last_used_Suc:
  "last_used view (Suc n) = (if free_page (view n) then last_used view n else n)"
proof (cases "free_page (view n)")
  case True
  then have "(p < Suc n \<and> \<not> free_page (view p)) = (p < n \<and> \<not> free_page (view p))" for p
    by (auto simp: less_Suc_eq)
  with True show ?thesis by (auto simp add: last_used_def)
next
  case False
  then have "(GREATEST p. p < Suc n \<and> \<not> free_page (view p)) = n" by (intro Greatest_equality) auto
  with False show ?thesis by (auto simp: last_used_def)
qed

lemma last_used_skip:
  "(\<And>p. n \<le> p \<Longrightarrow> p < m \<Longrightarrow> free_page (view p)) \<Longrightarrow> n \<le> m \<Longrightarrow> last_used view m = last_used view n"
proof (induction m)
  case (Suc m)
  then show ?case by (cases "n = Suc m") (auto simp: last_used_Suc)
qed simp

lemma all_from:
  "p < (n :: nat) \<Longrightarrow> (\<forall>q. p \<le> q \<longrightarrow> q < n \<longrightarrow> F q) \<longleftrightarrow> F p \<and> (\<forall>q. Suc p \<le> q \<longrightarrow> q < n \<longrightarrow> F q)"
  by (auto simp: Suc_le_eq) (metis le_neq_implies_less)

text \<open>The scan of a row from bank \<open>b0\<close> on.\<close>

lemma row_scan_run:
  assumes view: "spare_view P C d b D view" and row: "m < PAGE_CNT_OF_PHY_BLK C"
    and I: "PAGE_CNT_OF_SUPER_BLK C = PAGE_CNT_OF_PHY_BLK C * INTERLEAVE_BANK_CNT C"
  shows "b0 + n = INTERLEAVE_BANK_CNT C \<Longrightarrow> length sp = 8 \<Longrightarrow> D s \<Longrightarrow>
    \<exists>sp' s'. row_scan P C d b m n b0 st u sp s
      = Some (if \<forall>p. m * INTERLEAVE_BANK_CNT C + b0 \<le> p \<longrightarrow> p < Suc m * INTERLEAVE_BANK_CNT C \<longrightarrow> free_page (view p)
              then (st, u, sp', s')
              else (st AND DATA_PAGE_MARK, last_used view (Suc m * INTERLEAVE_BANK_CNT C), sp', s'))
        \<and> length sp' = 8 \<and> D s'"
proof (induction n arbitrary: b0 st u sp s)
  case 0
  then show ?case by (auto simp: add.commute)
next
  case (Suc n)
  let ?I = "INTERLEAVE_BANK_CNT C"
  let ?p = "m * ?I + b0"
  let ?rest = "\<forall>q. m * ?I + Suc b0 \<le> q \<longrightarrow> q < Suc m * ?I \<longrightarrow> free_page (view q)"
  have p2: "?p < Suc m * ?I" using Suc.prems(1) by simp
  also have "\<dots> \<le> PAGE_CNT_OF_SUPER_BLK C" using row unfolding I by (intro mult_le_mono1) simp
  finally have p: "?p < PAGE_CNT_OF_SUPER_BLK C" .
  from spare_viewD [OF view p Suc.prems(2,3)] obtain s' where
    rd: "fmt_read_ud P C d b ?p sp s = Some (enc_ud (view ?p), s')" "D s'" by blast
  have all: "(\<forall>q. ?p \<le> q \<longrightarrow> q < Suc m * ?I \<longrightarrow> free_page (view q)) \<longleftrightarrow> free_page (view ?p) \<and> ?rest"
    using all_from [OF p2, of "\<lambda>q. free_page (view q)"] by (simp only: add_Suc_right)
  have lu: "last_used view (Suc m * ?I) = ?p" if "\<not> free_page (view ?p)" ?rest
  proof -
    have "last_used view (Suc m * ?I) = last_used view (Suc ?p)"
    proof (rule last_used_skip)
      show "Suc ?p \<le> Suc m * ?I" using p2 by (rule Suc_leI)
      show "free_page (view q)" if "Suc ?p \<le> q" "q < Suc m * ?I" for q
        using \<open>?rest\<close> that by (simp only: add_Suc_right)
    qed
    with that(1) show ?thesis by (simp add: last_used_Suc)
  qed
  have len: "b0 + Suc n = ?I" "length (enc_ud (view ?p)) = 8" using Suc.prems by auto
  show ?case
  proof (cases "free_page (view ?p)")
    case True
    with Suc.IH [OF _ len(2) rd(2), of "Suc b0" st u] len(1) rd(1) show ?thesis unfolding all by simp
  next
    case False
    have "Suc b0 + n = ?I" using len(1) by simp
    from Suc.IH [OF this len(2) rd(2), of "st AND DATA_PAGE_MARK" ?p] obtain sp' s'' where
      "row_scan P C d b m n (Suc b0) (st AND DATA_PAGE_MARK) ?p (enc_ud (view ?p)) s'
        = Some (if ?rest then (st AND DATA_PAGE_MARK, ?p, sp', s'')
            else ((st AND DATA_PAGE_MARK) AND DATA_PAGE_MARK, last_used view (Suc m * ?I), sp', s''))"
      "length sp' = 8" "D s''" by blast
    with False rd(1) lu show ?thesis
      unfolding all row_scan.simps Let_def by (cases ?rest) (simp_all add: and.assoc)
  qed
qed

text \<open>With bank alignment, when the rows of a block that hold a used page are its first \<open>k\<close> ones,
  \<open>_GetLastUsedPage\<close> returns the last used page of the block, although pages before it may be free.\<close>

theorem GetLastUsedPage_aligned:
  assumes view: "spare_view P C d b D view" and D: "D s" and al: "SUPPORT_ALIGN_NAND_BNK C"
    and I: "PAGE_CNT_OF_SUPER_BLK C = PAGE_CNT_OF_PHY_BLK C * INTERLEAVE_BANK_CNT C"
    and k: "k \<le> PAGE_CNT_OF_PHY_BLK C"
    and rows: "\<And>m. m < PAGE_CNT_OF_PHY_BLK C \<Longrightarrow>
      (\<forall>p. m * INTERLEAVE_BANK_CNT C \<le> p \<longrightarrow> p < Suc m * INTERLEAVE_BANK_CNT C \<longrightarrow> free_page (view p)) \<longleftrightarrow> k \<le> m"
  shows "\<exists>s'. GetLastUsedPage P C d b s = Some (last_used view (PAGE_CNT_OF_SUPER_BLK C), s') \<and> D s'"
proof -
  let ?N = "PAGE_CNT_OF_PHY_BLK C" and ?B = "INTERLEAVE_BANK_CNT C"
  let ?I = "\<lambda>lo hi (u, sp, s). hi \<le> ?N \<and> u = last_used view (lo * ?B) \<and> lo \<le> k \<and> length sp = 8 \<and> D s"
  have free: "free_page (view p)" if m: "k * ?B \<le> p" "p < m * ?B" "m \<le> ?N" for p m
  proof -
    have "0 < ?B" using m(2) by (cases "?B = 0") auto
    define r where "r = p div ?B"
    have r: "k \<le> r" "r < ?N" "r * ?B \<le> p" "p < Suc r * ?B"
    proof -
      show "k \<le> r" using m(1) \<open>0 < ?B\<close> by (simp add: r_def less_eq_div_iff_mult_less_eq)
      have "p < ?N * ?B" using m(2,3) by (meson less_le_trans mult_le_mono1)
      then show "r < ?N" unfolding r_def by (rule less_mult_imp_div_less)
      show "r * ?B \<le> p" by (simp add: r_def)
      show "p < Suc r * ?B" using dividend_less_div_times [OF \<open>0 < ?B\<close>, of p] by (simp add: r_def)
    qed
    with rows [OF r(2)] show ?thesis by blast
  qed
  have "\<exists>a'. bisect (row_probe P C d b) (int 0) (int ?N - 1) (0, take 8 (junk_spare C), s)
      = Some (int k, int k - 1, a') \<and> ?I k k a'"
  proof (rule bisect_prefix [where I = ?I])
    fix m lo hi and a :: "nat \<times> u8 list \<times> 'a drv"
    assume m: "lo \<le> m" "m < hi" and J: "?I lo hi a"
    obtain u sp s0 where a: "a = (u, sp, s0)" by (metis prod_cases3)
    from J m have I': "m < ?N" "u = last_used view (lo * ?B)" "length sp = 8" "D s0" "lo \<le> k" "hi \<le> ?N"
      by (auto simp: a)
    from row_scan_run [OF view I'(1) I, of 0 ?B sp s0 "FREE_PAGE_MARK" u] I'(3,4) rows [OF I'(1)]
    obtain sp' s' where rs: "row_scan P C d b m ?B 0 FREE_PAGE_MARK u sp s0
        = Some (if k \<le> m then (FREE_PAGE_MARK, u, sp', s')
                else (FREE_PAGE_MARK AND DATA_PAGE_MARK, last_used view (Suc m * ?B), sp', s'))"
      "length sp' = 8" "D s'" by auto
    then show "\<exists>a'. row_probe P C d b m a = Some (k \<le> m, a')
        \<and> ?I (if k \<le> m then lo else Suc m) (if k \<le> m then m else hi) a'"
      using I' m by (auto simp: row_probe_def a)
  qed (use D k in \<open>simp_all add: last_used_def\<close>)
  then obtain sp s' where r: "bisect (row_probe P C d b) 0 (int ?N - 1) (0, take 8 (junk_spare C), s)
      = Some (int k, int k - 1, last_used view (k * ?B), sp, s')" "D s'" by auto
  have "last_used view (?N * ?B) = last_used view (k * ?B)"
    by (rule last_used_skip) (use free k in auto)
  with r al show ?thesis by (simp add: GetLastUsedPage_def I)
qed

text \<open>Without bank alignment, when the used pages of a block are its first \<open>k\<close> ones, \<open>_GetLastUsedPage\<close>
  returns the page the search probed last: page \<open>k - 1\<close>, the last used one, or page \<open>k\<close>, the first free one.\<close>

theorem GetLastUsedPage_unaligned:
  assumes view: "spare_view P C d b D view" and D: "D s" and al: "\<not> SUPPORT_ALIGN_NAND_BNK C"
    and k: "k \<le> PAGE_CNT_OF_SUPER_BLK C" "0 < PAGE_CNT_OF_SUPER_BLK C"
    and used: "\<And>p. p < PAGE_CNT_OF_SUPER_BLK C \<Longrightarrow> free_page (view p) \<longleftrightarrow> k \<le> p"
  shows "\<exists>u s'. GetLastUsedPage P C d b s = Some (u, s') \<and> D s' \<and> (u = k \<or> u + 1 = k)"
proof -
  let ?N = "PAGE_CNT_OF_SUPER_BLK C"
  let ?I = "\<lambda>lo hi (u, sp, s). hi \<le> ?N \<and> length sp = 8 \<and> D s \<and> (u = hi \<or> u + 1 = lo \<or> lo = 0 \<and> hi = ?N)"
  have "\<exists>a'. bisect (page_probe P C d b) (int 0) (int ?N - 1) (0, take 8 (junk_spare C), s)
      = Some (int k, int k - 1, a') \<and> ?I k k a'"
  proof (rule bisect_prefix [where I = ?I])
    fix m lo hi and a :: "nat \<times> u8 list \<times> 'a drv"
    assume m: "lo \<le> m" "m < hi" and J: "?I lo hi a"
    obtain u sp s0 where a: "a = (u, sp, s0)" by (metis prod_cases3)
    from J m have I': "m < ?N" "length sp = 8" "D s0" "hi \<le> ?N" by (auto simp: a)
    from spare_viewD [OF view I'(1-3)] obtain s' where
      "fmt_read_ud P C d b m sp s0 = Some (enc_ud (view m), s')" "D s'" by blast
    with used [OF I'(1)] m I' show "\<exists>a'. page_probe P C d b m a = Some (k \<le> m, a')
        \<and> ?I (if k \<le> m then lo else Suc m) (if k \<le> m then m else hi) a'"
      by (simp add: page_probe_def a)
  qed (use D k in simp_all)
  then obtain u sp s' where "bisect (page_probe P C d b) 0 (int ?N - 1) (0, take 8 (junk_spare C), s)
      = Some (int k, int k - 1, u, sp, s')" "D s'" "u = k \<or> u + 1 = k"
    using k(2) by auto
  with al show ?thesis by (simp add: GetLastUsedPage_def)
qed

text \<open>The checksum of the format module is that of the mapping layer.\<close>

lemma CalCheckSum_GetTblCheckSum:
  "i + n \<le> length ws \<Longrightarrow> cal_sum ws n i acc = Some (foldl (+) acc (take n (drop i ws)))"
proof (induction n arbitrary: i acc)
  case (Suc n)
  then have "take (Suc n) (drop i ws) = ws ! i # take n (drop (Suc i) ws)"
    by (simp add: Cons_nth_drop_Suc [symmetric] del: drop_Suc_Cons)
  with Suc show ?case by simp
qed simp

text \<open>Witnesses: a flash of which every page of every block has the spare data \<open>view\<close> of its page number,
  on the sample device with and without bank alignment.\<close>

definition view_phy :: "(nat \<Rightarrow> user_data) \<Rightarrow> 'd phy_ops" where
  "view_phy view = quiet_phy\<lparr>PHY_PageReadSpare := (\<lambda>op m sp d. (0, m,
     Some (enc_ud (view (unat (op_PageNum op) * 2 + unat (op_BankNum op))) @ replicate 8 0xff), d))\<rparr>"

definition unaligned_cfg :: cfg where
  "unaligned_cfg = sample_cfg\<lparr>storage := sample_storage\<lparr>OperationOpt := 1088\<rparr>\<rparr>"

lemma unaligned_cfg_simps [simp]:
  "\<not> SUPPORT_ALIGN_NAND_BNK unaligned_cfg" "SUPPORT_EXT_INTERLEAVE unaligned_cfg"
  "\<not> SUPPORT_INT_INTERLEAVE unaligned_cfg" "SECTOR_CNT_OF_SINGLE_PAGE unaligned_cfg = 2"
  "PAGE_CNT_OF_LOGIC_BLK unaligned_cfg = 8" "INTERLEAVE_BANK_CNT unaligned_cfg = 2"
  "ZONE_CNT_OF_DIE unaligned_cfg = 1" "DIE_CNT_OF_CHIP unaligned_cfg = 1"
  by (simp_all add: unaligned_cfg_def sample_cfg_def sample_storage_def SUPPORT_ALIGN_NAND_BNK_def
      SUPPORT_EXT_INTERLEAVE_def SUPPORT_INT_INTERLEAVE_def SECTOR_CNT_OF_SINGLE_PAGE_def
      PAGE_CNT_OF_LOGIC_BLK_def INTERLEAVE_BANK_CNT_def PAGE_CNT_OF_PHY_BLK_def ZONE_CNT_OF_DIE_def
      DIE_CNT_OF_CHIP_def push_bit_of_1)

lemma sample_slots3:
  assumes "SECTOR_CNT_OF_SINGLE_PAGE C = 2" shows "spare_slots C 3 = [(0, 0), (4, 4)]"
  using assms by (simp add: spare_slots_def push_bit_of_1)

lemma sample_op_page:
  assumes "C = sample_cfg \<or> C = unaligned_cfg" and "p < 8"
  shows "unat (op_PageNum (fmt_op C bm 0 b p)) * 2 + unat (op_BankNum (fmt_op C bm 0 b p)) = p"
proof -
  have "p div 2 < 256" "p mod 2 < 256" using assms(2) by linarith+
  then have "unat (of_nat (p div 2) :: u8) = p div 2" "unat (of_nat (p mod 2) :: u8) = p mod 2"
    by (simp_all add: unat_of_nat)
  then show ?thesis
    using assms(1) by (auto simp: fmt_op_def fmt_CalculatePhyOpPar_def Let_def)
qed

lemma list8: "length xs = 8 \<Longrightarrow> \<exists>a b c d e f g h. xs = [a, b, c, d, e, f, g, h]"
  by (auto simp: numeral_eq_Suc length_Suc_conv)

lemma copy4_two:
  assumes "length sp = 8" shows "copy4 [(0, 0), (4, 4)] (enc_ud u @ r) sp = Some (enc_ud u)"
  using list8 [OF assms] list8 [OF length_enc_ud [of u]]
  by (elim exE) (simp only:, simp add: mem_get_def mem_put_def)

lemma view_phy_spare_view:
  assumes "C = sample_cfg \<or> C = unaligned_cfg"
  shows "spare_view (view_phy view) C 0 b (\<lambda>_. True) view"
proof -
  have S: "SECTOR_CNT_OF_SINGLE_PAGE C = 2" "PAGE_CNT_OF_SUPER_BLK C = 8" using assms by auto
  show ?thesis
    unfolding spare_view_def S
    using sample_op_page [OF assms]
    by (auto simp: fmt_read_ud_def fmt_VirtualPageRead_def view_phy_def sample_slots3 [OF S(1)] copy4_two simp del: copy4.simps)
qed

definition group_view :: "nat \<Rightarrow> user_data" where
  "group_view p = (if p < 4 then blank_ud\<lparr>ud_PageStatus := 0x55\<rparr> else blank_ud)"

lemma SearchBlkTblPst_last_group_witness:
  "\<exists>s'. SearchBlkTblPst (view_phy group_view) sample_cfg 0 5 (sample_drv ()) = Some (0, s')"
proof -
  have "g < 2 \<Longrightarrow> ud_PageStatus (group_view (g * PAGE_CNT_OF_TBL_GROUP)) = 0xff \<longleftrightarrow> 1 \<le> g" for g :: nat
    by (cases g) (simp_all add: group_view_def PAGE_CNT_OF_TBL_GROUP_def blank_ud_def)
  then show ?thesis
    using SearchBlkTblPst_last_group [OF view_phy_spare_view, where C = sample_cfg and s = "sample_drv ()" and k = 1 and view = group_view and b = 5]
    by (simp add: PAGE_CNT_OF_TBL_GROUP_def)
qed

definition row_view :: "nat \<Rightarrow> user_data" where
  "row_view p = (if p = 0 \<or> p = 3 then blank_ud\<lparr>ud_LogicPageNum := 7\<rparr> else blank_ud)"

lemma row_view_free [simp]: "free_page (row_view p) \<longleftrightarrow> p \<noteq> 0 \<and> p \<noteq> 3"
  by (simp add: row_view_def free_page_def blank_ud_def)

lemma GetLastUsedPage_aligned_witness:
  "\<exists>s'. GetLastUsedPage (view_phy row_view) sample_cfg 0 5 (sample_drv ()) = Some (3, s')"
proof -
  have rows: "(\<forall>p. m * 2 \<le> p \<longrightarrow> p < Suc m * 2 \<longrightarrow> free_page (row_view p)) \<longleftrightarrow> 2 \<le> m" if "m < 4" for m :: nat
  proof -
    consider "m = 0" | "m = 1" | "2 \<le> m" by linarith
    then show ?thesis by cases (auto intro: exI [of _ 0] exI [of _ 3])
  qed
  have "last_used row_view 8 = 3"
    using last_used_skip [of 4 8 row_view] last_used_Suc [of row_view 3] by simp
  then show ?thesis
    using GetLastUsedPage_aligned [OF view_phy_spare_view, where C = sample_cfg and s = "sample_drv ()" and k = 2 and view = row_view and b = 5] rows
    by simp
qed

definition page_view :: "nat \<Rightarrow> user_data" where
  "page_view p = (if p < 4 then blank_ud\<lparr>ud_LogicPageNum := 7\<rparr> else blank_ud)"

lemma GetLastUsedPage_unaligned_witness:
  "\<exists>u s'. GetLastUsedPage (view_phy page_view) unaligned_cfg 0 5 (sample_drv ()) = Some (u, s')
     \<and> (u = 4 \<or> u + 1 = 4)"
proof -
  have "free_page (page_view p) \<longleftrightarrow> 4 \<le> p" for p :: nat
    by (simp add: page_view_def free_page_def blank_ud_def)
  then show ?thesis
    using GetLastUsedPage_unaligned [OF view_phy_spare_view, where C = unaligned_cfg and s = "sample_drv ()" and k = 4 and view = page_view and b = 5]
    by simp
qed

section \<open>The page operations return\<close>

definition fmt_ok :: "cfg \<Rightarrow> 'd drv \<Rightarrow> bool" where
  "fmt_ok C s \<longleftrightarrow> spare_ok C s \<and> 2 \<le> SECTOR_CNT_OF_SINGLE_PAGE C"

lemma fmt_ok_cong: "dr_spare_buf s' = dr_spare_buf s \<Longrightarrow> fmt_ok C s' = fmt_ok C s"
  by (simp add: fmt_ok_def spare_ok_def)

lemma fmt_ok_dev [simp]:
  "fmt_ok C (s\<lparr>dr_dev := d\<rparr>) = fmt_ok C s" "fmt_ok C (s\<lparr>dr_temp_buf := m\<rparr>) = fmt_ok C s"
  by (simp_all add: fmt_ok_def spare_ok_def)

lemma bit_three: "bit (3 :: u32) i \<Longrightarrow> i < 2"
  by (simp add: bit_numeral_rec bit_1_iff split: nat.splits)

lemma spare_slots_low:
  assumes "(a, b) \<in> set (spare_slots C bm)" and "2 \<le> SECTOR_CNT_OF_SINGLE_PAGE C"
    and "\<And>i. bit bm i \<Longrightarrow> i < 2"
  shows "a + 4 \<le> 8 \<and> b + 4 \<le> 8"
proof -
  have "\<not> bit bm (i + SECTOR_CNT_OF_SINGLE_PAGE C)" for i
    using assms(3) [of "i + SECTOR_CNT_OF_SINGLE_PAGE C"] assms(2) by auto
  then have "spare_slots C bm = map (\<lambda>i. (4 * i, 4 * i)) (filter (bit bm) [0, 1])"
    unfolding spare_slots_def bit_iff_and_push_bit_not_eq_0 [symmetric] by simp
  with assms(1) show ?thesis by (auto split: if_splits)
qed

lemma spare_slots_three:
  "(a, b) \<in> set (spare_slots C 3) \<Longrightarrow> 2 \<le> SECTOR_CNT_OF_SINGLE_PAGE C \<Longrightarrow> a + 4 \<le> 8 \<and> b + 4 \<le> 8"
  by (rule spare_slots_low [OF _ _ bit_three])

lemma read_spare_sizes:
  assumes "keeps_sizes P" and "PHY_PageReadSpare P op m sb d = (r, m', sb', d')"
  shows "length m' = length m \<and> map_option length sb' = map_option length sb"
proof -
  from assms(1) have "case PHY_PageReadSpare P op m sb d of (r, m', sb', d') \<Rightarrow>
      length m' = length m \<and> map_option length sb' = map_option length sb"
    unfolding keeps_sizes_def Let_def by - (drule conjunct2, drule conjunct2, (drule spec)+, assumption)
  with assms(2) show ?thesis by simp
qed

lemma fmt_read_total:
  assumes P: "keeps_sizes P" and s: "fmt_ok C s"
    and slots: "\<And>a b. (a, b) \<in> set (spare_slots C bm) \<Longrightarrow>
       a + 4 \<le> 4 * SECTOR_CNT_OF_SUPER_PAGE C \<and> b + 4 \<le> length sp"
  shows "total (fmt_VirtualPageRead P C die blk pg bm (Some sp) s)
           (\<lambda>(r, sp', s'). fmt_ok C s' \<and> length sp' = length sp
              \<and> length (dr_temp_buf s') = length (dr_temp_buf s))"
proof -
  obtain r m' sb d where read: "PHY_PageReadSpare P (fmt_op C bm die blk pg) (dr_temp_buf s)
      (Some (dr_spare_buf s)) (dr_dev s) = (r, m', sb, d)"
    by (metis prod_cases4)
  with read_spare_sizes [OF P read] s obtain b where
    b: "sb = Some b" "length b = 4 * SECTOR_CNT_OF_SUPER_PAGE C" "length m' = length (dr_temp_buf s)"
    by (auto simp: fmt_ok_def spare_ok_def)
  obtain sp' where c: "copy4 (spare_slots C bm) b sp = Some sp'" "length sp' = length sp"
    using copy4_in [of "spare_slots C bm" b sp] slots b(2) by fastforce
  with read b s show ?thesis
    by (simp add: fmt_VirtualPageRead_def fmt_ok_def spare_ok_def total_iff)
qed

lemma fmt_read_ud_total:
  assumes "keeps_sizes P" and "fmt_ok C s" and "length sp = 8"
  shows "total (fmt_read_ud P C die blk pg sp s)
           (\<lambda>(sp', s'). fmt_ok C s' \<and> length sp' = 8 \<and> length (dr_temp_buf s') = length (dr_temp_buf s))"
proof -
  have "total (fmt_VirtualPageRead P C die blk pg 3 (Some sp) s)
      (\<lambda>(r, sp', s'). fmt_ok C s' \<and> length sp' = length sp \<and> length (dr_temp_buf s') = length (dr_temp_buf s))"
    using assms spare_slots_three [of _ _ C]
    by (intro fmt_read_total) (fastforce simp: fmt_ok_def spare_ok_def)+
  then show ?thesis using assms(3) by (auto simp: fmt_read_ud_def total_iff)
qed

lemma fmt_write_total:
  assumes "fmt_ok C s" and "length sp = 16"
  shows "total (fmt_VirtualPageWrite P C die blk pg (FULL_BITMAP_OF_SUPER_PAGE C) (Some sp) s)
           (\<lambda>(r, s'). fmt_ok C s' \<and> dr_temp_buf s' = dr_temp_buf s)"
proof -
  let ?ff = "replicate (SECTOR_CNT_OF_SUPER_PAGE C * 4) (0xff :: u8)"
  have c: "mem_put (dr_spare_buf s) 0 ?ff = Some ?ff"
    using assms(1) by (simp add: fmt_ok_def spare_ok_def mem_put_def)
  obtain f where f: "copy4 (map swap_pair (spare_slots C (FULL_BITMAP_OF_SUPER_PAGE C))) sp ?ff = Some f"
    "length f = length ?ff"
    using copy4_in [of "map swap_pair (spare_slots C (FULL_BITMAP_OF_SUPER_PAGE C))" sp ?ff]
      spare_slots_fit [of _ _ C] assms by (fastforce simp: swap_pair_def fmt_ok_def spare_ok_def)
  from f c show ?thesis
    using assms(1)
    by (auto simp: fmt_VirtualPageWrite_def fmt_ok_def spare_ok_def case_prod_beta SynchBank_def Let_def)
qed

lemma length_bad_flag_spare [simp]: "length (bad_flag_spare C) = 16"
  by (simp add: bad_flag_spare_def Let_def)

lemma bad_flag_loop_total:
  "fmt_ok C s \<Longrightarrow> total (bad_flag_loop P C die blk n i s)
     (\<lambda>s'. fmt_ok C s' \<and> dr_temp_buf s' = dr_temp_buf s)"
proof (induction n arbitrary: i s)
  case (Suc n)
  obtain r1 s1 where 1: "fmt_VirtualPageWrite P C die blk i (FULL_BITMAP_OF_SUPER_PAGE C)
      (Some (bad_flag_spare C)) s = Some (r1, s1)" "fmt_ok C s1" "dr_temp_buf s1 = dr_temp_buf s"
    using fmt_write_total [OF Suc.prems, of "bad_flag_spare C"] by (force simp: total_iff)
  obtain r2 s2 where 2: "fmt_VirtualPageWrite P C die blk
      (PAGE_CNT_OF_SUPER_BLK C - INTERLEAVE_BANK_CNT C + i) (FULL_BITMAP_OF_SUPER_PAGE C)
      (Some (bad_flag_spare C)) s1 = Some (r2, s2)" "fmt_ok C s2" "dr_temp_buf s2 = dr_temp_buf s1"
    using fmt_write_total [OF 1(2), of "bad_flag_spare C"] by (force simp: total_iff)
  from Suc.IH [OF 2(2)] 1 2 show ?case by simp
qed simp

lemma WriteBadBlkFlag_total:
  "fmt_ok C s \<Longrightarrow> total (WriteBadBlkFlag P C die blk s) (\<lambda>s'. fmt_ok C s' \<and> dr_temp_buf s' = dr_temp_buf s)"
  by (simp add: WriteBadBlkFlag_def bad_flag_loop_total)

lemma fmt_erase_banks_ok [simp]:
  "fmt_ok C (fmt_erase_banks P C die blk n i s) = fmt_ok C s"
  "dr_temp_buf (fmt_erase_banks P C die blk n i s) = dr_temp_buf s"
  by (induction n arbitrary: i s) simp_all

lemma fmt_synch_banks_ok:
  "fmt_synch_banks P n i s = (r, s') \<Longrightarrow> fmt_ok C s' = fmt_ok C s \<and> dr_temp_buf s' = dr_temp_buf s"
  by (induction n arbitrary: i s) (auto simp: SynchBank_def Let_def split: prod.splits if_splits)

lemma fmt_VirtualBlockErase_ok:
  "fmt_VirtualBlockErase P C die blk s = (r, s') \<Longrightarrow> fmt_ok C s' = fmt_ok C s \<and> dr_temp_buf s' = dr_temp_buf s"
  unfolding fmt_VirtualBlockErase_def by (drule fmt_synch_banks_ok [where C = C]) simp

lemma GetLogAge_total:
  "keeps_sizes P \<Longrightarrow> fmt_ok C s \<Longrightarrow> total (GetLogAge P C die blk s) (\<lambda>(a, s'). fmt_ok C s')"
  using fmt_read_ud_total [of P C s "take 8 (junk_spare C)" die blk 0]
  by (auto simp: GetLogAge_def total_iff)

lemma bisect_total:
  assumes "\<And>m a. I a \<Longrightarrow> total (probe m a) (\<lambda>(f, a'). I a')"
  shows "I a \<Longrightarrow> total (bisect probe lo hi a) (\<lambda>(lo', hi', a'). I a')"
proof (induction "nat (hi - lo + 1)" arbitrary: lo hi a rule: less_induct)
  case less
  show ?case
  proof (cases "lo \<le> hi")
    case True
    obtain f a' where p: "probe (nat ((lo + hi) div 2)) a = Some (f, a')" "I a'"
      using assms [OF less.prems] by (force simp: total_iff)
    note IH = less.hyps [OF mid_shrinks(1) [OF True] p(2)] less.hyps [OF mid_shrinks(2) [OF True] p(2)]
    show ?thesis
      by (subst bisect.simps) (use IH p True in \<open>simp add: Let_def\<close>)
  next
    case False
    then show ?thesis using less.prems by (subst bisect.simps) simp
  qed
qed

lemma row_scan_total:
  assumes "keeps_sizes P"
  shows "fmt_ok C s \<Longrightarrow> length sp = 8 \<Longrightarrow> total (row_scan P C die blk mid n bank st used sp s)
     (\<lambda>(st', used', sp', s'). length sp' = 8 \<and> fmt_ok C s')"
proof (induction n arbitrary: bank st used sp s)
  case (Suc n)
  obtain sp1 s1 where 1: "fmt_read_ud P C die blk (mid * INTERLEAVE_BANK_CNT C + bank) sp s = Some (sp1, s1)"
    "fmt_ok C s1" "length sp1 = 8"
    using fmt_read_ud_total [OF assms Suc.prems, of die blk "mid * INTERLEAVE_BANK_CNT C + bank"]
    by (force simp: total_iff)
  from Suc.IH [OF 1(2,3)] 1 show ?case by (simp add: Let_def)
qed simp

lemma GetLastUsedPage_total:
  assumes P: "keeps_sizes P" and s: "fmt_ok C s"
  shows "total (GetLastUsedPage P C die blk s) (\<lambda>(p, s'). fmt_ok C s')"
proof -
  let ?I = "\<lambda>a :: nat \<times> u8 list \<times> 'a drv. length (fst (snd a)) = 8 \<and> fmt_ok C (snd (snd a))"
  have row: "total (row_probe P C die blk m a) (\<lambda>(f, a'). ?I a')" if "?I a" for m a
    using row_scan_total [OF P, of C "snd (snd a)" "fst (snd a)" die blk m "INTERLEAVE_BANK_CNT C" 0 "0xff" "fst a"] that
    by (auto simp: row_probe_def total_iff)
  have page: "total (page_probe P C die blk m a) (\<lambda>(f, a'). ?I a')" if "?I a" for m a
    using fmt_read_ud_total [OF P, of C "snd (snd a)" "fst (snd a)" die blk m] that
    by (auto simp: page_probe_def total_iff)
  have I: "?I (0, take 8 (junk_spare C), s)" using s by simp
  have "total (bisect (row_probe P C die blk) lo hi (0, take 8 (junk_spare C), s)) (\<lambda>(lo', hi', a'). ?I a')" for lo hi
    by (rule bisect_total [where I = ?I, OF row I])
  moreover
  have "total (bisect (page_probe P C die blk) lo hi (0, take 8 (junk_spare C), s)) (\<lambda>(lo', hi', a'). ?I a')" for lo hi
    by (rule bisect_total [where I = ?I, OF page I])
  ultimately show ?thesis
    unfolding GetLastUsedPage_def by (fastforce simp: total_bind elim: total_mono)
qed

end
