(* ===== verification/Format_Tables.thy ===== *)
theory Format_Tables
  imports Format_Page
begin

text \<open>
  The scan of a die (\<open>format/nand_format.c\<close>): the logical information of its blocks, and the filling of the
  zone tables with them (\<open>_FillBlkToZoneTbl\<close>, \<open>_FillZoneTblInfo\<close>). A zone of a die is the record
  \<open>zone_info\<close>, the die the record \<open>die_info\<close>; both are passed beside the driver state.
\<close>

section \<open>Scan information\<close>

record zone_info =
  zi_nDataBlkCnt :: u16
  zi_nFreeBlkCnt :: u16
  zi_nFreeBlkIndex :: u16
  zi_ZoneTbl :: "super_phy_blk list"
  zi_LogBlkTbl :: "log_blk list"

record die_info =
  di_nDie :: u8
  di_TblBitmap :: u8
  di_nBadCnt :: u16
  di_nFreeCnt :: u16
  di_nFreeIndex :: u16
  di_pPhyBlk :: "u16 list"
  di_ZoneInfo :: "zone_info list"

definition TBL_AREA_BLK_NUM :: nat where "TBL_AREA_BLK_NUM = 32"

abbreviation (input) NULL_BLOCK_INFO :: u16 where "NULL_BLOCK_INFO \<equiv> 0xfffd"
abbreviation (input) BAD_BLOCK_INFO :: u16 where "BAD_BLOCK_INFO \<equiv> 0xfffe"
abbreviation (input) FREE_BLOCK_INFO :: u16 where "FREE_BLOCK_INFO \<equiv> 0xffff"
abbreviation (input) ALLOC_BLK_MARK :: u16 where "ALLOC_BLK_MARK \<equiv> 0x40ff"
abbreviation (input) TABLE_BLK_MARK :: nat where "TABLE_BLK_MARK \<equiv> 0xaa"
abbreviation (input) BOOT_BLK_MARK :: nat where "BOOT_BLK_MARK \<equiv> 0xbb"

definition COMPARE_AGE :: "u8 \<Rightarrow> u8 \<Rightarrow> int" where
  "COMPARE_AGE a b = sint (a - b)"

definition GET_LOGIC_INFO_ZONE :: "u16 \<Rightarrow> nat" where
  "GET_LOGIC_INFO_ZONE a = unat (drop_bit 10 a AND 0xf)"

definition GET_LOGIC_INFO_TYPE :: "u16 \<Rightarrow> nat" where
  "GET_LOGIC_INFO_TYPE a = unat (drop_bit 14 a AND 1)"

definition GET_LOGIC_INFO_BLK :: "u16 \<Rightarrow> nat" where
  "GET_LOGIC_INFO_BLK a = unat (a AND 0x3ff)"

definition tbl_valid :: "die_info \<Rightarrow> nat \<Rightarrow> bool" where
  "tbl_valid D z \<longleftrightarrow> bit (di_TblBitmap D) z"

definition first_blk :: "fmt_par \<Rightarrow> die_info \<Rightarrow> nat" where
  "first_blk F D = (if di_nDie D = 0 then unat (DIE0_FIRST_BLK_NUM F) else 0)"

definition set_info :: "nat \<Rightarrow> u16 \<Rightarrow> die_info \<Rightarrow> die_info option" where
  "set_info b v D = do { p \<leftarrow> arr_set (di_pPhyBlk D) b v; Some (D\<lparr>di_pPhyBlk := p\<rparr>) }"

definition upd_zone :: "nat \<Rightarrow> (zone_info \<Rightarrow> zone_info) \<Rightarrow> die_info \<Rightarrow> die_info option" where
  "upd_zone z f D = do {
     x \<leftarrow> arr_get (di_ZoneInfo D) z;
     t \<leftarrow> arr_set (di_ZoneInfo D) z (f x);
     Some (D\<lparr>di_ZoneInfo := t\<rparr>)
   }"

definition zone_item :: "nat \<Rightarrow> nat \<Rightarrow> die_info \<Rightarrow> super_phy_blk option" where
  "zone_item z i D = do { x \<leftarrow> arr_get (di_ZoneInfo D) z; arr_get (zi_ZoneTbl x) i }"

definition set_zone_blk :: "nat \<Rightarrow> nat \<Rightarrow> u16 \<Rightarrow> die_info \<Rightarrow> die_info option" where
  "set_zone_blk z i b D = do {
     x \<leftarrow> zone_item z i D;
     upd_zone z (\<lambda>zi. zi\<lparr>zi_ZoneTbl := (zi_ZoneTbl zi)[i := x\<lparr>PhyBlkNum := b\<rparr>]\<rparr>) D
   }"

section \<open>Free blocks of a die\<close>

definition GetFreeBlkFromDieInfo :: "fmt_par \<Rightarrow> die_info \<Rightarrow> (nat option \<times> die_info) option" where
  "GetFreeBlkFromDieInfo F D = do {
     let start = unat (di_nFreeIndex D);
     r \<leftarrow> scan (\<lambda>x. x = FREE_BLOCK_INFO) (di_pPhyBlk D) 0 (unat (SuperBlkCntOfDie F) - start) start;
     case r of
       None \<Rightarrow> Some (None, D)
     | Some i \<Rightarrow> do {
         D' \<leftarrow> set_info i NULL_BLOCK_INFO D;
         Some (Some i, D'\<lparr>di_nFreeIndex := of_nat i, di_nFreeCnt := di_nFreeCnt D - 1\<rparr>)
       }
   }"

text \<open>The zone of the fewest blocks among those whose table is not valid: \<open>n\<close> zones to go from \<open>tmpZone\<close>.\<close>

fun least_zone :: "cfg \<Rightarrow> die_info \<Rightarrow> nat \<Rightarrow> nat \<Rightarrow> nat \<Rightarrow> nat \<Rightarrow> nat option" where
  "least_zone C D 0 tmpZone tmpLeastBlkCnt tmpLeastCntBlkZone = Some tmpLeastCntBlkZone"
| "least_zone C D (Suc n) tmpZone tmpLeastBlkCnt tmpLeastCntBlkZone =
    (if tbl_valid D tmpZone then least_zone C D n (Suc tmpZone) tmpLeastBlkCnt tmpLeastCntBlkZone
     else do {
       z \<leftarrow> arr_get (di_ZoneInfo D) tmpZone;
       logs \<leftarrow> mem_get (zi_LogBlkTbl z) 0 MAX_LOG_BLK_CNT;
       let tmpBlkCnt = DATA_BLK_CNT_OF_ZONE C + unat (zi_nFreeBlkCnt z)
             + length (filter (\<lambda>l. LogicBlkNum l \<noteq> 0xffff) logs);
       if tmpBlkCnt < tmpLeastBlkCnt then least_zone C D n (Suc tmpZone) tmpBlkCnt tmpZone
       else least_zone C D n (Suc tmpZone) tmpLeastBlkCnt tmpLeastCntBlkZone
     })"

definition LeastBlkCntZone :: "cfg \<Rightarrow> die_info \<Rightarrow> nat option" where
  "LeastBlkCntZone C D = least_zone C D (ZONE_CNT_OF_DIE C) 0 0xffff 0"

text \<open>An erased block is free again, one that cannot be erased is marked bad.\<close>

definition reclaim_blk ::
  "'d phy_ops \<Rightarrow> cfg \<Rightarrow> nat \<Rightarrow> die_info \<Rightarrow> 'd drv \<Rightarrow> (die_info \<times> 'd drv) option" where
  "reclaim_blk P C blk D s =
    (let (result, s1) = fmt_VirtualBlockErase P C (unat (di_nDie D)) blk s in
     if result < 0
     then do {
       D' \<leftarrow> set_info blk BAD_BLOCK_INFO D;
       s2 \<leftarrow> WriteBadBlkFlag P C (unat (di_nDie D)) blk s1;
       Some (D', s2)
     }
     else do {
       D' \<leftarrow> set_info blk FREE_BLOCK_INFO D;
       Some (D'\<lparr>di_nFreeCnt := di_nFreeCnt D' + 1\<rparr>, s1)
     })"

definition set_zone_log :: "nat \<Rightarrow> nat \<Rightarrow> (log_blk \<Rightarrow> log_blk) \<Rightarrow> die_info \<Rightarrow> die_info option" where
  "set_zone_log z i f D = do {
     x \<leftarrow> arr_get (di_ZoneInfo D) z;
     l \<leftarrow> arr_get (zi_LogBlkTbl x) i;
     upd_zone z (\<lambda>zi. zi\<lparr>zi_LogBlkTbl := (zi_LogBlkTbl zi)[i := f l]\<rparr>) D
   }"

definition MergeDataBlkToFreeBlk ::
  "'d phy_ops \<Rightarrow> cfg \<Rightarrow> nat \<Rightarrow> nat \<Rightarrow> die_info \<Rightarrow> 'd drv \<Rightarrow> (int \<times> die_info \<times> 'd drv) option" where
  "MergeDataBlkToFreeBlk P C nDataBlk nFreeBlk D s =
    (let die = unat (di_nDie D);
         (r1, s1) = fmt_VirtualBlockCopy P C die nDataBlk nFreeBlk (PAGE_CNT_OF_SUPER_BLK C) 0 s in
     if r1 < 0
     then do { s2 \<leftarrow> WriteBadBlkFlag P C die nFreeBlk s1; Some (-1, D, s2) }
     else do {
       info \<leftarrow> arr_get (di_pPhyBlk D) nDataBlk;
       D1 \<leftarrow> set_info nFreeBlk info D;
       info' \<leftarrow> arr_get (di_pPhyBlk D1) nDataBlk;
       D2 \<leftarrow> set_zone_blk (GET_LOGIC_INFO_ZONE info') (GET_LOGIC_INFO_BLK info') (of_nat nFreeBlk) D1;
       let (r2, s2) = fmt_VirtualBlockErase P C die nDataBlk s1;
       if r2 < 0
       then do { s3 \<leftarrow> WriteBadBlkFlag P C die nDataBlk s2; Some (-1, D2, s3) }
       else Some (0, D2, s2)
     })"

section \<open>The logical information of the blocks\<close>

text \<open>The numbers of the pages to read in each physical block: the first page, and those that may hold
  the bad block flag; \<open>-1\<close> for none.\<close>

definition flag_pages :: "cfg \<Rightarrow> int list" where
  "flag_pages C =
    (let pst = BadBlockFlagPosition (OptPhyOpPar (storage C)) AND 3;
         last = sint (of_nat (PAGE_CNT_OF_PHY_BLK C) - 1 :: u16);
         last2 = sint (of_nat (PAGE_CNT_OF_PHY_BLK C) - 2 :: u16)
     in if pst = 0 then [0, -1, -1, -1]
        else if pst = 1 then [0, 1, -1, -1]
        else if pst = 2 then [0, last, -1, -1]
        else [0, last, last2, -1])"

record info_scan =
  is_bad :: bool
  is_info :: u16
  is_spare :: "u8 list"

text \<open>The pages of one bank, the last of the list first.\<close>

fun info_pages ::
  "'d phy_ops \<Rightarrow> cfg \<Rightarrow> nat \<Rightarrow> nat \<Rightarrow> nat \<Rightarrow> int list \<Rightarrow> info_scan \<Rightarrow> 'd drv
   \<Rightarrow> (info_scan \<times> 'd drv) option" where
  "info_pages P C die tmpBlkNum tmpBnkNum [] i s = Some (i, s)"
| "info_pages P C die tmpBlkNum tmpBnkNum (pn # pns) i s =
    (if pn = -1 then info_pages P C die tmpBlkNum tmpBnkNum pns i s
     else do {
       let tmpPage = unat (of_int (pn * int (INTERLEAVE_BANK_CNT C) + int tmpBnkNum) :: u32);
       let spare_bitmap = (if SUPPORT_MULTI_PROGRAM C
             then 3 OR push_bit (SECTOR_CNT_OF_SINGLE_PAGE C) 3 else 3);
       (_, sp, s') \<leftarrow> fmt_VirtualPageRead P C die tmpBlkNum tmpPage spare_bitmap (Some (is_spare i)) s;
       let u = dec_ud2 sp;
       let bad = (ud_BadBlkFlag (fst u) \<noteq> 0xff
             \<or> SUPPORT_MULTI_PROGRAM C \<and> ud_BadBlkFlag (snd u) \<noteq> 0xff);
       info_pages P C die tmpBlkNum tmpBnkNum pns
         \<lparr>is_bad = is_bad i \<or> bad,
          is_info = (if tmpPage = 0 then ud_LogicInfo (fst u) else is_info i), is_spare = sp\<rparr> s'
     })"

fun info_banks ::
  "'d phy_ops \<Rightarrow> cfg \<Rightarrow> nat \<Rightarrow> nat \<Rightarrow> nat \<Rightarrow> nat \<Rightarrow> info_scan \<Rightarrow> 'd drv \<Rightarrow> (info_scan \<times> 'd drv) option" where
  "info_banks P C die tmpBlkNum 0 tmpBnkNum i s = Some (i, s)"
| "info_banks P C die tmpBlkNum (Suc n) tmpBnkNum i s = do {
     (i', s') \<leftarrow> info_pages P C die tmpBlkNum tmpBnkNum (rev (flag_pages C)) i s;
     info_banks P C die tmpBlkNum n (Suc tmpBnkNum) i' s'
   }"

fun info_blks ::
  "'d phy_ops \<Rightarrow> cfg \<Rightarrow> nat \<Rightarrow> nat \<Rightarrow> u16 \<Rightarrow> u8 list \<Rightarrow> die_info \<Rightarrow> 'd drv \<Rightarrow> (die_info \<times> 'd drv) option" where
  "info_blks P C 0 tmpBlkNum tmpLogicInfo sp D s = Some (D, s)"
| "info_blks P C (Suc n) tmpBlkNum tmpLogicInfo sp D s = do {
     (i, s') \<leftarrow> info_banks P C (unat (di_nDie D)) tmpBlkNum (INTERLEAVE_BANK_CNT C) 0
       \<lparr>is_bad = False, is_info = tmpLogicInfo, is_spare = sp\<rparr> s;
     D' \<leftarrow> set_info tmpBlkNum (if is_bad i then BAD_BLOCK_INFO else is_info i) D;
     info_blks P C n (Suc tmpBlkNum) (is_info i) (is_spare i) D' s'
   }"

definition GetBlkLogicInfo ::
  "'d phy_ops \<Rightarrow> cfg \<Rightarrow> fmt_par \<Rightarrow> die_info \<Rightarrow> 'd drv \<Rightarrow> (die_info \<times> 'd drv) option" where
  "GetBlkLogicInfo P C F D s =
     info_blks P C (unat (SuperBlkCntOfDie F)) 0 0xffff (junk_spare C) D s"

section \<open>Filling a block into the zone table\<close>

text \<open>The item of the log block table of zone \<open>z\<close> with logical block number \<open>b\<close>, if there is one.\<close>

definition find_log :: "nat \<Rightarrow> u16 \<Rightarrow> die_info \<Rightarrow> nat option option" where
  "find_log z b D = do {
     zi \<leftarrow> arr_get (di_ZoneInfo D) z;
     scan (\<lambda>l. LogicBlkNum l = b) (zi_LogBlkTbl zi) 0 MAX_LOG_BLK_CNT 0
   }"

definition set_log_phy :: "u16 \<Rightarrow> log_blk \<Rightarrow> log_blk" where
  "set_log_phy b l = l\<lparr>PhyBlk := PhyBlk l\<lparr>PhyBlkNum := b\<rparr>\<rparr>"

text \<open>The three branches on the ages of the data block and the new block. The first component of the
  result is \<open>*pEraseBlk\<close>.\<close>

definition fill_same_age ::
  "'d phy_ops \<Rightarrow> cfg \<Rightarrow> nat \<Rightarrow> nat \<Rightarrow> u16 \<Rightarrow> u16 \<Rightarrow> die_info \<Rightarrow> 'd drv \<Rightarrow> (u16 \<times> die_info \<times> 'd drv) option" where
  "fill_same_age P C z b tmpDataBlk tmpNewBlk D s = do {
     (tmpLastPageOfData, s1) \<leftarrow> GetLastUsedPage P C (unat (di_nDie D)) (unat tmpDataBlk) s;
     (tmpLastPageOfNew, s2) \<leftarrow> GetLastUsedPage P C (unat (di_nDie D)) (unat tmpNewBlk) s1;
     if tmpLastPageOfNew > tmpLastPageOfData
     then do { D' \<leftarrow> set_zone_blk z b tmpNewBlk D; Some (tmpDataBlk, D', s2) }
     else Some (tmpNewBlk, D, s2)
   }"

definition fill_newer ::
  "'d phy_ops \<Rightarrow> cfg \<Rightarrow> nat \<Rightarrow> nat \<Rightarrow> nat option \<Rightarrow> bool \<Rightarrow> u16 \<Rightarrow> die_info \<Rightarrow> 'd drv
   \<Rightarrow> (u16 \<times> die_info \<times> 'd drv) option" where
  "fill_newer P C z b tmpLogPst sequential tmpNewBlk D s =
    (if \<not> sequential then Some (tmpNewBlk, D, s)
     else case tmpLogPst of
       Some i \<Rightarrow> do {
         zi \<leftarrow> arr_get (di_ZoneInfo D) z;
         l \<leftarrow> arr_get (zi_LogBlkTbl zi) i;
         let tmpLogBlk = PhyBlkNum (PhyBlk l);
         (tmpLastPageOfNew, s1) \<leftarrow> GetLastUsedPage P C (unat (di_nDie D)) (unat tmpNewBlk) s;
         (tmpLastPageOfLog, s2) \<leftarrow> GetLastUsedPage P C (unat (di_nDie D)) (unat tmpLogBlk) s1;
         if tmpLastPageOfNew > tmpLastPageOfLog
         then do { D' \<leftarrow> set_zone_log z i (set_log_phy tmpNewBlk) D; Some (tmpLogBlk, D', s2) }
         else Some (tmpNewBlk, D, s2)
       }
     | None \<Rightarrow> do {
         free \<leftarrow> find_log z 0xffff D;
         case free of
           Some i \<Rightarrow> do {
             D' \<leftarrow> set_zone_log z i (\<lambda>l. set_log_phy tmpNewBlk (l\<lparr>LogicBlkNum := of_nat b\<rparr>)) D;
             Some (0xffff, D', s)
           }
         | None \<Rightarrow> Some (tmpNewBlk, D, s)
       })"

definition fill_older ::
  "nat \<Rightarrow> nat \<Rightarrow> nat option \<Rightarrow> bool \<Rightarrow> u16 \<Rightarrow> u16 \<Rightarrow> die_info \<Rightarrow> (u16 \<times> die_info) option" where
  "fill_older z b tmpLogPst sequential tmpDataBlk tmpNewBlk D = do {
     D1 \<leftarrow> set_zone_blk z b tmpNewBlk D;
     if \<not> sequential then Some (tmpDataBlk, D1)
     else case tmpLogPst of
       Some i \<Rightarrow> do {
         zi \<leftarrow> arr_get (di_ZoneInfo D1) z;
         l \<leftarrow> arr_get (zi_LogBlkTbl zi) i;
         D2 \<leftarrow> set_zone_log z i (set_log_phy tmpDataBlk) D1;
         Some (PhyBlkNum (PhyBlk l), D2)
       }
     | None \<Rightarrow> do {
         free \<leftarrow> find_log z 0xffff D1;
         case free of
           Some i \<Rightarrow> do {
             D2 \<leftarrow> set_zone_log z i (\<lambda>l. set_log_phy tmpDataBlk (l\<lparr>LogicBlkNum := of_nat b\<rparr>)) D1;
             Some (0xffff, D2)
           }
         | None \<Rightarrow> Some (tmpDataBlk, D1)
       }
   }"

definition FillBlkToZoneTbl ::
  "'d phy_ops \<Rightarrow> cfg \<Rightarrow> u16 \<Rightarrow> u16 \<Rightarrow> die_info \<Rightarrow> 'd drv \<Rightarrow> (u16 \<times> die_info \<times> 'd drv) option" where
  "FillBlkToZoneTbl P C nLogicInfo nPhyBlk D s = do {
     let z = GET_LOGIC_INFO_ZONE nLogicInfo;
     let b = GET_LOGIC_INFO_BLK nLogicInfo;
     x \<leftarrow> zone_item z b D;
     if PhyBlkNum x = 0xffff
     then do {
       D' \<leftarrow> upd_zone z (\<lambda>zi. zi\<lparr>zi_ZoneTbl := (zi_ZoneTbl zi)[b := \<lparr>PhyBlkNum = nPhyBlk, BlkEraseCnt = 0\<rparr>],
                                   zi_nDataBlkCnt := zi_nDataBlkCnt zi + 1\<rparr>) D;
       Some (0xffff, D', s)
     }
     else do {
       let tmpDataBlk = PhyBlkNum x;
       (tmpAgeData, s1) \<leftarrow> GetLogAge P C (unat (di_nDie D)) (unat tmpDataBlk) s;
       (tmpAgeNew, s2) \<leftarrow> GetLogAge P C (unat (di_nDie D)) (unat nPhyBlk) s1;
       tmpLogPst \<leftarrow> find_log z (of_nat b) D;
       if COMPARE_AGE tmpAgeNew tmpAgeData = 0 then fill_same_age P C z b tmpDataBlk nPhyBlk D s2
       else if COMPARE_AGE tmpAgeNew tmpAgeData > 0
       then fill_newer P C z b tmpLogPst (tmpAgeNew = tmpAgeData + 1) nPhyBlk D s2
       else do {
         (er, D') \<leftarrow> fill_older z b tmpLogPst (tmpAgeData = tmpAgeNew + 1) tmpDataBlk nPhyBlk D;
         Some (er, D', s2)
       }
     }
   }"

section \<open>Filling the zone tables of a die\<close>

definition kick_last_blk ::
  "'d phy_ops \<Rightarrow> cfg \<Rightarrow> fmt_par \<Rightarrow> nat \<Rightarrow> die_info \<Rightarrow> 'd drv \<Rightarrow> (die_info \<times> 'd drv) option" where
  "kick_last_blk P C F tmpPhyBlk D s = do {
     info \<leftarrow> arr_get (di_pPhyBlk D) tmpPhyBlk;
     if of_nat tmpPhyBlk = SuperBlkCntOfDie F - 1 \<and> info = FREE_BLOCK_INFO
     then do {
       D' \<leftarrow> set_info tmpPhyBlk BAD_BLOCK_INFO D;
       s' \<leftarrow> WriteBadBlkFlag P C (unat (di_nDie D)) tmpPhyBlk s;
       Some (D', s')
     }
     else Some (D, s)
   }"

definition fill_blk ::
  "'d phy_ops \<Rightarrow> cfg \<Rightarrow> nat \<Rightarrow> die_info \<Rightarrow> 'd drv \<Rightarrow> (die_info \<times> 'd drv) option" where
  "fill_blk P C tmpPhyBlk D s = do {
     info \<leftarrow> arr_get (di_pPhyBlk D) tmpPhyBlk;
     if info = BAD_BLOCK_INFO then Some (D\<lparr>di_nBadCnt := di_nBadCnt D + 1\<rparr>, s)
     else if info = FREE_BLOCK_INFO then Some (D\<lparr>di_nFreeCnt := di_nFreeCnt D + 1\<rparr>, s)
     else if GET_LOGIC_INFO_TYPE info = 1
     then if GET_LOGIC_INFO_BLK info = BOOT_BLK_MARK
          then if di_nDie D = 0 then Some (D, s) else reclaim_blk P C tmpPhyBlk D s
          else if GET_LOGIC_INFO_BLK info = TABLE_BLK_MARK
          then if GET_LOGIC_INFO_ZONE info < ZONE_CNT_OF_DIE C \<and> tmpPhyBlk < TBL_AREA_BLK_NUM
               then Some (D, s) else reclaim_blk P C tmpPhyBlk D s
          else reclaim_blk P C tmpPhyBlk D s
     else if GET_LOGIC_INFO_ZONE info \<ge> ZONE_CNT_OF_DIE C
             \<or> GET_LOGIC_INFO_BLK info \<ge> DATA_BLK_CNT_OF_ZONE C
     then reclaim_blk P C tmpPhyBlk D s
     else if tbl_valid D (GET_LOGIC_INFO_ZONE info) then Some (D, s)
     else do {
       (tmpBlkErase, D', s') \<leftarrow> FillBlkToZoneTbl P C info (of_nat tmpPhyBlk) D s;
       if tmpBlkErase \<noteq> 0xffff then reclaim_blk P C (unat tmpBlkErase) D' s' else Some (D', s')
     }
   }"

text \<open>\<open>n\<close> blocks to go from \<open>tmpPhyBlk\<close>.\<close>

fun fill_blks ::
  "'d phy_ops \<Rightarrow> cfg \<Rightarrow> fmt_par \<Rightarrow> nat \<Rightarrow> nat \<Rightarrow> die_info \<Rightarrow> 'd drv \<Rightarrow> (die_info \<times> 'd drv) option" where
  "fill_blks P C F 0 tmpPhyBlk D s = Some (D, s)"
| "fill_blks P C F (Suc n) tmpPhyBlk D s = do {
     (D1, s1) \<leftarrow> kick_last_blk P C F tmpPhyBlk D s;
     (D2, s2) \<leftarrow> fill_blk P C tmpPhyBlk D1 s1;
     fill_blks P C F n (Suc tmpPhyBlk) D2 s2
   }"

definition FillZoneTblInfo ::
  "'d phy_ops \<Rightarrow> cfg \<Rightarrow> fmt_par \<Rightarrow> die_info \<Rightarrow> 'd drv \<Rightarrow> (die_info \<times> 'd drv) option" where
  "FillZoneTblInfo P C F D s =
     fill_blks P C F (unat (SuperBlkCntOfDie F) - first_blk F D) (first_blk F D) D s"

section \<open>The blocks in the tables of a die\<close>

definition blk_opt :: "u16 \<Rightarrow> u16 multiset" where
  "blk_opt b = (if b = 0xffff then {#} else {#b#})"

definition live :: "('a \<Rightarrow> u16) \<Rightarrow> 'a list \<Rightarrow> u16 multiset" where
  "live f t = filter_mset (\<lambda>b. b \<noteq> 0xffff) (image_mset f (mset t))"

definition log_item_blk :: "log_blk \<Rightarrow> u16" where
  "log_item_blk l = (if LogicBlkNum l = 0xffff then 0xffff else PhyBlkNum (PhyBlk l))"

definition zone_blks :: "zone_info \<Rightarrow> u16 multiset" where
  "zone_blks zi = live PhyBlkNum (zi_ZoneTbl zi) + live log_item_blk (zi_LogBlkTbl zi)"

definition die_blks :: "die_info \<Rightarrow> u16 multiset" where
  "die_blks D = sum_list (map zone_blks (di_ZoneInfo D))"

lemma blk_opt_null [simp]: "blk_opt 0xffff = {#}"
  by (simp add: blk_opt_def)

lemma live_update:
  "i < length t \<Longrightarrow> live f (t[i := v]) + blk_opt (f (t ! i)) = live f t + blk_opt (f v)"
  using arg_cong [OF image_mset_list_update [of i t f v], of "filter_mset (\<lambda>b. b \<noteq> 0xffff)"]
  by (auto simp: live_def blk_opt_def)

lemma sum_list_update_eq:
  fixes xs :: "'a :: comm_monoid_add list"
  shows "i < length xs \<Longrightarrow> sum_list (xs[i := y]) + xs ! i = sum_list xs + y"
proof (induction xs arbitrary: i)
  case (Cons x xs)
  then show ?case by (cases i) (auto simp: ac_simps)
qed simp

lemma die_blks_update:
  assumes "z < length (di_ZoneInfo D)"
  shows "die_blks (D\<lparr>di_ZoneInfo := (di_ZoneInfo D)[z := zi]\<rparr>) + zone_blks (di_ZoneInfo D ! z)
       = die_blks D + zone_blks zi"
  using sum_list_update_eq [of z "map zone_blks (di_ZoneInfo D)" "zone_blks zi"] assms
  by (simp add: die_blks_def map_update)

definition zone_shape :: "zone_info \<Rightarrow> bool" where
  "zone_shape zi \<longleftrightarrow> length (zi_ZoneTbl zi) = BLOCK_CNT_OF_ZONE \<and> length (zi_LogBlkTbl zi) = MAX_LOG_BLK_CNT"

definition die_shape :: "cfg \<Rightarrow> die_info \<Rightarrow> bool" where
  "die_shape C D \<longleftrightarrow> length (di_ZoneInfo D) = ZONE_CNT_OF_DIE C \<and> (\<forall>zi \<in> set (di_ZoneInfo D). zone_shape zi)"

text \<open>\<open>swaps C D D' old new\<close>: only the zone tables differ, where the block \<open>new\<close> has taken the place of
  \<open>old\<close>.\<close>

definition swaps :: "cfg \<Rightarrow> die_info \<Rightarrow> die_info \<Rightarrow> u16 \<Rightarrow> u16 \<Rightarrow> bool" where
  "swaps C D D' old new \<longleftrightarrow> die_shape C D' \<and> D' = D\<lparr>di_ZoneInfo := di_ZoneInfo D'\<rparr>
     \<and> die_blks D' + blk_opt old = die_blks D + blk_opt new"

lemma swaps_refl [simp]: "die_shape C D \<Longrightarrow> swaps C D D b b"
  by (simp add: swaps_def)

lemma swapsI:
  "die_shape C (D\<lparr>di_ZoneInfo := t\<rparr>) \<Longrightarrow>
   die_blks (D\<lparr>di_ZoneInfo := t\<rparr>) + blk_opt old = die_blks D + blk_opt new \<Longrightarrow>
   swaps C D (D\<lparr>di_ZoneInfo := t\<rparr>) old new"
  by (simp add: swaps_def)

lemma swapsE:
  assumes "swaps C D D' old new"
  obtains t where "D' = D\<lparr>di_ZoneInfo := t\<rparr>" and "die_shape C D'"
    and "die_blks D' + blk_opt old = die_blks D + blk_opt new"
  using assms that unfolding swaps_def by blast

lemma swaps_trans:
  assumes "swaps C D D1 b c" and "swaps C D1 D2 a b"
  shows "swaps C D D2 a c"
proof -
  obtain t1 where 1: "D1 = D\<lparr>di_ZoneInfo := t1\<rparr>" "die_blks D1 + blk_opt b = die_blks D + blk_opt c"
    using assms(1) by (rule swapsE)
  obtain t2 where 2: "D2 = D1\<lparr>di_ZoneInfo := t2\<rparr>" "die_shape C D2"
    "die_blks D2 + blk_opt a = die_blks D1 + blk_opt b"
    using assms(2) by (rule swapsE)
  from 1 2 show ?thesis by (simp add: swaps_def)
qed

lemma upd_zone_swaps:
  assumes D: "die_shape C D" and z: "z < ZONE_CNT_OF_DIE C"
    and f: "zone_shape (f (di_ZoneInfo D ! z))"
    and b: "zone_blks (f (di_ZoneInfo D ! z)) + blk_opt old = zone_blks (di_ZoneInfo D ! z) + blk_opt new"
  shows "total (upd_zone z f D) (\<lambda>D'. swaps C D D' old new)"
proof -
  let ?zi = "di_ZoneInfo D ! z" and ?D = "D\<lparr>di_ZoneInfo := (di_ZoneInfo D)[z := f (di_ZoneInfo D ! z)]\<rparr>"
  have len: "z < length (di_ZoneInfo D)" using D z by (simp add: die_shape_def)
  have "die_blks ?D + blk_opt old + zone_blks ?zi = die_blks D + blk_opt new + zone_blks ?zi"
  proof -
    have "die_blks ?D + blk_opt old + zone_blks ?zi = (die_blks ?D + zone_blks ?zi) + blk_opt old"
      by (simp only: ac_simps)
    also have "\<dots> = die_blks D + (zone_blks (f ?zi) + blk_opt old)"
      by (simp only: die_blks_update [OF len] add.assoc)
    also have "\<dots> = die_blks D + blk_opt new + zone_blks ?zi"
      unfolding b by (simp only: ac_simps)
    finally show ?thesis .
  qed
  then have "die_blks ?D + blk_opt old = die_blks D + blk_opt new" by simp
  moreover have "die_shape C ?D"
    using D f by (auto simp: die_shape_def dest: set_update_subset_insert [THEN subsetD])
  ultimately show ?thesis using len by (simp add: upd_zone_def swaps_def)
qed

lemma zone_item_in:
  "die_shape C D \<Longrightarrow> z < ZONE_CNT_OF_DIE C \<Longrightarrow> i < BLOCK_CNT_OF_ZONE \<Longrightarrow>
   zone_item z i D = Some (zi_ZoneTbl (di_ZoneInfo D ! z) ! i)"
  by (simp add: zone_item_def die_shape_def zone_shape_def)

lemma zone_at: "die_shape C D \<Longrightarrow> z < ZONE_CNT_OF_DIE C \<Longrightarrow> zone_shape (di_ZoneInfo D ! z)"
  by (simp add: die_shape_def)

lemma set_zone_blk_swaps:
  assumes "die_shape C D" and "z < ZONE_CNT_OF_DIE C" and "i < BLOCK_CNT_OF_ZONE"
  shows "total (set_zone_blk z i b D)
    (\<lambda>D'. swaps C D D' (PhyBlkNum (zi_ZoneTbl (di_ZoneInfo D ! z) ! i)) b
       \<and> zi_LogBlkTbl (di_ZoneInfo D' ! z) = zi_LogBlkTbl (di_ZoneInfo D ! z))"
proof -
  have logs: "post (set_zone_blk z i b D)
      (\<lambda>D'. zi_LogBlkTbl (di_ZoneInfo D' ! z) = zi_LogBlkTbl (di_ZoneInfo D ! z))"
    unfolding set_zone_blk_def upd_zone_def by (rule postI) (auto simp: Option.bind_eq_Some_conv)

  let ?zi = "di_ZoneInfo D ! z"
  have "i < length (zi_ZoneTbl ?zi)" using zone_at [OF assms(1,2)] assms(3) by (simp add: zone_shape_def)
  with live_update [OF this, of PhyBlkNum] zone_at [OF assms(1,2)]
  have "total (set_zone_blk z i b D) (\<lambda>D'. swaps C D D' (PhyBlkNum (zi_ZoneTbl (di_ZoneInfo D ! z) ! i)) b)"
    unfolding set_zone_blk_def zone_item_in [OF assms]
    by (auto intro!: upd_zone_swaps assms simp: zone_shape_def zone_blks_def ac_simps)
  from total_conj [OF this logs] show ?thesis .
qed

lemma set_zone_log_swaps:
  assumes "die_shape C D" and "z < ZONE_CNT_OF_DIE C" and "i < MAX_LOG_BLK_CNT"
  shows "total (set_zone_log z i f D)
    (\<lambda>D'. swaps C D D' (log_item_blk (zi_LogBlkTbl (di_ZoneInfo D ! z) ! i))
            (log_item_blk (f (zi_LogBlkTbl (di_ZoneInfo D ! z) ! i))))"
proof -
  let ?zi = "di_ZoneInfo D ! z"
  have i: "i < length (zi_LogBlkTbl ?zi)" "z < length (di_ZoneInfo D)"
    using zone_at [OF assms(1,2)] assms by (simp_all add: zone_shape_def die_shape_def)
  with live_update [OF i(1), of log_item_blk] zone_at [OF assms(1,2)] show ?thesis
    unfolding set_zone_log_def
    by (auto intro!: upd_zone_swaps assms simp: zone_shape_def zone_blks_def ac_simps)
qed

lemma find_log_total:
  assumes "die_shape C D" and "z < ZONE_CNT_OF_DIE C"
  shows "total (find_log z b D) (\<lambda>r. \<forall>i. r = Some i \<longrightarrow>
    i < MAX_LOG_BLK_CNT \<and> LogicBlkNum (zi_LogBlkTbl (di_ZoneInfo D ! z) ! i) = b)"
proof -
  let ?t = "zi_LogBlkTbl (di_ZoneInfo D ! z)"
  have len: "0 + 0 + MAX_LOG_BLK_CNT \<le> length ?t" "z < length (di_ZoneInfo D)"
    using zone_at [OF assms] assms by (simp_all add: zone_shape_def die_shape_def)
  from scan_total [OF len(1), of "\<lambda>l. LogicBlkNum l = b"] obtain r where
    "scan (\<lambda>l. LogicBlkNum l = b) ?t 0 MAX_LOG_BLK_CNT 0 = Some r" by blast
  with len(2) scan_found [of "\<lambda>l. LogicBlkNum l = b" ?t 0 MAX_LOG_BLK_CNT 0] show ?thesis
    by (auto simp: find_log_def)
qed


lemma blk_lt: "GET_LOGIC_INFO_BLK a < BLOCK_CNT_OF_ZONE"
proof -
  have "unat (a AND mask 10) < 2 ^ 10"
    by (simp add: unsigned_take_bit_eq take_bit_nat_eq_self_iff flip: take_bit_eq_mask)
      (use take_bit_nat_less_exp [of 10 "unat a"] in simp)
  then show ?thesis by (simp add: GET_LOGIC_INFO_BLK_def BLOCK_CNT_OF_ZONE_def mask_eq_exp_minus_1)
qed

lemma log_num_valid: "b < BLOCK_CNT_OF_ZONE \<Longrightarrow> (of_nat b :: u16) \<noteq> 0xffff"
  using of_nat_inj16 [of b 65535] by (auto simp: BLOCK_CNT_OF_ZONE_def)

lemma log_item_blk_simps [simp]:
  "LogicBlkNum l = 0xffff \<Longrightarrow> log_item_blk l = 0xffff"
  "LogicBlkNum l \<noteq> 0xffff \<Longrightarrow> log_item_blk l = PhyBlkNum (PhyBlk l)"
  by (simp_all add: log_item_blk_def)

lemma set_log_phy_simps [simp]:
  "LogicBlkNum (set_log_phy b l) = LogicBlkNum l" "PhyBlkNum (PhyBlk (set_log_phy b l)) = b"
  by (simp_all add: set_log_phy_def)

definition log_num :: "nat \<Rightarrow> nat \<Rightarrow> die_info \<Rightarrow> u16" where
  "log_num z i D = LogicBlkNum (zi_LogBlkTbl (di_ZoneInfo D ! z) ! i)"

lemma fill_older_swaps:
  assumes D: "die_shape C D" "z < ZONE_CNT_OF_DIE C" "b < BLOCK_CNT_OF_ZONE"
    and data: "PhyBlkNum (zi_ZoneTbl (di_ZoneInfo D ! z) ! b) = data"
    and pst: "\<And>i. pst = Some i \<Longrightarrow> i < MAX_LOG_BLK_CNT \<and> log_num z i D = of_nat b"
  shows "total (fill_older z b pst sq data nb D) (\<lambda>(er, D'). swaps C D D' er nb)"
proof -
  obtain D1 where 1: "set_zone_blk z b nb D = Some D1" "swaps C D D1 data nb"
    and logs: "zi_LogBlkTbl (di_ZoneInfo D1 ! z) = zi_LogBlkTbl (di_ZoneInfo D ! z)"
    using set_zone_blk_swaps [OF D, of nb] data by (auto simp: total_iff)
  have D1: "die_shape C D1" "z < length (di_ZoneInfo D1)"
    using 1(2) D(2) by (auto simp: swaps_def die_shape_def)
  note len = zone_at [OF D1(1) D(2), unfolded zone_shape_def]
  note step = total_mono [OF set_zone_log_swaps [OF D1(1) D(2)]]
  show ?thesis
  proof (cases pst)
    case (Some i)
    then have i: "i < MAX_LOG_BLK_CNT" "log_num z i D1 = of_nat b" using pst logs by (auto simp: log_num_def)
    with log_num_valid [OF D(3)] 1 Some D1(2) len set_zone_log_swaps [OF D1(1) D(2) i(1), of "set_log_phy data"]
    show ?thesis by (auto simp: fill_older_def total_iff log_num_def intro: swaps_trans)
  next
    case None
    obtain r where r: "find_log z 0xffff D1 = Some r"
      "\<And>i. r = Some i \<Longrightarrow> i < MAX_LOG_BLK_CNT \<and> log_num z i D1 = 0xffff"
      using find_log_total [OF D1(1) D(2), of "0xffff"] by (auto simp: total_iff log_num_def)
    show ?thesis
    proof (cases r)
      case (Some i)
      with r(2) log_num_valid [OF D(3)] 1 None r(1)
        set_zone_log_swaps [OF D1(1) D(2), of i "\<lambda>l. set_log_phy data (l\<lparr>LogicBlkNum := of_nat b\<rparr>)"]
      show ?thesis by (auto simp: fill_older_def total_iff log_num_def intro: swaps_trans)
    next
      case None
      with r(1) 1 \<open>pst = None\<close> show ?thesis by (auto simp: fill_older_def)
    qed
  qed
qed


lemma fill_same_age_swaps:
  assumes D: "die_shape C D" "z < ZONE_CNT_OF_DIE C" "b < BLOCK_CNT_OF_ZONE"
    and data: "PhyBlkNum (zi_ZoneTbl (di_ZoneInfo D ! z) ! b) = data"
    and P: "keeps_sizes P" and s: "fmt_ok C s"
  shows "total (fill_same_age P C z b data nb D s) (\<lambda>(er, D', s'). swaps C D D' er nb \<and> fmt_ok C s')"
proof -
  obtain p1 s1 where 1: "GetLastUsedPage P C (unat (di_nDie D)) (unat data) s = Some (p1, s1)" "fmt_ok C s1"
    using GetLastUsedPage_total [OF P s] by (force simp: total_iff)
  obtain p2 s2 where 2: "GetLastUsedPage P C (unat (di_nDie D)) (unat nb) s1 = Some (p2, s2)" "fmt_ok C s2"
    using GetLastUsedPage_total [OF P 1(2)] by (force simp: total_iff)
  from 1 2 set_zone_blk_swaps [OF D, of nb] data D(1) show ?thesis
    by (auto simp: fill_same_age_def total_iff)
qed

lemma fill_newer_swaps:
  assumes D: "die_shape C D" "z < ZONE_CNT_OF_DIE C" "b < BLOCK_CNT_OF_ZONE"
    and pst: "\<And>i. pst = Some i \<Longrightarrow> i < MAX_LOG_BLK_CNT \<and> log_num z i D = of_nat b"
    and P: "keeps_sizes P" and s: "fmt_ok C s"
  shows "total (fill_newer P C z b pst sq nb D s) (\<lambda>(er, D', s'). swaps C D D' er nb \<and> fmt_ok C s')"
proof (cases "sq")
  case False
  with D s show ?thesis by (simp add: fill_newer_def)
next
  case True
  note len = zone_at [OF D(1,2), unfolded zone_shape_def] D(1,2)
  show ?thesis
  proof (cases pst)
    case (Some i)
    let ?l = "zi_LogBlkTbl (di_ZoneInfo D ! z) ! i"
    have i: "i < MAX_LOG_BLK_CNT" "log_num z i D = of_nat b" using pst Some by simp_all
    obtain p1 s1 where 1: "GetLastUsedPage P C (unat (di_nDie D)) (unat nb) s = Some (p1, s1)" "fmt_ok C s1"
      using GetLastUsedPage_total [OF P s] by (force simp: total_iff)
    obtain p2 s2 where 2: "GetLastUsedPage P C (unat (di_nDie D)) (unat (PhyBlkNum (PhyBlk ?l))) s1
        = Some (p2, s2)" "fmt_ok C s2"
      using GetLastUsedPage_total [OF P 1(2)] by (force simp: total_iff)
    from 1 2 i Some True len log_num_valid [OF D(3)] set_zone_log_swaps [OF D(1,2) i(1), of "set_log_phy nb"]
    show ?thesis by (auto simp: fill_newer_def total_iff log_num_def die_shape_def)
  next
    case None
    obtain r where r: "find_log z 0xffff D = Some r"
      "\<And>i. r = Some i \<Longrightarrow> i < MAX_LOG_BLK_CNT \<and> log_num z i D = 0xffff"
      using find_log_total [OF D(1,2), of "0xffff"] by (auto simp: total_iff log_num_def)
    show ?thesis
    proof (cases r)
      case (Some i)
      with r(2) log_num_valid [OF D(3)] None r(1) True s
        set_zone_log_swaps [OF D(1,2), of i "\<lambda>l. set_log_phy nb (l\<lparr>LogicBlkNum := of_nat b\<rparr>)"]
      show ?thesis by (auto simp: fill_newer_def total_iff log_num_def)
    next
      case None
      with r(1) D s \<open>pst = None\<close> True show ?thesis by (simp add: fill_newer_def)
    qed
  qed
qed

lemma FillBlk_swaps:
  assumes D: "die_shape C D" "GET_LOGIC_INFO_ZONE info < ZONE_CNT_OF_DIE C"
    and P: "keeps_sizes P" and s: "fmt_ok C s"
  shows "total (FillBlkToZoneTbl P C info nb D s) (\<lambda>(er, D', s'). swaps C D D' er nb \<and> fmt_ok C s')"
proof -
  let ?z = "GET_LOGIC_INFO_ZONE info" and ?b = "GET_LOGIC_INFO_BLK info"
  let ?t = "zi_ZoneTbl (di_ZoneInfo D ! ?z)"
  note item = zone_item_in [OF D blk_lt [of info]]
  show ?thesis
  proof (cases "PhyBlkNum (?t ! ?b) = 0xffff")
    case True
    let ?f = "\<lambda>zi. zi\<lparr>zi_ZoneTbl := (zi_ZoneTbl zi)[?b := \<lparr>PhyBlkNum = nb, BlkEraseCnt = 0\<rparr>],
                     zi_nDataBlkCnt := zi_nDataBlkCnt zi + 1\<rparr>"
    have "?b < length ?t" using zone_at [OF D] blk_lt [of info] by (simp add: zone_shape_def)
    from live_update [OF this, of PhyBlkNum] zone_at [OF D] True
    have "total (upd_zone ?z ?f D) (\<lambda>D'. swaps C D D' 0xffff nb)"
      by (intro upd_zone_swaps D) (auto simp: zone_shape_def zone_blks_def ac_simps)
    with item True s show ?thesis by (auto simp: FillBlkToZoneTbl_def total_iff)
  next
    case False
    let ?data = "PhyBlkNum (?t ! ?b)"
    obtain a1 s1 where 1: "GetLogAge P C (unat (di_nDie D)) (unat ?data) s = Some (a1, s1)" "fmt_ok C s1"
      using GetLogAge_total [OF P s] by (force simp: total_iff)
    obtain a2 s2 where 2: "GetLogAge P C (unat (di_nDie D)) (unat nb) s1 = Some (a2, s2)" "fmt_ok C s2"
      using GetLogAge_total [OF P 1(2)] by (force simp: total_iff)
    obtain pst where pst: "find_log ?z (of_nat ?b) D = Some pst"
      "\<And>i. pst = Some i \<Longrightarrow> i < MAX_LOG_BLK_CNT \<and> log_num ?z i D = of_nat ?b"
      using find_log_total [OF D, of "of_nat ?b"] by (auto simp: total_iff log_num_def)
    have same: "total (fill_same_age P C ?z ?b ?data nb D s2) (\<lambda>(er, D', s'). swaps C D D' er nb \<and> fmt_ok C s')"
      by (rule fill_same_age_swaps [OF D blk_lt refl P 2(2)])
    have newer: "total (fill_newer P C ?z ?b pst (a2 = a1 + 1) nb D s2)
        (\<lambda>(er, D', s'). swaps C D D' er nb \<and> fmt_ok C s')"
      by (rule fill_newer_swaps [OF D blk_lt pst(2) P 2(2)])
    have older: "total (fill_older ?z ?b pst (a1 = a2 + 1) ?data nb D) (\<lambda>(er, D'). swaps C D D' er nb)"
      by (rule fill_older_swaps [OF D blk_lt refl pst(2)])
    from item False 1 2 pst(1) same newer older show ?thesis
      by (auto simp: FillBlkToZoneTbl_def Let_def total_iff)
  qed
qed

section \<open>The tables hold each data block once\<close>

text \<open>The block information of a block that belongs into a zone table that is rebuilt.\<close>

definition in_table :: "cfg \<Rightarrow> u8 \<Rightarrow> u16 \<Rightarrow> bool" where
  "in_table C bitmap info \<longleftrightarrow> info \<noteq> BAD_BLOCK_INFO \<and> info \<noteq> FREE_BLOCK_INFO \<and> GET_LOGIC_INFO_TYPE info \<noteq> 1
     \<and> GET_LOGIC_INFO_ZONE info < ZONE_CNT_OF_DIE C \<and> GET_LOGIC_INFO_BLK info < DATA_BLK_CNT_OF_ZONE C
     \<and> \<not> bit bitmap (GET_LOGIC_INFO_ZONE info)"

lemma in_table_free [simp]: "\<not> in_table C m FREE_BLOCK_INFO" "\<not> in_table C m BAD_BLOCK_INFO"
  by (simp_all add: in_table_def)

definition blks_where :: "('a \<Rightarrow> bool) \<Rightarrow> nat \<Rightarrow> nat \<Rightarrow> 'a list \<Rightarrow> nat set" where
  "blks_where Q f t xs = {b. f \<le> b \<and> b < t \<and> Q (xs ! b)}"

lemma finite_blks_where [simp]: "finite (blks_where Q f t xs)"
  by (rule finite_subset [of _ "{..<t}"]) (auto simp: blks_where_def)

lemma blks_where_Suc:
  "f \<le> t \<Longrightarrow> blks_where Q f (Suc t) xs = (if Q (xs ! t) then insert t (blks_where Q f t xs) else blks_where Q f t xs)"
  by (auto simp: blks_where_def less_Suc_eq)

lemma blks_where_update:
  "e < length xs \<Longrightarrow> blks_where Q f t (xs[e := v])
     = (if f \<le> e \<and> e < t \<and> Q v then insert e (blks_where Q f t xs) else blks_where Q f t xs - {e})"
  by (auto simp: blks_where_def nth_list_update)

lemma blks_where_out [simp]: "t \<notin> blks_where Q f t xs"
  by (simp add: blks_where_def)

definition blk_set :: "nat set \<Rightarrow> u16 multiset" where
  "blk_set A = image_mset of_nat (mset_set A)"

lemma blk_set_insert: "finite A \<Longrightarrow> e \<notin> A \<Longrightarrow> blk_set (insert e A) = add_mset (of_nat e) (blk_set A)"
  by (simp add: blk_set_def)

lemma blk_set_remove: "finite A \<Longrightarrow> e \<in> A \<Longrightarrow> blk_set A = add_mset (of_nat e) (blk_set (A - {e}))"
  using blk_set_insert [of "A - {e}" e] by (simp add: insert_absorb)

lemma in_blk_set:
  assumes "b \<in># blk_set A" and "finite A" and "A \<subseteq> {..< 65536}"
  shows "unat b \<in> A"
  using assms by (auto simp: blk_set_def unat_of_nat)

definition scan_inv :: "cfg \<Rightarrow> nat \<Rightarrow> nat \<Rightarrow> nat \<Rightarrow> die_info \<Rightarrow> bool" where
  "scan_inv C N f t D \<longleftrightarrow> die_shape C D \<and> length (di_pPhyBlk D) = N
     \<and> die_blks D = blk_set (blks_where (in_table C (di_TblBitmap D)) f t (di_pPhyBlk D))
     \<and> di_nFreeCnt D = of_nat (card (blks_where (\<lambda>i. i = FREE_BLOCK_INFO) f t (di_pPhyBlk D)))"

lemma die_shape_updates [simp]:
  "die_shape C (D\<lparr>di_pPhyBlk := p\<rparr>) = die_shape C D" "die_shape C (D\<lparr>di_nFreeCnt := n\<rparr>) = die_shape C D"
  "die_shape C (D\<lparr>di_nBadCnt := n\<rparr>) = die_shape C D"
  by (simp_all add: die_shape_def)

lemma die_blks_updates [simp]:
  "die_blks (D\<lparr>di_pPhyBlk := p\<rparr>) = die_blks D" "die_blks (D\<lparr>di_nFreeCnt := n\<rparr>) = die_blks D"
  "die_blks (D\<lparr>di_nBadCnt := n\<rparr>) = die_blks D"
  by (simp_all add: die_blks_def)

lemma scan_inv_bad [simp]: "scan_inv C N f t (D\<lparr>di_nBadCnt := n\<rparr>) = scan_inv C N f t D"
  by (simp add: scan_inv_def)

lemma scan_inv_skip:
  "scan_inv C N f t D \<Longrightarrow> f \<le> t \<Longrightarrow> \<not> in_table C (di_TblBitmap D) (di_pPhyBlk D ! t) \<Longrightarrow>
   di_pPhyBlk D ! t \<noteq> FREE_BLOCK_INFO \<Longrightarrow> scan_inv C N f (Suc t) D"
  by (simp add: scan_inv_def blks_where_Suc)

lemma scan_inv_free:
  "scan_inv C N f t D \<Longrightarrow> f \<le> t \<Longrightarrow> di_pPhyBlk D ! t = FREE_BLOCK_INFO \<Longrightarrow>
   scan_inv C N f (Suc t) (D\<lparr>di_nFreeCnt := di_nFreeCnt D + 1\<rparr>)"
  by (simp add: scan_inv_def blks_where_Suc)

lemma scan_inv_set:
  "scan_inv C N f t D \<Longrightarrow> t < N \<Longrightarrow> scan_inv C N f t (D\<lparr>di_pPhyBlk := (di_pPhyBlk D)[t := v]\<rparr>)"
  by (simp add: scan_inv_def blks_where_update)

lemma reclaim_blk_total:
  assumes "fmt_ok C s" and "b < length (di_pPhyBlk D)"
  shows "total (reclaim_blk P C b D s) (\<lambda>(D', s'). fmt_ok C s' \<and>
     (D' = D\<lparr>di_pPhyBlk := (di_pPhyBlk D)[b := BAD_BLOCK_INFO]\<rparr>
      \<or> D' = D\<lparr>di_pPhyBlk := (di_pPhyBlk D)[b := FREE_BLOCK_INFO], di_nFreeCnt := di_nFreeCnt D + 1\<rparr>))"
proof -
  obtain r s1 where e: "fmt_VirtualBlockErase P C (unat (di_nDie D)) b s = (r, s1)" by fastforce
  with fmt_VirtualBlockErase_ok [OF e] assms
    WriteBadBlkFlag_total [of C s1 P "unat (di_nDie D)" b] show ?thesis
    by (auto simp: reclaim_blk_def set_info_def total_iff)
qed

lemma scan_inv_reclaim:
  assumes "scan_inv C N f t D" and "f \<le> t" and "t < N" and "fmt_ok C s"
  shows "total (reclaim_blk P C t D s) (\<lambda>(D', s'). fmt_ok C s' \<and> scan_inv C N f (Suc t) D'
     \<and> di_nDie D' = di_nDie D)"
proof -
  have len: "t < length (di_pPhyBlk D)" using assms by (simp add: scan_inv_def)
  have bad: "scan_inv C N f (Suc t) (D\<lparr>di_pPhyBlk := (di_pPhyBlk D)[t := BAD_BLOCK_INFO]\<rparr>)"
    using scan_inv_skip [OF scan_inv_set [OF assms(1,3), of BAD_BLOCK_INFO] assms(2)] len by simp
  have free: "scan_inv C N f (Suc t) (D\<lparr>di_pPhyBlk := (di_pPhyBlk D)[t := FREE_BLOCK_INFO],
      di_nFreeCnt := di_nFreeCnt D + 1\<rparr>)"
    using scan_inv_free [OF scan_inv_set [OF assms(1,3), of FREE_BLOCK_INFO] assms(2)] len by simp
  show ?thesis
    by (rule total_mono [OF reclaim_blk_total [OF assms(4) len]]) (use bad free in auto)
qed


text \<open>One data block \<open>t\<close> filled in, with the block \<open>er\<close> to be erased, if any.\<close>

lemma scan_inv_fill:
  assumes inv: "scan_inv C N f t D" and t: "f \<le> t" "t < N" and N: "N \<le> 65535"
    and q: "in_table C (di_TblBitmap D) (di_pPhyBlk D ! t)"
    and sw: "swaps C D D' er (of_nat t)"
  shows "er = 0xffff \<Longrightarrow> scan_inv C N f (Suc t) D'"
    and "er \<noteq> 0xffff \<Longrightarrow> unat er < N
      \<and> scan_inv C N f (Suc t) (D'\<lparr>di_pPhyBlk := (di_pPhyBlk D')[unat er := BAD_BLOCK_INFO]\<rparr>)
      \<and> scan_inv C N f (Suc t) (D'\<lparr>di_pPhyBlk := (di_pPhyBlk D')[unat er := FREE_BLOCK_INFO],
             di_nFreeCnt := di_nFreeCnt D' + 1\<rparr>)"
proof -
  let ?Q = "in_table C (di_TblBitmap D)" and ?xs = "di_pPhyBlk D"
  let ?A = "blks_where ?Q f (Suc t) ?xs" and ?F = "blks_where (\<lambda>i. i = FREE_BLOCK_INFO) f (Suc t) ?xs"
  obtain zs where D': "D' = D\<lparr>di_ZoneInfo := zs\<rparr>" "die_shape C D'"
    "die_blks D' + blk_opt er = die_blks D + blk_opt (of_nat t)" using sw by (rule swapsE)
  have len: "length ?xs = N" using inv by (simp add: scan_inv_def)
  have "of_nat t \<noteq> (0xffff :: u16)" using of_nat_inj16 [of t 65535] t N by auto
  then have blks: "die_blks D' + blk_opt er = blk_set ?A"
    using D'(3) inv q t by (simp add: scan_inv_def blks_where_Suc blk_set_insert blk_opt_def)
  have nf: "?xs ! t \<noteq> FREE_BLOCK_INFO" using q by (auto simp: in_table_def)
  then have free: "di_nFreeCnt D' = of_nat (card ?F)"
    using inv t D'(1) by (simp add: scan_inv_def blks_where_Suc)
  show "er = 0xffff \<Longrightarrow> scan_inv C N f (Suc t) D'"
    using D'(1,2) blks free len by (simp add: scan_inv_def)
  assume er: "er \<noteq> 0xffff"
  have sub: "?A \<subseteq> {..< N}" "?A \<subseteq> {..< 65536}" using t N by (auto simp: blks_where_def)
  have "er \<in># blk_set ?A" using er unfolding blks [symmetric] by (simp add: blk_opt_def)
  from in_blk_set [OF this finite_blks_where sub(2)] have erA: "unat er \<in> ?A" .
  then have erN: "unat er < N" "f \<le> unat er" "unat er < Suc t" "?xs ! unat er \<noteq> FREE_BLOCK_INFO"
    using sub(1) by (auto simp: blks_where_def in_table_def)
  have rem: "die_blks D' = blk_set (?A - {unat er})"
    using blks er blk_set_remove [OF finite_blks_where erA] by (simp add: blk_opt_def)
  have notF: "unat er \<notin> ?F" using erN(4) by (simp add: blks_where_def)
  have bad: "scan_inv C N f (Suc t) (D'\<lparr>di_pPhyBlk := ?xs[unat er := BAD_BLOCK_INFO]\<rparr>)"
    using D'(1,2) rem free notF len erN by (simp add: scan_inv_def blks_where_update)
  have ok: "scan_inv C N f (Suc t) (D'\<lparr>di_pPhyBlk := ?xs[unat er := FREE_BLOCK_INFO],
      di_nFreeCnt := di_nFreeCnt D' + 1\<rparr>)"
    using D'(1,2) rem free notF len erN by (simp add: scan_inv_def blks_where_update)
  show "unat er < N
      \<and> scan_inv C N f (Suc t) (D'\<lparr>di_pPhyBlk := (di_pPhyBlk D')[unat er := BAD_BLOCK_INFO]\<rparr>)
      \<and> scan_inv C N f (Suc t) (D'\<lparr>di_pPhyBlk := (di_pPhyBlk D')[unat er := FREE_BLOCK_INFO],
             di_nFreeCnt := di_nFreeCnt D' + 1\<rparr>)"
    using bad ok erN(1) D'(1) by simp
qed

lemma fill_blk_scan_inv:
  assumes inv: "scan_inv C N f t D" and t: "f \<le> t" "t < N" and N: "N \<le> 65535"
    and P: "keeps_sizes P" and s: "fmt_ok C s"
  shows "total (fill_blk P C t D s) (\<lambda>(D', s'). fmt_ok C s' \<and> scan_inv C N f (Suc t) D' \<and> di_nDie D' = di_nDie D)"
proof -
  let ?info = "di_pPhyBlk D ! t"
  have get: "arr_get (di_pPhyBlk D) t = Some ?info" using inv t by (simp add: scan_inv_def)
  note skip = scan_inv_skip [OF inv t(1)] and free = scan_inv_free [OF inv t(1)]
  note reclaim = scan_inv_reclaim [OF inv t s]
  show ?thesis
  proof (cases "in_table C (di_TblBitmap D) ?info")
    case False
    then show ?thesis
      unfolding fill_blk_def get using skip free reclaim s
      by (auto simp: in_table_def tbl_valid_def not_less)
  next
    case True
    obtain er D1 s1 where 1: "FillBlkToZoneTbl P C ?info (of_nat t) D s = Some (er, D1, s1)"
      "swaps C D D1 er (of_nat t)" "fmt_ok C s1"
      using FillBlk_swaps [OF _ _ P s, of D ?info "of_nat t"] inv True
      by (force simp: scan_inv_def in_table_def total_iff)
    note fill = scan_inv_fill [OF inv t N True 1(2)]
    have die: "di_nDie D1 = di_nDie D" using 1(2) by (auto elim: swapsE)
    show ?thesis
    proof (cases "er = 0xffff")
      case False
      have len: "unat er < length (di_pPhyBlk D1)" using fill(2) [OF False] by (simp add: scan_inv_def)
      have "total (reclaim_blk P C (unat er) D1 s1)
          (\<lambda>(D', s'). fmt_ok C s' \<and> scan_inv C N f (Suc t) D' \<and> di_nDie D' = di_nDie D)"
        by (rule total_mono [OF reclaim_blk_total [OF 1(3) len]]) (use fill(2) [OF False] die in auto)
      with True False 1(1) show ?thesis
        unfolding fill_blk_def get by (simp add: in_table_def tbl_valid_def)
    qed (use True fill 1 die get in \<open>simp add: fill_blk_def in_table_def tbl_valid_def\<close>)
  qed
qed

lemma kick_last_scan_inv:
  assumes "scan_inv C N f t D" and "t < N" and "fmt_ok C s"
  shows "total (kick_last_blk P C F t D s) (\<lambda>(D', s'). fmt_ok C s' \<and> scan_inv C N f t D' \<and> di_nDie D' = di_nDie D)"
proof -
  have "t < length (di_pPhyBlk D)" using assms by (simp add: scan_inv_def)
  with assms scan_inv_set [OF assms(1,2), of BAD_BLOCK_INFO]
    WriteBadBlkFlag_total [OF assms(3), of P "unat (di_nDie D)" t] show ?thesis
    by (auto simp: kick_last_blk_def set_info_def total_iff)
qed

lemma fill_blks_scan_inv:
  assumes N: "N \<le> 65535" and P: "keeps_sizes P"
  shows "scan_inv C N f t D \<Longrightarrow> f \<le> t \<Longrightarrow> t + n \<le> N \<Longrightarrow> fmt_ok C s \<Longrightarrow>
    total (fill_blks P C F n t D s) (\<lambda>(D', s'). fmt_ok C s' \<and> scan_inv C N f (t + n) D' \<and> di_nDie D' = di_nDie D)"
proof (induction n arbitrary: t D s)
  case (Suc n)
  have t: "t < N" using Suc.prems by simp
  obtain D1 s1 where 1: "kick_last_blk P C F t D s = Some (D1, s1)" "fmt_ok C s1" "scan_inv C N f t D1"
    "di_nDie D1 = di_nDie D"
    using kick_last_scan_inv [OF Suc.prems(1) t Suc.prems(4), of P F] by (force simp: total_iff)
  obtain D2 s2 where 2: "fill_blk P C t D1 s1 = Some (D2, s2)" "fmt_ok C s2" "scan_inv C N f (Suc t) D2"
    "di_nDie D2 = di_nDie D1"
    using fill_blk_scan_inv [OF 1(3) Suc.prems(2) t N P 1(2)] by (force simp: total_iff)
  from Suc.IH [OF 2(3) _ _ 2(2)] Suc.prems 1 2 show ?case by simp
qed simp

text \<open>C4: filling a block into the zone tables returns, changes nothing but the zone tables and loses no block:
  the blocks in the tables afterwards and the block to be erased (none if it is 0xffff) are the blocks in the
  tables before and the new one.\<close>

theorem FillBlkToZoneTbl_conserves:
  assumes "keeps_sizes P" and "fmt_ok C s" and "die_shape C D"
    and "GET_LOGIC_INFO_ZONE info < ZONE_CNT_OF_DIE C"
  shows "\<exists>er D' s'. FillBlkToZoneTbl P C info nb D s = Some (er, D', s')
    \<and> D' = D\<lparr>di_ZoneInfo := di_ZoneInfo D'\<rparr>
    \<and> die_blks D' + blk_opt er = die_blks D + blk_opt nb"
  using FillBlk_swaps [OF assms(3,4,1,2), of nb] by (auto simp: total_iff swaps_def)

text \<open>C1: from empty tables, \<open>_FillZoneTblInfo\<close> returns, and afterwards the tables hold each block whose
  information is that of a data block of a zone to be rebuilt exactly once and no other block; \<open>nFreeCnt\<close> is
  the number of free blocks. This holds however the erases and the bad block marks turn out.\<close>

theorem FillZoneTblInfo_partition:
  assumes "keeps_sizes P" and "fmt_ok C s" and "die_shape C D"
    and "die_blks D = {#}" and "di_nFreeCnt D = 0"
    and "length (di_pPhyBlk D) = unat (SuperBlkCntOfDie F)" and "unat (SuperBlkCntOfDie F) \<le> 65535"
    and "first_blk F D \<le> unat (SuperBlkCntOfDie F)"
  shows "\<exists>D' s'. FillZoneTblInfo P C F D s = Some (D', s')
    \<and> die_blks D' = blk_set {b. first_blk F D \<le> b \<and> b < unat (SuperBlkCntOfDie F)
         \<and> in_table C (di_TblBitmap D') (di_pPhyBlk D' ! b)}
    \<and> di_nFreeCnt D' = of_nat (card {b. first_blk F D \<le> b \<and> b < unat (SuperBlkCntOfDie F)
         \<and> di_pPhyBlk D' ! b = FREE_BLOCK_INFO})"
proof -
  let ?N = "unat (SuperBlkCntOfDie F)" and ?f = "first_blk F D"
  have "blks_where Q ?f ?f xs = {}" for Q :: "u16 \<Rightarrow> bool" and xs
    by (auto simp: blks_where_def)
  then have inv: "scan_inv C ?N ?f ?f D"
    using assms by (simp add: scan_inv_def blk_set_def)
  obtain D' s' where "fill_blks P C F (?N - ?f) ?f D s = Some (D', s')" "scan_inv C ?N ?f ?N D'"
    using fill_blks_scan_inv [OF assms(7,1) inv le_refl _ assms(2), of "?N - ?f" F] assms(8)
    by (auto simp: total_iff)
  then show ?thesis by (simp add: FillZoneTblInfo_def scan_inv_def blks_where_def)
qed

definition empty_zone :: zone_info where
  "empty_zone = \<lparr>zi_nDataBlkCnt = 0, zi_nFreeBlkCnt = 0, zi_nFreeBlkIndex = 0,
     zi_ZoneTbl = replicate BLOCK_CNT_OF_ZONE empty_phy_blk, zi_LogBlkTbl = replicate MAX_LOG_BLK_CNT empty_log_blk\<rparr>"

text \<open>A die of 64 blocks: a bad one, two of logical block 3 and one of logical block 5, the others free.\<close>

definition sample_die :: die_info where
  "sample_die = \<lparr>di_nDie = 0, di_TblBitmap = 0, di_nBadCnt = 0, di_nFreeCnt = 0, di_nFreeIndex = 8,
     di_pPhyBlk = (replicate 64 FREE_BLOCK_INFO)[10 := 3, 12 := 5, 20 := 3, 30 := BAD_BLOCK_INFO],
     di_ZoneInfo = [empty_zone]\<rparr>"

definition sample_fmt :: fmt_par where
  "sample_fmt = \<lparr>DieCntOfNand = 1, SuperBlkCntOfDie = 64, DIE0_FIRST_BLK_NUM = 8\<rparr>"

lemma empty_zone_facts [simp]: "zone_shape empty_zone" "zone_blks empty_zone = {#}"
  by (simp_all add: empty_zone_def zone_shape_def zone_blks_def live_def log_item_blk_def empty_log_blk_def
      empty_phy_blk_def)

lemma sample_die_facts [simp]:
  "die_shape sample_cfg sample_die" "die_blks sample_die = {#}" "di_nFreeCnt sample_die = 0"
  "first_blk sample_fmt sample_die = 8" "length (di_pPhyBlk sample_die) = 64"
  "SuperBlkCntOfDie sample_fmt = 64" "fmt_ok sample_cfg (sample_drv d)"
  by (simp_all add: die_shape_def die_blks_def sample_die_def first_blk_def sample_fmt_def fmt_ok_def
      sample_spare_ok)

lemma FillBlkToZoneTbl_conserves_witness:
  "\<exists>er D' s'. FillBlkToZoneTbl quiet_phy sample_cfg 3 10 sample_die (sample_drv ()) = Some (er, D', s')
    \<and> die_blks D' + blk_opt er = {#10#}"
  using FillBlkToZoneTbl_conserves [OF quiet_keeps_sizes, of sample_cfg "sample_drv ()" sample_die 3 10]
  by (simp add: GET_LOGIC_INFO_ZONE_def blk_opt_def [of 10]) blast

lemma FillZoneTblInfo_partition_witness:
  "\<exists>D' s'. FillZoneTblInfo quiet_phy sample_cfg sample_fmt sample_die (sample_drv ()) = Some (D', s')
    \<and> die_blks D' = blk_set {b. 8 \<le> b \<and> b < 64 \<and> in_table sample_cfg (di_TblBitmap D') (di_pPhyBlk D' ! b)}"
  using FillZoneTblInfo_partition [OF quiet_keeps_sizes, of sample_cfg "sample_drv ()" sample_die sample_fmt]
  by auto

end
