(* ===== verification/Format_Main.thy ===== *)
theory Format_Main
  imports Format_Tables "HOL-Library.While_Combinator"
begin

text \<open>
  The rest of the format module (\<open>format/nand_format.c\<close>): the choice of table blocks, the tables that are still
  valid, the distribution of the free blocks, writing and searching the tables, \<open>FMT_Init\<close>,
  \<open>FMT_FormatNand\<close> and \<open>FMT_GetFlashMemProperties\<close>.
\<close>

section \<open>A block for the mapping table of a zone\<close>

text \<open>An element of \<open>pPhyBlk\<close> at a signed index.\<close>

definition info_at :: "die_info \<Rightarrow> int \<Rightarrow> u16 option" where
  "info_at D i = (if i < 0 then None else arr_get (di_pPhyBlk D) (nat i))"

record tbl_cand =
  tc_ValidTblBlk :: int
  tc_InvalidTblBlk :: int
  tc_ValidTblFreeBlk :: int
  tc_Blk :: int

text \<open>The second search of \<open>_GetNewTableBlk\<close>, \<open>n\<close> blocks to go from \<open>tmpBlk\<close>; \<open>tc_Blk\<close> is \<open>tmpBlk\<close> after it.\<close>

fun tbl_candidates :: "nat \<Rightarrow> nat \<Rightarrow> tbl_cand \<Rightarrow> die_info \<Rightarrow> tbl_cand option" where
  "tbl_candidates 0 tmpBlk c D = Some (c\<lparr>tc_Blk := int tmpBlk\<rparr>)"
| "tbl_candidates (Suc n) tmpBlk c D = do {
     info \<leftarrow> arr_get (di_pPhyBlk D) tmpBlk;
     if info AND ALLOC_BLK_MARK = ALLOC_BLK_MARK
     then tbl_candidates n (Suc tmpBlk)
            (if tc_ValidTblFreeBlk c = -1 then c\<lparr>tc_ValidTblFreeBlk := int tmpBlk\<rparr> else c) D
     else if GET_LOGIC_INFO_TYPE info \<noteq> 0 then tbl_candidates n (Suc tmpBlk) c D
     else do {
       x \<leftarrow> zone_item (GET_LOGIC_INFO_ZONE info) (GET_LOGIC_INFO_BLK info) D;
       let own = (unat (PhyBlkNum x) = tmpBlk);
       let c1 = (if tc_ValidTblBlk c = -1 \<and> own then c\<lparr>tc_ValidTblBlk := int tmpBlk\<rparr> else c);
       if own \<and> \<not> tbl_valid D (GET_LOGIC_INFO_ZONE info)
       then Some (c1\<lparr>tc_InvalidTblBlk := int tmpBlk, tc_Blk := int tmpBlk\<rparr>)
       else tbl_candidates n (Suc tmpBlk) c1 D
     }
   }"

definition clear_valid :: "nat \<Rightarrow> die_info \<Rightarrow> die_info" where
  "clear_valid z D = D\<lparr>di_TblBitmap := di_TblBitmap D AND NOT (push_bit z 1)\<rparr>"

text \<open>The items of the zone table that name \<open>old\<close> get \<open>new\<close>, with the information of \<open>old\<close>.\<close>

definition replace_item :: "nat \<Rightarrow> nat \<Rightarrow> nat \<Rightarrow> nat \<Rightarrow> die_info \<Rightarrow> die_info option" where
  "replace_item z i old new D = do {
     x \<leftarrow> zone_item z i D;
     if unat (PhyBlkNum x) = old
     then do {
       info \<leftarrow> arr_get (di_pPhyBlk D) old;
       D' \<leftarrow> set_info new info D;
       set_zone_blk z i (of_nat new) D'
     }
     else Some D
   }"

definition release_item :: "nat \<Rightarrow> nat \<Rightarrow> die_info \<Rightarrow> die_info option" where
  "release_item z i D = do {
     x \<leftarrow> zone_item z i D;
     if PhyBlkNum x \<noteq> 0xffff
     then do {
       D' \<leftarrow> set_info (unat (PhyBlkNum x)) FREE_BLOCK_INFO D;
       set_zone_blk z i 0xffff (D'\<lparr>di_nFreeCnt := di_nFreeCnt D' + 1\<rparr>)
     }
     else Some D
   }"

text \<open>\<open>for (i = lo; i < lo + n; i++)\<close> over a step that may fail.\<close>

fun each :: "(nat \<Rightarrow> 'a \<Rightarrow> 'a option) \<Rightarrow> nat \<Rightarrow> nat \<Rightarrow> 'a \<Rightarrow> 'a option" where
  "each f 0 i a = Some a"
| "each f (Suc n) i a = do { a' \<leftarrow> f i a; each f n (Suc i) a' }"

definition reset_counts :: "cfg \<Rightarrow> int \<Rightarrow> die_info \<Rightarrow> die_info option" where
  "reset_counts C b D = do {
     info \<leftarrow> info_at D b;
     D1 \<leftarrow> upd_zone (GET_LOGIC_INFO_ZONE info) (\<lambda>zi. zi\<lparr>zi_nDataBlkCnt := of_nat (DATA_BLK_CNT_OF_ZONE C)\<rparr>) D;
     info' \<leftarrow> info_at D1 b;
     upd_zone (GET_LOGIC_INFO_ZONE info') (\<lambda>zi. zi\<lparr>zi_nFreeBlkCnt := 0\<rparr>) D1
   }"

definition take_valid_free ::
  "cfg \<Rightarrow> nat \<Rightarrow> nat \<Rightarrow> die_info \<Rightarrow> die_info option" where
  "take_valid_free C vtf tmpFreeBlk D = do {
     info \<leftarrow> arr_get (di_pPhyBlk D) vtf;
     let z = GET_LOGIC_INFO_ZONE info;
     let n = DATA_BLK_CNT_OF_ZONE C;
     D1 \<leftarrow> each (\<lambda>i. replace_item z i vtf tmpFreeBlk) (n - 1) 0 (clear_valid z D);
     D2 \<leftarrow> each (\<lambda>i D. do { D' \<leftarrow> replace_item z i vtf tmpFreeBlk D; release_item z i D' })
            (BLOCK_CNT_OF_ZONE - 1 - n) n D1;
     reset_counts C (int vtf) D2
   }"

text \<open>The last branch reads \<open>pPhyBlk[tmpValidTblFreeBlk]\<close> although \<open>tmpValidTblFreeBlk\<close> is \<open>-1\<close> there.\<close>

definition take_valid_data ::
  "'d phy_ops \<Rightarrow> cfg \<Rightarrow> tbl_cand \<Rightarrow> nat \<Rightarrow> die_info \<Rightarrow> 'd drv \<Rightarrow> (int \<times> die_info \<times> 'd drv) option" where
  "take_valid_data P C c tmpFreeBlk D s = do {
     info \<leftarrow> info_at D (tc_ValidTblBlk c);
     let z = GET_LOGIC_INFO_ZONE info;
     info' \<leftarrow> info_at D (tc_Blk c);
     let D1 = (clear_valid (GET_LOGIC_INFO_ZONE info') D)\<lparr>di_nFreeCnt := di_nFreeCnt D - 1\<rparr>;
     (r, D2, s1) \<leftarrow> MergeDataBlkToFreeBlk P C (nat (tc_ValidTblBlk c)) tmpFreeBlk D1 s;
     D3 \<leftarrow> each (release_item z) (BLOCK_CNT_OF_ZONE - 1 - DATA_BLK_CNT_OF_ZONE C) (DATA_BLK_CNT_OF_ZONE C) D2;
     D4 \<leftarrow> reset_counts C (tc_ValidTblFreeBlk c) D3;
     Some (if r < 0 then -1 else tc_ValidTblBlk c, D4, s1)
   }"

definition GetNewTableBlk ::
  "'d phy_ops \<Rightarrow> cfg \<Rightarrow> fmt_par \<Rightarrow> die_info \<Rightarrow> 'd drv \<Rightarrow> (int \<times> die_info \<times> 'd drv) option" where
  "GetNewTableBlk P C F D s = do {
     let tmpStartBlk = first_blk F D;
     r \<leftarrow> scan (\<lambda>x. x = FREE_BLOCK_INFO) (di_pPhyBlk D) 0 (TBL_AREA_BLK_NUM - tmpStartBlk) tmpStartBlk;
     case r of
       Some tmpBlk \<Rightarrow> do {
         D' \<leftarrow> set_info tmpBlk NULL_BLOCK_INFO D;
         Some (int tmpBlk, D'\<lparr>di_nFreeCnt := di_nFreeCnt D - 1\<rparr>, s)
       }
     | None \<Rightarrow> do {
         c \<leftarrow> tbl_candidates (TBL_AREA_BLK_NUM - tmpStartBlk) tmpStartBlk
                \<lparr>tc_ValidTblBlk = -1, tc_InvalidTblBlk = -1, tc_ValidTblFreeBlk = -1, tc_Blk = 0\<rparr> D;
         (free, D1) \<leftarrow> GetFreeBlkFromDieInfo F D;
         case free of
           None \<Rightarrow> Some (-1, D1, s)
         | Some tmpFreeBlk \<Rightarrow>
             let D2 = D1\<lparr>di_nFreeCnt := di_nFreeCnt D1 - 1\<rparr> in
             if tc_InvalidTblBlk c \<noteq> -1
             then do {
               (result, D3, s1) \<leftarrow> MergeDataBlkToFreeBlk P C (nat (tc_InvalidTblBlk c)) tmpFreeBlk D2 s;
               Some (if result < 0 then -1 else tc_InvalidTblBlk c, D3, s1)
             }
             else if tc_ValidTblFreeBlk c \<noteq> -1
             then do {
               D3 \<leftarrow> take_valid_free C (nat (tc_ValidTblFreeBlk c)) tmpFreeBlk D2;
               Some (tc_ValidTblFreeBlk c, D3, s)
             }
             else if tc_ValidTblBlk c \<noteq> -1 then take_valid_data P C c tmpFreeBlk D2 s
             else Some (int tmpFreeBlk, D2, s)
       }
   }"

fun try_new_tbl_blk ::
  "'d phy_ops \<Rightarrow> cfg \<Rightarrow> fmt_par \<Rightarrow> nat \<Rightarrow> die_info \<Rightarrow> 'd drv \<Rightarrow> (int \<times> die_info \<times> 'd drv) option" where
  "try_new_tbl_blk P C F 0 D s = Some (-1, D, s)"
| "try_new_tbl_blk P C F (Suc n) D s = do {
     (result, D', s') \<leftarrow> GetNewTableBlk P C F D s;
     if \<not> result < 0 then Some (result, D', s') else try_new_tbl_blk P C F n D' s'
   }"

definition set_zone_pst :: "nat \<Rightarrow> u16 \<Rightarrow> u16 \<Rightarrow> 'd drv \<Rightarrow> 'd drv option" where
  "set_zone_pst k b p s = do {
     t \<leftarrow> arr_set (dr_zone_tbl s) k \<lparr>zt_PhyBlkNum = b, zt_TablePst = p\<rparr>;
     Some (s\<lparr>dr_zone_tbl := t\<rparr>)
   }"

fun map_tbl_blks ::
  "'d phy_ops \<Rightarrow> cfg \<Rightarrow> fmt_par \<Rightarrow> nat \<Rightarrow> nat \<Rightarrow> die_info \<Rightarrow> 'd drv \<Rightarrow> (int \<times> die_info \<times> 'd drv) option" where
  "map_tbl_blks P C F 0 i D s = Some (0, D, s)"
| "map_tbl_blks P C F (Suc n) i D s =
    (if tbl_valid D i then map_tbl_blks P C F n (Suc i) D s
     else do {
       let k = i + unat (di_nDie D) * ZONE_CNT_OF_DIE C;
       zt \<leftarrow> arr_get (dr_zone_tbl s) k;
       if unat (zt_PhyBlkNum zt) < TBL_AREA_BLK_NUM then map_tbl_blks P C F n (Suc i) D s
       else do {
         (result, D1, s1) \<leftarrow> try_new_tbl_blk P C F 5 D s;
         if result < 0 then Some (-1, D1, s1)
         else do {
           s2 \<leftarrow> set_zone_pst k (of_int result) 0xffff s1;
           D2 \<leftarrow> set_info (nat result)
             (of_nat TABLE_BLK_MARK OR push_bit 10 (of_nat i) OR push_bit 14 1) D1;
           map_tbl_blks P C F n (Suc i) D2 s2
         }
       }
     })"

definition GetMapTblBlock ::
  "'d phy_ops \<Rightarrow> cfg \<Rightarrow> fmt_par \<Rightarrow> die_info \<Rightarrow> 'd drv \<Rightarrow> (int \<times> die_info \<times> 'd drv) option" where
  "GetMapTblBlock P C F D s = map_tbl_blks P C F (ZONE_CNT_OF_DIE C) 0 D s"

section \<open>Tables that are still valid\<close>

definition DATA_TBL_OFFSET :: nat where "DATA_TBL_OFFSET = 0"
definition LOG_TBL_OFFSET :: nat where "LOG_TBL_OFFSET = 2"
definition DIRTY_FLAG_OFFSET :: nat where "DIRTY_FLAG_OFFSET = 3"

text \<open>A page of a table group read into \<open>FORMAT_PAGE_BUF\<close>; the result is not looked at.\<close>

definition fmt_load ::
  "'d phy_ops \<Rightarrow> cfg \<Rightarrow> nat \<Rightarrow> nat \<Rightarrow> nat \<Rightarrow> u32 \<Rightarrow> 'd drv \<Rightarrow> 'd drv option" where
  "fmt_load P C die blk page bitmap s = do {
     (_, _, s') \<leftarrow> fmt_VirtualPageRead P C die blk page bitmap None s;
     Some s'
   }"

text \<open>The \<open>MEMCPY\<close> of half a block table, and of the log table, from the page buffer.\<close>

definition load_half :: "nat \<Rightarrow> u8 list \<Rightarrow> super_phy_blk list \<Rightarrow> super_phy_blk list option" where
  "load_half off buf t = do { b \<leftarrow> mem_get buf 0 (SECTOR_SIZE * 4); mem_put t off (image_blks b) }"

definition load_logs :: "u8 list \<Rightarrow> log_blk list \<Rightarrow> log_blk list option" where
  "load_logs buf t = do {
     b \<leftarrow> mem_get buf 0 (MAX_LOG_BLK_CNT * 8);
     mem_put t 0 (words_logs (words_of_bytes b))
   }"

fun kick_items :: "nat \<Rightarrow> nat \<Rightarrow> nat \<Rightarrow> die_info \<Rightarrow> die_info option" where
  "kick_items z 0 j D = Some D"
| "kick_items z (Suc n) j D = do {
     x \<leftarrow> zone_item z j D;
     if PhyBlkNum x = 0xffff then kick_items z n (Suc j) D
     else do {
       info \<leftarrow> arr_get (di_pPhyBlk D) (unat (PhyBlkNum x));
       if info = FREE_BLOCK_INFO
       then do {
         D' \<leftarrow> set_info (unat (PhyBlkNum x)) (ALLOC_BLK_MARK OR push_bit 10 (of_nat z)) D;
         kick_items z n (Suc j) (D'\<lparr>di_nFreeCnt := di_nFreeCnt D' - 1\<rparr>)
       }
       else kick_items z n (Suc j) D
     }
   }"

definition kick_zone ::
  "'d phy_ops \<Rightarrow> cfg \<Rightarrow> nat \<Rightarrow> die_info \<Rightarrow> 'd drv \<Rightarrow> (die_info \<times> 'd drv) option" where
  "kick_zone P C z D s = do {
     let die = unat (di_nDie D);
     zt \<leftarrow> arr_get (dr_zone_tbl s) (z + die * ZONE_CNT_OF_DIE C);
     let blk = unat (zt_PhyBlkNum zt);
     let page = unat (zt_TablePst zt);
     zi \<leftarrow> arr_get (di_ZoneInfo D) z;
     s1 \<leftarrow> fmt_load P C die blk (page + DATA_TBL_OFFSET) 0xf s;
     t1 \<leftarrow> load_half 0 (dr_temp_buf s1) (zi_ZoneTbl zi);
     s2 \<leftarrow> fmt_load P C die blk (page + DATA_TBL_OFFSET + 1) 0xf s1;
     t2 \<leftarrow> load_half (BLOCK_CNT_OF_ZONE div 2) (dr_temp_buf s2) t1;
     s3 \<leftarrow> fmt_load P C die blk (page + LOG_TBL_OFFSET) 0xf s2;
     l \<leftarrow> load_logs (dr_temp_buf s3) (zi_LogBlkTbl zi);
     D1 \<leftarrow> upd_zone z (\<lambda>zi. zi\<lparr>zi_ZoneTbl := t2, zi_LogBlkTbl := l\<rparr>) D;
     D2 \<leftarrow> kick_items z (BLOCK_CNT_OF_ZONE - 1) 0 D1;
     Some (D2, s3)
   }"

fun kick_zones ::
  "'d phy_ops \<Rightarrow> cfg \<Rightarrow> nat \<Rightarrow> nat \<Rightarrow> die_info \<Rightarrow> 'd drv \<Rightarrow> (die_info \<times> 'd drv) option" where
  "kick_zones P C 0 i D s = Some (D, s)"
| "kick_zones P C (Suc n) i D s =
    (if \<not> tbl_valid D i then kick_zones P C n (Suc i) D s
     else do { (D1, s1) \<leftarrow> kick_zone P C i D s; kick_zones P C n (Suc i) D1 s1 })"

definition KickValidTblBlk ::
  "'d phy_ops \<Rightarrow> cfg \<Rightarrow> die_info \<Rightarrow> 'd drv \<Rightarrow> (die_info \<times> 'd drv) option" where
  "KickValidTblBlk P C D s = kick_zones P C (ZONE_CNT_OF_DIE C) 0 D s"

section \<open>Log blocks and free blocks of the tables to rebuild\<close>

fun repair_logs ::
  "'d phy_ops \<Rightarrow> cfg \<Rightarrow> nat \<Rightarrow> nat \<Rightarrow> nat \<Rightarrow> die_info \<Rightarrow> 'd drv \<Rightarrow> (die_info \<times> 'd drv) option" where
  "repair_logs P C z 0 i D s = Some (D, s)"
| "repair_logs P C z (Suc n) i D s = do {
     zi \<leftarrow> arr_get (di_ZoneInfo D) z;
     l \<leftarrow> arr_get (zi_LogBlkTbl zi) i;
     if LogicBlkNum l \<noteq> 0xffff
     then do {
       (last, s1) \<leftarrow> GetLastUsedPage P C (unat (di_nDie D)) (unat (PhyBlkNum (PhyBlk l))) s;
       D1 \<leftarrow> set_zone_log z i (\<lambda>l. l\<lparr>LastUsedPage := of_nat last\<rparr>) D;
       repair_logs P C z n (Suc i) D1 s1
     }
     else repair_logs P C z n (Suc i) D s
   }"

fun repair_zones ::
  "'d phy_ops \<Rightarrow> cfg \<Rightarrow> nat \<Rightarrow> nat \<Rightarrow> die_info \<Rightarrow> 'd drv \<Rightarrow> (die_info \<times> 'd drv) option" where
  "repair_zones P C 0 z D s = Some (D, s)"
| "repair_zones P C (Suc n) z D s =
    (if tbl_valid D z then repair_zones P C n (Suc z) D s
     else do {
       (D1, s1) \<leftarrow> repair_logs P C z MAX_LOG_BLK_CNT 0 D s;
       repair_zones P C n (Suc z) D1 s1
     })"

definition RepairLogBlkTbl ::
  "'d phy_ops \<Rightarrow> cfg \<Rightarrow> die_info \<Rightarrow> 'd drv \<Rightarrow> (die_info \<times> 'd drv) option" where
  "RepairLogBlkTbl P C D s = repair_zones P C (ZONE_CNT_OF_DIE C) 0 D s"

text \<open>The empty items of the data block table, \<open>n\<close> to go from \<open>i\<close>.\<close>

fun fill_data_items ::
  "fmt_par \<Rightarrow> nat \<Rightarrow> nat \<Rightarrow> nat \<Rightarrow> die_info \<Rightarrow> (int \<times> die_info) option" where
  "fill_data_items F z 0 i D = Some (0, D)"
| "fill_data_items F z (Suc n) i D = do {
     x \<leftarrow> zone_item z i D;
     if PhyBlkNum x = 0xffff
     then do {
       (free, D1) \<leftarrow> GetFreeBlkFromDieInfo F D;
       case free of
         None \<Rightarrow> Some (-1, D1)
       | Some b \<Rightarrow> do {
           D2 \<leftarrow> set_zone_blk z i (of_nat b) D1;
           D3 \<leftarrow> upd_zone z (\<lambda>zi. zi\<lparr>zi_nDataBlkCnt := zi_nDataBlkCnt zi + 1\<rparr>) D2;
           D4 \<leftarrow> set_info b (push_bit 10 (of_nat z) OR ALLOC_BLK_MARK) D3;
           fill_data_items F z n (Suc i) D4
         }
     }
     else fill_data_items F z n (Suc i) D
   }"

fun fill_data_zones :: "cfg \<Rightarrow> fmt_par \<Rightarrow> nat \<Rightarrow> nat \<Rightarrow> die_info \<Rightarrow> (int \<times> die_info) option" where
  "fill_data_zones C F 0 z D = Some (0, D)"
| "fill_data_zones C F (Suc n) z D =
    (if tbl_valid D z then fill_data_zones C F n (Suc z) D
     else do {
       zi \<leftarrow> arr_get (di_ZoneInfo D) z;
       if int (unat (di_nFreeCnt D)) < int (DATA_BLK_CNT_OF_ZONE C) - int (unat (zi_nDataBlkCnt zi))
       then Some (-1, D)
       else do {
         D1 \<leftarrow> upd_zone z (\<lambda>zi. zi\<lparr>zi_nFreeBlkIndex := of_nat (DATA_BLK_CNT_OF_ZONE C)\<rparr>) D;
         (r, D2) \<leftarrow> fill_data_items F z (DATA_BLK_CNT_OF_ZONE C) 0 D1;
         if r < 0 then Some (-1, D2) else fill_data_zones C F n (Suc z) D2
       }
     })"

text \<open>One round of the loop \<open>while (nFreeCnt > 0)\<close>.\<close>

definition distribute_one :: "cfg \<Rightarrow> fmt_par \<Rightarrow> die_info \<Rightarrow> die_info option" where
  "distribute_one C F D = do {
     z \<leftarrow> LeastBlkCntZone C D;
     zi \<leftarrow> arr_get (di_ZoneInfo D) z;
     if unat (zi_nFreeBlkIndex zi) < BLOCK_CNT_OF_ZONE
     then do {
       (free, D1) \<leftarrow> GetFreeBlkFromDieInfo F D;
       case free of
         None \<Rightarrow> Some D1
       | Some b \<Rightarrow> do {
           D2 \<leftarrow> set_zone_blk z (unat (zi_nFreeBlkIndex zi)) (of_nat b) D1;
           D3 \<leftarrow> upd_zone z (\<lambda>zi. zi\<lparr>zi_nFreeBlkIndex := zi_nFreeBlkIndex zi + 1,
                                    zi_nFreeBlkCnt := zi_nFreeBlkCnt zi + 1\<rparr>) D2;
           set_info b (push_bit 10 (of_nat z) OR ALLOC_BLK_MARK) D3
         }
     }
     else Some D
   }"

text \<open>The loop itself. The outer \<^term>\<open>None\<close> says that it never ends, the inner one that a round runs into
  behaviour the C code does not define.\<close>

definition distribute_rest :: "cfg \<Rightarrow> fmt_par \<Rightarrow> die_info \<Rightarrow> die_info option option" where
  "distribute_rest C F D =
     while_option (\<lambda>r. case r of None \<Rightarrow> False | Some D' \<Rightarrow> di_nFreeCnt D' > 0)
       (\<lambda>r. r \<bind> distribute_one C F) (Some D)"

definition DistributeFreeBlk :: "cfg \<Rightarrow> fmt_par \<Rightarrow> die_info \<Rightarrow> (int \<times> die_info) option" where
  "DistributeFreeBlk C F D = do {
     (r, D1) \<leftarrow> fill_data_zones C F (ZONE_CNT_OF_DIE C) 0
                 (D\<lparr>di_nFreeIndex := of_nat (first_blk F D)\<rparr>);
     if r < 0 then Some (-1, D1)
     else do {
       res \<leftarrow> distribute_rest C F D1;
       D2 \<leftarrow> res;
       Some (0, D2)
     }
   }"

section \<open>Writing the block mapping tables\<close>

definition clear_erase_cnt :: "super_phy_blk \<Rightarrow> super_phy_blk" where
  "clear_erase_cnt x = (if PhyBlkNum x \<noteq> 0xffff then x\<lparr>BlkEraseCnt := 0\<rparr> else x)"

definition clear_log_erase_cnt :: "log_blk \<Rightarrow> log_blk" where
  "clear_log_erase_cnt l =
     (if LogicBlkNum l \<noteq> 0xffff then l\<lparr>PhyBlk := PhyBlk l\<lparr>BlkEraseCnt := 0\<rparr>\<rparr> else l)"

definition sum_zone_tbl :: "super_phy_blk list \<Rightarrow> super_phy_blk list option" where
  "sum_zone_tbl t = do {
     sum \<leftarrow> CalCheckSum (map blk_word t) (BLOCK_CNT_OF_ZONE - 1);
     arr_set t (BLOCK_CNT_OF_ZONE - 1) (word_blk sum)
   }"

text \<open>The three images of a table group, each made in the page buffer \<open>buf\<close>.\<close>

definition zone_image1 :: "cfg \<Rightarrow> super_phy_blk list \<Rightarrow> u8 list \<Rightarrow> u8 list option" where
  "zone_image1 C t buf = do {
     b0 \<leftarrow> mem_put buf 0 (replicate (SECTOR_CNT_OF_SUPER_PAGE C * SECTOR_SIZE) 0xff);
     half \<leftarrow> mem_get (blks_image t) 0 (SECTOR_SIZE * 4);
     mem_put b0 0 half
   }"

definition zone_image2 :: "super_phy_blk list \<Rightarrow> u8 list \<Rightarrow> u8 list option" where
  "zone_image2 t buf = do {
     half \<leftarrow> mem_get (blks_image t) (BLOCK_CNT_OF_ZONE div 2 * 4) (SECTOR_SIZE * 4);
     mem_put buf 0 half
   }"

definition zone_image3 :: "cfg \<Rightarrow> log_blk list \<Rightarrow> u8 list \<Rightarrow> u8 list option" where
  "zone_image3 C l buf = do {
     b0 \<leftarrow> mem_put buf 0 (replicate (SECTOR_CNT_OF_SUPER_PAGE C * SECTOR_SIZE) 0xff);
     img \<leftarrow> mem_get (logs_image l) 0 (LOG_BLK_CNT_OF_ZONE * 8);
     b1 \<leftarrow> mem_put b0 0 img;
     sum \<leftarrow> CalCheckSum (words_of_bytes b1) (LOG_BLK_CNT_OF_ZONE * 8 div 4);
     put_word b1 511 sum
   }"

definition tbl_ud :: "nat \<Rightarrow> user_data \<Rightarrow> user_data" where
  "tbl_ud z u = u\<lparr>ud_BadBlkFlag := 0xff,
     ud_LogicInfo := push_bit 14 1 OR push_bit 10 (of_nat z) OR of_nat TABLE_BLK_MARK,
     ud_LogicPageNum := 0xffff, ud_PageStatus := 0x55\<rparr>"

definition tbl_spare :: "cfg \<Rightarrow> nat \<Rightarrow> u8 list" where
  "tbl_spare C z = (let u = dec_ud2 (junk_spare C) in enc_ud2 (tbl_ud z (fst u), tbl_ud z (snd u)))"

definition write_image ::
  "'d phy_ops \<Rightarrow> cfg \<Rightarrow> nat \<Rightarrow> nat \<Rightarrow> nat \<Rightarrow> nat \<Rightarrow> u8 list \<Rightarrow> 'd drv \<Rightarrow> (int \<times> 'd drv) option" where
  "write_image P C die z blk page img s = do {
     (result, s1) \<leftarrow> fmt_VirtualPageWrite P C die blk page (FULL_BITMAP_OF_SUPER_PAGE C)
                      (Some (tbl_spare C z)) (s\<lparr>dr_temp_buf := img\<rparr>);
     if result < 0
     then do { s2 \<leftarrow> WriteBadBlkFlag P C die blk s1; Some (-1, s2) }
     else Some (0, s1)
   }"

definition write_group ::
  "'d phy_ops \<Rightarrow> cfg \<Rightarrow> nat \<Rightarrow> nat \<Rightarrow> nat \<Rightarrow> nat \<Rightarrow> super_phy_blk list \<Rightarrow> log_blk list \<Rightarrow> 'd drv
   \<Rightarrow> (int \<times> 'd drv) option" where
  "write_group P C die z blk page t l s = do {
     img1 \<leftarrow> zone_image1 C t (dr_temp_buf s);
     (r1, s1) \<leftarrow> write_image P C die z blk (page + DATA_TBL_OFFSET) img1 s;
     if r1 < 0 then Some (-1, s1)
     else do {
       img2 \<leftarrow> zone_image2 t (dr_temp_buf s1);
       (r2, s2) \<leftarrow> write_image P C die z blk (page + DATA_TBL_OFFSET + 1) img2 s1;
       if r2 < 0 then Some (-1, s2)
       else do {
         img3 \<leftarrow> zone_image3 C l (dr_temp_buf s2);
         write_image P C die z blk (page + LOG_TBL_OFFSET) img3 s2
       }
     }
   }"

text \<open>The page of the next table group, after an erase when the block is full; \<^term>\<open>None\<close> inside when the
  erase fails.\<close>

definition next_group ::
  "'d phy_ops \<Rightarrow> cfg \<Rightarrow> nat \<Rightarrow> nat \<Rightarrow> nat \<Rightarrow> 'd drv \<Rightarrow> (nat option \<times> 'd drv) option" where
  "next_group P C die blk pst s =
    (let page = (if pst = 0xffff then 0 else pst + PAGE_CNT_OF_TBL_GROUP)
     in if page < PAGE_CNT_OF_SUPER_BLK C then Some (Some page, s)
        else let (result, s1) = fmt_VirtualBlockErase P C die blk s
             in if result < 0
                then do { s2 \<leftarrow> WriteBadBlkFlag P C die blk s1; Some (None, s2) }
                else Some (Some 0, s1))"

definition write_zone ::
  "'d phy_ops \<Rightarrow> cfg \<Rightarrow> nat \<Rightarrow> die_info \<Rightarrow> 'd drv \<Rightarrow> (int \<times> die_info \<times> 'd drv) option" where
  "write_zone P C z D s = do {
     let die = unat (di_nDie D);
     let k = die * ZONE_CNT_OF_DIE C + z;
     zt \<leftarrow> arr_get (dr_zone_tbl s) k;
     let blk = unat (zt_PhyBlkNum zt);
     (group, s1) \<leftarrow> next_group P C die blk (unat (zt_TablePst zt)) s;
     case group of
       None \<Rightarrow> Some (-1, D, s1)
     | Some page \<Rightarrow> do {
         zi \<leftarrow> arr_get (di_ZoneInfo D) z;
         t \<leftarrow> mem_get (zi_ZoneTbl zi) 0 BLOCK_CNT_OF_ZONE;
         l \<leftarrow> mem_get (zi_LogBlkTbl zi) 0 MAX_LOG_BLK_CNT;
         let l1 = map clear_log_erase_cnt l;
         t1 \<leftarrow> sum_zone_tbl (map clear_erase_cnt t);
         D1 \<leftarrow> upd_zone z (\<lambda>zi. zi\<lparr>zi_ZoneTbl := t1, zi_LogBlkTbl := l1\<rparr>) D;
         (result, s2) \<leftarrow> write_group P C die z blk page t1 l1 s1;
         if result < 0 then Some (-1, D1, s2)
         else do { s3 \<leftarrow> set_zone_pst k (zt_PhyBlkNum zt) (of_nat page) s2; Some (0, D1, s3) }
       }
   }"

fun write_zones ::
  "'d phy_ops \<Rightarrow> cfg \<Rightarrow> nat \<Rightarrow> nat \<Rightarrow> die_info \<Rightarrow> 'd drv \<Rightarrow> (int \<times> die_info \<times> 'd drv) option" where
  "write_zones P C 0 z D s = Some (0, D, s)"
| "write_zones P C (Suc n) z D s =
    (if tbl_valid D z then write_zones P C n (Suc z) D s
     else do {
       (r, D1, s1) \<leftarrow> write_zone P C z D s;
       if r < 0 then Some (-1, D1, s1) else write_zones P C n (Suc z) D1 s1
     })"

definition WriteBlkMapTbl ::
  "'d phy_ops \<Rightarrow> cfg \<Rightarrow> die_info \<Rightarrow> 'd drv \<Rightarrow> (int \<times> die_info \<times> 'd drv) option" where
  "WriteBlkMapTbl P C D s = write_zones P C (ZONE_CNT_OF_DIE C) 0 D s"

section \<open>Searching the block mapping tables\<close>

text \<open>What the \<open>MALLOC\<close> calls of the format module return: \<^term>\<open>None\<close> for failure, otherwise a buffer with
  arbitrary contents. The first argument is the die, the second the block or the attempt.\<close>

record fmt_heap =
  hp_DataBlkTbl :: "nat \<Rightarrow> nat \<Rightarrow> super_phy_blk list option"
  hp_PhyBlk :: "nat \<Rightarrow> nat \<Rightarrow> u16 list option"
  hp_ZoneInfo :: "nat \<Rightarrow> nat \<Rightarrow> zone_info list option"

definition zone_tbl_ok :: "super_phy_blk list \<Rightarrow> bool option" where
  "zone_tbl_ok t = do {
     sum \<leftarrow> CalCheckSum (map blk_word t) (BLOCK_CNT_OF_ZONE - 1);
     x \<leftarrow> arr_get t (BLOCK_CNT_OF_ZONE - 1);
     Some (sum = blk_word x)
   }"

definition log_tbl_ok :: "u8 list \<Rightarrow> bool option" where
  "log_tbl_ok buf = do {
     sum \<leftarrow> CalCheckSum (words_of_bytes buf) (LOG_BLK_CNT_OF_ZONE * 8 div 4);
     w \<leftarrow> get_word buf 511;
     Some (sum = w)
   }"

text \<open>The tests on the last table group of a table block: its dirty flag and its two checksums.\<close>

definition group_valid ::
  "'d phy_ops \<Rightarrow> cfg \<Rightarrow> fmt_heap \<Rightarrow> nat \<Rightarrow> nat \<Rightarrow> nat \<Rightarrow> 'd drv \<Rightarrow> (bool \<times> 'd drv) option" where
  "group_valid P C H die blk page s = do {
     s1 \<leftarrow> fmt_load P C die blk (page + DIRTY_FLAG_OFFSET) 0x1 s;
     flag \<leftarrow> arr_get (dr_temp_buf s1) 0;
     if flag \<noteq> 0xff then Some (False, s1)
     else do {
       t0 \<leftarrow> hp_DataBlkTbl H die blk;
       s2 \<leftarrow> fmt_load P C die blk (page + DATA_TBL_OFFSET) 0xf s1;
       t1 \<leftarrow> load_half 0 (dr_temp_buf s2) t0;
       s3 \<leftarrow> fmt_load P C die blk (page + DATA_TBL_OFFSET + 1) 0xf s2;
       t2 \<leftarrow> load_half (BLOCK_CNT_OF_ZONE div 2) (dr_temp_buf s3) t1;
       ok \<leftarrow> zone_tbl_ok t2;
       if \<not> ok then Some (False, s3)
       else do {
         s4 \<leftarrow> fmt_load P C die blk (page + LOG_TBL_OFFSET) 0xf s3;
         ok' \<leftarrow> log_tbl_ok (dr_temp_buf s4);
         Some (ok', s4)
       }
     }
   }"

definition drop_tbl_blk ::
  "'d phy_ops \<Rightarrow> cfg \<Rightarrow> nat \<Rightarrow> nat \<Rightarrow> 'd drv \<Rightarrow> 'd drv option" where
  "drop_tbl_blk P C die blk s =
    (let (result, s1) = fmt_VirtualBlockErase P C die blk s
     in if result < 0 then WriteBadBlkFlag P C die blk s1 else Some s1)"

definition search_blk ::
  "'d phy_ops \<Rightarrow> cfg \<Rightarrow> fmt_heap \<Rightarrow> nat \<Rightarrow> u8 list \<Rightarrow> die_info \<Rightarrow> 'd drv
   \<Rightarrow> (u8 list \<times> die_info \<times> 'd drv) option" where
  "search_blk P C H blk sp D s = do {
     let die = unat (di_nDie D);
     let u = dec_ud2 sp;
     let sp0 = enc_ud2 ((fst u)\<lparr>ud_BadBlkFlag := 0xff\<rparr>, (snd u)\<lparr>ud_BadBlkFlag := 0xff\<rparr>);
     (_, sp1, s1) \<leftarrow> fmt_VirtualPageRead P C die blk 0 (FULL_BITMAP_OF_SUPER_PAGE C) (Some sp0) s;
     let v = dec_ud2 sp1;
     let info = ud_LogicInfo (fst v);
     if ud_BadBlkFlag (fst v) \<noteq> 0xff \<or> ud_BadBlkFlag (snd v) \<noteq> 0xff
        \<or> GET_LOGIC_INFO_TYPE info \<noteq> 1 \<or> GET_LOGIC_INFO_BLK info \<noteq> TABLE_BLK_MARK
     then Some (sp1, D, s1)
     else if \<not> GET_LOGIC_INFO_ZONE info < ZONE_CNT_OF_DIE C
     then do { s2 \<leftarrow> drop_tbl_blk P C die blk s1; Some (sp1, D, s2) }
     else do {
       let z = GET_LOGIC_INFO_ZONE info;
       let k = z + die * ZONE_CNT_OF_DIE C;
       zt \<leftarrow> arr_get (dr_zone_tbl s1) k;
       if zt_PhyBlkNum zt \<noteq> 0xffff
       then do { s2 \<leftarrow> drop_tbl_blk P C die blk s1; Some (sp1, D, s2) }
       else do {
         (page, s2) \<leftarrow> SearchBlkTblPst P C die blk s1;
         s3 \<leftarrow> set_zone_pst k (of_nat blk) (of_nat page) s2;
         (ok, s4) \<leftarrow> group_valid P C H die blk page s3;
         Some (sp1, (if ok then D\<lparr>di_TblBitmap := di_TblBitmap D OR push_bit z 1\<rparr> else D), s4)
       }
     }
   }"

fun search_blks ::
  "'d phy_ops \<Rightarrow> cfg \<Rightarrow> fmt_heap \<Rightarrow> nat \<Rightarrow> nat \<Rightarrow> u8 list \<Rightarrow> die_info \<Rightarrow> 'd drv
   \<Rightarrow> (die_info \<times> 'd drv) option" where
  "search_blks P C H 0 blk sp D s = Some (D, s)"
| "search_blks P C H (Suc n) blk sp D s = do {
     (sp1, D1, s1) \<leftarrow> search_blk P C H blk sp D s;
     search_blks P C H n (Suc blk) sp1 D1 s1
   }"

definition SearchZoneTbls ::
  "'d phy_ops \<Rightarrow> cfg \<Rightarrow> fmt_par \<Rightarrow> fmt_heap \<Rightarrow> die_info \<Rightarrow> 'd drv \<Rightarrow> (int \<times> die_info \<times> 'd drv) option" where
  "SearchZoneTbls P C F H D s = do {
     (D', s') \<leftarrow> search_blks P C H (TBL_AREA_BLK_NUM - first_blk F D) (first_blk F D) (junk_spare C) D s;
     Some (if list_all (tbl_valid D') [0..<ZONE_CNT_OF_DIE C] then 0 else -1, D', s')
   }"

section \<open>Rebuilding the tables of a die\<close>

abbreviation (input) RET_FORMAT_TRY_AGAIN :: int where "RET_FORMAT_TRY_AGAIN \<equiv> -2"

definition init_zone :: "nat \<Rightarrow> zone_info list \<Rightarrow> zone_info list option" where
  "init_zone i zs = do {
     zi \<leftarrow> arr_get zs i;
     t \<leftarrow> mem_put (zi_ZoneTbl zi) 0 (replicate BLOCK_CNT_OF_ZONE empty_phy_blk);
     l \<leftarrow> mem_put (zi_LogBlkTbl zi) 0 (replicate MAX_LOG_BLK_CNT empty_log_blk);
     arr_set zs i \<lparr>zi_nDataBlkCnt = 0, zi_nFreeBlkCnt = 0, zi_nFreeBlkIndex = 0, zi_ZoneTbl = t, zi_LogBlkTbl = l\<rparr>
   }"

definition init_die ::
  "cfg \<Rightarrow> fmt_par \<Rightarrow> u16 list \<Rightarrow> zone_info list \<Rightarrow> die_info \<Rightarrow> die_info option" where
  "init_die C F pb zs D = do {
     p \<leftarrow> mem_put pb 0 (replicate (unat (SuperBlkCntOfDie F)) 0xffff);
     zs' \<leftarrow> each init_zone (ZONE_CNT_OF_DIE C) 0 zs;
     Some (D\<lparr>di_nFreeIndex := of_nat (first_blk F D), di_pPhyBlk := p, di_ZoneInfo := zs'\<rparr>)
   }"

definition RebuildZoneTbls ::
  "'d phy_ops \<Rightarrow> cfg \<Rightarrow> fmt_par \<Rightarrow> u16 list option \<Rightarrow> zone_info list option \<Rightarrow> die_info \<Rightarrow> 'd drv
   \<Rightarrow> (int \<times> die_info \<times> 'd drv) option" where
  "RebuildZoneTbls P C F pb zs D s =
    (case (pb, zs) of
       (Some pb', Some zs') \<Rightarrow> do {
         D1 \<leftarrow> init_die C F pb' zs' D;
         (D2, s2) \<leftarrow> GetBlkLogicInfo P C F D1 s;
         (D3, s3) \<leftarrow> FillZoneTblInfo P C F D2 s2;
         (D4, s4) \<leftarrow> KickValidTblBlk P C D3 s3;
         (r5, D5, s5) \<leftarrow> GetMapTblBlock P C F D4 s4;
         if r5 < 0 then Some (-1, D5, s5)
         else do {
           (D6, s6) \<leftarrow> RepairLogBlkTbl P C D5 s5;
           (r7, D7) \<leftarrow> DistributeFreeBlk C F D6;
           if r7 < 0 then Some (-1, D7, s6)
           else do {
             (r8, D8, s8) \<leftarrow> WriteBlkMapTbl P C D7 s6;
             if r8 < 0 then Some (RET_FORMAT_TRY_AGAIN, D8, s8) else Some (0, D8, s8)
           }
         }
       }
     | _ \<Rightarrow> Some (-1, D, s))"

section \<open>Formatting\<close>

text \<open>The attempts of \<open>FMT_FormatNand\<close> on one die: \<open>n\<close> are left, \<open>result\<close> is that of the last one.\<close>

fun format_try ::
  "'d phy_ops \<Rightarrow> cfg \<Rightarrow> fmt_par \<Rightarrow> fmt_heap \<Rightarrow> nat \<Rightarrow> int \<Rightarrow> die_info \<Rightarrow> 'd drv
   \<Rightarrow> (int \<times> die_info \<times> 'd drv) option" where
  "format_try P C F H 0 result D s = Some (result, D, s)"
| "format_try P C F H (Suc n) result D s = do {
     let die = unat (di_nDie D);
     (r, D', s') \<leftarrow> RebuildZoneTbls P C F (hp_PhyBlk H die n) (hp_ZoneInfo H die n) D s;
     if r \<noteq> RET_FORMAT_TRY_AGAIN then Some (r, D', s') else format_try P C F H n r D' s'
   }"

definition new_die :: "nat \<Rightarrow> die_info" where
  "new_die die = \<lparr>di_nDie = of_nat die, di_TblBitmap = 0, di_nBadCnt = 0, di_nFreeCnt = 0, di_nFreeIndex = 0,
     di_pPhyBlk = [], di_ZoneInfo = []\<rparr>"

definition format_die ::
  "'d phy_ops \<Rightarrow> cfg \<Rightarrow> fmt_par \<Rightarrow> fmt_heap \<Rightarrow> nat \<Rightarrow> 'd drv \<Rightarrow> (int \<times> 'd drv) option" where
  "format_die P C F H die s = do {
     (result, D, s1) \<leftarrow> SearchZoneTbls P C F H (new_die die) s;
     if result < 0
     then do { (r, _, s2) \<leftarrow> format_try P C F H 5 result D s1; Some (r, s2) }
     else Some (result, s1)
   }"

fun format_dies ::
  "'d phy_ops \<Rightarrow> cfg \<Rightarrow> fmt_par \<Rightarrow> fmt_heap \<Rightarrow> nat \<Rightarrow> nat \<Rightarrow> int \<Rightarrow> 'd drv \<Rightarrow> (int \<times> 'd drv) option" where
  "format_dies P C F H 0 die result s = Some (result, s)"
| "format_dies P C F H (Suc n) die result s = do {
     (r, s') \<leftarrow> format_die P C F H die s;
     format_dies P C F H n (Suc die) r s'
   }"

definition FMT_FormatNand ::
  "'d phy_ops \<Rightarrow> cfg \<Rightarrow> fmt_par \<Rightarrow> fmt_heap \<Rightarrow> 'd drv \<Rightarrow> (int \<times> 'd drv) option" where
  "FMT_FormatNand P C F H s = do {
     (result, s') \<leftarrow> format_dies P C F H (unat (DieCntOfNand F)) 0 0 s;
     Some (if result < 0 then -1 else 0, s')
   }"

definition FMT_Exit :: int where "FMT_Exit = 0"

section \<open>Initialisation\<close>

record blk_for_boot1 =
  blk_size :: u32
  blks_boot0 :: u32
  blks_boot1 :: u32

definition blks_array :: "blk_for_boot1 list" where
  "blks_array =
    [\<lparr>blk_size = 16, blks_boot0 = 4, blks_boot1 = 16\<rparr>,
     \<lparr>blk_size = 32, blks_boot0 = 4, blks_boot1 = 8\<rparr>,
     \<lparr>blk_size = 128, blks_boot0 = 4, blks_boot1 = 3\<rparr>,
     \<lparr>blk_size = 256, blks_boot0 = 4, blks_boot1 = 3\<rparr>,
     \<lparr>blk_size = 512, blks_boot0 = 4, blks_boot1 = 3\<rparr>,
     \<lparr>blk_size = 0xffffffff, blks_boot0 = 4, blks_boot1 = 3\<rparr>]"

fun boot_blks :: "u32 \<Rightarrow> blk_for_boot1 list \<Rightarrow> u32 option" where
  "boot_blks kb [] = None"
| "boot_blks kb (b # bs) =
    (if blk_size b = 0xffffffff \<or> blk_size b = kb then Some (blks_boot0 b + blks_boot1 b) else boot_blks kb bs)"

definition init_arch :: "storage_info \<Rightarrow> bool \<Rightarrow> logic_arch" where
  "init_arch S ext =
    (let pages = of_nat (unat (PageCntPerPhyBlk S) * unat (BankCntPerChip S)) :: u16 in
     \<lparr>LogicBlkCntPerZone = ValidBlkRatio S,
      PageCntPerLogicBlk = (if ext \<and> ChipCnt S \<ge> 2 then pages * 2 else pages),
      SectCntPerLogicPage = SectorCntPerPage S * PlaneCntPerDie S,
      ZoneCntPerDie = of_nat (unat (BlkCntPerDie S) div unat (PlaneCntPerDie S) div BLOCK_CNT_OF_ZONE)\<rparr>)"

text \<open>The static variables and the logical architecture that \<open>FMT_Init\<close> computes from the storage information,
  with the driver state after it. A division by zero is undefined.\<close>

definition FMT_Init :: "cfg \<Rightarrow> 'd drv \<Rightarrow> (fmt_par \<times> cfg \<times> 'd drv) option" where
  "FMT_Init C s = do {
     let S = storage C;
     first \<leftarrow> boot_blks (of_nat (SECTOR_CNT_OF_SINGLE_PAGE C * PAGE_CNT_OF_PHY_BLK C div 2)) blks_array;
     if PlaneCntPerDie S = 0 \<or> BankCntPerChip S = 0 then None
     else do {
       let C' = C\<lparr>arch := init_arch S (SUPPORT_EXT_INTERLEAVE C)\<rparr>;
       t \<leftarrow> mem_put (dr_zone_tbl s) 0 (replicate MAX_ZONE_CNT \<lparr>zt_PhyBlkNum = 0xffff, zt_TablePst = 0xffff\<rparr>);
       sp \<leftarrow> mem_put (dr_spare_buf s) 0 (replicate (SECTOR_CNT_OF_SUPER_PAGE C' * 4) 0xff);
       let dies = (of_nat (unat (DieCntPerChip S) div unat (BankCntPerChip S)) :: u32);
       let dies' = (if \<not> SUPPORT_EXT_INTERLEAVE C then dies * ucast (ChipCnt S)
                    else if ChipCnt S \<ge> 2 then dies * of_nat (unat (ChipCnt S) div 2) else dies);
       Some (\<lparr>DieCntOfNand = dies',
              SuperBlkCntOfDie = of_nat (unat (BlkCntPerDie S) div unat (PlaneCntPerDie S)),
              DIE0_FIRST_BLK_NUM = first\<rparr>,
             C', s\<lparr>dr_zone_tbl := t, dr_spare_buf := sp\<rparr>)
     }
   }"

section \<open>The areas of the flash\<close>

record flash_area =
  fa_sectors_per_page :: u32
  fa_first_pageno :: u32
  fa_page_count :: u32

record flash_props =
  fp_areas :: "flash_area list"
  fp_sectors_per_page :: u32
  fp_pages_per_block :: u32
  fp_blocks_per_chip :: u32
  fp_chip_cnt :: u32
  fp_pagewithbadflag :: u32
  fp_block_cnt_of_zone :: u32

text \<open>The areas in the order of \<open>enum FlashMemoryArea\<close>: the two boot areas, the physical and the logical
  disk.\<close>

definition FMT_GetFlashMemProperties :: "cfg \<Rightarrow> fmt_par \<Rightarrow> flash_props" where
  "FMT_GetFlashMemProperties C F =
    (let spp = of_nat (SECTOR_CNT_OF_SINGLE_PAGE C) :: u32;
         ppb = of_nat (PAGE_CNT_OF_PHY_BLK C) :: u32;
         chips = unat (ChipCnt (storage C));
         planes = (if SUPPORT_MULTI_PROGRAM C then PLANE_CNT_OF_DIE C else 1)
     in \<lparr>fp_areas =
          [\<lparr>fa_sectors_per_page = 2, fa_first_pageno = 0, fa_page_count = 512\<rparr>,
           \<lparr>fa_sectors_per_page = spp, fa_first_pageno = 512,
            fa_page_count = DIE0_FIRST_BLK_NUM F * ppb - 512\<rparr>,
           \<lparr>fa_sectors_per_page = spp, fa_first_pageno = DIE0_FIRST_BLK_NUM F * ppb,
            fa_page_count = ppb * (of_nat (BLOCK_CNT_OF_DIE C * DIE_CNT_OF_CHIP C * chips) - DIE0_FIRST_BLK_NUM F)\<rparr>,
           \<lparr>fa_sectors_per_page = of_nat (SECTOR_CNT_OF_SINGLE_PAGE C * planes), fa_first_pageno = 0,
            fa_page_count = of_nat (PAGE_CNT_OF_PHY_BLK C * BLOCK_CNT_OF_DIE C * DIE_CNT_OF_CHIP C * chips
              div 1024 * DATA_BLK_CNT_OF_ZONE C div planes)\<rparr>],
         fp_sectors_per_page = spp, fp_pages_per_block = ppb,
         fp_blocks_per_chip = of_nat (BLOCK_CNT_OF_DIE C * DIE_CNT_OF_CHIP C), fp_chip_cnt = of_nat chips,
         fp_pagewithbadflag = ucast (BadBlockFlagPosition (OptPhyOpPar (storage C))),
         fp_block_cnt_of_zone = of_nat (DATA_BLK_CNT_OF_ZONE C)\<rparr>)"

section \<open>The distribution of the free blocks ends\<close>

text \<open>The zones whose tables are rebuilt, and the blocks that \<open>_LeastBlkCntZone\<close> counts in one.\<close>

definition open_zones :: "cfg \<Rightarrow> die_info \<Rightarrow> nat set" where
  "open_zones C D = {z. z < ZONE_CNT_OF_DIE C \<and> \<not> tbl_valid D z}"

definition zone_total :: "cfg \<Rightarrow> zone_info \<Rightarrow> nat" where
  "zone_total C zi = DATA_BLK_CNT_OF_ZONE C + unat (zi_nFreeBlkCnt zi)
     + length (filter (\<lambda>l. LogicBlkNum l \<noteq> 0xffff) (zi_LogBlkTbl zi))"

lemma least_zone_spec:
  assumes D: "die_shape C D"
  shows "lo + n \<le> ZONE_CNT_OF_DIE C \<Longrightarrow> \<exists>r. least_zone C D n lo best bz = Some r
    \<and> ((r = bz \<and> (\<forall>z. lo \<le> z \<longrightarrow> z < lo + n \<longrightarrow> \<not> tbl_valid D z \<longrightarrow> best \<le> zone_total C (di_ZoneInfo D ! z)))
     \<or> (lo \<le> r \<and> r < lo + n \<and> \<not> tbl_valid D r \<and> zone_total C (di_ZoneInfo D ! r) < best
        \<and> (\<forall>z. lo \<le> z \<longrightarrow> z < lo + n \<longrightarrow> \<not> tbl_valid D z \<longrightarrow>
              zone_total C (di_ZoneInfo D ! r) \<le> zone_total C (di_ZoneInfo D ! z))))"
proof (induction n arbitrary: lo best bz)
  case (Suc n)
  let ?zi = "di_ZoneInfo D ! lo"
  have lo: "lo < length (di_ZoneInfo D)" "zone_shape ?zi"
    using Suc.prems zone_at [OF D] D by (simp_all add: die_shape_def)
  have logs: "mem_get (zi_LogBlkTbl ?zi) 0 MAX_LOG_BLK_CNT = Some (zi_LogBlkTbl ?zi)"
    using lo(2) by (simp add: zone_shape_def mem_get_def)
  have split: "(\<forall>z. lo \<le> z \<longrightarrow> z < lo + Suc n \<longrightarrow> Q z) \<longleftrightarrow> Q lo \<and> (\<forall>z. Suc lo \<le> z \<longrightarrow> z < Suc lo + n \<longrightarrow> Q z)"
    for Q by (metis Suc_leI add_Suc add_Suc_right le_neq_implies_less le_refl lessI less_add_Suc1 Suc_le_lessD order.strict_implies_order)
  note IH = Suc.IH [of "Suc lo"]
  show ?case
  proof (cases "tbl_valid D lo")
    case True
    with IH [of best bz] Suc.prems show ?thesis unfolding split by auto
  next
    case False
    let ?t = "zone_total C ?zi"
    have step: "least_zone C D (Suc n) lo best bz =
        (if ?t < best then least_zone C D n (Suc lo) ?t lo else least_zone C D n (Suc lo) best bz)"
      using False lo(1) logs by (simp add: zone_total_def Let_def)
    show ?thesis
    proof (cases "?t < best")
      case True
      with False IH [of ?t lo] Suc.prems show ?thesis
        unfolding split step by (auto intro: order.strict_trans)
    next
      case False': False
      with False IH [of best bz] Suc.prems show ?thesis
        unfolding split step by (auto intro: order.strict_implies_order order.strict_trans2)
    qed
  qed
qed simp


lemma LeastBlkCntZone_least:
  assumes D: "die_shape C D" and z: "z \<in> open_zones C D" and lt: "zone_total C (di_ZoneInfo D ! z) < 0xffff"
  shows "\<exists>r. LeastBlkCntZone C D = Some r \<and> r \<in> open_zones C D
    \<and> (\<forall>z \<in> open_zones C D. zone_total C (di_ZoneInfo D ! r) \<le> zone_total C (di_ZoneInfo D ! z))"
  using least_zone_spec [OF D, where lo = 0 and n = "ZONE_CNT_OF_DIE C" and best = "0xffff" and bz = 0] z lt
  unfolding LeastBlkCntZone_def open_zones_def by fastforce

definition free_set :: "fmt_par \<Rightarrow> die_info \<Rightarrow> nat set" where
  "free_set F D = blks_where (\<lambda>i. i = FREE_BLOCK_INFO) (unat (di_nFreeIndex D)) (unat (SuperBlkCntOfDie F)) (di_pPhyBlk D)"

lemma finite_free_set [simp]: "finite (free_set F D)"
  by (simp add: free_set_def)

lemma GetFreeBlk_die:
  assumes "length (di_pPhyBlk D) = unat (SuperBlkCntOfDie F)" and "unat (SuperBlkCntOfDie F) \<le> 65535"
    and "free_set F D \<noteq> {}"
  shows "\<exists>b. b \<in> free_set F D \<and> (\<forall>c \<in> free_set F D. b \<le> c) \<and> GetFreeBlkFromDieInfo F D = Some (Some b,
    D\<lparr>di_pPhyBlk := (di_pPhyBlk D)[b := NULL_BLOCK_INFO], di_nFreeIndex := of_nat b, di_nFreeCnt := di_nFreeCnt D - 1\<rparr>)"
proof -
  let ?N = "unat (SuperBlkCntOfDie F)" and ?s = "unat (di_nFreeIndex D)"
  obtain b where b: "b \<in> free_set F D" "\<forall>c \<in> free_set F D. b \<le> c"
    using Min_in [OF finite_free_set assms(3)] Min_le [OF finite_free_set] by blast
  then have bb: "?s \<le> b" "b < ?N" "di_pPhyBlk D ! b = FREE_BLOCK_INFO" by (auto simp: free_set_def blks_where_def)
  have "scan (\<lambda>x. x = FREE_BLOCK_INFO) (di_pPhyBlk D) 0 (?N - ?s) ?s = Some (Some b)"
  proof (rule scan_first)
    fix j assume j: "?s \<le> j" "j < b"
    then show "di_pPhyBlk D ! (0 + j) \<noteq> FREE_BLOCK_INFO"
      using b(2) bb(2) by (fastforce simp: free_set_def blks_where_def)
  qed (use assms(1) bb in auto)
  then have "GetFreeBlkFromDieInfo F D = Some (Some b, D\<lparr>di_pPhyBlk := (di_pPhyBlk D)[b := NULL_BLOCK_INFO],
      di_nFreeIndex := of_nat b, di_nFreeCnt := di_nFreeCnt D - 1\<rparr>)"
    using bb assms(1) by (simp add: GetFreeBlkFromDieInfo_def Let_def set_info_def)
  with b show ?thesis by blast
qed

text \<open>What holds at the head of the loop.\<close>

definition dist_inv :: "cfg \<Rightarrow> fmt_par \<Rightarrow> die_info \<Rightarrow> bool" where
  "dist_inv C F D \<longleftrightarrow> die_shape C D \<and> length (di_pPhyBlk D) = unat (SuperBlkCntOfDie F)
     \<and> unat (SuperBlkCntOfDie F) \<le> 65535 \<and> open_zones C D \<noteq> {}
     \<and> (\<forall>z \<in> open_zones C D. let zi = di_ZoneInfo D ! z in
          unat (zi_nFreeBlkIndex zi) = DATA_BLK_CNT_OF_ZONE C + unat (zi_nFreeBlkCnt zi)
          \<and> unat (zi_nFreeBlkIndex zi) \<le> BLOCK_CNT_OF_ZONE
          \<and> (\<forall>i. unat (zi_nFreeBlkIndex zi) \<le> i \<longrightarrow> i < BLOCK_CNT_OF_ZONE \<longrightarrow> PhyBlkNum (zi_ZoneTbl zi ! i) = 0xffff))
     \<and> unat (di_nFreeCnt D) = card (free_set F D)
     \<and> (\<Sum>z \<in> open_zones C D. zone_total C (di_ZoneInfo D ! z)) + unat (di_nFreeCnt D)
         \<le> BLOCK_CNT_OF_ZONE * card (open_zones C D)"

lemma finite_open_zones [simp]: "finite (open_zones C D)"
  by (simp add: open_zones_def)

lemma alloc_not_free: "(push_bit 10 (of_nat z) OR ALLOC_BLK_MARK :: u16) \<noteq> FREE_BLOCK_INFO"
proof -
  have "\<not> bit (push_bit 10 (of_nat z) OR ALLOC_BLK_MARK :: u16) 8"
    by (simp add: bit_or_iff bit_push_bit_iff)
  moreover have "bit (FREE_BLOCK_INFO :: u16) 8" by simp
  ultimately show ?thesis by metis
qed

lemma unat_dec: "(x :: u16) > 0 \<Longrightarrow> unat (x - 1) = unat x - 1"
  by (simp add: unat_minus_one word_neq_0_conv)

lemma unat_inc: "unat (x :: u16) < 65535 \<Longrightarrow> unat (x + 1) = unat x + 1"
  by (simp add: unat_word_ariths)


lemma upd_zone_eq:
  "z < length (di_ZoneInfo D) \<Longrightarrow>
   upd_zone z f D = Some (D\<lparr>di_ZoneInfo := (di_ZoneInfo D)[z := f (di_ZoneInfo D ! z)]\<rparr>)"
  by (simp add: upd_zone_def)

lemma set_zone_blk_eq:
  assumes "die_shape C D" and "z < ZONE_CNT_OF_DIE C" and "i < BLOCK_CNT_OF_ZONE"
  shows "set_zone_blk z i b D = Some (D\<lparr>di_ZoneInfo := (di_ZoneInfo D)[z := (di_ZoneInfo D ! z)
     \<lparr>zi_ZoneTbl := (zi_ZoneTbl (di_ZoneInfo D ! z))[i := (zi_ZoneTbl (di_ZoneInfo D ! z) ! i)\<lparr>PhyBlkNum := b\<rparr>]\<rparr>]\<rparr>)"
  using assms by (simp add: set_zone_blk_def zone_item_in upd_zone_eq die_shape_def)

text \<open>The die after one round.\<close>

definition give_blk :: "nat \<Rightarrow> nat \<Rightarrow> die_info \<Rightarrow> die_info" where
  "give_blk r b D =
    (let zi = di_ZoneInfo D ! r; i = unat (zi_nFreeBlkIndex zi) in
     D\<lparr>di_pPhyBlk := (di_pPhyBlk D)[b := push_bit 10 (of_nat r) OR ALLOC_BLK_MARK],
       di_nFreeIndex := of_nat b, di_nFreeCnt := di_nFreeCnt D - 1,
       di_ZoneInfo := (di_ZoneInfo D)[r := zi\<lparr>zi_ZoneTbl := (zi_ZoneTbl zi)[i := (zi_ZoneTbl zi ! i)\<lparr>PhyBlkNum := of_nat b\<rparr>],
         zi_nFreeBlkIndex := zi_nFreeBlkIndex zi + 1, zi_nFreeBlkCnt := zi_nFreeBlkCnt zi + 1\<rparr>]\<rparr>)"

lemma distribute_one_give:
  assumes inv: "dist_inv C F D" and pos: "di_nFreeCnt D > 0"
  shows "\<exists>r b. r \<in> open_zones C D \<and> zone_total C (di_ZoneInfo D ! r) < BLOCK_CNT_OF_ZONE
    \<and> b \<in> free_set F D \<and> (\<forall>c \<in> free_set F D. b \<le> c) \<and> distribute_one C F D = Some (give_blk r b D)"
proof -
  let ?t = "\<lambda>z. zone_total C (di_ZoneInfo D ! z)" and ?O = "open_zones C D"
  have D: "die_shape C D" and len: "length (di_pPhyBlk D) = unat (SuperBlkCntOfDie F)"
    and N: "unat (SuperBlkCntOfDie F) \<le> 65535"
    and idx: "\<And>z. z \<in> ?O \<Longrightarrow> unat (zi_nFreeBlkIndex (di_ZoneInfo D ! z))
       = DATA_BLK_CNT_OF_ZONE C + unat (zi_nFreeBlkCnt (di_ZoneInfo D ! z))"
    and card: "unat (di_nFreeCnt D) = card (free_set F D)"
    and sum: "(\<Sum>z \<in> ?O. ?t z) + unat (di_nFreeCnt D) \<le> BLOCK_CNT_OF_ZONE * card ?O"
    using inv by (simp_all add: dist_inv_def Let_def)
  have pos': "0 < unat (di_nFreeCnt D)" using pos by (simp add: unat_gt_0 word_neq_0_conv)
  obtain z where z: "z \<in> ?O" "?t z < BLOCK_CNT_OF_ZONE"
  proof (rule ccontr)
    assume "\<not> thesis"
    with that have "\<And>z. z \<in> ?O \<Longrightarrow> BLOCK_CNT_OF_ZONE \<le> ?t z" by (meson not_less)
    then have "card ?O * BLOCK_CNT_OF_ZONE \<le> (\<Sum>z \<in> ?O. ?t z)"
      using sum_bounded_below [of ?O BLOCK_CNT_OF_ZONE ?t] by simp
    with sum pos' show False by (simp add: mult.commute)
  qed
  then obtain r where r: "LeastBlkCntZone C D = Some r" "r \<in> ?O" "?t r < BLOCK_CNT_OF_ZONE"
    using LeastBlkCntZone_least [OF D z(1)] by (fastforce simp: BLOCK_CNT_OF_ZONE_def)
  have ri: "r < length (di_ZoneInfo D)" "r < ZONE_CNT_OF_DIE C" using r(2) D by (auto simp: open_zones_def die_shape_def)
  have i: "unat (zi_nFreeBlkIndex (di_ZoneInfo D ! r)) < BLOCK_CNT_OF_ZONE"
    using idx [OF r(2)] r(3) by (simp add: zone_total_def)
  have "free_set F D \<noteq> {}" using card pos' by auto
  from GetFreeBlk_die [OF len N this] obtain b where b: "b \<in> free_set F D" "\<forall>c \<in> free_set F D. b \<le> c"
    "GetFreeBlkFromDieInfo F D = Some (Some b, D\<lparr>di_pPhyBlk := (di_pPhyBlk D)[b := NULL_BLOCK_INFO],
       di_nFreeIndex := of_nat b, di_nFreeCnt := di_nFreeCnt D - 1\<rparr>)" by blast
  let ?D1 = "D\<lparr>di_pPhyBlk := (di_pPhyBlk D)[b := NULL_BLOCK_INFO], di_nFreeIndex := of_nat b,
      di_nFreeCnt := di_nFreeCnt D - 1\<rparr>"
  have D1: "die_shape C ?D1" using D by (simp add: die_shape_def)
  have bl: "b < length (di_pPhyBlk D)" using b(1) len by (simp add: free_set_def blks_where_def)
  have "distribute_one C F D = Some (give_blk r b D)"
    using r(1) ri i b(3) bl
    by (simp add: distribute_one_def set_zone_blk_eq [OF D1 ri(2) i] upd_zone_eq set_info_def give_blk_def Let_def)
  with r(2,3) b(1,2) show ?thesis by blast
qed

lemma dist_inv_give:
  assumes inv: "dist_inv C F D" and pos: "di_nFreeCnt D > 0"
    and r: "r \<in> open_zones C D" "zone_total C (di_ZoneInfo D ! r) < BLOCK_CNT_OF_ZONE"
    and b: "b \<in> free_set F D" "\<forall>c \<in> free_set F D. b \<le> c"
  shows "dist_inv C F (give_blk r b D)"
    and "unat (di_nFreeCnt (give_blk r b D)) < unat (di_nFreeCnt D)"
    and "die_blks (give_blk r b D) + blk_set (free_set F (give_blk r b D)) = die_blks D + blk_set (free_set F D)"
proof -
  let ?D = "give_blk r b D" and ?zi = "di_ZoneInfo D ! r" and ?O = "open_zones C D"
  let ?i = "unat (zi_nFreeBlkIndex (di_ZoneInfo D ! r))"
  let ?zi' = "?zi\<lparr>zi_ZoneTbl := (zi_ZoneTbl ?zi)[?i := (zi_ZoneTbl ?zi ! ?i)\<lparr>PhyBlkNum := of_nat b\<rparr>],
      zi_nFreeBlkIndex := zi_nFreeBlkIndex ?zi + 1, zi_nFreeBlkCnt := zi_nFreeBlkCnt ?zi + 1\<rparr>"
  have D: "die_shape C D" and len: "length (di_pPhyBlk D) = unat (SuperBlkCntOfDie F)"
    and N: "unat (SuperBlkCntOfDie F) \<le> 65535" and ne: "?O \<noteq> {}"
    and zs: "\<And>z. z \<in> ?O \<Longrightarrow> unat (zi_nFreeBlkIndex (di_ZoneInfo D ! z))
          = DATA_BLK_CNT_OF_ZONE C + unat (zi_nFreeBlkCnt (di_ZoneInfo D ! z))
        \<and> unat (zi_nFreeBlkIndex (di_ZoneInfo D ! z)) \<le> BLOCK_CNT_OF_ZONE
        \<and> (\<forall>i. unat (zi_nFreeBlkIndex (di_ZoneInfo D ! z)) \<le> i \<longrightarrow> i < BLOCK_CNT_OF_ZONE \<longrightarrow>
             PhyBlkNum (zi_ZoneTbl (di_ZoneInfo D ! z) ! i) = 0xffff)"
    and card: "unat (di_nFreeCnt D) = card (free_set F D)"
    and sum: "(\<Sum>z \<in> ?O. zone_total C (di_ZoneInfo D ! z)) + unat (di_nFreeCnt D) \<le> BLOCK_CNT_OF_ZONE * card ?O"
    using inv unfolding dist_inv_def Let_def by blast+
  have ri: "r < length (di_ZoneInfo D)" "r < ZONE_CNT_OF_DIE C"
    using r(1) D by (auto simp: open_zones_def die_shape_def)
  have i: "?i < BLOCK_CNT_OF_ZONE" using zs [OF r(1)] r(2) by (simp add: zone_total_def)
  have shape: "zone_shape ?zi" using zone_at [OF D ri(2)] .
  have bb: "b < unat (SuperBlkCntOfDie F)" "unat (of_nat b :: u16) = b" "(of_nat b :: u16) \<noteq> 0xffff"
    using b(1) N of_nat_inj16 [of b 65535]
    by (auto simp: free_set_def blks_where_def unat_of_nat take_bit_nat_eq_self_iff)
  have O: "open_zones C ?D = ?O" by (simp add: open_zones_def give_blk_def Let_def tbl_valid_def)
  have free: "free_set F ?D = free_set F D - {b}"
    using b bb alloc_not_free [of r] len
    by (auto simp: free_set_def give_blk_def Let_def blks_where_def nth_list_update)
  have inc: "unat (zi_nFreeBlkIndex ?zi + 1) = ?i + 1" "unat (zi_nFreeBlkCnt ?zi + 1) = unat (zi_nFreeBlkCnt ?zi) + 1"
    using i zs [OF r(1)] unat_inc [of "zi_nFreeBlkIndex ?zi"] unat_inc [of "zi_nFreeBlkCnt ?zi"]
    by (simp_all add: BLOCK_CNT_OF_ZONE_def)
  have dec: "unat (di_nFreeCnt D - 1) = unat (di_nFreeCnt D) - 1" "0 < unat (di_nFreeCnt D)"
    using pos by (auto simp: unat_dec unat_gt_0)
  have tot: "zone_total C ?zi' = zone_total C ?zi + 1" using inc by (simp add: zone_total_def)
  have at: "di_ZoneInfo ?D ! z = (if z = r then ?zi' else di_ZoneInfo D ! z)" for z
    using ri by (simp add: give_blk_def Let_def)
  have sum': "(\<Sum>z \<in> ?O. zone_total C (di_ZoneInfo ?D ! z)) = (\<Sum>z \<in> ?O. zone_total C (di_ZoneInfo D ! z)) + 1"
    using r(1) tot unfolding at by (simp add: sum.remove [of ?O r] cong: if_cong)
  have shape': "die_shape C ?D"
    using D shape by (auto simp: die_shape_def give_blk_def Let_def zone_shape_def dest!: set_update_subset_insert [THEN subsetD])
  have cnt: "unat (di_nFreeCnt ?D) = unat (di_nFreeCnt D) - 1" using dec by (simp add: give_blk_def Let_def)
  have items: "z \<in> ?O \<Longrightarrow> unat (zi_nFreeBlkIndex (di_ZoneInfo ?D ! z))
          = DATA_BLK_CNT_OF_ZONE C + unat (zi_nFreeBlkCnt (di_ZoneInfo ?D ! z))
        \<and> unat (zi_nFreeBlkIndex (di_ZoneInfo ?D ! z)) \<le> BLOCK_CNT_OF_ZONE
        \<and> (\<forall>i. unat (zi_nFreeBlkIndex (di_ZoneInfo ?D ! z)) \<le> i \<longrightarrow> i < BLOCK_CNT_OF_ZONE \<longrightarrow>
             PhyBlkNum (zi_ZoneTbl (di_ZoneInfo ?D ! z) ! i) = 0xffff)" for z
    using zs [of z] inc i unfolding at by auto
  have len': "length (di_pPhyBlk ?D) = unat (SuperBlkCntOfDie F)" using len by (simp add: give_blk_def Let_def)
  have card': "unat (di_nFreeCnt ?D) = card (free_set F ?D)"
    unfolding cnt free using card b(1) by simp
  have room: "(\<Sum>z \<in> ?O. zone_total C (di_ZoneInfo ?D ! z)) + unat (di_nFreeCnt ?D) \<le> BLOCK_CNT_OF_ZONE * card ?O"
    unfolding sum' cnt using sum dec(2) by linarith
  show "dist_inv C F ?D"
    unfolding dist_inv_def O Let_def by (intro conjI ballI shape' len' N ne items card' room)
  show "unat (di_nFreeCnt ?D) < unat (di_nFreeCnt D)" using cnt dec by simp
  have "die_blks ?D + zone_blks ?zi = die_blks D + zone_blks ?zi'"
    using die_blks_update [OF ri(1), of ?zi'] by (simp add: give_blk_def Let_def die_blks_def)
  moreover have "zone_blks ?zi' = add_mset (of_nat b) (zone_blks ?zi)"
    using live_update [of ?i "zi_ZoneTbl ?zi" PhyBlkNum "(zi_ZoneTbl ?zi ! ?i)\<lparr>PhyBlkNum := of_nat b\<rparr>"]
      i shape zs [OF r(1)] bb(3) by (simp add: zone_shape_def zone_blks_def blk_opt_def)
  ultimately have "die_blks ?D = add_mset (of_nat b) (die_blks D)" by simp
  then show "die_blks ?D + blk_set (free_set F ?D) = die_blks D + blk_set (free_set F D)"
    unfolding free using blk_set_remove [OF finite_free_set b(1)] by simp
qed


lemma distribute_rest_step:
  "di_nFreeCnt D > 0 \<Longrightarrow> distribute_one C F D = Some D' \<Longrightarrow> distribute_rest C F D = distribute_rest C F D'"
  unfolding distribute_rest_def by (subst while_option_unfold) simp

lemma distribute_rest_stop: "di_nFreeCnt D = 0 \<Longrightarrow> distribute_rest C F D = Some (Some D)"
  unfolding distribute_rest_def by (subst while_option_unfold) simp

text \<open>C5: when \<open>nFreeCnt\<close> is the number of free blocks from \<open>nFreeIndex\<close> on and the zones to be rebuilt have room
  for them all, the loop that distributes the free blocks ends, and every free block is in a free block table.\<close>

theorem distribute_rest_ends:
  assumes "dist_inv C F D"
  shows "\<exists>D'. distribute_rest C F D = Some (Some D') \<and> di_nFreeCnt D' = 0 \<and> free_set F D' = {}
    \<and> die_blks D' = die_blks D + blk_set (free_set F D)"
  using assms
proof (induction "unat (di_nFreeCnt D)" arbitrary: D rule: less_induct)
  case less
  show ?case
  proof (cases "di_nFreeCnt D > 0")
    case True
    obtain r b where g: "r \<in> open_zones C D" "zone_total C (di_ZoneInfo D ! r) < BLOCK_CNT_OF_ZONE"
      "b \<in> free_set F D" "\<forall>c \<in> free_set F D. b \<le> c" "distribute_one C F D = Some (give_blk r b D)"
      using distribute_one_give [OF less.prems True] by blast
    note give = dist_inv_give [OF less.prems True g(1-4)]
    from less.hyps [OF give(2) give(1)] give(3) show ?thesis
      unfolding distribute_rest_step [OF True g(5)] by metis
  next
    case False
    then have "di_nFreeCnt D = 0" by (simp add: word_neq_0_conv [symmetric])
    moreover from this less.prems have "free_set F D = {}"
      by (simp add: dist_inv_def)
    ultimately show ?thesis by (simp add: distribute_rest_stop blk_set_def)
  qed
qed

text \<open>When \<open>nFreeCnt\<close> is positive and no free block is left, the loop never ends. (\<open>_GetNewTableBlk\<close> counts a
  block that it takes from the die twice, so that \<open>nFreeCnt\<close> can wrap below zero.)\<close>

theorem distribute_rest_hangs:
  assumes "die_shape C D" and "0 < ZONE_CNT_OF_DIE C" and "length (di_pPhyBlk D) = unat (SuperBlkCntOfDie F)"
    and "free_set F D = {}" and "di_nFreeCnt D > 0"
  shows "distribute_rest C F D = None"
proof -
  let ?N = "unat (SuperBlkCntOfDie F)" and ?s = "unat (di_nFreeIndex D)"
  obtain r where r: "LeastBlkCntZone C D = Some r" "r < ZONE_CNT_OF_DIE C"
    using least_zone_spec [OF assms(1), where lo = 0 and n = "ZONE_CNT_OF_DIE C" and best = "0xffff" and bz = 0] assms(2)
    unfolding LeastBlkCntZone_def by auto
  have "scan (\<lambda>x. x = FREE_BLOCK_INFO) (di_pPhyBlk D) 0 (?N - ?s) ?s = Some None"
  proof (cases "?s \<le> ?N")
    case True
    then show ?thesis
      using assms(3,4) by (intro scan_nowhere) (auto simp: free_set_def blks_where_def)
  qed simp
  then have one: "distribute_one C F D = Some D"
    using r assms(1) by (simp add: distribute_one_def GetFreeBlkFromDieInfo_def Let_def die_shape_def)
  have "((\<lambda>r. r \<bind> distribute_one C F) ^^ k) (Some D) = Some D" for k
    by (induction k) (simp_all add: one)
  with assms(5) show ?thesis by (simp add: distribute_rest_def while_option_def)
qed


definition half_full_die :: "u16 list \<Rightarrow> u16 \<Rightarrow> die_info" where
  "half_full_die p n = sample_die\<lparr>di_pPhyBlk := p, di_nFreeCnt := n,
     di_ZoneInfo := [empty_zone\<lparr>zi_nFreeBlkIndex := 1016\<rparr>]\<rparr>"

lemma half_full_die_shape [simp]: "die_shape sample_cfg (half_full_die p n)"
  using empty_zone_facts(1) by (simp add: die_shape_def half_full_die_def zone_shape_def)

lemma half_full_free:
  "free_set sample_fmt (half_full_die ((replicate 64 5)[10 := FREE_BLOCK_INFO, 12 := FREE_BLOCK_INFO]) n) = {10, 12}"
  by (auto simp: free_set_def blks_where_def half_full_die_def sample_die_def sample_fmt_def nth_list_update)

lemma distribute_rest_ends_witness:
  "\<exists>D'. distribute_rest sample_cfg sample_fmt
      (half_full_die ((replicate 64 5)[10 := FREE_BLOCK_INFO, 12 := FREE_BLOCK_INFO]) 2) = Some (Some D')
    \<and> die_blks D' = die_blks (half_full_die ((replicate 64 5)[10 := FREE_BLOCK_INFO, 12 := FREE_BLOCK_INFO]) 2)
        + blk_set {10, 12}"
proof -
  let ?D = "half_full_die ((replicate 64 5)[10 := FREE_BLOCK_INFO, 12 := FREE_BLOCK_INFO]) 2"
  have O: "open_zones sample_cfg ?D = {0}"
    by (auto simp: open_zones_def tbl_valid_def half_full_die_def sample_die_def)
  have "dist_inv sample_cfg sample_fmt ?D"
    unfolding dist_inv_def O half_full_free
    by (intro conjI half_full_die_shape) (simp_all add: half_full_die_def sample_die_def sample_fmt_def empty_zone_def zone_total_def empty_phy_blk_def
        empty_log_blk_def BLOCK_CNT_OF_ZONE_def)
  from distribute_rest_ends [OF this] show ?thesis unfolding half_full_free by blast
qed

lemma distribute_rest_hangs_witness:
  "distribute_rest sample_cfg sample_fmt (half_full_die (replicate 64 5) 1) = None"
proof -
  have "free_set sample_fmt (half_full_die (replicate 64 5) 1) = {}"
    by (simp add: free_set_def blks_where_def half_full_die_def sample_fmt_def)
  moreover have "length (di_pPhyBlk (half_full_die (replicate 64 5) 1)) = unat (SuperBlkCntOfDie sample_fmt)"
    "di_nFreeCnt (half_full_die (replicate 64 5) 1) > 0"
    by (simp_all add: half_full_die_def)
  ultimately show ?thesis
    by (intro distribute_rest_hangs half_full_die_shape) simp_all
qed

end
