(* ===== verification/Format_Props.thy ===== *)
theory Format_Props
  imports Format_Main
begin

text \<open>
  Properties of the format module as a whole: the tables it writes are found again and agree with those of
  \<open>mapping.c\<close>, the result of \<open>FMT_FormatNand\<close>, and the areas of the flash.
\<close>

section \<open>The tables written are found again\<close>

lemma CalCheckSum_agrees: "n \<le> length xs \<Longrightarrow> CalCheckSum xs n = GetTblCheckSum xs n"
  using CalCheckSum_GetTblCheckSum [of 0 n xs 0] by (simp add: CalCheckSum_def GetTblCheckSum_def)

lemma CalCheckSum_in: "n \<le> length xs \<Longrightarrow> CalCheckSum xs n = Some (sum_list (take n xs))"
  by (simp add: CalCheckSum_agrees GetTblCheckSum_def foldl_plus)

lemma blks_image_take: "take (4 * n) (blks_image t) = blks_image (take n t)"
proof (induction t arbitrary: n)
  case (Cons x t)
  then show ?case by (cases n) (simp_all add: blks_image_def bytes_of_words_def)
qed (simp add: blks_image_def bytes_of_words_def)

lemma blks_image_drop: "drop (4 * n) (blks_image t) = blks_image (drop n t)"
proof (induction t arbitrary: n)
  case (Cons x t)
  then show ?case by (cases n) (simp_all add: blks_image_def bytes_of_words_def)
qed (simp add: blks_image_def bytes_of_words_def)

lemma sum_zone_tbl_ok:
  assumes "length t = BLOCK_CNT_OF_ZONE"
  shows "total (sum_zone_tbl t) (\<lambda>t1. length t1 = BLOCK_CNT_OF_ZONE
     \<and> take (BLOCK_CNT_OF_ZONE - 1) t1 = take (BLOCK_CNT_OF_ZONE - 1) t \<and> zone_tbl_ok t1 = Some True)"
  using assms
  by (simp add: sum_zone_tbl_def zone_tbl_ok_def CalCheckSum_in BLOCK_CNT_OF_ZONE_def take_map map_update)

lemma zone_images_load:
  assumes t: "length t = BLOCK_CNT_OF_ZONE" and old: "length old = BLOCK_CNT_OF_ZONE"
    and b1: "length buf1 = SECTOR_CNT_OF_SUPER_PAGE C * SECTOR_SIZE" and b2: "length buf2 = length buf1"
    and c: "4 \<le> SECTOR_CNT_OF_SUPER_PAGE C"
  shows "\<exists>p1 p2 h. zone_image1 C t buf1 = Some p1 \<and> length p1 = length buf1
    \<and> zone_image2 t buf2 = Some p2 \<and> length p2 = length buf1
    \<and> load_half 0 p1 old = Some h \<and> load_half (BLOCK_CNT_OF_ZONE div 2) p2 h = Some t"
proof -
  have n: "512 * 4 \<le> length buf1" using b1 c by (simp add: SECTOR_SIZE_def)
  let ?a = "blks_image (take 512 t)" and ?b = "blks_image (drop 512 t)"
  have half: "mem_get (blks_image t) 0 (SECTOR_SIZE * 4) = Some ?a"
    "mem_get (blks_image t) (BLOCK_CNT_OF_ZONE div 2 * 4) (SECTOR_SIZE * 4) = Some ?b"
    using t blks_image_take [of 512 t] blks_image_drop [of 512 t]
    by (simp_all add: mem_get_def SECTOR_SIZE_def BLOCK_CNT_OF_ZONE_def)
  have l: "length ?a = 2048" "length ?b = 2048" using t by (simp_all add: BLOCK_CNT_OF_ZONE_def)
  obtain p1 where 1: "zone_image1 C t buf1 = Some p1" "length p1 = length buf1" "take 2048 p1 = ?a"
    using n half(1) l(1) b1 by (auto simp: zone_image1_def mem_put_def)
  obtain p2 where 2: "zone_image2 t buf2 = Some p2" "length p2 = length buf1" "take 2048 p2 = ?b"
    using n half(2) l(2) b2 by (auto simp: zone_image2_def mem_put_def)
  have "load_half 0 p1 old = Some (take 512 t @ drop 512 old)"
    using 1 n t old by (simp add: load_half_def mem_get_def mem_put_def SECTOR_SIZE_def BLOCK_CNT_OF_ZONE_def)
  moreover have "load_half (BLOCK_CNT_OF_ZONE div 2) p2 (take 512 t @ drop 512 old) = Some t"
    using 2 n t old by (simp add: load_half_def mem_get_def mem_put_def SECTOR_SIZE_def BLOCK_CNT_OF_ZONE_def)
  ultimately show ?thesis using 1 2 by blast
qed

lemma words_logs_app: "words_logs (concat (map log_words l) @ r) = l @ words_logs r"
  by (induction l) (simp_all add: log_words_def)

lemma logs_image_load:
  assumes l: "length l = MAX_LOG_BLK_CNT" and old: "length old = MAX_LOG_BLK_CNT"
    and b: "length buf = SECTOR_CNT_OF_SUPER_PAGE C * SECTOR_SIZE" and c: "4 \<le> SECTOR_CNT_OF_SUPER_PAGE C"
  shows "\<exists>p. zone_image3 C l buf = Some p \<and> length p = length buf \<and> log_tbl_ok p = Some True
    \<and> load_logs p old = Some l"
proof -
  have n: "2048 \<le> length buf" using b c by (simp add: SECTOR_SIZE_def)
  let ?b1 = "logs_image l @ drop 128 (replicate (length buf) (0xff :: u8))"
  let ?sum = "sum_list (take 32 (words_of_bytes ?b1))"
  have l128: "length (logs_image l) = 128" using l by (simp add: MAX_LOG_BLK_CNT_def)
  have len: "length ?b1 = length buf" using n l128 by simp
  have s0: "mem_put buf 0 (replicate (SECTOR_CNT_OF_SUPER_PAGE C * SECTOR_SIZE) 0xff)
      = Some (replicate (length buf) 0xff)"
    by (simp add: mem_put_def b [symmetric])
  have s1: "mem_get (logs_image l) 0 (LOG_BLK_CNT_OF_ZONE * 8) = Some (logs_image l)"
    using l by (simp add: mem_get_def)
  have s2: "mem_put (replicate (length buf) 0xff) 0 (logs_image l) = Some ?b1"
    using n l128 by (simp add: mem_put_def)
  have s3: "CalCheckSum (words_of_bytes ?b1) (LOG_BLK_CNT_OF_ZONE * 8 div 4) = Some ?sum"
    using len n by (subst CalCheckSum_in) (simp_all add: MAX_LOG_BLK_CNT_def)
  from put_word_in [of 511 ?b1 ?sum] len n obtain p where p: "put_word ?b1 511 ?sum = Some p" by auto
  note pw = put_word_words [OF p]
  have tk: "take 32 (words_of_bytes p) = take 32 (words_of_bytes ?b1)"
    using arg_cong [OF pw(1), of "take 32"] by simp
  have "zone_image3 C l buf = Some p"
    by (simp only: zone_image3_def s0 s1 s2 s3 p Option.bind.simps)
  moreover have "log_tbl_ok p = Some True"
    using pw(2,3) tk len n by (simp add: log_tbl_ok_def CalCheckSum_in MAX_LOG_BLK_CNT_def)
  moreover have "load_logs p old = Some l"
  proof -
    have "take 128 p = take 128 (take 2044 p)" by simp
    also have "\<dots> = logs_image l" using pw(4) l128 by simp
    finally have "mem_get p 0 (MAX_LOG_BLK_CNT * 8) = Some (logs_image l)"
      using pw(3) len n by (simp add: mem_get_def MAX_LOG_BLK_CNT_def)
    moreover have "words_logs (words_of_bytes (logs_image l)) = l"
      using words_of_bytes_of_words_app [of "concat (map log_words l)" "[]"] by (simp add: logs_image_def)
    ultimately show ?thesis using l old by (simp add: load_logs_def mem_put_def)
  qed
  ultimately show ?thesis using pw(3) len by simp
qed


text \<open>C6: the block table and the log table that \<open>_WriteBlkMapTbl\<close> writes pass the two checksum tests of
  \<open>_SearchZoneTbls\<close>, and loading them back as \<open>_KickValidTblBlk\<close> does gives the tables, of which only the
  checksum item was changed.\<close>

theorem zone_tables_roundtrip:
  assumes "length t = BLOCK_CNT_OF_ZONE" and "length l = MAX_LOG_BLK_CNT"
    and "length t0 = BLOCK_CNT_OF_ZONE" and "length l0 = MAX_LOG_BLK_CNT"
    and "length buf = SECTOR_CNT_OF_SUPER_PAGE C * SECTOR_SIZE" and "4 \<le> SECTOR_CNT_OF_SUPER_PAGE C"
  shows "\<exists>t1 p1 p2 p3 h. sum_zone_tbl t = Some t1
    \<and> take (BLOCK_CNT_OF_ZONE - 1) t1 = take (BLOCK_CNT_OF_ZONE - 1) t
    \<and> zone_image1 C t1 buf = Some p1 \<and> zone_image2 t1 p1 = Some p2 \<and> zone_image3 C l p2 = Some p3
    \<and> load_half 0 p1 t0 = Some h \<and> load_half (BLOCK_CNT_OF_ZONE div 2) p2 h = Some t1
    \<and> zone_tbl_ok t1 = Some True \<and> log_tbl_ok p3 = Some True \<and> load_logs p3 l0 = Some l"
proof -
  obtain t1 where 1: "sum_zone_tbl t = Some t1" "length t1 = BLOCK_CNT_OF_ZONE"
    "take (BLOCK_CNT_OF_ZONE - 1) t1 = take (BLOCK_CNT_OF_ZONE - 1) t" "zone_tbl_ok t1 = Some True"
    using sum_zone_tbl_ok [OF assms(1)] by (auto simp: total_iff)
  obtain p1 where p1: "zone_image1 C t1 buf = Some p1" "length p1 = length buf"
    using zone_images_load [OF 1(2) assms(3,5) refl assms(6)] by blast
  obtain p2 h where 2: "zone_image2 t1 p1 = Some p2" "length p2 = length buf"
    "load_half 0 p1 t0 = Some h" "load_half (BLOCK_CNT_OF_ZONE div 2) p2 h = Some t1"
    using zone_images_load [OF 1(2) assms(3,5) p1(2) assms(6)] p1(1) by auto
  from logs_image_load [OF assms(2,4), of p2 C] 2(2) assms(5,6) obtain p3 where
    "zone_image3 C l p2 = Some p3" "log_tbl_ok p3 = Some True" "load_logs p3 l0 = Some l" by auto
  with 1 p1 2 show ?thesis by blast
qed

lemma zone_tables_roundtrip_witness:
  "\<exists>t1 p1 p2 p3 h. sum_zone_tbl sample_tbl = Some t1
    \<and> zone_image1 sample_cfg t1 (replicate 2048 0) = Some p1 \<and> zone_image2 t1 p1 = Some p2
    \<and> zone_image3 sample_cfg (sample_log # replicate 15 empty_log_blk) p2 = Some p3
    \<and> load_half 0 p1 sample_tbl = Some h \<and> load_half 512 p2 h = Some t1
    \<and> log_tbl_ok p3 = Some True
    \<and> load_logs p3 (replicate 16 empty_log_blk) = Some (sample_log # replicate 15 empty_log_blk)"
  using zone_tables_roundtrip [of sample_tbl "sample_log # replicate 15 empty_log_blk" sample_tbl
      "replicate 16 empty_log_blk" "replicate 2048 0" sample_cfg]
  by (simp add: BLOCK_CNT_OF_ZONE_def MAX_LOG_BLK_CNT_def SECTOR_SIZE_def) blast

text \<open>C12: the format module and \<open>mapping.c\<close> make the same table images: the log table image and the checksum
  of the block table that \<open>_WriteBlkMapTbl\<close> writes are those of \<open>_write_back_block_map_tbl\<close>.\<close>

theorem table_images_agree:
  assumes "length t = BLOCK_CNT_OF_ZONE" and "length l = LOG_BLK_CNT_OF_ZONE"
    and "DATA_BLK_CNT_OF_ZONE C < BLOCK_CNT_OF_ZONE"
    and "length buf = SECTOR_CNT_OF_SUPER_PAGE C * SECTOR_SIZE" and "4 \<le> SECTOR_CNT_OF_SUPER_PAGE C"
  shows "sum_zone_tbl t = block_tbl_sum C t \<and> zone_image3 C l buf = log_tbl_image C l buf"
proof -
  have sum: "DATA_BLK_CNT_OF_ZONE C + FREE_BLK_CNT_OF_ZONE C = BLOCK_CNT_OF_ZONE - 1"
    using assms(3) by (simp add: FREE_BLK_CNT_OF_ZONE_def)
  have "mem_get (logs_image l) 0 (LOG_BLK_CNT_OF_ZONE * 8) = Some (logs_image l)"
    "mem_get l 0 LOG_BLK_CNT_OF_ZONE = Some l"
    using assms(2) by (simp_all add: mem_get_def)
  moreover have "sum_zone_tbl t = block_tbl_sum C t"
    unfolding sum_zone_tbl_def block_tbl_sum_def sum
    using assms(1) by (simp add: BLOCK_CNT_OF_ZONE_def CalCheckSum_agrees)
  moreover have "\<exists>b0 b1. mem_put buf 0 (replicate (SECTOR_CNT_OF_SUPER_PAGE C * SECTOR_SIZE) 0xff) = Some b0
      \<and> mem_put b0 0 (logs_image l) = Some b1 \<and> 32 \<le> length (words_of_bytes b1)"
    using assms(2,4,5) by (simp add: mem_put_def MAX_LOG_BLK_CNT_def SECTOR_SIZE_def)
  ultimately show ?thesis
    by (auto simp: zone_image3_def log_tbl_image_def CalCheckSum_agrees MAX_LOG_BLK_CNT_def)
qed

lemma table_images_agree_witness:
  "sum_zone_tbl sample_tbl = block_tbl_sum sample_cfg sample_tbl
   \<and> zone_image3 sample_cfg (sample_log # replicate 15 empty_log_blk) (replicate 2048 0)
     = log_tbl_image sample_cfg (sample_log # replicate 15 empty_log_blk) (replicate 2048 0)"
  using table_images_agree [of sample_tbl "sample_log # replicate 15 empty_log_blk" sample_cfg "replicate 2048 0"]
  by (simp add: BLOCK_CNT_OF_ZONE_def MAX_LOG_BLK_CNT_def SECTOR_SIZE_def)

text \<open>\<open>FMT_FormatNand\<close> reports the result of the last die only: whatever formatting the dies before it
  gave, an error included, is lost.\<close>

theorem FormatNand_reports_last_die:
  assumes "unat (DieCntOfNand F) = Suc n" and "format_dies P C F H n 0 0 s = Some (r1, s1)"
    and "format_die P C F H n s1 = Some (r2, s2)"
  shows "FMT_FormatNand P C F H s = Some (if r2 < 0 then -1 else 0, s2)"
proof -
  have snoc: "format_dies P C F H (Suc m) d r s = do {
      (r1, s1) \<leftarrow> format_dies P C F H m d r s; format_die P C F H (d + m) s1 }" for m d r s
  proof (induction m arbitrary: d r s)
    case (Suc m)
    have "format_dies P C F H (Suc (Suc m)) d r s = do {
        (r1, s1) \<leftarrow> format_die P C F H d s; format_dies P C F H (Suc m) (Suc d) r1 s1 }"
      by (rule format_dies.simps(2))
    also have "\<dots> = do { (r1, s1) \<leftarrow> format_die P C F H d s;
        (r2, s2) \<leftarrow> format_dies P C F H m (Suc d) r1 s1; format_die P C F H (Suc d + m) s2 }"
      by (simp only: Suc.IH)
    also have "\<dots> = do { (r1, s1) \<leftarrow> format_dies P C F H (Suc m) d r s; format_die P C F H (d + Suc m) s1 }"
      by (cases "format_die P C F H d s") auto
    finally show ?case .
  qed (simp add: case_prod_unfold)
  from snoc [of n 0 0 s] assms show ?thesis by (simp add: FMT_FormatNand_def del: format_dies.simps)
qed

text \<open>A flash on which every first page of a block 0 names it a table block, whose tables are all zero and
  therefore have the right checksums, and whose dirty flag in the last table group of die 1 is not set.\<close>

definition table_spare :: "u8 list" where
  "table_spare = enc_ud2 (blank_ud\<lparr>ud_LogicInfo := 0x40aa, ud_PageStatus := 0x55\<rparr>, blank_ud)"

definition hide_phy :: "unit phy_ops" where
  "hide_phy = quiet_phy\<lparr>
     PHY_PageReadSpare := (\<lambda>op m sp d. (0, m, Some (if op_BlkNum op = 0 then table_spare else replicate 16 0xff), d)),
     PHY_PageRead := (\<lambda>op m sp d. (0, replicate 2048 (if op_PageNum op = 3 \<and> op_BankNum op = 3 then 0xff else 0), sp, d))\<rparr>"

definition hide_fmt :: fmt_par where
  "hide_fmt = \<lparr>DieCntOfNand = 2, SuperBlkCntOfDie = 1024, DIE0_FIRST_BLK_NUM = 32\<rparr>"

definition hide_heap :: fmt_heap where
  "hide_heap = \<lparr>hp_DataBlkTbl = (\<lambda>_ _. Some (replicate 1024 empty_phy_blk)), hp_PhyBlk = (\<lambda>_ _. None),
     hp_ZoneInfo = (\<lambda>_ _. None)\<rparr>"

definition hide_drv :: "unit drv" where
  "hide_drv = (sample_drv ())\<lparr>dr_zone_tbl := replicate 32 \<lparr>zt_PhyBlkNum = 0xffff, zt_TablePst = 0xffff\<rparr>\<rparr>"

lemma copy4_four:
  assumes "length b = 16" and "length sp = 16"
  shows "copy4 [(0, 0), (4, 4), (8, 8), (12, 12)] b sp = Some b"
proof -
  have b: "b = take 8 b @ drop 8 b" "sp = take 8 sp @ drop 8 sp" by simp_all
  have l: "length (take 8 b) = 8" "length (drop 8 b) = 8" "length (take 8 sp) = 8" "length (drop 8 sp) = 8"
    using assms by simp_all
  show ?thesis
    using list8 [OF l(1)] list8 [OF l(2)] list8 [OF l(3)] list8 [OF l(4)]
    by (elim exE) (subst b(1), subst (2) b(1), subst b(2), simp only:, simp add: mem_get_def mem_put_def)
qed

lemma sample_slots15: "spare_slots sample_cfg 15 = [(0, 0), (4, 4), (8, 8), (12, 12)]"
  by (simp add: spare_slots_def push_bit_of_1)

lemma hide_read_spare:
  assumes "length sp = 16" and "blk < 65536"
  shows "fmt_VirtualPageRead hide_phy sample_cfg 1 blk 0 15 (Some sp) s
    = Some (0, if blk = 0 then table_spare else replicate 16 0xff,
        s\<lparr>dr_spare_buf := if blk = 0 then table_spare else replicate 16 0xff\<rparr>)"
proof -
  have "(of_nat blk :: u16) = 0 \<longleftrightarrow> blk = 0" using of_nat_inj16 [of blk 0] assms(2) by auto
  then show ?thesis
    using assms(1) copy4_four [of table_spare sp] copy4_four [of "replicate 16 0xff" sp]
    by (simp add: fmt_VirtualPageRead_def hide_phy_def fmt_op_def fmt_CalculatePhyOpPar_def sample_slots15
        table_spare_def del: copy4.simps)
qed

lemma words_of_bytes_zero: "words_of_bytes (replicate (4 * n) 0) = replicate n 0"
proof (induction n)
  case (Suc n)
  have "replicate (4 * Suc n) (0 :: u8) = 0 # 0 # 0 # 0 # replicate (4 * n) 0" by (simp add: numeral_eq_Suc)
  with Suc show ?case by (simp add: mk32_def mk16_def)
qed simp


lemma dec_ff: "dec_ud2 (replicate 16 0xff) = (blank_ud, blank_ud)"
  by code_simp

lemma blank_info: "GET_LOGIC_INFO_TYPE (ud_LogicInfo blank_ud) = 1" "GET_LOGIC_INFO_BLK (ud_LogicInfo blank_ud) \<noteq> 0xaa"
  by code_simp+

lemma hide_skip:
  assumes "length sp = 16" and "0 < blk" and "blk < 65536" and "di_nDie D = 1"
  shows "\<exists>s'. search_blk hide_phy sample_cfg H blk sp D s = Some (replicate 16 0xff, D, s')"
proof -
  have "unat (di_nDie D) = 1" using assms(4) by simp
  then show ?thesis
    using assms(2) blank_info unfolding search_blk_def Let_def
    by (simp add: hide_read_spare [OF length_enc_ud2 assms(3)] dec_ff del: One_nat_def)
qed

lemma hide_skips:
  "length sp = 16 \<Longrightarrow> 0 < blk \<Longrightarrow> blk + n < 65536 \<Longrightarrow> di_nDie D = 1 \<Longrightarrow>
   \<exists>s'. search_blks hide_phy sample_cfg H n blk sp D s = Some (D, s')"
proof (induction n arbitrary: blk sp s)
  case (Suc n)
  then show ?case using hide_skip [of sp blk D H s] by auto
qed simp

lemma hide_op:
  "op_PageNum (fmt_op sample_cfg bm 1 0 page) = of_nat (page div 2)"
  "op_BankNum (fmt_op sample_cfg bm 1 0 page) = of_nat (page mod 2 + 2)"
  by (simp_all add: fmt_op_def fmt_CalculatePhyOpPar_def)

lemma u8_is_three: "n < 256 \<Longrightarrow> (of_nat n :: u8) = 3 \<longleftrightarrow> n = 3"
  using of_nat_inj8 [of n 3] unfolding of_nat_numeral by (metis of_nat_numeral zero_less_numeral numeral_less_iff semiring_norm(68,76,78,81))

lemma hide_load:
  assumes "page < 8"
  shows "fmt_load hide_phy sample_cfg 1 0 page bm s
    = Some (s\<lparr>dr_temp_buf := replicate 2048 (if page = 7 then 0xff else 0)\<rparr>)"
proof -
  have "page div 2 < 256" "page mod 2 + 2 < 256" using assms by simp_all
  then have "(of_nat (page div 2) :: u8) = 3 \<longleftrightarrow> page div 2 = 3"
    "(of_nat (page mod 2 + 2) :: u8) = 3 \<longleftrightarrow> page mod 2 + 2 = 3"
    by (simp_all only: u8_is_three)
  moreover have "page div 2 = 3 \<and> page mod 2 + 2 = 3 \<longleftrightarrow> page = 7" using assms by presburger
  ultimately have "(op_PageNum (fmt_op sample_cfg bm 1 0 page) = 3 \<and> op_BankNum (fmt_op sample_cfg bm 1 0 page) = 3)
      = (page = 7)"
    unfolding hide_op by (simp only:)
  then show ?thesis
    by (simp add: fmt_load_def fmt_VirtualPageRead_def hide_phy_def del: One_nat_def)
qed

lemma hide_probe:
  assumes "length sp = 8"
  shows "\<exists>sp' s'. tbl_probe hide_phy sample_cfg 1 0 m (sp, s) = Some (False, sp', s') \<and> length sp' = 8
      \<and> dr_zone_tbl s' = dr_zone_tbl s"
  using assms copy4_two [of sp]
  by (simp add: tbl_probe_def fmt_read_ud_def fmt_VirtualPageRead_def hide_phy_def
     sample_slots3 table_spare_def enc_ud2_def blank_ud_def fmt_op_def fmt_CalculatePhyOpPar_def del: copy4.simps)

lemma hide_page_tbl:
  "\<exists>s'. SearchBlkTblPst hide_phy sample_cfg 1 0 s = Some (4, s') \<and> dr_zone_tbl s' = dr_zone_tbl s"
proof -
  obtain sp1 s1 where 1: "tbl_probe hide_phy sample_cfg 1 0 0 (take 8 (junk_spare sample_cfg), s) = Some (False, sp1, s1)"
    "length sp1 = 8" "dr_zone_tbl s1 = dr_zone_tbl s" using hide_probe [OF length_junk8] by blast
  obtain sp2 s2 where 2: "tbl_probe hide_phy sample_cfg 1 0 1 (sp1, s1) = Some (False, sp2, s2)"
    "dr_zone_tbl s2 = dr_zone_tbl s1" using hide_probe [OF 1(2)] by blast
  have "bisect (tbl_probe hide_phy sample_cfg 1 0) 0 1 (take 8 (junk_spare sample_cfg), s) = Some (2, 1, sp2, s2)"
    using 1(1) 2(1) by (simp add: bisect.simps [of _ 0 1] bisect.simps [of _ 1 1] bisect.simps [of _ 2 1])
  then show ?thesis
    using 1(3) 2(2) by (simp add: SearchBlkTblPst_def PAGE_CNT_OF_TBL_GROUP_def half_def)
qed

lemma hide_group: "\<exists>s'. group_valid hide_phy sample_cfg hide_heap 1 0 4 s = Some (True, s')"
proof -
  have z: "image_blks (replicate 2048 0) = replicate 512 (word_blk 0)"
    using words_of_bytes_zero [of 512] by (simp add: image_blks_def)
  have h: "load_half 0 (replicate 2048 0) (replicate 1024 empty_phy_blk)
      = Some (replicate 512 (word_blk 0) @ replicate 512 empty_phy_blk)"
    by (simp add: load_half_def mem_get_def mem_put_def SECTOR_SIZE_def z)
  have h': "load_half 512 (replicate 2048 0) (replicate 512 (word_blk 0) @ replicate 512 empty_phy_blk)
      = Some (replicate 512 (word_blk 0) @ replicate 512 (word_blk 0))"
    by (simp add: load_half_def mem_get_def mem_put_def SECTOR_SIZE_def z)
  have ok: "zone_tbl_ok (replicate 512 (word_blk 0) @ replicate 512 (word_blk 0)) = Some True"
    by (simp add: zone_tbl_ok_def CalCheckSum_in BLOCK_CNT_OF_ZONE_def sum_list_replicate nth_append)
  have lok: "log_tbl_ok (replicate 2048 0) = Some True"
    using words_of_bytes_zero [of 512]
    by (simp add: log_tbl_ok_def get_word_def CalCheckSum_in MAX_LOG_BLK_CNT_def sum_list_replicate)
  show ?thesis
    by (simp add: group_valid_def hide_load DIRTY_FLAG_OFFSET_def DATA_TBL_OFFSET_def LOG_TBL_OFFSET_def
        hide_heap_def BLOCK_CNT_OF_ZONE_def h h' ok lok del: One_nat_def)
qed


lemma hide_search:
  "\<exists>D s'. SearchZoneTbls hide_phy sample_cfg hide_fmt hide_heap (new_die 1) s = Some (0, D, s')"
  if "dr_zone_tbl s = replicate 32 \<lparr>zt_PhyBlkNum = 0xffff, zt_TablePst = 0xffff\<rparr>"
proof -
  let ?D = "new_die 1"
  have die: "di_nDie ?D = 1" "unat (di_nDie ?D) = 1" "di_TblBitmap ?D = 0" by (simp_all add: new_die_def)
  have info: "dec_ud2 table_spare = (blank_ud\<lparr>ud_LogicInfo := 0x40aa, ud_PageStatus := 0x55\<rparr>, blank_ud)"
    by (simp add: table_spare_def)
  have bits: "GET_LOGIC_INFO_TYPE 0x40aa = 1" "GET_LOGIC_INFO_BLK 0x40aa = 0xaa" "GET_LOGIC_INFO_ZONE 0x40aa = 0"
    by code_simp+
  obtain s2 where s2: "SearchBlkTblPst hide_phy sample_cfg 1 0 (s\<lparr>dr_spare_buf := table_spare\<rparr>) = Some (4, s2)"
    "dr_zone_tbl s2 = dr_zone_tbl s" using hide_page_tbl by force
  define s3 where "s3 = s2\<lparr>dr_zone_tbl := (dr_zone_tbl s)[1 := \<lparr>zt_PhyBlkNum = 0, zt_TablePst = 4\<rparr>]\<rparr>"
  have set: "set_zone_pst 1 0 4 s2 = Some s3" using s2(2) that by (simp add: set_zone_pst_def s3_def)
  obtain s4 where s4: "group_valid hide_phy sample_cfg hide_heap 1 0 4 s3 = Some (True, s4)"
    using hide_group by blast
  let ?D1 = "?D\<lparr>di_TblBitmap := 1\<rparr>"
  have "search_blk hide_phy sample_cfg hide_heap 0 (junk_spare sample_cfg) ?D s = Some (table_spare, ?D1, s4)"
    using that s2 set s4 die unfolding search_blk_def Let_def
    by (simp add: hide_read_spare [OF length_enc_ud2] info bits blank_ud_def del: One_nat_def)
  moreover obtain s5 where "search_blks hide_phy sample_cfg hide_heap 31 1 table_spare ?D1 s4 = Some (?D1, s5)"
    using hide_skips [of table_spare 1 31 ?D1] die by (force simp: table_spare_def)
  ultimately have "search_blks hide_phy sample_cfg hide_heap (Suc 31) 0 (junk_spare sample_cfg) ?D s = Some (?D1, s5)"
    by (simp only: search_blks.simps Option.bind.simps prod.case One_nat_def [symmetric])
  then show ?thesis
    using die by (simp add: SearchZoneTbls_def first_blk_def TBL_AREA_BLK_NUM_def tbl_valid_def)
qed

lemma hide_die0: "format_die hide_phy sample_cfg hide_fmt hide_heap 0 s = Some (-1, s)"
proof -
  have n: "TBL_AREA_BLK_NUM - first_blk hide_fmt (new_die 0) = 0"
    by (simp add: TBL_AREA_BLK_NUM_def first_blk_def new_die_def hide_fmt_def)
  have f: "format_try hide_phy sample_cfg hide_fmt hide_heap 5 r D s = Some (-1, D, s)" for r D
  proof -
    have "(5 :: nat) = Suc 4" by simp
    then show ?thesis by (simp only: format_try.simps) (simp add: RebuildZoneTbls_def hide_heap_def)
  qed
  show ?thesis
    unfolding format_die_def SearchZoneTbls_def n by (simp add: f tbl_valid_def new_die_def)
qed

lemma FormatNand_reports_last_die_witness:
  "\<exists>P C F H s s1 s2. unat (DieCntOfNand F) = 2
    \<and> format_die P C F H 0 (s :: unit drv) = Some (-1, s1) \<and> FMT_FormatNand P C F H s = Some (0, s2)"
proof -
  have z: "dr_zone_tbl hide_drv = replicate 32 \<lparr>zt_PhyBlkNum = 0xffff, zt_TablePst = 0xffff\<rparr>"
    by (simp add: hide_drv_def)
  have d0: "format_die hide_phy sample_cfg hide_fmt hide_heap 0 hide_drv = Some (-1, hide_drv)"
    by (rule hide_die0)
  obtain s2 where d1: "format_die hide_phy sample_cfg hide_fmt hide_heap 1 hide_drv = Some (0, s2)"
    using hide_search [OF z] by (auto simp: format_die_def)
  have "format_dies hide_phy sample_cfg hide_fmt hide_heap 1 0 0 hide_drv = Some (-1, hide_drv)"
    by (simp add: d0)
  moreover have two: "unat (DieCntOfNand hide_fmt) = 2" by (simp add: hide_fmt_def)
  ultimately have "FMT_FormatNand hide_phy sample_cfg hide_fmt hide_heap hide_drv = Some (0, s2)"
    using FormatNand_reports_last_die [OF _ _ d1] by simp
  with d0 two show ?thesis by blast
qed

section \<open>The areas of the flash\<close>

definition phys_pages :: "cfg \<Rightarrow> nat" where
  "phys_pages C = PAGE_CNT_OF_PHY_BLK C * (BLOCK_CNT_OF_DIE C * DIE_CNT_OF_CHIP C * unat (ChipCnt (storage C)))"

definition boot1_area :: "cfg \<Rightarrow> fmt_par \<Rightarrow> flash_area" where
  "boot1_area C F = fp_areas (FMT_GetFlashMemProperties C F) ! 1"

definition disk_area :: "cfg \<Rightarrow> fmt_par \<Rightarrow> flash_area" where
  "disk_area C F = fp_areas (FMT_GetFlashMemProperties C F) ! 2"

lemma unat_u32_of_nat: "n < 2 ^ 32 \<Longrightarrow> unat (of_nat n :: u32) = n"
  by (simp add: unat_of_nat take_bit_nat_eq_self_iff)

text \<open>When the boot blocks of die 0 have at least 512 pages, the second boot area ends where the physical
  disk begins, and the physical disk ends with the last page of the flash.\<close>

theorem FlashMemProperties_tile:
  assumes "512 \<le> unat (DIE0_FIRST_BLK_NUM F) * PAGE_CNT_OF_PHY_BLK C"
    and "unat (DIE0_FIRST_BLK_NUM F) * PAGE_CNT_OF_PHY_BLK C \<le> phys_pages C" and "phys_pages C < 2 ^ 32"
  shows "unat (fa_first_pageno (boot1_area C F)) + unat (fa_page_count (boot1_area C F))
      = unat (fa_first_pageno (disk_area C F))
    \<and> unat (fa_first_pageno (disk_area C F)) + unat (fa_page_count (disk_area C F)) = phys_pages C"
proof -
  let ?d = "unat (DIE0_FIRST_BLK_NUM F)" and ?p = "PAGE_CNT_OF_PHY_BLK C"
  let ?b = "BLOCK_CNT_OF_DIE C * DIE_CNT_OF_CHIP C * unat (ChipCnt (storage C))"
  have small: "?d * ?p < 2 ^ 32" using assms(2,3) by linarith
  have prod: "DIE0_FIRST_BLK_NUM F * (of_nat ?p :: u32) = of_nat (?d * ?p)" by simp
  have first: "unat (DIE0_FIRST_BLK_NUM F * (of_nat ?p :: u32)) = ?d * ?p"
    unfolding prod by (rule unat_u32_of_nat [OF small])
  have "DIE0_FIRST_BLK_NUM F * (of_nat ?p :: u32) - 512 = of_nat (?d * ?p - 512)"
    unfolding prod using assms(1) by (simp add: of_nat_diff)
  then have count1: "unat (DIE0_FIRST_BLK_NUM F * (of_nat ?p :: u32) - 512) = ?d * ?p - 512"
    using small by (simp only: unat_u32_of_nat less_imp_diff_less)
  have "(of_nat ?p :: u32) * (of_nat ?b - DIE0_FIRST_BLK_NUM F) = of_nat (phys_pages C) - of_nat (?d * ?p)"
    by (simp add: phys_pages_def algebra_simps)
  also have "\<dots> = of_nat (phys_pages C - ?d * ?p)" using assms(2) by (simp add: of_nat_diff)
  finally have "unat ((of_nat ?p :: u32) * (of_nat ?b - DIE0_FIRST_BLK_NUM F)) = phys_pages C - ?d * ?p"
    using assms(3) by (simp only: unat_u32_of_nat less_imp_diff_less)
  with assms(1,2) first count1 show ?thesis
    by (simp add: boot1_area_def disk_area_def FMT_GetFlashMemProperties_def Let_def)
qed

definition sample_fmt7 :: fmt_par where
  "sample_fmt7 = \<lparr>DieCntOfNand = 1, SuperBlkCntOfDie = 1024, DIE0_FIRST_BLK_NUM = 200\<rparr>"

lemma FlashMemProperties_tile_witness:
  "unat (fa_first_pageno (disk_area sample_cfg sample_fmt7)) + unat (fa_page_count (disk_area sample_cfg sample_fmt7))
    = 16384"
proof -
  have "phys_pages sample_cfg = 16384" by (simp add: phys_pages_def) (simp add: sample_cfg_def sample_storage_def)
  then show ?thesis
    using FlashMemProperties_tile [of sample_fmt7 sample_cfg] by (simp add: sample_fmt7_def)
qed

text \<open>On chips of pages of 2 KB and 64 pages to a block, which the chip table lists, the 7 boot blocks that
  \<open>FMT_Init\<close> reserves have fewer than 512 pages, and the page count of the second boot area wraps to
  4294967232.\<close>

theorem boot1_area_wraps:
  assumes "SECTOR_CNT_OF_SINGLE_PAGE C = 4" and "PAGE_CNT_OF_PHY_BLK C = 64"
    and "FMT_Init C s = Some (F, C', s')"
  shows "unat (fa_page_count (boot1_area C' F)) = 4294967232"
proof -
  have "(of_nat (4 * 64 div 2) :: u32) = 128" by simp
  then have "DIE0_FIRST_BLK_NUM F = 7" and "PAGE_CNT_OF_PHY_BLK C' = 64"
    using assms by (auto simp: FMT_Init_def blks_array_def Let_def PAGE_CNT_OF_PHY_BLK_def Option.bind_eq_Some_conv split: if_splits)
  then show ?thesis by (simp add: boot1_area_def FMT_GetFlashMemProperties_def Let_def)
qed

definition k9f1g08_cfg :: cfg where
  "k9f1g08_cfg = sample_cfg\<lparr>storage := sample_storage\<lparr>ChipCnt := 1, PlaneCntPerDie := 1, SectorCntPerPage := 4,
     PageCntPerPhyBlk := 64, BlkCntPerDie := 1024, OperationOpt := 0, ValidBlkRatio := 974\<rparr>\<rparr>"

lemma boot1_area_wraps_witness:
  "\<exists>F C' s'. FMT_Init k9f1g08_cfg (sample_drv ()) = Some (F, C', s')
    \<and> unat (fa_page_count (boot1_area C' F)) = 4294967232"
proof -
  have c: "SECTOR_CNT_OF_SINGLE_PAGE k9f1g08_cfg = 4" "PAGE_CNT_OF_PHY_BLK k9f1g08_cfg = 64"
    by (simp_all add: k9f1g08_cfg_def SECTOR_CNT_OF_SINGLE_PAGE_def PAGE_CNT_OF_PHY_BLK_def)
  have "FMT_Init k9f1g08_cfg (sample_drv ()) \<noteq> None"
    using c by (simp add: FMT_Init_def Let_def blks_array_def mem_put_def SECTOR_CNT_OF_SUPER_PAGE_def MAX_ZONE_CNT_def)
      (simp add: k9f1g08_cfg_def sample_cfg_def sample_storage_def sample_drv_def)
  then obtain F C' s' where i: "FMT_Init k9f1g08_cfg (sample_drv ()) = Some (F, C', s')" by auto
  from boot1_area_wraps [OF c i] i show ?thesis by blast
qed

end
