(* ===== verification/Nfc_State.thy ===== *)
theory Nfc_State
  imports Nand_State
begin

text \<open>
  The NAND flash controller of the tablet's chip (\<open>ndfc/nfc_r.c\<close>, \<open>nfc_w.c\<close>, \<open>nfc_i.h\<close>): the
  variables the controller code and the physic layer keep, the access to the controller's registers, and
  the small steps every operation is made of (wait loops, address registers, ECC, randomizer).

  The hardware is the parameter \<open>nfc_hw\<close> over an arbitrary hardware state \<open>'h\<close>. A register read may
  change the hardware and give any value, so that every behaviour of a controller or of the flash behind
  it is covered. \<open>hw_start_dma\<close> starts a transfer of the given length (with the bytes of the source
  buffer when it goes to the flash), \<open>hw_dma_data\<close> is what a transfer from the flash has delivered
  to memory when the operation returns; bytes that arrive after that are not modelled. \<open>hw_malloc\<close> is the
  allocator as \<open>PHY_ChangeMode\<close> calls it: the bytes it hands out, or \<^term>\<open>None\<close> for a null pointer.
\<close>

section \<open>Hardware and state\<close>

record 'h nfc_hw =
  hw_read :: "nat \<Rightarrow> 'h \<Rightarrow> u32 \<times> 'h"
  hw_write :: "nat \<Rightarrow> u32 \<Rightarrow> 'h \<Rightarrow> 'h"
  hw_read_ram :: "nat \<Rightarrow> 'h \<Rightarrow> u8 \<times> 'h"
  hw_write_ram :: "nat \<Rightarrow> u8 \<Rightarrow> 'h \<Rightarrow> 'h"
  hw_request_dma :: "'h \<Rightarrow> u32 \<times> 'h"
  hw_release_dma :: "u32 \<Rightarrow> 'h \<Rightarrow> 'h"
  hw_start_dma :: "bool \<Rightarrow> u8 list \<Rightarrow> u32 \<Rightarrow> 'h \<Rightarrow> 'h"
  hw_query_dma :: "'h \<Rightarrow> u32 \<times> 'h"
  hw_dma_data :: "'h \<Rightarrow> u8 list"
  hw_malloc :: "nat \<Rightarrow> 'h \<Rightarrow> u8 list option \<times> 'h"

text \<open>\<open>RetryCount\<close> and \<open>PageCachePool\<close> belong to \<open>physic/nand_simple_r.c\<close>, the other variables to
  \<open>ndfc/nfc_r.c\<close>. A null page cache is \<^term>\<open>None\<close>.\<close>

record 'h nst =
  ns_hw :: 'h
  ns_pagesize :: u32
  ns_dma_hdle :: u32
  ns_rr_reg_adr :: "u8 list"
  ns_rr_default :: "u8 list list"
  ns_rr_val :: "16 word list list"
  ns_rr_mode :: u8
  ns_rr_cycle :: u8
  ns_rr_reg_num :: u8
  ns_lsb_reg_adr :: "u8 list"
  ns_lsb_default :: "u8 list"
  ns_lsb_val :: "u8 list"
  ns_lsb_reg_num :: u8
  ns_RetryCount :: "u32 list"
  ns_PageCache0 :: "u8 list option"
  ns_SpareCache :: "u8 list option"
  ns_TmpPageCache :: "u8 list option"

abbreviation (input) NFC_REG_CTL :: nat where "NFC_REG_CTL \<equiv> 0x01c03000"
abbreviation (input) NFC_REG_ST :: nat where "NFC_REG_ST \<equiv> 0x01c03004"
abbreviation (input) NFC_REG_TIMING_CTL :: nat where "NFC_REG_TIMING_CTL \<equiv> 0x01c0300c"
abbreviation (input) NFC_REG_TIMING_CFG :: nat where "NFC_REG_TIMING_CFG \<equiv> 0x01c03010"
abbreviation (input) NFC_REG_ADDR_LOW :: nat where "NFC_REG_ADDR_LOW \<equiv> 0x01c03014"
abbreviation (input) NFC_REG_ADDR_HIGH :: nat where "NFC_REG_ADDR_HIGH \<equiv> 0x01c03018"
abbreviation (input) NFC_REG_SECTOR_NUM :: nat where "NFC_REG_SECTOR_NUM \<equiv> 0x01c0301c"
abbreviation (input) NFC_REG_CNT :: nat where "NFC_REG_CNT \<equiv> 0x01c03020"
abbreviation (input) NFC_REG_CMD :: nat where "NFC_REG_CMD \<equiv> 0x01c03024"
abbreviation (input) NFC_REG_RCMD_SET :: nat where "NFC_REG_RCMD_SET \<equiv> 0x01c03028"
abbreviation (input) NFC_REG_WCMD_SET :: nat where "NFC_REG_WCMD_SET \<equiv> 0x01c0302c"
abbreviation (input) NFC_REG_ECC_CTL :: nat where "NFC_REG_ECC_CTL \<equiv> 0x01c03034"
abbreviation (input) NFC_REG_ECC_ST :: nat where "NFC_REG_ECC_ST \<equiv> 0x01c03038"
abbreviation (input) NFC_REG_ECC_CNT0 :: nat where "NFC_REG_ECC_CNT0 \<equiv> 0x01c03040"
abbreviation (input) NFC_REG_ECC_CNT1 :: nat where "NFC_REG_ECC_CNT1 \<equiv> 0x01c03044"
abbreviation (input) NFC_REG_ECC_CNT2 :: nat where "NFC_REG_ECC_CNT2 \<equiv> 0x01c03048"
abbreviation (input) NFC_REG_ECC_CNT3 :: nat where "NFC_REG_ECC_CNT3 \<equiv> 0x01c0304c"
abbreviation (input) NFC_REG_USER_DATA :: "nat \<Rightarrow> nat" where
  "NFC_REG_USER_DATA i \<equiv> 0x01c03050 + 4 * i"
abbreviation (input) NFC_REG_SPARE_AREA :: nat where "NFC_REG_SPARE_AREA \<equiv> 0x01c030a0"
abbreviation (input) NFC_RAM0_BASE :: nat where "NFC_RAM0_BASE \<equiv> 0x01c03400"

abbreviation (input) NFC_EN :: u32 where "NFC_EN \<equiv> 0x1"
abbreviation (input) NFC_RESET :: u32 where "NFC_RESET \<equiv> 0x2"
abbreviation (input) NFC_RB_SEL :: u32 where "NFC_RB_SEL \<equiv> 0x8"
abbreviation (input) NFC_CE_SEL :: u32 where "NFC_CE_SEL \<equiv> 0x7000000"
abbreviation (input) NFC_PAGE_SIZE :: u32 where "NFC_PAGE_SIZE \<equiv> 0xf00"
abbreviation (input) NFC_RAM_METHOD :: u32 where "NFC_RAM_METHOD \<equiv> 0x4000"
abbreviation (input) NFC_CMD_INT_FLAG :: u32 where "NFC_CMD_INT_FLAG \<equiv> 0x2"
abbreviation (input) NFC_CMD_FIFO_STATUS :: u32 where "NFC_CMD_FIFO_STATUS \<equiv> 0x8"
abbreviation (input) NFC_RB_STATE0 :: u32 where "NFC_RB_STATE0 \<equiv> 0x100"
abbreviation (input) NFC_SEND_ADR :: u32 where "NFC_SEND_ADR \<equiv> 0x80000"
abbreviation (input) NFC_ACCESS_DIR :: u32 where "NFC_ACCESS_DIR \<equiv> 0x100000"
abbreviation (input) NFC_DATA_TRANS :: u32 where "NFC_DATA_TRANS \<equiv> 0x200000"
abbreviation (input) NFC_SEND_CMD1 :: u32 where "NFC_SEND_CMD1 \<equiv> 0x400000"
abbreviation (input) NFC_WAIT_FLAG :: u32 where "NFC_WAIT_FLAG \<equiv> 0x800000"
abbreviation (input) NFC_SEND_CMD2 :: u32 where "NFC_SEND_CMD2 \<equiv> 0x1000000"
abbreviation (input) NFC_SEQ :: u32 where "NFC_SEQ \<equiv> 0x2000000"
abbreviation (input) NFC_DATA_SWAP_METHOD :: u32 where "NFC_DATA_SWAP_METHOD \<equiv> 0x4000000"
abbreviation (input) NFC_ECC_EN :: u32 where "NFC_ECC_EN \<equiv> 0x1"
abbreviation (input) NFC_ECC_PIPELINE :: u32 where "NFC_ECC_PIPELINE \<equiv> 0x8"
abbreviation (input) NFC_ECC_MODE :: u32 where "NFC_ECC_MODE \<equiv> 0xf000"
abbreviation (input) NFC_RANDOM_EN :: u32 where "NFC_RANDOM_EN \<equiv> 0x200"

abbreviation (input) ERR_TIMEOUT :: int where "ERR_TIMEOUT \<equiv> 14"
abbreviation (input) ERR_INVALIDPHYADDR :: int where "ERR_INVALIDPHYADDR \<equiv> 21"

section \<open>Register access\<close>

definition NFC_READ_REG :: "'h nfc_hw \<Rightarrow> nat \<Rightarrow> 'h nst \<Rightarrow> u32 \<times> 'h nst" where
  "NFC_READ_REG H r s = (let (v, h) = hw_read H r (ns_hw s) in (v, s\<lparr>ns_hw := h\<rparr>))"

definition NFC_WRITE_REG :: "'h nfc_hw \<Rightarrow> nat \<Rightarrow> u32 \<Rightarrow> 'h nst \<Rightarrow> 'h nst" where
  "NFC_WRITE_REG H r v s = s\<lparr>ns_hw := hw_write H r v (ns_hw s)\<rparr>"

definition NFC_READ_RAM_B :: "'h nfc_hw \<Rightarrow> nat \<Rightarrow> 'h nst \<Rightarrow> u8 \<times> 'h nst" where
  "NFC_READ_RAM_B H r s = (let (v, h) = hw_read_ram H r (ns_hw s) in (v, s\<lparr>ns_hw := h\<rparr>))"

definition NFC_WRITE_RAM_B :: "'h nfc_hw \<Rightarrow> nat \<Rightarrow> u8 \<Rightarrow> 'h nst \<Rightarrow> 'h nst" where
  "NFC_WRITE_RAM_B H r v s = s\<lparr>ns_hw := hw_write_ram H r v (ns_hw s)\<rparr>"

text \<open>\<open>NFC_WRITE_REG(r, f(NFC_READ_REG(r)))\<close>.\<close>

definition reg_upd :: "'h nfc_hw \<Rightarrow> nat \<Rightarrow> (u32 \<Rightarrow> u32) \<Rightarrow> 'h nst \<Rightarrow> 'h nst" where
  "reg_upd H r f s = (let (v, s) = NFC_READ_REG H r s in NFC_WRITE_REG H r (f v) s)"

text \<open>The loop \<open>while ((timeout--) && busy());\<close>: the value of \<open>timeout\<close> when it ends, which is \<open>-1\<close> when
  the count ran out.\<close>

fun poll :: "('s \<Rightarrow> bool \<times> 's) \<Rightarrow> nat \<Rightarrow> 's \<Rightarrow> int \<times> 's" where
  "poll busy 0 s = (- 1, s)"
| "poll busy (Suc t) s =
     (let (b, s) = busy s in if b then poll busy t s else (int t, s))"

lemma poll_range: "poll busy t s = (r, s') \<Longrightarrow> - 1 \<le> r \<and> r < int t \<or> t = 0 \<and> r = - 1"
  by (induction t arbitrary: s) (auto split: prod.splits if_splits, fastforce)

section \<open>Waiting for the controller\<close>

definition wait_cmdfifo_free :: "'h nfc_hw \<Rightarrow> 'h nst \<Rightarrow> int \<times> 'h nst" where
  "wait_cmdfifo_free H s =
     (let (t, s) = poll (\<lambda>s. let (v, s) = NFC_READ_REG H NFC_REG_ST s
                             in (v AND NFC_CMD_FIFO_STATUS \<noteq> 0, s)) 0xffff s
      in if t \<le> 0 then (- ERR_TIMEOUT, s) else (0, s))"

definition wait_cmd_finish :: "'h nfc_hw \<Rightarrow> 'h nst \<Rightarrow> int \<times> 'h nst" where
  "wait_cmd_finish H s =
     (let (t, s) = poll (\<lambda>s. let (v, s) = NFC_READ_REG H NFC_REG_ST s
                             in (v AND NFC_CMD_INT_FLAG = 0, s)) 0xffff s
      in if t \<le> 0 then (- ERR_TIMEOUT, s)
         else (0, reg_upd H NFC_REG_ST (\<lambda>v. v AND NFC_CMD_INT_FLAG) s))"

definition wait_dma_end :: "'h nfc_hw \<Rightarrow> 'h nst \<Rightarrow> int \<times> 'h nst" where
  "wait_dma_end H s =
     (let (t, s) = poll (\<lambda>s. let (v, h) = hw_query_dma H (ns_hw s)
                             in (v \<noteq> 0, s\<lparr>ns_hw := h\<rparr>)) 0xffff s
      in if t \<le> 0 then (- ERR_TIMEOUT, s) else (0, s))"

definition nfc_reset :: "'h nfc_hw \<Rightarrow> 'h nst \<Rightarrow> int \<times> 'h nst" where
  "nfc_reset H s =
     (let s = reg_upd H NFC_REG_CTL (\<lambda>cfg. cfg OR NFC_RESET) s;
          (t, s) = poll (\<lambda>s. let (v, s) = NFC_READ_REG H NFC_REG_CTL s
                             in (v AND NFC_RESET \<noteq> 0, s)) 0xffff s
      in if t \<le> 0 then (- ERR_TIMEOUT, s) else (0, s))"

text \<open>\<open>ret = _wait_cmdfifo_free(); ret |= _wait_cmd_finish();\<close>, as every operation does after its
  last command.\<close>

definition wait_cmd_done :: "'h nfc_hw \<Rightarrow> 'h nst \<Rightarrow> int \<times> 'h nst" where
  "wait_cmd_done H s =
     (let (a, s) = wait_cmdfifo_free H s; (b, s) = wait_cmd_finish H s in (a OR b, s))"

section \<open>Repeat mode, ECC, addresses\<close>

definition nfc_repeat_mode_enable :: "'h nfc_hw \<Rightarrow> 'h nst \<Rightarrow> 'h nst" where
  "nfc_repeat_mode_enable H s =
     (let (v, s) = NFC_READ_REG H NFC_REG_CTL s in
      if drop_bit 18 v AND 0x3 > 1 then NFC_WRITE_REG H NFC_REG_CTL (v OR 0x100000) s else s)"

definition nfc_repeat_mode_disable :: "'h nfc_hw \<Rightarrow> 'h nst \<Rightarrow> 'h nst" where
  "nfc_repeat_mode_disable H s =
     (let (v, s) = NFC_READ_REG H NFC_REG_CTL s in
      if drop_bit 18 v AND 0x3 > 1 then NFC_WRITE_REG H NFC_REG_CTL (v AND NOT 0x100000) s else s)"

fun max_ecc_bit_cnt :: "u32 \<Rightarrow> u32" where
  "max_ecc_bit_cnt m = (if m = 0 then 16 else if m = 1 then 24 else if m = 2 then 28
     else if m = 3 then 32 else if m = 4 then 40 else if m = 5 then 48 else if m = 6 then 56
     else if m = 7 then 60 else if m = 8 then 64 else 16)"

text \<open>The loop over \<open>ecc_cnt[i]\<close>, an array of sixteen.\<close>

fun ecc_limit_loop :: "u32 \<Rightarrow> u8 list \<Rightarrow> nat \<Rightarrow> nat \<Rightarrow> int option" where
  "ecc_limit_loop m cnts 0 i = Some 0"
| "ecc_limit_loop m cnts (Suc n) i = do {
     c \<leftarrow> arr_get cnts i;
     if m - 4 \<le> ucast c then Some ECC_LIMIT else ecc_limit_loop m cnts n (Suc i)
   }"

definition check_ecc :: "'h nfc_hw \<Rightarrow> nat \<Rightarrow> 'h nst \<Rightarrow> (int \<times> 'h nst) option" where
  "check_ecc H eblock_cnt s =
     (let (v, s) = NFC_READ_REG H NFC_REG_ECC_CTL s;
          m = max_ecc_bit_cnt (drop_bit 12 v AND 0xf);
          (st, s) = NFC_READ_REG H NFC_REG_ECC_ST s
      in if \<exists>i\<in>set [0..<eblock_cnt]. bit (st AND 0xffff) i then Some (- ERR_ECC, s)
         else let (c0, s) = NFC_READ_REG H NFC_REG_ECC_CNT0 s;
                  (c1, s) = NFC_READ_REG H NFC_REG_ECC_CNT1 s;
                  (c2, s) = NFC_READ_REG H NFC_REG_ECC_CNT2 s;
                  (c3, s) = NFC_READ_REG H NFC_REG_ECC_CNT3 s
              in do {
                r \<leftarrow> ecc_limit_loop m (bytes_of_words [c0, c1, c2, c3]) eblock_cnt 0;
                Some (r, s)
              })"

definition disable_ecc :: "'h nfc_hw \<Rightarrow> 'h nst \<Rightarrow> 'h nst" where
  "disable_ecc H s = reg_upd H NFC_REG_ECC_CTL (\<lambda>cfg. cfg AND NOT NFC_ECC_EN) s"

definition ecc_on :: "u32 \<Rightarrow> u32 \<Rightarrow> u32" where
  "ecc_on pipline cfg =
     (let cfg = (if pipline = 1 then cfg OR NFC_ECC_PIPELINE else cfg AND NOT NFC_ECC_PIPELINE);
          cfg = (if cfg AND 0x200 \<noteq> 0 then cfg AND NOT 0x10 else cfg OR 0x10)
      in cfg OR NFC_ECC_EN)"

definition enable_ecc :: "'h nfc_hw \<Rightarrow> u32 \<Rightarrow> 'h nst \<Rightarrow> 'h nst" where
  "enable_ecc H pipline s = reg_upd H NFC_REG_ECC_CTL (ecc_on pipline) s"

text \<open>The loop of \<open>_set_addr\<close>: byte \<open>i\<close> of the address goes to byte \<open>i\<close> of \<open>ADDR_LOW\<close>, from the fifth on
  to \<open>ADDR_HIGH\<close>.\<close>

fun addr_words :: "u8 list \<Rightarrow> nat \<Rightarrow> nat \<Rightarrow> u32 \<Rightarrow> u32 \<Rightarrow> (u32 \<times> u32) option" where
  "addr_words addr 0 i low high = Some (low, high)"
| "addr_words addr (Suc n) i low high = do {
     a \<leftarrow> arr_get addr i;
     if i < 4 then addr_words addr n (Suc i) (low OR push_bit (8 * i) (ucast a)) high
     else addr_words addr n (Suc i) low (high OR push_bit (8 * (i - 4)) (ucast a))
   }"

definition set_addr :: "'h nfc_hw \<Rightarrow> u8 list \<Rightarrow> nat \<Rightarrow> 'h nst \<Rightarrow> 'h nst option" where
  "set_addr H addr cnt s = do {
     (low, high) \<leftarrow> addr_words addr cnt 0 0 0;
     Some (NFC_WRITE_REG H NFC_REG_ADDR_HIGH high (NFC_WRITE_REG H NFC_REG_ADDR_LOW low s))
   }"

section \<open>Command lists\<close>

text \<open>One \<open>NFC_CMD_LIST\<close> entry; the list that \<open>next\<close> links is a list. The address array an entry points
  to is carried by value, the null pointer is the empty list.\<close>

record nfc_cmd =
  nc_addr :: "u8 list"
  nc_addr_cycle :: u8
  nc_data_fetch_flag :: u8
  nc_main_data_fetch :: u8
  nc_wait_rb_flag :: u8
  nc_bytecnt :: u32
  nc_value :: u32

definition add_cmd_list :: "u32 \<Rightarrow> u8 \<Rightarrow> u8 list \<Rightarrow> u8 \<Rightarrow> u8 \<Rightarrow> u32 \<Rightarrow> u8 \<Rightarrow> nfc_cmd" where
  "add_cmd_list value addr_cycle addr data_fetch main_fetch bytecnt wait_rb =
     \<lparr>nc_addr = addr, nc_addr_cycle = addr_cycle, nc_data_fetch_flag = data_fetch,
      nc_main_data_fetch = main_fetch, nc_wait_rb_flag = wait_rb, nc_bytecnt = bytecnt,
      nc_value = value\<rparr>"

text \<open>A command that only has a value, every other field \<open>NFC_IGNORE\<close>.\<close>

abbreviation plain_cmd :: "u32 \<Rightarrow> nfc_cmd" where
  "plain_cmd value \<equiv> add_cmd_list value 0 [] 0 0 0 0"

fun nfc_set_cmd_register :: "'h nfc_hw \<Rightarrow> nfc_cmd list \<Rightarrow> 'h nst \<Rightarrow> (int \<times> 'h nst) option" where
  "nfc_set_cmd_register H [] s = Some (0, s)"
| "nfc_set_cmd_register H (c # cs) s =
     (let (ret, s) = wait_cmdfifo_free H s in
      if ret \<noteq> 0 then Some (ret, s)
      else do {
        s \<leftarrow> (if nc_addr_cycle c \<noteq> 0 then set_addr H (nc_addr c) (unat (nc_addr_cycle c)) s else Some s);
        let cfg = (if nc_addr_cycle c \<noteq> 0
                   then push_bit 16 (ucast (nc_addr_cycle c) - 1) OR NFC_SEND_ADR else 0 :: u32);
        let cfg = cfg OR nc_value c;
        let cfg = (if nc_wait_rb_flag c \<noteq> 0 then cfg OR NFC_WAIT_FLAG else cfg);
        let s = (if nc_data_fetch_flag c \<noteq> 0
                 then NFC_WRITE_REG H NFC_REG_CNT (nc_bytecnt c)
                        (reg_upd H NFC_REG_CTL (\<lambda>v. v AND NOT NFC_RAM_METHOD) s)
                 else s);
        let cfg = (if nc_data_fetch_flag c \<noteq> 0 then cfg OR NFC_DATA_TRANS else cfg);
        nfc_set_cmd_register H cs (NFC_WRITE_REG H NFC_REG_CMD (cfg OR NFC_SEND_CMD1) s)
      })"

section \<open>Randomizer, chip and ready/busy line\<close>

definition NFC_SetRandomSeed :: "'h nfc_hw \<Rightarrow> u32 \<Rightarrow> 'h nst \<Rightarrow> 'h nst" where
  "NFC_SetRandomSeed H seed s =
     reg_upd H NFC_REG_ECC_CTL (\<lambda>cfg. cfg AND 0x0000ffff OR push_bit 16 seed) s"

definition NFC_RandomEnable :: "'h nfc_hw \<Rightarrow> 'h nst \<Rightarrow> 'h nst" where
  "NFC_RandomEnable H s = reg_upd H NFC_REG_ECC_CTL (\<lambda>cfg. cfg OR NFC_RANDOM_EN) s"

definition NFC_RandomDisable :: "'h nfc_hw \<Rightarrow> 'h nst \<Rightarrow> 'h nst" where
  "NFC_RandomDisable H s = reg_upd H NFC_REG_ECC_CTL (\<lambda>cfg. cfg AND NOT NFC_RANDOM_EN) s"

definition NFC_SelectChip :: "'h nfc_hw \<Rightarrow> u32 \<Rightarrow> 'h nst \<Rightarrow> 'h nst" where
  "NFC_SelectChip H chip s =
     reg_upd H NFC_REG_CTL (\<lambda>cfg. (cfg AND NOT NFC_CE_SEL) OR push_bit 24 (chip AND 0x7)) s"

definition NFC_SelectRb :: "'h nfc_hw \<Rightarrow> u32 \<Rightarrow> 'h nst \<Rightarrow> 'h nst" where
  "NFC_SelectRb H rb s =
     reg_upd H NFC_REG_CTL (\<lambda>cfg. (cfg AND NOT NFC_RB_SEL) OR push_bit 3 (rb AND 0x1)) s"

definition NFC_DeSelectChip :: "u32 \<Rightarrow> 'h nst \<Rightarrow> 'h nst" where
  "NFC_DeSelectChip chip s = s"

definition NFC_DeSelectRb :: "u32 \<Rightarrow> 'h nst \<Rightarrow> 'h nst" where
  "NFC_DeSelectRb rb s = s"

definition NFC_CheckRbReady :: "'h nfc_hw \<Rightarrow> u32 \<Rightarrow> 'h nst \<Rightarrow> int \<times> 'h nst" where
  "NFC_CheckRbReady H rb s =
     (let (cfg, s) = NFC_READ_REG H NFC_REG_ST s in
      (if cfg AND push_bit (unat (rb AND 0x3)) NFC_RB_STATE0 \<noteq> 0 then 0 else - 1, s))"

end
