(* ===== verification/Nfc_Page.thy ===== *)
theory Nfc_Page
  imports Nfc_State
begin

text \<open>
  The page operations of the controller: \<open>_read_in_page_mode\<close> and its variants, \<open>NFC_Read\<close>,
  \<open>NFC_Write\<close> and their variants, erase and copy-back (\<open>ndfc/nfc_r.c\<close>, \<open>nfc_w.c\<close>).

  A read returns its result, the bytes the transfer has put at the start of the main buffer, the bytes
  written to the start of the spare buffer, and the state. \<^term>\<open>None\<close> is a null pointer followed in the
  command list, or an access outside the spare buffer.
\<close>

section \<open>Shared steps\<close>

text \<open>The four commands of a page read: \<open>cur_cmd->next\<close> three times.\<close>

fun read_cmds :: "nfc_cmd list \<Rightarrow> (nfc_cmd \<times> u32 \<times> u32 \<times> u32) option" where
  "read_cmds (a # b # c # d # r) = Some (a, nc_value b, nc_value c, nc_value d)"
| "read_cmds _ = None"

fun write_cmds :: "nfc_cmd list \<Rightarrow> (nfc_cmd \<times> u32 \<times> u32) option" where
  "write_cmds (a # b # c # r) = Some (a, nc_value b, nc_value c)"
| "write_cmds _ = None"

definition rcmd_set :: "u32 \<Rightarrow> u32 \<Rightarrow> u32 \<Rightarrow> u32" where
  "rcmd_set read_data random0 random1 =
     (read_data AND 0xff) OR push_bit 8 (random0 AND 0xff) OR push_bit 16 (random1 AND 0xff)"

definition wcmd_set :: "u32 \<Rightarrow> u32 \<Rightarrow> u32" where
  "wcmd_set program random_program = (program AND 0xff) OR push_bit 8 (random_program AND 0xff)"

text \<open>The value of \<open>NFC_REG_CMD\<close>: the command and the number of address cycles, the flags, and
  \<open>2 << 30\<close> for a page command.\<close>

definition page_cmd :: "nfc_cmd \<Rightarrow> u32 \<Rightarrow> u32" where
  "page_cmd c flags =
     nc_value c OR push_bit 16 (ucast (nc_addr_cycle c) - 1) OR flags OR 0x80000000"

abbreviation (input) read_flags :: u32 where
  "read_flags \<equiv> NFC_SEND_ADR OR NFC_DATA_TRANS OR NFC_SEND_CMD1 OR NFC_SEND_CMD2
     OR NFC_WAIT_FLAG OR NFC_DATA_SWAP_METHOD"

abbreviation (input) write_flags :: u32 where
  "write_flags \<equiv> NFC_SEND_ADR OR NFC_ACCESS_DIR OR NFC_DATA_TRANS OR NFC_SEND_CMD1
     OR NFC_SEND_CMD2 OR NFC_DATA_SWAP_METHOD"

abbreviation seq_if_1K :: "'h nst \<Rightarrow> u32" where
  "seq_if_1K s \<equiv> (if ns_pagesize s div 1024 = 1 then NFC_SEQ else 0)"

definition dma_start :: "'h nfc_hw \<Rightarrow> bool \<Rightarrow> u8 list \<Rightarrow> u32 \<Rightarrow> 'h nst \<Rightarrow> 'h nst" where
  "dma_start H rw data len s = s\<lparr>ns_hw := hw_start_dma H rw data len (ns_hw s)\<rparr>"

text \<open>What a transfer of \<open>len\<close> bytes has delivered.\<close>

definition dma_data :: "'h nfc_hw \<Rightarrow> u32 \<Rightarrow> 'h nst \<Rightarrow> u8 list" where
  "dma_data H len s = take (unat len) (hw_dma_data H (ns_hw s))"

text \<open>The source of a transfer to the flash: \<open>len\<close> bytes from the main buffer on.\<close>

definition dma_src :: "u8 list \<Rightarrow> u32 \<Rightarrow> u8 list option" where
  "dma_src mainbuf len = mem_get mainbuf 0 (unat len)"

fun get_user_data :: "'h nfc_hw \<Rightarrow> nat \<Rightarrow> nat \<Rightarrow> 'h nst \<Rightarrow> u32 list \<times> 'h nst" where
  "get_user_data H 0 i s = ([], s)"
| "get_user_data H (Suc n) i s =
     (let (w, s) = NFC_READ_REG H (NFC_REG_USER_DATA i) s;
          (ws, s) = get_user_data H n (Suc i) s
      in (w # ws, s))"

fun set_user_data :: "'h nfc_hw \<Rightarrow> u8 list \<Rightarrow> nat \<Rightarrow> nat \<Rightarrow> 'h nst \<Rightarrow> 'h nst option" where
  "set_user_data H sparebuf 0 i s = Some s"
| "set_user_data H sparebuf (Suc n) i s = do {
     w \<leftarrow> arr_get (words_of_bytes sparebuf) i;
     set_user_data H sparebuf n (Suc i) (NFC_WRITE_REG H (NFC_REG_USER_DATA i) w s)
   }"

definition set_ecc_mode_bits :: "'h nfc_hw \<Rightarrow> u32 \<Rightarrow> 'h nst \<Rightarrow> 'h nst" where
  "set_ecc_mode_bits H m s = reg_upd H NFC_REG_ECC_CTL (\<lambda>v. (v AND NOT NFC_ECC_MODE) OR m) s"

text \<open>\<open>if (0 == dma_wait_mode) { ret1 = _wait_dma_end(); if (ret1) return ret1; }\<close>: the result that is
  returned, and whether that return is taken.\<close>

definition dma_tail :: "'h nfc_hw \<Rightarrow> u8 \<Rightarrow> 'h nst \<Rightarrow> int \<times> 'h nst" where
  "dma_tail H dma_wait_mode s = (if dma_wait_mode = 0 then wait_dma_end H s else (0, s))"

section \<open>Page reads\<close>

text \<open>From the setting of \<open>NFC_REG_CNT\<close> to \<open>_set_addr\<close>.\<close>

definition read_regs ::
  "'h nfc_hw \<Rightarrow> nfc_cmd \<Rightarrow> u32 \<Rightarrow> u32 \<Rightarrow> 'h nst \<Rightarrow> 'h nst option" where
  "read_regs H a rcmd sectors s =
     set_addr H (nc_addr a) (unat (nc_addr_cycle a))
       (NFC_WRITE_REG H NFC_REG_SECTOR_NUM sectors
         (NFC_WRITE_REG H NFC_REG_RCMD_SET rcmd (NFC_WRITE_REG H NFC_REG_CNT 1024 s)))"

type_synonym 'h read_result = "(int \<times> u8 list \<times> u8 list \<times> 'h nst) option"

definition read_in_page_mode ::
  "'h nfc_hw \<Rightarrow> nfc_cmd list \<Rightarrow> u8 \<Rightarrow> 'h nst \<Rightarrow> 'h read_result" where
  "read_in_page_mode H rcmd dma_wait_mode s = do {
     (a, random0, random1, read_data) \<leftarrow> read_cmds rcmd;
     let s = reg_upd H NFC_REG_CTL (\<lambda>v. v OR NFC_RAM_METHOD) s;
     let s = dma_start H False [] (ns_pagesize s) s;
     let (ret, s) = wait_cmdfifo_free H s;
     if ret \<noteq> 0 then Some (ret, dma_data H (ns_pagesize s) s, [], s)
     else do {
       s \<leftarrow> read_regs H a (rcmd_set read_data random0 random1) (ns_pagesize s div 1024) s;
       let s = enable_ecc H 1 s;
       let s = NFC_WRITE_REG H NFC_REG_CMD (page_cmd a (read_flags OR seq_if_1K s)) s;
       let (ret, s) = wait_cmd_done H s;
       if ret \<noteq> 0 then (let s = disable_ecc H s in Some (ret, dma_data H (ns_pagesize s) s, [], s))
       else do {
         let (ws, s) = get_user_data H (unat (ns_pagesize s div 1024)) 0 s;
         (ret, s) \<leftarrow> check_ecc H (unat (ns_pagesize s div 1024)) s;
         let s = disable_ecc H s;
         let (ret1, s) = dma_tail H dma_wait_mode s;
         Some (if ret1 \<noteq> 0 then ret1 else ret, dma_data H (ns_pagesize s) s, bytes_of_words ws, s)
       }
     }
   }"

definition read_in_page_mode_seq ::
  "'h nfc_hw \<Rightarrow> nfc_cmd list \<Rightarrow> u8 \<Rightarrow> 'h nst \<Rightarrow> 'h read_result" where
  "read_in_page_mode_seq H rcmd dma_wait_mode s = do {
     (a, random0, random1, read_data) \<leftarrow> read_cmds rcmd;
     let s = reg_upd H NFC_REG_CTL (\<lambda>v. v OR NFC_RAM_METHOD) s;
     let s = dma_start H False [] (ns_pagesize s) s;
     let (ret, s) = wait_cmdfifo_free H s;
     if ret \<noteq> 0 then Some (ret, dma_data H (ns_pagesize s) s, [], s)
     else do {
       s \<leftarrow> read_regs H a (rcmd_set read_data random0 random1) (ns_pagesize s div 1024) s;
       let s = enable_ecc H 1 s;
       let (v, s) = NFC_READ_REG H NFC_REG_ECC_CTL s;
       let ecc_mode_temp = v AND 0xf000;
       let s = set_ecc_mode_bits H 0x1000 s;
       let s = NFC_WRITE_REG H NFC_REG_CMD (page_cmd a (read_flags OR NFC_SEQ)) s;
       let (ret, s) = wait_cmd_done H s;
       if ret \<noteq> 0 then (let s = disable_ecc H s in Some (ret, dma_data H (ns_pagesize s) s, [], s))
       else do {
         let (ws, s) = get_user_data H (unat (ns_pagesize s div 1024)) 0 s;
         (ret, s) \<leftarrow> check_ecc H (unat (ns_pagesize s div 1024)) s;
         let s = disable_ecc H s;
         let s = set_ecc_mode_bits H ecc_mode_temp s;
         let (ret1, s) = dma_tail H dma_wait_mode s;
         Some (if ret1 \<noteq> 0 then ret1 else ret, dma_data H (ns_pagesize s) s, bytes_of_words ws, s)
       }
     }
   }"

definition read_in_page_mode_1K ::
  "'h nfc_hw \<Rightarrow> nfc_cmd list \<Rightarrow> u8 \<Rightarrow> 'h nst \<Rightarrow> 'h read_result" where
  "read_in_page_mode_1K H rcmd dma_wait_mode s = do {
     (a, random0, random1, read_data) \<leftarrow> read_cmds rcmd;
     let s = reg_upd H NFC_REG_CTL (\<lambda>v. v OR NFC_RAM_METHOD) s;
     let (v, s) = NFC_READ_REG H NFC_REG_CTL s;
     let page_size_temp = drop_bit 8 (v AND 0xf00);
     let s = reg_upd H NFC_REG_CTL (\<lambda>v. v OR 0x300) s;
     let s = dma_start H False [] 1024 s;
     let (ret, s) = wait_cmdfifo_free H s;
     if ret \<noteq> 0 then Some (ret, dma_data H 1024 s, [], s)
     else do {
       s \<leftarrow> read_regs H a (rcmd_set read_data random0 random1) 1 s;
       let s = enable_ecc H 1 s;
       let (v, s) = NFC_READ_REG H NFC_REG_ECC_CTL s;
       let ecc_mode_temp = v AND 0xf000;
       let s = set_ecc_mode_bits H 0x8000 s;
       let s = NFC_WRITE_REG H NFC_REG_CMD (page_cmd a (read_flags OR NFC_SEQ)) s;
       let (ret, s) = wait_cmd_done H s;
       if ret \<noteq> 0 then (let s = disable_ecc H s in Some (ret, dma_data H 1024 s, [], s))
       else do {
         let (ws, s) = get_user_data H 1 0 s;
         (ret, s) \<leftarrow> check_ecc H (unat (ns_pagesize s div 1024)) s;
         let s = disable_ecc H s;
         let (ret1, s) = dma_tail H dma_wait_mode s;
         if ret1 \<noteq> 0 then Some (ret1, dma_data H 1024 s, bytes_of_words ws, s)
         else do {
           let s = set_ecc_mode_bits H ecc_mode_temp s;
           let s = reg_upd H NFC_REG_CTL
                     (\<lambda>v. (v AND NOT NFC_PAGE_SIZE) OR push_bit 8 page_size_temp) s;
           Some (ret, dma_data H 1024 s, bytes_of_words ws, s)
         }
       }
     }
   }"

definition read_in_page_mode_spare ::
  "'h nfc_hw \<Rightarrow> nfc_cmd list \<Rightarrow> u8 \<Rightarrow> 'h nst \<Rightarrow> 'h read_result" where
  "read_in_page_mode_spare H rcmd dma_wait_mode s = do {
     (a, random0, random1, read_data) \<leftarrow> read_cmds rcmd;
     let s = reg_upd H NFC_REG_CTL (\<lambda>v. v OR NFC_RAM_METHOD) s;
     let s = dma_start H False [] 2048 s;
     let (ret, s) = wait_cmdfifo_free H s;
     if ret \<noteq> 0 then Some (ret, dma_data H 2048 s, [], s)
     else do {
       s \<leftarrow> read_regs H a (rcmd_set read_data random0 random1) 2 s;
       let s = enable_ecc H 1 s;
       let s = NFC_WRITE_REG H NFC_REG_CMD (page_cmd a (read_flags OR seq_if_1K s)) s;
       let (ret, s) = wait_cmd_done H s;
       if ret \<noteq> 0 then (let s = disable_ecc H s in Some (ret, dma_data H 2048 s, [], s))
       else do {
         let (ws, s) = get_user_data H 2 0 s;
         (ret, s) \<leftarrow> check_ecc H 2 s;
         let s = disable_ecc H s;
         let (ret1, s) = dma_tail H dma_wait_mode s;
         Some (if ret1 \<noteq> 0 then ret1 else ret, dma_data H 2048 s, bytes_of_words ws, s)
       }
     }
   }"

text \<open>The exported reads only add the switch back to the AHB bus; \<open>page_mode\<close> is not looked at.\<close>

definition to_ahb :: "'h nfc_hw \<Rightarrow> int \<times> u8 list \<times> u8 list \<times> 'h nst \<Rightarrow> 'h read_result" where
  "to_ahb H = (\<lambda>(ret, m, sp, s).
     Some (ret, m, sp, reg_upd H NFC_REG_CTL (\<lambda>v. v AND NOT NFC_RAM_METHOD) s))"

definition NFC_Read :: "'h nfc_hw \<Rightarrow> nfc_cmd list \<Rightarrow> u8 \<Rightarrow> u8 \<Rightarrow> 'h nst \<Rightarrow> 'h read_result" where
  "NFC_Read H rcmd dma_wait_mode page_mode s = read_in_page_mode H rcmd dma_wait_mode s \<bind> to_ahb H"

definition NFC_Read_Seq :: "'h nfc_hw \<Rightarrow> nfc_cmd list \<Rightarrow> u8 \<Rightarrow> u8 \<Rightarrow> 'h nst \<Rightarrow> 'h read_result" where
  "NFC_Read_Seq H rcmd dma_wait_mode page_mode s =
     read_in_page_mode_seq H rcmd dma_wait_mode s \<bind> to_ahb H"

definition NFC_Read_1K :: "'h nfc_hw \<Rightarrow> nfc_cmd list \<Rightarrow> u8 \<Rightarrow> u8 \<Rightarrow> 'h nst \<Rightarrow> 'h read_result" where
  "NFC_Read_1K H rcmd dma_wait_mode page_mode s =
     read_in_page_mode_1K H rcmd dma_wait_mode s \<bind> to_ahb H"

definition NFC_Read_Spare :: "'h nfc_hw \<Rightarrow> nfc_cmd list \<Rightarrow> u8 \<Rightarrow> u8 \<Rightarrow> 'h nst \<Rightarrow> 'h read_result" where
  "NFC_Read_Spare H rcmd dma_wait_mode page_mode s =
     read_in_page_mode_spare H rcmd dma_wait_mode s \<bind> to_ahb H"

section \<open>Page writes\<close>

definition write_regs ::
  "'h nfc_hw \<Rightarrow> nfc_cmd \<Rightarrow> u32 \<Rightarrow> u32 \<Rightarrow> u8 list \<Rightarrow> 'h nst \<Rightarrow> 'h nst option" where
  "write_regs H a wcmd sectors sparebuf s = do {
     s \<leftarrow> set_user_data H sparebuf (unat sectors) 0
           (NFC_WRITE_REG H NFC_REG_SECTOR_NUM sectors
             (NFC_WRITE_REG H NFC_REG_WCMD_SET wcmd (NFC_WRITE_REG H NFC_REG_CNT 1024 s)));
     set_addr H (nc_addr a) (unat (nc_addr_cycle a)) s
   }"

text \<open>\<open>_wait_cmdfifo_free(); _wait_cmd_finish();\<close> with both results dropped.\<close>

definition wait_cmd_quiet :: "'h nfc_hw \<Rightarrow> 'h nst \<Rightarrow> 'h nst" where
  "wait_cmd_quiet H s = snd (wait_cmd_finish H (snd (wait_cmdfifo_free H s)))"

definition NFC_Write ::
  "'h nfc_hw \<Rightarrow> nfc_cmd list \<Rightarrow> u8 list \<Rightarrow> u8 list \<Rightarrow> u8 \<Rightarrow> u8 \<Rightarrow> u8 \<Rightarrow> 'h nst \<Rightarrow> (int \<times> 'h nst) option"
where
  "NFC_Write H wcmd mainbuf sparebuf dma_wait_mode rb_wait_mode page_mode s =
     (if page_mode = 0 then Some (- 1, s)
      else do {
        (a, random_program, program) \<leftarrow> write_cmds wcmd;
        let s = reg_upd H NFC_REG_CTL (\<lambda>v. v OR NFC_RAM_METHOD) s;
        data \<leftarrow> dma_src mainbuf (ns_pagesize s);
        let s = dma_start H True data (ns_pagesize s) s;
        let (ret, s) = wait_cmdfifo_free H s;
        if ret \<noteq> 0 then Some (ret, s)
        else do {
          s \<leftarrow> write_regs H a (wcmd_set program random_program) (ns_pagesize s div 1024) sparebuf s;
          let s = enable_ecc H 1 s;
          let s = NFC_WRITE_REG H NFC_REG_CMD (page_cmd a (write_flags OR seq_if_1K s)) s;
          let s = wait_cmd_quiet H s;
          let (ret, s) = dma_tail H dma_wait_mode s;
          let s = disable_ecc H s;
          let s = reg_upd H NFC_REG_CTL (\<lambda>v. v AND NOT NFC_RAM_METHOD) s;
          Some (ret, s)
        }
      })"

definition NFC_Write_Seq ::
  "'h nfc_hw \<Rightarrow> nfc_cmd list \<Rightarrow> u8 list \<Rightarrow> u8 list \<Rightarrow> u8 \<Rightarrow> u8 \<Rightarrow> u8 \<Rightarrow> 'h nst \<Rightarrow> (int \<times> 'h nst) option"
where
  "NFC_Write_Seq H wcmd mainbuf sparebuf dma_wait_mode rb_wait_mode page_mode s =
     (if page_mode = 0 then Some (- 1, s)
      else do {
        (a, random_program, program) \<leftarrow> write_cmds wcmd;
        let s = reg_upd H NFC_REG_CTL (\<lambda>v. v OR NFC_RAM_METHOD) s;
        data \<leftarrow> dma_src mainbuf (ns_pagesize s);
        let s = dma_start H True data (ns_pagesize s) s;
        let (ret, s) = wait_cmdfifo_free H s;
        if ret \<noteq> 0 then Some (ret, s)
        else do {
          s \<leftarrow> write_regs H a (wcmd_set program random_program) (ns_pagesize s div 1024) sparebuf s;
          let s = enable_ecc H 1 s;
          let (v, s) = NFC_READ_REG H NFC_REG_ECC_CTL s;
          let ecc_mode_temp = v AND 0xf000;
          let s = set_ecc_mode_bits H 0x1000 s;
          let s = NFC_WRITE_REG H NFC_REG_CMD (page_cmd a (write_flags OR NFC_SEQ)) s;
          let s = wait_cmd_quiet H s;
          let (ret, s) = dma_tail H dma_wait_mode s;
          let s = disable_ecc H s;
          let s = set_ecc_mode_bits H ecc_mode_temp s;
          let s = reg_upd H NFC_REG_CTL (\<lambda>v. v AND NOT NFC_RAM_METHOD) s;
          Some (ret, s)
        }
      })"

definition NFC_Write_1K ::
  "'h nfc_hw \<Rightarrow> nfc_cmd list \<Rightarrow> u8 list \<Rightarrow> u8 list \<Rightarrow> u8 \<Rightarrow> u8 \<Rightarrow> u8 \<Rightarrow> 'h nst \<Rightarrow> (int \<times> 'h nst) option"
where
  "NFC_Write_1K H wcmd mainbuf sparebuf dma_wait_mode rb_wait_mode page_mode s =
     (if page_mode = 0 then Some (- 1, s)
      else do {
        (a, random_program, program) \<leftarrow> write_cmds wcmd;
        let s = reg_upd H NFC_REG_CTL (\<lambda>v. v OR NFC_RAM_METHOD) s;
        let (v, s) = NFC_READ_REG H NFC_REG_CTL s;
        let page_size_temp = drop_bit 8 (v AND 0xf00);
        let s = reg_upd H NFC_REG_CTL (\<lambda>v. v OR 0x300) s;
        data \<leftarrow> dma_src mainbuf 1024;
        let s = dma_start H True data 1024 s;
        let (ret, s) = wait_cmdfifo_free H s;
        if ret \<noteq> 0 then Some (ret, s)
        else do {
          s \<leftarrow> write_regs H a (wcmd_set program random_program) 1 sparebuf s;
          let s = enable_ecc H 1 s;
          let (v, s) = NFC_READ_REG H NFC_REG_ECC_CTL s;
          let ecc_mode_temp = v AND 0xf000;
          let s = set_ecc_mode_bits H 0x8000 s;
          let s = NFC_WRITE_REG H NFC_REG_CMD (page_cmd a (write_flags OR NFC_SEQ)) s;
          let s = wait_cmd_quiet H s;
          let (ret, s) = dma_tail H dma_wait_mode s;
          let s = disable_ecc H s;
          let s = set_ecc_mode_bits H ecc_mode_temp s;
          let s = reg_upd H NFC_REG_CTL
                    (\<lambda>v. (v AND NOT NFC_PAGE_SIZE) OR push_bit 8 page_size_temp) s;
          let s = reg_upd H NFC_REG_CTL (\<lambda>v. v AND NOT NFC_RAM_METHOD) s;
          Some (ret, s)
        }
      })"

section \<open>Erase and copy-back\<close>

text \<open>\<open>ret = nfc_set_cmd_register(cmd); if (ret) return ret; ret = _wait_cmdfifo_free(); ret |= ...\<close>.\<close>

definition run_cmds :: "'h nfc_hw \<Rightarrow> nfc_cmd list \<Rightarrow> 'h nst \<Rightarrow> (int \<times> 'h nst) option" where
  "run_cmds H cmd s = do {
     (ret, s) \<leftarrow> nfc_set_cmd_register H cmd s;
     if ret \<noteq> 0 then Some (ret, s) else Some (wait_cmd_done H s)
   }"

definition NFC_Erase :: "'h nfc_hw \<Rightarrow> nfc_cmd list \<Rightarrow> u8 \<Rightarrow> 'h nst \<Rightarrow> (int \<times> 'h nst) option" where
  "NFC_Erase H ecmd rb_wait_mode s = run_cmds H ecmd s"

definition NFC_CopyBackRead :: "'h nfc_hw \<Rightarrow> nfc_cmd list \<Rightarrow> 'h nst \<Rightarrow> (int \<times> 'h nst) option" where
  "NFC_CopyBackRead H crcmd s = run_cmds H crcmd s"

definition NFC_CopyBackWrite ::
  "'h nfc_hw \<Rightarrow> nfc_cmd list \<Rightarrow> u8 \<Rightarrow> 'h nst \<Rightarrow> (int \<times> 'h nst) option" where
  "NFC_CopyBackWrite H cwcmd rb_wait_mode s = run_cmds H cwcmd s"

definition NFC_ResetChip :: "'h nfc_hw \<Rightarrow> nfc_cmd list \<Rightarrow> 'h nst \<Rightarrow> (int \<times> 'h nst) option" where
  "NFC_ResetChip H reset_cmd s = run_cmds H reset_cmd s"

section \<open>Identification and status\<close>

fun read_ram_bytes :: "'h nfc_hw \<Rightarrow> nat \<Rightarrow> nat \<Rightarrow> 'h nst \<Rightarrow> u8 list \<times> 'h nst" where
  "read_ram_bytes H 0 i s = ([], s)"
| "read_ram_bytes H (Suc n) i s =
     (let (b, s) = NFC_READ_RAM_B H (NFC_RAM0_BASE + i) s;
          (bs, s) = read_ram_bytes H n (Suc i) s
      in (b # bs, s))"

text \<open>The bytes written to \<open>idbuf\<close> are returned.\<close>

definition get_id_bytes ::
  "'h nfc_hw \<Rightarrow> nat \<Rightarrow> nfc_cmd list \<Rightarrow> 'h nst \<Rightarrow> (int \<times> u8 list \<times> 'h nst) option" where
  "get_id_bytes H n idcmd s = do {
     (ret, s) \<leftarrow> nfc_set_cmd_register H idcmd (nfc_repeat_mode_enable H s);
     if ret \<noteq> 0 then Some (ret, [], s)
     else do {
       let (ret, s) = wait_cmd_done H s;
       let (bs, s) = read_ram_bytes H n 0 s;
       Some (ret, bs, nfc_repeat_mode_disable H s)
     }
   }"

definition NFC_GetId :: "'h nfc_hw \<Rightarrow> nfc_cmd list \<Rightarrow> 'h nst \<Rightarrow> (int \<times> u8 list \<times> 'h nst) option" where
  "NFC_GetId H idcmd s = get_id_bytes H 5 idcmd s"

definition NFC_GetUniqueId :: "'h nfc_hw \<Rightarrow> nfc_cmd list \<Rightarrow> 'h nst \<Rightarrow> (int \<times> u8 list \<times> 'h nst) option"
where
  "NFC_GetUniqueId H idcmd s = get_id_bytes H 32 idcmd s"

definition NFC_GetStatus :: "'h nfc_hw \<Rightarrow> nfc_cmd list \<Rightarrow> 'h nst \<Rightarrow> (int \<times> 'h nst) option" where
  "NFC_GetStatus H scmd s = do {
     (ret, s) \<leftarrow> nfc_set_cmd_register H scmd (nfc_repeat_mode_enable H s);
     if ret \<noteq> 0 then Some (ret, s)
     else do {
       let (ret, s) = wait_cmd_done H s;
       if ret \<noteq> 0 then Some (ret, s)
       else do {
         let (b, s) = NFC_READ_RAM_B H NFC_RAM0_BASE (nfc_repeat_mode_disable H s);
         Some (uint b, s)
       }
     }
   }"

end
