(* ===== verification/Nfc_Retry.thy ===== *)
theory Nfc_Retry
  imports Nfc_Page
begin

text \<open>
  Clock, set-up and read retry of the controller: \<open>NAND_SetClock\<close> and \<open>NAND_GetClock\<close>
  (\<open>nand_drv/nand_osal_uboot.c\<close>), \<open>NFC_Init\<close>, \<open>NFC_ChangMode\<close>, \<open>NFC_Exit\<close>, the vendor commands that
  read and set the chip's threshold registers, the retry tables and \<open>NFC_ReadRetry\<close>
  (\<open>ndfc/nfc_r.c\<close>), and the LSB mode (\<open>nfc_w.c\<close>). \<^term>\<open>None\<close> is an access outside a table, or a
  division by zero.
\<close>

section \<open>Clock\<close>

abbreviation (input) CCMU_REGS_BASE :: nat where "CCMU_REGS_BASE \<equiv> 0x01c20000"

definition NAND_OpenAHBClock :: "'h nfc_hw \<Rightarrow> 'h nst \<Rightarrow> 'h nst" where
  "NAND_OpenAHBClock H s = reg_upd H (CCMU_REGS_BASE + 0x60) (\<lambda>v. v OR 0x2000) s"

definition NAND_CloseAHBClock :: "'h nfc_hw \<Rightarrow> 'h nst \<Rightarrow> 'h nst" where
  "NAND_CloseAHBClock H s = reg_upd H (CCMU_REGS_BASE + 0x60) (\<lambda>v. v AND NOT 0x2000) s"

definition NAND_GetCmuClk :: "'h nfc_hw \<Rightarrow> 'h nst \<Rightarrow> (u32 \<times> 'h nst) option" where
  "NAND_GetCmuClk H s =
     (let (reg_val, s) = NFC_READ_REG H (CCMU_REGS_BASE + 0x20) s;
          div_p = drop_bit 16 reg_val AND 0x3;
          factor_n = drop_bit 8 reg_val AND 0x1f;
          factor_k = (drop_bit 4 reg_val AND 0x3) + 1;
          factor_m = (reg_val AND 0x3) + 1
      in if div_p = 0 then None else Some (24 * factor_n * factor_k div div_p div factor_m, s))"

text \<open>The divider of \<open>NAND_SetClock\<close>, four bits wide: the register holds one less than the ratio.\<close>

definition clk_divid_ratio :: "u32 \<Rightarrow> u32 \<Rightarrow> u32" where
  "clk_divid_ratio cmu_clk edo_clk =
     (let ratio = cmu_clk div edo_clk;
          ratio = (if cmu_clk mod edo_clk \<noteq> 0 then ratio + 1 else ratio)
      in if ratio \<noteq> 0 then (if ratio > 16 then 15 else ratio - 1) else ratio)"

definition clk_cfg :: "u32 \<Rightarrow> u32 \<Rightarrow> u32" where
  "clk_cfg ratio cfg =
     (((((cfg OR 0x80000000) AND NOT 0x3000000) OR 0x2000000) AND NOT 0x3000) AND NOT 0xf)
      OR (ratio AND 0xf)"

definition NAND_SetClock :: "'h nfc_hw \<Rightarrow> u32 \<Rightarrow> 'h nst \<Rightarrow> (int \<times> 'h nst) option" where
  "NAND_SetClock H nand_max_clock s = do {
     let edo_clk = nand_max_clock * 2;
     (cmu_clk, s) \<leftarrow> NAND_GetCmuClk H s;
     if edo_clk = 0 then None
     else do {
       let ratio = clk_divid_ratio cmu_clk edo_clk;
       Some (0, reg_upd H (CCMU_REGS_BASE + 0x80) (clk_cfg ratio) s)
     }
   }"

definition NAND_GetClock :: "'h nfc_hw \<Rightarrow> 'h nst \<Rightarrow> (u32 \<times> 'h nst) option" where
  "NAND_GetClock H s = do {
     (cmu_clk, s) \<leftarrow> NAND_GetCmuClk H s;
     let (cfg, s) = NFC_READ_REG H (CCMU_REGS_BASE + 0x80) s;
     let ratio = (cfg AND 0xf) + 1;
     Some (cmu_clk div (2 * ratio), s)
   }"

section \<open>Set-up\<close>

record nfc_init_info =
  ni_bus_width :: u8
  ni_rb_sel :: u8
  ni_ce_ctl :: u8
  ni_ce_ctl1 :: u8
  ni_pagesize :: u8
  ni_serial_access_mode :: u8
  ni_ddr_type :: u8
  ni_debug :: u8

definition page_size_code :: "u8 \<Rightarrow> u32" where
  "page_size_code p = (if p = 2 then 0 else if p = 4 then 0x100 else if p = 8 then 0x200
     else if p = 16 then 0x300 else if p = 32 then 0x400 else 0x200)"

definition ctl_word :: "nfc_init_info \<Rightarrow> u32" where
  "ctl_word n = NFC_EN OR push_bit 2 (ucast (ni_bus_width n) AND 0x1)
     OR push_bit 6 (ucast (ni_ce_ctl n) AND 0x1) OR push_bit 7 (ucast (ni_ce_ctl1 n) AND 0x1)
     OR page_size_code (ni_pagesize n) OR push_bit 18 (ucast (ni_ddr_type n) AND 0x3)
     OR push_bit 31 (ucast (ni_debug n) AND 0x1)"

definition timing_word :: "nfc_init_info \<Rightarrow> u32" where
  "timing_word n =
     (let d = ucast (ni_ddr_type n) AND (0x3 :: u32) in
      if d = 0 then push_bit 8 ((ucast (ni_serial_access_mode n) AND 0x1) AND 0xf)
      else if d = 2 then 0x33f else if d = 3 then 0x21f else 0)"

definition NFC_ChangMode :: "'h nfc_hw \<Rightarrow> nfc_init_info \<Rightarrow> 'h nst \<Rightarrow> int \<times> 'h nst" where
  "NFC_ChangMode H n s =
     (let s = s\<lparr>ns_pagesize := ucast (ni_pagesize n) * 512\<rparr>;
          s = snd (nfc_reset H s);
          s = NFC_WRITE_REG H NFC_REG_CTL (ctl_word n) s;
          s = NFC_WRITE_REG H NFC_REG_TIMING_CTL (timing_word n) s;
          s = NFC_WRITE_REG H NFC_REG_TIMING_CFG 0xff s;
          s = NFC_WRITE_REG H NFC_REG_SPARE_AREA (ns_pagesize s) s
      in (0, s))"

definition NFC_SetEccMode :: "'h nfc_hw \<Rightarrow> u8 \<Rightarrow> 'h nst \<Rightarrow> 'h nst" where
  "NFC_SetEccMode H ecc_mode s =
     reg_upd H NFC_REG_ECC_CTL
       (\<lambda>cfg. (cfg AND NOT NFC_ECC_MODE) OR (NFC_ECC_MODE AND push_bit 12 (ucast ecc_mode))) s"

definition NAND_GetPin :: "'h nfc_hw \<Rightarrow> 'h nst \<Rightarrow> 'h nst" where
  "NAND_GetPin H s = NFC_WRITE_REG H 0x01c20850 0x2222222
     (NFC_WRITE_REG H 0x01c2084c 0x22222222 (NFC_WRITE_REG H 0x01c20848 0x22222222 s))"

definition NFC_Init :: "'h nfc_hw \<Rightarrow> nfc_init_info \<Rightarrow> 'h nst \<Rightarrow> (int \<times> 'h nst) option" where
  "NFC_Init H n s = do {
     (r, s) \<leftarrow> NAND_SetClock H 10 (NAND_OpenAHBClock H (NAND_GetPin H s));
     if r \<noteq> 0 then Some (- 1, s)
     else do {
       let s = NFC_SetEccMode H 0 s;
       let (ret, s) = NFC_ChangMode H n s;
       let (hdle, h) = hw_request_dma H (ns_hw s);
       let s = s\<lparr>ns_hw := h, ns_dma_hdle := hdle\<rparr>;
       if hdle = 0 then Some (- 1, s) else Some (ret, s)
     }
   }"

definition NFC_Exit :: "'h nfc_hw \<Rightarrow> 'h nst \<Rightarrow> 'h nst" where
  "NFC_Exit H s =
     (let s = reg_upd H NFC_REG_CTL (\<lambda>cfg. cfg AND NOT NFC_EN) s;
          s = s\<lparr>ns_hw := hw_release_dma H (ns_dma_hdle s) (ns_hw s)\<rparr>
      in NAND_CloseAHBClock H s)"

section \<open>Vendor commands\<close>

definition hynix_mode :: "u8 \<Rightarrow> bool" where
  "hynix_mode m \<longleftrightarrow> m < 0x10"

definition toshiba_mode :: "u8 \<Rightarrow> bool" where
  "toshiba_mode m \<longleftrightarrow> 0x10 \<le> m \<and> m < 0x20"

definition samsung_mode :: "u8 \<Rightarrow> bool" where
  "samsung_mode m \<longleftrightarrow> 0x20 \<le> m \<and> m < 0x30"

fun vender_get_loop ::
  "'h nfc_hw \<Rightarrow> u32 \<Rightarrow> u8 list \<Rightarrow> nat \<Rightarrow> nat \<Rightarrow> u8 list \<Rightarrow> 'h nst \<Rightarrow> (int \<times> u8 list \<times> 'h nst) option"
where
  "vender_get_loop H cmd_r addr 0 i para s = Some (0, para, s)"
| "vender_get_loop H cmd_r addr (Suc n) i para s = do {
     a \<leftarrow> arr_get addr i;
     s \<leftarrow> set_addr H [a] 1 s;
     let s = NFC_WRITE_REG H NFC_REG_CNT 1 s;
     let s = NFC_WRITE_REG H NFC_REG_CMD (cmd_r OR NFC_SEND_ADR OR NFC_DATA_TRANS OR NFC_SEND_CMD1) s;
     let (ret, s) = wait_cmd_done H s;
     if ret \<noteq> 0 then Some (ret, para, s)
     else do {
       let (b, s) = NFC_READ_RAM_B H NFC_RAM0_BASE s;
       para \<leftarrow> arr_set para i b;
       vender_get_loop H cmd_r addr n (Suc i) para s
     }
   }"

definition vender_get_param ::
  "'h nfc_hw \<Rightarrow> u8 list \<Rightarrow> u8 list \<Rightarrow> nat \<Rightarrow> 'h nst \<Rightarrow> (int \<times> u8 list \<times> 'h nst) option" where
  "vender_get_param H para addr cnt s =
     (if toshiba_mode (ns_rr_mode s) then Some (0, para, s)
      else vender_get_loop H (if hynix_mode (ns_rr_mode s) then 0x37 else 0) addr cnt 0 para s)"

text \<open>One command without address or data, and the wait for its end.\<close>

definition send_cmd :: "'h nfc_hw \<Rightarrow> u32 \<Rightarrow> 'h nst \<Rightarrow> int \<times> 'h nst" where
  "send_cmd H cmd s = wait_cmd_done H (NFC_WRITE_REG H NFC_REG_CMD (cmd OR NFC_SEND_CMD1) s)"

text \<open>\<open>cmd_w\<close>, \<open>cmd_end\<close>, \<open>cmd_done0\<close> and \<open>cmd_done1\<close>; \<open>0xff\<close> is no command.\<close>

definition vender_cmds :: "u8 \<Rightarrow> u32 \<times> u32 \<times> u32 \<times> u32" where
  "vender_cmds m =
     (if hynix_mode m then (0x36, 0x16, 0xff, 0xff)
      else if toshiba_mode m then (0x55, 0xff, 0x26, 0x5d)
      else if samsung_mode m then (0xa1, 0xff, 0xff, 0xff)
      else (0xff, 0xff, 0xff, 0xff))"

definition vender_set_one ::
  "'h nfc_hw \<Rightarrow> u32 \<Rightarrow> u8 \<Rightarrow> u8 \<Rightarrow> 'h nst \<Rightarrow> 'h nst option" where
  "vender_set_one H cmd_w p a s =
     (if samsung_mode (ns_rr_mode s)
      then let s = NFC_WRITE_RAM_B H NFC_RAM0_BASE 0x00 s;
               s = NFC_WRITE_RAM_B H (NFC_RAM0_BASE + 1) a s;
               s = NFC_WRITE_RAM_B H (NFC_RAM0_BASE + 2) p s;
               s = NFC_WRITE_REG H NFC_REG_CNT 3 s;
               s = nfc_repeat_mode_enable H s;
               s = NFC_WRITE_REG H NFC_REG_CMD
                     (cmd_w OR NFC_DATA_TRANS OR NFC_ACCESS_DIR OR NFC_SEND_CMD1) s
           in Some (nfc_repeat_mode_disable H s)
      else do {
        s \<leftarrow> set_addr H [a] 1 (NFC_WRITE_RAM_B H NFC_RAM0_BASE p s);
        let s = NFC_WRITE_REG H NFC_REG_CNT 1 s;
        Some (NFC_WRITE_REG H NFC_REG_CMD
                (cmd_w OR NFC_SEND_ADR OR NFC_DATA_TRANS OR NFC_ACCESS_DIR OR NFC_SEND_CMD1) s)
      })"

fun vender_set_loop ::
  "'h nfc_hw \<Rightarrow> u32 \<Rightarrow> u32 \<Rightarrow> u8 list \<Rightarrow> u8 list \<Rightarrow> nat \<Rightarrow> nat \<Rightarrow> 'h nst \<Rightarrow> (int \<times> 'h nst) option" where
  "vender_set_loop H cmd_w cmd_end para addr 0 i s = Some (0, s)"
| "vender_set_loop H cmd_w cmd_end para addr (Suc n) i s = do {
     p \<leftarrow> arr_get para i;
     a \<leftarrow> arr_get addr i;
     s \<leftarrow> vender_set_one H cmd_w p a s;
     let (ret, s) = wait_cmd_done H s;
     if ret \<noteq> 0 then Some (ret, s)
     else do {
       let (ret, s) = (if cmd_end \<noteq> 0xff then send_cmd H cmd_end s else (0, s));
       if ret \<noteq> 0 then Some (ret, s)
       else vender_set_loop H cmd_w cmd_end para addr n (Suc i) s
     }
   }"

definition vender_set_param ::
  "'h nfc_hw \<Rightarrow> u8 list \<Rightarrow> u8 list \<Rightarrow> nat \<Rightarrow> 'h nst \<Rightarrow> (int \<times> 'h nst) option" where
  "vender_set_param H para addr cnt s = do {
     let (cmd_w, cmd_end, cmd_done0, cmd_done1) = vender_cmds (ns_rr_mode s);
     (ret, s) \<leftarrow> vender_set_loop H cmd_w cmd_end para addr cnt 0 s;
     if ret \<noteq> 0 then Some (ret, s)
     else do {
       let (ret, s) = (if cmd_done0 \<noteq> 0xff then send_cmd H cmd_done0 s else (ret, s));
       if ret \<noteq> 0 then Some (ret, s)
       else Some (if cmd_done1 \<noteq> 0xff then send_cmd H cmd_done1 s else (ret, s))
     }
   }"

definition vender_pre_condition :: "'h nfc_hw \<Rightarrow> 'h nst \<Rightarrow> int \<times> 'h nst" where
  "vender_pre_condition H s =
     (if toshiba_mode (ns_rr_mode s)
      then let (ret, s) = send_cmd H 0x5c s in
           if ret \<noteq> 0 then (ret, s) else send_cmd H 0xc5 s
      else (0, s))"

section \<open>Read retry\<close>

definition para0 :: "int list list" where
  "para0 = [[0x00, 0x06, 0x0A, 0x06], [0x00, -0x03, -0x07, -0x08], [0x00, -0x06, -0x0D, -0x0F],
            [0x00, -0x0B, -0x14, -0x17], [0x00, 0x00, -0x1A, -0x1E], [0x00, 0x00, -0x20, -0x25]]"

definition para1 :: "int list list" where
  "para1 = [[0x00, 0x06, 0x0a, 0x06], [0x00, -0x03, -0x07, -0x08], [0x00, -0x06, -0x0d, -0x0f],
            [0x00, -0x09, -0x14, -0x17], [0x00, 0x00, -0x1a, -0x1e], [0x00, 0x00, -0x20, -0x25]]"

definition para0x10 :: "int list" where
  "para0x10 = [0x04, 0x7c, 0x78, 0x74, 0x08]"

definition para0x20 :: "int list list" where
  "para0x20 = [[0x00, 0x00, 0x00, 0x00], [0x05, 0x0A, 0x00, 0x00], [0x28, 0x00, 0xEC, 0xD8],
     [0xED, 0xF5, 0xED, 0xE6], [0x0A, 0x0F, 0x05, 0x00], [0x0F, 0x0A, 0xFB, 0xEC],
     [0xE8, 0xEF, 0xE8, 0xDC], [0xF1, 0xFB, 0xFE, 0xF0], [0x0A, 0x00, 0xFB, 0xEC],
     [0xD0, 0xE2, 0xD0, 0xC2], [0x14, 0x0F, 0xFB, 0xEC], [0xE8, 0xFB, 0xE8, 0xDC],
     [0x1E, 0x14, 0xFB, 0xEC], [0xFB, 0xFF, 0xFB, 0xF8], [0x07, 0x0C, 0x02, 0x00]]"

definition arr_get2 :: "'a list list \<Rightarrow> nat \<Rightarrow> nat \<Rightarrow> 'a option" where
  "arr_get2 t i j = do { r \<leftarrow> arr_get t i; arr_get r j }"

definition arr_set2 :: "'a list list \<Rightarrow> nat \<Rightarrow> nat \<Rightarrow> 'a \<Rightarrow> 'a list list option" where
  "arr_set2 t i j v = do { r \<leftarrow> arr_get t i; r \<leftarrow> arr_set r j v; arr_set t i r }"

text \<open>\<open>for (i..) for (j..) read_retry_val[i][j] = src(i, j)\<close>.\<close>

fun retry_row :: "(nat \<Rightarrow> int option) \<Rightarrow> nat \<Rightarrow> nat \<Rightarrow> nat \<Rightarrow> 16 word list list \<Rightarrow> 16 word list list option"
where
  "retry_row src i 0 j t = Some t"
| "retry_row src i (Suc n) j t = do {
     v \<leftarrow> src j;
     t \<leftarrow> arr_set2 t i j (of_int v);
     retry_row src i n (Suc j) t
   }"

fun retry_rows ::
  "(nat \<Rightarrow> nat \<Rightarrow> int option) \<Rightarrow> nat \<Rightarrow> nat \<Rightarrow> nat \<Rightarrow> 16 word list list \<Rightarrow> 16 word list list option" where
  "retry_rows src regs 0 i t = Some t"
| "retry_rows src regs (Suc n) i t = do {
     t \<leftarrow> retry_row (src i) i regs 0 t;
     retry_rows src regs n (Suc i) t
   }"

definition lsb_regs :: "u8 list \<Rightarrow> u8 list" where
  "lsb_regs old = [0xa4, 0xa5, 0xb0, 0xb1, 0xc9] @ drop 5 old"

definition lsb_vals :: "u8 list \<Rightarrow> u8 list" where
  "lsb_vals old = [0x25, 0x25, 0x25, 0x25, 0x1] @ drop 5 old"

definition set_rr_type :: "u32 \<Rightarrow> 'h nst \<Rightarrow> 'h nst" where
  "set_rr_type t s = s\<lparr>ns_rr_mode := ucast (drop_bit 16 t AND 0xff),
     ns_rr_cycle := ucast (drop_bit 8 t AND 0xff), ns_rr_reg_num := ucast (t AND 0xff)\<rparr>"

definition set_lsb_tables :: "'h nst \<Rightarrow> 'h nst" where
  "set_lsb_tables s = s\<lparr>ns_lsb_reg_num := 5, ns_lsb_reg_adr := lsb_regs (ns_lsb_reg_adr s),
     ns_lsb_val := lsb_vals (ns_lsb_val s)\<rparr>"

definition NFC_ReadRetryInit :: "u32 \<Rightarrow> 'h nst \<Rightarrow> (int \<times> 'h nst) option" where
  "NFC_ReadRetryInit read_retry_type s = do {
     let s = set_rr_type read_retry_type s;
     let cyc = unat (ns_rr_cycle s);
     let regs = unat (ns_rr_reg_num s);
     if ns_rr_mode s = 0 then do {
       vals \<leftarrow> retry_rows (arr_get2 para0) regs cyc 0 (ns_rr_val s);
       Some (0, s\<lparr>ns_rr_reg_adr := [0xAC, 0xAD, 0xAE, 0xAF], ns_rr_val := vals\<rparr>)
     } else if ns_rr_mode s = 1 then do {
       vals \<leftarrow> retry_rows (arr_get2 para1) regs cyc 0 (ns_rr_val s);
       Some (0, set_lsb_tables (s\<lparr>ns_rr_reg_adr := [0xA7, 0xAD, 0xAE, 0xAF], ns_rr_val := vals\<rparr>))
     } else if ns_rr_mode s = 0x10 then do {
       vals \<leftarrow> retry_rows (\<lambda>i j. arr_get para0x10 i) regs cyc 0 (ns_rr_val s);
       Some (0, s\<lparr>ns_rr_reg_adr := [0x04, 0x05, 0x06, 0x07], ns_rr_val := vals\<rparr>)
     } else if ns_rr_mode s = 0x20 then do {
       vals \<leftarrow> retry_rows (arr_get2 para0x20) regs (cyc + 1) 0 (ns_rr_val s);
       Some (0, s\<lparr>ns_rr_reg_adr := [0xA7, 0xA4, 0xA5, 0xA6], ns_rr_val := vals\<rparr>)
     } else Some (0, s)
   }"

text \<open>The value written to a hynix threshold register: the default plus the offset, as a signed 16 bit
  sum, clipped to a byte.\<close>

definition clip_param :: "u8 \<Rightarrow> 16 word \<Rightarrow> u8" where
  "clip_param d v =
     (let temp_val = sint (word_of_int (uint d + sint v) :: 16 word) in
      if temp_val > 255 then 0xff else if temp_val < 0 then 0 else of_int temp_val)"

fun hynix_params ::
  "u8 list \<Rightarrow> (nat \<Rightarrow> 16 word option) \<Rightarrow> nat \<Rightarrow> nat \<Rightarrow> u8 list \<Rightarrow> u8 list option" where
  "hynix_params dflt off 0 i param = Some param"
| "hynix_params dflt off (Suc n) i param = do {
     d \<leftarrow> arr_get dflt i;
     v \<leftarrow> off i;
     param \<leftarrow> arr_set param i (clip_param d v);
     hynix_params dflt off n (Suc i) param
   }"

fun copy_params :: "(nat \<Rightarrow> 16 word option) \<Rightarrow> nat \<Rightarrow> nat \<Rightarrow> u8 list \<Rightarrow> u8 list option" where
  "copy_params off 0 i param = Some param"
| "copy_params off (Suc n) i param = do {
     v \<leftarrow> off i;
     param \<leftarrow> arr_set param i (ucast v);
     copy_params off n (Suc i) param
   }"

text \<open>The entries marked \<open>fix 0\<close>.\<close>

definition fix_zero :: "u8 \<Rightarrow> nat \<Rightarrow> u8 list \<Rightarrow> u8 list" where
  "fix_zero mode rc param =
     (if mode = 0 then (if rc = 10 then param[1 := 0] else param)
      else if mode = 1 then
        let param = (if 2 \<le> rc \<and> rc \<le> 6 then param[0 := 0] else param)
        in if rc = 5 \<or> rc = 6 then param[1 := 0] else param
      else param)"

definition NFC_ReadRetry ::
  "cfg \<Rightarrow> 'h nfc_hw \<Rightarrow> u32 \<Rightarrow> u32 \<Rightarrow> 'h nst \<Rightarrow> (int \<times> 'h nst) option" where
  "NFC_ReadRetry C H chip retry_count s =
     (let regs = unat (ns_rr_reg_num s); rc = unat retry_count;
          param = map (junk8 C) [0..<4]
      in if retry_count > ucast (ns_rr_cycle s) then Some (- 1, s)
      else if hynix_mode (ns_rr_mode s) then do {
        dflt \<leftarrow> arr_get (ns_rr_default s) (unat chip);
        if retry_count = 0 then vender_set_param H dflt (ns_rr_reg_adr s) regs s
        else do {
          param \<leftarrow> hynix_params dflt (arr_get2 (ns_rr_val s) (rc - 1)) regs 0 param;
          vender_set_param H (fix_zero (ns_rr_mode s) rc param) (ns_rr_reg_adr s) regs s
        }
      } else if toshiba_mode (ns_rr_mode s) then do {
        (nand_clk_bak, s) \<leftarrow> NAND_GetClock H s;
        (r, s) \<leftarrow> NAND_SetClock H 10 s;
        let s = (if retry_count = 1 then snd (vender_pre_condition H s) else s);
        param \<leftarrow> copy_params (arr_get2 (ns_rr_val s) (unat (retry_count - 1))) regs 0 param;
        (ret, s) \<leftarrow> vender_set_param H param (ns_rr_reg_adr s) regs s;
        (r, s) \<leftarrow> NAND_SetClock H nand_clk_bak s;
        Some (ret, s)
      } else if samsung_mode (ns_rr_mode s) then do {
        param \<leftarrow> copy_params (arr_get2 (ns_rr_val s) rc) regs 0 param;
        vender_set_param H param (ns_rr_reg_adr s) regs s
      } else Some (0, s))"

text \<open>\<open>read_retry_default_val[chip]\<close> is read from the chip; the loop then copies it to the caller.\<close>

definition NFC_GetDefaultParam ::
  "'h nfc_hw \<Rightarrow> u32 \<Rightarrow> u8 list \<Rightarrow> 'h nst \<Rightarrow> (int \<times> u8 list \<times> 'h nst) option" where
  "NFC_GetDefaultParam H chip default_value s =
     (if hynix_mode (ns_rr_mode s) then do {
        let regs = unat (ns_rr_reg_num s);
        para \<leftarrow> arr_get (ns_rr_default s) (unat chip);
        (ret, para, s) \<leftarrow> vender_get_param H para (ns_rr_reg_adr s) regs s;
        let s = s\<lparr>ns_rr_default := (ns_rr_default s)[unat chip := para]\<rparr>;
        bs \<leftarrow> mem_get para 0 regs;
        v \<leftarrow> mem_put default_value 0 bs;
        Some (ret, v, s)
      } else Some (0, default_value, s))"

definition NFC_SetDefaultParam ::
  "'h nfc_hw \<Rightarrow> u32 \<Rightarrow> u8 list \<Rightarrow> 'h nst \<Rightarrow> (int \<times> u8 list \<times> 'h nst) option" where
  "NFC_SetDefaultParam H chip default_value s =
     (let regs = unat (ns_rr_reg_num s) in
      if hynix_mode (ns_rr_mode s) then do {
        para \<leftarrow> arr_get (ns_rr_default s) (unat chip);
        bs \<leftarrow> mem_get para 0 regs;
        v \<leftarrow> mem_put default_value 0 bs;
        (ret, s) \<leftarrow> vender_set_param H para (ns_rr_reg_adr s) regs s;
        Some (ret, v, s)
      } else if samsung_mode (ns_rr_mode s) then do {
        v \<leftarrow> copy_params (arr_get2 (ns_rr_val s) 0) regs 0 default_value;
        (ret, s) \<leftarrow> vender_set_param H v (ns_rr_reg_adr s) regs s;
        Some (ret, v, s)
      } else Some (0, default_value, s))"

definition NFC_ReadRetryExit :: "u32 \<Rightarrow> 'h nst \<Rightarrow> int \<times> 'h nst" where
  "NFC_ReadRetryExit t s = (0, s)"

section \<open>LSB mode\<close>

definition NFC_LSBInit :: "u32 \<Rightarrow> 'h nst \<Rightarrow> int \<times> 'h nst" where
  "NFC_LSBInit t s =
     (let s = set_rr_type t s in
      if ns_rr_mode s = 1 then (0, set_lsb_tables s) else (- 1, s))"

definition LSB_GetDefaultParam ::
  "'h nfc_hw \<Rightarrow> u8 list \<Rightarrow> 'h nst \<Rightarrow> (int \<times> u8 list \<times> 'h nst) option" where
  "LSB_GetDefaultParam H default_value s = do {
     let n = unat (ns_lsb_reg_num s);
     (ret, para, s) \<leftarrow> vender_get_param H (ns_lsb_default s) (ns_lsb_reg_adr s) n s;
     let s = s\<lparr>ns_lsb_default := para\<rparr>;
     bs \<leftarrow> mem_get para 0 n;
     v \<leftarrow> mem_put default_value 0 bs;
     Some (ret, v, s)
   }"

definition LSB_SetDefaultParam :: "'h nfc_hw \<Rightarrow> 'h nst \<Rightarrow> (int \<times> 'h nst) option" where
  "LSB_SetDefaultParam H s =
     vender_set_param H (ns_lsb_default s) (ns_lsb_reg_adr s) (unat (ns_lsb_reg_num s)) s"

fun lsb_add :: "u8 list \<Rightarrow> nat \<Rightarrow> nat \<Rightarrow> u8 list \<Rightarrow> u8 list option" where
  "lsb_add vals 0 i v = Some v"
| "lsb_add vals (Suc n) i v = do {
     a \<leftarrow> arr_get v i;
     b \<leftarrow> arr_get vals i;
     v \<leftarrow> arr_set v i (a + b);
     lsb_add vals n (Suc i) v
   }"

definition NFC_LSBEnable :: "cfg \<Rightarrow> 'h nfc_hw \<Rightarrow> 'h nst \<Rightarrow> (int \<times> 'h nst) option" where
  "NFC_LSBEnable C H s = do {
     (r, v, s) \<leftarrow> LSB_GetDefaultParam H (map (junk8 C) [0..<8]) s;
     let n = unat (ns_lsb_reg_num s);
     v \<leftarrow> lsb_add (ns_lsb_val s) n 0 v;
     (r, s) \<leftarrow> vender_set_param H v (ns_lsb_reg_adr s) n s;
     Some (0, s)
   }"

definition NFC_LSBDisable :: "'h nfc_hw \<Rightarrow> 'h nst \<Rightarrow> (int \<times> 'h nst) option" where
  "NFC_LSBDisable H s = do {
     (r, s) \<leftarrow> LSB_SetDefaultParam H s;
     Some (0, s)
   }"

definition NFC_LSBExit :: "u32 \<Rightarrow> 'h nst \<Rightarrow> int \<times> 'h nst" where
  "NFC_LSBExit t s = (0, s)"

end
