(* ===== verification/Phy_Addr.thy ===== *)
theory Phy_Addr
  imports Nfc_Retry
begin

text \<open>
  Addresses of the physic layer (\<open>physic/nand_simple_r.c\<close>, \<open>nand_phy.c\<close>): from a bank to its chip
  select and ready/busy line, from a super block of a bank to a block of the chip, from block, page and
  sector to the address cycles of the flash; the status and ready waits built on them; one physical page
  operation's parameters.
\<close>

section \<open>Macros\<close>

definition FULL_BITMAP_OF_SINGLE_PAGE :: "cfg \<Rightarrow> u32" where
  "FULL_BITMAP_OF_SINGLE_PAGE C = push_bit (SECTOR_CNT_OF_SINGLE_PAGE C) 1 - 1"

definition MULTI_PLANE_BLOCK_OFFSET :: "cfg \<Rightarrow> u32" where
  "MULTI_PLANE_BLOCK_OFFSET C = ucast (MultiPlaneBlockOffset (OptPhyOpPar (storage C)))"

definition SUPPORT_MULTI_READ :: "cfg \<Rightarrow> bool" where
  "SUPPORT_MULTI_READ C = (push_bit 2 1 AND OperationOpt (storage C) \<noteq> 0)"

definition SUPPORT_PAGE_COPYBACK :: "cfg \<Rightarrow> bool" where
  "SUPPORT_PAGE_COPYBACK C = (push_bit 4 1 AND OperationOpt (storage C) \<noteq> 0)"

definition SUPPORT_RANDOM :: "cfg \<Rightarrow> bool" where
  "SUPPORT_RANDOM C = (push_bit 7 1 AND OperationOpt (storage C) \<noteq> 0)"

definition SUPPORT_READ_RETRY :: "cfg \<Rightarrow> bool" where
  "SUPPORT_READ_RETRY C = (push_bit 8 1 AND OperationOpt (storage C) \<noteq> 0)"

definition BNK_CNT_OF_CHIP :: "cfg \<Rightarrow> u32" where
  "BNK_CNT_OF_CHIP C = ucast (BankCntPerChip (storage C))"

definition RB_CONNECT_MODE :: "cfg \<Rightarrow> u8" where
  "RB_CONNECT_MODE C = RbConnectMode (storage C)"

definition READ_RETRY_MODE :: "cfg \<Rightarrow> u32" where
  "READ_RETRY_MODE C = drop_bit 16 (ReadRetryType (storage C)) AND 0xff"

definition READ_RETRY_CYCLE :: "cfg \<Rightarrow> u32" where
  "READ_RETRY_CYCLE C = drop_bit 8 (ReadRetryType (storage C)) AND 0xff"

definition plane_cnt :: "cfg \<Rightarrow> nat" where
  "plane_cnt C = (if SUPPORT_MULTI_PROGRAM C then PLANE_CNT_OF_DIE C else 1)"

section \<open>Bank, chip, ready/busy line\<close>

definition cal_real_chip :: "cfg \<Rightarrow> u32 \<Rightarrow> u8" where
  "cal_real_chip C global_bank =
     (let m = RB_CONNECT_MODE C; b = global_bank in
      if m = 0 \<and> b \<le> 2 then (if b \<noteq> 0 then 7 else 0)
      else if m = 1 \<and> b \<le> 1 then ucast b
      else if m = 2 \<and> b \<le> 2 then ucast b
      else if m = 3 \<and> b \<le> 2 then ucast (b * 2)
      else if m = 4 \<and> b \<le> 4 then
        (if b = 0 then 0 else if b = 1 then 2 else if b = 2 then 1 else if b = 3 then 3 else 0)
      else if m = 5 \<and> b \<le> 4 then ucast (b * 2)
      else if m = 8 \<and> b \<le> 8 then
        (if b = 0 then 0 else if b = 1 then 2 else if b = 2 then 1 else if b = 3 then 3
         else if b = 4 then 4 else if b = 5 then 6 else if b = 6 then 5 else if b = 7 then 7 else 0)
      else 0xff)"

definition cal_real_rb :: "cfg \<Rightarrow> u32 \<Rightarrow> u8" where
  "cal_real_rb C chip =
     (let m = RB_CONNECT_MODE C;
          rb = (if m = 1 \<or> m = 2 then ucast chip
                else if m = 3 \<or> m = 4 then ucast (chip div 2)
                else if m = 5 \<or> m = 8 then ucast ((chip div 2) mod 2)
                else 0 :: u8)
      in if rb \<noteq> 0 \<and> rb \<noteq> 1 then 0xff else rb)"

section \<open>Blocks of a chip\<close>

definition cal_block_in_chip :: "cfg \<Rightarrow> u32 \<Rightarrow> u32 \<Rightarrow> u32 option" where
  "cal_block_in_chip C global_bank super_blk_within_bank =
     (if BNK_CNT_OF_CHIP C = 0 \<or> (SUPPORT_MULTI_PROGRAM C \<and> MULTI_PLANE_BLOCK_OFFSET C = 0) then None
      else
        let bank_base = (global_bank mod BNK_CNT_OF_CHIP C) * of_nat (BLOCK_CNT_OF_DIE C);
            single_blk_within_bank =
              (if SUPPORT_MULTI_PROGRAM C
               then super_blk_within_bank * of_nat (PLANE_CNT_OF_DIE C)
                    - super_blk_within_bank mod MULTI_PLANE_BLOCK_OFFSET C
               else super_blk_within_bank);
            blk_within_chip = bank_base + single_blk_within_bank
        in Some (if of_nat (DIE_CNT_OF_CHIP C * BLOCK_CNT_OF_DIE C) \<le> blk_within_chip
                 then 0xffffffff else blk_within_chip))"

section \<open>Address cycles\<close>

text \<open>The bytes of \<open>_cal_addr_in_chip\<close>, from a column and a row. With four cycles the low column byte is
  \<open>column && 0xff\<close>, a truth value.\<close>

definition addr_bytes :: "u32 \<Rightarrow> u32 \<Rightarrow> nat \<Rightarrow> u8 list" where
  "addr_bytes column row cycle =
     (let c0 = ucast (column AND 0xff); c1 = ucast (drop_bit 8 column AND 0xff);
          r0 = ucast (row AND 0xff); r1 = ucast (drop_bit 8 row AND 0xff);
          r2 = ucast (drop_bit 16 row AND 0xff)
      in if cycle = 1 then [0x00]
         else if cycle = 2 then [c0, c1]
         else if cycle = 3 then [r0, r1, r2]
         else if cycle = 4 then [if column \<noteq> 0 then 1 else 0, c1, r0, r1]
         else if cycle = 5 then [c0, c1, r0, r1, r2]
         else [])"

definition row_addr :: "cfg \<Rightarrow> u32 \<Rightarrow> u32 \<Rightarrow> u32" where
  "row_addr C block page = block * of_nat (PAGE_CNT_OF_PHY_BLK C) + page"

text \<open>The array of five that receives the cycles is an uninitialised local of the caller.\<close>

definition cal_addr_in_chip :: "cfg \<Rightarrow> u32 \<Rightarrow> u32 \<Rightarrow> u32 \<Rightarrow> nat \<Rightarrow> u8 list" where
  "cal_addr_in_chip C block page sector cycle =
     (let bs = addr_bytes (512 * sector) (row_addr C block page) cycle
      in bs @ drop (length bs) (map (junk8 C) [0..<5]))"

definition cal_addr_in_chip_for_spare :: "cfg \<Rightarrow> u32 \<Rightarrow> u32 \<Rightarrow> u32 \<Rightarrow> nat \<Rightarrow> u8 list" where
  "cal_addr_in_chip_for_spare C block page sector cycle =
     (let bs = addr_bytes (1024 * drop_bit 1 sector) (row_addr C block page) cycle
      in bs @ drop (length bs) (map (junk8 C) [0..<5]))"

section \<open>Randomizer seeds\<close>

definition random_seed :: "u16 list" where
  "random_seed =
    [0x2b75, 0x0bd0, 0x5ca3, 0x62d1, 0x1c93, 0x07e9, 0x2162, 0x3a72, 0x0d67, 0x67f9,
     0x1be7, 0x077d, 0x032f, 0x0dac, 0x2716, 0x2436, 0x7922, 0x1510, 0x3860, 0x5287,
     0x480f, 0x4252, 0x1789, 0x5a2d, 0x2a49, 0x5e10, 0x437f, 0x4b4e, 0x2f45, 0x216e,
     0x5cb7, 0x7130, 0x2a3f, 0x60e4, 0x4dc9, 0x0ef0, 0x0f52, 0x1bb9, 0x6211, 0x7a56,
     0x226d, 0x4ea7, 0x6f36, 0x3692, 0x38bf, 0x0c62, 0x05eb, 0x4c55, 0x60f4, 0x728c,
     0x3b6f, 0x2037, 0x7f69, 0x0936, 0x651a, 0x4ceb, 0x6218, 0x79f3, 0x383f, 0x18d9,
     0x4f05, 0x5c82, 0x2912, 0x6f17, 0x6856, 0x5938, 0x1007, 0x61ab, 0x3e7f, 0x57c2,
     0x542f, 0x4f62, 0x7454, 0x2eac, 0x7739, 0x42d4, 0x2f90, 0x435a, 0x2e52, 0x2064,
     0x637c, 0x66ad, 0x2c90, 0x0bad, 0x759c, 0x0029, 0x0986, 0x7126, 0x1ca7, 0x1605,
     0x386a, 0x27f5, 0x1380, 0x6d75, 0x24c3, 0x0f8e, 0x2b7a, 0x1418, 0x1fd1, 0x7dc1,
     0x2d8e, 0x43af, 0x2267, 0x7da3, 0x4e3d, 0x1338, 0x50db, 0x454d, 0x764d, 0x40a3,
     0x42e6, 0x262b, 0x2d2e, 0x1aea, 0x2e17, 0x173d, 0x3a6e, 0x71bf, 0x25f9, 0x0a5d,
     0x7c57, 0x0fbe, 0x46ce, 0x4939, 0x6b17, 0x37bb, 0x3e91, 0x76db]"

definition cal_random_seed :: "u32 \<Rightarrow> u32" where
  "cal_random_seed page = ucast (random_seed ! unat (page mod 128))"

section \<open>Status and ready waits\<close>

definition read_status :: "cfg \<Rightarrow> 'h nfc_hw \<Rightarrow> u32 \<Rightarrow> u32 \<Rightarrow> 'h nst \<Rightarrow> (int \<times> 'h nst) option" where
  "read_status C H cmd_value nBank s =
     (let addr_cycle = (if cmd_value = 0x70 \<or> cmd_value = 0x71 then 0
                        else if cmd_value = 0x78 then 3 else 1 :: nat);
          addr = (if addr_cycle = 0 then map (junk8 C) [0..<5]
                  else cal_addr_in_chip C (nBank * of_nat (BLOCK_CNT_OF_DIE C)) 0 0 addr_cycle)
      in NFC_GetStatus H [add_cmd_list cmd_value (of_nat addr_cycle) addr 1 0 1 0] s)"

definition rb_busy :: "'h nfc_hw \<Rightarrow> u32 \<Rightarrow> 'h nst \<Rightarrow> bool \<times> 'h nst" where
  "rb_busy H rb s = (let (r, s) = NFC_CheckRbReady H rb s in (r \<noteq> 0, s))"

definition wait_rb_ready :: "cfg \<Rightarrow> 'h nfc_hw \<Rightarrow> u32 \<Rightarrow> 'h nst \<Rightarrow> int \<times> 'h nst" where
  "wait_rb_ready C H chip s =
     (let (t, s) = poll (rb_busy H (ucast (cal_real_rb C chip))) 0xffff s
      in if t < 0 then (- ERR_TIMEOUT, s) else (0, s))"

section \<open>Parameters of one physical operation\<close>

text \<open>\<open>struct boot_physical_param\<close> without its two pointers, which the operations take as buffers.\<close>

record boot_physical_param =
  bp_chip :: u8
  bp_block :: u16
  bp_page :: u16
  bp_sectorbitmap :: u16

abbreviation bp_chip32 :: "boot_physical_param \<Rightarrow> u32" where
  "bp_chip32 op \<equiv> ucast (bp_chip op)"

abbreviation bp_block32 :: "boot_physical_param \<Rightarrow> u32" where
  "bp_block32 op \<equiv> ucast (bp_block op)"

abbreviation bp_page32 :: "boot_physical_param \<Rightarrow> u32" where
  "bp_page32 op \<equiv> ucast (bp_page op)"

definition select_chip_rb :: "cfg \<Rightarrow> 'h nfc_hw \<Rightarrow> u32 \<Rightarrow> 'h nst \<Rightarrow> 'h nst" where
  "select_chip_rb C H chip s =
     NFC_SelectRb H (ucast (cal_real_rb C chip)) (NFC_SelectChip H chip s)"

definition deselect_chip_rb :: "cfg \<Rightarrow> u32 \<Rightarrow> 'h nst \<Rightarrow> 'h nst" where
  "deselect_chip_rb C chip s =
     NFC_DeSelectRb (ucast (cal_real_rb C chip)) (NFC_DeSelectChip chip s)"

end
