(* ===== verification/Phy_Read.thy ===== *)
theory Phy_Read
  imports Phy_Addr
begin

text \<open>
  Set-up and reads of the physic layer: \<open>PHY_Init\<close>, \<open>PHY_ChangeMode\<close>, \<open>PHY_Exit\<close>,
  \<open>PHY_ResetChip\<close>, the identification calls, \<open>PHY_SynchBank\<close>, the single page reads with their
  retry loop (\<open>physic/nand_simple_r.c\<close>), sector reads and the super page reads \<open>PHY_PageRead\<close> and
  \<open>PHY_PageReadSpare\<close> (\<open>nand_phy.c\<close>).

  A buffer is passed from the pointer on and returned with what the call left in it. \<open>SUPPORT_DMA_IRQ\<close>
  and \<open>SUPPORT_RB_IRQ\<close> are \<open>0\<close> in \<open>nand_drv_cfg.h\<close>.
\<close>

section \<open>Set-up\<close>

definition PHY_Init :: "'h nfc_hw \<Rightarrow> 'h nst \<Rightarrow> (int \<times> 'h nst) option" where
  "PHY_Init H s = do {
     let s = s\<lparr>ns_RetryCount := replicate 8 0\<rparr>;
     (ret, s) \<leftarrow> NFC_Init H \<lparr>ni_bus_width = 0, ni_rb_sel = 1, ni_ce_ctl = 0, ni_ce_ctl1 = 0,
        ni_pagesize = 4, ni_serial_access_mode = 1, ni_ddr_type = 0, ni_debug = 0\<rparr> s;
     Some (ret, NFC_RandomDisable H s)
   }"

abbreviation junk_param :: "cfg \<Rightarrow> u8 list" where
  "junk_param C \<equiv> map (junk8 C) [0..<16]"

definition PHY_GetDefaultParam :: "cfg \<Rightarrow> 'h nfc_hw \<Rightarrow> u32 \<Rightarrow> 'h nst \<Rightarrow> (int \<times> 'h nst) option" where
  "PHY_GetDefaultParam C H bank s =
     (if SUPPORT_READ_RETRY C \<and> READ_RETRY_MODE C < 0x10 then do {
        let chip = ucast (cal_real_chip C bank);
        let s = NFC_SelectChip H chip s;
        (r, v, s) \<leftarrow> NFC_GetDefaultParam H chip (junk_param C) s;
        (r, v, s) \<leftarrow> NFC_SetDefaultParam H chip v s;
        Some (0, s)
      } else Some (0, s))"

definition PHY_SetDefaultParam :: "cfg \<Rightarrow> 'h nfc_hw \<Rightarrow> u32 \<Rightarrow> 'h nst \<Rightarrow> (int \<times> 'h nst) option" where
  "PHY_SetDefaultParam C H bank s =
     (if SUPPORT_READ_RETRY C \<and> READ_RETRY_MODE C < 0x10 then do {
        let chip = ucast (cal_real_chip C bank);
        let s = NFC_SelectChip H chip s;
        (r, v, s) \<leftarrow> NFC_SetDefaultParam H chip (junk_param C) s;
        (r, v, s) \<leftarrow> NFC_GetDefaultParam H chip (junk_param C) s;
        Some (0, s)
      } else Some (0, s))"

text \<open>A page cache that is not there yet is allocated. A request that fails leaves the caches before it
  allocated.\<close>

definition alloc_once :: "'h nfc_hw \<Rightarrow> nat \<Rightarrow> u8 list option \<Rightarrow> 'h nst \<Rightarrow> u8 list option \<times> 'h nst" where
  "alloc_once H n p s =
     (case p of
        Some b \<Rightarrow> (Some b, s)
      | None \<Rightarrow> let (b, h) = hw_malloc H n (ns_hw s) in (b, s\<lparr>ns_hw := h\<rparr>))"

definition alloc_caches :: "cfg \<Rightarrow> 'h nfc_hw \<Rightarrow> 'h nst \<Rightarrow> bool \<times> 'h nst" where
  "alloc_caches C H s =
     (let n = SECTOR_CNT_OF_SUPER_PAGE C;
          (p, s) = alloc_once H (n * 512) (ns_PageCache0 s) s;
          s = s\<lparr>ns_PageCache0 := p\<rparr>
      in if p = None then (False, s)
         else let (p, s) = alloc_once H (n * 4) (ns_SpareCache s) s;
                  s = s\<lparr>ns_SpareCache := p\<rparr>
              in if p = None then (False, s)
                 else let (p, s) = alloc_once H (n * 512) (ns_TmpPageCache s) s;
                          s = s\<lparr>ns_TmpPageCache := p\<rparr>
                      in (p \<noteq> None, s))"

definition PHY_ChangeMode :: "cfg \<Rightarrow> 'h nfc_hw \<Rightarrow> u8 \<Rightarrow> 'h nst \<Rightarrow> (int \<times> 'h nst) option" where
  "PHY_ChangeMode C H serial_mode s = do {
     (r, s) \<leftarrow> NAND_SetClock H (ucast (FrequencePar (storage C))) s;
     if r = - 1 then Some (- 1, s)
     else do {
       let (ok, s) = alloc_caches C H s;
       if \<not> ok then Some (- 1, s)
       else do {
         let s = NFC_SetEccMode H (EccMode (storage C)) s;
         Some (NFC_ChangMode H \<lparr>ni_bus_width = 0, ni_rb_sel = junk8 C 0, ni_ce_ctl = 0, ni_ce_ctl1 = 0,
          ni_pagesize = SectorCntPerPage (storage C), ni_serial_access_mode = serial_mode,
          ni_ddr_type = ucast (DDRType (storage C)), ni_debug = 0\<rparr> s)
       }
     }
   }"

fun default_params :: "cfg \<Rightarrow> 'h nfc_hw \<Rightarrow> nat \<Rightarrow> nat \<Rightarrow> 'h nst \<Rightarrow> 'h nst option" where
  "default_params C H 0 i s = Some s"
| "default_params C H (Suc n) i s = do {
     (r, s) \<leftarrow> PHY_SetDefaultParam C H (of_nat i) s;
     default_params C H n (Suc i) s
   }"

definition PHY_Exit :: "cfg \<Rightarrow> 'h nfc_hw \<Rightarrow> 'h nst \<Rightarrow> (int \<times> 'h nst) option" where
  "PHY_Exit C H s = do {
     let s = s\<lparr>ns_PageCache0 := None, ns_SpareCache := None, ns_TmpPageCache := None\<rparr>;
     s \<leftarrow> (if SUPPORT_READ_RETRY C
           then do {
             s \<leftarrow> default_params C H (unat (ChipCnt (storage C))) 0 s;
             Some (snd (NFC_ReadRetryExit (ReadRetryType (storage C)) s))
           } else Some s);
     Some (0, NFC_Exit H (NFC_RandomDisable H s))
   }"

definition PHY_ResetChip :: "'h nfc_hw \<Rightarrow> u32 \<Rightarrow> 'h nst \<Rightarrow> (int \<times> 'h nst) option" where
  "PHY_ResetChip H nChip s = do {
     (ret, s) \<leftarrow> NFC_ResetChip H [add_cmd_list 0xff 0 [] 0 0 0 0] (NFC_SelectChip H nChip s);
     let (t, s) = poll (rb_busy H 0) 0xffff (NFC_SelectRb H 0 s);
     if t < 0 then Some (- ERR_TIMEOUT, s)
     else do {
       let (t, s) = poll (rb_busy H 1) (nat t) (NFC_SelectRb H 1 s);
       if t < 0 then Some (- ERR_TIMEOUT, s)
       else Some (ret, NFC_DeSelectChip nChip s)
     }
   }"

definition PHY_ReadNandId ::
  "'h nfc_hw \<Rightarrow> u32 \<Rightarrow> u8 list \<Rightarrow> 'h nst \<Rightarrow> (int \<times> u8 list \<times> 'h nst) option" where
  "PHY_ReadNandId H nChip pChipID s = do {
     (ret, bs, s) \<leftarrow> NFC_GetId H [add_cmd_list 0x90 1 [0] 1 0 6 0] (NFC_SelectChip H nChip s);
     pChipID \<leftarrow> mem_put pChipID 0 bs;
     Some (ret, pChipID, NFC_DeSelectChip nChip s)
   }"

text \<open>The unique id is read up to sixteen times, until its second half is the complement of the first.\<close>

definition uid_ok :: "u8 list \<Rightarrow> bool" where
  "uid_ok b = list_all (\<lambda>j. (b ! j) XOR (b ! (j + 16)) = 0xff) [0..<16]"

fun uid_loop ::
  "'h nfc_hw \<Rightarrow> nat \<Rightarrow> nat \<Rightarrow> u8 list \<Rightarrow> int \<Rightarrow> 'h nst \<Rightarrow> (int \<times> u8 list \<times> 'h nst) option" where
  "uid_loop H 0 i b ret s = Some (ret, b, s)"
| "uid_loop H (Suc n) i b ret s = do {
     (ret, bs, s) \<leftarrow> NFC_GetUniqueId H [add_cmd_list 0xed 1 [of_nat (i * 32)] 1 0 32 1] s;
     b \<leftarrow> mem_put b 0 bs;
     if uid_ok b then Some (0, b, s) else uid_loop H n (Suc i) b (- 1) s
   }"

definition PHY_ReadNandUniqueId ::
  "cfg \<Rightarrow> 'h nfc_hw \<Rightarrow> u32 \<Rightarrow> u8 list \<Rightarrow> 'h nst \<Rightarrow> (int \<times> u8 list \<times> 'h nst) option" where
  "PHY_ReadNandUniqueId C H bank pChipID s = do {
     let nChip = ucast (cal_real_chip C bank);
     let s = select_chip_rb C H nChip s;
     if length pChipID < 32 then None
     else do {
       (ret, b, s) \<leftarrow> uid_loop H 16 0 pChipID 0 s;
       b \<leftarrow> (if ret \<noteq> 0 then mem_put b 0 (replicate 32 0x55) else Some b);
       Some (ret, b, NFC_DeSelectChip nChip s)
     }
   }"

definition PHY_CheckWp :: "cfg \<Rightarrow> 'h nfc_hw \<Rightarrow> u32 \<Rightarrow> 'h nst \<Rightarrow> (int \<times> 'h nst) option" where
  "PHY_CheckWp C H nChip s = do {
     (status, s) \<leftarrow> read_status C H 0x70 nChip (select_chip_rb C H nChip s);
     let s = deselect_chip_rb C nChip s;
     Some (if status < 0 then status else if status AND 0x80 \<noteq> 0 then 1 else 0, s)
   }"

section \<open>Waiting for a bank\<close>

text \<open>The loop of \<open>PHY_SynchBank\<close>. The count is tested as \<open>timeout-- < 0\<close> after a read that found the
  chip busy, so the status is read at most \<open>0xffff + 2\<close> times. The left result is an early return.\<close>

fun synch_loop ::
  "cfg \<Rightarrow> 'h nfc_hw \<Rightarrow> u32 \<Rightarrow> u32 \<Rightarrow> nat \<Rightarrow> 'h nst \<Rightarrow> ((int + int) \<times> 'h nst) option" where
  "synch_loop C H cmd_value bank 0 s = do {
     (status, s) \<leftarrow> read_status C H cmd_value bank s;
     if status < 0 then Some (Inl status, s)
     else if status AND 0x40 \<noteq> 0 then Some (Inr status, s)
     else Some (Inl (- ERR_TIMEOUT), s)
   }"
| "synch_loop C H cmd_value bank (Suc t) s = do {
     (status, s) \<leftarrow> read_status C H cmd_value bank s;
     if status < 0 then Some (Inl status, s)
     else if status AND 0x40 \<noteq> 0 then Some (Inr status, s)
     else synch_loop C H cmd_value bank t s
   }"

definition synch_cmd :: "cfg \<Rightarrow> u32 \<Rightarrow> u32 \<Rightarrow> u32" where
  "synch_cmd C nBank bMode =
     (let p = OptPhyOpPar (storage C) in
      if bMode = 1 \<and> SUPPORT_INT_INTERLEAVE C
      then (if nBank mod BNK_CNT_OF_CHIP C = 0 then ucast (InterBnk0StatusCmd p)
            else ucast (InterBnk1StatusCmd p))
      else if SUPPORT_MULTI_PROGRAM C then ucast (MultiPlaneStatusCmd p) else 0x70)"

definition phys_SynchBank :: "cfg \<Rightarrow> 'h nfc_hw \<Rightarrow> u32 \<Rightarrow> u32 \<Rightarrow> 'h nst \<Rightarrow> (int \<times> 'h nst) option" where
  "phys_SynchBank C H nBank bMode s =
     (let chip = ucast (cal_real_chip C nBank) in
      if chip = 0xff then Some (- ERR_INVALIDPHYADDR, s)
      else if BNK_CNT_OF_CHIP C = 0 then None
      else do {
        (r, s) \<leftarrow> synch_loop C H (synch_cmd C nBank bMode) (nBank mod BNK_CNT_OF_CHIP C) 0x10000
                   (select_chip_rb C H chip s);
        case r of Inl e \<Rightarrow> Some (e, s)
        | Inr status \<Rightarrow>
            Some (if status AND 0x1 \<noteq> 0 then NAND_OP_FALSE else 0, deselect_chip_rb C chip s)
      })"

section \<open>Single page reads\<close>

definition read_cmd_list :: "cfg \<Rightarrow> boot_physical_param \<Rightarrow> nfc_cmd list" where
  "read_cmd_list C op =
     (if SECTOR_CNT_OF_SINGLE_PAGE C = 1
      then add_cmd_list 0x00 4 (cal_addr_in_chip C (bp_block32 op) (bp_page32 op) 0 4) 1 0 0 1
      else add_cmd_list 0x00 5 (cal_addr_in_chip C (bp_block32 op) (bp_page32 op) 0 5) 0 0 0 0)
     # [plain_cmd 0x05, plain_cmd 0xe0, plain_cmd 0x30]"

text \<open>One call of a controller read on a main buffer and the local \<open>sparebuf\<close> of sixty-four bytes.\<close>

type_synonym 'h reader = "u8 list \<Rightarrow> u8 list \<Rightarrow> 'h nst \<Rightarrow> (int \<times> u8 list \<times> u8 list \<times> 'h nst) option"

definition into_bufs :: "('h nst \<Rightarrow> 'h read_result) \<Rightarrow> 'h reader" where
  "into_bufs rd main spare s = do {
     (ret, m, sp, s) \<leftarrow> rd s;
     main \<leftarrow> mem_put main 0 m;
     spare \<leftarrow> mem_put spare 0 sp;
     Some (ret, main, spare, s)
   }"

definition random_on :: "'h nfc_hw \<Rightarrow> u32 \<Rightarrow> 'h nst \<Rightarrow> 'h nst" where
  "random_on H seed s = NFC_RandomEnable H (NFC_SetRandomSeed H seed s)"

text \<open>The first eight spare bytes read as erased: a page with too many errors is taken for a clear one.\<close>

definition clear_page :: "u8 list \<Rightarrow> bool" where
  "clear_page spare = list_all (\<lambda>i. spare ! i = 0xff) [0..<8]"

text \<open>One attempt: with the randomizer, and once more without it after too many errors. \<open>chk\<close> is the
  clear page rule, which the code applies in the retry loop only.\<close>

definition read_attempt :: "cfg \<Rightarrow> 'h nfc_hw \<Rightarrow> bool \<Rightarrow> boot_physical_param \<Rightarrow> u8 \<Rightarrow> 'h reader" where
  "read_attempt C H chk op dma main spare s =
     (let rd = into_bufs (NFC_Read H (read_cmd_list C op) dma 1) in
      if SUPPORT_RANDOM C then do {
        let s = random_on H (cal_random_seed (bp_page32 op)) s;
        (ret, main, spare, s) \<leftarrow> rd main spare s;
        let s = NFC_RandomDisable H s;
        (ret, main, spare, s) \<leftarrow>
          (if ret = - ERR_ECC then rd main spare s else Some (ret, main, spare, s));
        Some (if chk \<and> ret = - ERR_ECC \<and> clear_page spare then 0 else ret, main, spare, s)
      } else rd main spare s)"

text \<open>The free page patterns of \<open>_read_single_page_spare\<close>. Its index \<open>i\<close> still has the value the loop
  that links the command list left in it, three.\<close>

definition free_page_flag :: "boot_physical_param \<Rightarrow> u8 list \<Rightarrow> bool" where
  "free_page_flag op spare =
     (let w = take 4 (drop (4 * 3) spare) in
      if bp_page op = 0 then w = [0x0a, 0x53, 0xb8, 0xc2]
      else if bp_page op mod 128 = 127 then w = [0x32, 0x43, 0xaa, 0x4e] else False)"

definition spare_attempt :: "cfg \<Rightarrow> 'h nfc_hw \<Rightarrow> bool \<Rightarrow> boot_physical_param \<Rightarrow> u8 \<Rightarrow> 'h reader" where
  "spare_attempt C H chk op dma main spare s =
     (let rd = into_bufs (NFC_Read_Spare H (read_cmd_list C op) dma 1) in
      if SUPPORT_RANDOM C then do {
        let s = random_on H (cal_random_seed (bp_page32 op)) s;
        (ret, main, spare, s) \<leftarrow> rd main spare s;
        (ret, spare) \<leftarrow>
          (if free_page_flag op spare
           then do { spare \<leftarrow> mem_put spare (4 * 3) (replicate 4 0xff); Some (0, spare) }
           else Some (ret, spare));
        let s = NFC_RandomDisable H s;
        (ret, main, spare, s) \<leftarrow>
          (if ret = - ERR_ECC then rd main spare s else Some (ret, main, spare, s));
        Some (if chk \<and> ret = - ERR_ECC \<and> clear_page spare then 0 else ret, main, spare, s)
      } else rd main spare s)"

text \<open>What the loop does before it ends: leave the chip's retry mode.\<close>

definition leave_retry :: "cfg \<Rightarrow> 'h nfc_hw \<Rightarrow> u32 \<Rightarrow> 'h nst \<Rightarrow> 'h nst option" where
  "leave_retry C H chip s =
     (if 0x10 \<le> READ_RETRY_MODE C \<and> READ_RETRY_MODE C < 0x20
      then do { (r, s) \<leftarrow> PHY_ResetChip H chip s; Some s }
      else if 0x20 \<le> READ_RETRY_MODE C \<and> READ_RETRY_MODE C < 0x30
      then do { (r, v, s) \<leftarrow> NFC_SetDefaultParam H chip (junk_param C) s; Some s }
      else Some s)"

text \<open>The retry loop at \<open>k\<close> with \<open>n\<close> rounds after this one. The first component tells that
  \<open>NFC_ReadRetry\<close> failed and the caller returns \<open>-1\<close> at once.\<close>

fun retry_loop ::
  "cfg \<Rightarrow> 'h nfc_hw \<Rightarrow> u8 \<Rightarrow> 'h reader \<Rightarrow> nat \<Rightarrow> nat \<Rightarrow> u8 list \<Rightarrow> u8 list \<Rightarrow> 'h nst
   \<Rightarrow> (bool \<times> int \<times> u8 list \<times> u8 list \<times> 'h nst) option" where
  "retry_loop C H chip att n k main spare s = do {
     rc \<leftarrow> arr_get (ns_RetryCount s) (unat chip);
     let rc = (if rc = READ_RETRY_CYCLE C + 1 then 0 else rc);
     let s = s\<lparr>ns_RetryCount := (ns_RetryCount s)[unat chip := rc]\<rparr>;
     (e, s) \<leftarrow> (if k > 0 then NFC_ReadRetry C H (ucast chip) rc s else Some (0, s));
     if e \<noteq> 0 then Some (True, - 1, main, spare, s)
     else do {
       (ret, main, spare, s) \<leftarrow> att main spare s;
       case n of
         0 \<Rightarrow> do { s \<leftarrow> leave_retry C H (ucast chip) s; Some (False, ret, main, spare, s) }
       | Suc n' \<Rightarrow>
           if ret \<noteq> - ERR_ECC
           then do { s \<leftarrow> leave_retry C H (ucast chip) s; Some (False, ret, main, spare, s) }
           else retry_loop C H chip att n' (Suc k) main spare
                  (s\<lparr>ns_RetryCount := (ns_RetryCount s)[unat chip := rc + 1]\<rparr>)
     }
   }"

text \<open>The two branches on \<open>SUPPORT_READ_RETRY\<close>.\<close>

definition read_with_retry ::
  "cfg \<Rightarrow> 'h nfc_hw \<Rightarrow> u8 \<Rightarrow> (bool \<Rightarrow> 'h reader) \<Rightarrow> u8 list \<Rightarrow> u8 list \<Rightarrow> 'h nst
   \<Rightarrow> (bool \<times> int \<times> u8 list \<times> u8 list \<times> 'h nst) option" where
  "read_with_retry C H chip att main spare s =
     (if SUPPORT_READ_RETRY C then do {
        s \<leftarrow> (if 0x10 \<le> READ_RETRY_MODE C \<and> READ_RETRY_MODE C < 0x30
              then do {
                rcs \<leftarrow> arr_set (ns_RetryCount s) (unat chip) 0;
                Some (s\<lparr>ns_RetryCount := rcs\<rparr>)
              } else Some s);
        (abort, ret, main, spare, s) \<leftarrow>
          retry_loop C H chip (att True) (unat (READ_RETRY_CYCLE C)) 0 main spare s;
        Some (abort, if \<not> abort \<and> ret = ECC_LIMIT then 0 else ret, main, spare, s)
      } else do {
        (ret, main, spare, s) \<leftarrow> att False main spare s;
        Some (False, ret, main, spare, s)
      })"

text \<open>\<open>if (oobbuf) MEMCPY(oobbuf, sparebuf, 2 * 4)\<close>.\<close>

definition copy_oob :: "u8 list option \<Rightarrow> u8 list \<Rightarrow> u8 list option option" where
  "copy_oob oob spare = (case oob of None \<Rightarrow> Some None
     | Some b \<Rightarrow> map_option Some (mem_put b 0 (take 8 spare)))"

type_synonym 'h page_op_result = "(int \<times> u8 list \<times> u8 list option \<times> 'h nst) option"

abbreviation junk_spare64 :: "cfg \<Rightarrow> u8 list" where
  "junk_spare64 C \<equiv> map (junk8 C) [0..<64]"

definition read_single_page ::
  "cfg \<Rightarrow> 'h nfc_hw \<Rightarrow> boot_physical_param \<Rightarrow> u8 \<Rightarrow> u8 list \<Rightarrow> u8 list option \<Rightarrow> 'h nst \<Rightarrow> 'h page_op_result"
where
  "read_single_page C H op dma main oob s =
     (let (ret, s) = wait_rb_ready C H (bp_chip32 op) s in
      if ret \<noteq> 0 then Some (ret, main, oob, s)
      else do {
        let s = select_chip_rb C H (bp_chip32 op) s;
        (abort, ret, main, spare, s) \<leftarrow>
          read_with_retry C H (bp_chip op) (\<lambda>chk. read_attempt C H chk op dma) main (junk_spare64 C) s;
        if abort then Some (- 1, main, oob, s)
        else do {
          oob \<leftarrow> copy_oob oob spare;
          Some (ret, main, oob, deselect_chip_rb C (bp_chip32 op) s)
        }
      })"

definition read_single_page_spare ::
  "cfg \<Rightarrow> 'h nfc_hw \<Rightarrow> boot_physical_param \<Rightarrow> u8 \<Rightarrow> u8 list \<Rightarrow> u8 list option \<Rightarrow> 'h nst \<Rightarrow> 'h page_op_result"
where
  "read_single_page_spare C H op dma main oob s =
     (let (ret, s) = wait_rb_ready C H (bp_chip32 op) s in
      if ret \<noteq> 0 then Some (ret, main, oob, s)
      else do {
        let s = select_chip_rb C H (bp_chip32 op) s;
        (abort, ret, main, spare, s) \<leftarrow>
          read_with_retry C H (bp_chip op) (\<lambda>chk. spare_attempt C H chk op dma) main (junk_spare64 C) s;
        if abort then Some (- 1, main, oob, s)
        else do {
          oob \<leftarrow> copy_oob oob spare;
          Some (ret, main, oob, deselect_chip_rb C (bp_chip32 op) s)
        }
      })"

text \<open>The reads of the boot area use a fixed seed and no retry.\<close>

definition fixed_seed_read ::
  "cfg \<Rightarrow> 'h nfc_hw \<Rightarrow> ('h nst \<Rightarrow> 'h read_result) \<Rightarrow> boot_physical_param \<Rightarrow> u8 list \<Rightarrow> u8 list option
   \<Rightarrow> 'h nst \<Rightarrow> 'h page_op_result" where
  "fixed_seed_read C H nfc_rd op main oob s =
     (let (ret, s) = wait_rb_ready C H (bp_chip32 op) s in
      if ret \<noteq> 0 then Some (ret, main, oob, s)
      else do {
        let s = random_on H 0x4a80 (select_chip_rb C H (bp_chip32 op) s);
        (ret, main, spare, s) \<leftarrow> into_bufs nfc_rd main (junk_spare64 C) s;
        let s = NFC_RandomDisable H s;
        (ret, main, spare, s) \<leftarrow>
          (if ret \<noteq> 0 then into_bufs nfc_rd main spare s else Some (ret, main, spare, s));
        oob \<leftarrow> copy_oob oob spare;
        Some (ret, main, oob, deselect_chip_rb C (bp_chip32 op) s)
      })"

definition read_single_page_seq ::
  "cfg \<Rightarrow> 'h nfc_hw \<Rightarrow> boot_physical_param \<Rightarrow> u8 \<Rightarrow> u8 list \<Rightarrow> u8 list option \<Rightarrow> 'h nst \<Rightarrow> 'h page_op_result"
where
  "read_single_page_seq C H op dma = fixed_seed_read C H (NFC_Read_Seq H (read_cmd_list C op) dma 1) op"

definition read_single_page_1K ::
  "cfg \<Rightarrow> 'h nfc_hw \<Rightarrow> boot_physical_param \<Rightarrow> u8 \<Rightarrow> u8 list \<Rightarrow> u8 list option \<Rightarrow> 'h nst \<Rightarrow> 'h page_op_result"
where
  "read_single_page_1K C H op dma = fixed_seed_read C H (NFC_Read_1K H (read_cmd_list C op) dma 1) op"

definition PHY_SimpleRead ::
  "cfg \<Rightarrow> 'h nfc_hw \<Rightarrow> boot_physical_param \<Rightarrow> u8 list \<Rightarrow> u8 list option \<Rightarrow> 'h nst \<Rightarrow> 'h page_op_result" where
  "PHY_SimpleRead C H op = read_single_page C H op 0"

definition PHY_SimpleRead_Seq ::
  "cfg \<Rightarrow> 'h nfc_hw \<Rightarrow> boot_physical_param \<Rightarrow> u8 list \<Rightarrow> u8 list option \<Rightarrow> 'h nst \<Rightarrow> 'h page_op_result" where
  "PHY_SimpleRead_Seq C H op = read_single_page_seq C H op 0"

definition PHY_SimpleRead_1K ::
  "cfg \<Rightarrow> 'h nfc_hw \<Rightarrow> boot_physical_param \<Rightarrow> u8 list \<Rightarrow> u8 list option \<Rightarrow> 'h nst \<Rightarrow> 'h page_op_result" where
  "PHY_SimpleRead_1K C H op = read_single_page_1K C H op 0"

section \<open>Sector reads\<close>

fun copy_page_sectors :: "u16 \<Rightarrow> u8 list \<Rightarrow> nat \<Rightarrow> nat \<Rightarrow> u8 list \<Rightarrow> u8 list option" where
  "copy_page_sectors bm data 0 i main = Some main"
| "copy_page_sectors bm data (Suc n) i main = do {
     main \<leftarrow> (if bit bm i then do { d \<leftarrow> mem_get data (i * 512) 512; mem_put main (i * 512) d }
              else Some main);
     copy_page_sectors bm data n (Suc i) main
   }"

text \<open>The page goes to \<open>TmpPageCache\<close>, the wanted sectors from there to the main buffer.\<close>

definition read_sectors ::
  "cfg \<Rightarrow> 'h nfc_hw \<Rightarrow> boot_physical_param \<Rightarrow> u8 \<Rightarrow> u8 list \<Rightarrow> u8 list option \<Rightarrow> 'h nst \<Rightarrow> 'h page_op_result"
where
  "read_sectors C H op dma main oob s =
     (let (ret, s) = wait_rb_ready C H (bp_chip32 op) s in
      if ret \<noteq> 0 then Some (ret, main, oob, s)
      else do {
        let s = select_chip_rb C H (bp_chip32 op) s;
        tmp \<leftarrow> ns_TmpPageCache s;
        (abort, ret, tmp, spare, s) \<leftarrow>
          read_with_retry C H (bp_chip op) (\<lambda>chk. read_attempt C H chk op dma) tmp (junk_spare64 C) s;
        let s = s\<lparr>ns_TmpPageCache := Some tmp\<rparr>;
        if abort then Some (- 1, main, oob, s)
        else do {
          oob \<leftarrow> copy_oob oob spare;
          main \<leftarrow> copy_page_sectors (bp_sectorbitmap op) tmp (SECTOR_CNT_OF_SINGLE_PAGE C) 0 main;
          Some (ret, main, oob, deselect_chip_rb C (bp_chip32 op) s)
        }
      })"

section \<open>Super page reads\<close>

text \<open>A page operation on the part of the super page buffers that belongs to plane \<open>i\<close>.\<close>

definition on_plane ::
  "cfg \<Rightarrow> nat \<Rightarrow> (u8 list \<Rightarrow> u8 list option \<Rightarrow> 'h nst \<Rightarrow> 'h page_op_result)
   \<Rightarrow> u8 list \<Rightarrow> u8 list option \<Rightarrow> 'h nst \<Rightarrow> 'h page_op_result" where
  "on_plane C i f main oob s = do {
     let mo = 512 * SECTOR_CNT_OF_SINGLE_PAGE C * i;
     let so = 4 * SECTOR_CNT_OF_SINGLE_PAGE C * i;
     (ret, m, b, s) \<leftarrow> f (drop mo main) (map_option (drop so) oob) s;
     Some (ret, take mo main @ m,
           (case (oob, b) of (Some o1, Some b1) \<Rightarrow> Some (take so o1 @ b1) | _ \<Rightarrow> oob), s)
   }"

definition plane_op :: "cfg \<Rightarrow> phys_op \<Rightarrow> u8 \<Rightarrow> u32 \<Rightarrow> nat \<Rightarrow> u32 \<Rightarrow> boot_physical_param" where
  "plane_op C op chip block_in_chip i bitmap =
     \<lparr>bp_chip = chip, bp_block = ucast (block_in_chip + of_nat i * MULTI_PLANE_BLOCK_OFFSET C),
      bp_page = ucast (op_PageNum op), bp_sectorbitmap = ucast bitmap\<rparr>"

text \<open>The sectors of plane \<open>i\<close>; a shift of a word by its width or more is undefined.\<close>

definition plane_bitmap :: "cfg \<Rightarrow> phys_op \<Rightarrow> nat \<Rightarrow> u32 option" where
  "plane_bitmap C op i =
     (if 32 \<le> i * SECTOR_CNT_OF_SINGLE_PAGE C \<or> 32 \<le> SECTOR_CNT_OF_SINGLE_PAGE C then None
      else Some (FULL_BITMAP_OF_SINGLE_PAGE C
                 AND drop_bit (i * SECTOR_CNT_OF_SINGLE_PAGE C) (op_SectBitmap op)))"

text \<open>The loop over the planes; \<open>part\<close> is the read of a plane of which not every sector is wanted.\<close>

fun read_planes ::
  "cfg \<Rightarrow> 'h nfc_hw
   \<Rightarrow> (boot_physical_param \<Rightarrow> u8 list \<Rightarrow> u8 list option \<Rightarrow> 'h nst \<Rightarrow> 'h page_op_result)
   \<Rightarrow> phys_op \<Rightarrow> u8 \<Rightarrow> u32 \<Rightarrow> nat \<Rightarrow> nat \<Rightarrow> int \<Rightarrow> u8 list \<Rightarrow> u8 list option \<Rightarrow> 'h nst \<Rightarrow> 'h page_op_result"
where
  "read_planes C H part op chip blk 0 i ret main oob s = Some (ret, main, oob, s)"
| "read_planes C H part op chip blk (Suc n) i ret main oob s = do {
     bm \<leftarrow> plane_bitmap C op i;
     let rop = plane_op C op chip blk i bm;
     (r, main, oob, s) \<leftarrow>
       (if bm = 0 then Some (0, main, oob, s)
        else if bm = FULL_BITMAP_OF_SINGLE_PAGE C
        then on_plane C i (read_single_page C H rop 0) main oob s
        else on_plane C i (part rop) main oob s);
     read_planes C H part op chip blk n (Suc i) (ret OR r) main oob s
   }"

text \<open>The multi-plane read. Its first \<open>NFC_Read\<close> passes a list of \<open>plane_cnt + 1\<close> commands and null
  buffers; without spare buffer \<open>readop.oobbuf\<close> is not set.\<close>

fun two_plane_loop ::
  "cfg \<Rightarrow> 'h nfc_hw \<Rightarrow> phys_op \<Rightarrow> u8 \<Rightarrow> u32 \<Rightarrow> nat \<Rightarrow> nat \<Rightarrow> int \<Rightarrow> u8 list \<Rightarrow> u8 list option \<Rightarrow> 'h nst
   \<Rightarrow> 'h page_op_result" where
  "two_plane_loop C H op chip blk 0 i ret main oob s = Some (ret, main, oob, s)"
| "two_plane_loop C H op chip blk (Suc n) i ret main oob s = do {
     bm \<leftarrow> plane_bitmap C op i;
     b \<leftarrow> oob;
     (r, main, oob, s) \<leftarrow>
       on_plane C i (read_sectors C H (plane_op C op chip blk i bm) 0) main (Some b) s;
     two_plane_loop C H op chip blk n (Suc i) (ret OR r) main oob s
   }"

definition two_plane_read ::
  "cfg \<Rightarrow> 'h nfc_hw \<Rightarrow> phys_op \<Rightarrow> u8 list \<Rightarrow> u8 list option \<Rightarrow> 'h nst \<Rightarrow> 'h page_op_result" where
  "two_plane_read C H op main oob s =
     (let chip = cal_real_chip C (ucast (op_BankNum op)) in
      if chip = 0xff then Some (- ERR_INVALIDPHYADDR, main, oob, s)
      else do {
        blk \<leftarrow> cal_block_in_chip C (ucast (op_BankNum op)) (ucast (op_BlkNum op));
        if blk = 0xffffffff then Some (- ERR_INVALIDPHYADDR, main, oob, s)
        else do {
          let cmds = map (\<lambda>i. add_cmd_list 0x60 3
                (cal_addr_in_chip C (blk + of_nat i * MULTI_PLANE_BLOCK_OFFSET C)
                   (ucast (op_PageNum op)) 0 3) 0 0 0 0) [0..<plane_cnt C]
              @ [add_cmd_list 0x30 0 [] 0 0 0 1];
          let s = select_chip_rb C H (ucast chip) s;
          let (ret, s) = wait_rb_ready C H (ucast chip) s;
          if ret \<noteq> 0 then Some (ret, main, oob, s)
          else do {
            (ret, m, sp, s) \<leftarrow> NFC_Read H cmds 0 0 s;
            if m \<noteq> [] \<or> sp \<noteq> [] then None
            else do {
              (ret, main, oob, s) \<leftarrow> two_plane_loop C H op chip blk (plane_cnt C) 0 ret main oob s;
              Some (ret, main, oob, deselect_chip_rb C (ucast chip) s)
            }
          }
        }
      })"

text \<open>\<open>PHY_PageRead_exit\<close>: too many errors are reported as success.\<close>

definition ecc_to_zero :: "int \<Rightarrow> int" where
  "ecc_to_zero ret = (if ret = - ERR_ECC then 0 else ret)"

definition read_by_planes ::
  "cfg \<Rightarrow> 'h nfc_hw
   \<Rightarrow> (boot_physical_param \<Rightarrow> u8 list \<Rightarrow> u8 list option \<Rightarrow> 'h nst \<Rightarrow> 'h page_op_result)
   \<Rightarrow> phys_op \<Rightarrow> u8 list \<Rightarrow> u8 list option \<Rightarrow> 'h nst \<Rightarrow> 'h page_op_result" where
  "read_by_planes C H part op main oob s =
     (let chip = cal_real_chip C (ucast (op_BankNum op)) in
      if chip = 0xff then Some (- ERR_INVALIDPHYADDR, main, oob, s)
      else do {
        blk \<leftarrow> cal_block_in_chip C (ucast (op_BankNum op)) (ucast (op_BlkNum op));
        if blk = 0xffffffff then Some (- ERR_INVALIDPHYADDR, main, oob, s)
        else do {
          (ret, main, oob, s) \<leftarrow> read_planes C H part op chip blk (plane_cnt C) 0 0 main oob s;
          Some (ecc_to_zero ret, main, oob, s)
        }
      })"

definition phys_PageRead ::
  "cfg \<Rightarrow> 'h nfc_hw \<Rightarrow> phys_op \<Rightarrow> u8 list \<Rightarrow> u8 list option \<Rightarrow> 'h nst \<Rightarrow> 'h page_op_result" where
  "phys_PageRead C H op main oob s =
     (if SUPPORT_MULTI_READ C then do {
        (ret, main, oob, s) \<leftarrow> two_plane_read C H op main oob s;
        Some (ecc_to_zero ret, main, oob, s)
      } else read_by_planes C H (\<lambda>rop. read_sectors C H rop 0) op main oob s)"

definition phys_PageReadSpare ::
  "cfg \<Rightarrow> 'h nfc_hw \<Rightarrow> phys_op \<Rightarrow> u8 list \<Rightarrow> u8 list option \<Rightarrow> 'h nst \<Rightarrow> 'h page_op_result" where
  "phys_PageReadSpare C H op main oob s =
     read_by_planes C H (\<lambda>rop. read_single_page_spare C H rop 0) op main oob s"

end
