(* ===== verification/Phy_Write.thy ===== *)
theory Phy_Write
  imports Phy_Read
begin

text \<open>
  Writes, erases and copy-back of the physic layer: single page writes, \<open>PHY_SimpleWrite\<close> and its
  variants, \<open>PHY_SimpleErase\<close> (\<open>physic/nand_simple_w.c\<close>), \<open>PHY_BlockErase\<close>, \<open>PHY_PageWrite\<close> and
  \<open>PHY_PageCopyback\<close> (\<open>nand_phy.c\<close>).

  The \<open>PHY_Simple\<close> operations wait for the status without a bound: their loops are
  \<open>partial_function (option)\<close>, and \<^term>\<open>None\<close> is a wait that does not end, or undefined behaviour.
\<close>

section \<open>Single page writes\<close>

text \<open>\<open>sparebuf\<close>: \<open>0xff\<close> on the spare bytes of a page, then a copy of the caller's spare data.\<close>

definition write_spare :: "cfg \<Rightarrow> u8 list option \<Rightarrow> u8 list option" where
  "write_spare C oob = do {
     let n = SECTOR_CNT_OF_SINGLE_PAGE C * 4;
     sp \<leftarrow> mem_put (junk_spare64 C) 0 (replicate n 0xff);
     case oob of None \<Rightarrow> Some sp
     | Some b \<Rightarrow> do { d \<leftarrow> mem_get b 0 n; mem_put sp 0 d }
   }"

definition write_cmd_list :: "cfg \<Rightarrow> boot_physical_param \<Rightarrow> u32 \<Rightarrow> u32 \<Rightarrow> nfc_cmd list" where
  "write_cmd_list C op program1 program2 =
     (let cyc = (if SECTOR_CNT_OF_SINGLE_PAGE C = 1 then 4 else 5) in
      [add_cmd_list program1 (of_nat cyc)
         (cal_addr_in_chip C (bp_block32 op) (bp_page32 op) 0 cyc) 1 0 0 0,
       plain_cmd 0x85, plain_cmd program2])"

definition write_signle_page ::
  "cfg \<Rightarrow> 'h nfc_hw \<Rightarrow> boot_physical_param \<Rightarrow> u32 \<Rightarrow> u32 \<Rightarrow> u8 \<Rightarrow> u8 \<Rightarrow> u8 list \<Rightarrow> u8 list option
   \<Rightarrow> 'h nst \<Rightarrow> (int \<times> 'h nst) option" where
  "write_signle_page C H op program1 program2 dma rb_wait main oob s = do {
     sp \<leftarrow> write_spare C oob;
     let cmds = write_cmd_list C op program1 program2;
     let s = select_chip_rb C H (bp_chip32 op) s;
     (ret, s) \<leftarrow>
       (if SUPPORT_RANDOM C then do {
          let s = random_on H (cal_random_seed (bp_page32 op)) s;
          (ret, s) \<leftarrow> NFC_Write H cmds main sp dma rb_wait 1 s;
          Some (ret, NFC_RandomDisable H s)
        } else NFC_Write H cmds main sp dma rb_wait 1 s);
     Some (ret, deselect_chip_rb C (bp_chip32 op) s)
   }"

definition write_signle_page_seq ::
  "cfg \<Rightarrow> 'h nfc_hw \<Rightarrow> boot_physical_param \<Rightarrow> u32 \<Rightarrow> u32 \<Rightarrow> u8 \<Rightarrow> u8 \<Rightarrow> u8 list \<Rightarrow> u8 list option
   \<Rightarrow> 'h nst \<Rightarrow> (int \<times> 'h nst) option" where
  "write_signle_page_seq C H op program1 program2 dma rb_wait main oob s = do {
     sp \<leftarrow> write_spare C oob;
     let cmds = write_cmd_list C op program1 program2;
     let s = select_chip_rb C H (bp_chip32 op) s;
     (ret, s) \<leftarrow>
       (if SUPPORT_RANDOM C then do {
          let s = random_on H 0x4a80 s;
          (ret, s) \<leftarrow> NFC_Write_Seq H cmds main sp dma rb_wait 1 s;
          Some (ret, NFC_RandomDisable H s)
        } else NFC_Write_Seq H cmds main sp dma rb_wait 1 s);
     Some (ret, deselect_chip_rb C (bp_chip32 op) s)
   }"

definition write_signle_page_1K ::
  "cfg \<Rightarrow> 'h nfc_hw \<Rightarrow> boot_physical_param \<Rightarrow> u32 \<Rightarrow> u32 \<Rightarrow> u8 \<Rightarrow> u8 \<Rightarrow> u8 list \<Rightarrow> u8 list option
   \<Rightarrow> 'h nst \<Rightarrow> (int \<times> 'h nst) option" where
  "write_signle_page_1K C H op program1 program2 dma rb_wait main oob s = do {
     sp \<leftarrow> write_spare C oob;
     let cmds = write_cmd_list C op program1 program2;
     let s = random_on H 0x4a80 (select_chip_rb C H (bp_chip32 op) s);
     (ret, s) \<leftarrow> NFC_Write_1K H cmds main sp dma rb_wait 1 s;
     Some (ret, deselect_chip_rb C (bp_chip32 op) (NFC_RandomDisable H s))
   }"

definition erase_single_block ::
  "cfg \<Rightarrow> 'h nfc_hw \<Rightarrow> boot_physical_param \<Rightarrow> 'h nst \<Rightarrow> (int \<times> 'h nst) option" where
  "erase_single_block C H op s = do {
     let cmds = [add_cmd_list 0x60 3 (cal_addr_in_chip C (bp_block32 op) 0 0 3) 0 0 0 0, plain_cmd 0xd0];
     (ret, s) \<leftarrow> NFC_Erase H cmds 0 (select_chip_rb C H (bp_chip32 op) s);
     Some (ret, deselect_chip_rb C (bp_chip32 op) s)
   }"

section \<open>The simple operations\<close>

partial_function (option) status_loop ::
  "cfg \<Rightarrow> 'h nfc_hw \<Rightarrow> u32 \<Rightarrow> 'h nst \<Rightarrow> (int \<times> 'h nst) option" where
  "status_loop C H chip s = do {
     (status, s) \<leftarrow> read_status C H 0x70 chip s;
     if status < 0 \<or> status AND 0x40 \<noteq> 0 then Some (status, s) else status_loop C H chip s
   }"

text \<open>The second half of \<open>PHY_SimpleWrite\<close>, \<open>_Seq\<close> and \<open>_1K\<close>, word for word the same in the three.\<close>

definition await_write ::
  "cfg \<Rightarrow> 'h nfc_hw \<Rightarrow> boot_physical_param \<Rightarrow> int \<times> 'h nst \<Rightarrow> (int \<times> 'h nst) option" where
  "await_write C H op = (\<lambda>(ret, s).
     if ret \<noteq> 0 then Some (- 1, s)
     else do {
       (status, s) \<leftarrow> status_loop C H (bp_chip32 op) (select_chip_rb C H (bp_chip32 op) s);
       if status < 0 then Some (status, s)
       else Some (if status AND 0x1 \<noteq> 0 then - 2 else ret, deselect_chip_rb C (bp_chip32 op) s)
     })"

definition PHY_SimpleWrite ::
  "cfg \<Rightarrow> 'h nfc_hw \<Rightarrow> boot_physical_param \<Rightarrow> u8 list \<Rightarrow> u8 list option \<Rightarrow> 'h nst \<Rightarrow> (int \<times> 'h nst) option"
where
  "PHY_SimpleWrite C H op main oob s =
     write_signle_page C H op 0x80 0x10 0 0 main oob s \<bind> await_write C H op"

definition PHY_SimpleWrite_Seq ::
  "cfg \<Rightarrow> 'h nfc_hw \<Rightarrow> boot_physical_param \<Rightarrow> u8 list \<Rightarrow> u8 list option \<Rightarrow> 'h nst \<Rightarrow> (int \<times> 'h nst) option"
where
  "PHY_SimpleWrite_Seq C H op main oob s =
     write_signle_page_seq C H op 0x80 0x10 0 0 main oob s \<bind> await_write C H op"

definition PHY_SimpleWrite_1K ::
  "cfg \<Rightarrow> 'h nfc_hw \<Rightarrow> boot_physical_param \<Rightarrow> u8 list \<Rightarrow> u8 list option \<Rightarrow> 'h nst \<Rightarrow> (int \<times> 'h nst) option"
where
  "PHY_SimpleWrite_1K C H op main oob s =
     write_signle_page_1K C H op 0x80 0x10 0 0 main oob s \<bind> await_write C H op"

text \<open>The loop of \<open>PHY_SimpleErase\<close> has no test for an error of the status read.\<close>

partial_function (option) erase_status_loop ::
  "cfg \<Rightarrow> 'h nfc_hw \<Rightarrow> u32 \<Rightarrow> 'h nst \<Rightarrow> (int \<times> 'h nst) option" where
  "erase_status_loop C H chip s = do {
     (status, s) \<leftarrow> read_status C H 0x70 chip s;
     if status AND 0x40 \<noteq> 0 then Some (status, s) else erase_status_loop C H chip s
   }"

definition PHY_SimpleErase ::
  "cfg \<Rightarrow> 'h nfc_hw \<Rightarrow> boot_physical_param \<Rightarrow> 'h nst \<Rightarrow> (int \<times> 'h nst) option" where
  "PHY_SimpleErase C H op s = do {
     (ret, s) \<leftarrow> erase_single_block C H op s;
     if ret \<noteq> 0 then Some (- 1, s)
     else do {
       (status, s) \<leftarrow> erase_status_loop C H (bp_chip32 op) (select_chip_rb C H (bp_chip32 op) s);
       Some (if status AND 0x1 \<noteq> 0 then - 2 else ret, deselect_chip_rb C (bp_chip32 op) s)
     }
   }"

section \<open>Super block erase, super page write\<close>

definition phys_BlockErase :: "cfg \<Rightarrow> 'h nfc_hw \<Rightarrow> phys_op \<Rightarrow> 'h nst \<Rightarrow> (int \<times> 'h nst) option" where
  "phys_BlockErase C H op s =
     (let chip = cal_real_chip C (ucast (op_BankNum op)) in
      if chip = 0xff then Some (- ERR_INVALIDPHYADDR, s)
      else do {
        blk \<leftarrow> cal_block_in_chip C (ucast (op_BankNum op)) (ucast (op_BlkNum op));
        if blk = 0xffffffff then Some (- ERR_INVALIDPHYADDR, s)
        else do {
          let cmds = map (\<lambda>i. add_cmd_list 0x60 3
                (cal_addr_in_chip C (blk + of_nat i * MULTI_PLANE_BLOCK_OFFSET C) 0 0 3) 0 0 0 0)
                [0..<plane_cnt C] @ [plain_cmd 0xd0];
          let (r, s) = wait_rb_ready C H (ucast chip) s;
          (ret, s) \<leftarrow> NFC_Erase H cmds 0 (select_chip_rb C H (ucast chip) s);
          Some (ret, deselect_chip_rb C (ucast chip) s)
        }
      })"

definition write_programs :: "cfg \<Rightarrow> nat \<Rightarrow> (u32 \<times> u32) option" where
  "write_programs C i = do {
     let cmd = MultiPlaneWriteCmd (OptPhyOpPar (storage C));
     if i = 0 then
       (if SUPPORT_MULTI_PROGRAM C then do { c \<leftarrow> arr_get cmd 0; Some (0x80, ucast c) }
        else Some (0x80, 0x10))
     else do { c \<leftarrow> arr_get cmd 1; Some (ucast c, 0x10) }
   }"

fun write_planes ::
  "cfg \<Rightarrow> 'h nfc_hw \<Rightarrow> phys_op \<Rightarrow> u8 \<Rightarrow> u32 \<Rightarrow> nat \<Rightarrow> nat \<Rightarrow> int \<Rightarrow> u8 list \<Rightarrow> u8 list option \<Rightarrow> 'h nst
   \<Rightarrow> (int \<times> 'h nst) option" where
  "write_planes C H op chip blk 0 i ret main oob s = Some (ret, s)"
| "write_planes C H op chip blk (Suc n) i ret main oob s = do {
     let (w, s) = wait_rb_ready C H (ucast chip) s;
     (program1, program2) \<leftarrow> write_programs C i;
     (r, s) \<leftarrow> write_signle_page C H
        (plane_op C op chip blk i (FULL_BITMAP_OF_SINGLE_PAGE C)) program1 program2 0 0
        (drop (512 * SECTOR_CNT_OF_SINGLE_PAGE C * i) main)
        (map_option (drop (4 * SECTOR_CNT_OF_SINGLE_PAGE C * i)) oob) s;
     write_planes C H op chip blk n (Suc i) (ret OR r) main oob s
   }"

definition phys_PageWrite ::
  "cfg \<Rightarrow> 'h nfc_hw \<Rightarrow> phys_op \<Rightarrow> u8 list \<Rightarrow> u8 list option \<Rightarrow> 'h nst \<Rightarrow> (int \<times> 'h nst) option" where
  "phys_PageWrite C H op main oob s =
     (let chip = cal_real_chip C (ucast (op_BankNum op)) in
      if chip = 0xff then Some (- ERR_INVALIDPHYADDR, s)
      else do {
        blk \<leftarrow> cal_block_in_chip C (ucast (op_BankNum op)) (ucast (op_BlkNum op));
        if blk = 0xffffffff then Some (- ERR_INVALIDPHYADDR, s)
        else write_planes C H op chip blk (plane_cnt C) 0 0 main oob s
      })"

section \<open>Copy-back\<close>

definition copy_addr :: "cfg \<Rightarrow> u32 \<Rightarrow> nat \<Rightarrow> u8 \<Rightarrow> u8 list" where
  "copy_addr C blk i page =
     cal_addr_in_chip C (blk + of_nat i * MULTI_PLANE_BLOCK_OFFSET C) (ucast page) 0
       (if SECTOR_CNT_OF_SINGLE_PAGE C = 1 then 4 else 5)"

definition copy_cyc :: "cfg \<Rightarrow> u8" where
  "copy_cyc C = (if SECTOR_CNT_OF_SINGLE_PAGE C = 1 then 4 else 5)"

text \<open>Both copy-backs: the ready wait (its result is dropped), the read commands, the write commands.\<close>

definition copy_back_run ::
  "cfg \<Rightarrow> 'h nfc_hw \<Rightarrow> u8 \<Rightarrow> nfc_cmd list \<Rightarrow> nfc_cmd list \<Rightarrow> 'h nst \<Rightarrow> (int \<times> 'h nst) option" where
  "copy_back_run C H chip rcmds wcmds s = do {
     let s = select_chip_rb C H (ucast chip) (snd (wait_rb_ready C H (ucast chip) s));
     (ret, s) \<leftarrow> NFC_CopyBackRead H rcmds s;
     if ret \<noteq> 0 then Some (- 1, s)
     else do {
       (ret, s) \<leftarrow> NFC_CopyBackWrite H wcmds 0 s;
       Some (ret, deselect_chip_rb C (ucast chip) s)
     }
   }"

text \<open>The chip is the source's; both blocks are looked up before anything is sent.\<close>

definition copy_back_blocks :: "cfg \<Rightarrow> phys_op \<Rightarrow> phys_op \<Rightarrow> (int + u8 \<times> u32 \<times> u32) option" where
  "copy_back_blocks C src dst =
     (let chip = cal_real_chip C (ucast (op_BankNum src)) in
      if chip = 0xff then Some (Inl (- ERR_INVALIDPHYADDR))
      else do {
        sb \<leftarrow> cal_block_in_chip C (ucast (op_BankNum src)) (ucast (op_BlkNum src));
        if sb = 0xffffffff then Some (Inl (- ERR_INVALIDPHYADDR))
        else do {
          db \<leftarrow> cal_block_in_chip C (ucast (op_BankNum dst)) (ucast (op_BlkNum dst));
          if db = 0xffffffff then Some (Inl (- ERR_INVALIDPHYADDR)) else Some (Inr (chip, sb, db))
        }
      })"

definition single_copy_back ::
  "cfg \<Rightarrow> 'h nfc_hw \<Rightarrow> phys_op \<Rightarrow> phys_op \<Rightarrow> 'h nst \<Rightarrow> (int \<times> 'h nst) option" where
  "single_copy_back C H src dst s = do {
     r \<leftarrow> copy_back_blocks C src dst;
     case r of Inl e \<Rightarrow> Some (e, s)
     | Inr (chip, sb, db) \<Rightarrow>
         copy_back_run C H chip
           [add_cmd_list 0x00 (copy_cyc C) (copy_addr C sb 0 (op_PageNum src)) 0 0 0 0, plain_cmd 0x35]
           [add_cmd_list 0x85 (copy_cyc C) (copy_addr C db 0 (op_PageNum dst)) 0 0 0 0, plain_cmd 0x10]
           s
   }"

definition copy_read_cmds :: "cfg \<Rightarrow> u32 \<Rightarrow> u8 \<Rightarrow> nfc_cmd list option" where
  "copy_read_cmds C sb page = do {
     c \<leftarrow> arr_get (MultiPlaneCopyReadCmd (OptPhyOpPar (storage C))) 0;
     Some (if c = 0x60
       then map (\<lambda>i. add_cmd_list 0x60 (copy_cyc C) (copy_addr C sb i page) 0 0 0 0) [0..<plane_cnt C]
            @ [plain_cmd 0x35]
       else concat (map (\<lambda>i. [add_cmd_list 0x00 (copy_cyc C) (copy_addr C sb i page) 0 0 0 0,
              plain_cmd 0x35]) [0..<plane_cnt C]))
   }"

text \<open>The write commands of plane \<open>i\<close>. The page they name is the source's.\<close>

definition copy_write_cmds :: "cfg \<Rightarrow> u32 \<Rightarrow> u8 \<Rightarrow> nfc_cmd list option" where
  "copy_write_cmds C db page = do {
     let cmd = MultiPlaneCopyWriteCmd (OptPhyOpPar (storage C));
     c0 \<leftarrow> arr_get cmd 0;
     c1 \<leftarrow> arr_get cmd 1;
     c2 \<leftarrow> arr_get cmd 2;
     Some (concat (map (\<lambda>i.
       [add_cmd_list (if i = 0 then ucast c0 else ucast c2) (copy_cyc C) (copy_addr C db i page) 0 0 0 0,
        plain_cmd (if i = 0 then ucast c1 else 0x10)]) [0..<plane_cnt C]))
   }"

definition multi_copy_back ::
  "cfg \<Rightarrow> 'h nfc_hw \<Rightarrow> phys_op \<Rightarrow> phys_op \<Rightarrow> 'h nst \<Rightarrow> (int \<times> 'h nst) option" where
  "multi_copy_back C H src dst s = do {
     r \<leftarrow> copy_back_blocks C src dst;
     case r of Inl e \<Rightarrow> Some (e, s)
     | Inr (chip, sb, db) \<Rightarrow> do {
         rcmds \<leftarrow> copy_read_cmds C sb (op_PageNum src);
         wcmds \<leftarrow> copy_write_cmds C db (op_PageNum src);
         copy_back_run C H chip rcmds wcmds s
       }
   }"

text \<open>Without copy-back, or between pages of different parity, the page goes through \<open>PageCache0\<close> and
  \<open>SpareCache\<close>.\<close>

definition phys_PageCopyback ::
  "cfg \<Rightarrow> 'h nfc_hw \<Rightarrow> phys_op \<Rightarrow> phys_op \<Rightarrow> 'h nst \<Rightarrow> (int \<times> 'h nst) option" where
  "phys_PageCopyback C H src dst s =
     (if \<not> SUPPORT_PAGE_COPYBACK C \<or> odd (unat (op_PageNum src) + unat (op_PageNum dst)) then do {
        let src = src\<lparr>op_SectBitmap := FULL_BITMAP_OF_SUPER_PAGE C\<rparr>;
        let dst = dst\<lparr>op_SectBitmap := FULL_BITMAP_OF_SUPER_PAGE C\<rparr>;
        main \<leftarrow> ns_PageCache0 s;
        oob \<leftarrow> ns_SpareCache s;
        (ret, main, oob, s) \<leftarrow> phys_PageRead C H src main (Some oob) s;
        let s = s\<lparr>ns_PageCache0 := Some main, ns_SpareCache := oob\<rparr>;
        let ret = ecc_to_zero ret;
        if ret < 0 then Some (ret, s) else phys_PageWrite C H dst main oob s
      }
      else if \<not> SUPPORT_MULTI_PROGRAM C then single_copy_back C H src dst s
      else multi_copy_back C H src dst s)"

end
