(* ===== verification/Phy_Boot.thy ===== *)
theory Phy_Boot
  imports Phy_Write
begin

text \<open>
  The boot area of the first chip: \<open>bootarea_read\<close>, \<open>bootarea_write\<close> and the four calls on them
  (\<open>physic/nand_phy.c\<close>). As in the code, the page read and the page write are function pointers,
  arguments of the model; \<open>PHY_Boot0Read\<close> and its kin pass the functions of the code. Boot 0 uses one
  kilobyte of each page from block 0 on, boot 1 whole pages from page \<open>0x200\<close> on.

  \<open>first\<close>, \<open>count\<close> and every number computed from them are 32 bit unsigned, as in the code.
\<close>

type_synonym 'h page_reader = "boot_physical_param \<Rightarrow> u8 list \<Rightarrow> 'h \<Rightarrow> (int \<times> u8 list \<times> 'h) option"
type_synonym 'h page_writer = "boot_physical_param \<Rightarrow> u8 list \<Rightarrow> 'h \<Rightarrow> (int \<times> 'h) option"

definition boot_op :: "cfg \<Rightarrow> u32 \<Rightarrow> u32 \<Rightarrow> boot_physical_param" where
  "boot_op C block page = \<lparr>bp_chip = 0, bp_block = ucast block, bp_page = ucast page,
     bp_sectorbitmap = ucast (FULL_BITMAP_OF_SINGLE_PAGE C)\<rparr>"

abbreviation ppb :: "cfg \<Rightarrow> u32" where
  "ppb C \<equiv> of_nat (PAGE_CNT_OF_PHY_BLK C)"

section \<open>Reading\<close>

text \<open>\<open>readop.block = first / PAGE_CNT_OF_PHY_BLK; readop.page = first % PAGE_CNT_OF_PHY_BLK; res = ...\<close>.\<close>

definition boot_read_page :: "cfg \<Rightarrow> 'h page_reader \<Rightarrow> u32 \<Rightarrow> u8 list \<Rightarrow> 'h \<Rightarrow> (int \<times> u8 list \<times> 'h) option"
where
  "boot_read_page C rd first main s =
     (if ppb C = 0 then None else rd (boot_op C (first div ppb C) (first mod ppb C)) main s)"

text \<open>The loop over whole pages, \<open>n\<close> of them, the next at byte \<open>off\<close> of the buffer.\<close>

fun boot_read_loop ::
  "cfg \<Rightarrow> 'h page_reader \<Rightarrow> nat \<Rightarrow> nat \<Rightarrow> u32 \<Rightarrow> nat \<Rightarrow> u8 list \<Rightarrow> 'h \<Rightarrow> (int \<times> u32 \<times> nat \<times> u8 list \<times> 'h) option"
where
  "boot_read_loop C rd spp 0 first off buf s = Some (0, first, off, buf, s)"
| "boot_read_loop C rd spp (Suc n) first off buf s = do {
     (res, b, s) \<leftarrow> boot_read_page C rd first (drop off buf) s;
     let buf = take off buf @ b;
     if res \<noteq> 0 then Some (res, first + 1, off + spp * 512, buf, s)
     else boot_read_loop C rd spp n (first + 1) (off + spp * 512) buf s
   }"

text \<open>The first, partly wanted page: the result, what is left of \<open>count\<close>, \<open>first\<close> and the place in the
  buffer, then the page cache.\<close>

definition boot_read_head ::
  "cfg \<Rightarrow> 'h page_reader \<Rightarrow> u32 \<Rightarrow> u32 \<Rightarrow> u32 \<Rightarrow> u32 \<Rightarrow> u8 list \<Rightarrow> 'h
   \<Rightarrow> (int \<times> u32 \<times> u32 \<times> nat \<times> u8 list \<times> u8 list option \<times> 'h) option" where
  "boot_read_head C rd spp bufoff first cnt buf s =
     (if bufoff > 0 then do {
        (res, cache, s) \<leftarrow> boot_read_page C rd first (map (junk8 C) [0..<unat spp * 512]) s;
        (cnt, buf) \<leftarrow>
          (if res = 0 then
             if bufoff + cnt < spp then do {
               d \<leftarrow> mem_get cache (unat bufoff * 512) (unat cnt * 512);
               buf \<leftarrow> mem_put buf 0 d;
               Some (0, buf)
             } else do {
               d \<leftarrow> mem_get cache (unat bufoff * 512) (unat (spp - bufoff) * 512);
               buf \<leftarrow> mem_put buf 0 d;
               Some (cnt - (spp - bufoff), buf)
             }
           else Some (cnt, buf));
        Some (res, cnt, first + 1, unat (spp - bufoff) * 512, buf, Some cache, s)
      } else Some (0, cnt, first, 0, buf, None, s))"

text \<open>The whole pages and the last, partly wanted one.\<close>

definition boot_read_rest ::
  "cfg \<Rightarrow> 'h page_reader \<Rightarrow> u32 \<Rightarrow> u32 \<Rightarrow> u32 \<Rightarrow> nat \<Rightarrow> u8 list \<Rightarrow> u8 list option \<Rightarrow> 'h
   \<Rightarrow> (int \<times> u8 list \<times> 'h) option" where
  "boot_read_rest C rd spp cnt first off buf cache s = do {
     let bufoff = cnt mod spp;
     (res, first, off, buf, s) \<leftarrow> boot_read_loop C rd (unat spp) (unat (cnt div spp)) first off buf s;
     if res = 0 \<and> bufoff > 0 then do {
       let cache = (case cache of None \<Rightarrow> map (junk8 C) [0..<unat spp * 512] | Some c \<Rightarrow> c);
       (res, cache, s) \<leftarrow> boot_read_page C rd first cache s;
       buf \<leftarrow> (if res = 0 then do { d \<leftarrow> mem_get cache 0 (unat bufoff * 512); mem_put buf off d }
               else Some buf);
       Some (res, buf, s)
     } else Some (res, buf, s)
   }"

definition bootarea_read ::
  "cfg \<Rightarrow> u32 \<Rightarrow> 'h page_reader \<Rightarrow> u32 \<Rightarrow> u32 \<Rightarrow> u8 list \<Rightarrow> bool \<Rightarrow> 'h \<Rightarrow> (int \<times> u8 list \<times> 'h) option" where
  "bootarea_read C spp rd first cnt buf bootnum s =
     (if spp = 0 then None
      else do {
        let bufoff = first mod spp;
        let first = first div spp + (if bootnum then 0x200 else 0);
        (res, cnt, first, off, buf, cache, s) \<leftarrow> boot_read_head C rd spp bufoff first cnt buf s;
        if res = 0 then boot_read_rest C rd spp cnt first off buf cache s else Some (res, buf, s)
      })"

section \<open>Writing\<close>

text \<open>\<open>writeop.block = block; res = PHY_SimpleErase(...); for (page = 0; res == 0 && page < ...)\<close>.\<close>

fun boot_write_pages ::
  "cfg \<Rightarrow> 'h page_writer \<Rightarrow> nat \<Rightarrow> u32 \<Rightarrow> nat \<Rightarrow> nat \<Rightarrow> u8 list \<Rightarrow> 'h \<Rightarrow> (int \<times> 'h) option" where
  "boot_write_pages C wr spp block 0 page data s = Some (0, s)"
| "boot_write_pages C wr spp block (Suc n) page data s = do {
     (res, s) \<leftarrow> wr (boot_op C block (of_nat page)) (drop (page * spp * 512) data) s;
     if res \<noteq> 0 then Some (res, s) else boot_write_pages C wr spp block n (Suc page) data s
   }"

definition boot_write_block ::
  "cfg \<Rightarrow> (boot_physical_param \<Rightarrow> 'h \<Rightarrow> (int \<times> 'h) option) \<Rightarrow> 'h page_writer \<Rightarrow> nat \<Rightarrow> u32 \<Rightarrow> u8 list \<Rightarrow> 'h
   \<Rightarrow> (int \<times> 'h) option" where
  "boot_write_block C er wr spp block data s = do {
     (res, s) \<leftarrow> er (boot_op C block 0) s;
     if res \<noteq> 0 then Some (res, s)
     else boot_write_pages C wr spp block (PAGE_CNT_OF_PHY_BLK C) 0 data s
   }"

fun boot_write_loop ::
  "cfg \<Rightarrow> (boot_physical_param \<Rightarrow> 'h \<Rightarrow> (int \<times> 'h) option) \<Rightarrow> 'h page_writer \<Rightarrow> nat \<Rightarrow> nat \<Rightarrow> nat \<Rightarrow> u32
   \<Rightarrow> u8 list \<Rightarrow> 'h \<Rightarrow> (int \<times> u32 \<times> u8 list \<times> 'h) option" where
  "boot_write_loop C er wr spp spb 0 block buf s = Some (0, block, buf, s)"
| "boot_write_loop C er wr spp spb (Suc n) block buf s = do {
     (res, s) \<leftarrow> boot_write_block C er wr spp block buf s;
     if res \<noteq> 0 then Some (res, block + 1, drop (spb * 512) buf, s)
     else boot_write_loop C er wr spp spb n (block + 1) (drop (spb * 512) buf) s
   }"

text \<open>The first, partly written block, merged with what the flash holds. When the data ends inside the
  block, the sectors after it are read from \<open>count\<close> sectors into the block, not from behind the data.\<close>

definition boot_merge_head ::
  "cfg \<Rightarrow> u32 \<Rightarrow> u32 \<Rightarrow> (u32 \<Rightarrow> u32 \<Rightarrow> u8 list \<Rightarrow> 'h \<Rightarrow> (int \<times> u8 list \<times> 'h) option)
   \<Rightarrow> (u8 list \<Rightarrow> 'h \<Rightarrow> (int \<times> 'h) option) \<Rightarrow> u32 \<Rightarrow> u32 \<Rightarrow> u8 list \<Rightarrow> 'h
   \<Rightarrow> (int \<times> u32 \<times> u8 list \<times> 'h) option" where
  "boot_merge_head C spb base rd_area wr_blk bsector cnt buf s = do {
     (res, cache, s) \<leftarrow> rd_area base bsector (map (junk8 C) [0..<unat spb * 512]) s;
     if res \<noteq> 0 then Some (res, cnt, cache, s)
     else do {
       (res, cnt, cache, s) \<leftarrow>
         (if bsector + cnt < spb then do {
            d \<leftarrow> mem_get buf 0 (unat cnt * 512);
            cache \<leftarrow> mem_put cache (unat bsector * 512) d;
            let off = unat (bsector + cnt) * 512;
            (res, c, s) \<leftarrow> rd_area (base + cnt) (spb - bsector - cnt) (drop off cache) s;
            Some (res, 0, take off cache @ c, s)
          } else do {
            d \<leftarrow> mem_get buf 0 (unat (spb - bsector) * 512);
            cache \<leftarrow> mem_put cache (unat bsector * 512) d;
            Some (0, cnt - (spb - bsector), cache, s)
          });
       if res \<noteq> 0 then Some (res, cnt, cache, s)
       else do { (res, s) \<leftarrow> wr_blk cache s; Some (res, cnt, cache, s) }
     }
   }"

text \<open>The last, partly written block, merged with the sectors after the data.\<close>

definition boot_merge_tail ::
  "cfg \<Rightarrow> u32 \<Rightarrow> u32 \<Rightarrow> (u32 \<Rightarrow> u32 \<Rightarrow> u8 list \<Rightarrow> 'h \<Rightarrow> (int \<times> u8 list \<times> 'h) option)
   \<Rightarrow> (u8 list \<Rightarrow> 'h \<Rightarrow> (int \<times> 'h) option) \<Rightarrow> u32 \<Rightarrow> u8 list \<Rightarrow> u8 list option \<Rightarrow> 'h \<Rightarrow> (int \<times> 'h) option"
where
  "boot_merge_tail C spb base rd_area wr_blk bsector buf cache s = do {
     let cache = (case cache of None \<Rightarrow> map (junk8 C) [0..<unat spb * 512] | Some c \<Rightarrow> c);
     d \<leftarrow> mem_get buf 0 (unat bsector * 512);
     cache \<leftarrow> mem_put cache 0 d;
     let off = unat bsector * 512;
     (res, c, s) \<leftarrow> rd_area (base + bsector) (spb - bsector) (drop off cache) s;
     let cache = take off cache @ c;
     if res = 0 then wr_blk cache s else Some (res, s)
   }"

text \<open>The whole blocks, then that one.\<close>

definition boot_write_rest ::
  "cfg \<Rightarrow> u32 \<Rightarrow> u32 \<Rightarrow> u32 \<Rightarrow> (u32 \<Rightarrow> u32 \<Rightarrow> u8 list \<Rightarrow> 'h \<Rightarrow> (int \<times> u8 list \<times> 'h) option)
   \<Rightarrow> (boot_physical_param \<Rightarrow> 'h \<Rightarrow> (int \<times> 'h) option) \<Rightarrow> 'h page_writer \<Rightarrow> u32 \<Rightarrow> u32 \<Rightarrow> u8 list
   \<Rightarrow> u8 list option \<Rightarrow> 'h \<Rightarrow> (int \<times> 'h) option" where
  "boot_write_rest C spp spb base0 rd_area er wr cnt block buf cache s = do {
     let bsector = cnt mod spb;
     (res, block, buf, s) \<leftarrow>
       boot_write_loop C er wr (unat spp) (unat spb) (unat (cnt div spb)) block buf s;
     if res = 0 \<and> bsector > 0
     then boot_merge_tail C spb (block * spb - base0) rd_area
            (boot_write_block C er wr (unat spp) block) bsector buf cache s
     else Some (res, s)
   }"

definition bootarea_write ::
  "cfg \<Rightarrow> u32 \<Rightarrow> 'h page_reader \<Rightarrow> (boot_physical_param \<Rightarrow> 'h \<Rightarrow> (int \<times> 'h) option) \<Rightarrow> 'h page_writer
   \<Rightarrow> u32 \<Rightarrow> u32 \<Rightarrow> u8 list \<Rightarrow> bool \<Rightarrow> 'h \<Rightarrow> (int \<times> 'h) option" where
  "bootarea_write C spp rd er wr first cnt buf bootnum s =
     (let spb = spp * ppb C; base0 = (if bootnum then 0x200 * spp else 0);
          bsector = first + base0
      in if spb = 0 then None
      else do {
        let block = bsector div spb;
        let bsector = bsector mod spb;
        let rd_area = (\<lambda>first cnt buf. bootarea_read C spp rd first cnt buf bootnum);
        if bsector > 0 then do {
          (res, cnt, cache, s) \<leftarrow>
            boot_merge_head C spb (block * spb - base0) rd_area
              (boot_write_block C er wr (unat spp) block) bsector cnt buf s;
          if res = 0 then boot_write_rest C spp spb base0 rd_area er wr cnt (block + 1)
              (drop (unat (spb - bsector) * 512) buf) (Some cache) s
          else Some (res, s)
        } else boot_write_rest C spp spb base0 rd_area er wr cnt block buf None s
      })"

section \<open>The exported calls\<close>

text \<open>\<open>oobbuf\<close> is \<open>NULL\<close> in every operation of the boot area.\<close>

definition boot_reader :: "cfg \<Rightarrow> 'h nfc_hw \<Rightarrow> bool \<Rightarrow> 'h nst page_reader" where
  "boot_reader C H bootnum op main s = do {
     (ret, main, oob, s) \<leftarrow>
       (if bootnum then read_single_page C H op 0 main None s else read_single_page_1K C H op 0 main None s);
     Some (ret, main, s)
   }"

definition boot_writer :: "cfg \<Rightarrow> 'h nfc_hw \<Rightarrow> bool \<Rightarrow> 'h nst page_writer" where
  "boot_writer C H bootnum op main s =
     (if bootnum then PHY_SimpleWrite C H op main None s else PHY_SimpleWrite_1K C H op main None s)"

definition sectcnt_in_page :: "cfg \<Rightarrow> bool \<Rightarrow> u32" where
  "sectcnt_in_page C bootnum = (if bootnum then of_nat (SECTOR_CNT_OF_SINGLE_PAGE C) else 2)"

definition PHY_Boot0Read ::
  "cfg \<Rightarrow> 'h nfc_hw \<Rightarrow> u32 \<Rightarrow> u32 \<Rightarrow> u8 list \<Rightarrow> 'h nst \<Rightarrow> (int \<times> u8 list \<times> 'h nst) option" where
  "PHY_Boot0Read C H first cnt buf =
     bootarea_read C (sectcnt_in_page C False) (boot_reader C H False) first cnt buf False"

definition PHY_Boot1Read ::
  "cfg \<Rightarrow> 'h nfc_hw \<Rightarrow> u32 \<Rightarrow> u32 \<Rightarrow> u8 list \<Rightarrow> 'h nst \<Rightarrow> (int \<times> u8 list \<times> 'h nst) option" where
  "PHY_Boot1Read C H first cnt buf =
     bootarea_read C (sectcnt_in_page C True) (boot_reader C H True) first cnt buf True"

definition PHY_Boot0Write ::
  "cfg \<Rightarrow> 'h nfc_hw \<Rightarrow> u32 \<Rightarrow> u32 \<Rightarrow> u8 list \<Rightarrow> 'h nst \<Rightarrow> (int \<times> 'h nst) option" where
  "PHY_Boot0Write C H first cnt buf =
     bootarea_write C (sectcnt_in_page C False) (boot_reader C H False) (PHY_SimpleErase C H)
       (boot_writer C H False) first cnt buf False"

definition PHY_Boot1Write ::
  "cfg \<Rightarrow> 'h nfc_hw \<Rightarrow> u32 \<Rightarrow> u32 \<Rightarrow> u8 list \<Rightarrow> 'h nst \<Rightarrow> (int \<times> 'h nst) option" where
  "PHY_Boot1Write C H first cnt buf =
     bootarea_write C (sectcnt_in_page C True) (boot_reader C H True) (PHY_SimpleErase C H)
       (boot_writer C H True) first cnt buf True"

end
