(* ===== verification/Phy_Invariant.thy ===== *)
theory Phy_Invariant
  imports Phy_Boot
begin

text \<open>
  Invariants of the controller and of the physic layer. \<open>nfc_inv\<close> is the contract of a predicate on the
  state that every access to the hardware keeps, except writes to bit 9 of the ECC control register, the
  randomizer switch: its lemmas carry the predicate through every controller operation. \<open>phys_inv\<close>
  joins two such predicates, one for each position of that switch, and carries them through the
  operations of the physic layer, on every path.
\<close>

section \<open>Steps of the controller\<close>

locale nfc_inv =
  fixes H :: "'h nfc_hw" and I :: "'h nst \<Rightarrow> bool"
  assumes read_reg: "I s \<Longrightarrow> I (snd (NFC_READ_REG H r s))"
    and write_reg: "r \<noteq> NFC_REG_ECC_CTL \<Longrightarrow> I s \<Longrightarrow> I (NFC_WRITE_REG H r w s)"
    and ecc_upd: "(\<And>w. bit (f w) 9 = bit w 9) \<Longrightarrow> I s \<Longrightarrow> I (reg_upd H NFC_REG_ECC_CTL f s)"
    and read_ram: "I s \<Longrightarrow> I (snd (NFC_READ_RAM_B H r s))"
    and write_ram: "I s \<Longrightarrow> I (NFC_WRITE_RAM_B H r b s)"
    and start_dma: "I s \<Longrightarrow> I (s\<lparr>ns_hw := hw_start_dma H rw data len (ns_hw s)\<rparr>)"
    and query_dma: "I s \<Longrightarrow> I (s\<lparr>ns_hw := snd (hw_query_dma H (ns_hw s))\<rparr>)"
begin

text \<open>Rules that walk through a model function; the first that fits by its type is taken.\<close>

lemma let_pair: "I (snd p) \<Longrightarrow> (\<And>a s. I s \<Longrightarrow> post (f a s) Q) \<Longrightarrow> post (Let p (\<lambda>(a, s). f a s)) Q"
  by (cases p) simp

lemma let_state: "I t \<Longrightarrow> (\<And>s. I s \<Longrightarrow> post (f s) Q) \<Longrightarrow> post (Let t f) Q"
  by simp

lemma bind_state: "post m I \<Longrightarrow> (\<And>s. I s \<Longrightarrow> post (f s) Q) \<Longrightarrow> post (m \<bind> f) Q"
  by (cases m) auto

lemma bind_pair: "post m (\<lambda>(a, s). I s) \<Longrightarrow> (\<And>a s. I s \<Longrightarrow> post (f a s) Q) \<Longrightarrow>
  post (m \<bind> (\<lambda>(a, s). f a s)) Q"
  by (cases m) auto

lemma bind_triple: "post m (\<lambda>(a, b, s). I s) \<Longrightarrow> (\<And>a b s. I s \<Longrightarrow> post (f a b s) Q) \<Longrightarrow>
  post (m \<bind> (\<lambda>(a, b, s). f a b s)) Q"
  by (cases m) auto

lemma bind_quad: "post m (\<lambda>(a, b, c, s). I s) \<Longrightarrow> (\<And>a b c s. I s \<Longrightarrow> post (f a b c s) Q) \<Longrightarrow>
  post (m \<bind> (\<lambda>(a, b, c, s). f a b c s)) Q"
  by (cases m) auto

lemma bind_quint: "post m (\<lambda>(a, b, c, d, s). I s) \<Longrightarrow> (\<And>a b c d s. I s \<Longrightarrow> post (f a b c d s) Q) \<Longrightarrow>
  post (m \<bind> (\<lambda>(a, b, c, d, s). f a b c d s)) Q"
  by (cases m) auto

lemma bind_any: "(\<And>x. post (f x) Q) \<Longrightarrow> post (m \<bind> f) Q"
  by (cases m) auto

lemma bind_any2: "(\<And>x y. post (f x y) Q) \<Longrightarrow> post (m \<bind> (\<lambda>(x, y). f x y)) Q"
  by (cases m) auto

lemma case_any: "(\<And>x y. post (f x y) Q) \<Longrightarrow> post (case p of (x, y) \<Rightarrow> f x y) Q"
  by (cases p) auto

lemma if_state: "(b \<Longrightarrow> I s) \<Longrightarrow> (\<not> b \<Longrightarrow> I t) \<Longrightarrow> I (if b then s else t)"
  by simp

lemma if_snd: "(b \<Longrightarrow> I (snd p)) \<Longrightarrow> (\<not> b \<Longrightarrow> I (snd q)) \<Longrightarrow> I (snd (if b then p else q))"
  by simp

lemma snd_pair: "I s \<Longrightarrow> I (snd (a, s))"
  by simp

lemmas walk_state = let_pair let_state bind_state bind_pair bind_triple bind_quad bind_quint
lemmas walk_any = post_None post_SomeI post_ifI post_letI case_any bind_any2 bind_any if_state if_snd snd_pair case_prodI

lemmas walk = walk_state walk_any

lemma upd_other: "r \<noteq> NFC_REG_ECC_CTL \<Longrightarrow> I s \<Longrightarrow> I (reg_upd H r f s)"
  unfolding reg_upd_def using read_reg [of s r] by (auto simp: split_def Let_def intro!: write_reg)

lemma poll_inv:
  assumes "\<And>s. I s \<Longrightarrow> I (snd (busy s))"
  shows "I s \<Longrightarrow> I (snd (poll busy t s))"
proof (induction t arbitrary: s)
  case (Suc t)
  then show ?case using assms [of s] by (auto split: prod.splits)
qed simp

lemma poll_reg:
  assumes "I s"
  shows "I (snd (poll (\<lambda>s. let (v, s) = NFC_READ_REG H q s in (p v, s)) n s))"
proof (rule poll_inv [OF _ assms])
  fix s assume "I s"
  then show "I (snd (let (v, s) = NFC_READ_REG H q s in (p v, s)))"
    using read_reg [of s q] by (simp add: split_def Let_def)
qed

lemma poll_dma:
  assumes "I s"
  shows "I (snd (poll (\<lambda>s. let (v, h) = hw_query_dma H (ns_hw s) in (p v, s\<lparr>ns_hw := h\<rparr>)) n s))"
proof (rule poll_inv [OF _ assms])
  fix s assume "I s"
  then show "I (snd (let (v, h) = hw_query_dma H (ns_hw s) in (p v, s\<lparr>ns_hw := h\<rparr>)))"
    using query_dma [of s] by (simp add: split_def Let_def)
qed

lemma snd_let_pair: "I (snd p) \<Longrightarrow> (\<And>a s. I s \<Longrightarrow> I (snd (f a s))) \<Longrightarrow> I (snd (Let p (\<lambda>(a, s). f a s)))"
  by (cases p) simp

lemma wait_fifo: "I s \<Longrightarrow> I (snd (wait_cmdfifo_free H s))"
  unfolding wait_cmdfifo_free_def by (rule snd_let_pair poll_reg if_snd snd_pair | assumption)+

lemma wait_finish: "I s \<Longrightarrow> I (snd (wait_cmd_finish H s))"
  unfolding wait_cmd_finish_def
  by (rule snd_let_pair poll_reg if_snd snd_pair upd_other | assumption | simp)+

lemma wait_dma: "I s \<Longrightarrow> I (snd (wait_dma_end H s))"
  unfolding wait_dma_end_def by (rule snd_let_pair poll_dma if_snd snd_pair | assumption)+

lemma dma_tail_inv: "I s \<Longrightarrow> I (snd (dma_tail H d s))"
  by (simp add: dma_tail_def wait_dma)

lemma wait_done: "I s \<Longrightarrow> I (snd (wait_cmd_done H s))"
  unfolding wait_cmd_done_def by (rule snd_let_pair wait_fifo wait_finish snd_pair | assumption)+

lemma quiet: "I s \<Longrightarrow> I (wait_cmd_quiet H s)"
  unfolding wait_cmd_quiet_def by (rule wait_fifo wait_finish | assumption)+

lemma set_addr_inv: "I s \<Longrightarrow> post (set_addr H addr n s) I"
  unfolding set_addr_def by (rule walk write_reg | assumption | simp)+

lemma repeat_enable: "I s \<Longrightarrow> I (nfc_repeat_mode_enable H s)"
  unfolding nfc_repeat_mode_enable_def using read_reg [of s NFC_REG_CTL]
  by (auto simp: split_def Let_def intro!: write_reg)

lemma repeat_disable: "I s \<Longrightarrow> I (nfc_repeat_mode_disable H s)"
  unfolding nfc_repeat_mode_disable_def using read_reg [of s NFC_REG_CTL]
  by (auto simp: split_def Let_def intro!: write_reg)

lemma set_cmds: "I s \<Longrightarrow> post (nfc_set_cmd_register H cs s) (\<lambda>(r, s). I s)"
proof (induction cs arbitrary: s)
  case Nil
  then show ?case by simp
next
  case (Cons c cs)
  show ?case
    unfolding nfc_set_cmd_register.simps using Cons.prems
    by - ((rule walk wait_fifo set_addr_inv write_reg upd_other Cons.IH | assumption | simp)+)
qed

lemma run_cmds_inv: "I s \<Longrightarrow> post (run_cmds H cs s) (\<lambda>(r, s). I s)"
  unfolding run_cmds_def
  by (rule walk set_cmds | assumption | (simp add: split_def, rule wait_done, assumption))+

lemma ecc_bits: "\<not> bit (NFC_ECC_EN :: u32) 9" "\<not> bit (NFC_ECC_PIPELINE :: u32) 9"
  "\<not> bit (0x10 :: u32) 9" "\<not> bit (NFC_ECC_MODE :: u32) 9"
  by simp_all

lemma enable: "I s \<Longrightarrow> I (enable_ecc H p s)"
  unfolding enable_ecc_def
  by (rule ecc_upd) (simp_all add: ecc_on_def Let_def bit_or_iff bit_and_iff bit_not_iff)

lemma disable: "I s \<Longrightarrow> I (disable_ecc H s)"
  unfolding disable_ecc_def
  by (rule ecc_upd) (simp_all add: bit_or_iff bit_and_iff bit_not_iff)

lemma mode_bits: "\<not> bit m 9 \<Longrightarrow> I s \<Longrightarrow> I (set_ecc_mode_bits H m s)"
  unfolding set_ecc_mode_bits_def
  by (rule ecc_upd) (simp_all add: bit_or_iff bit_and_iff bit_not_iff)

lemma old_mode_bits: "I s \<Longrightarrow> I (set_ecc_mode_bits H (v AND 0xf000) s)"
  by (rule mode_bits) (simp_all add: bit_and_iff)

lemma new_mode_bits: "I s \<Longrightarrow> I (set_ecc_mode_bits H 0x1000 s)" "I s \<Longrightarrow> I (set_ecc_mode_bits H 0x8000 s)"
  by (rule mode_bits; simp)+

lemma check_ecc_inv: "I s \<Longrightarrow> post (check_ecc H n s) (\<lambda>(r, s). I s)"
  unfolding check_ecc_def by (rule walk read_reg | assumption)+

lemma get_user_data_inv: "I s \<Longrightarrow> I (snd (get_user_data H n i s))"
proof (induction n arbitrary: i s)
  case (Suc n)
  show ?case
    unfolding get_user_data.simps
    by (rule snd_let_pair read_reg Suc.IH Suc.prems snd_pair | assumption)+
qed simp

lemma set_user_data_inv: "I s \<Longrightarrow> post (set_user_data H sp n i s) I"
proof (induction n arbitrary: i s)
  case (Suc n)
  show ?case
    unfolding set_user_data.simps by (rule bind_any Suc.IH write_reg Suc.prems | simp)+
qed simp

lemma read_regs_inv: "I s \<Longrightarrow> post (read_regs H a r n s) I"
  unfolding read_regs_def by (rule set_addr_inv write_reg | assumption | simp)+

lemma write_regs_inv: "I s \<Longrightarrow> post (write_regs H a r n sp s) I"
  unfolding write_regs_def
  by (rule bind_state set_user_data_inv set_addr_inv write_reg | assumption | simp)+

lemma dma_start_inv: "I s \<Longrightarrow> I (dma_start H rw d n s)"
  by (simp add: dma_start_def start_dma)

lemmas steps = wait_fifo wait_done dma_tail_inv quiet check_ecc_inv get_user_data_inv read_regs_inv
  write_regs_inv read_reg write_reg upd_other enable disable old_mode_bits new_mode_bits dma_start_inv

section \<open>Page operations\<close>

lemma read_page: "I s \<Longrightarrow> post (read_in_page_mode H cs d s) (\<lambda>(r, m, sp, s). I s)"
  unfolding read_in_page_mode_def by (rule walk steps | assumption | simp)+

lemma read_seq: "I s \<Longrightarrow> post (read_in_page_mode_seq H cs d s) (\<lambda>(r, m, sp, s). I s)"
  unfolding read_in_page_mode_seq_def by (rule walk steps | assumption | simp)+

lemma read_1K: "I s \<Longrightarrow> post (read_in_page_mode_1K H cs d s) (\<lambda>(r, m, sp, s). I s)"
  unfolding read_in_page_mode_1K_def by (rule walk steps | assumption | simp)+

lemma read_spare: "I s \<Longrightarrow> post (read_in_page_mode_spare H cs d s) (\<lambda>(r, m, sp, s). I s)"
  unfolding read_in_page_mode_spare_def by (rule walk steps | assumption | simp)+

lemma to_ahb_inv: "I s \<Longrightarrow> post (to_ahb H (r, m, sp, s)) (\<lambda>(r, m, sp, s). I s)"
  by (simp add: to_ahb_def upd_other)

lemma ahb_bind:
  assumes "post m (\<lambda>(r, m, sp, s). I s)"
  shows "post (m \<bind> to_ahb H) (\<lambda>(r, m, sp, s). I s)"
  unfolding post_bind using assms by (rule post_mono) (auto simp: to_ahb_inv)

lemma NFC_reads:
  "I s \<Longrightarrow> post (NFC_Read H cs d pm s) (\<lambda>(r, m, sp, s). I s)"
  "I s \<Longrightarrow> post (NFC_Read_Seq H cs d pm s) (\<lambda>(r, m, sp, s). I s)"
  "I s \<Longrightarrow> post (NFC_Read_1K H cs d pm s) (\<lambda>(r, m, sp, s). I s)"
  "I s \<Longrightarrow> post (NFC_Read_Spare H cs d pm s) (\<lambda>(r, m, sp, s). I s)"
  unfolding NFC_Read_def NFC_Read_Seq_def NFC_Read_1K_def NFC_Read_Spare_def
  by (rule ahb_bind read_page read_seq read_1K read_spare, assumption?)+

lemma into_bufs_inv:
  "(\<And>s. I s \<Longrightarrow> post (rd s) (\<lambda>(r, m, sp, s). I s)) \<Longrightarrow> I s \<Longrightarrow>
   post (into_bufs rd m sp s) (\<lambda>(r, m, sp, s). I s)"
  unfolding into_bufs_def by (rule walk | assumption)+

lemma write_page: "I s \<Longrightarrow> post (NFC_Write H cs m sp d rb pm s) (\<lambda>(r, s). I s)"
  unfolding NFC_Write_def by (rule walk steps | assumption | simp)+

lemma write_seq: "I s \<Longrightarrow> post (NFC_Write_Seq H cs m sp d rb pm s) (\<lambda>(r, s). I s)"
  unfolding NFC_Write_Seq_def by (rule walk steps | assumption | simp)+

lemma write_1K: "I s \<Longrightarrow> post (NFC_Write_1K H cs m sp d rb pm s) (\<lambda>(r, s). I s)"
  unfolding NFC_Write_1K_def by (rule walk steps | assumption | simp)+

lemma get_status: "I s \<Longrightarrow> post (NFC_GetStatus H cs s) (\<lambda>(r, s). I s)"
  unfolding NFC_GetStatus_def
  by (rule walk steps set_cmds repeat_enable repeat_disable read_ram | assumption | simp)+

lemma cmd_runs:
  "I s \<Longrightarrow> post (NFC_Erase H cs rb s) (\<lambda>(r, s). I s)"
  "I s \<Longrightarrow> post (NFC_CopyBackRead H cs s) (\<lambda>(r, s). I s)"
  "I s \<Longrightarrow> post (NFC_CopyBackWrite H cs rb s) (\<lambda>(r, s). I s)"
  "I s \<Longrightarrow> post (NFC_ResetChip H cs s) (\<lambda>(r, s). I s)"
  unfolding NFC_Erase_def NFC_CopyBackRead_def NFC_CopyBackWrite_def NFC_ResetChip_def
  by (rule run_cmds_inv, assumption)+

section \<open>Vendor commands and read retry\<close>

lemma send_cmd_inv: "I s \<Longrightarrow> I (snd (send_cmd H c s))"
  by (simp add: send_cmd_def wait_done write_reg)

lemma vender_set_one_inv: "I s \<Longrightarrow> post (vender_set_one H c p a s) I"
  unfolding vender_set_one_def
  by (rule walk steps write_ram set_addr_inv repeat_enable repeat_disable | assumption | simp)+

lemma vender_set_loop_inv: "I s \<Longrightarrow> post (vender_set_loop H cw ce para addr n i s) (\<lambda>(r, s). I s)"
proof (induction n arbitrary: i s)
  case (Suc n)
  show ?case
    unfolding vender_set_loop.simps using Suc.prems
    by - ((rule walk vender_set_one_inv steps send_cmd_inv Suc.IH | assumption)+)
qed simp

lemma vender_set: "I s \<Longrightarrow> post (vender_set_param H para addr n s) (\<lambda>(r, s). I s)"
  unfolding vender_set_param_def
  by (rule walk vender_set_loop_inv send_cmd_inv | assumption | simp add: split_def send_cmd_inv)+

lemma cmu_clk: "I s \<Longrightarrow> post (NAND_GetCmuClk H s) (\<lambda>(r, s). I s)"
  unfolding NAND_GetCmuClk_def by (rule walk steps | assumption | simp)+

lemma set_clock: "I s \<Longrightarrow> post (NAND_SetClock H c s) (\<lambda>(r, s). I s)"
  unfolding NAND_SetClock_def by (rule walk cmu_clk steps | assumption | simp)+

lemma get_clock: "I s \<Longrightarrow> post (NAND_GetClock H s) (\<lambda>(r, s). I s)"
  unfolding NAND_GetClock_def by (rule walk cmu_clk steps | assumption | simp)+

lemma pre_condition: "I s \<Longrightarrow> I (snd (vender_pre_condition H s))"
  unfolding vender_pre_condition_def by (rule if_snd snd_let_pair send_cmd_inv snd_pair | assumption)+

lemma read_retry: "I s \<Longrightarrow> post (NFC_ReadRetry C H chip n s) (\<lambda>(r, s). I s)"
  unfolding NFC_ReadRetry_def
  by (rule walk vender_set set_clock get_clock pre_condition | assumption)+

lemma set_default: "I s \<Longrightarrow> post (NFC_SetDefaultParam H chip v s) (\<lambda>(r, v, s). I s)"
  unfolding NFC_SetDefaultParam_def by (rule walk vender_set | assumption)+

section \<open>Steps of the physic layer\<close>

lemma select: "I s \<Longrightarrow> I (select_chip_rb C H chip s)"
  by (simp add: select_chip_rb_def NFC_SelectChip_def NFC_SelectRb_def upd_other)

lemma deselect: "I s \<Longrightarrow> I (deselect_chip_rb C chip s)"
  by (simp add: deselect_chip_rb_def NFC_DeSelectChip_def NFC_DeSelectRb_def)

lemma rb_busy_inv: "I s \<Longrightarrow> I (snd (rb_busy H rb s))"
  unfolding rb_busy_def NFC_CheckRbReady_def using read_reg [of s NFC_REG_ST]
  by (simp add: split_def Let_def)

lemma wait_ready: "I s \<Longrightarrow> I (snd (wait_rb_ready C H chip s))"
  unfolding wait_rb_ready_def by (rule snd_let_pair poll_inv rb_busy_inv if_snd snd_pair | assumption)+

lemma read_status_inv: "I s \<Longrightarrow> post (read_status C H cmd bank s) (\<lambda>(r, s). I s)"
  by (simp add: read_status_def Let_def get_status)

lemma reset_chip: "I s \<Longrightarrow> post (PHY_ResetChip H chip s) (\<lambda>(r, s). I s)"
  unfolding PHY_ResetChip_def NFC_SelectChip_def NFC_SelectRb_def NFC_DeSelectChip_def
  by (rule walk cmd_runs poll_inv rb_busy_inv upd_other | assumption | simp)+

lemma synch_loop_inv: "I s \<Longrightarrow> post (synch_loop C H cmd bank t s) (\<lambda>(r, s). I s)"
proof (induction t arbitrary: s)
  case 0
  show ?case unfolding synch_loop.simps using 0 by - ((rule walk read_status_inv | assumption)+)
next
  case (Suc t)
  show ?case
    unfolding synch_loop.simps using Suc.prems by - ((rule walk read_status_inv Suc.IH | assumption)+)
qed

lemma synch_bank: "I s \<Longrightarrow> post (phys_SynchBank C H b m s) (\<lambda>(r, s). I s)"
  unfolding phys_SynchBank_def
  by (rule walk synch_loop_inv select | assumption | auto split: sum.split intro: deselect)+

lemma block_erase: "I s \<Longrightarrow> post (phys_BlockErase C H op s) (\<lambda>(r, s). I s)"
  unfolding phys_BlockErase_def
  by (rule walk cmd_runs select deselect wait_ready | assumption)+

lemma leave_retry_inv: "I s \<Longrightarrow> post (leave_retry C H chip s) I"
  unfolding leave_retry_def by (rule walk reset_chip set_default | assumption)+

lemma copy_back_run_inv: "I s \<Longrightarrow> post (copy_back_run C H chip rc wc s) (\<lambda>(r, s). I s)"
  unfolding copy_back_run_def
  by (rule walk cmd_runs select deselect wait_ready | assumption)+
end

section \<open>Operations under the randomizer\<close>

locale phys_inv = off: nfc_inv H "J False" + on: nfc_inv H "J True"
  for H :: "'h nfc_hw" and J :: "bool \<Rightarrow> 'h nst \<Rightarrow> bool" +
  assumes random_enable: "J False s \<Longrightarrow> J True (NFC_RandomEnable H s)"
    and random_disable: "J True s \<Longrightarrow> J False (NFC_RandomDisable H s)"
    and frame: "ns_hw t = ns_hw s \<Longrightarrow> ns_PageCache0 t = ns_PageCache0 s \<Longrightarrow>
      ns_SpareCache t = ns_SpareCache s \<Longrightarrow> J False s \<Longrightarrow> J False t"
begin

lemma random_on_inv: "J False s \<Longrightarrow> J True (random_on H seed s)"
  unfolding random_on_def NFC_SetRandomSeed_def
  by (rule random_enable off.ecc_upd | assumption | simp add: bit_or_iff bit_and_iff bit_push_bit_iff)+

lemma let_on: "J False t \<Longrightarrow> (\<And>s. J True s \<Longrightarrow> post (f s) Q) \<Longrightarrow> post (Let (random_on H seed t) f) Q"
  by (simp add: random_on_inv)

lemma let_off: "J True t \<Longrightarrow> (\<And>s. J False s \<Longrightarrow> post (f s) Q) \<Longrightarrow> post (Let (NFC_RandomDisable H t) f) Q"
  by (simp add: random_disable)

lemma bind_on: "J True s \<Longrightarrow> (\<And>s. J True s \<Longrightarrow> post (rd s) (\<lambda>(r, m, sp, s). J True s)) \<Longrightarrow>
  (\<And>a b c s. J True s \<Longrightarrow> post (f a b c s) Q) \<Longrightarrow>
  post (into_bufs rd m sp s \<bind> (\<lambda>(a, b, c, s). f a b c s)) Q"
  by (rule on.bind_quad [OF on.into_bufs_inv])

lemma bind_write: "J True s \<Longrightarrow> (\<And>r s. J True s \<Longrightarrow> post (f r s) Q) \<Longrightarrow>
    post (NFC_Write H cs m sp d rb pm s \<bind> (\<lambda>(r, s). f r s)) Q"
  and bind_write_seq: "J True s \<Longrightarrow> (\<And>r s. J True s \<Longrightarrow> post (f r s) Q) \<Longrightarrow>
    post (NFC_Write_Seq H cs m sp d rb pm s \<bind> (\<lambda>(r, s). f r s)) Q"
  and bind_write_1K: "J True s \<Longrightarrow> (\<And>r s. J True s \<Longrightarrow> post (f r s) Q) \<Longrightarrow>
    post (NFC_Write_1K H cs m sp d rb pm s \<bind> (\<lambda>(r, s). f r s)) Q"
  by (rule on.bind_pair, rule on.write_page on.write_seq on.write_1K, assumption+)+

lemma some_off: "J True s \<Longrightarrow> post (Some (r, NFC_RandomDisable H s)) (\<lambda>(r, s). J False s)"
  by (simp add: random_disable)

lemmas random_walk = let_on let_off bind_on bind_write bind_write_seq bind_write_1K some_off off.walk
lemmas random_steps = on.NFC_reads off.NFC_reads off.into_bufs_inv off.write_page off.write_seq
  random_disable off.wait_ready off.select off.deselect

lemma read_attempt_inv: "J False s \<Longrightarrow> post (read_attempt C H chk op dma m sp s) (\<lambda>(r, m, sp, s). J False s)"
  unfolding read_attempt_def by (rule random_walk random_steps | assumption)+

lemma spare_attempt_inv: "J False s \<Longrightarrow> post (spare_attempt C H chk op dma m sp s) (\<lambda>(r, m, sp, s). J False s)"
  unfolding spare_attempt_def by (rule random_walk random_steps | assumption)+

lemma fixed_seed_inv:
  assumes "\<And>s. J True s \<Longrightarrow> post (rd s) (\<lambda>(r, m, sp, s). J True s)"
    and "\<And>s. J False s \<Longrightarrow> post (rd s) (\<lambda>(r, m, sp, s). J False s)"
  shows "J False s \<Longrightarrow> post (fixed_seed_read C H rd op main oob s) (\<lambda>(r, m, b, s). J False s)"
  unfolding fixed_seed_read_def by (rule random_walk random_steps assms | assumption)+

lemma write_page_inv:
  "J False s \<Longrightarrow> post (write_signle_page C H op p1 p2 d rb main oob s) (\<lambda>(r, s). J False s)"
  unfolding write_signle_page_def by (rule random_walk random_steps | assumption)+

lemma write_page_seq_inv:
  "J False s \<Longrightarrow> post (write_signle_page_seq C H op p1 p2 d rb main oob s) (\<lambda>(r, s). J False s)"
  unfolding write_signle_page_seq_def by (rule random_walk random_steps | assumption)+

lemma write_page_1K_inv:
  "J False s \<Longrightarrow> post (write_signle_page_1K C H op p1 p2 d rb main oob s) (\<lambda>(r, s). J False s)"
  unfolding write_signle_page_1K_def by (rule random_walk random_steps | assumption)+

lemma counts_frame: "J False s \<Longrightarrow> J False (s\<lparr>ns_RetryCount := r\<rparr>)"
  and tmp_frame: "J False s \<Longrightarrow> J False (s\<lparr>ns_TmpPageCache := p\<rparr>)"
  by (rule frame; simp)+

lemma retry_loop_inv:
  assumes "\<And>m sp s. J False s \<Longrightarrow> post (att m sp s) (\<lambda>(r, m, sp, s). J False s)"
  shows "J False s \<Longrightarrow> post (retry_loop C H chip att n k m sp s) (\<lambda>(a, r, m, sp, s). J False s)"
proof (induction n arbitrary: k m sp s)
  case 0
  show ?case
    unfolding retry_loop.simps [of C H chip att 0] nat.case using 0
    by - ((rule off.walk off.read_retry off.leave_retry_inv assms counts_frame | assumption)+)
next
  case (Suc n)
  show ?case
    unfolding retry_loop.simps [of C H chip att "Suc n"] nat.case using Suc.prems
    by - ((rule off.walk off.read_retry off.leave_retry_inv assms counts_frame Suc.IH | assumption)+)
qed

lemma with_retry_inv:
  assumes "\<And>chk m sp s. J False s \<Longrightarrow> post (att chk m sp s) (\<lambda>(r, m, sp, s). J False s)"
  shows "J False s \<Longrightarrow> post (read_with_retry C H chip att m sp s) (\<lambda>(a, r, m, sp, s). J False s)"
  unfolding read_with_retry_def
  by (rule off.walk retry_loop_inv assms counts_frame | assumption)+

lemmas single_steps = off.walk off.wait_ready off.select off.deselect with_retry_inv read_attempt_inv
  spare_attempt_inv tmp_frame

lemma single_inv: "J False s \<Longrightarrow> post (read_single_page C H op d m b s) (\<lambda>(r, m, b, s). J False s)"
  unfolding read_single_page_def by (rule single_steps | assumption)+

lemma single_spare_inv:
  "J False s \<Longrightarrow> post (read_single_page_spare C H op d m b s) (\<lambda>(r, m, b, s). J False s)"
  unfolding read_single_page_spare_def by (rule single_steps | assumption)+

lemma sectors_inv: "J False s \<Longrightarrow> post (read_sectors C H op d m b s) (\<lambda>(r, m, b, s). J False s)"
  unfolding read_sectors_def by (rule single_steps | assumption)+


lemma on_plane_inv:
  assumes "\<And>m b s. J False s \<Longrightarrow> post (f m b s) (\<lambda>(r, m, b, s). J False s)"
  shows "J False s \<Longrightarrow> post (on_plane C i f m b s) (\<lambda>(r, m, b, s). J False s)"
  unfolding on_plane_def by (rule off.walk assms | assumption)+

lemma read_planes_inv:
  assumes "\<And>rop m b s. J False s \<Longrightarrow> post (part rop m b s) (\<lambda>(r, m, b, s). J False s)"
  shows "J False s \<Longrightarrow> post (read_planes C H part op chip blk n i ret m b s) (\<lambda>(r, m, b, s). J False s)"
proof (induction n arbitrary: i ret m b s)
  case (Suc n)
  show ?case
    unfolding read_planes.simps using Suc.prems
    by - ((rule off.walk on_plane_inv single_inv assms Suc.IH | assumption)+)
qed simp

lemma two_plane_loop_inv:
  "J False s \<Longrightarrow> post (two_plane_loop C H op chip blk n i ret m b s) (\<lambda>(r, m, b, s). J False s)"
proof (induction n arbitrary: i ret m b s)
  case (Suc n)
  show ?case
    unfolding two_plane_loop.simps using Suc.prems
    by - ((rule off.walk on_plane_inv sectors_inv Suc.IH | assumption)+)
qed simp

lemma two_plane_inv: "J False s \<Longrightarrow> post (two_plane_read C H op m b s) (\<lambda>(r, m, b, s). J False s)"
  unfolding two_plane_read_def
  by (rule off.walk off.wait_ready off.select off.deselect off.NFC_reads two_plane_loop_inv | assumption)+

lemma by_planes_inv:
  assumes "\<And>rop m b s. J False s \<Longrightarrow> post (part rop m b s) (\<lambda>(r, m, b, s). J False s)"
  shows "J False s \<Longrightarrow> post (read_by_planes C H part op m b s) (\<lambda>(r, m, b, s). J False s)"
  unfolding read_by_planes_def by (rule off.walk read_planes_inv assms | assumption)+

lemma page_read: "J False s \<Longrightarrow> post (phys_PageRead C H op m b s) (\<lambda>(r, m, b, s). J False s)"
  unfolding phys_PageRead_def by (rule off.walk two_plane_inv by_planes_inv sectors_inv | assumption)+

lemma page_read_spare: "J False s \<Longrightarrow> post (phys_PageReadSpare C H op m b s) (\<lambda>(r, m, b, s). J False s)"
  unfolding phys_PageReadSpare_def by (rule by_planes_inv single_spare_inv | assumption)+

lemma write_planes_inv:
  "J False s \<Longrightarrow> post (write_planes C H op chip blk n i ret m b s) (\<lambda>(r, s). J False s)"
proof (induction n arbitrary: i ret s)
  case (Suc n)
  show ?case
    unfolding write_planes.simps using Suc.prems
    by - ((rule off.walk off.wait_ready write_page_inv Suc.IH | assumption)+)
qed simp

lemma page_write: "J False s \<Longrightarrow> post (phys_PageWrite C H op m b s) (\<lambda>(r, s). J False s)"
  unfolding phys_PageWrite_def by (rule off.walk write_planes_inv | assumption)+

lemma single_copy: "J False s \<Longrightarrow> post (single_copy_back C H src dst s) (\<lambda>(r, s). J False s)"
  unfolding single_copy_back_def
  by (rule off.bind_any)
    (auto split: sum.split simp del: add_cmd_list_def intro!: off.copy_back_run_inv)

lemma multi_copy: "J False s \<Longrightarrow> post (multi_copy_back C H src dst s) (\<lambda>(r, s). J False s)"
  unfolding multi_copy_back_def
  by (rule off.bind_any)
    (auto split: sum.split intro!: off.copy_back_run_inv off.bind_any)

lemma copy_page:
  assumes "\<And>m b s. J False s \<Longrightarrow> J False (s\<lparr>ns_PageCache0 := m, ns_SpareCache := b\<rparr>)"
  shows "J False s \<Longrightarrow> post (phys_PageCopyback C H src dst s) (\<lambda>(r, s). J False s)"
  unfolding phys_PageCopyback_def
  by (rule off.walk page_read page_write single_copy multi_copy assms | assumption)+

end

end
