(* ===== verification/Phy_Props.thy ===== *)
theory Phy_Props
  imports Phy_Boot Sample_Device
begin

text \<open>
  What the physic layer's addresses promise: the address cycles of a page decode to its block, page and
  column, and on a two plane chip different (bank, super block, plane) are different blocks.
\<close>

section \<open>Address cycles\<close>

definition addr_column :: "u32 \<times> u32 \<Rightarrow> u32" where
  "addr_column w = fst w AND 0xffff"

definition addr_row :: "u32 \<times> u32 \<Rightarrow> u32" where
  "addr_row w = drop_bit 16 (fst w) OR push_bit 16 (snd w AND 0xff)"

lemma addr_words5:
  "addr_words [a, b, c, d, e] 5 0 0 0 =
   Some (ucast a OR push_bit 8 (ucast b) OR push_bit 16 (ucast c) OR push_bit 24 (ucast d), ucast e)"
  by (simp add: numeral_eq_Suc arr_get_def or.assoc)

lemma and_ff: "(w :: u32) AND 0xff = take_bit 8 w"
  by (simp add: take_bit_eq_mask mask_eq_exp_minus_1)

lemma and_ffff: "(w :: u32) AND 0xffff = take_bit 16 w"
  by (simp add: take_bit_eq_mask mask_eq_exp_minus_1)

lemma word_bit_below:
  assumes "unat (w :: u32) < 2 ^ k" and "bit w n" shows "n < k"
proof (rule ccontr)
  assume "\<not> n < k"
  then have "unat w < 2 ^ n"
    using assms(1) by (meson less_le_trans linorder_not_less one_le_numeral power_increasing)
  then have "unat (drop_bit n w) = 0"
    unfolding unsigned_drop_bit_eq by (simp add: drop_bit_eq_div take_bit_eq_mod)
  then have "drop_bit n w = 0" by (simp add: unat_eq_0)
  then have "\<not> bit (drop_bit n w) 0" by simp
  then show False using assms(2) by (simp only: bit_drop_bit_eq) simp
qed

lemma addr5_column_row:
  assumes "unat row < 2 ^ 24" and "unat column < 2 ^ 16"
  shows "\<exists>w. addr_words (addr_bytes column row 5) 5 0 0 0 = Some w
     \<and> addr_column w = column \<and> addr_row w = row"
proof -
  note r = word_bit_below [OF assms(1)] and c = word_bit_below [OF assms(2)]
  note bits = and_ff and_ffff bit_or_iff bit_push_bit_iff bit_drop_bit_eq bit_ucast_iff bit_take_bit_iff
  define low where "low = ucast (ucast (column AND 0xff) :: u8)
     OR push_bit 8 (ucast (ucast (drop_bit 8 column AND 0xff) :: u8))
     OR push_bit 16 (ucast (ucast (row AND 0xff) :: u8))
     OR (push_bit 24 (ucast (ucast (drop_bit 8 row AND 0xff) :: u8)) :: u32)"
  define high where "high = (ucast (ucast (drop_bit 16 row AND 0xff) :: u8) :: u32)"
  have w: "addr_words (addr_bytes column row 5) 5 0 0 0 = Some (low, high)"
    by (simp add: addr_bytes_def Let_def addr_words5 low_def high_def)
  have lc: "bit low n \<longleftrightarrow> bit column n" if "n < 16" for n
    using that unfolding low_def by (cases "n < 8") (auto simp: bits)
  have lr: "bit low (16 + n) \<longleftrightarrow> bit row n" if "n < 16" for n
    using that unfolding low_def by (cases "n < 8") (auto simp: bits)
  have hr: "bit high n \<longleftrightarrow> bit row (16 + n)" if "n < 8" for n
    using that unfolding high_def by (simp add: bits)
  have "addr_column (low, high) = column"
    by (rule bit_word_eqI) (auto simp: addr_column_def bits lc dest: c intro: lc [THEN iffD2])
  moreover have "addr_row (low, high) = row"
  proof (rule bit_word_eqI)
    fix n assume "n < LENGTH(32)"
    show "bit (addr_row (low, high)) n \<longleftrightarrow> bit row n"
      using lr [of n] hr [of "n - 16"] r [of n] bit_imp_le_length [of low "16 + n"]
      by (cases "n < 16"; cases "n < 24") (auto simp: addr_row_def bits)
  qed
  ultimately show ?thesis using w by blast
qed

lemma unat_row_addr:
  assumes "unat block * PAGE_CNT_OF_PHY_BLK C + unat page < 2 ^ 24"
  shows "unat (row_addr C block page) = unat block * PAGE_CNT_OF_PHY_BLK C + unat page"
proof -
  have p: "unat (of_nat (PAGE_CNT_OF_PHY_BLK C) :: u32) = PAGE_CNT_OF_PHY_BLK C"
    using unat_u16_bound [of "PageCntPerPhyBlk (storage C)"]
    unfolding PAGE_CNT_OF_PHY_BLK_def unat_of_nat by (simp del: unat_u16_bound)
  have "row_addr C block page = of_nat (unat block * PAGE_CNT_OF_PHY_BLK C + unat page)"
    by (simp add: row_addr_def)
  then show ?thesis using assms by (simp only: unat_of_nat) simp
qed

text \<open>C13: the five address cycles of a page, as \<open>_set_addr\<close> packs them into the controller's address registers,
  give back the byte column of the sector and, by division, the block and the page.\<close>

theorem chip_address_roundtrip:
  assumes "unat block * PAGE_CNT_OF_PHY_BLK C + unat page < 2 ^ 24"
    and "unat page < PAGE_CNT_OF_PHY_BLK C" and "unat sector < 128"
  shows "\<exists>w. addr_words (cal_addr_in_chip C block page sector 5) 5 0 0 0 = Some w
     \<and> unat (addr_column w) = 512 * unat sector
     \<and> unat (addr_row w) div PAGE_CNT_OF_PHY_BLK C = unat block
     \<and> unat (addr_row w) mod PAGE_CNT_OF_PHY_BLK C = unat page"
proof -
  have "512 * sector = (of_nat (512 * unat sector) :: u32)" by simp
  then have c: "unat (512 * sector) = 512 * unat sector"
    using assms(3) by (simp only: unat_of_nat) simp
  have "unat (row_addr C block page) < 2 ^ 24" "unat (512 * sector) < 2 ^ 16"
    using assms by (simp_all add: unat_row_addr c)
  from addr5_column_row [OF this] obtain w where
    "addr_words (cal_addr_in_chip C block page sector 5) 5 0 0 0 = Some w"
    "addr_column w = 512 * sector" "addr_row w = row_addr C block page"
    by (auto simp: cal_addr_in_chip_def Let_def addr_bytes_def)
  then show ?thesis using assms(1,2) by (simp add: c unat_row_addr)
qed

theorem chip_address_roundtrip_witness:
  "\<exists>w. addr_words (cal_addr_in_chip sample_cfg 0x123 3 1 5) 5 0 0 0 = Some w
     \<and> unat (addr_column w) = 512 \<and> unat (addr_row w) div 4 = 0x123 \<and> unat (addr_row w) mod 4 = 3"
  using chip_address_roundtrip [where C = sample_cfg and block = "0x123" and page = 3 and sector = 1] by simp

section \<open>Blocks of a chip\<close>

definition multi_plane_cfg :: "cfg \<Rightarrow> bool" where
  "multi_plane_cfg C \<longleftrightarrow> SUPPORT_MULTI_PROGRAM C \<and> PLANE_CNT_OF_DIE C = 2
     \<and> 0 < BNK_CNT_OF_CHIP C \<and> unat (BNK_CNT_OF_CHIP C) \<le> DIE_CNT_OF_CHIP C
     \<and> 0 < MULTI_PLANE_BLOCK_OFFSET C
     \<and> BLOCK_CNT_OF_DIE C mod (2 * unat (MULTI_PLANE_BLOCK_OFFSET C)) = 0"

text \<open>The block of the chip that holds plane \<open>i\<close> of super block \<open>sb\<close> of bank \<open>b\<close>, as the page operations
  compute it.\<close>

definition plane_block :: "cfg \<Rightarrow> nat \<times> nat \<times> nat \<Rightarrow> nat option" where
  "plane_block C = (\<lambda>(b, sb, i). map_option
     (\<lambda>blk. unat (blk + of_nat i * MULTI_PLANE_BLOCK_OFFSET C))
     (cal_block_in_chip C (of_nat b) (of_nat sb)))"

lemma two_plane_place:
  fixes k :: nat
  assumes "0 < k" and "N mod (2 * k) = 0" and "sb < N div 2" and "i < 2"
  shows "sb * 2 - sb mod k + i * k < N"
    and "sb * 2 - sb mod k + i * k = (2 * (sb div k) + i) * k + sb mod k"
proof -
  define q r where "q = sb div k" and "r = sb mod k"
  have sb: "sb = q * k + r" and r: "r < k" using assms(1) by (simp_all add: q_def r_def)
  show e: "sb * 2 - sb mod k + i * k = (2 * (sb div k) + i) * k + sb mod k"
    by (simp add: algebra_simps sb [symmetric] flip: q_def r_def) (simp add: sb algebra_simps)
  from assms(2) obtain m where m: "N = 2 * k * m" by (metis mod_0_imp_dvd dvdE)
  then have "sb < m * k" using assms(3) by (simp add: mult.commute)
  then have "q < m" using sb r assms(1) by (metis add_lessD1 mult_less_cancel2)
  then have "2 * q + i + 1 \<le> 2 * m" using assms(4) by simp
  then have "(2 * q + i + 1) * k \<le> 2 * m * k" by (rule mult_le_mono1)
  then show "sb * 2 - sb mod k + i * k < N" unfolding e
    using r by (simp add: m algebra_simps flip: q_def r_def)
qed

lemma place_inj:
  fixes k :: nat
  assumes "0 < k" and "(2 * (sb div k) + i) * k + sb mod k = (2 * (sb' div k) + i') * k + sb' mod k"
    and "i < 2" and "i' < 2"
  shows "sb = sb' \<and> i = i'"
proof -
  have "sb mod k = sb' mod k \<and> 2 * (sb div k) + i = 2 * (sb' div k) + i'"
    using mult_add_inj [of "sb mod k" k "sb' mod k" "2 * (sb div k) + i" "2 * (sb' div k) + i'"] assms(1,2)
    by (simp add: add.commute)
  moreover from this have "sb div k = sb' div k \<and> i = i'"
    using mult_add_inj [of i 2 i' "sb div k" "sb' div k"] assms(3,4) by (simp add: mult.commute add.commute)
  ultimately show ?thesis by (metis div_mult_mod_eq)
qed

lemma plane_block_value:
  assumes C: "multi_plane_cfg C" and b: "b < unat (BNK_CNT_OF_CHIP C)" and sb: "sb < BLOCK_CNT_OF_DIE C div 2"
    and i: "i < 2"
  defines "k \<equiv> unat (MULTI_PLANE_BLOCK_OFFSET C)"
  shows "plane_block C (b, sb, i) =
      Some (b * BLOCK_CNT_OF_DIE C + ((2 * (sb div k) + i) * k + sb mod k))"
    and "(2 * (sb div k) + i) * k + sb mod k < BLOCK_CNT_OF_DIE C"
proof -
  let ?N = "BLOCK_CNT_OF_DIE C"
  from C have mp: "SUPPORT_MULTI_PROGRAM C" "PLANE_CNT_OF_DIE C = 2" and k: "0 < k"
    and N: "?N mod (2 * k) = 0" and B: "unat (BNK_CNT_OF_CHIP C) \<le> DIE_CNT_OF_CHIP C"
    and nz: "MULTI_PLANE_BLOCK_OFFSET C \<noteq> 0" "BNK_CNT_OF_CHIP C \<noteq> 0"
    by (auto simp: multi_plane_cfg_def k_def word_less_nat_alt)
  note place = two_plane_place [OF k N sb]
  have N16: "?N < 65536" by (simp add: BLOCK_CNT_OF_DIE_def)
  have D8: "DIE_CNT_OF_CHIP C < 256" by (simp add: DIE_CNT_OF_CHIP_def)
  show lt: "(2 * (sb div k) + i) * k + sb mod k < ?N" using place [OF i] by simp
  have kw: "MULTI_PLANE_BLOCK_OFFSET C = of_nat k" by (simp add: k_def)
  have top: "b * ?N + ?N \<le> DIE_CNT_OF_CHIP C * ?N"
    using b B mult_le_mono1 [of "b + 1" "DIE_CNT_OF_CHIP C" ?N] by simp
  have big: "DIE_CNT_OF_CHIP C * ?N < 2 ^ 24"
    using mult_strict_mono [of "DIE_CNT_OF_CHIP C" 256 ?N 65536] D8 N16 by simp
  let ?base = "b * ?N + (sb * 2 - sb mod k)"
  have base_lt: "?base < DIE_CNT_OF_CHIP C * ?N" using place(1) [of 0] top by simp
  have bmod: "of_nat b mod BNK_CNT_OF_CHIP C = of_nat b"
  proof -
    have "(of_nat b :: u32) < BNK_CNT_OF_CHIP C"
      using b unat_u32_bound [of "BNK_CNT_OF_CHIP C"]
      by (simp add: word_less_nat_alt unat_of_nat del: unat_u32_bound)
    then show ?thesis by (simp add: word_arith_nat_mod word_less_nat_alt)
  qed
  have sbmod: "(of_nat sb :: u32) mod MULTI_PLANE_BLOCK_OFFSET C = of_nat (sb mod k)"
    using sb N16 by (simp add: word_arith_nat_mod k_def unat_of_nat)
  have blk: "of_nat b * of_nat ?N + (of_nat sb * 2 - of_nat (sb mod k)) = (of_nat ?base :: u32)"
    by (simp add: of_nat_diff order_trans [OF mod_less_eq_dividend])
  have ub: "unat (of_nat ?base :: u32) = ?base" "unat (of_nat (DIE_CNT_OF_CHIP C * ?N) :: u32) = DIE_CNT_OF_CHIP C * ?N"
    using base_lt big by (simp_all only: unat_of_nat) simp_all
  have cal: "cal_block_in_chip C (of_nat b) (of_nat sb) = Some (of_nat ?base)"
    using mp nz base_lt
    by (simp add: cal_block_in_chip_def Let_def bmod sbmod blk word_le_nat_alt ub del: of_nat_add of_nat_mult)
  have "unat (of_nat ?base + of_nat i * MULTI_PLANE_BLOCK_OFFSET C) = ?base + i * k"
  proof -
    have "of_nat ?base + of_nat i * MULTI_PLANE_BLOCK_OFFSET C = (of_nat (?base + i * k) :: u32)"
      by (simp add: kw)
    moreover have "?base + i * k < 2 ^ 32" using place(1) [OF i] top big by simp
    ultimately show ?thesis by (simp only: unat_of_nat) simp
  qed
  then show "plane_block C (b, sb, i) = Some (b * ?N + ((2 * (sb div k) + i) * k + sb mod k))"
    using place(2) [OF i] by (simp add: plane_block_def cal)
qed

text \<open>On a two plane chip the blocks the physic layer addresses for every bank of the chip, super block
  and plane are pairwise different blocks inside the chip.\<close>

theorem plane_blocks_distinct:
  assumes "multi_plane_cfg C"
  defines "A \<equiv> {..<unat (BNK_CNT_OF_CHIP C)} \<times> {..<BLOCK_CNT_OF_DIE C div 2} \<times> {..<2}"
  shows "inj_on (plane_block C) A
    \<and> plane_block C ` A \<subseteq> Some ` {..<DIE_CNT_OF_CHIP C * BLOCK_CNT_OF_DIE C}"
proof -
  let ?N = "BLOCK_CNT_OF_DIE C"
  define k where "k = unat (MULTI_PLANE_BLOCK_OFFSET C)"
  have k: "0 < k" and B: "unat (BNK_CNT_OF_CHIP C) \<le> DIE_CNT_OF_CHIP C"
    using assms(1) by (auto simp: multi_plane_cfg_def k_def word_less_nat_alt)
  note pv = plane_block_value [OF assms(1), folded k_def]
  have "inj_on (plane_block C) A"
  proof (rule inj_onI)
    fix x y
    assume xy: "x \<in> A" "y \<in> A" and e0: "plane_block C x = plane_block C y"
    obtain b sb i b' sb' i' where eq: "x = (b, sb, i)" "y = (b', sb', i')" by (metis prod_cases3)
    note e = e0 [unfolded eq]
    from xy eq have "(b, sb, i) \<in> A" "(b', sb', i') \<in> A" by simp_all
    then have in1: "b < unat (BNK_CNT_OF_CHIP C)" "sb < ?N div 2" "i < 2"
      and in2: "b' < unat (BNK_CNT_OF_CHIP C)" "sb' < ?N div 2" "i' < 2" by (auto simp: A_def)
    from e have "(2 * (sb div k) + i) * k + sb mod k + b * ?N = (2 * (sb' div k) + i') * k + sb' mod k + b' * ?N"
      by (simp add: pv(1) [OF in1] pv(1) [OF in2] add.commute)
    note same = mult_add_inj [OF pv(2) [OF in1] pv(2) [OF in2] this]
    from place_inj [OF k same [THEN conjunct1] in1(3) in2(3)] same [THEN conjunct2]
    show "x = y" by (simp only: eq)
  qed
  moreover have "plane_block C (b, sb, i) \<in> Some ` {..<DIE_CNT_OF_CHIP C * ?N}" if "(b, sb, i) \<in> A" for b sb i
  proof -
    from that have in1: "b < unat (BNK_CNT_OF_CHIP C)" "sb < ?N div 2" "i < 2" by (auto simp: A_def)
    have "b * ?N + ?N \<le> DIE_CNT_OF_CHIP C * ?N"
      using in1(1) B mult_le_mono1 [of "b + 1" "DIE_CNT_OF_CHIP C" ?N] by simp
    then show ?thesis using pv [OF in1] by auto
  qed
  then have "plane_block C ` A \<subseteq> Some ` {..<DIE_CNT_OF_CHIP C * ?N}" by (metis image_subsetI prod_cases3)
  ultimately show ?thesis by blast
qed

text \<open>The chip K9LBG08 of \<open>scan/nand_id.c\<close>, one of them on the first ready/busy line.\<close>

definition k9lbg08_cfg :: cfg where
  "k9lbg08_cfg = sample_cfg\<lparr>storage := sample_storage\<lparr>ChipCnt := 1, RbConnectMode := 1,
     BankCntPerChip := 2, DieCntPerChip := 2, SectorCntPerPage := 8, PageCntPerPhyBlk := 128,
     BlkCntPerDie := 4096, OperationOpt := 0x28\<rparr>\<rparr>"

lemma k9lbg08_simps [simp]:
  "SUPPORT_MULTI_PROGRAM k9lbg08_cfg" "PLANE_CNT_OF_DIE k9lbg08_cfg = 2" "BNK_CNT_OF_CHIP k9lbg08_cfg = 2"
  "DIE_CNT_OF_CHIP k9lbg08_cfg = 2" "MULTI_PLANE_BLOCK_OFFSET k9lbg08_cfg = 1"
  "BLOCK_CNT_OF_DIE k9lbg08_cfg = 4096"
  by (simp_all add: k9lbg08_cfg_def sample_cfg_def sample_storage_def SUPPORT_MULTI_PROGRAM_def
      PLANE_CNT_OF_DIE_def BNK_CNT_OF_CHIP_def DIE_CNT_OF_CHIP_def MULTI_PLANE_BLOCK_OFFSET_def
      BLOCK_CNT_OF_DIE_def)

theorem plane_blocks_distinct_witness:
  "inj_on (plane_block k9lbg08_cfg) ({..<2} \<times> {..<2048} \<times> {..<2})"
  using plane_blocks_distinct [of k9lbg08_cfg] by (simp add: multi_plane_cfg_def)

end
