(* ===== verification/Physic_Layer.thy ===== *)
theory Physic_Layer
  imports Phy_Invariant Merge_Total Phy_Props
begin

text \<open>
  The physic layer as an implementation of the interface \<open>phy_ops\<close> on which the logic layer is proved
  correct: the buffers it is given keep their sizes, its page caches are left alone except by the
  copy-back, and the controller's randomizer is off after every operation, whatever the chips answer.
\<close>

declare retry_loop.simps [simp del]

section \<open>Buffers keep their sizes\<close>

definition reader_keeps :: "'h reader \<Rightarrow> bool" where
  "reader_keeps att \<longleftrightarrow> (\<forall>main spare s. post (att main spare s)
     (\<lambda>(r, m, sp, s'). length m = length main \<and> length sp = length spare))"

lemma reader_keepsI:
  "(\<And>main spare s. post (att main spare s)
     (\<lambda>(r, m, sp, s'). length m = length main \<and> length sp = length spare)) \<Longrightarrow> reader_keeps att"
  by (simp add: reader_keeps_def)

lemma reader_keepsD:
  "reader_keeps att \<Longrightarrow> att main spare s = Some (r, m, sp, s') \<Longrightarrow>
   length m = length main \<and> length sp = length spare"
  unfolding reader_keeps_def by (metis (mono_tags, lifting) post_Some case_prod_conv)

lemma into_bufs_keeps: "reader_keeps (into_bufs rd)"
  by (rule reader_keepsI)
    (auto simp: into_bufs_def post_def Option.bind_eq_Some_conv mem_put_length split: option.splits
      dest: mem_put_length)

lemma read_attempt_keeps: "reader_keeps (read_attempt C H chk op dma)"
  by (rule reader_keepsI, rule postI)
    (auto simp: read_attempt_def Let_def Option.bind_eq_Some_conv split: if_splits prod.splits
      dest!: reader_keepsD [OF into_bufs_keeps])

lemma spare_attempt_keeps: "reader_keeps (spare_attempt C H chk op dma)"
  by (rule reader_keepsI, rule postI)
    (auto simp: spare_attempt_def Let_def Option.bind_eq_Some_conv split: if_splits prod.splits
      dest!: reader_keepsD [OF into_bufs_keeps] mem_put_length)

lemma retry_loop_keeps:
  assumes "reader_keeps att"
  shows "retry_loop C H chip att n k main spare s = Some (ab, r, m, sp, s') \<Longrightarrow>
    length m = length main \<and> length sp = length spare"
proof (induction n arbitrary: k main spare s)
  case 0
  then show ?case
    by (auto simp: retry_loop.simps [of C H chip att 0] Let_def Option.bind_eq_Some_conv split: if_splits prod.splits dest!: reader_keepsD [OF assms])
next
  case (Suc n)
  from Suc.prems [unfolded retry_loop.simps [of C H chip att "Suc n" k main spare s]] show ?case
    by (auto simp: Let_def Option.bind_eq_Some_conv simp del: retry_loop.simps split: if_splits prod.splits
        dest!: reader_keepsD [OF assms] Suc.IH)
qed

lemma read_with_retry_keeps:
  assumes "\<And>chk. reader_keeps (att chk)"
  shows "read_with_retry C H chip att main spare s = Some (ab, r, m, sp, s') \<Longrightarrow>
    length m = length main \<and> length sp = length spare"
  by (auto simp: read_with_retry_def Option.bind_eq_Some_conv split: if_splits prod.splits
      dest!: reader_keepsD [OF assms] retry_loop_keeps [OF assms])

text \<open>The same for operations on a main buffer and an optional spare buffer.\<close>

definition pageop_keeps :: "(u8 list \<Rightarrow> u8 list option \<Rightarrow> 'h nst \<Rightarrow> 'h page_op_result) \<Rightarrow> bool" where
  "pageop_keeps f \<longleftrightarrow> (\<forall>main oob s. post (f main oob s)
     (\<lambda>(r, m, b, s'). length m = length main \<and> map_option length b = map_option length oob))"

lemma pageop_keepsI:
  "(\<And>main oob s r m b s'. f main oob s = Some (r, m, b, s') \<Longrightarrow>
     length m = length main \<and> map_option length b = map_option length oob) \<Longrightarrow> pageop_keeps f"
  by (auto simp: pageop_keeps_def intro!: postI)

lemma pageop_keepsD:
  "pageop_keeps f \<Longrightarrow> f main oob s = Some (r, m, b, s') \<Longrightarrow>
   length m = length main \<and> map_option length b = map_option length oob"
  unfolding pageop_keeps_def by (metis (mono_tags, lifting) post_Some case_prod_conv)

lemma copy_oob_keeps: "copy_oob oob spare = Some b \<Longrightarrow> map_option length b = map_option length oob"
  by (auto simp: copy_oob_def dest: mem_put_length split: option.splits)

lemma copy_sectors_keeps: "copy_page_sectors bm data n i main = Some m \<Longrightarrow> length m = length main"
  by (induction n arbitrary: i main)
    (auto simp: Option.bind_eq_Some_conv dest: mem_put_length split: if_splits)

lemma read_single_page_keeps: "pageop_keeps (read_single_page C H op dma)"
  by (rule pageop_keepsI)
    (auto simp: read_single_page_def Let_def Option.bind_eq_Some_conv split: if_splits prod.splits
      dest!: read_with_retry_keeps [OF read_attempt_keeps] copy_oob_keeps)

lemma read_single_page_spare_keeps: "pageop_keeps (read_single_page_spare C H op dma)"
  by (rule pageop_keepsI)
    (auto simp: read_single_page_spare_def Let_def Option.bind_eq_Some_conv split: if_splits prod.splits
      dest!: read_with_retry_keeps [OF spare_attempt_keeps] copy_oob_keeps)

lemma read_sectors_keeps: "pageop_keeps (read_sectors C H op dma)"
  by (rule pageop_keepsI)
    (auto simp: read_sectors_def Let_def Option.bind_eq_Some_conv split: if_splits prod.splits
      dest!: copy_sectors_keeps copy_oob_keeps)

lemma on_plane_keeps:
  assumes "pageop_keeps f"
  shows "pageop_keeps (on_plane C i f)"
proof (rule pageop_keepsI)
  fix main oob s r m b s'
  let ?mo = "512 * SECTOR_CNT_OF_SINGLE_PAGE C * i" and ?so = "4 * SECTOR_CNT_OF_SINGLE_PAGE C * i"
  assume "on_plane C i f main oob s = Some (r, m, b, s')"
  then obtain m1 b1 where f: "f (drop ?mo main) (map_option (drop ?so) oob) s = Some (r, m1, b1, s')"
    and m: "m = take ?mo main @ m1"
    and b: "b = (case (oob, b1) of (Some o1, Some b1) \<Rightarrow> Some (take ?so o1 @ b1) | _ \<Rightarrow> oob)"
    by (auto simp: on_plane_def Let_def Option.bind_eq_Some_conv)
  from pageop_keepsD [OF assms f] show "length m = length main \<and> map_option length b = map_option length oob"
    by (cases oob; cases b1) (auto simp: m b min_def)
qed

lemma read_planes_keeps:
  assumes "\<And>rop. pageop_keeps (part rop)"
  shows "pageop_keeps (read_planes C H part op chip blk n i ret)"
proof (induction n arbitrary: i ret)
  case 0
  show ?case by (rule pageop_keepsI) simp
next
  case (Suc n)
  show ?case
    by (rule pageop_keepsI)
      (auto simp: Let_def Option.bind_eq_Some_conv split: if_splits prod.splits
        dest!: pageop_keepsD [OF Suc] pageop_keepsD [OF on_plane_keeps [OF read_single_page_keeps]]
          pageop_keepsD [OF on_plane_keeps [OF assms]])
qed

lemma two_plane_loop_keeps: "pageop_keeps (two_plane_loop C H op chip blk n i ret)"
proof (induction n arbitrary: i ret)
  case 0
  show ?case by (rule pageop_keepsI) simp
next
  case (Suc n)
  show ?case
    by (rule pageop_keepsI)
      (auto simp: Let_def Option.bind_eq_Some_conv split: if_splits prod.splits
        dest!: pageop_keepsD [OF Suc] pageop_keepsD [OF on_plane_keeps [OF read_sectors_keeps]])
qed

lemma read_by_planes_keeps:
  assumes "\<And>rop. pageop_keeps (part rop)"
  shows "pageop_keeps (read_by_planes C H part op)"
  by (rule pageop_keepsI)
    (auto simp: read_by_planes_def Let_def Option.bind_eq_Some_conv split: if_splits prod.splits
      dest!: pageop_keepsD [OF read_planes_keeps [OF assms]])

lemma phys_PageRead_keeps: "pageop_keeps (phys_PageRead C H op)"
  by (rule pageop_keepsI)
    (auto simp: phys_PageRead_def two_plane_read_def Let_def Option.bind_eq_Some_conv
      split: if_splits prod.splits
      dest!: pageop_keepsD [OF read_by_planes_keeps [OF read_sectors_keeps]]
        pageop_keepsD [OF two_plane_loop_keeps])

lemma phys_PageReadSpare_keeps: "pageop_keeps (phys_PageReadSpare C H op)"
  unfolding phys_PageReadSpare_def by (rule read_by_planes_keeps [OF read_single_page_spare_keeps])

section \<open>Page caches\<close>

text \<open>No controller operation touches the page caches: an invariant of both locales for every hardware.\<close>

interpretation caches: phys_inv H "\<lambda>b s. (ns_PageCache0 s, ns_SpareCache s) = x"
  for H :: "'h nfc_hw" and x :: "u8 list option \<times> u8 list option"
  by unfold_locales
    (auto simp: NFC_READ_REG_def NFC_WRITE_REG_def NFC_READ_RAM_B_def NFC_WRITE_RAM_B_def reg_upd_def
      NFC_RandomEnable_def NFC_RandomDisable_def split_def Let_def)

lemma same_caches:
  "phys_PageWrite C H op m b s = Some (r, s') \<Longrightarrow>
    ns_PageCache0 s' = ns_PageCache0 s \<and> ns_SpareCache s' = ns_SpareCache s"
  "single_copy_back C H src dst s = Some (r, s') \<Longrightarrow>
    ns_PageCache0 s' = ns_PageCache0 s \<and> ns_SpareCache s' = ns_SpareCache s"
  "multi_copy_back C H src dst s = Some (r, s') \<Longrightarrow>
    ns_PageCache0 s' = ns_PageCache0 s \<and> ns_SpareCache s' = ns_SpareCache s"
  using postD [OF caches.page_write [OF refl]] postD [OF caches.single_copy [OF refl]]
    postD [OF caches.multi_copy [OF refl]] by fastforce+

lemma PageCopyback_keeps:
  assumes "phys_PageCopyback C H src dst s = Some (r, s')"
    and "ns_PageCache0 s = Some m" and "ns_SpareCache s = Some sb"
  shows "map_option length (ns_PageCache0 s') = Some (length m)
    \<and> map_option length (ns_SpareCache s') = Some (length sb)"
  using assms unfolding phys_PageCopyback_def
  by (auto simp: Let_def Option.bind_eq_Some_conv split: if_splits prod.splits
      dest!: pageop_keepsD [OF phys_PageRead_keeps] same_caches)

section \<open>The physic layer as the logic layer sees it\<close>

definition defined_or :: "'a \<Rightarrow> 'a option \<Rightarrow> 'a" where
  "defined_or d m = (case m of None \<Rightarrow> d | Some x \<Rightarrow> x)"

definition physic :: "cfg \<Rightarrow> 'h nfc_hw \<Rightarrow> 'h nst phy_ops" where
  "physic C H = \<lparr>
     PHY_PageRead = (\<lambda>op m sb s. defined_or (- 1, m, sb, s) (phys_PageRead C H op m sb s)),
     PHY_PageReadSpare = (\<lambda>op m sb s. defined_or (- 1, m, sb, s) (phys_PageReadSpare C H op m sb s)),
     PHY_PageWrite = (\<lambda>op m sb s. defined_or (- 1, s) (phys_PageWrite C H op m (Some sb) s)),
     PHY_BlockErase = (\<lambda>op s. defined_or (- 1, s) (phys_BlockErase C H op s)),
     PHY_SynchBank = (\<lambda>b mode s. defined_or (- 1, s) (phys_SynchBank C H (of_nat b) (of_nat mode) s)),
     PHY_PageCopyback = (\<lambda>src dst m sb s. defined_or (- 1, m, sb, s) (do {
        (r, s) \<leftarrow> phys_PageCopyback C H src dst (s\<lparr>ns_PageCache0 := Some m, ns_SpareCache := Some sb\<rparr>);
        m \<leftarrow> ns_PageCache0 s;
        sb \<leftarrow> ns_SpareCache s;
        Some (r, m, sb, s)
      }))\<rparr>"

text \<open>The operations of the physic layer keep the sizes of the page and spare buffers they are given,
  for every chip, every controller behaviour and every error path: \<open>physic\<close> implements the interface
  on which the theorems about the logic layer rest.\<close>

lemma physic_keeps_sizes: "keeps_sizes (physic C H)"
proof -
  note p = pageop_keepsD [OF phys_PageRead_keeps] pageop_keepsD [OF phys_PageReadSpare_keeps]
  have "length m' = length m \<and> map_option length sb' = map_option length sb"
    if "PHY_PageRead (physic C H) op m sb d = (r, m', sb', d')" for op m sb d r m' sb' d'
    using that by (auto simp: physic_def defined_or_def split: option.splits dest!: p(1))
  moreover have "length m' = length m \<and> map_option length sb' = map_option length sb"
    if "PHY_PageReadSpare (physic C H) op m sb d = (r, m', sb', d')" for op m sb d r m' sb' d'
    using that by (auto simp: physic_def defined_or_def split: option.splits dest!: p(2))
  moreover have "length m' = length m \<and> length sb' = length sb"
    if "PHY_PageCopyback (physic C H) src dst m sb d = (r, m', sb', d')" for src dst m sb d r m' sb' d'
    using that
    by (auto simp: physic_def defined_or_def Option.bind_eq_Some_conv split: option.splits
        dest!: PageCopyback_keeps)
  ultimately show ?thesis
    unfolding keeps_sizes_def Let_def by (auto split: prod.split)
qed

section \<open>The randomizer\<close>

text \<open>The ECC control register is a plain register: it reads as it was written, and only a write to it
  changes it. This is the documented behaviour of the controller; everything else stays arbitrary.\<close>

definition ecc_ctl_holds :: "'h nfc_hw \<Rightarrow> ('h \<Rightarrow> u32) \<Rightarrow> bool" where
  "ecc_ctl_holds H ctl \<longleftrightarrow>
     (\<forall>h. fst (hw_read H NFC_REG_ECC_CTL h) = ctl h) \<and> (\<forall>r h. ctl (snd (hw_read H r h)) = ctl h)
     \<and> (\<forall>r v h. ctl (hw_write H r v h) = (if r = NFC_REG_ECC_CTL then v else ctl h))
     \<and> (\<forall>r h. ctl (snd (hw_read_ram H r h)) = ctl h) \<and> (\<forall>r b h. ctl (hw_write_ram H r b h) = ctl h)
     \<and> (\<forall>rw d n h. ctl (hw_start_dma H rw d n h) = ctl h) \<and> (\<forall>h. ctl (snd (hw_query_dma H h)) = ctl h)"

lemma random_phys_inv:
  assumes "ecc_ctl_holds H ctl"
  shows "phys_inv H (\<lambda>b s. bit (ctl (ns_hw s)) 9 = b)"
proof -
  note e = assms [unfolded ecc_ctl_holds_def]
  have "nfc_inv H (\<lambda>s. bit (ctl (ns_hw s)) 9 = b)" for b
    using e by unfold_locales
      (auto simp: NFC_READ_REG_def NFC_WRITE_REG_def NFC_READ_RAM_B_def NFC_WRITE_RAM_B_def reg_upd_def
        split_def Let_def)
  from this [of True] this [of False] show ?thesis
    using e unfolding phys_inv_def phys_inv_axioms_def
    by (auto simp: NFC_READ_REG_def NFC_WRITE_REG_def reg_upd_def NFC_RandomEnable_def
        NFC_RandomDisable_def split_def Let_def bit_or_iff bit_and_iff bit_not_iff)
qed

definition random_off :: "('h \<Rightarrow> u32) \<Rightarrow> 'h nst \<Rightarrow> bool" where
  "random_off ctl s \<longleftrightarrow> \<not> bit (ctl (ns_hw s)) 9"

text \<open>C15: if the randomizer of the controller is off before an operation of the physic layer, it is off
  after it, on every path: after time-outs, too many ECC errors and failed retries too. The next page is
  then never read or written with the seed of another page.\<close>

theorem physic_randomizer_off:
  assumes "ecc_ctl_holds H ctl" and "random_off ctl s"
  shows "post (phys_PageRead C H op m sb s) (\<lambda>(r, m, sb, s'). random_off ctl s')
    \<and> post (phys_PageReadSpare C H op m sb s) (\<lambda>(r, m, sb, s'). random_off ctl s')
    \<and> post (phys_PageWrite C H op m sb s) (\<lambda>(r, s'). random_off ctl s')
    \<and> post (phys_BlockErase C H op s) (\<lambda>(r, s'). random_off ctl s')
    \<and> post (phys_SynchBank C H b mode s) (\<lambda>(r, s'). random_off ctl s')
    \<and> post (phys_PageCopyback C H op dst s) (\<lambda>(r, s'). random_off ctl s')"
proof -
  note R = random_phys_inv [OF assms(1)]
  note off = nfc_inv.synch_bank [OF phys_inv.axioms(1) [OF R]] nfc_inv.block_erase [OF phys_inv.axioms(1) [OF R]]
  have s: "bit (ctl (ns_hw s)) 9 = False" using assms(2) by (simp add: random_off_def)
  show ?thesis
    using phys_inv.page_read [OF R s] phys_inv.page_read_spare [OF R s] phys_inv.page_write [OF R s]
      off [OF s] phys_inv.copy_page [OF R _ s]
    by (simp add: random_off_def)
qed

text \<open>A controller that keeps its registers, is never busy and reports no errors.\<close>

definition ready_hw :: "(nat \<Rightarrow> u32) nfc_hw" where
  "ready_hw = \<lparr>hw_read = (\<lambda>r h. (if r = NFC_REG_ST then 0xf02 else h r, h)),
     hw_write = (\<lambda>r v h. h(r := v)), hw_read_ram = (\<lambda>r h. (0x40, h)), hw_write_ram = (\<lambda>r b h. h),
     hw_request_dma = (\<lambda>h. (1, h)), hw_release_dma = (\<lambda>d h. h), hw_start_dma = (\<lambda>w d n h. h),
     hw_query_dma = (\<lambda>h. (0, h)), hw_dma_data = (\<lambda>h. replicate 4096 0),
     hw_malloc = (\<lambda>n h. (Some (replicate n 0), h))\<rparr>"

definition ready_nst :: "(nat \<Rightarrow> u32) nst" where
  "ready_nst = \<lparr>ns_hw = (\<lambda>r. 0), ns_pagesize = 4096, ns_dma_hdle = 1, ns_rr_reg_adr = replicate 4 0,
     ns_rr_default = replicate 8 (replicate 4 0), ns_rr_val = replicate 10 (replicate 4 0), ns_rr_mode = 0,
     ns_rr_cycle = 0, ns_rr_reg_num = 0, ns_lsb_reg_adr = replicate 8 0, ns_lsb_default = replicate 8 0,
     ns_lsb_val = replicate 8 0, ns_lsb_reg_num = 0, ns_RetryCount = replicate 8 0,
     ns_PageCache0 = None, ns_SpareCache = None, ns_TmpPageCache = None\<rparr>"

theorem physic_randomizer_off_witness:
  "post (phys_BlockErase k9lbg08_cfg ready_hw \<lparr>op_BankNum = 0, op_PageNum = 0, op_BlkNum = 5, op_SectBitmap = 0\<rparr>
     ready_nst) (\<lambda>(r, s'). random_off (\<lambda>h. h NFC_REG_ECC_CTL) s')"
proof -
  have "ecc_ctl_holds ready_hw (\<lambda>h. h NFC_REG_ECC_CTL)" and "random_off (\<lambda>h. h NFC_REG_ECC_CTL) ready_nst"
    by (simp_all add: ecc_ctl_holds_def ready_hw_def random_off_def ready_nst_def)
  from physic_randomizer_off [OF this] show ?thesis by blast
qed

end
