(* ===== verification/Nand_Id.thy ===== *)
theory Nand_Id
  imports Nand_State
begin

text \<open>
  The chip tables of \<open>scan/nand_id.c\<close>: the optional operation parameters, and for each manufacturer a list
  of chips with their geometry, ended by a row whose id is all \<open>0xff\<close>. The rows and their numbers are
  those of the source, in its order.
\<close>

section \<open>Operation parameters\<close>

definition PhysicArchiPara0 :: opt_phy_op where
  "PhysicArchiPara0 = \<lparr>MultiPlaneReadCmd = [0x00, 0x30], MultiPlaneWriteCmd = [0x11, 0x81],
     MultiPlaneCopyReadCmd = [0x00, 0x00, 0x35], MultiPlaneCopyWriteCmd = [0x85, 0x11, 0x81],
     MultiPlaneStatusCmd = 0x70, InterBnk0StatusCmd = 0xf1, InterBnk1StatusCmd = 0xf2,
     BadBlockFlagPosition = 0x01, MultiPlaneBlockOffset = 1\<rparr>"

definition PhysicArchiPara1 :: opt_phy_op where
  "PhysicArchiPara1 = \<lparr>MultiPlaneReadCmd = [0x60, 0x30], MultiPlaneWriteCmd = [0x11, 0x81],
     MultiPlaneCopyReadCmd = [0x60, 0x60, 0x35], MultiPlaneCopyWriteCmd = [0x85, 0x11, 0x81],
     MultiPlaneStatusCmd = 0x70, InterBnk0StatusCmd = 0xf1, InterBnk1StatusCmd = 0xf2,
     BadBlockFlagPosition = 0x00, MultiPlaneBlockOffset = 1\<rparr>"

definition PhysicArchiPara2 :: opt_phy_op where
  "PhysicArchiPara2 = \<lparr>MultiPlaneReadCmd = [0x00, 0x30], MultiPlaneWriteCmd = [0x11, 0x81],
     MultiPlaneCopyReadCmd = [0x00, 0x00, 0x35], MultiPlaneCopyWriteCmd = [0x85, 0x11, 0x81],
     MultiPlaneStatusCmd = 0x70, InterBnk0StatusCmd = 0xf1, InterBnk1StatusCmd = 0xf2,
     BadBlockFlagPosition = 0x02, MultiPlaneBlockOffset = 1\<rparr>"

definition PhysicArchiPara3 :: opt_phy_op where
  "PhysicArchiPara3 = \<lparr>MultiPlaneReadCmd = [0x60, 0x60], MultiPlaneWriteCmd = [0x11, 0x81],
     MultiPlaneCopyReadCmd = [0x60, 0x60, 0x35], MultiPlaneCopyWriteCmd = [0x85, 0x11, 0x81],
     MultiPlaneStatusCmd = 0x70, InterBnk0StatusCmd = 0xf1, InterBnk1StatusCmd = 0xf2,
     BadBlockFlagPosition = 0x02, MultiPlaneBlockOffset = 1\<rparr>"

definition PhysicArchiPara4 :: opt_phy_op where
  "PhysicArchiPara4 = \<lparr>MultiPlaneReadCmd = [0x00, 0x30], MultiPlaneWriteCmd = [0x11, 0x80],
     MultiPlaneCopyReadCmd = [0x00, 0x00, 0x35], MultiPlaneCopyWriteCmd = [0x85, 0x11, 0x80],
     MultiPlaneStatusCmd = 0x70, InterBnk0StatusCmd = 0x78, InterBnk1StatusCmd = 0x78,
     BadBlockFlagPosition = 0x01, MultiPlaneBlockOffset = 1\<rparr>"

definition PhysicArchiPara5 :: opt_phy_op where
  "PhysicArchiPara5 = \<lparr>MultiPlaneReadCmd = [0x00, 0x30], MultiPlaneWriteCmd = [0x11, 0x80],
     MultiPlaneCopyReadCmd = [0x00, 0x00, 0x30], MultiPlaneCopyWriteCmd = [0x8c, 0x11, 0x8c],
     MultiPlaneStatusCmd = 0x71, InterBnk0StatusCmd = 0x70, InterBnk1StatusCmd = 0x70,
     BadBlockFlagPosition = 0x00, MultiPlaneBlockOffset = 0\<rparr>"

definition PhysicArchiPara6 :: opt_phy_op where
  "PhysicArchiPara6 = \<lparr>MultiPlaneReadCmd = [0x00, 0x30], MultiPlaneWriteCmd = [0x11, 0x80],
     MultiPlaneCopyReadCmd = [0x00, 0x00, 0x30], MultiPlaneCopyWriteCmd = [0x8c, 0x11, 0x8c],
     MultiPlaneStatusCmd = 0x71, InterBnk0StatusCmd = 0x70, InterBnk1StatusCmd = 0x70,
     BadBlockFlagPosition = 0x00, MultiPlaneBlockOffset = 1024\<rparr>"

definition PhysicArchiPara7 :: opt_phy_op where
  "PhysicArchiPara7 = \<lparr>MultiPlaneReadCmd = [0x00, 0x30], MultiPlaneWriteCmd = [0x11, 0x80],
     MultiPlaneCopyReadCmd = [0x00, 0x00, 0x30], MultiPlaneCopyWriteCmd = [0x8c, 0x11, 0x8c],
     MultiPlaneStatusCmd = 0x71, InterBnk0StatusCmd = 0x70, InterBnk1StatusCmd = 0x70,
     BadBlockFlagPosition = 0x00, MultiPlaneBlockOffset = 2048\<rparr>"

definition PhysicArchiPara8 :: opt_phy_op where
  "PhysicArchiPara8 = \<lparr>MultiPlaneReadCmd = [0x00, 0x30], MultiPlaneWriteCmd = [0x11, 0x80],
     MultiPlaneCopyReadCmd = [0x00, 0x00, 0x30], MultiPlaneCopyWriteCmd = [0x8c, 0x11, 0x8c],
     MultiPlaneStatusCmd = 0x71, InterBnk0StatusCmd = 0x70, InterBnk1StatusCmd = 0x70,
     BadBlockFlagPosition = 0x02, MultiPlaneBlockOffset = 1\<rparr>"

definition PhysicArchiPara9 :: opt_phy_op where
  "PhysicArchiPara9 = \<lparr>MultiPlaneReadCmd = [0x00, 0x30], MultiPlaneWriteCmd = [0x11, 0x81],
     MultiPlaneCopyReadCmd = [0x00, 0x00, 0x30], MultiPlaneCopyWriteCmd = [0x8c, 0x11, 0x8c],
     MultiPlaneStatusCmd = 0x71, InterBnk0StatusCmd = 0x70, InterBnk1StatusCmd = 0x70,
     BadBlockFlagPosition = 0x02, MultiPlaneBlockOffset = 1\<rparr>"

definition DefualtPhysicArchiPara :: opt_phy_op where
  "DefualtPhysicArchiPara = \<lparr>MultiPlaneReadCmd = [0x00, 0x30], MultiPlaneWriteCmd = [0x11, 0x81],
     MultiPlaneCopyReadCmd = [0x00, 0x00, 0x35], MultiPlaneCopyWriteCmd = [0x85, 0x11, 0x81],
     MultiPlaneStatusCmd = 0x70, InterBnk0StatusCmd = 0xf1, InterBnk1StatusCmd = 0xf2,
     BadBlockFlagPosition = 0x00, MultiPlaneBlockOffset = 1\<rparr>"

section \<open>Chips\<close>

record phy_info =
  pi_NandID :: "u8 list"
  pi_DieCntPerChip :: u8
  pi_SectCntPerPage :: u8
  pi_PageCntPerBlk :: u16
  pi_BlkCntPerDie :: u16
  pi_OperationOpt :: u16
  pi_ValidBlkRatio :: u16
  pi_AccessFreq :: u16
  pi_EccMode :: u16
  pi_ReadRetryType :: u32
  pi_DDRType :: u32
  pi_OptionOp :: "opt_phy_op option"

text \<open>A row in the order of the source; the last column is a pointer, null in the row that ends a table.\<close>

definition chip_row ::
  "u8 list \<Rightarrow> u8 \<Rightarrow> u8 \<Rightarrow> u16 \<Rightarrow> u16 \<Rightarrow> u16 \<Rightarrow> u16 \<Rightarrow> u16 \<Rightarrow> u16 \<Rightarrow> u32 \<Rightarrow> u32 \<Rightarrow> opt_phy_op option \<Rightarrow> phy_info"
where
  "chip_row nid die sec pag blk opt dat freq ecc retry ddr par =
     \<lparr>pi_NandID = nid, pi_DieCntPerChip = die, pi_SectCntPerPage = sec, pi_PageCntPerBlk = pag,
      pi_BlkCntPerDie = blk, pi_OperationOpt = opt, pi_ValidBlkRatio = dat, pi_AccessFreq = freq,
      pi_EccMode = ecc, pi_ReadRetryType = retry, pi_DDRType = ddr, pi_OptionOp = par\<rparr>"

definition SamsungNandTbl :: "phy_info list" where
  "SamsungNandTbl = [
     chip_row [0xec, 0xf1, 0xff, 0x15, 0xff, 0xff, 0xff, 0xff] 1 4 64 1024 0x0000 974 15 0 0 0 (Some PhysicArchiPara0),
     chip_row [0xec, 0xf1, 0x00, 0x95, 0xff, 0xff, 0xff, 0xff] 1 4 64 1024 0x0000 974 15 0 0 0 (Some PhysicArchiPara0),
     chip_row [0xec, 0xda, 0xff, 0x15, 0xff, 0xff, 0xff, 0xff] 2 4 64 1024 0x0000 974 15 0 0 0 (Some PhysicArchiPara0),
     chip_row [0xec, 0xda, 0x10, 0x95, 0xff, 0xff, 0xff, 0xff] 1 4 64 2048 0x0008 974 15 0 0 0 (Some PhysicArchiPara0),
     chip_row [0xec, 0xdc, 0xc1, 0x15, 0xff, 0xff, 0xff, 0xff] 2 4 64 2048 0x0000 974 15 0 0 0 (Some PhysicArchiPara0),
     chip_row [0xec, 0xdc, 0x10, 0x95, 0xff, 0xff, 0xff, 0xff] 1 4 64 4096 0x0018 974 15 0 0 0 (Some PhysicArchiPara0),
     chip_row [0xec, 0xd3, 0x51, 0x95, 0xff, 0xff, 0xff, 0xff] 2 4 64 4096 0x0018 974 30 0 0 0 (Some PhysicArchiPara0),
     chip_row [0xec, 0xd3, 0x50, 0xa6, 0xff, 0xff, 0xff, 0xff] 1 4 128 4096 0x0018 974 30 0 0 0 (Some PhysicArchiPara1),
     chip_row [0xec, 0xd5, 0x51, 0xa6, 0xff, 0xff, 0xff, 0xff] 2 4 128 4096 0x0038 974 30 0 0 0 (Some PhysicArchiPara1),
     chip_row [0xec, 0xdc, 0x14, 0x25, 0xff, 0xff, 0xff, 0xff] 1 4 128 2048 0x0008 974 20 0 0 0 (Some PhysicArchiPara2),
     chip_row [0xec, 0xdc, 0x14, 0xa5, 0xff, 0xff, 0xff, 0xff] 1 4 128 2048 0x0008 974 30 0 0 0 (Some PhysicArchiPara2),
     chip_row [0xec, 0xd3, 0x55, 0x25, 0xff, 0xff, 0xff, 0xff] 2 4 128 2048 0x0008 974 20 0 0 0 (Some PhysicArchiPara2),
     chip_row [0xec, 0xd3, 0x55, 0xa5, 0xff, 0xff, 0xff, 0xff] 2 4 128 2048 0x0008 974 30 0 0 0 (Some PhysicArchiPara2),
     chip_row [0xec, 0xd3, 0x14, 0x25, 0xff, 0xff, 0xff, 0xff] 1 4 128 4096 0x0008 974 20 0 0 0 (Some PhysicArchiPara2),
     chip_row [0xec, 0xd3, 0x14, 0xa5, 0xff, 0xff, 0xff, 0xff] 1 4 128 4096 0x0008 974 30 0 0 0 (Some PhysicArchiPara2),
     chip_row [0xec, 0xd5, 0x55, 0x25, 0xff, 0xff, 0xff, 0xff] 2 4 128 4096 0x0028 974 30 0 0 0 (Some PhysicArchiPara2),
     chip_row [0xec, 0xd5, 0x55, 0xa5, 0xff, 0xff, 0xff, 0xff] 2 4 128 4096 0x0028 974 30 0 0 0 (Some PhysicArchiPara2),
     chip_row [0xec, 0xd5, 0x14, 0xb6, 0xff, 0xff, 0xff, 0xff] 1 8 128 4096 0x0008 974 30 0 0 0 (Some PhysicArchiPara3),
     chip_row [0xec, 0xd7, 0x55, 0xb6, 0xff, 0xff, 0xff, 0xff] 2 8 128 4096 0x0028 974 30 0 0 0 (Some PhysicArchiPara3),
     chip_row [0xec, 0xd7, 0xd5, 0x29, 0xff, 0xff, 0xff, 0xff] 2 8 128 4096 0x0028 974 30 0 0 0 (Some PhysicArchiPara3),
     chip_row [0xec, 0xd7, 0x94, 0x72, 0xff, 0xff, 0xff, 0xff] 1 16 128 4096 0x0008 974 30 2 0 0 (Some PhysicArchiPara3),
     chip_row [0xec, 0xd5, 0x98, 0x71, 0xff, 0xff, 0xff, 0xff] 1 8 256 2048 0x0008 950 30 3 0 0 (Some PhysicArchiPara3),
     chip_row [0xec, 0xd5, 0x94, 0x29, 0xff, 0xff, 0xff, 0xff] 1 8 128 4096 0x0008 974 30 0 0 0 (Some PhysicArchiPara3),
     chip_row [0xec, 0xd5, 0x84, 0x72, 0xff, 0xff, 0xff, 0xff] 1 16 128 2048 0x0000 950 24 2 0 0 (Some PhysicArchiPara3),
     chip_row [0xec, 0xd3, 0x84, 0x72, 0xff, 0xff, 0xff, 0xff] 1 16 128 1024 0x0000 950 24 2 0 0 (Some PhysicArchiPara3),
     chip_row [0xec, 0xd7, 0x94, 0x76, 0xff, 0xff, 0xff, 0xff] 1 16 128 4096 0x0088 974 30 3 0 0 (Some PhysicArchiPara3),
     chip_row [0xec, 0xd7, 0x94, 0x7a, 0xff, 0xff, 0xff, 0xff] 1 16 128 4096 0x0088 974 30 3 0 0 (Some PhysicArchiPara3),
     chip_row [0xec, 0xd7, 0x94, 0x7a, 0x54, 0xc3, 0xff, 0xff] 1 16 128 4096 0x0088 974 30 1 0 3 (Some PhysicArchiPara3),
     chip_row [0xec, 0xde, 0xa4, 0x7a, 0x68, 0xc4, 0xff, 0xff] 1 16 128 8192 0x0588 974 30 4 0x200e04 3 (Some PhysicArchiPara3),
     chip_row [0xff, 0xff, 0xff, 0xff, 0xff, 0xff, 0xff, 0xff] 0 0 0 0 0x0000 0 0 0 0 0 None]"

definition HynixNandTbl :: "phy_info list" where
  "HynixNandTbl = [
     chip_row [0xad, 0xf1, 0x80, 0x15, 0xff, 0xff, 0xff, 0xff] 1 4 64 1024 0x0000 974 15 0 0 0 (Some PhysicArchiPara0),
     chip_row [0xad, 0xf1, 0x80, 0x1d, 0xff, 0xff, 0xff, 0xff] 1 4 64 1024 0x0000 974 20 0 0 0 (Some PhysicArchiPara0),
     chip_row [0xad, 0xf1, 0x00, 0x1d, 0xff, 0xff, 0xff, 0xff] 1 4 64 1024 0x0000 974 20 0 0 0 (Some PhysicArchiPara0),
     chip_row [0xad, 0xda, 0x80, 0x15, 0xff, 0xff, 0xff, 0xff] 1 4 64 2048 0x0000 974 15 0 0 0 (Some PhysicArchiPara0),
     chip_row [0xad, 0xda, 0x80, 0x1d, 0xff, 0xff, 0xff, 0xff] 1 4 64 2048 0x0000 974 20 0 0 0 (Some PhysicArchiPara0),
     chip_row [0xad, 0xda, 0x10, 0x95, 0xff, 0xff, 0xff, 0xff] 1 4 64 2048 0x0000 974 20 0 0 0 (Some PhysicArchiPara0),
     chip_row [0xad, 0xdc, 0x80, 0x15, 0xff, 0xff, 0xff, 0xff] 4 4 64 1024 0x0000 974 15 0 0 0 (Some PhysicArchiPara0),
     chip_row [0xad, 0xdc, 0x80, 0x95, 0xff, 0xff, 0xff, 0xff] 1 4 64 4096 0x0000 974 20 0 0 0 (Some PhysicArchiPara0),
     chip_row [0xad, 0xdc, 0x10, 0x95, 0xff, 0xff, 0xff, 0xff] 1 4 64 4096 0x0008 974 20 0 0 0 (Some PhysicArchiPara0),
     chip_row [0xad, 0xd3, 0x80, 0x15, 0xff, 0xff, 0xff, 0xff] 4 4 64 2048 0x0000 974 20 0 0 0 (Some PhysicArchiPara0),
     chip_row [0xad, 0xd3, 0xc1, 0x95, 0xff, 0xff, 0xff, 0xff] 2 4 64 4096 0x0000 974 20 0 0 0 (Some PhysicArchiPara0),
     chip_row [0xad, 0xdc, 0x84, 0x25, 0xff, 0xff, 0xff, 0xff] 1 4 128 2048 0x0000 974 12 0 0 0 (Some PhysicArchiPara2),
     chip_row [0xad, 0xdc, 0x14, 0xa5, 0xff, 0xff, 0xff, 0xff] 1 4 128 2048 0x0008 974 15 0 0 0 (Some PhysicArchiPara2),
     chip_row [0xad, 0xd3, 0x85, 0x25, 0xff, 0xff, 0xff, 0xff] 2 4 128 2048 0x0000 974 10 0 0 0 (Some PhysicArchiPara2),
     chip_row [0xad, 0xd3, 0x14, 0x25, 0xff, 0xff, 0xff, 0xff] 1 4 128 4096 0x0008 974 12 0 0 0 (Some PhysicArchiPara2),
     chip_row [0xad, 0xd3, 0x14, 0x2d, 0xff, 0xff, 0xff, 0xff] 1 4 128 4096 0x0008 974 25 0 0 0 (Some PhysicArchiPara2),
     chip_row [0xad, 0xd3, 0x14, 0xa5, 0xff, 0xff, 0xff, 0xff] 1 4 128 4096 0x0008 974 15 0 0 0 (Some PhysicArchiPara2),
     chip_row [0xad, 0xd5, 0x55, 0x25, 0xff, 0xff, 0xff, 0xff] 2 4 128 4096 0x0008 974 15 0 0 0 (Some PhysicArchiPara2),
     chip_row [0xad, 0xd5, 0x55, 0x2d, 0xff, 0xff, 0xff, 0xff] 2 4 128 4096 0x0008 974 25 0 0 0 (Some PhysicArchiPara2),
     chip_row [0xad, 0xd5, 0x55, 0xa5, 0xff, 0xff, 0xff, 0xff] 2 4 128 8192 0x0008 974 30 0 0 0 (Some PhysicArchiPara2),
     chip_row [0xad, 0xd3, 0x14, 0xb6, 0xff, 0xff, 0xff, 0xff] 1 8 128 2048 0x0008 974 30 0 0 0 (Some PhysicArchiPara3),
     chip_row [0xad, 0xd5, 0x14, 0xb6, 0xff, 0xff, 0xff, 0xff] 1 8 128 4096 0x0008 974 30 0 0 0 (Some PhysicArchiPara3),
     chip_row [0xad, 0xd7, 0x55, 0xb6, 0xff, 0xff, 0xff, 0xff] 2 8 128 4096 0x0008 974 30 0 0 0 (Some PhysicArchiPara3),
     chip_row [0xad, 0xd5, 0x94, 0x25, 0xff, 0xff, 0xff, 0xff] 1 8 128 4096 0x0008 974 30 2 0 0 (Some PhysicArchiPara3),
     chip_row [0xad, 0xd7, 0x95, 0x25, 0xff, 0xff, 0xff, 0xff] 2 8 128 4096 0x0008 974 30 2 0 0 (Some PhysicArchiPara3),
     chip_row [0xad, 0xd5, 0x95, 0x25, 0xff, 0xff, 0xff, 0xff] 2 8 128 4096 0x0008 974 30 2 0 0 (Some PhysicArchiPara3),
     chip_row [0xad, 0xd5, 0x94, 0x9a, 0xff, 0xff, 0xff, 0xff] 1 16 256 1024 0x0000 950 30 2 0 0 (Some PhysicArchiPara3),
     chip_row [0xad, 0xd7, 0x94, 0x9a, 0xff, 0xff, 0xff, 0xff] 1 16 256 2048 0x0008 950 30 2 0 0 (Some PhysicArchiPara3),
     chip_row [0xad, 0xde, 0xd5, 0x9a, 0xff, 0xff, 0xff, 0xff] 2 16 256 2048 0x0008 950 30 2 0 0 (Some PhysicArchiPara3),
     chip_row [0xad, 0xd7, 0x94, 0x25, 0xff, 0xff, 0xff, 0xff] 1 8 128 8192 0x0008 974 30 2 0 0 (Some PhysicArchiPara3),
     chip_row [0xad, 0xde, 0x94, 0xd2, 0xff, 0xff, 0xff, 0xff] 1 16 256 4096 0x0188 950 15 2 0x000604 0 (Some PhysicArchiPara3),
     chip_row [0xad, 0xd7, 0x18, 0x8d, 0xff, 0xff, 0xff, 0xff] 1 8 256 4096 0x0188 950 15 3 0x000604 0 (Some PhysicArchiPara3),
     chip_row [0xad, 0xd7, 0x94, 0xda, 0xff, 0xff, 0xff, 0xff] 1 16 256 2048 0x0188 950 15 3 0x010604 0 (Some PhysicArchiPara3),
     chip_row [0xff, 0xff, 0xff, 0xff, 0xff, 0xff, 0xff, 0xff] 0 0 0 0 0x0000 0 0 0 0 0 None]"

definition ToshibaNandTbl :: "phy_info list" where
  "ToshibaNandTbl = [
     chip_row [0x98, 0xf1, 0x80, 0x95, 0xff, 0xff, 0xff, 0xff] 1 4 64 1024 0x0000 974 20 0 0 0 (Some PhysicArchiPara5),
     chip_row [0x98, 0xda, 0xff, 0x95, 0xff, 0xff, 0xff, 0xff] 1 4 64 2048 0x0000 974 20 0 0 0 (Some PhysicArchiPara5),
     chip_row [0x98, 0xdc, 0x81, 0x95, 0xff, 0xff, 0xff, 0xff] 1 4 64 4096 0x0000 974 20 0 0 0 (Some PhysicArchiPara5),
     chip_row [0x98, 0xd1, 0x90, 0x15, 0xff, 0xff, 0xff, 0xff] 1 4 64 1024 0x0000 974 20 0 0 0 (Some PhysicArchiPara5),
     chip_row [0x98, 0xda, 0x84, 0xa5, 0xff, 0xff, 0xff, 0xff] 1 4 128 1024 0x0000 974 20 0 0 0 (Some PhysicArchiPara6),
     chip_row [0x98, 0xdc, 0x84, 0xa5, 0xff, 0xff, 0xff, 0xff] 1 4 128 2048 0x0008 974 20 0 0 0 (Some PhysicArchiPara6),
     chip_row [0x98, 0xd3, 0x84, 0xa5, 0xff, 0xff, 0xff, 0xff] 1 4 128 4096 0x0008 974 20 0 0 0 (Some PhysicArchiPara7),
     chip_row [0x98, 0xd5, 0x85, 0xa5, 0xff, 0xff, 0xff, 0xff] 2 4 128 4096 0x0008 974 20 0 0 0 (Some PhysicArchiPara7),
     chip_row [0x98, 0xd3, 0x94, 0xba, 0xff, 0xff, 0xff, 0xff] 1 8 128 2048 0x0008 974 20 0 0 0 (Some PhysicArchiPara6),
     chip_row [0x98, 0xd7, 0x95, 0xba, 0xff, 0xff, 0xff, 0xff] 1 8 128 8192 0x0008 918 30 2 0 0 (Some PhysicArchiPara7),
     chip_row [0x98, 0xd5, 0x94, 0xba, 0xff, 0xff, 0xff, 0xff] 1 8 128 4096 0x0008 918 30 2 0 0 (Some PhysicArchiPara7),
     chip_row [0x98, 0xd5, 0x94, 0x32, 0xff, 0xff, 0xff, 0xff] 1 16 128 2048 0x0008 918 25 1 0 0 (Some PhysicArchiPara8),
     chip_row [0x98, 0xd7, 0x94, 0x32, 0xff, 0xff, 0xff, 0xff] 1 16 128 4096 0x0008 918 25 2 0 0 (Some PhysicArchiPara8),
     chip_row [0x98, 0xd7, 0x95, 0x32, 0xff, 0xff, 0xff, 0xff] 2 16 128 4096 0x0008 454 25 1 0 0 (Some PhysicArchiPara8),
     chip_row [0x98, 0xde, 0x94, 0x82, 0x76, 0xff, 0xff, 0xff] 1 16 256 4096 0x0588 918 25 4 0x100504 0 (Some PhysicArchiPara9),
     chip_row [0x98, 0xd7, 0x94, 0x32, 0x76, 0x56, 0xff, 0xff] 1 16 128 4096 0x0588 918 25 4 0x100504 0 (Some PhysicArchiPara9),
     chip_row [0x98, 0xd5, 0x84, 0x32, 0x72, 0x56, 0xff, 0xff] 1 16 128 2048 0x0580 918 25 4 0x100504 0 (Some PhysicArchiPara9),
     chip_row [0xff, 0xff, 0xff, 0xff, 0xff, 0xff, 0xff, 0xff] 0 0 0 0 0x0000 0 0 0 0 0 None]"

definition MicronNandTbl :: "phy_info list" where
  "MicronNandTbl = [
     chip_row [0x2c, 0xda, 0xff, 0x15, 0xff, 0xff, 0xff, 0xff] 1 4 64 2048 0x0010 974 25 0 0 0 (Some PhysicArchiPara4),
     chip_row [0x2c, 0xdc, 0xff, 0x15, 0xff, 0xff, 0xff, 0xff] 2 4 64 2048 0x0010 974 25 0 0 0 (Some PhysicArchiPara4),
     chip_row [0x2c, 0xdc, 0x90, 0x95, 0xff, 0xff, 0xff, 0xff] 1 4 64 4096 0x0018 974 25 0 0 0 (Some PhysicArchiPara4),
     chip_row [0x2c, 0xd3, 0xd1, 0x95, 0xff, 0xff, 0xff, 0xff] 2 4 64 4096 0x0018 974 25 0 0 0 (Some PhysicArchiPara4),
     chip_row [0x2c, 0xdc, 0x84, 0x25, 0xff, 0xff, 0xff, 0xff] 1 4 128 2048 0x0000 974 20 0 0 0 (Some PhysicArchiPara4),
     chip_row [0x2c, 0xd3, 0x85, 0x25, 0xff, 0xff, 0xff, 0xff] 2 4 128 2048 0x0000 974 20 0 0 0 (Some PhysicArchiPara4),
     chip_row [0x2c, 0xd3, 0x94, 0xa5, 0xff, 0xff, 0xff, 0xff] 1 4 128 4096 0x0008 974 30 0 0 0 (Some PhysicArchiPara4),
     chip_row [0x2c, 0xd5, 0x95, 0xa5, 0xff, 0xff, 0xff, 0xff] 2 4 128 4096 0x0008 974 20 0 0 0 (Some PhysicArchiPara4),
     chip_row [0x2c, 0xd5, 0xd5, 0xa5, 0xff, 0xff, 0xff, 0xff] 2 4 128 4096 0x0028 974 20 0 0 0 (Some PhysicArchiPara4),
     chip_row [0x2c, 0xd5, 0x94, 0x3e, 0xff, 0xff, 0xff, 0xff] 1 8 128 4096 0x0008 974 30 0 0 0 (Some PhysicArchiPara4),
     chip_row [0x2c, 0xd5, 0xd5, 0x3e, 0xff, 0xff, 0xff, 0xff] 2 8 128 4096 0x0008 974 30 0 0 0 (Some PhysicArchiPara4),
     chip_row [0x2c, 0xd7, 0x94, 0x3e, 0xff, 0xff, 0xff, 0xff] 1 8 128 8192 0x0208 950 30 2 0 0 (Some PhysicArchiPara4),
     chip_row [0x2c, 0xd7, 0xd5, 0x3e, 0xff, 0xff, 0xff, 0xff] 2 8 128 4096 0x0008 950 30 2 0 0 (Some PhysicArchiPara4),
     chip_row [0x2c, 0xd9, 0xd5, 0x3e, 0xff, 0xff, 0xff, 0xff] 2 8 128 8192 0x0008 950 30 2 0 0 (Some PhysicArchiPara4),
     chip_row [0x2c, 0x68, 0x04, 0x46, 0xff, 0xff, 0xff, 0xff] 1 8 256 4096 0x0208 950 30 2 0 0 (Some PhysicArchiPara4),
     chip_row [0x2c, 0x88, 0x05, 0xc6, 0xff, 0xff, 0xff, 0xff] 2 8 256 4096 0x0208 950 30 2 0 0 (Some PhysicArchiPara4),
     chip_row [0x2c, 0x88, 0x04, 0x4b, 0xff, 0xff, 0xff, 0xff] 1 16 256 4096 0x0208 950 30 2 0 0 (Some PhysicArchiPara4),
     chip_row [0x2c, 0x68, 0x04, 0x4a, 0xff, 0xff, 0xff, 0xff] 1 8 256 4096 0x0208 950 30 2 0 0 (Some PhysicArchiPara4),
     chip_row [0x2c, 0x48, 0x04, 0x4a, 0xff, 0xff, 0xff, 0xff] 1 8 256 2048 0x0208 950 30 2 0 0 (Some PhysicArchiPara4),
     chip_row [0x2c, 0x48, 0x04, 0x46, 0xff, 0xff, 0xff, 0xff] 1 8 256 2048 0x0208 950 30 2 0 0 (Some PhysicArchiPara4),
     chip_row [0xff, 0xff, 0xff, 0xff, 0xff, 0xff, 0xff, 0xff] 0 0 0 0 0x0000 0 0 0 0 0 None]"

definition IntelNandTbl :: "phy_info list" where
  "IntelNandTbl = [
     chip_row [0x89, 0xd3, 0x94, 0xa5, 0xff, 0xff, 0xff, 0xff] 1 4 128 4096 0x0008 974 30 0 0 0 (Some PhysicArchiPara4),
     chip_row [0x89, 0xd5, 0xd5, 0xa5, 0xff, 0xff, 0xff, 0xff] 2 4 128 4096 0x0028 974 20 0 0 0 (Some PhysicArchiPara4),
     chip_row [0x89, 0xd7, 0x94, 0x3e, 0xff, 0xff, 0xff, 0xff] 1 8 128 8192 0x0008 918 30 2 0 0 (Some PhysicArchiPara4),
     chip_row [0x89, 0xd5, 0x94, 0x3e, 0xff, 0xff, 0xff, 0xff] 1 8 128 4096 0x0008 918 30 2 0 0 (Some PhysicArchiPara4),
     chip_row [0x89, 0xd7, 0xd5, 0x3e, 0xff, 0xff, 0xff, 0xff] 1 8 128 8192 0x0008 918 30 2 0 0 (Some PhysicArchiPara4),
     chip_row [0x89, 0x68, 0x04, 0x46, 0xff, 0xff, 0xff, 0xff] 1 8 256 4096 0x0208 918 30 2 0 0 (Some PhysicArchiPara4),
     chip_row [0x89, 0x88, 0x24, 0x4b, 0xff, 0xff, 0xff, 0xff] 1 16 256 4096 0x0208 918 30 2 0 0 (Some PhysicArchiPara4),
     chip_row [0x89, 0xa8, 0x25, 0xcb, 0xff, 0xff, 0xff, 0xff] 2 16 256 4096 0x0208 918 30 2 0 0 (Some PhysicArchiPara4),
     chip_row [0xff, 0xff, 0xff, 0xff, 0xff, 0xff, 0xff, 0xff] 0 0 0 0 0x0000 0 0 0 0 0 None]"

definition StNandTbl :: "phy_info list" where
  "StNandTbl = [
     chip_row [0x20, 0xf1, 0x80, 0x15, 0xff, 0xff, 0xff, 0xff] 1 4 64 1024 0x0010 974 15 0 0 0 (Some PhysicArchiPara0),
     chip_row [0x20, 0xf1, 0x00, 0x1d, 0xff, 0xff, 0xff, 0xff] 1 4 64 1024 0x0000 974 15 0 0 0 (Some PhysicArchiPara0),
     chip_row [0x20, 0xda, 0x80, 0x15, 0xff, 0xff, 0xff, 0xff] 1 4 64 2048 0x0000 974 15 0 0 0 (Some PhysicArchiPara0),
     chip_row [0x20, 0xda, 0x10, 0x95, 0xff, 0xff, 0xff, 0xff] 1 4 64 2048 0x0000 974 15 0 0 0 (Some PhysicArchiPara0),
     chip_row [0x20, 0xdc, 0x80, 0x95, 0xff, 0xff, 0xff, 0xff] 1 4 64 4096 0x0000 974 15 0 0 0 (Some PhysicArchiPara0),
     chip_row [0x20, 0xd3, 0xc1, 0x95, 0xff, 0xff, 0xff, 0xff] 2 4 64 4096 0x0000 974 15 0 0 0 (Some PhysicArchiPara0),
     chip_row [0x20, 0xdc, 0x84, 0x25, 0xff, 0xff, 0xff, 0xff] 1 4 128 2048 0x0000 974 15 0 0 0 (Some PhysicArchiPara2),
     chip_row [0x20, 0xd3, 0x85, 0x25, 0xff, 0xff, 0xff, 0xff] 2 4 128 2048 0x0000 974 15 0 0 0 (Some PhysicArchiPara2),
     chip_row [0x20, 0xd3, 0x85, 0x25, 0xff, 0xff, 0xff, 0xff] 4 4 128 2048 0x0000 974 15 0 0 0 (Some PhysicArchiPara2),
     chip_row [0xff, 0xff, 0xff, 0xff, 0xff, 0xff, 0xff, 0xff] 0 0 0 0 0x0000 0 0 0 0 0 None]"

definition SpansionNandTbl :: "phy_info list" where
  "SpansionNandTbl = [
     chip_row [0x01, 0xaa, 0x10, 0x00, 0xff, 0xff, 0xff, 0xff] 1 4 64 2048 0x0000 974 30 0 0 0 (Some PhysicArchiPara0),
     chip_row [0x01, 0xa1, 0x10, 0x00, 0xff, 0xff, 0xff, 0xff] 1 4 64 1024 0x0000 974 30 0 0 0 (Some PhysicArchiPara0),
     chip_row [0x01, 0xff, 0xff, 0x00, 0xff, 0xff, 0xff, 0xff] 1 4 64 1024 0x0000 974 30 0 0 0 (Some PhysicArchiPara0),
     chip_row [0xff, 0xff, 0xff, 0xff, 0xff, 0xff, 0xff, 0xff] 0 0 0 0 0x0000 0 0 0 0 0 None]"

definition PowerNandTbl :: "phy_info list" where
  "PowerNandTbl = [
     chip_row [0x92, 0xf1, 0x80, 0x95, 0x40, 0xff, 0xff, 0xff] 1 4 64 1024 0x0000 974 30 0 0 0 (Some PhysicArchiPara0),
     chip_row [0xff, 0xff, 0xff, 0xff, 0xff, 0xff, 0xff, 0xff] 0 0 0 0 0x0000 0 0 0 0 0 None]"

definition DefaultNandTbl :: "phy_info list" where
  "DefaultNandTbl = [
     chip_row [0xff, 0xff, 0xff, 0xff, 0xff, 0xff, 0xff, 0xff] 0 0 0 0 0x0000 0 0 0 0 0 (Some DefualtPhysicArchiPara)]"

end
