(* ===== verification/Nand_Scan.thy ===== *)
theory Nand_Scan
  imports Nand_Id Phy_Write
begin

text \<open>
  The bus scan of \<open>scan/nand_scan.c\<close>: the chip id read from the boot chip is looked up in the table of its
  manufacturer, the geometry found there becomes the configuration every other module reads, and the
  other chip selects are probed for chips of the same kind.

  \<open>NandStorageInfo\<close>, a global of the code, is the field \<open>storage\<close> of the configuration, so the scan
  returns a new configuration. \<^term>\<open>None\<close> is an access outside a table or a null pointer followed.
\<close>

section \<open>Configuration\<close>

definition CFG_SUPPORT_MULTI_PLANE_PROGRAM :: bool where "CFG_SUPPORT_MULTI_PLANE_PROGRAM = True"
definition CFG_SUPPORT_INT_INTERLEAVE :: bool where "CFG_SUPPORT_INT_INTERLEAVE = False"
definition CFG_SUPPORT_EXT_INTERLEAVE :: bool where "CFG_SUPPORT_EXT_INTERLEAVE = True"
definition CFG_SUPPORT_ALIGN_NAND_BNK :: bool where "CFG_SUPPORT_ALIGN_NAND_BNK = True"
definition CFG_SUPPORT_RANDOM :: bool where "CFG_SUPPORT_RANDOM = True"
definition CFG_SUPPORT_READ_RETRY :: bool where "CFG_SUPPORT_READ_RETRY = True"

lemmas cfg_switches = CFG_SUPPORT_MULTI_PLANE_PROGRAM_def CFG_SUPPORT_INT_INTERLEAVE_def
  CFG_SUPPORT_EXT_INTERLEAVE_def CFG_SUPPORT_ALIGN_NAND_BNK_def CFG_SUPPORT_RANDOM_def
  CFG_SUPPORT_READ_RETRY_def

abbreviation (input) NAND_MULTI_READ :: u16 where "NAND_MULTI_READ \<equiv> 0x4"
abbreviation (input) NAND_MULTI_PROGRAM :: u16 where "NAND_MULTI_PROGRAM \<equiv> 0x8"
abbreviation (input) NAND_INT_INTERLEAVE :: u16 where "NAND_INT_INTERLEAVE \<equiv> 0x20"
abbreviation (input) NAND_EXT_INTERLEAVE :: u16 where "NAND_EXT_INTERLEAVE \<equiv> 0x40"
abbreviation (input) NAND_RANDOM :: u16 where "NAND_RANDOM \<equiv> 0x80"
abbreviation (input) NAND_READ_RETRY :: u16 where "NAND_READ_RETRY \<equiv> 0x100"
abbreviation (input) NAND_READ_UNIQUE_ID :: u16 where "NAND_READ_UNIQUE_ID \<equiv> 0x200"
abbreviation (input) NAND_PAGE_ADR_NO_SKIP :: u16 where "NAND_PAGE_ADR_NO_SKIP \<equiv> 0x400"

definition SUPPORT_READ_UNIQUE_ID :: "cfg \<Rightarrow> bool" where
  "SUPPORT_READ_UNIQUE_ID C \<longleftrightarrow> OperationOpt (storage C) AND NAND_READ_UNIQUE_ID \<noteq> 0"

section \<open>The services on the configuration\<close>

definition NAND_GetValidBlkRatio :: "cfg \<Rightarrow> u32" where
  "NAND_GetValidBlkRatio C = ucast (ValidBlkRatio (storage C))"

definition NAND_SetValidBlkRatio :: "u32 \<Rightarrow> cfg \<Rightarrow> int \<times> cfg" where
  "NAND_SetValidBlkRatio r C = (0, C\<lparr>storage := (storage C)\<lparr>ValidBlkRatio := ucast r\<rparr>\<rparr>)"

definition NAND_GetFrequencePar :: "cfg \<Rightarrow> u32" where
  "NAND_GetFrequencePar C = ucast (FrequencePar (storage C))"

definition NAND_SetFrequencePar :: "u32 \<Rightarrow> cfg \<Rightarrow> int \<times> cfg" where
  "NAND_SetFrequencePar f C = (0, C\<lparr>storage := (storage C)\<lparr>FrequencePar := ucast f\<rparr>\<rparr>)"

definition NAND_GetNandVersion :: u32 where
  "NAND_GetNandVersion = 0xff OR push_bit 8 0x00 OR push_bit 16 0x02 OR push_bit 24 0x09"

record boot_flash_info =
  bf_chip_cnt :: u32
  bf_blk_cnt_per_chip :: u32
  bf_blocksize :: u32
  bf_pagesize :: u32
  bf_pagewithbadflag :: u32

definition NAND_GetFlashInfo :: "cfg \<Rightarrow> int \<times> boot_flash_info" where
  "NAND_GetFlashInfo C =
     (let st = storage C in
      (0, \<lparr>bf_chip_cnt = ucast (ChipCnt st),
           bf_blk_cnt_per_chip = ucast (BlkCntPerDie st) * ucast (DieCntPerChip st),
           bf_blocksize = ucast (SectorCntPerPage st) * ucast (PageCntPerPhyBlk st),
           bf_pagesize = ucast (SectorCntPerPage st),
           bf_pagewithbadflag = ucast (BadBlockFlagPosition (OptPhyOpPar st))\<rparr>))"

text \<open>\<open>boot_nand_para_t\<close>: the storage information without the operation parameters, and the good block
  ratio, which is the valid one.\<close>

definition NAND_GetParam :: "cfg \<Rightarrow> int \<times> storage_info \<times> u32" where
  "NAND_GetParam C = (0, storage C, ucast (ValidBlkRatio (storage C)))"

section \<open>The chip tables\<close>

definition manu_table :: "u8 \<Rightarrow> phy_info list" where
  "manu_table m =
     (if m = 0xec then SamsungNandTbl else if m = 0xad then HynixNandTbl
      else if m = 0x2c then MicronNandTbl else if m = 0x89 then IntelNandTbl
      else if m = 0x98 then ToshibaNandTbl else if m = 0x20 then StNandTbl
      else if m = 0x01 then SpansionNandTbl else if m = 0x92 then PowerNandTbl
      else DefaultNandTbl)"

text \<open>The loop over the bytes one to five of an id: \<^term>\<open>None\<close> of the inner option is the \<open>break\<close>, else the
  count of bytes that are not wild.\<close>

fun id_bytes :: "u8 list \<Rightarrow> u8 list \<Rightarrow> nat \<Rightarrow> nat \<Rightarrow> nat \<Rightarrow> nat option option" where
  "id_bytes nid row 0 j bcnt = Some (Some bcnt)"
| "id_bytes nid row (Suc n) j bcnt = do {
     a \<leftarrow> arr_get nid j;
     b \<leftarrow> arr_get row j;
     if a \<noteq> b \<and> b \<noteq> 0xff then Some None
     else id_bytes nid row n (Suc j) (if b \<noteq> 0xff then bcnt + 1 else bcnt)
   }"

text \<open>\<open>id_match_tbl\<close>: the last row that matches with four, five and six bytes. The table ends at a row whose
  first byte is \<open>0xff\<close>; running past the rows is an access outside the table.\<close>

fun id_scan ::
  "u8 list \<Rightarrow> phy_info list \<Rightarrow> phy_info option \<times> phy_info option \<times> phy_info option
   \<Rightarrow> (phy_info option \<times> phy_info option \<times> phy_info option) option" where
  "id_scan nid [] m = None"
| "id_scan nid (r # rs) (m4, m5, m6) = do {
     b \<leftarrow> arr_get (pi_NandID r) 0;
     if b = 0xff then Some (m4, m5, m6)
     else do {
       k \<leftarrow> id_bytes nid (pi_NandID r) 5 1 1;
       id_scan nid rs
         (if k = Some 4 then (Some r, m5, m6) else if k = Some 5 then (m4, Some r, m6)
          else if k = Some 6 then (m4, m5, Some r) else (m4, m5, m6))
     }
   }"

definition SearchNandArchi :: "u8 list \<Rightarrow> (int \<times> phy_info option) option" where
  "SearchNandArchi pNandID = do {
     m \<leftarrow> arr_get pNandID 0;
     (m4, m5, m6) \<leftarrow> id_scan pNandID (manu_table m) (None, None, None);
     Some (case m6 of Some r \<Rightarrow> (0, Some r)
       | None \<Rightarrow> (case m5 of Some r \<Rightarrow> (0, Some r)
       | None \<Rightarrow> (case m4 of Some r \<Rightarrow> (0, Some r) | None \<Rightarrow> (- 1, None))))
   }"

section \<open>From the table to the configuration\<close>

definition default_storage :: "storage_info \<Rightarrow> storage_info" where
  "default_storage st = st\<lparr>ChipCnt := 1, ChipConnectInfo := 1, RbConnectMode := 1, RbCnt := 1,
     RbConnectInfo := 1, BankCntPerChip := 1, DieCntPerChip := 1, PlaneCntPerDie := 1,
     SectorCntPerPage := 4, PageCntPerPhyBlk := 64, BlkCntPerDie := 1024, OperationOpt := 0,
     FrequencePar := 10, EccMode := 0, ReadRetryType := 0\<rparr>"

text \<open>\<open>tmpNandPhyInfo.OptionOp\<close> is followed, its fields are copied one by one.\<close>

definition set_archi :: "phy_info \<Rightarrow> storage_info \<Rightarrow> storage_info option" where
  "set_archi p st = do {
     opt \<leftarrow> pi_OptionOp p;
     Some (st\<lparr>BankCntPerChip := pi_DieCntPerChip p, DieCntPerChip := pi_DieCntPerChip p,
       PlaneCntPerDie := 2, SectorCntPerPage := pi_SectCntPerPage p, PageCntPerPhyBlk := pi_PageCntPerBlk p,
       BlkCntPerDie := pi_BlkCntPerDie p, OperationOpt := pi_OperationOpt p,
       FrequencePar := ucast (pi_AccessFreq p), EccMode := ucast (pi_EccMode p),
       NandChipId := pi_NandID p, ValidBlkRatio := pi_ValidBlkRatio p, ReadRetryType := pi_ReadRetryType p,
       DDRType := pi_DDRType p, OptPhyOpPar := opt\<rparr>)
   }"

definition cfg_options :: "u16 \<Rightarrow> u16" where
  "cfg_options opt =
     (let opt = (if \<not> CFG_SUPPORT_MULTI_PLANE_PROGRAM
                 then (opt AND NOT NAND_MULTI_READ) AND NOT NAND_MULTI_PROGRAM else opt);
          opt = (if \<not> CFG_SUPPORT_INT_INTERLEAVE then opt AND NOT NAND_INT_INTERLEAVE else opt);
          opt = (if \<not> CFG_SUPPORT_RANDOM then opt AND NOT NAND_RANDOM else opt);
          opt = (if \<not> CFG_SUPPORT_READ_RETRY then opt AND NOT NAND_READ_RETRY else opt)
      in if \<not> CFG_SUPPORT_ALIGN_NAND_BNK then opt OR NAND_PAGE_ADR_NO_SKIP else opt)"

definition set_options :: "storage_info \<Rightarrow> storage_info" where
  "set_options st =
     (let st = st\<lparr>OperationOpt := cfg_options (OperationOpt st)\<rparr>;
          st = (if OperationOpt st AND NAND_MULTI_PROGRAM = 0 then st\<lparr>PlaneCntPerDie := 1\<rparr> else st)
      in if OperationOpt st AND NAND_INT_INTERLEAVE = 0 then st\<lparr>BankCntPerChip := 1\<rparr> else st)"

section \<open>Chips and ready/busy lines\<close>

text \<open>The bytes four and five of the boot chip's id may be wild.\<close>

definition same_chip :: "u8 list \<Rightarrow> u8 list \<Rightarrow> bool option" where
  "same_chip t st = do {
     t0 \<leftarrow> arr_get t 0; t1 \<leftarrow> arr_get t 1; t2 \<leftarrow> arr_get t 2; t3 \<leftarrow> arr_get t 3; t4 \<leftarrow> arr_get t 4; t5 \<leftarrow> arr_get t 5;
     s0 \<leftarrow> arr_get st 0; s1 \<leftarrow> arr_get st 1; s2 \<leftarrow> arr_get st 2; s3 \<leftarrow> arr_get st 3; s4 \<leftarrow> arr_get st 4; s5 \<leftarrow> arr_get st 5;
     Some (t0 = s0 \<and> t1 = s1 \<and> t2 = s2 \<and> t3 = s3 \<and> (t4 = s4 \<or> s4 = 0xff) \<and> (t5 = s5 \<or> s5 = 0xff))
   }"

text \<open>The probe of the chip selects. The results of the reset and of the id read are dropped; an id read
  that fails leaves the id of the chip before in \<open>tmpChipID\<close>.\<close>

fun probe_chips ::
  "'h nfc_hw \<Rightarrow> nat \<Rightarrow> nat \<Rightarrow> u8 list \<Rightarrow> storage_info \<Rightarrow> 'h nst \<Rightarrow> (u8 list \<times> storage_info \<times> 'h nst) option"
where
  "probe_chips H 0 i t st s = Some (t, st, s)"
| "probe_chips H (Suc n) i t st s = do {
     (r, s) \<leftarrow> PHY_ResetChip H (of_nat i) s;
     (r, t, s) \<leftarrow> PHY_ReadNandId H (of_nat i) t s;
     same \<leftarrow> same_chip t (NandChipId st);
     probe_chips H n (Suc i) t
       (if same then st\<lparr>ChipCnt := ChipCnt st + 1, ChipConnectInfo := ChipConnectInfo st OR push_bit i 1\<rparr> else st) s
   }"

definition rb_mode :: "u8 \<Rightarrow> u16 \<Rightarrow> u8" where
  "rb_mode chips conn =
     (if chips = 1 \<and> bit conn 0 then 1
      else if chips = 2 then
        (if bit conn 0 \<and> bit conn 1 then 2 else if bit conn 0 \<and> bit conn 2 then 3
         else if bit conn 0 \<and> bit conn 7 then 0 else 0xff)
      else if chips = 4 then
        (if bit conn 0 \<and> bit conn 1 \<and> bit conn 2 \<and> bit conn 3 then 4
         else if bit conn 0 \<and> bit conn 2 \<and> bit conn 4 \<and> bit conn 6 then 5 else 0xff)
      else if chips = 8 then 8 else 0xff)"

definition ext_interleave :: "storage_info \<Rightarrow> storage_info" where
  "ext_interleave st =
     (if CFG_SUPPORT_EXT_INTERLEAVE
      then (if ChipCnt st > 1 then st\<lparr>OperationOpt := OperationOpt st OR NAND_EXT_INTERLEAVE\<rparr> else st)
      else st\<lparr>OperationOpt := OperationOpt st AND NOT NAND_EXT_INTERLEAVE\<rparr>)"

fun unique_ids :: "cfg \<Rightarrow> 'h nfc_hw \<Rightarrow> nat \<Rightarrow> nat \<Rightarrow> u8 list \<Rightarrow> 'h nst \<Rightarrow> 'h nst option" where
  "unique_ids C H 0 i uid s = Some s"
| "unique_ids C H (Suc n) i uid s = do {
     (r, uid, s) \<leftarrow> PHY_ReadNandUniqueId C H (of_nat i) uid s;
     unique_ids C H n (Suc i) uid s
   }"

fun get_default_params :: "cfg \<Rightarrow> 'h nfc_hw \<Rightarrow> nat \<Rightarrow> nat \<Rightarrow> 'h nst \<Rightarrow> 'h nst option" where
  "get_default_params C H 0 i s = Some s"
| "get_default_params C H (Suc n) i s = do {
     (r, s) \<leftarrow> PHY_GetDefaultParam C H (of_nat i) s;
     get_default_params C H n (Suc i) s
   }"

section \<open>The scan\<close>

text \<open>What is left when the chips are known: interleave, unique ids, page size, read retry.\<close>

definition scan_finish :: "cfg \<Rightarrow> 'h nfc_hw \<Rightarrow> storage_info \<Rightarrow> 'h nst \<Rightarrow> (int \<times> cfg \<times> 'h nst) option" where
  "scan_finish C H st s = do {
     let C = C\<lparr>storage := ext_interleave st\<rparr>;
     let chips = unat (ChipCnt (storage C));
     s \<leftarrow> (if SUPPORT_READ_UNIQUE_ID C then unique_ids C H chips 0 (map (junk8 C) [0..<32]) s else Some s);
     let (r, s) = NFC_ChangMode H \<lparr>ni_bus_width = 0, ni_rb_sel = 1, ni_ce_ctl = 0, ni_ce_ctl1 = 0,
        ni_pagesize = SectorCntPerPage (storage C), ni_serial_access_mode = 1,
        ni_ddr_type = ucast (DDRType (storage C)), ni_debug = 0\<rparr> s;
     s \<leftarrow> (if SUPPORT_READ_RETRY C then do {
             (r, s) \<leftarrow> NFC_ReadRetryInit (ReadRetryType (storage C)) s;
             get_default_params C H chips 0 s
           } else Some s);
     Some (0, C, s)
   }"

text \<open>From the table entry on: geometry, options, the other chips, the ready/busy lines.\<close>

definition scan_archi ::
  "cfg \<Rightarrow> 'h nfc_hw \<Rightarrow> u8 list \<Rightarrow> phy_info \<Rightarrow> 'h nst \<Rightarrow> (int \<times> cfg \<times> 'h nst) option" where
  "scan_archi C H t p s = do {
     st \<leftarrow> set_archi p (storage C);
     (t, st, s) \<leftarrow> probe_chips H 7 1 t (set_options st) s;
     let st = st\<lparr>RbConnectMode := rb_mode (ChipCnt st) (ChipConnectInfo st)\<rparr>;
     if RbConnectMode st = 0xff then Some (- 1, C\<lparr>storage := st\<rparr>, s)
     else scan_finish C H st s
   }"

definition SCN_AnalyzeNandSystem :: "cfg \<Rightarrow> 'h nfc_hw \<Rightarrow> 'h nst \<Rightarrow> (int \<times> cfg \<times> 'h nst) option" where
  "SCN_AnalyzeNandSystem C H s = do {
     let C = C\<lparr>storage := default_storage (storage C)\<rparr>;
     (r1, s) \<leftarrow> PHY_ResetChip H 0 s;
     (r2, s) \<leftarrow> phys_SynchBank C H 0 0 s;
     if r1 OR r2 \<noteq> 0 then Some (- 1, C, s)
     else do {
       (r, t, s) \<leftarrow> PHY_ReadNandId H 0 (map (junk8 C) [0..<8]) s;
       if r \<noteq> 0 then Some (- 1, C, s)
       else do {
         (e, p) \<leftarrow> SearchNandArchi t;
         case p of None \<Rightarrow> Some (- 1, C, s) | Some p \<Rightarrow> scan_archi C H t p s
       }
     }
   }"

end
