(* ===== verification/Scan_Props.thy ===== *)
theory Scan_Props
  imports Nand_Scan Phy_Props
begin

text \<open>
  Properties of the bus scan (\<open>Nand_Scan\<close>): the chip tables of \<open>nand_id.c\<close> are checked row by row
  (\<open>tables_ok\<close>), the lookup returns the most specific row that matches, a scan that succeeds leaves a
  geometry the other modules can work with and banks that are chips the probe has found, and the read
  retry table overflows for one retry type of the tables.
\<close>

section \<open>The chip tables\<close>

definition chip_ok :: "phy_info \<Rightarrow> bool" where
  "chip_ok r \<longleftrightarrow> length (pi_NandID r) = 8 \<and> pi_NandID r ! 0 \<noteq> 0xff
     \<and> pi_SectCntPerPage r \<in> {4, 8, 16} \<and> pi_PageCntPerBlk r \<in> {64, 128, 256}
     \<and> pi_BlkCntPerDie r \<in> {1024, 2048, 4096, 8192} \<and> pi_DieCntPerChip r \<in> {1, 2, 4}
     \<and> pi_EccMode r \<le> 4 \<and> pi_AccessFreq r \<in> {10..30}
     \<and> pi_ReadRetryType r \<in> {0, 0x000604, 0x010604, 0x100504, 0x200e04}
     \<and> (case pi_OptionOp r of None \<Rightarrow> False | Some opt \<Rightarrow>
          length (MultiPlaneReadCmd opt) = 2 \<and> length (MultiPlaneWriteCmd opt) = 2
        \<and> length (MultiPlaneCopyReadCmd opt) = 3 \<and> length (MultiPlaneCopyWriteCmd opt) = 3
        \<and> (pi_OperationOpt r AND 0x8 \<noteq> 0 \<longrightarrow> 0 < MultiPlaneBlockOffset opt
            \<and> unat (pi_BlkCntPerDie r) mod (2 * unat (MultiPlaneBlockOffset opt)) = 0))"

lemmas para_defs = PhysicArchiPara0_def PhysicArchiPara1_def PhysicArchiPara2_def PhysicArchiPara3_def
  PhysicArchiPara4_def PhysicArchiPara5_def PhysicArchiPara6_def PhysicArchiPara7_def PhysicArchiPara8_def
  PhysicArchiPara9_def

definition table_ok :: "phy_info list \<Rightarrow> bool" where
  "table_ok t \<longleftrightarrow> list_all chip_ok (butlast t) \<and> t \<noteq> [] \<and> length (pi_NandID (last t)) = 8
     \<and> pi_NandID (last t) ! 0 = 0xff"

lemma tables_ok:
  "table_ok SamsungNandTbl" "table_ok HynixNandTbl" "table_ok MicronNandTbl" "table_ok IntelNandTbl"
  "table_ok ToshibaNandTbl" "table_ok StNandTbl" "table_ok SpansionNandTbl" "table_ok PowerNandTbl"
  "table_ok DefaultNandTbl"
  by (simp_all add: table_ok_def SamsungNandTbl_def HynixNandTbl_def MicronNandTbl_def IntelNandTbl_def
      ToshibaNandTbl_def StNandTbl_def SpansionNandTbl_def PowerNandTbl_def DefaultNandTbl_def
      chip_ok_def chip_row_def para_defs)

section \<open>The lookup\<close>

text \<open>A row matches an id if each of its bytes one to five is that of the id or wild; the more of them are
  not wild, the more specific is the row.\<close>

definition row_matches :: "u8 list \<Rightarrow> phy_info \<Rightarrow> bool" where
  "row_matches nid r \<longleftrightarrow> (\<forall>j\<in>{1..<6}. nid ! j = pi_NandID r ! j \<or> pi_NandID r ! j = 0xff)"

definition id_count :: "phy_info \<Rightarrow> nat" where
  "id_count r = 1 + length (filter (\<lambda>j. pi_NandID r ! j \<noteq> 0xff) [1..<6])"

lemma id_bytes_at:
  assumes "j + n \<le> length nid" and "j + n \<le> length row"
  shows "id_bytes nid row n j b = Some (if \<forall>k\<in>{j..<j + n}. nid ! k = row ! k \<or> row ! k = 0xff
    then Some (b + length (filter (\<lambda>k. row ! k \<noteq> 0xff) [j..<j + n])) else None)"
  using assms
proof (induction n arbitrary: j b)
  case (Suc n)
  have r: "{j..<j + Suc n} = insert j {Suc j..<Suc j + n}" and u: "[j..<j + Suc n] = j # [Suc j..<Suc j + n]"
    by (auto simp: upt_conv_Cons simp del: upt_Suc)
  have g: "arr_get nid j = Some (nid ! j)" "arr_get row j = Some (row ! j)"
    using Suc.prems by (simp_all add: arr_get_def)
  show ?case
    unfolding id_bytes.simps g r u using Suc.IH [of "Suc j"] Suc.prems by (auto simp del: upt_Suc)
qed simp

lemma id_bytes_row:
  assumes "6 \<le> length nid" and "length (pi_NandID r) = 8"
  shows "id_bytes nid (pi_NandID r) 5 1 1 = Some (if row_matches nid r then Some (id_count r) else None)"
  using id_bytes_at [of 1 5 nid "pi_NandID r" 1] assms by (simp add: row_matches_def id_count_def)

lemma id_count_le: "id_count r \<le> 6"
  using length_filter_le [of "\<lambda>j. pi_NandID r ! j \<noteq> 0xff" "[1..<6]"] by (simp add: id_count_def)

text \<open>What the three entries of \<open>id_match_tbl\<close> say about the rows seen.\<close>

definition seen :: "u8 list \<Rightarrow> phy_info set \<Rightarrow> nat \<Rightarrow> phy_info option \<Rightarrow> bool" where
  "seen nid R k m \<longleftrightarrow> (case m of None \<Rightarrow> \<forall>r\<in>R. row_matches nid r \<longrightarrow> id_count r \<noteq> k
     | Some r \<Rightarrow> r \<in> R \<and> row_matches nid r \<and> id_count r = k)"

lemma seen_step:
  assumes "seen nid R k m"
  shows "seen nid (insert r R) k (if row_matches nid r \<and> id_count r = k then Some r else m)"
  using assms by (auto simp: seen_def split: option.splits)

lemma id_scan_seen:
  assumes "6 \<le> length nid"
  shows "t \<noteq> [] \<Longrightarrow> list_all chip_ok (butlast t) \<Longrightarrow> length (pi_NandID (last t)) = 8 \<Longrightarrow> pi_NandID (last t) ! 0 = 0xff
    \<Longrightarrow> seen nid R 4 m4 \<Longrightarrow> seen nid R 5 m5 \<Longrightarrow> seen nid R 6 m6 \<Longrightarrow>
    \<exists>n4 n5 n6. id_scan nid t (m4, m5, m6) = Some (n4, n5, n6) \<and> seen nid (R \<union> set (butlast t)) 4 n4
      \<and> seen nid (R \<union> set (butlast t)) 5 n5 \<and> seen nid (R \<union> set (butlast t)) 6 n6"
proof (induction t arbitrary: R m4 m5 m6)
  case (Cons r rs)
  show ?case
  proof (cases "rs = []")
    case True
    then show ?thesis using Cons.prems by (simp add: arr_get_def)
  next
    case False
    define u where "u k m = (if row_matches nid r \<and> id_count r = k then Some r else m)" for k m
    have ok: "chip_ok r" using Cons.prems(2) False by simp
    have step: "id_scan nid (r # rs) (m4, m5, m6) = id_scan nid rs (u 4 m4, u 5 m5, u 6 m6)"
      using ok id_bytes_row [OF assms, of r] by (auto simp: arr_get_def chip_ok_def u_def)
    have R: "R \<union> set (butlast (r # rs)) = insert r R \<union> set (butlast rs)" using False by auto
    have "\<exists>n4 n5 n6. id_scan nid rs (u 4 m4, u 5 m5, u 6 m6) = Some (n4, n5, n6)
        \<and> seen nid (insert r R \<union> set (butlast rs)) 4 n4 \<and> seen nid (insert r R \<union> set (butlast rs)) 5 n5
        \<and> seen nid (insert r R \<union> set (butlast rs)) 6 n6"
      by (rule Cons.IH)
        (use Cons.prems False in \<open>simp_all add: u_def seen_step\<close>)
    then show ?thesis unfolding step R .
  qed
qed simp

definition chip_rows :: "u8 \<Rightarrow> phy_info set" where
  "chip_rows m = set (butlast (manu_table m))"

lemma manu_table_ok: "table_ok (manu_table m)"
  by (simp add: manu_table_def tables_ok)

lemma Search_rows:
  assumes "6 \<le> length nid"
  shows "\<exists>m4 m5 m6. SearchNandArchi nid =
      Some (case m6 of Some r \<Rightarrow> (0, Some r) | None \<Rightarrow> (case m5 of Some r \<Rightarrow> (0, Some r)
        | None \<Rightarrow> (case m4 of Some r \<Rightarrow> (0, Some r) | None \<Rightarrow> (- 1, None))))
    \<and> seen nid (chip_rows (nid ! 0)) 4 m4 \<and> seen nid (chip_rows (nid ! 0)) 5 m5 \<and> seen nid (chip_rows (nid ! 0)) 6 m6"
proof -
  have g: "arr_get nid 0 = Some (nid ! 0)" using assms by (cases nid) (simp_all add: arr_get_def)
  from id_scan_seen [OF assms, of "manu_table (nid ! 0)" "{}" None None None] manu_table_ok [of "nid ! 0"]
  obtain n4 n5 n6 where "id_scan nid (manu_table (nid ! 0)) (None, None, None) = Some (n4, n5, n6)"
    and "seen nid (chip_rows (nid ! 0)) 4 n4" "seen nid (chip_rows (nid ! 0)) 5 n5" "seen nid (chip_rows (nid ! 0)) 6 n6"
    by (auto simp: table_ok_def chip_rows_def seen_def)
  then show ?thesis unfolding SearchNandArchi_def g by (simp cong: option.case_cong) blast
qed

text \<open>C18: the lookup of a chip id returns a row of the manufacturer's table that matches the id in every
  byte that is not wild, and no matching row is more specific; it fails exactly when no row with at least
  four bytes matches, so a row with fewer bytes is never found.\<close>

theorem SearchNandArchi_most_specific:
  assumes "6 \<le> length nid"
  shows "\<exists>res. SearchNandArchi nid = Some res \<and> (case snd res of
      None \<Rightarrow> fst res = - 1 \<and> \<not> (\<exists>r\<in>chip_rows (nid ! 0). row_matches nid r \<and> 4 \<le> id_count r)
    | Some r \<Rightarrow> fst res = 0 \<and> r \<in> chip_rows (nid ! 0) \<and> row_matches nid r \<and> 4 \<le> id_count r
        \<and> \<not> (\<exists>r'\<in>chip_rows (nid ! 0). row_matches nid r' \<and> id_count r < id_count r'))"
proof -
  obtain m4 m5 m6 where s: "SearchNandArchi nid =
      Some (case m6 of Some r \<Rightarrow> (0, Some r) | None \<Rightarrow> (case m5 of Some r \<Rightarrow> (0, Some r)
        | None \<Rightarrow> (case m4 of Some r \<Rightarrow> (0, Some r) | None \<Rightarrow> (- 1, None))))"
    and m: "seen nid (chip_rows (nid ! 0)) 4 m4" "seen nid (chip_rows (nid ! 0)) 5 m5" "seen nid (chip_rows (nid ! 0)) 6 m6"
    using Search_rows [OF assms] by blast
  have top: "\<not> 6 < id_count r" "5 < id_count r \<Longrightarrow> id_count r = 6"
    "4 < id_count r \<Longrightarrow> id_count r = 5 \<or> id_count r = 6"
    "4 \<le> id_count r \<Longrightarrow> id_count r = 4 \<or> id_count r = 5 \<or> id_count r = 6" for r
    using id_count_le [of r] by linarith+
  show ?thesis
  proof (cases m6)
    case (Some r)
    then show ?thesis using m(3) by (simp add: s seen_def top(1))
  next
    case m6: None
    show ?thesis
    proof (cases m5)
      case (Some r)
      then show ?thesis using m(2,3) m6 by (auto simp: s seen_def dest: top(2))
    next
      case m5: None
      show ?thesis
        using m m5 m6 by (cases m4) (auto simp: s seen_def dest: top(3,4))
    qed
  qed
qed

lemma row_eqs:
  "row_matches nid r \<longleftrightarrow> (\<forall>j\<in>{1, 2, 3, 4, 5}. nid ! j = pi_NandID r ! j \<or> pi_NandID r ! j = 0xff)"
  "id_count r = 1 + length (filter (\<lambda>j. pi_NandID r ! j \<noteq> 0xff) [1, 2, 3, 4, 5])"
proof -
  have ix: "{1..<6} = {1, 2, 3, 4, 5 :: nat}" "[1..<6] = [1, 2, 3, 4, 5 :: nat]" by (auto simp: upt_rec)
  show "row_matches nid r \<longleftrightarrow> (\<forall>j\<in>{1, 2, 3, 4, 5}. nid ! j = pi_NandID r ! j \<or> pi_NandID r ! j = 0xff)"
    unfolding row_matches_def ix ..
  show "id_count r = 1 + length (filter (\<lambda>j. pi_NandID r ! j \<noteq> 0xff) [1, 2, 3, 4, 5])"
    unfolding id_count_def ix ..
qed

theorem SearchNandArchi_most_specific_witness:
  "\<exists>r. SearchNandArchi [0x01, 0xaa, 0x10, 0x00, 0, 0, 0, 0] = Some (0, Some r) \<and> pi_BlkCntPerDie r = 2048"
proof -
  let ?nid = "[0x01, 0xaa, 0x10, 0x00, 0, 0, 0, 0]"
  have rows: "chip_rows (?nid ! 0) = set (butlast SpansionNandTbl)" by (simp add: chip_rows_def manu_table_def)
  have one: "\<exists>r\<in>chip_rows (?nid ! 0). row_matches ?nid r \<and> 4 \<le> id_count r"
    unfolding rows by (simp add: SpansionNandTbl_def chip_row_def row_eqs)
  have only: "pi_BlkCntPerDie r = 2048" if "r \<in> chip_rows (?nid ! 0)" "row_matches ?nid r" "4 \<le> id_count r" for r
    using that unfolding rows by (auto simp: SpansionNandTbl_def chip_row_def row_eqs)
  from SearchNandArchi_most_specific [of ?nid] obtain res where res: "SearchNandArchi ?nid = Some res"
    and c: "case snd res of
      None \<Rightarrow> fst res = - 1 \<and> \<not> (\<exists>r\<in>chip_rows (?nid ! 0). row_matches ?nid r \<and> 4 \<le> id_count r)
    | Some r \<Rightarrow> fst res = 0 \<and> r \<in> chip_rows (?nid ! 0) \<and> row_matches ?nid r \<and> 4 \<le> id_count r
        \<and> \<not> (\<exists>r'\<in>chip_rows (?nid ! 0). row_matches ?nid r' \<and> id_count r < id_count r')"
    by auto
  obtain r where r: "snd res = Some r" using c one by (cases "snd res") (simp_all only: option.case simp_thms)
  have "res = (0, Some r)" using c unfolding r by (cases res) (use r in simp)
  moreover have "pi_BlkCntPerDie r = 2048" using c only [of r] unfolding r by simp
  ultimately show ?thesis using res by blast
qed

section \<open>The geometry after a scan\<close>

lemma id_scan_ok:
  "id_scan nid t (m4, m5, m6) = Some (n4, n5, n6) \<Longrightarrow> list_all chip_ok (butlast t) \<Longrightarrow>
      t \<noteq> [] \<Longrightarrow> pi_NandID (last t) ! 0 = 0xff \<Longrightarrow> pred_option chip_ok m4 \<Longrightarrow> pred_option chip_ok m5 \<Longrightarrow> pred_option chip_ok m6 \<Longrightarrow>
      pred_option chip_ok n4 \<and> pred_option chip_ok n5 \<and> pred_option chip_ok n6"
proof (induction t arbitrary: m4 m5 m6)
  case (Cons r rs)
  show ?case
  proof (cases "rs = []")
    case True
    then show ?thesis using Cons.prems by (auto simp: arr_get_def split: if_splits)
  next
    case False
    have ok: "chip_ok r" using Cons.prems(2) False by simp
    have t: "(if k = Some 4 then (Some r, m5, m6) else if k = Some 5 then (m4, Some r, m6)
        else if k = Some 6 then (m4, m5, Some r) else (m4, m5, m6))
      = (if k = Some (4 :: nat) then Some r else m4, if k = Some 5 then Some r else m5, if k = Some 6 then Some r else m6)" for k
      by auto
    have g: "arr_get (pi_NandID r) 0 = Some (pi_NandID r ! 0)" and n: "pi_NandID r ! 0 \<noteq> 0xff"
      using ok by (auto simp: arr_get_def chip_ok_def)
    from Cons.prems(1) obtain k where "id_bytes nid (pi_NandID r) 5 1 1 = Some k"
      unfolding id_scan.simps g using n by (cases "id_bytes nid (pi_NandID r) 5 1 1") simp_all
    then have k: "id_scan nid rs (if k = Some 4 then Some r else m4,
        if k = Some 5 then Some r else m5, if k = Some 6 then Some r else m6) = Some (n4, n5, n6)"
      using Cons.prems(1) n unfolding id_scan.simps g t by simp
    show ?thesis by (rule Cons.IH [OF k]) (use Cons.prems False ok in auto)
  qed
qed simp

lemma scan_row:
  assumes "SearchNandArchi nid = Some (e, Some p)"
  shows "chip_ok p"
proof -
  obtain m where m: "arr_get nid 0 = Some m" using assms by (cases "arr_get nid 0") (auto simp: SearchNandArchi_def)
  from assms show ?thesis
    using manu_table_ok [of m] id_scan_ok [of nid "manu_table m" None None None]
    by (auto simp: SearchNandArchi_def m Option.bind_eq_Some_conv table_ok_def split: option.splits)
qed

text \<open>The probe changes the count and the connections of the chips only, and counts the connected chips.\<close>

definition chips_counted :: "storage_info \<Rightarrow> nat \<Rightarrow> storage_info \<Rightarrow> bool" where
  "chips_counted st0 i st \<longleftrightarrow>
     st = st0\<lparr>ChipCnt := ChipCnt st, ChipConnectInfo := ChipConnectInfo st\<rparr>
     \<and> bit (ChipConnectInfo st) 0 \<and> (\<forall>j\<ge>i. \<not> bit (ChipConnectInfo st) j)
     \<and> unat (ChipCnt st) = card {j. j < i \<and> bit (ChipConnectInfo st) j}"

lemma connect_bit: "i < 16 \<Longrightarrow> bit (k OR push_bit i 1 :: u16) j \<longleftrightarrow> bit k j \<or> j = i"
  by (auto simp: bit_or_iff bit_push_bit_iff bit_1_iff simp del: push_bit_of_1)

lemma chips_counted_step:
  assumes c: "chips_counted st0 i st" and i: "0 < i" "i < 8"
  shows "chips_counted st0 (Suc i) st"
    and "chips_counted st0 (Suc i) (st\<lparr>ChipCnt := ChipCnt st + 1, ChipConnectInfo := ChipConnectInfo st OR push_bit i 1\<rparr>)"
proof -
  let ?k = "ChipConnectInfo st" and ?k' = "ChipConnectInfo st OR push_bit i 1"
  have old: "{j. j < Suc i \<and> bit ?k j} = {j. j < i \<and> bit ?k j}"
    using c by (auto simp: chips_counted_def less_Suc_eq)
  show "chips_counted st0 (Suc i) st" using c old by (auto simp: chips_counted_def)
  have b: "bit ?k' j \<longleftrightarrow> bit ?k j \<or> j = i" for j
    using i by (simp only: connect_bit)
  have new: "{j. j < Suc i \<and> bit ?k' j} = insert i {j. j < i \<and> bit ?k j}"
    unfolding b using c by (auto simp: chips_counted_def less_Suc_eq)
  have "card {j. j < i \<and> bit ?k j} \<le> card {..<i}" by (rule card_mono) auto
  then have "unat (ChipCnt st + 1) = Suc (card {j. j < i \<and> bit ?k j})"
    using c i by (simp add: chips_counted_def unat_word_ariths)
  moreover have "card (insert i {j. j < i \<and> bit ?k j}) = Suc (card {j. j < i \<and> bit ?k j})" by simp
  ultimately have cnt: "unat (ChipCnt st + 1) = card {j. j < Suc i \<and> bit ?k' j}" unfolding new by simp
  have "st = st0\<lparr>ChipCnt := ChipCnt st, ChipConnectInfo := ?k\<rparr>" using c by (simp add: chips_counted_def)
  then have "st\<lparr>ChipCnt := ChipCnt st + 1, ChipConnectInfo := ?k'\<rparr>
      = st0\<lparr>ChipCnt := ChipCnt st + 1, ChipConnectInfo := ?k'\<rparr>"
    by (metis (no_types, lifting) storage_info.update_convs(1,2) storage_info.surjective)
  then show "chips_counted st0 (Suc i) (st\<lparr>ChipCnt := ChipCnt st + 1, ChipConnectInfo := ?k'\<rparr>)"
    using c cnt b by (auto simp: chips_counted_def)
qed

lemma probe_counted:
  "probe_chips H n i t st s = Some (t', st', s') \<Longrightarrow> chips_counted st0 i st \<Longrightarrow> 0 < i \<Longrightarrow> i + n = 8 \<Longrightarrow>
   chips_counted st0 8 st'"
proof (induction n arbitrary: i t st s)
  case (Suc n)
  then show ?case
    by (auto simp: Option.bind_eq_Some_conv dest!: Suc.IH intro: chips_counted_step simp del: push_bit_of_1 split: if_splits)
qed simp

text \<open>What a successful scan has done.\<close>

lemma scan_steps:
  assumes "SCN_AnalyzeNandSystem C H s = Some (0, C', s')"
  obtains p st0 st where "chip_ok p" and "set_archi p (default_storage (storage C)) = Some st0"
    and "chips_counted (set_options st0) 8 st" and "rb_mode (ChipCnt st) (ChipConnectInfo st) \<noteq> 0xff"
    and "storage C' = ext_interleave (st\<lparr>RbConnectMode := rb_mode (ChipCnt st) (ChipConnectInfo st)\<rparr>)"
proof -
  from assms obtain e p t s1 where p: "SearchNandArchi t = Some (e, Some p)"
    and a: "scan_archi (C\<lparr>storage := default_storage (storage C)\<rparr>) H t p s1 = Some (0, C', s')"
    unfolding SCN_AnalyzeNandSystem_def Let_def
    by (auto simp: Option.bind_eq_Some_conv split: if_split_asm option.split_asm prod.split_asm)
  from a obtain st0 t' st s2 where st0: "set_archi p (default_storage (storage C)) = Some st0"
    and pr: "probe_chips H 7 1 t (set_options st0) s1 = Some (t', st, s2)"
    and m: "rb_mode (ChipCnt st) (ChipConnectInfo st) \<noteq> 0xff"
    and f: "scan_finish (C\<lparr>storage := default_storage (storage C)\<rparr>) H
      (st\<lparr>RbConnectMode := rb_mode (ChipCnt st) (ChipConnectInfo st)\<rparr>) s2 = Some (0, C', s')"
    unfolding scan_archi_def Let_def
    by (auto simp: Option.bind_eq_Some_conv split: if_split_asm)
  have "chips_counted (set_options st0) 1 (set_options st0)"
    using st0 by (auto simp: chips_counted_def set_options_def set_archi_def default_storage_def Let_def
      Option.bind_eq_Some_conv bit_1_iff)
  then have "chips_counted (set_options st0) 8 st" using probe_counted [OF pr] by simp
  moreover have "storage C' = ext_interleave (st\<lparr>RbConnectMode := rb_mode (ChipCnt st) (ChipConnectInfo st)\<rparr>)"
    using f by (auto simp: scan_finish_def Let_def Option.bind_eq_Some_conv split_beta split: if_split_asm)
  ultimately show ?thesis using that scan_row [OF p] st0 m by blast
qed

text \<open>What the other modules rely on: a page of four to sixteen sectors, a super page of at most thirty-two,
  one bank in a chip, and two planes of whole block groups when two planes are written at a time.\<close>

definition geometry_ok :: "cfg \<Rightarrow> bool" where
  "geometry_ok C \<longleftrightarrow>
     SectorCntPerPage (storage C) \<in> {4, 8, 16} \<and> PageCntPerPhyBlk (storage C) \<in> {64, 128, 256}
     \<and> BlkCntPerDie (storage C) \<in> {1024, 2048, 4096, 8192} \<and> DieCntPerChip (storage C) \<in> {1, 2, 4}
     \<and> ChipCnt (storage C) \<in> {1, 2, 4, 8} \<and> BNK_CNT_OF_CHIP C = 1
     \<and> SECTOR_CNT_OF_SUPER_PAGE C \<in> {4, 8, 16, 32}
     \<and> (if SUPPORT_MULTI_PROGRAM C then multi_plane_cfg C else PLANE_CNT_OF_DIE C = 1)
     \<and> EccMode (storage C) \<le> 4 \<and> length (NandChipId (storage C)) = 8"

lemma options_bits:
  "(w AND - 33) AND 8 = (w AND 8 :: u16)" "(w OR 64) AND 8 = (w AND 8 :: u16)"
  "(w AND - 33) AND 32 = (0 :: u16)"
  by (simp_all add: and.assoc bit.conj_disj_distrib2)

lemma set_options_eq:
  "set_options st = st\<lparr>OperationOpt := OperationOpt st AND NOT 0x20, BankCntPerChip := 1,
     PlaneCntPerDie := (if OperationOpt st AND 8 = 0 then 1 else PlaneCntPerDie st)\<rparr>"
  by (simp add: set_options_def cfg_options_def cfg_switches options_bits Let_def)

lemma rb_mode_chips: "rb_mode n k \<noteq> 0xff \<Longrightarrow> n \<in> {1, 2, 4, 8}"
  by (auto simp: rb_mode_def split: if_split_asm)

lemma ext_interleave_fields:
  "ChipCnt (ext_interleave st) = ChipCnt st" "ChipConnectInfo (ext_interleave st) = ChipConnectInfo st"
  "RbConnectMode (ext_interleave st) = RbConnectMode st" "BankCntPerChip (ext_interleave st) = BankCntPerChip st"
  "DieCntPerChip (ext_interleave st) = DieCntPerChip st" "PlaneCntPerDie (ext_interleave st) = PlaneCntPerDie st"
  "SectorCntPerPage (ext_interleave st) = SectorCntPerPage st" "PageCntPerPhyBlk (ext_interleave st) = PageCntPerPhyBlk st"
  "BlkCntPerDie (ext_interleave st) = BlkCntPerDie st" "EccMode (ext_interleave st) = EccMode st"
  "NandChipId (ext_interleave st) = NandChipId st" "OptPhyOpPar (ext_interleave st) = OptPhyOpPar st"
  "OperationOpt (ext_interleave st) AND 8 = OperationOpt st AND 8"
  by (auto simp: ext_interleave_def cfg_switches options_bits)

lemma set_archi_geometry:
  assumes p: "chip_ok p" "set_archi p d = Some st0" and C: "storage C = ext_interleave (st\<lparr>RbConnectMode := m\<rparr>)"
    and st: "st = (set_options st0)\<lparr>ChipCnt := n, ChipConnectInfo := k\<rparr>" and n: "n \<in> {1, 2, 4, 8}"
  shows "geometry_ok C"
proof -
  obtain opt where opt: "pi_OptionOp p = Some opt" using p(2) by (cases "pi_OptionOp p") (simp_all add: set_archi_def)
  have d: "BlkCntPerDie st0 = pi_BlkCntPerDie p" "OperationOpt st0 = pi_OperationOpt p" "OptPhyOpPar st0 = opt"
    "SectorCntPerPage st0 = pi_SectCntPerPage p" "PageCntPerPhyBlk st0 = pi_PageCntPerBlk p"
    "DieCntPerChip st0 = pi_DieCntPerChip p" "PlaneCntPerDie st0 = 2" "EccMode st0 = ucast (pi_EccMode p)"
    "NandChipId st0 = pi_NandID p"
    using p(2) by (auto simp: set_archi_def opt)
  have e: "ucast (pi_EccMode p) \<le> (4 :: u8)" using p(1)
    by (auto simp: chip_ok_def word_le_nat_alt unsigned_ucast_eq take_bit_eq_mod)
  have pages: "pi_SectCntPerPage p \<in> {4, 8, 16}" "pi_PageCntPerBlk p \<in> {64, 128, 256}"
    "pi_BlkCntPerDie p \<in> {1024, 2048, 4096, 8192}" "pi_DieCntPerChip p \<in> {1, 2, 4}" "length (pi_NandID p) = 8"
    and off: "pi_OperationOpt p AND 8 \<noteq> 0 \<Longrightarrow> 0 < MultiPlaneBlockOffset opt"
    "pi_OperationOpt p AND 8 \<noteq> 0 \<Longrightarrow> unat (pi_BlkCntPerDie p) mod (2 * unat (MultiPlaneBlockOffset opt)) = 0"
    using p(1) unfolding chip_ok_def opt by (simp_all only: option.case simp_thms)
  have C: "SectorCntPerPage (storage C) = pi_SectCntPerPage p" "PageCntPerPhyBlk (storage C) = pi_PageCntPerBlk p"
    "BlkCntPerDie (storage C) = pi_BlkCntPerDie p" "DieCntPerChip (storage C) = pi_DieCntPerChip p"
    "ChipCnt (storage C) = n" "BankCntPerChip (storage C) = 1"
    "PlaneCntPerDie (storage C) = (if pi_OperationOpt p AND 8 = 0 then 1 else 2)"
    "EccMode (storage C) = ucast (pi_EccMode p)" "NandChipId (storage C) = pi_NandID p"
    "OptPhyOpPar (storage C) = opt" "OperationOpt (storage C) AND 8 = pi_OperationOpt p AND 8"
    by (simp_all add: C ext_interleave_fields st set_options_eq d options_bits)
  have mp: "SUPPORT_MULTI_PROGRAM C \<longleftrightarrow> pi_OperationOpt p AND 8 \<noteq> 0"
    using C(11) by (simp add: SUPPORT_MULTI_PROGRAM_def and.commute)
  have super: "SECTOR_CNT_OF_SUPER_PAGE C \<in> {4, 8, 16, 32}"
    using pages(1) by (auto simp: SECTOR_CNT_OF_SUPER_PAGE_def C)
  have die: "1 \<le> unat (pi_DieCntPerChip p)" using pages(4) by auto
  have lt: "unat (MultiPlaneBlockOffset opt) < 2 ^ 16" using unsigned_less [of "MultiPlaneBlockOffset opt"] by simp
  have offset: "unat (MULTI_PLANE_BLOCK_OFFSET C) = unat (MultiPlaneBlockOffset opt)"
    unfolding MULTI_PLANE_BLOCK_OFFSET_def C unsigned_ucast_eq
    by (rule take_bit_nat_eq_self, rule less_le_trans [OF lt]) simp
  have two: "if SUPPORT_MULTI_PROGRAM C then multi_plane_cfg C else PLANE_CNT_OF_DIE C = 1"
    using off die offset by (simp add: mp multi_plane_cfg_def PLANE_CNT_OF_DIE_def BNK_CNT_OF_CHIP_def
      BLOCK_CNT_OF_DIE_def DIE_CNT_OF_CHIP_def word_less_nat_alt C)
  have bnk: "BNK_CNT_OF_CHIP C = 1" by (simp add: BNK_CNT_OF_CHIP_def C)
  show ?thesis
    using pages n e super two unfolding geometry_ok_def C bnk by blast
qed

lemma scan_geometry_cfg:
  assumes "SCN_AnalyzeNandSystem C H s = Some (0, C', s')"
  shows "geometry_ok C'"
proof -
  from assms obtain p st0 st where p: "chip_ok p" "set_archi p (default_storage (storage C)) = Some st0"
    and c: "chips_counted (set_options st0) 8 st" and m: "rb_mode (ChipCnt st) (ChipConnectInfo st) \<noteq> 0xff"
    and C': "storage C' = ext_interleave (st\<lparr>RbConnectMode := rb_mode (ChipCnt st) (ChipConnectInfo st)\<rparr>)"
    by (rule scan_steps)
  from c have "st = (set_options st0)\<lparr>ChipCnt := ChipCnt st, ChipConnectInfo := ChipConnectInfo st\<rparr>"
    by (simp add: chips_counted_def)
  then show ?thesis by (rule set_archi_geometry [OF p C' _ rb_mode_chips [OF m]])
qed

text \<open>C19: the bus scan either fails or leaves a configuration every other module can work with.\<close>

theorem scan_geometry:
  assumes "SCN_AnalyzeNandSystem C H s = Some (0, C', s')"
  shows "geometry_ok C'"
  by (rule scan_geometry_cfg [OF assms])

lemma all_chips:
  assumes "card {j :: nat. j < 8 \<and> P j} = 8" and "j < 8"
  shows "P j"
proof -
  have "{j. j < 8 \<and> P j} = {..<8}" by (rule card_subset_eq) (use assms in auto)
  then show ?thesis using assms(2) by blast
qed

lemma rb_mode_cases:
  assumes "rb_mode n k \<noteq> 0xff"
  obtains "n = 1" "rb_mode n k = 1" "bit k 0"
    | "n = 2" "rb_mode n k = 2" "bit k 0" "bit k 1"
    | "n = 2" "rb_mode n k = 3" "bit k 0" "bit k 2"
    | "n = 2" "rb_mode n k = 0" "bit k 0" "bit k 7"
    | "n = 4" "rb_mode n k = 4" "bit k 0" "bit k 1" "bit k 2" "bit k 3"
    | "n = 4" "rb_mode n k = 5" "bit k 0" "bit k 2" "bit k 4" "bit k 6"
    | "n = 8" "rb_mode n k = 8"
  using assms unfolding rb_mode_def by (simp split: if_split_asm)

lemma banks_upto:
  "{..<Suc 0} = {0}" "{..<2} = {0, 1 :: nat}" "{..<4} = {0, 1, 2, 3 :: nat}"
  "{..<8} = {0, 1, 2, 3, 4, 5, 6, 7 :: nat}"
  by auto

text \<open>C20: the banks that the geometry promises are chips the scan has found, each bank another one.\<close>

theorem scan_banks_connected:
  assumes "SCN_AnalyzeNandSystem C H s = Some (0, C', s')"
  defines "chip \<equiv> \<lambda>b :: nat. unat (cal_real_chip C' (of_nat b))"
  shows "inj_on chip {..<unat (ChipCnt (storage C'))}
    \<and> chip ` {..<unat (ChipCnt (storage C'))} \<subseteq> {j. j < 8 \<and> bit (ChipConnectInfo (storage C')) j}"
proof -
  from assms(1) obtain p st0 st where c: "chips_counted (set_options st0) 8 st"
    and m: "rb_mode (ChipCnt st) (ChipConnectInfo st) \<noteq> 0xff"
    and C': "storage C' = ext_interleave (st\<lparr>RbConnectMode := rb_mode (ChipCnt st) (ChipConnectInfo st)\<rparr>)"
    by (rule scan_steps)
  have chips: "chip = (\<lambda>b. unat (cal_real_chip C' (of_nat b)))" by (simp add: chip_def)
  have f: "ChipCnt (storage C') = ChipCnt st" "ChipConnectInfo (storage C') = ChipConnectInfo st"
    "RB_CONNECT_MODE C' = rb_mode (ChipCnt st) (ChipConnectInfo st)"
    by (simp_all add: C' RB_CONNECT_MODE_def ext_interleave_fields)
  have "bit (ChipConnectInfo st) j" if "ChipCnt st = 8" "j < 8" for j
    using c that all_chips by (auto simp: chips_counted_def)
  note all = this
  from m show ?thesis unfolding chips f
    by (cases rule: rb_mode_cases)
      (simp_all add: banks_upto cal_real_chip_def f all)
qed

section \<open>A scan that finds eight chips\<close>

text \<open>A controller without state: always ready, the id in its RAM is that of a two-die chip, every chip
  select answers.\<close>

definition scan_hw :: "unit nfc_hw" where
  "scan_hw = \<lparr>hw_read = (\<lambda>r h. (if r = NFC_REG_ST then 0xf02 else 0, h)),
     hw_write = (\<lambda>r v h. h), hw_read_ram = (\<lambda>r h. ([0xec, 0xd7, 0xd5, 0x29, 0x38] ! (r - NFC_RAM0_BASE), h)),
     hw_write_ram = (\<lambda>r b h. h), hw_request_dma = (\<lambda>h. (1, h)), hw_release_dma = (\<lambda>d h. h),
     hw_start_dma = (\<lambda>w d n h. h), hw_query_dma = (\<lambda>h. (0, h)), hw_dma_data = (\<lambda>h. []),
     hw_malloc = (\<lambda>n h. (Some (replicate n 0), h))\<rparr>"

lemma scan_hw_regs:
  "NFC_READ_REG scan_hw r s = (if r = NFC_REG_ST then 0xf02 else 0, s)" "NFC_WRITE_REG scan_hw r v s = s"
  "NFC_READ_RAM_B scan_hw (NFC_RAM0_BASE + i) s = ([0xec, 0xd7, 0xd5, 0x29, 0x38] ! i, s)"
  "reg_upd scan_hw r f s = s"
  by (simp_all add: NFC_READ_REG_def NFC_WRITE_REG_def NFC_READ_RAM_B_def reg_upd_def scan_hw_def)

lemma poll_done: "busy s = (False, s') \<Longrightarrow> 0 < t \<Longrightarrow> poll busy t s = (int t - 1, s')"
  by (cases t) simp_all

lemma scan_hw_waits:
  "wait_cmdfifo_free scan_hw s = (0, s)" "wait_cmd_finish scan_hw s = (0, s)" "wait_cmd_done scan_hw s = (0, s)"
  "nfc_reset scan_hw s = (0, s)" "nfc_repeat_mode_enable scan_hw s = s" "nfc_repeat_mode_disable scan_hw s = s"
proof -
  show a: "wait_cmdfifo_free scan_hw s = (0, s)"
    unfolding wait_cmdfifo_free_def by (subst poll_done [of _ _ s]) (simp_all add: scan_hw_regs)
  show b: "wait_cmd_finish scan_hw s = (0, s)"
    unfolding wait_cmd_finish_def by (subst poll_done [of _ _ s]) (simp_all add: scan_hw_regs)
  show "wait_cmd_done scan_hw s = (0, s)" by (simp add: wait_cmd_done_def a b)
  show "nfc_reset scan_hw s = (0, s)"
    unfolding nfc_reset_def Let_def by (subst poll_done [of _ _ s]) (simp_all add: scan_hw_regs)
  show "nfc_repeat_mode_enable scan_hw s = s" "nfc_repeat_mode_disable scan_hw s = s"
    by (simp_all add: nfc_repeat_mode_enable_def nfc_repeat_mode_disable_def scan_hw_regs)
qed

lemma scan_hw_cmds:
  "PHY_ResetChip scan_hw c s = Some (0, s)"
  "PHY_ReadNandId scan_hw c [b0, b1, b2, b3, b4, b5, b6, b7] s
    = Some (0, [0xec, 0xd7, 0xd5, 0x29, 0x38, b5, b6, b7], s)"
proof -
  have b: "rb_busy scan_hw i s = (False, s)" if "i \<in> {0, 1}" for i s
    using that by (auto simp: rb_busy_def NFC_CheckRbReady_def scan_hw_regs)
  have p: "poll (rb_busy scan_hw i) t s = (int t - 1, s)" if "i \<in> {0, 1}" "0 < t" for i t s
    using poll_done [OF b [OF that(1)] that(2)] .
  show "PHY_ResetChip scan_hw c s = Some (0, s)"
    by (simp add: PHY_ResetChip_def NFC_ResetChip_def run_cmds_def scan_hw_waits scan_hw_regs add_cmd_list_def
      NFC_SelectChip_def NFC_SelectRb_def NFC_DeSelectChip_def p)
  have ids: "read_ram_bytes scan_hw n i s = (map ((!) [0xec, 0xd7, 0xd5, 0x29, 0x38]) [i..<i + n], s)" for n i s
    by (induction n arbitrary: i) (simp_all add: scan_hw_regs upt_conv_Cons del: upt_Suc)
  have five: "map ((!) [0xec, 0xd7, 0xd5, 0x29, 0x38]) [0..<0 + 5] = [0xec, 0xd7, 0xd5, 0x29, 0x38 :: u8]"
    by (simp add: upt_rec)
  have set: "nfc_set_cmd_register scan_hw [add_cmd_list 0x90 1 [0] 1 0 6 0] s = Some (0, s)" for s
    by (simp add: add_cmd_list_def scan_hw_waits scan_hw_regs set_addr_def arr_get_def)
  show "PHY_ReadNandId scan_hw c [b0, b1, b2, b3, b4, b5, b6, b7] s
    = Some (0, [0xec, 0xd7, 0xd5, 0x29, 0x38, b5, b6, b7], s)"
    by (simp only: PHY_ReadNandId_def NFC_GetId_def get_id_bytes_def scan_hw_waits scan_hw_regs set ids five
      NFC_SelectChip_def NFC_DeSelectChip_def) (simp add: mem_put_def)
qed

lemma scan_hw_probe:
  assumes "NandChipId st = [0xec, 0xd7, 0xd5, 0x29, 0xff, 0xff, 0xff, 0xff]"
  shows "\<exists>k. probe_chips scan_hw n i [0xec, 0xd7, 0xd5, 0x29, 0x38, b5, b6, b7] st s
    = Some ([0xec, 0xd7, 0xd5, 0x29, 0x38, b5, b6, b7], st\<lparr>ChipCnt := ChipCnt st + of_nat n, ChipConnectInfo := k\<rparr>, s)"
  using assms
proof (induction n arbitrary: i st)
  case 0
  have "st = st\<lparr>ChipCnt := ChipCnt st + of_nat 0, ChipConnectInfo := ChipConnectInfo st\<rparr>" by simp
  then show ?case unfolding probe_chips.simps by metis
next
  case (Suc n)
  have same: "same_chip [0xec, 0xd7, 0xd5, 0x29, 0x38, b5, b6, b7] (NandChipId st) = Some True"
    by (simp add: same_chip_def Suc.prems arr_get_def)
  define st1 where "st1 = st\<lparr>ChipCnt := ChipCnt st + 1, ChipConnectInfo := ChipConnectInfo st OR push_bit i 1\<rparr>"
  from Suc.IH [of st1 "Suc i"] obtain k where
    "probe_chips scan_hw n (Suc i) [0xec, 0xd7, 0xd5, 0x29, 0x38, b5, b6, b7] st1 s
     = Some ([0xec, 0xd7, 0xd5, 0x29, 0x38, b5, b6, b7], st1\<lparr>ChipCnt := ChipCnt st1 + of_nat n, ChipConnectInfo := k\<rparr>, s)"
    using Suc.prems by (auto simp: st1_def)
  then have "probe_chips scan_hw (Suc n) i [0xec, 0xd7, 0xd5, 0x29, 0x38, b5, b6, b7] st s
     = Some ([0xec, 0xd7, 0xd5, 0x29, 0x38, b5, b6, b7], st\<lparr>ChipCnt := ChipCnt st + of_nat (Suc n), ChipConnectInfo := k\<rparr>, s)"
    by (simp add: scan_hw_cmds same st1_def add_ac del: push_bit_of_1)
  then show ?case by blast
qed

lemma chip_ok_id: "chip_ok r \<Longrightarrow> length (pi_NandID r) = 8 \<and> pi_NandID r ! 0 \<noteq> 0xff"
  by (simp add: chip_ok_def)

lemma id_scan_row:
  "chip_ok r \<Longrightarrow> 6 \<le> length nid \<Longrightarrow> id_scan nid (r # rs) (m4, m5, m6) = id_scan nid rs
     (if row_matches nid r \<and> id_count r = 4 then Some r else m4, if row_matches nid r \<and> id_count r = 5 then Some r else m5,
      if row_matches nid r \<and> id_count r = 6 then Some r else m6)"
  by (auto simp: id_bytes_row [unfolded One_nat_def] arr_get_def dest: chip_ok_id)

lemma id_scan_end: "pi_NandID r = 0xff # x \<Longrightarrow> id_scan nid (r # rs) m = Some m"
  by (cases m) (simp add: arr_get_def)

lemma scan_hw_search:
  "SearchNandArchi [0xec, 0xd7, 0xd5, 0x29, 0x38, b5, b6, b7] = Some (0, Some (SamsungNandTbl ! 19))"
proof -
  have rows: "list_all chip_ok (butlast SamsungNandTbl)" using tables_ok(1) by (simp add: table_ok_def)
  have "id_scan [0xec, 0xd7, 0xd5, 0x29, 0x38, b5, b6, b7] SamsungNandTbl (None, None, None)
      = Some (Some (SamsungNandTbl ! 19), None, None)"
    using rows unfolding SamsungNandTbl_def
    by (simp add: id_scan_row id_scan_end row_eqs chip_row_def arr_get_def del: id_scan.simps(2))
  then show ?thesis by (simp add: SearchNandArchi_def manu_table_def arr_get_def)
qed

lemma scan_hw_synch:
  "phys_SynchBank (C\<lparr>storage := default_storage st\<rparr>) scan_hw 0 0 s = Some (0, s)"
proof -
  let ?C = "C\<lparr>storage := default_storage st\<rparr>"
  have sel: "select_chip_rb ?C scan_hw c s = s" "deselect_chip_rb ?C c s = s" for c s
    by (simp_all add: select_chip_rb_def deselect_chip_rb_def NFC_SelectChip_def NFC_SelectRb_def
      NFC_DeSelectChip_def NFC_DeSelectRb_def scan_hw_regs)
  have st: "read_status ?C scan_hw 0x70 b s = Some (0xec, s)" for b s
    using scan_hw_regs(3) [of 0 s]
    by (simp add: read_status_def NFC_GetStatus_def scan_hw_waits scan_hw_regs add_cmd_list_def)
  have loop: "synch_loop ?C scan_hw 0x70 b t s = Some (Inr 0xec, s)" for b t s
    by (cases t) (simp_all add: st)
  have "synch_cmd ?C 0 0 = 0x70" "BNK_CNT_OF_CHIP ?C = 1" "cal_real_chip ?C 0 = 0"
    by (simp_all add: synch_cmd_def SUPPORT_MULTI_PROGRAM_def BNK_CNT_OF_CHIP_def default_storage_def
      cal_real_chip_def RB_CONNECT_MODE_def Let_def)
  then show ?thesis by (simp add: phys_SynchBank_def sel loop)
qed

lemma scan_hw_finish:
  assumes "OperationOpt st AND 0x200 = 0" "OperationOpt st AND 0x100 = 0"
  shows "\<exists>s'. scan_finish C scan_hw st s = Some (0, C\<lparr>storage := ext_interleave st\<rparr>, s')"
proof -
  have "OperationOpt (ext_interleave st) AND 0x200 = 0" "OperationOpt (ext_interleave st) AND 0x100 = 0" using assms
    by (simp_all add: ext_interleave_def cfg_switches bit.conj_disj_distrib2)
  then have "\<not> SUPPORT_READ_UNIQUE_ID (C\<lparr>storage := ext_interleave st\<rparr>)" "\<not> SUPPORT_READ_RETRY (C\<lparr>storage := ext_interleave st\<rparr>)"
    by (simp_all add: SUPPORT_READ_UNIQUE_ID_def SUPPORT_READ_RETRY_def and.commute)
  then show ?thesis by (simp add: scan_finish_def Let_def split_beta)
qed

lemma scan_hw_scan:
  "\<exists>C' s'. SCN_AnalyzeNandSystem C scan_hw s = Some (0, C', s') \<and> ChipCnt (storage C') = 8"
proof -
  let ?d = "default_storage (storage C)" and ?p = "SamsungNandTbl ! 19"
  have p: "?p = chip_row [0xec, 0xd7, 0xd5, 0x29, 0xff, 0xff, 0xff, 0xff] 2 8 128 4096 0x0028 974 30 0 0 0 (Some PhysicArchiPara3)"
    by (simp add: SamsungNandTbl_def)
  obtain b5 b6 b7 where t: "\<And>s. PHY_ReadNandId scan_hw 0 (map (junk8 C) [0..<8]) s
      = Some (0, [0xec, 0xd7, 0xd5, 0x29, 0x38, b5, b6, b7], s)"
    using scan_hw_cmds(2) by (fastforce simp: upt_rec)
  obtain st0 where st0: "set_archi ?p ?d = Some st0" "OperationOpt st0 = 0x28" "ChipCnt st0 = 1"
    "NandChipId st0 = [0xec, 0xd7, 0xd5, 0x29, 0xff, 0xff, 0xff, 0xff]"
    unfolding p by (auto simp: set_archi_def chip_row_def default_storage_def)
  obtain k where k: "probe_chips scan_hw 7 1 [0xec, 0xd7, 0xd5, 0x29, 0x38, b5, b6, b7] (set_options st0) s
      = Some ([0xec, 0xd7, 0xd5, 0x29, 0x38, b5, b6, b7], (set_options st0)\<lparr>ChipCnt := 8, ChipConnectInfo := k\<rparr>, s)"
    using scan_hw_probe [of "set_options st0" 7 1 b5 b6 b7 s] st0 by (auto simp: set_options_eq)
  define st where "st = (set_options st0)\<lparr>ChipCnt := 8, ChipConnectInfo := k, RbConnectMode := 8\<rparr>"
  have "OperationOpt st AND 0x200 = 0" "OperationOpt st AND 0x100 = 0"
    by (simp_all add: st_def set_options_eq st0)
  then obtain s' where f: "scan_finish (C\<lparr>storage := ?d\<rparr>) scan_hw st s
      = Some (0, C\<lparr>storage := ext_interleave st\<rparr>, s')"
    using scan_hw_finish [of st "C\<lparr>storage := ?d\<rparr>" s] by auto
  have "scan_archi (C\<lparr>storage := ?d\<rparr>) scan_hw [0xec, 0xd7, 0xd5, 0x29, 0x38, b5, b6, b7] ?p s
      = Some (0, C\<lparr>storage := ext_interleave st\<rparr>, s')"
    using f by (simp add: scan_archi_def st0(1) k [unfolded One_nat_def] rb_mode_def st_def)
  then have "SCN_AnalyzeNandSystem C scan_hw s = Some (0, C\<lparr>storage := ext_interleave st\<rparr>, s')"
    by (simp add: SCN_AnalyzeNandSystem_def scan_hw_cmds(1) scan_hw_synch t scan_hw_search)
  then show ?thesis by (auto simp: ext_interleave_fields st_def)
qed

definition scan_nst :: "unit nst" where
  "scan_nst = \<lparr>ns_hw = (), ns_pagesize = 4096, ns_dma_hdle = 1, ns_rr_reg_adr = replicate 4 0,
     ns_rr_default = replicate 8 (replicate 4 0), ns_rr_val = replicate 10 (replicate 4 0), ns_rr_mode = 0,
     ns_rr_cycle = 0, ns_rr_reg_num = 0, ns_lsb_reg_adr = replicate 8 0, ns_lsb_default = replicate 8 0,
     ns_lsb_val = replicate 8 0, ns_lsb_reg_num = 0, ns_RetryCount = replicate 8 0,
     ns_PageCache0 = None, ns_SpareCache = None, ns_TmpPageCache = None\<rparr>"

theorem scan_geometry_witness:
  "\<exists>C' s'. SCN_AnalyzeNandSystem k9lbg08_cfg scan_hw scan_nst = Some (0, C', s') \<and> geometry_ok C'"
  using scan_hw_scan [of k9lbg08_cfg scan_nst] scan_geometry by blast

theorem scan_banks_connected_witness:
  "\<exists>C' s'. SCN_AnalyzeNandSystem k9lbg08_cfg scan_hw scan_nst = Some (0, C', s')
     \<and> inj_on (\<lambda>b :: nat. unat (cal_real_chip C' (of_nat b))) {..<8}"
proof -
  obtain C' s' where s: "SCN_AnalyzeNandSystem k9lbg08_cfg scan_hw scan_nst = Some (0, C', s')"
    "ChipCnt (storage C') = 8"
    using scan_hw_scan [of k9lbg08_cfg scan_nst] by blast
  have "unat (8 :: u8) = 8" by simp
  then show ?thesis using scan_banks_connected [OF s(1)] s by metis
qed

section \<open>The read retry tables\<close>

definition retry_table :: "'a list list \<Rightarrow> bool" where
  "retry_table t \<longleftrightarrow> length t = 10 \<and> (\<forall>row\<in>set t. length row = 4)"

lemma arr_set2_some:
  "retry_table t \<Longrightarrow> i < 10 \<Longrightarrow> j < 4 \<Longrightarrow> \<exists>t'. arr_set2 t i j v = Some t' \<and> retry_table t'"
  by (auto simp: arr_set2_def arr_get_def arr_set_def retry_table_def dest!: set_update_subset_insert [THEN subsetD])

lemma arr_set2_keeps: "arr_set2 t i j v = Some t' \<Longrightarrow> retry_table t \<Longrightarrow> retry_table t'"
  by (auto simp: arr_set2_def arr_get_def arr_set_def retry_table_def Option.bind_eq_Some_conv split: if_split_asm
      dest!: set_update_subset_insert [THEN subsetD])

lemma retry_row_keeps: "retry_row src i n j t = Some t' \<Longrightarrow> retry_table t \<Longrightarrow> retry_table t'"
  by (induction n arbitrary: j t) (auto simp: Option.bind_eq_Some_conv dest: arr_set2_keeps)

lemma arr_set2_none: "retry_table t \<Longrightarrow> 10 \<le> i \<Longrightarrow> arr_set2 t i j v = None"
  by (simp add: arr_set2_def arr_get_def retry_table_def)

lemma retry_row_some:
  "retry_table t \<Longrightarrow> i < 10 \<Longrightarrow> j + n \<le> 4 \<Longrightarrow> (\<And>k. k < j + n \<Longrightarrow> src k \<noteq> None) \<Longrightarrow>
   \<exists>t'. retry_row src i n j t = Some t' \<and> retry_table t'"
proof (induction n arbitrary: j t)
  case (Suc n)
  obtain v where v: "src j = Some v" using Suc.prems(4) [of j] by auto
  obtain t1 where t1: "arr_set2 t i j (of_int v) = Some t1" "retry_table t1"
    using arr_set2_some [OF Suc.prems(1,2), of j] Suc.prems(3) by auto
  show ?case using Suc.IH [OF t1(2) Suc.prems(2), of "Suc j"] Suc.prems(3,4) by (simp add: v t1)
qed simp

lemma retry_rows_some:
  "retry_table t \<Longrightarrow> i + n \<le> 10 \<Longrightarrow> regs \<le> 4 \<Longrightarrow> (\<And>k j. k < i + n \<Longrightarrow> j < regs \<Longrightarrow> src k j \<noteq> None) \<Longrightarrow>
   \<exists>t'. retry_rows src regs n i t = Some t'"
proof (induction n arbitrary: i t)
  case (Suc n)
  obtain t1 where t1: "retry_row (src i) i regs 0 t = Some t1" "retry_table t1"
    using retry_row_some [OF Suc.prems(1), of i 0 regs "src i"] Suc.prems(2-4) by auto
  show ?case using Suc.IH [OF t1(2), of "Suc i"] Suc.prems(2-4) by (simp add: t1)
qed simp

lemma retry_rows_none:
  "retry_table t \<Longrightarrow> i \<le> 10 \<Longrightarrow> 10 < i + n \<Longrightarrow> 0 < regs \<Longrightarrow> regs \<le> 4 \<Longrightarrow> retry_rows src regs n i t = None"
proof (induction n arbitrary: i t)
  case (Suc n)
  show ?case
  proof (cases "retry_row (src i) i regs 0 t")
    case (Some t1)
    then have i: "i < 10"
      using Suc.prems by (cases regs; cases "i = 10") (auto simp: Option.bind_eq_Some_conv arr_set2_none)
    have "retry_table t1" by (rule retry_row_keeps [OF Some Suc.prems(1)])
    then show ?thesis using Some Suc.IH [of t1 "Suc i"] Suc.prems i by simp
  qed simp
qed simp

lemma retry_types:
  assumes "r \<in> chip_rows m"
  shows "pi_ReadRetryType r \<in> {0, 0x000604, 0x010604, 0x100504, 0x200e04}"
  using assms manu_table_ok [of m] by (auto simp: table_ok_def chip_rows_def list_all_iff chip_ok_def)

lemma para_get:
  "i < 6 \<Longrightarrow> j < 4 \<Longrightarrow> arr_get2 para0 i j \<noteq> None" "i < 6 \<Longrightarrow> j < 4 \<Longrightarrow> arr_get2 para1 i j \<noteq> None"
  "i < 5 \<Longrightarrow> arr_get para0x10 i \<noteq> None"
  by (auto simp: arr_get2_def arr_get_def para0_def para1_def para0x10_def less_Suc_eq numeral_eq_Suc)

text \<open>Of the retry types in the chip tables, exactly \<open>0x200e04\<close> (fourteen cycles, one chip) makes
  \<open>NFC_ReadRetryInit\<close> write past \<open>read_retry_val\<close>, an array of ten rows.\<close>

theorem ReadRetryInit_overflow:
  assumes "r \<in> chip_rows m" and t: "retry_table (ns_rr_val s)"
  shows "NFC_ReadRetryInit (pi_ReadRetryType r) s = None \<longleftrightarrow> pi_ReadRetryType r = 0x200e04"
proof -
  have "\<exists>u. retry_rows (arr_get2 para0) 4 6 0 (ns_rr_val s) = Some u"
    "\<exists>u. retry_rows (arr_get2 para1) 4 6 0 (ns_rr_val s) = Some u"
    "\<exists>u. retry_rows (\<lambda>i j. arr_get para0x10 i) 4 5 0 (ns_rr_val s) = Some u"
    using para_get by (auto intro!: retry_rows_some [OF t])
  moreover have "retry_rows (arr_get2 para0x20) 4 15 0 (ns_rr_val s) = None"
    by (rule retry_rows_none [OF t]) simp_all
  ultimately show ?thesis
    using retry_types [OF assms(1)] by (auto simp: NFC_ReadRetryInit_def set_rr_type_def Let_def simp del: retry_rows.simps(2))
qed

theorem ReadRetryInit_overflow_witness:
  "NFC_ReadRetryInit (pi_ReadRetryType (last (butlast SamsungNandTbl))) scan_nst = None"
proof -
  have "last (butlast SamsungNandTbl) \<in> chip_rows 0xec"
    by (simp add: chip_rows_def manu_table_def SamsungNandTbl_def)
  moreover have "retry_table (ns_rr_val scan_nst)"
    by (simp add: retry_table_def scan_nst_def)
  moreover have "pi_ReadRetryType (last (butlast SamsungNandTbl)) = 0x200e04"
    by (simp add: SamsungNandTbl_def chip_row_def)
  ultimately show ?thesis using ReadRetryInit_overflow [of _ "0xec"] by blast
qed

end
