(* ===== verification/Phy_Safe.thy ===== *)
theory Phy_Safe
  imports Physic_Layer Scan_Props
begin

text \<open>
  The physic layer has no undefined behaviour: on the chips a scan finds, with buffers of the size of a super
  page, no operation reads or writes outside a buffer, a table or a command list, on any path, whatever the
  controller and the chips answer. \<open>total\<close> says this: the result of the model is not \<^term>\<open>None\<close>, the value of an
  access outside a list. So the layer \<open>physic\<close> that the logic layer works on never takes its default results.
\<close>

declare retry_loop.simps [simp del]

section \<open>Operations of the controller\<close>

lemma totalI: "m \<noteq> None \<Longrightarrow> post m Q \<Longrightarrow> total m Q"
  by (cases m) auto

lemma total_if: "(b \<Longrightarrow> total m Q) \<Longrightarrow> (\<not> b \<Longrightarrow> total m' Q) \<Longrightarrow> total (if b then m else m') Q"
  by simp

definition addr_ok :: "nfc_cmd \<Rightarrow> bool" where
  "addr_ok c \<longleftrightarrow> unat (nc_addr_cycle c) \<le> length (nc_addr c)"

lemma addr_words_defined: "n + i \<le> length addr \<Longrightarrow> addr_words addr n i low high \<noteq> None"
  by (induction n arbitrary: i low high) auto

text \<open>Rules that walk through a function down to the accesses that may fail.\<close>

lemma defined_let: "f x \<noteq> None \<Longrightarrow> Let x f \<noteq> None"
  and defined_let2: "(\<And>a b. g a b \<noteq> None) \<Longrightarrow> Let p (\<lambda>(a, b). g a b) \<noteq> None"
  and defined_if: "(c \<Longrightarrow> m \<noteq> None) \<Longrightarrow> (\<not> c \<Longrightarrow> m' \<noteq> None) \<Longrightarrow> (if c then m else m') \<noteq> None"
  and defined_Some: "Some y \<noteq> None"
  by (auto split: prod.splits)

lemma defined_bind: "m \<noteq> None \<Longrightarrow> (\<And>x. f x \<noteq> None) \<Longrightarrow> m \<bind> f \<noteq> None"
  and defined_bind2: "m2 \<noteq> None \<Longrightarrow> (\<And>a b. g a b \<noteq> None) \<Longrightarrow> m2 \<bind> (\<lambda>(a, b). g a b) \<noteq> None"
  by (cases m; auto) (cases m2; auto)

lemmas defined = defined_if defined_bind2 defined_bind defined_let2 defined_let defined_Some

lemma set_addr_defined: "n \<le> length addr \<Longrightarrow> set_addr H addr n s \<noteq> None"
  unfolding set_addr_def by (rule defined addr_words_defined | simp)+

lemma set_cmds_defined: "list_all addr_ok cs \<Longrightarrow> nfc_set_cmd_register H cs s \<noteq> None"
proof (induction cs arbitrary: s)
  case (Cons c cs)
  have c: "unat (nc_addr_cycle c) \<le> length (nc_addr c)" using Cons.prems by (simp add: addr_ok_def)
  have IH: "nfc_set_cmd_register H cs t \<noteq> None" for t using Cons by simp
  show ?case unfolding nfc_set_cmd_register.simps by (rule defined set_addr_defined [OF c] IH)+
qed simp

lemma run_cmds_defined: "list_all addr_ok cs \<Longrightarrow> run_cmds H cs s \<noteq> None"
  unfolding run_cmds_def by (rule defined set_cmds_defined | assumption)+

lemma get_status_defined: "list_all addr_ok cs \<Longrightarrow> NFC_GetStatus H cs s \<noteq> None"
  unfolding NFC_GetStatus_def by (rule defined set_cmds_defined | assumption)+

lemma ecc_loop_defined: "n + i \<le> length cnts \<Longrightarrow> ecc_limit_loop m cnts n i \<noteq> None"
  by (induction n arbitrary: i) auto

lemma check_ecc_defined: "n \<le> 16 \<Longrightarrow> check_ecc H n s \<noteq> None"
  unfolding check_ecc_def by (rule defined ecc_loop_defined | simp)+

lemma set_user_data_defined: "n + i \<le> length sp div 4 \<Longrightarrow> set_user_data H sp n i s \<noteq> None"
  by (induction n arbitrary: i s) auto

lemma length_user_data: "length (fst (get_user_data H n i s)) = n"
  by (induction n arbitrary: i s) (auto simp: split_def Let_def)

lemma length_dma_data: "length (dma_data H n s) \<le> unat n"
  by (simp add: dma_data_def)

text \<open>An invariant that fixes the size of a page.\<close>

locale nfc_safe = nfc_inv H I for H :: "'h nfc_hw" and I :: "'h nst \<Rightarrow> bool" +
  fixes P :: nat
  assumes pagesize: "I s \<Longrightarrow> unat (ns_pagesize s) = P"
    and small: "I s \<Longrightarrow> P \<le> 8192"
begin

lemma let_pair_t: "I (snd p) \<Longrightarrow> (\<And>a s. I s \<Longrightarrow> total (f a s) Q) \<Longrightarrow> total (Let p (\<lambda>(a, s). f a s)) Q"
  by (cases p) simp

lemma let_state_t: "I t \<Longrightarrow> (\<And>s. I s \<Longrightarrow> total (f s) Q) \<Longrightarrow> total (Let t f) Q"
  by simp

lemma let_t: "total (f x) Q \<Longrightarrow> total (Let x f) Q"
  by simp

lemma bind_state_t: "total m I \<Longrightarrow> (\<And>s. I s \<Longrightarrow> total (f s) Q) \<Longrightarrow> total (m \<bind> f) Q"
  by (cases m) auto

lemma bind_pair_t: "total m (\<lambda>(a, s). I s) \<Longrightarrow> (\<And>a s. I s \<Longrightarrow> total (f a s) Q) \<Longrightarrow>
  total (m \<bind> (\<lambda>(a, s). f a s)) Q"
  by (cases m) auto

lemma user_t: "I s \<Longrightarrow> (\<And>ws s. I s \<Longrightarrow> length ws = n \<Longrightarrow> total (f ws s) Q) \<Longrightarrow>
  total (Let (get_user_data H n i s) (\<lambda>(ws, s). f ws s)) Q"
  using get_user_data_inv [of s n i] length_user_data [of H n i s] by (cases "get_user_data H n i s") simp

lemmas walk_t = user_t let_pair_t let_state_t bind_state_t bind_pair_t let_t total_if

lemma words: "I s \<Longrightarrow> unat (ns_pagesize s div 1024) \<le> 8"
  using pagesize [of s] small [of s] by (simp add: unat_div)

lemma check_t: "I s \<Longrightarrow> n \<le> 16 \<Longrightarrow> total (check_ecc H n s) (\<lambda>(r, s). I s)"
  by (rule totalI [OF check_ecc_defined check_ecc_inv])

lemma check_page_t: "I s \<Longrightarrow> total (check_ecc H (unat (ns_pagesize s div 1024)) s) (\<lambda>(r, s). I s)"
  using words by (intro check_t) fastforce+

lemma read_regs_t: "I s \<Longrightarrow> addr_ok a \<Longrightarrow> total (read_regs H a r n s) I"
  by (rule totalI [OF _ read_regs_inv]) (simp_all add: read_regs_def set_addr_defined addr_ok_def)

lemma write_regs_t: "I s \<Longrightarrow> addr_ok a \<Longrightarrow> length sp = 64 \<Longrightarrow> unat n \<le> 16 \<Longrightarrow> total (write_regs H a r n sp s) I"
  unfolding write_regs_def addr_ok_def
  by (rule bind_state_t totalI [OF set_user_data_defined set_user_data_inv] totalI [OF set_addr_defined set_addr_inv]
      write_reg | assumption | simp)+

lemma page_end: "I s \<Longrightarrow> length sp \<le> 64 \<Longrightarrow> total (Some (r, dma_data H (ns_pagesize s) s, sp, s))
    (\<lambda>(r, m, sp, s). I s \<and> length m \<le> P \<and> length sp \<le> 64)"
  using length_dma_data [of H "ns_pagesize s" s] by (simp add: pagesize)

lemma spare_end: "I s \<Longrightarrow> length sp \<le> 64 \<Longrightarrow> total (Some (r, dma_data H 2048 s, sp, s))
    (\<lambda>(r, m, sp, s). I s \<and> length m \<le> 2048 \<and> length sp \<le> 64)"
  using length_dma_data [of H 2048 s] by simp

lemma user_words: "I s \<Longrightarrow> length ws = unat (ns_pagesize s div 1024) \<Longrightarrow> length (bytes_of_words ws) \<le> 64"
  using words [of s] by simp

lemma user_end: "length ws = unat (ns_pagesize s' div 1024) \<Longrightarrow> I s' \<Longrightarrow> I s \<Longrightarrow>
    total (Some (r, dma_data H (ns_pagesize s) s, bytes_of_words ws, s)) (\<lambda>(r, m, sp, s). I s \<and> length m \<le> P \<and> length sp \<le> 64)"
  using words [of s'] page_end [of s "bytes_of_words ws" r] by simp

lemma ahb_t: "total m (\<lambda>(r, m, sp, s). I s \<and> length m \<le> n \<and> length sp \<le> 64) \<Longrightarrow>
  total (m \<bind> to_ahb H) (\<lambda>(r, m, sp, s). I s \<and> length m \<le> n \<and> length sp \<le> 64)"
  by (cases m) (auto simp: to_ahb_def upd_other)

lemma NFC_Read_t:
  assumes "I s" "read_cmds cs = Some (a, x, y, z)" "addr_ok a"
  shows "total (NFC_Read H cs d pm s) (\<lambda>(r, m, sp, s). I s \<and> length m \<le> P \<and> length sp \<le> 64)"
  unfolding NFC_Read_def read_in_page_mode_def assms(2) Option.bind.simps prod.case
  by (rule ahb_t) (rule walk_t steps user_end read_regs_t check_page_t assms | assumption | rule page_end, assumption, simp | simp)+

lemma NFC_Read_Spare_t:
  assumes "I s" "read_cmds cs = Some (a, x, y, z)" "addr_ok a"
  shows "total (NFC_Read_Spare H cs d pm s) (\<lambda>(r, m, sp, s). I s \<and> length m \<le> 2048 \<and> length sp \<le> 64)"
  unfolding NFC_Read_Spare_def read_in_page_mode_spare_def assms(2) Option.bind.simps prod.case
  by (rule ahb_t) (rule walk_t steps spare_end read_regs_t check_t assms | assumption | simp)+

lemma NFC_Write_t:
  assumes "I s" "write_cmds cs = Some (a, x, y)" "addr_ok a" "P \<le> length main" "length sp = 64"
  shows "total (NFC_Write H cs main sp d rb pm s) (\<lambda>(r, s). I s)"
proof -
  have src: "I s \<Longrightarrow> (\<And>data. total (f data) Q) \<Longrightarrow> total (dma_src main (ns_pagesize s) \<bind> f) Q" for s f Q
    using assms(4) by (simp add: dma_src_def mem_get_def pagesize)
  have 16: "I s \<Longrightarrow> unat (ns_pagesize s div 1024) \<le> 16" for s using words [of s] by simp
  show ?thesis
    unfolding NFC_Write_def assms(2) Option.bind.simps prod.case
    by (rule src walk_t steps write_regs_t 16 assms | assumption | simp add: assms(1))+
qed

end

section \<open>Chips and states\<close>

text \<open>The read retry tables of the Hynix kind have room for the registers and rounds they are used with.\<close>

definition retry_tables :: "'h nst \<Rightarrow> bool" where
  "retry_tables s \<longleftrightarrow>
     hynix_mode (ns_rr_mode s) \<and> ns_rr_reg_num s \<le> 4 \<and> unat (ns_rr_reg_num s) \<le> length (ns_rr_reg_adr s)
     \<and> length (ns_rr_default s) = 8 \<and> (\<forall>d \<in> set (ns_rr_default s). unat (ns_rr_reg_num s) \<le> length d)
     \<and> unat (ns_rr_cycle s) \<le> length (ns_rr_val s)
     \<and> (\<forall>i < unat (ns_rr_cycle s). unat (ns_rr_reg_num s) \<le> length (ns_rr_val s ! i))"

text \<open>A chip as a scan leaves it, without two-plane reads; its read retry, if any, is of the Hynix kind. The lists of
  command codes have the lengths of the arrays of the code.\<close>

definition phys_cfg :: "cfg \<Rightarrow> bool" where
  "phys_cfg C \<longleftrightarrow> geometry_ok C \<and> \<not> SUPPORT_MULTI_READ C \<and> (SUPPORT_READ_RETRY C \<longrightarrow> READ_RETRY_MODE C < 0x10)
     \<and> length (MultiPlaneWriteCmd (OptPhyOpPar (storage C))) = 2
     \<and> length (MultiPlaneCopyReadCmd (OptPhyOpPar (storage C))) = 3
     \<and> length (MultiPlaneCopyWriteCmd (OptPhyOpPar (storage C))) = 3"

text \<open>The state after start-up: the page size is that of the chip, the page caches are allocated.\<close>

definition phys_ready :: "cfg \<Rightarrow> 'h nst \<Rightarrow> bool" where
  "phys_ready C s \<longleftrightarrow> phys_cfg C \<and> ns_pagesize s = of_nat (512 * SECTOR_CNT_OF_SINGLE_PAGE C)
     \<and> map_option length (ns_PageCache0 s) = Some (512 * SECTOR_CNT_OF_SUPER_PAGE C)
     \<and> map_option length (ns_SpareCache s) = Some (4 * SECTOR_CNT_OF_SUPER_PAGE C)
     \<and> map_option length (ns_TmpPageCache s) = Some (512 * SECTOR_CNT_OF_SUPER_PAGE C)
     \<and> length (ns_RetryCount s) = 8 \<and> (SUPPORT_READ_RETRY C \<longrightarrow> retry_tables s)"

lemma phys_geometry:
  assumes "phys_cfg C"
  shows "SECTOR_CNT_OF_SINGLE_PAGE C \<in> {4, 8, 16}" "plane_cnt C \<in> {1, 2}"
    "SECTOR_CNT_OF_SUPER_PAGE C = SECTOR_CNT_OF_SINGLE_PAGE C * plane_cnt C"
    "\<exists>b. cal_block_in_chip C bank blk = Some b" "BNK_CNT_OF_CHIP C \<noteq> 0"
proof -
  have g: "SectorCntPerPage (storage C) \<in> {4, 8, 16}" "BNK_CNT_OF_CHIP C = 1"
      "if SUPPORT_MULTI_PROGRAM C then multi_plane_cfg C else PLANE_CNT_OF_DIE C = 1"
    using assms by (simp_all add: phys_cfg_def geometry_ok_def)
  show "SECTOR_CNT_OF_SINGLE_PAGE C \<in> {4, 8, 16}" using g(1) by (auto simp: SECTOR_CNT_OF_SINGLE_PAGE_def)
  have p: "plane_cnt C = PLANE_CNT_OF_DIE C" "PLANE_CNT_OF_DIE C \<in> {1, 2}"
    using g(3) by (auto simp: plane_cnt_def multi_plane_cfg_def split: if_splits)
  then show "plane_cnt C \<in> {1, 2}" by simp
  show "SECTOR_CNT_OF_SUPER_PAGE C = SECTOR_CNT_OF_SINGLE_PAGE C * plane_cnt C"
    unfolding p by (simp add: SECTOR_CNT_OF_SINGLE_PAGE_def SECTOR_CNT_OF_SUPER_PAGE_def PLANE_CNT_OF_DIE_def)
  show "BNK_CNT_OF_CHIP C \<noteq> 0" using g(2) by simp
  show "\<exists>b. cal_block_in_chip C bank blk = Some b"
    using g(2,3) by (auto simp: cal_block_in_chip_def multi_plane_cfg_def Let_def split: if_splits)
qed

lemma ready_hw_upd [simp]: "phys_ready C (s\<lparr>ns_hw := h\<rparr>) = phys_ready C s"
  by (simp add: phys_ready_def retry_tables_def)

lemma ready_regs [simp]:
  "phys_ready C (snd (NFC_READ_REG H r s)) = phys_ready C s" "phys_ready C (NFC_WRITE_REG H r w s) = phys_ready C s"
  "phys_ready C (snd (NFC_READ_RAM_B H r s)) = phys_ready C s" "phys_ready C (NFC_WRITE_RAM_B H r b s) = phys_ready C s"
  "phys_ready C (reg_upd H r f s) = phys_ready C s"
  by (simp_all add: NFC_READ_REG_def NFC_WRITE_REG_def NFC_READ_RAM_B_def NFC_WRITE_RAM_B_def reg_upd_def split_def Let_def)

lemma ready_random [simp]:
  "phys_ready C (random_on H seed s) = phys_ready C s" "phys_ready C (NFC_RandomDisable H s) = phys_ready C s"
  by (simp_all add: random_on_def NFC_RandomEnable_def NFC_SetRandomSeed_def NFC_RandomDisable_def)

interpretation ready: nfc_safe H "phys_ready C" "512 * SECTOR_CNT_OF_SINGLE_PAGE C" for H :: "'h nfc_hw" and C
proof (unfold_locales)
  fix s :: "'h nst" assume "phys_ready C s"
  then have "SECTOR_CNT_OF_SINGLE_PAGE C \<in> {4, 8, 16}" "ns_pagesize s = of_nat (512 * SECTOR_CNT_OF_SINGLE_PAGE C)"
    using phys_geometry(1) by (auto simp: phys_ready_def)
  then show "unat (ns_pagesize s) = 512 * SECTOR_CNT_OF_SINGLE_PAGE C" "512 * SECTOR_CNT_OF_SINGLE_PAGE C \<le> 8192"
    by auto
qed simp_all

section \<open>Read retry\<close>

lemma vender_set_one_defined: "vender_set_one H c p a s \<noteq> None"
  unfolding vender_set_one_def by (rule defined set_addr_defined | simp)+

lemma vender_set_loop_defined:
  "n + i \<le> length para \<Longrightarrow> n + i \<le> length addr \<Longrightarrow> vender_set_loop H cw ce para addr n i s \<noteq> None"
proof (induction n arbitrary: i s)
  case (Suc n)
  have IH: "vender_set_loop H cw ce para addr n (Suc i) t \<noteq> None" for t using Suc by simp
  have get: "arr_get para i \<noteq> None" "arr_get addr i \<noteq> None" using Suc.prems by simp_all
  show ?case unfolding vender_set_loop.simps by (rule defined get vender_set_one_defined IH)+
qed simp

lemma vender_set_defined:
  "n \<le> length para \<Longrightarrow> n \<le> length addr \<Longrightarrow> vender_set_param H para addr n s \<noteq> None"
  unfolding vender_set_param_def by (simp only: split_def Let_def) (rule defined vender_set_loop_defined | simp)+

lemma hynix_params_defined:
  "n + i \<le> length d \<Longrightarrow> n + i \<le> length p \<Longrightarrow> \<forall>j < n + i. off j \<noteq> None \<Longrightarrow>
   \<exists>q. hynix_params d off n i p = Some q \<and> length q = length p"
proof (induction n arbitrary: i p)
  case (Suc n)
  from Suc.prems(3) have "off i \<noteq> None" by simp
  then obtain v where "off i = Some v" by blast
  then show ?case using Suc.IH [of "Suc i" "p[i := clip_param (d ! i) v]"] Suc.prems by simp
qed simp

lemma length_fix_zero [simp]: "length (fix_zero m rc p) = length p"
  by (simp add: fix_zero_def Let_def)

lemma read_retry_t:
  assumes "phys_ready C s" "SUPPORT_READ_RETRY C" "unat chip < 8"
  shows "total (NFC_ReadRetry C H chip rc s) (\<lambda>(r, s). phys_ready C s)"
proof (rule totalI [OF _ ready.read_retry [OF assms(1)]])
  let ?n = "unat (ns_rr_reg_num s)"
  have t: "hynix_mode (ns_rr_mode s)" "?n \<le> 4" "?n \<le> length (ns_rr_reg_adr s)" "length (ns_rr_default s) = 8"
      "\<forall>d \<in> set (ns_rr_default s). ?n \<le> length d" "unat (ns_rr_cycle s) \<le> length (ns_rr_val s)"
      "\<forall>i < unat (ns_rr_cycle s). ?n \<le> length (ns_rr_val s ! i)"
    using assms(1,2) by (auto simp: phys_ready_def retry_tables_def word_le_nat_alt)
  let ?d = "ns_rr_default s ! unat chip"
  have d: "?n \<le> length ?d" using t(4,5) assms(3) by auto
  show "NFC_ReadRetry C H chip rc s \<noteq> None"
  proof (cases "rc > ucast (ns_rr_cycle s) \<or> rc = 0")
    case True
    then show ?thesis using t(1,3,4) assms(3) vender_set_defined [OF d t(3)]
      by (auto simp: NFC_ReadRetry_def Let_def)
  next
    case False
    have "take_bit 32 (unat (ns_rr_cycle s)) = unat (ns_rr_cycle s)"
      using unat_u8_bound [of "ns_rr_cycle s"] by (simp add: take_bit_nat_eq_self del: unat_u8_bound)
    then have rc: "\<not> rc > ucast (ns_rr_cycle s)" "rc \<noteq> 0" "unat rc \<le> unat (ns_rr_cycle s)" "0 < unat rc"
      using False by (auto simp: word_less_nat_alt unsigned_ucast_eq unat_gt_0)
    have row: "?n \<le> length (ns_rr_val s ! (unat rc - 1))" using t(7) rc(3,4) by auto
    have "\<exists>q. hynix_params ?d (arr_get2 (ns_rr_val s) (unat rc - 1)) ?n 0 (map (junk8 C) [0..<4]) = Some q \<and> length q = 4"
      using hynix_params_defined [of ?n 0 ?d "map (junk8 C) [0..<4]" "arr_get2 (ns_rr_val s) (unat rc - 1)"] d t(2,6) rc row
      by (auto simp: arr_get2_def)
    then obtain q where "hynix_params ?d (arr_get2 (ns_rr_val s) (unat rc - 1)) ?n 0 (map (junk8 C) [0..<4]) = Some q"
        "length q = 4" by blast
    then show ?thesis using rc t(1-4) assms(3) vender_set_defined [of ?n "fix_zero (ns_rr_mode s) (unat rc) q" "ns_rr_reg_adr s" H s]
      by (simp add: NFC_ReadRetry_def Let_def)
  qed
qed

section \<open>Single pages\<close>

text \<open>A read into a main buffer and the local array of sixty-four spare bytes.\<close>

definition reads_ok :: "cfg \<Rightarrow> nat \<Rightarrow> 'h reader \<Rightarrow> bool" where
  "reads_ok C n att \<longleftrightarrow> (\<forall>main spare s. phys_ready C s \<longrightarrow> n \<le> length main \<longrightarrow> length spare = 64 \<longrightarrow>
     total (att main spare s) (\<lambda>(r, m, sp, s). phys_ready C s \<and> length m = length main \<and> length sp = 64))"

lemma reads_okI:
  "(\<And>main spare s. phys_ready C s \<Longrightarrow> n \<le> length main \<Longrightarrow> length spare = 64 \<Longrightarrow>
     total (att main spare s) (\<lambda>(r, m, sp, s). phys_ready C s \<and> length m = length main \<and> length sp = 64)) \<Longrightarrow> reads_ok C n att"
  by (simp add: reads_ok_def)

lemma reads_okD:
  "reads_ok C n att \<Longrightarrow> phys_ready C s \<Longrightarrow> n \<le> length main \<Longrightarrow> length spare = 64 \<Longrightarrow>
   \<exists>r m sp s'. att main spare s = Some (r, m, sp, s') \<and> phys_ready C s' \<and> length m = length main \<and> length sp = 64"
  by (fastforce simp: reads_ok_def total_iff)

lemma into_bufs_ok:
  fixes rd :: "'h nst \<Rightarrow> 'h read_result"
  assumes "\<And>s. phys_ready C s \<Longrightarrow> total (rd s) (\<lambda>(r, m, sp, s). phys_ready C s \<and> length m \<le> n \<and> length sp \<le> 64)"
  shows "reads_ok C n (into_bufs rd)"
proof (rule reads_okI)
  fix main spare :: "u8 list" and s :: "'h nst"
  assume s: "phys_ready C s" and l: "n \<le> length main" "length spare = 64"
  obtain r m sp s' where "rd s = Some (r, m, sp, s')" "phys_ready C s'" "length m \<le> n" "length sp \<le> 64"
    using assms [OF s] by (auto simp: total_iff)
  then show "total (into_bufs rd main spare s) (\<lambda>(r, m, sp, s). phys_ready C s \<and> length m = length main \<and> length sp = 64)"
    using l by (simp add: into_bufs_def mem_put_def)
qed

lemma length_cal_addr [simp]: "length (cal_addr_in_chip C blk page sec n) = 5"
  by (simp add: cal_addr_in_chip_def addr_bytes_def Let_def)

lemma read_cmd_list_ok: "\<exists>a x y z. read_cmds (read_cmd_list C op) = Some (a, x, y, z) \<and> addr_ok a"
  by (simp add: read_cmd_list_def addr_ok_def add_cmd_list_def)

lemma page_reads_ok: "reads_ok C (512 * SECTOR_CNT_OF_SINGLE_PAGE C) (into_bufs (NFC_Read H (read_cmd_list C op) d pm))"
  using read_cmd_list_ok [of C op] ready.NFC_Read_t by (intro into_bufs_ok) blast

lemma spare_reads_ok: "reads_ok C 2048 (into_bufs (NFC_Read_Spare H (read_cmd_list C op) d pm))"
  using read_cmd_list_ok [of C op] ready.NFC_Read_Spare_t by (intro into_bufs_ok) blast

lemma read_attempt_ok:
  fixes H :: "'h nfc_hw"
  shows "reads_ok C (512 * SECTOR_CNT_OF_SINGLE_PAGE C) (read_attempt C H chk op d)"
proof (rule reads_okI)
  fix main spare :: "u8 list" and s :: "'h nst"
  assume s: "phys_ready C s" and l: "512 * SECTOR_CNT_OF_SINGLE_PAGE C \<le> length main" "length spare = 64"
  let ?rd = "into_bufs (NFC_Read H (read_cmd_list C op) d 1)" and ?s = "random_on H (cal_random_seed (bp_page32 op)) s"
  note rd = reads_okD [OF page_reads_ok [of C H op d 1]]
  obtain r m sp t where 1: "?rd main spare ?s = Some (r, m, sp, t)" "phys_ready C t" "length m = length main" "length sp = 64"
    using rd [of ?s main spare] s l by auto
  obtain r' m' sp' t' where 2: "?rd m sp (NFC_RandomDisable H t) = Some (r', m', sp', t')" "phys_ready C t'"
      "length m' = length main" "length sp' = 64"
    using rd [of "NFC_RandomDisable H t" m sp] 1 l by auto
  obtain r3 m3 sp3 t3 where 3: "?rd main spare s = Some (r3, m3, sp3, t3)" "phys_ready C t3"
      "length m3 = length main" "length sp3 = 64"
    using rd [of s main spare] s l by auto
  show "total (read_attempt C H chk op d main spare s) (\<lambda>(r, m, sp, s). phys_ready C s \<and> length m = length main \<and> length sp = 64)"
    using 1 2 3 by (simp add: read_attempt_def Let_def)
qed

lemma spare_attempt_ok:
  fixes H :: "'h nfc_hw"
  shows "reads_ok C 2048 (spare_attempt C H chk op d)"
proof (rule reads_okI)
  fix main spare :: "u8 list" and s :: "'h nst"
  assume s: "phys_ready C s" and l: "2048 \<le> length main" "length spare = 64"
  let ?rd = "into_bufs (NFC_Read_Spare H (read_cmd_list C op) d 1)" and ?s = "random_on H (cal_random_seed (bp_page32 op)) s"
  note rd = reads_okD [OF spare_reads_ok [of C H op d 1]]
  obtain r m sp t where 1: "?rd main spare ?s = Some (r, m, sp, t)" "phys_ready C t" "length m = length main" "length sp = 64"
    using rd [of ?s main spare] s l by auto
  define p where "p = (if free_page_flag op sp then (0, take 12 sp @ replicate 4 0xff @ drop 16 sp) else (r, sp))"
  have p: "(if free_page_flag op sp then do { spare \<leftarrow> mem_put sp (4 * 3) (replicate 4 0xff); Some (0, spare) } else Some (r, sp)) = Some p"
      "length (snd p) = 64"
    using 1(4) by (auto simp: p_def mem_put_def)
  obtain r' m' sp' t' where 2: "?rd m (snd p) (NFC_RandomDisable H t) = Some (r', m', sp', t')" "phys_ready C t'"
      "length m' = length main" "length sp' = 64"
    using rd [of "NFC_RandomDisable H t" m "snd p"] 1 l p(2) by auto
  obtain r3 m3 sp3 t3 where 3: "?rd main spare s = Some (r3, m3, sp3, t3)" "phys_ready C t3"
      "length m3 = length main" "length sp3 = 64"
    using rd [of s main spare] s l by auto
  show "total (spare_attempt C H chk op d main spare s) (\<lambda>(r, m, sp, s). phys_ready C s \<and> length m = length main \<and> length sp = 64)"
    using 1 2 3 p by (cases p) (simp add: spare_attempt_def Let_def)
qed

lemma ready_counts: "phys_ready C s \<Longrightarrow> length rcs = 8 \<Longrightarrow> phys_ready C (s\<lparr>ns_RetryCount := rcs\<rparr>)"
  by (simp add: phys_ready_def retry_tables_def)

lemma ready_tmp: "phys_ready C s \<Longrightarrow> length t = 512 * SECTOR_CNT_OF_SUPER_PAGE C \<Longrightarrow> phys_ready C (s\<lparr>ns_TmpPageCache := Some t\<rparr>)"
  by (simp add: phys_ready_def retry_tables_def)

lemma ready_cfg: "phys_ready C s \<Longrightarrow> phys_cfg C"
  by (simp add: phys_ready_def)

lemma ready_no_leave:
  assumes "phys_cfg C" "SUPPORT_READ_RETRY C"
  shows "leave_retry C H chip t = Some t"
proof -
  have m: "READ_RETRY_MODE C < 0x10" using assms by (simp add: phys_cfg_def)
  have "(0x10 :: u32) \<le> 0x20" by simp
  then have "\<not> 0x20 \<le> READ_RETRY_MODE C" using m by (meson leD order_trans)
  then show ?thesis using m by (simp add: leave_retry_def linorder_not_le [symmetric])
qed

abbreviation (input) kept_bufs :: "cfg \<Rightarrow> u8 list \<Rightarrow> bool \<times> int \<times> u8 list \<times> u8 list \<times> 'h nst \<Rightarrow> bool" where
  "kept_bufs C main \<equiv> \<lambda>(ab, r, m, sp, s). phys_ready C s \<and> length m = length main \<and> length sp = 64"

text \<open>One round of the retry loop, up to what follows the attempt.\<close>

lemma retry_round:
  assumes att: "reads_ok C N att" and R: "SUPPORT_READ_RETRY C" "unat chip < 8"
    and s: "phys_ready C s" "N \<le> length main" "length spare = 64"
    and rest: "\<And>ret m sp t rc. phys_ready C t \<Longrightarrow> length m = length main \<Longrightarrow> length sp = 64 \<Longrightarrow>
      total (case n of
         0 \<Rightarrow> do { s \<leftarrow> leave_retry C H (ucast chip) t; Some (False, ret, m, sp, s) }
       | Suc n' \<Rightarrow>
           if ret \<noteq> - ERR_ECC then do { s \<leftarrow> leave_retry C H (ucast chip) t; Some (False, ret, m, sp, s) }
           else retry_loop C H chip att n' (Suc k) m sp
                  (t\<lparr>ns_RetryCount := (ns_RetryCount t)[unat chip := rc + 1]\<rparr>)) (kept_bufs C main)"
  shows "total (retry_loop C H chip att n k main spare s) (kept_bufs C main)"
proof -
  have len: "length (ns_RetryCount s) = 8" using s(1) by (simp add: phys_ready_def)
  define rc where "rc = (if ns_RetryCount s ! unat chip = READ_RETRY_CYCLE C + 1 then 0 else ns_RetryCount s ! unat chip)"
  define s1 where "s1 = s\<lparr>ns_RetryCount := (ns_RetryCount s)[unat chip := rc]\<rparr>"
  have s1: "phys_ready C s1" unfolding s1_def by (rule ready_counts) (use s(1) len in simp_all)
  have "unat (ucast chip :: u32) < 8" using R(2) by (simp add: unsigned_ucast_eq take_bit_nat_eq_self)
  then have "total (if k > 0 then NFC_ReadRetry C H (ucast chip) rc s1 else Some (0, s1)) (\<lambda>(e, s). phys_ready C s)"
    using read_retry_t [OF s1 R(1)] s1 by simp
  then obtain e s2 where 2: "(if k > 0 then NFC_ReadRetry C H (ucast chip) rc s1 else Some (0, s1)) = Some (e, s2)" "phys_ready C s2"
    by (auto simp: total_iff simp del: if_split)
  obtain r m sp t where 3: "att main spare s2 = Some (r, m, sp, t)" "phys_ready C t" "length m = length main" "length sp = 64"
    using reads_okD [OF att 2(2) s(2,3)] by blast
  have g: "arr_get (ns_RetryCount s) (unat chip) = Some (ns_RetryCount s ! unat chip)" using R(2) len by simp
  have "retry_loop C H chip att n k main spare s = (if e \<noteq> 0 then Some (True, - 1, main, spare, s2) else
      (case n of
         0 \<Rightarrow> do { s \<leftarrow> leave_retry C H (ucast chip) t; Some (False, r, m, sp, s) }
       | Suc n' \<Rightarrow>
           if r \<noteq> - ERR_ECC then do { s \<leftarrow> leave_retry C H (ucast chip) t; Some (False, r, m, sp, s) }
           else retry_loop C H chip att n' (Suc k) m sp
                  (t\<lparr>ns_RetryCount := (ns_RetryCount t)[unat chip := rc + 1]\<rparr>)))"
    by (simp only: retry_loop.simps [of C H chip att n k main spare s] g Option.bind.simps Let_def
        rc_def [symmetric] s1_def [symmetric] 2(1) 3(1) prod.case)
  then show ?thesis using rest [OF 3(2-4)] 2(2) s(3) by (simp del: if_split split del: if_split) simp
qed

lemma retry_loop_ok:
  fixes H :: "'h nfc_hw"
  assumes att: "reads_ok C N att" and R: "SUPPORT_READ_RETRY C" "unat chip < 8"
  shows "phys_ready C s \<Longrightarrow> N \<le> length main \<Longrightarrow> length spare = 64 \<Longrightarrow>
    total (retry_loop C H chip att n k main spare s) (kept_bufs C main)"
proof (induction n arbitrary: k main spare s)
  case 0
  show ?case by (rule retry_round [OF att R 0]) (simp add: ready_no_leave [OF ready_cfg R(1)])
next
  case (Suc n)
  show ?case
  proof (rule retry_round [OF att R Suc.prems])
    fix r :: int and m sp :: "u8 list" and t :: "'h nst" and rc :: u32
    assume t: "phys_ready C t" "length m = length main" "length sp = 64"
    then have "phys_ready C (t\<lparr>ns_RetryCount := (ns_RetryCount t)[unat chip := rc + 1]\<rparr>)"
      by (intro ready_counts) (simp_all add: phys_ready_def)
    from Suc.IH [OF this _ t(3), of m "Suc k"] Suc.prems(2) t
    show "total (case Suc n of
         0 \<Rightarrow> do { s \<leftarrow> leave_retry C H (ucast chip) t; Some (False, r, m, sp, s) }
       | Suc n' \<Rightarrow>
           if r \<noteq> - ERR_ECC then do { s \<leftarrow> leave_retry C H (ucast chip) t; Some (False, r, m, sp, s) }
           else retry_loop C H chip att n' (Suc k) m sp
                  (t\<lparr>ns_RetryCount := (ns_RetryCount t)[unat chip := rc + 1]\<rparr>)) (kept_bufs C main)"
      by (simp add: ready_no_leave [OF ready_cfg [OF t(1)] R(1)])
  qed
qed

text \<open>The chip select of a bank: one of eight, or the code for no chip.\<close>

definition chip_known :: "cfg \<Rightarrow> u8 \<Rightarrow> bool" where
  "chip_known C chip \<longleftrightarrow> (SUPPORT_READ_RETRY C \<longrightarrow> unat chip < 8)"

lemma with_retry_ok:
  assumes "\<And>chk. reads_ok C N (att chk)" "chip_known C chip" "phys_ready C s" "N \<le> length main" "length spare = 64"
  shows "total (read_with_retry C H chip att main spare s) (kept_bufs C main)"
proof (cases "SUPPORT_READ_RETRY C")
  case True
  have "READ_RETRY_MODE C < 0x10" using assms(3) True by (simp add: phys_ready_def phys_cfg_def)
  then have m: "\<not> 0x10 \<le> READ_RETRY_MODE C" by simp
  have "unat chip < 8" using assms(2) True by (simp add: chip_known_def)
  then have "total (retry_loop C H chip (att True) (unat (READ_RETRY_CYCLE C)) 0 main spare s) (kept_bufs C main)"
    using retry_loop_ok [OF assms(1) True _ assms(3-5)] by blast
  then show ?thesis using True m
    by (auto simp: read_with_retry_def total_iff)
next
  case False
  then show ?thesis using reads_okD [OF assms(1,3-5), of False] by (auto simp: read_with_retry_def)
qed

section \<open>Page operations\<close>

definition spare_room :: "u8 list option \<Rightarrow> nat \<Rightarrow> bool" where
  "spare_room oob n \<longleftrightarrow> (case oob of None \<Rightarrow> True | Some b \<Rightarrow> n \<le> length b)"

text \<open>A page operation on buffers of at least these sizes.\<close>

definition pageop_ok ::
  "cfg \<Rightarrow> nat \<Rightarrow> nat \<Rightarrow> (u8 list \<Rightarrow> u8 list option \<Rightarrow> 'h nst \<Rightarrow> 'h page_op_result) \<Rightarrow> bool" where
  "pageop_ok C n k f \<longleftrightarrow> (\<forall>main oob s. phys_ready C s \<longrightarrow> n \<le> length main \<longrightarrow> spare_room oob k \<longrightarrow>
     total (f main oob s) (\<lambda>(r, m, b, s). phys_ready C s \<and> length m = length main \<and> map_option length b = map_option length oob))"

lemma pageop_okI:
  assumes "\<And>main oob s. phys_ready C s \<Longrightarrow> n \<le> length main \<Longrightarrow> spare_room oob k \<Longrightarrow>
    total (f main oob s) (\<lambda>(r, m, b, s). phys_ready C s \<and> length m = length main \<and> map_option length b = map_option length oob)"
  shows "pageop_ok C n k f"
  using assms by (simp add: pageop_ok_def)

lemma pageop_okD:
  assumes "pageop_ok C n k f" "phys_ready C s" "n \<le> length main" "spare_room oob k"
  obtains r m b s' where "f main oob s = Some (r, m, b, s')" "phys_ready C s'" "length m = length main"
    "map_option length b = map_option length oob"
  using assms(1) [unfolded pageop_ok_def, rule_format, OF assms(2-4)] that by (auto simp: total_iff)

lemma copy_oob_ok:
  assumes "spare_room oob 8" "length spare = 64"
  obtains b where "copy_oob oob spare = Some b" "map_option length b = map_option length oob"
  using assms by (cases oob) (auto simp: spare_room_def copy_oob_def mem_put_def)

lemma copy_page_sectors_ok:
  "512 * (i + n) \<le> length data \<Longrightarrow> 512 * (i + n) \<le> length main \<Longrightarrow>
   \<exists>m. copy_page_sectors bm data n i main = Some m \<and> length m = length main"
proof (induction n arbitrary: i main)
  case (Suc n)
  then have "512 * (Suc i + n) \<le> length data" by simp
  from Suc.IH [OF this, of main] Suc.prems
    Suc.IH [OF this, of "take (i * 512) main @ take 512 (drop (i * 512) data) @ drop (i * 512 + 512) main"]
  show ?case by (auto simp: mem_get_def mem_put_def)
qed simp

lemma wait_ready_ok: "phys_ready C s \<Longrightarrow> \<exists>r s'. wait_rb_ready C H chip s = (r, s') \<and> phys_ready C s'"
  by (drule ready.wait_ready [of C s C H chip]) (cases "wait_rb_ready C H chip s", simp)

lemma select_ok [simp]: "phys_ready C s \<Longrightarrow> phys_ready C (select_chip_rb C' H chip s)"
  by (rule ready.select)

lemma deselect_ok [simp]: "phys_ready C s \<Longrightarrow> phys_ready C (deselect_chip_rb C' chip s)"
  by (rule ready.deselect)

text \<open>A single page read, given the attempt it is made of.\<close>

lemma read_single_ok:
  fixes H :: "'h nfc_hw"
  assumes att: "\<And>chk. reads_ok C n (att chk)" and chip: "chip_known C (bp_chip op)"
    and f: "\<And>main oob s. f main oob s =
      (let (ret, s) = wait_rb_ready C H (bp_chip32 op) s in
       if ret \<noteq> 0 then Some (ret, main, oob, s)
       else do {
         let s = select_chip_rb C H (bp_chip32 op) s;
         (abort, ret, main, spare, s) \<leftarrow> read_with_retry C H (bp_chip op) att main (junk_spare64 C) s;
         if abort then Some (- 1, main, oob, s)
         else do {
           oob \<leftarrow> copy_oob oob spare;
           Some (ret, main, oob, deselect_chip_rb C (bp_chip32 op) s)
         }
       })"
  shows "pageop_ok C n 8 f"
proof (rule pageop_okI)
  fix main :: "u8 list" and oob :: "u8 list option" and s :: "'h nst"
  assume s: "phys_ready C s" and n: "n \<le> length main" and o8: "spare_room oob 8"
  obtain w t where w: "wait_rb_ready C H (bp_chip32 op) s = (w, t)" "phys_ready C t" using wait_ready_ok [OF s] by blast
  have "total (read_with_retry C H (bp_chip op) att main (junk_spare64 C) (select_chip_rb C H (bp_chip32 op) t)) (kept_bufs C main)"
    by (rule with_retry_ok [OF att chip select_ok [OF w(2)] n]) simp
  then obtain ab r m sp u where 1: "read_with_retry C H (bp_chip op) att main (junk_spare64 C) (select_chip_rb C H (bp_chip32 op) t)
      = Some (ab, r, m, sp, u)" "phys_ready C u" "length m = length main" "length sp = 64"
    by (auto simp: total_iff)
  obtain b where b: "copy_oob oob sp = Some b" "map_option length b = map_option length oob"
    using copy_oob_ok [OF o8 1(4)] by blast
  show "total (f main oob s) (\<lambda>(r, m, b, s). phys_ready C s \<and> length m = length main \<and> map_option length b = map_option length oob)"
    using w 1 b by (simp add: f)
qed

lemma read_page_ok:
  assumes "chip_known C (bp_chip op)"
  shows "pageop_ok C (512 * SECTOR_CNT_OF_SINGLE_PAGE C) 8 (read_single_page C H op d)"
  by (rule read_single_ok [OF read_attempt_ok assms]) (simp add: read_single_page_def)

lemma read_page_spare_ok:
  assumes "chip_known C (bp_chip op)"
  shows "pageop_ok C 2048 8 (read_single_page_spare C H op d)"
  by (rule read_single_ok [OF spare_attempt_ok assms]) (simp add: read_single_page_spare_def)

lemma read_sectors_ok:
  fixes H :: "'h nfc_hw"
  assumes "chip_known C (bp_chip op)"
  shows "pageop_ok C (512 * SECTOR_CNT_OF_SINGLE_PAGE C) 8 (read_sectors C H op d)"
proof (rule pageop_okI)
  fix main :: "u8 list" and oob :: "u8 list option" and s :: "'h nst"
  let ?n = "512 * SECTOR_CNT_OF_SINGLE_PAGE C"
  assume s: "phys_ready C s" and n: "?n \<le> length main" and o8: "spare_room oob 8"
  obtain w t where w: "wait_rb_ready C H (bp_chip32 op) s = (w, t)" "phys_ready C t" using wait_ready_ok [OF s] by blast
  let ?t = "select_chip_rb C H (bp_chip32 op) t"
  obtain tmp where tmp: "ns_TmpPageCache ?t = Some tmp" "length tmp = 512 * SECTOR_CNT_OF_SUPER_PAGE C"
    using select_ok [OF w(2), of C H "bp_chip32 op"] by (auto simp: phys_ready_def)
  have le: "?n \<le> length tmp" using tmp(2) phys_geometry(2,3) [OF ready_cfg [OF s]] by auto
  have "total (read_with_retry C H (bp_chip op) (\<lambda>chk. read_attempt C H chk op d) tmp (junk_spare64 C) ?t) (kept_bufs C tmp)"
    by (rule with_retry_ok [OF read_attempt_ok assms select_ok [OF w(2)] le]) simp
  then obtain ab r m sp u where 1: "read_with_retry C H (bp_chip op) (\<lambda>chk. read_attempt C H chk op d) tmp (junk_spare64 C) ?t
      = Some (ab, r, m, sp, u)" "phys_ready C u" "length m = length tmp" "length sp = 64"
    by (auto simp: total_iff)
  have u: "phys_ready C (u\<lparr>ns_TmpPageCache := Some m\<rparr>)" using ready_tmp [OF 1(2)] 1(3) tmp(2) by simp
  obtain b where b: "copy_oob oob sp = Some b" "map_option length b = map_option length oob"
    using copy_oob_ok [OF o8 1(4)] by blast
  obtain m' where m': "copy_page_sectors (bp_sectorbitmap op) m (SECTOR_CNT_OF_SINGLE_PAGE C) 0 main = Some m'" "length m' = length main"
    using copy_page_sectors_ok [of 0 "SECTOR_CNT_OF_SINGLE_PAGE C" m main] le n 1(3) by auto
  show "total (read_sectors C H op d main oob s)
      (\<lambda>(r, m, b, s). phys_ready C s \<and> length m = length main \<and> map_option length b = map_option length oob)"
    using w tmp(1) 1 u b m' by (simp add: read_sectors_def Let_def)
qed

section \<open>Super pages: reads\<close>

lemma spare_room_drop: "spare_room oob (a + k) \<Longrightarrow> spare_room (map_option (drop a) oob) k"
  by (auto simp: spare_room_def split: option.splits)

lemma on_plane_ok:
  fixes f :: "u8 list \<Rightarrow> u8 list option \<Rightarrow> 'h nst \<Rightarrow> 'h page_op_result"
  assumes f: "pageop_ok C n 8 f"
  shows "pageop_ok C (512 * SECTOR_CNT_OF_SINGLE_PAGE C * i + n) (4 * SECTOR_CNT_OF_SINGLE_PAGE C * i + 8) (on_plane C i f)"
proof (rule pageop_okI)
  fix main :: "u8 list" and oob :: "u8 list option" and s :: "'h nst"
  let ?mo = "512 * SECTOR_CNT_OF_SINGLE_PAGE C * i" and ?so = "4 * SECTOR_CNT_OF_SINGLE_PAGE C * i"
  assume s: "phys_ready C s" and n: "?mo + n \<le> length main" and o8: "spare_room oob (?so + 8)"
  obtain r m b s' where 1: "f (drop ?mo main) (map_option (drop ?so) oob) s = Some (r, m, b, s')" "phys_ready C s'"
      "length m = length (drop ?mo main)" "map_option length b = map_option length (map_option (drop ?so) oob)"
    by (rule pageop_okD [OF f s _ spare_room_drop [OF o8], of "drop ?mo main"]) (use n in auto)
  then show "total (on_plane C i f main oob s)
      (\<lambda>(r, m, b, s). phys_ready C s \<and> length m = length main \<and> map_option length b = map_option length oob)"
    using n o8 by (cases oob; cases b) (auto simp: on_plane_def Let_def spare_room_def)
qed

lemma plane_bitmap_ok:
  assumes "phys_cfg C" "i < plane_cnt C"
  shows "\<exists>bm. plane_bitmap C op i = Some bm"
  using phys_geometry(1,2) [OF assms(1)] assms(2) by (auto simp: plane_bitmap_def)

lemma read_planes_ok:
  fixes H :: "'h nfc_hw"
  assumes part: "\<And>rop. bp_chip rop = chip \<Longrightarrow> pageop_ok C (512 * SECTOR_CNT_OF_SINGLE_PAGE C) 8 (part rop)"
    and chip: "chip_known C chip"
  shows "i + k \<le> plane_cnt C \<Longrightarrow> pageop_ok C (512 * SECTOR_CNT_OF_SUPER_PAGE C) (4 * SECTOR_CNT_OF_SUPER_PAGE C)
    (read_planes C H part op chip blk k i ret)"
proof (induction k arbitrary: i ret)
  case 0
  show ?case by (rule pageop_okI) simp
next
  case (Suc k)
  let ?n = "SECTOR_CNT_OF_SINGLE_PAGE C"
  show ?case
  proof (rule pageop_okI)
    fix main :: "u8 list" and oob :: "u8 list option" and s :: "'h nst"
    assume s: "phys_ready C s" and n: "512 * SECTOR_CNT_OF_SUPER_PAGE C \<le> length main"
      and o8: "spare_room oob (4 * SECTOR_CNT_OF_SUPER_PAGE C)"
    note cfg = ready_cfg [OF s]
    note g = phys_geometry [OF cfg]
    obtain bm where bm: "plane_bitmap C op i = Some bm" using plane_bitmap_ok [OF cfg] Suc.prems by fastforce
    let ?rop = "plane_op C op chip blk i bm"
    have rop: "bp_chip ?rop = chip" by (simp add: plane_op_def)
    have "?n * (i + 1) \<le> ?n * plane_cnt C" using Suc.prems by (intro mult_le_mono) auto
    then have le: "?n * i + ?n \<le> SECTOR_CNT_OF_SUPER_PAGE C" using g(3) by simp
    have "2 \<le> ?n" using g(1) by auto
    then have room: "512 * ?n * i + 512 * ?n \<le> length main" "spare_room oob (4 * ?n * i + 8)"
      using le n o8 by (auto simp: spare_room_def split: option.splits)
    define f where "f = (if bm = 0 then (\<lambda>main oob s. Some (0, main, oob, s))
      else if bm = FULL_BITMAP_OF_SINGLE_PAGE C then on_plane C i (read_single_page C H ?rop 0) else on_plane C i (part ?rop))"
    have "pageop_ok C (512 * ?n * i + 512 * ?n) (4 * ?n * i + 8) f"
      using on_plane_ok [OF read_page_ok, of C ?rop i H 0] on_plane_ok [OF part [OF rop], of i] rop chip
      by (auto simp: f_def intro: pageop_okI)
    then obtain r m b s' where 1: "f main oob s = Some (r, m, b, s')" "phys_ready C s'" "length m = length main"
        "map_option length b = map_option length oob"
      by (rule pageop_okD [OF _ s room])
    have IH: "pageop_ok C (512 * SECTOR_CNT_OF_SUPER_PAGE C) (4 * SECTOR_CNT_OF_SUPER_PAGE C)
        (read_planes C H part op chip blk k (Suc i) (ret OR r))" using Suc by simp
    have room': "512 * SECTOR_CNT_OF_SUPER_PAGE C \<le> length m" "spare_room b (4 * SECTOR_CNT_OF_SUPER_PAGE C)"
      using n o8 1(3,4) by (auto simp: spare_room_def split: option.splits)
    obtain r2 m2 b2 s2 where 2: "read_planes C H part op chip blk k (Suc i) (ret OR r) m b s' = Some (r2, m2, b2, s2)"
        "phys_ready C s2" "length m2 = length m" "map_option length b2 = map_option length b"
      by (rule pageop_okD [OF IH 1(2) room'])
    have "read_planes C H part op chip blk (Suc k) i ret main oob s = Some (r2, m2, b2, s2)"
      using 1(1) 2(1) by (simp add: bm f_def split: if_splits)
    then show "total (read_planes C H part op chip blk (Suc k) i ret main oob s)
        (\<lambda>(r, m, b, s). phys_ready C s \<and> length m = length main \<and> map_option length b = map_option length oob)"
      using 1(3,4) 2(2-4) by simp
  qed
qed

text \<open>The chip select of the bank is one of eight, or there is no such chip.\<close>

definition bank_ok :: "cfg \<Rightarrow> u8 \<Rightarrow> bool" where
  "bank_ok C bank \<longleftrightarrow> cal_real_chip C (ucast bank) < 8 \<or> cal_real_chip C (ucast bank) = 0xff"

lemma bank_chip: "bank_ok C bank \<Longrightarrow> cal_real_chip C (ucast bank) \<noteq> 0xff \<Longrightarrow> chip_known C (cal_real_chip C (ucast bank))"
  by (auto simp: bank_ok_def chip_known_def word_less_nat_alt)

lemma read_by_planes_ok:
  fixes H :: "'h nfc_hw"
  assumes part: "\<And>rop. chip_known C (bp_chip rop) \<Longrightarrow> pageop_ok C (512 * SECTOR_CNT_OF_SINGLE_PAGE C) 8 (part rop)"
    and bank: "bank_ok C (op_BankNum op)"
  shows "pageop_ok C (512 * SECTOR_CNT_OF_SUPER_PAGE C) (4 * SECTOR_CNT_OF_SUPER_PAGE C) (read_by_planes C H part op)"
proof (rule pageop_okI)
  fix main :: "u8 list" and oob :: "u8 list option" and s :: "'h nst"
  let ?chip = "cal_real_chip C (ucast (op_BankNum op))"
  assume s: "phys_ready C s" and n: "512 * SECTOR_CNT_OF_SUPER_PAGE C \<le> length main"
    and o8: "spare_room oob (4 * SECTOR_CNT_OF_SUPER_PAGE C)"
  note g = phys_geometry [OF ready_cfg [OF s]]
  obtain blk where blk: "cal_block_in_chip C (ucast (op_BankNum op)) (ucast (op_BlkNum op)) = Some blk" using g(4) by blast
  show "total (read_by_planes C H part op main oob s)
      (\<lambda>(r, m, b, s). phys_ready C s \<and> length m = length main \<and> map_option length b = map_option length oob)"
  proof (cases "?chip = 0xff \<or> blk = 0xffffffff")
    case True
    then show ?thesis using s blk by (auto simp: read_by_planes_def Let_def)
  next
    case False
    then have "chip_known C ?chip" using bank_chip [OF bank] by simp
    then have "pageop_ok C (512 * SECTOR_CNT_OF_SUPER_PAGE C) (4 * SECTOR_CNT_OF_SUPER_PAGE C)
        (read_planes C H part op ?chip blk (plane_cnt C) 0 0)"
      by (intro read_planes_ok part) simp_all
    then obtain r m b s' where "read_planes C H part op ?chip blk (plane_cnt C) 0 0 main oob s = Some (r, m, b, s')"
        "phys_ready C s'" "length m = length main" "map_option length b = map_option length oob"
      by (rule pageop_okD [OF _ s n o8])
    then show ?thesis using False blk by (simp add: read_by_planes_def Let_def)
  qed
qed

lemma PageRead_ok:
  fixes H :: "'h nfc_hw"
  assumes "bank_ok C (op_BankNum op)"
  shows "pageop_ok C (512 * SECTOR_CNT_OF_SUPER_PAGE C) (4 * SECTOR_CNT_OF_SUPER_PAGE C) (phys_PageRead C H op)"
proof (rule pageop_okI)
  fix main :: "u8 list" and oob :: "u8 list option" and s :: "'h nst"
  assume s: "phys_ready C s" and n: "512 * SECTOR_CNT_OF_SUPER_PAGE C \<le> length main"
    and o8: "spare_room oob (4 * SECTOR_CNT_OF_SUPER_PAGE C)"
  have "\<not> SUPPORT_MULTI_READ C" using ready_cfg [OF s] by (simp add: phys_cfg_def)
  then show "total (phys_PageRead C H op main oob s)
      (\<lambda>(r, m, b, s). phys_ready C s \<and> length m = length main \<and> map_option length b = map_option length oob)"
    using read_by_planes_ok [OF read_sectors_ok assms, where H = H] s n o8
    by (simp add: phys_PageRead_def pageop_ok_def)
qed

lemma PageReadSpare_ok:
  fixes H :: "'h nfc_hw"
  assumes "bank_ok C (op_BankNum op)"
  shows "pageop_ok C (512 * SECTOR_CNT_OF_SUPER_PAGE C) (4 * SECTOR_CNT_OF_SUPER_PAGE C) (phys_PageReadSpare C H op)"
proof -
  have "pageop_ok C (512 * SECTOR_CNT_OF_SINGLE_PAGE C) 8 (read_single_page_spare C H rop 0)"
    if "chip_known C (bp_chip rop)" for rop
  proof (rule pageop_okI)
    fix main :: "u8 list" and oob :: "u8 list option" and s :: "'h nst"
    assume s: "phys_ready C s" and n: "512 * SECTOR_CNT_OF_SINGLE_PAGE C \<le> length main" and o8: "spare_room oob 8"
    have "2048 \<le> length main" using n phys_geometry(1) [OF ready_cfg [OF s]] by auto
    then show "total (read_single_page_spare C H rop 0 main oob s)
        (\<lambda>(r, m, b, s). phys_ready C s \<and> length m = length main \<and> map_option length b = map_option length oob)"
      using read_page_spare_ok [OF that] s o8 unfolding pageop_ok_def by blast
  qed
  from read_by_planes_ok [OF this assms] show ?thesis by (simp add: phys_PageReadSpare_def [abs_def])
qed

section \<open>Super pages: writes\<close>

abbreviation (input) ends_ready :: "cfg \<Rightarrow> (int \<times> 'h nst) option \<Rightarrow> bool" where
  "ends_ready C m \<equiv> total m (\<lambda>(r, s). phys_ready C s)"

lemma write_spare_ok:
  assumes "SECTOR_CNT_OF_SINGLE_PAGE C \<le> 16" "spare_room oob (4 * SECTOR_CNT_OF_SINGLE_PAGE C)"
  shows "\<exists>sp. write_spare C oob = Some sp \<and> length sp = 64"
  using assms by (cases oob) (auto simp: write_spare_def Let_def mem_put_def mem_get_def spare_room_def)

lemma write_cmd_list_ok: "\<exists>a x y. write_cmds (write_cmd_list C op p1 p2) = Some (a, x, y) \<and> addr_ok a"
  by (simp add: write_cmd_list_def addr_ok_def add_cmd_list_def Let_def)

lemma write_page_ok:
  assumes s: "phys_ready C s" and n: "512 * SECTOR_CNT_OF_SINGLE_PAGE C \<le> length main"
    and o8: "spare_room oob (4 * SECTOR_CNT_OF_SINGLE_PAGE C)"
  shows "ends_ready C (write_signle_page C H op p1 p2 d rb main oob s)"
proof -
  have "SECTOR_CNT_OF_SINGLE_PAGE C \<le> 16" using phys_geometry(1) [OF ready_cfg [OF s]] by auto
  then obtain sp where sp: "write_spare C oob = Some sp" "length sp = 64" using write_spare_ok o8 by blast
  obtain a x y where c: "write_cmds (write_cmd_list C op p1 p2) = Some (a, x, y)" "addr_ok a" using write_cmd_list_ok by blast
  have w: "ends_ready C (NFC_Write H (write_cmd_list C op p1 p2) main sp d rb 1 t)" if "phys_ready C t" for t
    by (rule ready.NFC_Write_t [OF that c n sp(2)])
  show ?thesis
    using w [of "select_chip_rb C H (bp_chip32 op) s"] w [of "random_on H (cal_random_seed (bp_page32 op)) (select_chip_rb C H (bp_chip32 op) s)"]
      sp(1) s by (auto simp: write_signle_page_def Let_def total_iff)
qed

lemma write_programs_ok:
  assumes "phys_cfg C" "i < plane_cnt C" shows "\<exists>p q. write_programs C i = Some (p, q)"
proof -
  have "length (MultiPlaneWriteCmd (OptPhyOpPar (storage C))) = 2" using assms(1) by (simp add: phys_cfg_def)
  then show ?thesis by (simp add: write_programs_def Let_def)
qed

lemma write_planes_ok:
  fixes H :: "'h nfc_hw"
  assumes n: "512 * SECTOR_CNT_OF_SUPER_PAGE C \<le> length main" and o8: "spare_room oob (4 * SECTOR_CNT_OF_SUPER_PAGE C)"
  shows "phys_ready C s \<Longrightarrow> i + k \<le> plane_cnt C \<Longrightarrow> ends_ready C (write_planes C H op chip blk k i ret main oob s)"
proof (induction k arbitrary: i ret s)
  case (Suc k)
  let ?n = "SECTOR_CNT_OF_SINGLE_PAGE C"
  note s = Suc.prems(1)
  note g = phys_geometry [OF ready_cfg [OF s]]
  have "?n * (i + 1) \<le> ?n * plane_cnt C" using Suc.prems by (intro mult_le_mono) auto
  then have le: "?n * i + ?n \<le> SECTOR_CNT_OF_SUPER_PAGE C" using g(3) by simp
  then have room: "512 * ?n \<le> length (drop (512 * ?n * i) main)" "spare_room (map_option (drop (4 * ?n * i)) oob) (4 * ?n)"
    using n o8 by (auto simp: spare_room_def split: option.splits)
  obtain w t where w: "wait_rb_ready C H (ucast chip) s = (w, t)" "phys_ready C t" using wait_ready_ok [OF s] by blast
  obtain p q where p: "write_programs C i = Some (p, q)" using write_programs_ok [OF ready_cfg [OF s]] Suc.prems(2) by fastforce
  obtain r u where r: "write_signle_page C H (plane_op C op chip blk i (FULL_BITMAP_OF_SINGLE_PAGE C)) p q 0 0
      (drop (512 * ?n * i) main) (map_option (drop (4 * ?n * i)) oob) t = Some (r, u)" "phys_ready C u"
    using write_page_ok [OF w(2) room, of H "plane_op C op chip blk i (FULL_BITMAP_OF_SINGLE_PAGE C)" p q 0 0] by (auto simp: total_iff)
  show ?case using Suc.IH [OF r(2), of "Suc i" "ret OR r"] Suc.prems(2) w(1) p r(1) by simp
qed simp

lemma PageWrite_ok:
  assumes s: "phys_ready C s" and n: "512 * SECTOR_CNT_OF_SUPER_PAGE C \<le> length main"
    and o8: "spare_room oob (4 * SECTOR_CNT_OF_SUPER_PAGE C)"
  shows "ends_ready C (phys_PageWrite C H op main oob s)"
proof -
  obtain blk where "cal_block_in_chip C (ucast (op_BankNum op)) (ucast (op_BlkNum op)) = Some blk"
    using phys_geometry(4) [OF ready_cfg [OF s]] by blast
  then show ?thesis using write_planes_ok [OF n o8 s, of 0 "plane_cnt C" H op] s by (simp add: phys_PageWrite_def Let_def)
qed

section \<open>Erases, waits and copy-backs\<close>

lemma run_cmds_ok: "phys_ready C s \<Longrightarrow> list_all addr_ok cs \<Longrightarrow> ends_ready C (run_cmds H cs s)"
  by (rule totalI [OF run_cmds_defined ready.run_cmds_inv])

lemma erase_cmds_ok:
  "list_all addr_ok (map (\<lambda>i. add_cmd_list 0x60 3 (cal_addr_in_chip C (b i) 0 0 3) 0 0 0 0) is @ [plain_cmd 0xd0])"
  by (simp add: list_all_iff addr_ok_def add_cmd_list_def)

lemma BlockErase_ok:
  assumes s: "phys_ready C s"
  shows "ends_ready C (phys_BlockErase C H op s)"
proof -
  obtain blk where blk: "cal_block_in_chip C (ucast (op_BankNum op)) (ucast (op_BlkNum op)) = Some blk"
    using phys_geometry(4) [OF ready_cfg [OF s]] by blast
  let ?chip = "ucast (cal_real_chip C (ucast (op_BankNum op))) :: u32"
  obtain w t where w: "wait_rb_ready C H ?chip s = (w, t)" "phys_ready C t" using wait_ready_ok [OF s] by blast
  have "ends_ready C (run_cmds H (map (\<lambda>i. add_cmd_list 0x60 3 (cal_addr_in_chip C (blk + of_nat i * MULTI_PLANE_BLOCK_OFFSET C) 0 0 3)
      0 0 0 0) [0..<plane_cnt C] @ [plain_cmd 0xd0]) (select_chip_rb C H ?chip t))"
    by (rule run_cmds_ok [OF select_ok [OF w(2)] erase_cmds_ok])
  then obtain r u where "run_cmds H (map (\<lambda>i. add_cmd_list 0x60 3 (cal_addr_in_chip C (blk + of_nat i * MULTI_PLANE_BLOCK_OFFSET C) 0 0 3)
      0 0 0 0) [0..<plane_cnt C] @ [plain_cmd 0xd0]) (select_chip_rb C H ?chip t) = Some (r, u)" "phys_ready C u"
    by (auto simp: total_iff)
  then show ?thesis using blk w s by (simp add: phys_BlockErase_def NFC_Erase_def Let_def)
qed

lemma read_status_ok: "phys_ready C s \<Longrightarrow> ends_ready C (read_status C' H cmd b s)"
proof -
  assume s: "phys_ready C s"
  have "read_status C' H cmd b s \<noteq> None"
    unfolding read_status_def Let_def by (rule get_status_defined) (simp add: addr_ok_def add_cmd_list_def)
  then show ?thesis by (rule totalI [OF _ ready.read_status_inv [OF s]])
qed

lemma synch_loop_ok: "phys_ready C s \<Longrightarrow> total (synch_loop C' H cmd b t s) (\<lambda>(r, s). phys_ready C s)"
proof (induction t arbitrary: s)
  case 0
  then show ?case using read_status_ok [OF 0, of C' H cmd b] by (auto simp: total_iff)
next
  case (Suc t)
  obtain r u where "read_status C' H cmd b s = Some (r, u)" "phys_ready C u"
    using read_status_ok [OF Suc.prems, of C' H cmd b] by (auto simp: total_iff)
  then show ?case using Suc.IH [of u] by simp
qed

lemma SynchBank_ok:
  assumes s: "phys_ready C s"
  shows "ends_ready C (phys_SynchBank C H b mode s)"
proof -
  let ?chip = "ucast (cal_real_chip C b) :: u32"
  note bnk = phys_geometry(5) [OF ready_cfg [OF s]]
  have "total (synch_loop C H (synch_cmd C b mode) (b mod BNK_CNT_OF_CHIP C) 0x10000 (select_chip_rb C H ?chip s))
      (\<lambda>(r, s). phys_ready C s)"
    by (rule synch_loop_ok [OF select_ok [OF s]])
  then obtain r t where "synch_loop C H (synch_cmd C b mode) (b mod BNK_CNT_OF_CHIP C) 0x10000 (select_chip_rb C H ?chip s)
      = Some (r, t)" "phys_ready C t"
    unfolding total_iff by auto
  then show ?thesis using bnk s by (cases r) (simp_all add: phys_SynchBank_def Let_def del: synch_loop.simps)
qed

lemma copy_back_run_ok:
  assumes s: "phys_ready C s" and c: "list_all addr_ok rc" "list_all addr_ok wc"
  shows "ends_ready C (copy_back_run C H chip rc wc s)"
proof -
  obtain w t where w: "wait_rb_ready C H (ucast chip) s = (w, t)" "phys_ready C t" using wait_ready_ok [OF s] by blast
  have "ends_ready C (run_cmds H rc (select_chip_rb C H (ucast chip) t))" by (rule run_cmds_ok [OF select_ok [OF w(2)] c(1)])
  then obtain r u where r: "run_cmds H rc (select_chip_rb C H (ucast chip) t) = Some (r, u)" "phys_ready C u"
    by (auto simp: total_iff)
  obtain r2 u2 where "run_cmds H wc u = Some (r2, u2)" "phys_ready C u2"
    using run_cmds_ok [OF r(2) c(2), of H] by (auto simp: total_iff)
  then show ?thesis using w r by (simp add: copy_back_run_def NFC_CopyBackRead_def NFC_CopyBackWrite_def Let_def)
qed

lemma copy_addr_ok: "addr_ok (add_cmd_list v (copy_cyc C) (copy_addr C b i page) 0 0 0 0)" "addr_ok (plain_cmd v)"
  by (simp_all add: addr_ok_def add_cmd_list_def copy_cyc_def copy_addr_def)

lemma copy_back_blocks_ok:
  assumes "phys_cfg C" shows "\<exists>x. copy_back_blocks C src dst = Some x"
proof -
  obtain a b where "cal_block_in_chip C (ucast (op_BankNum src)) (ucast (op_BlkNum src)) = Some a"
      "cal_block_in_chip C (ucast (op_BankNum dst)) (ucast (op_BlkNum dst)) = Some b"
    using phys_geometry(4) [OF assms] by meson
  then show ?thesis by (simp add: copy_back_blocks_def Let_def)
qed

lemma single_copy_ok:
  assumes s: "phys_ready C s" shows "ends_ready C (single_copy_back C H src dst s)"
proof -
  obtain x where x: "copy_back_blocks C src dst = Some x" using copy_back_blocks_ok [OF ready_cfg [OF s]] by blast
  show ?thesis
  proof (cases x)
    case (Inr y)
    then show ?thesis using x copy_addr_ok by (cases y) (simp add: single_copy_back_def copy_back_run_ok [OF s])
  qed (simp add: x s single_copy_back_def)
qed

lemma multi_copy_ok:
  assumes s: "phys_ready C s" shows "ends_ready C (multi_copy_back C H src dst s)"
proof -
  obtain x where x: "copy_back_blocks C src dst = Some x" using copy_back_blocks_ok [OF ready_cfg [OF s]] by blast
  have l: "length (MultiPlaneCopyReadCmd (OptPhyOpPar (storage C))) = 3" "length (MultiPlaneCopyWriteCmd (OptPhyOpPar (storage C))) = 3"
    using ready_cfg [OF s] by (simp_all add: phys_cfg_def)
  have rc: "\<exists>c. copy_read_cmds C b p = Some c \<and> list_all addr_ok c" for b p
    using l by (auto simp: copy_read_cmds_def list_all_iff copy_addr_ok)
  have wc: "\<exists>c. copy_write_cmds C b p = Some c \<and> list_all addr_ok c" for b p
    using l by (auto simp: copy_write_cmds_def Let_def list_all_iff copy_addr_ok)
  show ?thesis
  proof (cases x)
    case (Inr y)
    obtain chip a b where y: "y = (chip, a, b)" by (cases y)
    obtain c d where "copy_read_cmds C a (op_PageNum src) = Some c" "list_all addr_ok c"
        "copy_write_cmds C b (op_PageNum src) = Some d" "list_all addr_ok d" using rc wc by metis
    then show ?thesis using x Inr y by (simp add: multi_copy_back_def copy_back_run_ok [OF s])
  qed (simp add: x s multi_copy_back_def)
qed

lemma PageCopyback_ok:
  fixes H :: "'h nfc_hw"
  assumes s: "phys_ready C s" and bank: "bank_ok C (op_BankNum src)"
  shows "ends_ready C (phys_PageCopyback C H src dst s)"
proof -
  let ?N = "SECTOR_CNT_OF_SUPER_PAGE C" and ?src = "src\<lparr>op_SectBitmap := FULL_BITMAP_OF_SUPER_PAGE C\<rparr>"
  let ?dst = "dst\<lparr>op_SectBitmap := FULL_BITMAP_OF_SUPER_PAGE C\<rparr>"
  obtain m b where c: "ns_PageCache0 s = Some m" "ns_SpareCache s = Some b" "length m = 512 * ?N" "length b = 4 * ?N"
    using s by (auto simp: phys_ready_def)
  have "pageop_ok C (512 * ?N) (4 * ?N) (phys_PageRead C H ?src)" by (rule PageRead_ok) (use bank in simp)
  moreover have "512 * ?N \<le> length m" "spare_room (Some b) (4 * ?N)" using c by (simp_all add: spare_room_def)
  ultimately obtain r m' b' t where 1: "phys_PageRead C H ?src m (Some b) s = Some (r, m', b', t)" "phys_ready C t"
      "length m' = length m" "map_option length b' = map_option length (Some b)"
    by (rule pageop_okD [OF _ s])
  let ?t = "t\<lparr>ns_PageCache0 := Some m', ns_SpareCache := b'\<rparr>"
  have t: "phys_ready C ?t" using 1 c by (simp add: phys_ready_def retry_tables_def)
  have "ends_ready C (phys_PageWrite C H ?dst m' b' ?t)"
    by (rule PageWrite_ok [OF t]) (use 1 c in \<open>auto simp: spare_room_def\<close>)
  then show ?thesis using c(1,2) 1(1) t single_copy_ok [OF s] multi_copy_ok [OF s]
    by (simp add: phys_PageCopyback_def Let_def)
qed

section \<open>Start-up\<close>

text \<open>An allocator gives out chunks of the size asked for; \<open>PHY_ChangeMode\<close>, when it succeeds, leaves a state that is
  ready.\<close>

definition chunks_fit :: "'h nfc_hw \<Rightarrow> bool" where
  "chunks_fit H \<longleftrightarrow> (\<forall>n h b h'. hw_malloc H n h = (Some b, h') \<longrightarrow> length b = n)"

lemma alloc_once_size:
  assumes "chunks_fit H" "alloc_once H n None s = (Some b, t)"
  shows "length b = n \<and> (\<exists>h. t = s\<lparr>ns_hw := h\<rparr>)"
proof -
  obtain q h where m: "hw_malloc H n (ns_hw s) = (q, h)" by (cases "hw_malloc H n (ns_hw s)")
  then have "q = Some b" "t = s\<lparr>ns_hw := h\<rparr>" using assms(2) by (auto simp: alloc_once_def)
  with m assms(1) show ?thesis unfolding chunks_fit_def by blast
qed

lemma alloc_caches_ready:
  assumes "chunks_fit H" "alloc_caches C H s = (True, t)"
    and "ns_PageCache0 s = None" "ns_SpareCache s = None" "ns_TmpPageCache s = None"
  shows "\<exists>h p q r. t = s\<lparr>ns_PageCache0 := Some p, ns_SpareCache := Some q, ns_hw := h, ns_TmpPageCache := Some r\<rparr>
    \<and> length p = 512 * SECTOR_CNT_OF_SUPER_PAGE C \<and> length q = 4 * SECTOR_CNT_OF_SUPER_PAGE C
    \<and> length r = 512 * SECTOR_CNT_OF_SUPER_PAGE C"
proof -
  let ?n = "SECTOR_CNT_OF_SUPER_PAGE C"
  obtain p1 s1 where 1: "alloc_once H (?n * 512) None s = (p1, s1)" by (cases "alloc_once H (?n * 512) None s")
  then obtain p where p: "p1 = Some p" using assms(2,3) by (cases p1) (auto simp: alloc_caches_def Let_def)
  then obtain h1 where h1: "s1 = s\<lparr>ns_hw := h1\<rparr>" "length p = ?n * 512" using alloc_once_size [OF assms(1)] 1 by blast
  let ?s1 = "s1\<lparr>ns_PageCache0 := Some p\<rparr>"
  obtain p2 s2 where 2: "alloc_once H (?n * 4) None ?s1 = (p2, s2)" by (cases "alloc_once H (?n * 4) None ?s1")
  then obtain q where q: "p2 = Some q"
    using assms(2-4) 1 p h1 by (cases p2) (auto simp: alloc_caches_def Let_def)
  then obtain h2 where h2: "s2 = ?s1\<lparr>ns_hw := h2\<rparr>" "length q = ?n * 4" using alloc_once_size [OF assms(1)] 2 by blast
  let ?s2 = "s2\<lparr>ns_SpareCache := Some q\<rparr>"
  obtain p3 s3 where 3: "alloc_once H (?n * 512) None ?s2 = (p3, s3)" by (cases "alloc_once H (?n * 512) None ?s2")
  then obtain r where r: "p3 = Some r" and t: "t = s3\<lparr>ns_TmpPageCache := Some r\<rparr>"
    using assms(2-5) 1 2 p q h1 h2 by (cases p3) (auto simp: alloc_caches_def Let_def)
  then obtain h3 where "s3 = ?s2\<lparr>ns_hw := h3\<rparr>" "length r = ?n * 512" using alloc_once_size [OF assms(1)] 3 by blast
  then show ?thesis using t h1 h2 by (auto simp: mult.commute)
qed

lemma NAND_SetClock_hw: "NAND_SetClock H c s = Some (r, t) \<Longrightarrow> \<exists>h. t = s\<lparr>ns_hw := h\<rparr>"
  by (auto simp: NAND_SetClock_def NAND_GetCmuClk_def NFC_READ_REG_def NFC_WRITE_REG_def reg_upd_def Let_def split_def
      split: if_splits)

lemma poll_hw: "(\<And>s. \<exists>h. snd (busy s) = s\<lparr>ns_hw := h\<rparr>) \<Longrightarrow> \<exists>h. snd (poll busy n s) = s\<lparr>ns_hw := h\<rparr>"
proof (induction n arbitrary: s)
  case 0
  show ?case by (rule exI [of _ "ns_hw s"]) simp
next
  case (Suc n)
  obtain b t where b: "busy s = (b, t)" by (cases "busy s")
  then obtain h where "t = s\<lparr>ns_hw := h\<rparr>" using Suc.prems [of s] by auto
  then show ?case using b Suc.IH [OF Suc.prems, of t] by auto
qed

lemma NFC_ChangMode_regs:
  "\<exists>h. snd (NFC_ChangMode H n s) = s\<lparr>ns_pagesize := ucast (ni_pagesize n) * 512, ns_hw := h\<rparr>"
proof -
  let ?busy = "\<lambda>s :: 'a nst. let (v, s) = NFC_READ_REG H NFC_REG_CTL s in (v AND NFC_RESET \<noteq> 0, s)"
  have "\<exists>h. snd (nfc_reset H t) = t\<lparr>ns_hw := h\<rparr>" for t :: "'a nst"
  proof -
    have "\<exists>h. snd (poll ?busy 0xffff u) = u\<lparr>ns_hw := h\<rparr>" for u
      by (rule poll_hw) (auto simp: NFC_READ_REG_def split_def Let_def)
    then obtain h where "snd (poll ?busy 0xffff (reg_upd H NFC_REG_CTL (\<lambda>cfg. cfg OR NFC_RESET) t))
        = (reg_upd H NFC_REG_CTL (\<lambda>cfg. cfg OR NFC_RESET) t)\<lparr>ns_hw := h\<rparr>" by blast
    then show ?thesis
      by (auto simp: nfc_reset_def Let_def split_def reg_upd_def NFC_READ_REG_def NFC_WRITE_REG_def)
  qed
  from this [of "s\<lparr>ns_pagesize := ucast (ni_pagesize n) * 512\<rparr>"] show ?thesis
    by (auto simp: NFC_ChangMode_def NFC_WRITE_REG_def Let_def)
qed

lemma PHY_ChangeMode_ready:
  assumes "phys_cfg C" "chunks_fit H"
    and "ns_PageCache0 s = None" "ns_SpareCache s = None" "ns_TmpPageCache s = None"
    and "length (ns_RetryCount s) = 8" "SUPPORT_READ_RETRY C \<longrightarrow> retry_tables s"
    and "PHY_ChangeMode C H mode s = Some (0, s')"
  shows "phys_ready C s'"
proof -
  from assms(8) obtain r t where 1: "NAND_SetClock H (ucast (FrequencePar (storage C))) s = Some (r, t)"
    by (auto simp: PHY_ChangeMode_def Option.bind_eq_Some_conv)
  then obtain h where t: "t = s\<lparr>ns_hw := h\<rparr>" using NAND_SetClock_hw by blast
  obtain ok u where 2: "alloc_caches C H t = (ok, u)" by (cases "alloc_caches C H t")
  with 1 assms(8) have ok: "ok" by (auto simp: PHY_ChangeMode_def split: if_splits)
  have "ns_PageCache0 t = None" "ns_SpareCache t = None" "ns_TmpPageCache t = None" using t assms(3-5) by simp_all
  from alloc_caches_ready [OF assms(2) _ this, of C u] 2 ok obtain k p q b where u:
      "u = t\<lparr>ns_PageCache0 := Some p, ns_SpareCache := Some q, ns_hw := k, ns_TmpPageCache := Some b\<rparr>" and l:
      "length p = 512 * SECTOR_CNT_OF_SUPER_PAGE C" "length q = 4 * SECTOR_CNT_OF_SUPER_PAGE C"
      "length b = 512 * SECTOR_CNT_OF_SUPER_PAGE C" by auto
  obtain j where v: "NFC_SetEccMode H (EccMode (storage C)) u = u\<lparr>ns_hw := j\<rparr>"
    by (simp add: NFC_SetEccMode_def NFC_READ_REG_def NFC_WRITE_REG_def reg_upd_def Let_def split_def)
  define n where "n = \<lparr>ni_bus_width = 0, ni_rb_sel = junk8 C 0, ni_ce_ctl = 0, ni_ce_ctl1 = 0,
    ni_pagesize = SectorCntPerPage (storage C), ni_serial_access_mode = mode,
    ni_ddr_type = ucast (DDRType (storage C)), ni_debug = 0\<rparr>"
  have "s' = snd (NFC_ChangMode H n (u\<lparr>ns_hw := j\<rparr>))" "ni_pagesize n = SectorCntPerPage (storage C)"
    using assms(8) 1 2 ok v by (auto simp: PHY_ChangeMode_def n_def split: if_splits)
  then obtain w where "s' = u\<lparr>ns_hw := j, ns_pagesize := ucast (SectorCntPerPage (storage C)) * 512, ns_hw := w\<rparr>"
    using NFC_ChangMode_regs [of H n "u\<lparr>ns_hw := j\<rparr>"] by auto
  moreover have "SectorCntPerPage (storage C) \<in> {4, 8, 16}" using assms(1) by (simp add: phys_cfg_def geometry_ok_def)
  ultimately show ?thesis using assms(1,6,7) l unfolding u t
    by (auto simp: phys_ready_def retry_tables_def SECTOR_CNT_OF_SINGLE_PAGE_def)
qed

section \<open>Properties\<close>

text \<open>C14: no operation of the physic layer has undefined behaviour, on any path, whatever the controller and the
  chips answer: on a chip with the geometry of a scan, without two-plane reads, with no read retry or that of the
  Hynix kind, for a bank the connection mode knows, and with buffers of the size of a super page (or larger), every
  operation returns; it stays inside the page and spare buffers, its own caches and tables and the command lists,
  keeps the sizes of the buffers, and leaves the driver in a state from which the next operation is safe again.\<close>

theorem physic_in_bounds:
  assumes "phys_ready C s" and "bank_ok C (op_BankNum op)"
    and "512 * SECTOR_CNT_OF_SUPER_PAGE C \<le> length m" "spare_room sb (4 * SECTOR_CNT_OF_SUPER_PAGE C)"
  shows "total (phys_PageRead C H op m sb s)
      (\<lambda>(r, m', sb', s'). phys_ready C s' \<and> length m' = length m \<and> map_option length sb' = map_option length sb)
    \<and> total (phys_PageReadSpare C H op m sb s)
      (\<lambda>(r, m', sb', s'). phys_ready C s' \<and> length m' = length m \<and> map_option length sb' = map_option length sb)
    \<and> total (phys_PageWrite C H op m sb s) (\<lambda>(r, s'). phys_ready C s')
    \<and> total (phys_BlockErase C H op s) (\<lambda>(r, s'). phys_ready C s')
    \<and> total (phys_SynchBank C H b mode s) (\<lambda>(r, s'). phys_ready C s')
    \<and> total (phys_PageCopyback C H op dst s) (\<lambda>(r, s'). phys_ready C s')"
  using PageRead_ok [OF assms(2), of H] PageReadSpare_ok [OF assms(2), of H] assms
    PageWrite_ok [OF assms(1,3,4)] BlockErase_ok [OF assms(1)] SynchBank_ok [OF assms(1)] PageCopyback_ok [OF assms(1,2)]
  by (simp add: pageop_ok_def)

text \<open>A scan of the sample chip: one chip of two planes, eight sectors a page.\<close>

definition two_plane_cfg :: cfg where
  "two_plane_cfg = k9lbg08_cfg\<lparr>storage := (storage k9lbg08_cfg)\<lparr>BankCntPerChip := 1, OperationOpt := 0x8\<rparr>\<rparr>"

definition started_nst :: "(nat \<Rightarrow> u32) nst" where
  "started_nst = ready_nst\<lparr>ns_PageCache0 := Some (replicate 8192 0), ns_SpareCache := Some (replicate 64 0),
     ns_TmpPageCache := Some (replicate 8192 0)\<rparr>"

lemma started_ready: "phys_ready two_plane_cfg started_nst"
  by (simp add: phys_ready_def phys_cfg_def geometry_ok_def multi_plane_cfg_def two_plane_cfg_def k9lbg08_cfg_def
      sample_cfg_def sample_storage_def started_nst_def ready_nst_def SUPPORT_MULTI_PROGRAM_def PLANE_CNT_OF_DIE_def
      BNK_CNT_OF_CHIP_def DIE_CNT_OF_CHIP_def MULTI_PLANE_BLOCK_OFFSET_def SUPPORT_MULTI_READ_def
      SUPPORT_READ_RETRY_def BLOCK_CNT_OF_DIE_def SECTOR_CNT_OF_SINGLE_PAGE_def SECTOR_CNT_OF_SUPER_PAGE_def)

theorem physic_in_bounds_witness:
  "total (phys_PageCopyback two_plane_cfg ready_hw \<lparr>op_BankNum = 0, op_PageNum = 3, op_BlkNum = 5, op_SectBitmap = 0\<rparr>
     \<lparr>op_BankNum = 0, op_PageNum = 3, op_BlkNum = 6, op_SectBitmap = 0\<rparr> started_nst)
     (\<lambda>(r, s'). phys_ready two_plane_cfg s')"
proof -
  let ?op = "\<lparr>op_BankNum = 0, op_PageNum = 3, op_BlkNum = 5, op_SectBitmap = 0\<rparr>"
  have "bank_ok two_plane_cfg (op_BankNum ?op)" 
    by (simp add: bank_ok_def cal_real_chip_def RB_CONNECT_MODE_def two_plane_cfg_def k9lbg08_cfg_def)
  moreover have "512 * SECTOR_CNT_OF_SUPER_PAGE two_plane_cfg \<le> length (replicate 8192 0 :: u8 list)"
    by (simp add: SECTOR_CNT_OF_SUPER_PAGE_def two_plane_cfg_def k9lbg08_cfg_def sample_cfg_def sample_storage_def
        SUPPORT_MULTI_PROGRAM_def)
  moreover have "spare_room None (4 * SECTOR_CNT_OF_SUPER_PAGE two_plane_cfg)" by (simp add: spare_room_def)
  ultimately show ?thesis using physic_in_bounds [OF started_ready] by blast
qed

end
