(* ===== verification/Boot_Write.thy ===== *)
theory Boot_Write
  imports Boot_Area Sample_Device
begin

text \<open>
  \<open>bootarea_write\<close> as a change of sectors: the merge of the first and of the last block, the theorems
  about the boot area, and a device in memory at which they are applied.
\<close>

section \<open>Merged blocks\<close>

lemma put_secs_cong: "n * 512 \<le> length X \<Longrightarrow> put_secs sec a (X @ Y) n = put_secs sec a X n"
proof -
  assume n: "n * 512 \<le> length X"
  have "take 512 (drop ((x - a) * 512) (X @ Y)) = take 512 (drop ((x - a) * 512) X)" if "x < a + n" "a \<le> x" for x
  proof -
    have "(x - a) * 512 + 512 \<le> n * 512" using that by linarith
    with n have "(x - a) * 512 + 512 \<le> length X" by linarith
    then show ?thesis by simp
  qed
  then show ?thesis by (auto simp: put_secs_def fun_eq_iff)
qed

lemma put_secs_append:
  "length X = m * 512 \<Longrightarrow> put_secs sec a (X @ Y) (m + n) = put_secs (put_secs sec a X m) (a + m) Y n"
  using put_secs_add [of sec a "X @ Y" m n] by (simp add: put_secs_cong)

lemma put_secs_same: "full_sectors sec \<Longrightarrow> put_secs sec a (secs sec a n) n = sec"
proof -
  assume f: "full_sectors sec"
  have "take 512 (drop ((x - a) * 512) (secs sec a n)) = sec x" if "a \<le> x" "x < a + n" for x
    using secs_slice [OF f, of "x - a" 1 n a] that f by (simp add: secs_Suc full_sectors_def)
  then show ?thesis by (auto simp: put_secs_def fun_eq_iff)
qed

lemma put_secs_back: "full_sectors sec \<Longrightarrow> a + k \<le> b \<Longrightarrow> put_secs (put_secs sec a d k) b (secs sec b n) n = put_secs sec a d k"
  using put_secs_same [of sec b n] by (auto simp: put_secs_def fun_eq_iff)

text \<open>A block written with the old sectors around new data, and with other sectors behind the data.\<close>

lemma put_merged:
  assumes "full_sectors sec" and "length d = n * 512"
  shows "put_secs sec a (secs sec a i @ d @ secs sec b k) (i + n + k)
    = put_secs (put_secs sec (a + i) d n) (a + i + n) (secs sec b k) k"
proof -
  have "put_secs sec a (secs sec a i @ d @ secs sec b k) (i + (n + k))
      = put_secs (put_secs sec a (secs sec a i) i) (a + i) (d @ secs sec b k) (n + k)"
    by (rule put_secs_append) (simp add: assms)
  also have "\<dots> = put_secs (put_secs sec (a + i) d n) (a + i + n) (secs sec b k) k"
    by (simp add: put_secs_same assms put_secs_append)
  finally show ?thesis by (simp add: add.assoc)
qed

text \<open>The sizes of the code: sectors of a block, and the first sector of the second boot area.\<close>

definition boot_sizes :: "cfg \<Rightarrow> u32 \<Rightarrow> bool \<Rightarrow> nat \<Rightarrow> bool" where
  "boot_sizes C spp bootnum N \<longleftrightarrow> 0 < PAGE_CNT_OF_PHY_BLK C \<and> 0 < unat spp \<and> N * unat spp < 2 ^ 32
     \<and> PAGE_CNT_OF_PHY_BLK C dvd N \<and> PAGE_CNT_OF_PHY_BLK C dvd base_page bootnum \<and> 0 < N"

abbreviation spblk :: "cfg \<Rightarrow> u32 \<Rightarrow> nat" where
  "spblk C spp \<equiv> PAGE_CNT_OF_PHY_BLK C * unat spp"

lemma unat_mult_small: "unat x * unat y < 2 ^ 32 \<Longrightarrow> unat ((x :: u32) * y) = unat x * unat y"
  by (simp add: unat_word_ariths)

lemma sizes:
  assumes "boot_sizes C spp bootnum N"
  shows "unat (spp * ppb C) = spblk C spp" and "0 < spblk C spp" and "N < 2 ^ 32"
    and "base_page bootnum * unat spp < 2 ^ 32 \<Longrightarrow>
      unat (if bootnum then 0x200 * spp else 0) = base_page bootnum * unat spp"
proof -
  have "PAGE_CNT_OF_PHY_BLK C \<le> N" using assms by (auto simp: boot_sizes_def dest: dvd_imp_le)
  then have "spblk C spp \<le> N * unat spp" by simp
  also have "\<dots> < 2 ^ 32" using assms by (simp add: boot_sizes_def)
  finally show "unat (spp * ppb C) = spblk C spp"
    using unat_mult_small [of spp "ppb C"] by (simp add: ppb_unat mult.commute)
  show "0 < spblk C spp" using assms by (simp add: boot_sizes_def)
  have "N \<le> N * unat spp" using assms by (simp add: boot_sizes_def)
  also have "\<dots> < 2 ^ 32" using assms by (simp add: boot_sizes_def)
  finally show "N < 2 ^ 32" .
  show "base_page bootnum * unat spp < 2 ^ 32 \<Longrightarrow>
      unat (if bootnum then 0x200 * spp else 0) = base_page bootnum * unat spp"
    using unat_mult_small [of "0x200" spp] by (cases bootnum) (simp_all add: base_page_def)
qed

lemma read_area_at:
  assumes D: "boot_device C (unat spp) rd er wr sec N" and Z: "boot_sizes C spp bootnum N"
    and a: "a + unat n \<le> N * unat spp" "base_page bootnum * unat spp + unat first = a"
    and buf: "unat n * 512 \<le> length buf"
  shows "\<exists>s'. bootarea_read C spp rd first n buf bootnum s =
      Some (0, secs (sec s) a (unat n) @ drop (unat n * 512) buf, s') \<and> sec s' = sec s"
  using bootarea_read_at [of C spp rd sec N bootnum first n buf s] D Z a buf
  by (auto simp: boot_device_def boot_sizes_def)

text \<open>The arguments of the code's calls, relative to the boot area.\<close>

lemma rel_address:
  assumes Z: "boot_sizes C spp bootnum N" and b: "base_page bootnum * unat spp \<le> unat block * spblk C spp"
    and N: "unat block * spblk C spp + unat k \<le> N * unat spp"
  defines "base0 \<equiv> if bootnum then 0x200 * spp else 0"
  shows "base_page bootnum * unat spp + unat (block * (spp * ppb C) - base0 + k) = unat block * spblk C spp + unat k"
proof -
  have lim: "N * unat spp < 2 ^ 32" using Z by (simp add: boot_sizes_def)
  have bl: "unat (block * (spp * ppb C)) = unat block * spblk C spp"
    using unat_mult_small [of block "spp * ppb C"] sizes(1) [OF Z] N lim by simp
  have b0: "unat base0 = base_page bootnum * unat spp"
    unfolding base0_def by (rule sizes(4) [OF Z]) (use b N lim in linarith)
  have d: "unat (block * (spp * ppb C) - base0) = unat block * spblk C spp - base_page bootnum * unat spp"
    using b by (simp add: unat_sub word_le_nat_alt bl b0)
  have "unat (block * (spp * ppb C) - base0 + k) = unat block * spblk C spp - base_page bootnum * unat spp + unat k"
    using unat_small [of "block * (spp * ppb C) - base0" "unat k"] N lim by (simp add: d)
  then show ?thesis using b by linarith
qed

text \<open>A block whose first sectors are new.\<close>

lemma merge_tail_at:
  assumes D: "boot_device C (unat spp) rd er wr sec N" and Z: "boot_sizes C spp bootnum N"
    and b: "base_page bootnum * unat spp \<le> unat block * spblk C spp"
    and fit: "Suc (unat block) * PAGE_CNT_OF_PHY_BLK C \<le> N"
    and t: "unat bs < spblk C spp" and buf: "unat bs * 512 \<le> length buf"
    and cache: "\<And>c. cache = Some c \<Longrightarrow> length c = spblk C spp * 512"
  defines "base0 \<equiv> if bootnum then 0x200 * spp else 0"
  shows "\<exists>s'. boot_merge_tail C (spp * ppb C) (block * (spp * ppb C) - base0)
      (\<lambda>first n buf. bootarea_read C spp rd first n buf bootnum) (boot_write_block C er wr (unat spp) block)
      bs buf cache s = Some (0, s')
    \<and> sec s' = put_secs (sec s) (unat block * spblk C spp) buf (unat bs)"
proof -
  let ?S = "spblk C spp" and ?b = "unat block" and ?t = "unat bs" and ?P = "PAGE_CNT_OF_PHY_BLK C"
  note S = sizes(1) [OF Z]
  have sec: "full_sectors (sec s)" for s using D by (simp add: boot_device_def)
  define c where "c = (case cache of None \<Rightarrow> map (junk8 C) [0..<unat (spp * ppb C) * 512] | Some c \<Rightarrow> c)"
  have c: "length c = ?S * 512" using cache by (auto simp: c_def S split: option.splits)
  have get: "mem_get buf 0 (?t * 512) = Some (take (?t * 512) buf)" using buf by (simp add: mem_get_def)
  have put: "mem_put c 0 (take (?t * 512) buf) = Some (take (?t * 512) buf @ drop (?t * 512) c)"
    using t buf by (simp add: mem_put_def c min_def)
  have left: "unat (spp * ppb C - bs) = ?S - ?t" using t by (simp add: unat_sub word_le_nat_alt S)
  have blk: "?b * ?S + ?S \<le> N * unat spp"
    using mult_le_mono1 [OF fit, of "unat spp"] by (simp add: add_mult_distrib algebra_simps)
  obtain s1 where read: "bootarea_read C spp rd (block * (spp * ppb C) - base0 + bs) (spp * ppb C - bs)
        (drop (?t * 512) c) bootnum s = Some (0, secs (sec s) (?b * ?S + ?t) (?S - ?t), s1)"
    and s1: "sec s1 = sec s"
    using read_area_at [OF D Z, of "?b * ?S + ?t" "spp * ppb C - bs" _ "drop (?t * 512) c" s]
      rel_address [OF Z b, of bs, folded base0_def] blk t c by (auto simp: left diff_mult_distrib)
  have data: "length (take (?t * 512) buf @ secs (sec s) (?b * ?S + ?t) (?S - ?t)) = ?S * 512"
    using t buf sec by (simp add: min_def diff_mult_distrib)
  obtain s2 where wblk: "boot_write_block C er wr (unat spp) block
        (take (?t * 512) buf @ secs (sec s) (?b * ?S + ?t) (?S - ?t)) s1 = Some (0, s2)"
    and s2: "sec s2 = put_secs (sec s1) (?b * ?S) (take (?t * 512) buf @ secs (sec s) (?b * ?S + ?t) (?S - ?t)) ?S"
    using write_block_at [OF D _ _ fit, of "take (?t * 512) buf @ secs (sec s) (?b * ?S + ?t) (?S - ?t)" s1]
      Z data by (auto simp: boot_sizes_def mult.assoc)
  have "sec s2 = put_secs (sec s) (?b * ?S) buf ?t"
  proof -
    have d: "length (take (?t * 512) buf) = ?t * 512" using buf by simp
    have "sec s2 = put_secs (put_secs (sec s) (?b * ?S) (take (?t * 512) buf) ?t) (?b * ?S + ?t)
        (secs (sec s) (?b * ?S + ?t) (?S - ?t)) (?S - ?t)"
      using put_merged [OF sec d, of s "?b * ?S" 0 "?b * ?S + ?t" "?S - ?t"] t by (simp add: s1 s2)
    also have "\<dots> = put_secs (sec s) (?b * ?S) (take (?t * 512) buf) ?t"
      by (rule put_secs_back) (simp_all add: sec)
    also have "\<dots> = put_secs (sec s) (?b * ?S) buf ?t"
      using put_secs_cong [of ?t "take (?t * 512) buf" "sec s" "?b * ?S" "drop (?t * 512) buf"] d by simp
    finally show ?thesis .
  qed
  then show ?thesis
    by (simp add: boot_merge_tail_def Let_def S c_def [symmetric] get put read buf wblk min_absorb2)
qed

text \<open>The whole blocks and the tail.\<close>

lemma write_rest_at:
  assumes D: "boot_device C (unat spp) rd er wr sec N" and Z: "boot_sizes C spp bootnum N"
    and b: "base_page bootnum * unat spp \<le> unat block * spblk C spp"
    and fit: "unat block * spblk C spp + unat cnt \<le> N * unat spp" and buf: "unat cnt * 512 \<le> length buf"
    and cache: "\<And>c. cache = Some c \<Longrightarrow> length c = spblk C spp * 512"
  defines "base0 \<equiv> if bootnum then 0x200 * spp else 0"
  shows "\<exists>s'. boot_write_rest C spp (spp * ppb C) base0 (\<lambda>first n buf. bootarea_read C spp rd first n buf bootnum)
      er wr cnt block buf cache s = Some (0, s')
    \<and> sec s' = put_secs (sec s) (unat block * spblk C spp) buf (unat cnt)"
proof -
  let ?S = "spblk C spp" and ?n = "unat cnt" and ?b = "unat block" and ?P = "PAGE_CNT_OF_PHY_BLK C"
  let ?k = "?n div ?S" and ?t = "?n mod ?S"
  note S = sizes(1) [OF Z] sizes(2) [OF Z]
  have n: "?n = ?k * ?S + ?t" by (rule div_mult_mod_eq [symmetric])
  have NS: "N * unat spp = N div ?P * ?S" and NP: "N div ?P * ?P = N" using Z by (auto simp: boot_sizes_def)
  have "(?b + ?k) * ?S \<le> N div ?P * ?S" using fit n unfolding NS add_mult_distrib by linarith
  then have k: "?b + ?k \<le> N div ?P" using S(2) by simp
  have kN: "(?b + ?k) * ?P \<le> N" using mult_le_mono1 [OF k, of ?P] NP by simp
  have "?k * ?S * 512 \<le> ?n * 512" by simp
  then have "?k * ?S * 512 \<le> length buf" using buf by linarith
  with write_loop_at [OF D _ _ sizes(3) [OF Z] refl kN, of buf s] Z
  obtain s1 where loop: "boot_write_loop C er wr (unat spp) ?S ?k block buf s =
        Some (0, block + of_nat ?k, drop (?k * ?S * 512) buf, s1)"
    and s1: "sec s1 = put_secs (sec s) (?b * ?S) buf (?k * ?S)" by (auto simp: boot_sizes_def)
  have dv: "unat (cnt div (spp * ppb C)) = ?k" and md: "unat (cnt mod (spp * ppb C)) = ?t"
    by (simp_all add: unat_div_distrib unat_mod_distrib S)
  show ?thesis
  proof (cases "?t = 0")
    case True
    then have "\<not> 0 < cnt mod (spp * ppb C)" and "?k * ?S = ?n"
      using n by (simp_all add: word_less_nat_alt md)
    then show ?thesis using loop s1 by (simp add: boot_write_rest_def Let_def dv S)
  next
    case False
    have pos: "0 < cnt mod (spp * ppb C)" using False by (simp add: word_less_nat_alt md)
    have "(?b + ?k) * ?S < N div ?P * ?S" using fit n False unfolding NS add_mult_distrib by linarith
    then have "?b + ?k < N div ?P" by simp
    then have k': "Suc (?b + ?k) * ?P \<le> N" using mult_le_mono1 [of "Suc (?b + ?k)" "N div ?P" ?P] NP by simp
    define block2 where "block2 = block + of_nat ?k"
    have "?b + ?k < 2 ^ 32" using k sizes(3) [OF Z] div_le_dividend [of N ?P] by linarith
    then have b2: "unat block2 = ?b + ?k" unfolding block2_def by (rule unat_small)
    have b': "base_page bootnum * unat spp \<le> unat block2 * ?S" unfolding b2 add_mult_distrib
      using b by (rule trans_le_add1)
    have t: "unat (cnt mod (spp * ppb C)) < ?S" using S(2) by (simp add: md)
    have buf': "unat (cnt mod (spp * ppb C)) * 512 \<le> length (drop (?k * ?S * 512) buf)"
      using buf n unfolding md length_drop by linarith
    from merge_tail_at [where s = s1 and block = block2, OF D Z b' _ t buf' cache] k'
    obtain s2 where tail: "boot_merge_tail C (spp * ppb C) (block2 * (spp * ppb C) - base0)
          (\<lambda>first n buf. bootarea_read C spp rd first n buf bootnum) (boot_write_block C er wr (unat spp) block2)
          (cnt mod (spp * ppb C)) (drop (?k * ?S * 512) buf) cache s1 = Some (0, s2)"
      and s2: "sec s2 = put_secs (sec s1) ((?b + ?k) * ?S) (drop (?k * ?S * 512) buf) ?t"
      unfolding b2 base0_def md by auto
    have "sec s2 = put_secs (sec s) (?b * ?S) buf ?n"
      using put_secs_add [of "sec s" "?b * ?S" buf "?k * ?S" ?t] n by (simp add: s2 s1 add_mult_distrib)
    then show ?thesis
      using pos by (simp add: boot_write_rest_def Let_def dv S loop block2_def [symmetric] tail)
  qed
qed

text \<open>The first block, when it is not written from its start. Where the data ends inside it, the sectors
  behind the data become those from \<open>cnt\<close> sectors into the block on.\<close>

lemma merge_head_at:
  assumes D: "boot_device C (unat spp) rd er wr sec N" and Z: "boot_sizes C spp bootnum N"
    and b: "base_page bootnum * unat spp \<le> unat block * spblk C spp"
    and fit: "Suc (unat block) * PAGE_CNT_OF_PHY_BLK C \<le> N"
    and t: "unat bs < spblk C spp" and buf: "unat cnt * 512 \<le> length buf"
    and small: "unat bs + unat cnt < 2 ^ 32"
  defines "base0 \<equiv> if bootnum then 0x200 * spp else 0" and "S \<equiv> spblk C spp"
  defines "k \<equiv> min (unat cnt) (S - unat bs)"
  shows "\<exists>cache s'. boot_merge_head C (spp * ppb C) (block * (spp * ppb C) - base0)
      (\<lambda>first n buf. bootarea_read C spp rd first n buf bootnum) (boot_write_block C er wr (unat spp) block)
      bs cnt buf s = Some (0, cnt - of_nat k, cache, s') \<and> length cache = S * 512
    \<and> sec s' = put_secs (put_secs (sec s) (unat block * S + unat bs) buf k) (unat block * S + unat bs + k)
        (secs (sec s) (unat block * S + unat cnt) (S - unat bs - k)) (S - unat bs - k)"
proof -
  let ?b = "unat block" and ?t = "unat bs" and ?n = "unat cnt" and ?P = "PAGE_CNT_OF_PHY_BLK C"
  note S = sizes(1) [OF Z, folded S_def]
  have sec: "full_sectors (sec s)" for s using D by (simp add: boot_device_def)
  have tS: "?t < S" using t by (simp add: S_def)
  have blk: "?b * S + S \<le> N * unat spp"
    using mult_le_mono1 [OF fit, of "unat spp"] by (simp add: S_def add_mult_distrib algebra_simps)
  have sum: "unat (bs + cnt) = ?t + ?n" using unat_small [of bs ?n] small by simp
  have diff: "unat (spp * ppb C - bs) = S - ?t" using tS by (simp add: unat_sub word_le_nat_alt S)
  have base: "base_page bootnum * unat spp + unat (block * (spp * ppb C) - base0 + n) = ?b * S + unat n"
    if "unat n \<le> S" for n
    using rel_address [OF Z b, of n] that blk by (simp add: base0_def S_def)
  let ?c = "map (junk8 C) [0..<S * 512]" and ?X = "secs (sec s) (?b * S) ?t"
  let ?d = "take (k * 512) buf"
  have d: "length ?d = k * 512" using buf by (simp add: k_def min_def)
  obtain s1 where read: "bootarea_read C spp rd (block * (spp * ppb C) - base0) bs ?c bootnum s
      = Some (0, ?X @ drop (?t * 512) ?c, s1)" and s1: "sec s1 = sec s"
    using read_area_at [OF D Z, of "?b * S" bs _ ?c s] base [of 0] blk tS by auto
  have tk: "?t + k \<le> S" using tS by (simp add: k_def)
  have get: "mem_get buf 0 (k * 512) = Some ?d" using buf by (simp add: mem_get_def k_def)
  have put: "mem_put (?X @ drop (?t * 512) ?c) (?t * 512) ?d
      = Some (?X @ ?d @ drop ((?t + k) * 512) ?c)"
  proof -
    have "?t * 512 + k * 512 \<le> S * 512" using tk by linarith
    then show ?thesis
      using sec d [unfolded length_take] by (simp add: mem_put_def add_mult_distrib add.commute)
  qed
  let ?T = "secs (sec s) (?b * S + ?n) (S - ?t - k)"
  have len: "length (?X @ ?d @ ?T) = S * 512"
    using tS d sec by (simp add: k_def min_def diff_mult_distrib add_mult_distrib)
  have wblk: "\<exists>s2. boot_write_block C er wr (unat spp) block (?X @ ?d @ ?T) s1 = Some (0, s2) \<and>
      sec s2 = put_secs (put_secs (sec s) (?b * S + ?t) buf k) (?b * S + ?t + k) ?T (S - ?t - k)"
    if "sec s1 = sec s" for s1
  proof -
    have sz: "?t + k + (S - ?t - k) = S" using tk by simp
    have "put_secs (sec s) (?b * S) (?X @ ?d @ ?T) S =
        put_secs (put_secs (sec s) (?b * S + ?t) ?d k) (?b * S + ?t + k) ?T (S - ?t - k)"
      using put_merged [OF sec d, of s "?b * S" ?t "?b * S + ?n" "S - ?t - k"] by (simp only: sz)
    moreover have "put_secs (sec s) (?b * S + ?t) ?d k = put_secs (sec s) (?b * S + ?t) buf k"
      using put_secs_cong [of k ?d "sec s" "?b * S + ?t" "drop (k * 512) buf"] d by simp
    ultimately show ?thesis
      using write_block_at [OF D _ _ fit, of "?X @ ?d @ ?T" s1] len that Z
      by (simp add: boot_sizes_def S_def mult.assoc)
  qed
  show ?thesis
  proof (cases "?t + ?n < S")
    case True
    then have c: "bs + cnt < spp * ppb C" and k: "k = ?n" by (auto simp: word_less_nat_alt sum S k_def)
    have left: "unat (spp * ppb C - bs - cnt) = S - ?t - ?n"
      using True by (simp add: unat_sub word_le_nat_alt diff)
    obtain s2 where read2: "bootarea_read C spp rd (block * (spp * ppb C) - base0 + cnt) (spp * ppb C - bs - cnt)
        (drop ((?t + k) * 512) ?c) bootnum s1 = Some (0, ?T, s2)" and s2: "sec s2 = sec s"
    proof -
      have "?b * S + ?n + unat (spp * ppb C - bs - cnt) \<le> N * unat spp" using blk True by (simp add: left)
      moreover have "unat (spp * ppb C - bs - cnt) * 512 \<le> length (drop ((?t + k) * 512) ?c)"
        by (simp add: left k diff_mult_distrib)
      ultimately show ?thesis
        using that read_area_at [OF D Z _ base [of cnt], of "spp * ppb C - bs - cnt" "drop ((?t + k) * 512) ?c" s1]
          True s1 by (auto simp: left k diff_mult_distrib)
    qed
    obtain s3 where w: "boot_write_block C er wr (unat spp) block (?X @ ?d @ ?T) s2 = Some (0, s3)"
      and s3: "sec s3 = put_secs (put_secs (sec s) (?b * S + ?t) buf k) (?b * S + ?t + k) ?T (S - ?t - k)"
      using wblk [OF s2] by auto
    show ?thesis
      using s3 len c get put read read2 w sec [of s] d
      by (simp add: boot_merge_head_def S sum k Let_def add_mult_distrib)
  next
    case False
    then have c: "\<not> bs + cnt < spp * ppb C" and k: "k = S - ?t" by (auto simp: word_less_nat_alt sum S k_def)
    obtain s3 where w: "boot_write_block C er wr (unat spp) block (?X @ ?d @ ?T) s1 = Some (0, s3)"
      and s3: "sec s3 = put_secs (put_secs (sec s) (?b * S + ?t) buf k) (?b * S + ?t + k) ?T (S - ?t - k)"
      using wblk [OF s1] by auto
    have "of_nat k = spp * ppb C - bs" unfolding k diff [symmetric] by simp
    then show ?thesis
      using s3 len c get put read w tS by (simp add: boot_merge_head_def S Let_def k diff)
  qed
qed

lemma write_rest_0: "boot_write_rest C spp spb base0 rd_area er wr 0 block buf cache s = Some (0, s)"
  by (simp add: boot_write_rest_def)

definition boot_first :: "u32 \<Rightarrow> bool \<Rightarrow> u32 \<Rightarrow> nat" where
  "boot_first spp bootnum first = base_page bootnum * unat spp + unat first"

text \<open>The split of the first sector into block and sector of the block.\<close>

lemma first_block:
  assumes Z: "boot_sizes C spp bootnum N" and fit: "boot_first spp bootnum first + n \<le> N * unat spp"
  defines "base0 \<equiv> if bootnum then 0x200 * spp else 0" and "A \<equiv> boot_first spp bootnum first" and "S \<equiv> spblk C spp"
  shows "unat ((first + base0) div (spp * ppb C)) = A div S" and "unat ((first + base0) mod (spp * ppb C)) = A mod S"
    and "base_page bootnum * unat spp \<le> A div S * S"
    and "n \<noteq> 0 \<or> 0 < A mod S \<Longrightarrow> Suc (A div S) * PAGE_CNT_OF_PHY_BLK C \<le> N"
proof -
  let ?P = "PAGE_CNT_OF_PHY_BLK C"
  have lim: "N * unat spp < 2 ^ 32" using Z by (simp add: boot_sizes_def)
  have b0: "unat base0 = base_page bootnum * unat spp"
    unfolding base0_def by (rule sizes(4) [OF Z]) (use fit lim in \<open>simp add: boot_first_def\<close>)
  have "unat (first + of_nat (unat base0)) = unat first + unat base0"
    by (rule unat_small) (use fit lim in \<open>simp add: b0 boot_first_def\<close>)
  then have A: "unat (first + base0) = A"
    unfolding of_nat_unat_u32 by (simp add: b0 A_def boot_first_def)
  show "unat ((first + base0) div (spp * ppb C)) = A div S" "unat ((first + base0) mod (spp * ppb C)) = A mod S"
    by (simp_all add: unat_div_distrib unat_mod_distrib A sizes(1) [OF Z] S_def)
  obtain k where k: "base_page bootnum = ?P * k" using Z by (auto simp: boot_sizes_def)
  have "k * S \<le> A" by (simp add: A_def boot_first_def k S_def)
  then have "k \<le> A div S" using sizes(2) [OF Z] by (simp add: S_def less_eq_div_iff_mult_less_eq)
  then have "k * S \<le> A div S * S" by simp
  then show "base_page bootnum * unat spp \<le> A div S * S" by (simp add: k S_def)
  obtain m where m: "N = ?P * m" using Z by (auto simp: boot_sizes_def)
  show "Suc (A div S) * ?P \<le> N" if "n \<noteq> 0 \<or> 0 < A mod S"
  proof -
    have le: "A + n \<le> m * S" using fit by (simp add: A_def m S_def ac_simps)
    have "A < m * S"
    proof (cases "n = 0")
      case True
      with that have "0 < A mod S" by simp
      then have "A \<noteq> m * S" by auto
      with le True show ?thesis by simp
    next
      case False
      with le show ?thesis by linarith
    qed
    then have "A div S < m" using sizes(2) [OF Z] by (simp add: S_def div_less_iff_less_mult)
    then have "Suc (A div S) * ?P \<le> m * ?P" by (intro mult_le_mono1) simp
    then show ?thesis by (simp add: m mult.commute)
  qed
qed

lemma bootarea_write_aligned:
  assumes D: "boot_device C (unat spp) rd er wr sec N" and Z: "boot_sizes C spp bootnum N"
    and fit: "boot_first spp bootnum first + unat cnt \<le> N * unat spp" and buf: "unat cnt * 512 \<le> length buf"
    and al: "boot_first spp bootnum first mod spblk C spp = 0"
  shows "\<exists>s'. bootarea_write C spp rd er wr first cnt buf bootnum s = Some (0, s')
    \<and> sec s' = put_secs (sec s) (boot_first spp bootnum first) buf (unat cnt)"
proof -
  let ?A = "boot_first spp bootnum first" and ?S = "spblk C spp"
  note f = first_block [OF Z fit]
  have z: "(first + (if bootnum then 0x200 * spp else 0)) mod (spp * ppb C) = 0"
    using f(2) al by (simp add: unat_eq_0)
  have A: "?A div ?S * ?S = ?A" using al by (metis add.right_neutral div_mult_mod_eq)
  have ne: "spp * ppb C \<noteq> 0" using sizes(1,2) [OF Z] by (metis less_irrefl unat_0)
  show ?thesis
    using write_rest_at [OF D Z, of "(first + (if bootnum then 0x200 * spp else 0)) div (spp * ppb C)" cnt buf None s]
      f(1,3) fit buf by (simp add: bootarea_write_def Let_def z ne A)
qed

lemma bootarea_write_merged:
  assumes D: "boot_device C (unat spp) rd er wr sec N" and Z: "boot_sizes C spp bootnum N"
    and fit: "boot_first spp bootnum first + unat cnt \<le> N * unat spp" and buf: "unat cnt * 512 \<le> length buf"
  defines "A \<equiv> boot_first spp bootnum first" and "S \<equiv> spblk C spp"
  defines "k \<equiv> min (unat cnt) (S - A mod S)"
  assumes un: "A mod S \<noteq> 0"
  shows "\<exists>s'. bootarea_write C spp rd er wr first cnt buf bootnum s = Some (0, s')
    \<and> sec s' = put_secs (put_secs (put_secs (sec s) A buf k) (A + k)
        (secs (sec s) (A div S * S + unat cnt) (S - A mod S - k)) (S - A mod S - k))
        (A + k) (drop (k * 512) buf) (unat cnt - k)"
proof -
  let ?n = "unat cnt" and ?base0 = "if bootnum then 0x200 * spp else 0" and ?spb = "spp * ppb C"
  note f = first_block [OF Z fit, folded A_def S_def]
  define block where "block = (first + ?base0) div ?spb"
  define bs where "bs = (first + ?base0) mod ?spb"
  have b: "unat block = A div S" and t: "unat bs = A mod S" using f(1,2) by (simp_all add: block_def bs_def)
  have pos: "0 < bs" using un t by (simp add: word_less_nat_alt)
  have S: "unat ?spb = S" "0 < S" using sizes(1,2) [OF Z] by (simp_all add: S_def)
  have ne: "?spb \<noteq> 0" using S by (metis less_irrefl unat_0)
  have lt: "A mod S < S" using S(2) by simp
  have A: "A = A div S * S + A mod S" by simp
  have lim: "N * unat spp < 2 ^ 32" using Z by (simp add: boot_sizes_def)
  have "A mod S \<le> A" by simp
  then have small: "unat bs + ?n < 2 ^ 32" using fit lim unfolding t A_def by linarith
  obtain cache s1 where head: "boot_merge_head C ?spb (block * ?spb - ?base0)
        (\<lambda>first n buf. bootarea_read C spp rd first n buf bootnum) (boot_write_block C er wr (unat spp) block)
        bs cnt buf s = Some (0, cnt - of_nat k, cache, s1)" and c: "length cache = S * 512"
    and s1: "sec s1 = put_secs (put_secs (sec s) A buf k) (A + k)
        (secs (sec s) (A div S * S + ?n) (S - A mod S - k)) (S - A mod S - k)"
    using merge_head_at [OF D Z _ _ _ buf small, of block s] f(3,4) un lt A
    by (auto simp: b t S_def [symmetric] k_def)
  have left: "unat (cnt - of_nat k) = ?n - k"
  proof -
    have "k < 2 ^ 32" using unat_lt2p_u32 [of cnt] unfolding k_def by linarith
    then have "unat (of_nat k :: u32) = k" by (simp add: unat_of_nat)
    then show ?thesis by (simp add: unat_sub word_le_nat_alt k_def)
  qed
  have "\<exists>s'. boot_write_rest C spp ?spb ?base0 (\<lambda>first n buf. bootarea_read C spp rd first n buf bootnum) er wr
      (cnt - of_nat k) (block + 1) (drop (unat (?spb - bs) * 512) buf) (Some cache) s1 = Some (0, s')
      \<and> sec s' = put_secs (sec s1) (A + k) (drop (k * 512) buf) (?n - k)"
  proof (cases "A mod S + ?n < S")
    case True
    then have "k = ?n" by (simp add: k_def)
    then show ?thesis by (simp add: write_rest_0)
  next
    case False
    then have k: "k = S - A mod S" by (simp add: k_def)
    have d: "unat (?spb - bs) = k" using lt by (simp add: unat_sub word_le_nat_alt S t k)
    have "Suc (A div S) * S = A + k" unfolding k mult_Suc using A lt by linarith
    moreover have "unat (block + 1) = Suc (A div S)"
    proof -
      have "Suc (A div S) \<le> Suc (A div S) * PAGE_CNT_OF_PHY_BLK C"
        using Z by (cases "PAGE_CNT_OF_PHY_BLK C") (auto simp: boot_sizes_def)
      also have "\<dots> \<le> N" using f(4) un by simp
      finally have "A div S < N" by simp
      then show ?thesis using unat_small [of block 1] sizes(3) [OF Z] by (simp add: b)
    qed
    ultimately have nb: "unat (block + 1) * S = A + k" by simp
    show ?thesis
      unfolding d
    proof (rule write_rest_at [OF D Z, of "block + 1" "cnt - of_nat k", folded S_def, unfolded nb left])
      have "A div S * S \<le> A" by simp
      then show "base_page bootnum * unat spp \<le> A + k" using f(3) by linarith
      show "A + k + (?n - k) \<le> N * unat spp" using fit by (simp add: k_def A_def)
      show "(?n - k) * 512 \<le> length (drop (k * 512) buf)" using buf by (simp add: diff_mult_distrib)
    qed (simp add: c)
  qed
  then show ?thesis
    using s1 by (simp add: bootarea_write_def Let_def ne block_def [symmetric] bs_def [symmetric] pos head)
qed

lemma secs_put: "n * 512 \<le> length data \<Longrightarrow> secs (put_secs sec a data n) a n = take (n * 512) data"
proof (induction n arbitrary: a data sec)
  case (Suc n)
  have "put_secs sec a data (Suc n) = put_secs (put_secs sec a data 1) (a + 1) (drop (1 * 512) data) n"
    using put_secs_add [of sec a data 1 n] by simp
  then have "secs (put_secs sec a data (Suc n)) (Suc a) n = take (n * 512) (drop 512 data)"
    using Suc.IH [of "drop 512 data" "put_secs sec a data 1" "Suc a"] Suc.prems by simp
  then show ?case by (simp add: secs_Suc put_secs_def take_add [of 512 "n * 512" data])
qed simp

section \<open>The boot area read and written\<close>

text \<open>C16: reading the boot area delivers exactly the sectors asked for, whatever the alignment: those of
  the device from the first on, at the start of the caller's buffer, and nothing of the buffer behind them
  is changed.\<close>

theorem bootarea_read_sectors:
  assumes "boot_device C (unat spp) rd er wr sec N" and "boot_sizes C spp bootnum N"
    and "boot_first spp bootnum first + unat cnt \<le> N * unat spp" and "unat cnt * 512 \<le> length buf"
  shows "\<exists>s'. bootarea_read C spp rd first cnt buf bootnum s =
      Some (0, secs (sec s) (boot_first spp bootnum first) (unat cnt) @ drop (unat cnt * 512) buf, s')
    \<and> sec s' = sec s"
  using read_area_at [OF assms(1,2) assms(3) _ assms(4), of first s] by (simp add: boot_first_def)

text \<open>C17: writing the boot area succeeds, replaces exactly the sectors given and keeps every other sector
  of the blocks it erases, when the data starts at a block or reaches the end of its first block; the
  sectors read back are the data.\<close>

theorem bootarea_write_exact:
  assumes D: "boot_device C (unat spp) rd er wr sec N" and Z: "boot_sizes C spp bootnum N"
    and fit: "boot_first spp bootnum first + unat cnt \<le> N * unat spp" and buf: "unat cnt * 512 \<le> length buf"
  defines "A \<equiv> boot_first spp bootnum first" and "S \<equiv> spblk C spp"
  assumes whole: "A mod S = 0 \<or> S \<le> A mod S + unat cnt"
  shows "\<exists>s'. bootarea_write C spp rd er wr first cnt buf bootnum s = Some (0, s')
    \<and> (\<forall>x. sec s' x = (if A \<le> x \<and> x < A + unat cnt then take 512 (drop ((x - A) * 512) buf) else sec s x))
    \<and> (\<exists>s''. bootarea_read C spp rd first cnt buf bootnum s' = Some (0, buf, s''))"
proof -
  have "\<exists>s'. bootarea_write C spp rd er wr first cnt buf bootnum s = Some (0, s')
    \<and> sec s' = put_secs (sec s) A buf (unat cnt)"
  proof (cases "A mod S = 0")
    case True
    then show ?thesis using bootarea_write_aligned [OF D Z fit buf] by (simp add: A_def S_def)
  next
    case False
    define k where "k = S - A mod S"
    have k: "min (unat cnt) k = k" using whole False by (simp add: k_def)
    from bootarea_write_merged [OF D Z fit buf, folded A_def S_def, OF False, folded k_def, unfolded k]
    obtain s' where "bootarea_write C spp rd er wr first cnt buf bootnum s = Some (0, s')"
      and "sec s' = put_secs (put_secs (sec s) A buf k) (A + k) (drop (k * 512) buf) (unat cnt - k)" by auto
    then show ?thesis using put_secs_add [of "sec s" A buf k "unat cnt - k"] k by (metis le_add_diff_inverse min.cobounded1)
  qed
  then obtain s' where w: "bootarea_write C spp rd er wr first cnt buf bootnum s = Some (0, s')"
    and s': "sec s' = put_secs (sec s) A buf (unat cnt)" by blast
  have "\<exists>s''. bootarea_read C spp rd first cnt buf bootnum s' = Some (0, buf, s'')"
    using read_area_at [OF D Z fit _ buf, of first s'] secs_put [OF buf, of "sec s" A]
    by (auto simp: s' boot_first_def A_def)
  with w s' show ?thesis by (auto simp: put_secs_def)
qed

text \<open>When the data starts and ends inside one block, the write reports success but damages the block:
  the data is in place, and behind it every sector up to the end of the block is replaced by an older one
  of the same block, the one as many sectors before it as the data starts behind the block's first.\<close>

theorem bootarea_write_shifts_tail:
  assumes D: "boot_device C (unat spp) rd er wr sec N" and Z: "boot_sizes C spp bootnum N"
    and fit: "boot_first spp bootnum first + unat cnt \<le> N * unat spp" and buf: "unat cnt * 512 \<le> length buf"
  defines "A \<equiv> boot_first spp bootnum first" and "S \<equiv> spblk C spp"
  assumes inside: "A mod S \<noteq> 0" "A mod S + unat cnt < S"
  shows "\<exists>s'. bootarea_write C spp rd er wr first cnt buf bootnum s = Some (0, s')
    \<and> (\<forall>x. sec s' x = (if A \<le> x \<and> x < A + unat cnt then take 512 (drop ((x - A) * 512) buf)
        else if A + unat cnt \<le> x \<and> x < Suc (A div S) * S then sec s (x - A mod S) else sec s x))"
proof -
  let ?n = "unat cnt" and ?m = "S - A mod S - unat cnt"
  have k: "min ?n (S - A mod S) = ?n" using inside(2) by simp
  from bootarea_write_merged [OF D Z fit buf, folded A_def S_def, OF inside(1), unfolded k]
  obtain s' where w: "bootarea_write C spp rd er wr first cnt buf bootnum s = Some (0, s')"
    and s': "sec s' = put_secs (put_secs (sec s) A buf ?n) (A + ?n) (secs (sec s) (A div S * S + ?n) ?m) ?m" by auto
  have A: "A = A div S * S + A mod S" by simp
  have top: "A + ?n + ?m = Suc (A div S) * S" using A inside(2) unfolding mult_Suc by linarith
  have "take 512 (drop ((x - (A + ?n)) * 512) (secs (sec s) (A div S * S + ?n) ?m)) = sec s (x - A mod S)"
    if "A + ?n \<le> x" "x < A + ?n + ?m" for x
  proof -
    have f: "full_sectors (sec s)" using D by (simp add: boot_device_def)
    have "A div S * S + ?n + (x - (A + ?n)) = x - A mod S" using that(1) A by linarith
    then show ?thesis
      using secs_slice [OF f, of "x - (A + ?n)" 1 ?m "A div S * S + ?n"] that f
      by (simp add: secs_Suc full_sectors_def)
  qed
  then have "\<forall>x. sec s' x = (if A \<le> x \<and> x < A + ?n then take 512 (drop ((x - A) * 512) buf)
        else if A + ?n \<le> x \<and> x < Suc (A div S) * S then sec s (x - A mod S) else sec s x)"
    unfolding s' top [symmetric] by (auto simp: put_secs_def)
  with w show ?thesis by blast
qed

section \<open>A device in memory\<close>

definition ram_sec :: "(nat \<Rightarrow> u8 list) \<Rightarrow> nat \<Rightarrow> u8 list" where
  "ram_sec s a = take 512 (s a @ replicate 512 0)"

definition ram_page :: "cfg \<Rightarrow> boot_physical_param \<Rightarrow> nat" where
  "ram_page C op = unat (bp_block op) * PAGE_CNT_OF_PHY_BLK C + unat (bp_page op)"

definition ram_read :: "cfg \<Rightarrow> nat \<Rightarrow> (nat \<Rightarrow> u8 list) page_reader" where
  "ram_read C spp op main s = Some (0, secs (ram_sec s) (ram_page C op * spp) spp @ drop (spp * 512) main, s)"

definition ram_erase :: "cfg \<Rightarrow> nat \<Rightarrow> boot_physical_param \<Rightarrow> (nat \<Rightarrow> u8 list) \<Rightarrow> (int \<times> (nat \<Rightarrow> u8 list)) option" where
  "ram_erase C spp op s = Some (0, \<lambda>a. if a div (PAGE_CNT_OF_PHY_BLK C * spp) = unat (bp_block op)
     then replicate 512 0xff else s a)"

definition ram_write :: "cfg \<Rightarrow> nat \<Rightarrow> (nat \<Rightarrow> u8 list) page_writer" where
  "ram_write C spp op data s = Some (0, put_secs s (ram_page C op * spp) data spp)"

lemma ram_boot_device:
  assumes "N \<le> 65536" and "0 < PAGE_CNT_OF_PHY_BLK C"
  shows "boot_device C spp (ram_read C spp) (ram_erase C spp) (ram_write C spp) ram_sec N"
proof -
  have blk: "unat (bp_block (boot_op C (of_nat b) p)) = b" if "b < 65536" for b p
    using that by (simp add: boot_op_def unat_of_nat unsigned_ucast_eq take_bit_eq_mod)
  have pg: "unat (bp_page (boot_op C b (of_nat p))) = p" if "p < 65536" for b p
    using that by (simp add: boot_op_def unat_of_nat unsigned_ucast_eq take_bit_eq_mod)
  have P: "PAGE_CNT_OF_PHY_BLK C < 65536"
    using unsigned_less [of "PageCntPerPhyBlk (storage C)"] by (simp add: PAGE_CNT_OF_PHY_BLK_def)
  have blk_lt: "b < 65536" if "b * PAGE_CNT_OF_PHY_BLK C < N" for b
  proof -
    have "b \<le> b * PAGE_CNT_OF_PHY_BLK C" using assms(2) by simp
    with that assms(1) show ?thesis by linarith
  qed
  have "full_sectors (ram_sec s)" for s by (simp add: full_sectors_def ram_sec_def min_def)
  moreover have "reads_pages C spp (ram_read C spp) ram_sec N"
    unfolding reads_pages_def ram_read_def ram_page_def using P by (auto simp: blk pg dest!: add_lessD1 blk_lt)
  moreover have "erases_blocks C spp (ram_erase C spp) ram_sec N"
    unfolding erases_blocks_def ram_erase_def
  proof (intro allI impI)
    fix s :: "nat \<Rightarrow> u8 list" and b assume "Suc b * PAGE_CNT_OF_PHY_BLK C \<le> N"
    then have "b < 65536" using assms(2) by (intro blk_lt) simp
    show "\<exists>s'. Some (0 :: int, \<lambda>a. if a div (PAGE_CNT_OF_PHY_BLK C * spp) = unat (bp_block (boot_op C (of_nat b) 0))
          then replicate 512 0xff else s a) = Some (0, s')
        \<and> ram_sec s' = (\<lambda>a. if a div (PAGE_CNT_OF_PHY_BLK C * spp) = b then replicate 512 0xff else ram_sec s a)"
      unfolding blk [OF \<open>b < 65536\<close>] by (intro exI conjI, rule refl) (auto simp: ram_sec_def fun_eq_iff)
  qed
  moreover have "writes_pages C spp (ram_write C spp) ram_sec N"
    unfolding writes_pages_def ram_write_def ram_page_def
  proof (intro allI impI)
    fix s :: "nat \<Rightarrow> u8 list" and b p and data :: "u8 list"
    assume p: "p < PAGE_CNT_OF_PHY_BLK C" and b: "b * PAGE_CNT_OF_PHY_BLK C + p < N" and d: "spp * 512 \<le> length data"
    have "ram_sec (put_secs s a data spp) = put_secs (ram_sec s) a data spp" for a
    proof -
      have "512 \<le> length data - (x - a) * 512" if "a \<le> x" "x < a + spp" for x
        using that d by (simp add: less_diff_conv2 [symmetric])
      then show ?thesis by (auto simp: ram_sec_def put_secs_def fun_eq_iff min_def)
    qed
    moreover have "b < 65536" using b by (intro blk_lt) linarith
    ultimately show "\<exists>s'. Some (0 :: int, put_secs s ((unat (bp_block (boot_op C (of_nat b) (of_nat p))) * PAGE_CNT_OF_PHY_BLK C
          + unat (bp_page (boot_op C (of_nat b) (of_nat p)))) * spp) data spp) = Some (0, s')
        \<and> ram_sec s' = put_secs (ram_sec s) ((b * PAGE_CNT_OF_PHY_BLK C + p) * spp) data spp"
      using p P by (simp add: blk pg)
  qed
  ultimately show ?thesis by (simp add: boot_device_def)
qed

text \<open>Two blocks of four pages of two sectors; sector \<open>a\<close> holds the byte \<open>a\<close>.\<close>

definition ram0 :: "nat \<Rightarrow> u8 list" where
  "ram0 a = replicate 512 (of_nat a)"

lemma ram_device:
  "boot_device sample_cfg (unat (2 :: u32)) (ram_read sample_cfg 2) (ram_erase sample_cfg 2)
     (ram_write sample_cfg 2) ram_sec 8"
  using ram_boot_device [of 8 sample_cfg 2] by simp

lemma ram_sizes: "boot_sizes sample_cfg 2 False 8"
  by (simp add: boot_sizes_def base_page_def)

lemma ram_first: "boot_first 2 False first = unat first"
  by (simp add: boot_first_def base_page_def)

theorem bootarea_read_sectors_witness:
  "\<exists>s'. bootarea_read sample_cfg 2 (ram_read sample_cfg 2) 3 2 (replicate 1024 0) False ram0
     = Some (0, replicate 512 3 @ replicate 512 4, s')"
  using bootarea_read_sectors [OF ram_device ram_sizes, of 3 2 "replicate 1024 0" ram0]
  by (auto simp: ram_first secs_def ram_sec_def ram0_def upt_rec)

theorem bootarea_write_exact_witness:
  "\<exists>s'. bootarea_write sample_cfg 2 (ram_read sample_cfg 2) (ram_erase sample_cfg 2) (ram_write sample_cfg 2)
     3 9 (replicate 4608 0x77) False ram0 = Some (0, s')
   \<and> ram_sec s' 3 = replicate 512 0x77 \<and> ram_sec s' 12 = replicate 512 12"
  using bootarea_write_exact [OF ram_device ram_sizes, of 3 9 "replicate 4608 0x77" ram0]
  by (auto simp: ram_first ram_sec_def ram0_def)

theorem bootarea_write_shifts_tail_witness:
  "\<exists>s'. bootarea_write sample_cfg 2 (ram_read sample_cfg 2) (ram_erase sample_cfg 2) (ram_write sample_cfg 2)
     3 2 (replicate 1024 0x77) False ram0 = Some (0, s')
   \<and> ram_sec s' 4 = replicate 512 0x77 \<and> ram_sec s' 5 = replicate 512 2 \<and> ram_sec s' 8 = replicate 512 8"
  using bootarea_write_shifts_tail [OF ram_device ram_sizes, of 3 2 "replicate 1024 0x77" ram0]
  by (auto simp: ram_first ram_sec_def ram0_def)

end
