(* ===== verification/Heap_Alloc.thy ===== *)
theory Heap_Alloc
  imports Novo_Prelude
begin

text \<open>
  The memory allocator of the device program, \<open>arm/malloc.c\<close>: a buddy allocator on an array of 32 bit
  words. The first word of a chunk holds its size in words, plus one when the chunk is allocated; a chunk
  of \<open>2^k\<close> words starts at a multiple of \<open>2^k\<close>.

  A pointer is its word offset from \<open>mem_area\<close>, so \<open>ptr - mem_area\<close> is the pointer itself, and
  differences and sums are 32 bit words as in C. \<^term>\<open>None\<close> is an access outside the memory, or a loop
  that does not end.
\<close>

section \<open>The code\<close>

record heap =
  mem_area :: "u32 list"
  mem_area_size :: u32

abbreviation word_at :: "u32 list \<Rightarrow> u32 \<Rightarrow> u32 option" where
  "word_at m p \<equiv> arr_get m (unat p)"

abbreviation word_put :: "u32 list \<Rightarrow> u32 \<Rightarrow> u32 \<Rightarrow> u32 list option" where
  "word_put m p w \<equiv> arr_set m (unat p) w"

text \<open>\<open>while (size & (size - 1)) size &= size - 1\<close>.\<close>

lemma round_down_less: "(sz :: u32) AND (sz - 1) \<noteq> 0 \<Longrightarrow> unat (sz AND (sz - 1)) < unat sz"
proof -
  assume a: "sz AND (sz - 1) \<noteq> 0"
  then have s: "sz \<noteq> 0" by auto
  have "sz AND (sz - 1) \<le> sz - 1" by (rule word_and_le1)
  then have "unat (sz AND (sz - 1)) \<le> unat (sz - 1)" by (simp only: word_le_nat_alt)
  moreover have "unat (sz - 1) < unat sz" using s by (metis measure_unat)
  ultimately show ?thesis by (rule le_less_trans)
qed

function round_down :: "u32 \<Rightarrow> u32" where
  "round_down sz = (if sz AND (sz - 1) \<noteq> 0 then round_down (sz AND (sz - 1)) else sz)"
  by auto
termination by (relation "measure unat") (simp_all add: round_down_less)

declare round_down.simps [simp del]

partial_function (option) shrink :: "u32 \<Rightarrow> u32 \<Rightarrow> u32 \<Rightarrow> u32 option" where
  "shrink area ptr sz =
     (if ptr + sz > area then shrink area ptr (drop_bit 1 sz) else Some sz)"

partial_function (option) mark_free :: "u32 \<Rightarrow> u32 \<Rightarrow> u32 \<Rightarrow> u32 list \<Rightarrow> u32 list option" where
  "mark_free area ptr sz m = do {
     m \<leftarrow> word_put m ptr sz;
     if ptr + sz \<ge> area then Some m
     else do {
       sz' \<leftarrow> shrink area (ptr + sz) sz;
       mark_free area (ptr + sz) sz' m
     }
   }"

definition malloc_init :: "u32 list \<Rightarrow> u32 \<Rightarrow> heap option" where
  "malloc_init start sz = do {
     let sz = drop_bit 2 sz AND NOT 1;
     m \<leftarrow> mark_free sz 0 (round_down sz) start;
     Some \<lparr>mem_area = m, mem_area_size = sz\<rparr>
   }"

text \<open>The search for a free chunk of at least \<open>size\<close> words; the inner \<^term>\<open>None\<close> is the null pointer.\<close>

partial_function (option) find_chunk :: "heap \<Rightarrow> u32 \<Rightarrow> u32 \<Rightarrow> u32 option option" where
  "find_chunk h sz ptr = do {
     w \<leftarrow> word_at (mem_area h) ptr;
     if w AND 1 \<noteq> 0 \<or> w < sz
     then (let chsize = w AND NOT 1;
               chsize = (if chsize < sz then sz else chsize)
           in if ptr + chsize \<ge> mem_area_size h then Some None
              else find_chunk h sz (ptr + chsize))
     else Some (Some ptr)
   }"

text \<open>\<open>while (*ptr > size) { *ptr >>= 1; ptr[*ptr] = *ptr; }\<close>.\<close>

partial_function (option) split_chunk :: "u32 \<Rightarrow> u32 \<Rightarrow> u32 list \<Rightarrow> u32 list option" where
  "split_chunk sz ptr m = do {
     w \<leftarrow> word_at m ptr;
     if w > sz then do {
       let w = drop_bit 1 w;
       m \<leftarrow> word_put m ptr w;
       m \<leftarrow> word_put m (ptr + w) w;
       split_chunk sz ptr m
     } else Some m
   }"

definition alloc_words :: "u32 \<Rightarrow> u32" where
  "alloc_words sz = push_bit 1 (round_down (drop_bit 2 (sz + 7)))"

definition malloc :: "u32 \<Rightarrow> heap \<Rightarrow> (u32 option \<times> heap) option" where
  "malloc sz h =
     (if sz = 0 then Some (None, h)
      else do {
        p \<leftarrow> find_chunk h (alloc_words sz) 0;
        case p of None \<Rightarrow> Some (None, h)
        | Some ptr \<Rightarrow> do {
            m \<leftarrow> split_chunk (alloc_words sz) ptr (mem_area h);
            w \<leftarrow> word_at m ptr;
            m \<leftarrow> word_put m ptr (w + 1);
            Some (Some (ptr + 1), h\<lparr>mem_area := m\<rparr>)
          }
      })"

partial_function (option) merge_chunks :: "u32 \<Rightarrow> u32 \<Rightarrow> u32 list \<Rightarrow> u32 list option" where
  "merge_chunks area ptr m = do {
     w \<leftarrow> word_at m ptr;
     let twin = ptr XOR w;
     if twin \<ge> area then Some m
     else do {
       t \<leftarrow> word_at m twin;
       if t \<noteq> w then Some m
       else do {
         let ptr = (if twin < ptr then twin else ptr);
         w \<leftarrow> word_at m ptr;
         m \<leftarrow> word_put m ptr (push_bit 1 w);
         merge_chunks area ptr m
       }
     }
   }"

definition free :: "u32 option \<Rightarrow> heap \<Rightarrow> heap option" where
  "free memptr h =
     (case memptr of None \<Rightarrow> Some h
      | Some p \<Rightarrow> do {
          let ptr = p - 1;
          w \<leftarrow> word_at (mem_area h) ptr;
          m \<leftarrow> word_put (mem_area h) ptr (w AND NOT 1);
          m \<leftarrow> merge_chunks (mem_area_size h) ptr m;
          Some (h\<lparr>mem_area := m\<rparr>)
        })"

end
