(* ===== verification/Heap_Props.thy ===== *)
theory Heap_Props
  imports Heap_Alloc
begin

text \<open>
  Correctness of the allocator (\<open>Heap_Alloc\<close>). The abstract heap is a map from chunk places to chunks
  (\<open>chunks\<close>); \<open>heap_rep\<close> relates it to the memory and says that the chunks tile the area, each aligned to
  its size, with the right headers; \<open>merged\<close> says that no two free chunks are twins. \<open>malloc_spec\<close>,
  \<open>free_spec\<close> and \<open>malloc_init_spec\<close> give the operations on the abstract heap, \<open>merged_unique\<close> shows that a
  merged heap is determined by its allocated chunks, and \<open>heap_run\<close> collects the runs of the three
  operations in which the users write the words of their blocks as they like.
\<close>

section \<open>Powers of two\<close>

text \<open>Two intervals of dyadic places are nested or disjoint.\<close>

lemma dvd_step: "(d :: nat) dvd a \<Longrightarrow> d dvd b \<Longrightarrow> a < b \<Longrightarrow> a + d \<le> b"
  using dvd_diff_nat [of d b a] by (metis add.commute dvd_imp_le le_diff_conv2 less_imp_le_nat zero_less_diff)

lemma dyadic_nested:
  assumes "k \<le> j" and "2 ^ k dvd (a :: nat)" and "2 ^ j dvd b" and "a \<le> x" "x < a + 2 ^ k" and "b \<le> x" "x < b + 2 ^ j"
  shows "b \<le> a" and "a + 2 ^ k \<le> b + 2 ^ j"
proof -
  have b: "2 ^ k dvd b" and bj: "2 ^ k dvd b + 2 ^ j"
    using assms(1,3) by (meson dvd_trans le_imp_power_dvd, meson dvd_add dvd_trans le_imp_power_dvd)
  show "b \<le> a" using dvd_step [OF assms(2) b] assms by linarith
  show "a + 2 ^ k \<le> b + 2 ^ j" using dvd_step [OF bj assms(2)] dvd_step [OF assms(2) bj] assms
    by (metis le_less_linear less_le_trans not_less linorder_not_le le_antisym less_imp_le_nat le_trans)
qed

lemma unat_pow2: "k < 32 \<Longrightarrow> unat (2 ^ k :: u32) = 2 ^ k"
proof -
  assume k: "k < 32"
  have "unat (of_nat (2 ^ k) :: u32) = 2 ^ k"
    unfolding unat_of_nat by (rule mod_less) (use power_strict_increasing [OF k, of "2 :: nat"] in simp)
  then show ?thesis by simp
qed

text \<open>The header of a chunk.\<close>

definition header :: "nat \<Rightarrow> bool \<Rightarrow> u32" where
  "header k a = 2 ^ k + (if a then 1 else 0)"

lemma header_or: "0 < k \<Longrightarrow> header k a = 2 ^ k OR (if a then 1 else 0)"
  unfolding header_def by (subst disjunctive_add) (auto simp: bit_exp_iff bit_1_iff)

lemma header_flag: "0 < k \<Longrightarrow> k < 32 \<Longrightarrow> header k a AND 1 = (if a then 1 else 0)"
  by (rule bit_word_eqI) (auto simp: header_or bit_and_iff bit_or_iff bit_exp_iff bit_1_iff)

lemma header_size: "0 < k \<Longrightarrow> k < 32 \<Longrightarrow> header k a AND NOT 1 = 2 ^ k"
  by (rule bit_word_eqI) (auto simp: header_or bit_and_iff bit_or_iff bit_not_iff bit_exp_iff bit_1_iff)

lemma header_inj: "0 < k \<Longrightarrow> k < 32 \<Longrightarrow> 0 < j \<Longrightarrow> j < 32 \<Longrightarrow> header k a = header j b \<longleftrightarrow> k = j \<and> a = b"
proof
  assume kj: "0 < k" "k < 32" "0 < j" "j < 32" and e: "header k a = header j b"
  have "header k a AND NOT 1 = 2 ^ k" "header j b AND NOT 1 = 2 ^ j" by (rule header_size; fact kj)+
  then have "(2 ^ k :: u32) = 2 ^ j" unfolding e by (rule trans [OF sym])
  then have "unat (2 ^ k :: u32) = unat (2 ^ j :: u32)" by (rule arg_cong)
  then have "(2 :: nat) ^ k = 2 ^ j" unfolding unat_pow2 [OF kj(2)] unat_pow2 [OF kj(4)] .
  then have "k = j" by simp
  moreover have "(if a then 1 else 0 :: u32) = (if b then 1 else 0)"
    using header_flag [OF kj(1,2), of a] header_flag [OF kj(3,4), of b] unfolding e by (rule trans [OF sym])
  then have "a = b" by (cases a; cases b) simp_all
  ultimately show "k = j \<and> a = b" ..
qed simp

lemma half_pow2: "0 < k \<Longrightarrow> k < 32 \<Longrightarrow> drop_bit 1 (2 ^ k :: u32) = 2 ^ (k - 1)"
  by (rule bit_word_eqI) (auto simp: bit_drop_bit_eq bit_exp_iff)

lemma double_pow2: "push_bit 1 (2 ^ k :: u32) = 2 ^ Suc k"
  by (simp add: push_bit_eq_mult)

text \<open>The twin of the chunk at \<open>x\<close>.\<close>

definition twin :: "nat \<Rightarrow> nat \<Rightarrow> nat" where
  "twin k x = (if odd (x div 2 ^ k) then x - 2 ^ k else x + 2 ^ k)"

lemma twin_xor:
  assumes "unat p + 2 ^ k < 2 ^ 32" "k < 32"
  shows "unat (p XOR 2 ^ k :: u32) = twin k (unat p)"
proof -
  have "unat (p XOR 2 ^ k) = unat p XOR 2 ^ k" using assms by (simp only: unsigned_xor_eq unat_pow2)
  also have "\<dots> = twin k (unat p)"
  proof -
    have up: "y XOR 2 ^ k = y + 2 ^ k" if "even (y div 2 ^ k)" for y :: nat
    proof -
      have "y XOR 2 ^ k = flip_bit k y" by (simp add: flip_bit_eq_xor push_bit_eq_mult)
      then show ?thesis using that by (simp add: flip_bit_eq_if set_bit_eq bit_iff_odd)
    qed
    let ?y = "unat p - 2 ^ k"
    have "odd (unat p div 2 ^ k) \<Longrightarrow> 2 ^ k \<le> unat p \<and> even (?y div 2 ^ k)"
      by (metis div_less even_zero le_div_geq not_less even_Suc zero_less_numeral zero_less_power)
    then have "odd (unat p div 2 ^ k) \<Longrightarrow> ?y XOR 2 ^ k = unat p" using up [of ?y] by simp
    then have "odd (unat p div 2 ^ k) \<Longrightarrow> unat p XOR 2 ^ k = ?y"
      by (metis xor.assoc xor.right_neutral xor_self_eq)
    then show ?thesis using up [of "unat p"] by (auto simp: twin_def)
  qed
  finally show ?thesis .
qed

lemma twin_aligned:
  assumes "2 ^ k dvd x"
  shows "2 ^ k dvd twin k x" "twin k x \<noteq> x" "twin k (twin k x) = x"
    "2 ^ Suc k dvd min x (twin k x)" "max x (twin k x) = min x (twin k x) + 2 ^ k"
proof -
  obtain q where x: "x = 2 ^ k * q" using assms by blast
  have d: "x div 2 ^ k = q" by (simp add: x)
  have "twin k x = 2 ^ k * (if odd q then q - 1 else q + 1)"
    unfolding twin_def d by (simp add: x algebra_simps)
  moreover have "odd q \<Longrightarrow> 0 < q" by (cases q) auto
  ultimately show "2 ^ k dvd twin k x" "twin k x \<noteq> x" "twin k (twin k x) = x"
    "2 ^ Suc k dvd min x (twin k x)" "max x (twin k x) = min x (twin k x) + 2 ^ k"
    by (auto simp: x twin_def d elim!: oddE evenE)
qed

lemma twin_up:
  assumes "2 ^ Suc k dvd x"
  shows "twin k (x + 2 ^ k) = x" "twin k x = x + 2 ^ k"
proof -
  obtain q where "x = 2 ^ Suc k * q" using assms by blast
  then have x: "x = 2 ^ k * (2 * q)" by simp
  then have "x + 2 ^ k = 2 ^ k * (2 * q + 1)" by simp
  then have "(x + 2 ^ k) div 2 ^ k = 2 * q + 1" by (simp only: nonzero_mult_div_cancel_left power_not_zero)
      simp
  moreover have "x div 2 ^ k = 2 * q" by (simp add: x)
  ultimately show "twin k (x + 2 ^ k) = x" "twin k x = x + 2 ^ k" by (simp_all add: twin_def)
qed

text \<open>Rounding down to a power of two.\<close>

lemma top_bit: "2 ^ k \<le> n \<Longrightarrow> n < 2 ^ Suc k \<Longrightarrow> bit (n :: nat) k"
  using div_nat_eqI [of "2 ^ k" 1 n] by (simp add: bit_iff_odd)

lemma bit_le: "bit (n :: nat) k \<Longrightarrow> 2 ^ k \<le> n"
  by (metis bit_iff_odd div_less even_zero not_less)

lemma and_pred_pow2: "(2 ^ k :: u32) AND (2 ^ k - 1) = 0"
  by (rule bit_word_eqI) (auto simp: bit_and_iff bit_exp_iff simp flip: mask_eq_exp_minus_1 simp add: bit_mask_iff)

lemma round_down_pow2:
  "2 ^ k \<le> unat s \<Longrightarrow> unat s < 2 ^ Suc k \<Longrightarrow> k < 32 \<Longrightarrow> round_down s = 2 ^ k"
proof (induction s rule: round_down.induct)
  case (1 s)
  show ?case
  proof (cases "s = 2 ^ k")
    case True
    then show ?thesis by (subst round_down.simps) (simp add: and_pred_pow2)
  next
    case False
    then have gt: "2 ^ k < unat s" using 1(2) unat_pow2 [OF 1(4)] by (metis le_neq_implies_less word_unat_eq_iff)
    have s0: "s \<noteq> 0" using gt by auto
    have p: "unat (s - 1) = unat s - 1" using s0 by (metis unat_minus_one)
    have u: "unat (s AND (s - 1)) = unat s AND (unat s - 1)" by (simp only: unsigned_and_eq p)
    have "bit (unat s) k" by (rule top_bit [OF 1(2,3)])
    moreover have "bit (unat s - 1) k" by (rule top_bit) (use gt 1(3) in linarith)+
    ultimately have "bit (unat s AND (unat s - 1)) k" by (simp add: bit_and_iff)
    then have lo: "2 ^ k \<le> unat (s AND (s - 1))" unfolding u by (rule bit_le)
    then have n0: "s AND (s - 1) \<noteq> 0" by (metis not_less unsigned_0 zero_less_numeral zero_less_power)
    show ?thesis
      using 1(1) [OF n0 lo _ 1(4)] round_down_less [OF n0] 1(3) n0 by (subst round_down.simps) simp
  qed
qed

section \<open>Heaps as partitions\<close>

text \<open>The abstract heap: the chunks by their place, with the logarithm of their size and whether they are
  allocated. \<open>heap_rep h A\<close> says that the memory of \<open>h\<close> holds exactly the chunks \<open>A\<close>.\<close>

type_synonym chunks = "nat \<rightharpoonup> nat \<times> bool"

definition words :: "heap \<Rightarrow> nat" where
  "words h = unat (mem_area_size h)"

definition span_of :: "nat \<Rightarrow> nat \<Rightarrow> nat set" where
  "span_of x k = {x..<x + 2 ^ k}"

definition tiling :: "nat \<Rightarrow> chunks \<Rightarrow> bool" where
  "tiling n A \<longleftrightarrow>
     (\<forall>x k a. A x = Some (k, a) \<longrightarrow> 0 < k \<and> 2 ^ k dvd x \<and> x + 2 ^ k \<le> n)
     \<and> (\<forall>w<n. \<exists>x k a. A x = Some (k, a) \<and> w \<in> span_of x k)
     \<and> (\<forall>x k a y j b w. A x = Some (k, a) \<longrightarrow> A y = Some (j, b) \<longrightarrow> w \<in> span_of x k \<longrightarrow> w \<in> span_of y j \<longrightarrow> x = y)"

definition heap_rep :: "heap \<Rightarrow> chunks \<Rightarrow> bool" where
  "heap_rep h A \<longleftrightarrow> 0 < words h \<and> words h < 2 ^ 30 \<and> words h \<le> length (mem_area h) \<and> tiling (words h) A
     \<and> (\<forall>x k a. A x = Some (k, a) \<longrightarrow> mem_area h ! x = header k a)"

lemma tilingD:
  assumes "tiling n A" and "A x = Some (k, a)"
  shows "0 < k" "2 ^ k dvd x" "x + 2 ^ k \<le> n" "x < n" "x \<in> span_of x k"
proof -
  show "0 < k" "2 ^ k dvd x" "x + 2 ^ k \<le> n" using assms by (auto simp: tiling_def)
  then show "x < n" by (metis add_lessD1 less_add_same_cancel1 less_le_trans zero_less_numeral zero_less_power)
  show "x \<in> span_of x k" by (simp add: span_of_def)
qed

lemma tiling_cover: "tiling n A \<Longrightarrow> w < n \<Longrightarrow> \<exists>x k a. A x = Some (k, a) \<and> w \<in> span_of x k"
  by (simp add: tiling_def)

lemma tiling_disj: "tiling n A \<Longrightarrow> A x = Some (k, a) \<Longrightarrow> A y = Some (j, b) \<Longrightarrow> w \<in> span_of x k \<Longrightarrow> w \<in> span_of y j \<Longrightarrow> x = y"
  unfolding tiling_def by blast

lemma span_nested:
  assumes "k \<le> j" "2 ^ k dvd x" "2 ^ j dvd y" "w \<in> span_of x k" "w \<in> span_of y j"
  shows "span_of x k \<subseteq> span_of y j"
  using dyadic_nested [OF assms(1-3), of w] assms(4,5) by (auto simp: span_of_def)

lemma span_start: "x \<in> span_of x k"
  by (simp add: span_of_def)

lemma span_lt: "x \<le> w \<Longrightarrow> w \<in> span_of x k \<Longrightarrow> w < x + 2 ^ k"
  by (simp add: span_of_def)

text \<open>A place that is aligned to \<open>2^k\<close> and lies in a chunk of no more than that is the start of the chunk.\<close>

lemma tiling_start:
  assumes t: "tiling n A" and y: "A y = Some (j, b)" "w \<in> span_of y j" and w: "2 ^ k dvd w" and "j \<le> k"
  shows "w = y"
proof -
  have "2 ^ j dvd w" using w assms(5) by (meson dvd_trans le_imp_power_dvd)
  note j = this tilingD(2) [OF t y(1)]
  have "\<not> y < w" using dvd_step [OF j(2,1)] y(2) by (auto simp: span_of_def)
  then show ?thesis using y(2) by (simp add: span_of_def)
qed

text \<open>Behind an aligned block of chunks of no more than its size the next chunk starts.\<close>

lemma tiling_next:
  assumes t: "tiling n A" and x: "A x = Some (k, a)" and dx: "2 ^ j dvd x" and kj: "k \<le> j" and lt: "x + 2 ^ j < n"
  shows "\<exists>i b. A (x + 2 ^ j) = Some (i, b)"
proof -
  obtain y i b where y: "A y = Some (i, b)" "x + 2 ^ j \<in> span_of y i" using tiling_cover [OF t lt] by blast
  have d: "2 ^ j dvd x + 2 ^ j" using dx by simp
  show ?thesis
  proof (cases "i \<le> j")
    case True
    then show ?thesis using tiling_start [OF t y d] y by metis
  next
    case False
    have dy: "2 ^ j dvd y" using tilingD(2) [OF t y(1)] False by (meson dvd_trans le_imp_power_dvd nat_le_linear)
    have "\<not> y < x + 2 ^ j"
    proof
      assume "y < x + 2 ^ j"
      then have "y \<le> x" using dvd_step [OF dy d] by linarith
      then have "x \<in> span_of y i" using y(2) by (auto simp: span_of_def)
      then have "x = y" using tiling_disj [OF t x y(1) span_start] by blast
      then show False using x y(1) False kj by simp
    qed
    then have "y = x + 2 ^ j" using y(2) by (simp add: span_of_def)
    then show ?thesis using y(1) by blast
  qed
qed

text \<open>Inside an aligned block that starts with a smaller chunk there are only smaller chunks.\<close>

lemma tiling_block:
  assumes t: "tiling n A" and x: "A x = Some (k, a)" and dx: "2 ^ j dvd x" and kj: "k < j"
    and y: "A y = Some (i, b)" "w \<in> span_of y i" "w \<in> span_of x j"
  shows "i < j"
proof (rule ccontr)
  assume "\<not> i < j"
  then have "span_of x j \<subseteq> span_of y i"
    using span_nested [of j i x y w] dx tilingD(2) [OF t y(1)] y(2,3) by simp
  then have "x \<in> span_of y i" using span_start by blast
  then have "x = y" using tiling_disj [OF t x y(1) span_start] by blast
  then show False using x y(1) kj \<open>\<not> i < j\<close> by simp
qed

lemma heap_repD:
  assumes "heap_rep h A" and "A x = Some (k, a)"
  shows "k < 30" "x < 2 ^ 30" "x + 2 ^ k < 2 ^ 30" "x < length (mem_area h)" "mem_area h ! x = header k a"
    "x + 2 ^ k \<le> words h" "0 < k" "2 ^ k dvd x"
proof -
  have t: "tiling (words h) A" and n: "words h < 2 ^ 30" "words h \<le> length (mem_area h)"
    using assms(1) by (auto simp: heap_rep_def)
  note d = tilingD [OF t assms(2)]
  show le: "x + 2 ^ k \<le> words h" "0 < k" "2 ^ k dvd x" using d by auto
  show "x < length (mem_area h)" "x < 2 ^ 30" "x + 2 ^ k < 2 ^ 30" using d n by linarith+
  have "(2 :: nat) ^ k < 2 ^ 30" using d(3) n by linarith
  then show "k < 30" by (rule power_less_imp_less_exp [rotated]) simp
  show "mem_area h ! x = header k a" using assms by (simp add: heap_rep_def)
qed

lemma word_of_place: "x < 2 ^ 30 \<Longrightarrow> unat (of_nat x :: u32) = x"
  unfolding unat_of_nat by (rule mod_less) simp

section \<open>The search\<close>

lemma find_chunk_spec:
  assumes h: "heap_rep h A" and j: "0 < j" "j < 31"
  shows "A (unat p) = Some (k, a) \<Longrightarrow> 2 ^ j dvd unat p \<Longrightarrow>
    \<exists>r. find_chunk h (2 ^ j) p = Some r \<and> (case r of
      None \<Rightarrow> \<forall>x i. A x = Some (i, False) \<longrightarrow> unat p \<le> x \<longrightarrow> i < j
    | Some q \<Rightarrow> \<exists>i. A (unat q) = Some (i, False) \<and> j \<le> i)"
proof (induction "words h - unat p" arbitrary: p k a rule: less_induct)
  case less
  have t: "tiling (words h) A" and n: "words h < 2 ^ 30" using h by (auto simp: heap_rep_def)
  note d = heap_repD [OF h less.prems(1)]
  have w: "word_at (mem_area h) p = Some (header k a)" using d(4,5) by simp
  have k32: "k < 32" "j < 32" using d(1) j by auto
  have cmp: "header k False < 2 ^ j \<longleftrightarrow> k < j"
    using unat_pow2 [OF k32(1)] unat_pow2 [OF k32(2)] by (simp add: header_def word_less_nat_alt)
  have flag: "header k a AND 1 = (if a then 1 else 0)" "header k a AND NOT 1 = 2 ^ k"
    using header_flag header_size d(7) k32 by auto
  show ?case
  proof (cases "a \<or> k < j")
    case False
    then show ?thesis using w less.prems(1) cmp flag
      by (subst find_chunk.simps) auto
  next
    case True
    define m where "m = max k j"
    have m: "m < 31" "(if (2 ^ k :: u32) < 2 ^ j then 2 ^ j else 2 ^ k) = (2 ^ m :: u32)"
      using d(1) j cmp unat_pow2 [OF k32(1)] unat_pow2 [OF k32(2)]
      by (auto simp: m_def word_less_nat_alt max_def)
    have go: "find_chunk h (2 ^ j) p = (if p + 2 ^ m \<ge> mem_area_size h then Some None
        else find_chunk h (2 ^ j) (p + 2 ^ m))"
      using True w flag cmp m(2) by (subst find_chunk.simps) (auto simp: Let_def)
    have "unat p + 2 ^ m < 2 ^ 32"
    proof -
      have "(2 :: nat) ^ m \<le> 2 ^ 30" using m(1) by (intro power_increasing) auto
      then show ?thesis using d(2) by simp
    qed
    then have next_p: "unat (p + 2 ^ m) = unat p + 2 ^ m"
      using m(1) unat_pow2 [of m] by (simp add: unat_word_ariths)
    have dm: "2 ^ m dvd unat p" using d(8) less.prems(2) by (simp add: m_def max_def)
    have small: "i < j" if "A x = Some (i, False)" "unat p \<le> x" "x < unat p + 2 ^ m" for x i
    proof (cases "k < j")
      case True
      then show ?thesis
        using tiling_block [OF t less.prems(1,2) True that(1) span_start] that(2,3) by (simp add: span_of_def m_def)
    next
      case False
      then have "x = unat p" using tiling_disj [OF t less.prems(1) that(1) _ span_start] that(2,3)
        by (simp add: span_of_def m_def)
      then show ?thesis using that(1) less.prems(1) \<open>a \<or> k < j\<close> False by simp
    qed
    show ?thesis
    proof (cases "words h \<le> unat p + 2 ^ m")
      case True
      then have end_p: "p + 2 ^ m \<ge> mem_area_size h" by (simp add: word_le_nat_alt next_p words_def)
      have "i < j" if "A x = Some (i, False)" "unat p \<le> x" for x i
        using small [OF that] tilingD(4) [OF t that(1)] True by linarith
      then show ?thesis unfolding go using end_p by simp
    next
      case False
      then have lt: "\<not> p + 2 ^ m \<ge> mem_area_size h" by (simp add: word_le_nat_alt next_p words_def)
      have "\<exists>i b. A (unat p + 2 ^ m) = Some (i, b)"
        by (rule tiling_next [OF t less.prems(1) dm]) (use False in \<open>simp_all add: m_def\<close>)
      then obtain i b where nxt: "A (unat (p + 2 ^ m)) = Some (i, b)" unfolding next_p by blast
      have dj: "2 ^ j dvd unat (p + 2 ^ m)"
        using less.prems(2) unfolding next_p by (simp add: m_def le_imp_power_dvd)
      have "words h - unat (p + 2 ^ m) < words h - unat p" using False zero_less_power [of "2 :: nat" m]
        unfolding next_p by linarith
      from less.hyps [OF this nxt dj] obtain r where r: "find_chunk h (2 ^ j) (p + 2 ^ m) = Some r"
        "case r of None \<Rightarrow> \<forall>x i. A x = Some (i, False) \<longrightarrow> unat (p + 2 ^ m) \<le> x \<longrightarrow> i < j
          | Some q \<Rightarrow> \<exists>i. A (unat q) = Some (i, False) \<and> j \<le> i" by blast
      then show ?thesis unfolding go using lt small
        by (auto split: option.splits simp: next_p) (metis not_less)
    qed
  qed
qed

section \<open>Changing a partition\<close>

definition region :: "chunks \<Rightarrow> nat set" where
  "region N = {w. \<exists>x k a. N x = Some (k, a) \<and> w \<in> span_of x k}"

lemma regionI: "N x = Some (k, a) \<Longrightarrow> w \<in> span_of x k \<Longrightarrow> w \<in> region N"
  by (auto simp: region_def)

text \<open>Some chunks are replaced by others that cover the same words.\<close>

lemma tiling_replace:
  assumes A: "tiling n A" and N: "\<And>x k a. N x = Some (k, a) \<Longrightarrow> 0 < k \<and> 2 ^ k dvd x"
    and dis: "\<And>x k a y j b w. N x = Some (k, a) \<Longrightarrow> N y = Some (j, b) \<Longrightarrow> w \<in> span_of x k \<Longrightarrow> w \<in> span_of y j \<Longrightarrow> x = y"
    and reg: "region N = region (A |` S)"
  shows "tiling n (A |` (- S) ++ N)"
proof -
  let ?B = "A |` (- S) ++ N"
  have out: "w \<notin> region N" if "x \<notin> S" "A x = Some (k, a)" "w \<in> span_of x k" for x k a w
  proof
    assume "w \<in> region N"
    then obtain y j b where y: "(A |` S) y = Some (j, b)" "w \<in> span_of y j" unfolding reg by (auto simp: region_def)
    then have "x = y" using tiling_disj [OF A that(2) _ that(3) y(2)] by (auto simp: restrict_map_def split: if_splits)
    then show False using y(1) that(1) by (simp add: restrict_map_def)
  qed
  have B: "?B x = Some (k, a) \<longleftrightarrow> N x = Some (k, a) \<or> x \<notin> S \<and> A x = Some (k, a)" for x k a
    using out [of x k a x] regionI [of N x] span_start
    by (cases "N x") (auto simp: map_add_def restrict_map_def)
  have inside: "x + 2 ^ k \<le> n" if "N x = Some (k, a)" for x k a
  proof -
    have "(2 :: nat) ^ k - 1 < 2 ^ k" by simp
    then have "x + (2 ^ k - 1) \<in> span_of x k" unfolding span_of_def atLeastLessThan_iff by linarith
    then have "x + (2 ^ k - 1) \<in> region (A |` S)" using regionI [of N x k a, OF that] reg by blast
    then obtain y j b where "A y = Some (j, b)" "x + (2 ^ k - 1) \<in> span_of y j"
      by (auto simp: region_def restrict_map_def split: if_splits)
    then have "x + (2 ^ k - 1) < n" using tilingD(3) [OF A] by (force simp: span_of_def)
    then show ?thesis by linarith
  qed
  show ?thesis
    unfolding tiling_def
  proof (intro conjI allI impI)
    fix x k a assume "?B x = Some (k, a)"
    then show "0 < k" "2 ^ k dvd x" "x + 2 ^ k \<le> n" unfolding B using N inside tilingD [OF A] by auto
  next
    fix w assume "w < n"
    then obtain x k a where x: "A x = Some (k, a)" "w \<in> span_of x k" using tiling_cover [OF A] by blast
    show "\<exists>x k a. ?B x = Some (k, a) \<and> w \<in> span_of x k"
    proof (cases "x \<in> S")
      case True
      then have "w \<in> region N" unfolding reg using x by (auto intro: regionI [of _ x])
      then show ?thesis unfolding B by (auto simp: region_def)
    next
      case False
      then show ?thesis unfolding B using x by blast
    qed
  next
    fix x k a y j b w
    assume xy: "?B x = Some (k, a)" "?B y = Some (j, b)" and w: "w \<in> span_of x k" "w \<in> span_of y j"
    have r: "N x = Some (k, a) \<Longrightarrow> w \<in> region N" "N y = Some (j, b) \<Longrightarrow> w \<in> region N"
      using w regionI by auto
    from xy [unfolded B] show "x = y"
    proof (elim disjE conjE)
      assume "N x = Some (k, a)" "N y = Some (j, b)"
      then show "x = y" using dis w by blast
    next
      assume "N x = Some (k, a)" "y \<notin> S" "A y = Some (j, b)"
      then show "x = y" using out w(2) r(1) by blast
    next
      assume "x \<notin> S" "A x = Some (k, a)" "N y = Some (j, b)"
      then show "x = y" using out w(1) r(2) by blast
    next
      assume "A x = Some (k, a)" "A y = Some (j, b)"
      then show "x = y" using tiling_disj [OF A] w by blast
    qed
  qed
qed

lemma span_halves:
  assumes "0 < k"
  shows "span_of x k = span_of x (k - 1) \<union> span_of (x + 2 ^ (k - 1)) (k - 1)"
    and "w \<in> span_of x (k - 1) \<Longrightarrow> w \<notin> span_of (x + 2 ^ (k - 1)) (k - 1)"
proof -
  obtain i where k: "k = Suc i" using assms by (cases k) auto
  show "span_of x k = span_of x (k - 1) \<union> span_of (x + 2 ^ (k - 1)) (k - 1)" by (auto simp: span_of_def k)
  show "w \<in> span_of x (k - 1) \<Longrightarrow> w \<notin> span_of (x + 2 ^ (k - 1)) (k - 1)" by (simp add: span_of_def)
qed

lemma half_lt: "0 < k \<Longrightarrow> (2 :: nat) ^ (k - 1) < 2 ^ k" "0 < k \<Longrightarrow> 2 ^ (k - 1) + 2 ^ (k - 1) = (2 :: nat) ^ k"
  by (cases k; simp)+

lemma tiling_split:
  assumes A: "tiling n A" and x: "A x = Some (k, a)" and k: "1 < k"
  shows "tiling n (A(x \<mapsto> (k - 1, b), x + 2 ^ (k - 1) \<mapsto> (k - 1, c)))"
proof -
  let ?y = "x + 2 ^ (k - 1)" and ?N = "[x \<mapsto> (k - 1, b), x + 2 ^ (k - 1) \<mapsto> (k - 1, c)]"
  have k0: "0 < k" using k by simp
  have "2 ^ (k - 1) dvd x" using tilingD(2) [OF A x] by (meson diff_le_self dvd_trans le_imp_power_dvd)
  then have d: "2 ^ (k - 1) dvd x" "2 ^ (k - 1) dvd ?y" by simp_all
  have N: "?N z = Some (j, e) \<longleftrightarrow> z = x \<and> j = k - 1 \<and> e = b \<or> z = ?y \<and> j = k - 1 \<and> e = c" for z j e by auto
  have reg: "region ?N = region (A |` {x})"
  proof -
    have "region ?N = span_of x (k - 1) \<union> span_of ?y (k - 1)" unfolding region_def N by auto
    moreover have "region (A |` {x}) = span_of x k" using x by (auto simp: region_def restrict_map_def split: if_splits)
    ultimately show ?thesis using span_halves(1) [OF k0] by simp
  qed
  have "tiling n (A |` (- {x}) ++ ?N)"
  proof (rule tiling_replace [OF A _ _ reg])
    show "0 < j \<and> 2 ^ j dvd z" if "?N z = Some (j, e)" for z j e
      using that d k unfolding N by auto
    show "z = z'" if "?N z = Some (j, e)" "?N z' = Some (j', e')" "w \<in> span_of z j" "w \<in> span_of z' j'" for z j e z' j' e' w
      using that span_halves(2) [OF k0] unfolding N by blast
  qed
  moreover have "A |` (- {x}) ++ ?N = A(x \<mapsto> (k - 1, b), ?y \<mapsto> (k - 1, c))"
    by (auto simp: map_add_def restrict_map_def fun_eq_iff)
  ultimately show ?thesis by simp
qed

lemma tiling_flag:
  assumes A: "tiling n A" and x: "A x = Some (k, a)"
  shows "tiling n (A(x \<mapsto> (k, b)))"
proof -
  have reg: "region [x \<mapsto> (k, b)] = region (A |` {x})"
    using x by (auto simp: region_def restrict_map_def split: if_splits)
  have "tiling n (A |` (- {x}) ++ [x \<mapsto> (k, b)])"
    by (rule tiling_replace [OF A _ _ reg]) (use tilingD [OF A x] in \<open>auto split: if_splits\<close>)
  moreover have "A |` (- {x}) ++ [x \<mapsto> (k, b)] = A(x \<mapsto> (k, b))"
    by (auto simp: map_add_def restrict_map_def fun_eq_iff)
  ultimately show ?thesis by simp
qed

lemma tiling_merge:
  assumes A: "tiling n A" and x: "A x = Some (k, a)" and y: "A (x + 2 ^ k) = Some (k, b)" and d: "2 ^ Suc k dvd x"
  shows "tiling n ((A(x + 2 ^ k := None))(x \<mapsto> (Suc k, c)))"
proof -
  let ?y = "x + 2 ^ k"
  have reg: "region [x \<mapsto> (Suc k, c)] = region (A |` {x, ?y})"
  proof -
    have "region [x \<mapsto> (Suc k, c)] = span_of x (Suc k)" by (auto simp: region_def split: if_splits)
    moreover have "(A |` {x, ?y}) z = Some (j, e) \<longleftrightarrow> z = x \<and> j = k \<and> e = a \<or> z = ?y \<and> j = k \<and> e = b" for z j e
      using x y by (auto simp: restrict_map_def)
    then have "region (A |` {x, ?y}) = span_of x k \<union> span_of ?y k" unfolding region_def by auto
    ultimately show ?thesis using span_halves(1) [of "Suc k" x] by simp
  qed
  have "tiling n (A |` (- {x, ?y}) ++ [x \<mapsto> (Suc k, c)])"
    by (rule tiling_replace [OF A _ _ reg]) (use d in \<open>auto split: if_splits\<close>)
  moreover have "A |` (- {x, ?y}) ++ [x \<mapsto> (Suc k, c)] = (A(?y := None))(x \<mapsto> (Suc k, c))"
    by (auto simp: map_add_def restrict_map_def fun_eq_iff)
  ultimately show ?thesis by simp
qed

section \<open>Splitting\<close>

lemma heap_rep_update:
  assumes h: "heap_rep h A" and t: "tiling (words h) B" and l: "length m = length (mem_area h)"
    and hd: "\<And>x k a. B x = Some (k, a) \<Longrightarrow> m ! x = header k a"
  shows "heap_rep (h\<lparr>mem_area := m\<rparr>) B"
  using h t l hd by (simp add: heap_rep_def words_def)

lemma header_less: "0 < j \<Longrightarrow> j < 32 \<Longrightarrow> k < 32 \<Longrightarrow> (2 :: u32) ^ j < header k False \<longleftrightarrow> j < k"
  using unat_pow2 [of j] unat_pow2 [of k] by (simp add: header_def word_less_nat_alt)

lemma split_chunk_spec:
  assumes j: "0 < j"
  shows "heap_rep (h\<lparr>mem_area := m\<rparr>) A \<Longrightarrow> A (unat p) = Some (k, False) \<Longrightarrow> j \<le> k \<Longrightarrow>
    \<exists>m' B. split_chunk (2 ^ j) p m = Some m' \<and> heap_rep (h\<lparr>mem_area := m'\<rparr>) B
      \<and> B (unat p) = Some (j, False) \<and> (\<forall>y. y \<notin> span_of (unat p) k \<longrightarrow> B y = A y \<and> m' ! y = m ! y)
      \<and> (\<forall>y i b. y \<in> span_of (unat p) k \<longrightarrow> y \<noteq> unat p \<longrightarrow> B y = Some (i, b) \<longrightarrow> \<not> b \<and> twin i y = unat p)
      \<and> length m' = length m"
proof (induction "k - j" arbitrary: m A k)
  case 0
  let ?h = "h\<lparr>mem_area := m\<rparr>"
  have kj: "k = j" using 0 by simp
  note d = heap_repD [OF 0(2,3)]
  have "split_chunk (2 ^ j) p m = Some m"
    using d kj j by (subst split_chunk.simps) (simp add: header_less)
  moreover have "False" if "y \<in> span_of (unat p) k" "y \<noteq> unat p" "A y = Some (i, b)" for y i b
    using tiling_disj [OF _ 0(3) that(3) that(1) span_start] that(2) 0(2) by (auto simp: heap_rep_def)
  ultimately show ?case using 0(2,3) kj by blast
next
  case (Suc c)
  let ?h = "h\<lparr>mem_area := m\<rparr>" and ?x = "unat p" and ?y = "unat p + 2 ^ (k - 1)"
  have kj: "j < k" "1 < k" using Suc(2) j by auto
  have t: "tiling (words h) A" using Suc(3) by (simp add: heap_rep_def words_def)
  note d = heap_repD [OF Suc(3,4)]
  have k32: "k < 32" "k - 1 < 32" "0 < k - 1" "j < 32" using d(1) kj by auto
  have half: "drop_bit 1 (header k False) = 2 ^ (k - 1)" using half_pow2 d(7) k32 by (simp add: header_def)
  have "words ?h \<le> length m" using Suc(3) by (simp add: heap_rep_def words_def)
  then have lt: "?y < 2 ^ 30" "?y < length m" using d(3,6) half_lt(1) [OF d(7)] by linarith+
  have up: "unat (p + 2 ^ (k - 1)) = ?y"
    using lt(1) unat_pow2 [OF k32(2)] by (simp add: unat_word_ariths)
  define m1 where "m1 = m[?x := 2 ^ (k - 1), ?y := 2 ^ (k - 1)]"
  define A1 where "A1 = A(?x \<mapsto> (k - 1, False), ?y \<mapsto> (k - 1, False))"
  have step: "split_chunk (2 ^ j) p m = split_chunk (2 ^ j) p m1"
    using d(4,5) lt half up kj header_less [OF j k32(4) k32(1)]
    by (subst split_chunk.simps) (simp add: m1_def Let_def)
  have "?y \<noteq> ?x" by simp
  have rep: "heap_rep (h\<lparr>mem_area := m1\<rparr>) A1"
  proof -
    have "heap_rep (?h\<lparr>mem_area := m1\<rparr>) A1"
    proof (rule heap_rep_update [OF Suc(3)])
      show "tiling (words ?h) A1" unfolding A1_def using tiling_split [OF t Suc(4) kj(2)] by (simp add: words_def)
      show "length m1 = length (mem_area ?h)" by (simp add: m1_def)
      fix z i b assume "A1 z = Some (i, b)"
      then show "m1 ! z = header i b"
        using heap_repD(4,5) [OF Suc(3), of z] d(4) lt
        by (auto simp: A1_def m1_def header_def nth_list_update split: if_splits)
    qed
    then show ?thesis by simp
  qed
  have A1x: "A1 ?x = Some (k - 1, False)" by (simp add: A1_def)
  have c: "c = k - 1 - j" "j \<le> k - 1" using Suc(2) kj by auto
  obtain m' B where B: "split_chunk (2 ^ j) p m1 = Some m'" "heap_rep (h\<lparr>mem_area := m'\<rparr>) B"
    "B ?x = Some (j, False)" "\<And>y. y \<notin> span_of ?x (k - 1) \<Longrightarrow> B y = A1 y \<and> m' ! y = m1 ! y"
    "\<And>y i b. y \<in> span_of ?x (k - 1) \<Longrightarrow> y \<noteq> ?x \<Longrightarrow> B y = Some (i, b) \<Longrightarrow> \<not> b \<and> twin i y = ?x" "length m' = length m1"
    using Suc(1) [OF c(1) rep A1x c(2)] by blast
  have halves: "span_of ?x k = span_of ?x (k - 1) \<union> span_of ?y (k - 1)" by (rule span_halves(1) [OF d(7)])
  have outside: "B y = A y \<and> m' ! y = m ! y" if "y \<notin> span_of ?x k" for y
    using that B(4) [of y] halves span_start by (auto simp: A1_def m1_def)
  have inside: "\<not> b \<and> twin i y = ?x" if "y \<in> span_of ?x k" "y \<noteq> ?x" "B y = Some (i, b)" for y i b
  proof (cases "y \<in> span_of ?x (k - 1)")
    case True
    then show ?thesis using B(5) that by blast
  next
    case False
    have "y = ?y"
    proof (rule ccontr)
      assume "y \<noteq> ?y"
      then have "A y = Some (i, b)" using B(4) [OF False] that by (simp add: A1_def)
      then show False using tiling_disj [OF t Suc(4) _ that(1) span_start] that(2) by blast
    qed
    moreover have "2 ^ Suc (k - 1) dvd ?x" using d(7,8) by simp
    then have "twin (k - 1) ?y = ?x" by (rule twin_up(1))
    ultimately show ?thesis using B(4) [OF False] that by (simp add: A1_def)
  qed
  have len: "length m' = length m" using B(6) by (simp add: m1_def)
  show ?case unfolding step using B(1-3) outside inside len by blast
qed

section \<open>Merging\<close>

text \<open>The allocated chunks, and heaps in which no two free chunks could be one.\<close>

definition taken :: "chunks \<Rightarrow> (nat \<times> nat) set" where
  "taken A = {(x, k). A x = Some (k, True)}"

definition merged_but :: "nat \<Rightarrow> chunks \<Rightarrow> bool" where
  "merged_but x A \<longleftrightarrow> (\<forall>y i. A y = Some (i, False) \<longrightarrow> y \<noteq> x \<longrightarrow> twin i y \<noteq> x \<longrightarrow> A (twin i y) \<noteq> Some (i, False))"

definition merged :: "chunks \<Rightarrow> bool" where
  "merged A \<longleftrightarrow> (\<forall>y i. A y = Some (i, False) \<longrightarrow> A (twin i y) \<noteq> Some (i, False))"

text \<open>The words of the allocated chunks.\<close>

definition same_words :: "(nat \<times> nat) set \<Rightarrow> u32 list \<Rightarrow> u32 list \<Rightarrow> bool" where
  "same_words T m m' \<longleftrightarrow> length m' = length m \<and> (\<forall>x k w. (x, k) \<in> T \<longrightarrow> w \<in> span_of x k \<longrightarrow> m' ! w = m ! w)"

lemma same_words_refl: "same_words T m m"
  by (simp add: same_words_def)

lemma same_words_trans: "same_words T m m1 \<Longrightarrow> same_words T m1 m2 \<Longrightarrow> same_words T m m2"
  by (simp add: same_words_def)

lemma same_words_mono: "same_words T m m' \<Longrightarrow> T' \<subseteq> T \<Longrightarrow> same_words T' m m'"
  by (auto simp: same_words_def)

lemma merged_butI:
  assumes t: "tiling n A" and x: "A x = Some (k, False)" and "merged_but x A" and no: "A (twin k x) \<noteq> Some (k, False)"
  shows "merged A"
  unfolding merged_def
proof (intro allI impI notI)
  fix y i assume y: "A y = Some (i, False)" "A (twin i y) = Some (i, False)"
  consider "y = x" | "twin i y = x" | "y \<noteq> x" "twin i y \<noteq> x" by blast
  then show False
  proof cases
    case 1
    then show False using y x no by simp
  next
    case 2
    then have "i = k" using y(2) x by simp
    moreover have "twin i x = y" using twin_aligned(3) [OF tilingD(2) [OF t y(1)]] 2 by simp
    ultimately show False using y(1) no by simp
  next
    case 3
    then show False using y assms(3) by (auto simp: merged_but_def)
  qed
qed

lemma merge_chunks_spec:
  "heap_rep (h\<lparr>mem_area := m\<rparr>) A \<Longrightarrow> A (unat p) = Some (k, False) \<Longrightarrow> merged_but (unat p) A \<Longrightarrow>
   \<exists>m' B. merge_chunks (mem_area_size h) p m = Some m' \<and> heap_rep (h\<lparr>mem_area := m'\<rparr>) B
     \<and> merged B \<and> taken B = taken A \<and> same_words (taken A) m m'"
proof (induction "30 - k" arbitrary: m A p k rule: less_induct)
  case less
  let ?h = "h\<lparr>mem_area := m\<rparr>" and ?x = "unat p" and ?t = "twin k (unat p)"
  have t: "tiling (words ?h) A" and n: "words h < 2 ^ 30" "words h \<le> length m" "words ?h = words h"
    using less.prems(1) by (auto simp: heap_rep_def words_def)
  note d = heap_repD [OF less.prems(1,2)]
  note tw = twin_aligned [OF d(8)]
  have k32: "k < 32" using d(1) by simp
  have hd: "m ! ?x = 2 ^ k" using d(5) by (simp add: header_def)
  have xor: "unat (p XOR 2 ^ k) = ?t" by (rule twin_xor) (use d(3) k32 in simp_all)
  have stop: ?case if "merge_chunks (mem_area_size h) p m = Some m" "A ?t \<noteq> Some (k, False)"
    using that merged_butI [OF t less.prems(2,3) that(2)] less.prems(1) same_words_refl by blast
  show ?case
  proof (cases "words h \<le> ?t \<or> m ! ?t \<noteq> 2 ^ k")
    case True
    have "A ?t \<noteq> Some (k, False)"
    proof
      assume a: "A ?t = Some (k, False)"
      show False using True tilingD(4) [OF t a] heap_repD(5) [OF less.prems(1) a] n(3) by (auto simp: header_def)
    qed
    moreover have "merge_chunks (mem_area_size h) p m = Some m"
      using True d(4) hd xor n(2) by (subst merge_chunks.simps) (auto simp: Let_def word_le_nat_alt words_def)
    ultimately show ?thesis by (rule stop [rotated])
  next
    case False
    then have tlt: "?t < words h" and tm: "m ! ?t = 2 ^ k" by auto
    define lo where "lo = min ?x ?t"
    have hi: "max ?x ?t = lo + 2 ^ k" and dlo: "2 ^ Suc k dvd lo" using tw by (simp_all add: lo_def)
    have At: "A ?t = Some (k, False)"
    proof -
      obtain y j b where y: "A y = Some (j, b)" "?t \<in> span_of y j" using tiling_cover [OF t] tlt n(3) by metis
      have "j \<le> k"
      proof (rule ccontr)
        assume jk: "\<not> j \<le> k"
        have "lo \<le> ?x" "?x \<le> lo + 2 ^ k" "lo \<le> ?t" "?t \<le> lo + 2 ^ k" "(0 :: nat) < 2 ^ k"
          unfolding hi [symmetric] by (simp_all add: lo_def)
        then have both: "?x \<in> span_of lo (Suc k)" "?t \<in> span_of lo (Suc k)"
          unfolding span_of_def atLeastLessThan_iff power_Suc by linarith+
        have "span_of lo (Suc k) \<subseteq> span_of y j"
          using span_nested [of "Suc k" j lo y ?t] jk dlo tilingD(2) [OF t y(1)] both(2) y(2) by simp
        then have "?x = y" using tiling_disj [OF t less.prems(2) y(1) span_start] both(1) by blast
        then show False using y(1) less.prems(2) jk by simp
      qed
      then have "?t = y" using tiling_start [OF t y tw(1)] by blast
      then have "header j b = header k False" using heap_repD(5) [OF less.prems(1) y(1)] tm by (simp add: header_def)
      then have "j = k \<and> \<not> b"
        using header_inj [of j k b False] heap_repD(1,7) [OF less.prems(1) y(1)] d(7) k32 by simp
      then show ?thesis using y(1) \<open>?t = y\<close> by simp
    qed
    define q where "q = (if p XOR 2 ^ k < p then p XOR 2 ^ k else p)"
    have q: "unat q = lo" using xor by (auto simp: q_def lo_def word_less_nat_alt)
    have mlo: "m ! lo = 2 ^ k" "lo < length m" using hd tm d(4) tlt n(2) by (auto simp: lo_def min_def)
    define m1 where "m1 = m[lo := 2 ^ Suc k]"
    define A1 where "A1 = (A(lo + 2 ^ k := None))(lo \<mapsto> (Suc k, False))"
    have step: "merge_chunks (mem_area_size h) p m = merge_chunks (mem_area_size h) q m1"
      using d(4) hd xor tlt tm n(2) mlo q
      by (subst merge_chunks.simps) (simp add: Let_def word_le_nat_alt words_def q_def [symmetric] m1_def double_pow2 mult.commute)
    have pair: "A lo = Some (k, False)" "A (lo + 2 ^ k) = Some (k, False)"
      using less.prems(2) At hi by (auto simp: lo_def min_def max_def split: if_splits)
    have rep: "heap_rep (h\<lparr>mem_area := m1\<rparr>) A1"
    proof -
      have "heap_rep (?h\<lparr>mem_area := m1\<rparr>) A1"
      proof (rule heap_rep_update [OF less.prems(1)])
        show "tiling (words ?h) A1" unfolding A1_def by (rule tiling_merge [OF t pair dlo])
        show "length m1 = length (mem_area ?h)" by (simp add: m1_def)
        fix z i b assume "A1 z = Some (i, b)"
        then show "m1 ! z = header i b"
          using heap_repD(5) [OF less.prems(1), of z] mlo
          by (auto simp: A1_def m1_def header_def nth_list_update split: if_splits)
      qed
      then show ?thesis by simp
    qed
    have A1q: "A1 (unat q) = Some (Suc k, False)" by (simp add: A1_def q)
    have but: "merged_but (unat q) A1"
      unfolding merged_but_def q
    proof (intro allI impI notI)
      fix y i assume y: "A1 y = Some (i, False)" "y \<noteq> lo" "twin i y \<noteq> lo" "A1 (twin i y) = Some (i, False)"
      then have "A y = Some (i, False)" "A (twin i y) = Some (i, False)" "y \<noteq> ?x" "twin i y \<noteq> ?x"
        using hi by (auto simp: A1_def lo_def min_def max_def split: if_splits)
      then show False using less.prems(3) by (auto simp: merged_but_def)
    qed
    have tk: "taken A1 = taken A" using pair by (auto simp: taken_def A1_def split: if_splits)
    have fr: "same_words (taken A) m m1"
      unfolding same_words_def
    proof (intro conjI allI impI, simp add: m1_def)
      fix x i w assume "(x, i) \<in> taken A" "w \<in> span_of x i"
      then have "w \<noteq> lo" using tiling_disj [OF t _ pair(1) _ span_start] pair(1) by (force simp: taken_def)
      then show "m1 ! w = m ! w" by (simp add: m1_def)
    qed
    have "30 - Suc k < 30 - k" using d(1) by simp
    from less.hyps [OF this rep A1q but] show ?thesis
      unfolding step tk using same_words_trans [OF fr] by blast
  qed
qed

section \<open>Allocation and release\<close>

definition heap_ok :: "heap \<Rightarrow> chunks \<Rightarrow> bool" where
  "heap_ok h A \<longleftrightarrow> heap_rep h A \<and> merged A"

text \<open>The logarithm of the chunk size for a request of \<open>n\<close> bytes.\<close>

fun bit_len :: "nat \<Rightarrow> nat" where
  "bit_len s = (if s = 0 then 0 else Suc (bit_len (s div 2)))"

declare bit_len.simps [simp del]

definition chunk_order :: "u32 \<Rightarrow> nat" where
  "chunk_order n = bit_len ((unat n + 7) div 4)"

lemma bit_len_bounds: "0 < s \<Longrightarrow> 2 ^ (bit_len s - 1) \<le> s \<and> s < 2 ^ bit_len s \<and> 0 < bit_len s"
proof (induction s rule: bit_len.induct)
  case (1 s)
  show ?case
  proof (cases "s div 2 = 0")
    case True
    then have "s = 1" using 1(2) by linarith
    then show ?thesis by (simp add: bit_len.simps)
  next
    case False
    then have "2 ^ (bit_len (s div 2) - 1) \<le> s div 2 \<and> s div 2 < 2 ^ bit_len (s div 2) \<and> 0 < bit_len (s div 2)"
      using 1 by simp
    moreover from this obtain i where "bit_len (s div 2) = Suc i" by (cases "bit_len (s div 2)") auto
    moreover have "bit_len s = Suc (bit_len (s div 2))" using 1(2) by (subst bit_len.simps) simp
    ultimately show ?thesis by simp linarith
  qed
qed

lemma alloc_words_order:
  assumes "unat n < 2 ^ 32 - 7"
  shows "alloc_words n = 2 ^ chunk_order n" "0 < chunk_order n" "chunk_order n < 31" "unat n + 4 \<le> 4 * 2 ^ chunk_order n"
proof -
  let ?s = "(unat n + 7) div 4"
  have u: "unat (n + 7) = unat n + 7" using assms by (simp add: unat_word_ariths)
  have s: "unat (drop_bit 2 (n + 7)) = ?s" by (simp add: drop_bit_eq_div unat_div u)
  have s0: "0 < ?s" by (simp add: div_greater_zero_iff)
  obtain k where k: "bit_len ?s = Suc k" "2 ^ k \<le> ?s" "?s < 2 ^ Suc k"
    using bit_len_bounds [of ?s] s0 by (cases "bit_len ?s") auto
  have "?s < 2 ^ 30" using assms by simp
  then have "(2 :: nat) ^ k < 2 ^ 30" using k(2) by linarith
  then have k30: "k < 30" by (rule power_less_imp_less_exp [rotated]) simp
  have "round_down (drop_bit 2 (n + 7)) = 2 ^ k"
  proof (rule round_down_pow2)
    show "2 ^ k \<le> unat (drop_bit 2 (n + 7))" "unat (drop_bit 2 (n + 7)) < 2 ^ Suc k" unfolding s by (rule k)+
    show "k < 32" using k30 by simp
  qed
  then show "alloc_words n = 2 ^ chunk_order n" by (simp add: alloc_words_def chunk_order_def k(1) double_pow2)
  show "0 < chunk_order n" "chunk_order n < 31" using k30 k(1) by (simp_all add: chunk_order_def)
  have "unat n + 7 < 4 * (?s + 1)" by simp
  then show "unat n + 4 \<le> 4 * 2 ^ chunk_order n" using k(3) unfolding chunk_order_def k(1) by linarith
qed

lemma merged_split:
  assumes t: "tiling n B" and m: "merged A" and x: "A x = Some (k, False)" "B x = Some (j, True)"
    and out: "\<And>y. y \<notin> span_of x k \<Longrightarrow> B y = A y"
    and ins: "\<And>y i b. y \<in> span_of x k \<Longrightarrow> y \<noteq> x \<Longrightarrow> B y = Some (i, b) \<Longrightarrow> twin i y = x"
  shows "merged B"
  unfolding merged_def
proof (intro allI impI notI)
  fix y i assume y: "B y = Some (i, False)" "B (twin i y) = Some (i, False)"
  have tt: "twin i (twin i y) = y" by (rule twin_aligned(3) [OF tilingD(2) [OF t y(1)]])
  have no: "z \<noteq> x" if "B z = Some (i, False)" for z using that x(2) by auto
  have "y \<notin> span_of x k" "twin i y \<notin> span_of x k"
    using ins [of y i False] ins [of "twin i y" i False] y no tt by metis+
  then show False using y out m by (auto simp: merged_def)
qed

lemma malloc_spec:
  assumes ok: "heap_ok h A" and n: "n \<noteq> 0" "unat n < 2 ^ 32 - 7"
  shows "\<exists>r h'. malloc n h = Some (r, h') \<and> (case r of
      None \<Rightarrow> h' = h \<and> (\<forall>x k. A x = Some (k, False) \<longrightarrow> k < chunk_order n)
    | Some p \<Rightarrow> \<exists>B x. p = of_nat (x + 1) \<and> heap_ok h' B \<and> words h' = words h
        \<and> taken B = insert (x, chunk_order n) (taken A) \<and> (x, chunk_order n) \<notin> taken A \<and> x < words h
        \<and> same_words (taken A) (mem_area h) (mem_area h'))"
proof -
  have h: "heap_rep h A" and mg: "merged A" using ok by (auto simp: heap_ok_def)
  have t: "tiling (words h) A" "0 < words h" using h by (auto simp: heap_rep_def)
  note o = alloc_words_order [OF n(2)]
  obtain x0 k0 a0 where x0: "A x0 = Some (k0, a0)" "0 \<in> span_of x0 k0" using tiling_cover [OF t] by blast
  then have "A (unat (0 :: u32)) = Some (k0, a0)" by (simp add: span_of_def)
  from find_chunk_spec [OF h o(2,3) this] obtain r where f: "find_chunk h (2 ^ chunk_order n) 0 = Some r"
    and r0: "case r of None \<Rightarrow> \<forall>x i. A x = Some (i, False) \<longrightarrow> unat (0 :: u32) \<le> x \<longrightarrow> i < chunk_order n
      | Some q \<Rightarrow> \<exists>i. A (unat q) = Some (i, False) \<and> chunk_order n \<le> i" by auto
  have r: "case r of None \<Rightarrow> \<forall>x i. A x = Some (i, False) \<longrightarrow> i < chunk_order n
      | Some q \<Rightarrow> \<exists>i. A (unat q) = Some (i, False) \<and> chunk_order n \<le> i" using r0 by (simp split: option.splits)
  show ?thesis
  proof (cases r)
    case None
    then show ?thesis using f r n by (simp add: malloc_def o)
  next
    case (Some p)
    let ?x = "unat p"
    obtain k where k: "A ?x = Some (k, False)" "chunk_order n \<le> k" using r Some by auto
    have h': "heap_rep (h\<lparr>mem_area := mem_area h\<rparr>) A" using h by simp
    from split_chunk_spec [OF o(2) h' k] obtain m B where s: "split_chunk (2 ^ chunk_order n) p (mem_area h) = Some m"
      and B: "heap_rep (h\<lparr>mem_area := m\<rparr>) B" "B ?x = Some (chunk_order n, False)"
      and out: "\<And>y. y \<notin> span_of ?x k \<Longrightarrow> B y = A y \<and> m ! y = mem_area h ! y"
      and ins: "\<And>y i b. y \<in> span_of ?x k \<Longrightarrow> y \<noteq> ?x \<Longrightarrow> B y = Some (i, b) \<Longrightarrow> \<not> b \<and> twin i y = ?x"
      and len: "length m = length (mem_area h)" by blast
    define m' where "m' = m[?x := header (chunk_order n) True]"
    define B' where "B' = B(?x \<mapsto> (chunk_order n, True))"
    note dB = heap_repD [OF B]
    have tB: "tiling (words h) B" using B(1) by (simp add: heap_rep_def words_def)
    have "m ! ?x + 1 = header (chunk_order n) True" using dB(5) by (simp add: header_def)
    then have mal: "malloc n h = Some (Some (p + 1), h\<lparr>mem_area := m'\<rparr>)"
      using f s n dB(4) Some by (simp add: malloc_def o m'_def)
    have tB': "tiling (words h) B'" unfolding B'_def by (rule tiling_flag [OF tB B(2)])
    have "heap_rep (h\<lparr>mem_area := m\<rparr>\<lparr>mem_area := m'\<rparr>) B'"
    proof (rule heap_rep_update [OF B(1)])
      show "tiling (words (h\<lparr>mem_area := m\<rparr>)) B'" using tB' by (simp add: words_def)
      show "length m' = length (mem_area (h\<lparr>mem_area := m\<rparr>))" by (simp add: m'_def)
      fix z i b assume "B' z = Some (i, b)"
      then show "m' ! z = header i b"
        using heap_repD(5) [OF B(1), of z] dB(4) by (auto simp: B'_def m'_def nth_list_update split: if_splits)
    qed
    moreover have "merged B'"
      by (rule merged_split [OF tB' mg k(1)]) (use out ins in \<open>auto simp: B'_def span_start\<close>)
    ultimately have ok': "heap_ok (h\<lparr>mem_area := m'\<rparr>) B'" by (simp add: heap_ok_def)
    have old: "B y = A y" if "A y = Some (i, True)" for y i
    proof -
      have "y \<notin> span_of ?x k" using tiling_disj [OF t(1) k(1) that _ span_start] k(1) that by auto
      then show ?thesis using out by blast
    qed
    have "B' a = Some (b, True) \<longleftrightarrow> a = ?x \<and> b = chunk_order n \<or> A a = Some (b, True)" for a b
    proof (cases "a = ?x")
      case True
      then show ?thesis using k(1) by (auto simp: B'_def)
    next
      case False
      have "B a = Some (b, True) \<longleftrightarrow> A a = Some (b, True)"
      proof (cases "a \<in> span_of ?x k")
        case True
        then have "B a \<noteq> Some (b, True)" using ins False by blast
        then show ?thesis using old [of a b] by auto
      next
        case False
        then show ?thesis using out by simp
      qed
      then show ?thesis using False by (simp add: B'_def)
    qed
    then have tk: "taken B' = insert (?x, chunk_order n) (taken A)" by (auto simp: taken_def)
    have new: "(?x, chunk_order n) \<notin> taken A" using k(1) by (simp add: taken_def)
    have "same_words (taken A) (mem_area h) m'"
      unfolding same_words_def
    proof (intro conjI allI impI)
      show "length m' = length (mem_area h)" by (simp add: m'_def len)
      fix y i w assume "(y, i) \<in> taken A" "w \<in> span_of y i"
      then have "A y = Some (i, True)" "w \<in> span_of y i" by (simp_all add: taken_def)
      then have "w \<notin> span_of ?x k" using tiling_disj [OF t(1) _ k(1)] k(1) by fastforce
      moreover then have "w \<noteq> ?x" using span_start by blast
      ultimately show "m' ! w = mem_area h ! w" using out by (simp add: m'_def)
    qed
    then show ?thesis
      using mal ok' tk new tilingD(4) [OF t(1) k(1)] by (auto simp: words_def intro!: exI [of _ B'] exI [of _ ?x])
  qed
qed

lemma free_spec:
  assumes ok: "heap_ok h A" and x: "A x = Some (k, True)"
  shows "\<exists>h' B. free (Some (of_nat (x + 1))) h = Some h' \<and> heap_ok h' B \<and> words h' = words h
    \<and> taken B = taken A - {(x, k)} \<and> same_words (taken A - {(x, k)}) (mem_area h) (mem_area h')"
proof -
  have h: "heap_rep h A" and mg: "merged A" using ok by (auto simp: heap_ok_def)
  have t: "tiling (words h) A" using h by (auto simp: heap_rep_def)
  note d = heap_repD [OF h x]
  have p: "unat (of_nat (x + 1) - 1 :: u32) = x" using word_of_place [OF d(2)] by simp
  define m where "m = (mem_area h)[x := header k False]"
  define A1 where "A1 = A(x \<mapsto> (k, False))"
  have w: "mem_area h ! x AND NOT 1 = header k False"
    using header_size [of k True] d by (simp add: header_def)
  have rep: "heap_rep (h\<lparr>mem_area := m\<rparr>) A1"
  proof (rule heap_rep_update [OF h])
    show "tiling (words h) A1" unfolding A1_def by (rule tiling_flag [OF t x])
    show "length m = length (mem_area h)" by (simp add: m_def)
    fix z i b assume "A1 z = Some (i, b)"
    then show "m ! z = header i b"
      using heap_repD(5) [OF h, of z] d(4) by (auto simp: A1_def m_def nth_list_update split: if_splits)
  qed
  have but: "merged_but x A1" using mg by (auto simp: merged_but_def merged_def A1_def)
  have A1x: "A1 (unat (of_nat (x + 1) - 1 :: u32)) = Some (k, False)" unfolding p by (simp add: A1_def)
  have but': "merged_but (unat (of_nat (x + 1) - 1 :: u32)) A1" unfolding p by (rule but)
  from merge_chunks_spec [OF rep A1x but'] obtain m' B
    where B: "merge_chunks (mem_area_size h) (of_nat (x + 1) - 1) m = Some m'" "heap_rep (h\<lparr>mem_area := m'\<rparr>) B"
      "merged B" "taken B = taken A1" "same_words (taken A1) m m'" by blast
  have "free (Some (of_nat (x + 1))) h = Some (h\<lparr>mem_area := m'\<rparr>)"
    using B(1) d(4) p w by (simp add: free_def m_def [symmetric])
  moreover have tk: "taken A1 = taken A - {(x, k)}" using x by (auto simp: taken_def A1_def split: if_splits)
  moreover have "same_words (taken A1) (mem_area h) m"
    unfolding same_words_def
  proof (intro conjI allI impI)
    show "length m = length (mem_area h)" by (simp add: m_def)
    fix y i w assume "(y, i) \<in> taken A1" "w \<in> span_of y i"
    then have "w \<noteq> x" using tiling_disj [OF t _ x _ span_start] by (force simp: taken_def A1_def split: if_splits)
    then show "m ! w = mem_area h ! w" by (simp add: m_def)
  qed
  ultimately show ?thesis
    using B same_words_trans [OF _ B(5)] by (auto simp: heap_ok_def words_def)
qed

section \<open>A merged heap is determined by its allocated chunks\<close>

text \<open>In a merged heap no aligned block without allocated chunks is cut in pieces.\<close>

lemma merged_whole:
  assumes t: "tiling n B" and mg: "merged B" and x: "2 ^ k dvd x"
    and free: "\<And>y j b w. B y = Some (j, b) \<Longrightarrow> w \<in> span_of y j \<Longrightarrow> w \<in> span_of x k \<Longrightarrow> \<not> b"
    and le: "x + 2 ^ k \<le> n" and y: "B y = Some (j, b)" "w \<in> span_of y j" "w \<in> span_of x k"
  shows "k \<le> j"
proof (rule ccontr)
  assume jk: "\<not> k \<le> j"
  define small where "small i \<longleftrightarrow> (\<exists>z b w. B z = Some (i, b) \<and> w \<in> span_of z i \<and> w \<in> span_of x k)" for i
  define i where "i = (LEAST i. small i)"
  have "small j" using y by (auto simp: small_def)
  then have i: "small i" "i \<le> j" and least: "\<And>l. small l \<Longrightarrow> i \<le> l"
    unfolding i_def by (auto intro: LeastI Least_le)
  obtain z b w where z: "B z = Some (i, b)" "w \<in> span_of z i" "w \<in> span_of x k" using i(1) by (auto simp: small_def)
  note dz = tilingD [OF t z(1)]
  have sz: "span_of z i \<subseteq> span_of x k" by (rule span_nested [OF _ dz(2) x z(2,3)]) (use i(2) jk in simp)
  note tw = twin_aligned [OF dz(2)]
  define lo where "lo = min z (twin i z)"
  have lo: "z \<in> span_of lo (Suc i)" "twin i z \<in> span_of lo (Suc i)"
  proof -
    have "max z (twin i z) = lo + 2 ^ i" using tw(5) by (simp add: lo_def)
    then have "lo \<le> z" "z \<le> lo + 2 ^ i" "lo \<le> twin i z" "twin i z \<le> lo + 2 ^ i" "(0 :: nat) < 2 ^ i"
      by (auto simp: lo_def)
    then show "z \<in> span_of lo (Suc i)" "twin i z \<in> span_of lo (Suc i)"
      unfolding span_of_def atLeastLessThan_iff power_Suc by linarith+
  qed
  have dlo: "2 ^ Suc i dvd lo" using tw(4) by (simp add: lo_def)
  have "span_of lo (Suc i) \<subseteq> span_of x k"
    by (rule span_nested [OF _ dlo x lo(1)]) (use i(2) jk sz span_start in auto)
  then have tx: "twin i z \<in> span_of x k" using lo(2) by blast
  then have "twin i z < n" using le by (simp add: span_of_def)
  then obtain u l c where u: "B u = Some (l, c)" "twin i z \<in> span_of u l" using tiling_cover [OF t] by blast
  have "small l" using u tx by (auto simp: small_def)
  then have il: "i \<le> l" by (rule least)
  show False
  proof (cases "i = l")
    case True
    then have "twin i z = u" using tiling_start [OF t u tw(1)] by simp
    moreover have "\<not> c" "\<not> b" using free [OF u(1) u(2) tx] free [OF z] by auto
    ultimately show False using mg z(1) u(1) True by (auto simp: merged_def)
  next
    case False
    have "span_of lo (Suc i) \<subseteq> span_of u l"
      by (rule span_nested [OF _ dlo tilingD(2) [OF t u(1)] lo(2) u(2)]) (use False il in simp)
    then have "z = u" using tiling_disj [OF t z(1) u(1) span_start] lo(1) by blast
    then show False using z(1) u(1) False by simp
  qed
qed

lemma merged_sub:
  assumes A: "tiling n A" "merged A" and B: "tiling n B" "merged B" and tk: "taken A = taken B" and x: "A x = Some (k, a)"
  shows "B x = Some (k, a)"
proof (cases a)
  case True
  then have "(x, k) \<in> taken B" using x tk by (auto simp: taken_def)
  then show ?thesis using True by (simp add: taken_def)
next
  case False
  note dx = tilingD [OF A(1) x]
  obtain y j b where y: "B y = Some (j, b)" "x \<in> span_of y j" using tiling_cover [OF B(1) dx(4)] by blast
  note dy = tilingD [OF B(1) y(1)]
  have same: "A z = Some (l, True) \<longleftrightarrow> B z = Some (l, True)" for z l
    using tk by (auto simp: taken_def set_eq_iff)
  have b: "\<not> b"
    using tiling_disj [OF A(1) x _ span_start y(2)] y(1) same [of y j] x False by auto
  have "k \<le> j"
  proof (rule merged_whole [OF B dx(2) _ dx(3) y(1) y(2) span_start])
    fix z l c w assume z: "B z = Some (l, c)" "w \<in> span_of z l" "w \<in> span_of x k"
    show "\<not> c"
    proof
      assume c: "c"
      then have "A z = Some (l, True)" using same z(1) by simp
      then show False using tiling_disj [OF A(1) x _ z(3,2)] x False by auto
    qed
  qed
  moreover have "j \<le> k"
  proof (rule merged_whole [OF A dy(2) _ dy(3) x span_start y(2)])
    fix z l c w assume z: "A z = Some (l, c)" "w \<in> span_of z l" "w \<in> span_of y j"
    show "\<not> c"
    proof
      assume c: "c"
      then have "B z = Some (l, True)" using same z(1) by simp
      then show False using tiling_disj [OF B(1) y(1) _ z(3,2)] y(1) b by auto
    qed
  qed
  ultimately have "j = k" by simp
  then have "x = y" using tiling_start [OF B(1) y(1,2) dx(2)] by simp
  then show ?thesis using y(1) b False \<open>j = k\<close> by simp
qed

lemma merged_unique:
  assumes "tiling n A" "merged A" "tiling n B" "merged B" "taken A = taken B"
  shows "A = B"
proof
  fix x
  show "A x = B x"
  proof (cases "A x")
    case None
    then show ?thesis using merged_sub [OF assms(3,4,1,2) assms(5) [symmetric], of x] by (cases "B x") auto
  next
    case (Some p)
    then show ?thesis using merged_sub [OF assms, of x] by (cases p) simp
  qed
qed

section \<open>The first heap\<close>

lemma shrink_spec:
  assumes j: "2 ^ j \<le> n - q" "n - q < 2 ^ Suc j" and n: "unat area = n" "unat p = q" "n < 2 ^ 30"
  shows "j \<le> k \<Longrightarrow> k < 31 \<Longrightarrow> shrink area p (2 ^ k) = Some (2 ^ j)"
proof (induction "k - j" arbitrary: k)
  case 0
  have "unat (p + 2 ^ k) = q + 2 ^ k"
  proof -
    have "(2 :: nat) ^ k < 2 ^ 31" using 0 by (intro power_strict_increasing) auto
    then show ?thesis using n unat_pow2 [of k] 0 j by (simp add: unat_word_ariths)
  qed
  moreover have "q + 2 ^ j \<le> n" using j(1) zero_less_power [of "2 :: nat" j] by linarith
  ultimately show ?case using 0 n by (subst shrink.simps) (simp add: word_less_nat_alt)
next
  case (Suc c)
  have k: "j < k" "0 < k" using Suc(2) by auto
  have "unat (p + 2 ^ k) = q + 2 ^ k"
  proof -
    have "(2 :: nat) ^ k < 2 ^ 31" using Suc by (intro power_strict_increasing) auto
    moreover have "q < n" using j(1) by (metis diff_is_0_eq' le_zero_eq not_less power_not_zero zero_neq_numeral nat_le_linear)
    ultimately show ?thesis using n unat_pow2 [of k] Suc by (simp add: unat_word_ariths)
  qed
  moreover have "n < q + 2 ^ k"
  proof -
    have "(2 :: nat) ^ Suc j \<le> 2 ^ k" using k by (intro power_increasing) auto
    then show ?thesis using j(2) by linarith
  qed
  ultimately have "shrink area p (2 ^ k) = shrink area p (2 ^ (k - 1))"
    using n half_pow2 [OF k(2)] Suc by (subst shrink.simps) (simp add: word_less_nat_alt)
  also have "\<dots> = Some (2 ^ j)" by (rule Suc(1)) (use Suc in auto)
  finally show ?case .
qed

text \<open>The chunks that \<open>malloc_init\<close> makes from \<open>p\<close> on: free, of falling sizes, each aligned to twice its size.\<close>

definition fresh :: "nat \<Rightarrow> nat \<Rightarrow> nat \<Rightarrow> u32 list \<Rightarrow> chunks \<Rightarrow> bool" where
  "fresh n p k m A \<longleftrightarrow>
     (\<forall>x i a. A x = Some (i, a) \<longrightarrow> \<not> a \<and> 0 < i \<and> i \<le> k \<and> 2 ^ Suc i dvd x \<and> p \<le> x \<and> x + 2 ^ i \<le> n \<and> m ! x = 2 ^ i)
     \<and> (\<forall>w. p \<le> w \<longrightarrow> w < n \<longrightarrow> (\<exists>x i a. A x = Some (i, a) \<and> w \<in> span_of x i))
     \<and> (\<forall>x i a y j b w. A x = Some (i, a) \<longrightarrow> A y = Some (j, b) \<longrightarrow> w \<in> span_of x i \<longrightarrow> w \<in> span_of y j \<longrightarrow> x = y)"

lemma fresh_last: "p + 2 ^ k = n \<Longrightarrow> 0 < k \<Longrightarrow> 2 ^ Suc k dvd p \<Longrightarrow> m ! p = 2 ^ k \<Longrightarrow> fresh n p k m [p \<mapsto> (k, False)]"
  by (auto simp: fresh_def span_of_def split: if_splits)

lemma fresh_step:
  assumes A: "fresh n (p + 2 ^ k) j m A" and k: "0 < k" "j < k" "2 ^ Suc k dvd p" "m ! p = 2 ^ k" "p + 2 ^ k \<le> n"
  shows "fresh n p k m (A(p \<mapsto> (k, False)))"
proof -
  have above: "p + 2 ^ k \<le> x" if "A x = Some (i, a)" for x i a using A that by (auto simp: fresh_def)
  then have no: "A p = None"
    by (metis add_le_same_cancel1 le_zero_eq not_None_eq old.prod.exhaust power_not_zero zero_neq_numeral)
  have far: "w \<notin> span_of p k" if "A x = Some (i, a)" "w \<in> span_of x i" for x i a w
    using above [OF that(1)] that(2) by (auto simp: span_of_def)
  show ?thesis
    unfolding fresh_def
  proof (intro conjI allI impI)
    fix x i a assume x: "(A(p \<mapsto> (k, False))) x = Some (i, a)"
    then show "\<not> a" "0 < i" "2 ^ Suc i dvd x" "x + 2 ^ i \<le> n" "m ! x = 2 ^ i"
      using A k by (auto simp: fresh_def split: if_splits)
    show "i \<le> k" "p \<le> x" using x A k(2) by (auto simp: fresh_def split: if_splits)
        (meson le_trans less_imp_le_nat, meson add_leD1)
  next
    fix w assume w: "p \<le> w" "w < n"
    show "\<exists>x i a. (A(p \<mapsto> (k, False))) x = Some (i, a) \<and> w \<in> span_of x i"
    proof (cases "w < p + 2 ^ k")
      case True
      then show ?thesis using w by (intro exI [of _ p] exI [of _ k] exI [of _ False]) (auto simp: span_of_def)
    next
      case False
      then obtain x i a where "A x = Some (i, a)" "w \<in> span_of x i" using A w unfolding fresh_def by (meson not_less)
      moreover have "x \<noteq> p" using calculation(1) no by auto
      ultimately show ?thesis by auto
    qed
  next
    fix x i a y j b w
    assume "(A(p \<mapsto> (k, False))) x = Some (i, a)" "(A(p \<mapsto> (k, False))) y = Some (j, b)" "w \<in> span_of x i" "w \<in> span_of y j"
    then show "x = y" using A far by (auto simp: fresh_def split: if_splits)
  qed
qed

lemma top_power: "0 < (r :: nat) \<Longrightarrow> \<exists>j. 2 ^ j \<le> r \<and> r < 2 ^ Suc j"
  using bit_len_bounds [of r] by (intro exI [of _ "bit_len r - 1"]) simp

lemma mark_free_spec:
  assumes n: "unat area = n" "n < 2 ^ 30" "even n"
  shows "2 ^ Suc k dvd unat p \<Longrightarrow> 2 ^ k \<le> n - unat p \<Longrightarrow> n - unat p < 2 ^ Suc k \<Longrightarrow> 0 < k \<Longrightarrow> n \<le> length m \<Longrightarrow>
    \<exists>m' A. mark_free area p (2 ^ k) m = Some m' \<and> length m' = length m
      \<and> (\<forall>w<unat p. m' ! w = m ! w) \<and> fresh n (unat p) k m' A"
proof (induction k arbitrary: p m rule: less_induct)
  case (less k)
  have p0: "unat p + 2 ^ k \<le> n" using less.prems(2) zero_less_power [of "2 :: nat" k] by linarith
  then have "(2 :: nat) ^ k < 2 ^ 30" using n by linarith
  then have k30: "k < 30" by (rule power_less_imp_less_exp [rotated]) simp
  have up: "unat (p + 2 ^ k) = unat p + 2 ^ k"
    using p0 n unat_pow2 [of k] k30 by (simp add: unat_word_ariths)
  have pm: "unat p < length m" using p0 less.prems(5) zero_less_power [of "2 :: nat" k] by linarith
  show ?case
  proof (cases "unat p + 2 ^ k = n")
    case True
    then have "mark_free area p (2 ^ k) m = Some (m[unat p := 2 ^ k])"
      using pm up n by (subst mark_free.simps) (simp add: word_le_nat_alt)
    then show ?thesis using fresh_last [OF True less.prems(4,1), of "m[unat p := 2 ^ k]"] pm by auto
  next
    case False
    let ?q = "p + 2 ^ k" and ?m = "m[unat p := 2 ^ k]"
    have lt: "unat ?q < n" using False p0 up by simp
    obtain j where j: "2 ^ j \<le> n - unat ?q" "n - unat ?q < 2 ^ Suc j" using top_power [of "n - unat ?q"] lt by auto
    have "n - unat ?q < 2 ^ k" using less.prems(3) up by simp
    then have "(2 :: nat) ^ j < 2 ^ k" using j(1) by linarith
    then have jk: "j < k" by (rule power_less_imp_less_exp [rotated]) simp
    have even_q: "even (unat ?q)" using less.prems(1,4) up by (simp add: dvd_mult_left)
    have "0 < j"
    proof (rule ccontr)
      assume "\<not> 0 < j"
      then have "n - unat ?q = 1" using j by simp
      then have "n = unat ?q + 1" using lt by linarith
      then show False using n(3) even_q by simp
    qed
    have "shrink area ?q (2 ^ k) = Some (2 ^ j)"
      by (rule shrink_spec [OF j n(1) refl n(2)]) (use jk k30 in simp_all)
    then have step: "mark_free area p (2 ^ k) m = mark_free area ?q (2 ^ j) ?m"
      using pm lt n by (subst mark_free.simps) (simp add: word_le_nat_alt)
    have "2 ^ Suc j dvd (2 :: nat) ^ k" by (rule le_imp_power_dvd) (use jk in simp)
    moreover have "2 ^ Suc j dvd unat p" by (rule dvd_trans [OF le_imp_power_dvd less.prems(1)]) (use jk in simp)
    ultimately have dq: "2 ^ Suc j dvd unat ?q" unfolding up by (rule dvd_add [rotated])
    from less.IH [OF jk dq j \<open>0 < j\<close>, of ?m] less.prems(5) obtain m' A where
      A: "mark_free area ?q (2 ^ j) ?m = Some m'" "length m' = length m"
        "\<And>w. w < unat ?q \<Longrightarrow> m' ! w = ?m ! w" "fresh n (unat ?q) j m' A" by auto
    have "m' ! unat p = 2 ^ k" using A(3) [of "unat p"] pm up by simp
    then have "fresh n (unat p) k m' (A(unat p \<mapsto> (k, False)))"
      by (intro fresh_step [OF A(4) [unfolded up] less.prems(4) jk less.prems(1) _ p0])
    moreover have "m' ! w = m ! w" if "w < unat p" for w using A(3) [of w] that up by simp
    ultimately show ?thesis unfolding step using A(1,2) by blast
  qed
qed

lemma malloc_init_spec:
  assumes "8 \<le> unat sz" and len: "unat sz div 4 \<le> length start"
  shows "\<exists>h A. malloc_init start sz = Some h \<and> heap_ok h A \<and> taken A = {}"
proof -
  let ?s = "drop_bit 2 sz AND NOT 1"
  define n where "n = unat ?s"
  have d: "unat (drop_bit 2 sz) = unat sz div 4" by (simp add: drop_bit_eq_div unat_div)
  have n_eq: "n = unat sz div 4 - unat sz div 4 mod 2"
  proof -
    have "drop_bit 2 sz = (drop_bit 2 sz AND NOT 1) + (drop_bit 2 sz AND 1)"
      by (subst disjunctive_add) (auto simp: bit_and_iff bit_or_iff bit_not_iff bit_1_iff intro!: bit_word_eqI)
    then have "?s = drop_bit 2 sz - (drop_bit 2 sz AND 1)" by (metis add_diff_cancel)
    moreover have "unat (drop_bit 2 sz AND 1) = unat sz div 4 mod 2"
      using d by (simp add: and_one_eq unat_mod)
    ultimately show ?thesis unfolding n_def
      by (metis d mod_less_eq_dividend unat_sub word_le_nat_alt)
  qed
  have q: "unat sz div 4 < 2 ^ 30" "2 \<le> unat sz div 4"
    using div_le_mono [OF assms(1), of 4] by (simp_all add: div_less_iff_less_mult)
  have "n = 2 * (unat sz div 4 div 2)" unfolding n_eq by (simp add: minus_mod_eq_mult_div)
  moreover have "n \<le> unat sz div 4" unfolding n_eq by simp
  moreover have "1 \<le> unat sz div 4 div 2" using div_le_mono [OF q(2), of 2] by simp
  ultimately have n: "even n" "2 \<le> n" "n < 2 ^ 30" "n \<le> length start" using q(1) len by (simp, linarith+)
  obtain k where k: "2 ^ k \<le> n" "n < 2 ^ Suc k" using top_power [of n] n(2) by auto
  have "(2 :: nat) ^ k < 2 ^ 30" using k n by linarith
  then have k30: "k < 30" by (rule power_less_imp_less_exp [rotated]) simp
  have "0 < k" using k n(2) by (cases k) auto
  have "round_down ?s = 2 ^ k" by (rule round_down_pow2) (use k k30 in \<open>simp_all add: n_def\<close>)
  moreover obtain m A where A: "mark_free ?s 0 (2 ^ k) start = Some m" "length m = length start" "fresh n 0 k m A"
    using mark_free_spec [of ?s n k 0 start] n k \<open>0 < k\<close> by (auto simp: n_def)
  ultimately have init: "malloc_init start sz = Some \<lparr>mem_area = m, mem_area_size = ?s\<rparr>"
    by (simp add: malloc_init_def Let_def)
  let ?h = "\<lparr>mem_area = m, mem_area_size = ?s\<rparr>"
  have w: "words ?h = n" by (simp add: words_def n_def)
  have dv: "2 ^ i dvd x" if "2 ^ Suc i dvd x" for i x :: nat using that by (simp add: dvd_mult_right)
  have "tiling n A"
    unfolding tiling_def
  proof (intro conjI)
    have "0 < i \<and> 2 ^ Suc i dvd x \<and> x + 2 ^ i \<le> n" if "A x = Some (i, a)" for x i a
      using A(3) that unfolding fresh_def by simp
    then show "\<forall>x k a. A x = Some (k, a) \<longrightarrow> 0 < k \<and> 2 ^ k dvd x \<and> x + 2 ^ k \<le> n"
      using dv by simp
    show "\<forall>w<n. \<exists>x k a. A x = Some (k, a) \<and> w \<in> span_of x k"
      using A(3) unfolding fresh_def by simp
    show "\<forall>x k a y j b w. A x = Some (k, a) \<longrightarrow> A y = Some (j, b) \<longrightarrow> w \<in> span_of x k \<longrightarrow> w \<in> span_of y j \<longrightarrow> x = y"
      using A(3) unfolding fresh_def by blast
  qed
  moreover have "m ! x = header i a" if "A x = Some (i, a)" for x i a
    using A(3) that unfolding fresh_def header_def by auto
  ultimately have "heap_rep ?h A"
    unfolding heap_rep_def w using n A(2) by simp
  moreover have "merged A"
    unfolding merged_def
  proof (intro allI impI notI)
    fix y i assume y: "A y = Some (i, False)" "A (twin i y) = Some (i, False)"
    then have y': "2 ^ Suc i dvd y" and "2 ^ Suc i dvd twin i y" using A(3) by (auto simp: fresh_def)
    then have "2 ^ Suc i dvd y + 2 ^ i" using twin_up(2) [of i y] by simp
    then have "(2 :: nat) ^ Suc i dvd 2 ^ i" using y' by (simp only: dvd_add_right_iff)
    then show False by (auto dest: dvd_imp_le)
  qed
  moreover have "taken A = {}" using A(3) by (auto simp: fresh_def taken_def)
  ultimately show ?thesis using init by (auto simp: heap_ok_def)
qed

section \<open>Runs of the allocator\<close>

text \<open>A block is a pointer and the size that was asked for. Its user may write any word of it.\<close>

definition payload :: "u32 \<Rightarrow> nat" where
  "payload n = (unat n + 3) div 4"

definition block_words :: "u32 \<times> u32 \<Rightarrow> nat set" where
  "block_words b = {unat (fst b)..<unat (fst b) + payload (snd b)}"

inductive heap_run :: "u32 list \<Rightarrow> u32 \<Rightarrow> heap \<Rightarrow> (u32 \<times> u32) set \<Rightarrow> bool" for start sz where
  run_init: "8 \<le> unat sz \<Longrightarrow> unat sz div 4 \<le> length start \<Longrightarrow> malloc_init start sz = Some h \<Longrightarrow> heap_run start sz h {}"
| run_malloc: "heap_run start sz h L \<Longrightarrow> unat n < 2 ^ 32 - 7 \<Longrightarrow> malloc n h = Some (r, h') \<Longrightarrow>
    heap_run start sz h' (case r of None \<Rightarrow> L | Some p \<Rightarrow> insert (p, n) L)"
| run_free: "heap_run start sz h L \<Longrightarrow> (p, n) \<in> L \<Longrightarrow> free (Some p) h = Some h' \<Longrightarrow> heap_run start sz h' (L - {(p, n)})"
| run_write: "heap_run start sz h L \<Longrightarrow> b \<in> L \<Longrightarrow> i \<in> block_words b \<Longrightarrow>
    heap_run start sz (h\<lparr>mem_area := (mem_area h)[i := v]\<rparr>) L"

definition chunk_of :: "u32 \<times> u32 \<Rightarrow> nat \<times> nat" where
  "chunk_of b = (unat (fst b) - 1, chunk_order (snd b))"

definition live_ok :: "chunks \<Rightarrow> (u32 \<times> u32) set \<Rightarrow> bool" where
  "live_ok A L \<longleftrightarrow> taken A = chunk_of ` L \<and> inj_on chunk_of L \<and> (\<forall>b\<in>L. 0 < unat (fst b) \<and> unat (snd b) < 2 ^ 32 - 7)"

lemma block_in_chunk:
  assumes "0 < unat (fst b)" "unat (snd b) < 2 ^ 32 - 7" "i \<in> block_words b"
  shows "i \<in> span_of (fst (chunk_of b)) (snd (chunk_of b))" "i \<noteq> fst (chunk_of b)"
proof -
  have "unat (snd b) + 4 \<le> 4 * 2 ^ chunk_order (snd b)" by (rule alloc_words_order(4) [OF assms(2)])
  then have "payload (snd b) + 1 \<le> 2 ^ chunk_order (snd b)" unfolding payload_def by linarith
  then show "i \<in> span_of (fst (chunk_of b)) (snd (chunk_of b))" "i \<noteq> fst (chunk_of b)"
    using assms(1,3) by (auto simp: block_words_def chunk_of_def span_of_def)
qed

lemma live_chunk:
  assumes "live_ok A L" "b \<in> L"
  shows "A (fst (chunk_of b)) = Some (snd (chunk_of b), True)"
proof -
  have "chunk_of b \<in> taken A" using assms by (auto simp: live_ok_def)
  then show ?thesis by (cases "chunk_of b") (simp add: taken_def)
qed

lemma heap_rep_write:
  assumes h: "heap_rep h A" and b: "A x = Some (k, a)" and i: "i \<in> span_of x k" "i \<noteq> x"
  shows "heap_rep (h\<lparr>mem_area := (mem_area h)[i := v]\<rparr>) A"
proof (rule heap_rep_update [OF h])
  show t: "tiling (words h) A" using h by (simp add: heap_rep_def)
  show "length ((mem_area h)[i := v]) = length (mem_area h)" by simp
  fix y j c assume y: "A y = Some (j, c)"
  then have "y \<noteq> i" using tiling_disj [OF t y b span_start] i by blast
  then show "(mem_area h)[i := v] ! y = header j c" using heap_repD(5) [OF h y] by simp
qed

lemma heap_run_ok:
  "heap_run start sz h L \<Longrightarrow> \<exists>A h0 A0. heap_ok h A \<and> live_ok A L
     \<and> malloc_init start sz = Some h0 \<and> heap_ok h0 A0 \<and> taken A0 = {} \<and> words h = words h0"
proof (induction rule: heap_run.induct)
  case (run_init h)
  then obtain A where "heap_ok h A" "taken A = {}" using malloc_init_spec [of sz start] by auto
  then show ?case using run_init by (auto simp: live_ok_def)
next
  case (run_malloc h L n r h')
  then obtain A h0 A0 where A: "heap_ok h A" "live_ok A L" and h0: "malloc_init start sz = Some h0" "heap_ok h0 A0"
    "taken A0 = {}" "words h = words h0" by blast
  show ?case
  proof (cases "n = 0")
    case True
    then show ?thesis using run_malloc(3) A h0 by (auto simp: malloc_def)
  next
    case False
    from malloc_spec [OF A(1) False run_malloc(2)] run_malloc(3) have r: "case r of
        None \<Rightarrow> h' = h \<and> (\<forall>x k. A x = Some (k, False) \<longrightarrow> k < chunk_order n)
      | Some p \<Rightarrow> \<exists>B x. p = of_nat (x + 1) \<and> heap_ok h' B \<and> words h' = words h
          \<and> taken B = insert (x, chunk_order n) (taken A) \<and> (x, chunk_order n) \<notin> taken A \<and> x < words h
          \<and> same_words (taken A) (mem_area h) (mem_area h')" by auto
    show ?thesis
    proof (cases r)
      case None
      then show ?thesis using r A h0 by auto
    next
      case (Some p)
      then obtain B x where B: "p = of_nat (x + 1)" "heap_ok h' B" "words h' = words h"
        "taken B = insert (x, chunk_order n) (taken A)" "(x, chunk_order n) \<notin> taken A" "x < words h" using r by auto
      have "x + 1 < 2 ^ 32" using B(6) A(1) by (simp add: heap_ok_def heap_rep_def)
      then have p: "unat p = x + 1" unfolding B(1) unat_of_nat by simp
      then have c: "chunk_of (p, n) = (x, chunk_order n)" by (simp add: chunk_of_def)
      then have "live_ok B (insert (p, n) L)"
        using A(2) B(4,5) p run_malloc(2) by (auto simp: live_ok_def)
      then show ?thesis using Some B(2,3) h0 by auto
    qed
  qed
next
  case (run_free h L p n h')
  then obtain A h0 A0 where A: "heap_ok h A" "live_ok A L" and h0: "malloc_init start sz = Some h0" "heap_ok h0 A0"
    "taken A0 = {}" "words h = words h0" by blast
  have p: "of_nat (fst (chunk_of (p, n)) + 1) = p"
    using A(2) run_free(2) by (auto simp: live_ok_def chunk_of_def)
  from free_spec [OF A(1) live_chunk [OF A(2) run_free(2)]] run_free(3)
  obtain B where B: "heap_ok h' B" "words h' = words h" "taken B = taken A - {chunk_of (p, n)}"
    unfolding p by auto
  have "chunk_of ` (L - {(p, n)}) = chunk_of ` L - {chunk_of (p, n)}"
    using A(2) run_free(2) inj_on_image_set_diff [of chunk_of L L "{(p, n)}"] by (auto simp: live_ok_def)
  then have "live_ok B (L - {(p, n)})" using A(2) B(3) by (auto simp: live_ok_def inj_on_diff)
  then show ?case using B(1,2) h0 by auto
next
  case (run_write h L b i v)
  then obtain A h0 A0 where A: "heap_ok h A" "live_ok A L" and h0: "malloc_init start sz = Some h0" "heap_ok h0 A0"
    "taken A0 = {}" "words h = words h0" by blast
  have b: "0 < unat (fst b)" "unat (snd b) < 2 ^ 32 - 7" using A(2) run_write(2) by (auto simp: live_ok_def)
  note i = block_in_chunk [OF b run_write(3)]
  have "heap_ok (h\<lparr>mem_area := (mem_area h)[i := v]\<rparr>) A"
    using A(1) heap_rep_write [of h A, OF _ live_chunk [OF A(2) run_write(2)] i(1) i(2)] by (simp add: heap_ok_def)
  then show ?case using A(2) h0 by (auto simp: words_def)
qed

text \<open>C21: in every run of \<open>malloc\<close> and \<open>free\<close>, in which the users write their blocks as they like, the live
  blocks lie in the memory and do not overlap, and neither call ever leaves the memory or loops.\<close>

theorem heap_run_safe:
  assumes "heap_run start sz h L" and "unat n < 2 ^ 32 - 7"
  shows "malloc n h \<noteq> None
    \<and> (\<forall>b\<in>L. free (Some (fst b)) h \<noteq> None \<and> block_words b \<subseteq> {..<words h}
         \<and> (\<forall>c\<in>L - {b}. block_words b \<inter> block_words c = {}))"
proof -
  obtain A where A: "heap_ok h A" "live_ok A L" using heap_run_ok [OF assms(1)] by blast
  have t: "tiling (words h) A" using A(1) by (simp add: heap_ok_def heap_rep_def)
  have pos: "0 < unat (fst b)" "unat (snd b) < 2 ^ 32 - 7" if "b \<in> L" for b
    using A(2) that by (auto simp: live_ok_def)
  have inside: "i \<in> span_of (fst (chunk_of b)) (snd (chunk_of b))" if "b \<in> L" "i \<in> block_words b" for b i
    using block_in_chunk(1) [OF pos [OF that(1)] that(2)] .
  note chunk = live_chunk [OF A(2)]
  have "malloc n h \<noteq> None"
    using malloc_spec [OF A(1) _ assms(2)] by (cases "n = 0") (auto simp: malloc_def)
  moreover have "free (Some (fst b)) h \<noteq> None" if "b \<in> L" for b
  proof -
    have "of_nat (fst (chunk_of b) + 1) = fst b" using pos(1) [OF that] by (auto simp: chunk_of_def)
    then show ?thesis using free_spec [OF A(1) chunk [OF that]] by auto
  qed
  moreover have "block_words b \<subseteq> {..<words h}" if "b \<in> L" for b
    using inside [OF that] tilingD(3) [OF t chunk [OF that]] by (fastforce simp: span_of_def)
  moreover have "block_words b \<inter> block_words c = {}" if "b \<in> L" "c \<in> L - {b}" for b c
  proof (rule ccontr)
    assume "block_words b \<inter> block_words c \<noteq> {}"
    then obtain i where "i \<in> block_words b" "i \<in> block_words c" by blast
    then have "fst (chunk_of b) = fst (chunk_of c)"
      using tiling_disj [OF t chunk chunk, of b c i] inside that by blast
    then have "chunk_of b = chunk_of c" using chunk [of b] chunk [of c] that by (simp add: prod_eq_iff)
    then show False using A(2) that by (auto simp: live_ok_def inj_on_def)
  qed
  ultimately show ?thesis by blast
qed

text \<open>C22: when every block is free again the heap has the chunks that \<open>malloc_init\<close> made: nothing is lost
  and nothing stays in pieces.\<close>

theorem heap_run_no_leak:
  assumes "heap_run start sz h {}"
  shows "\<exists>h0 A. malloc_init start sz = Some h0 \<and> heap_ok h0 A \<and> heap_ok h A"
proof -
  obtain A h0 A0 where A: "heap_ok h A" "live_ok A {}" and h0: "malloc_init start sz = Some h0" "heap_ok h0 A0"
    "taken A0 = {}" "words h = words h0" using heap_run_ok [OF assms] by blast
  have "A = A0"
    by (rule merged_unique [of "words h"]) (use A h0 in \<open>auto simp: heap_ok_def heap_rep_def live_ok_def\<close>)
  then show ?thesis using A h0 by blast
qed

text \<open>\<open>malloc\<close> fails only when every free chunk is smaller than the request and its header, rounded up;
  otherwise it allocates one chunk of the least sufficient order and keeps every word of the others.\<close>

theorem malloc_serves:
  assumes "heap_ok h A" and "n \<noteq> 0" "unat n < 2 ^ 32 - 7"
  shows "\<exists>r h'. malloc n h = Some (r, h') \<and> (case r of
      None \<Rightarrow> h' = h \<and> (\<forall>x k. A x = Some (k, False) \<longrightarrow> k < chunk_order n)
    | Some p \<Rightarrow> \<exists>B x. p = of_nat (x + 1) \<and> heap_ok h' B \<and> words h' = words h
        \<and> taken B = insert (x, chunk_order n) (taken A) \<and> (x, chunk_order n) \<notin> taken A \<and> x < words h
        \<and> same_words (taken A) (mem_area h) (mem_area h'))"
  by (rule malloc_spec [OF assms])

section \<open>Sixteen words\<close>

lemma sixteen_init:
  "malloc_init (replicate 16 0) 64 = Some \<lparr>mem_area = 16 # replicate 15 0, mem_area_size = 16\<rparr>"
proof -
  have "round_down 16 = 16" using round_down_pow2 [of 4 16] by simp
  moreover have "mark_free 16 0 16 (replicate 16 0) = Some (16 # replicate 15 0)"
    by (subst mark_free.simps) (simp add: numeral_eq_Suc)
  ultimately show ?thesis by (simp add: malloc_init_def)
qed

lemma sixteen_malloc:
  "malloc 10 \<lparr>mem_area = 16 # replicate 15 0, mem_area_size = 16\<rparr>
   = Some (Some 1, \<lparr>mem_area = (16 # replicate 15 0)[8 := 8, 0 := 9], mem_area_size = 16\<rparr>)"
proof -
  have "round_down 4 = 4" using round_down_pow2 [of 2 4] by simp
  then have a: "alloc_words 10 = 8" by (simp add: alloc_words_def)
  have f: "find_chunk \<lparr>mem_area = 16 # replicate 15 0, mem_area_size = 16\<rparr> 8 0 = Some (Some 0)"
    by (subst find_chunk.simps) simp
  have "split_chunk 8 0 ((16 # replicate 15 0)[0 := 8, 8 := 8]) = Some ((16 # replicate 15 0)[0 := 8, 8 := 8])"
    by (subst split_chunk.simps) simp
  then have s: "split_chunk 8 0 (16 # replicate 15 0) = Some ((16 # replicate 15 0)[0 := 8, 8 := 8])"
    by (subst split_chunk.simps) (simp add: Let_def)
  show ?thesis by (simp add: malloc_def a f s list_update_swap)
qed

theorem heap_run_safe_witness:
  "free (Some 1) \<lparr>mem_area = (16 # replicate 15 0)[8 := 8, 0 := 9], mem_area_size = 16\<rparr> \<noteq> None"
proof -
  have "heap_run (replicate 16 0) 64 \<lparr>mem_area = 16 # replicate 15 0, mem_area_size = 16\<rparr> {}"
    by (rule run_init [OF _ _ sixteen_init]) simp_all
  from run_malloc [OF this _ sixteen_malloc]
  have "heap_run (replicate 16 0) 64 \<lparr>mem_area = (16 # replicate 15 0)[8 := 8, 0 := 9], mem_area_size = 16\<rparr> {(1, 10)}"
    by simp
  from heap_run_safe [OF this, of 10] show ?thesis by simp
qed

lemma sixteen_ok: "\<exists>A. heap_ok \<lparr>mem_area = 16 # replicate 15 0, mem_area_size = 16\<rparr> A"
  using malloc_init_spec [of 64 "replicate 16 0"] sixteen_init by auto

theorem heap_run_no_leak_witness:
  "\<exists>h h0 A. free (Some 1) \<lparr>mem_area = (16 # replicate 15 0)[8 := 8, 0 := 9], mem_area_size = 16\<rparr> = Some h
     \<and> malloc_init (replicate 16 0) 64 = Some h0 \<and> heap_ok h0 A \<and> heap_ok h A"
proof -
  let ?h = "\<lparr>mem_area = (16 # replicate 15 0)[8 := 8, 0 := 9], mem_area_size = 16\<rparr>"
  have "heap_run (replicate 16 0) 64 \<lparr>mem_area = 16 # replicate 15 0, mem_area_size = 16\<rparr> {}"
    by (rule run_init [OF _ _ sixteen_init]) simp_all
  from run_malloc [OF this _ sixteen_malloc] have r: "heap_run (replicate 16 0) 64 ?h {(1, 10)}" by simp
  obtain A where A: "heap_ok ?h A" "live_ok A {(1, 10)}" using heap_run_ok [OF r] by blast
  have "\<exists>h. free (Some 1) ?h = Some h"
    using free_spec [OF A(1) live_chunk [OF A(2), of "(1, 10)"]] by (auto simp: chunk_of_def)
  then obtain h where h: "free (Some 1) ?h = Some h" ..
  from run_free [OF r _ h] have "heap_run (replicate 16 0) 64 h {}" by simp
  from heap_run_no_leak [OF this] show ?thesis using h by blast
qed

theorem malloc_serves_witness:
  "\<exists>A B. heap_ok \<lparr>mem_area = 16 # replicate 15 0, mem_area_size = 16\<rparr> A
     \<and> heap_ok \<lparr>mem_area = (16 # replicate 15 0)[8 := 8, 0 := 9], mem_area_size = 16\<rparr> B
     \<and> taken B = insert (0, 3) (taken A)"
proof -
  let ?h = "\<lparr>mem_area = 16 # replicate 15 0, mem_area_size = 16\<rparr> :: heap"
  obtain A where A: "heap_ok ?h A" using sixteen_ok by blast
  from malloc_serves [OF A, of 10] obtain B x where B: "1 = (of_nat (x + 1) :: u32)"
    "heap_ok \<lparr>mem_area = (16 # replicate 15 0)[8 := 8, 0 := 9], mem_area_size = 16\<rparr> B"
    "taken B = insert (x, chunk_order 10) (taken A)" "x < words ?h" by (auto simp: sixteen_malloc)
  have "chunk_order 10 = 3" by (simp add: chunk_order_def bit_len.simps)
  moreover have "unat (1 :: u32) = x + 1" unfolding B(1) unat_of_nat using B(4) by (simp add: words_def)
  then have "x = 0" by simp
  ultimately show ?thesis using A B(2,3) by auto
qed

end
