(* ===== verification/Mass_Storage.thy ===== *)
theory Mass_Storage
  imports Logic_Ctl
begin

text \<open>
  The mass storage function of the device program, \<open>arm/masstorage.c\<close>: SCSI commands in USB bulk-only
  transport, on a window of the logical disk that the host mounts first.

  Memory is the flat address space of the board (\<open>ms_mem\<close>), so a copy past the end of a buffer changes
  what lies behind it, as on the board. The state holds the command under way, the logical unit, what the
  code has sent to the host and the state of the disk below; the disk's three functions are the record
  \<open>disk\<close>, which \<open>Boot_Disk\<close> instantiates with the driver's. \<^term>\<open>None\<close> is a read outside the command
  block, an access through a null pointer, or undefined behaviour of the disk. Debug output is left out.
\<close>

section \<open>Memory\<close>

type_synonym memory = "u32 \<Rightarrow> u8"

definition load_bytes :: "u32 \<Rightarrow> nat \<Rightarrow> memory \<Rightarrow> u8 list" where
  "load_bytes a n m = map (\<lambda>i. m (a + of_nat i)) [0..<n]"

definition store_bytes :: "u32 \<Rightarrow> u8 list \<Rightarrow> memory \<Rightarrow> memory" where
  "store_bytes a bs m = (\<lambda>x. if unat (x - a) < length bs then bs ! unat (x - a) else m x)"

text \<open>The memory as the disk's functions see it, by the offset from the pointer they are given.\<close>

definition mem_from :: "u32 \<Rightarrow> memory \<Rightarrow> user_mem" where
  "mem_from a m = (\<lambda>i. m (a + of_int i))"

definition mem_back :: "u32 \<Rightarrow> user_mem \<Rightarrow> memory" where
  "mem_back a um = (\<lambda>x. um (sint (x - a)))"

record 'd disk =
  disk_read :: "u32 \<Rightarrow> u32 \<Rightarrow> user_mem \<Rightarrow> 'd \<Rightarrow> (int \<times> user_mem \<times> 'd) option"
  disk_write :: "u32 \<Rightarrow> u32 \<Rightarrow> user_mem \<Rightarrow> 'd \<Rightarrow> (int \<times> 'd) option"
  disk_size :: u32

section \<open>Constants\<close>

definition TEST_UNIT_READY :: u8 where "TEST_UNIT_READY = 0x00"
definition REQUEST_SENSE :: u8 where "REQUEST_SENSE = 0x03"
definition READ_6 :: u8 where "READ_6 = 0x08"
definition WRITE_6 :: u8 where "WRITE_6 = 0x0a"
definition INQUIRY :: u8 where "INQUIRY = 0x12"
definition MODE_SELECT :: u8 where "MODE_SELECT = 0x15"
definition MODE_SENSE :: u8 where "MODE_SENSE = 0x1a"
definition START_STOP :: u8 where "START_STOP = 0x1b"
definition ALLOW_MEDIUM_REMOVAL :: u8 where "ALLOW_MEDIUM_REMOVAL = 0x1e"
definition READ_FORMAT_CAPACITIES :: u8 where "READ_FORMAT_CAPACITIES = 0x23"
definition READ_CAPACITY :: u8 where "READ_CAPACITY = 0x25"
definition READ_10 :: u8 where "READ_10 = 0x28"
definition WRITE_10 :: u8 where "WRITE_10 = 0x2a"
definition VERIFY :: u8 where "VERIFY = 0x2f"
definition SYNCHRONIZE_CACHE :: u8 where "SYNCHRONIZE_CACHE = 0x35"
definition MODE_SELECT_10 :: u8 where "MODE_SELECT_10 = 0x55"
definition MODE_SENSE_10 :: u8 where "MODE_SENSE_10 = 0x5a"
definition READ_12 :: u8 where "READ_12 = 0xa8"
definition WRITE_12 :: u8 where "WRITE_12 = 0xaa"

definition SS_NO_SENSE :: u32 where "SS_NO_SENSE = 0"
definition SS_INVALID_COMMAND :: u32 where "SS_INVALID_COMMAND = 0x052000"
definition SS_INVALID_FIELD_IN_CDB :: u32 where "SS_INVALID_FIELD_IN_CDB = 0x052400"
definition SS_LOGICAL_BLOCK_ADDRESS_OUT_OF_RANGE :: u32 where
  "SS_LOGICAL_BLOCK_ADDRESS_OUT_OF_RANGE = 0x052100"
definition SS_LOGICAL_UNIT_NOT_SUPPORTED :: u32 where "SS_LOGICAL_UNIT_NOT_SUPPORTED = 0x052500"
definition SS_MEDIUM_NOT_PRESENT :: u32 where "SS_MEDIUM_NOT_PRESENT = 0x023a00"
definition SS_MEDIUM_REMOVAL_PREVENTED :: u32 where "SS_MEDIUM_REMOVAL_PREVENTED = 0x055302"
definition SS_SAVING_PARAMETERS_NOT_SUPPORTED :: u32 where "SS_SAVING_PARAMETERS_NOT_SUPPORTED = 0x053900"
definition SS_UNRECOVERED_READ_ERROR :: u32 where "SS_UNRECOVERED_READ_ERROR = 0x031100"
definition SS_WRITE_ERROR :: u32 where "SS_WRITE_ERROR = 0x030c02"
definition SS_WRITE_PROTECTED :: u32 where "SS_WRITE_PROTECTED = 0x072700"

definition SK :: "u32 \<Rightarrow> u8" where "SK x = ucast (drop_bit 16 x)"
definition ASC :: "u32 \<Rightarrow> u8" where "ASC x = ucast (drop_bit 8 x)"
definition ASCQ :: "u32 \<Rightarrow> u8" where "ASCQ x = ucast x"

definition USB_BULK_CBW_SIG :: u32 where "USB_BULK_CBW_SIG = 0x43425355"
definition USB_BULK_CS_SIG :: u32 where "USB_BULK_CS_SIG = 0x53425355"

definition USB_STATUS_PASS :: u8 where "USB_STATUS_PASS = 0"
definition USB_STATUS_FAIL :: u8 where "USB_STATUS_FAIL = 1"
definition USB_STATUS_PHASE_ERROR :: u8 where "USB_STATUS_PHASE_ERROR = 2"

definition ERR_EINVAL :: int where "ERR_EINVAL = 1"
definition ERR_EIO :: int where "ERR_EIO = 2"

definition masstorage_buffer :: u32 where "masstorage_buffer = 0x48000000"

section \<open>State\<close>

datatype data_direction = DATA_DIR_UNKNOWN | DATA_DIR_FROM_HOST | DATA_DIR_TO_HOST | DATA_DIR_NONE

record fsg_lun =
  is_open :: bool
  firstSector :: u32
  sectorCount :: u32
  ro :: bool
  removable :: bool
  nofua :: bool
  prevent_medium_removal :: bool
  info_valid :: bool
  sense_data :: u32
  sense_data_info :: u32
  unit_attention_data :: u32

record SCSICommandBlockWrapper =
  dCBWSignature :: u32
  dCBWTag :: u32
  dCBWDataTransferLength :: u32
  bmCBWFlags :: u8
  bCBWLUN :: u8
  bCBWCBLength :: u8
  CBWCB :: "u8 list"

text \<open>The fields of \<open>struct fsg_common\<close>, then the static variables, the data sent to the host and the disk.
  The pointer \<open>curlun\<close> is the index of the unit, \<^term>\<open>None\<close> the null pointer.\<close>

record 'd ms =
  nluns :: u32
  luns :: "fsg_lun list"
  lun_no :: u32
  curlun :: "nat option"
  data_size_from_cmnd :: u32
  residue :: u32
  phase_error :: bool
  bad_lun_okay :: bool
  ms_cmd :: SCSICommandBlockWrapper
  ms_written :: u32
  ms_mem :: memory
  ms_tx :: "u8 list list"
  ms_disk :: 'd

definition initial_lun :: fsg_lun where
  "initial_lun = \<lparr>is_open = False, firstSector = 0, sectorCount = 0, ro = True, removable = True,
     nofua = False, prevent_medium_removal = False, info_valid = False, sense_data = 0,
     sense_data_info = 0, unit_attention_data = 0\<rparr>"

definition empty_cbw :: SCSICommandBlockWrapper where
  "empty_cbw = \<lparr>dCBWSignature = 0, dCBWTag = 0, dCBWDataTransferLength = 0, bmCBWFlags = 0,
     bCBWLUN = 0, bCBWCBLength = 0, CBWCB = replicate 16 0\<rparr>"

definition initial_ms :: "memory \<Rightarrow> 'd \<Rightarrow> 'd ms" where
  "initial_ms m d = \<lparr>nluns = 1, luns = [initial_lun], lun_no = 0, curlun = None,
     data_size_from_cmnd = 0, residue = 0, phase_error = False, bad_lun_okay = False,
     ms_cmd = empty_cbw, ms_written = 0, ms_mem = m, ms_tx = [], ms_disk = d\<rparr>"

section \<open>Access to the state\<close>

definition get_unaligned_be16 :: "u8 list \<Rightarrow> nat \<Rightarrow> u16 option" where
  "get_unaligned_be16 p i = do {
     a \<leftarrow> arr_get p i;
     b \<leftarrow> arr_get p (i + 1);
     Some (mk16 b a)
   }"

definition get_unaligned_be32 :: "u8 list \<Rightarrow> nat \<Rightarrow> u32 option" where
  "get_unaligned_be32 p i = do {
     a \<leftarrow> get_unaligned_be16 p i;
     b \<leftarrow> get_unaligned_be16 p (i + 2);
     Some (mk32 b a)
   }"

text \<open>\<open>get_unaligned_be24\<close> of \<open>&p[i]\<close> reads from the byte before.\<close>

definition get_unaligned_be24 :: "u8 list \<Rightarrow> nat \<Rightarrow> u32 option" where
  "get_unaligned_be24 p i =
     (if i = 0 then None else do { w \<leftarrow> get_unaligned_be32 p (i - 1); Some (0xffffff AND w) })"

definition put_unaligned_be16 :: "u16 \<Rightarrow> u8 list" where
  "put_unaligned_be16 v = [hi16 v, lo16 v]"

definition put_unaligned_be32 :: "u32 \<Rightarrow> u8 list" where
  "put_unaligned_be32 v = put_unaligned_be16 (hi32 v) @ put_unaligned_be16 (lo32 v)"

definition cdb :: "nat \<Rightarrow> ('d, 'z) ms_scheme \<Rightarrow> u8 option" where
  "cdb i s = arr_get (CBWCB (ms_cmd s)) i"

definition cur_lun :: "('d, 'z) ms_scheme \<Rightarrow> fsg_lun option" where
  "cur_lun s = do { i \<leftarrow> curlun s; arr_get (luns s) i }"

definition upd_lun :: "(fsg_lun \<Rightarrow> fsg_lun) \<Rightarrow> ('d, 'z) ms_scheme \<Rightarrow> ('d, 'z) ms_scheme option" where
  "upd_lun f s = do {
     i \<leftarrow> curlun s;
     l \<leftarrow> arr_get (luns s) i;
     Some (s\<lparr>luns := (luns s)[i := f l]\<rparr>)
   }"

definition put_buf :: "u32 \<Rightarrow> u8 list \<Rightarrow> ('d, 'z) ms_scheme \<Rightarrow> ('d, 'z) ms_scheme" where
  "put_buf off bs s = s\<lparr>ms_mem := store_bytes (masstorage_buffer + off) bs (ms_mem s)\<rparr>"

definition fail_with :: "u32 \<Rightarrow> ('d, 'z) ms_scheme \<Rightarrow> (int \<times> ('d, 'z) ms_scheme) option" where
  "fail_with sd s = do { s \<leftarrow> upd_lun (\<lambda>l. l\<lparr>sense_data := sd\<rparr>) s; Some (- ERR_EINVAL, s) }"

section \<open>Commands\<close>

definition fsg_lun_close :: "fsg_lun \<Rightarrow> fsg_lun" where
  "fsg_lun_close l = (if is_open l then l\<lparr>is_open := False\<rparr> else l)"

definition fsg_lun_fsync_sub :: "fsg_lun \<Rightarrow> int" where
  "fsg_lun_fsync_sub l = 0"

definition lun_read ::
  "'d disk \<Rightarrow> u32 \<Rightarrow> u32 \<Rightarrow> ('d, 'z) ms_scheme \<Rightarrow> (int \<times> ('d, 'z) ms_scheme) option" where
  "lun_read D first n s = do {
     (r, m, d) \<leftarrow> disk_read D first n (mem_from masstorage_buffer (ms_mem s)) (ms_disk s);
     Some (r, s\<lparr>ms_mem := mem_back masstorage_buffer m, ms_disk := d\<rparr>)
   }"

definition lun_write ::
  "'d disk \<Rightarrow> u32 \<Rightarrow> u32 \<Rightarrow> ('d, 'z) ms_scheme \<Rightarrow> (int \<times> ('d, 'z) ms_scheme) option" where
  "lun_write D first n s = do {
     (r, d) \<leftarrow> disk_write D first n (mem_from masstorage_buffer (ms_mem s)) (ms_disk s);
     Some (r, s\<lparr>ms_disk := d\<rparr>)
   }"

text \<open>\<open>curlun->sense_data = sd; curlun->sense_data_info = lba; curlun->info_valid = 1;\<close>.\<close>

definition set_sense_at :: "u32 \<Rightarrow> u32 \<Rightarrow> ('d, 'z) ms_scheme \<Rightarrow> ('d, 'z) ms_scheme option" where
  "set_sense_at sd lba = upd_lun (\<lambda>l. l\<lparr>sense_data := sd, sense_data_info := lba, info_valid := True\<rparr>)"

text \<open>The block address of a read or write command: 24 bits in the command of six bytes, else 32 bits, with the
  two flags that are allowed and ignored; \<^term>\<open>None\<close> inside when another flag is set.\<close>

definition rw_lba :: "u8 \<Rightarrow> ('d, 'z) ms_scheme \<Rightarrow> u32 option option" where
  "rw_lba cmd6 s = do {
     op \<leftarrow> cdb 0 s;
     if op = cmd6 then map_option Some (get_unaligned_be24 (CBWCB (ms_cmd s)) 1)
     else do {
       lba \<leftarrow> get_unaligned_be32 (CBWCB (ms_cmd s)) 2;
       fl \<leftarrow> cdb 1 s;
       Some (if fl AND NOT 0x18 \<noteq> 0 then None else Some lba)
     }
   }"

abbreviation beyond_lun :: "u32 \<Rightarrow> u32 \<Rightarrow> fsg_lun \<Rightarrow> bool" where
  "beyond_lun lba n l \<equiv> lba \<ge> sectorCount l \<or> lba + n > sectorCount l"

definition do_read :: "'d disk \<Rightarrow> ('d, 'z) ms_scheme \<Rightarrow> (int \<times> ('d, 'z) ms_scheme) option" where
  "do_read D s = do {
     l \<leftarrow> cur_lun s;
     lba \<leftarrow> rw_lba READ_6 s;
     case lba of None \<Rightarrow> fail_with SS_INVALID_FIELD_IN_CDB s
     | Some lba \<Rightarrow>
       (let n = drop_bit 9 (data_size_from_cmnd s) in
        if beyond_lun lba n l then fail_with SS_LOGICAL_BLOCK_ADDRESS_OUT_OF_RANGE s
        else do {
          (r, s) \<leftarrow> lun_read D (firstSector l + lba) n s;
          s \<leftarrow> (if r \<noteq> 0 then set_sense_at SS_UNRECOVERED_READ_ERROR lba s else Some s);
          Some (- ERR_EIO, s\<lparr>residue := residue s - push_bit 9 n\<rparr>)
        })
   }"

definition do_write :: "'d disk \<Rightarrow> ('d, 'z) ms_scheme \<Rightarrow> (int \<times> ('d, 'z) ms_scheme) option" where
  "do_write D s = do {
     l \<leftarrow> cur_lun s;
     if ro l then fail_with SS_WRITE_PROTECTED s
     else do {
       lba \<leftarrow> rw_lba WRITE_6 s;
       case lba of None \<Rightarrow> fail_with SS_INVALID_FIELD_IN_CDB s
       | Some lba \<Rightarrow>
         (let n = drop_bit 9 (data_size_from_cmnd s) in
          if beyond_lun lba n l then fail_with SS_LOGICAL_BLOCK_ADDRESS_OUT_OF_RANGE s
          else do {
            (r, s) \<leftarrow> lun_write D (firstSector l + lba) n s;
            if r \<noteq> 0 then do { s \<leftarrow> set_sense_at SS_WRITE_ERROR lba s; Some (- ERR_EIO, s) }
            else Some (- ERR_EIO, s\<lparr>residue := residue s - push_bit 9 n\<rparr>)
          })
     }
   }"

definition do_synchronize_cache :: "('d, 'z) ms_scheme \<Rightarrow> (int \<times> ('d, 'z) ms_scheme) option" where
  "do_synchronize_cache s = do {
     l \<leftarrow> cur_lun s;
     s \<leftarrow> (if fsg_lun_fsync_sub l \<noteq> 0 then upd_lun (\<lambda>l. l\<lparr>sense_data := SS_WRITE_ERROR\<rparr>) s else Some s);
     Some (0, s)
   }"

lemma verify_less: "(n :: u32) \<noteq> 0 \<Longrightarrow> unat (n - (if n < 4096 then n else 4096)) < unat n"
  by (auto simp: not_less word_less_nat_alt word_le_nat_alt unat_sub unat_gt_0)

function verify_loop ::
  "'d disk \<Rightarrow> u32 \<Rightarrow> u32 \<Rightarrow> u32 \<Rightarrow> ('d, 'z) ms_scheme \<Rightarrow> ('d, 'z) ms_scheme option" where
  "verify_loop D first lba left s =
     (if left \<noteq> 0
      then (let amount = if left < 4096 then left else 4096 in
            do {
              (r, s) \<leftarrow> lun_read D (first + lba) amount s;
              if r \<noteq> 0 then set_sense_at SS_UNRECOVERED_READ_ERROR lba s
              else verify_loop D first (lba + amount) (left - amount) s
            })
      else Some s)"
  by auto
termination
  by (relation "measure (\<lambda>(D, first, lba, left, s). unat left)") (auto simp: verify_less)

declare verify_loop.simps [simp del]

definition do_verify :: "'d disk \<Rightarrow> ('d, 'z) ms_scheme \<Rightarrow> (int \<times> ('d, 'z) ms_scheme) option" where
  "do_verify D s = do {
     l \<leftarrow> cur_lun s;
     lba \<leftarrow> get_unaligned_be32 (CBWCB (ms_cmd s)) 2;
     if lba \<ge> sectorCount l then fail_with SS_LOGICAL_BLOCK_ADDRESS_OUT_OF_RANGE s
     else do {
       fl \<leftarrow> cdb 1 s;
       if fl AND NOT 0x10 \<noteq> 0 then fail_with SS_INVALID_FIELD_IN_CDB s
       else do {
         n \<leftarrow> get_unaligned_be16 (CBWCB (ms_cmd s)) 7;
         let n = (ucast n :: u32);
         if n = 0 then Some (- ERR_EIO, s)
         else if lba + n > sectorCount l then do {
           s \<leftarrow> set_sense_at SS_LOGICAL_BLOCK_ADDRESS_OUT_OF_RANGE (lba + n - 1) s;
           Some (- ERR_EINVAL, s)
         }
         else do { s \<leftarrow> verify_loop D (firstSector l) lba n s; Some (0, s) }
       }
     }
   }"

definition inquiry_string :: "u8 list" where
  "inquiry_string = map (of_nat \<circ> of_char) ''Generic AllwinDisk      0.01'' @ [0]"

text \<open>The debug print of \<open>do_inquiry\<close> reads a field of the unit before the test for a null pointer.\<close>

definition do_inquiry :: "('d, 'z) ms_scheme \<Rightarrow> (int \<times> ('d, 'z) ms_scheme) option" where
  "do_inquiry s = do {
     l \<leftarrow> cur_lun s;
     if curlun s = None
     then Some (36, put_buf 4 [31] (put_buf 0 [0x7f] (put_buf 0 (replicate 36 0) (s\<lparr>bad_lun_okay := True\<rparr>))))
     else Some (36, put_buf 8 inquiry_string
            (put_buf 0 [0, if removable l then 0x80 else 0, 2, 2, 31, 0, 0, 0] s))
   }"

definition do_request_sense :: "('d, 'z) ms_scheme \<Rightarrow> (int \<times> ('d, 'z) ms_scheme) option" where
  "do_request_sense s = do {
     (sd, sdinfo, valid, s) \<leftarrow>
       (if curlun s = None
        then Some (SS_LOGICAL_UNIT_NOT_SUPPORTED, 0, 0 :: u8, s\<lparr>bad_lun_okay := True\<rparr>)
        else do {
          l \<leftarrow> cur_lun s;
          s \<leftarrow> upd_lun (\<lambda>l. l\<lparr>sense_data := SS_NO_SENSE, sense_data_info := 0, info_valid := False\<rparr>) s;
          Some (sense_data l, sense_data_info l, if info_valid l then 0x80 else 0, s)
        });
     let s = put_buf 0 (replicate 18 0) s;
     let s = put_buf 0 [valid OR 0x70] s;
     let s = put_buf 2 [SK sd] s;
     let s = put_buf 3 (put_unaligned_be32 sdinfo) s;
     let s = put_buf 7 [18 - 8] s;
     let s = put_buf 12 [ASC sd] s;
     let s = put_buf 13 [ASCQ sd] s;
     Some (18, s)
   }"

definition do_read_capacity :: "('d, 'z) ms_scheme \<Rightarrow> (int \<times> ('d, 'z) ms_scheme) option" where
  "do_read_capacity s = do {
     lba \<leftarrow> get_unaligned_be32 (CBWCB (ms_cmd s)) 2;
     pmi \<leftarrow> cdb 8 s;
     if pmi > 1 \<or> (pmi = 0 \<and> lba \<noteq> 0) then fail_with SS_INVALID_FIELD_IN_CDB s
     else do {
       l \<leftarrow> cur_lun s;
       Some (8, put_buf 4 (put_unaligned_be32 512) (put_buf 0 (put_unaligned_be32 (sectorCount l - 1)) s))
     }
   }"

text \<open>The caching page at offset \<open>pg\<close> of the reply.\<close>

definition caching_page :: "bool \<Rightarrow> u32 \<Rightarrow> ('d, 'z) ms_scheme \<Rightarrow> ('d, 'z) ms_scheme" where
  "caching_page changeable pg s =
     (let s = put_buf (pg + 2) (replicate 10 0) (put_buf pg [0x08, 10] s) in
      if changeable then s
      else put_buf (pg + 10) (put_unaligned_be16 0xffff)
             (put_buf (pg + 8) (put_unaligned_be16 0xffff)
             (put_buf (pg + 4) (put_unaligned_be16 0xffff) (put_buf (pg + 2) [0x04] s))))"

definition do_mode_sense :: "('d, 'z) ms_scheme \<Rightarrow> (int \<times> ('d, 'z) ms_scheme) option" where
  "do_mode_sense s = do {
     mscmnd \<leftarrow> cdb 0 s;
     fl \<leftarrow> cdb 1 s;
     if fl AND NOT 0x08 \<noteq> 0 then fail_with SS_INVALID_FIELD_IN_CDB s
     else do {
       b2 \<leftarrow> cdb 2 s;
       let pc = drop_bit 6 b2;
       let page_code = b2 AND 0x3f;
       if pc = 3 then fail_with SS_SAVING_PARAMETERS_NOT_SUPPORTED s
       else do {
         l \<leftarrow> cur_lun s;
         let six = (mscmnd = MODE_SENSE);
         let s = put_buf 0 (replicate 8 0) s;
         let s = put_buf (if six then 2 else 3) [if ro l then 0x80 else 0] s;
         let pg = (if six then 4 else 8);
         let limit = (if six then 255 else 65535);
         let valid_page = (page_code = 0x08 \<or> page_code = 0x3f);
         let s = (if valid_page then caching_page (pc = 1) (of_nat pg) s else s);
         let len = (if valid_page then pg + 12 else pg);
         if \<not> valid_page \<or> len > limit then fail_with SS_INVALID_FIELD_IN_CDB s
         else Some (int len, put_buf 0 (if six then [of_nat (len - 1)]
                                        else put_unaligned_be16 (of_nat (len - 2))) s)
       }
     }
   }"

definition do_start_stop :: "('d, 'z) ms_scheme \<Rightarrow> (int \<times> ('d, 'z) ms_scheme) option" where
  "do_start_stop s =
     (if curlun s = None then Some (- ERR_EINVAL, s)
      else do {
        l \<leftarrow> cur_lun s;
        if \<not> removable l then fail_with SS_INVALID_COMMAND s
        else do {
          b1 \<leftarrow> cdb 1 s;
          b4 \<leftarrow> cdb 4 s;
          if b1 AND NOT 0x01 \<noteq> 0 \<or> b4 AND NOT 0x03 \<noteq> 0 then fail_with SS_INVALID_FIELD_IN_CDB s
          else if b4 AND 0x01 \<noteq> 0 then
            (if \<not> is_open l then fail_with SS_MEDIUM_NOT_PRESENT s else Some (0, s))
          else if prevent_medium_removal l then fail_with SS_MEDIUM_REMOVAL_PREVENTED s
          else if b4 AND 0x02 = 0 then Some (0, s)
          else do { s \<leftarrow> upd_lun fsg_lun_close s; Some (0, s) }
        }
      })"

definition do_prevent_allow :: "('d, 'z) ms_scheme \<Rightarrow> (int \<times> ('d, 'z) ms_scheme) option" where
  "do_prevent_allow s =
     (if curlun s = None then Some (- ERR_EINVAL, s)
      else do {
        l \<leftarrow> cur_lun s;
        if \<not> removable l then fail_with SS_INVALID_COMMAND s
        else do {
          b4 \<leftarrow> cdb 4 s;
          if b4 AND NOT 0x01 \<noteq> 0 then fail_with SS_INVALID_FIELD_IN_CDB s
          else do {
            s \<leftarrow> upd_lun (\<lambda>l. l\<lparr>prevent_medium_removal := b4 AND 0x01 \<noteq> 0\<rparr>) s;
            Some (0, s)
          }
        }
      })"

definition do_read_format_capacities :: "('d, 'z) ms_scheme \<Rightarrow> (int \<times> ('d, 'z) ms_scheme) option" where
  "do_read_format_capacities s = do {
     l \<leftarrow> cur_lun s;
     let s = put_buf 0 [0, 0, 0, 8] s;
     let s = put_buf 4 (put_unaligned_be32 (sectorCount l)) s;
     let s = put_buf 8 (put_unaligned_be32 512) s;
     Some (12, put_buf 8 [0x02] s)
   }"

definition do_mode_select :: "('d, 'z) ms_scheme \<Rightarrow> (int \<times> ('d, 'z) ms_scheme) option" where
  "do_mode_select s =
     (if curlun s \<noteq> None then fail_with SS_INVALID_COMMAND s else Some (- ERR_EINVAL, s))"

section \<open>The command check\<close>

definition bulk_in :: "('d, 'z) ms_scheme \<Rightarrow> bool" where
  "bulk_in s \<longleftrightarrow> bmCBWFlags (ms_cmd s) AND 0x80 \<noteq> 0"

definition cbw_data_dir :: "('d, 'z) ms_scheme \<Rightarrow> data_direction" where
  "cbw_data_dir s =
     (if dCBWDataTransferLength (ms_cmd s) = 0 then DATA_DIR_NONE
      else if bulk_in s then DATA_DIR_TO_HOST else DATA_DIR_FROM_HOST)"

text \<open>Data size and direction, and the length of the command: the flag of a phase error, the number of command
  bytes to check, or \<^term>\<open>None\<close> for an error.\<close>

definition check_sizes ::
  "nat \<Rightarrow> data_direction \<Rightarrow> ('d, 'z) ms_scheme \<Rightarrow> nat option \<times> ('d, 'z) ms_scheme" where
  "check_sizes cmnd_size data_dir s =
     (let dir = (if data_size_from_cmnd s = 0 then DATA_DIR_NONE else data_dir);
          len = dCBWDataTransferLength (ms_cmd s);
          s = (if len < data_size_from_cmnd s
               then s\<lparr>data_size_from_cmnd := len, phase_error := True\<rparr> else s);
          s = s\<lparr>residue := len\<rparr>;
          cblen = unat (bCBWCBLength (ms_cmd s))
      in if cbw_data_dir s \<noteq> dir \<and> data_size_from_cmnd s > 0 then (None, s\<lparr>phase_error := True\<rparr>)
         else if cmnd_size \<noteq> cblen \<and> cblen < cmnd_size then (None, s\<lparr>phase_error := True\<rparr>)
         else (Some cblen, s))"

text \<open>The choice of the logical unit; the flag tells whether the command may go on.\<close>

definition check_lun :: "('d, 'z) ms_scheme \<Rightarrow> (bool \<times> ('d, 'z) ms_scheme) option" where
  "check_lun s = do {
     op \<leftarrow> cdb 0 s;
     if lun_no s < nluns s then do {
       let s = s\<lparr>curlun := Some (unat (lun_no s))\<rparr>;
       s \<leftarrow> (if op \<noteq> REQUEST_SENSE
             then upd_lun (\<lambda>l. l\<lparr>sense_data := SS_NO_SENSE, sense_data_info := 0, info_valid := False\<rparr>) s
             else Some s);
       Some (True, s)
     }
     else Some (op = INQUIRY \<or> op = REQUEST_SENSE, s\<lparr>curlun := None, bad_lun_okay := False\<rparr>)
   }"

text \<open>The loop over the command bytes, \<open>n\<close> to go from byte \<open>i\<close>: is a byte set that the mask does not list?\<close>

fun check_bytes :: "u8 list \<Rightarrow> u32 \<Rightarrow> nat \<Rightarrow> nat \<Rightarrow> bool option" where
  "check_bytes cb msk 0 i = Some True"
| "check_bytes cb msk (Suc n) i = do {
     b \<leftarrow> arr_get cb i;
     if b \<noteq> 0 \<and> \<not> bit msk i then Some False else check_bytes cb msk n (Suc i)
   }"

text \<open>\<open>curlun->sense_data = sd\<close> when there is a unit.\<close>

definition sense_if_lun :: "u32 \<Rightarrow> ('d, 'z) ms_scheme \<Rightarrow> (int \<times> ('d, 'z) ms_scheme) option" where
  "sense_if_lun sd s = (if curlun s \<noteq> None then fail_with sd s else Some (- ERR_EINVAL, s))"

definition check_attention :: "('d, 'z) ms_scheme \<Rightarrow> bool option" where
  "check_attention s = do {
     op \<leftarrow> cdb 0 s;
     if curlun s = None then Some False
     else do {
       l \<leftarrow> cur_lun s;
       Some (unit_attention_data l \<noteq> SS_NO_SENSE \<and> op \<noteq> INQUIRY \<and> op \<noteq> REQUEST_SENSE)
     }
   }"

definition check_rest :: "nat \<Rightarrow> u32 \<Rightarrow> bool \<Rightarrow> ('d, 'z) ms_scheme \<Rightarrow> (int \<times> ('d, 'z) ms_scheme) option" where
  "check_rest cmnd_size msk needs_medium s = do {
     b1 \<leftarrow> cdb 1 s;
     let s = s\<lparr>ms_cmd := (ms_cmd s)\<lparr>CBWCB := (CBWCB (ms_cmd s))[1 := b1 AND 0x1f]\<rparr>\<rparr>;
     ok \<leftarrow> check_bytes (CBWCB (ms_cmd s)) msk (cmnd_size - 1) 1;
     if \<not> ok then sense_if_lun SS_INVALID_FIELD_IN_CDB s
     else if curlun s \<noteq> None \<and> needs_medium then do {
       l \<leftarrow> cur_lun s;
       if \<not> is_open l then fail_with SS_MEDIUM_NOT_PRESENT s else Some (0, s)
     }
     else Some (0, s)
   }"

definition check_command ::
  "nat \<Rightarrow> data_direction \<Rightarrow> u32 \<Rightarrow> bool \<Rightarrow> ('d, 'z) ms_scheme \<Rightarrow> (int \<times> ('d, 'z) ms_scheme) option" where
  "check_command cmnd_size data_dir msk needs_medium s =
     (case check_sizes cmnd_size data_dir s of
        (None, s) \<Rightarrow> Some (- ERR_EINVAL, s)
      | (Some cmnd_size, s) \<Rightarrow> do {
          (ok, s) \<leftarrow> check_lun s;
          if \<not> ok then Some (- ERR_EINVAL, s)
          else do {
            att \<leftarrow> check_attention s;
            if att then do {
              s \<leftarrow> upd_lun (\<lambda>l. l\<lparr>sense_data := unit_attention_data l, unit_attention_data := SS_NO_SENSE\<rparr>) s;
              Some (- ERR_EINVAL, s)
            }
            else check_rest cmnd_size msk needs_medium s
          }
        })"

section \<open>The dispatcher\<close>

text \<open>One case of the switch: the data size, the check, and the command when the check passes.\<close>

definition scsi_case ::
  "u32 option \<Rightarrow> nat \<Rightarrow> data_direction \<Rightarrow> u32 \<Rightarrow> bool
   \<Rightarrow> (('d, 'z) ms_scheme \<Rightarrow> (int \<times> ('d, 'z) ms_scheme) option)
   \<Rightarrow> ('d, 'z) ms_scheme \<Rightarrow> (int \<times> ('d, 'z) ms_scheme) option" where
  "scsi_case sz cmnd_size data_dir msk needs_medium f s = do {
     sz \<leftarrow> sz;
     (reply, s) \<leftarrow> check_command cmnd_size data_dir msk needs_medium (s\<lparr>data_size_from_cmnd := sz\<rparr>);
     if reply = 0 then f s else Some (reply, s)
   }"

abbreviation size_byte :: "('d, 'z) ms_scheme \<Rightarrow> u32 option" where
  "size_byte s \<equiv> map_option ucast (cdb 4 s)"

abbreviation size_be16 :: "('d, 'z) ms_scheme \<Rightarrow> u32 option" where
  "size_be16 s \<equiv> map_option ucast (get_unaligned_be16 (CBWCB (ms_cmd s)) 7)"

definition size_rw6 :: "('d, 'z) ms_scheme \<Rightarrow> u32 option" where
  "size_rw6 s = map_option (\<lambda>i. push_bit 9 (if i = 0 then 256 else ucast i)) (cdb 4 s)"

definition size_rw10 :: "('d, 'z) ms_scheme \<Rightarrow> u32 option" where
  "size_rw10 s = map_option (push_bit 9) (size_be16 s)"

definition size_rw12 :: "('d, 'z) ms_scheme \<Rightarrow> u32 option" where
  "size_rw12 s = map_option (push_bit 9) (get_unaligned_be32 (CBWCB (ms_cmd s)) 6)"

definition do_nothing :: "('d, 'z) ms_scheme \<Rightarrow> (int \<times> ('d, 'z) ms_scheme) option" where
  "do_nothing s = Some (0, s)"

definition scsi_switch :: "'d disk \<Rightarrow> ('d, 'z) ms_scheme \<Rightarrow> (int \<times> ('d, 'z) ms_scheme) option" where
  "scsi_switch D s = do {
     op \<leftarrow> cdb 0 s;
     if op = INQUIRY then scsi_case (size_byte s) 6 DATA_DIR_TO_HOST 0x10 False do_inquiry s
     else if op = MODE_SELECT then scsi_case (size_byte s) 6 DATA_DIR_FROM_HOST 0x12 False do_mode_select s
     else if op = MODE_SELECT_10 then scsi_case (size_be16 s) 10 DATA_DIR_FROM_HOST 0x182 False do_mode_select s
     else if op = MODE_SENSE then scsi_case (size_byte s) 6 DATA_DIR_TO_HOST 0x16 False do_mode_sense s
     else if op = MODE_SENSE_10 then scsi_case (size_be16 s) 10 DATA_DIR_TO_HOST 0x186 False do_mode_sense s
     else if op = ALLOW_MEDIUM_REMOVAL then scsi_case (Some 0) 6 DATA_DIR_NONE 0x10 False do_prevent_allow s
     else if op = READ_6 then scsi_case (size_rw6 s) 6 DATA_DIR_TO_HOST 0x1e True (do_read D) s
     else if op = READ_10 then scsi_case (size_rw10 s) 10 DATA_DIR_TO_HOST 0x1be True (do_read D) s
     else if op = READ_12 then scsi_case (size_rw12 s) 12 DATA_DIR_TO_HOST 0x3fe True (do_read D) s
     else if op = READ_CAPACITY then scsi_case (Some 8) 10 DATA_DIR_TO_HOST 0x13c True do_read_capacity s
     else if op = READ_FORMAT_CAPACITIES then
       scsi_case (size_be16 s) 10 DATA_DIR_TO_HOST 0x180 True do_read_format_capacities s
     else if op = REQUEST_SENSE then scsi_case (size_byte s) 6 DATA_DIR_TO_HOST 0x10 False do_request_sense s
     else if op = START_STOP then scsi_case (Some 0) 6 DATA_DIR_NONE 0x12 False do_start_stop s
     else if op = SYNCHRONIZE_CACHE then scsi_case (Some 0) 10 DATA_DIR_NONE 0x1bc True do_synchronize_cache s
     else if op = TEST_UNIT_READY then scsi_case (Some 0) 6 DATA_DIR_NONE 0 True do_nothing s
     else if op = VERIFY then scsi_case (Some 0) 10 DATA_DIR_NONE 0x1be True (do_verify D) s
     else if op = WRITE_6 then scsi_case (size_rw6 s) 6 DATA_DIR_FROM_HOST 0x1e True (do_write D) s
     else if op = WRITE_10 then scsi_case (size_rw10 s) 10 DATA_DIR_FROM_HOST 0x1be True (do_write D) s
     else if op = WRITE_12 then scsi_case (size_rw12 s) 12 DATA_DIR_FROM_HOST 0x3fe True (do_write D) s
     else scsi_case (Some 0) (unat (bCBWCBLength (ms_cmd s))) DATA_DIR_UNKNOWN (NOT 0) False
            (fail_with SS_INVALID_COMMAND) s
   }"

definition do_scsi_command :: "'d disk \<Rightarrow> ('d, 'z) ms_scheme \<Rightarrow> ('d, 'z) ms_scheme option" where
  "do_scsi_command D s = do {
     (reply, s) \<leftarrow> scsi_switch D (s\<lparr>phase_error := False\<rparr>);
     let reply = (if reply = - ERR_EINVAL then 0 else reply);
     Some (if reply \<ge> 0 \<and> dCBWDataTransferLength (ms_cmd s) \<noteq> 0 \<and> bulk_in s
           then s\<lparr>residue := residue s - (if of_int reply > data_size_from_cmnd s
                                          then data_size_from_cmnd s else of_int reply)\<rparr>
           else s)
   }"

section \<open>Replies\<close>

definition masstorage_tx :: "u8 list \<Rightarrow> ('d, 'z) ms_scheme \<Rightarrow> ('d, 'z) ms_scheme" where
  "masstorage_tx bs s = s\<lparr>ms_tx := ms_tx s @ [bs]\<rparr>"

definition finish_reply :: "('d, 'z) ms_scheme \<Rightarrow> ('d, 'z) ms_scheme" where
  "finish_reply s =
     (let len = dCBWDataTransferLength (ms_cmd s) in
      if len \<noteq> 0 \<and> bulk_in s
      then masstorage_tx (load_bytes masstorage_buffer (unat len) (ms_mem s)) s else s)"

definition csw_status :: "('d, 'z) ms_scheme \<Rightarrow> u8 option" where
  "csw_status s = do {
     sd \<leftarrow> (if curlun s \<noteq> None then map_option sense_data (cur_lun s)
            else Some (if bad_lun_okay s then SS_NO_SENSE else SS_LOGICAL_UNIT_NOT_SUPPORTED));
     Some (if phase_error s then USB_STATUS_PHASE_ERROR
           else if sd \<noteq> SS_NO_SENSE then USB_STATUS_FAIL else USB_STATUS_PASS)
   }"

definition csw_bytes :: "u32 \<Rightarrow> u32 \<Rightarrow> u8 \<Rightarrow> u8 list" where
  "csw_bytes tag res status = bytes32 USB_BULK_CS_SIG @ bytes32 tag @ bytes32 res @ [status]"

definition send_status :: "('d, 'z) ms_scheme \<Rightarrow> ('d, 'z) ms_scheme option" where
  "send_status s = do {
     status \<leftarrow> csw_status s;
     Some (masstorage_tx (csw_bytes (dCBWTag (ms_cmd s)) (residue s) status) s)
   }"

section \<open>The handler of received packets\<close>

text \<open>The copy of a packet of 31 bytes into the command block.\<close>

definition parse_cbw :: "u8 list \<Rightarrow> SCSICommandBlockWrapper" where
  "parse_cbw p =
     (let ws = words_of_bytes p in
      \<lparr>dCBWSignature = ws ! 0, dCBWTag = ws ! 1, dCBWDataTransferLength = ws ! 2,
       bmCBWFlags = p ! 12, bCBWLUN = p ! 13, bCBWCBLength = p ! 14, CBWCB = drop 15 p\<rparr>)"

text \<open>No data is awaited from the host.\<close>

definition cmd_complete :: "('d, 'z) ms_scheme \<Rightarrow> bool" where
  "cmd_complete s \<longleftrightarrow>
     dCBWDataTransferLength (ms_cmd s) = 0 \<or> bulk_in s \<or> dCBWDataTransferLength (ms_cmd s) = ms_written s"

definition rx_data :: "u8 list \<Rightarrow> ('d, 'z) ms_scheme \<Rightarrow> ('d, 'z) ms_scheme" where
  "rx_data p s =
     (let to_write = dCBWDataTransferLength (ms_cmd s) - ms_written s;
          to_write = (if of_nat (length p) \<le> to_write then of_nat (length p) else to_write)
      in (put_buf (ms_written s) (take (unat to_write) p) s)\<lparr>ms_written := ms_written s + to_write\<rparr>)"

definition rx_run :: "'d disk \<Rightarrow> ('d, 'z) ms_scheme \<Rightarrow> ('d, 'z) ms_scheme option" where
  "rx_run D s =
     (if cmd_complete s then do { s \<leftarrow> do_scsi_command D s; send_status (finish_reply s) } else Some s)"

definition masstorage_rx_handler ::
  "'d disk \<Rightarrow> u8 list \<Rightarrow> ('d, 'z) ms_scheme \<Rightarrow> ('d, 'z) ms_scheme option" where
  "masstorage_rx_handler D p s =
     (if cmd_complete s then
        if length p \<noteq> 31 then Some s
        else let s = s\<lparr>ms_cmd := parse_cbw p\<rparr> in
             if dCBWSignature (ms_cmd s) \<noteq> USB_BULK_CBW_SIG then Some s
             else if dCBWDataTransferLength (ms_cmd s) > 0x1000000 then Some s
             else rx_run D (s\<lparr>ms_written := 0\<rparr>)
      else rx_run D (rx_data p s))"

section \<open>Mounting\<close>

definition masstorage_mount ::
  "'d disk \<Rightarrow> u32 \<Rightarrow> u32 \<Rightarrow> int \<Rightarrow> ('d, 'z) ms_scheme \<Rightarrow> (int \<times> ('d, 'z) ms_scheme) option" where
  "masstorage_mount D first n read_write s = do {
     let diskSectCount = disk_size D;
     l \<leftarrow> arr_get (luns s) 0;
     if is_open l then Some (-1, s)
     else if first \<ge> diskSectCount \<or> first + n > diskSectCount then Some (-1, s)
     else Some (0, s\<lparr>luns := (luns s)[0 := l\<lparr>firstSector := first, sectorCount := n,
                                               ro := (read_write = 0), is_open := True\<rparr>]\<rparr>)
   }"

definition masstorage_getstatus :: "('d, 'z) ms_scheme \<Rightarrow> (bool \<times> u32 \<times> u32 \<times> bool) option" where
  "masstorage_getstatus s = do {
     l \<leftarrow> arr_get (luns s) 0;
     Some (is_open l, firstSector l, sectorCount l, \<not> ro l)
   }"

end
