(* ===== verification/Nand_Driver.thy ===== *)
theory Nand_Driver
  imports Format_Main Nand_Scan Physic_Layer Logic_Ctl
begin

text \<open>
  The driver's entry points, \<open>nand_drv/nand_for_uboot.c\<close>: the layers put together. Start-up runs the bus
  scan, the format module and the logic layer one after the other; the sector functions are those of the
  logic layer (\<open>BOOT_CACHE_OPEN\<close> is not defined), over the physic layer of this development. The rest of
  the file is switched off by \<open>#if 0\<close>.
\<close>

section \<open>Pages of the chips\<close>

definition NAND_PhyRead ::
  "cfg \<Rightarrow> 'h nfc_hw \<Rightarrow> boot_physical_param \<Rightarrow> u8 list \<Rightarrow> u8 list option \<Rightarrow> 'h nst \<Rightarrow> 'h page_op_result" where
  "NAND_PhyRead C H readop = PHY_SimpleRead C H readop"

definition NAND_PhyRead_Seq ::
  "cfg \<Rightarrow> 'h nfc_hw \<Rightarrow> boot_physical_param \<Rightarrow> u8 list \<Rightarrow> u8 list option \<Rightarrow> 'h nst \<Rightarrow> 'h page_op_result" where
  "NAND_PhyRead_Seq C H readop = PHY_SimpleRead_Seq C H readop"

definition NAND_PhyRead_1K ::
  "cfg \<Rightarrow> 'h nfc_hw \<Rightarrow> boot_physical_param \<Rightarrow> u8 list \<Rightarrow> u8 list option \<Rightarrow> 'h nst \<Rightarrow> 'h page_op_result" where
  "NAND_PhyRead_1K C H readop = PHY_SimpleRead_1K C H readop"

definition NAND_PhyWrite ::
  "cfg \<Rightarrow> 'h nfc_hw \<Rightarrow> boot_physical_param \<Rightarrow> u8 list \<Rightarrow> u8 list option \<Rightarrow> 'h nst \<Rightarrow> (int \<times> 'h nst) option" where
  "NAND_PhyWrite C H writeop = PHY_SimpleWrite C H writeop"

definition NAND_PhyWrite_1K ::
  "cfg \<Rightarrow> 'h nfc_hw \<Rightarrow> boot_physical_param \<Rightarrow> u8 list \<Rightarrow> u8 list option \<Rightarrow> 'h nst \<Rightarrow> (int \<times> 'h nst) option" where
  "NAND_PhyWrite_1K C H writeop = PHY_SimpleWrite_1K C H writeop"

definition NAND_PhyWrite_Seq ::
  "cfg \<Rightarrow> 'h nfc_hw \<Rightarrow> boot_physical_param \<Rightarrow> u8 list \<Rightarrow> u8 list option \<Rightarrow> 'h nst \<Rightarrow> (int \<times> 'h nst) option" where
  "NAND_PhyWrite_Seq C H writeop = PHY_SimpleWrite_Seq C H writeop"

definition NAND_PhyErase ::
  "cfg \<Rightarrow> 'h nfc_hw \<Rightarrow> boot_physical_param \<Rightarrow> 'h nst \<Rightarrow> (int \<times> 'h nst) option" where
  "NAND_PhyErase C H eraseop = PHY_SimpleErase C H eraseop"

section \<open>Start and stop\<close>

text \<open>The scan fills in the storage information, so the configuration is part of the result.\<close>

definition NAND_PhyInit :: "cfg \<Rightarrow> 'h nfc_hw \<Rightarrow> 'h nst \<Rightarrow> (int \<times> cfg \<times> 'h nst) option" where
  "NAND_PhyInit C H s = do {
     (ret, s) \<leftarrow> PHY_Init H s;
     if ret \<noteq> 0 then Some (ret, C, s)
     else do {
       (ret, C, s) \<leftarrow> SCN_AnalyzeNandSystem C H s;
       if ret \<noteq> 0 then Some (ret, C, s)
       else do {
         (ret, s) \<leftarrow> PHY_ChangeMode C H 1 s;
         Some (ret, C, s)
       }
     }
   }"

definition NAND_PhyExit :: "cfg \<Rightarrow> 'h nfc_hw \<Rightarrow> 'h nst \<Rightarrow> (int \<times> 'h nst) option" where
  "NAND_PhyExit C H s = do { (_, s) \<leftarrow> PHY_Exit C H s; Some (0, s) }"

text \<open>What the calls of \<open>MALLOC\<close> in the format module and the logic layer return.\<close>

record drv_mem =
  dm_format :: fmt_heap
  dm_write_cache :: "u8 list option"
  dm_tbl_buf :: "u8 list option"
  dm_blk_tables :: "nat \<Rightarrow> super_phy_blk list option"
  dm_log_tables :: "nat \<Rightarrow> log_blk list option"
  dm_page_tables :: "nat \<Rightarrow> u16 list option"

text \<open>\<open>NAND_Init\<close>, with the static variables of the format module and the configuration that it leaves. The
  model of \<open>FMT_Init\<close> has no result: the code returns 0, so -5 is never returned; nor is -7, for \<open>FMT_Exit\<close>
  returns 0 as well.\<close>

definition NAND_Init ::
  "cfg \<Rightarrow> 'h nfc_hw \<Rightarrow> drv_mem \<Rightarrow> 'h nst drv \<Rightarrow> (int \<times> fmt_par option \<times> cfg \<times> 'h nst drv) option" where
  "NAND_Init C H M s = do {
     (result, C, n) \<leftarrow> NAND_PhyInit C H (dr_dev s);
     let s = s\<lparr>dr_dev := n\<rparr>;
     if result < 0 then Some (- 1, None, C, s)
     else do {
       (F, C, s) \<leftarrow> FMT_Init C s;
       (result, s) \<leftarrow> FMT_FormatNand (physic C H) C F (dm_format M) s;
       if result < 0 then Some (- 6, Some F, C, s)
       else if FMT_Exit < 0 then Some (- 7, Some F, C, s)
       else do {
         (result, s) \<leftarrow> LML_Init C (dm_write_cache M) (dm_tbl_buf M) (dm_blk_tables M) (dm_log_tables M)
                           (dm_page_tables M) s;
         if result < 0 then Some (- 8, Some F, C, s) else Some (result, Some F, C, s)
       }
     }
   }"

definition NAND_Exit :: "cfg \<Rightarrow> 'h nfc_hw \<Rightarrow> 'h nst drv \<Rightarrow> (int \<times> 'h nst drv) option" where
  "NAND_Exit C H s = do {
     (result, s) \<leftarrow> LML_Exit (physic C H) C s;
     if result < 0 then Some (- 1, s)
     else do {
       (result, n) \<leftarrow> NAND_PhyExit C H (dr_dev s);
       let s = s\<lparr>dr_dev := n\<rparr>;
       if result < 0 then Some (- 2, s) else Some (result, s)
     }
   }"

section \<open>Logical sectors\<close>

definition NAND_LogicRead ::
  "cfg \<Rightarrow> 'h nfc_hw \<Rightarrow> u32 \<Rightarrow> u32 \<Rightarrow> user_mem \<Rightarrow> 'h nst drv \<Rightarrow> (int \<times> user_mem \<times> 'h nst drv) option" where
  "NAND_LogicRead C H nSectNum nSectorCnt = LML_Read (physic C H) C nSectNum nSectorCnt"

definition NAND_LogicWrite ::
  "cfg \<Rightarrow> 'h nfc_hw \<Rightarrow> u32 \<Rightarrow> u32 \<Rightarrow> user_mem \<Rightarrow> 'h nst drv \<Rightarrow> (int \<times> 'h nst drv) option" where
  "NAND_LogicWrite C H nSectNum nSectorCnt = LML_Write (physic C H) C nSectNum nSectorCnt"

end
