(* ===== verification/Boot_Disk.thy ===== *)
theory Boot_Disk
  imports Mass_Storage Nand_Driver Phy_Boot
begin

text \<open>
  The command loop of the device program, \<open>arm/main.c\<close>: commands of the host in a header of 24 bytes,
  followed by their data in packets of any size, on the boot areas, the logical disk, the memory of the
  board and the mass storage function.

  The state extends the one of the mass storage function, whose disk is the NAND driver. Memory is the flat
  address space; the program's own variables, the NAND driver's and the heap are kept beside it, so the
  effect of a memory command on them is not described. The text that \<open>dolog\<close> collects is the field
  \<open>bd_log\<close>; the calls that extend it are left out.
\<close>

section \<open>Commands and state\<close>

type_synonym u64 = "64 word"

definition BCMD_NONE :: u16 where "BCMD_NONE = 0"
definition BCMD_FLASHMEM_PARAMS :: u16 where "BCMD_FLASHMEM_PARAMS = 0x46"
definition BCMD_BOARD_EXIT :: u16 where "BCMD_BOARD_EXIT = 0x45"
definition BCMD_PING :: u16 where "BCMD_PING = 0x49"
definition BCMD_MEMJUMPTO :: u16 where "BCMD_MEMJUMPTO = 0x4a"
definition BCMD_GETLOG :: u16 where "BCMD_GETLOG = 0x4c"
definition BCMD_SLEEPTEST :: u16 where "BCMD_SLEEPTEST = 0x53"
definition BCMD_DISKREAD :: u16 where "BCMD_DISKREAD = 0x52"
definition BCMD_DISKWRITE :: u16 where "BCMD_DISKWRITE = 0x57"
definition BCMD_MEMREAD :: u16 where "BCMD_MEMREAD = 0x72"
definition BCMD_MEMWRITE :: u16 where "BCMD_MEMWRITE = 0x77"
definition BCMD_MEMEXEC :: u16 where "BCMD_MEMEXEC = 0x78"
definition BCMD_MOUNT :: u16 where "BCMD_MOUNT = 0x4d"
definition BCMD_GETMOUNT_STATUS :: u16 where "BCMD_GETMOUNT_STATUS = 0x6d"

definition BRST_FAIL :: u16 where "BRST_FAIL = 0"
definition BRST_OK :: u16 where "BRST_OK = 1"

definition FMAREA_BOOT0 :: u32 where "FMAREA_BOOT0 = 0"
definition FMAREA_BOOT1 :: u32 where "FMAREA_BOOT1 = 1"

definition BE_GO_FEL :: u32 where "BE_GO_FEL = 1"
definition BE_BOARD_RESET :: u32 where "BE_BOARD_RESET = 2"

definition MOUNTM_NOMOUNT :: u32 where "MOUNTM_NOMOUNT = 0"
definition MOUNTM_RO :: u32 where "MOUNTM_RO = 1"
definition MOUNTM_RW :: u32 where "MOUNTM_RW = 2"

definition CMD_MAGIC :: u16 where "CMD_MAGIC = 0x1234"

definition transfer_buffer :: u32 where "transfer_buffer = 0x41000000"
definition malloc_base :: u32 where "malloc_base = 0x43000000"

record bootdisk_cmd_header =
  bc_magic :: u16
  bc_cmd :: u16
  bc_param1 :: u32
  bc_start :: u64
  bc_count :: u32
  bc_datasize :: u32

text \<open>Where the program goes at its end: to an address, or to the function \<open>reset_board\<close>.\<close>

datatype exit_target = Jump_to u32 | Reset_board

record 'd board = "'d ms" +
  bd_cmd :: bootdisk_cmd_header
  bd_written :: u32
  bd_tx :: "u8 list list"
  bd_log :: "u8 list"
  board_exit :: bool
  exitaddr :: exit_target

definition initial_board :: "memory \<Rightarrow> 'd \<Rightarrow> 'd board" where
  "initial_board m d = ms.extend (initial_ms m d)
     \<lparr>bd_cmd = \<lparr>bc_magic = 0, bc_cmd = BCMD_NONE, bc_param1 = 0, bc_start = 0, bc_count = 0, bc_datasize = 0\<rparr>,
      bd_written = 0, bd_tx = [], bd_log = [], board_exit = False, exitaddr = Jump_to 0xffff0020\<rparr>"

section \<open>Responses\<close>

definition diskboot_tx :: "u8 list \<Rightarrow> 'd board \<Rightarrow> 'd board" where
  "diskboot_tx bs s = s\<lparr>bd_tx := bd_tx s @ [bs]\<rparr>"

text \<open>The data of a response: bytes of the program, or the memory at an address.\<close>

datatype payload = Bytes "u8 list" | Mem u32

partial_function (option) mem_strlen :: "memory \<Rightarrow> u32 \<Rightarrow> nat option" where
  "mem_strlen m a = (if m a = 0 then Some 0 else do { n \<leftarrow> mem_strlen m (a + 1); Some (Suc n) })"

fun payload_strlen :: "payload \<Rightarrow> memory \<Rightarrow> nat option" where
  "payload_strlen (Bytes bs) m = Some (length (takeWhile (\<lambda>b. b \<noteq> 0) bs))"
| "payload_strlen (Mem a) m = mem_strlen m a"

fun payload_bytes :: "payload \<Rightarrow> nat \<Rightarrow> memory \<Rightarrow> u8 list" where
  "payload_bytes (Bytes bs) n m = take n bs"
| "payload_bytes (Mem a) n m = load_bytes a n m"

definition resp_header :: "u16 \<Rightarrow> u32 \<Rightarrow> u8 list" where
  "resp_header status datasize = bytes16 CMD_MAGIC @ bytes16 status @ bytes32 datasize"

definition send_resp_st :: "payload \<Rightarrow> int \<Rightarrow> u16 \<Rightarrow> 'd board \<Rightarrow> 'd board option" where
  "send_resp_st data datasize status s = do {
     datasize \<leftarrow> (if datasize < 0 then map_option int (payload_strlen data (ms_mem s)) else Some datasize);
     let s = diskboot_tx (resp_header status (of_int datasize)) s;
     Some (if datasize > 0 then diskboot_tx (payload_bytes data (nat datasize) (ms_mem s)) s else s)
   }"

definition send_resp_fail :: "'d board \<Rightarrow> 'd board option" where
  "send_resp_fail = send_resp_st (Bytes []) 0 BRST_FAIL"

definition send_resp_OK :: "payload \<Rightarrow> int \<Rightarrow> 'd board \<Rightarrow> 'd board option" where
  "send_resp_OK data datasize = send_resp_st data datasize BRST_OK"

abbreviation text_bytes :: "string \<Rightarrow> u8 list" where
  "text_bytes t \<equiv> map (of_nat \<circ> of_char) t @ [0]"

section \<open>The flash\<close>

definition nand_disk :: "cfg \<Rightarrow> 'h nfc_hw \<Rightarrow> 'h nst drv disk" where
  "nand_disk C H = \<lparr>disk_read = NAND_LogicRead C H, disk_write = NAND_LogicWrite C H, disk_size = NAND_GetDiskSize C\<rparr>"

text \<open>The memory from the transfer buffer to the heap.\<close>

definition transfer_bytes :: "'d board \<Rightarrow> u8 list" where
  "transfer_bytes s = load_bytes transfer_buffer (unat (malloc_base - transfer_buffer)) (ms_mem s)"

definition boot_read_cmd ::
  "(u8 list \<Rightarrow> 'h nst \<Rightarrow> (int \<times> u8 list \<times> 'h nst) option) \<Rightarrow> 'h nst drv board \<Rightarrow> (int \<times> 'h nst drv board) option" where
  "boot_read_cmd rd s = do {
     (r, buf, n) \<leftarrow> rd (transfer_bytes s) (dr_dev (ms_disk s));
     Some (r, s\<lparr>ms_mem := store_bytes transfer_buffer buf (ms_mem s), ms_disk := (ms_disk s)\<lparr>dr_dev := n\<rparr>\<rparr>)
   }"

definition boot_write_cmd ::
  "(u8 list \<Rightarrow> 'h nst \<Rightarrow> (int \<times> 'h nst) option) \<Rightarrow> 'h nst drv board \<Rightarrow> (int \<times> 'h nst drv board) option" where
  "boot_write_cmd wr s = do {
     (r, n) \<leftarrow> wr (transfer_bytes s) (dr_dev (ms_disk s));
     Some (r, s\<lparr>ms_disk := (ms_disk s)\<lparr>dr_dev := n\<rparr>\<rparr>)
   }"

definition disk_read_cmd :: "cfg \<Rightarrow> 'h nfc_hw \<Rightarrow> u32 \<Rightarrow> u32 \<Rightarrow> u32 \<Rightarrow> 'h nst drv board \<Rightarrow> (int \<times> 'h nst drv board) option" where
  "disk_read_cmd C H param1 start cnt s =
     (if param1 = FMAREA_BOOT0 then boot_read_cmd (PHY_Boot0Read C H start cnt) s
      else if param1 = FMAREA_BOOT1 then boot_read_cmd (PHY_Boot1Read C H start cnt) s
      else do {
        (r, m, d) \<leftarrow> NAND_LogicRead C H start cnt (mem_from transfer_buffer (ms_mem s)) (ms_disk s);
        Some (r, s\<lparr>ms_mem := mem_back transfer_buffer m, ms_disk := d\<rparr>)
      })"

definition disk_write_cmd :: "cfg \<Rightarrow> 'h nfc_hw \<Rightarrow> u32 \<Rightarrow> u32 \<Rightarrow> u32 \<Rightarrow> 'h nst drv board \<Rightarrow> (int \<times> 'h nst drv board) option" where
  "disk_write_cmd C H param1 start cnt s =
     (if param1 = FMAREA_BOOT0 then boot_write_cmd (PHY_Boot0Write C H start cnt) s
      else if param1 = FMAREA_BOOT1 then boot_write_cmd (PHY_Boot1Write C H start cnt) s
      else do {
        (r, d) \<leftarrow> LML_Write (physic C H) C start cnt (mem_from transfer_buffer (ms_mem s)) (ms_disk s);
        if r = 0 then do {
          (r, d) \<leftarrow> LML_FlushPageCache (physic C H) C d;
          Some (r, s\<lparr>ms_disk := d\<rparr>)
        } else Some (r, s\<lparr>ms_disk := d\<rparr>)
      })"

definition props_bytes :: "flash_props \<Rightarrow> u8 list" where
  "props_bytes p = bytes_of_words
     (concat (map (\<lambda>a. [fa_sectors_per_page a, fa_first_pageno a, fa_page_count a]) (fp_areas p))
      @ [fp_sectors_per_page p, fp_pages_per_block p, fp_blocks_per_chip p, fp_chip_cnt p,
         fp_pagewithbadflag p, fp_block_cnt_of_zone p])"

section \<open>The commands\<close>

text \<open>The code that \<open>BCMD_MEMEXEC\<close> calls is the host's, the parameter \<open>X\<close>.\<close>

type_synonym 'h code = "u32 \<Rightarrow> 'h nst drv board \<Rightarrow> 'h nst drv board option"

definition status_of :: "(int \<times> 'd board) \<Rightarrow> payload \<Rightarrow> int \<Rightarrow> 'd board option" where
  "status_of rs data datasize =
     (case rs of (r, s) \<Rightarrow> if r = 0 then send_resp_OK data datasize s else send_resp_fail s)"

definition board_exit_cmd :: "u32 \<Rightarrow> 'd board \<Rightarrow> 'd board option" where
  "board_exit_cmd param1 s =
     (if param1 = BE_GO_FEL then do {
        s \<leftarrow> send_resp_OK (Bytes (text_bytes ''going to FEL...'')) (- 1) s;
        Some (s\<lparr>board_exit := True, exitaddr := Jump_to 0xffff0020\<rparr>)
      }
      else if param1 = BE_BOARD_RESET then do {
        s \<leftarrow> send_resp_OK (Bytes (text_bytes ''board reset...'')) (- 1) s;
        Some (s\<lparr>board_exit := True, exitaddr := Reset_board\<rparr>)
      }
      else Some s)"

definition mount_status_bytes :: "bool \<times> u32 \<times> u32 \<times> bool \<Rightarrow> u8 list" where
  "mount_status_bytes st =
     (case st of (open, first, n, rw) \<Rightarrow>
        if open then bytes_of_words [if rw then MOUNTM_RW else MOUNTM_RO, first, n]
        else bytes_of_words [MOUNTM_NOMOUNT, 0, 0])"

definition dispatch_cmd ::
  "cfg \<Rightarrow> fmt_par \<Rightarrow> 'h nfc_hw \<Rightarrow> 'h code \<Rightarrow> u16 \<Rightarrow> u32 \<Rightarrow> u64 \<Rightarrow> u32 \<Rightarrow> u32 \<Rightarrow> 'h nst drv board
   \<Rightarrow> 'h nst drv board option" where
  "dispatch_cmd C F H X cmd param1 start cnt datasize s =
     (if cmd = BCMD_FLASHMEM_PARAMS then
        (let p = props_bytes (FMT_GetFlashMemProperties C F) in send_resp_OK (Bytes p) (int (length p)) s)
      else if cmd = BCMD_BOARD_EXIT then board_exit_cmd param1 s
      else if cmd = BCMD_PING then send_resp_OK (Bytes []) 0 s
      else if cmd = BCMD_GETLOG then do {
        s \<leftarrow> send_resp_OK (Bytes (bd_log s)) (int (length (bd_log s))) s;
        Some (if param1 \<noteq> 0 then s\<lparr>bd_log := []\<rparr> else s)
      }
      else if cmd = BCMD_SLEEPTEST then send_resp_OK (Bytes []) 0 s
      else if cmd = BCMD_DISKREAD then do {
        rs \<leftarrow> disk_read_cmd C H param1 (ucast start) cnt s;
        status_of rs (Mem transfer_buffer) (sint (push_bit 9 cnt))
      }
      else if cmd = BCMD_DISKWRITE then do {
        rs \<leftarrow> disk_write_cmd C H param1 (ucast start) (datasize div 512) s;
        status_of rs (Bytes []) 0
      }
      else if cmd = BCMD_MEMREAD then send_resp_OK (Mem (ucast start)) (sint cnt) s
      else if cmd = BCMD_MEMWRITE then
        send_resp_OK (Bytes []) 0
          (s\<lparr>ms_mem := store_bytes (ucast start) (load_bytes transfer_buffer (unat datasize) (ms_mem s)) (ms_mem s)\<rparr>)
      else if cmd = BCMD_MEMEXEC then do { s \<leftarrow> X (ucast start) s; send_resp_OK (Bytes []) 0 s }
      else if cmd = BCMD_MEMJUMPTO then
        send_resp_OK (Bytes []) 0 (s\<lparr>board_exit := True, exitaddr := Jump_to (ucast start)\<rparr>)
      else if cmd = BCMD_MOUNT then do {
        (r, s) \<leftarrow> masstorage_mount (nand_disk C H) (ucast start) cnt (sint param1) s;
        if r \<noteq> 0 then send_resp_fail s else send_resp_OK (Bytes []) 0 s
      }
      else if cmd = BCMD_GETMOUNT_STATUS then do {
        st \<leftarrow> masstorage_getstatus s;
        send_resp_OK (Bytes (mount_status_bytes st)) 12 s
      }
      else send_resp_fail s)"

section \<open>Received packets\<close>

definition parse_header :: "u8 list \<Rightarrow> bootdisk_cmd_header" where
  "parse_header p =
     (let ws = words_of_bytes p in
      \<lparr>bc_magic = lo32 (ws ! 0), bc_cmd = hi32 (ws ! 0), bc_param1 = ws ! 1,
       bc_start = ucast (ws ! 2) OR push_bit 32 (ucast (ws ! 3)), bc_count = ws ! 4, bc_datasize = ws ! 5\<rparr>)"

definition rx_cmd_data :: "u8 list \<Rightarrow> 'd board \<Rightarrow> 'd board" where
  "rx_cmd_data p s =
     (let to_write = bc_datasize (bd_cmd s) - bd_written s;
          to_write = (if of_nat (length p) \<le> to_write then of_nat (length p) else to_write)
      in s\<lparr>ms_mem := store_bytes (transfer_buffer + bd_written s) (take (unat to_write) p) (ms_mem s),
           bd_written := bd_written s + to_write\<rparr>)"

definition rx_dispatch ::
  "cfg \<Rightarrow> fmt_par \<Rightarrow> 'h nfc_hw \<Rightarrow> 'h code \<Rightarrow> 'h nst drv board \<Rightarrow> 'h nst drv board option" where
  "rx_dispatch C F H X s =
     (if bd_written s = bc_datasize (bd_cmd s) then do {
        let c = bd_cmd s;
        s \<leftarrow> dispatch_cmd C F H X (bc_cmd c) (bc_param1 c) (bc_start c) (bc_count c) (bc_datasize c) s;
        Some (s\<lparr>bd_cmd := (bd_cmd s)\<lparr>bc_cmd := BCMD_NONE\<rparr>\<rparr>)
      } else Some s)"

definition diskboot_rx_handler ::
  "cfg \<Rightarrow> fmt_par \<Rightarrow> 'h nfc_hw \<Rightarrow> 'h code \<Rightarrow> u8 list \<Rightarrow> 'h nst drv board \<Rightarrow> 'h nst drv board option" where
  "diskboot_rx_handler C F H X p s =
     (if bc_cmd (bd_cmd s) = BCMD_NONE then
        if length p \<noteq> 24 then Some s
        else let s = s\<lparr>bd_cmd := parse_header p\<rparr> in
             if bc_magic (bd_cmd s) \<noteq> CMD_MAGIC then Some s
             else if bc_datasize (bd_cmd s) > 0x1000000 then Some s
             else rx_dispatch C F H X (s\<lparr>bd_written := 0\<rparr>)
      else rx_dispatch C F H X (rx_cmd_data p s))"

definition diskboot_reset_handler :: "'d board \<Rightarrow> 'd board" where
  "diskboot_reset_handler s = s\<lparr>bd_cmd := (bd_cmd s)\<lparr>bc_cmd := BCMD_NONE\<rparr>\<rparr>"

section \<open>The main loop\<close>

text \<open>What a call of \<open>usbdcomm_poll\<close> does: it hands a packet to one of the handlers, reports an error or the end
  of the connection, or none of these. A reset of the bus touches the registers of the controller only: the
  command that is being received is kept.\<close>

datatype poll_event =
  Diskboot_packet "u8 list" | Masstorage_packet "u8 list" | Bus_reset | No_event | Poll_error | Poll_disconnect

definition poll_step ::
  "cfg \<Rightarrow> fmt_par \<Rightarrow> 'h nfc_hw \<Rightarrow> 'h code \<Rightarrow> poll_event \<Rightarrow> 'h nst drv board \<Rightarrow> 'h nst drv board option" where
  "poll_step C F H X e s =
     (case e of
        Diskboot_packet p \<Rightarrow> diskboot_rx_handler C F H X p s
      | Masstorage_packet p \<Rightarrow> masstorage_rx_handler (nand_disk C H) p s
      | Bus_reset \<Rightarrow> Some s
      | No_event \<Rightarrow> Some s
      | Poll_error \<Rightarrow> Some s
      | Poll_disconnect \<Rightarrow> Some s)"

text \<open>The loop on a sequence of events; it ends at an error, at the end of the connection, when the host asked
  for it, and here also when the events run out.\<close>

fun poll_loop ::
  "cfg \<Rightarrow> fmt_par \<Rightarrow> 'h nfc_hw \<Rightarrow> 'h code \<Rightarrow> poll_event list \<Rightarrow> 'h nst drv board \<Rightarrow> 'h nst drv board option" where
  "poll_loop C F H X [] s = Some s"
| "poll_loop C F H X (e # es) s = do {
     s \<leftarrow> poll_step C F H X e s;
     if e = Poll_error \<or> e = Poll_disconnect then Some s
     else if board_exit s then Some s
     else poll_loop C F H X es s
   }"

text \<open>The static variables of the format module before \<open>FMT_Init\<close>.\<close>

definition no_fmt_par :: fmt_par where
  "no_fmt_par = \<lparr>DieCntOfNand = 0, SuperBlkCntOfDie = 0, DIE0_FIRST_BLK_NUM = 0\<rparr>"

text \<open>The result of \<open>NAND_Init\<close> is not looked at. \<open>usb\<close> tells whether \<open>usbdcomm_init\<close> returns 0. The clocks and
  the allocator, which \<open>Heap_Alloc\<close> models, are left out.\<close>

definition main_loop ::
  "cfg \<Rightarrow> 'h nfc_hw \<Rightarrow> 'h code \<Rightarrow> drv_mem \<Rightarrow> bool \<Rightarrow> poll_event list \<Rightarrow> 'h nst drv board
   \<Rightarrow> (exit_target \<times> 'h nst drv board) option" where
  "main_loop C H X M usb es s = do {
     (_, F, C, d) \<leftarrow> NAND_Init C H M (ms_disk s);
     let F = (case F of None \<Rightarrow> no_fmt_par | Some F \<Rightarrow> F);
     let s = s\<lparr>ms_disk := d\<rparr>;
     s \<leftarrow> (if usb then poll_loop C F H X es s else Some s);
     (_, d) \<leftarrow> NAND_Exit C H (ms_disk s);
     let s = diskboot_reset_handler (s\<lparr>ms_disk := d\<rparr>);
     Some (exitaddr s, s)
   }"

end
