(* ===== verification/Host_Usb.thy ===== *)
theory Host_Usb
  imports Boot_Disk
begin

text \<open>
  The host's side of the command protocol, \<open>usbcomm.c\<close>: commands with their data, responses, and what the
  host learns about the flash from them: its areas and the partition table of the logical disk.

  \<open>libusb\<close> is the parameter \<open>link\<close>, two bulk transfers over an arbitrary state: \<open>bulk_out\<close> sends bytes,
  \<open>bulk_in\<close> gives up to so many bytes; each returns a status that is 0 on success. A call of \<open>exit\<close> is a value
  of \<open>outcome\<close>; \<^term>\<open>None\<close> is a transfer that does not return, or a loop that does not end. The host is
  little-endian with 64 bit \<open>unsigned long\<close>. Messages to the user are left out; the bytes of a response that
  are printed are kept.
\<close>

section \<open>State\<close>

definition BRST_MSG :: u16 where "BRST_MSG = 2"
definition FMAREA_PHYDISK :: u32 where "FMAREA_PHYDISK = 2"
definition FMAREA_LOGDISK :: u32 where "FMAREA_LOGDISK = 3"
definition FMAREA_COUNT :: u32 where "FMAREA_COUNT = 4"

record 'u link =
  bulk_out :: "u8 list \<Rightarrow> 'u \<Rightarrow> (int \<times> 'u) option"
  bulk_in :: "int \<Rightarrow> 'u \<Rightarrow> (int \<times> u8 list \<times> 'u) option"

record resp_hdr =
  rh_magic :: u16
  rh_status :: u16
  rh_datasize :: u32

record mbr_partition =
  mp_firstSector :: u64
  mp_sectorCount :: u64
  mp_classname :: string
  mp_name :: string
  mp_user_type :: u32
  mp_ro :: u32

record mbr_data =
  md_version :: u32
  md_partitions :: "mbr_partition list"

text \<open>\<open>hs_file\<close> is the file that a command writes. \<open>hs_mbr\<close> is \<^term>\<open>None\<close> while \<open>isValid\<close> is -1; \<^term>\<open>Some None\<close> is a disk without a valid table.\<close>

record 'u host =
  hs_usb :: 'u
  cur_resp :: resp_hdr
  hs_stdout :: "u8 list"
  hs_file :: "u8 list"
  hs_props :: "flash_props option"
  hs_mbr :: "mbr_data option option"

datatype 'a outcome = Exits int | Returns 'a

type_synonym ('a, 's) run = "('a outcome \<times> 's) option"

definition hbind :: "('a, 's) run \<Rightarrow> ('a \<Rightarrow> 's \<Rightarrow> ('b, 's) run) \<Rightarrow> ('b, 's) run" where
  "hbind m f = do {
     (r, s) \<leftarrow> m;
     case r of Exits e \<Rightarrow> Some (Exits e, s) | Returns a \<Rightarrow> f a s
   }"

definition initial_host :: "'u \<Rightarrow> 'u host" where
  "initial_host u = \<lparr>hs_usb = u, cur_resp = \<lparr>rh_magic = 0, rh_status = 0, rh_datasize = 0\<rparr>,
     hs_stdout = [], hs_file = [], hs_props = None, hs_mbr = None\<rparr>"

section \<open>Commands and responses\<close>

definition recv_data :: "nat \<Rightarrow> 'u \<Rightarrow> 'u host \<Rightarrow> 'u host" where
  "recv_data n u s = s\<lparr>hs_usb := u, cur_resp := (cur_resp s)\<lparr>rh_datasize := rh_datasize (cur_resp s) - of_nat n\<rparr>\<rparr>"

partial_function (option) print_response_data :: "'u link \<Rightarrow> 'u host \<Rightarrow> (unit, 'u host) run" where
  "print_response_data L s =
     (if rh_datasize (cur_resp s) > 0 then do {
        let to_read = (if 0x40000 < rh_datasize (cur_resp s) then 0x40000 else sint (rh_datasize (cur_resp s)));
        (status, bs, u) \<leftarrow> bulk_in L to_read (hs_usb s);
        if status \<noteq> 0 then Some (Exits 1, s\<lparr>hs_usb := u\<rparr>)
        else print_response_data L (recv_data (length bs) u (s\<lparr>hs_stdout := hs_stdout s @ bs\<rparr>))
      }
      else Some (Returns (), s))"

definition parse_resp :: "u8 list \<Rightarrow> resp_hdr" where
  "parse_resp p = (let ws = words_of_bytes p in
     \<lparr>rh_magic = lo32 (ws ! 0), rh_status = hi32 (ws ! 0), rh_datasize = ws ! 1\<rparr>)"

text \<open>The magic number of a response is checked for a message only.\<close>

partial_function (option) read_response :: "'u link \<Rightarrow> 'u host \<Rightarrow> (unit, 'u host) run" where
  "read_response L s = do {
     (status, bs, u) \<leftarrow> bulk_in L 8 (hs_usb s);
     if status \<noteq> 0 \<or> length bs \<noteq> 8 then Some (Exits 1, s\<lparr>hs_usb := u\<rparr>)
     else do {
       let s = s\<lparr>hs_usb := u, cur_resp := parse_resp bs\<rparr>;
       if rh_status (cur_resp s) = BRST_MSG then do {
         (r, s) \<leftarrow> print_response_data L s;
         case r of Exits e \<Rightarrow> Some (Exits e, s) | Returns _ \<Rightarrow> read_response L s
       }
       else Some (Returns (), s)
     }
   }"

definition cmd_header_bytes :: "u16 \<Rightarrow> u32 \<Rightarrow> u64 \<Rightarrow> u32 \<Rightarrow> u32 \<Rightarrow> u8 list" where
  "cmd_header_bytes cmd param1 start cnt datasize =
     bytes16 CMD_MAGIC @ bytes16 cmd @ bytes32 param1 @ bytes32 (ucast start) @ bytes32 (ucast (drop_bit 32 start))
     @ bytes32 cnt @ bytes32 datasize"

text \<open>The data of a command is the caller's buffer. The response's size comes back as an \<open>int\<close>.\<close>

definition send_command :: "'u link \<Rightarrow> u16 \<Rightarrow> u32 \<Rightarrow> u64 \<Rightarrow> u32 \<Rightarrow> u8 list \<Rightarrow> 'u host \<Rightarrow> (int, 'u host) run" where
  "send_command L cmd param1 start cnt data s =
     (if rh_datasize (cur_resp s) > 0 then Some (Exits 1, s)
      else do {
        (status, u) \<leftarrow> bulk_out L (cmd_header_bytes cmd param1 start cnt (of_nat (length data))) (hs_usb s);
        let s = s\<lparr>hs_usb := u\<rparr>;
        if status \<noteq> 0 then Some (Exits 1, s)
        else do {
          (status, u) \<leftarrow> (if data \<noteq> [] then bulk_out L data (hs_usb s) else Some (0, hs_usb s));
          let s = s\<lparr>hs_usb := u\<rparr>;
          if status \<noteq> 0 then Some (Exits 1, s)
          else hbind (read_response L s) (\<lambda>_ s.
            if rh_status (cur_resp s) = BRST_FAIL then Some (Exits 1, s)
            else Some (Returns (sint (rh_datasize (cur_resp s))), s))
        }
      })"

partial_function (option) response_loop :: "'u link \<Rightarrow> u8 list \<Rightarrow> 'u host \<Rightarrow> (u8 list, 'u host) run" where
  "response_loop L buf s =
     (if rh_datasize (cur_resp s) > 0 then do {
        (status, bs, u) \<leftarrow> bulk_in L (sint (rh_datasize (cur_resp s))) (hs_usb s);
        if status \<noteq> 0 then Some (Exits 1, s\<lparr>hs_usb := u\<rparr>)
        else response_loop L (buf @ bs) (recv_data (length bs) u s)
      }
      else Some (Returns buf, s))"

definition get_response_data :: "'u link \<Rightarrow> u32 \<Rightarrow> 'u host \<Rightarrow> (u8 list, 'u host) run" where
  "get_response_data L bufsize s =
     (if bufsize \<noteq> rh_datasize (cur_resp s) then Some (Exits 1, s) else response_loop L [] s)"

section \<open>The disk\<close>

definition read_disk :: "'u link \<Rightarrow> u32 \<Rightarrow> u64 \<Rightarrow> u64 \<Rightarrow> 'u host \<Rightarrow> (u8 list, 'u host) run" where
  "read_disk L fmarea first cnt s =
     hbind (send_command L BCMD_DISKREAD fmarea first (ucast cnt) [] s) (\<lambda>_.
       get_response_data L (ucast (cnt * 512)))"

text \<open>\<open>count * 512\<close> bytes of the buffer are sent, as an \<open>unsigned\<close>; behind its end they are not defined.\<close>

definition write_disk :: "'u link \<Rightarrow> u32 \<Rightarrow> u64 \<Rightarrow> u64 \<Rightarrow> u8 list \<Rightarrow> 'u host \<Rightarrow> (unit, 'u host) run" where
  "write_disk L fmarea first cnt wrbuf s = do {
     data \<leftarrow> mem_get wrbuf 0 (unat (ucast (cnt * 512) :: u32));
     hbind (send_command L BCMD_DISKWRITE fmarea first (ucast cnt) data s) (\<lambda>_ s. Some (Returns (), s))
   }"

definition parse_props :: "u8 list \<Rightarrow> flash_props" where
  "parse_props p = (let ws = words_of_bytes p in
     \<lparr>fp_areas = map (\<lambda>i. \<lparr>fa_sectors_per_page = ws ! (3 * i), fa_first_pageno = ws ! (3 * i + 1),
        fa_page_count = ws ! (3 * i + 2)\<rparr>) [0..<4],
      fp_sectors_per_page = ws ! 12, fp_pages_per_block = ws ! 13, fp_blocks_per_chip = ws ! 14,
      fp_chip_cnt = ws ! 15, fp_pagewithbadflag = ws ! 16, fp_block_cnt_of_zone = ws ! 17\<rparr>)"

definition get_flashmem_props :: "'u link \<Rightarrow> 'u host \<Rightarrow> (flash_props, 'u host) run" where
  "get_flashmem_props L s =
     (case hs_props s of
        Some p \<Rightarrow> Some (Returns p, s)
      | None \<Rightarrow>
          hbind (send_command L BCMD_FLASHMEM_PARAMS 0 0 0 [] s) (\<lambda>_ s.
          hbind (get_response_data L 72 s) (\<lambda>bs s.
            Some (Returns (parse_props bs), s\<lparr>hs_props := Some (parse_props bs)\<rparr>))))"

section \<open>The partition table\<close>

definition MBR_MAGIC :: "u8 list" where
  "MBR_MAGIC = map (of_nat \<circ> of_char) ''softw311''"

definition MBR_MAX_PART_COUNT :: nat where "MBR_MAX_PART_COUNT = 15"

definition le32_at :: "u8 list \<Rightarrow> nat \<Rightarrow> u32" where
  "le32_at bs i = mk32 (mk16 (bs ! i) (bs ! (i + 1))) (mk16 (bs ! (i + 2)) (bs ! (i + 3)))"

text \<open>A name of at most \<open>n\<close> bytes, up to the first 0.\<close>

definition name_at :: "u8 list \<Rightarrow> nat \<Rightarrow> nat \<Rightarrow> string" where
  "name_at bs i n = map (\<lambda>b. char_of (unat b)) (takeWhile (\<lambda>b. b \<noteq> 0) (take n (drop i bs)))"

definition long_at :: "u8 list \<Rightarrow> nat \<Rightarrow> u64" where
  "long_at bs i = push_bit 32 (ucast (le32_at bs i)) + ucast (le32_at bs (i + 4))"

definition parse_partition :: "u8 list \<Rightarrow> nat \<Rightarrow> mbr_partition" where
  "parse_partition mbr i = (let off = 20 + 64 * i in
     \<lparr>mp_firstSector = long_at mbr off, mp_sectorCount = long_at mbr (off + 8),
      mp_classname = name_at mbr (off + 16) 12, mp_name = name_at mbr (off + 28) 12,
      mp_user_type = le32_at mbr (off + 40), mp_ro = le32_at mbr (off + 44)\<rparr>)"

definition parse_mbr :: "u8 list \<Rightarrow> mbr_data option" where
  "parse_mbr mbr =
     (if take 8 (drop 8 mbr) \<noteq> MBR_MAGIC then None
      else let n = unat (mk16 (mbr ! 18) (mbr ! 19)) in
           if n > MBR_MAX_PART_COUNT then None
           else Some \<lparr>md_version = le32_at mbr 4, md_partitions = map (parse_partition mbr) [0..<n]\<rparr>)"

definition getPartitionData :: "'u link \<Rightarrow> 'u host \<Rightarrow> (mbr_data option, 'u host) run" where
  "getPartitionData L s =
     (case hs_mbr s of
        Some d \<Rightarrow> Some (Returns d, s)
      | None \<Rightarrow> hbind (read_disk L FMAREA_LOGDISK 0 2 s) (\<lambda>mbr s.
          Some (Returns (parse_mbr mbr), s\<lparr>hs_mbr := Some (parse_mbr mbr)\<rparr>)))"

definition getMbrVersion :: "'u link \<Rightarrow> 'u host \<Rightarrow> (int, 'u host) run" where
  "getMbrVersion L s = hbind (getPartitionData L s) (\<lambda>d s.
     Some (Returns (case d of None \<Rightarrow> - 1 | Some d \<Rightarrow> sint (md_version d)), s))"

definition getPartitionCount :: "'u link \<Rightarrow> 'u host \<Rightarrow> (int, 'u host) run" where
  "getPartitionCount L s = hbind (getPartitionData L s) (\<lambda>d s.
     Some (Returns (case d of None \<Rightarrow> - 1 | Some d \<Rightarrow> int (length (md_partitions d))), s))"

text \<open>A negative index is not in the array.\<close>

definition getPartitionNoParams :: "'u link \<Rightarrow> int \<Rightarrow> 'u host \<Rightarrow> (mbr_partition option, 'u host) run" where
  "getPartitionNoParams L i s = hbind (getPartitionData L s) (\<lambda>d s.
     case d of
       None \<Rightarrow> Some (Returns None, s)
     | Some d \<Rightarrow>
         if i \<ge> int (length (md_partitions d)) then Some (Returns None, s)
         else if i < 0 then None
         else Some (Returns (Some (md_partitions d ! nat i)), s))"

section \<open>Numbers\<close>

text \<open>\<open>strtoull\<close> with base 0: the value and the text behind the number; all of the text when it has none.\<close>

definition char_code :: "char \<Rightarrow> nat" where "char_code c = of_char c"

definition digit_val :: "char \<Rightarrow> nat option" where
  "digit_val c = (let k = char_code c in
     if 48 \<le> k \<and> k \<le> 57 then Some (k - 48)
     else if 97 \<le> k \<and> k \<le> 122 then Some (k - 87)
     else if 65 \<le> k \<and> k \<le> 90 then Some (k - 55)
     else None)"

definition is_digit_of :: "nat \<Rightarrow> char \<Rightarrow> bool" where
  "is_digit_of base c = (case digit_val c of None \<Rightarrow> False | Some d \<Rightarrow> d < base)"

fun digits_val :: "nat \<Rightarrow> nat \<Rightarrow> string \<Rightarrow> nat" where
  "digits_val base v [] = v"
| "digits_val base v (c # cs) = digits_val base (v * base + the (digit_val c)) cs"

definition is_space :: "char \<Rightarrow> bool" where
  "is_space c = (char_code c = 32 \<or> 9 \<le> char_code c \<and> char_code c \<le> 13)"

definition number_base :: "string \<Rightarrow> nat \<times> string" where
  "number_base t =
     (if take 1 t = ''0'' then
        if 2 < length t \<and> (t ! 1 = CHR ''x'' \<or> t ! 1 = CHR ''X'') \<and> is_digit_of 16 (t ! 2) then (16, drop 2 t)
        else (8, t)
      else (10, t))"

definition strtoull :: "string \<Rightarrow> u64 \<times> string" where
  "strtoull t =
     (let u = dropWhile is_space t;
          neg = (take 1 u = ''-'');
          u = (if neg \<or> take 1 u = ''+'' then drop 1 u else u);
          (base, u) = number_base u;
          ds = takeWhile (is_digit_of base) u;
          v = digits_val base 0 ds
      in if ds = [] then (0, t)
         else (if v \<ge> 2 ^ 64 then - 1 else if neg then - of_nat v else of_nat v, drop (length ds) u))"

section \<open>Places on the flash\<close>

definition area_size :: "flash_props \<Rightarrow> u32 \<Rightarrow> u64" where
  "area_size p a = ucast (fa_sectors_per_page (fp_areas p ! unat a)) * ucast (fa_page_count (fp_areas p ! unat a))"

definition named_area :: "string \<Rightarrow> u32 option" where
  "named_area t = (if t = ''boot0'' then Some FMAREA_BOOT0 else if t = ''boot1'' then Some FMAREA_BOOT1
     else if t = ''disk-logic'' then Some FMAREA_LOGDISK else None)"

definition starts_with_digit :: "string \<Rightarrow> bool" where
  "starts_with_digit t = (case t of [] \<Rightarrow> False | c # _ \<Rightarrow> 48 \<le> char_code c \<and> char_code c \<le> 57)"

text \<open>The partition of a name, or else of a number, which is converted to an \<open>int\<close>.\<close>

definition find_partition :: "mbr_partition list \<Rightarrow> string \<Rightarrow> mbr_partition option" where
  "find_partition ps t =
     (case find (\<lambda>p. mp_name p = t) ps of
        Some p \<Rightarrow> Some p
      | None \<Rightarrow>
          if starts_with_digit t then
            let i = sint (ucast (fst (strtoull t)) :: u32) in
            if i < 0 \<or> i \<ge> int (length ps) then None else Some (ps ! nat i)
          else None)"

definition partition_place :: "flash_props \<Rightarrow> mbr_data option \<Rightarrow> string \<Rightarrow> (u32 \<times> u64 \<times> u64) option" where
  "partition_place p d t = do {
     d \<leftarrow> d;
     q \<leftarrow> find_partition (md_partitions d) t;
     let disk_size = area_size p FMAREA_LOGDISK;
     if mp_firstSector q \<ge> disk_size \<or> mp_firstSector q + mp_sectorCount q > disk_size then None
     else Some (FMAREA_LOGDISK, mp_firstSector q, mp_sectorCount q)
   }"

definition getParitionParams :: "'u link \<Rightarrow> string \<Rightarrow> 'u host \<Rightarrow> ((u32 \<times> u64 \<times> u64) option, 'u host) run" where
  "getParitionParams L t s =
     hbind (get_flashmem_props L s) (\<lambda>p s.
       case named_area t of
         Some a \<Rightarrow> Some (Returns (Some (a, 0, area_size p a)), s)
       | None \<Rightarrow> hbind (getPartitionData L s) (\<lambda>d s. Some (Returns (partition_place p d t), s)))"

definition get_mountstatus :: "'u link \<Rightarrow> 'u host \<Rightarrow> (u32 \<times> u32 \<times> u32, 'u host) run" where
  "get_mountstatus L s =
     hbind (send_command L BCMD_GETMOUNT_STATUS 0 0 0 [] s) (\<lambda>_ s.
     hbind (get_response_data L 12 s) (\<lambda>bs s.
       Some (Returns (le32_at bs 0, le32_at bs 4, le32_at bs 8), s)))"

end
