(* ===== verification/Host_Tool.thy ===== *)
theory Host_Tool
  imports Host_Usb
begin

text \<open>
  The commands of the host program, \<open>allwindisk.c\<close> and \<open>egon.c\<close>: transfers between files and the flash or
  the memory of the board, filling of memory, and the boot img that is written to the first boot area.

  The operating system is the parameter \<open>host_os\<close>: which files can be created, how many bytes a file may get,
  the pieces that successive calls of \<open>read\<close> with a buffer of a given size deliver, and what new memory
  contains. A command gives a \<open>report\<close>, which stands for what it tells the user; the text, the progress dots
  and the layout of the dumps are left out, and so is the connection to the device (\<open>usbcomm_init\<close>).
\<close>

section \<open>Reports and files\<close>

record host_os =
  os_create :: "string \<Rightarrow> bool"
  os_room :: nat
  os_reads :: "string \<Rightarrow> nat \<Rightarrow> u8 list list option"
  os_malloc :: "nat \<Rightarrow> u8 list"

datatype report =
  Wrong_parameters | Wrong_address | No_such_partition | Beyond_disk | Open_failed | File_write_error
| Volume_mounted | Fill_too_long | Fill_empty | Not_an_image | Image_too_big | Not_implemented | Logical_disk_only
| No_file | Unknown_command | Transferred nat | Jumped u32 | Dumped "u8 list"
| Partitions flash_props "u32 \<times> u32 \<times> u32" "mbr_data option" | Succeeded

type_synonym 'u command = "'u host \<Rightarrow> (report, 'u host) run"

definition report :: "report \<Rightarrow> 'u command" where
  "report r s = Some (Returns r, s)"

definition checkIsMounted :: "'u link \<Rightarrow> 'u host \<Rightarrow> (bool, 'u host) run" where
  "checkIsMounted L s = hbind (get_mountstatus L s) (\<lambda>(mode, _) s. Some (Returns (mode \<noteq> MOUNTM_NOMOUNT), s))"

definition file_write :: "host_os \<Rightarrow> u8 list \<Rightarrow> 'u host \<Rightarrow> bool \<times> 'u host" where
  "file_write S bs s =
     (length (hs_file s) + length bs \<le> os_room S, s\<lparr>hs_file := take (os_room S) (hs_file s @ bs)\<rparr>)"

definition kB_arg :: "string \<Rightarrow> u64" where
  "kB_arg t = push_bit 1 (fst (strtoull t))"

text \<open>An address or a size as an \<open>unsigned\<close>; a size may have a unit behind it.\<close>

definition addr_arg :: "string \<Rightarrow> u32 option" where
  "addr_arg t = (let (v, rest) = strtoull t in if rest \<noteq> [] then None else Some (ucast v))"

definition size_arg :: "string \<Rightarrow> u32 \<times> string" where
  "size_arg t = (let (v, rest) = strtoull t; v = ucast v in
     (if take 1 rest = ''k'' then v * 0x400 else if take 1 rest = ''M'' then v * 0x100000 else v, rest))"

section \<open>Disk transfers\<close>

function (sequential) diskread_loop :: "'u link \<Rightarrow> host_os \<Rightarrow> u32 \<Rightarrow> u64 \<Rightarrow> u64 \<Rightarrow> report \<Rightarrow> 'u command" where
  "diskread_loop L S fmarea first left done s =
     (if left > 0 then
        let to_read = (if left < 1024 then left else 1024) in
        hbind (read_disk L fmarea first to_read s) (\<lambda>bs s.
          let (ok, s) = file_write S bs s in
          if \<not> ok then report File_write_error s
          else diskread_loop L S fmarea (first + to_read) (left - to_read) done s)
      else report done s)"
  by pat_completeness auto

lemma less_after_chunk:
  fixes left :: "'a :: len word"
  assumes "0 < left" "0 < k"
  shows "left - (if left < k then left else k) < left"
  using assms by (auto simp: word_less_nat_alt word_le_nat_alt unat_sub_if' not_less)

termination diskread_loop
  by (relation "measure (\<lambda>(L, S, fmarea, first, left, done, s). unat left)")
    (use less_after_chunk [of _ "1024 :: u64"] in \<open>auto simp: word_less_nat_alt\<close>)

text \<open>The sum of offset and count, and so the check, is one of 64 bit words.\<close>

definition cmd_diskread :: "'u link \<Rightarrow> host_os \<Rightarrow> string list \<Rightarrow> 'u command" where
  "cmd_diskread L S argv s =
     (if length argv \<noteq> 2 \<and> length argv \<noteq> 4 then report Wrong_parameters s
      else hbind (getParitionParams L (argv ! 0) s) (\<lambda>place s.
        case place of
          None \<Rightarrow> report No_such_partition s
        | Some (fmarea, first, sz) \<Rightarrow>
            let (off, cnt) = (if length argv = 4 then (kB_arg (argv ! 1), kB_arg (argv ! 2)) else (0, sz)) in
            if length argv = 4 \<and> off + cnt > sz then report Beyond_disk s
            else if \<not> os_create S (last argv) then report Open_failed s
            else diskread_loop L S fmarea (first + off) cnt (Transferred (unat (cnt div 2))) (s\<lparr>hs_file := []\<rparr>)))"

definition pad_sector :: "u8 list \<Rightarrow> u8 list" where
  "pad_sector bs = bs @ replicate ((512 - length bs mod 512) mod 512) 0xff"

fun diskwrite_loop :: "'u link \<Rightarrow> u32 \<Rightarrow> u64 \<Rightarrow> u64 \<Rightarrow> u64 \<Rightarrow> u8 list list \<Rightarrow> 'u command" where
  "diskwrite_loop L fmarea first cnt most [] s = report (Transferred (unat (cnt div 2))) s"
| "diskwrite_loop L fmarea first cnt most (bs # rest) s =
     (let buf = pad_sector bs; to_wr = of_nat (length buf div 512) in
      if to_wr + cnt > most then
        if most > cnt then
          hbind (write_disk L fmarea first (most - cnt) buf s) (\<lambda>_. report (Transferred (unat (most div 2))))
        else report (Transferred (unat (cnt div 2))) s
      else hbind (write_disk L fmarea first to_wr buf s) (\<lambda>_.
        diskwrite_loop L fmarea (first + to_wr) (cnt + to_wr) most rest))"

definition diskwrite_bufsize :: "flash_props \<Rightarrow> u32 \<Rightarrow> nat" where
  "diskwrite_bufsize p fmarea =
     (if fmarea \<noteq> FMAREA_LOGDISK then
        let n = sint (512 * fa_sectors_per_page (fp_areas p ! unat fmarea) * fp_pages_per_block p)
        in if n > 0x80000 then nat n else 0x80000
      else 0x80000)"

definition cmd_diskwrite :: "'u link \<Rightarrow> host_os \<Rightarrow> string list \<Rightarrow> 'u command" where
  "cmd_diskwrite L S argv s =
     (if length argv \<noteq> 2 \<and> length argv \<noteq> 3 then report Wrong_parameters s
      else hbind (getParitionParams L (argv ! 0) s) (\<lambda>place s.
        case place of
          None \<Rightarrow> report No_such_partition s
        | Some (fmarea, first, sz) \<Rightarrow>
            let off = (if length argv = 3 then kB_arg (argv ! 1) else 0) in
            if length argv = 3 \<and> off > sz then report Beyond_disk s
            else
              hbind (if fmarea \<noteq> FMAREA_LOGDISK then get_flashmem_props L s
                     else Some (Returns (parse_props []), s)) (\<lambda>p s.
                case os_reads S (last argv) (diskwrite_bufsize p fmarea) of
                  None \<Rightarrow> report Open_failed s
                | Some pieces \<Rightarrow> diskwrite_loop L fmarea (first + off) 0 (sz - off) pieces s)))"

section \<open>Memory transfers\<close>

function (sequential) memread_loop ::
  "'u link \<Rightarrow> u32 \<Rightarrow> u32 \<Rightarrow> u32 \<Rightarrow> (u8 list \<Rightarrow> 'u host \<Rightarrow> report option \<times> 'u host) \<Rightarrow> report \<Rightarrow> 'u command" where
  "memread_loop L chunk address left sink done s =
     (if left > 0 \<and> chunk > 0 then
        let to_read = (if left < chunk then left else chunk) in
        hbind (send_command L BCMD_MEMREAD 0 (ucast address) to_read [] s) (\<lambda>_ s.
        hbind (get_response_data L to_read s) (\<lambda>bs s.
          case sink bs s of
            (Some r, s) \<Rightarrow> report r s
          | (None, s) \<Rightarrow> memread_loop L chunk (address + to_read) (left - to_read) sink done s))
      else report done s)"
  by pat_completeness auto

termination memread_loop
  by (relation "measure (\<lambda>(L, chunk, address, left, sink, done, s). unat left)")
    (auto simp: word_less_nat_alt word_le_nat_alt unat_sub_if' not_less)

definition to_file :: "host_os \<Rightarrow> u8 list \<Rightarrow> 'u host \<Rightarrow> report option \<times> 'u host" where
  "to_file S bs s = (let (ok, s) = file_write S bs s in (if ok then None else Some File_write_error, s))"

definition cmd_memread :: "'u link \<Rightarrow> host_os \<Rightarrow> string list \<Rightarrow> 'u command" where
  "cmd_memread L S argv s =
     (if length argv \<noteq> 3 then report Wrong_parameters s
      else case addr_arg (argv ! 0) of
        None \<Rightarrow> report Wrong_address s
      | Some address \<Rightarrow>
          let sz = fst (size_arg (argv ! 1)) in
          if \<not> os_create S (argv ! 2) then report Open_failed s
          else memread_loop L 0x40000 address sz (to_file S) (Transferred (unat sz)) (s\<lparr>hs_file := []\<rparr>))"

text \<open>\<open>mem_write\<close>: the start address, which an image decides itself, or the report of a failure.\<close>

fun send_pieces :: "'u link \<Rightarrow> u32 \<Rightarrow> u8 list list \<Rightarrow> 'u host \<Rightarrow> (unit, 'u host) run" where
  "send_pieces L address [] s = Some (Returns (), s)"
| "send_pieces L address (bs # rest) s =
     hbind (send_command L BCMD_MEMWRITE 0 (ucast address) 0 bs s) (\<lambda>_.
       send_pieces L (address + of_nat (length bs)) rest)"

definition image_kind :: "u8 list \<Rightarrow> nat option" where
  "image_kind bs = (if length bs \<ge> 20 \<and> take 8 (drop 4 bs) = map (of_nat \<circ> of_char) ''eGON.BT0'' then Some 0
     else if length bs \<ge> 20 \<and> take 8 (drop 4 bs) = map (of_nat \<circ> of_char) ''eGON.BT1'' then Some 1
     else None)"

definition image_address :: "u8 list \<Rightarrow> u32 option" where
  "image_address bs = (case image_kind bs of None \<Rightarrow> None | Some k \<Rightarrow> Some (if k = 0 then 0 else 0x42400000))"

definition mem_write :: "'u link \<Rightarrow> host_os \<Rightarrow> string \<Rightarrow> bool \<Rightarrow> u32 \<Rightarrow> 'u host \<Rightarrow> (report + u32, 'u host) run" where
  "mem_write L S fname default_addr start s =
     (case os_reads S fname 0x40000 of
        None \<Rightarrow> Some (Returns (Inl Open_failed), s)
      | Some pieces \<Rightarrow>
          (case (if default_addr \<and> pieces \<noteq> [] then image_address (hd pieces) else Some start) of
             None \<Rightarrow> Some (Returns (Inl Not_an_image), s)
           | Some start \<Rightarrow> hbind (send_pieces L start pieces s) (\<lambda>_ s. Some (Returns (Inr start), s))))"

definition cmd_memwrexec :: "'u link \<Rightarrow> host_os \<Rightarrow> string list \<Rightarrow> u16 \<Rightarrow> 'u command" where
  "cmd_memwrexec L S argv cmd s =
     (if length argv \<noteq> 1 \<and> length argv \<noteq> 2 then report Wrong_parameters s
      else hbind (if cmd = BCMD_MEMJUMPTO then checkIsMounted L s else Some (Returns False, s)) (\<lambda>mounted s.
        if mounted then report Volume_mounted s
        else
          let address = ucast (fst (strtoull (argv ! 0))) in
          hbind (if length argv = 1 then Some (Returns (Inr address), s) else mem_write L S (argv ! 1) False address s)
            (\<lambda>r s. case r of
               Inl e \<Rightarrow> report e s
             | Inr start \<Rightarrow>
                 if length argv = 2 \<and> start = 0xffffffff then report Succeeded s
                 else if cmd = BCMD_NONE then report Succeeded s
                 else hbind (send_command L cmd 0 (ucast address) 0 [] s) (\<lambda>_.
                   report (if cmd = BCMD_MEMEXEC then Succeeded else Jumped address)))))"

definition cmd_egonjumpto :: "'u link \<Rightarrow> host_os \<Rightarrow> string option \<Rightarrow> 'u command" where
  "cmd_egonjumpto L S fname s =
     hbind (checkIsMounted L s) (\<lambda>mounted s.
       if mounted then report Volume_mounted s
       else case fname of
         None \<Rightarrow> report No_file s
       | Some f \<Rightarrow> hbind (mem_write L S f True 0 s) (\<lambda>r s.
           case r of
             Inl e \<Rightarrow> report e s
           | Inr address \<Rightarrow>
               if address = 0xffffffff then report Succeeded s
               else hbind (send_command L BCMD_MEMJUMPTO 0 (ucast address) 0 [] s) (\<lambda>_. report (Jumped address))))"

section \<open>Filling memory\<close>

definition char_byte :: "char \<Rightarrow> u8" where "char_byte c = of_nat (char_code c)"

definition is_octal :: "char \<Rightarrow> bool" where "is_octal c = (48 \<le> char_code c \<and> char_code c \<le> 55)"

definition is_hex :: "char \<Rightarrow> bool" where "is_hex c = is_digit_of 16 c"

text \<open>The bytes one step of the loop over the fill string writes, and the text it leaves.\<close>

definition simple_escape :: "char \<Rightarrow> u8 option" where
  "simple_escape c = (if c = CHR ''a'' then Some 7 else if c = CHR ''b'' then Some 8 else if c = CHR ''f'' then Some 12
     else if c = CHR ''n'' then Some 10 else if c = CHR ''r'' then Some 13 else if c = CHR ''t'' then Some 9
     else if c = CHR ''v'' then Some 11 else if char_code c = 92 then Some 92 else None)"

definition backslash :: char where "backslash = char_of (92 :: nat)"

definition escape_step :: "string \<Rightarrow> u8 list \<times> string" where
  "escape_step t =
     (case t of
        [] \<Rightarrow> ([92], [])
      | c # cs \<Rightarrow>
          (case simple_escape c of
             Some b \<Rightarrow> ([b], cs)
           | None \<Rightarrow>
               if c = CHR ''x'' then
                 let ds = takeWhile is_hex (take 2 cs) in ([of_nat (digits_val 16 0 ds)], drop (length ds) cs)
               else if is_octal c then
                 let ds = takeWhile is_octal (take 3 (c # cs)) in ([of_nat (digits_val 8 0 ds)], drop (length ds) (c # cs))
               else ([92, char_byte c], cs)))"

lemma escape_step_shorter: "(bs, rest) = escape_step t \<Longrightarrow> length rest < Suc (length t)"
  by (auto simp: escape_step_def Let_def split: list.splits option.splits if_splits)

definition fill_bufsize :: nat where "fill_bufsize = 0x4000"

text \<open>The buffer has \<open>fill_bufsize\<close> bytes; \<open>dest\<close> is its filled part, and a byte behind its end is undefined.\<close>

function (sequential) unescape :: "string \<Rightarrow> u8 list \<Rightarrow> (report + u8 list) option" where
  "unescape [] dest = Some (Inr dest)"
| "unescape (c # cs) dest =
     (if length dest \<ge> fill_bufsize - 1 then Some (Inl Fill_too_long)
      else
        let (bs, rest) = (if c = backslash then escape_step cs else ([char_byte c], cs)) in
        if length dest + length bs > fill_bufsize then None
        else unescape rest (dest @ bs))"
  by pat_completeness auto

termination unescape
  by (relation "measure (\<lambda>(t, dest). length t)")
    (auto split: if_splits intro: escape_step_shorter)

text \<open>The part of the buffer that is sent at once: the string is doubled while there is room.\<close>

function (sequential) grow_fill :: "u8 list \<Rightarrow> u32 \<Rightarrow> u8 list" where
  "grow_fill buf sz =
     (if buf \<noteq> [] \<and> of_nat (length buf) < sz \<and> 2 * length buf < fill_bufsize then grow_fill (buf @ buf) sz
      else buf)"
  by pat_completeness auto

termination grow_fill
  by (relation "measure (\<lambda>(buf, sz). fill_bufsize - length buf)")
    (auto simp: neq_Nil_conv)

text \<open>\<open>once\<close> starts as the length of the filled part, which is not 0.\<close>

function (sequential) memfill_loop :: "'u link \<Rightarrow> u8 list \<Rightarrow> u32 \<Rightarrow> u32 \<Rightarrow> u32 \<Rightarrow> 'u command" where
  "memfill_loop L buf address left once s =
     (if left > 0 \<and> once > 0 then
        let once = (if once > left then left else once) in
        hbind (send_command L BCMD_MEMWRITE 0 (ucast address) 0 (take (unat once) buf) s) (\<lambda>_.
          memfill_loop L buf (address + once) (left - once) once)
      else report Succeeded s)"
  by pat_completeness auto

termination memfill_loop
  by (relation "measure (\<lambda>(L, buf, address, left, once, s). unat left)")
    (auto simp: word_less_nat_alt word_le_nat_alt unat_sub_if' not_less)

definition cmd_memfill :: "'u link \<Rightarrow> string list \<Rightarrow> 'u command" where
  "cmd_memfill L argv s =
     (if length argv \<noteq> 2 \<and> length argv \<noteq> 3 then report Wrong_parameters s
      else case addr_arg (argv ! 0) of
        None \<Rightarrow> report Wrong_address s
      | Some address \<Rightarrow> do {
          let (sz, repeat) = (if length argv = 3 then
              let (v, rest) = size_arg (argv ! 2) in (v, take 1 rest = ''x'') else (1, True));
          filled \<leftarrow> unescape (argv ! 1) [];
          case filled of
            Inl e \<Rightarrow> report e s
          | Inr fill \<Rightarrow>
              if fill = [] then report Fill_empty s
              else let sz = (if repeat then sz * of_nat (length fill) else sz);
                       buf = grow_fill fill sz
                   in memfill_loop L buf address sz (of_nat (length buf)) s
        })"

section \<open>Dumps and information\<close>

definition add_dump :: "u8 list \<Rightarrow> 'u host \<Rightarrow> report option \<times> 'u host" where
  "add_dump bs s = (None, s\<lparr>hs_stdout := hs_stdout s @ bs\<rparr>)"

definition cmd_memdump :: "'u link \<Rightarrow> string list \<Rightarrow> 'u command" where
  "cmd_memdump L argv s =
     (if length argv \<noteq> 1 \<and> length argv \<noteq> 2 then report Wrong_parameters s
      else case addr_arg (argv ! 0) of
        None \<Rightarrow> report Wrong_address s
      | Some address \<Rightarrow>
          memread_loop L 0x4000 address (if length argv = 2 then fst (size_arg (argv ! 1)) else 256) add_dump Succeeded s)"

function (sequential) diskdump_loop :: "'u link \<Rightarrow> u32 \<Rightarrow> u64 \<Rightarrow> u64 \<Rightarrow> u64 \<Rightarrow> 'u command" where
  "diskdump_loop L fmarea first off left s =
     (if left > 0 then
        let to_read = (if left < 32 then left else 32) in
        hbind (read_disk L fmarea (first + off) to_read s) (\<lambda>bs s.
          diskdump_loop L fmarea first (off + to_read) (left - to_read) (snd (add_dump bs s)))
      else report Succeeded s)"
  by pat_completeness auto

termination diskdump_loop
  by (relation "measure (\<lambda>(L, fmarea, first, off, left, s). unat left)")
    (use less_after_chunk [of _ "32 :: u64"] in \<open>auto simp: word_less_nat_alt\<close>)

definition cmd_diskdump :: "'u link \<Rightarrow> string list \<Rightarrow> 'u command" where
  "cmd_diskdump L argv s =
     (if length argv < 1 \<or> length argv > 3 then report Wrong_parameters s
      else hbind (getParitionParams L (argv ! 0) s) (\<lambda>place s.
        case place of
          None \<Rightarrow> report No_such_partition s
        | Some (fmarea, first, psize) \<Rightarrow>
            if length argv > 1 then
              let (v, rest) = strtoull (argv ! 1);
                  off = push_bit 1 v;
                  cnt = (if length argv > 2 then kB_arg (argv ! 2) else 1)
              in if rest \<noteq> [] then report Wrong_address s
                 else if off + cnt > psize then report Beyond_disk s
                 else diskdump_loop L fmarea first off cnt s
            else diskdump_loop L fmarea first 0 1 s))"

definition cmd_partitions :: "'u link \<Rightarrow> 'u command" where
  "cmd_partitions L s =
     hbind (get_flashmem_props L s) (\<lambda>p s.
     hbind (get_mountstatus L s) (\<lambda>m s.
     hbind (getPartitionData L s) (\<lambda>d. report (Partitions p m d))))"

section \<open>Control of the board\<close>

definition cmd_board_exit :: "'u link \<Rightarrow> u32 \<Rightarrow> 'u command" where
  "cmd_board_exit L mode s =
     hbind (checkIsMounted L s) (\<lambda>mounted s.
       if mounted then report Volume_mounted s
       else hbind (send_command L BCMD_BOARD_EXIT mode 0 0 [] s) (\<lambda>_ s.
            hbind (print_response_data L s) (\<lambda>_. report Succeeded)))"

definition cmd_log :: "'u link \<Rightarrow> string option \<Rightarrow> 'u command" where
  "cmd_log L par s =
     (let clear = (case par of None \<Rightarrow> False | Some t \<Rightarrow> take 1 t = ''c'') in
      hbind (send_command L BCMD_GETLOG (if clear then 1 else 0) 0 0 [] s) (\<lambda>_ s.
      hbind (print_response_data L s) (\<lambda>_. report Succeeded)))"

definition cmd_sdelay :: "'u link \<Rightarrow> string option \<Rightarrow> 'u command" where
  "cmd_sdelay L tm s =
     hbind (send_command L BCMD_SLEEPTEST (case tm of None \<Rightarrow> 1000000 | Some t \<Rightarrow> ucast (fst (strtoull t))) 0 0 [] s)
       (\<lambda>_. report Succeeded)"

definition cmd_ping :: "'u link \<Rightarrow> 'u command" where
  "cmd_ping L s = hbind (send_command L BCMD_PING 0 0 0 [] s) (\<lambda>_. report Succeeded)"

definition cmd_exposepart :: "'u link \<Rightarrow> string list \<Rightarrow> 'u command" where
  "cmd_exposepart L argv s =
     (if argv = [] then report Wrong_parameters s
      else hbind (getParitionParams L (argv ! 0) s) (\<lambda>place s.
        case place of
          None \<Rightarrow> report No_such_partition s
        | Some (fmarea, first, cnt) \<Rightarrow>
            if fmarea \<noteq> FMAREA_LOGDISK then report Logical_disk_only s
            else hbind (send_command L BCMD_MOUNT (if length argv = 2 \<and> argv ! 1 = ''rw'' then 1 else 0)
                   first (ucast cnt) [] s) (\<lambda>_. report Succeeded)))"

section \<open>The boot image\<close>

definition round_up :: "u32 \<Rightarrow> u32 \<Rightarrow> u32 option" where
  "round_up v r = (if r = 0 then None else Some (if v mod r \<noteq> 0 then v + (r - v mod r) else v))"

text \<open>The sum of the image's words, read in steps of 4 bytes while the start of the step is inside.\<close>

definition image_words :: "u8 list \<Rightarrow> nat \<Rightarrow> u32 list option" where
  "image_words img n = map_option words_of_bytes (mem_get img 0 (4 * ((n + 3) div 4)))"

definition BOOT_STAMP :: u32 where "BOOT_STAMP = 0x5F0A6C39"

definition setBootImgChecksum :: "u8 list \<Rightarrow> nat \<Rightarrow> u8 list option" where
  "setBootImgChecksum img n = do {
     img \<leftarrow> mem_put img 12 (bytes32 BOOT_STAMP);
     ws \<leftarrow> image_words img n;
     mem_put img 12 (bytes32 (sum_list ws))
   }"

fun put_copies :: "u8 list \<Rightarrow> nat \<Rightarrow> nat \<Rightarrow> nat \<Rightarrow> u8 list option" where
  "put_copies buf n i 0 = Some buf"
| "put_copies buf n i (Suc k) = do {
     d \<leftarrow> mem_get buf 0 n;
     buf \<leftarrow> mem_put buf (i * n) d;
     put_copies buf n (i + 1) k
   }"

text \<open>The boot area's content; the two \<open>memset\<close> calls fill as many bytes as the rounded size, not up to it.\<close>

definition boot0_image :: "(nat \<Rightarrow> u8 list) \<Rightarrow> flash_props \<Rightarrow> u8 list \<Rightarrow> u8 list option" where
  "boot0_image mem p img = do {
     let page = fa_sectors_per_page (fp_areas p ! 0) * 512;
     let area = fa_page_count (fp_areas p ! 0) * page;
     let n = of_nat (length img);
     buf \<leftarrow> mem_put (mem (unat area)) 0 img;
     r \<leftarrow> round_up n 1024;
     buf \<leftarrow> mem_put buf (unat n) (replicate (unat r) 0xff);
     let n = r;
     buf \<leftarrow> mem_put buf 16 (bytes32 n);
     buf \<leftarrow> setBootImgChecksum buf (unat n);
     r \<leftarrow> round_up n (64 * page);
     buf \<leftarrow> mem_put buf (unat n) (replicate (unat r) 0xff);
     let n = r;
     let copies = area div n;
     buf \<leftarrow> put_copies buf (unat n) 1 (unat copies - 1);
     mem_put buf (unat (copies * n)) (replicate (unat (area - copies * n)) 0xff)
   }"

definition egon0_embed :: "'u link \<Rightarrow> host_os \<Rightarrow> u8 list \<Rightarrow> 'u command" where
  "egon0_embed L S img s =
     hbind (get_flashmem_props L s) (\<lambda>p s.
       let area = fa_page_count (fp_areas p ! 0) * (fa_sectors_per_page (fp_areas p ! 0) * 512) in
       if of_nat (length img) > area then report Image_too_big s
       else do {
         buf \<leftarrow> boot0_image (os_malloc S) p img;
         hbind (write_disk L FMAREA_BOOT0 0 (ucast (area div 512)) buf s) (\<lambda>_. report Succeeded)
       })"

definition egonfile_embed :: "'u link \<Rightarrow> host_os \<Rightarrow> string \<Rightarrow> 'u command" where
  "egonfile_embed L S fname s =
     (case os_reads S fname 0x200001 of
        None \<Rightarrow> report Open_failed s
      | Some pieces \<Rightarrow>
          let img = (case pieces of [] \<Rightarrow> [] | bs # _ \<Rightarrow> bs) in
          if length img = 0x200001 then report Image_too_big s
          else case image_kind img of
            None \<Rightarrow> report Not_an_image s
          | Some k \<Rightarrow> if k = 0 then egon0_embed L S img s else report Not_implemented s)"

definition cmd_egonembed :: "'u link \<Rightarrow> host_os \<Rightarrow> string option \<Rightarrow> 'u command" where
  "cmd_egonembed L S fname s = (case fname of None \<Rightarrow> report No_file s | Some f \<Rightarrow> egonfile_embed L S f s)"

declare diskread_loop.simps [simp del] memread_loop.simps [simp del] diskdump_loop.simps [simp del]
  memfill_loop.simps [simp del] grow_fill.simps [simp del]

section \<open>The command line\<close>

text \<open>\<open>argv\<close> without the program's name; it is not empty. The words behind the command may be missing. A second
  character of the command is looked at for \<open>b\<close>, \<open>d\<close> and \<open>m\<close> only.\<close>

definition nth_arg :: "string list \<Rightarrow> nat \<Rightarrow> string option" where
  "nth_arg argv i = (if i < length argv then Some (argv ! i) else None)"

definition run_command :: "'u link \<Rightarrow> host_os \<Rightarrow> string list \<Rightarrow> 'u command" where
  "run_command L S argv s =
     (let c = take 1 (hd argv); c2 = take 2 (hd argv); rest = tl argv in
      if c2 = ''bf'' then cmd_board_exit L BE_GO_FEL s
      else if c2 = ''br'' then cmd_board_exit L BE_BOARD_RESET s
      else if c2 = ''dd'' then cmd_diskdump L rest s
      else if c2 = ''dg'' then cmd_egonembed L S (nth_arg argv 1) s
      else if c2 = ''dm'' then cmd_exposepart L rest s
      else if c2 = ''dp'' then cmd_partitions L s
      else if c2 = ''dr'' then cmd_diskread L S rest s
      else if c2 = ''dw'' then cmd_diskwrite L S rest s
      else if c = ''i'' then cmd_ping L s
      else if c = ''l'' then cmd_log L (nth_arg argv 1) s
      else if c2 = ''md'' then cmd_memdump L rest s
      else if c2 = ''mf'' then cmd_memfill L rest s
      else if c2 = ''mg'' then cmd_egonjumpto L S (nth_arg argv 1) s
      else if c2 = ''mj'' then cmd_memwrexec L S rest BCMD_MEMJUMPTO s
      else if c2 = ''mr'' then cmd_memread L S rest s
      else if c2 = ''mw'' then cmd_memwrexec L S rest BCMD_NONE s
      else if c2 = ''mx'' then cmd_memwrexec L S rest BCMD_MEMEXEC s
      else if c = ''S'' then cmd_sdelay L (nth_arg argv 1) s
      else report Unknown_command s)"

end
