(* ===== verification/Mass_Window.thy ===== *)
theory Mass_Window
  imports Mass_Storage
begin

text \<open>
  The mounted window of the mass storage function: what the checks of a command keep, and that no command
  leaves the window. A disk \<open>confined\<close> to a window has undefined behaviour on every access outside it.
\<close>

section \<open>Windows\<close>

definition in_window :: "fsg_lun \<Rightarrow> u32 \<Rightarrow> u32 \<Rightarrow> bool" where
  "in_window l first n \<longleftrightarrow> is_open l \<and> unat (firstSector l) \<le> unat first
     \<and> unat first + unat n \<le> unat (firstSector l) + unat (sectorCount l)"

definition confined :: "'d disk \<Rightarrow> fsg_lun \<Rightarrow> 'd disk" where
  "confined D l = \<lparr>
     disk_read = (\<lambda>first n m d. if in_window l first n then disk_read D first n m d else None),
     disk_write = (\<lambda>first n m d. if in_window l first n \<and> \<not> ro l then disk_write D first n m d else None),
     disk_size = disk_size D\<rparr>"

definition window :: "fsg_lun \<Rightarrow> bool \<times> u32 \<times> u32 \<times> bool" where
  "window l = (is_open l, firstSector l, sectorCount l, ro l)"

definition one_lun :: "('d, 'z) ms_scheme \<Rightarrow> bool" where
  "one_lun s \<longleftrightarrow> nluns s = 1 \<and> lun_no s = 0 \<and> (\<exists>l. luns s = [l]) \<and> (curlun s = None \<or> curlun s = Some 0)"

abbreviation the_lun :: "('d, 'z) ms_scheme \<Rightarrow> fsg_lun" where
  "the_lun s \<equiv> hd (luns s)"

lemma window_sense [simp]:
  "window (l\<lparr>sense_data := a\<rparr>) = window l" "window (l\<lparr>sense_data_info := b\<rparr>) = window l"
  "window (l\<lparr>info_valid := c\<rparr>) = window l" "window (l\<lparr>unit_attention_data := d\<rparr>) = window l"
  by (simp_all add: window_def)

lemma upd_lun_one:
  "one_lun s \<Longrightarrow> upd_lun f s = Some s' \<Longrightarrow> one_lun s' \<and> luns s' = [f (the_lun s)] \<and> curlun s = Some 0
     \<and> s' = s\<lparr>luns := [f (the_lun s)]\<rparr>"
  by (auto simp: one_lun_def upd_lun_def Option.bind_eq_Some_conv)

lemma cur_lun_one: "one_lun s \<Longrightarrow> cur_lun s = Some l \<Longrightarrow> l = the_lun s \<and> curlun s = Some 0"
  by (auto simp: one_lun_def cur_lun_def Option.bind_eq_Some_conv)

text \<open>What the checks keep: the unit's window, the disk, the memory, and the replies.\<close>

definition checked :: "('d, 'z) ms_scheme \<Rightarrow> ('d, 'z) ms_scheme \<Rightarrow> bool" where
  "checked s s' \<longleftrightarrow> one_lun s' \<and> window (the_lun s') = window (the_lun s) \<and> ms_disk s' = ms_disk s
     \<and> ms_mem s' = ms_mem s \<and> ms_tx s' = ms_tx s \<and> ms_written s' = ms_written s"

lemma checked_refl: "one_lun s \<Longrightarrow> checked s s"
  by (simp add: checked_def)

lemma checked_trans: "checked s t \<Longrightarrow> checked t u \<Longrightarrow> checked s u"
  by (simp add: checked_def)

lemma checked_one: "checked s t \<Longrightarrow> one_lun t"
  by (simp add: checked_def)

lemma upd_lun_checked:
  "one_lun s \<Longrightarrow> upd_lun f s = Some s' \<Longrightarrow> (\<And>l. window (f l) = window l) \<Longrightarrow> checked s s'"
  by (drule (1) upd_lun_one) (auto simp: checked_def)

lemma one_lun_upd [simp]:
  "one_lun (s\<lparr>data_size_from_cmnd := a\<rparr>) = one_lun s" "one_lun (s\<lparr>residue := b\<rparr>) = one_lun s"
  "one_lun (s\<lparr>phase_error := c\<rparr>) = one_lun s" "one_lun (s\<lparr>bad_lun_okay := d\<rparr>) = one_lun s"
  "one_lun (s\<lparr>ms_cmd := e\<rparr>) = one_lun s" "one_lun (s\<lparr>ms_mem := m\<rparr>) = one_lun s"
  "one_lun (s\<lparr>ms_disk := dd\<rparr>) = one_lun s" "one_lun (s\<lparr>ms_tx := t\<rparr>) = one_lun s"
  "one_lun (s\<lparr>ms_written := w\<rparr>) = one_lun s"
  by (simp_all add: one_lun_def)

lemma checked_upd [simp]:
  "checked u (s\<lparr>data_size_from_cmnd := a\<rparr>) = checked u s" "checked u (s\<lparr>residue := b\<rparr>) = checked u s"
  "checked u (s\<lparr>phase_error := c\<rparr>) = checked u s" "checked u (s\<lparr>bad_lun_okay := d\<rparr>) = checked u s"
  "checked u (s\<lparr>ms_cmd := e\<rparr>) = checked u s"
  by (simp_all add: checked_def)

lemma check_sizes_checked:
  assumes "one_lun s" and "check_sizes k dir s = (r, s')"
  shows "checked s s'"
proof -
  have "checked s (snd (check_sizes k dir s))"
    unfolding check_sizes_def Let_def by (simp add: checked_refl assms(1))
  with assms(2) show ?thesis by simp
qed

lemma check_lun_checked:
  assumes "one_lun s" and "check_lun s = Some (ok, s')"
  shows "checked s s' \<and> curlun s' = Some 0 \<and> ok"
proof -
  have o: "one_lun (s\<lparr>curlun := Some 0\<rparr>)" "lun_no s < nluns s" "lun_no s = 0" "the_lun (s\<lparr>curlun := Some 0\<rparr>) = the_lun s"
    using assms(1) by (auto simp: one_lun_def)
  from assms(2) o(2,3) consider "s' = s\<lparr>curlun := Some 0\<rparr>" "ok"
    | "upd_lun (\<lambda>l. l\<lparr>sense_data := SS_NO_SENSE, sense_data_info := 0, info_valid := False\<rparr>) (s\<lparr>curlun := Some 0\<rparr>)
       = Some s'" "ok"
    by (auto simp: check_lun_def Let_def Option.bind_eq_Some_conv split: if_splits)
  then show ?thesis
  proof cases
    case 1
    with o show ?thesis by (simp add: checked_def)
  next
    case 2
    with upd_lun_one [OF o(1) 2(1)] o show ?thesis by (auto simp: checked_def)
  qed
qed

lemma fail_with_checked:
  assumes "one_lun s" and "fail_with sd s = Some (r, s')"
  shows "checked s s' \<and> r = - ERR_EINVAL \<and> curlun s' = Some 0 \<and> curlun s = Some 0"
proof -
  from assms(2) have u: "upd_lun (\<lambda>l. l\<lparr>sense_data := sd\<rparr>) s = Some s'" and r: "r = - ERR_EINVAL"
    by (auto simp: fail_with_def Option.bind_eq_Some_conv)
  from upd_lun_checked [OF assms(1) u] have c: "checked s s'" by simp
  from upd_lun_one [OF assms(1) u] have "curlun s = Some 0" "s' = s\<lparr>luns := [(the_lun s)\<lparr>sense_data := sd\<rparr>]\<rparr>"
    by blast+
  then show ?thesis using c r by simp
qed

lemma check_rest_checked:
  assumes "one_lun s" and "check_rest k msk medium s = Some (r, s')"
  shows "checked s s' \<and> curlun s' = curlun s \<and> (r = 0 \<and> medium \<and> curlun s \<noteq> None \<longrightarrow> is_open (the_lun s'))"
proof -
  obtain b1 where b1: "cdb 1 s = Some b1" using assms(2) by (auto simp: check_rest_def Option.bind_eq_Some_conv)
  define t where "t = s\<lparr>ms_cmd := (ms_cmd s)\<lparr>CBWCB := (CBWCB (ms_cmd s))[1 := b1 AND 0x1f]\<rparr>\<rparr>"
  have t: "one_lun t" "checked s t" "curlun t = curlun s" using assms(1) by (simp_all add: t_def checked_refl)
  from assms(2) obtain good where good:
      "(if \<not> good then sense_if_lun SS_INVALID_FIELD_IN_CDB t
        else if curlun t \<noteq> None \<and> medium
        then cur_lun t \<bind> (\<lambda>l. if \<not> is_open l then fail_with SS_MEDIUM_NOT_PRESENT t else Some (0, t))
        else Some (0, t)) = Some (r, s')"
    unfolding check_rest_def b1 Option.bind.simps Let_def t_def [symmetric] by (elim bind_Some_elim) blast
  then consider (bad) "sense_if_lun SS_INVALID_FIELD_IN_CDB t = Some (r, s')"
    | (closed) "fail_with SS_MEDIUM_NOT_PRESENT t = Some (r, s')"
    | (ok) "s' = t" "curlun s \<noteq> None \<and> medium \<longrightarrow> is_open (the_lun t)"
    using cur_lun_one [OF t(1)] t(3) by (auto simp: Option.bind_eq_Some_conv split: if_splits)
  then show ?thesis
  proof cases
    case bad
    with fail_with_checked [OF t(1), of SS_INVALID_FIELD_IN_CDB r s'] t checked_trans [OF t(2)] show ?thesis
      by (auto simp: sense_if_lun_def ERR_EINVAL_def split: if_splits)
  next
    case closed
    with fail_with_checked [OF t(1) closed] t checked_trans [OF t(2)] show ?thesis by (auto simp: ERR_EINVAL_def)
  next
    case ok
    with t show ?thesis by simp
  qed
qed

lemma check_command_checked:
  assumes "one_lun s" and "check_command k dir msk medium s = Some (r, s')"
  shows "checked s s' \<and> (r = 0 \<longrightarrow> curlun s' = Some 0 \<and> (medium \<longrightarrow> is_open (the_lun s')))"
proof -
  obtain kk s1 where 1: "check_sizes k dir s = (kk, s1)" by fastforce
  from check_sizes_checked [OF assms(1) 1] have c1: "checked s s1" .
  show ?thesis
  proof (cases kk)
    case None
    with assms(2) 1 c1 show ?thesis by (auto simp: check_command_def ERR_EINVAL_def)
  next
    case (Some n)
    then obtain ok s2 where 2: "check_lun s1 = Some (ok, s2)"
      using assms(2) 1 by (auto simp: check_command_def Option.bind_eq_Some_conv)
    from check_lun_checked [OF checked_one [OF c1] 2] have c2: "checked s1 s2" "curlun s2 = Some 0" ok by auto
    from assms(2) 1 2 Some \<open>ok\<close> consider
      (att) s3 where "upd_lun (\<lambda>l. l\<lparr>sense_data := unit_attention_data l, unit_attention_data := SS_NO_SENSE\<rparr>) s2 = Some s3"
        "r = - ERR_EINVAL" "s' = s3"
    | (rest) "check_rest n msk medium s2 = Some (r, s')"
      by (auto simp: check_command_def Option.bind_eq_Some_conv split: if_splits)
    then show ?thesis
    proof cases
      case att
      with upd_lun_checked [OF checked_one [OF c2(1)] att(1)] c1 c2 show ?thesis
        by (auto simp: ERR_EINVAL_def intro: checked_trans)
    next
      case rest
      with check_rest_checked [OF checked_one [OF c2(1)] rest] c1 c2 show ?thesis
        by (auto intro: checked_trans)
    qed
  qed
qed

section \<open>Confinement\<close>

definition fits :: "fsg_lun \<Rightarrow> bool" where
  "fits l \<longleftrightarrow> unat (firstSector l) + unat (sectorCount l) \<le> 2 ^ 31"

lemma in_window_cong: "window l = window l' \<Longrightarrow> in_window l = in_window l'"
  by (auto simp: in_window_def window_def fun_eq_iff)

lemma fits_cong: "window l = window l' \<Longrightarrow> fits l = fits l'"
  by (simp add: fits_def window_def)

lemma confined_cong: "window l = window l' \<Longrightarrow> confined D l = confined D l'"
  by (simp add: confined_def in_window_def window_def)

lemma unat_drop9: "unat (drop_bit 9 (x :: u32)) < 8388608"
proof -
  have "unat x div 2 ^ 9 < 2 ^ 23" using unat_u32_bound [of x] by (intro less_mult_imp_div_less) simp
  then show ?thesis by (simp add: drop_bit_eq_div unat_div_distrib)
qed

lemma transfer_in_window:
  assumes "is_open l" "fits l" "unat n < 2 ^ 23" "\<not> beyond_lun lba n l"
  shows "in_window l (firstSector l + lba) n"
proof -
  have a: "unat lba < unat (sectorCount l)" using assms(4) by (simp add: word_less_nat_alt not_le)
  have lim: "unat (sectorCount l) \<le> 2 ^ 31" "unat (firstSector l) + unat lba < 2 ^ 32"
    using assms(2) a by (simp_all add: fits_def)
  have "unat (lba + n) = unat lba + unat n"
    using lim a assms(3) by (subst unat_plus_if') simp
  then have b: "unat lba + unat n \<le> unat (sectorCount l)"
    using assms(4) by (simp add: word_le_nat_alt not_less)
  have "unat (firstSector l + lba) = unat (firstSector l) + unat lba"
    using lim by (subst unat_plus_if') simp
  then show ?thesis using assms(1) b by (simp add: in_window_def)
qed

lemma lun_read_confined: "in_window l first n \<Longrightarrow> lun_read (confined D l) first n s = lun_read D first n s"
  by (simp add: lun_read_def confined_def)

lemma lun_write_confined:
  "in_window l first n \<Longrightarrow> \<not> ro l \<Longrightarrow> lun_write (confined D l) first n s = lun_write D first n s"
  by (simp add: lun_write_def confined_def)

lemma cur_lun_eq: "one_lun s \<Longrightarrow> curlun s = Some 0 \<Longrightarrow> cur_lun s = Some (the_lun s)"
  by (auto simp: one_lun_def cur_lun_def)

lemma do_read_confined:
  assumes "one_lun s" "curlun s = Some 0" "is_open (the_lun s)" "fits (the_lun s)"
  shows "do_read (confined D (the_lun s)) s = do_read D s"
proof -
  have "lun_read (confined D (the_lun s)) (firstSector (the_lun s) + lba) (drop_bit 9 (data_size_from_cmnd s)) s
      = lun_read D (firstSector (the_lun s) + lba) (drop_bit 9 (data_size_from_cmnd s)) s"
    if "\<not> beyond_lun lba (drop_bit 9 (data_size_from_cmnd s)) (the_lun s)" for lba
    by (rule lun_read_confined, rule transfer_in_window) (use assms that in \<open>simp_all add: unat_drop9\<close>)
  then show ?thesis
    unfolding do_read_def cur_lun_eq [OF assms(1,2)] Let_def
    by (auto intro!: Option.bind_cong split: option.split)
qed

lemma do_write_confined:
  assumes "one_lun s" "curlun s = Some 0" "is_open (the_lun s)" "fits (the_lun s)"
  shows "do_write (confined D (the_lun s)) s = do_write D s"
proof -
  have "lun_write (confined D (the_lun s)) (firstSector (the_lun s) + lba) (drop_bit 9 (data_size_from_cmnd s)) s
      = lun_write D (firstSector (the_lun s) + lba) (drop_bit 9 (data_size_from_cmnd s)) s"
    if "\<not> beyond_lun lba (drop_bit 9 (data_size_from_cmnd s)) (the_lun s)" "\<not> ro (the_lun s)" for lba
    by (rule lun_write_confined, rule transfer_in_window) (use assms that in \<open>simp_all add: unat_drop9\<close>)
  then show ?thesis
    unfolding do_write_def cur_lun_eq [OF assms(1,2)] Let_def
    by (auto intro!: Option.bind_cong split: option.split)
qed

lemma verify_loop_confined:
  fixes s :: "('d, 'z) ms_scheme"
  assumes "is_open l" "unat first + unat lba + unat left \<le> unat (firstSector l) + unat (sectorCount l)"
    "unat (firstSector l) \<le> unat first" "fits l"
  shows "verify_loop (confined D l) first lba left s = verify_loop D first lba left s"
  using assms(2)
proof (induction "unat left" arbitrary: lba left s rule: less_induct)
  case less
  let ?a = "if left < 4096 then left else 4096"
  show ?case
  proof (cases "left = 0")
    case True
    then show ?thesis by (simp add: verify_loop.simps)
  next
    case False
    have a: "unat ?a \<le> unat left" by (auto simp: word_less_nat_alt not_less)
    have u: "unat (first + lba) = unat first + unat lba" "unat (lba + ?a) = unat lba + unat ?a"
      "unat (left - ?a) = unat left - unat ?a"
      using less(2) assms(4) a by (auto simp: fits_def unat_plus_if' unat_sub word_le_nat_alt)
    have w: "in_window l (first + lba) ?a"
      using assms(1,3) less(2) a u(1) by (simp add: in_window_def)
    have IH: "verify_loop (confined D l) first (lba + ?a) (left - ?a) t = verify_loop D first (lba + ?a) (left - ?a) t"
      for t :: "('d, 'z) ms_scheme"
      by (rule less(1)) (use less(2) a u verify_less [OF False] in simp_all)
    show ?thesis
      unfolding verify_loop.simps [of "confined D l" first lba left s] verify_loop.simps [of D first lba left s] Let_def
        lun_read_confined [OF w] IH ..
  qed
qed

lemma do_verify_confined:
  assumes "one_lun s" "curlun s = Some 0" "is_open (the_lun s)" "fits (the_lun s)"
  shows "do_verify (confined D (the_lun s)) s = do_verify D s"
proof -
  let ?l = "the_lun s"
  have "verify_loop (confined D ?l) (firstSector ?l) lba (ucast n) s = verify_loop D (firstSector ?l) lba (ucast n) s"
    if "\<not> lba \<ge> sectorCount ?l" "\<not> lba + ucast n > sectorCount ?l" for lba and n :: u16
  proof -
    have n: "unat (ucast n :: u32) < 2 ^ 23" using unat_u16_bound [of n] by (simp add: unsigned_ucast_eq take_bit_nat_eq_self del: unat_u16_bound)
    have "in_window ?l (firstSector ?l + lba) (ucast n)"
      by (rule transfer_in_window) (use assms n that in auto)
    moreover have "unat (firstSector ?l + lba) = unat (firstSector ?l) + unat lba"
      using that(1) assms(4) by (subst unat_plus_if') (simp add: fits_def word_less_nat_alt not_le)
    ultimately show ?thesis
      by (intro verify_loop_confined) (use assms in \<open>auto simp: in_window_def\<close>)
  qed
  then show ?thesis
    unfolding do_verify_def cur_lun_eq [OF assms(1,2)] Let_def
    by (auto intro!: Option.bind_cong)
qed

lemma scsi_case_confined:
  assumes "one_lun s" "fits (the_lun s)"
    and f: "\<And>s. one_lun s \<Longrightarrow> curlun s = Some 0 \<Longrightarrow> is_open (the_lun s) \<Longrightarrow> fits (the_lun s) \<Longrightarrow>
      f (confined D (the_lun s)) s = f D s"
  shows "scsi_case sz k dir msk True (f (confined D (the_lun s))) s = scsi_case sz k dir msk True (f D) s"
proof -
  have "f (confined D (the_lun s)) t = f D t"
    if "check_command k dir msk True (s\<lparr>data_size_from_cmnd := n\<rparr>) = Some (0, t)" for n t
  proof -
    from check_command_checked [OF _ that] assms(1)
    have c: "checked s t" "curlun t = Some 0" "is_open (the_lun t)" by (auto simp: checked_def)
    then have w: "window (the_lun t) = window (the_lun s)" by (simp add: checked_def)
    show ?thesis
      using f [OF checked_one [OF c(1)] c(2,3)] assms(2) fits_cong [OF w] confined_cong [OF w, of D] by simp
  qed
  then show ?thesis unfolding scsi_case_def by (auto intro!: Option.bind_cong)
qed

lemma scsi_switch_confined:
  assumes "one_lun s" "fits (the_lun s)"
  shows "scsi_switch (confined D (the_lun s)) s = scsi_switch D s"
proof -
  note c = scsi_case_confined [OF assms]
  have "scsi_case sz k dir msk True (do_read (confined D (the_lun s))) s = scsi_case sz k dir msk True (do_read D) s"
    "scsi_case sz k dir msk True (do_write (confined D (the_lun s))) s = scsi_case sz k dir msk True (do_write D) s"
    "scsi_case sz k dir msk True (do_verify (confined D (the_lun s))) s = scsi_case sz k dir msk True (do_verify D) s"
    for sz k dir msk
    by (rule c, erule (3) do_read_confined, rule c, erule (3) do_write_confined, rule c, erule (3) do_verify_confined)
  then show ?thesis unfolding scsi_switch_def by presburger
qed

lemma rx_run_confined:
  assumes "one_lun s" "fits (the_lun s)"
  shows "rx_run (confined D (the_lun s)) s = rx_run D s"
  using scsi_switch_confined [of "s\<lparr>phase_error := False\<rparr>" D] assms
  by (simp add: rx_run_def do_scsi_command_def)

text \<open>C23: whatever packet arrives, the handler, with the one unit the program has, reads and writes the disk only inside the window that is mounted,
  as long as the window ends at sector \<open>2 ^ 31\<close> or before (\<open>fits\<close>): it behaves in the same way on a disk that
  fails on any other access, on any access while nothing is mounted, and on any write while the mount is read only.
  \<open>masstorage_mount\<close> also accepts a window whose first sector and count wrap around
  (\<open>mount_wrapped_window\<close>); such a window is excluded.\<close>

theorem masstorage_confined:
  assumes "one_lun s" and "fits (the_lun s)"
  shows "masstorage_rx_handler D p s = masstorage_rx_handler (confined D (the_lun s)) p s"
proof -
  have "rx_run (confined D (the_lun s)) (rx_data p s) = rx_run D (rx_data p s)"
    using rx_run_confined [of "rx_data p s" D] assms by (simp add: rx_data_def Let_def put_buf_def)
  moreover have "rx_run (confined D (the_lun s)) (s\<lparr>ms_cmd := c, ms_written := 0\<rparr>) = rx_run D (s\<lparr>ms_cmd := c, ms_written := 0\<rparr>)" for c
    using rx_run_confined [of "s\<lparr>ms_cmd := c, ms_written := 0\<rparr>" D] assms by simp
  ultimately show ?thesis by (simp add: masstorage_rx_handler_def Let_def)
qed

section \<open>A small disk\<close>

definition ram_disk :: "(nat \<Rightarrow> u8) disk" where
  "ram_disk = \<lparr>
     disk_read = (\<lambda>first n m d. Some (0, \<lambda>a. if 0 \<le> a \<and> a < 512 * int (unat n)
                                     then d (512 * unat first + nat a) else m a, d)),
     disk_write = (\<lambda>first n m d. Some (0, \<lambda>b. if 512 * unat first \<le> b \<and> b < 512 * (unat first + unat n)
                                     then m (int b - int (512 * unat first)) else d b)),
     disk_size = 1024\<rparr>"

definition sample_ms :: "(nat \<Rightarrow> u8) ms" where
  "sample_ms = (initial_ms (\<lambda>_. 0) (\<lambda>b. of_nat b))
     \<lparr>luns := [initial_lun\<lparr>is_open := True, firstSector := 8, sectorCount := 16, ro := False\<rparr>]\<rparr>"

lemma sample_fits [simp]: "fits (initial_lun\<lparr>is_open := True, firstSector := 8, sectorCount := 16, ro := False\<rparr>)"
  by (simp add: fits_def)

lemma sample_ms_simps [simp]:
  "one_lun sample_ms" "cmd_complete sample_ms" "ms_written sample_ms = 0"
  "the_lun sample_ms = initial_lun\<lparr>is_open := True, firstSector := 8, sectorCount := 16, ro := False\<rparr>"
  by (simp_all add: sample_ms_def initial_ms_def one_lun_def cmd_complete_def empty_cbw_def)

lemma masstorage_confined_witness:
  "masstorage_rx_handler ram_disk (replicate 31 0) sample_ms
     = masstorage_rx_handler (confined ram_disk (the_lun sample_ms)) (replicate 31 0) sample_ms"
  by (rule masstorage_confined) simp_all

end
