(* ===== verification/Mass_Commands.thy ===== *)
theory Mass_Commands
  imports Mass_Window
begin

text \<open>
  Single commands of the mass storage function, from the packets to the replies: transfers, sense data,
  mounting, and what the handler does with blocks it should refuse.
\<close>

section \<open>Command blocks\<close>

definition cbw_bytes :: "u32 \<Rightarrow> u32 \<Rightarrow> u8 \<Rightarrow> u8 \<Rightarrow> u8 list \<Rightarrow> u8 list" where
  "cbw_bytes tag len flags cblen cb =
     bytes_of_words [USB_BULK_CBW_SIG, tag, len] @ [flags, 0, cblen] @ cb @ replicate (16 - length cb) 0"

lemma length_cbw_bytes [simp]: "length cb \<le> 16 \<Longrightarrow> length (cbw_bytes tag len flags cblen cb) = 31"
  by (simp add: cbw_bytes_def)

lemma parse_cbw_bytes [simp]:
  "length cb \<le> 16 \<Longrightarrow> parse_cbw (cbw_bytes tag len flags cblen cb) =
     \<lparr>dCBWSignature = USB_BULK_CBW_SIG, dCBWTag = tag, dCBWDataTransferLength = len, bmCBWFlags = flags,
      bCBWLUN = 0, bCBWCBLength = cblen, CBWCB = cb @ replicate (16 - length cb) 0\<rparr>"
  unfolding parse_cbw_def cbw_bytes_def words_of_bytes_of_words_app Let_def
  by (simp add: nth_append)

text \<open>A transfer command of ten bytes.\<close>

definition rw10 :: "u8 \<Rightarrow> u32 \<Rightarrow> u16 \<Rightarrow> u8 list" where
  "rw10 op lba n = [op, 0] @ put_unaligned_be32 lba @ [0] @ put_unaligned_be16 n @ [0]"

lemma rw10_check: "check_bytes (rw10 op lba n @ replicate 6 0) 0x1be 9 (Suc 0) = Some True"
  by (simp add: rw10_def put_unaligned_be32_def put_unaligned_be16_def eval_nat_numeral)

lemma rw10_fields:
  "length (rw10 op lba n) = 10"
  "arr_get (rw10 op lba n @ r) 0 = Some op" "arr_get (rw10 op lba n @ r) (Suc 0) = Some 0"
  "get_unaligned_be32 (rw10 op lba n @ r) 2 = Some lba"
  "get_unaligned_be16 (rw10 op lba n @ r) 7 = Some n"
  "(rw10 op lba n @ r)[Suc 0 := 0] = rw10 op lba n @ r"
  by (simp_all add: rw10_def put_unaligned_be32_def put_unaligned_be16_def get_unaligned_be32_def
      get_unaligned_be16_def arr_get_def nth_append)

text \<open>A unit that can be used.\<close>

definition ready :: "('d, 'z) ms_scheme \<Rightarrow> bool" where
  "ready s \<longleftrightarrow> one_lun s \<and> cmd_complete s \<and> is_open (the_lun s) \<and> fits (the_lun s) \<and> unit_attention_data (the_lun s) = 0"

lemma put_rx [simp]: "cdb i (s\<lparr>residue := a\<rparr>) = cdb i s" "cdb i (s\<lparr>curlun := b\<rparr>) = cdb i s"
  "cdb i (s\<lparr>luns := c\<rparr>) = cdb i s" "cdb i (s\<lparr>data_size_from_cmnd := d\<rparr>) = cdb i s"
  "cdb i (s\<lparr>phase_error := e\<rparr>) = cdb i s" "cdb i (s\<lparr>ms_written := f\<rparr>) = cdb i s"
  by (simp_all add: cdb_def)

text \<open>The check of such a command passes and clears the unit's sense data.\<close>

lemma rw10_checked:
  assumes "luns s = [l]" "nluns s = 1" "lun_no s = 0" "is_open l" "unit_attention_data l = 0"
    and cmd: "ms_cmd s = \<lparr>dCBWSignature = sg, dCBWTag = tag, dCBWDataTransferLength = len, bmCBWFlags = fl,
      bCBWLUN = ln, bCBWCBLength = 10, CBWCB = rw10 op lba n @ replicate 6 0\<rparr>"
    and "data_size_from_cmnd s = len" "len \<noteq> 0" "op \<noteq> REQUEST_SENSE"
    and dir: "dir = (if fl AND 0x80 \<noteq> 0 then DATA_DIR_TO_HOST else DATA_DIR_FROM_HOST)"
  shows "check_command 10 dir 0x1be True s = Some (0, s\<lparr>residue := len, curlun := Some 0,
     luns := [l\<lparr>sense_data := 0, sense_data_info := 0, info_valid := False\<rparr>]\<rparr>)"
proof -
  have "check_sizes 10 dir s = (Some 10, s\<lparr>residue := len\<rparr>)"
    using assms by (simp add: check_sizes_def Let_def cbw_data_dir_def bulk_in_def)
  moreover have "check_lun (s\<lparr>residue := len\<rparr>) = Some (True, s\<lparr>residue := len, curlun := Some 0,
     luns := [l\<lparr>sense_data := 0, sense_data_info := 0, info_valid := False\<rparr>]\<rparr>)"
    using assms by (simp add: check_lun_def cdb_def rw10_fields upd_lun_def SS_NO_SENSE_def)
  ultimately show ?thesis
    using assms by (simp add: check_command_def check_attention_def check_rest_def cdb_def rw10_fields cur_lun_def
        SS_NO_SENSE_def rw10_check Let_def)
qed

lemma sint_of_nat_small: "i < 2 ^ 31 \<Longrightarrow> sint (of_nat i :: u32) = int i"
  by (simp add: sint_uint uint_nat unat_of_nat signed_take_bit_int_eq_self take_bit_nat_eq_self)

lemma load_mem_back:
  assumes "n \<le> 2 ^ 31"
  shows "load_bytes a n (mem_back a m) = map (\<lambda>i. m (int i)) [0..<n]"
  unfolding load_bytes_def mem_back_def
  by (rule map_cong) (use assms in \<open>auto simp: sint_of_nat_small\<close>)

lemma unat_ucast16 [simp]: "unat (ucast (n :: u16) :: u32) = unat n"
  using unat_u16_bound [of n] by (simp add: unsigned_ucast_eq take_bit_nat_eq_self del: unat_u16_bound)

lemma blocks_bytes:
  "unat (push_bit 9 (ucast (n :: u16)) :: u32) = 512 * unat n"
  "drop_bit 9 (push_bit 9 (ucast n) :: u32) = ucast n"
proof -
  have "unat (ucast n * 512 :: u32) = unat (ucast n :: u32) * unat (512 :: u32) mod 2 ^ LENGTH(32)"
    by (rule unat_word_ariths(2))
  then show u: "unat (push_bit 9 (ucast (n :: u16)) :: u32) = 512 * unat n"
    using unat_u16_bound [of n] by (simp add: push_bit_eq_mult del: unat_u16_bound)
  show "drop_bit 9 (push_bit 9 (ucast n) :: u32) = ucast n"
    by (rule word_unat_eq_iff [THEN iffD2]) (simp only: drop_bit_eq_div unat_div_distrib u, simp)
qed

lemma rx_header:
  assumes "cmd_complete s" "length p = 31" "dCBWSignature (parse_cbw p) = USB_BULK_CBW_SIG"
    "dCBWDataTransferLength (parse_cbw p) \<le> 0x1000000"
  shows "masstorage_rx_handler D p s = rx_run D (s\<lparr>ms_cmd := parse_cbw p, ms_written := 0\<rparr>)"
  using assms by (simp add: masstorage_rx_handler_def Let_def leD)

text \<open>The replies to a command that was carried out.\<close>

definition replies :: "('d, 'z) ms_scheme \<Rightarrow> u8 list list" where
  "replies v =
     (if dCBWDataTransferLength (ms_cmd v) \<noteq> 0 \<and> bulk_in v
      then [load_bytes masstorage_buffer (unat (dCBWDataTransferLength (ms_cmd v))) (ms_mem v)] else [])
     @ [csw_bytes (dCBWTag (ms_cmd v)) (residue v)
          (if phase_error v then USB_STATUS_PHASE_ERROR
           else if sense_data (the_lun v) \<noteq> 0 then USB_STATUS_FAIL else USB_STATUS_PASS)]"

lemma rx_run_done:
  assumes "cmd_complete s" "do_scsi_command D s = Some v" "one_lun v" "curlun v = Some 0"
  shows "rx_run D s = Some (v\<lparr>ms_tx := ms_tx v @ replies v\<rparr>)"
proof -
  obtain l where "luns v = [l]" using assms(3) by (auto simp: one_lun_def)
  then show ?thesis
    using assms(1,2,4)
    by (simp add: rx_run_def finish_reply_def Let_def send_status_def csw_status_def cur_lun_def masstorage_tx_def
        replies_def SS_NO_SENSE_def bulk_in_def)
qed

text \<open>C25: READ(10) of sectors inside the mounted window sends the host exactly the bytes that the disk delivers for
  these sectors, then a status that reports success with nothing left over.\<close>

theorem read10_reply:
  assumes "ready s" and "0 < unat n" "unat n \<le> 32768"
    and "unat lba + unat n \<le> unat (sectorCount (the_lun s))"
    and "disk_read D (firstSector (the_lun s) + lba) (ucast n) (mem_from masstorage_buffer (ms_mem s)) (ms_disk s)
       = Some (0, m, d)"
  shows "\<exists>s'. masstorage_rx_handler D (cbw_bytes tag (push_bit 9 (ucast n)) 0x80 10 (rw10 READ_10 lba n)) s = Some s'
    \<and> ms_tx s' = ms_tx s @ [map (\<lambda>i. m (int i)) [0..<512 * unat n], csw_bytes tag 0 USB_STATUS_PASS]
    \<and> ms_disk s' = d \<and> ready s'"
proof -
  obtain l where l: "luns s = [l]" "nluns s = 1" "lun_no s = 0" "is_open l" "unit_attention_data l = 0" "fits l"
    using assms(1) by (auto simp: ready_def one_lun_def)
  let ?len = "push_bit 9 (ucast n) :: u32"
  let ?cmd = "\<lparr>dCBWSignature = USB_BULK_CBW_SIG, dCBWTag = tag, dCBWDataTransferLength = ?len, bmCBWFlags = 0x80,
      bCBWLUN = 0, bCBWCBLength = 10, CBWCB = rw10 READ_10 lba n @ replicate 6 0\<rparr>"
  have len: "?len \<noteq> 0" "\<not> ?len > 0x1000000"
    using blocks_bytes(1) [of n] assms(2,3) by (auto simp: word_less_nat_alt word_neq_0_conv)
  define t where "t = s\<lparr>ms_cmd := ?cmd, ms_written := 0, phase_error := False, data_size_from_cmnd := ?len\<rparr>"
  define u where "u = t\<lparr>residue := ?len, curlun := Some 0,
     luns := [l\<lparr>sense_data := 0, sense_data_info := 0, info_valid := False\<rparr>]\<rparr>"
  have chk: "check_command 10 DATA_DIR_TO_HOST 0x1be True t = Some (0, u)"
  proof -
    have o: "READ_10 \<noteq> REQUEST_SENSE" by (simp add: READ_10_def REQUEST_SENSE_def)
    show ?thesis unfolding u_def by (rule rw10_checked [where fl = "0x80"], unfold t_def) (use l len o in simp_all)
  qed
  have inside: "\<not> beyond_lun lba (ucast n) l"
  proof -
    have "unat (lba + ucast n) = unat lba + unat n"
      using assms(4) l by (subst unat_plus_if') (simp add: fits_def)
    then show ?thesis using assms(2,4) l(1) by (simp add: word_le_nat_alt word_less_nat_alt)
  qed
  have "rw_lba READ_6 u = Some (Some lba)"
    by (simp add: rw_lba_def u_def t_def cdb_def rw10_fields READ_6_def READ_10_def)
  then have rd: "do_read D u = Some (- ERR_EIO, u\<lparr>ms_mem := mem_back masstorage_buffer m, ms_disk := d, residue := 0\<rparr>)"
    using inside assms(5) l(1)
    by (simp add: do_read_def u_def t_def cur_lun_def Let_def blocks_bytes(2) lun_read_def)
  have op: "cdb 0 (s\<lparr>ms_cmd := ?cmd, ms_written := 0, phase_error := False\<rparr>) = Some READ_10"
    "get_unaligned_be16 (CBWCB ?cmd) 7 = Some n"
    by (simp_all add: cdb_def rw10_fields)
  have sw: "scsi_switch D (s\<lparr>ms_cmd := ?cmd, ms_written := 0, phase_error := False\<rparr>) = do_read D u"
    using op chk
    by (simp add: scsi_switch_def scsi_case_def size_rw10_def INQUIRY_def MODE_SELECT_def MODE_SELECT_10_def
      MODE_SENSE_def MODE_SENSE_10_def ALLOW_MEDIUM_REMOVAL_def READ_6_def READ_10_def t_def)
  have fin: "do_scsi_command D (s\<lparr>ms_cmd := ?cmd, ms_written := 0\<rparr>)
     = Some (u\<lparr>ms_mem := mem_back masstorage_buffer m, ms_disk := d, residue := 0\<rparr>)"
    unfolding do_scsi_command_def using sw rd
    by (simp add: ERR_EIO_def ERR_EINVAL_def)
  let ?v = "u\<lparr>ms_mem := mem_back masstorage_buffer m, ms_disk := d, residue := 0\<rparr>"
  have ld: "load_bytes masstorage_buffer (unat ?len) (mem_back masstorage_buffer m) = map (\<lambda>i. m (int i)) [0..<512 * unat n]"
    using assms(3) by (simp only: blocks_bytes(1)) (rule load_mem_back, simp)
  have v: "one_lun ?v" "curlun ?v = Some 0" "luns ?v = [l\<lparr>sense_data := 0, sense_data_info := 0, info_valid := False\<rparr>]"
    using l by (simp_all add: one_lun_def u_def t_def)
  have c: "cmd_complete (s\<lparr>ms_cmd := ?cmd, ms_written := 0\<rparr>)" "cmd_complete ?v"
    by (simp_all add: cmd_complete_def bulk_in_def u_def t_def)
  have "masstorage_rx_handler D (cbw_bytes tag ?len 0x80 10 (rw10 READ_10 lba n)) s
      = Some (?v\<lparr>ms_tx := ms_tx ?v @ replies ?v\<rparr>)"
    using assms(1) len rx_run_done [OF c(1) fin v(1,2)]
    by (subst rx_header) (simp_all add: ready_def rw10_fields not_less)
  moreover have "replies ?v = [map (\<lambda>i. m (int i)) [0..<512 * unat n], csw_bytes tag 0 USB_STATUS_PASS]"
    using ld len by (simp add: replies_def bulk_in_def v(3)) (simp add: u_def t_def)
  moreover have "ready (?v\<lparr>ms_tx := t\<rparr>)" for t
    using v c(2) l by (simp add: ready_def cmd_complete_def bulk_in_def fits_def) 
  ultimately show ?thesis by (auto simp: u_def t_def)
qed

lemma length_load_bytes [simp]: "length (load_bytes a n m) = n"
  by (simp add: load_bytes_def)

lemma nth_load_bytes: "i < n \<Longrightarrow> load_bytes a n m ! i = m (a + of_nat i)"
  by (simp add: load_bytes_def)

lemma store_bytes_at:
  assumes "i < 2 ^ 32" "off + length bs \<le> 2 ^ 32"
  shows "store_bytes (a + of_nat off) bs m (a + of_nat i) =
    (if off \<le> i \<and> i < off + length bs then bs ! (i - off) else m (a + of_nat i))"
proof (cases "bs = []")
  case False
  then have "off < 2 ^ 32" using assms(2) by (cases bs) simp_all
  then have "unat (a + of_nat i - (a + of_nat off) :: u32) = (if off \<le> i then i - off else i + 2 ^ 32 - off)"
    using assms(1) by (simp add: unat_sub_if' unat_of_nat)
  then show ?thesis using assms(2) by (auto simp: store_bytes_def)
qed (auto simp: store_bytes_def)

lemma load_store_inside:
  assumes "off + length bs \<le> n" "n \<le> 2 ^ 32"
  shows "load_bytes a n (store_bytes (a + of_nat off) bs m) =
    take off (load_bytes a n m) @ bs @ drop (off + length bs) (load_bytes a n m)"
  by (rule nth_equalityI) (use assms in \<open>auto simp: nth_load_bytes nth_append store_bytes_at not_less\<close>)

definition sense_reply :: "fsg_lun \<Rightarrow> u8 list" where
  "sense_reply l =
     [if info_valid l then 0xf0 else 0x70, 0, SK (sense_data l)] @ put_unaligned_be32 (sense_data_info l)
     @ [10, 0, 0, 0, 0, ASC (sense_data l), ASCQ (sense_data l), 0, 0, 0, 0]"

lemma put_buf_load:
  assumes "off + length bs \<le> n" "n \<le> 2 ^ 32" "o' = of_nat off"
  shows "load_bytes masstorage_buffer n (ms_mem (put_buf o' bs s)) =
    take off (load_bytes masstorage_buffer n (ms_mem s)) @ bs @ drop (off + length bs) (load_bytes masstorage_buffer n (ms_mem s))"
  using load_store_inside [OF assms(1,2), of masstorage_buffer "ms_mem s"] assms(3) by (simp add: put_buf_def)

definition splice :: "nat \<Rightarrow> u8 list \<Rightarrow> u8 list \<Rightarrow> u8 list" where
  "splice off bs xs = take off xs @ bs @ drop (off + length bs) xs"

lemma put_buf_splice:
  "load_bytes masstorage_buffer n (ms_mem s) = xs \<Longrightarrow> o' = of_nat off \<Longrightarrow> off + length bs \<le> n \<Longrightarrow> n \<le> 2 ^ 32 \<Longrightarrow>
   load_bytes masstorage_buffer n (ms_mem (put_buf o' bs s)) = splice off bs xs"
  by (simp add: put_buf_load splice_def)

lemma request_sense_done:
  assumes "luns s = [l]" "curlun s = Some 0"
  shows "\<exists>m. do_request_sense s = Some (18, s\<lparr>luns := [l\<lparr>sense_data := 0, sense_data_info := 0, info_valid := False\<rparr>], ms_mem := m\<rparr>)
    \<and> load_bytes masstorage_buffer 18 m = sense_reply l"
proof -
  let ?s = "s\<lparr>luns := [l\<lparr>sense_data := 0, sense_data_info := 0, info_valid := False\<rparr>]\<rparr>"
  let ?v = "if info_valid l then 0x80 else 0 :: u8"
  let ?f = "put_buf 13 [ASCQ (sense_data l)] (put_buf 12 [ASC (sense_data l)] (put_buf 7 [10]
    (put_buf 3 (put_unaligned_be32 (sense_data_info l)) (put_buf 2 [SK (sense_data l)] (put_buf 0 [?v OR 0x70]
    (put_buf 0 (replicate 18 0) ?s))))))"
  have "do_request_sense s = Some (18, ?f)"
    using assms by (simp add: do_request_sense_def cur_lun_def upd_lun_def SS_NO_SENSE_def)
  moreover have "?f = ?s\<lparr>ms_mem := ms_mem ?f\<rparr>" by (simp add: put_buf_def)
  ultimately have r: "do_request_sense s = Some (18, ?s\<lparr>ms_mem := ms_mem ?f\<rparr>)" by simp
  have "load_bytes masstorage_buffer 18 (ms_mem ?f) = sense_reply l"
  proof -
    note b = put_unaligned_be32_def put_unaligned_be16_def
    have "load_bytes masstorage_buffer 18 (ms_mem (put_buf 0 (replicate 18 0) ?s)) = replicate 18 0"
      by (subst put_buf_load [where off = 0]) simp_all
    then have "load_bytes masstorage_buffer 18 (ms_mem ?f) =
      splice 13 [ASCQ (sense_data l)] (splice 12 [ASC (sense_data l)] (splice 7 [10]
      (splice 3 (put_unaligned_be32 (sense_data_info l)) (splice 2 [SK (sense_data l)] (splice 0 [?v OR 0x70] (replicate 18 0))))))"
      by (intro put_buf_splice) (simp_all add: b)
    also have "\<dots> = sense_reply l"
      by (simp add: splice_def b sense_reply_def numeral_eq_Suc)
    finally show ?thesis .
  qed
  with r show ?thesis by blast
qed

text \<open>REQUEST SENSE sends the sense key, code, qualifier and information that the last command left in the
  logical unit, with the status of success, and clears them; nothing else of the unit changes.\<close>

theorem request_sense_reply:
  assumes "one_lun s" and "cmd_complete s"
  shows "\<exists>s'. masstorage_rx_handler D (cbw_bytes tag 18 0x80 6 [REQUEST_SENSE, 0, 0, 0, 18, 0]) s = Some s'
    \<and> ms_tx s' = ms_tx s @ [sense_reply (the_lun s), csw_bytes tag 0 USB_STATUS_PASS]
    \<and> sense_data (the_lun s') = SS_NO_SENSE \<and> window (the_lun s') = window (the_lun s)
    \<and> one_lun s' \<and> cmd_complete s' \<and> ms_disk s' = ms_disk s"
proof -
  obtain l where l: "luns s = [l]" "nluns s = 1" "lun_no s = 0"
    using assms(1) by (auto simp: one_lun_def)
  let ?cmd = "\<lparr>dCBWSignature = USB_BULK_CBW_SIG, dCBWTag = tag, dCBWDataTransferLength = 18, bmCBWFlags = 0x80,
      bCBWLUN = 0, bCBWCBLength = 6, CBWCB = [REQUEST_SENSE, 0, 0, 0, 18, 0] @ replicate 10 0\<rparr>"
  define t where "t = s\<lparr>ms_cmd := ?cmd, ms_written := 0, phase_error := False, data_size_from_cmnd := 18\<rparr>"
  define u where "u = t\<lparr>residue := 18, curlun := Some 0\<rparr>"
  have sz: "check_sizes 6 DATA_DIR_TO_HOST t = (Some 6, t\<lparr>residue := 18\<rparr>)"
    by (simp add: check_sizes_def Let_def cbw_data_dir_def bulk_in_def t_def)
  have lun: "check_lun (t\<lparr>residue := 18\<rparr>) = Some (True, u)"
    using l by (simp add: check_lun_def t_def u_def cdb_def)
  have att: "check_attention u = Some False"
    using l by (simp add: check_attention_def cdb_def cur_lun_def u_def t_def)
  have rest: "check_rest 6 0x10 False u = Some (0, u)"
    by (simp add: check_rest_def cdb_def Let_def u_def t_def numeral_eq_Suc)
  have chk: "check_command 6 DATA_DIR_TO_HOST 0x10 False t = Some (0, u)"
    by (simp add: check_command_def sz lun att rest)
  have "luns u = [l]" "curlun u = Some 0" using l by (simp_all add: u_def t_def)
  then obtain m where m: "do_request_sense u = Some (18, u\<lparr>luns := [l\<lparr>sense_data := 0, sense_data_info := 0, info_valid := False\<rparr>], ms_mem := m\<rparr>)"
    and ld: "load_bytes masstorage_buffer 18 m = sense_reply l" using request_sense_done by blast
  have sw: "scsi_switch D (s\<lparr>ms_cmd := ?cmd, ms_written := 0, phase_error := False\<rparr>) = do_request_sense u"
    using chk
    by (simp add: scsi_switch_def scsi_case_def cdb_def INQUIRY_def MODE_SELECT_def MODE_SELECT_10_def
      MODE_SENSE_def MODE_SENSE_10_def ALLOW_MEDIUM_REMOVAL_def READ_6_def READ_10_def READ_12_def READ_CAPACITY_def
      READ_FORMAT_CAPACITIES_def REQUEST_SENSE_def t_def)
  let ?v = "u\<lparr>luns := [l\<lparr>sense_data := 0, sense_data_info := 0, info_valid := False\<rparr>], ms_mem := m, residue := 0\<rparr>"
  have fin: "do_scsi_command D (s\<lparr>ms_cmd := ?cmd, ms_written := 0\<rparr>) = Some ?v"
    unfolding do_scsi_command_def using sw m
    by (simp add: ERR_EINVAL_def u_def t_def bulk_in_def)
  have v: "one_lun ?v" "curlun ?v = Some 0" using l by (simp_all add: one_lun_def u_def t_def)
  have c: "cmd_complete (s\<lparr>ms_cmd := ?cmd, ms_written := 0\<rparr>)" "cmd_complete ?v"
    by (simp_all add: cmd_complete_def bulk_in_def u_def t_def)
  have "masstorage_rx_handler D (cbw_bytes tag 18 0x80 6 [REQUEST_SENSE, 0, 0, 0, 18, 0]) s
      = Some (?v\<lparr>ms_tx := ms_tx ?v @ replies ?v\<rparr>)"
    using assms(2) rx_run_done [OF c(1) fin v] by (subst rx_header) simp_all
  moreover have "replies ?v = [sense_reply l, csw_bytes tag 0 USB_STATUS_PASS]"
    using ld by (simp add: replies_def bulk_in_def) (simp add: u_def t_def)
  ultimately show ?thesis
    using v c(2) l by (auto simp: u_def t_def window_def cmd_complete_def bulk_in_def SS_NO_SENSE_def)
qed

lemma transfer_inside:
  assumes "0 < unat (n :: u16)" "unat lba + unat n \<le> unat (sectorCount l)" "fits l"
  shows "\<not> beyond_lun lba (ucast n) l"
proof -
  have "unat (lba + ucast n) = unat lba + unat n"
    using assms(2,3) by (subst unat_plus_if') (simp add: fits_def)
  then show ?thesis using assms(1,2) by (simp add: word_le_nat_alt word_less_nat_alt)
qed

fun rx_all :: "'d disk \<Rightarrow> u8 list list \<Rightarrow> ('d, 'z) ms_scheme \<Rightarrow> ('d, 'z) ms_scheme option" where
  "rx_all D [] s = Some s"
| "rx_all D (p # ps) s = do { s \<leftarrow> masstorage_rx_handler D p s; rx_all D ps s }"

lemma rx_all_end [simp]: "m \<bind> rx_all D [] = m"
  by (cases m) simp_all

lemma store_bytes_append:
  assumes "length xs + length ys \<le> 2 ^ 32"
  shows "store_bytes (a + of_nat (length xs)) ys (store_bytes a xs m) = store_bytes a (xs @ ys) m"
proof
  fix x
  define i where "i = unat (x - a)"
  have x: "x = a + of_nat i" by (simp add: i_def)
  have i: "i < 2 ^ 32" unfolding i_def using unat_u32_bound by (simp del: unat_u32_bound)
  have "store_bytes a bs m' x = (if i < length bs then bs ! i else m' x)" for bs and m' :: memory
    by (simp add: store_bytes_def i_def)
  then show "store_bytes (a + of_nat (length xs)) ys (store_bytes a xs m) x = store_bytes a (xs @ ys) m x"
    using store_bytes_at [OF i, of "length xs" ys a] assms x by (auto simp: nth_append)
qed

lemma store_bytes_Nil [simp]: "store_bytes a [] m = m"
  by (simp add: store_bytes_def)

lemma rx_data_part:
  assumes "ms_written s = of_nat k" "k + length p \<le> unat (dCBWDataTransferLength (ms_cmd s))"
  shows "rx_data p s = s\<lparr>ms_mem := store_bytes (masstorage_buffer + of_nat k) p (ms_mem s),
     ms_written := of_nat (k + length p)\<rparr>"
proof -
  let ?len = "dCBWDataTransferLength (ms_cmd s)"
  have k: "unat (of_nat k :: u32) = k" "unat (of_nat (length p) :: u32) = length p"
    using assms(2) unat_u32_bound [of ?len] by (simp_all add: unat_of_nat del: unat_u32_bound)
  have "unat (?len - of_nat k) = unat ?len - k"
    using assms(2) k by (simp add: unat_sub_if')
  then have "(of_nat (length p) :: u32) \<le> ?len - of_nat k"
    using assms(2) k by (simp add: word_le_nat_alt)
  then show ?thesis using assms(1) k by (simp add: rx_data_def Let_def put_buf_def)
qed

lemma rx_packets:
  assumes "ps \<noteq> []" "[] \<notin> set ps" "ms_written s = of_nat k"
    "k + length (concat ps) = unat (dCBWDataTransferLength (ms_cmd s))" "\<not> bulk_in s"
  shows "rx_all D ps s = rx_run D (s\<lparr>ms_mem := store_bytes (masstorage_buffer + of_nat k) (concat ps) (ms_mem s),
     ms_written := dCBWDataTransferLength (ms_cmd s)\<rparr>)"
  using assms
proof (induction ps arbitrary: k s)
  case (Cons p ps)
  let ?len = "dCBWDataTransferLength (ms_cmd s)"
  let ?t = "s\<lparr>ms_mem := store_bytes (masstorage_buffer + of_nat k) p (ms_mem s), ms_written := of_nat (k + length p)\<rparr>"
  have lens: "k < unat ?len" "k + length p \<le> unat ?len" "unat ?len < 2 ^ 32" using Cons.prems(2,4) by (cases p; auto)+
  then have "k < 4294967296" "k + length p < 4294967296" using unat_u32_bound [of ?len] by linarith+
  then have ku: "unat (of_nat k :: u32) = k" "unat (of_nat (k + length p) :: u32) = k + length p"
    by (simp_all add: unat_of_nat del: of_nat_add)
  have nc: "\<not> cmd_complete s"
    using lens ku(1) Cons.prems(3,5) by (auto simp: cmd_complete_def)
  have d: "rx_data p s = ?t" by (rule rx_data_part) (use Cons.prems(3) lens in auto)
  have h: "masstorage_rx_handler D p s = rx_run D ?t"
    using nc d by (simp add: masstorage_rx_handler_def)
  show ?case
  proof (cases "ps = []")
    case True
    then have "?len = of_nat (k + length p)" using Cons.prems(4) ku(2) by (simp add: word_unat_eq_iff)
    with True h show ?thesis by simp
  next
    case False
    have nct: "\<not> cmd_complete ?t"
    proof -
      have "concat ps \<noteq> []" using False Cons.prems(2) by (cases ps) auto
      then have "k + length p < unat ?len" using Cons.prems(4) by (cases "concat ps") auto
      then have "of_nat (k + length p) \<noteq> ?len" using ku(2) by auto
      then show ?thesis using lens(1) Cons.prems(5) by (auto simp: cmd_complete_def bulk_in_def)
    qed
    have "rx_all D ps ?t = rx_run D (?t\<lparr>ms_mem := store_bytes (masstorage_buffer + of_nat (k + length p)) (concat ps) (ms_mem ?t),
      ms_written := dCBWDataTransferLength (ms_cmd ?t)\<rparr>)"
      by (rule Cons.IH) (use False Cons.prems in \<open>auto simp: bulk_in_def\<close>)
    moreover have "store_bytes (masstorage_buffer + of_nat (k + length p)) (concat ps) (ms_mem ?t)
      = store_bytes (masstorage_buffer + of_nat k) (concat (p # ps)) (ms_mem s)"
    proof -
      have "length p + length (concat ps) \<le> 2 ^ 32"
        using Cons.prems(4) unat_u32_bound [of ?len] by (simp del: unat_u32_bound)
      from store_bytes_append [OF this, of "masstorage_buffer + of_nat k" "ms_mem s"]
      show ?thesis by (simp add: algebra_simps)
    qed
    ultimately show ?thesis using h nct by (simp add: rx_run_def)
  qed
qed simp

text \<open>C26: WRITE(10) hands the disk the data of the packets that follow the command, one after the other, however
  the host cuts the data into packets, and then sends the status of success.\<close>

theorem write10_data:
  assumes "ready s" and "\<not> ro (the_lun s)" and "0 < unat n" "unat n \<le> 32768"
    and "unat lba + unat n \<le> unat (sectorCount (the_lun s))"
    and "[] \<notin> set ps" and "length (concat ps) = 512 * unat n"
    and "disk_write D (firstSector (the_lun s) + lba) (ucast n)
       (mem_from masstorage_buffer (store_bytes masstorage_buffer (concat ps) (ms_mem s))) (ms_disk s) = Some (0, d)"
  shows "\<exists>s'. rx_all D (cbw_bytes tag (push_bit 9 (ucast n)) 0 10 (rw10 WRITE_10 lba n) # ps) s = Some s'
    \<and> ms_tx s' = ms_tx s @ [csw_bytes tag 0 USB_STATUS_PASS] \<and> ms_disk s' = d \<and> ready s'"
proof -
  obtain l where l: "luns s = [l]" "nluns s = 1" "lun_no s = 0" "is_open l" "unit_attention_data l = 0" "fits l"
    using assms(1) by (auto simp: ready_def one_lun_def)
  let ?len = "push_bit 9 (ucast n) :: u32"
  let ?cmd = "\<lparr>dCBWSignature = USB_BULK_CBW_SIG, dCBWTag = tag, dCBWDataTransferLength = ?len, bmCBWFlags = 0,
      bCBWLUN = 0, bCBWCBLength = 10, CBWCB = rw10 WRITE_10 lba n @ replicate 6 0\<rparr>"
  let ?mem = "store_bytes masstorage_buffer (concat ps) (ms_mem s)"
  have len: "?len \<noteq> 0" "?len \<le> 0x1000000" "unat ?len = 512 * unat n"
    using blocks_bytes(1) [of n] assms(3,4) by (auto simp: word_le_nat_alt)
  define t where "t = s\<lparr>ms_cmd := ?cmd, ms_mem := ?mem, ms_written := ?len, phase_error := False, data_size_from_cmnd := ?len\<rparr>"
  define u where "u = t\<lparr>residue := ?len, curlun := Some 0,
     luns := [l\<lparr>sense_data := 0, sense_data_info := 0, info_valid := False\<rparr>]\<rparr>"
  have chk: "check_command 10 DATA_DIR_FROM_HOST 0x1be True t = Some (0, u)"
  proof -
    have o: "WRITE_10 \<noteq> REQUEST_SENSE" by (simp add: WRITE_10_def REQUEST_SENSE_def)
    show ?thesis unfolding u_def by (rule rw10_checked [where fl = 0], unfold t_def) (use l len o in simp_all)
  qed
  have inside: "\<not> beyond_lun lba (ucast n) l"
    using transfer_inside [of n lba l] assms(3,5) l by simp
  have "rw_lba WRITE_6 u = Some (Some lba)"
    by (simp add: rw_lba_def u_def t_def cdb_def rw10_fields WRITE_6_def WRITE_10_def)
  then have wr: "do_write D u = Some (- ERR_EIO, u\<lparr>ms_disk := d, residue := 0\<rparr>)"
    using inside assms(2,8) l(1)
    by (simp add: do_write_def u_def t_def cur_lun_def Let_def blocks_bytes(2) lun_write_def)
  have op: "cdb 0 (s\<lparr>ms_cmd := ?cmd, ms_mem := ?mem, ms_written := ?len, phase_error := False\<rparr>) = Some WRITE_10"
    "get_unaligned_be16 (CBWCB ?cmd) 7 = Some n"
    by (simp_all add: cdb_def rw10_fields)
  have sw: "scsi_switch D (s\<lparr>ms_cmd := ?cmd, ms_mem := ?mem, ms_written := ?len, phase_error := False\<rparr>) = do_write D u"
    using op chk
    by (simp add: scsi_switch_def scsi_case_def size_rw10_def INQUIRY_def MODE_SELECT_def MODE_SELECT_10_def
      MODE_SENSE_def MODE_SENSE_10_def ALLOW_MEDIUM_REMOVAL_def READ_6_def READ_10_def READ_12_def READ_CAPACITY_def
      READ_FORMAT_CAPACITIES_def REQUEST_SENSE_def START_STOP_def SYNCHRONIZE_CACHE_def TEST_UNIT_READY_def
      VERIFY_def WRITE_6_def WRITE_10_def t_def)
  have fin: "do_scsi_command D (s\<lparr>ms_cmd := ?cmd, ms_mem := ?mem, ms_written := ?len\<rparr>)
     = Some (u\<lparr>ms_disk := d, residue := 0\<rparr>)"
    unfolding do_scsi_command_def using sw wr
    by (simp add: ERR_EIO_def ERR_EINVAL_def)
  let ?v = "u\<lparr>ms_disk := d, residue := 0\<rparr>"
  have v: "one_lun ?v" "curlun ?v = Some 0" "luns ?v = [l\<lparr>sense_data := 0, sense_data_info := 0, info_valid := False\<rparr>]"
    using l by (simp_all add: one_lun_def u_def t_def)
  have c: "cmd_complete (s\<lparr>ms_cmd := ?cmd, ms_mem := ?mem, ms_written := ?len\<rparr>)" "cmd_complete ?v"
    by (simp_all add: cmd_complete_def u_def t_def)
  have hdr: "masstorage_rx_handler D (cbw_bytes tag ?len 0 10 (rw10 WRITE_10 lba n)) s
      = Some (s\<lparr>ms_cmd := ?cmd, ms_written := 0\<rparr>)"
    using assms(1) len
    by (subst rx_header) (simp_all add: ready_def rw10_fields rx_run_def cmd_complete_def bulk_in_def)
  have "rx_all D ps (s\<lparr>ms_cmd := ?cmd, ms_written := 0\<rparr>)
      = rx_run D (s\<lparr>ms_cmd := ?cmd, ms_mem := ?mem, ms_written := ?len\<rparr>)"
  proof -
    have "ps \<noteq> []" using assms(3,7) by auto
    then show ?thesis
      using rx_packets [of ps "s\<lparr>ms_cmd := ?cmd, ms_written := 0\<rparr>" 0 D] assms(6,7) len(3) by (simp add: bulk_in_def)
  qed
  also have "\<dots> = Some (?v\<lparr>ms_tx := ms_tx ?v @ replies ?v\<rparr>)" by (rule rx_run_done [OF c(1) fin v(1,2)])
  finally have "rx_all D (cbw_bytes tag ?len 0 10 (rw10 WRITE_10 lba n) # ps) s
      = Some (?v\<lparr>ms_tx := ms_tx ?v @ replies ?v\<rparr>)" using hdr by simp
  moreover have "replies ?v = [csw_bytes tag 0 USB_STATUS_PASS]"
    by (simp add: replies_def bulk_in_def v(3)) (simp add: u_def t_def)
  moreover have "ready (?v\<lparr>ms_tx := t\<rparr>)" for t
    using v c(2) l by (simp add: ready_def cmd_complete_def bulk_in_def fits_def)
  ultimately show ?thesis by (auto simp: u_def t_def)
qed

text \<open>A command block that is refused for its signature or its length, but announces data from the host, is
  left in place: a packet after it is copied to memory as its data, with no bound but the refused length.\<close>

theorem rejected_command_overruns:
  assumes "cmd_complete s" and "ms_written s = 0" and "length p = 31"
    and "dCBWSignature (parse_cbw p) \<noteq> USB_BULK_CBW_SIG \<or> dCBWDataTransferLength (parse_cbw p) > 0x1000000"
    and "bmCBWFlags (parse_cbw p) AND 0x80 = 0"
    and "length q < unat (dCBWDataTransferLength (parse_cbw p))"
  shows "\<exists>s'. rx_all D [p, q] s = Some s' \<and> ms_tx s' = ms_tx s
    \<and> (\<forall>k < length q. ms_mem s' (masstorage_buffer + of_nat k) = q ! k)"
proof -
  let ?s = "s\<lparr>ms_cmd := parse_cbw p\<rparr>"
  have 1: "masstorage_rx_handler D p s = Some ?s"
    using assms(1,3,4) by (auto simp: masstorage_rx_handler_def Let_def)
  have w: "unat (of_nat (length q) :: u32) = length q"
    using assms(6) unat_u32_bound [of "dCBWDataTransferLength (parse_cbw p)"] by (simp add: unat_of_nat del: unat_u32_bound)
  have nc: "\<not> cmd_complete ?s"
    using assms(2,5,6) by (auto simp: cmd_complete_def bulk_in_def)
  have d: "rx_data q ?s = ?s\<lparr>ms_mem := store_bytes masstorage_buffer q (ms_mem s), ms_written := of_nat (length q)\<rparr>"
    using rx_data_part [of ?s 0 q] assms(2,6) by simp
  have "\<not> cmd_complete (?s\<lparr>ms_mem := store_bytes masstorage_buffer q (ms_mem s), ms_written := of_nat (length q)\<rparr>)"
    using assms(5,6) w by (auto simp: cmd_complete_def bulk_in_def)
  then have "rx_all D [p, q] s = Some (?s\<lparr>ms_mem := store_bytes masstorage_buffer q (ms_mem s), ms_written := of_nat (length q)\<rparr>)"
    using 1 nc d by (simp add: masstorage_rx_handler_def rx_run_def)
  moreover have "store_bytes masstorage_buffer q m (masstorage_buffer + of_nat k) = q ! k" if "k < length q" for k m
    using that assms(6) unat_u32_bound [of "dCBWDataTransferLength (parse_cbw p)"]
    by (simp add: store_bytes_def unat_of_nat del: unat_u32_bound)
  ultimately show ?thesis by simp
qed

text \<open>Mounting compares the end of the window with the disk in 32 bits: it accepts exactly the windows that
  start on the disk and whose end, taken modulo \<open>2^32\<close>, is on it, and then mounts the window as it is.\<close>

theorem mount_wrapped_window:
  assumes "luns s = [l]" and "\<not> is_open l"
  shows "\<exists>r s'. masstorage_mount D first n rw s = Some (r, s')
    \<and> (r = 0 \<longleftrightarrow> unat first < unat (disk_size D) \<and> (unat first + unat n) mod 2 ^ 32 \<le> unat (disk_size D))
    \<and> (if r = 0 then window (the_lun s') = (True, first, n, rw = 0) else s' = s)"
proof -
  have "unat (first + n) = (unat first + unat n) mod 2 ^ 32"
    by (simp add: unat_word_ariths)
  then show ?thesis
    using assms by (auto simp: masstorage_mount_def Let_def window_def word_le_nat_alt word_less_nat_alt not_le not_less)
qed

lemma check_bytes_overrun:
  "i \<le> k \<Longrightarrow> k < i + n \<Longrightarrow> check_bytes (replicate k 0) msk n i = None"
  by (induction n arbitrary: i) (auto simp: arr_get_def)

text \<open>A command block whose length byte is above 16 makes the handler read past the command bytes.\<close>

theorem command_length_overrun:
  assumes "one_lun s" and "cmd_complete s" and "unit_attention_data (the_lun s) = 0"
    and "16 < unat cblen"
  shows "masstorage_rx_handler D (cbw_bytes tag 0 0 cblen [TEST_UNIT_READY]) s = None"
proof -
  obtain l where l: "luns s = [l]" "nluns s = 1" "lun_no s = 0" "unit_attention_data l = 0"
    using assms(1,3) by (auto simp: one_lun_def)
  let ?cmd = "\<lparr>dCBWSignature = USB_BULK_CBW_SIG, dCBWTag = tag, dCBWDataTransferLength = 0, bmCBWFlags = 0,
      bCBWLUN = 0, bCBWCBLength = cblen, CBWCB = replicate 16 0\<rparr>"
  define t where "t = s\<lparr>ms_cmd := ?cmd, ms_written := 0, phase_error := False, data_size_from_cmnd := 0\<rparr>"
  define u where "u = t\<lparr>residue := 0, curlun := Some 0, luns := [l\<lparr>sense_data := 0, sense_data_info := 0, info_valid := False\<rparr>]\<rparr>"
  have p: "parse_cbw (cbw_bytes tag 0 0 cblen [TEST_UNIT_READY]) = ?cmd"
    by (simp add: TEST_UNIT_READY_def numeral_eq_Suc)
  have sz: "check_sizes 6 DATA_DIR_NONE t = (Some (unat cblen), t\<lparr>residue := 0\<rparr>)"
    using assms(4) by (simp add: check_sizes_def Let_def cbw_data_dir_def t_def)
  have lun: "check_lun (t\<lparr>residue := 0\<rparr>) = Some (True, u)"
    using l by (simp add: check_lun_def cdb_def upd_lun_def u_def t_def SS_NO_SENSE_def REQUEST_SENSE_def)
  have att: "check_attention u = Some False"
    using l by (simp add: check_attention_def cdb_def cur_lun_def u_def t_def SS_NO_SENSE_def)
  have rest: "check_rest (unat cblen) 0 True u = None"
    using assms(4) check_bytes_overrun [of 1 16 "unat cblen - 1" 0]
    by (simp add: check_rest_def cdb_def Let_def u_def t_def list_update_same_conv [THEN iffD2])
  have "check_command 6 DATA_DIR_NONE 0 True t = None"
    by (simp add: check_command_def sz lun att rest)
  then have "scsi_switch D (s\<lparr>ms_cmd := ?cmd, ms_written := 0, phase_error := False\<rparr>) = None"
    by (simp add: scsi_switch_def scsi_case_def cdb_def INQUIRY_def MODE_SELECT_def MODE_SELECT_10_def
      MODE_SENSE_def MODE_SENSE_10_def ALLOW_MEDIUM_REMOVAL_def READ_6_def READ_10_def READ_12_def READ_CAPACITY_def
      READ_FORMAT_CAPACITIES_def REQUEST_SENSE_def START_STOP_def SYNCHRONIZE_CACHE_def TEST_UNIT_READY_def t_def)
  then show ?thesis
    using assms(2) by (subst rx_header) (simp_all add: p rx_run_def cmd_complete_def do_scsi_command_def)
qed

section \<open>On the small disk\<close>

lemma ready_sample [simp]: "ready sample_ms"
  by (simp add: ready_def) (simp add: initial_lun_def)

lemma read10_reply_witness:
  "\<exists>s'. masstorage_rx_handler ram_disk (cbw_bytes 7 (push_bit 9 (ucast (2 :: u16))) 0x80 10 (rw10 READ_10 3 2)) sample_ms = Some s'
    \<and> ms_tx s' = ms_tx sample_ms @ [map (\<lambda>i. of_nat (512 * 11 + i)) [0..<512 * unat (2 :: u16)], csw_bytes 7 0 USB_STATUS_PASS]"
proof -
  have "disk_read ram_disk (firstSector (the_lun sample_ms) + 3) (ucast (2 :: u16)) m (ms_disk sample_ms)
    = Some (0, \<lambda>a. if 0 \<le> a \<and> a < 1024 then of_nat (512 * 11 + nat a) else m a, ms_disk sample_ms)" for m
    by (simp add: ram_disk_def sample_ms_def initial_ms_def cong: if_cong)
  from read10_reply [OF ready_sample _ _ _ this, where tag = 7] obtain s' where
    "masstorage_rx_handler ram_disk (cbw_bytes 7 (push_bit 9 (ucast (2 :: u16))) 0x80 10 (rw10 READ_10 3 2)) sample_ms = Some s'"
    "ms_tx s' = ms_tx sample_ms @ [map (\<lambda>i. if 0 \<le> int i \<and> int i < 1024 then of_nat (512 * 11 + nat (int i))
       else mem_from masstorage_buffer (ms_mem sample_ms) (int i)) [0..<512 * unat (2 :: u16)], csw_bytes 7 0 USB_STATUS_PASS]"
    by auto
  moreover have "map (\<lambda>i. if 0 \<le> int i \<and> int i < 1024 then of_nat (512 * 11 + nat (int i)) else m (int i))
      [0..<512 * unat (2 :: u16)] = map (\<lambda>i. of_nat (512 * 11 + i)) [0..<512 * unat (2 :: u16)]" for m :: "int \<Rightarrow> u8"
    by (rule map_cong) auto
  ultimately show ?thesis by metis
qed

lemma write10_data_witness:
  "\<exists>s'. rx_all ram_disk (cbw_bytes 7 (push_bit 9 (ucast (1 :: u16))) 0 10 (rw10 WRITE_10 3 1) # [replicate 500 1, replicate 12 2])
      sample_ms = Some s'
    \<and> ms_tx s' = ms_tx sample_ms @ [csw_bytes 7 0 USB_STATUS_PASS] \<and> ms_disk s' (512 * 11 + 505) = 2"
proof -
  define ps where "ps = [replicate 500 1, replicate 12 2 :: u8 list]"
  define um where "um = mem_from masstorage_buffer (store_bytes masstorage_buffer (concat ps) (ms_mem sample_ms))"
  define d where "d = (\<lambda>b. if 5632 \<le> b \<and> b < 6144 then um (int b - 5632) else ms_disk sample_ms b)"
  have w: "disk_write ram_disk (firstSector (the_lun sample_ms) + 3) (ucast (1 :: u16)) um (ms_disk sample_ms) = Some (0, d)"
    by (simp add: ram_disk_def d_def cong: if_cong)
  have "um 505 = 2" by (simp add: um_def ps_def mem_from_def store_bytes_def nth_append)
  then have "d (512 * 11 + 505) = 2" by (simp add: d_def)
  moreover have "\<exists>s'. rx_all ram_disk (cbw_bytes 7 (push_bit 9 (ucast (1 :: u16))) 0 10 (rw10 WRITE_10 3 1) # ps) sample_ms = Some s'
    \<and> ms_tx s' = ms_tx sample_ms @ [csw_bytes 7 0 USB_STATUS_PASS] \<and> ms_disk s' = d \<and> ready s'"
    by (rule write10_data [OF ready_sample _ _ _ _ _ _ w [unfolded um_def]]) (simp_all add: ps_def)
  ultimately show ?thesis unfolding ps_def by metis
qed

lemma request_sense_reply_witness:
  "\<exists>s'. masstorage_rx_handler ram_disk (cbw_bytes 7 18 0x80 6 [REQUEST_SENSE, 0, 0, 0, 18, 0]) sample_ms = Some s'
    \<and> ms_tx s' = ms_tx sample_ms @ [sense_reply (the_lun sample_ms), csw_bytes 7 0 USB_STATUS_PASS]"
  using request_sense_reply [where s = sample_ms and D = ram_disk and tag = 7] by auto

lemma rejected_command_overruns_witness:
  "\<exists>s'. rx_all ram_disk [cbw_bytes 7 0x3000000 0 10 [0x2a], replicate 0x2000001 0xff] sample_ms = Some s'
    \<and> ms_mem s' 0x4a000000 = 0xff"
proof -
  let ?p = "cbw_bytes 7 0x3000000 0 10 [0x2a]" and ?q = "replicate 0x2000001 0xff :: u8 list"
  obtain s' where s: "rx_all ram_disk [?p, ?q] sample_ms = Some s'"
    "\<forall>k < length ?q. ms_mem s' (masstorage_buffer + of_nat k) = ?q ! k"
    using rejected_command_overruns [where s = sample_ms and p = ?p and q = ?q and D = ram_disk] by auto
  from s(2) [rule_format, of "0x2000000"] have "ms_mem s' 0x4a000000 = 0xff" by (simp add: masstorage_buffer_def)
  with s(1) show ?thesis by blast
qed

lemma mount_wrapped_window_witness:
  "\<exists>r s'. masstorage_mount ram_disk 8 0xfffffffc 0 (initial_ms (\<lambda>_. 0) (\<lambda>b. of_nat b)) = Some (r, s')
    \<and> r = 0 \<and> window (the_lun s') = (True, 8, 0xfffffffc, True)"
  using mount_wrapped_window [where s = "initial_ms (\<lambda>_. 0) (\<lambda>b. of_nat b)" and l = initial_lun and D = ram_disk
      and first = 8 and n = "0xfffffffc" and rw = 0]
  by (auto simp: initial_ms_def initial_lun_def ram_disk_def)

lemma command_length_overrun_witness:
  "masstorage_rx_handler ram_disk (cbw_bytes 7 0 0 17 [TEST_UNIT_READY]) sample_ms = None"
  by (rule command_length_overrun) (simp_all add: initial_lun_def)

end
