(* ===== verification/Mass_Serve.thy ===== *)
theory Mass_Serve
  imports Mass_Commands
begin

text \<open>
  The mass storage function as a server: every packet that keeps to the protocol is handled without
  undefined behaviour and every command is answered by one status.
\<close>

section \<open>Carrying out a command\<close>

text \<open>What carrying out a command keeps.\<close>

definition keeps_cmd :: "('d, 'z) ms_scheme \<Rightarrow> ('d, 'z) ms_scheme \<Rightarrow> bool" where
  "keeps_cmd s s' \<longleftrightarrow> one_lun s' \<and> ms_cmd s' = ms_cmd s \<and> ms_tx s' = ms_tx s \<and> ms_written s' = ms_written s
     \<and> firstSector (the_lun s') = firstSector (the_lun s) \<and> sectorCount (the_lun s') = sectorCount (the_lun s)
     \<and> ro (the_lun s') = ro (the_lun s) \<and> (is_open (the_lun s') \<longrightarrow> is_open (the_lun s))"

definition serves :: "'d disk \<Rightarrow> fsg_lun \<Rightarrow> bool" where
  "serves D l \<longleftrightarrow> (\<forall>first n m d. in_window l first n \<longrightarrow>
     disk_read D first n m d \<noteq> None \<and> (\<not> ro l \<longrightarrow> disk_write D first n m d \<noteq> None))"

abbreviation runs :: "(('d, 'z) ms_scheme \<Rightarrow> (int \<times> ('d, 'z) ms_scheme) option) \<Rightarrow> ('d, 'z) ms_scheme \<Rightarrow> bool" where
  "runs f s \<equiv> total (f s) (\<lambda>(r, s'). keeps_cmd s s')"

lemma keeps_cmd_refl: "one_lun s \<Longrightarrow> keeps_cmd s s"
  by (simp add: keeps_cmd_def)

lemma keeps_cmd_upd [simp]:
  "keeps_cmd u (s\<lparr>residue := b\<rparr>) = keeps_cmd u s" "keeps_cmd u (s\<lparr>bad_lun_okay := d\<rparr>) = keeps_cmd u s"
  "keeps_cmd u (s\<lparr>ms_mem := m\<rparr>) = keeps_cmd u s" "keeps_cmd u (s\<lparr>ms_disk := x\<rparr>) = keeps_cmd u s"
  "keeps_cmd u (put_buf off bs s) = keeps_cmd u s"
  by (simp_all add: keeps_cmd_def put_buf_def)

lemma upd_lun_total:
  assumes "one_lun s" "curlun s = Some 0"
    and "\<And>l. firstSector (f l) = firstSector l" "\<And>l. sectorCount (f l) = sectorCount l"
      "\<And>l. ro (f l) = ro l" "\<And>l. is_open (f l) \<Longrightarrow> is_open l"
  shows "total (upd_lun f s) (\<lambda>s'. keeps_cmd s s' \<and> curlun s' = Some 0)"
  using assms by (auto simp: upd_lun_def one_lun_def keeps_cmd_def)

lemma fail_with_runs: "one_lun s \<Longrightarrow> curlun s = Some 0 \<Longrightarrow> runs (fail_with sd) s"
  unfolding fail_with_def total_bind by (rule total_mono [OF upd_lun_total]) auto

lemma cdb_total: "length (CBWCB (ms_cmd s)) = 16 \<Longrightarrow> i < 16 \<Longrightarrow> cdb i s = Some (CBWCB (ms_cmd s) ! i)"
  by (simp add: cdb_def)

lemma be16_total: "i + 1 < length p \<Longrightarrow> \<exists>w. get_unaligned_be16 p i = Some w"
  by (simp add: get_unaligned_be16_def)

lemma be32_total: "i + 3 < length p \<Longrightarrow> \<exists>w. get_unaligned_be32 p i = Some w"
  by (simp add: get_unaligned_be32_def get_unaligned_be16_def)

text \<open>A state in which a command with a complete command block is carried out on the unit.\<close>

definition runnable :: "('d, 'z) ms_scheme \<Rightarrow> bool" where
  "runnable s \<longleftrightarrow> one_lun s \<and> curlun s = Some 0 \<and> length (CBWCB (ms_cmd s)) = 16"

lemma rw_lba_total: "runnable s \<Longrightarrow> \<exists>r. rw_lba c s = Some r"
  using be32_total [of 0 "CBWCB (ms_cmd s)"] be32_total [of 2 "CBWCB (ms_cmd s)"]
  by (auto simp: runnable_def rw_lba_def cdb_def get_unaligned_be24_def)

lemma fail_runs: "runnable s \<Longrightarrow> runs (fail_with sd) s"
  by (simp add: runnable_def fail_with_runs)

lemma set_sense_at_total:
  "one_lun s \<Longrightarrow> curlun s = Some 0 \<Longrightarrow> total (set_sense_at sd lba s) (\<lambda>s'. keeps_cmd s s' \<and> curlun s' = Some 0)"
  unfolding set_sense_at_def by (rule upd_lun_total) auto

lemma lun_read_total:
  assumes "serves D l" "in_window l first n" "one_lun s"
  shows "total (lun_read D first n s) (\<lambda>(r, s'). keeps_cmd s s' \<and> one_lun s' \<and> curlun s' = curlun s)"
proof -
  have "disk_read D first n (mem_from masstorage_buffer (ms_mem s)) (ms_disk s) \<noteq> None"
    using assms(1,2) unfolding serves_def by blast
  then obtain r m d where "disk_read D first n (mem_from masstorage_buffer (ms_mem s)) (ms_disk s) = Some (r, m, d)"
    by auto
  then show ?thesis using assms(3) by (simp add: lun_read_def keeps_cmd_refl)
qed

lemma lun_write_total:
  assumes "serves D l" "in_window l first n" "\<not> ro l" "one_lun s"
  shows "total (lun_write D first n s) (\<lambda>(r, s'). keeps_cmd s s' \<and> one_lun s' \<and> curlun s' = curlun s)"
proof -
  have "disk_write D first n (mem_from masstorage_buffer (ms_mem s)) (ms_disk s) \<noteq> None"
    using assms(1-3) unfolding serves_def by blast
  then obtain r d where "disk_write D first n (mem_from masstorage_buffer (ms_mem s)) (ms_disk s) = Some (r, d)"
    by auto
  then show ?thesis using assms(4) by (simp add: lun_write_def keeps_cmd_refl)
qed

lemma keeps_cmd_trans: "keeps_cmd s t \<Longrightarrow> keeps_cmd t u \<Longrightarrow> keeps_cmd s u"
  by (simp add: keeps_cmd_def)

lemma do_read_runs:
  assumes "runnable s" "is_open (the_lun s)" "fits (the_lun s)" "serves D (the_lun s)"
  shows "runs (do_read D) s"
proof -
  let ?l = "the_lun s" and ?n = "drop_bit 9 (data_size_from_cmnd s)"
  have o: "one_lun s" "curlun s = Some 0" using assms(1) by (simp_all add: runnable_def)
  obtain r where r: "rw_lba READ_6 s = Some r" using rw_lba_total [OF assms(1)] by blast
  have "total (lun_read D (firstSector ?l + lba) ?n s) (\<lambda>(r, s').
     total (if r \<noteq> 0 then set_sense_at SS_UNRECOVERED_READ_ERROR lba s' else Some s')
       (\<lambda>s'. keeps_cmd s (s'\<lparr>residue := residue s' - push_bit 9 ?n\<rparr>)))"
    if "\<not> beyond_lun lba ?n ?l" for lba
    by (rule total_mono [OF lun_read_total [OF assms(4) transfer_in_window [OF assms(2,3) _ that] o(1)]])
      (auto simp: unat_drop9 o(2) intro: total_mono [OF set_sense_at_total] keeps_cmd_trans)
  then show ?thesis
    using fail_runs [OF assms(1)] r
    by (auto simp: do_read_def cur_lun_eq [OF o] Let_def total_bind case_prod_unfold split: option.split)
qed

lemma do_write_runs:
  assumes "runnable s" "is_open (the_lun s)" "fits (the_lun s)" "serves D (the_lun s)"
  shows "runs (do_write D) s"
proof -
  let ?l = "the_lun s" and ?n = "drop_bit 9 (data_size_from_cmnd s)"
  have o: "one_lun s" "curlun s = Some 0" using assms(1) by (simp_all add: runnable_def)
  obtain r where r: "rw_lba WRITE_6 s = Some r" using rw_lba_total [OF assms(1)] by blast
  have "total (lun_write D (firstSector ?l + lba) ?n s) (\<lambda>(r, s').
     total (if r \<noteq> 0 then set_sense_at SS_WRITE_ERROR lba s' \<bind> (\<lambda>s. Some (- ERR_EIO, s))
            else Some (- ERR_EIO, s'\<lparr>residue := residue s' - push_bit 9 ?n\<rparr>)) (\<lambda>(r, s'). keeps_cmd s s'))"
    if "\<not> beyond_lun lba ?n ?l" "\<not> ro ?l" for lba
    by (rule total_mono [OF lun_write_total [OF assms(4) transfer_in_window [OF assms(2,3) _ that(1)] that(2) o(1)]])
      (auto simp: unat_drop9 o(2) total_bind intro: total_mono [OF set_sense_at_total] keeps_cmd_trans)
  then show ?thesis
    using fail_runs [OF assms(1)] r
    by (auto simp: do_write_def cur_lun_eq [OF o] Let_def total_bind case_prod_unfold split: option.split)
qed

lemma verify_loop_total:
  fixes s :: "('d, 'z) ms_scheme"
  assumes "serves D l" "is_open l" "fits l" "unat (firstSector l) \<le> unat first"
    and "unat first + unat lba + unat left \<le> unat (firstSector l) + unat (sectorCount l)"
    and "one_lun s" "curlun s = Some 0"
  shows "total (verify_loop D first lba left s) (keeps_cmd s)"
  using assms(5-)
proof (induction "unat left" arbitrary: lba left s rule: less_induct)
  case less
  let ?a = "if left < 4096 then left else 4096"
  show ?case
  proof (cases "left = 0")
    case True
    then show ?thesis using less.prems by (simp add: verify_loop.simps keeps_cmd_refl)
  next
    case False
    have a: "unat ?a \<le> unat left" by (auto simp: word_less_nat_alt not_less)
    have u: "unat (first + lba) = unat first + unat lba" "unat (lba + ?a) = unat lba + unat ?a"
      "unat (left - ?a) = unat left - unat ?a"
      using less.prems(1) assms(3) a by (auto simp: fits_def unat_plus_if' unat_sub word_le_nat_alt)
    have w: "in_window l (first + lba) ?a"
      using assms(2,4) less.prems(1) a u(1) by (simp add: in_window_def)
    have IH: "total (verify_loop D first (lba + ?a) (left - ?a) t) (keeps_cmd t)"
      if "one_lun t" "curlun t = Some 0" for t :: "('d, 'z) ms_scheme"
      by (rule less.hyps) (use less.prems(1) a u verify_less [OF False] that in simp_all)
    have step: "total (if r \<noteq> 0 then set_sense_at SS_UNRECOVERED_READ_ERROR lba t
        else verify_loop D first (lba + ?a) (left - ?a) t) (keeps_cmd s)"
      if "keeps_cmd s t \<and> one_lun t \<and> curlun t = curlun s" for r and t :: "('d, 'z) ms_scheme"
    proof (cases "r = 0")
      case True
      have "total (verify_loop D first (lba + ?a) (left - ?a) t) (keeps_cmd t)"
        by (rule IH) (use that less.prems(3) in simp_all)
      then have "total (verify_loop D first (lba + ?a) (left - ?a) t) (keeps_cmd s)"
        by (rule total_mono) (use that in \<open>auto intro: keeps_cmd_trans\<close>)
      then show ?thesis by (simp only: True simp_thms if_False)
    next
      case False
      have "total (set_sense_at SS_UNRECOVERED_READ_ERROR lba t) (\<lambda>s'. keeps_cmd t s' \<and> curlun s' = Some 0)"
        by (rule set_sense_at_total) (use that less.prems(3) in simp_all)
      then have "total (set_sense_at SS_UNRECOVERED_READ_ERROR lba t) (keeps_cmd s)"
        by (rule total_mono) (use that in \<open>auto intro: keeps_cmd_trans\<close>)
      then show ?thesis using False by simp
    qed
    have "total (lun_read D (first + lba) ?a s) (\<lambda>rt. total (if fst rt \<noteq> 0 then set_sense_at SS_UNRECOVERED_READ_ERROR lba (snd rt)
        else verify_loop D first (lba + ?a) (left - ?a) (snd rt)) (keeps_cmd s))"
      by (rule total_mono [OF lun_read_total [OF assms(1) w less.prems(2)]], rule step) (simp add: case_prod_unfold)
    then show ?thesis
      unfolding verify_loop.simps [of D first lba left s] Let_def
      by (simp only: False simp_thms if_True total_bind case_prod_unfold)
  qed
qed

lemma do_verify_runs:
  assumes "runnable s" "is_open (the_lun s)" "fits (the_lun s)" "serves D (the_lun s)"
  shows "runs (do_verify D) s"
proof -
  let ?l = "the_lun s"
  have o: "one_lun s" "curlun s = Some 0" "length (CBWCB (ms_cmd s)) = 16" using assms(1) by (simp_all add: runnable_def)
  obtain lba where lba: "get_unaligned_be32 (CBWCB (ms_cmd s)) 2 = Some lba"
    using be32_total [of 2 "CBWCB (ms_cmd s)"] o(3) by auto
  obtain n where n: "get_unaligned_be16 (CBWCB (ms_cmd s)) 7 = Some n"
    using be16_total [of 7 "CBWCB (ms_cmd s)"] o(3) by auto
  have loop: "total (verify_loop D (firstSector ?l) lba (ucast n) s) (keeps_cmd s)"
    if "\<not> beyond_lun lba (ucast n) ?l"
  proof -
    have "in_window ?l (firstSector ?l + lba) (ucast n)"
      by (rule transfer_in_window [OF assms(2,3) _ that]) (use unat_u16_bound [of n] in \<open>simp del: unat_u16_bound\<close>)
    moreover have "unat (firstSector ?l + lba) = unat (firstSector ?l) + unat lba"
      using that assms(3) by (subst unat_plus_if') (simp add: fits_def word_less_nat_alt not_le)
    ultimately show ?thesis
      by (intro verify_loop_total [OF assms(4,2,3)]) (use o in \<open>auto simp: in_window_def\<close>)
  qed
  have k: "keeps_cmd s s" using o(1) by (rule keeps_cmd_refl)
  have f: "total (fail_with sd s) (\<lambda>(r, s'). keeps_cmd s s')" for sd by (rule fail_runs [OF assms(1)])
  have ss: "total (set_sense_at sd a s) (keeps_cmd s)" for sd a
    by (rule total_mono [OF set_sense_at_total [OF o(1,2)]]) simp
  show ?thesis
    unfolding do_verify_def cur_lun_eq [OF o(1,2)] lba n cdb_total [OF o(3), of 1, simplified] Let_def
    using loop cdb_total [OF o(3), of "Suc 0"] by (simp add: f k ss total_bind not_le not_less)
qed

lemma plain_runs:
  assumes "runnable s"
  shows "runs do_synchronize_cache s" "runs do_inquiry s" "runs do_request_sense s" "runs do_read_capacity s"
    "runs do_mode_sense s" "runs do_start_stop s" "runs do_prevent_allow s" "runs do_read_format_capacities s"
    "runs do_mode_select s" "runs do_nothing s"
proof -
  have o: "one_lun s" "curlun s = Some 0" "length (CBWCB (ms_cmd s)) = 16" using assms(1) by (simp_all add: runnable_def)
  note l = cur_lun_eq [OF o(1,2)]
  note c = cdb_total [OF o(3)]
  have k: "keeps_cmd s s" using o(1) by (rule keeps_cmd_refl)
  have f: "total (fail_with sd s) (\<lambda>(r, s'). keeps_cmd s s')" for sd by (rule fail_runs [OF assms(1)])
  obtain lba where lba: "get_unaligned_be32 (CBWCB (ms_cmd s)) 2 = Some lba"
    using be32_total [of 2 "CBWCB (ms_cmd s)"] o(3) by auto
  show "runs do_synchronize_cache s" by (simp add: do_synchronize_cache_def l fsg_lun_fsync_sub_def k)
  show "runs do_inquiry s" by (simp add: do_inquiry_def l o(2) k)
  show "runs do_request_sense s"
    using upd_lun_total [OF o(1,2), of "\<lambda>l. l\<lparr>sense_data := SS_NO_SENSE, sense_data_info := 0, info_valid := False\<rparr>"]
    by (auto simp: do_request_sense_def l o(2) total_bind Let_def total_iff)
  show "runs do_read_capacity s" by (simp add: do_read_capacity_def lba c l f k)
  show "runs do_mode_sense s"
  proof -
    have f': "total (fail_with sd t) (\<lambda>(r, s'). keeps_cmd s s')" if "keeps_cmd s t \<and> curlun t = Some 0" for sd t
      by (rule total_mono [OF fail_with_runs]) (use that in \<open>auto simp: keeps_cmd_def\<close>)
    have p: "keeps_cmd s (caching_page b x t) = keeps_cmd s t" "curlun (caching_page b x t) = curlun t"
      "curlun (put_buf x y t) = curlun t" for b x y and t :: "('a, 'b) ms_scheme"
      by (simp_all add: caching_page_def Let_def put_buf_def)
    show ?thesis
      using o(2) by (simp add: do_mode_sense_def l c f Let_def k p f' if_distrib [of curlun] if_distrib [of "keeps_cmd s"])
  qed
  have u: "total (upd_lun g s) (\<lambda>s'. keeps_cmd s s')"
    if "\<And>l. firstSector (g l) = firstSector l" "\<And>l. sectorCount (g l) = sectorCount l"
      "\<And>l. ro (g l) = ro l" "\<And>l. is_open (g l) \<Longrightarrow> is_open l" for g
    by (rule total_mono [OF upd_lun_total [OF o(1,2)]]) (use that in auto)
  have "total (upd_lun fsg_lun_close s) (\<lambda>s'. keeps_cmd s s')"
    by (rule u) (auto simp: fsg_lun_close_def split: if_split_asm)
  then show "runs do_start_stop s"
    using o(2) by (simp add: do_start_stop_def l c f k total_bind)
  have "total (upd_lun (\<lambda>l. l\<lparr>prevent_medium_removal := b\<rparr>) s) (\<lambda>s'. keeps_cmd s s')" for b
    by (rule u) simp_all
  then show "runs do_prevent_allow s"
    using o(2) by (simp add: do_prevent_allow_def l c f k total_bind)
  show "runs do_read_format_capacities s" by (simp add: do_read_format_capacities_def l k Let_def)
  show "runs do_mode_select s" by (simp add: do_mode_select_def o(2) f)
  show "runs do_nothing s" by (simp add: do_nothing_def k)
qed

text \<open>The parts of the command block that no check changes.\<close>

definition cbw_header :: "('d, 'z) ms_scheme \<Rightarrow> u32 \<times> u32 \<times> u8 \<times> u8 \<times> nat" where
  "cbw_header s = (dCBWTag (ms_cmd s), dCBWDataTransferLength (ms_cmd s), bmCBWFlags (ms_cmd s),
     bCBWCBLength (ms_cmd s), length (CBWCB (ms_cmd s)))"

lemma cbw_header_cmd: "ms_cmd s' = ms_cmd s \<Longrightarrow> cbw_header s' = cbw_header s"
  by (simp add: cbw_header_def)

lemma check_bytes_total: "i + n \<le> length cb \<Longrightarrow> \<exists>b. check_bytes cb msk n i = Some b"
  by (induction n arbitrary: i) auto

lemma upd_lun_cmd: "upd_lun f s = Some s' \<Longrightarrow> ms_cmd s' = ms_cmd s"
  by (auto simp: upd_lun_def Option.bind_eq_Some_conv)

lemma check_sizes_shape:
  "check_sizes k dir s = (r, s') \<Longrightarrow> ms_cmd s' = ms_cmd s \<and> (\<forall>n. r = Some n \<longrightarrow> n = unat (bCBWCBLength (ms_cmd s)))"
proof -
  have "ms_cmd (snd (check_sizes k dir s)) = ms_cmd s"
    "\<forall>n. fst (check_sizes k dir s) = Some n \<longrightarrow> n = unat (bCBWCBLength (ms_cmd s))"
    unfolding check_sizes_def Let_def by simp_all
  then show "check_sizes k dir s = (r, s') \<Longrightarrow> ?thesis" by simp
qed

lemma check_lun_total:
  assumes "one_lun s" "length (CBWCB (ms_cmd s)) = 16"
  shows "\<exists>s'. check_lun s = Some (True, s') \<and> ms_cmd s' = ms_cmd s"
proof -
  obtain l where "luns s = [l]" "nluns s = 1" "lun_no s = 0" using assms(1) by (auto simp: one_lun_def)
  then show ?thesis using assms(2) by (simp add: check_lun_def cdb_total upd_lun_def Let_def)
qed

lemma check_rest_total:
  assumes "one_lun s" "curlun s = Some 0" "length (CBWCB (ms_cmd s)) = 16" "k \<le> 16"
  shows "\<exists>r s'. check_rest k msk medium s = Some (r, s') \<and> cbw_header s' = cbw_header s"
proof -
  obtain b where b: "cdb 1 s = Some b" using assms(3) cdb_total [of s 1] by simp
  let ?t = "s\<lparr>ms_cmd := (ms_cmd s)\<lparr>CBWCB := (CBWCB (ms_cmd s))[1 := b AND 0x1f]\<rparr>\<rparr>"
  have t: "one_lun ?t" "curlun ?t = Some 0" "cbw_header ?t = cbw_header s" "length (CBWCB (ms_cmd ?t)) = 16"
    using assms by (simp_all add: cbw_header_def)
  have "1 + (k - 1) \<le> length (CBWCB (ms_cmd ?t))" unfolding t(4) using assms(4) by linarith
  from check_bytes_total [OF this] obtain ok where ok: "check_bytes (CBWCB (ms_cmd ?t)) msk (k - 1) 1 = Some ok"
    by blast
  have f: "\<exists>r s'. fail_with sd ?t = Some (r, s') \<and> cbw_header s' = cbw_header s" for sd
  proof -
    obtain r s' where f: "fail_with sd ?t = Some (r, s')" "keeps_cmd ?t s'"
      using fail_with_runs [OF t(1,2), of sd] by (auto simp: total_iff)
    then have "cbw_header s' = cbw_header s" using cbw_header_cmd [of s' ?t] t(3) by (simp add: keeps_cmd_def)
    with f(1) show ?thesis by blast
  qed
  show ?thesis
    unfolding check_rest_def b ok Option.bind.simps Let_def
    using f t cur_lun_eq [OF t(1,2)] by (auto simp: ok [unfolded One_nat_def] sense_if_lun_def)
qed

lemma check_command_total:
  assumes "one_lun s" "length (CBWCB (ms_cmd s)) = 16" "unat (bCBWCBLength (ms_cmd s)) \<le> 16"
  shows "\<exists>r s'. check_command k dir msk medium s = Some (r, s') \<and> cbw_header s' = cbw_header s"
proof -
  obtain kk s1 where 1: "check_sizes k dir s = (kk, s1)" by fastforce
  from check_sizes_checked [OF assms(1) 1] check_sizes_shape [OF 1]
  have s1: "one_lun s1" "ms_cmd s1 = ms_cmd s" "\<And>n. kk = Some n \<Longrightarrow> n \<le> 16"
    using assms(3) by (auto simp: checked_def)
  show ?thesis
  proof (cases kk)
    case None
    then show ?thesis using 1 s1 by (simp add: check_command_def cbw_header_def)
  next
    case (Some n)
    obtain s2 where 2: "check_lun s1 = Some (True, s2)" "ms_cmd s2 = ms_cmd s"
      using check_lun_total [OF s1(1)] s1(2) assms(2) by auto
    from check_lun_checked [OF s1(1) 2(1)] have s2: "one_lun s2" "curlun s2 = Some 0" by (auto simp: checked_def)
    obtain att where att: "check_attention s2 = Some att"
      using s2 assms(2) 2(2) by (simp add: check_attention_def cdb_total cur_lun_eq)
    obtain r s3 where 3: "check_rest n msk medium s2 = Some (r, s3)" "cbw_header s3 = cbw_header s"
      using check_rest_total [OF s2, of n msk medium] assms(2) 2(2) s1(3) [OF Some] by (auto simp: cbw_header_def)
    obtain s4 where 4: "upd_lun (\<lambda>l. l\<lparr>sense_data := unit_attention_data l, unit_attention_data := SS_NO_SENSE\<rparr>) s2 = Some s4"
      using s2 by (auto simp: upd_lun_def one_lun_def)
    have "cbw_header s4 = cbw_header s" using upd_lun_cmd [OF 4] 2(2) by (simp add: cbw_header_def)
    then show ?thesis using 1 2(1) att 3 4 Some by (cases att) (simp_all add: check_command_def)
  qed
qed

text \<open>What carrying out a command keeps, from the packet on.\<close>

definition served :: "('d, 'z) ms_scheme \<Rightarrow> ('d, 'z) ms_scheme \<Rightarrow> bool" where
  "served s s' \<longleftrightarrow> one_lun s' \<and> cbw_header s' = cbw_header s \<and> ms_tx s' = ms_tx s \<and> ms_written s' = ms_written s
     \<and> firstSector (the_lun s') = firstSector (the_lun s) \<and> sectorCount (the_lun s') = sectorCount (the_lun s)
     \<and> ro (the_lun s') = ro (the_lun s) \<and> (is_open (the_lun s') \<longrightarrow> is_open (the_lun s))"

lemma scsi_case_total:
  assumes s: "one_lun s" "length (CBWCB (ms_cmd s)) = 16" "unat (bCBWCBLength (ms_cmd s)) \<le> 16" "sz = Some n"
    and f: "\<And>t. runnable t \<Longrightarrow> window (the_lun t) = window (the_lun s) \<Longrightarrow> (medium \<Longrightarrow> is_open (the_lun t)) \<Longrightarrow>
      runs f t"
  shows "total (scsi_case sz k dir msk medium f s) (\<lambda>(r, s'). served s s')"
proof -
  let ?s = "s\<lparr>data_size_from_cmnd := n\<rparr>"
  obtain r t where c: "check_command k dir msk medium ?s = Some (r, t)" "cbw_header t = cbw_header ?s"
    using check_command_total [of ?s k dir msk medium] s by auto
  from check_command_checked [OF _ c(1)] s(1)
  have ch: "checked s t" "r = 0 \<Longrightarrow> curlun t = Some 0" "r = 0 \<Longrightarrow> medium \<Longrightarrow> is_open (the_lun t)"
    by (auto simp: checked_def)
  have w: "window (the_lun t) = window (the_lun s)" "cbw_header t = cbw_header s" using ch(1) c(2) by (simp_all add: checked_def cbw_header_def)
  show ?thesis
  proof (cases "r = 0")
    case True
    have "runs f t"
      by (rule f) (use True ch w s(2) in \<open>auto simp: runnable_def checked_def cbw_header_def\<close>)
    then have "total (f t) (\<lambda>(r, s'). served s s')"
      by (rule total_mono) (use ch(1) w in \<open>auto simp: keeps_cmd_def served_def checked_def cbw_header_def fits_def window_def\<close>)
    then show ?thesis using c(1) True s(4) by (simp add: scsi_case_def)
  next
    case False
    have "served s t" using ch(1) w by (auto simp: served_def checked_def fits_def window_def)
    then show ?thesis using c(1) False s(4) by (simp add: scsi_case_def)
  qed
qed

lemma total_ifI: "(b \<Longrightarrow> total x Q) \<Longrightarrow> (\<not> b \<Longrightarrow> total y Q) \<Longrightarrow> total (if b then x else y) Q"
  by simp

lemma scsi_switch_total:
  assumes "one_lun s" "length (CBWCB (ms_cmd s)) = 16" "unat (bCBWCBLength (ms_cmd s)) \<le> 16"
    and "fits (the_lun s)" "serves D (the_lun s)"
  shows "total (scsi_switch D s) (\<lambda>(r, s'). served s s')"
proof -
  obtain n4 n7 n6 where b: "cdb 4 s = Some n4" "get_unaligned_be16 (CBWCB (ms_cmd s)) 7 = Some n7"
    "get_unaligned_be32 (CBWCB (ms_cmd s)) 6 = Some n6"
    using assms(2) be16_total [of 7 "CBWCB (ms_cmd s)"] be32_total [of 6 "CBWCB (ms_cmd s)"] cdb_total [of s 4] by auto
  have sz: "\<exists>n. size_byte s = Some n" "\<exists>n. size_be16 s = Some n" "\<exists>n. size_rw6 s = Some n" "\<exists>n. size_rw10 s = Some n"
    "\<exists>n. size_rw12 s = Some n"
    by (simp_all add: b size_rw6_def size_rw10_def size_rw12_def)
  have disk: "fits (the_lun t)" "serves D (the_lun t)" if "window (the_lun t) = window (the_lun s)" for t :: "('a, 'b) ms_scheme"
    using fits_cong [OF that] in_window_cong [OF that] assms(4,5) that by (auto simp: serves_def window_def)
  have p: "total (scsi_case z k dir msk medium f s) (\<lambda>(r, s'). served s s')"
    if z: "\<exists>n. z = Some n" and f: "\<And>t. runnable t \<Longrightarrow> runs f t" for z k dir msk medium and f :: "('a, 'b) ms_scheme \<Rightarrow> _"
  proof -
    obtain n where n: "z = Some n" using z by blast
    show ?thesis by (rule scsi_case_total [OF assms(1-3) n]) (rule f)
  qed
  have d: "total (scsi_case z k dir msk True f s) (\<lambda>(r, s'). served s s')"
    if z: "\<exists>n. z = Some n" and f: "\<And>t. runnable t \<Longrightarrow> is_open (the_lun t) \<Longrightarrow> fits (the_lun t) \<Longrightarrow> serves D (the_lun t) \<Longrightarrow> runs f t"
    for z k dir msk and f :: "('a, 'b) ms_scheme \<Rightarrow> _"
  proof -
    obtain n where n: "z = Some n" using z by blast
    show ?thesis
      by (rule scsi_case_total [OF assms(1-3) n], rule f, assumption, simp, erule disk, erule disk)
  qed
  note q = p [OF _ plain_runs(1)] p [OF _ plain_runs(2)] p [OF _ plain_runs(3)] p [OF _ plain_runs(4)]
    p [OF _ plain_runs(5)] p [OF _ plain_runs(6)] p [OF _ plain_runs(7)] p [OF _ plain_runs(8)]
    p [OF _ plain_runs(9)] p [OF _ plain_runs(10)] p [OF _ fail_runs]
    d [OF _ do_read_runs] d [OF _ do_write_runs] d [OF _ do_verify_runs]
  show ?thesis
    unfolding scsi_switch_def cdb_total [OF assms(2), of 0, simplified] Option.bind.simps
    by (intro total_ifI q sz) simp_all
qed

text \<open>The state between two packets; a packet as the protocol wants it.\<close>

definition ms_ok :: "'d disk \<Rightarrow> ('d, 'z) ms_scheme \<Rightarrow> bool" where
  "ms_ok D s \<longleftrightarrow> one_lun s \<and> fits (the_lun s) \<and> serves D (the_lun s)
     \<and> (\<not> cmd_complete s \<longrightarrow> length (CBWCB (ms_cmd s)) = 16 \<and> unat (bCBWCBLength (ms_cmd s)) \<le> 16
          \<and> unat (ms_written s) < unat (dCBWDataTransferLength (ms_cmd s))
          \<and> dCBWDataTransferLength (ms_cmd s) \<le> 0x1000000)"

definition packet_ok :: "('d, 'z) ms_scheme \<Rightarrow> u8 list \<Rightarrow> bool" where
  "packet_ok s p \<longleftrightarrow>
     (if cmd_complete s
      then length p = 31 \<and> dCBWSignature (parse_cbw p) = USB_BULK_CBW_SIG
        \<and> dCBWDataTransferLength (parse_cbw p) \<le> 0x1000000 \<and> unat (bCBWCBLength (parse_cbw p)) \<le> 16
      else length p < 2 ^ 32)"

lemma serves_mono:
  assumes "serves D l" "firstSector l' = firstSector l" "sectorCount l' = sectorCount l" "ro l' = ro l"
    "is_open l' \<longrightarrow> is_open l"
  shows "serves D l'"
proof -
  have "in_window l first n" if "in_window l' first n" for first n
    using that assms(2,3,5) by (simp add: in_window_def)
  then show ?thesis using assms(1,4) by (simp add: serves_def)
qed

lemma rx_run_total:
  assumes "one_lun s" "length (CBWCB (ms_cmd s)) = 16" "unat (bCBWCBLength (ms_cmd s)) \<le> 16"
    and "fits (the_lun s)" "serves D (the_lun s)" "cmd_complete s"
  shows "\<exists>s' data res st. rx_run D s = Some s' \<and> ms_ok D s' \<and> cmd_complete s'
    \<and> ms_tx s' = ms_tx s @ data @ [csw_bytes (dCBWTag (ms_cmd s')) res st] \<and> length data \<le> 1"
proof -
  have "total (scsi_switch D (s\<lparr>phase_error := False\<rparr>)) (\<lambda>(r, s'). served (s\<lparr>phase_error := False\<rparr>) s')"
    by (rule scsi_switch_total) (use assms in simp_all)
  then obtain r t where t: "scsi_switch D (s\<lparr>phase_error := False\<rparr>) = Some (r, t)" "served s t"
    by (auto simp: total_iff served_def cbw_header_def)
  then obtain v where v: "do_scsi_command D s = Some v" "served s v"
    by (simp add: do_scsi_command_def served_def cbw_header_def Let_def)
  obtain l where l: "luns v = [l]" "curlun v = None \<or> curlun v = Some 0"
    using v(2) by (auto simp: served_def one_lun_def)
  let ?w = "finish_reply v"
  obtain data where w: "?w = v\<lparr>ms_tx := ms_tx v @ data\<rparr>" "length data \<le> 1"
  proof (cases "dCBWDataTransferLength (ms_cmd v) \<noteq> 0 \<and> bulk_in v")
    case True
    then show ?thesis
      by (intro that [of "[load_bytes masstorage_buffer (unat (dCBWDataTransferLength (ms_cmd v))) (ms_mem v)]"])
        (simp_all add: finish_reply_def Let_def masstorage_tx_def)
  next
    case False
    then show ?thesis by (intro that [of "[]"]) (auto simp: finish_reply_def Let_def)
  qed
  obtain st where st: "csw_status ?w = Some st"
    using l w(1) by (auto simp: csw_status_def cur_lun_def)
  let ?s' = "masstorage_tx (csw_bytes (dCBWTag (ms_cmd ?w)) (residue ?w) st) ?w"
  have run: "rx_run D s = Some ?s'"
    using assms(6) v(1) st by (simp add: rx_run_def send_status_def)
  have same: "dCBWTag (ms_cmd v) = dCBWTag (ms_cmd s)" "dCBWDataTransferLength (ms_cmd v) = dCBWDataTransferLength (ms_cmd s)"
    "bmCBWFlags (ms_cmd v) = bmCBWFlags (ms_cmd s)" "ms_written v = ms_written s" "ms_tx v = ms_tx s"
    using v(2) by (simp_all add: served_def cbw_header_def)
  have c: "cmd_complete ?s'"
    using assms(6) same by (simp add: w(1) masstorage_tx_def cmd_complete_def bulk_in_def)
  have lun: "the_lun ?s' = the_lun v" "one_lun ?s'" using v(2) by (simp_all add: w(1) masstorage_tx_def served_def)
  have "serves D (the_lun v)" by (rule serves_mono [OF assms(5)]) (use v(2) in \<open>simp_all add: served_def\<close>)
  moreover have "fits (the_lun v)" using assms(4) v(2) by (simp add: fits_def served_def)
  ultimately have "ms_ok D ?s'" using c lun by (simp add: ms_ok_def)
  moreover have "ms_tx ?s' = ms_tx s @ data @ [csw_bytes (dCBWTag (ms_cmd ?s')) (residue ?w) st]"
    by (simp add: w(1) masstorage_tx_def same)
  ultimately show ?thesis using run c w(2) by blast
qed

lemma rx_data_shape:
  assumes "unat (ms_written s) < unat (dCBWDataTransferLength (ms_cmd s))" "length p < 2 ^ 32"
  shows "\<exists>m w. rx_data p s = s\<lparr>ms_mem := m, ms_written := w\<rparr> \<and> unat w \<le> unat (dCBWDataTransferLength (ms_cmd s))"
proof -
  let ?len = "dCBWDataTransferLength (ms_cmd s)"
  have r: "unat (?len - ms_written s) = unat ?len - unat (ms_written s)" using assms(1) by (simp add: unat_sub_if')
  have "unat (ms_written s + (if of_nat (length p) \<le> ?len - ms_written s then of_nat (length p) else ?len - ms_written s))
    \<le> unat ?len"
    using assms(1) r unat_u32_bound [of ?len] by (auto simp: word_le_nat_alt unat_plus_if' simp del: unat_u32_bound)
  then show ?thesis unfolding rx_data_def Let_def put_buf_def by - (intro exI conjI, rule refl)
qed

text \<open>C24: on a disk that serves the mounted window, a packet that keeps to the protocol is always handled: the handler
  returns, the state stays well formed, a command that is carried out is answered by at most one data
  packet and exactly one status that carries its tag, and otherwise nothing is sent.\<close>

theorem masstorage_serves_packets:
  assumes "ms_ok D s" and "packet_ok s p"
  shows "\<exists>s'. masstorage_rx_handler D p s = Some s' \<and> ms_ok D s'
    \<and> (if cmd_complete s'
       then \<exists>data res st. ms_tx s' = ms_tx s @ data @ [csw_bytes (dCBWTag (ms_cmd s')) res st] \<and> length data \<le> 1
       else ms_tx s' = ms_tx s)"
proof (cases "cmd_complete s")
  case True
  let ?t = "s\<lparr>ms_cmd := parse_cbw p, ms_written := 0\<rparr>"
  have p: "length (CBWCB (ms_cmd ?t)) = 16" "unat (bCBWCBLength (ms_cmd ?t)) \<le> 16"
    "dCBWDataTransferLength (ms_cmd ?t) \<le> 0x1000000"
    using assms(2) True by (simp_all add: packet_ok_def parse_cbw_def Let_def)
  have h: "masstorage_rx_handler D p s = rx_run D ?t"
    by (rule rx_header) (use True assms(2) in \<open>simp_all add: packet_ok_def\<close>)
  have s: "one_lun ?t" "fits (the_lun ?t)" "serves D (the_lun ?t)" using assms(1) by (simp_all add: ms_ok_def)
  show ?thesis
  proof (cases "cmd_complete ?t")
    case True
    from rx_run_total [OF s(1) p(1,2) s(2,3) True] obtain s' data res st where
      "rx_run D ?t = Some s'" "ms_ok D s'" "cmd_complete s'" "length data \<le> 1"
      "ms_tx s' = ms_tx ?t @ data @ [csw_bytes (dCBWTag (ms_cmd s')) res st]" by blast
    with h show ?thesis by auto
  next
    case False
    have "0 < unat (dCBWDataTransferLength (ms_cmd ?t))" using False by (simp add: cmd_complete_def unat_gt_0)
    then have "ms_ok D ?t" using s p by (simp add: ms_ok_def)
    with False h show ?thesis by (simp add: rx_run_def)
  qed
next
  case False
  have o: "length (CBWCB (ms_cmd s)) = 16" "unat (bCBWCBLength (ms_cmd s)) \<le> 16"
    "unat (ms_written s) < unat (dCBWDataTransferLength (ms_cmd s))" "dCBWDataTransferLength (ms_cmd s) \<le> 0x1000000"
    using assms(1) False by (simp_all add: ms_ok_def)
  obtain m w where d: "rx_data p s = s\<lparr>ms_mem := m, ms_written := w\<rparr>" "unat w \<le> unat (dCBWDataTransferLength (ms_cmd s))"
    using rx_data_shape [OF o(3), of p] assms(2) False by (auto simp: packet_ok_def)
  let ?t = "s\<lparr>ms_mem := m, ms_written := w\<rparr>"
  have h: "masstorage_rx_handler D p s = rx_run D ?t" using False d(1) by (simp add: masstorage_rx_handler_def)
  have s: "one_lun ?t" "fits (the_lun ?t)" "serves D (the_lun ?t)" using assms(1) by (simp_all add: ms_ok_def)
  show ?thesis
  proof (cases "cmd_complete ?t")
    case True
    have "length (CBWCB (ms_cmd ?t)) = 16" "unat (bCBWCBLength (ms_cmd ?t)) \<le> 16" using o by simp_all
    from rx_run_total [OF s(1) this s(2,3) True] obtain s' data res st where
      "rx_run D ?t = Some s'" "ms_ok D s'" "cmd_complete s'" "length data \<le> 1"
      "ms_tx s' = ms_tx ?t @ data @ [csw_bytes (dCBWTag (ms_cmd s')) res st]" by blast
    with h show ?thesis by auto
  next
    case nc: False
    then have "unat w \<noteq> unat (dCBWDataTransferLength (ms_cmd s))" by (auto simp: cmd_complete_def word_unat_eq_iff)
    then have "unat w < unat (dCBWDataTransferLength (ms_cmd s))" using d(2) by simp
    then have "ms_ok D ?t" using s o by (simp add: ms_ok_def)
    with nc h show ?thesis by (simp add: rx_run_def)
  qed
qed

lemma masstorage_serves_packets_witness:
  "\<exists>s'. masstorage_rx_handler ram_disk (cbw_bytes 7 0 0 6 [TEST_UNIT_READY]) sample_ms = Some s' \<and> ms_ok ram_disk s'"
  using masstorage_serves_packets [of ram_disk sample_ms "cbw_bytes 7 0 0 6 [TEST_UNIT_READY]"]
  by (auto simp: ms_ok_def packet_ok_def serves_def ram_disk_def)

end
