(* ===== verification/Boot_Props.thy ===== *)
theory Boot_Props
  imports Boot_Disk Mass_Serve Scan_Props
begin

text \<open>
  The command protocol of the device program: a command is carried out once, on its data, however the data
  is cut into packets; memory commands; refused headers; and what start-up leaves.
\<close>

section \<open>Sequences of packets\<close>

fun diskboot_all ::
  "cfg \<Rightarrow> fmt_par \<Rightarrow> 'h nfc_hw \<Rightarrow> 'h code \<Rightarrow> u8 list list \<Rightarrow> 'h nst drv board \<Rightarrow> 'h nst drv board option" where
  "diskboot_all C F H X [] s = Some s"
| "diskboot_all C F H X (p # ps) s = do { s \<leftarrow> diskboot_rx_handler C F H X p s; diskboot_all C F H X ps s }"

lemma diskboot_all_end [simp]: "m \<bind> diskboot_all C F H X [] = m"
  by (cases m) simp_all

lemma rx_cmd_data_part:
  assumes "bd_written s = of_nat k" "k + length p \<le> unat (bc_datasize (bd_cmd s))"
  shows "rx_cmd_data p s = s\<lparr>ms_mem := store_bytes (transfer_buffer + of_nat k) p (ms_mem s),
     bd_written := of_nat (k + length p)\<rparr>"
proof -
  let ?len = "bc_datasize (bd_cmd s)"
  have k: "unat (of_nat k :: u32) = k" "unat (of_nat (length p) :: u32) = length p"
    using assms(2) unat_u32_bound [of ?len] by (simp_all add: unat_of_nat del: unat_u32_bound)
  have "unat (?len - of_nat k) = unat ?len - k"
    using assms(2) k by (simp add: unat_sub_if')
  then have "(of_nat (length p) :: u32) \<le> ?len - of_nat k"
    using assms(2) k by (simp add: word_le_nat_alt)
  then show ?thesis using assms(1) k by (simp add: rx_cmd_data_def Let_def)
qed

lemma diskboot_packets:
  assumes "ps \<noteq> []" "[] \<notin> set ps" "bc_cmd (bd_cmd s) \<noteq> BCMD_NONE" "bd_written s = of_nat k"
    "k + length (concat ps) = unat (bc_datasize (bd_cmd s))"
  shows "diskboot_all C F H X ps s = rx_dispatch C F H X
    (s\<lparr>ms_mem := store_bytes (transfer_buffer + of_nat k) (concat ps) (ms_mem s), bd_written := bc_datasize (bd_cmd s)\<rparr>)"
  using assms
proof (induction ps arbitrary: k s)
  case (Cons p ps)
  let ?len = "bc_datasize (bd_cmd s)"
  let ?t = "s\<lparr>ms_mem := store_bytes (transfer_buffer + of_nat k) p (ms_mem s), bd_written := of_nat (k + length p)\<rparr>"
  have lens: "k < unat ?len" "k + length p \<le> unat ?len" using Cons.prems(2,5) by (cases p; auto)+
  then have "k < 4294967296" "k + length p < 4294967296" using unat_u32_bound [of ?len] by linarith+
  then have ku: "unat (of_nat k :: u32) = k" "unat (of_nat (k + length p) :: u32) = k + length p"
    by (simp_all add: unat_of_nat del: of_nat_add)
  have d: "rx_cmd_data p s = ?t" by (rule rx_cmd_data_part) (use Cons.prems(4) lens in auto)
  have h: "diskboot_rx_handler C F H X p s = rx_dispatch C F H X ?t"
    using Cons.prems(3) d by (simp add: diskboot_rx_handler_def)
  show ?case
  proof (cases "ps = []")
    case True
    then have "?len = of_nat (k + length p)" using Cons.prems(5) ku(2) by (simp add: word_unat_eq_iff)
    with True h show ?thesis by simp
  next
    case False
    have "concat ps \<noteq> []" using False Cons.prems(2) by (cases ps) auto
    then have "k + length p < unat ?len" using Cons.prems(5) by (cases "concat ps") auto
    then have nd: "of_nat (k + length p) \<noteq> ?len" using ku(2) by auto
    have "diskboot_all C F H X ps ?t = rx_dispatch C F H X
      (?t\<lparr>ms_mem := store_bytes (transfer_buffer + of_nat (k + length p)) (concat ps) (ms_mem ?t),
        bd_written := bc_datasize (bd_cmd ?t)\<rparr>)"
      by (rule Cons.IH) (use False Cons.prems in auto)
    moreover have "store_bytes (transfer_buffer + of_nat (k + length p)) (concat ps) (ms_mem ?t)
      = store_bytes (transfer_buffer + of_nat k) (concat (p # ps)) (ms_mem s)"
    proof -
      have "length p + length (concat ps) \<le> 2 ^ 32"
        using Cons.prems(5) unat_u32_bound [of ?len] by (simp del: unat_u32_bound)
      from store_bytes_append [OF this, of "transfer_buffer + of_nat k" "ms_mem s"]
      show ?thesis by (simp add: algebra_simps)
    qed
    ultimately show ?thesis using h nd by (simp add: rx_dispatch_def)
  qed
qed simp

text \<open>A header as the host sends it.\<close>

definition header_bytes :: "u16 \<Rightarrow> u16 \<Rightarrow> u32 \<Rightarrow> u32 \<Rightarrow> u32 \<Rightarrow> u32 \<Rightarrow> u8 list" where
  "header_bytes magic cmd param1 start cnt datasize =
     bytes_of_words [mk32 magic cmd, param1, start, 0, cnt, datasize]"

lemma length_header_bytes [simp]: "length (header_bytes a b c d e f) = 24"
  by (simp add: header_bytes_def)

lemma parse_header_bytes [simp]:
  "parse_header (header_bytes magic cmd param1 start cnt datasize) =
     \<lparr>bc_magic = magic, bc_cmd = cmd, bc_param1 = param1, bc_start = ucast start, bc_count = cnt, bc_datasize = datasize\<rparr>"
  using words_of_bytes_of_words_app [of "[mk32 magic cmd, param1, start, 0, cnt, datasize]" "[]"]
  by (simp add: parse_header_def header_bytes_def Let_def)

definition idle :: "'d board \<Rightarrow> bool" where
  "idle s \<longleftrightarrow> bc_cmd (bd_cmd s) = BCMD_NONE"

text \<open>The effect of a command on the data it comes with.\<close>

definition command_on ::
  "cfg \<Rightarrow> fmt_par \<Rightarrow> 'h nfc_hw \<Rightarrow> 'h code \<Rightarrow> bootdisk_cmd_header \<Rightarrow> u8 list \<Rightarrow> 'h nst drv board \<Rightarrow> 'h nst drv board option" where
  "command_on C F H X c data s = do {
     s \<leftarrow> dispatch_cmd C F H X (bc_cmd c) (bc_param1 c) (bc_start c) (bc_count c) (bc_datasize c)
       (s\<lparr>bd_cmd := c, ms_mem := store_bytes transfer_buffer data (ms_mem s), bd_written := bc_datasize c\<rparr>);
     Some (diskboot_reset_handler s)
   }"

lemma command_from_packets:
  assumes "idle s" and "length h = 24"
    and "bc_magic (parse_header h) = CMD_MAGIC" "bc_cmd (parse_header h) \<noteq> BCMD_NONE"
      "bc_datasize (parse_header h) \<le> 0x1000000"
    and "[] \<notin> set ps" "length (concat ps) = unat (bc_datasize (parse_header h))"
  shows "diskboot_all C F H X (h # ps) s = command_on C F H X (parse_header h) (concat ps) s"
proof -
  let ?c = "parse_header h"
  let ?s = "s\<lparr>bd_cmd := ?c, bd_written := 0\<rparr>"
  have h: "diskboot_rx_handler C F H X h s = rx_dispatch C F H X ?s"
    using assms(1-3,5) by (simp add: diskboot_rx_handler_def idle_def Let_def leD)
  have c: "rx_dispatch C F H X (s\<lparr>bd_cmd := ?c, ms_mem := store_bytes transfer_buffer data (ms_mem s), bd_written := bc_datasize ?c\<rparr>)
      = command_on C F H X ?c data s" for data
    by (simp add: rx_dispatch_def command_on_def diskboot_reset_handler_def Let_def)
  show ?thesis
  proof (cases "ps = []")
    case True
    then have "bc_datasize ?c = 0" using assms(7) by (simp add: unat_eq_zero)
    then show ?thesis using True h c [of "[]"] by simp
  next
    case False
    have "concat ps \<noteq> []" using False assms(6) by (cases ps) auto
    then have "bc_datasize ?c \<noteq> 0" using assms(7) by auto
    then have "diskboot_rx_handler C F H X h s = Some ?s" using h by (simp add: rx_dispatch_def)
    moreover have "diskboot_all C F H X ps ?s = rx_dispatch C F H X
      (?s\<lparr>ms_mem := store_bytes transfer_buffer (concat ps) (ms_mem ?s), bd_written := bc_datasize (bd_cmd ?s)\<rparr>)"
      using diskboot_packets [of ps ?s 0] False assms by simp
    ultimately show ?thesis using c [of "concat ps"] by simp
  qed
qed

text \<open>C39: a command is carried out exactly once, on its whole data in the transfer buffer, however the host cuts
  the data into packets, and then the program waits for the next header.\<close>

theorem command_reassembled:
  assumes "idle s" and "length h = 24"
    and "bc_magic (parse_header h) = CMD_MAGIC" "bc_cmd (parse_header h) \<noteq> BCMD_NONE"
      "bc_datasize (parse_header h) \<le> 0x1000000"
    and "[] \<notin> set ps" "length (concat ps) = unat (bc_datasize (parse_header h))"
  shows "diskboot_all C F H X (h # ps) s = command_on C F H X (parse_header h) (concat ps) s"
  by (rule command_from_packets [OF assms])

lemma store_load_same:
  assumes "k \<le> 2 ^ 32"
  shows "store_bytes a (load_bytes a k m) m = m"
proof
  fix x
  show "store_bytes a (load_bytes a k m) m x = m x" by (simp add: store_bytes_def nth_load_bytes)
qed

text \<open>C40: a header that is refused, for its magic number or for a data size above 16 MB, is carried out all the
  same: the refusal leaves it in place and does not reset the count of the bytes received. When \<open>k\<close> bytes are
  counted from the command before, fewer than the header announces, then as soon as the packets that follow,
  however they are cut, make up the rest, the command runs on the \<open>k\<close> bytes left in the transfer buffer followed
  by the data of the packets; the size is not bounded.\<close>

theorem refused_header_runs:
  assumes "idle s" and "bd_written s = of_nat k" "k < unat (bc_datasize (parse_header h))" and "length h = 24"
    and "bc_magic (parse_header h) \<noteq> CMD_MAGIC \<or> bc_datasize (parse_header h) > 0x1000000"
    and "bc_cmd (parse_header h) \<noteq> BCMD_NONE"
    and "[] \<notin> set ps" "k + length (concat ps) = unat (bc_datasize (parse_header h))"
  shows "diskboot_all C F H X (h # ps) s =
    command_on C F H X (parse_header h) (load_bytes transfer_buffer k (ms_mem s) @ concat ps) s"
proof -
  let ?c = "parse_header h"
  let ?s = "s\<lparr>bd_cmd := ?c\<rparr>" and ?old = "load_bytes transfer_buffer k (ms_mem s)"
  have "diskboot_rx_handler C F H X h s = Some ?s"
    using assms(1,4,5) by (auto simp: diskboot_rx_handler_def idle_def Let_def)
  moreover have "ps \<noteq> []" using assms(3,8) by auto
  then have "diskboot_all C F H X ps ?s = rx_dispatch C F H X
      (?s\<lparr>ms_mem := store_bytes (transfer_buffer + of_nat k) (concat ps) (ms_mem ?s), bd_written := bc_datasize (bd_cmd ?s)\<rparr>)"
    using assms(2,6-8) by (intro diskboot_packets) simp_all
  moreover have "k + length (concat ps) \<le> 2 ^ 32"
    using assms(8) unat_u32_bound [of "bc_datasize ?c"] by (simp del: unat_u32_bound)
  then have "store_bytes (transfer_buffer + of_nat k) (concat ps) (ms_mem s) = store_bytes transfer_buffer (?old @ concat ps) (ms_mem s)"
    using store_bytes_append [of ?old "concat ps" transfer_buffer "ms_mem s"] store_load_same [of k transfer_buffer "ms_mem s"]
    by simp
  ultimately show ?thesis
    by (simp add: rx_dispatch_def command_on_def diskboot_reset_handler_def Let_def)
qed


section \<open>Memory commands\<close>

lemma load_store_same:
  assumes "length bs \<le> 2 ^ 32"
  shows "load_bytes a (length bs) (store_bytes a bs m) = bs"
  using load_store_inside [of 0 bs "length bs" a m] assms by simp

lemma send_ok_small:
  assumes "0 < unat n" "unat n \<le> 0x1000000"
  shows "send_resp_OK (Mem a) (sint n) s =
    Some (s\<lparr>bd_tx := bd_tx s @ [resp_header BRST_OK n, load_bytes a (unat n) (ms_mem s)]\<rparr>)"
proof -
  have "sint n = uint n" using sint_of_nat_small [of "unat n"] assms(2) by simp
  moreover have "0 < uint n"
  proof -
    have "int (unat n) = uint n" by simp
    then show ?thesis using assms(1) by linarith
  qed
  ultimately show ?thesis by (simp add: send_resp_OK_def send_resp_st_def diskboot_tx_def Let_def)
qed

lemma send_ok_empty: "send_resp_OK (Bytes []) 0 s = Some (s\<lparr>bd_tx := bd_tx s @ [resp_header BRST_OK 0]\<rparr>)"
  by (simp add: send_resp_OK_def send_resp_st_def diskboot_tx_def)

lemmas command_codes = BCMD_NONE_def BCMD_FLASHMEM_PARAMS_def BCMD_BOARD_EXIT_def BCMD_PING_def BCMD_MEMJUMPTO_def
  BCMD_GETLOG_def BCMD_SLEEPTEST_def BCMD_DISKREAD_def BCMD_DISKWRITE_def BCMD_MEMREAD_def BCMD_MEMWRITE_def
  BCMD_MEMEXEC_def BCMD_MOUNT_def BCMD_GETMOUNT_STATUS_def

lemma diskboot_all_app:
  "diskboot_all C F H X (ps @ qs) s = diskboot_all C F H X ps s \<bind> diskboot_all C F H X qs"
proof (induction ps arbitrary: s)
  case (Cons p ps)
  then show ?case by (cases "diskboot_rx_handler C F H X p s") simp_all
qed simp

text \<open>What the host writes to memory it reads back: a memory write followed by a memory read of the same
  place is answered by two headers that report success and by the bytes written.\<close>

theorem memory_write_read:
  assumes "idle s" and "0 < unat n" "unat n \<le> 0x1000000"
    and "[] \<notin> set ps" "length (concat ps) = unat n"
  shows "\<exists>s'. diskboot_all C F H X
      ((header_bytes CMD_MAGIC BCMD_MEMWRITE 0 a 0 n # ps) @ [header_bytes CMD_MAGIC BCMD_MEMREAD 0 a n 0]) s = Some s'
    \<and> bd_tx s' = bd_tx s @ [resp_header BRST_OK 0, resp_header BRST_OK n, concat ps] \<and> idle s'"
proof -
  let ?w = "header_bytes CMD_MAGIC BCMD_MEMWRITE 0 a 0 n" and ?r = "header_bytes CMD_MAGIC BCMD_MEMREAD 0 a n 0"
  let ?data = "concat ps"
  have lim: "length ?data \<le> 2 ^ 32" using assms(3,5) by simp
  have n: "n \<le> 0x1000000" using assms(3) by (simp add: word_le_nat_alt)
  have cast: "ucast (ucast a :: u64) = a" by (simp add: ucast_up_ucast_id is_up)
  have ld: "load_bytes transfer_buffer (unat n) (store_bytes transfer_buffer ?data m) = ?data" for m
    using load_store_same [OF lim, of transfer_buffer m] assms(5) by simp
  have w: "diskboot_all C F H X (?w # ps) s = command_on C F H X (parse_header ?w) ?data s"
    by (rule command_from_packets) (use assms n in \<open>simp_all add: command_codes\<close>)
  define m1 where "m1 = store_bytes transfer_buffer ?data (ms_mem s)"
  define t where "t = diskboot_reset_handler (s\<lparr>bd_cmd := parse_header ?w, bd_written := n, ms_mem := store_bytes a ?data m1,
    bd_tx := bd_tx s @ [resp_header BRST_OK 0]\<rparr>)"
  have t: "command_on C F H X (parse_header ?w) ?data s = Some t"
    by (simp add: command_on_def dispatch_cmd_def command_codes send_ok_empty cast ld t_def m1_def)
  have ti: "idle t" by (simp add: t_def idle_def diskboot_reset_handler_def)
  have r: "diskboot_all C F H X (?r # []) t = command_on C F H X (parse_header ?r) (concat []) t"
    by (rule command_from_packets [OF ti]) (simp_all add: command_codes)
  have tm: "ms_mem t = store_bytes a ?data m1" "bd_tx t = bd_tx s @ [resp_header BRST_OK 0]"
    by (simp_all add: t_def diskboot_reset_handler_def)
  have "load_bytes a (unat n) (ms_mem t) = ?data"
    using load_store_same [OF lim, of a m1] assms(5) by (simp add: tm)
  then obtain s' where s': "command_on C F H X (parse_header ?r) [] t = Some s'"
      "bd_tx s' = bd_tx t @ [resp_header BRST_OK n, ?data]" "idle s'"
    by (simp add: command_on_def dispatch_cmd_def command_codes send_ok_small [OF assms(2,3)] cast
        diskboot_reset_handler_def idle_def)
  have "diskboot_all C F H X ((?w # ps) @ [?r]) s = Some s'"
    unfolding diskboot_all_app w t Option.bind.simps using r s'(1) by (simp only: concat.simps)
  then show ?thesis using s'(2,3) tm(2) by simp
qed

section \<open>Start-up\<close>

lemma PHY_Init_result: "PHY_Init H s = Some (r, s') \<Longrightarrow> r = 0 \<or> r = - 1"
  by (auto simp: PHY_Init_def NFC_Init_def NFC_ChangMode_def Let_def Option.bind_eq_Some_conv split: if_splits prod.splits)

lemma scan_finish_result: "scan_finish C H st s = Some (r, C', s') \<Longrightarrow> r = 0"
  by (auto simp: scan_finish_def Let_def case_prod_unfold Option.bind_eq_Some_conv)

lemma SCN_result: "SCN_AnalyzeNandSystem C H s = Some (r, C', s') \<Longrightarrow> r = 0 \<or> r = - 1"
  by (auto simp: SCN_AnalyzeNandSystem_def scan_archi_def Let_def Option.bind_eq_Some_conv
      split: if_splits prod.splits option.splits dest!: scan_finish_result)

lemma PHY_ChangeMode_result: "PHY_ChangeMode C H m s = Some (r, s') \<Longrightarrow> r = 0 \<or> r = - 1"
  by (auto simp: PHY_ChangeMode_def NFC_ChangMode_def Let_def Option.bind_eq_Some_conv split: if_splits prod.splits)

text \<open>The physic layer starts or reports -1, and when it starts the geometry is one the modules can work with.\<close>

lemma NAND_PhyInit_geometry:
  assumes "NAND_PhyInit C H s = Some (r, C', s')"
  shows "(r = 0 \<or> r = - 1) \<and> (r = 0 \<longrightarrow> geometry_ok C')"
proof -
  obtain r1 s1 where 1: "PHY_Init H s = Some (r1, s1)" using assms by (auto simp: NAND_PhyInit_def Option.bind_eq_Some_conv)
  show ?thesis
  proof (cases "r1 = 0")
    case False
    then show ?thesis using 1 assms PHY_Init_result [OF 1] by (simp add: NAND_PhyInit_def)
  next
    case True
    then obtain r2 C2 s2 where 2: "SCN_AnalyzeNandSystem C H s1 = Some (r2, C2, s2)"
      using 1 assms by (auto simp: NAND_PhyInit_def Option.bind_eq_Some_conv)
    show ?thesis
    proof (cases "r2 = 0")
      case False
      then show ?thesis using 1 2 True assms SCN_result [OF 2] by (simp add: NAND_PhyInit_def)
    next
      case z: True
      then have 3: "PHY_ChangeMode C2 H 1 s2 \<bind> (\<lambda>(ret, s). Some (ret, C2, s)) = Some (r, C', s')"
        using 1 2 True z assms by (simp add: NAND_PhyInit_def)
      from 3 obtain x where "PHY_ChangeMode C2 H 1 s2 = Some x"
        "(case x of (ret, s) \<Rightarrow> Some (ret, C2, s)) = Some (r, C', s')" by (rule bind_Some_elim)
      then obtain s3 where c: "PHY_ChangeMode C2 H 1 s2 = Some (r, s3)" "C' = C2" by (cases x) simp
      have "geometry_ok C2" by (rule scan_geometry_cfg [of C H s1 C2 s2]) (use 2 z in simp)
      then show ?thesis using PHY_ChangeMode_result [OF c(1)] c(2) by simp
    qed
  qed
qed


lemma geometry_arch [simp]: "geometry_ok (C\<lparr>arch := a\<rparr>) = geometry_ok C"
  by (simp add: geometry_ok_def BNK_CNT_OF_CHIP_def SECTOR_CNT_OF_SUPER_PAGE_def SUPPORT_MULTI_PROGRAM_def
      multi_plane_cfg_def PLANE_CNT_OF_DIE_def DIE_CNT_OF_CHIP_def MULTI_PLANE_BLOCK_OFFSET_def BLOCK_CNT_OF_DIE_def)

lemma FMT_Init_config: "FMT_Init C s = Some (F, C', s') \<Longrightarrow> \<exists>a. C' = C\<lparr>arch := a\<rparr>"
  by (auto simp: FMT_Init_def Let_def Option.bind_eq_Some_conv split: if_splits)

lemma LML_Init_result: "LML_Init C m1 m2 bm lm pm s = Some (r, s') \<Longrightarrow> r \<le> 0"
  by (auto simp: LML_Init_def Let_def Option.bind_eq_Some_conv
      split: option.splits if_splits prod.splits)

text \<open>The results of \<open>NAND_Init\<close>, and the geometry it leaves when it succeeds.\<close>

lemma NAND_Init_results:
  assumes "NAND_Init C H M s = Some (r, F, C', s')"
  shows "r \<in> {0, - 1, - 6, - 8} \<and> (r = 0 \<longrightarrow> geometry_ok C' \<and> F \<noteq> None)"
proof -
  obtain r1 C1 n where 1: "NAND_PhyInit C H (dr_dev s) = Some (r1, C1, n)"
    using assms by (auto simp: NAND_Init_def Option.bind_eq_Some_conv)
  note g = NAND_PhyInit_geometry [OF 1]
  show ?thesis
  proof (cases "r1 < 0")
    case True
    then show ?thesis using assms 1 by (simp add: NAND_Init_def)
  next
    case False
    then have ok: "geometry_ok C1" using g by auto
    obtain F1 C2 s2 where 2: "FMT_Init C1 (s\<lparr>dr_dev := n\<rparr>) = Some (F1, C2, s2)"
      using assms 1 False by (auto simp: NAND_Init_def Let_def Option.bind_eq_Some_conv)
    have ok2: "geometry_ok C2" using FMT_Init_config [OF 2] ok by auto
    obtain r3 s3 where 3: "FMT_FormatNand (physic C2 H) C2 F1 (dm_format M) s2 = Some (r3, s3)"
      using assms 1 2 False by (auto simp: NAND_Init_def Let_def Option.bind_eq_Some_conv)
    show ?thesis
    proof (cases "r3 < 0")
      case True
      then show ?thesis using assms 1 2 3 False by (simp add: NAND_Init_def)
    next
      case r3: False
      then obtain r4 s4 where 4: "LML_Init C2 (dm_write_cache M) (dm_tbl_buf M) (dm_blk_tables M) (dm_log_tables M)
          (dm_page_tables M) s3 = Some (r4, s4)" "r = (if r4 < 0 then - 8 else r4)" "F = Some F1" "C' = C2"
        using assms 1 2 3 False
        by (auto simp: NAND_Init_def Let_def FMT_Exit_def Option.bind_eq_Some_conv split: if_splits)
      then show ?thesis using LML_Init_result [OF 4(1)] ok2 by auto
    qed
  qed
qed

section \<open>A board\<close>

definition sample_board :: "unit nst drv board" where
  "sample_board = initial_board (\<lambda>_. 0) (sample_drv scan_nst)"

lemma sample_board_simps [simp]: "idle sample_board" "bd_written sample_board = 0" "bd_tx sample_board = []"
  by (simp_all add: sample_board_def initial_board_def initial_ms_def idle_def ms.defs)

lemma command_reassembled_witness:
  "diskboot_all k9lbg08_cfg no_fmt_par scan_hw (\<lambda>_. Some)
     (header_bytes CMD_MAGIC BCMD_MEMWRITE 0 0x42000000 0 3 # [[1, 2], [3]]) sample_board
   = command_on k9lbg08_cfg no_fmt_par scan_hw (\<lambda>_. Some)
     (parse_header (header_bytes CMD_MAGIC BCMD_MEMWRITE 0 0x42000000 0 3)) (concat [[1, 2], [3]]) sample_board"
  by (rule command_reassembled) (simp_all add: command_codes)

lemma refused_header_runs_witness:
  "diskboot_all k9lbg08_cfg no_fmt_par scan_hw (\<lambda>_. Some)
     [header_bytes 0 BCMD_MEMWRITE 0 0x42000000 0 4, [7], [8, 9]] (sample_board\<lparr>bd_written := 1\<rparr>)
   = command_on k9lbg08_cfg no_fmt_par scan_hw (\<lambda>_. Some)
     (parse_header (header_bytes 0 BCMD_MEMWRITE 0 0x42000000 0 4)) [0, 7, 8, 9] (sample_board\<lparr>bd_written := 1\<rparr>)"
proof -
  have "load_bytes transfer_buffer 1 (ms_mem (sample_board\<lparr>bd_written := 1\<rparr>)) = [0]"
    by (simp add: load_bytes_def sample_board_def initial_board_def initial_ms_def ms.defs)
  moreover have "idle (sample_board\<lparr>bd_written := 1\<rparr>)" using sample_board_simps(1) by (simp add: idle_def)
  ultimately show ?thesis
    using refused_header_runs [of "sample_board\<lparr>bd_written := 1\<rparr>" 1 "header_bytes 0 BCMD_MEMWRITE 0 0x42000000 0 4" "[[7], [8, 9]]"
        k9lbg08_cfg no_fmt_par scan_hw "\<lambda>_. Some"]
    by (simp add: command_codes CMD_MAGIC_def del: diskboot_all.simps)
qed

lemma memory_write_read_witness:
  "\<exists>s'. diskboot_all k9lbg08_cfg no_fmt_par scan_hw (\<lambda>_. Some)
      ((header_bytes CMD_MAGIC BCMD_MEMWRITE 0 0x42000000 0 3 # [[1, 2], [3]])
        @ [header_bytes CMD_MAGIC BCMD_MEMREAD 0 0x42000000 3 0]) sample_board = Some s'
    \<and> bd_tx s' = [resp_header BRST_OK 0, resp_header BRST_OK 3, [1, 2, 3]]"
  using memory_write_read [of sample_board 3 "[[1, 2], [3]]" k9lbg08_cfg no_fmt_par scan_hw "\<lambda>_. Some" "0x42000000"]
  by (auto simp del: diskboot_all.simps)

end
