(* ===== verification/Host_Calls.thy ===== *)
theory Host_Calls
  imports Host_Tool Boot_Props
begin

text \<open>
  The host and the device together: \<open>device_link\<close> joins the host's transfers to the packets of the device
  program, so that a command of the host is one call of the device (\<open>send_command_call\<close>). Then what memory
  commands do to the board's memory, one by one and for a whole file.
\<close>

section \<open>The cable\<close>

function packets :: "nat \<Rightarrow> u8 list \<Rightarrow> u8 list list" where
  "packets n bs = (if bs = [] \<or> n = 0 then [] else take n bs # packets n (drop n bs))"
  by pat_completeness auto
termination by (relation "measure (\<lambda>(n, bs). length bs)") (auto simp: neq_Nil_conv)

declare packets.simps [simp del]

lemma concat_packets: "0 < n \<Longrightarrow> concat (packets n bs) = bs"
  by (induction n bs rule: packets.induct) (subst packets.simps, simp)

lemma packets_full: "[] \<notin> set (packets n bs)"
  by (induction n bs rule: packets.induct) (subst packets.simps, simp)

lemma packets_Nil [simp]: "packets n [] = []"
  by (subst packets.simps) simp

lemma packets_small: "bs \<noteq> [] \<Longrightarrow> length bs \<le> n \<Longrightarrow> packets n bs = [bs]"
  by (subst packets.simps) (auto simp: neq_Nil_conv)

text \<open>Full packets have 512 bytes (high speed). A transfer to the host ends when its buffer is full or with a
  short packet; a packet longer than the rest of the buffer is an overflow, status -8.\<close>

definition device_out ::
  "cfg \<Rightarrow> fmt_par \<Rightarrow> 'h nfc_hw \<Rightarrow> 'h code \<Rightarrow> u8 list \<Rightarrow> 'h nst drv board \<Rightarrow> (int \<times> 'h nst drv board) option" where
  "device_out C F H X bs d = do { d \<leftarrow> diskboot_all C F H X (packets 512 bs) d; Some (0, d) }"

definition device_in :: "int \<Rightarrow> 'd board \<Rightarrow> (int \<times> u8 list \<times> 'd board) option" where
  "device_in n d =
     (case bd_tx d of
        [] \<Rightarrow> None
      | bs # rest \<Rightarrow>
          if int (length bs) = n \<or> int (length bs) < n \<and> length bs mod 512 \<noteq> 0 then Some (0, bs, d\<lparr>bd_tx := rest\<rparr>)
          else if int (length bs) < n then None
          else if n mod 512 = 0 then Some (0, take (nat n) bs, d\<lparr>bd_tx := drop (nat n) bs # rest\<rparr>)
          else Some (- 8, [], d))"

definition device_link :: "cfg \<Rightarrow> fmt_par \<Rightarrow> 'h nfc_hw \<Rightarrow> 'h code \<Rightarrow> 'h nst drv board link" where
  "device_link C F H X = \<lparr>bulk_out = device_out C F H X, bulk_in = device_in\<rparr>"

section \<open>A command is a call\<close>

lemma cmd_header_length [simp]: "length (cmd_header_bytes cmd p start cnt n) = 24"
  by (simp add: cmd_header_bytes_def bytes16_def bytes32_def)

lemma join64: "ucast (ucast w :: u32) OR push_bit 32 (ucast (ucast (drop_bit 32 w) :: u32)) = (w :: u64)"
  by (rule bit_word_eqI) (auto simp: bit_or_iff bit_push_bit_iff bit_ucast_iff bit_drop_bit_eq)

lemma cmd_header_words:
  "cmd_header_bytes cmd p start cnt n =
     bytes_of_words [mk32 CMD_MAGIC cmd, p, ucast start, ucast (drop_bit 32 start), cnt, n]"
  by (simp add: cmd_header_bytes_def bytes_of_words_def bytes32_def)

lemma parse_cmd_header [simp]:
  "parse_header (cmd_header_bytes cmd p start cnt n) =
     \<lparr>bc_magic = CMD_MAGIC, bc_cmd = cmd, bc_param1 = p, bc_start = start, bc_count = cnt, bc_datasize = n\<rparr>"
  using words_of_bytes_of_words_app
    [of "[mk32 CMD_MAGIC cmd, p, ucast start, ucast (drop_bit 32 start), cnt, n]" "[]"]
  by (simp add: parse_header_def cmd_header_words Let_def join64)

lemma resp_header_length [simp]: "length (resp_header st n) = 8"
  by (simp add: resp_header_def bytes16_def bytes32_def)

lemma parse_resp_header [simp]: "parse_resp (resp_header st n) = \<lparr>rh_magic = CMD_MAGIC, rh_status = st, rh_datasize = n\<rparr>"
proof -
  have "resp_header st n = bytes_of_words [mk32 CMD_MAGIC st, n]"
    by (simp add: resp_header_def bytes_of_words_def bytes32_def)
  then show ?thesis
    using words_of_bytes_of_words_app [of "[mk32 CMD_MAGIC st, n]" "[]"] by (simp add: parse_resp_def Let_def)
qed

lemma device_in_exact:
  "bd_tx d = bs # rest \<Longrightarrow> n = int (length bs) \<Longrightarrow> device_in n d = Some (0, bs, d\<lparr>bd_tx := rest\<rparr>)"
  by (simp add: device_in_def)

lemma read_response_device:
  assumes "bd_tx (hs_usb s) = resp_header st n # rest" "st \<noteq> BRST_MSG"
  shows "read_response (device_link C F H X) s = Some (Returns (), s\<lparr>hs_usb := (hs_usb s)\<lparr>bd_tx := rest\<rparr>,
    cur_resp := \<lparr>rh_magic = CMD_MAGIC, rh_status = st, rh_datasize = n\<rparr>\<rparr>)"
  using assms by (subst read_response.simps) (simp add: device_link_def device_in_exact Let_def)

lemma command_transfers:
  assumes "idle d" "cmd \<noteq> BCMD_NONE" "length data \<le> 0x1000000"
  shows "diskboot_all C F H X (packets 512 (cmd_header_bytes cmd p start cnt (of_nat (length data)))) d \<bind>
      diskboot_all C F H X (packets 512 data) =
    command_on C F H X \<lparr>bc_magic = CMD_MAGIC, bc_cmd = cmd, bc_param1 = p, bc_start = start, bc_count = cnt,
      bc_datasize = of_nat (length data)\<rparr> data d"
proof -
  let ?h = "cmd_header_bytes cmd p start cnt (of_nat (length data))"
  have h: "packets 512 ?h = [?h]" using cmd_header_length by (intro packets_small) (auto simp flip: length_greater_0_conv)
  have len: "unat (of_nat (length data) :: u32) = length data" using assms(3) by (simp add: unat_of_nat)
  have "diskboot_all C F H X (?h # packets 512 data) d =
      command_on C F H X (parse_header ?h) (concat (packets 512 data)) d"
    by (rule command_from_packets) (use assms len in \<open>simp_all add: packets_full concat_packets word_le_nat_alt\<close>)
  then show ?thesis
    unfolding h by (cases "diskboot_rx_handler C F H X ?h d") (simp_all add: concat_packets)
qed

definition call_of :: "u16 \<Rightarrow> u32 \<Rightarrow> u64 \<Rightarrow> u32 \<Rightarrow> u8 list \<Rightarrow> bootdisk_cmd_header" where
  "call_of cmd p start cnt data = \<lparr>bc_magic = CMD_MAGIC, bc_cmd = cmd, bc_param1 = p, bc_start = start,
     bc_count = cnt, bc_datasize = of_nat (length data)\<rparr>"

text \<open>Between two commands: the device waits for one and has sent all it had to.\<close>

definition quiet :: "'h nst drv board host \<Rightarrow> bool" where
  "quiet s \<longleftrightarrow> idle (hs_usb s) \<and> bd_tx (hs_usb s) = [] \<and> rh_datasize (cur_resp s) = 0"

lemma send_command_call:
  assumes "quiet s" "cmd \<noteq> BCMD_NONE" "length data \<le> 0x1000000"
    and "command_on C F H X (call_of cmd p start cnt data) data (hs_usb s) = Some d"
    and "bd_tx d = resp_header st n # rest" "st \<noteq> BRST_MSG"
  shows "send_command (device_link C F H X) cmd p start cnt data s =
    Some (if st = BRST_FAIL then Exits 1 else Returns (sint n), s\<lparr>hs_usb := d\<lparr>bd_tx := rest\<rparr>,
      cur_resp := \<lparr>rh_magic = CMD_MAGIC, rh_status = st, rh_datasize = n\<rparr>\<rparr>)"
proof -
  let ?L = "device_link C F H X"
  let ?h = "cmd_header_bytes cmd p start cnt (of_nat (length data))"
  have i: "idle (hs_usb s)" "rh_datasize (cur_resp s) = 0" using assms(1) by (simp_all add: quiet_def)
  obtain d1 where d1: "diskboot_all C F H X (packets 512 ?h) (hs_usb s) = Some d1"
      "diskboot_all C F H X (packets 512 data) d1 = Some d"
    using command_transfers [OF i(1) assms(2,3), of C F H X p start cnt] assms(4)
    by (auto simp: call_of_def Option.bind_eq_Some_conv)
  have r: "read_response ?L (s\<lparr>hs_usb := d\<rparr>) = Some (Returns (), s\<lparr>hs_usb := d\<lparr>bd_tx := rest\<rparr>,
      cur_resp := \<lparr>rh_magic = CMD_MAGIC, rh_status = st, rh_datasize = n\<rparr>\<rparr>)"
    using read_response_device [of "s\<lparr>hs_usb := d\<rparr>"] assms(5,6) by simp
  have o: "bulk_out ?L ?h (hs_usb s) = Some (0, d1)" using d1(1) by (simp add: device_link_def device_out_def)
  have o2: "(if data \<noteq> [] then bulk_out ?L data d1 else Some (0, d1)) = Some (0, d)"
    using d1(2) by (auto simp: device_link_def device_out_def)
  show ?thesis using i(2) o o2 r by (cases "data = []") (simp_all add: send_command_def Let_def hbind_def)
qed

lemma response_loop_device:
  assumes "bd_tx (hs_usb s) = [bs]" "rh_datasize (cur_resp s) = n" "unat n = length bs" "length bs < 2 ^ 31" "bs \<noteq> []"
  shows "response_loop (device_link C F H X) [] s = Some (Returns bs, s\<lparr>hs_usb := (hs_usb s)\<lparr>bd_tx := []\<rparr>,
    cur_resp := (cur_resp s)\<lparr>rh_datasize := 0\<rparr>\<rparr>)"
proof -
  have n: "n = of_nat (length bs)" using assms(3) by (simp flip: assms(3))
  have pos: "0 < n" using assms(3,5) by (simp add: word_less_nat_alt)
  have "sint n = int (length bs)" using sint_of_nat_small [of "length bs"] assms(4) n by simp
  then have "bulk_in (device_link C F H X) (sint n) (hs_usb s) = Some (0, bs, (hs_usb s)\<lparr>bd_tx := []\<rparr>)"
    by (simp add: device_link_def device_in_exact [OF assms(1)])
  then show ?thesis using assms(2) pos n
    by (subst response_loop.simps, simp) (subst response_loop.simps, simp add: recv_data_def)
qed

section \<open>Memory\<close>

abbreviation board_mem :: "'h nst drv board host \<Rightarrow> memory" where
  "board_mem s \<equiv> ms_mem (hs_usb s)"

lemma ucast_up_down: "ucast (ucast a :: u64) = (a :: u32)"
  by (simp add: ucast_up_ucast_id is_up)

lemma mem_write_call:
  assumes "quiet s" "length data \<le> 0x1000000"
  obtains s' where "send_command (device_link C F H X) BCMD_MEMWRITE 0 (ucast a) 0 data s = Some (Returns 0, s')"
    "quiet s'" "hs_file s' = hs_file s"
    "board_mem s' = store_bytes a data (store_bytes transfer_buffer data (board_mem s))"
proof -
  let ?c = "call_of BCMD_MEMWRITE 0 (ucast a) 0 data"
  let ?d = "hs_usb s"
  have len: "unat (of_nat (length data) :: u32) = length data" using assms(2) by (simp add: unat_of_nat)
  have ld: "load_bytes transfer_buffer (length data) (store_bytes transfer_buffer data m) = data" for m
    by (rule load_store_same) (use assms(2) in simp)
  define d where "d = diskboot_reset_handler (?d\<lparr>bd_cmd := ?c, bd_written := of_nat (length data),
    ms_mem := store_bytes a data (store_bytes transfer_buffer data (ms_mem ?d)),
    bd_tx := bd_tx ?d @ [resp_header BRST_OK 0]\<rparr>)"
  have tx: "bd_tx ?d = []" using assms(1) by (simp add: quiet_def)
  have "command_on C F H X ?c data ?d = Some d"
    by (simp add: command_on_def dispatch_cmd_def command_codes send_ok_empty ucast_up_down ld len d_def call_of_def)
  moreover have "bd_tx d = resp_header BRST_OK 0 # []" by (simp add: d_def diskboot_reset_handler_def tx)
  ultimately have "send_command (device_link C F H X) BCMD_MEMWRITE 0 (ucast a) 0 data s =
      Some (Returns 0, s\<lparr>hs_usb := d\<lparr>bd_tx := []\<rparr>, cur_resp := \<lparr>rh_magic = CMD_MAGIC, rh_status = BRST_OK, rh_datasize = 0\<rparr>\<rparr>)"
    by (subst send_command_call [OF assms(1) _ assms(2)])
      (auto simp: command_codes BRST_MSG_def BRST_OK_def BRST_FAIL_def)
  then show ?thesis
    by (rule that) (simp_all add: quiet_def idle_def d_def diskboot_reset_handler_def)
qed

lemma mem_read_call:
  assumes "quiet s" "0 < n" "unat n \<le> 0x1000000"
  obtains s1 s' where
    "send_command (device_link C F H X) BCMD_MEMREAD 0 (ucast a) n [] s = Some (Returns (sint n), s1)"
    "get_response_data (device_link C F H X) n s1 = Some (Returns (load_bytes a (unat n) (board_mem s)), s')"
    "quiet s'" "hs_file s' = hs_file s" "board_mem s' = board_mem s"
proof -
  let ?c = "call_of BCMD_MEMREAD 0 (ucast a) n []"
  let ?d = "hs_usb s"
  let ?bs = "load_bytes a (unat n) (ms_mem ?d)"
  have pos: "0 < unat n" using assms(2) by (simp add: word_less_nat_alt)
  define d where "d = diskboot_reset_handler (?d\<lparr>bd_cmd := ?c, bd_written := 0, bd_tx := bd_tx ?d @ [resp_header BRST_OK n, ?bs]\<rparr>)"
  have tx: "bd_tx ?d = []" using assms(1) by (simp add: quiet_def)
  have "command_on C F H X ?c [] ?d = Some d"
    by (simp add: command_on_def dispatch_cmd_def command_codes send_ok_small [OF pos assms(3)] ucast_up_down d_def call_of_def)
  moreover have "bd_tx d = resp_header BRST_OK n # [?bs]" by (simp add: d_def diskboot_reset_handler_def tx)
  ultimately have 1: "send_command (device_link C F H X) BCMD_MEMREAD 0 (ucast a) n [] s =
      Some (Returns (sint n), s\<lparr>hs_usb := d\<lparr>bd_tx := [?bs]\<rparr>, cur_resp := \<lparr>rh_magic = CMD_MAGIC, rh_status = BRST_OK, rh_datasize = n\<rparr>\<rparr>)"
      (is "_ = Some (_, ?s1)")
    by (subst send_command_call [OF assms(1)]) (auto simp: command_codes BRST_MSG_def BRST_OK_def BRST_FAIL_def)
  have ne: "?bs \<noteq> []" using pos by (metis length_load_bytes length_greater_0_conv)
  have "response_loop (device_link C F H X) [] ?s1 = Some (Returns ?bs, ?s1\<lparr>hs_usb := (hs_usb ?s1)\<lparr>bd_tx := []\<rparr>,
    cur_resp := (cur_resp ?s1)\<lparr>rh_datasize := 0\<rparr>\<rparr>)"
    by (rule response_loop_device [where n = n]) (use assms(3) ne in auto)
  then have "get_response_data (device_link C F H X) n ?s1 = Some (Returns ?bs, ?s1\<lparr>hs_usb := (hs_usb ?s1)\<lparr>bd_tx := []\<rparr>,
    cur_resp := (cur_resp ?s1)\<lparr>rh_datasize := 0\<rparr>\<rparr>)"
    by (simp add: get_response_data_def)
  with 1 show ?thesis
    by (rule that) (simp_all add: quiet_def idle_def d_def diskboot_reset_handler_def)
qed

text \<open>A range of addresses outside the part of the transfer buffer that commands of \<open>k\<close> bytes use.\<close>

definition off_buffer :: "nat \<Rightarrow> u32 \<Rightarrow> nat \<Rightarrow> bool" where
  "off_buffer k a n \<longleftrightarrow> (\<forall>i < n. k \<le> unat (a + of_nat i - transfer_buffer))"

lemma off_buffer_part:
  assumes "off_buffer k a (m + n)"
  shows "off_buffer k a m" "off_buffer k (a + of_nat m) n"
  using assms by (auto simp: off_buffer_def add.assoc simp flip: of_nat_add)

lemma store_outside: "length bs \<le> unat (x - a) \<Longrightarrow> store_bytes a bs m x = m x"
  by (simp add: store_bytes_def)

lemma load_cong: "(\<And>i. i < n \<Longrightarrow> m (a + of_nat i) = m' (a + of_nat i)) \<Longrightarrow> load_bytes a n m = load_bytes a n m'"
  by (simp add: load_bytes_def)

lemma load_bytes_add: "load_bytes a (m + n) f = load_bytes a m f @ load_bytes (a + of_nat m) n f"
  by (rule nth_equalityI) (auto simp: nth_append nth_load_bytes add.assoc simp flip: of_nat_add)

lemma address_diff: "j < 2 ^ 32 \<Longrightarrow> i \<le> j \<Longrightarrow> unat ((a :: u32) + of_nat j - (a + of_nat i)) = j - i"
  by (simp add: unat_of_nat flip: of_nat_diff)

lemma off_from:
  assumes "k \<le> n" "n \<le> 2 ^ 32"
  shows "unat ((x :: u32) - (a + of_nat k)) =
    (if k \<le> unat (x - a) then unat (x - a) - k else 2 ^ 32 + unat (x - a) - k)"
proof -
  let ?u = "x - a"
  have u: "unat ?u < 2 ^ 32" using unat_u32_bound [of ?u] by (simp del: unat_u32_bound)
  have sum: "x - (a + of_nat k) = ?u - of_nat k" by (simp only: diff_diff_eq)
  show ?thesis
  proof (cases "k = 2 ^ 32")
    case True
    then have z: "(of_nat k :: u32) = 0" by (simp only: word_of_nat_eq_0_iff) simp
    have nk: "\<not> k \<le> unat ?u" using True u by linarith
    show ?thesis unfolding sum z using True nk by (simp only: if_False diff_zero) simp
  next
    case False
    then have "unat (of_nat k :: u32) = k" using assms by (simp add: unat_of_nat)
    moreover have "2 ^ 32 + unat ?u - k = unat ?u + 2 ^ 32 - k" by simp
    ultimately show ?thesis unfolding sum unat_sub_if' by simp
  qed
qed

text \<open>The memory that commands with at most \<open>k\<close> bytes leave alone when they write \<open>n\<close> bytes from \<open>a\<close> on.\<close>

definition leaves :: "nat \<Rightarrow> u32 \<Rightarrow> nat \<Rightarrow> memory \<Rightarrow> memory \<Rightarrow> bool" where
  "leaves k a n m m' \<longleftrightarrow> (\<forall>x. k \<le> unat (x - transfer_buffer) \<longrightarrow> n \<le> unat (x - a) \<longrightarrow> m' x = m x)"

lemma leaves_write:
  assumes "length data \<le> k"
  shows "leaves k a (length data) m (store_bytes a data (store_bytes transfer_buffer data m))"
  using assms by (simp add: leaves_def store_outside)

lemma leaves_join:
  assumes "leaves k a p m m1" "leaves k (a + of_nat p) n m1 m2" "p + n \<le> 2 ^ 32"
  shows "leaves k a (p + n) m m2"
  unfolding leaves_def
proof (intro allI impI)
  fix x assume x: "k \<le> unat (x - transfer_buffer)" "p + n \<le> unat (x - a)"
  have "n \<le> unat (x - (a + of_nat p))" using off_from [of p "p + n" x a] x(2) assms(3) by simp
  then show "m2 x = m x" using assms(1,2) x unfolding leaves_def by simp
qed

lemma leaves_prefix:
  assumes "leaves k (a + of_nat p) n m1 m2" "off_buffer k a p" "p + n \<le> 2 ^ 32"
  shows "load_bytes a p m2 = load_bytes a p m1"
proof (rule load_cong)
  fix i assume i: "i < p"
  let ?x = "a + of_nat i"
  have "unat (?x - a) = i" using address_diff [of i 0 a] i assms(3) by simp
  then have "n \<le> unat (?x - (a + of_nat p))" using off_from [of p "p + n" ?x a] i assms(3) by simp
  then show "m2 ?x = m1 ?x" using assms(1,2) i unfolding leaves_def off_buffer_def by simp
qed

section \<open>Files to memory and back\<close>

lemma send_pieces_device:
  assumes "quiet s" "\<forall>p \<in> set ps. length p \<le> 0x40000" "length (concat ps) \<le> 2 ^ 32"
    "off_buffer 0x40000 a (length (concat ps))"
  obtains s' where "send_pieces (device_link C F H X) a ps s = Some (Returns (), s')" "quiet s'"
    "hs_file s' = hs_file s" "load_bytes a (length (concat ps)) (board_mem s') = concat ps"
    "leaves 0x40000 a (length (concat ps)) (board_mem s) (board_mem s')"
  using assms
proof (induction ps arbitrary: a s thesis)
  case Nil
  show ?case by (rule Nil.prems(1) [of s]) (use Nil.prems in \<open>simp_all add: load_bytes_def leaves_def\<close>)
next
  case (Cons p ps)
  let ?L = "device_link C F H X" and ?b = "a + of_nat (length p)" and ?k = "length (concat ps)"
  have p: "length p \<le> 0x40000" and fit: "length p + ?k \<le> 2 ^ 32" and off: "off_buffer 0x40000 a (length p + ?k)"
    using Cons.prems by simp_all
  have "length p \<le> 0x1000000" using p by simp
  from mem_write_call [OF Cons.prems(2) this, of C F H X a] obtain s1
    where 1: "send_command ?L BCMD_MEMWRITE 0 (ucast a) 0 p s = Some (Returns 0, s1)" "quiet s1" "hs_file s1 = hs_file s"
      "board_mem s1 = store_bytes a p (store_bytes transfer_buffer p (board_mem s))" by metis
  obtain s2
    where 2: "send_pieces ?L ?b ps s1 = Some (Returns (), s2)" "quiet s2" "hs_file s2 = hs_file s1"
      "load_bytes ?b ?k (board_mem s2) = concat ps" "leaves 0x40000 ?b ?k (board_mem s1) (board_mem s2)"
    by (rule Cons.IH [where s = s1 and a = ?b]) (use Cons.prems(3) 1(2) fit off_buffer_part(2) [OF off] in auto)
  have lv: "leaves 0x40000 a (length p) (board_mem s) (board_mem s1)" unfolding 1(4) by (rule leaves_write [OF p])
  have "load_bytes a (length p) (board_mem s1) = p"
    unfolding 1(4) by (rule load_store_same) (use fit in simp)
  then have "load_bytes a (length (concat (p # ps))) (board_mem s2) = concat (p # ps)"
    using leaves_prefix [OF 2(5) off_buffer_part(1) [OF off] fit] 2(4) by (simp add: load_bytes_add)
  moreover have "leaves 0x40000 a (length (concat (p # ps))) (board_mem s) (board_mem s2)"
    using leaves_join [OF lv 2(5) fit] by simp
  ultimately show ?case
    by (intro Cons.prems(1) [of s2]) (use 1 2 in \<open>simp_all add: hbind_def\<close>)
qed

lemma load_at_0 [simp]: "load_bytes a 0 m = []"
  by (simp add: load_bytes_def)

lemma memread_loop_device:
  assumes "quiet s" "unat left + length (hs_file s) \<le> os_room S"
  obtains s' where "memread_loop (device_link C F H X) 0x40000 a left (to_file S) done s = Some (Returns done, s')"
    "quiet s'" "hs_file s' = hs_file s @ load_bytes a (unat left) (board_mem s)" "board_mem s' = board_mem s"
  using assms
proof (induction "unat left" arbitrary: a left s thesis rule: less_induct)
  case less
  let ?L = "device_link C F H X"
  show ?case
  proof (cases "left = 0")
    case True
    have "memread_loop ?L 0x40000 a left (to_file S) done s = Some (Returns done, s)"
      using True by (subst memread_loop.simps) (simp add: report_def)
    then show ?thesis by (rule less.prems(1)) (use less.prems True in simp_all)
  next
    case False
    define n where "n = (if left < 0x40000 then left else 0x40000)"
    have n: "0 < n" "unat n \<le> unat left" "unat n \<le> 0x40000"
      using False by (auto simp: n_def word_less_nat_alt word_le_nat_alt unat_gt_0)
    have sub: "unat (left - n) = unat left - unat n" using n(2) by (simp add: unat_sub word_le_nat_alt)
    obtain s1 s2 where r: "send_command ?L BCMD_MEMREAD 0 (ucast a) n [] s = Some (Returns (sint n), s1)"
        "get_response_data ?L n s1 = Some (Returns (load_bytes a (unat n) (board_mem s)), s2)"
        "quiet s2" "hs_file s2 = hs_file s" "board_mem s2 = board_mem s"
      by (rule mem_read_call [OF less.prems(2) n(1), of C F H X a]) (use n(3) in auto)
    let ?bs = "load_bytes a (unat n) (board_mem s)"
    let ?s = "s2\<lparr>hs_file := hs_file s @ ?bs\<rparr>"
    have w: "to_file S ?bs s2 = (None, ?s)"
      using less.prems(3) n(2) r(4) by (simp add: to_file_def file_write_def Let_def)
    have pos: "0 < unat n" using n(1) by (simp add: word_less_nat_alt)
    have "unat (left - n) < unat left" using sub pos n(2) by simp
    then obtain s' where s': "memread_loop ?L 0x40000 (a + n) (left - n) (to_file S) done ?s = Some (Returns done, s')"
      "quiet s'" "hs_file s' = hs_file ?s @ load_bytes (a + n) (unat (left - n)) (board_mem ?s)" "board_mem s' = board_mem ?s"
      by (rule less.hyps [where left = "left - n" and s = ?s and a = "a + n"]) (use less.prems r n(2) sub in \<open>auto simp: quiet_def\<close>)
    have "load_bytes a (unat left) (board_mem s) = ?bs @ load_bytes (a + n) (unat left - unat n) (board_mem s)"
      using load_bytes_add [of a "unat n" "unat left - unat n"] n(2) by simp
    moreover have "memread_loop ?L 0x40000 a left (to_file S) done s = Some (Returns done, s')"
      using False r w s'(1) by (subst memread_loop.simps) (simp add: hbind_def n_def Let_def word_gt_0)
    ultimately show ?thesis
      by (intro less.prems(1) [of s']) (use s' r sub in simp_all)
  qed
qed

end
