(* ===== verification/Host_Image.thy ===== *)
theory Host_Image
  imports Host_Tool
begin

text \<open>
  The boot image that \<open>allwindisk dg\<close> writes to the first boot area: when the image is small enough, the area is
  filled with copies of the image, each with its size and checksum filled in; when it is not, the buffer is overrun.
\<close>

section \<open>Words of a buffer\<close>

lemma words_of_word_bytes: "words_of_bytes (bytes32 w) = [w]"
  by (simp add: bytes32_def bytes16_def)

lemma bytes32_length [simp]: "length (bytes32 w) = 4"
  by (simp add: bytes32_def bytes16_def)

lemma mem_put_prefix: "mem_put a off w = Some a' \<Longrightarrow> mem_put (a @ b) off w = Some (a' @ b)"
  by (auto simp: mem_put_def split: if_splits)

lemma mem_put_behind: "length w \<le> length b \<Longrightarrow> mem_put (a @ b) (length a) w = Some (a @ w @ drop (length w) b)"
  by (simp add: mem_put_def)

lemma words_put:
  assumes "mem_put b (4 * k) (bytes32 v) = Some b'"
  shows "words_of_bytes b' = (words_of_bytes b)[k := v]"
proof -
  have fit: "4 * k + 4 \<le> length b" and b': "b' = take (4 * k) b @ bytes32 v @ drop (4 * k + 4) b"
    using assms by (auto simp: mem_put_def split: if_splits)
  have l: "length (take (4 * k) b) = 4 * k" "length (take (4 * (k + 1)) b) = 4 * (k + 1)" using fit by simp_all
  have "words_of_bytes b = words_of_bytes (take (4 * (k + 1)) b @ drop (4 * (k + 1)) b)" by simp
  also have "\<dots> = words_of_bytes (take (4 * (k + 1)) b) @ words_of_bytes (drop (4 * (k + 1)) b)"
    by (rule words_of_bytes_app) (use l in simp)
  finally have d: "drop (k + 1) (words_of_bytes b) = words_of_bytes (drop (4 * k + 4) b)" using l fit
    by (simp add: add.commute)
  have "words_of_bytes b' = words_of_bytes (take (4 * k) b) @ words_of_bytes (bytes32 v) @ words_of_bytes (drop (4 * k + 4) b)"
    unfolding b' using l by (simp add: words_of_bytes_app)
  also have "\<dots> = take k (words_of_bytes b) @ v # drop (Suc k) (words_of_bytes b)"
    using d by (simp add: words_of_bytes_take words_of_word_bytes)
  also have "\<dots> = (words_of_bytes b)[k := v]" by (rule upd_conv_take_nth_drop [symmetric]) (use fit in simp)
  finally show ?thesis .
qed

lemma put_word_fits: "4 * k + 4 \<le> length b \<Longrightarrow> \<exists>b'. mem_put b (4 * k) (bytes32 v) = Some b'"
  by (simp add: mem_put_def bytes32_def bytes16_def)

lemma put_word_elsewhere:
  assumes "mem_put b off (bytes32 v) = Some b'" "i < off \<or> off + 4 \<le> i"
  shows "b' ! i = b ! i"
  using assms by (auto simp: mem_put_def nth_append split: if_splits)

text \<open>The image with its length and its checksum, and 0xff up to its rounded size.\<close>

lemma stamp_image:
  assumes "length b = n" "4 dvd n" "20 \<le> n" "n < 2 ^ 32"
  obtains u b1 where "mem_put (b @ rest) 16 (bytes32 (of_nat n)) = Some b1"
    "setBootImgChecksum b1 n = Some (u @ rest)" "length u = n"
    "\<forall>i. i < 12 \<or> 20 \<le> i \<longrightarrow> u ! i = b ! i"
    "words_of_bytes u ! 4 = of_nat n" "words_of_bytes u ! 3 = sum_list ((words_of_bytes u)[3 := BOOT_STAMP])"
proof -
  obtain a where a: "mem_put b 16 (bytes32 (of_nat n)) = Some a"
    using put_word_fits [of 4 b "of_nat n"] assms(1,3) by auto
  then have la: "length a = n" using assms(1) mem_put_length by fastforce
  obtain c where c: "mem_put a 12 (bytes32 BOOT_STAMP) = Some c"
    using put_word_fits [of 3 a BOOT_STAMP] la assms(3) by auto
  then have lc: "length c = n" using la mem_put_length by fastforce
  let ?S = "sum_list (words_of_bytes c)"
  obtain u where u: "mem_put c 12 (bytes32 ?S) = Some u"
    using put_word_fits [of 3 c ?S] lc assms(3) by auto
  then have lu: "length u = n" using lc mem_put_length by fastforce
  have n4: "4 * ((n + 3) div 4) = n" using assms(2) by (auto elim!: dvdE)
  have "setBootImgChecksum (a @ rest) n = Some (u @ rest)"
    using mem_put_prefix [OF c, of rest] mem_put_prefix [OF u, of rest] lc
    by (simp add: setBootImgChecksum_def image_words_def n4 mem_get_def)
  moreover have wa: "words_of_bytes a = (words_of_bytes b)[4 := of_nat n]" using words_put [of b 4] a by simp
  moreover have wc: "words_of_bytes c = (words_of_bytes a)[3 := BOOT_STAMP]" using words_put [of a 3] c by simp
  moreover have wu: "words_of_bytes u = (words_of_bytes c)[3 := ?S]" using words_put [of c 3] u by simp
  moreover have "4 < length (words_of_bytes b)" using assms(1,3) by simp
  moreover have "u ! i = b ! i" if "i < 12 \<or> 20 \<le> i" for i
    using put_word_elsewhere [OF a, of i] put_word_elsewhere [OF c, of i] put_word_elsewhere [OF u, of i] that by auto
  ultimately show ?thesis
    using mem_put_prefix [OF a, of rest] lu by (intro that [of "a @ rest" u]) auto
qed

section \<open>Sizes\<close>

definition up :: "nat \<Rightarrow> nat \<Rightarrow> nat" where
  "up v r = (if v mod r = 0 then v else v + (r - v mod r))"

lemma up_dvd: "0 < r \<Longrightarrow> r dvd up v r"
proof (cases "v mod r = 0")
  case False
  assume "0 < r"
  then have "v mod r < r" by simp
  then have "v + (r - v mod r) = v div r * r + r" using div_mult_mod_eq [of v r] by linarith
  then show ?thesis using False by (simp add: up_def)
qed (simp add: up_def mod_eq_0_iff_dvd)

lemma up_ge: "v \<le> up v r"
  by (simp add: up_def)

lemma round_up_unat:
  assumes "0 < unat r"
  shows "round_up v r = Some (of_nat (up (unat v) (unat r)))"
proof -
  have m: "unat (v mod r) = unat v mod unat r" by (rule unat_mod)
  have le: "unat v mod unat r \<le> unat r" using assms by simp
  have "v mod r = 0 \<longleftrightarrow> unat v mod unat r = 0" by (metis m unat_eq_zero)
  moreover have "of_nat (unat v + (unat r - unat v mod unat r)) = v + (r - v mod r)"
    unfolding of_nat_add using of_nat_diff [OF le, where 'a = u32] m by (metis of_nat_unat ucast_id)
  moreover have "r \<noteq> 0" using assms by auto
  ultimately show ?thesis unfolding round_up_def up_def by (simp only: if_False if_True split: if_splits) simp
qed

section \<open>Copies\<close>

lemma put_copies_at:
  assumes "length u = n" "length (take (i * n) buf) = i * n" "take n buf = u" "0 < i" "(i + k) * n \<le> length buf"
  shows "put_copies buf n i k = Some (take (i * n) buf @ concat (replicate k u) @ drop ((i + k) * n) buf)"
  using assms(2-)
proof (induction k arbitrary: i buf)
  case (Suc k)
  let ?b = "take (i * n) buf @ u @ drop (i * n + n) buf"
  have fit: "i * n + n \<le> length buf" using Suc.prems(4) by (simp add: algebra_simps)
  have "n \<le> i * n" using Suc.prems(3) by simp
  then have n: "n \<le> length buf" using fit by simp
  have "mem_get buf 0 n = Some u" using n Suc.prems(2) by (simp add: mem_get_def)
  moreover have "mem_put buf (i * n) u = Some ?b" using fit assms(1) by (simp add: mem_put_def)
  moreover have "put_copies ?b n (i + 1) k = Some (take ((i + 1) * n) ?b @ concat (replicate k u) @ drop ((i + 1 + k) * n) ?b)"
  proof (rule Suc.IH)
    show "take n ?b = u" using Suc.prems(1,2) \<open>n \<le> i * n\<close> by simp
    show "length (take ((i + 1) * n) ?b) = (i + 1) * n" "(i + 1 + k) * n \<le> length ?b"
      using Suc.prems(1,4) fit assms(1) by (simp_all add: algebra_simps)
  qed simp
  moreover have "take ((i + 1) * n) ?b = take (i * n) buf @ u" using Suc.prems(1) assms(1) by (simp add: add.commute)
  moreover have "drop ((i + 1 + k) * n) ?b = drop ((i + Suc k) * n) buf"
    using Suc.prems(1) assms(1) fit by (simp add: algebra_simps)
  ultimately show ?case by simp
qed simp

text \<open>The two fields of the header that \<open>egon0_embed\<close> fills in: the size, and the sum of the words of that many
  bytes, taken with the stamp in the place of the sum. The other bytes of a copy are those of the image, its magic
  number among them, and 0xff behind its end.\<close>

definition stamped :: "nat \<Rightarrow> u8 list \<Rightarrow> bool" where
  "stamped n u \<longleftrightarrow> n \<le> length u \<and> words_of_bytes u ! 4 = of_nat n
     \<and> words_of_bytes u ! 3 = sum_list ((take (n div 4) (words_of_bytes u))[3 := BOOT_STAMP])"

definition holds_image :: "u8 list \<Rightarrow> u8 list \<Rightarrow> bool" where
  "holds_image img u \<longleftrightarrow> (\<forall>i < length u. i < 12 \<or> 20 \<le> i \<longrightarrow> u ! i = (if i < length img then img ! i else 0xff))"

definition boot0_page :: "flash_props \<Rightarrow> u32" where
  "boot0_page p = fa_sectors_per_page (fp_areas p ! 0) * 512"

definition boot0_area :: "flash_props \<Rightarrow> u32" where
  "boot0_area p = fa_page_count (fp_areas p ! 0) * boot0_page p"

text \<open>The sizes of the image after the first and the second rounding.\<close>

definition image_size :: "u8 list \<Rightarrow> nat" where
  "image_size img = up (length img) 1024"

definition copy_size :: "flash_props \<Rightarrow> u8 list \<Rightarrow> nat" where
  "copy_size p img = up (image_size img) (unat (64 * boot0_page p))"

text \<open>C30: the content of the boot area is made of copies of the image, as many as fit, and 0xff behind the last one,
  whenever the image has a header of 20 bytes and the two fills fit the buffer. Every copy has the size and the right
  checksum in its header, keeps the other bytes of the image and is padded with 0xff.\<close>

theorem boot_area_copies:
  assumes mem: "\<And>n. length (mem n) = n" and img: "20 \<le> length img" and page: "64 * boot0_page p \<noteq> 0"
    and fill1: "length img + image_size img \<le> unat (boot0_area p)"
    and fill2: "image_size img + copy_size p img \<le> unat (boot0_area p)"
  shows "\<exists>u. boot0_image mem p img = Some (concat (replicate (unat (boot0_area p) div copy_size p img) u)
      @ replicate (unat (boot0_area p) mod copy_size p img) 0xff)
    \<and> length u = copy_size p img \<and> stamped (image_size img) u \<and> holds_image img u"
proof -
  let ?A = "unat (boot0_area p)" and ?l = "length img" and ?n = "image_size img" and ?c = "copy_size p img"
  have A: "?A < 4294967296" by (rule unat_u32_bound)
  have n: "?l \<le> ?n" "4 dvd ?n" "20 \<le> ?n" "?n < 4294967296"
  proof -
    show l: "?l \<le> ?n" by (simp add: image_size_def up_ge)
    show "20 \<le> ?n" using img l by simp
    show "?n < 4294967296" using fill1 A by linarith
    have "(1024 :: nat) dvd ?n" unfolding image_size_def by (rule up_dvd) simp
    then show "4 dvd ?n" by (rule dvd_trans [rotated]) simp
  qed
  have "?n \<le> ?c" by (simp add: copy_size_def up_ge)
  then have c: "?n \<le> ?c" "0 < ?c" "?c \<le> ?A" using fill2 n(3) by linarith+
  have "?l < 4294967296" "?c < 4294967296" using fill1 c(3) A by linarith+
  then have unats: "unat (of_nat ?l :: u32) = ?l" "unat (of_nat ?n :: u32) = ?n" "unat (of_nat ?c :: u32) = ?c"
    using n(4) by (simp_all add: unat_of_nat)
  have r1: "round_up (of_nat ?l) 1024 = Some (of_nat ?n)"
    using round_up_unat [of 1024 "of_nat ?l"] unats(1) by (simp add: image_size_def)
  have r2: "round_up (of_nat ?n) (64 * boot0_page p) = Some (of_nat ?c)"
    using round_up_unat [of "64 * boot0_page p" "of_nat ?n"] unats(2) page by (simp add: copy_size_def unat_gt_0)
  define buf where "buf = mem ?A"
  have lb: "length buf = ?A" by (simp add: buf_def mem)
  let ?b = "img @ replicate (?n - ?l) 0xff"
  let ?rest = "replicate ?l 0xff @ drop (?l + ?n) buf"
  have p1: "mem_put buf 0 img = Some (img @ drop ?l buf)" using fill1 lb by (simp add: mem_put_def)
  have p2: "mem_put (img @ drop ?l buf) ?l (replicate ?n 0xff) = Some (?b @ ?rest)"
    using mem_put_behind [of "replicate ?n 0xff" "drop ?l buf" img] fill1 lb n(1)
    by (simp add: add.commute) (simp flip: replicate_add append_assoc)
  have lenb: "length ?b = ?n" using n(1) by simp
  have n32: "?n < 2 ^ 32" using n(4) by simp
  obtain u0 b1
    where st: "mem_put (?b @ ?rest) 16 (bytes32 (of_nat ?n)) = Some b1" "setBootImgChecksum b1 ?n = Some (u0 @ ?rest)"
      "length u0 = ?n" "\<forall>i. i < 12 \<or> 20 \<le> i \<longrightarrow> u0 ! i = ?b ! i" "words_of_bytes u0 ! 4 = of_nat ?n"
      "words_of_bytes u0 ! 3 = sum_list ((words_of_bytes u0)[3 := BOOT_STAMP])"
    by (rule stamp_image [OF lenb n(2,3) n32])
  define rest2 where "rest2 = replicate ?n 0xff @ drop ?c ?rest"
  define u where "u = u0 @ replicate (?c - ?n) 0xff"
  have lrest: "length ?rest = ?A - ?n" using lb fill1 by simp
  have lu: "length u = ?c" using c(1) by (simp add: u_def st(3))
  have p5: "mem_put (u0 @ ?rest) ?n (replicate ?c 0xff) = Some (u @ rest2)"
    using mem_put_behind [of "replicate ?c 0xff" ?rest u0] lrest fill2 st(3) c(1)
    by (simp add: u_def rest2_def) (simp flip: replicate_add append_assoc)
  have lrest2: "length rest2 = ?A - ?c" using lrest fill2 c(1,3) by (simp add: rest2_def)
  let ?k = "?A div ?c"
  have k: "0 < ?k" "?k * ?c \<le> ?A" using c(2,3) by (simp_all add: div_greater_zero_iff)
  have p6: "put_copies (u @ rest2) ?c 1 (?k - 1) = Some (concat (replicate ?k u) @ drop (?k * ?c) (u @ rest2))"
    using put_copies_at [of u ?c 1 "u @ rest2" "?k - 1"] lu lrest2 c(3) k by (cases ?k) simp_all
  have lcopies: "length (concat (replicate ?k u)) = ?k * ?c" by (simp add: length_concat sum_list_replicate lu)
  have rem: "?A - ?k * ?c = ?A mod ?c" by (simp add: minus_div_mult_eq_mod)
  have p7: "mem_put (concat (replicate ?k u) @ drop (?k * ?c) (u @ rest2)) (?k * ?c) (replicate (?A mod ?c) 0xff)
      = Some (concat (replicate ?k u) @ replicate (?A mod ?c) 0xff)"
    using mem_put_behind [of "replicate (?A mod ?c) 0xff" "drop (?k * ?c) (u @ rest2)" "concat (replicate ?k u)"]
      lcopies lu lrest2 c(3) rem by simp
  have ku: "unat (boot0_area p div of_nat ?c) = ?k" by (simp add: unat_div_distrib unats(3))
  have kc: "unat ((boot0_area p div of_nat ?c) * of_nat ?c) = ?k * ?c"
  proof -
    have "?k * ?c < 2 ^ LENGTH(32)" using le_less_trans [OF k(2) A] by simp
    then have "unat (boot0_area p div of_nat ?c) * unat (of_nat ?c :: u32) < 2 ^ LENGTH(32)" by (simp only: ku unats(3))
    then show ?thesis by (simp only: unat_mult_lem [THEN iffD1] ku unats(3))
  qed
  have kr: "unat (boot0_area p - (boot0_area p div of_nat ?c) * of_nat ?c) = ?A mod ?c"
    using k(2) by (subst unat_sub) (simp_all add: word_le_nat_alt kc rem)
  have result: "boot0_image mem p img = Some (concat (replicate ?k u) @ replicate (?A mod ?c) 0xff)"
    using p1 p2 st(1,2) p5 p6 p7
    by (simp add: boot0_image_def Let_def r1 r2 unats kc kr ku buf_def flip: boot0_page_def boot0_area_def)
  have "words_of_bytes u = words_of_bytes u0 @ words_of_bytes (replicate (?c - ?n) 0xff)"
    unfolding u_def by (rule words_of_bytes_app) (use st(3) n(2) in simp)
  moreover have "4 < ?n div 4" using n(3) by linarith
  ultimately have "stamped ?n u" using st(3,5,6) n c(1) lu
    by (simp add: stamped_def nth_append)
  moreover have "holds_image img u"
    unfolding holds_image_def using st(3,4) n(1) by (auto simp: u_def nth_append)
  ultimately show ?thesis using lu result by blast
qed

text \<open>C31: the fills are as long as the rounded size instead of the rest up to it: an image of more than half the
  area, which the check of the size lets pass, overruns the buffer.\<close>

theorem big_image_overruns:
  assumes "\<And>n. length (os_malloc S n) = n" "hs_props s = Some p"
    and "length img \<le> 0x200000" "length img \<le> unat (boot0_area p)" "unat (boot0_area p) < 2 * length img"
  shows "egon0_embed L S img s = None"
proof -
  let ?A = "unat (boot0_area p)" and ?l = "length img"
  have l: "unat (of_nat ?l :: u32) = ?l" using assms(3) by (simp add: unat_of_nat)
  have small: "(of_nat ?l :: u32) \<le> boot0_area p" using assms(4) l by (simp add: word_le_nat_alt)
  have r: "round_up (of_nat ?l) 1024 = Some (of_nat (image_size img))"
    using round_up_unat [of 1024 "of_nat ?l"] l by (simp add: image_size_def)
  have "image_size img \<le> ?l + 1024" by (simp add: image_size_def up_def)
  then have n: "unat (of_nat (image_size img) :: u32) = image_size img" using assms(3) by (simp add: unat_of_nat)
  have "?l \<le> image_size img" by (simp add: image_size_def up_ge)
  then have "?A < ?l + image_size img" using assms(5) by simp
  moreover have "mem_put (os_malloc S ?A) 0 img = Some (img @ drop ?l (os_malloc S ?A))"
    using assms(1,4) by (simp add: mem_put_def)
  ultimately have "boot0_image (os_malloc S) p img = None"
    using assms(1,4) by (simp add: boot0_image_def Let_def r l n mem_put_def flip: boot0_page_def boot0_area_def)
  then show ?thesis using assms(2) small
    by (simp add: egon0_embed_def get_flashmem_props_def hbind_def Let_def leD flip: boot0_page_def boot0_area_def)
qed

section \<open>An example\<close>

definition small_flash :: "u32 \<Rightarrow> flash_props" where
  "small_flash pages = \<lparr>fp_areas = replicate 4 \<lparr>fa_sectors_per_page = 2, fa_first_pageno = 0, fa_page_count = pages\<rparr>,
     fp_sectors_per_page = 2, fp_pages_per_block = 64, fp_blocks_per_chip = 1024, fp_chip_cnt = 1,
     fp_pagewithbadflag = 0, fp_block_cnt_of_zone = 1024\<rparr>"

definition small_image :: "u8 list" where
  "small_image = [0, 0, 0, 0] @ map (of_nat \<circ> of_char) ''eGON.BT0'' @ replicate 8 7"

theorem boot_area_copies_witness:
  "\<exists>u. boot0_image (\<lambda>n. replicate n 0) (small_flash 128) small_image = Some (u @ u)
    \<and> length u = 65536 \<and> stamped 1024 u \<and> holds_image small_image u"
proof -
  have sizes: "boot0_page (small_flash 128) = 1024" "unat (boot0_area (small_flash 128)) = 131072"
    by (simp_all add: boot0_page_def boot0_area_def small_flash_def)
  have l: "length small_image = 20" by (simp add: small_image_def)
  then have n: "image_size small_image = 1024" by (simp add: image_size_def up_def)
  then have c: "copy_size (small_flash 128) small_image = 65536" by (simp add: copy_size_def up_def sizes)
  have two: "concat (replicate (131072 div 65536) u) @ replicate (131072 mod 65536) 0xff = u @ u" for u :: "u8 list"
    by (simp add: numeral_2_eq_2)
  show ?thesis
    using boot_area_copies [of "\<lambda>n. replicate n 0" small_image "small_flash 128"]
    unfolding sizes n c two by (simp add: l)
qed

definition plain_os :: host_os where
  "plain_os = \<lparr>os_create = (\<lambda>_. True), os_room = 1000000, os_reads = (\<lambda>f n. Some [map char_byte f]),
     os_malloc = (\<lambda>n. replicate n 0)\<rparr>"

theorem big_image_overruns_witness:
  "egon0_embed \<lparr>bulk_out = (\<lambda>_ _. None), bulk_in = (\<lambda>_ _. None)\<rparr> plain_os (replicate 70000 7)
     (initial_host ()\<lparr>hs_props := Some (small_flash 128)\<rparr>) = None"
  by (rule big_image_overruns [where p = "small_flash 128"])
    (simp_all add: plain_os_def initial_host_def boot0_page_def boot0_area_def small_flash_def)

end
