(* ===== verification/Host_Props.thy ===== *)
theory Host_Props
  imports Host_Calls Host_Image
begin

text \<open>
  What the host's commands do to the board: a command is a call of the device, a file written to memory is
  read back, and memory is filled with the pattern; what the host learns about the flash.
\<close>

section \<open>Calls\<close>

text \<open>C27: a command of the host is one call of the device: over the cable, the device carries out exactly this
  command on exactly this data (\<open>command_on\<close>), and the host gets the status and the size of its response,
  whose data it reads next; it exits when the device reports a failure.\<close>

theorem remote_call:
  assumes "quiet s" "cmd \<noteq> BCMD_NONE" "length data \<le> 0x1000000"
    and "command_on C F H X (call_of cmd p start cnt data) data (hs_usb s) = Some d"
    and "bd_tx d = resp_header st n # rest" "st \<noteq> BRST_MSG"
  shows "send_command (device_link C F H X) cmd p start cnt data s =
    Some (if st = BRST_FAIL then Exits 1 else Returns (sint n), s\<lparr>hs_usb := d\<lparr>bd_tx := rest\<rparr>,
      cur_resp := \<lparr>rh_magic = CMD_MAGIC, rh_status = st, rh_datasize = n\<rparr>\<rparr>)"
  by (rule send_command_call [OF assms])

section \<open>Files to memory and back\<close>

text \<open>The arguments: an address without a unit behind it, and a size.\<close>

definition is_address :: "string \<Rightarrow> u32 \<Rightarrow> bool" where
  "is_address t a \<longleftrightarrow> addr_arg t = Some a"

lemma is_address_value: "is_address t a \<Longrightarrow> ucast (fst (strtoull t)) = a"
  by (simp add: is_address_def addr_arg_def split: prod.splits if_splits)

lemma memory_write_file:
  assumes "quiet s" "is_address t a" "os_reads S f 0x40000 = Some ps"
    and "\<forall>p \<in> set ps. length p \<le> 0x40000" "length (concat ps) \<le> 2 ^ 32" "off_buffer 0x40000 a (length (concat ps))"
  obtains s' where "run_command (device_link C F H X) S [''mw'', t, f] s = Some (Returns Succeeded, s')"
    "quiet s'" "load_bytes a (length (concat ps)) (board_mem s') = concat ps"
proof -
  obtain s' where s': "send_pieces (device_link C F H X) a ps s = Some (Returns (), s')" "quiet s'"
    "load_bytes a (length (concat ps)) (board_mem s') = concat ps"
    by (rule send_pieces_device [OF assms(1,4-6)])
  have "run_command (device_link C F H X) S [''mw'', t, f] s = Some (Returns Succeeded, s')"
    using s'(1) assms(3) by (simp add: run_command_def cmd_memwrexec_def mem_write_def hbind_def report_def
        is_address_value [OF assms(2)] command_codes)
  then show ?thesis by (rule that) (fact s'(2,3))+
qed

lemma memory_read_file:
  assumes "quiet s" "is_address t a" "fst (size_arg z) = n" "os_create S g" "unat n \<le> os_room S"
  obtains s' where "run_command (device_link C F H X) S [''mr'', t, z, g] s = Some (Returns (Transferred (unat n)), s')"
    "quiet s'" "hs_file s' = load_bytes a (unat n) (board_mem s)"
proof -
  have "quiet (s\<lparr>hs_file := []\<rparr>)" using assms(1) by (simp add: quiet_def)
  then obtain s' where s': "memread_loop (device_link C F H X) 0x40000 a n (to_file S) (Transferred (unat n)) (s\<lparr>hs_file := []\<rparr>)
      = Some (Returns (Transferred (unat n)), s')" "quiet s'" "hs_file s' = load_bytes a (unat n) (board_mem s)"
    by (rule memread_loop_device [where S = S]) (use assms(5) in auto)
  then show ?thesis
    using assms(2-4) by (intro that [of s']) (simp_all add: run_command_def cmd_memread_def is_address_def)
qed

text \<open>C28: a file that \<open>allwindisk mw\<close> writes to the board's memory is the file that \<open>allwindisk mr\<close> reads from there,
  whatever the pieces in which the file arrives, through all layers of the protocol on both sides, as long as
  the place is not in the transfer buffer.\<close>

theorem memory_file_roundtrip:
  assumes "quiet s" "is_address t a" "os_reads S f 0x40000 = Some ps" "\<forall>p \<in> set ps. length p \<le> 0x40000"
    and "off_buffer 0x40000 a (length (concat ps))" "unat (fst (size_arg z)) = length (concat ps)"
    and "os_create S g" "length (concat ps) \<le> os_room S"
  shows "\<exists>s1 s2. run_command (device_link C F H X) S [''mw'', t, f] s = Some (Returns Succeeded, s1)
    \<and> run_command (device_link C F H X) S [''mr'', t, z, g] s1 = Some (Returns (Transferred (length (concat ps))), s2)
    \<and> hs_file s2 = concat ps \<and> quiet s2"
proof -
  let ?n = "fst (size_arg z)"
  have "length (concat ps) \<le> 2 ^ 32" using assms(6) unat_u32_bound [of ?n] by simp
  then obtain s1 where 1: "run_command (device_link C F H X) S [''mw'', t, f] s = Some (Returns Succeeded, s1)"
      "quiet s1" "load_bytes a (length (concat ps)) (board_mem s1) = concat ps"
    by (rule memory_write_file [OF assms(1-4) _ assms(5)])
  have "unat ?n \<le> os_room S" using assms(6,8) by simp
  then obtain s2 where "run_command (device_link C F H X) S [''mr'', t, z, g] s1 = Some (Returns (Transferred (unat ?n)), s2)"
      "quiet s2" "hs_file s2 = load_bytes a (unat ?n) (board_mem s1)"
    by (rule memory_read_file [OF 1(2) assms(2) refl assms(7)])
  then show ?thesis using 1 assms(6) by auto
qed

section \<open>Filling memory\<close>

definition cycle :: "u8 list \<Rightarrow> nat \<Rightarrow> u8 list" where
  "cycle p n = map (\<lambda>i. p ! (i mod length p)) [0..<n]"

lemma length_cycle [simp]: "length (cycle p n) = n"
  by (simp add: cycle_def)

lemma nth_cycle: "i < n \<Longrightarrow> cycle p n ! i = p ! (i mod length p)"
  by (simp add: cycle_def)

lemma cycle_add:
  assumes "length p dvd k"
  shows "cycle p (k + n) = cycle p k @ cycle p n"
proof -
  have "(i - k) mod length p = i mod length p" if "k \<le> i" for i
    using assms that by (auto elim!: dvdE simp: le_iff_add)
  then show ?thesis by (intro nth_equalityI) (auto simp: nth_cycle nth_append)
qed

lemma cycle_once: "cycle p (length p) = p"
  by (rule nth_equalityI) (auto simp: nth_cycle)

lemma take_cycle: "n \<le> k \<Longrightarrow> take n (cycle p k) = cycle p n"
  by (rule nth_equalityI) (auto simp: nth_cycle)

text \<open>The part sent at once repeats the pattern whole times and fits the buffer.\<close>

lemma grow_fill_cycle:
  assumes "buf = cycle p k" "length p dvd k" "0 < k" "k \<le> fill_bufsize"
  shows "\<exists>k'. grow_fill buf sz = cycle p k' \<and> length p dvd k' \<and> 0 < k' \<and> k' \<le> fill_bufsize"
  using assms
proof (induction buf sz arbitrary: k rule: grow_fill.induct)
  case (1 buf sz)
  show ?case
  proof (cases "buf \<noteq> [] \<and> of_nat (length buf) < sz \<and> 2 * length buf < fill_bufsize")
    case True
    have "buf @ buf = cycle p (k + k)" using "1.prems" by (simp add: cycle_add)
    moreover have "length p dvd (k + k)" "0 < k + k" "k + k \<le> fill_bufsize" using "1.prems" True by auto
    ultimately show ?thesis using "1.IH" [OF True] True by (simp add: grow_fill.simps [of buf])
  next
    case False
    then have "grow_fill buf sz = buf" by (subst grow_fill.simps) auto
    then show ?thesis using "1.prems" by auto
  qed
qed

lemma memfill_loop_device:
  assumes "quiet s" "buf = cycle p k" "length p dvd k" "0 < unat once" "unat once \<le> k" "k \<le> fill_bufsize"
    and "unat once < k \<longrightarrow> unat left \<le> unat once" "off_buffer fill_bufsize a (unat left)"
  obtains s' where "memfill_loop (device_link C F H X) buf a left once s = Some (Returns Succeeded, s')" "quiet s'"
    "load_bytes a (unat left) (board_mem s') = cycle p (unat left)"
    "leaves fill_bufsize a (unat left) (board_mem s) (board_mem s')"
  using assms
proof (induction "unat left" arbitrary: a left once s thesis rule: less_induct)
  case less
  let ?L = "device_link C F H X"
  show ?case
  proof (cases "left = 0")
    case True
    have "memfill_loop ?L buf a left once s = Some (Returns Succeeded, s)"
      using True by (subst memfill_loop.simps) (simp add: report_def)
    then show ?thesis by (rule less.prems(1)) (use less.prems True in \<open>simp_all add: cycle_def leaves_def\<close>)
  next
    case False
    define n where "n = (if once > left then left else once)"
    have n: "0 < unat n" "unat n \<le> unat left" "unat n \<le> unat once"
      using False less.prems(5) by (auto simp: n_def word_less_nat_alt word_le_nat_alt unat_gt_0)
    have sub: "unat (left - n) = unat left - unat n" using n(2) by (simp add: unat_sub word_le_nat_alt)
    let ?data = "take (unat n) buf"
    have data: "?data = cycle p (unat n)" using less.prems(3,6) n(3) by (simp add: take_cycle)
    have "length ?data \<le> 0x1000000" using less.prems(6,7) n(3) by (simp add: fill_bufsize_def)
    from mem_write_call [OF less.prems(2) this, of C F H X a] obtain s1
      where 1: "send_command ?L BCMD_MEMWRITE 0 (ucast a) 0 ?data s = Some (Returns 0, s1)" "quiet s1"
        "board_mem s1 = store_bytes a ?data (store_bytes transfer_buffer ?data (board_mem s))" by metis
    have fit: "unat n + unat (left - n) \<le> 2 ^ 32" using sub n(2) unat_u32_bound [of left] by (simp del: unat_u32_bound)
    have off: "off_buffer fill_bufsize a (unat n + unat (left - n))" using less.prems(9) sub n(2) by simp
    have more: "unat n < k \<longrightarrow> unat (left - n) \<le> unat n"
      using less.prems(8) sub n unfolding n_def by (auto simp: word_less_nat_alt)
    obtain s2 where 2: "memfill_loop ?L buf (a + n) (left - n) n s1 = Some (Returns Succeeded, s2)" "quiet s2"
      "load_bytes (a + n) (unat (left - n)) (board_mem s2) = cycle p (unat (left - n))"
      "leaves fill_bufsize (a + n) (unat (left - n)) (board_mem s1) (board_mem s2)"
      by (rule less.hyps [where left = "left - n" and once = n and s = s1 and a = "a + n"])
        (use less.prems 1(2) n sub more off_buffer_part(2) [OF off] in auto)
    have pre: "load_bytes a (unat n) (board_mem s2) = load_bytes a (unat n) (board_mem s1)"
      by (rule leaves_prefix [OF _ off_buffer_part(1) [OF off] fit]) (use 2(4) in simp)
    have ld: "load_bytes a (unat n) (board_mem s1) = cycle p (unat n)"
      using load_store_same [of ?data a] fit by (simp add: 1(3) data)
    have lv: "leaves fill_bufsize a (unat n) (board_mem s) (board_mem s1)"
      using leaves_write [of ?data fill_bufsize a "board_mem s"] less.prems(6,7) n(3) by (simp add: 1(3) data)
    have "load_bytes a (unat n + unat (left - n)) (board_mem s2) = cycle p (unat n + unat (left - n))"
    proof (cases "unat (left - n) = 0")
      case True
      then show ?thesis using pre ld by simp
    next
      case False
      then have "n = once" "unat once < unat left" using sub unfolding n_def by (auto split: if_splits)
      then have "length p dvd unat n" using less.prems(4,6,8) by auto
      then show ?thesis using pre ld 2(3)
        by (simp add: load_bytes_add cycle_add)
    qed
    moreover have "leaves fill_bufsize a (unat n + unat (left - n)) (board_mem s) (board_mem s2)"
      using leaves_join [OF lv _ fit] 2(4) by simp
    moreover have "memfill_loop ?L buf a left once s = Some (Returns Succeeded, s2)"
      using False 1(1) 2(1) less.prems(5) by (subst memfill_loop.simps) (simp add: hbind_def n_def Let_def word_gt_0 unat_gt_0)
    ultimately show ?thesis
      by (intro less.prems(1) [of s2]) (use 2 sub n(2) in simp_all)
  qed
qed

text \<open>The escapes of the fill string stay in the buffer.\<close>

lemma escape_step_small: "escape_step t = (bs, rest) \<Longrightarrow> length bs \<le> 2"
  by (auto simp: escape_step_def Let_def split: list.splits option.splits if_splits)

lemma unescape_fits:
  "length dest \<le> fill_bufsize \<Longrightarrow> \<exists>r. unescape t dest = Some r \<and> (\<forall>bs. r = Inr bs \<longrightarrow> length bs \<le> fill_bufsize)"
proof (induction t dest rule: unescape.induct)
  case (2 c cs dest)
  show ?case
  proof (cases "length dest \<ge> fill_bufsize - 1")
    case False
    obtain bs rest where st: "(if c = backslash then escape_step cs else ([char_byte c], cs)) = (bs, rest)"
      by (cases "if c = backslash then escape_step cs else ([char_byte c], cs)")
    have "length bs \<le> 2" using st escape_step_small by (auto split: if_splits)
    then have "length dest + length bs \<le> fill_bufsize" using False by (simp add: fill_bufsize_def)
    then show ?thesis using "2.IH" [OF False refl st [symmetric]] False st by (simp add: Let_def not_less)
  qed simp
qed simp

definition octal_char :: "nat \<Rightarrow> char" where
  "octal_char d = char_of (48 + d)"

definition octal_escape :: "u8 \<Rightarrow> string" where
  "octal_escape b = (let v = unat b in [backslash, octal_char (v div 64), octal_char (v div 8 mod 8), octal_char (v mod 8)])"

lemma octal_char_code: "d < 8 \<Longrightarrow> char_code (octal_char d) = 48 + d"
  by (simp add: char_code_def octal_char_def)

lemma octal_char_simps [simp]:
  assumes "d < 8"
  shows "is_octal (octal_char d)" "digit_val (octal_char d) = Some d" "simple_escape (octal_char d) = None"
    "octal_char d \<noteq> CHR ''x''"
proof -
  have code: "char_code (octal_char d) = 48 + d" by (rule octal_char_code [OF assms])
  have other: "octal_char d \<noteq> c" if "57 \<le> char_code c" for c using code that assms by auto
  show "is_octal (octal_char d)" "digit_val (octal_char d) = Some d"
    using assms by (simp_all add: is_octal_def digit_val_def code Let_def)
  show "simple_escape (octal_char d) = None" using assms other
    by (simp add: simple_escape_def code) (simp add: char_code_def)
  show "octal_char d \<noteq> CHR ''x''" by (rule other) (simp add: char_code_def)
qed

lemma octal_digits: "((v div 64) * 8 + v div 8 mod 8) * 8 + v mod 8 = (v :: nat)"
proof -
  have "v div 64 = v div 8 div 8" by (simp flip: div_mult2_eq)
  then show ?thesis using div_mult_mod_eq [of "v div 8" 8] div_mult_mod_eq [of v 8] by simp
qed

lemma octal_step: "escape_step (tl (octal_escape b) @ t) = ([b], t)"
proof -
  have "unat b div 64 < 8" by (rule less_mult_imp_div_less) (rule less_trans [OF unat_u8_bound], simp)
  then have v: "unat b div 64 < 8" "unat b div 8 mod 8 < 8" "unat b mod 8 < 8" by auto
  show ?thesis using v octal_digits [of "unat b"] by (simp add: octal_escape_def escape_step_def Let_def)
qed

text \<open>Every byte string can be given as a fill string, by octal escapes.\<close>

lemma unescape_octal:
  assumes "length dest + length bs < fill_bufsize"
  shows "unescape (concat (map octal_escape bs)) dest = Some (Inr (dest @ bs))"
  using assms
proof (induction bs arbitrary: dest)
  case (Cons b bs)
  have "unescape (octal_escape b @ t) dest = unescape t (dest @ [b])" for t
  proof -
    have o: "octal_escape b @ t = backslash # (tl (octal_escape b) @ t)" by (simp add: octal_escape_def Let_def)
    have room: "\<not> fill_bufsize - 1 \<le> length dest" "\<not> fill_bufsize < length dest + 1" using Cons.prems by auto
    show ?thesis unfolding o unescape.simps if_not_P [OF room(1)] using room(2) octal_step [of b t] by simp
  qed
  then show ?case using Cons by simp
qed simp

text \<open>C29: \<open>allwindisk mf\<close> fills memory with its pattern: after \<open>mf\<close> the memory from the address on holds the bytes of
  the fill string over and over, as many as asked for, and the bytes in front of and behind them that are not in
  the transfer buffer are untouched.\<close>

theorem memory_fill:
  assumes "quiet s" "is_address t a" "unescape f [] = Some (Inr fill)" "fill \<noteq> []"
    and "size_arg z = (v, u)" "n = (if take 1 u = ''x'' then v * of_nat (length fill) else v)"
    and "off_buffer fill_bufsize a (unat n)"
  shows "\<exists>s'. run_command (device_link C F H X) S [''mf'', t, f, z] s = Some (Returns Succeeded, s')
    \<and> load_bytes a (unat n) (board_mem s') = cycle fill (unat n)
    \<and> leaves fill_bufsize a (unat n) (board_mem s) (board_mem s') \<and> quiet s'"
proof -
  have "length fill \<le> fill_bufsize" using unescape_fits [of "[]" f] assms(3) by simp
  then obtain k where k: "grow_fill fill n = cycle fill k" "length fill dvd k" "0 < k" "k \<le> fill_bufsize"
    using grow_fill_cycle [of fill fill "length fill" n] assms(4) by (auto simp: cycle_once)
  have once: "unat (of_nat k :: u32) = k" using k(4) by (simp add: fill_bufsize_def unat_of_nat)
  obtain s' where s': "memfill_loop (device_link C F H X) (cycle fill k) a n (of_nat k) s = Some (Returns Succeeded, s')"
      "quiet s'" "load_bytes a (unat n) (board_mem s') = cycle fill (unat n)"
      "leaves fill_bufsize a (unat n) (board_mem s) (board_mem s')"
    by (rule memfill_loop_device [where once = "of_nat k" and left = n, OF assms(1) refl k(2) _ _ k(4) _ assms(7)])
      (use once k(3) in auto)
  have "run_command (device_link C F H X) S [''mf'', t, f, z] s = Some (Returns Succeeded, s')"
    using s'(1) k(1) assms(2-6) by (simp add: run_command_def cmd_memfill_def is_address_def Let_def)
  then show ?thesis using s'(2-4) by blast
qed

section \<open>What the host learns about the flash\<close>

lemma parse_props_bytes:
  assumes "length (fp_areas p) = 4"
  shows "parse_props (props_bytes p) = p" "length (props_bytes p) = 72"
proof -
  obtain a b c d where areas: "fp_areas p = [a, b, c, d]"
    using assms by (auto simp: length_Suc_conv numeral_eq_Suc)
  show "length (props_bytes p) = 72" by (simp add: props_bytes_def areas)
  have w: "words_of_bytes (props_bytes p) = concat (map (\<lambda>a. [fa_sectors_per_page a, fa_first_pageno a, fa_page_count a]) [a, b, c, d])
      @ [fp_sectors_per_page p, fp_pages_per_block p, fp_blocks_per_chip p, fp_chip_cnt p, fp_pagewithbadflag p, fp_block_cnt_of_zone p]"
    using words_of_bytes_of_words_app [of _ "[]"] by (simp add: props_bytes_def areas)
  show "parse_props (props_bytes p) = p"
    by (simp add: parse_props_def w areas Let_def upt_rec)
qed

lemma flash_areas_4: "length (fp_areas (FMT_GetFlashMemProperties C F)) = 4"
  by (simp add: FMT_GetFlashMemProperties_def Let_def)

text \<open>The host sees the flash as the device does: the properties it asks for first are those that
  \<open>FMT_GetFlashMemProperties\<close> computes on the device, and later uses repeat them without a transfer.\<close>

theorem flash_properties_shared:
  assumes "quiet s" "hs_props s = None"
  shows "\<exists>s'. get_flashmem_props (device_link C F H X) s = Some (Returns (FMT_GetFlashMemProperties C F), s')
    \<and> get_flashmem_props L s' = Some (Returns (FMT_GetFlashMemProperties C F), s') \<and> quiet s'"
proof -
  let ?p = "FMT_GetFlashMemProperties C F" and ?d = "hs_usb s" and ?c = "call_of BCMD_FLASHMEM_PARAMS 0 0 0 []"
  let ?bs = "props_bytes ?p" and ?r = "resp_header BRST_OK 72"
  note pb = parse_props_bytes [OF flash_areas_4 [of C F]]
  define d where "d = diskboot_reset_handler (?d\<lparr>bd_cmd := ?c, bd_written := 0, bd_tx := bd_tx ?d @ [?r, ?bs]\<rparr>)"
  have tx: "bd_tx ?d = []" using assms(1) by (simp add: quiet_def)
  have ne: "?bs \<noteq> []" using pb(2) by (metis length_0_conv zero_neq_numeral)
  have "command_on C F H X ?c [] ?d = Some d" using ne
    by (simp add: command_on_def dispatch_cmd_def command_codes call_of_def d_def send_resp_OK_def send_resp_st_def
        diskboot_tx_def pb(2) Let_def)
  moreover have "bd_tx d = ?r # [?bs]" by (simp add: d_def diskboot_reset_handler_def tx)
  ultimately have 1: "send_command (device_link C F H X) BCMD_FLASHMEM_PARAMS 0 0 0 [] s = Some (Returns (sint (72 :: u32)),
      s\<lparr>hs_usb := d\<lparr>bd_tx := [?bs]\<rparr>, cur_resp := \<lparr>rh_magic = CMD_MAGIC, rh_status = BRST_OK, rh_datasize = 72\<rparr>\<rparr>)"
      (is "_ = Some (_, ?s1)")
    by (subst send_command_call [OF assms(1)]) (auto simp: command_codes BRST_MSG_def BRST_OK_def BRST_FAIL_def)
  have "response_loop (device_link C F H X) [] ?s1 = Some (Returns ?bs, ?s1\<lparr>hs_usb := (hs_usb ?s1)\<lparr>bd_tx := []\<rparr>,
    cur_resp := (cur_resp ?s1)\<lparr>rh_datasize := 0\<rparr>\<rparr>)"
    by (rule response_loop_device [where n = 72]) (use pb(2) ne in auto)
  then show ?thesis using 1 assms(2)
    by (simp add: get_flashmem_props_def hbind_def get_response_data_def pb quiet_def idle_def d_def diskboot_reset_handler_def)
qed

section \<open>The partition table\<close>

text \<open>The table as the disk holds it.\<close>

definition name_bytes :: "string \<Rightarrow> u8 list" where
  "name_bytes t = map char_byte t @ replicate (12 - length t) 0"

definition long_bytes :: "u64 \<Rightarrow> u8 list" where
  "long_bytes w = bytes32 (ucast (drop_bit 32 w)) @ bytes32 (ucast w)"

definition partition_bytes :: "mbr_partition \<Rightarrow> u8 list" where
  "partition_bytes q = long_bytes (mp_firstSector q) @ long_bytes (mp_sectorCount q) @ name_bytes (mp_classname q)
     @ name_bytes (mp_name q) @ bytes32 (mp_user_type q) @ bytes32 (mp_ro q) @ replicate 16 0"

definition mbr_bytes :: "u32 \<Rightarrow> u8 \<Rightarrow> u8 \<Rightarrow> mbr_data \<Rightarrow> u8 list" where
  "mbr_bytes crc copy index d = (let t = bytes32 crc @ bytes32 (md_version d) @ MBR_MAGIC @ [copy, index]
       @ bytes16 (of_nat (length (md_partitions d))) @ concat (map partition_bytes (md_partitions d))
     in t @ replicate (1024 - length t) 0)"

definition good_name :: "string \<Rightarrow> bool" where
  "good_name t \<longleftrightarrow> length t \<le> 12 \<and> (\<forall>c \<in> set t. char_code c \<noteq> 0)"

definition good_partition :: "mbr_partition \<Rightarrow> bool" where
  "good_partition q \<longleftrightarrow> good_name (mp_classname q) \<and> good_name (mp_name q)"

lemma le32_at_app: "length a = i \<Longrightarrow> le32_at (a @ bytes32 w @ b) i = w"
  by (simp add: le32_at_def nth_append bytes32_def bytes16_def)

lemma le32_at_app4: "length a = i \<Longrightarrow> le32_at (a @ bytes32 v @ bytes32 w @ b) (i + 4) = w"
  using le32_at_app [of "a @ bytes32 v" "i + 4" w b] by simp

lemma long_at_app:
  assumes "length a = i"
  shows "long_at (a @ long_bytes w @ b) i = w"
proof -
  have l: "push_bit 32 (ucast (ucast (drop_bit 32 w) :: u32)) + ucast (ucast w :: u32) = (w :: u64)"
  proof -
    have "push_bit 32 (ucast (ucast (drop_bit 32 w) :: u32)) AND ucast (ucast w :: u32) = (0 :: u64)"
      by (rule bit_word_eqI) (auto simp: bit_and_iff bit_push_bit_iff bit_ucast_iff)
    from disjunctive_add_eq_or [OF this]
    have "push_bit 32 (ucast (ucast (drop_bit 32 w) :: u32)) + ucast (ucast w :: u32)
        = push_bit 32 (ucast (ucast (drop_bit 32 w) :: u32)) OR (ucast (ucast w :: u32) :: u64)" .
    also have "\<dots> = w" by (subst or.commute) (rule join64)
    finally show ?thesis .
  qed
  show ?thesis using assms by (simp add: long_at_def long_bytes_def le32_at_app le32_at_app4 l)
qed

lemma char_byte_back: "char_of (unat (char_byte c)) = c"
proof -
  have "char_code c < 256" by (simp add: char_code_def)
  then show ?thesis by (simp add: char_byte_def unat_of_nat) (simp add: char_code_def)
qed

lemma char_byte_nonzero: "char_code c \<noteq> 0 \<Longrightarrow> char_byte c \<noteq> 0"
proof -
  have "char_code c < 256" by (simp add: char_code_def)
  then show "char_code c \<noteq> 0 \<Longrightarrow> char_byte c \<noteq> 0"
    by (simp add: char_byte_def word_of_nat_eq_0_iff) (metis dvd_imp_le not_le neq0_conv)
qed

lemma name_at_app:
  assumes "length a = i" "good_name t"
  shows "name_at (a @ name_bytes t @ b) i 12 = t"
proof -
  have ne: "\<forall>b \<in> set (map char_byte t). b \<noteq> 0" using assms(2) by (auto simp: good_name_def char_byte_nonzero)
  have "takeWhile (\<lambda>b. b \<noteq> 0) (name_bytes t) = map char_byte t"
    unfolding name_bytes_def using ne by (subst takeWhile_append2) (auto simp: takeWhile_replicate)
  moreover have "length (name_bytes t) = 12" using assms(2) by (simp add: name_bytes_def good_name_def)
  ultimately show ?thesis using assms(1) by (simp add: name_at_def o_def char_byte_back)
qed

lemma partition_length: "good_partition q \<Longrightarrow> length (partition_bytes q) = 64"
  by (simp add: partition_bytes_def long_bytes_def name_bytes_def good_partition_def good_name_def)

lemma parse_partition_at:
  assumes "length a = 20 + 64 * i" "good_partition q"
  shows "parse_partition (a @ partition_bytes q @ b) i = q"
proof -
  let ?f = "long_bytes (mp_firstSector q)" and ?n = "long_bytes (mp_sectorCount q)"
  let ?c = "name_bytes (mp_classname q)" and ?m = "name_bytes (mp_name q)"
  let ?u = "bytes32 (mp_user_type q)" and ?r = "bytes32 (mp_ro q)" and ?z = "replicate 16 (0 :: u8) @ b"
  let ?t = "a @ ?f @ ?n @ ?c @ ?m @ ?u @ ?r @ ?z"
  have len: "length ?f = 8" "length ?n = 8" "length ?c = 12" "length ?m = 12"
    using assms(2) by (simp_all add: long_bytes_def name_bytes_def good_partition_def good_name_def)
  have names: "good_name (mp_classname q)" "good_name (mp_name q)" using assms(2) by (simp_all add: good_partition_def)
  have "long_at ?t (length a) = mp_firstSector q" by (rule long_at_app) simp
  moreover have "long_at ?t (length a + 8) = mp_sectorCount q"
    using long_at_app [of "a @ ?f" "length a + 8"] len by simp
  moreover have "name_at ?t (length a + 16) 12 = mp_classname q"
    using name_at_app [OF _ names(1), of "a @ ?f @ ?n" "length a + 16"] len by simp
  moreover have "name_at ?t (length a + 28) 12 = mp_name q"
    using name_at_app [OF _ names(2), of "a @ ?f @ ?n @ ?c" "length a + 28"] len by simp
  moreover have "le32_at ?t (length a + 40) = mp_user_type q"
    using le32_at_app [of "a @ ?f @ ?n @ ?c @ ?m" "length a + 40"] len by simp
  moreover have "le32_at ?t (length a + 44) = mp_ro q"
    using le32_at_app [of "a @ ?f @ ?n @ ?c @ ?m @ ?u" "length a + 44"] len by simp
  ultimately show ?thesis by (simp add: parse_partition_def partition_bytes_def assms(1) Let_def)
qed

lemma partitions_length:
  "\<forall>q \<in> set qs. good_partition q \<Longrightarrow> length (concat (map partition_bytes qs)) = 64 * length qs"
  by (induction qs) (simp_all add: partition_length)

lemma mbr_split:
  assumes "\<forall>q \<in> set (md_partitions d). good_partition q" "i < length (md_partitions d)"
  shows "\<exists>a b. mbr_bytes crc copy index d = a @ partition_bytes (md_partitions d ! i) @ b \<and> length a = 20 + 64 * i"
proof -
  let ?qs = "md_partitions d"
  let ?h = "bytes32 crc @ bytes32 (md_version d) @ MBR_MAGIC @ [copy, index] @ bytes16 (of_nat (length ?qs))"
  let ?a = "?h @ concat (map partition_bytes (take i ?qs))"
  have "concat (map partition_bytes ?qs) = concat (map partition_bytes (take i ?qs @ ?qs ! i # drop (Suc i) ?qs))"
    using id_take_nth_drop [OF assms(2)] by simp
  then have "\<exists>b. mbr_bytes crc copy index d = ?a @ partition_bytes (?qs ! i) @ b" by (simp add: mbr_bytes_def Let_def)
  moreover have "length (concat (map partition_bytes (take i ?qs))) = 64 * i"
    using partitions_length [of "take i ?qs"] assms by (auto dest: in_set_takeD)
  then have "length ?a = 20 + 64 * i" by (simp add: MBR_MAGIC_def bytes16_def)
  ultimately show ?thesis by blast
qed

text \<open>C32: a partition table is read as it was written: for every table of at most 15 partitions whose names fit,
  the host reads back the version and each partition's place, names and flags.\<close>

theorem partition_table_roundtrip:
  assumes "length (md_partitions d) \<le> MBR_MAX_PART_COUNT" "\<forall>q \<in> set (md_partitions d). good_partition q"
  shows "parse_mbr (mbr_bytes crc copy index d) = Some d"
proof -
  let ?n = "length (md_partitions d)"
  define m where "m = mbr_bytes crc copy index d"
  have n: "?n \<le> 15" using assms(1) by (simp add: MBR_MAX_PART_COUNT_def)
  have magic: "length MBR_MAGIC = 8" by (simp add: MBR_MAGIC_def)
  have part: "parse_partition m i = md_partitions d ! i" if i: "i < ?n" for i
    using mbr_split [OF assms(2) i] parse_partition_at assms(2) i unfolding m_def by (metis nth_mem)
  have "unat (mk16 (m ! 18) (m ! 19)) = ?n"
    using n by (simp add: m_def mbr_bytes_def Let_def nth_append magic bytes32_def bytes16_def unat_of_nat)
  moreover have "le32_at m 4 = md_version d" using le32_at_app [of "bytes32 crc" 4] by (simp add: m_def mbr_bytes_def Let_def)
  moreover have "take 8 (drop 8 m) = MBR_MAGIC" by (simp add: m_def mbr_bytes_def Let_def magic)
  moreover have "map (parse_partition m) [0..<?n] = md_partitions d" by (rule nth_equalityI) (simp_all add: part)
  ultimately show ?thesis using assms(1) unfolding m_def [symmetric] parse_mbr_def by (simp add: Let_def)
qed

section \<open>Places\<close>

text \<open>A place that the host accepts is on the disk: the partition starts below the size of the logical disk
  and ends there, unless its end is above \<open>2 ^ 64\<close>.\<close>

theorem accepted_partition_on_disk:
  assumes "partition_place p d t = Some (a, f, n)" "unat f + unat n < 2 ^ 64"
  shows "a = FMAREA_LOGDISK \<and> f < area_size p FMAREA_LOGDISK \<and> unat f + unat n \<le> unat (area_size p FMAREA_LOGDISK)"
proof -
  have "unat (f + n) = unat f + unat n" using assms(2) by (simp add: unat_word_ariths)
  moreover have "a = FMAREA_LOGDISK \<and> f < area_size p FMAREA_LOGDISK \<and> f + n \<le> area_size p FMAREA_LOGDISK"
    using assms(1) by (auto simp: partition_place_def Option.bind_eq_Some_conv Let_def not_le not_less split: if_splits)
  ultimately show ?thesis by (simp add: word_le_nat_alt)
qed

text \<open>The check adds without regard to overflow: a table entry whose end wraps around below the size of the disk
  is accepted, with a length beyond the disk.\<close>

theorem wrapped_partition_accepted:
  assumes "find_partition (md_partitions d) t = Some q"
    and "mp_firstSector q < area_size p FMAREA_LOGDISK" "2 ^ 64 \<le> unat (mp_firstSector q) + unat (mp_sectorCount q)"
  shows "partition_place p (Some d) t = Some (FMAREA_LOGDISK, mp_firstSector q, mp_sectorCount q)
    \<and> unat (area_size p FMAREA_LOGDISK) < unat (mp_firstSector q) + unat (mp_sectorCount q)"
proof -
  let ?f = "mp_firstSector q" and ?n = "mp_sectorCount q" and ?z = "area_size p FMAREA_LOGDISK"
  have lim: "unat ?n < 2 ^ 64" "unat ?f < unat ?z" "unat ?z < 2 ^ 64"
    using assms(2) unsigned_less [of ?n] unsigned_less [of ?z] by (simp_all add: word_less_nat_alt)
  have "unat (?f + ?n) = unat ?f + unat ?n - 2 ^ 64" using assms(3) lim by (simp add: unat_word_ariths le_mod_geq)
  then have "?f + ?n \<le> ?z" using lim by (simp add: word_le_nat_alt)
  then show ?thesis using assms lim by (simp add: partition_place_def Let_def leD)
qed

section \<open>An example\<close>

abbreviation sample_cable :: "unit nst drv board link" where
  "sample_cable \<equiv> device_link k9lbg08_cfg no_fmt_par scan_hw (\<lambda>_. Some)"

definition sample_host :: "unit nst drv board host" where
  "sample_host = initial_host sample_board"

lemma sample_host_simps [simp]: "quiet sample_host" "hs_usb sample_host = sample_board" "hs_props sample_host = None"
  by (simp_all add: sample_host_def initial_host_def quiet_def)

theorem remote_call_witness:
  "\<exists>s'. send_command sample_cable BCMD_PING 0 0 0 [] sample_host = Some (Returns 0, s')"
proof -
  let ?c = "call_of BCMD_PING 0 0 0 []"
  define d where "d = diskboot_reset_handler (sample_board\<lparr>bd_cmd := ?c, bd_written := 0, bd_tx := [resp_header BRST_OK 0]\<rparr>)"
  have on: "command_on k9lbg08_cfg no_fmt_par scan_hw (\<lambda>_. Some) ?c [] (hs_usb sample_host) = Some d"
    by (simp add: command_on_def dispatch_cmd_def command_codes call_of_def send_ok_empty d_def)
  have tx: "bd_tx d = resp_header BRST_OK 0 # []" by (simp add: d_def diskboot_reset_handler_def)
  have ping: "BCMD_PING \<noteq> BCMD_NONE" "length [] \<le> 0x1000000" "BRST_OK \<noteq> BRST_MSG"
    by (simp_all add: command_codes BRST_OK_def BRST_MSG_def)
  show ?thesis using remote_call [OF sample_host_simps(1) ping(1,2) on tx ping(3)] by (simp add: BRST_OK_def BRST_FAIL_def)
qed

lemmas number_defs = strtoull_def number_base_def is_digit_of_def digit_val_def is_space_def char_code_def Let_def

lemma sample_address: "is_address ''0x42000000'' 0x42000000"
  by (simp add: is_address_def addr_arg_def number_defs)

lemma sample_off: "n \<le> 0x1000 \<Longrightarrow> k \<le> 0x1000000 \<Longrightarrow> off_buffer k 0x42000000 n"
proof -
  assume n: "n \<le> 0x1000" and k: "k \<le> 0x1000000"
  have "k \<le> unat (0x42000000 + of_nat i - transfer_buffer)" if "i < n" for i
  proof -
    have "(0x42000000 + of_nat i - transfer_buffer :: u32) = of_nat (0x1000000 + i)" by (simp add: transfer_buffer_def)
    then have "unat (0x42000000 + of_nat i - transfer_buffer :: u32) = 0x1000000 + i"
      using that n by (simp add: unat_of_nat del: of_nat_add)
    then show ?thesis using k by simp
  qed
  then show ?thesis by (simp add: off_buffer_def)
qed

theorem memory_file_roundtrip_witness:
  "\<exists>s1 s2. run_command sample_cable plain_os [''mw'', ''0x42000000'', ''abc''] sample_host = Some (Returns Succeeded, s1)
    \<and> run_command sample_cable plain_os [''mr'', ''0x42000000'', ''3'', ''out''] s1 = Some (Returns (Transferred 3), s2)
    \<and> hs_file s2 = [97, 98, 99]"
proof -
  have z: "fst (size_arg ''3'') = 3" by (simp add: size_arg_def number_defs)
  have b: "map char_byte ''abc'' = [97, 98, 99]" by (simp add: char_byte_def char_code_def)
  show ?thesis
    using memory_file_roundtrip [OF sample_host_simps(1) sample_address, of plain_os "''abc''" "[map char_byte ''abc'']" "''3''"
        "''out''" k9lbg08_cfg no_fmt_par scan_hw "\<lambda>_. Some"] z b
    by (auto simp: plain_os_def sample_off)
qed

theorem memory_fill_witness:
  "\<exists>s'. run_command sample_cable plain_os [''mf'', ''0x42000000'', ''ab'', ''5''] sample_host = Some (Returns Succeeded, s')
    \<and> load_bytes 0x42000000 5 (board_mem s') = [97, 98, 97, 98, 97]"
proof -
  have "char_code backslash = 92" "char_code CHR ''a'' = 97" "char_code CHR ''b'' = 98"
    by (simp_all add: backslash_def char_code_def)
  then have "CHR ''a'' \<noteq> backslash" "CHR ''b'' \<noteq> backslash" by (force dest: arg_cong [where f = char_code])+
  then have u: "unescape ''ab'' [] = Some (Inr [97, 98])"
    by (simp add: fill_bufsize_def char_byte_def char_code_def)
  have z: "size_arg ''5'' = (5, [])" by (simp add: size_arg_def number_defs)
  have c: "cycle [97, 98] 5 = [97, 98, 97, 98, 97]" by code_simp
  show ?thesis
    using memory_fill [OF sample_host_simps(1) sample_address u _ z, of 5 k9lbg08_cfg no_fmt_par scan_hw "\<lambda>_. Some" plain_os] c
    by (auto simp: sample_off fill_bufsize_def)
qed

theorem flash_properties_shared_witness:
  "\<exists>s'. get_flashmem_props sample_cable sample_host = Some (Returns (FMT_GetFlashMemProperties k9lbg08_cfg no_fmt_par), s')"
  using flash_properties_shared [of sample_host k9lbg08_cfg no_fmt_par scan_hw "\<lambda>_. Some"] by auto

definition sample_table :: "u64 \<Rightarrow> mbr_data" where
  "sample_table cnt = \<lparr>md_version = 0x100, md_partitions =
     [\<lparr>mp_firstSector = 8, mp_sectorCount = cnt, mp_classname = ''DISK'', mp_name = ''data'', mp_user_type = 0, mp_ro = 0\<rparr>]\<rparr>"

theorem partition_table_roundtrip_witness:
  "parse_mbr (mbr_bytes 0 0 0 (sample_table 100)) = Some (sample_table 100)"
proof (rule partition_table_roundtrip)
  have "good_name ''DISK''" "good_name ''data''" by (simp_all add: good_name_def char_code_def)
  then show "\<forall>q \<in> set (md_partitions (sample_table 100)). good_partition q"
    by (simp add: sample_table_def good_partition_def)
qed (simp add: sample_table_def MBR_MAX_PART_COUNT_def)

lemma small_disk: "area_size (small_flash 128) FMAREA_LOGDISK = 256"
  by (simp add: area_size_def small_flash_def FMAREA_LOGDISK_def)

lemma sample_found: "find_partition (md_partitions (sample_table n)) ''data'' = Some (md_partitions (sample_table n) ! 0)"
  by (simp add: find_partition_def sample_table_def)

theorem accepted_partition_on_disk_witness:
  "partition_place (small_flash 128) (Some (sample_table 100)) ''data'' = Some (FMAREA_LOGDISK, 8, 100)
    \<and> unat (8 :: u64) + unat (100 :: u64) \<le> unat (area_size (small_flash 128) FMAREA_LOGDISK)"
proof -
  have p: "partition_place (small_flash 128) (Some (sample_table 100)) ''data'' = Some (FMAREA_LOGDISK, 8, 100)"
    by (simp add: partition_place_def sample_found small_disk) (simp add: sample_table_def)
  show ?thesis using accepted_partition_on_disk [OF p] p by simp
qed

theorem wrapped_partition_accepted_witness:
  "partition_place (small_flash 128) (Some (sample_table (- 4))) ''data'' = Some (FMAREA_LOGDISK, 8, - 4)"
  using wrapped_partition_accepted [OF sample_found, of "- 4" "small_flash 128"]
  by (simp add: small_disk) (simp add: sample_table_def)

end
