(* ===== verification/Boot_Script.thy ===== *)
theory Boot_Script
  imports Novo_Prelude
begin

text \<open>
  The configuration files of the boot loader \<open>boot-axf\<close>, \<open>script.c\<close>: \<open>boot.ini\<close>, which names the operating
  systems, and the file of an operating system, which names the images to load.

  The text is a list of characters and a pointer into it a position; a read behind its end is \<^term>\<open>None\<close>, and so
  is a write outside a field, a variable used before it was set and a string without an end in its field. A
  field of characters is a list of its size. The integers of the code are 32 bit words; \<open>sint\<close> reads their sign.
\<close>

section \<open>Lines\<close>

datatype line_type = LTYPE_COMMENT | LTYPE_SECTION | LTYPE_PARAM

abbreviation NUL :: char where "NUL \<equiv> CHR 0x00"
abbreviation CR :: char where "CR \<equiv> CHR 0x0D"
abbreviation LF :: char where "LF \<equiv> CHR 0x0A"
abbreviation TAB :: char where "TAB \<equiv> CHR 0x09"

definition line_type_of :: "char \<Rightarrow> line_type" where
  "line_type_of c = (if c = CHR '';'' \<or> c = CR then LTYPE_COMMENT else if c = CHR ''['' then LTYPE_SECTION else LTYPE_PARAM)"

text \<open>The loop over the rest of the line: \<open>n\<close> characters are behind, the last one read is at \<open>pos + n\<close>. The result
  is the length of the line, or 0 for a line that is too long. \<open>most\<close> is one less than what is left of the text.\<close>

function line_end :: "string \<Rightarrow> nat \<Rightarrow> nat \<Rightarrow> nat \<Rightarrow> nat option" where
  "line_end txt pos most n =
     (case arr_get txt (pos + n) of
        None \<Rightarrow> None
      | Some c \<Rightarrow>
          if c \<noteq> LF \<and> n < most then
            if n + 1 \<ge> 512 then Some 0
            else line_end txt pos most (n + 1)
          else Some (n + 1))"
  by pat_completeness auto
termination by (relation "measure (\<lambda>(txt, pos, most, n). most - n)") (auto split: if_splits)

declare line_end.simps [simp del]

definition GetScriptLine :: "string \<Rightarrow> nat \<Rightarrow> (line_type \<times> nat) option" where
  "GetScriptLine txt pos = do {
     c \<leftarrow> arr_get txt pos;
     n \<leftarrow> line_end txt pos (length txt - pos - 1) 1;
     Some (line_type_of c, n)
   }"

section \<open>Names and values\<close>

text \<open>The C string in a buffer that begins with these characters.\<close>

definition cstring :: "string \<Rightarrow> string" where
  "cstring t = takeWhile (\<lambda>c. c \<noteq> NUL) t"

fun section_chars :: "string \<Rightarrow> nat \<Rightarrow> string option" where
  "section_chars [] n = None"
| "section_chars (c # cs) n =
     (if c = CHR '']'' then Some []
      else if n = 0 then Some []
      else map_option ((#) c) (section_chars cs (n - 1)))"

text \<open>Of 32 characters the last one is replaced by the end of the string. The character behind it has been read.\<close>

definition GetSectionName :: "string \<Rightarrow> nat \<Rightarrow> string option" where
  "GetSectionName txt pos = do {
     t \<leftarrow> section_chars (drop (pos + 1) txt) 32;
     Some (cstring (if length t \<ge> 32 then take 31 t else t))
   }"

definition blank :: "char \<Rightarrow> bool" where
  "blank c = (c = CHR '' '' \<or> c = TAB)"

text \<open>The characters up to an end mark that are not blanks, at most \<open>n\<close> of them, and the text from where the loop
  stopped.\<close>

fun collect :: "char \<Rightarrow> nat \<Rightarrow> string \<Rightarrow> (string \<times> string) option" where
  "collect e n [] = None"
| "collect e n (c # cs) =
     (if c = e then Some ([], c # cs)
      else if blank c then (if n = 0 then Some ([], cs) else collect e n cs)
      else if n \<le> 1 then Some ([c], cs)
      else do { (t, rest) \<leftarrow> collect e (n - 1) cs; Some (c # t, rest) })"

fun skip_to :: "char \<Rightarrow> string \<Rightarrow> string option" where
  "skip_to e [] = None"
| "skip_to e (c # cs) = (if c = e then Some (c # cs) else skip_to e cs)"

definition GetParam :: "string \<Rightarrow> nat \<Rightarrow> (string \<times> string) option option" where
  "GetParam txt pos = do {
     (name, rest) \<leftarrow> collect (CHR ''='') 31 (drop pos txt);
     rest \<leftarrow> skip_to (CHR ''='') rest;
     (val, _) \<leftarrow> collect CR 127 (tl rest);
     Some (if length val \<ge> 127 then None else Some (cstring name, cstring val))
   }"

text \<open>The three words that a value is parsed to; a text sets the first one only. \<open>None\<close> is a word not set yet.\<close>

type_synonym parsed = "u32 option \<times> u32 option \<times> u32 option"

datatype value_kind = Number | Text

definition ascii :: "char \<Rightarrow> nat" where "ascii c = of_char c"

definition dec_digit :: "char \<Rightarrow> nat option" where
  "dec_digit c = (if 48 \<le> ascii c \<and> ascii c \<le> 57 then Some (ascii c - 48) else None)"

definition hex_digit :: "char \<Rightarrow> nat option" where
  "hex_digit c = (if 48 \<le> ascii c \<and> ascii c \<le> 57 then Some (ascii c - 48)
     else if 65 \<le> ascii c \<and> ascii c \<le> 70 then Some (ascii c - 55)
     else if 97 \<le> ascii c \<and> ascii c \<le> 102 then Some (ascii c - 87) else None)"

text \<open>The loop over the digits: the number and what stopped it, if that is not an error.\<close>

fun number_loop :: "(char \<Rightarrow> nat option) \<Rightarrow> u32 \<Rightarrow> u32 \<Rightarrow> string \<Rightarrow> (u32 \<times> string) option" where
  "number_loop dig base v [] = Some (v, [])"
| "number_loop dig base v (c # cs) =
     (case dig c of
        Some d \<Rightarrow> number_loop dig base (of_nat d + base * v) cs
      | None \<Rightarrow> if c = CHR ''+'' \<or> c = CHR ''-'' then Some (v, c # cs) else None)"

definition char_at :: "string \<Rightarrow> nat \<Rightarrow> char" where
  "char_at t i = (if i < length t then t ! i else NUL)"

definition is_x :: "char \<Rightarrow> bool" where "is_x c = (c = CHR ''x'' \<or> c = CHR ''X'')"

datatype number_type = Not_a_number | Decimal string | Hexadecimal string

definition number_type_of :: "string \<Rightarrow> number_type" where
  "number_type_of b =
     (if char_at b 0 = CHR ''-'' then
        if char_at b 1 = CHR ''0'' then (if is_x (char_at b 2) then Hexadecimal (drop 3 b) else Not_a_number)
        else if dec_digit (char_at b 1) \<noteq> None then Decimal (drop 1 b) else Not_a_number
      else if char_at b 0 = CHR ''0'' \<and> is_x (char_at b 1) then Hexadecimal (drop 2 b)
      else if dec_digit (char_at b 0) \<noteq> None then Decimal b
      else Not_a_number)"

definition parsed_number :: "string \<Rightarrow> u32 \<times> string \<Rightarrow> parsed" where
  "parsed_number b r = (Some (fst r), Some (if char_at b 0 = CHR ''-'' then - 1 else 1),
     Some (if char_at (snd r) 0 = CHR ''-'' then - 1 else 1))"

text \<open>\<^term>\<open>None\<close> is the result -1.\<close>

definition ParseParamVal :: "string \<Rightarrow> parsed \<Rightarrow> (value_kind \<times> parsed) option" where
  "ParseParamVal b sp =
     (case number_type_of b of
        Not_a_number \<Rightarrow> Some (Text, Some (of_nat ((min (length b) 128 + 3) div 4)), snd sp)
      | Decimal t \<Rightarrow> map_option (\<lambda>r. (Number, parsed_number b r)) (number_loop dec_digit 10 0 t)
      | Hexadecimal t \<Rightarrow> map_option (\<lambda>r. (Number, parsed_number b r)) (number_loop hex_digit 16 0 t))"

section \<open>Fields of characters\<close>

text \<open>\<open>strncpy\<close> of this program does not fill the rest of the field, and ends a string only when there is room.\<close>

definition put_string :: "string \<Rightarrow> string \<Rightarrow> nat \<Rightarrow> string option" where
  "put_string fld t n = mem_put fld 0 (take n (t @ [NUL]))"

text \<open>\<open>strcmp\<close> of two fields for equality.\<close>

fun str_eq :: "string \<Rightarrow> string \<Rightarrow> bool option" where
  "str_eq (a # s) (b # t) = (if a \<noteq> b then Some False else if a = NUL then Some True else str_eq s t)"
| "str_eq _ _ = None"

section \<open>\<open>boot.ini\<close>\<close>

record MultiPictureParam =
  filecount :: u32
  fnames :: "string list"

record BootIni =
  osCount :: u32
  osNames :: "string list"
  startOSName :: string
  startOSNum :: u32
  bi_timeout :: u32
  displayDevice :: u32
  displayMode :: u32
  osPictures :: "MultiPictureParam list"

text \<open>All zero, as the program has it before.\<close>

definition empty_field :: string where "empty_field = replicate 32 NUL"

definition zero_ini :: BootIni where
  "zero_ini = \<lparr>osCount = 0, osNames = replicate 8 empty_field, startOSName = empty_field, startOSNum = 0, bi_timeout = 0,
     displayDevice = 0, displayMode = 0, osPictures = replicate 8 \<lparr>filecount = 0, fnames = replicate 4 empty_field\<rparr>\<rparr>"

text \<open>The variables of \<open>parser_script_os_sel\<close>: \<open>sv_failed\<close> is the sign of \<open>var7\<close>.\<close>

record sel_vars =
  sv_failed :: bool
  isSystemSect :: "bool option"
  curOS :: nat
  sv_sp :: parsed
  sv_ini :: BootIni

text \<open>\<open>curOS\<close> is one more than the variable of the code, the number of systems so far.\<close>

definition sel_section :: "string \<Rightarrow> sel_vars \<Rightarrow> sel_vars option option" where
  "sel_section name v =
     (if name = ''system'' then Some (Some (v\<lparr>isSystemSect := Some True\<rparr>))
      else if curOS v \<ge> 8 then Some None
      else do {
        fld \<leftarrow> arr_get (osNames (sv_ini v)) (curOS v);
        fld \<leftarrow> put_string fld name (length name + 1);
        Some (Some (v\<lparr>isSystemSect := Some False, curOS := curOS v + 1,
          sv_ini := (sv_ini v)\<lparr>osNames := (osNames (sv_ini v))[curOS v := fld]\<rparr>\<rparr>))
      })"

definition sel_system_param :: "string \<Rightarrow> string \<Rightarrow> sel_vars \<Rightarrow> sel_vars option" where
  "sel_system_param name val v =
     (let (a, b, c) = sv_sp v; ini = sv_ini v in
      if name = ''start_os_name'' then do {
        n \<leftarrow> a;
        fld \<leftarrow> put_string (startOSName ini) val (unat (push_bit 2 n));
        Some (v\<lparr>sv_ini := ini\<lparr>startOSName := fld\<rparr>\<rparr>)
      }
      else if name = ''timeout'' then do { x \<leftarrow> a; y \<leftarrow> b; Some (v\<lparr>sv_ini := ini\<lparr>bi_timeout := x * y\<rparr>\<rparr>) }
      else if name = ''display_device'' then do { x \<leftarrow> a; y \<leftarrow> b; Some (v\<lparr>sv_ini := ini\<lparr>displayDevice := x * y\<rparr>\<rparr>) }
      else if name = ''display_mode'' then do { x \<leftarrow> a; y \<leftarrow> b; Some (v\<lparr>sv_ini := ini\<lparr>displayMode := x * y\<rparr>\<rparr>) }
      else Some v)"

definition show_param :: "nat \<Rightarrow> string" where
  "show_param i = ''os_show['' @ [char_of (48 + i)] @ '']''"

definition sel_os_param :: "string \<Rightarrow> string \<Rightarrow> sel_vars \<Rightarrow> sel_vars option" where
  "sel_os_param name val v =
     (case find (\<lambda>i. name = show_param i) [0..<4] of
        None \<Rightarrow> Some v
      | Some i \<Rightarrow> do {
          n \<leftarrow> fst (sv_sp v);
          pic \<leftarrow> arr_get (osPictures (sv_ini v)) (curOS v - 1);
          fld \<leftarrow> arr_get (fnames pic) i;
          fld \<leftarrow> put_string fld val (unat (push_bit 2 n));
          let pic = pic\<lparr>fnames := (fnames pic)[i := fld], filecount := filecount pic + 1\<rparr>;
          Some (v\<lparr>sv_ini := (sv_ini v)\<lparr>osPictures := (osPictures (sv_ini v))[curOS v - 1 := pic]\<rparr>\<rparr>)
        })"

text \<open>One line: \<^term>\<open>Inl\<close> ends the function with its result, \<^term>\<open>Inr\<close> goes on.\<close>

definition sel_result :: "sel_vars \<Rightarrow> int" where
  "sel_result v = (if sv_failed v then - 1 else 0)"

definition sel_line :: "string \<Rightarrow> nat \<Rightarrow> line_type \<Rightarrow> sel_vars \<Rightarrow> (int \<times> BootIni + sel_vars) option" where
  "sel_line txt pos ty v =
     (case ty of
        LTYPE_COMMENT \<Rightarrow> Some (Inr v)
      | LTYPE_SECTION \<Rightarrow> do {
          name \<leftarrow> GetSectionName txt pos;
          r \<leftarrow> sel_section name v;
          Some (case r of None \<Rightarrow> Inl (- 1, sv_ini v) | Some v \<Rightarrow> Inr v)
        }
      | LTYPE_PARAM \<Rightarrow> do {
          r \<leftarrow> GetParam txt pos;
          case r of
            None \<Rightarrow> Some (Inl (sel_result v, sv_ini v))
          | Some (name, val) \<Rightarrow>
              (case ParseParamVal val (sv_sp v) of
                 None \<Rightarrow> Some (Inl (- 1, sv_ini v))
               | Some (_, sp) \<Rightarrow> do {
                   let v = v\<lparr>sv_failed := False, sv_sp := sp\<rparr>;
                   v \<leftarrow> (case isSystemSect v of
                     None \<Rightarrow> Some v
                   | Some True \<Rightarrow> sel_system_param name val v
                   | Some False \<Rightarrow> sel_os_param name val v);
                   Some (Inr v)
                 })
        })"

fun start_number :: "string \<Rightarrow> string list \<Rightarrow> nat \<Rightarrow> nat option option" where
  "start_number t [] i = Some None"
| "start_number t (f # fs) i = do {
     eq \<leftarrow> str_eq t f;
     if eq then Some (Some i) else start_number t fs (i + 1)
   }"

definition sel_end :: "sel_vars \<Rightarrow> (int \<times> BootIni) option" where
  "sel_end v = do {
     let ini = (sv_ini v)\<lparr>osCount := of_nat (curOS v)\<rparr>;
     r \<leftarrow> start_number (startOSName ini) (osNames ini) 0;
     Some (sel_result v, case r of None \<Rightarrow> ini | Some i \<Rightarrow> ini\<lparr>startOSNum := of_nat i\<rparr>)
   }"

text \<open>The loop over the lines.\<close>

function sel_lines :: "string \<Rightarrow> nat \<Rightarrow> sel_vars \<Rightarrow> (int \<times> BootIni) option" where
  "sel_lines txt pos v =
     (if pos \<ge> length txt then sel_end v
      else case GetScriptLine txt pos of
        None \<Rightarrow> None
      | Some (ty, n) \<Rightarrow>
          if n = 0 then Some (sel_result v, sv_ini v)
          else case sel_line txt pos ty v of
            None \<Rightarrow> None
          | Some (Inl r) \<Rightarrow> Some r
          | Some (Inr v) \<Rightarrow> sel_lines txt (pos + n) v)"
  by pat_completeness auto
termination by (relation "measure (\<lambda>(txt, pos, v). length txt - pos)") auto

declare sel_lines.simps [simp del]

definition parser_script_os_sel :: "string \<Rightarrow> BootIni \<Rightarrow> (int \<times> BootIni) option" where
  "parser_script_os_sel txt ini = sel_lines txt 0
     \<lparr>sv_failed = True, isSystemSect = None, curOS = 0, sv_sp = (None, None, None), sv_ini = ini\<rparr>"

section \<open>The file of an operating system\<close>

record OSImage =
  im_name :: string
  im_maxSize :: u32
  im_fileLen :: u32
  im_baseAddr :: u32

record OSImageScript =
  startMode :: u32
  images :: "OSImage list"
  is_maxSize :: u32
  param776 :: u32
  is_baseAddr :: u32
  segmentSectionCount :: u32
  logoFileName :: string
  logoShow :: u32
  logoAddress :: u32
  logoOff :: u32

text \<open>The two words of \<open>gBootPara\<close> that give the top of memory are the parameter \<open>mtop\<close>.\<close>

definition memory_top :: "u32 \<Rightarrow> u32 \<Rightarrow> u32" where
  "memory_top base megabytes = base + push_bit 20 megabytes"

datatype ImgSection = SECT_SEGMENT | SECT_SCRIPT_INFO | SECT_LOGO_INFO | SECT_GLOBAL

text \<open>\<open>segments\<close> is \<open>segmentNo + 1\<close>.\<close>

record img_vars =
  iv_failed :: bool
  img_section :: "ImgSection option"
  segments :: nat
  adjustBaseAddr :: "bool option"
  iv_sp :: parsed
  iv_script :: OSImageScript

definition img_section_of :: "string \<Rightarrow> ImgSection option" where
  "img_section_of name = (if name = ''segment'' then Some SECT_SEGMENT else if name = ''script_info'' then Some SECT_SCRIPT_INFO
     else if name = ''logo_info'' then Some SECT_LOGO_INFO else if name = ''global'' then Some SECT_GLOBAL else None)"

text \<open>The section stays the same when its name is not known.\<close>

definition img_section_line :: "string \<Rightarrow> img_vars \<Rightarrow> img_vars" where
  "img_section_line name v =
     v\<lparr>img_section := (case img_section_of name of None \<Rightarrow> img_section v | Some x \<Rightarrow> Some x),
       segments := (if name = ''segment'' then segments v + 1 else segments v), adjustBaseAddr := Some False\<rparr>"

text \<open>An address counted from the top of memory, and one that is the end of its area: the start is then computed
  here, or later when the size is known.\<close>

definition from_top :: "u32 \<Rightarrow> parsed \<Rightarrow> u32 option" where
  "from_top mtop sp = (case sp of (a, b, _) \<Rightarrow> do { a \<leftarrow> a; b \<leftarrow> b; Some (if sint b < 0 then mtop - a else a) })"

definition base_address :: "u32 \<Rightarrow> parsed \<Rightarrow> u32 \<Rightarrow> bool option \<Rightarrow> (u32 \<times> bool option) option" where
  "base_address mtop sp area adjust = do {
     a \<leftarrow> from_top mtop sp;
     c \<leftarrow> snd (snd sp);
     Some (if sint c < 0 then if area = 0 then (a, Some True) else (a - area, adjust) else (a, adjust))
   }"

definition segment_param :: "u32 \<Rightarrow> string \<Rightarrow> string \<Rightarrow> img_vars \<Rightarrow> img_vars option" where
  "segment_param mtop name val v =
     (if name \<notin> {''img_name'', ''img_size'', ''img_base''} then Some v
      else if segments v = 0 then None
      else do {
        im \<leftarrow> arr_get (images (iv_script v)) (segments v - 1);
        (im, adjust) \<leftarrow>
          (if name = ''img_name'' then do {
             n \<leftarrow> fst (iv_sp v);
             fld \<leftarrow> put_string (im_name im) val (unat (4 * n));
             Some (im\<lparr>im_name := fld\<rparr>, adjustBaseAddr v)
           } else if name = ''img_size'' then do {
             a \<leftarrow> fst (iv_sp v);
             adj \<leftarrow> adjustBaseAddr v;
             let im = im\<lparr>im_maxSize := a\<rparr>;
             Some (if adj then im\<lparr>im_baseAddr := im_baseAddr im - a\<rparr> else im, Some False)
           } else do {
             (a, adjust) \<leftarrow> base_address mtop (iv_sp v) (im_maxSize im) (adjustBaseAddr v);
             Some (im\<lparr>im_baseAddr := a\<rparr>, adjust)
           });
        Some (v\<lparr>adjustBaseAddr := adjust,
          iv_script := (iv_script v)\<lparr>images := (images (iv_script v))[segments v - 1 := im]\<rparr>\<rparr>)
      })"

definition script_info_param :: "u32 \<Rightarrow> string \<Rightarrow> img_vars \<Rightarrow> img_vars option" where
  "script_info_param mtop name v =
     (let sc = iv_script v in
      if name = ''script_base'' then do {
        (a, adjust) \<leftarrow> base_address mtop (iv_sp v) (is_maxSize sc) (adjustBaseAddr v);
        Some (v\<lparr>adjustBaseAddr := adjust, iv_script := sc\<lparr>is_baseAddr := a\<rparr>\<rparr>)
      }
      else if name = ''script_size'' then do {
        a \<leftarrow> fst (iv_sp v);
        adj \<leftarrow> adjustBaseAddr v;
        let sc = sc\<lparr>is_maxSize := a\<rparr>;
        Some (v\<lparr>adjustBaseAddr := Some False,
          iv_script := (if adj then sc\<lparr>is_baseAddr := is_baseAddr sc - a\<rparr> else sc)\<rparr>)
      }
      else Some v)"

definition logo_info_param :: "u32 \<Rightarrow> string \<Rightarrow> string \<Rightarrow> img_vars \<Rightarrow> img_vars option" where
  "logo_info_param mtop name val v =
     (let sc = iv_script v in
      if name = ''logo_name'' then do {
        n \<leftarrow> fst (iv_sp v);
        fld \<leftarrow> put_string (logoFileName sc) val (unat (push_bit 2 n));
        Some (v\<lparr>iv_script := sc\<lparr>logoFileName := fld\<rparr>\<rparr>)
      }
      else if name = ''logo_show'' then do { a \<leftarrow> fst (iv_sp v); Some (v\<lparr>iv_script := sc\<lparr>logoShow := a\<rparr>\<rparr>) }
      else if name = ''logo_address'' then do { a \<leftarrow> from_top mtop (iv_sp v); Some (v\<lparr>iv_script := sc\<lparr>logoAddress := a\<rparr>\<rparr>) }
      else if name = ''logo_off'' then do { a \<leftarrow> fst (iv_sp v); Some (v\<lparr>iv_script := sc\<lparr>logoOff := a\<rparr>\<rparr>) }
      else Some v)"

definition global_param :: "string \<Rightarrow> img_vars \<Rightarrow> img_vars option" where
  "global_param name v =
     (if name = ''start_mode'' then do { a \<leftarrow> fst (iv_sp v); Some (v\<lparr>iv_script := (iv_script v)\<lparr>startMode := a\<rparr>\<rparr>) }
      else Some v)"

definition img_param :: "u32 \<Rightarrow> string \<Rightarrow> string \<Rightarrow> img_vars \<Rightarrow> img_vars option" where
  "img_param mtop name val v =
     (case img_section v of
        None \<Rightarrow> None
      | Some SECT_SEGMENT \<Rightarrow> segment_param mtop name val v
      | Some SECT_SCRIPT_INFO \<Rightarrow> script_info_param mtop name v
      | Some SECT_LOGO_INFO \<Rightarrow> logo_info_param mtop name val v
      | Some SECT_GLOBAL \<Rightarrow> global_param name v)"

definition img_result :: "img_vars \<Rightarrow> int" where
  "img_result v = (if iv_failed v then - 1 else 0)"

definition img_line :: "u32 \<Rightarrow> string \<Rightarrow> nat \<Rightarrow> line_type \<Rightarrow> img_vars \<Rightarrow> (int \<times> OSImageScript + img_vars) option" where
  "img_line mtop txt pos ty v =
     (case ty of
        LTYPE_COMMENT \<Rightarrow> Some (Inr v)
      | LTYPE_SECTION \<Rightarrow> do {
          name \<leftarrow> GetSectionName txt pos;
          Some (Inr (img_section_line name v))
        }
      | LTYPE_PARAM \<Rightarrow> do {
          r \<leftarrow> GetParam txt pos;
          case r of
            None \<Rightarrow> Some (Inl (img_result v, iv_script v))
          | Some (name, val) \<Rightarrow>
              (case ParseParamVal val (iv_sp v) of
                 None \<Rightarrow> Some (Inl (- 1, iv_script v))
               | Some (_, sp) \<Rightarrow> do {
                   v \<leftarrow> img_param mtop name val (v\<lparr>iv_failed := False, iv_sp := sp\<rparr>);
                   Some (Inr v)
                 })
        })"

function img_lines :: "u32 \<Rightarrow> string \<Rightarrow> nat \<Rightarrow> img_vars \<Rightarrow> (int \<times> OSImageScript) option" where
  "img_lines mtop txt pos v =
     (if pos \<ge> length txt then Some (img_result v, (iv_script v)\<lparr>segmentSectionCount := of_nat (segments v)\<rparr>)
      else case GetScriptLine txt pos of
        None \<Rightarrow> None
      | Some (ty, n) \<Rightarrow>
          if n = 0 then Some (img_result v, iv_script v)
          else case img_line mtop txt pos ty v of
            None \<Rightarrow> None
          | Some (Inl r) \<Rightarrow> Some r
          | Some (Inr v) \<Rightarrow> img_lines mtop txt (pos + n) v)"
  by pat_completeness auto
termination by (relation "measure (\<lambda>(mtop, txt, pos, v). length txt - pos)") auto

declare img_lines.simps [simp del]

definition parser_script_os_img :: "u32 \<Rightarrow> string \<Rightarrow> OSImageScript \<Rightarrow> (int \<times> OSImageScript) option" where
  "parser_script_os_img mtop txt sc = img_lines mtop txt 0
     \<lparr>iv_failed = True, img_section = None, segments = 0, adjustBaseAddr = None, iv_sp = (None, None, None), iv_script = sc\<rparr>"

section \<open>Files\<close>

text \<open>The file system of the first boot loader is the parameter \<open>files\<close>; \<open>room\<close> tells whether memory of a size can
  be had. The result is that of the parser, -1 without a name or a file. The flag \<open>is_osimg\<close> of the code is the
  parser that it selects.\<close>

definition script_patch ::
  "(string \<Rightarrow> string option) \<Rightarrow> (nat \<Rightarrow> bool) \<Rightarrow> (string \<Rightarrow> 'a \<Rightarrow> (int \<times> 'a) option) \<Rightarrow> string option \<Rightarrow> 'a \<Rightarrow> (int \<times> 'a) option" where
  "script_patch files room parse fname x =
     (case fname of
        None \<Rightarrow> Some (- 1, x)
      | Some fname \<Rightarrow>
          (case files fname of
             None \<Rightarrow> Some (- 1, x)
           | Some txt \<Rightarrow> if room (length txt) then parse txt x else Some (- 1, x)))"

end
