(* ===== verification/Boot_Screen.thy ===== *)
theory Boot_Screen
  imports Host_Tool
begin

text \<open>
  The pictures of the boot loader \<open>boot-axf\<close>: \<open>picture.c\<close> with the buffers of \<open>display_interface.c\<close>.

  A screen is its size and the bytes of its buffer, four for a pixel, line after line; pictures go to the upper
  half of it. \<^term>\<open>None\<close> is a copy that is not inside the file, the picture or the screen. The file system of the
  first boot loader is the parameter \<open>files\<close>, and \<open>room\<close> tells whether memory of a size can be had.
\<close>

section \<open>Screen and pictures\<close>

record screen =
  scr_width :: nat
  scr_height :: nat
  scr_buf :: "u8 list"

text \<open>The height of the part that pictures and menu are drawn to.\<close>

definition De_GetPictBuf :: "screen \<Rightarrow> nat" where
  "De_GetPictBuf s = scr_height s div 2"

record picture =
  pic_width :: int
  pic_height :: nat
  pic_data :: "u8 list"

text \<open>The lines from the picture to the screen; \<open>src\<close> and \<open>dst\<close> give the place of a line.\<close>

fun copy_lines :: "(nat \<Rightarrow> nat) \<Rightarrow> (nat \<Rightarrow> nat) \<Rightarrow> nat \<Rightarrow> u8 list \<Rightarrow> nat list \<Rightarrow> u8 list \<Rightarrow> u8 list option" where
  "copy_lines src dst n img [] buf = Some buf"
| "copy_lines src dst n img (i # is) buf = do {
     l \<leftarrow> mem_get img (src i) n;
     buf \<leftarrow> mem_put buf (dst i) l;
     copy_lines src dst n img is buf
   }"

text \<open>Widths are compared without sign.\<close>

definition CopyImage :: "picture \<Rightarrow> screen \<Rightarrow> screen option" where
  "CopyImage img s =
     (let width = scr_width s; height = De_GetPictBuf s; iw = (if pic_width img < 0 then nat (pic_width img + 2 ^ 32) else nat (pic_width img));
        (firstLineImg, firstLineScreen, nLines) =
          (if pic_height img \<le> height then (0, (height - pic_height img) div 2, pic_height img)
           else ((pic_height img - height) div 2, 0, height));
        (firstColImg, firstColScreen, nCols) =
          (if iw \<le> width then (0, (width - iw) div 2, iw) else ((iw - width) div 2, 0, width))
      in do {
        buf \<leftarrow> copy_lines (\<lambda>i. ((i + firstLineImg) * iw + firstColImg) * 4)
          (\<lambda>i. ((i + firstLineScreen) * width + firstColScreen) * 4) (nCols * 4) (pic_data img) [0..<nLines] (scr_buf s);
        Some (s\<lparr>scr_buf := buf\<rparr>)
      })"

section \<open>Picture files\<close>

definition file_part :: "u8 list \<Rightarrow> int \<Rightarrow> int \<Rightarrow> u8 list option" where
  "file_part f p n = (if n = 0 then Some [] else if p < 0 \<or> n < 0 then None else mem_get f (nat p) (nat n))"

fun file_lines :: "u8 list \<Rightarrow> int \<Rightarrow> int \<Rightarrow> nat \<Rightarrow> u8 list option" where
  "file_lines f start width 0 = Some []"
| "file_lines f start width (Suc h) = do {
     l \<leftarrow> file_part f (start + int h * width * 4) (width * 4);
     ls \<leftarrow> file_lines f start width h;
     Some (l @ ls)
   }"

text \<open>The inner option is the result: \<^term>\<open>None\<close> is -1.\<close>

definition Parse_Pic_BMP_ByPath ::
  "(string \<Rightarrow> u8 list option) \<Rightarrow> (int \<Rightarrow> bool) \<Rightarrow> string \<Rightarrow> u32 \<Rightarrow> memory \<Rightarrow> (picture \<times> memory) option option" where
  "Parse_Pic_BMP_ByPath files room fname imgdatabuf mem =
     (case files fname of
        None \<Rightarrow> Some None
      | Some f \<Rightarrow>
          if length f < 2 then None
          else if mk16 (f ! 0) (f ! 1) \<noteq> 0x4d42 then Some None
          else if length f < 26 then None
          else let width = sint (le32_at f 18); height = sint (le32_at f 22); start = sint (mk16 (f ! 10) (f ! 11)) in
            if height = - (2 ^ 31) then None
            else if \<not> room (int (length f)) then Some None
            else if imgdatabuf = 0 \<and> \<not> room (\<bar>height\<bar> * width * 4) then None
            else do {
              img \<leftarrow> (if height > 0 then file_lines f start width (nat height)
                else file_part f start (- height * width * 4));
              Some (Some (\<lparr>pic_width = width, pic_height = nat \<bar>height\<bar>, pic_data = img\<rparr>,
                if imgdatabuf = 0 then mem else store_bytes imgdatabuf img mem))
            })"

definition ShowPictureEx ::
  "(string \<Rightarrow> u8 list option) \<Rightarrow> (int \<Rightarrow> bool) \<Rightarrow> string \<Rightarrow> u32 \<Rightarrow> memory \<Rightarrow> screen \<Rightarrow> (memory \<times> screen) option" where
  "ShowPictureEx files room fname imgdatabuf mem s = do {
     r \<leftarrow> Parse_Pic_BMP_ByPath files room fname imgdatabuf mem;
     (case r of
        None \<Rightarrow> Some (mem, s)
      | Some (img, mem) \<Rightarrow> do { s \<leftarrow> CopyImage img s; Some (mem, s) })
   }"

section \<open>What is on the screen\<close>

definition pixel :: "u8 list \<Rightarrow> nat \<Rightarrow> nat \<Rightarrow> nat \<Rightarrow> u8 list" where
  "pixel buf width x y = map (\<lambda>c. buf ! (4 * (y * width + x) + c)) [0..<4]"

lemma pixel_place:
  fixes x y i a n width c :: nat
  assumes "x < width" "a + n \<le> width" "c < 4"
  shows "(4 * (i * width + a) \<le> 4 * (y * width + x) + c \<and> 4 * (y * width + x) + c < 4 * (i * width + a) + 4 * n)
    \<longleftrightarrow> y = i \<and> a \<le> x \<and> x < a + n"
proof -
  have "(4 * (i * width + a) \<le> 4 * (y * width + x) + c \<and> 4 * (y * width + x) + c < 4 * (i * width + a) + 4 * n)
    \<longleftrightarrow> i * width + a \<le> y * width + x \<and> y * width + x < i * width + (a + n)" using assms(3) by auto
  also have "\<dots> \<longleftrightarrow> y = i \<and> a \<le> x \<and> x < a + n"
  proof
    assume r: "i * width + a \<le> y * width + x \<and> y * width + x < i * width + (a + n)"
    have "y = i"
    proof (rule ccontr)
      assume "y \<noteq> i"
      then consider "y + 1 \<le> i" | "i + 1 \<le> y" by linarith
      then show False
      proof cases
        case 1
        then have "(y + 1) * width \<le> i * width" by (rule mult_le_mono1)
        then show False using r assms(1) by simp
      next
        case 2
        then have "(i + 1) * width \<le> y * width" by (rule mult_le_mono1)
        then show False using r assms(2) by simp
      qed
    qed
    then show "y = i \<and> a \<le> x \<and> x < a + n" using r by simp
  qed simp
  finally show ?thesis .
qed

lemma mem_put_index:
  "mem_put xs off ys = Some zs \<Longrightarrow> zs ! k = (if off \<le> k \<and> k < off + length ys then ys ! (k - off) else xs ! k)"
  by (auto simp: mem_put_def nth_append split: if_splits)

lemma copy_lines_screen:
  assumes "ax + n \<le> width" "bx + n \<le> iw" "ay + h \<le> height" "by' + h \<le> ih" "length img = 4 * (iw * ih)"
    "length buf = 4 * (width * height)"
  shows "\<exists>buf'. copy_lines (\<lambda>i. ((i + by') * iw + bx) * 4) (\<lambda>i. ((i + ay) * width + ax) * 4) (n * 4) img [k..<h] buf = Some buf'
    \<and> length buf' = length buf
    \<and> (\<forall>x y. x < width \<longrightarrow> pixel buf' width x y =
        (if ay + k \<le> y \<and> y < ay + h \<and> ax \<le> x \<and> x < ax + n then pixel img iw (x - ax + bx) (y - ay + by') else pixel buf width x y))"
  using assms(6)
proof (induction "h - k" arbitrary: k buf)
  case 0
  then show ?case by auto
next
  case (Suc d)
  then have k: "k < h" by simp
  let ?l = "take (n * 4) (drop (((k + by') * iw + bx) * 4) img)"
  have "(k + by' + 1) * iw \<le> ih * iw" by (rule mult_le_mono1) (use assms(4) k in simp)
  then have fits: "((k + by') * iw + bx) * 4 + n * 4 \<le> length img" using assms(2,5) by (simp add: algebra_simps)
  then have l: "mem_get img (((k + by') * iw + bx) * 4) (n * 4) = Some ?l" "length ?l = n * 4" by (simp_all add: mem_get_def)
  have "(k + ay + 1) * width \<le> height * width" by (rule mult_le_mono1) (use assms(3) k in simp)
  then have "((k + ay) * width + ax) * 4 + length ?l \<le> length buf" using assms(1) l(2) Suc.prems by (simp add: algebra_simps)
  then obtain b where b: "mem_put buf (((k + ay) * width + ax) * 4) ?l = Some b" by (simp add: mem_put_def)
  have lb: "length b = length buf" using mem_put_length [OF b] .
  have d: "d = h - Suc k" and lb': "length b = 4 * (width * height)" using Suc.hyps(2) lb Suc.prems by simp_all
  obtain buf' where r: "copy_lines (\<lambda>i. ((i + by') * iw + bx) * 4) (\<lambda>i. ((i + ay) * width + ax) * 4) (n * 4) img [Suc k..<h] b = Some buf'"
      "length buf' = length b"
      "\<forall>x y. x < width \<longrightarrow> pixel buf' width x y =
        (if ay + Suc k \<le> y \<and> y < ay + h \<and> ax \<le> x \<and> x < ax + n then pixel img iw (x - ax + bx) (y - ay + by') else pixel b width x y)"
    using Suc.hyps(1) [OF d lb'] by blast
  have px: "pixel b width x y = (if y = ay + k \<and> ax \<le> x \<and> x < ax + n then pixel img iw (x - ax + bx) (y - ay + by') else pixel buf width x y)"
    if "x < width" for x y
  proof (unfold pixel_def, cases "y = ay + k \<and> ax \<le> x \<and> x < ax + n")
    case True
    have "b ! (4 * (y * width + x) + c) = img ! (4 * ((y - ay + by') * iw + (x - ax + bx)) + c)" if "c < 4" for c
    proof -
      have "4 * (y * width + x) + c - ((k + ay) * width + ax) * 4 = 4 * (x - ax) + c" using True by (simp add: algebra_simps)
      moreover have "4 * (x - ax) + c < n * 4" using True \<open>c < 4\<close> by auto
      ultimately show ?thesis
        using mem_put_index [OF b, of "4 * (y * width + x) + c"] pixel_place [OF \<open>x < width\<close> assms(1) that, of "k + ay" y] True l(2) fits
        by (simp add: algebra_simps)
    qed
    then show "map (\<lambda>c. b ! (4 * (y * width + x) + c)) [0..<4] = (if y = ay + k \<and> ax \<le> x \<and> x < ax + n
      then map (\<lambda>c. img ! (4 * ((y - ay + by') * iw + (x - ax + bx)) + c)) [0..<4] else map (\<lambda>c. buf ! (4 * (y * width + x) + c)) [0..<4])"
      using True by simp
  next
    case False
    then have "b ! (4 * (y * width + x) + c) = buf ! (4 * (y * width + x) + c)" if "c < 4" for c
      using mem_put_index [OF b, of "4 * (y * width + x) + c"] pixel_place [OF \<open>x < width\<close> assms(1) that, of "k + ay" y] l(2)
      by (auto simp: algebra_simps)
    then show "map (\<lambda>c. b ! (4 * (y * width + x) + c)) [0..<4] = (if y = ay + k \<and> ax \<le> x \<and> x < ax + n
      then map (\<lambda>c. img ! (4 * ((y - ay + by') * iw + (x - ax + bx)) + c)) [0..<4] else map (\<lambda>c. buf ! (4 * (y * width + x) + c)) [0..<4])"
      unfolding if_not_P [OF False] by (intro map_cong) auto
  qed
  have "copy_lines (\<lambda>i. ((i + by') * iw + bx) * 4) (\<lambda>i. ((i + ay) * width + ax) * 4) (n * 4) img [k..<h] buf = Some buf'"
    using k l(1) b r(1) by (simp add: upt_conv_Cons)
  moreover have "\<forall>x y. x < width \<longrightarrow> pixel buf' width x y =
        (if ay + k \<le> y \<and> y < ay + h \<and> ax \<le> x \<and> x < ax + n then pixel img iw (x - ax + bx) (y - ay + by') else pixel buf width x y)"
    using r(3) px k by (auto simp: not_le)
  ultimately show ?case using r(2) lb by auto
qed

text \<open>C38: a picture of any size is shown in the middle of the upper half of the screen: no copy goes outside the
  picture or the screen, a larger picture is cut to its middle part, and all other pixels stay as they were.\<close>

theorem picture_centered:
  assumes "pic_width img = int w" "length (pic_data img) = 4 * (w * pic_height img)"
    and "length (scr_buf s) = 4 * (scr_width s * scr_height s)"
  shows "\<exists>buf. CopyImage img s = Some (s\<lparr>scr_buf := buf\<rparr>) \<and> length buf = length (scr_buf s)
    \<and> (\<forall>x y. x < scr_width s \<longrightarrow> pixel buf (scr_width s) x y =
        (let h = pic_height img; H = scr_height s div 2; W = scr_width s; top = (H - h) div 2; left = (W - w) div 2 in
         if top \<le> y \<and> y < top + min h H \<and> left \<le> x \<and> x < left + min w W
         then pixel (pic_data img) w (x - left + (w - W) div 2) (y - top + (h - H) div 2)
         else pixel (scr_buf s) W x y))"
proof -
  let ?h = "pic_height img" and ?H = "scr_height s div 2" and ?W = "scr_width s"
  have fit: "(a - b) div 2 + min b a \<le> (a :: nat)" for a b by auto
  have "(?W - w) div 2 + min w ?W \<le> ?W" "(w - ?W) div 2 + min w ?W \<le> w"
    "(?H - ?h) div 2 + min ?h ?H \<le> scr_height s" "(?h - ?H) div 2 + min ?h ?H \<le> ?h"
    by linarith+
  from copy_lines_screen [OF this assms(2,3), of 0] obtain buf where buf:
    "copy_lines (\<lambda>i. ((i + (?h - ?H) div 2) * w + (w - ?W) div 2) * 4) (\<lambda>i. ((i + (?H - ?h) div 2) * ?W + (?W - w) div 2) * 4)
      (min w ?W * 4) (pic_data img) [0..<min ?h ?H] (scr_buf s) = Some buf" "length buf = length (scr_buf s)"
    "\<forall>x y. x < ?W \<longrightarrow> pixel buf ?W x y = (if (?H - ?h) div 2 + 0 \<le> y \<and> y < (?H - ?h) div 2 + min ?h ?H \<and> (?W - w) div 2 \<le> x \<and> x < (?W - w) div 2 + min w ?W
      then pixel (pic_data img) w (x - (?W - w) div 2 + (w - ?W) div 2) (y - (?H - ?h) div 2 + (?h - ?H) div 2) else pixel (scr_buf s) ?W x y)"
    by blast
  have "CopyImage img s = Some (s\<lparr>scr_buf := buf\<rparr>)"
    using buf(1) assms(1) by (auto simp: CopyImage_def De_GetPictBuf_def Let_def min_def split: if_splits)
  then show ?thesis using buf(2,3) unfolding Let_def add_0_right by blast
qed

theorem picture_centered_witness:
  "\<exists>buf. CopyImage \<lparr>pic_width = 1, pic_height = 3, pic_data = replicate 12 5\<rparr> \<lparr>scr_width = 3, scr_height = 2, scr_buf = replicate 24 0\<rparr>
     = Some \<lparr>scr_width = 3, scr_height = 2, scr_buf = buf\<rparr> \<and> pixel buf 3 1 0 = replicate 4 5 \<and> pixel buf 3 1 1 = replicate 4 0"
proof -
  let ?img = "\<lparr>pic_width = 1, pic_height = 3, pic_data = replicate 12 5\<rparr>"
  let ?s = "\<lparr>scr_width = 3, scr_height = 2, scr_buf = replicate 24 0\<rparr>"
  obtain buf where c: "CopyImage ?img ?s = Some (?s\<lparr>scr_buf := buf\<rparr>)"
    and p: "\<forall>x y. x < 3 \<longrightarrow> pixel buf 3 x y = (let h = 3; H = 2 div 2; W = 3; t = (H - h) div 2; l = (W - 1) div 2 in
         if t \<le> y \<and> y < t + min h H \<and> l \<le> x \<and> x < l + min 1 W
         then pixel (replicate 12 5) 1 (x - l + (1 - W) div 2) (y - t + (h - H) div 2) else pixel (replicate 24 0) W x y)"
    using picture_centered [of ?img 1 ?s] by auto
  have "pixel (replicate 12 5) 1 0 1 = replicate 4 5" "pixel (replicate 24 0) 3 1 1 = replicate 4 0"
    by (rule nth_equalityI; simp add: pixel_def)+
  then have "pixel buf 3 1 0 = replicate 4 5" "pixel buf 3 1 1 = replicate 4 0"
    using p [THEN spec [of _ 1], THEN spec [of _ 0]] p [THEN spec [of _ 1], THEN spec [of _ 1]] by (simp_all add: Let_def)
  then show ?thesis using c by auto
qed

end
