(* ===== verification/Boot_Menu.thy ===== *)
theory Boot_Menu
  imports Boot_Script Boot_Screen
begin

text \<open>
  The choice and the start of an operating system in the boot loader \<open>boot-axf\<close>: \<open>bootos.c\<close> and \<open>bootmain.c\<close>.

  The keys are the list of the values that the first boot loader will give when it is asked for the key that
  is held (-1: none). A run that has used up this list is \<open>Waiting\<close>; a run with undefined behaviour, as an
  access outside an array, is \<open>Undefined\<close>. The menu that is on the screen is a list of its lines: number,
  text, and whether it is highlighted. The countdown, the debug output and the clock are left out. Power
  management, \<open>power.c\<close>, is the parameter \<open>charged\<close>, the result of \<open>check_power_status\<close>.
\<close>

section \<open>Runs\<close>

datatype 'a boot_run = Done 'a | Waiting | Undefined

section \<open>Keys\<close>

text \<open>The loop until a key is held that is not the last one; \<open>count\<close> is the number of polls to the next tick of the
  countdown. The inner option is \<^term>\<open>None\<close> when the time is over.\<close>

fun wait_key :: "int \<Rightarrow> int \<Rightarrow> nat \<Rightarrow> int list \<Rightarrow> (int option \<times> int list) option" where
  "wait_key old timeout cnt [] = None"
| "wait_key old timeout cnt (k # ks) =
     (if k = - 1 then
        if cnt = 1 then
          if timeout = 0 then Some (None, ks)
          else wait_key old (if timeout > 0 then timeout - 1 else timeout) 50 ks
        else wait_key old timeout (cnt - 1) ks
      else if k = old then wait_key old timeout cnt ks
      else Some (Some k, ks))"

text \<open>A key counts when it was read again five times: \<open>rep\<close> times so far.\<close>

fun settle_key :: "int \<Rightarrow> nat \<Rightarrow> int list \<Rightarrow> (int \<times> int list) option" where
  "settle_key old rep [] = (if rep \<ge> 5 then Some (old, []) else None)"
| "settle_key old rep (k # ks) =
     (if rep \<ge> 5 then Some (old, k # ks)
      else if k = - 1 then settle_key old rep ks
      else if k = old then settle_key old (rep + 1) ks
      else settle_key k 0 ks)"

text \<open>The key, or -1 when the time is over, and the new last key.\<close>

definition GetKeyVal :: "int \<Rightarrow> int \<Rightarrow> int list \<Rightarrow> (int \<times> int \<times> int list) option" where
  "GetKeyVal timeout old ks = do {
     (r, ks) \<leftarrow> wait_key old timeout 1 ks;
     (case r of
        None \<Rightarrow> Some (- 1, old, ks)
      | Some k \<Rightarrow> do { (k, ks) \<leftarrow> settle_key k 0 ks; Some (k, k, ks) })
   }"

lemma wait_key_less: "wait_key old timeout cnt ks = Some (r, ks') \<Longrightarrow> length ks' < length ks"
  by (induction old timeout cnt ks rule: wait_key.induct) (auto split: if_splits)

lemma settle_key_le: "settle_key old rep ks = Some (k, ks') \<Longrightarrow> length ks' \<le> length ks"
  by (induction old rep ks rule: settle_key.induct) (auto split: if_splits)

lemma GetKeyVal_less: "GetKeyVal timeout old ks = Some (k, old', ks') \<Longrightarrow> length ks' < length ks"
  by (auto simp: GetKeyVal_def Option.bind_eq_Some_conv split: option.splits dest!: wait_key_less settle_key_le)

section \<open>The menu\<close>

type_synonym shown = "(int \<times> string \<times> bool) list"

text \<open>The text of a field of characters.\<close>

definition field_text :: "string \<Rightarrow> string option" where
  "field_text f = (if NUL \<in> set f then Some (cstring f) else None)"

definition PrintMenuItem :: "int \<Rightarrow> string \<Rightarrow> int \<Rightarrow> int \<times> string \<times> bool" where
  "PrintMenuItem lineNo item highlightLine =
     (lineNo, ''  '' @ take 25 item @ replicate (25 - length item) CHR '' '', lineNo = highlightLine)"

definition subMenuItems :: "string list" where
  "subMenuItems = [''boot fastboot'', ''boot recovery'', ''power off'', ''go fel'', ''< back'']"

fun os_items :: "string list \<Rightarrow> nat list \<Rightarrow> int \<Rightarrow> shown option" where
  "os_items names [] cur = Some []"
| "os_items names (i # is) cur = do {
     f \<leftarrow> arr_get names i;
     t \<leftarrow> field_text f;
     ls \<leftarrow> os_items names is cur;
     Some (PrintMenuItem (int i) t cur # ls)
   }"

definition last_item :: "BootIni \<Rightarrow> bool \<Rightarrow> int" where
  "last_item ini sub = (if sub then int (length subMenuItems) - 1 else sint (osCount ini))"

definition draw_menu :: "BootIni \<Rightarrow> bool \<Rightarrow> int \<Rightarrow> shown option" where
  "draw_menu ini sub cur =
     (if sub then Some (map (\<lambda>i. PrintMenuItem (int i) (subMenuItems ! i) cur) [0..<length subMenuItems])
      else do {
        ls \<leftarrow> os_items (osNames ini) [1..<nat (sint (osCount ini))] cur;
        Some (PrintMenuItem 0 ''android'' cur # ls @ [PrintMenuItem (last_item ini sub) ''other options >'' cur])
      })"

record choice =
  ch_result :: int
  ch_ini :: BootIni
  ch_old :: int
  ch_keys :: "int list"
  ch_shown :: shown

text \<open>\<open>ch_shown\<close> is the menu on the screen when the choice is made.\<close>

function select_loop :: "BootIni \<Rightarrow> bool \<Rightarrow> int \<Rightarrow> int \<Rightarrow> int \<Rightarrow> int list \<Rightarrow> choice boot_run" where
  "select_loop ini sub cur timeout old ks =
     (case draw_menu ini sub cur of
        None \<Rightarrow> Undefined
      | Some sh \<Rightarrow>
          (case GetKeyVal timeout old ks of
             None \<Rightarrow> Waiting
           | Some (key, old, ks) \<Rightarrow>
               if key = 43 then select_loop ini sub (if cur = 0 then last_item ini sub else cur - 1) (- 1) old ks
               else if key = 30 then select_loop ini sub (if cur = last_item ini sub then 0 else cur + 1) (- 1) old ks
               else if key = - 1 \<or> key = 37 then
                 if cur = last_item ini sub then select_loop ini (\<not> sub) 0 (- 1) old ks
                 else Done \<lparr>ch_result = (if sub then - cur - 1 else cur),
                   ch_ini = ini\<lparr>startOSNum := of_int cur, bi_timeout := - 1\<rparr>, ch_old = old, ch_keys = ks, ch_shown = sh\<rparr>
               else select_loop ini sub cur (- 1) old ks))"
  by pat_completeness auto
termination
  by (relation "measure (\<lambda>(ini, sub, cur, timeout, old, ks). length ks)") (auto dest!: GetKeyVal_less)

declare select_loop.simps [simp del]

definition SelectBoot :: "BootIni \<Rightarrow> int \<Rightarrow> int list \<Rightarrow> choice boot_run" where
  "SelectBoot ini old ks = select_loop ini False (sint (startOSNum ini)) (sint (bi_timeout ini)) old ks"

section \<open>The misc partition\<close>

definition chars :: "u8 list \<Rightarrow> string" where
  "chars bs = map (\<lambda>b. char_of (unat b)) bs"

fun find_misc :: "u8 list \<Rightarrow> nat \<Rightarrow> nat \<Rightarrow> u32 option option" where
  "find_misc mbr partNo 0 = Some None"
| "find_misc mbr partNo (Suc k) = do {
     eq \<leftarrow> str_eq (''misc'' @ [NUL]) (chars (drop (20 + 64 * partNo + 28) mbr));
     if eq then Some (Some (le32_at mbr (20 + 64 * partNo + 4))) else find_misc mbr (partNo + 1) k
   }"

definition WriteMiscPart :: "string \<Rightarrow> (u32 \<Rightarrow> u8 list) \<Rightarrow> (u32 \<Rightarrow> u8 list) option" where
  "WriteMiscPart val disk =
     (let mbr = disk 0 @ disk 1 in do {
        lo \<leftarrow> arr_get mbr 18;
        hi \<leftarrow> arr_get mbr 19;
        misc \<leftarrow> find_misc mbr 0 (unat (mk16 lo hi));
        (case misc of
           None \<Rightarrow> Some disk
         | Some sect \<Rightarrow> do {
             eq \<leftarrow> str_eq (chars (disk sect)) (val @ [NUL]);
             if eq then Some disk
             else do {
               buf \<leftarrow> mem_put (disk sect) 0 (replicate 32 0);
               buf \<leftarrow> mem_put buf 0 (map char_byte (val @ [NUL]));
               Some (disk(sect := buf))
             }
           })
      })"

section \<open>Loading\<close>

text \<open>What the first boot loader gives: files, memory of a size, and the parameters of the program.\<close>

record firmware =
  fw_files :: "string \<Rightarrow> u8 list option"
  fw_room :: "int \<Rightarrow> bool"
  fw_memtop :: u32

text \<open>\<open>memcpy\<close> of a part of memory that does not overlap its destination.\<close>

definition copy_memory :: "u32 \<Rightarrow> u32 \<Rightarrow> u32 \<Rightarrow> memory \<Rightarrow> memory option" where
  "copy_memory dest src n mem =
     (if dest = src then Some mem
      else if dest - src < n \<or> src - dest < n then None
      else Some (store_bytes dest (load_bytes src (unat n) mem) mem))"

fun load_images :: "(string \<Rightarrow> u8 list option) \<Rightarrow> OSImageScript \<Rightarrow> memory \<Rightarrow> nat \<Rightarrow> nat \<Rightarrow> (bool \<times> OSImageScript \<times> memory) option" where
  "load_images files sc mem imgNo 0 = Some (True, sc, mem)"
| "load_images files sc mem imgNo (Suc k) = do {
     im \<leftarrow> arr_get (images sc) imgNo;
     if im_baseAddr im = 0 then Some (False, sc, mem)
     else do {
       name \<leftarrow> field_text (im_name im);
       (case files name of
          None \<Rightarrow> Some (False, sc, mem)
        | Some f \<Rightarrow>
            if int (length f) > sint (im_maxSize im) then Some (False, sc, mem)
            else load_images files (sc\<lparr>images := (images sc)[imgNo := im\<lparr>im_fileLen := of_nat (length f)\<rparr>]\<rparr>)
              (store_bytes (im_baseAddr im) f mem) (imgNo + 1) k)
     }
   }"

text \<open>\<open>fnL42801894\<close>: the contents of \<open>script.bin\<close>, that the first boot loader has left at a fixed address, follows the
  images. The inner option is the two addresses, \<^term>\<open>None\<close> for the result -1.\<close>

definition load_os ::
  "(string \<Rightarrow> u8 list option) \<Rightarrow> OSImageScript \<Rightarrow> memory \<Rightarrow> ((u32 \<times> u32) option \<times> OSImageScript \<times> memory) option" where
  "load_os files sc mem = do {
     (ok, sc, mem) \<leftarrow> load_images files sc mem 0 (nat (sint (segmentSectionCount sc)));
     if \<not> ok then Some (None, sc, mem)
     else do {
       (sc, mem) \<leftarrow> (if is_baseAddr sc = 0 then Some (sc, mem)
         else do {
           mem \<leftarrow> copy_memory (is_baseAddr sc) 0x42F00000 (is_maxSize sc) mem;
           Some (sc\<lparr>param776 := is_maxSize sc\<rparr>, mem)
         });
       im0 \<leftarrow> arr_get (images sc) 0;
       im1 \<leftarrow> arr_get (images sc) 1;
       Some (Some (im_baseAddr im0, im_baseAddr im1), sc, mem)
     }
   }"

record os_state =
  os_mem :: memory
  os_screen :: screen
  os_disk :: "u32 \<Rightarrow> u8 list"
  os_ini :: BootIni
  os_key :: int

definition ShowLogo :: "firmware \<Rightarrow> OSImageScript \<Rightarrow> memory \<Rightarrow> screen \<Rightarrow> (memory \<times> screen) option" where
  "ShowLogo fw sc mem scr =
     (if logoShow sc = 0 then Some (mem, scr)
      else do {
        name \<leftarrow> field_text (logoFileName sc);
        ShowPictureEx (fw_files fw) (fw_room fw) name (logoAddress sc) mem scr
      })"

definition PreBootOS ::
  "firmware \<Rightarrow> OSImageScript \<Rightarrow> os_state \<Rightarrow> ((u32 \<times> u32) option \<times> u32 \<times> os_state) option" where
  "PreBootOS fw sc st = do {
     (mem, scr) \<leftarrow> ShowLogo fw sc (os_mem st) (os_screen st);
     (r, sc', mem) \<leftarrow> load_os (fw_files fw) sc mem;
     Some (r, logoOff sc, st\<lparr>os_mem := mem, os_screen := scr\<rparr>)
   }"

section \<open>The choice until a system is loaded\<close>

definition empty_image :: OSImage where
  "empty_image = \<lparr>im_name = replicate 32 NUL, im_maxSize = 0, im_fileLen = 0, im_baseAddr = 0\<rparr>"

definition empty_script :: OSImageScript where
  "empty_script = \<lparr>startMode = 0, images = replicate 16 empty_image, is_maxSize = 0, param776 = 0, is_baseAddr = 0,
     segmentSectionCount = 0, logoFileName = replicate 32 NUL, logoShow = 0, logoAddress = 0, logoOff = 0\<rparr>"

text \<open>\<open>wlibc_sprintf\<close> puts a carriage return before each line feed; the buffer has 100 characters.\<close>

definition cpy_unix2dos :: "string \<Rightarrow> string" where
  "cpy_unix2dos t = concat (map (\<lambda>c. if c = LF then [CR, LF] else [c]) t)"

definition os_path :: "string \<Rightarrow> string option" where
  "os_path name =
     (let n = cpy_unix2dos name; p = ''c:'' @ [CHR 0x5C] @ n @ [CHR 0x5C] @ n @ ''.ini'' in
      if length p < 100 then Some p else None)"

definition misc_choice :: "int \<Rightarrow> (u32 \<Rightarrow> u8 list) \<Rightarrow> (int \<times> (u32 \<Rightarrow> u8 list)) option" where
  "misc_choice req disk =
     (if req = - 1 then map_option (Pair 0) (WriteMiscPart ''boot-fastboot'' disk)
      else if req = - 2 then map_option (Pair 0) (WriteMiscPart ''boot-recovery'' disk)
      else if req \<ge> 0 then map_option (Pair req) (WriteMiscPart [] disk)
      else Some (req, disk))"

definition file_text :: "firmware \<Rightarrow> string \<Rightarrow> string option" where
  "file_text fw name = map_option chars (fw_files fw name)"

text \<open>One chosen system: the outer option is undefined behaviour, the inner one the addresses.\<close>

definition try_os :: "firmware \<Rightarrow> int \<Rightarrow> os_state \<Rightarrow> ((u32 \<times> u32) option \<times> u32 option \<times> os_state) option" where
  "try_os fw req st = do {
     f \<leftarrow> arr_get (osNames (os_ini st)) (nat req);
     name \<leftarrow> field_text f;
     path \<leftarrow> os_path name;
     (res, sc) \<leftarrow> script_patch (file_text fw) (\<lambda>n. fw_room fw (int n)) (parser_script_os_img (fw_memtop fw)) (Some path) empty_script;
     if res < 0 then Some (None, None, st)
     else do { (r, off, st) \<leftarrow> PreBootOS fw sc st; Some (r, Some off, st) }
   }"

lemma select_loop_less: "select_loop ini sub cur timeout old ks = Done c \<Longrightarrow> length (ch_keys c) < length ks"
proof (induction ini sub cur timeout old ks rule: select_loop.induct)
  case (1 ini sub cur timeout old ks)
  obtain sh key old' ks' where g: "draw_menu ini sub cur = Some sh" "GetKeyVal timeout old ks = Some (key, old', ks')"
    using "1.prems" by (subst (asm) select_loop.simps) (auto split: option.splits)
  have l: "length ks' < length ks" using GetKeyVal_less [OF g(2)] .
  show ?case
    using "1.prems" g l "1.IH" [OF g(1) g(2) refl refl]
    by (subst (asm) select_loop.simps) (fastforce split: if_splits)
qed

datatype os_result = Loaded u32 u32 u32 | Ended int

text \<open>\<open>BootOS_detect_os_type\<close>: the addresses of the first and the second image and the value for the logo, or the
  result that ends the program.\<close>

function detect_os :: "firmware \<Rightarrow> u32 \<Rightarrow> os_state \<Rightarrow> int list \<Rightarrow> (os_result \<times> os_state \<times> int list) boot_run" where
  "detect_os fw off st ks =
     (case SelectBoot (os_ini st) (os_key st) ks of
        Waiting \<Rightarrow> Waiting
      | Undefined \<Rightarrow> Undefined
      | Done c \<Rightarrow>
          (case misc_choice (ch_result c) (os_disk st) of
             None \<Rightarrow> Undefined
           | Some (req, disk) \<Rightarrow>
               if req < 0 then Done (Ended (req + 2), st\<lparr>os_disk := disk, os_ini := ch_ini c, os_key := ch_old c\<rparr>, ch_keys c)
               else (case try_os fw req (st\<lparr>os_disk := disk, os_ini := ch_ini c, os_key := ch_old c\<rparr>) of
                  None \<Rightarrow> Undefined
                | Some (Some (a, b), off', st) \<Rightarrow> Done (Loaded a b (case off' of None \<Rightarrow> off | Some x \<Rightarrow> x), st, ch_keys c)
                | Some (None, off', st) \<Rightarrow> detect_os fw (case off' of None \<Rightarrow> off | Some x \<Rightarrow> x) st (ch_keys c))))"
  by pat_completeness auto
termination
  by (relation "measure (\<lambda>(fw, off, st, ks). length ks)") (auto simp: SelectBoot_def dest!: select_loop_less)

declare detect_os.simps [simp del]

section \<open>The program\<close>

text \<open>How the program ends: it starts the system at an address, with the address of its second image, goes to the
  loader of the processor, switches off, or returns.\<close>

datatype boot_end = Jump u32 u32 | GoFel | PowerOff | Returned int

definition boot_ini_path :: string where
  "boot_ini_path = ''c:'' @ [CHR 0x5C] @ ''boot.ini''"

text \<open>\<open>para\<close> tells whether the first boot loader gives its parameters.\<close>

definition BootMain :: "firmware \<Rightarrow> bool \<Rightarrow> int \<Rightarrow> os_state \<Rightarrow> int list \<Rightarrow> (boot_end \<times> os_state) boot_run" where
  "BootMain fw para charged st ks =
     (if \<not> para then Done (PowerOff, st)
      else if \<not> fw_room fw 1368 then Done (Returned (- 1), st)
      else case script_patch (file_text fw) (\<lambda>n. fw_room fw (int n)) parser_script_os_sel (Some boot_ini_path) zero_ini of
        None \<Rightarrow> Undefined
      | Some (res, ini) \<Rightarrow>
          if res < 0 then Done (PowerOff, st)
          else if charged \<noteq> 0 then Done (PowerOff, st)
          else case detect_os fw 0 (st\<lparr>os_ini := ini, os_key := - 1\<rparr>) ks of
            Waiting \<Rightarrow> Waiting
          | Undefined \<Rightarrow> Undefined
          | Done (Loaded a b off, st, ks) \<Rightarrow> Done (Jump a b, st)
          | Done (Ended s, st, ks) \<Rightarrow> Done (if s = - 2 then GoFel else PowerOff, st))"

end
