(* ===== verification/Script_Props.thy ===== *)
theory Script_Props
  imports Boot_Script
begin

text \<open>
  What the parser of \<open>boot.ini\<close> and of the files of the operating systems does: on a text made of lines it works
  line by line; a configuration that is written out is read back; and the cases in which it goes wrong.
\<close>

section \<open>Texts made of lines\<close>

datatype ini_line = Section string | Param string string | Comment string

fun line_body :: "ini_line \<Rightarrow> string" where
  "line_body (Section n) = ''['' @ n @ '']''"
| "line_body (Param a b) = a @ ''='' @ b"
| "line_body (Comment t) = '';'' @ t"

fun line_kind :: "ini_line \<Rightarrow> line_type" where
  "line_kind (Section n) = LTYPE_SECTION"
| "line_kind (Param a b) = LTYPE_PARAM"
| "line_kind (Comment t) = LTYPE_COMMENT"

definition line_text :: "ini_line \<Rightarrow> string" where
  "line_text l = line_body l @ [CR, LF]"

definition ini_text :: "ini_line list \<Rightarrow> string" where
  "ini_text ls = concat (map line_text ls)"

definition unblank :: "string \<Rightarrow> string" where
  "unblank t = filter (\<lambda>c. \<not> blank c) t"

fun good_content :: "ini_line \<Rightarrow> bool" where
  "good_content (Section n) \<longleftrightarrow> CHR '']'' \<notin> set n \<and> NUL \<notin> set n \<and> length n < 32"
| "good_content (Param a b) \<longleftrightarrow> a \<noteq> [] \<and> line_type_of (hd a) = LTYPE_PARAM \<and> CHR ''='' \<notin> set a \<and> NUL \<notin> set a \<and>
     length (unblank a) < 31 \<and> CR \<notin> set b \<and> NUL \<notin> set b \<and> length (unblank b) < 127"
| "good_content (Comment t) \<longleftrightarrow> True"

definition good_line :: "ini_line \<Rightarrow> bool" where
  "good_line l \<longleftrightarrow> good_content l \<and> LF \<notin> set (line_body l) \<and> length (line_body l) < 511"

lemma line_body_nonempty: "good_line l \<Longrightarrow> line_body l \<noteq> [] \<and> line_type_of (hd (line_body l)) = line_kind l"
  by (cases l) (auto simp: good_line_def line_type_of_def)

lemma line_end_found:
  assumes "txt = pre @ b @ CR # LF # suf" "LF \<notin> set b" "length b < 511" "1 \<le> n" "n \<le> length b + 1"
    "most = length txt - length pre - 1"
  shows "line_end txt (length pre) most n = Some (length b + 2)"
  using assms
proof (induction "length b + 1 - n" arbitrary: n)
  case 0
  then have n: "n = length b + 1" by simp
  have "txt ! (length pre + n) = LF" using 0(2) n by (simp add: nth_append)
  moreover have "length pre + n < length txt" using 0(2) n by simp
  ultimately show ?case using n by (subst line_end.simps) simp
next
  case (Suc k)
  then have n: "n \<le> length b" by simp
  have "txt ! (length pre + n) = (b @ [CR]) ! n" using Suc.prems(1) n by (auto simp: nth_append)
  also have "\<dots> \<noteq> LF" using Suc.prems(2) n by (auto simp: nth_append dest!: nth_mem)
  finally have "txt ! (length pre + n) \<noteq> LF" .
  moreover have "length pre + n < length txt" "n < most" using Suc.prems n by simp_all
  moreover have "line_end txt (length pre) most (n + 1) = Some (length b + 2)"
    by (rule Suc.hyps(1)) (use Suc.hyps(2) Suc.prems n in simp_all)
  ultimately show ?case using Suc.prems(3) n by (subst line_end.simps) simp
qed

lemma GetScriptLine_line:
  assumes "txt = pre @ line_text l @ suf" "good_line l"
  shows "GetScriptLine txt (length pre) = Some (line_kind l, length (line_text l))"
proof -
  note b = line_body_nonempty [OF assms(2)]
  have t: "txt = pre @ line_body l @ CR # LF # suf" using assms(1) by (simp add: line_text_def)
  have "line_end txt (length pre) (length txt - length pre - 1) 1 = Some (length (line_body l) + 2)"
    by (rule line_end_found [OF t]) (use assms(2) in \<open>simp_all add: good_line_def\<close>)
  moreover have "txt ! length pre = hd (line_body l)" using b by (simp add: t nth_append hd_conv_nth)
  ultimately show ?thesis using b by (simp add: GetScriptLine_def line_text_def t)
qed

section \<open>Names and values\<close>

lemma cstring_full: "NUL \<notin> set t \<Longrightarrow> cstring t = t"
  unfolding cstring_def by (rule takeWhile_eq_all_conv [THEN iffD2]) auto

lemma section_chars_found: "CHR '']'' \<notin> set n \<Longrightarrow> length n \<le> k \<Longrightarrow> section_chars (n @ CHR '']'' # suf) k = Some n"
  by (induction n arbitrary: k) auto

lemma GetSectionName_line:
  assumes "txt = pre @ line_text (Section n) @ suf" "good_line (Section n)"
  shows "GetSectionName txt (length pre) = Some n"
proof -
  have g: "CHR '']'' \<notin> set n" "NUL \<notin> set n" "length n < 32" using assms(2) by (simp_all add: good_line_def)
  have "drop (length pre + 1) txt = n @ CHR '']'' # CR # LF # suf" by (simp add: assms(1) line_text_def)
  then show ?thesis using g by (simp add: GetSectionName_def section_chars_found cstring_full)
qed

lemma collect_found:
  "e \<notin> set t \<Longrightarrow> length (unblank t) < k \<Longrightarrow> collect e k (t @ e # suf) = Some (unblank t, e # suf)"
proof (induction t arbitrary: k)
  case (Cons c t)
  show ?case
  proof (cases "blank c")
    case True
    then show ?thesis using Cons by (auto simp: unblank_def)
  next
    case False
    then have "1 < k" "length (unblank t) < k - 1" using Cons.prems by (auto simp: unblank_def)
    then show ?thesis using Cons False by (auto simp: unblank_def)
  qed
qed (simp add: unblank_def)

lemma unblank_NUL: "NUL \<notin> set t \<Longrightarrow> NUL \<notin> set (unblank t)"
  by (auto simp: unblank_def)

lemma GetParam_line:
  assumes "txt = pre @ line_text (Param a b) @ suf" "good_line (Param a b)"
  shows "GetParam txt (length pre) = Some (Some (unblank a, unblank b))"
proof -
  have g: "CHR ''='' \<notin> set a" "NUL \<notin> set a" "length (unblank a) < 31" "CR \<notin> set b" "NUL \<notin> set b" "length (unblank b) < 127"
    using assms(2) by (simp_all add: good_line_def)
  have d: "drop (length pre) txt = a @ CHR ''='' # b @ CR # LF # suf" by (simp add: assms(1) line_text_def)
  show ?thesis
    using g collect_found [OF g(1,3), of "b @ CR # LF # suf"] collect_found [OF g(4,6), of "LF # suf"]
    by (simp add: GetParam_def d unblank_NUL cstring_full)
qed

section \<open>Line by line\<close>

text \<open>What the lines say one after the other: \<open>act\<close> carries one out, \<open>finish\<close> is the end of the text.\<close>

fun ini_run :: "(ini_line \<Rightarrow> 'v \<Rightarrow> ('r + 'v) option) \<Rightarrow> ('v \<Rightarrow> 'r option) \<Rightarrow> ini_line list \<Rightarrow> 'v \<Rightarrow> 'r option" where
  "ini_run act finish [] v = finish v"
| "ini_run act finish (l # ls) v = do {
     r \<leftarrow> act l v;
     case r of Inl e \<Rightarrow> Some e | Inr v \<Rightarrow> ini_run act finish ls v
   }"

text \<open>The contract of a parser of such texts: its loop \<open>loop\<close> takes a line with \<open>GetScriptLine\<close>, ends with \<open>stop\<close> when it is
  too long, and handles it with \<open>handle\<close>, which does on a well-formed line what \<open>act\<close> says.\<close>

locale line_parser =
  fixes loop :: "string \<Rightarrow> nat \<Rightarrow> 'v \<Rightarrow> 'r option"
    and handle :: "string \<Rightarrow> nat \<Rightarrow> line_type \<Rightarrow> 'v \<Rightarrow> ('r + 'v) option"
    and stop :: "'v \<Rightarrow> 'r"
    and act :: "ini_line \<Rightarrow> 'v \<Rightarrow> ('r + 'v) option"
    and finish :: "'v \<Rightarrow> 'r option"
  assumes loop_step: "loop s pos v =
      (if pos \<ge> length s then finish v
       else case GetScriptLine s pos of
         None \<Rightarrow> None
       | Some (ty, n) \<Rightarrow>
           if n = 0 then Some (stop v)
           else case handle s pos ty v of
             None \<Rightarrow> None
           | Some (Inl r) \<Rightarrow> Some r
           | Some (Inr v) \<Rightarrow> loop s (pos + n) v)"
    and handle_line: "s = pre @ line_text l @ suf \<Longrightarrow> good_line l \<Longrightarrow> handle s (length pre) (line_kind l) v = act l v"
begin

lemma loop_run:
  assumes "s = pre @ ini_text ls" "\<forall>l \<in> set ls. good_line l"
  shows "loop s (length pre) v = ini_run act finish ls v"
  using assms
proof (induction ls arbitrary: pre v)
  case Nil
  then show ?case by (subst loop_step) (simp add: ini_text_def)
next
  case (Cons l ls)
  have t: "s = pre @ line_text l @ ini_text ls" and t2: "s = (pre @ line_text l) @ ini_text ls"
    using Cons.prems(1) by (simp_all add: ini_text_def)
  have l: "good_line l" using Cons.prems(2) by simp
  have IH: "loop s (length pre + length (line_text l)) v' = ini_run act finish ls v'" for v'
    using Cons.IH [OF t2] Cons.prems(2) by simp
  have "length pre < length s" "length (line_text l) \<noteq> 0" by (simp_all add: t line_text_def)
  then show ?case
    by (subst loop_step)
      (simp add: GetScriptLine_line [OF t l] handle_line [OF t l] IH Option.bind_def split: option.splits sum.splits)
qed

lemma loop_text: "\<forall>l \<in> set ls. good_line l \<Longrightarrow> loop (ini_text ls) 0 v = ini_run act finish ls v"
  using loop_run [of "ini_text ls" "[]" ls v] by simp

end

section \<open>\<open>boot.ini\<close>\<close>

definition sel_param :: "string \<Rightarrow> string \<Rightarrow> sel_vars \<Rightarrow> (int \<times> BootIni + sel_vars) option" where
  "sel_param name val v =
     (case ParseParamVal val (sv_sp v) of
        None \<Rightarrow> Some (Inl (- 1, sv_ini v))
      | Some (_, sp) \<Rightarrow> do {
          let v = v\<lparr>sv_failed := False, sv_sp := sp\<rparr>;
          v \<leftarrow> (case isSystemSect v of
            None \<Rightarrow> Some v
          | Some True \<Rightarrow> sel_system_param name val v
          | Some False \<Rightarrow> sel_os_param name val v);
          Some (Inr v)
        })"

fun sel_action :: "ini_line \<Rightarrow> sel_vars \<Rightarrow> (int \<times> BootIni + sel_vars) option" where
  "sel_action (Section n) v = do { r \<leftarrow> sel_section n v; Some (case r of None \<Rightarrow> Inl (- 1, sv_ini v) | Some v \<Rightarrow> Inr v) }"
| "sel_action (Param a b) v = sel_param (unblank a) (unblank b) v"
| "sel_action (Comment t) v = Some (Inr v)"

abbreviation sel_run :: "ini_line list \<Rightarrow> sel_vars \<Rightarrow> (int \<times> BootIni) option" where
  "sel_run \<equiv> ini_run sel_action sel_end"

lemma sel_line_action:
  assumes "txt = pre @ line_text l @ suf" "good_line l"
  shows "sel_line txt (length pre) (line_kind l) v = sel_action l v"
proof (cases l)
  case (Section n)
  then show ?thesis using GetSectionName_line [of "txt" pre n suf] assms by (simp add: sel_line_def)
next
  case (Param a b)
  then show ?thesis using GetParam_line [of "txt" pre a b suf] assms by (simp add: sel_line_def sel_param_def)
qed (simp add: sel_line_def)

interpretation sel: line_parser sel_lines sel_line "\<lambda>v. (sel_result v, sv_ini v)" sel_action sel_end
  by unfold_locales (subst sel_lines.simps, rule refl, rule sel_line_action)

text \<open>\<open>boot.ini\<close> is read line by line: on a text made of sections, parameters and comments, each line ended by
  a carriage return and a line feed, the parser does what the lines say one after the other, with the blanks of
  names and values left out.\<close>

theorem boot_ini_by_lines:
  assumes "\<forall>l \<in> set ls. good_line l"
  shows "parser_script_os_sel (ini_text ls) ini = sel_run ls
    \<lparr>sv_failed = True, isSystemSect = None, curOS = 0, sv_sp = (None, None, None), sv_ini = ini\<rparr>"
  using sel.loop_text [OF assms] by (simp add: parser_script_os_sel_def)

section \<open>The file of a system, line by line\<close>

definition img_par :: "u32 \<Rightarrow> string \<Rightarrow> string \<Rightarrow> img_vars \<Rightarrow> (int \<times> OSImageScript + img_vars) option" where
  "img_par mtop name val v =
     (case ParseParamVal val (iv_sp v) of
        None \<Rightarrow> Some (Inl (- 1, iv_script v))
      | Some (_, sp) \<Rightarrow> do {
          v \<leftarrow> img_param mtop name val (v\<lparr>iv_failed := False, iv_sp := sp\<rparr>);
          Some (Inr v)
        })"

fun img_action :: "u32 \<Rightarrow> ini_line \<Rightarrow> img_vars \<Rightarrow> (int \<times> OSImageScript + img_vars) option" where
  "img_action mtop (Section n) v = Some (Inr (img_section_line n v))"
| "img_action mtop (Param a b) v = img_par mtop (unblank a) (unblank b) v"
| "img_action mtop (Comment t) v = Some (Inr v)"

definition img_finish :: "img_vars \<Rightarrow> (int \<times> OSImageScript) option" where
  "img_finish v = Some (img_result v, (iv_script v)\<lparr>segmentSectionCount := of_nat (segments v)\<rparr>)"

abbreviation img_run :: "u32 \<Rightarrow> ini_line list \<Rightarrow> img_vars \<Rightarrow> (int \<times> OSImageScript) option" where
  "img_run mtop \<equiv> ini_run (img_action mtop) img_finish"

lemma img_line_action:
  assumes "txt = pre @ line_text l @ suf" "good_line l"
  shows "img_line mtop txt (length pre) (line_kind l) v = img_action mtop l v"
proof (cases l)
  case (Section n)
  then show ?thesis using GetSectionName_line [of "txt" pre n suf] assms by (simp add: img_line_def)
next
  case (Param a b)
  then show ?thesis using GetParam_line [of "txt" pre a b suf] assms by (simp add: img_line_def img_par_def)
qed (simp add: img_line_def)

interpretation img: line_parser "img_lines mtop" "img_line mtop" "\<lambda>v. (img_result v, iv_script v)" "img_action mtop" img_finish for mtop
  by unfold_locales (subst img_lines.simps, simp only: img_finish_def, rule img_line_action)

section \<open>Numbers\<close>

definition digit_char :: "nat \<Rightarrow> char" where
  "digit_char d = char_of (48 + d)"

fun show_dec :: "nat \<Rightarrow> string" where
  "show_dec n = (if n < 10 then [digit_char n] else show_dec (n div 10) @ [digit_char (n mod 10)])"

declare show_dec.simps [simp del]

lemma ascii_digit: "d < 10 \<Longrightarrow> ascii (digit_char d) = 48 + d"
  by (simp add: ascii_def digit_char_def)

lemma dec_digit_char [simp]: "d < 10 \<Longrightarrow> dec_digit (digit_char d) = Some d"
  by (simp add: dec_digit_def ascii_digit)

lemma number_loop_app:
  "number_loop dig base v s = Some (w, []) \<Longrightarrow> number_loop dig base v (s @ t) = number_loop dig base w t"
  by (induction s arbitrary: v) (auto split: option.splits if_splits)

lemma number_loop_show: "number_loop dec_digit 10 0 (show_dec n) = Some (of_nat n, [])"
proof (induction n rule: show_dec.induct)
  case (1 n)
  show ?case
  proof (cases "n < 10")
    case True
    then show ?thesis by (subst show_dec.simps) simp
  next
    case False
    have "(of_nat (n mod 10) + 10 * of_nat (n div 10) :: u32) = of_nat (n mod 10 + 10 * (n div 10))" by (simp only: of_nat_add of_nat_mult of_nat_numeral)
    also have "\<dots> = of_nat n" by (simp only: mod_mult_div_eq)
    finally have "(of_nat (n mod 10) + 10 * of_nat (n div 10) :: u32) = of_nat n" .
    then show ?thesis using False number_loop_app [OF "1.IH" [OF False]] by (subst show_dec.simps) simp
  qed
qed

lemma show_dec_chars: "c \<in> set (show_dec n) \<Longrightarrow> \<exists>d < 10. c = digit_char d"
proof (induction n rule: show_dec.induct)
  case (1 n)
  show ?case
  proof (cases "n < 10")
    case True
    then have "c = digit_char n" using "1.prems" by (subst (asm) show_dec.simps) simp
    then show ?thesis using True by blast
  next
    case False
    then have "c \<in> set (show_dec (n div 10)) \<or> c = digit_char (n mod 10)"
      using "1.prems" by (subst (asm) show_dec.simps) auto
    moreover have "n mod 10 < 10" by simp
    ultimately show ?thesis using "1.IH" [OF False] by blast
  qed
qed

lemma show_dec_nonempty: "show_dec n \<noteq> []"
  by (subst show_dec.simps) simp

lemma digit_char_other: "d < 10 \<Longrightarrow> ascii c < 48 \<or> 57 < ascii c \<Longrightarrow> digit_char d \<noteq> c"
  using ascii_digit [of d] by auto

lemma show_dec_number: "number_type_of (show_dec n) = Decimal (show_dec n) \<and> char_at (show_dec n) 0 \<noteq> CHR ''-''"
proof -
  have dig: "\<exists>d < 10. char_at (show_dec n) i = digit_char d" if "i < length (show_dec n)" for i
    using show_dec_chars [of "show_dec n ! i" n] that by (simp add: char_at_def)
  obtain d where d: "d < 10" "char_at (show_dec n) 0 = digit_char d" using dig [of 0] show_dec_nonempty by auto
  have x: "\<not> is_x (char_at (show_dec n) 1)"
  proof (cases "1 < length (show_dec n)")
    case True
    then obtain e where "e < 10" "char_at (show_dec n) 1 = digit_char e" using dig by blast
    moreover have "digit_char e \<noteq> CHR ''x''" "digit_char e \<noteq> CHR ''X''"
      by (rule digit_char_other; simp add: \<open>e < 10\<close> ascii_def)+
    ultimately show ?thesis by (simp add: is_x_def)
  qed (simp add: char_at_def is_x_def)
  have "digit_char d \<noteq> CHR ''-''" by (rule digit_char_other; simp add: d ascii_def)
  then show ?thesis using d x by (simp add: number_type_of_def)
qed

lemma show_dec_plain:
  assumes "ascii c < 48 \<or> 57 < ascii c"
  shows "c \<notin> set (show_dec n)"
  using show_dec_chars digit_char_other assms by metis

lemma show_dec_unblank: "unblank (show_dec n) = show_dec n"
proof -
  have "CHR '' '' \<notin> set (show_dec n)" "TAB \<notin> set (show_dec n)" by (rule show_dec_plain; simp add: ascii_def)+
  then show ?thesis by (auto simp: unblank_def blank_def filter_id_conv)
qed

lemma ParseParamVal_dec: "ParseParamVal (show_dec n) sp = Some (Number, Some (of_nat n), Some 1, Some 1)"
  using show_dec_number [of n] number_loop_show [of n]
  by (simp add: ParseParamVal_def parsed_number_def char_at_def)

section \<open>A configuration written and read\<close>

text \<open>The systems, the one to start, and three numbers.\<close>

record boot_config =
  cf_start :: string
  cf_timeout :: nat
  cf_device :: nat
  cf_mode :: nat
  cf_systems :: "string list"

definition config_lines :: "boot_config \<Rightarrow> ini_line list" where
  "config_lines c = [Section ''system'', Param ''start_os_name '' ('' '' @ cf_start c),
      Param ''timeout '' ('' '' @ show_dec (cf_timeout c)), Param ''display_device'' (show_dec (cf_device c)),
      Param ''display_mode '' ('' '' @ show_dec (cf_mode c))]
    @ map Section (cf_systems c)"

definition field32 :: "string \<Rightarrow> string" where
  "field32 t = t @ replicate (32 - length t) NUL"

lemma empty_field_eq: "empty_field = field32 []"
  by (simp add: empty_field_def field32_def)

definition config_ini :: "boot_config \<Rightarrow> nat \<Rightarrow> BootIni" where
  "config_ini c i = zero_ini\<lparr>osCount := of_nat (length (cf_systems c)),
     osNames := map field32 (cf_systems c) @ replicate (8 - length (cf_systems c)) (field32 []),
     startOSName := field32 (cf_start c), startOSNum := of_nat i, bi_timeout := of_nat (cf_timeout c),
     displayDevice := of_nat (cf_device c), displayMode := of_nat (cf_mode c)\<rparr>"

definition plain_name :: "string \<Rightarrow> bool" where
  "plain_name t \<longleftrightarrow> length t < 32 \<and> set t \<inter> {CHR '']'', NUL, CR, LF, CHR '' '', TAB} = {}"

text \<open>A name that fits its field.\<close>

definition c_name :: "string \<Rightarrow> bool" where
  "c_name t \<longleftrightarrow> length t < 32 \<and> NUL \<notin> set t"

lemma plain_c_name: "plain_name t \<Longrightarrow> c_name t"
  by (simp add: plain_name_def c_name_def)

definition good_config :: "boot_config \<Rightarrow> bool" where
  "good_config c \<longleftrightarrow> plain_name (cf_start c) \<and> number_type_of (cf_start c) = Not_a_number \<and> length (cf_systems c) \<le> 8
     \<and> (\<forall>t \<in> set (cf_systems c). plain_name t \<and> t \<noteq> ''system'')
     \<and> length (show_dec (cf_timeout c)) < 100 \<and> length (show_dec (cf_device c)) < 100 \<and> length (show_dec (cf_mode c)) < 100"

lemma put_field32:
  assumes "length t \<le> n" "length t < 32"
  shows "put_string (field32 []) t n = Some (field32 t)"
proof (cases "n = length t")
  case True
  then show ?thesis using assms(2) by (simp add: put_string_def mem_put_def field32_def)
next
  case False
  then have "take n (t @ [NUL]) = t @ [NUL]" using assms(1) by simp
  moreover have "32 - length t = Suc (31 - length t)" using assms(2) by simp
  then have "field32 t = (t @ [NUL]) @ replicate (31 - length t) NUL" by (simp add: field32_def)
  ultimately show ?thesis using assms(2) by (simp add: put_string_def mem_put_def field32_def)
qed

lemma str_eq_padded:
  "NUL \<notin> set s \<Longrightarrow> NUL \<notin> set t \<Longrightarrow> 0 < m \<Longrightarrow> 0 < k \<Longrightarrow>
   str_eq (s @ replicate m NUL) (t @ replicate k NUL) = Some (s = t)"
proof (induction s arbitrary: t)
  case Nil
  then show ?case by (cases t; cases m; cases k) auto
next
  case (Cons a s)
  then show ?case by (cases t; cases k) auto
qed

lemma str_eq_fields:
  assumes "c_name s" "c_name t"
  shows "str_eq (field32 s) (field32 t) = Some (s = t)"
  unfolding field32_def by (rule str_eq_padded) (use assms in \<open>auto simp: c_name_def\<close>)

lemma start_number_found:
  assumes "c_name s" "\<forall>t \<in> set ts. c_name t" "i < length ts" "ts ! i = s" "\<forall>j < i. ts ! j \<noteq> s"
  shows "start_number (field32 s) (map field32 ts @ fs) k = Some (Some (k + i))"
  using assms(2-)
proof (induction ts arbitrary: i k)
  case (Cons t ts)
  show ?case
  proof (cases i)
    case 0
    then show ?thesis using Cons.prems assms(1) by (simp add: str_eq_fields)
  next
    case (Suc j)
    then have "t \<noteq> s" using Cons.prems(4) by fastforce
    moreover have "start_number (field32 s) (map field32 ts @ fs) (k + 1) = Some (Some (k + 1 + j))"
      by (rule Cons.IH) (use Cons.prems Suc in fastforce)+
    ultimately show ?thesis using Cons.prems(1) assms(1) Suc by (simp add: str_eq_fields)
  qed
qed simp

definition with_systems :: "string list \<Rightarrow> string list \<Rightarrow> bool" where
  "with_systems fs ts \<longleftrightarrow> fs = map field32 ts @ replicate (8 - length ts) (field32 [])"

lemma sel_section_system:
  assumes "c_name t" "t \<noteq> ''system''" "curOS v = length ts" "length ts < 8" "with_systems (osNames (sv_ini v)) ts"
  shows "sel_section t v = Some (Some (v\<lparr>isSystemSect := Some False, curOS := length (ts @ [t]),
      sv_ini := (sv_ini v)\<lparr>osNames := map field32 (ts @ [t]) @ replicate (8 - length (ts @ [t])) (field32 [])\<rparr>\<rparr>))"
proof -
  let ?fs = "osNames (sv_ini v)"
  have fs: "?fs = map field32 ts @ field32 [] # replicate (7 - length ts) (field32 [])"
  proof -
    have "8 - length ts = Suc (7 - length ts)" using assms(4) by simp
    then show ?thesis using assms(5) by (simp add: with_systems_def)
  qed
  have "?fs ! length ts = field32 []" "length ts < length ?fs" by (simp_all add: fs nth_append)
  moreover have "?fs[length ts := field32 t] = map field32 (ts @ [t]) @ replicate (8 - length (ts @ [t])) (field32 [])"
    by (simp add: fs list_update_append)
  moreover have "put_string (field32 []) t (length t + 1) = Some (field32 t)"
    by (rule put_field32) (use assms(1) in \<open>simp_all add: c_name_def\<close>)
  ultimately show ?thesis using assms(2-4) by (simp add: sel_section_def)
qed

lemma sel_run_systems:
  assumes "\<forall>t \<in> set us. plain_name t \<and> t \<noteq> ''system''" "curOS v = length ts" "length (ts @ us) \<le> 8"
    "with_systems (osNames (sv_ini v)) ts"
  shows "\<exists>b. sel_run (map Section us) v = sel_end (v\<lparr>isSystemSect := b, curOS := length (ts @ us),
      sv_ini := (sv_ini v)\<lparr>osNames := map field32 (ts @ us) @ replicate (8 - length (ts @ us)) (field32 [])\<rparr>\<rparr>)"
  using assms
proof (induction us arbitrary: v ts)
  case Nil
  have "v\<lparr>isSystemSect := isSystemSect v, curOS := length ts, sv_ini := (sv_ini v)\<lparr>osNames := osNames (sv_ini v)\<rparr>\<rparr> = v"
    using Nil.prems(2) by simp
  then show ?case using Nil.prems(4) unfolding with_systems_def by (metis append_Nil2 list.simps(8) ini_run.simps(1))
next
  case (Cons u us)
  let ?v = "v\<lparr>isSystemSect := Some False, curOS := length (ts @ [u]),
      sv_ini := (sv_ini v)\<lparr>osNames := map field32 (ts @ [u]) @ replicate (8 - length (ts @ [u])) (field32 [])\<rparr>\<rparr>"
  have "sel_section u v = Some (Some ?v)"
    by (rule sel_section_system) (use Cons.prems plain_c_name in auto)
  moreover have "\<exists>b. sel_run (map Section us) ?v = sel_end (?v\<lparr>isSystemSect := b, curOS := length ((ts @ [u]) @ us),
      sv_ini := (sv_ini ?v)\<lparr>osNames := map field32 ((ts @ [u]) @ us) @ replicate (8 - length ((ts @ [u]) @ us)) (field32 [])\<rparr>\<rparr>)"
    by (rule Cons.IH) (use Cons.prems in \<open>auto simp: with_systems_def\<close>)
  ultimately show ?case by auto
qed

lemma unblank_plain: "plain_name t \<Longrightarrow> unblank t = t"
  by (auto simp: unblank_def blank_def plain_name_def filter_id_conv)

lemma unblank_names [simp]:
  "unblank ''start_os_name '' = ''start_os_name''" "unblank ''timeout '' = ''timeout''"
  "unblank ''display_device'' = ''display_device''" "unblank ''display_mode '' = ''display_mode''"
  "unblank (CHR '' '' # t) = unblank t"
  by (simp_all add: unblank_def blank_def)

lemma config_lines_good:
  assumes "good_config c" "l \<in> set (config_lines c)"
  shows "good_line l"
proof -
  have num: "CR \<notin> set (show_dec n)" "LF \<notin> set (show_dec n)" "NUL \<notin> set (show_dec n)" for n
    by (rule show_dec_plain; simp add: ascii_def)+
  show ?thesis
    using assms num by (auto simp: config_lines_def good_config_def good_line_def line_type_of_def show_dec_unblank
      unblank_plain) (auto simp: plain_name_def)
qed

lemma sel_number_params:
  assumes "isSystemSect v = Some True"
  shows "sel_param ''timeout'' (show_dec n) v = Some (Inr (v\<lparr>sv_failed := False, sv_sp := (Some (of_nat n), Some 1, Some 1),
      sv_ini := (sv_ini v)\<lparr>bi_timeout := of_nat n\<rparr>\<rparr>))"
    and "sel_param ''display_device'' (show_dec n) v = Some (Inr (v\<lparr>sv_failed := False,
      sv_sp := (Some (of_nat n), Some 1, Some 1), sv_ini := (sv_ini v)\<lparr>displayDevice := of_nat n\<rparr>\<rparr>))"
    and "sel_param ''display_mode'' (show_dec n) v = Some (Inr (v\<lparr>sv_failed := False,
      sv_sp := (Some (of_nat n), Some 1, Some 1), sv_ini := (sv_ini v)\<lparr>displayMode := of_nat n\<rparr>\<rparr>))"
  using assms by (simp_all add: sel_param_def sel_system_param_def ParseParamVal_dec)

text \<open>A configuration is read as it was written: for every list of at most eight systems with plain names, start
  system and numbers, the parser reports success and gives back exactly these, the index of the start system
  with them; all else stays as it was.\<close>

theorem boot_ini_roundtrip:
  assumes "good_config c" "i < length (cf_systems c)" "cf_systems c ! i = cf_start c"
    and "\<forall>j < i. cf_systems c ! j \<noteq> cf_start c"
  shows "parser_script_os_sel (ini_text (config_lines c)) zero_ini = Some (0, config_ini c i)"
proof -
  let ?ts = "cf_systems c"
  have c: "plain_name (cf_start c)" "number_type_of (cf_start c) = Not_a_number" "length ?ts \<le> 8"
      "\<forall>t \<in> set ?ts. plain_name t \<and> t \<noteq> ''system''"
    using assms(1) by (auto simp: good_config_def)
  let ?start = "\<lparr>sv_failed = True, isSystemSect = None, curOS = 0, sv_sp = (None, None, None), sv_ini = zero_ini\<rparr>"
  define k where "k = (min (length (cf_start c)) 128 + 3) div 4"
  have k: "unat (push_bit 2 (of_nat k :: u32)) = 4 * k" "length (cf_start c) \<le> 4 * k"
  proof -
    have l: "length (cf_start c) < 32" using c(1) by (simp add: plain_name_def)
    then have "k \<le> 8" by (simp add: k_def)
    then show "unat (push_bit 2 (of_nat k :: u32)) = 4 * k" by (simp add: push_bit_eq_mult unat_word_ariths unat_of_nat)
    show "length (cf_start c) \<le> 4 * k" using l by (simp add: k_def)
  qed
  have put: "put_string (field32 []) (cf_start c) (4 * k) = Some (field32 (cf_start c))"
    by (rule put_field32) (use k(2) c(1) in \<open>simp_all add: plain_name_def\<close>)
  have val: "ParseParamVal (cf_start c) sp = Some (Text, Some (of_nat k), snd sp)" for sp
    by (simp add: ParseParamVal_def c(2) k_def)
  let ?ini = "zero_ini\<lparr>startOSName := field32 (cf_start c), bi_timeout := of_nat (cf_timeout c),
     displayDevice := of_nat (cf_device c), displayMode := of_nat (cf_mode c)\<rparr>"
  let ?v = "\<lparr>sv_failed = False, isSystemSect = Some True, curOS = 0, sv_sp = (Some (of_nat (cf_mode c)), Some 1, Some 1), sv_ini = ?ini\<rparr>"
  have 1: "sel_param ''start_os_name'' (cf_start c) (?start\<lparr>isSystemSect := Some True\<rparr>) =
      Some (Inr \<lparr>sv_failed = False, isSystemSect = Some True, curOS = 0, sv_sp = (Some (of_nat k), None, None),
        sv_ini = zero_ini\<lparr>startOSName := field32 (cf_start c)\<rparr>\<rparr>)"
    using put k(1) by (simp add: sel_param_def val sel_system_param_def zero_ini_def empty_field_eq)
  have "sel_run (config_lines c) ?start = sel_run (map Section ?ts) ?v"
    using 1 by (simp add: config_lines_def sel_section_def unblank_plain [OF c(1)] show_dec_unblank
      sel_number_params)
  also have "\<exists>b. sel_run (map Section ?ts) ?v = sel_end (?v\<lparr>isSystemSect := b, curOS := length ([] @ ?ts),
      sv_ini := (sv_ini ?v)\<lparr>osNames := map field32 ([] @ ?ts) @ replicate (8 - length ([] @ ?ts)) (field32 [])\<rparr>\<rparr>)"
    by (rule sel_run_systems) (use c in \<open>simp_all add: with_systems_def zero_ini_def empty_field_eq\<close>)
  finally have "sel_run (config_lines c) ?start = Some (0, config_ini c i)"
    using start_number_found [OF plain_c_name [OF c(1)] _ assms(2-4), of "replicate (8 - length ?ts) (field32 [])" 0] c(4) plain_c_name
    by (auto simp: sel_end_def sel_result_def config_ini_def zero_ini_def empty_field_eq)
  then show ?thesis using boot_ini_by_lines config_lines_good [OF assms(1)] by auto
qed

end
