(* ===== verification/Menu_Props.thy ===== *)
theory Menu_Props
  imports Boot_Menu Script_Props
begin

text \<open>
  The menu of the boot loader: what is chosen when no key is pressed, what the screen shows when a choice is
  made, and the configuration with which the loader never starts anything by itself.
\<close>

section \<open>Waiting\<close>

lemma wait_key_none: "0 < cnt \<Longrightarrow> wait_key old (int t) cnt (replicate (cnt + 50 * t) (- 1) @ ks) = Some (None, ks)"
proof (induction t arbitrary: cnt)
  case 0
  then show ?case by (induction cnt rule: nat_induct_non_zero) simp_all
next
  case (Suc t)
  from Suc.prems show ?case
  proof (induction cnt rule: nat_induct_non_zero)
    case 1
    have "replicate (1 + 50 * Suc t) (- 1 :: int) = - 1 # replicate (50 + 50 * t) (- 1)" by (simp flip: replicate_Suc)
    then show ?case using Suc.IH [of 50] by simp
  next
    case (Suc n)
    have "replicate (Suc n + 50 * Suc t) (- 1 :: int) @ ks = - 1 # (replicate (n + 50 * Suc t) (- 1) @ ks)"
      by (simp only: add_Suc replicate_Suc append_Cons)
    then show ?case using Suc by simp
  qed
qed

lemma wait_key_ever: "0 < cnt \<Longrightarrow> timeout < 0 \<Longrightarrow> wait_key old timeout cnt (replicate n (- 1)) = None"
  by (induction n arbitrary: cnt) simp_all

lemma wait_key_blank: "0 < cnt \<Longrightarrow> wait_key old timeout cnt (replicate n (- 1)) = Some (r, ks) \<Longrightarrow> r = None \<and> (\<exists>m. ks = replicate m (- 1))"
proof (induction n arbitrary: cnt timeout)
  case (Suc n)
  show ?case
    using Suc.prems Suc.IH [of 50] Suc.IH [of "cnt - 1"] by (auto split: if_splits)
qed simp

lemma GetKeyVal_timeout: "GetKeyVal (int t) old (replicate (50 * t + 1) (- 1) @ ks) = Some (- 1, old, ks)"
  using wait_key_none [of 1 old t ks] by (simp add: GetKeyVal_def)

section \<open>What is drawn\<close>

definition good_menu :: "BootIni \<Rightarrow> bool" where
  "good_menu ini \<longleftrightarrow> 0 < sint (osCount ini) \<and> sint (osCount ini) \<le> 8 \<and> length (osNames ini) = 8 \<and> (\<forall>f \<in> set (osNames ini). NUL \<in> set f)"

lemma os_items_some:
  assumes "\<forall>i \<in> set is. i < length names" "\<forall>f \<in> set names. NUL \<in> set f"
  shows "os_items names is cur = Some (map (\<lambda>i. PrintMenuItem (int i) (cstring (names ! i)) cur) is)"
  using assms by (induction "is") (auto simp: field_text_def)

text \<open>The texts of a menu, line by line.\<close>

definition menu_texts :: "BootIni \<Rightarrow> bool \<Rightarrow> string list" where
  "menu_texts ini sub = (if sub then subMenuItems
     else ''android'' # map (\<lambda>i. cstring (osNames ini ! i)) [1..<nat (sint (osCount ini))] @ [''other options >''])"

lemma last_item_texts: "good_menu ini \<Longrightarrow> last_item ini sub = int (length (menu_texts ini sub)) - 1"
  by (simp add: last_item_def menu_texts_def good_menu_def)

lemma draw_menu_texts:
  assumes "good_menu ini"
  shows "draw_menu ini sub cur = Some (map (\<lambda>i. PrintMenuItem (int i) (menu_texts ini sub ! i) cur) [0..<length (menu_texts ini sub)])"
proof (cases sub)
  case True
  then show ?thesis by (simp add: draw_menu_def menu_texts_def)
next
  case False
  define n where "n = nat (sint (osCount ini))"
  have n: "0 < n" "n \<le> 8" "sint (osCount ini) = int n" using assms by (auto simp: n_def good_menu_def)
  have os: "os_items (osNames ini) [1..<n] cur = Some (map (\<lambda>i. PrintMenuItem (int i) (cstring (osNames ini ! i)) cur) [1..<n])"
    by (rule os_items_some) (use assms n in \<open>auto simp: good_menu_def\<close>)
  have t: "menu_texts ini sub ! i = cstring (osNames ini ! i)" if "i \<in> set [1..<n]" for i
    using that False by (auto simp: menu_texts_def nth_append n_def nth_Cons split: nat.splits)
  have l: "length (menu_texts ini sub) = n + 1" using False n by (simp add: menu_texts_def)
  have e: "menu_texts ini sub ! 0 = ''android''" "menu_texts ini sub ! n = ''other options >''"
    using False n(1) by (auto simp: menu_texts_def n(3) nth_append nth_Cons split: nat.splits)
  have upt: "[0..<n + 1] = 0 # [1..<n] @ [n]" using n(1) by (simp add: upt_conv_Cons)
  show ?thesis
    using os t False n e unfolding l upt by (simp add: draw_menu_def last_item_def)
qed

lemma select_loop_out:
  assumes "good_menu ini" "0 \<le> cur" "cur < last_item ini sub"
    "GetKeyVal timeout old ks = Some (- 1, old', ks')"
  shows "\<exists>sh. select_loop ini sub cur timeout old ks = Done \<lparr>ch_result = (if sub then - cur - 1 else cur),
    ch_ini = ini\<lparr>startOSNum := of_int cur, bi_timeout := - 1\<rparr>, ch_old = old', ch_keys = ks', ch_shown = sh\<rparr>"
  using assms by (subst select_loop.simps) (simp add: draw_menu_texts)

text \<open>With no key pressed the preselected system is started when the time is over: after fifty polls for each
  unit of the configured time and one more, the menu gives the number of the start system.\<close>

theorem menu_times_out:
  assumes "good_menu ini" "0 \<le> sint (startOSNum ini)" "sint (startOSNum ini) < sint (osCount ini)"
    "sint (bi_timeout ini) = int t"
  shows "\<exists>c. SelectBoot ini old (replicate (50 * t + 1) (- 1) @ ks) = Done c \<and> ch_result c = sint (startOSNum ini)
    \<and> ch_keys c = ks \<and> ch_old c = old \<and> ch_ini c = ini\<lparr>bi_timeout := - 1\<rparr>"
proof -
  have "of_int (sint (startOSNum ini)) = startOSNum ini" by simp
  then show ?thesis
    using select_loop_out [OF assms(1,2), of False, OF _ GetKeyVal_timeout] assms(3)
    unfolding SelectBoot_def assms(4) by (fastforce simp: last_item_def)
qed

section \<open>What is chosen\<close>

text \<open>The line with the text of a choice.\<close>

definition chosen_text :: "BootIni \<Rightarrow> int \<Rightarrow> string" where
  "chosen_text ini r = (if r < 0 then subMenuItems ! nat (- r - 1) else if r = 0 then ''android'' else cstring (osNames ini ! nat r))"

lemma highlighted_line:
  assumes "0 \<le> cur" "cur < int n"
  shows "filter (\<lambda>(i, t, h). h) (map (\<lambda>i. PrintMenuItem (int i) (f i) cur) [0..<n]) = [PrintMenuItem cur (f (nat cur)) cur]"
proof -
  obtain k where k: "cur = int k" "k < n" using assms by (metis int_nat_eq of_nat_less_iff)
  have "[0..<n] = [0..<k] @ [k..<n]" using upt_add_eq_append [of 0 k "n - k"] k(2) by simp
  then have "[0..<n] = [0..<k] @ k # [Suc k..<n]" using k(2) by (simp add: upt_conv_Cons)
  then show ?thesis by (simp add: k(1) PrintMenuItem_def filter_empty_conv)
qed

definition choice_ok :: "BootIni \<Rightarrow> choice \<Rightarrow> bool" where
  "choice_ok ini c \<longleftrightarrow> (0 \<le> ch_result c \<and> ch_result c < sint (osCount ini) \<or> - 4 \<le> ch_result c \<and> ch_result c < 0)
    \<and> (\<exists>line. filter (\<lambda>(i, t, h). h) (ch_shown c) = [PrintMenuItem line (chosen_text ini (ch_result c)) line])"

lemma select_loop_ok:
  assumes "good_menu ini" "0 \<le> cur" "cur \<le> last_item ini sub"
  shows "select_loop ini sub cur timeout old ks \<noteq> Undefined
    \<and> (select_loop ini sub cur timeout old ks = Done c \<longrightarrow> choice_ok ini c)"
  using assms
proof (induction ini sub cur timeout old ks rule: select_loop.induct)
  case (1 ini sub cur timeout old ks)
  note dr = draw_menu_texts [OF "1.prems"(1)]
  show ?case
  proof (cases "GetKeyVal timeout old ks")
    case None
    then show ?thesis by (subst (1 2) select_loop.simps) (simp add: dr)
  next
    case (Some r)
    obtain key old' ks' where r: "r = (key, old', ks')" by (cases r)
    note g = Some [unfolded r]
    note IH = "1.IH" [OF dr g refl refl]
    have last0: "0 \<le> last_item ini sub" for sub using "1.prems"(1) by (simp add: last_item_def subMenuItems_def good_menu_def)
    show ?thesis
    proof (cases "key \<noteq> 43 \<and> key \<noteq> 30 \<and> (key = - 1 \<or> key = 37) \<and> cur \<noteq> last_item ini sub")
      case True
      define sh where "sh = map (\<lambda>i. PrintMenuItem (int i) (menu_texts ini sub ! i) cur) [0..<length (menu_texts ini sub)]"
      have cur: "cur < last_item ini sub" using True "1.prems"(3) by simp
      then have lt: "cur < int (length (menu_texts ini sub))" using last_item_texts [OF "1.prems"(1), of sub] by simp
      have one: "filter (\<lambda>(i, t, h). h) sh = [PrintMenuItem cur (menu_texts ini sub ! nat cur) cur]"
        unfolding sh_def by (rule highlighted_line [OF "1.prems"(2) lt])
      define res where "res = (if sub then - cur - 1 else cur)"
      have tx: "menu_texts ini sub ! nat cur = chosen_text ini res"
      proof (cases sub)
        case True
        then show ?thesis using "1.prems"(2) by (simp add: res_def chosen_text_def menu_texts_def)
      next
        case False
        then show ?thesis using "1.prems"(2) cur
          by (auto simp: res_def chosen_text_def menu_texts_def last_item_def nth_append nth_Cons nat_diff_distrib split: nat.splits)
      qed
      have rng: "0 \<le> res \<and> res < sint (osCount ini) \<or> - 4 \<le> res \<and> res < 0"
        using "1.prems"(2) cur by (auto simp: res_def last_item_def subMenuItems_def)
      have "select_loop ini sub cur timeout old ks = Done \<lparr>ch_result = res,
          ch_ini = ini\<lparr>startOSNum := of_int cur, bi_timeout := - 1\<rparr>, ch_old = old', ch_keys = ks', ch_shown = sh\<rparr>"
        using True g dr by (subst select_loop.simps) (auto simp: res_def sh_def)
      then show ?thesis using rng one tx by (auto simp: choice_ok_def)
    next
      case False
      define v where "v = (if key = 43 then (sub, if cur = 0 then last_item ini sub else cur - 1)
        else if key = 30 then (sub, if cur = last_item ini sub then 0 else cur + 1)
        else if key = - 1 \<or> key = 37 then (\<not> sub, 0) else (sub, cur))"
      have e: "select_loop ini sub cur timeout old ks = select_loop ini (fst v) (snd v) (- 1) old' ks'"
        using False g dr by (subst select_loop.simps) (auto simp: v_def)
      have "0 \<le> snd v \<and> snd v \<le> last_item ini (fst v)" using "1.prems"(2,3) last0 by (auto simp: v_def)
      then have "select_loop ini (fst v) (snd v) (- 1) old' ks' \<noteq> Undefined
          \<and> (select_loop ini (fst v) (snd v) (- 1) old' ks' = Done c \<longrightarrow> choice_ok ini c)"
        using IH False "1.prems"(1) by (auto simp: v_def split: if_splits)
      then show ?thesis unfolding e .
    qed
  qed
qed

text \<open>C34: what is highlighted is what is started: whatever keys are pressed, the menu of a configuration with one to eight
  systems never goes outside its arrays, and when it ends, the result is one of the systems or of the four
  other options, and the only highlighted line on the screen is the one with its text.\<close>

theorem menu_choice_highlighted:
  assumes "good_menu ini" "0 \<le> sint (startOSNum ini)" "sint (startOSNum ini) \<le> sint (osCount ini)"
  shows "SelectBoot ini old ks \<noteq> Undefined \<and> (\<forall>c. SelectBoot ini old ks = Done c \<longrightarrow> choice_ok ini c)"
  using select_loop_ok [OF assms(1,2), of False] assms(3) by (simp add: SelectBoot_def last_item_def)

section \<open>A configuration without a start system\<close>

lemma select_last_waits:
  assumes "good_menu ini" "cur = last_item ini False"
  shows "select_loop ini False cur timeout old (replicate n (- 1)) = Waiting"
proof (cases "GetKeyVal timeout old (replicate n (- 1))")
  case None
  then show ?thesis by (subst select_loop.simps) (simp add: draw_menu_texts [OF assms(1)])
next
  case (Some r)
  then obtain w ks where w: "wait_key old timeout 1 (replicate n (- 1)) = Some (w, ks)" by (auto simp: GetKeyVal_def Option.bind_eq_Some_conv)
  from wait_key_blank [OF _ w] obtain m where m: "w = None" "ks = replicate m (- 1)" by auto
  have "GetKeyVal (- 1) old (replicate m (- 1)) = None" by (simp add: GetKeyVal_def wait_key_ever)
  then have "select_loop ini True 0 (- 1) old (replicate m (- 1)) = Waiting"
    by (subst select_loop.simps) (simp add: draw_menu_texts [OF assms(1)])
  then show ?thesis using w m assms(2)
    by (subst select_loop.simps) (simp add: draw_menu_texts [OF assms(1)] GetKeyVal_def)
qed

text \<open>What holds of the variables of the parser as long as no start system was named: the systems so far are
  \<open>ts\<close>, the other fields for names are empty.\<close>

definition systems_so_far :: "string list \<Rightarrow> sel_vars \<Rightarrow> bool" where
  "systems_so_far ts v \<longleftrightarrow> length ts \<le> 8 \<and> [] \<notin> set ts \<and> (\<forall>t \<in> set ts. c_name t) \<and> curOS v = length ts
     \<and> with_systems (osNames (sv_ini v)) ts \<and> startOSName (sv_ini v) = field32 [] \<and> startOSNum (sv_ini v) = 0"

definition no_start_line :: "ini_line \<Rightarrow> bool" where
  "no_start_line l = (case l of Section n \<Rightarrow> n \<noteq> [] | Param a b \<Rightarrow> unblank a \<noteq> ''start_os_name'' | Comment t \<Rightarrow> True)"

lemma no_start_section:
  assumes "systems_so_far ts v" "good_line (Section n)" "n \<noteq> []" "sel_section n v = Some (Some v')"
  shows "\<exists>ts. systems_so_far ts v'"
proof (cases "n = ''system''")
  case True
  then have "systems_so_far ts v'" using assms(1,4) by (auto simp: sel_section_def systems_so_far_def)
  then show ?thesis ..
next
  case False
  have c: "c_name n" using assms(2) by (simp add: c_name_def good_line_def)
  have lt: "curOS v < 8" using assms(4) False by (auto simp: sel_section_def split: if_splits)
  then have "systems_so_far (ts @ [n]) v'"
    using sel_section_system [OF c False, of v ts] assms c by (auto simp: systems_so_far_def with_systems_def)
  then show ?thesis ..
qed

lemma no_start_param:
  assumes "systems_so_far ts v" "name \<noteq> ''start_os_name''" "sel_param name val v = Some (Inr v')"
  shows "systems_so_far ts v'"
  using assms
  by (auto simp: sel_param_def sel_system_param_def sel_os_param_def systems_so_far_def Let_def Option.bind_eq_Some_conv
      split: option.splits if_splits prod.splits bool.splits)

lemma no_start_run:
  assumes "\<forall>l \<in> set ls. good_line l \<and> no_start_line l" "systems_so_far ts v" "sel_run ls v = Some (0, ini)"
  shows "\<exists>ts v. systems_so_far ts v \<and> sel_end v = Some (0, ini)"
  using assms
proof (induction ls arbitrary: ts v)
  case (Cons l ls)
  then obtain r where r: "sel_action l v = Some r" by (auto simp: Option.bind_eq_Some_conv)
  show ?case
  proof (cases r)
    case (Inl e)
    moreover have "e \<noteq> (0, ini)" using r Inl
      by (cases l) (auto simp: sel_param_def Let_def Option.bind_eq_Some_conv split: option.splits bool.splits)
    ultimately show ?thesis using Cons.prems(3) r by simp
  next
    case (Inr v')
    have l: "good_line l" "no_start_line l" using Cons.prems(1) by simp_all
    have "\<exists>ts. systems_so_far ts v'"
    proof (cases l)
      case (Section n)
      moreover have "sel_section n v = Some (Some v')"
        using r Inr Section by (auto simp: Option.bind_eq_Some_conv split: option.splits)
      ultimately show ?thesis using no_start_section [OF Cons.prems(2)] l by (auto simp: no_start_line_def)
    next
      case (Param a b)
      then show ?thesis using no_start_param [OF Cons.prems(2)] l r Inr by (auto simp: no_start_line_def)
    qed (use r Inr Cons.prems(2) in auto)
    then show ?thesis using Cons.IH Cons.prems(1,3) r Inr by auto
  qed
qed auto

lemma no_start_end:
  assumes "systems_so_far ts v" "sel_end v = Some (0, ini)"
  shows "osCount ini = of_nat (length ts) \<and> with_systems (osNames ini) ts
    \<and> startOSNum ini = (if length ts < 8 then of_nat (length ts) else 0)"
proof -
  let ?fs = "osNames (sv_ini v)"
  note v = assms(1) [unfolded systems_so_far_def]
  have e: "c_name []" by (simp add: c_name_def)
  have "start_number (field32 []) ?fs 0 = Some (if length ts < 8 then Some (length ts) else None)"
  proof (cases "length ts < 8")
    case True
    then have "replicate (8 - length ts) (field32 []) = field32 [] # replicate (7 - length ts) (field32 [])"
      by (simp flip: replicate_Suc add: Suc_diff_le)
    then have "?fs = map field32 (ts @ [[]]) @ replicate (7 - length ts) (field32 [])"
      using v by (simp add: with_systems_def)
    moreover have "\<forall>j < length ts. ts ! j \<noteq> []" using v by (metis nth_mem)
    then have "\<forall>j < length ts. (ts @ [[]]) ! j \<noteq> []" by (simp add: nth_append)
    ultimately show ?thesis
      using start_number_found [OF e, of "ts @ [[]]" "length ts" "replicate (7 - length ts) (field32 [])" 0] v e True by simp
  next
    case False
    then have "?fs = map field32 ts" using v by (simp add: with_systems_def)
    moreover have "start_number (field32 []) (map field32 us) k = Some None" if "set us \<subseteq> set ts" for us k
      using that by (induction us arbitrary: k) (use v str_eq_fields [OF e] in auto)
    ultimately show ?thesis using False by simp
  qed
  then show ?thesis using assms(2) v by (auto simp: sel_end_def Let_def split: if_splits)
qed

text \<open>C35: without a start system nothing is started: take any \<open>boot.ini\<close> made of well-formed lines, with one to seven
  systems that have names, that the parser accepts and that has no \<open>start_os_name\<close>. Then the line behind the systems
  is preselected, and with no key pressed the loader waits for ever, whatever the time. With eight systems no field
  is left empty, and the first system is preselected.\<close>

theorem no_start_never_boots:
  assumes "\<forall>l \<in> set ls. good_line l" "\<forall>a b. Param a b \<in> set ls \<longrightarrow> unblank a \<noteq> ''start_os_name''" "Section [] \<notin> set ls"
    and "parser_script_os_sel (ini_text ls) zero_ini = Some (0, ini)" "0 < sint (osCount ini)"
  shows "if sint (osCount ini) < 8
    then startOSNum ini = osCount ini \<and> (\<forall>old n. SelectBoot ini old (replicate n (- 1)) = Waiting)
    else sint (osCount ini) = 8 \<and> startOSNum ini = 0"
proof -
  let ?v = "\<lparr>sv_failed = True, isSystemSect = None, curOS = 0, sv_sp = (None, None, None), sv_ini = zero_ini\<rparr>"
  have "\<forall>l \<in> set ls. good_line l \<and> no_start_line l"
    using assms(1-3) by (auto simp: no_start_line_def split: ini_line.split)
  moreover have "systems_so_far [] ?v" by (simp add: systems_so_far_def with_systems_def zero_ini_def empty_field_eq)
  moreover have "sel_run ls ?v = Some (0, ini)" using assms(4) boot_ini_by_lines [OF assms(1)] by simp
  ultimately obtain ts v where v: "systems_so_far ts v" "sel_end v = Some (0, ini)" using no_start_run by blast
  note e = no_start_end [OF v]
  have l: "length ts \<le> 8" "\<forall>t \<in> set ts. c_name t" using v(1) by (simp_all add: systems_so_far_def)
  have n: "sint (osCount ini) = int (length ts)"
    using e l(1) by (simp add: signed_of_nat) (simp add: signed_take_bit_int_eq_self)
  have "good_menu ini" using e l n assms(5) by (auto simp: good_menu_def with_systems_def field32_def c_name_def)
  moreover have "sint (startOSNum ini) = last_item ini False" if "length ts < 8" using that e by (simp add: last_item_def)
  ultimately show ?thesis using e n l(1) select_last_waits by (auto simp: SelectBoot_def)
qed

section \<open>Concrete inputs\<close>

definition sample_menu :: BootIni where
  "sample_menu = zero_ini\<lparr>osCount := 2, osNames := map field32 [''linux'', ''debian''] @ replicate 6 (field32 []), startOSNum := 1\<rparr>"

text \<open>Volume down, held until it counts, and then back: from the second system to the first one.\<close>

theorem menu_choice_highlighted_witness:
  "\<exists>c. SelectBoot sample_menu (- 1) (replicate 6 43 @ replicate 6 37) = Done c \<and> ch_result c = 0 \<and> choice_ok sample_menu c"
proof -
  have "good_menu sample_menu" by (auto simp: good_menu_def sample_menu_def zero_ini_def field32_def)
  from menu_choice_highlighted [OF this, of "- 1" "replicate 6 43 @ replicate 6 37"]
  have ok: "\<forall>c. SelectBoot sample_menu (- 1) (replicate 6 43 @ replicate 6 37) = Done c \<longrightarrow> choice_ok sample_menu c"
    by (simp add: sample_menu_def zero_ini_def)
  have d: "\<exists>sh. draw_menu sample_menu False cur = Some sh" for cur
    using draw_menu_texts [OF \<open>good_menu sample_menu\<close>] by simp
  have last: "last_item sample_menu False = 2" by (simp add: last_item_def sample_menu_def zero_ini_def)
  have k: "GetKeyVal 0 (- 1) (replicate 6 43 @ replicate 6 37) = Some (43, 43, replicate 6 37)"
      "GetKeyVal (- 1) 43 (replicate 6 37) = Some (37, 37, [])"
    by (simp_all add: GetKeyVal_def eval_nat_numeral)
  obtain s1 s0 where s: "draw_menu sample_menu False 1 = Some s1" "draw_menu sample_menu False 0 = Some s0" using d by blast
  have "\<exists>c. select_loop sample_menu False 0 (- 1) 43 (replicate 6 37) = Done c \<and> ch_result c = 0"
    by (subst select_loop.simps) (simp add: s k(2) last)
  then have "\<exists>c. select_loop sample_menu False 1 0 (- 1) (replicate 6 43 @ replicate 6 37) = Done c \<and> ch_result c = 0"
    by (subst select_loop.simps) (simp add: s k(1) last)
  moreover have "sint (startOSNum sample_menu) = 1" "sint (bi_timeout sample_menu) = 0"
    by (simp_all add: sample_menu_def zero_ini_def)
  ultimately show ?thesis using ok by (auto simp: SelectBoot_def)
qed

text \<open>A file with a comment, a time, two systems and a picture for one of them.\<close>

definition no_start_ini :: "ini_line list" where
  "no_start_ini = [Comment '' no default'', Section ''system'', Param ''timeout '' '' 5'', Section ''linux'',
     Param ''os_show[0]'' '' a.bmp'', Section ''debian'']"

theorem no_start_never_boots_witness:
  "\<exists>ini. parser_script_os_sel (ini_text no_start_ini) zero_ini = Some (0, ini) \<and> startOSNum ini = 2
    \<and> (\<forall>old n. SelectBoot ini old (replicate n (- 1)) = Waiting)"
proof -
  have g: "\<forall>l \<in> set no_start_ini. good_line l" by (simp add: no_start_ini_def good_line_def line_type_of_def unblank_def blank_def)
  have "map_option (\<lambda>(r, ini). (r, osCount ini)) (parser_script_os_sel (ini_text no_start_ini) zero_ini) = Some (0, 2)"
    unfolding boot_ini_by_lines [OF g] by code_simp
  then obtain ini where i: "parser_script_os_sel (ini_text no_start_ini) zero_ini = Some (0, ini)" "osCount ini = 2" by auto
  have "\<forall>a b. Param a b \<in> set no_start_ini \<longrightarrow> unblank a \<noteq> ''start_os_name''" "Section [] \<notin> set no_start_ini"
    by (auto simp: no_start_ini_def unblank_def blank_def)
  then show ?thesis using no_start_never_boots [OF g _ _ i(1)] i by auto
qed

end
