(* ===== verification/Loader_Props.thy ===== *)
theory Loader_Props
  imports Menu_Props Host_Props
begin

text \<open>
  From \<open>boot.ini\<close> to the jump into an operating system: the file of a system is read as it was written, the
  images end up in memory and nowhere else, the \<open>misc\<close> partition that the host has made is found, and the
  program starts the configured system when no key is pressed.
\<close>

section \<open>The file of a system, written and read\<close>

record image_conf =
  ic_name :: string
  ic_size :: nat
  ic_base :: nat

record os_conf =
  oc_images :: "image_conf list"
  oc_script_base :: nat
  oc_script_size :: nat

definition image_lines :: "image_conf \<Rightarrow> ini_line list" where
  "image_lines im = [Section ''segment'', Param ''img_name '' ('' '' @ ic_name im),
     Param ''img_size '' ('' '' @ show_dec (ic_size im)), Param ''img_base '' ('' '' @ show_dec (ic_base im))]"

definition os_lines :: "os_conf \<Rightarrow> ini_line list" where
  "os_lines c = concat (map image_lines (oc_images c))
     @ [Section ''script_info'', Param ''script_base '' ('' '' @ show_dec (oc_script_base c)),
        Param ''script_size '' ('' '' @ show_dec (oc_script_size c))]"

definition image_of :: "image_conf \<Rightarrow> OSImage" where
  "image_of im = \<lparr>im_name = field32 (ic_name im), im_maxSize = of_nat (ic_size im), im_fileLen = 0, im_baseAddr = of_nat (ic_base im)\<rparr>"

definition images_of :: "image_conf list \<Rightarrow> OSImage list" where
  "images_of ims = map image_of ims @ replicate (16 - length ims) empty_image"

definition os_script :: "os_conf \<Rightarrow> OSImageScript" where
  "os_script c = empty_script\<lparr>images := images_of (oc_images c), is_baseAddr := of_nat (oc_script_base c),
     is_maxSize := of_nat (oc_script_size c), segmentSectionCount := of_nat (length (oc_images c))\<rparr>"

definition short_number :: "nat \<Rightarrow> bool" where "short_number n \<longleftrightarrow> length (show_dec n) < 100"

definition good_image :: "image_conf \<Rightarrow> bool" where
  "good_image im \<longleftrightarrow> plain_name (ic_name im) \<and> number_type_of (ic_name im) = Not_a_number
     \<and> short_number (ic_size im) \<and> short_number (ic_base im)"

definition good_os :: "os_conf \<Rightarrow> bool" where
  "good_os c \<longleftrightarrow> length (oc_images c) \<le> 16 \<and> (\<forall>im \<in> set (oc_images c). good_image im)
     \<and> short_number (oc_script_base c) \<and> short_number (oc_script_size c)"

lemma unblank_image_names [simp]:
  "unblank ''img_name '' = ''img_name''" "unblank ''img_size '' = ''img_size''" "unblank ''img_base '' = ''img_base''"
  "unblank ''script_base '' = ''script_base''" "unblank ''script_size '' = ''script_size''"
  by (simp_all add: unblank_def blank_def)

lemma show_dec_no: "CR \<notin> set (show_dec n)" "LF \<notin> set (show_dec n)" "NUL \<notin> set (show_dec n)"
  by (rule show_dec_plain; simp add: ascii_def)+

lemma image_lines_good: "good_image im \<Longrightarrow> l \<in> set (image_lines im) \<Longrightarrow> good_line l"
  using show_dec_no
  by (auto simp: image_lines_def good_image_def short_number_def good_line_def line_type_of_def show_dec_unblank unblank_plain)
    (auto simp: plain_name_def)

lemma os_lines_good:
  assumes "good_os c" "l \<in> set (os_lines c)"
  shows "good_line l"
proof (cases "\<exists>im \<in> set (oc_images c). l \<in> set (image_lines im)")
  case True
  then show ?thesis using assms(1) image_lines_good by (auto simp: good_os_def)
next
  case False
  then show ?thesis
    using assms show_dec_no by (auto simp: os_lines_def good_os_def short_number_def good_line_def line_type_of_def show_dec_unblank)
qed

lemma put_value:
  assumes "plain_name t"
  shows "put_string (field32 []) t (unat (4 * (of_nat ((min (length t) 128 + 3) div 4)) :: u32)) = Some (field32 t)"
proof -
  define k where "k = (min (length t) 128 + 3) div 4"
  have l: "length t < 32" using assms by (simp add: plain_name_def)
  then have "k \<le> 8" by (simp add: k_def)
  then have "unat (4 * of_nat k :: u32) = 4 * k" by (simp add: unat_word_ariths unat_of_nat)
  moreover have "length t \<le> 4 * k" using l by (simp add: k_def)
  ultimately show ?thesis unfolding k_def [symmetric] using put_field32 [of t "4 * k"] l by simp
qed

lemma img_run_image:
  assumes "good_image im" "segments v = length ims" "images (iv_script v) = images_of ims" "length ims < 16"
  shows "img_run mtop (image_lines im @ ls) v = img_run mtop ls (v\<lparr>img_section := Some SECT_SEGMENT,
    segments := length (ims @ [im]), iv_failed := False, iv_sp := (Some (of_nat (ic_base im)), Some 1, Some 1),
    adjustBaseAddr := Some False, iv_script := (iv_script v)\<lparr>images := images_of (ims @ [im])\<rparr>\<rparr>)"
proof -
  have n: "plain_name (ic_name im)" "number_type_of (ic_name im) = Not_a_number" using assms(1) by (simp_all add: good_image_def)
  have split: "images_of ims = map image_of ims @ empty_image # replicate (15 - length ims) empty_image"
  proof -
    have "16 - length ims = Suc (15 - length ims)" using assms(4) by simp
    then show ?thesis by (simp add: images_of_def)
  qed
  have upd: "(map image_of ims @ x # replicate (15 - length ims) empty_image)[length ims := y]
      = map image_of ims @ y # replicate (15 - length ims) empty_image" for x y :: OSImage
    by (simp add: list_update_append)
  have e: "im_name empty_image = field32 []" by (simp add: empty_image_def field32_def)
  have val: "ParseParamVal (ic_name im) sp = Some (Text, Some (of_nat ((min (length (ic_name im)) 128 + 3) div 4)), snd sp)" for sp
    by (simp add: ParseParamVal_def n(2))
  have fin: "images_of (ims @ [im]) = map image_of ims @ image_of im # replicate (15 - length ims) empty_image"
    by (simp add: images_of_def)
  show ?thesis unfolding fin
    using put_value [OF n(1)] assms(2-4)
    by (simp add: image_lines_def img_section_line_def img_section_of_def img_par_def unblank_plain [OF n(1)] val
        img_param_def segment_param_def split upd e nth_append show_dec_unblank ParseParamVal_dec base_address_def from_top_def
        image_of_def)
      (simp add: empty_image_def)
qed

definition img_start :: img_vars where
  "img_start = \<lparr>iv_failed = True, img_section = None, segments = 0, adjustBaseAddr = None, iv_sp = (None, None, None), iv_script = empty_script\<rparr>"

lemma img_run_images:
  assumes "\<forall>im \<in> set jms. good_image im" "segments v = length ims" "images (iv_script v) = images_of ims" "length (ims @ jms) \<le> 16"
  shows "\<exists>v'. img_run mtop (concat (map image_lines jms) @ ls) v = img_run mtop ls v' \<and> segments v' = length (ims @ jms)
    \<and> iv_script v' = (iv_script v)\<lparr>images := images_of (ims @ jms)\<rparr>"
  using assms
proof (induction jms arbitrary: v ims)
  case Nil
  have "iv_script v = (iv_script v)\<lparr>images := images (iv_script v)\<rparr>" by simp
  then show ?case using Nil.prems(2,3) by (metis append.left_neutral append_Nil2 concat.simps(1) list.simps(8))
next
  case (Cons im jms)
  let ?v = "v\<lparr>img_section := Some SECT_SEGMENT,
    segments := length (ims @ [im]), iv_failed := False, iv_sp := (Some (of_nat (ic_base im)), Some 1, Some 1),
    adjustBaseAddr := Some False, iv_script := (iv_script v)\<lparr>images := images_of (ims @ [im])\<rparr>\<rparr>"
  have "img_run mtop (concat (map image_lines (im # jms)) @ ls) v = img_run mtop (concat (map image_lines jms) @ ls) ?v"
    using img_run_image [of im v ims mtop "concat (map image_lines jms) @ ls"] Cons.prems by simp
  moreover have "\<exists>v'. img_run mtop (concat (map image_lines jms) @ ls) ?v = img_run mtop ls v' \<and> segments v' = length ((ims @ [im]) @ jms)
    \<and> iv_script v' = (iv_script ?v)\<lparr>images := images_of ((ims @ [im]) @ jms)\<rparr>"
    by (rule Cons.IH) (use Cons.prems in simp_all)
  ultimately show ?case by auto
qed

text \<open>The file of a system is read as it was written: for up to 16 images with plain names, sizes and addresses, and
  the place of the board's configuration, the parser gives back exactly these, in order, and their number.\<close>

theorem os_file_roundtrip:
  assumes "good_os c"
  shows "parser_script_os_img mtop (ini_text (os_lines c)) empty_script = Some (0, os_script c)"
proof -
  have "img_lines mtop (ini_text (os_lines c)) 0 img_start = img_run mtop (os_lines c) img_start"
    by (rule img.loop_text) (use os_lines_good [OF assms] in blast)
  moreover have "\<exists>v'. img_run mtop (os_lines c) img_start = img_run mtop [Section ''script_info'',
      Param ''script_base '' ('' '' @ show_dec (oc_script_base c)), Param ''script_size '' ('' '' @ show_dec (oc_script_size c))] v'
      \<and> segments v' = length ([] @ oc_images c) \<and> iv_script v' = (iv_script img_start)\<lparr>images := images_of ([] @ oc_images c)\<rparr>"
    unfolding os_lines_def
    by (rule img_run_images) (use assms in \<open>simp_all add: good_os_def img_start_def empty_script_def images_of_def\<close>)
  ultimately show ?thesis
    by (auto simp: parser_script_os_img_def img_start_def img_section_line_def img_section_of_def img_par_def show_dec_unblank
        ParseParamVal_dec img_param_def script_info_param_def base_address_def from_top_def img_finish_def img_result_def os_script_def empty_script_def)
qed

section \<open>The misc partition\<close>

lemma chars_app [simp]: "chars (a @ b) = chars a @ chars b"
  by (simp add: chars_def)

lemma chars_text [simp]: "chars (map char_byte t) = t"
  by (simp add: chars_def o_def char_byte_back)

lemma chars_zeros [simp]: "chars (replicate n 0) = replicate n NUL"
  by (simp add: chars_def char_of_def)

lemma length_chars [simp]: "length (chars b) = length b"
  by (simp add: chars_def)

lemma str_eq_name:
  "NUL \<notin> set s \<Longrightarrow> NUL \<notin> set t \<Longrightarrow> length s < length t \<or> (\<exists>r'. r = NUL # r') \<Longrightarrow> str_eq (s @ [NUL]) (t @ r) = Some (s = t)"
proof (induction s arbitrary: t)
  case Nil
  then show ?case by (cases t) auto
next
  case (Cons a s)
  then show ?case by (cases t) auto
qed

lemma str_eq_decides:
  "length s < length t \<Longrightarrow> NUL \<notin> set s \<Longrightarrow>
   \<exists>eq. str_eq t (s @ [NUL]) = Some eq \<and> (eq \<longrightarrow> takeWhile (\<lambda>c. c \<noteq> NUL) t = s)"
proof (induction s arbitrary: t)
  case Nil
  then show ?case by (cases t) auto
next
  case (Cons a s)
  then show ?case by (cases t) auto
qed

lemma misc_entry:
  assumes "good_partition q" "length a = 20 + 64 * i" "mbr = a @ partition_bytes q @ b"
  shows "str_eq (''misc'' @ [NUL]) (chars (drop (20 + 64 * i + 28) mbr)) = Some (mp_name q = ''misc'')"
    and "le32_at mbr (20 + 64 * i + 4) = ucast (mp_firstSector q)"
proof -
  have len: "length (mp_name q) \<le> 12" "\<forall>c \<in> set (mp_name q). char_code c \<noteq> 0"
      "length (mp_classname q) \<le> 12" using assms(1) by (simp_all add: good_partition_def good_name_def)
  have "char_code NUL = 0" by (simp add: char_code_def)
  then have nul: "NUL \<notin> set (mp_name q)" using len(2) by metis
  have "drop (20 + 64 * i + 28) mbr = map char_byte (mp_name q) @ replicate (12 - length (mp_name q)) 0
      @ bytes32 (mp_user_type q) @ bytes32 (mp_ro q) @ replicate 16 0 @ b"
    using len(3) by (simp add: assms(2,3) partition_bytes_def long_bytes_def name_bytes_def)
  moreover have "str_eq (''misc'' @ [NUL]) (mp_name q @ replicate (12 - length (mp_name q)) NUL @ r) = Some (''misc'' = mp_name q)" for r
  proof (rule str_eq_name)
    show "length ''misc'' < length (mp_name q) \<or> (\<exists>r'. replicate (12 - length (mp_name q)) NUL @ r = NUL # r')"
      by (cases "12 - length (mp_name q)") auto
  qed (use nul in simp_all)
  ultimately show "str_eq (''misc'' @ [NUL]) (chars (drop (20 + 64 * i + 28) mbr)) = Some (mp_name q = ''misc'')"
    by (simp add: eq_commute [of "''misc''"])
  show "le32_at mbr (20 + 64 * i + 4) = ucast (mp_firstSector q)"
    using le32_at_app4 [of a "20 + 64 * i"] by (simp add: assms(2,3) partition_bytes_def long_bytes_def)
qed

lemma find_misc_found:
  assumes "\<forall>q \<in> set (md_partitions d). good_partition q"
  shows "i + k = length (md_partitions d) \<Longrightarrow> find_misc (mbr_bytes crc copy index d) i k
    = Some (map_option (\<lambda>q. ucast (mp_firstSector q)) (find (\<lambda>q. mp_name q = ''misc'') (drop i (md_partitions d))))"
proof (induction k arbitrary: i)
  case (Suc k)
  then have i: "i < length (md_partitions d)" by simp
  obtain a b where ab: "mbr_bytes crc copy index d = a @ partition_bytes (md_partitions d ! i) @ b" "length a = 20 + 64 * i"
    using mbr_split [OF assms i] by blast
  have q: "good_partition (md_partitions d ! i)" using assms i by simp
  have "drop i (md_partitions d) = md_partitions d ! i # drop (Suc i) (md_partitions d)" using i by (simp add: Cons_nth_drop_Suc)
  then show ?case
    using misc_entry [OF q ab(2,1)] Suc.IH [of "Suc i"] Suc.prems by simp
qed simp

text \<open>C37: the message for the system goes where the host has put it: on a disk with a table of at most 15 partitions
  written by the host, the text ends up in the first 32 bytes of the first sector of the partition named \<open>misc\<close>; the rest of the
  sector and all other sectors stay as they were.\<close>

theorem misc_part_written:
  assumes "disk 0 @ disk 1 = mbr_bytes crc copy index d" "length (md_partitions d) \<le> 15"
    "\<forall>q \<in> set (md_partitions d). good_partition q"
    and "find (\<lambda>q. mp_name q = ''misc'') (md_partitions d) = Some q" "sect = ucast (mp_firstSector q)"
    and "length (disk sect) = 512" "length val < 32" "NUL \<notin> set val"
  shows "\<exists>buf. WriteMiscPart val disk = Some (disk(sect := buf)) \<and> length buf = 512 \<and> cstring (chars buf) = val
    \<and> drop 32 buf = drop 32 (disk sect)"
proof -
  let ?n = "length (md_partitions d)"
  have magic: "length MBR_MAGIC = 8" by (simp add: MBR_MAGIC_def)
  have z: "char_of (0 :: nat) = NUL" by (simp add: char_of_def)
  let ?m = "mbr_bytes crc copy index d"
  have cnt: "19 < length ?m" "mk16 (?m ! 18) (?m ! 19) = of_nat ?n"
    by (simp_all add: mbr_bytes_def Let_def nth_append magic bytes32_def bytes16_def)
  have n: "unat (of_nat ?n :: u16) = ?n" using assms(2) by (simp add: unat_of_nat)
  have find: "find_misc ?m 0 ?n = Some (Some sect)"
    using find_misc_found [OF assms(3), of 0 ?n] assms(4,5) by simp
  obtain eq where eq: "str_eq (chars (disk sect)) (val @ [NUL]) = Some eq" "eq \<longrightarrow> takeWhile (\<lambda>c. c \<noteq> NUL) (chars (disk sect)) = val"
    using str_eq_decides [of val "chars (disk sect)"] assms(6-8) by auto
  show ?thesis
  proof (cases eq)
    case True
    then have "WriteMiscPart val disk = Some (disk(sect := disk sect))"
      using eq find cnt n by (simp add: WriteMiscPart_def assms(1) Let_def)
    then show ?thesis using True eq(2) assms(6) by (intro exI [of _ "disk sect"]) (simp add: cstring_def)
  next
    case False
    define buf where "buf = map char_byte (val @ [NUL]) @ replicate (31 - length val) 0 @ drop 32 (disk sect)"
    have "mem_put (disk sect) 0 (replicate 32 0) = Some (replicate 32 0 @ drop 32 (disk sect))" using assms(6) by (simp add: mem_put_def)
    moreover have "mem_put (replicate 32 0 @ drop 32 (disk sect)) 0 (map char_byte (val @ [NUL])) = Some buf"
      using assms(6,7) by (simp add: mem_put_def buf_def)
    ultimately have "WriteMiscPart val disk = Some (disk(sect := buf))"
      using eq False find cnt n by (simp add: WriteMiscPart_def assms(1) Let_def)
    moreover have "chars buf = val @ NUL # replicate (31 - length val) NUL @ chars (drop 32 (disk sect))"
      by (simp add: buf_def) (simp add: chars_def char_byte_back z)
    then have "cstring (chars buf) = val" using assms(8) by (auto simp: cstring_def takeWhile_tail)
    moreover have "length buf = 512" "drop 32 buf = drop 32 (disk sect)"
      using assms(6,7) by (simp_all add: buf_def Suc_diff_le drop_Cons' flip: diff_Suc_eq_diff_pred)
    ultimately show ?thesis by (intro exI [of _ buf] conjI)
  qed
qed

section \<open>Images in memory\<close>

definition image_ready :: "(string \<Rightarrow> u8 list option) \<Rightarrow> OSImage \<Rightarrow> bool" where
  "image_ready files im \<longleftrightarrow> im_baseAddr im \<noteq> 0 \<and> NUL \<in> set (im_name im)
     \<and> (\<exists>f. files (cstring (im_name im)) = Some f \<and> int (length f) \<le> sint (im_maxSize im))"

definition image_file :: "(string \<Rightarrow> u8 list option) \<Rightarrow> OSImage \<Rightarrow> u8 list" where
  "image_file files im = the (files (cstring (im_name im)))"

definition put_images :: "(string \<Rightarrow> u8 list option) \<Rightarrow> OSImage list \<Rightarrow> memory \<Rightarrow> memory" where
  "put_images files ims mem = fold (\<lambda>im. store_bytes (im_baseAddr im) (image_file files im)) ims mem"

lemma load_images_ready:
  assumes "i + k \<le> length (images sc)" "\<forall>im \<in> set (take k (drop i (images sc))). image_ready files im"
  shows "\<exists>ims. load_images files sc mem i k = Some (True, sc\<lparr>images := ims\<rparr>, put_images files (take k (drop i (images sc))) mem)
    \<and> map im_baseAddr ims = map im_baseAddr (images sc)"
  using assms
proof (induction k arbitrary: i sc mem)
  case 0
  show ?case by (intro exI [of _ "images sc"]) (simp add: put_images_def)
next
  case (Suc k)
  let ?im = "images sc ! i"
  have i: "i < length (images sc)" using Suc.prems(1) by simp
  have d: "drop i (images sc) = ?im # drop (Suc i) (images sc)" using i by (simp add: Cons_nth_drop_Suc)
  have im: "image_ready files ?im" using Suc.prems(2) by (simp add: d)
  then obtain f where f: "files (cstring (im_name ?im)) = Some f" "int (length f) \<le> sint (im_maxSize ?im)"
    by (auto simp: image_ready_def)
  let ?sc = "sc\<lparr>images := (images sc)[i := ?im\<lparr>im_fileLen := of_nat (length f)\<rparr>]\<rparr>"
  have "\<exists>ims. load_images files ?sc (store_bytes (im_baseAddr ?im) f mem) (i + 1) k
      = Some (True, ?sc\<lparr>images := ims\<rparr>, put_images files (take k (drop (i + 1) (images ?sc))) (store_bytes (im_baseAddr ?im) f mem))
    \<and> map im_baseAddr ims = map im_baseAddr (images ?sc)"
    by (rule Suc.IH) (use Suc.prems in \<open>simp_all add: d\<close>)
  moreover have "map im_baseAddr ((images sc)[i := ?im\<lparr>im_fileLen := n\<rparr>]) = map im_baseAddr (images sc)" for n
    by (simp add: map_update list_update_same_conv i)
  ultimately show ?case using im i f
    by (auto simp: image_ready_def image_file_def field_text_def d put_images_def)
qed

lemma sint_le_unat: "int n \<le> sint (w :: u32) \<Longrightarrow> n \<le> unat w"
proof -
  assume n: "int n \<le> sint w"
  have "- (2 ^ (LENGTH(32) - Suc 0)) \<le> uint w" by (rule order_trans [of _ 0]) simp_all
  then have "sint w \<le> uint w" unfolding sint_uint signed_take_bit_int_less_eq_self_iff .
  from nat_mono [OF order_trans [OF n this]] show ?thesis by (simp only: nat_int unat_eq_nat_uint)
qed

text \<open>The memory is left alone outside the areas that the file of the system gives.\<close>

definition outside_areas :: "OSImageScript \<Rightarrow> u32 \<Rightarrow> bool" where
  "outside_areas sc x \<longleftrightarrow> (\<forall>im \<in> set (images sc). unat (im_maxSize im) \<le> unat (x - im_baseAddr im))
     \<and> (is_baseAddr sc \<noteq> 0 \<longrightarrow> unat (is_maxSize sc) \<le> unat (x - is_baseAddr sc))"

lemma load_images_outside:
  assumes "load_images files sc mem i k = Some (ok, sc', mem')" "outside_areas sc x"
  shows "mem' x = mem x \<and> is_baseAddr sc' = is_baseAddr sc \<and> is_maxSize sc' = is_maxSize sc"
  using assms
proof (induction k arbitrary: i sc mem)
  case (Suc k)
  show ?case
  proof (cases "\<exists>f. i < length (images sc) \<and> im_baseAddr (images sc ! i) \<noteq> 0 \<and> NUL \<in> set (im_name (images sc ! i))
      \<and> files (cstring (im_name (images sc ! i))) = Some f \<and> int (length f) \<le> sint (im_maxSize (images sc ! i))")
    case True
    then obtain f where f: "i < length (images sc)" "im_baseAddr (images sc ! i) \<noteq> 0" "NUL \<in> set (im_name (images sc ! i))"
      "files (cstring (im_name (images sc ! i))) = Some f" "int (length f) \<le> sint (im_maxSize (images sc ! i))" by blast
    let ?im = "images sc ! i"
    let ?sc = "sc\<lparr>images := (images sc)[i := ?im\<lparr>im_fileLen := of_nat (length f)\<rparr>]\<rparr>"
    have "load_images files ?sc (store_bytes (im_baseAddr ?im) f mem) (i + 1) k = Some (ok, sc', mem')"
      using Suc.prems(1) f by (simp add: field_text_def)
    moreover have "outside_areas ?sc x"
    proof -
      have "set ((images sc)[i := ?im\<lparr>im_fileLen := of_nat (length f)\<rparr>])
          \<subseteq> insert (?im\<lparr>im_fileLen := of_nat (length f)\<rparr>) (set (images sc))" by (rule set_update_subset_insert)
      then show ?thesis using Suc.prems(2) nth_mem [OF f(1)] by (fastforce simp: outside_areas_def)
    qed
    ultimately have IH: "mem' x = store_bytes (im_baseAddr ?im) f mem x" "is_baseAddr sc' = is_baseAddr sc" "is_maxSize sc' = is_maxSize sc"
      using Suc.IH [of ?sc "store_bytes (im_baseAddr ?im) f mem" "i + 1"] by auto
    have "length f \<le> unat (x - im_baseAddr ?im)"
      using sint_le_unat [OF f(5)] Suc.prems(2) nth_mem [OF f(1)] order_trans by (fastforce simp: outside_areas_def)
    then show ?thesis using IH by (simp add: store_outside)
  next
    case False
    then show ?thesis using Suc.prems(1) by (auto simp: field_text_def Option.bind_eq_Some_conv not_le split: if_splits option.splits)
  qed
qed simp

text \<open>C36: loading never leaves its areas: whatever the files are and whether loading succeeds or fails, no byte changes
  that is outside the areas of the images, each from its address up to its greatest size, and the area of the board's
  configuration.\<close>

theorem images_stay_in_place:
  assumes "load_os files sc mem = Some (r, sc', mem')" "outside_areas sc x"
  shows "mem' x = mem x"
proof -
  obtain ok sc1 mem1 where l: "load_images files sc mem 0 (nat (sint (segmentSectionCount sc))) = Some (ok, sc1, mem1)"
    using assms(1) by (auto simp: load_os_def Option.bind_eq_Some_conv)
  note o = load_images_outside [OF l assms(2)]
  show ?thesis
  proof (cases "ok \<and> is_baseAddr sc \<noteq> 0")
    case False
    then show ?thesis using assms(1) l o by (auto simp: load_os_def Option.bind_eq_Some_conv split: if_splits)
  next
    case True
    then obtain m where m: "copy_memory (is_baseAddr sc) 0x42F00000 (is_maxSize sc) mem1 = Some m" "mem' = m"
      using assms(1) l o by (auto simp: load_os_def Option.bind_eq_Some_conv)
    have "m x = mem1 x"
      using m(1) assms(2) True by (auto simp: copy_memory_def store_outside outside_areas_def split: if_splits)
    then show ?thesis using m(2) o by simp
  qed
qed

section \<open>From the configuration to the system\<close>

definition apart :: "u32 \<Rightarrow> nat \<Rightarrow> u32 \<Rightarrow> nat \<Rightarrow> bool" where
  "apart a n b m \<longleftrightarrow> n \<le> unat (b - a) \<and> m \<le> unat (a - b)"

lemma apart_sym: "apart a n b m \<Longrightarrow> apart b m a n"
  by (simp add: apart_def)

lemma unat_bound32: "unat (w :: u32) < 2 ^ 32"
  by (rule order_less_le_trans [OF unsigned_less]) simp

lemma mod_sum_full:
  fixes u v N :: nat
  assumes "0 < u" "u < N" "v < N" "(u + v) mod N = 0"
  shows "u + v = N"
proof -
  obtain k where k: "u + v = N * k" using assms(4) by (auto simp: mod_eq_0_iff_dvd)
  have "k < 2"
  proof (rule ccontr)
    assume "\<not> k < 2"
    then have "N * 2 \<le> N * k" by simp
    then show False using k assms(2,3) by linarith
  qed
  moreover have "k \<noteq> 0" using k assms(1) by (metis add_is_0 less_irrefl mult_0_right)
  ultimately have "k = 1" by simp
  then show ?thesis using k by simp
qed

lemma store_apart:
  assumes "apart a n b m" "k \<le> n" "length bs \<le> m"
  shows "load_bytes a k (store_bytes b bs mem) = load_bytes a k mem"
proof (rule load_cong)
  fix i assume i: "i < k"
  have ne: "a \<noteq> b" using i assms(1,2) by (auto simp: apart_def)
  have "unat (a - b) + unat (b - a) = 2 ^ 32"
  proof -
    have "unat ((a - b) + (b - a)) = (unat (a - b) + unat (b - a)) mod 2 ^ 32" by (simp only: unat_word_ariths) simp
    moreover have "(a - b) + (b - a) = 0" by simp
    ultimately have m: "(unat (a - b) + unat (b - a)) mod 2 ^ 32 = 0" by simp
    have "0 < unat (a - b)" using ne by (simp add: unat_gt_0)
    from mod_sum_full [OF this _ _ m] show ?thesis using unat_bound32 by simp
  qed
  then have lt: "unat (a - b) + i < 2 ^ 32" using i assms(1,2) unat_bound32 [of "a - b"] by (simp add: apart_def)
  then have "unat (a - b + of_nat i) = unat (a - b) + i" by (simp add: unat_word_ariths unat_of_nat)
  moreover have "a + of_nat i - b = a - b + of_nat i" by simp
  ultimately have "unat (a + of_nat i - b) = unat (a - b) + i" by (simp only:)
  then show "store_bytes b bs mem (a + of_nat i) = mem (a + of_nat i)"
    using assms(1,3) by (intro store_outside) (simp add: apart_def)
qed

definition areas_apart :: "OSImage \<Rightarrow> OSImage \<Rightarrow> bool" where
  "areas_apart im jm \<longleftrightarrow> apart (im_baseAddr im) (unat (im_maxSize im)) (im_baseAddr jm) (unat (im_maxSize jm))"

lemma image_file_fits: "image_ready files im \<Longrightarrow> length (image_file files im) \<le> unat (im_maxSize im)"
  by (auto simp: image_ready_def image_file_def dest: sint_le_unat)

lemma put_images_apart:
  assumes "\<forall>jm \<in> set ims. image_ready files jm \<and> apart a n (im_baseAddr jm) (unat (im_maxSize jm))" "k \<le> n"
  shows "load_bytes a k (put_images files ims mem) = load_bytes a k mem"
  using assms(1)
proof (induction ims arbitrary: mem)
  case (Cons jm ims)
  then have "load_bytes a k (store_bytes (im_baseAddr jm) (image_file files jm) mem) = load_bytes a k mem"
    using store_apart [of a n "im_baseAddr jm" "unat (im_maxSize jm)" k] image_file_fits assms(2) by simp
  then show ?case using Cons by (simp add: put_images_def)
qed (simp add: put_images_def)

lemma put_images_contents:
  assumes "\<forall>im \<in> set ims. image_ready files im" "sorted_wrt areas_apart ims" "im \<in> set ims"
  shows "load_bytes (im_baseAddr im) (length (image_file files im)) (put_images files ims mem) = image_file files im"
  using assms
proof (induction ims arbitrary: mem)
  case (Cons jm ims)
  show ?case
  proof (cases "im \<in> set ims")
    case True
    then show ?thesis using Cons by (simp add: put_images_def)
  next
    case False
    then have im: "im = jm" using Cons.prems(3) by simp
    have fit: "length (image_file files jm) \<le> unat (im_maxSize jm)" using image_file_fits Cons.prems(1) by simp
    have "load_bytes (im_baseAddr jm) (length (image_file files jm)) (put_images files ims mem') =
        load_bytes (im_baseAddr jm) (length (image_file files jm)) mem'" for mem'
      using Cons.prems(1,2) by (intro put_images_apart [OF _ fit]) (simp add: areas_apart_def)
    moreover have "length (image_file files jm) \<le> 2 ^ 32" using fit unat_bound32 [of "im_maxSize jm"] by linarith
    ultimately show ?thesis by (simp add: im put_images_def load_store_same)
  qed
qed simp

definition loadable :: "(string \<Rightarrow> u8 list option) \<Rightarrow> os_conf \<Rightarrow> bool" where
  "loadable files c \<longleftrightarrow> good_os c \<and> oc_images c \<noteq> [] \<and> (\<forall>im \<in> set (oc_images c). image_ready files (image_of im))
     \<and> sorted_wrt areas_apart (map image_of (oc_images c))
     \<and> (let b = of_nat (oc_script_base c); n = unat (of_nat (oc_script_size c) :: u32) in b \<noteq> 0 \<longrightarrow> apart b n 0x42F00000 n
        \<and> (\<forall>im \<in> set (oc_images c). apart b n (im_baseAddr (image_of im)) (unat (im_maxSize (image_of im)))))"

lemma load_os_loadable:
  assumes "loadable files c"
  shows "\<exists>sc' mem'. load_os files (os_script c) mem
      = Some (Some (im_baseAddr (images_of (oc_images c) ! 0), im_baseAddr (images_of (oc_images c) ! 1)), sc', mem')
    \<and> (\<forall>im \<in> set (oc_images c). load_bytes (im_baseAddr (image_of im)) (length (image_file files (image_of im))) mem'
        = image_file files (image_of im))"
proof -
  let ?ims = "oc_images c" and ?sc = "os_script c"
  have n: "length ?ims \<le> 16" "\<forall>im \<in> set ?ims. image_ready files (image_of im)" "sorted_wrt areas_apart (map image_of ?ims)"
    using assms by (simp_all add: loadable_def good_os_def)
  have take: "take (length ?ims) (drop 0 (images ?sc)) = map image_of ?ims" by (simp add: os_script_def images_of_def)
  have len: "length (images ?sc) = 16" using n(1) by (simp add: os_script_def images_of_def)
  have cnt: "nat (sint (segmentSectionCount ?sc)) = length ?ims"
    using n(1) by (simp add: os_script_def signed_of_nat) (simp add: signed_take_bit_int_eq_self)
  obtain ims where l: "load_images files ?sc mem 0 (length ?ims) = Some (True, ?sc\<lparr>images := ims\<rparr>, put_images files (map image_of ?ims) mem)"
      "map im_baseAddr ims = map im_baseAddr (images ?sc)"
    using load_images_ready [of 0 "length ?ims" ?sc files mem] n(1,2) unfolding take by (auto simp: len)
  define m1 where "m1 = put_images files (map image_of ?ims) mem"
  have c1: "load_bytes (im_baseAddr (image_of im)) (length (image_file files (image_of im))) m1 = image_file files (image_of im)"
    if "im \<in> set ?ims" for im
    unfolding m1_def by (rule put_images_contents) (use n that in auto)
  have li: "length ims = 16" using l(2) len by (metis length_map)
  have bases: "im_baseAddr (ims ! j) = im_baseAddr (images_of ?ims ! j)" if "j < 16" for j
  proof -
    have "map im_baseAddr ims ! j = map im_baseAddr (images ?sc) ! j" using l(2) by simp
    then show ?thesis using that li len by (simp add: os_script_def)
  qed
  show ?thesis
  proof (cases "is_baseAddr ?sc = 0")
    case True
    then have "load_os files ?sc mem = Some (Some (im_baseAddr (images_of ?ims ! 0), im_baseAddr (images_of ?ims ! 1)), ?sc\<lparr>images := ims\<rparr>, m1)"
      using l(1) li bases by (simp add: load_os_def cnt m1_def)
    then show ?thesis using c1 by auto
  next
    case False
    define b n' where "b = is_baseAddr ?sc" and "n' = is_maxSize ?sc"
    have ap: "apart b (unat n') 0x42F00000 (unat n')"
        "\<forall>im \<in> set ?ims. apart b (unat n') (im_baseAddr (image_of im)) (unat (im_maxSize (image_of im)))"
      using assms False by (simp_all add: loadable_def os_script_def b_def n'_def Let_def)
    define m2 where "m2 = (if b = 0x42F00000 then m1 else store_bytes b (load_bytes 0x42F00000 (unat n') m1) m1)"
    have "copy_memory b 0x42F00000 n' m1 = Some m2"
      using ap(1) by (auto simp: copy_memory_def m2_def apart_def word_less_nat_alt)
    then have lo: "\<exists>sc'. load_os files ?sc mem = Some (Some (im_baseAddr (images_of ?ims ! 0), im_baseAddr (images_of ?ims ! 1)), sc', m2)"
      using l(1) li bases False by (simp add: load_os_def cnt m1_def b_def n'_def)
    have "load_bytes (im_baseAddr (image_of im)) (length (image_file files (image_of im))) m2 = image_file files (image_of im)"
      if im: "im \<in> set ?ims" for im
    proof -
      have "apart (im_baseAddr (image_of im)) (unat (im_maxSize (image_of im))) b (unat n')" using ap(2) im apart_sym by blast
      from store_apart [OF this, of "length (image_file files (image_of im))" "load_bytes 0x42F00000 (unat n') m1"]
      show ?thesis using c1 [OF im] image_file_fits n(2) im by (simp add: m2_def)
    qed
    then show ?thesis using lo by blast
  qed
qed

definition system_path :: "string \<Rightarrow> string" where
  "system_path s = ''c:'' @ [CHR 0x5C] @ s @ [CHR 0x5C] @ s @ ''.ini''"

lemma os_path_plain:
  assumes "plain_name s"
  shows "os_path s = Some (system_path s)"
proof -
  have "cpy_unix2dos t = t" if "LF \<notin> set t" for t using that by (induction t) (auto simp: cpy_unix2dos_def)
  then have "cpy_unix2dos s = s" using assms by (simp add: plain_name_def)
  then show ?thesis using assms by (simp add: os_path_def system_path_def plain_name_def)
qed

lemma cstring_field32: "NUL \<notin> set s \<Longrightarrow> cstring (field32 s) = s"
  unfolding cstring_def field32_def by (subst takeWhile_append2) (auto simp: takeWhile_replicate)

lemma field_text_plain: "plain_name s \<Longrightarrow> field_text (field32 s) = Some s"
  by (simp add: field_text_def cstring_field32 plain_name_def) (simp add: field32_def)

lemma sint_small: "n < 2 ^ 31 \<Longrightarrow> sint (of_nat n :: u32) = int n"
  by (simp add: signed_of_nat) (simp add: signed_take_bit_int_eq_self)

text \<open>C33: the configured system starts by itself: when \<open>boot.ini\<close> names at most eight systems and the one to start, the
  file of that system names images that fit and lie apart, and no key is pressed, the program jumps to the
  first image after fifty polls for each unit of the configured time and one more, and memory then holds every image file
  at its address.\<close>

theorem boots_configured_system:
  assumes "good_config c" "i < length (cf_systems c)" "cf_systems c ! i = cf_start c" "\<forall>j < i. cf_systems c ! j \<noteq> cf_start c"
    and "cf_timeout c < 2 ^ 31"
    and "file_text fw boot_ini_path = Some (ini_text (config_lines c))"
    and "file_text fw (system_path (cf_start c)) = Some (ini_text (os_lines oc))"
    and "loadable (fw_files fw) oc" "\<forall>n. fw_room fw n" "WriteMiscPart [] (os_disk st) = Some disk"
  shows "\<exists>st'. BootMain fw True 0 st (replicate (50 * cf_timeout c + 1) (- 1) @ ks)
      = Done (Jump (im_baseAddr (images_of (oc_images oc) ! 0)) (im_baseAddr (images_of (oc_images oc) ! 1)), st')
    \<and> (\<forall>im \<in> set (oc_images oc). load_bytes (im_baseAddr (image_of im)) (length (image_file (fw_files fw) (image_of im))) (os_mem st')
        = image_file (fw_files fw) (image_of im))"
proof -
  let ?n = "length (cf_systems c)"
  define ini where "ini = config_ini c i"
  define keys where "keys = replicate (50 * cf_timeout c + 1) (- 1) @ ks"
  have names: "plain_name (cf_start c)" "?n \<le> 8" "\<forall>t \<in> set (cf_systems c). plain_name t"
    using assms(1) by (auto simp: good_config_def)
  have parse: "script_patch (file_text fw) (\<lambda>n. fw_room fw (int n)) parser_script_os_sel (Some boot_ini_path) zero_ini = Some (0, ini)"
    using boot_ini_roundtrip [OF assms(1-4)] assms(6,9) by (simp add: script_patch_def ini_def)
  have counts: "sint (osCount ini) = int ?n" "sint (startOSNum ini) = int i" "sint (bi_timeout ini) = int (cf_timeout c)"
    using assms(2,5) names(2) by (simp_all add: ini_def config_ini_def sint_small)
  have oss: "osNames ini = map field32 (cf_systems c) @ replicate (8 - ?n) (field32 [])" by (simp add: ini_def config_ini_def)
  have "NUL \<in> set (field32 t)" if "plain_name t" for t using that by (simp add: field32_def plain_name_def)
  then have "good_menu ini" using assms(2) names counts(1) by (auto simp: good_menu_def oss plain_name_def)
  from menu_times_out [OF this _ _ counts(3), of "- 1" ks] obtain ch where
    ch: "SelectBoot ini (- 1) keys = Done ch" "ch_result ch = int i" "ch_ini ch = ini\<lparr>bi_timeout := - 1\<rparr>"
    using assms(2) unfolding keys_def [symmetric] by (auto simp: counts)
  define st1 where "st1 = st\<lparr>os_disk := disk, os_ini := ch_ini ch, os_key := ch_old ch\<rparr>"
  have g: "i < length (osNames (os_ini st1))" "osNames (os_ini st1) ! i = field32 (cf_start c)"
    using assms(2,3) by (simp_all add: st1_def ch(3) oss nth_append)
  have good: "good_os oc" using assms(8) by (simp add: loadable_def)
  have sys: "script_patch (file_text fw) (\<lambda>n. fw_room fw (int n)) (parser_script_os_img (fw_memtop fw)) (Some (system_path (cf_start c))) empty_script
      = Some (0, os_script oc)"
    using os_file_roundtrip [OF good] assms(7,9) by (simp add: script_patch_def)
  obtain sc' mem' where l: "load_os (fw_files fw) (os_script oc) (os_mem st1)
      = Some (Some (im_baseAddr (images_of (oc_images oc) ! 0), im_baseAddr (images_of (oc_images oc) ! 1)), sc', mem')"
    "\<forall>im \<in> set (oc_images oc). load_bytes (im_baseAddr (image_of im)) (length (image_file (fw_files fw) (image_of im))) mem'
        = image_file (fw_files fw) (image_of im)"
    using load_os_loadable [OF assms(8)] by blast
  have "logoShow (os_script oc) = 0" by (simp add: os_script_def empty_script_def)
  then have t: "try_os fw (int i) st1 = Some (Some (im_baseAddr (images_of (oc_images oc) ! 0), im_baseAddr (images_of (oc_images oc) ! 1)),
      Some (logoOff (os_script oc)), st1\<lparr>os_mem := mem', os_screen := os_screen st1\<rparr>)"
    using g names(1) sys l(1) by (simp add: try_os_def field_text_plain os_path_plain PreBootOS_def ShowLogo_def)
  have m: "misc_choice (int i) (os_disk st) = Some (int i, disk)" using assms(10) by (simp add: misc_choice_def)
  have "detect_os fw 0 (st\<lparr>os_ini := ini, os_key := - 1\<rparr>) keys
      = Done (Loaded (im_baseAddr (images_of (oc_images oc) ! 0)) (im_baseAddr (images_of (oc_images oc) ! 1)) (logoOff (os_script oc)),
          st1\<lparr>os_mem := mem'\<rparr>, ch_keys ch)"
    by (subst detect_os.simps) (simp add: ch(1,2) m t st1_def [symmetric])
  then show ?thesis unfolding keys_def [symmetric] using l(2) parse assms(9) by (auto simp: BootMain_def)
qed

section \<open>Concrete inputs\<close>

definition sample_config :: boot_config where
  "sample_config = \<lparr>cf_start = ''debian'', cf_timeout = 1, cf_device = 0, cf_mode = 0, cf_systems = [''linux'', ''debian'']\<rparr>"

definition sample_os :: os_conf where
  "sample_os = \<lparr>oc_images = [\<lparr>ic_name = ''uboot.bin'', ic_size = 16, ic_base = 1241513984\<rparr>],
     oc_script_base = 1124073472, oc_script_size = 65536\<rparr>"

definition sample_files :: "string \<Rightarrow> u8 list option" where
  "sample_files = [boot_ini_path \<mapsto> map char_byte (ini_text (config_lines sample_config)),
     system_path ''debian'' \<mapsto> map char_byte (ini_text (os_lines sample_os)), ''uboot.bin'' \<mapsto> [1, 2, 3]]"

definition sample_firmware :: firmware where
  "sample_firmware = \<lparr>fw_files = sample_files, fw_room = (\<lambda>_. True), fw_memtop = 0\<rparr>"

definition sample_os_state :: os_state where
  "sample_os_state = \<lparr>os_mem = (\<lambda>_. 0), os_screen = \<lparr>scr_width = 0, scr_height = 0, scr_buf = []\<rparr>, os_disk = (\<lambda>_. replicate 512 0),
     os_ini = zero_ini, os_key = - 1\<rparr>"

definition sample_misc :: mbr_data where
  "sample_misc = \<lparr>md_version = 0x100, md_partitions =
     [\<lparr>mp_firstSector = 8, mp_sectorCount = 100, mp_classname = ''DISK'', mp_name = ''misc'', mp_user_type = 0, mp_ro = 0\<rparr>]\<rparr>"

lemma show_dec_small: "n < 10 \<Longrightarrow> length (show_dec n) = 1"
  by (subst show_dec.simps) simp

lemma show_dec_bound: "n < 10 ^ Suc k \<Longrightarrow> length (show_dec n) \<le> Suc k"
proof (induction k arbitrary: n)
  case 0
  then show ?case by (simp add: show_dec_small)
next
  case (Suc k)
  have "n div 10 < 10 ^ Suc k" using Suc.prems by (simp add: less_mult_imp_div_less)
  from Suc.IH [OF this] show ?case by (subst show_dec.simps) simp
qed

lemma short_number_bound: "n < 10 ^ 12 \<Longrightarrow> length (show_dec n) < 100"
  using show_dec_bound [of n 11] by simp

theorem boots_configured_system_witness:
  "\<exists>st'. BootMain sample_firmware True 0 sample_os_state (replicate 51 (- 1)) = Done (Jump 1241513984 0, st')
    \<and> load_bytes 1241513984 3 (os_mem st') = [1, 2, 3]"
proof -
  have files: "sample_files boot_ini_path = Some (map char_byte (ini_text (config_lines sample_config)))"
      "sample_files (system_path ''debian'') = Some (map char_byte (ini_text (os_lines sample_os)))"
      "sample_files ''uboot.bin'' = Some [1, 2, 3]"
    by (simp_all add: sample_files_def boot_ini_path_def system_path_def)
  have conf: "good_config sample_config"
    using short_number_bound
    by (simp add: good_config_def sample_config_def plain_name_def number_type_of_def char_at_def is_x_def dec_digit_def ascii_def)
  have good: "good_os sample_os"
    using short_number_bound
    by (simp add: good_os_def good_image_def sample_os_def plain_name_def number_type_of_def char_at_def is_x_def dec_digit_def ascii_def
        short_number_def)
  have f: "cstring (field32 ''uboot.bin'') = ''uboot.bin''" "NUL \<in> set (field32 ''uboot.bin'')"
    by (simp_all add: cstring_field32) (simp add: field32_def)
  have "loadable sample_files sample_os"
    using good files(3) f
    by (simp add: loadable_def sample_os_def image_ready_def image_of_def areas_apart_def apart_def)
  moreover have "WriteMiscPart [] (os_disk sample_os_state) = Some (os_disk sample_os_state)"
    by (simp add: WriteMiscPart_def sample_os_state_def Let_def mk16_def nth_append)
  moreover have "im_baseAddr (images_of (oc_images sample_os) ! 0) = 1241513984" "im_baseAddr (images_of (oc_images sample_os) ! 1) = 0"
    by (simp_all add: images_of_def sample_os_def image_of_def empty_image_def)
  moreover have "oc_images sample_os = [\<lparr>ic_name = ''uboot.bin'', ic_size = 16, ic_base = 1241513984\<rparr>]"
    by (simp add: sample_os_def)
  moreover have "50 * cf_timeout sample_config + 1 = 51" by (simp add: sample_config_def)
  note run = boots_configured_system [of sample_config 1 sample_firmware sample_os sample_os_state "os_disk sample_os_state" "[]", unfolded this]
  ultimately show ?thesis
    using run conf files f
    by (simp add: sample_firmware_def file_text_def image_of_def image_file_def) (simp add: sample_config_def numeral_3_eq_3)
qed

theorem misc_part_written_witness:
  "\<exists>buf. WriteMiscPart ''boot-recovery'' (\<lambda>x. if x = 0 then take 512 (mbr_bytes 0 0 0 sample_misc)
       else if x = 1 then drop 512 (mbr_bytes 0 0 0 sample_misc) else replicate 512 7)
     = Some ((\<lambda>x. if x = 0 then take 512 (mbr_bytes 0 0 0 sample_misc)
       else if x = 1 then drop 512 (mbr_bytes 0 0 0 sample_misc) else replicate 512 7)(8 := buf))
   \<and> length buf = 512 \<and> cstring (chars buf) = ''boot-recovery'' \<and> drop 32 buf = drop 32 (replicate 512 7)"
proof -
  let ?d = "\<lambda>x :: u32. if x = 0 then take 512 (mbr_bytes 0 0 0 sample_misc)
       else if x = 1 then drop 512 (mbr_bytes 0 0 0 sample_misc) else replicate 512 7"
  have "good_name ''DISK''" "good_name ''misc''" by (simp_all add: good_name_def char_code_def)
  then have "\<forall>q \<in> set (md_partitions sample_misc). good_partition q" by (simp add: sample_misc_def good_partition_def)
  from misc_part_written [of ?d 0 0 0 sample_misc, OF _ _ this, of "md_partitions sample_misc ! 0" 8 "''boot-recovery''"]
  show ?thesis by (simp add: sample_misc_def)
qed

theorem images_stay_in_place_witness:
  "\<exists>r sc' mem'. load_os (\<lambda>_. Some [1, 2, 3]) (os_script sample_os) (\<lambda>_. 9) = Some (r, sc', mem') \<and> mem' 5 = 9"
proof -
  have "loadable (\<lambda>_. Some [1, 2, 3]) sample_os"
    using short_number_bound
    by (simp add: loadable_def sample_os_def image_ready_def image_of_def areas_apart_def apart_def good_os_def good_image_def
        plain_name_def number_type_of_def char_at_def is_x_def dec_digit_def ascii_def short_number_def) (simp add: field32_def)
  from load_os_loadable [OF this, of "\<lambda>_. 9"] obtain r sc' mem' where
    l: "load_os (\<lambda>_. Some [1, 2, 3]) (os_script sample_os) (\<lambda>_. 9) = Some (r, sc', mem')" by blast
  have "outside_areas (os_script sample_os) 5"
    by (simp add: outside_areas_def os_script_def sample_os_def images_of_def image_of_def empty_image_def empty_script_def)
  from images_stay_in_place [OF l this] l show ?thesis by auto
qed

end
