(* ===== verification/Spec2Isabelle.thy ===== *)
theory Spec2Isabelle
  imports Logic_Cache Wear_Level Format_Props Phy_Safe Boot_Write Scan_Props Heap_Props Host_Props Loader_Props
begin

text \<open>
  A verification library for two programs of Novo7Tools. \<open>allwindisk\<close> turns the NAND chips of an Allwinner A10
  tablet into a disk of 512 byte sectors and serves it over USB; \<open>boot-axf\<close> is the tablet's boot loader, which
  lets the user choose among operating systems. Paths are below \<open>src/allwindisk\<close>, or below \<open>src\<close> when they
  begin with \<open>boot-axf\<close>; the driver is \<open>arm/nand_sunxi\<close>, and file names without a directory of \<open>arm\<close> are in its
  \<open>src\<close> directory.

  \<^bold>\<open>The program.\<close> The host loads a small program into the tablet. That program answers commands in bulk
  packets (\<open>arm/main.c\<close>), lets the host mount a window of the disk as a USB stick (\<open>arm/masstorage.c\<close>), and
  drives the flash in layers: the flash controller (\<open>ndfc\<close>), the physic layer with pages, planes, banks and
  the boot area (\<open>physic\<close>), the bus scan that recognises the chips (\<open>scan\<close>), the logic layer (\<open>logic\<close>), and
  the format and power-on scan (\<open>format\<close>). The logic layer is the core. A zone has 1024 physical super
  blocks: data blocks, free blocks and up to 16 log blocks. A write goes to the log block of the logical
  block, a page mapping table says which log page is the newest version of a logical page, and a full log
  block is merged with its data block. Both kinds of tables are cached in pools of four and written back to
  flash with a checksum.

  The boot loader reads \<open>boot.ini\<close>, shows a menu with a countdown, reads the file of the chosen system, copies
  its images to memory and jumps to the first one. For two of the choices it leaves a message for the system
  in the partition \<open>misc\<close>, which it finds in the table that the host program writes.

  \<^bold>\<open>The theories.\<close> Common ground:
  \<^item> \<open>Novo_Prelude\<close>: words of 8, 16 and 32 bits and their little-endian bytes, checked array access, the
    judgements \<open>post\<close> and \<open>total\<close>, search loops, multisets under update;
  \<^item> \<open>Nand_State\<close>: the structs and macros of \<open>include/*.h\<close>, the driver state \<open>drv\<close> and the physic layer's
    interface \<open>phy_ops\<close>;
  \<^item> \<open>Sample_Device\<close>: a small device on which the witnesses evaluate.

  The logic layer, over any \<open>phy_ops\<close>:
  \<^item> \<open>Block_Tables\<close>, \<open>Log_Page\<close>: \<open>logic/mapping_base.c\<close>, data, free and log block items, log block creation
    and the choice of log pages;
  \<^item> \<open>Virtual_Page\<close>: \<open>logic/logic_ctl.c\<close>, sectors to pages to chip addresses, super page primitives;
  \<^item> \<open>Bad_Manage\<close>, \<open>Merge\<close>, \<open>Merge_Total\<close>, \<open>Wear_Level\<close>: \<open>logic/bad_manage.c\<close>, \<open>merge.c\<close>,
    \<open>wear_levelling.c\<close>, with conservation of blocks and totality;
  \<^item> \<open>Table_Cache\<close>: \<open>logic/mapping.c\<close>, table images, cache pools, write back and rebuild;
  \<^item> \<open>Logic_Ctl\<close>, \<open>Logic_Cache\<close>: \<open>logic/logic_ctl.c\<close>, \<open>read_reclaim.c\<close>, \<open>logic_cache.c\<close>.

  Formatting, over the same interface: \<open>Format_Page\<close> (page operations), \<open>Format_Tables\<close> (scan of a die, zone
  tables), \<open>Format_Main\<close> (free block distribution, table blocks, \<open>FMT_FormatNand\<close>), \<open>Format_Props\<close> (table
  images written here are found and agree with those of \<open>mapping.c\<close>).

  The chips, over a controller \<open>nfc_hw\<close>:
  \<^item> \<open>Nfc_State\<close>, \<open>Nfc_Page\<close>, \<open>Nfc_Retry\<close>: \<open>ndfc/nfc_r.c\<close>, \<open>nfc_w.c\<close>, the controller's registers and
    command sequences;
  \<^item> \<open>Phy_Addr\<close>, \<open>Phy_Read\<close>, \<open>Phy_Write\<close>, \<open>Phy_Boot\<close>: \<open>physic/*.c\<close>; \<open>Phy_Props\<close> and \<open>Phy_Invariant\<close>: addresses,
    and invariants of the controller as the locales \<open>nfc_inv\<close> and \<open>phys_inv\<close>;
  \<^item> \<open>Physic_Layer\<close>: the physic layer as an instance of \<open>phy_ops\<close>, with the laws the logic layer needs;
    \<open>Phy_Safe\<close>: its operations never access anything outside a buffer, a table or a command list (the locale
    \<open>nfc_safe\<close>), and \<open>PHY_ChangeMode\<close> leads to a state where they may be called;
  \<^item> \<open>Boot_Area\<close>, \<open>Boot_Write\<close>: the boot area as a sequence of sectors that reads and writes refine;
  \<^item> \<open>Nand_Id\<close>, \<open>Nand_Scan\<close>, \<open>Scan_Props\<close>: \<open>scan/*.c\<close>, the chip tables row by row, the lookup, the bus scan
    and what it leaves in the storage information;
  \<^item> \<open>Nand_Driver\<close>: \<open>nand_drv/nand_for_uboot.c\<close>, the layers put together.

  The device program:
  \<^item> \<open>Heap_Alloc\<close>, \<open>Heap_Props\<close>: \<open>arm/malloc.c\<close>, a buddy allocator, refined to a map of chunks;
  \<^item> \<open>Mass_Storage\<close>: \<open>arm/masstorage.c\<close>, over a record \<open>disk\<close> of three functions; \<open>Mass_Window\<close>: no command
    leaves the mounted window; \<open>Mass_Commands\<close>: single commands; \<open>Mass_Serve\<close>: every packet that keeps to the
    protocol is answered;
  \<^item> \<open>Boot_Disk\<close>, \<open>Boot_Props\<close>: \<open>arm/main.c\<close>, with \<open>nand_disk\<close>, the driver as the \<open>disk\<close> of the mass storage
    function.

  The host program:
  \<^item> \<open>Host_Usb\<close>: \<open>usbcomm.c\<close>, commands and responses over a record \<open>link\<close> of the two transfers of \<open>libusb\<close>, the
    flash properties and the partition table; \<open>Host_Tool\<close>: \<open>allwindisk.c\<close> and \<open>egon.c\<close>, the commands of the
    command line, over a record \<open>host_os\<close> of files and memory;
  \<^item> \<open>Host_Calls\<close>: \<open>device_link\<close>, the device program of \<open>Boot_Disk\<close> as the other end of the link, and what
    commands do across it; \<open>Host_Props\<close>: files to memory and back, filling of memory, the partition table;
    \<open>Host_Image\<close>: the content of the boot area.

  The boot loader, over a record \<open>firmware\<close> of the files and the memory that the first boot loader gives:
  \<^item> \<open>Boot_Script\<close>, \<open>Script_Props\<close>: \<open>boot-axf/script.c\<close>, the two parsers, line by line on texts made of lines (the locale
    \<open>line_parser\<close>, interpreted for both);
  \<^item> \<open>Boot_Screen\<close>: \<open>boot-axf/picture.c\<close>, picture files and their place on the screen;
  \<^item> \<open>Boot_Menu\<close>, \<open>Menu_Props\<close>: \<open>boot-axf/bootos.c\<close> and \<open>bootmain.c\<close>, keys, menu, loading, and the program as a
    whole; \<open>Loader_Props\<close>: from the configuration to the jump, and the partition \<open>misc\<close>.

  \<^bold>\<open>Conventions.\<close> State is passed explicitly. An array access outside the array gives \<^term>\<open>None\<close>, and every
  function of an option type uses \<^term>\<open>None\<close> in this one sense: behaviour the C code does not define (or,
  for the loops named below, a loop that does not end). Error codes are the integers of the code. Pointers
  into pools are indices, buffers are byte lists; the mass storage function and the command loop, which pass
  addresses, work on a flat memory from 32 bit addresses to bytes, beside which the variables of the program
  and of the driver are kept. The layers below are parameters: \<open>phy_ops\<close> with an arbitrary device state for
  the logic and format layers, \<open>nfc_hw\<close> (registers, RAM, DMA) with an arbitrary hardware state for the physic
  layer, so a register read may give any value. \<open>Physic_Layer\<close> discharges the laws on \<open>phy_ops\<close>. The machine
  code that \<open>BCMD_MEMEXEC\<close> calls and the places the allocator gave the driver are parameters of \<open>Boot_Disk\<close>; whether \<open>PHY_ChangeMode\<close> gets its
  page caches is decided by the function \<open>hw_malloc\<close> of \<open>nfc_hw\<close>.
  Packets arrive as arguments of the two handlers; what is sent is a list of replies in the state. A call of \<open>exit\<close>
  in the host program is a value of \<open>outcome\<close>. In the boot loader a run that still waits for a key is told
  from one with undefined behaviour by the type \<open>boot_run\<close>; the keys are a list of what each poll will see.

  \<^bold>\<open>Loops.\<close> No fuel is used. A loop over an index is structural recursion on the rounds to go; a retry on a
  replacement block takes a block out of the free pool, so the size of the pool is the first measure of the
  retry loops; the loops of the boot loader use up text or keys. Waits for a status register, the loops of the allocator, \<open>mem_strlen\<close> and
  \<open>get_first_valid_bit\<close> have no bound in the code: they are \<open>partial_function (option)\<close>, and the theorems about the
  allocator and the mass storage function state that they return. The distribution of the rest of the free
  blocks is a \<open>while_option\<close>: it ends when each zone can take blocks, and it hangs otherwise
  (\<open>distribute_rest_ends\<close>, \<open>distribute_rest_hangs\<close>). The theorems about \<open>LML_BadBlkManage\<close>,
  \<open>LML_MergeLogBlk\<close> and \<open>LML_WearLevelling\<close> state that a result is returned, for every behaviour of a physic
  layer that keeps the sizes of its buffers.

  \<^bold>\<open>What the lemmas show.\<close> Logic layer: the free pool hands out the block of least (or highest) erase count,
  each once; no operation of bad block management, merge or wear levelling ever puts a block into a zone
  twice (a special merge without bank alignment is excluded), and wear levelling loses none that the flash does not
  report as bad; sector ranges are covered exactly by their pages and super pages have distinct chip addresses; spare
  data and table images survive a round trip; a page goes to the next free log page of its bank. Format: each
  block of a die is classified once, none is lost, the tables written are read back. Physic layer: address
  cycles decode to the block and page meant, no operation leaves its buffers on a chip with the geometry of a
  scan, without two-plane reads and without read retry or with that of the Hynix kind, the randomizer is off after
  each operation, boot area reads and writes are exact except for the writes that shift a tail. Scan: the most
  specific table row wins and gives a consistent geometry with connected banks. Allocator: chunks tile the
  area and never overlap, freeing all leaves one chunk, a request that fits is served. Mass storage: commands
  stay in a window that does not wrap around, each is answered by one status, reads and writes carry the sectors; and three ways in
  which a refused or wrapped command misbehaves. Command loop: a command is carried out once however its data
  is cut into packets, and a header with a wrong magic number is still carried out, on the bytes left from before
  and the data that follow. Host: a command is one call
  of the device; a file written to memory is read back; the boot area is made of copies of the image with their
  size and checksum, unless the fills overrun the buffer, as they do for an image larger than half the area. Boot loader: a configuration is read as it was written;
  the highlighted line is what is started; without a key the configured system is loaded and started after the
  configured time, and without a start system and with fewer than eight systems none ever is; loading changes no memory outside the areas
  of the images.

  \<^bold>\<open>Not modelled.\<close> The registers of the DMA and USB controllers, the memory controller's start-up and the board's
  clocks (\<open>arm/sunxi_dma.c\<close>, \<open>usbc*.c\<close>, \<open>usbdcomm.c\<close>, \<open>draminit.c\<close>, \<open>board.c\<close>): input and output of
  hardware. Debug output and the text of the device's log with its formatting (\<open>vsprintf.c\<close>, \<open>string.c\<close>),
  which no command depends on. Functions nothing calls (\<open>_read_sectors_for_spare\<close>, \<open>PHY_FreePageCheck\<close>) and
  code under \<open>#if 0\<close>. The connection of the host to the device (\<open>fel.c\<close>, \<open>usbcomm_init\<close>) and the layout of
  what the host prints. Of the boot loader: power management and battery display (\<open>boot-axf/power.c\<close>), the
  characters' pixels (\<open>fbprint.c\<close>), the USB device and the calls of the first boot loader (\<open>usb_device.c\<close>,
  \<open>syscalls.c\<close>, most of \<open>display_interface.c\<close>). Its decompiled original \<open>boot-axf-org\<close>, \<open>arm-dis\<close> (GNU binutils), the Debian patches and the USB test tools.
\<close>

end
